(* ===== verification/Prelude.thy ===== *)
theory Prelude
  imports Complex_Main "HOL-Library.Sublist"
begin

text \<open>
  Shared ground of the development: the JSON values the program reads back from its state
  files, the Python operations on them that several components use, the text helpers behind
  the host keys, and the generic list lemmas the component proofs share.

  Times are wall-clock seconds. The program computes them as floats; the model takes exact
  rationals, so rounding of floating point is the one thing this library leaves out of them.
  Text is ASCII: \<open>string\<close> is a list of bytes and the case mapping below is ASCII case mapping.
\<close>

section \<open>Named collections\<close>

named_theorems py_simps \<open>unfolding rules of the Python operations on JSON values\<close>
named_theorems text_simps \<open>unfolding rules of the text helpers\<close>

type_synonym seconds = rat

section \<open>JSON values as Python reads them\<close>

text \<open>
  A value of a parsed JSON document. A missing key reads as \<open>PNull\<close>, which is what
  \<open>dict.get\<close> returns. \<open>PText s r\<close> is a string \<open>s\<close> together with the number \<open>r\<close> that
  Python's \<open>float(s)\<close> reads from it (\<open>None\<close> where it raises \<open>ValueError\<close>).
\<close>

datatype pyval =
    PNull
  | PBool bool
  | PNum rat
  | PText string "rat option"
  | PSeq "pyval list"

text \<open>\<open>float(value)\<close>, with \<open>None\<close> for the \<open>TypeError\<close> and \<open>ValueError\<close> it raises.\<close>

fun py_float :: "pyval \<Rightarrow> rat option" where
  "py_float PNull = None"
| "py_float (PBool b) = Some (if b then 1 else 0)"
| "py_float (PNum r) = Some r"
| "py_float (PText s r) = r"
| "py_float (PSeq xs) = None"

text \<open>\<open>int(x)\<close> on a number truncates towards zero.\<close>

definition py_int :: "rat \<Rightarrow> int" where
  "py_int x = (if 0 \<le> x then \<lfloor>x\<rfloor> else \<lceil>x\<rceil>)"

lemma py_int_of_int [simp]: "py_int (of_int n) = n"
  by (simp add: py_int_def)

lemma py_int_of_nat [simp]: "py_int (of_nat n) = int n"
  by (simp add: py_int_def)

lemma py_int_0 [simp]: "py_int 0 = 0"
  by (simp add: py_int_def)

lemma py_int_1 [simp]: "py_int 1 = 1"
  by (simp add: py_int_def)

lemma py_int_numeral [simp]: "py_int (numeral k) = numeral k"
  by (simp add: py_int_def)

lemma py_int_of_int_plus [simp]: "py_int (of_int n + 1) = n + 1"
  by (metis of_int_1 of_int_add py_int_of_int)

text \<open>A JSON number that is not a boolean.\<close>

fun py_number :: "pyval \<Rightarrow> rat option" where
  "py_number (PNum r) = Some r"
| "py_number _ = None"

text \<open>A JSON array, or the empty list for anything else.\<close>

fun py_items :: "pyval \<Rightarrow> pyval list" where
  "py_items (PSeq xs) = xs"
| "py_items _ = []"

section \<open>Text\<close>

definition lower_char :: "char \<Rightarrow> char" where
  "lower_char c = (if 65 \<le> (of_char c :: nat) \<and> (of_char c :: nat) \<le> 90
                   then char_of ((of_char c :: nat) + 32) else c)"

definition py_lower :: "string \<Rightarrow> string" where
  "py_lower = map lower_char"

definition is_space :: "char \<Rightarrow> bool" where
  "is_space c \<longleftrightarrow> c \<in> {CHR '' '', CHR 0x09, CHR 0x0A, CHR 0x0B, CHR 0x0C, CHR 0x0D,
                       CHR 0x1C, CHR 0x1D, CHR 0x1E, CHR 0x1F}"

definition py_strip :: "string \<Rightarrow> string" where
  "py_strip s = rev (dropWhile is_space (rev (dropWhile is_space s)))"

text \<open>\<open>p in s\<close> for two strings.\<close>

fun py_contains :: "string \<Rightarrow> string \<Rightarrow> bool" where
  "py_contains p [] = (p = [])"
| "py_contains p (c # s) = (prefix p (c # s) \<or> py_contains p s)"

lemma py_contains_sublist: "py_contains p s \<longleftrightarrow> sublist p s"
  by (induction s) (auto simp: sublist_Cons_right)

text \<open>\<open>s.rsplit("@", 1)[-1]\<close>: the text after the last at-sign, the whole text without one.\<close>

definition after_last_at :: "string \<Rightarrow> string" where
  "after_last_at s = rev (takeWhile (\<lambda>c. c \<noteq> CHR ''@'') (rev s))"

lemmas [text_simps] = py_lower_def lower_char_def is_space_def py_strip_def after_last_at_def

lemma after_last_at_no_at [simp]: "CHR ''@'' \<notin> set (after_last_at s)"
  by (auto simp: after_last_at_def dest: set_takeWhileD)

lemma set_py_strip: "set (py_strip s) \<subseteq> set s"
  unfolding py_strip_def by (auto dest!: set_dropWhileD)

section \<open>Lists\<close>

text \<open>\<open>xs[-n:]\<close> for a positive \<open>n\<close>: the last \<open>n\<close> items, all of them when there are fewer.\<close>

definition last_n :: "nat \<Rightarrow> 'a list \<Rightarrow> 'a list" where
  "last_n n xs = drop (length xs - n) xs"

lemma length_last_n [simp]: "length (last_n n xs) = min n (length xs)"
  by (simp add: last_n_def min_def)

lemma set_last_n: "set (last_n n xs) \<subseteq> set xs"
  by (simp add: last_n_def set_drop_subset)

lemma last_n_all [simp]: "length xs \<le> n \<Longrightarrow> last_n n xs = xs"
  by (simp add: last_n_def)

lemma sorted_wrt_last_n: "sorted_wrt P xs \<Longrightarrow> sorted_wrt P (last_n n xs)"
  by (simp add: last_n_def sorted_wrt_drop)

lemma filter_snoc_True [simp]: "P x \<Longrightarrow> filter P (xs @ [x]) = filter P xs @ [x]"
  by simp

lemma last_n_snoc: "0 < n \<Longrightarrow> last_n n (xs @ [x]) = last_n (n - 1) xs @ [x]"
  by (simp add: last_n_def)

section \<open>Numbers in text\<close>

text \<open>\<open>int(raw)\<close> on ASCII text: surrounding space, a sign, digits with single underscores between them.\<close>

definition digit_val :: "char \<Rightarrow> int option" where
  "digit_val c = (let n = (of_char c :: nat) in if 48 \<le> n \<and> n \<le> 57 then Some (int n - 48) else None)"

fun parse_digits :: "int \<Rightarrow> bool \<Rightarrow> string \<Rightarrow> int option" where
  "parse_digits acc after_digit [] = (if after_digit then Some acc else None)"
| "parse_digits acc after_digit (c # s) =
     (case digit_val c of
        Some d \<Rightarrow> parse_digits (10 * acc + d) True s
      | None \<Rightarrow> if c = CHR ''_'' \<and> after_digit then parse_digits acc False s else None)"

definition py_int_of_text :: "string \<Rightarrow> int option" where
  "py_int_of_text raw =
     (case py_strip raw of
        [] \<Rightarrow> None
      | c # s \<Rightarrow> if c = CHR ''-'' then map_option uminus (parse_digits 0 False s)
                else if c = CHR ''+'' then parse_digits 0 False s
                else parse_digits 0 False (c # s))"

text \<open>\<open>str(n)\<close> of a natural number.\<close>

fun dec :: "nat \<Rightarrow> string" where
  "dec n = (if n < 10 then [char_of (48 + n)] else dec (n div 10) @ [char_of (48 + n mod 10)])"

declare dec.simps [simp del]

text \<open>\<open>str(n)\<close> of an integer.\<close>

definition int_text :: "int \<Rightarrow> string" where
  "int_text n = (if n < 0 then CHR ''-'' # dec (nat (- n)) else dec (nat n))"

text \<open>Decimal digits, and \<open>int\<close> of a text of digits.\<close>

definition digit :: "char \<Rightarrow> bool" where
  "digit c \<longleftrightarrow> (let n = (of_char c :: nat) in 48 \<le> n \<and> n \<le> 57)"

definition undec :: "string \<Rightarrow> nat" where
  "undec t = foldl (\<lambda>a c. 10 * a + (of_char c - 48)) 0 t"

lemma of_char_digit: "k < 10 \<Longrightarrow> (of_char (char_of (48 + k) :: char) :: nat) = 48 + k"
  by (simp add: of_char_of)

lemma dec_digits: "c \<in> set (dec n) \<Longrightarrow> digit c"
proof (induction n rule: dec.induct)
  case (1 n)
  have "digit (char_of (48 + k))" if "k < 10" for k :: nat using of_char_digit [OF that] that by (simp add: digit_def)
  with 1 show ?case by (subst (asm) (2) dec.simps) (auto split: if_splits)
qed

lemma undec_dec [simp]: "undec (dec n) = n"
proof (induction n rule: dec.induct)
  case (1 n)
  show ?case
  proof (cases "n < 10")
    case True
    then show ?thesis using of_char_digit [of n] by (simp add: dec.simps [of n] undec_def)
  next
    case False
    have "undec (dec n) = 10 * undec (dec (n div 10)) + n mod 10"
      using False of_char_digit [of "n mod 10"] by (simp add: dec.simps [of n] undec_def)
    then show ?thesis using 1 [OF False] by simp
  qed
qed

lemma dec_nonempty [simp]: "dec n \<noteq> []"
  by (subst dec.simps) simp

lemma dec_suffix_unique:
  assumes "a @ [x] @ dec k = b @ [y] @ dec m" "\<not> digit x" "\<not> digit y"
  shows "k = m \<and> a @ [x] = b @ [y]"
proof -
  have tw: "takeWhile digit (rev (c @ [z] @ dec n)) = rev (dec n)" if "\<not> digit z" for c z n
    using that dec_digits [of _ n] by (simp add: takeWhile_append2 takeWhile_tail)
  have "rev (dec k) = rev (dec m)" using tw [OF assms(2), of a k] tw [OF assms(3), of b m] assms(1) by metis
  then have "k = m" by (metis rev_rev_ident undec_dec)
  with assms(1) show ?thesis by simp
qed

end
