(* ===== verification/SshCircuit.thy ===== *)
theory SshCircuit
  imports Prelude "HOL-Library.Char_ord" "HOL-Library.List_Lexorder" "HOL-Library.Product_Lexorder"
begin

text \<open>
  The persistent per-host SSH circuit breaker (\<open>infra/ssh_circuit.py\<close>): the state document of a
  host, the graduated cooldown, the establishment ring and the self-storm stamp, the degradation
  classifier and its advice, the classification of a finished ssh attempt, and the three
  operations that change state: \<open>check_circuit\<close> (claims the half-open probe slot),
  \<open>record_connection_failure\<close> and \<open>record_connection_success\<close>, with the inline demand probe.

  One locked section of the code is one function on a document here (\<open>claim_probe\<close>,
  \<open>fail_doc\<close>, \<open>ok_doc\<close>); the operations on the store of documents wrap them with the
  lock-free reads, the fail-open branches, the readiness feed and the notices.
\<close>

section \<open>Constants\<close>

definition CIRCUIT_THRESHOLD :: int where "CIRCUIT_THRESHOLD = 3"
definition BASE_COOLDOWN_SEC :: seconds where "BASE_COOLDOWN_SEC = 300"
definition CYCLE1_COOLDOWN_SEC :: seconds where "CYCLE1_COOLDOWN_SEC = 15"
definition CYCLE2_COOLDOWN_SEC :: seconds where "CYCLE2_COOLDOWN_SEC = 60"
definition CYCLE3_PLUS_COOLDOWN_SEC :: seconds where "CYCLE3_PLUS_COOLDOWN_SEC = 300"
definition MAX_COOLDOWN_SEC :: seconds where "MAX_COOLDOWN_SEC = 3600"
definition STORM_WINDOW_SEC :: seconds where "STORM_WINDOW_SEC = 30"
definition STORM_ESTABLISHMENT_THRESHOLD :: nat where "STORM_ESTABLISHMENT_THRESHOLD = 6"
definition ESTABLISHMENT_RING_MAX :: nat where "ESTABLISHMENT_RING_MAX = 64"
definition SELF_STORM_CAUSE :: string where "SELF_STORM_CAUSE = ''self-storm''"
definition PROBE_CLAIM_TTL_SEC :: seconds where "PROBE_CLAIM_TTL_SEC = 120"
definition DEGRADATION_CYCLE_THRESHOLD :: int where "DEGRADATION_CYCLE_THRESHOLD = 2"
definition INCIDENT_WINDOW_SEC :: seconds where "INCIDENT_WINDOW_SEC = 2 * MAX_COOLDOWN_SEC"

lemmas circuit_consts =
  CIRCUIT_THRESHOLD_def BASE_COOLDOWN_SEC_def CYCLE1_COOLDOWN_SEC_def CYCLE2_COOLDOWN_SEC_def
  CYCLE3_PLUS_COOLDOWN_SEC_def MAX_COOLDOWN_SEC_def STORM_WINDOW_SEC_def
  STORM_ESTABLISHMENT_THRESHOLD_def ESTABLISHMENT_RING_MAX_def PROBE_CLAIM_TTL_SEC_def
  DEGRADATION_CYCLE_THRESHOLD_def INCIDENT_WINDOW_SEC_def

text \<open>The stages of the remote preamble the classifier can name (\<open>_PREAMBLE_STAGE_MARKERS\<close>).\<close>

datatype preamble_stage = CondaSh | CondaActivate | ModuleLoad | ModulePurge

definition PREAMBLE_STAGE_MARKERS :: "(string \<times> preamble_stage) list" where
  "PREAMBLE_STAGE_MARKERS =
     [(''conda.sh'', CondaSh), (''conda activate'', CondaActivate),
      (''module load'', ModuleLoad), (''module purge'', ModulePurge)]"

definition CONNECTION_FAILURE_MARKERS :: "string list" where
  "CONNECTION_FAILURE_MARKERS =
     [''connection refused'', ''connection reset by peer'', ''connection timed out'',
      ''timed out during banner exchange'', ''operation timed out'', ''no route to host'',
      ''network is unreachable'', ''ssh_exchange_identification: connection closed'',
      ''kex_exchange_identification: connection closed'',
      ''kex_exchange_identification: read: connection reset'']"

definition TIMEOUT_DETAIL_MARKERS :: "string list" where
  "TIMEOUT_DETAIL_MARKERS = [''timed out'', ''timeout'']"

section \<open>Host keys\<close>

definition host_key :: "string \<Rightarrow> string" where
  "host_key ssh_target = py_strip (after_last_at ssh_target)"

definition safe_char :: "char \<Rightarrow> bool" where
  "safe_char c \<longleftrightarrow> (let n = (of_char c :: nat) in
     48 \<le> n \<and> n \<le> 57 \<or> 65 \<le> n \<and> n \<le> 90 \<or> 97 \<le> n \<and> n \<le> 122
       \<or> c = CHR ''.'' \<or> c = CHR ''_'' \<or> c = CHR ''-'')"

definition safe_name :: "string \<Rightarrow> string" where
  "safe_name h = map (\<lambda>c. if safe_char c then c else CHR ''_'') h"

text \<open>\<open>raw.split(",")\<close>.\<close>

fun split_comma :: "string \<Rightarrow> string list" where
  "split_comma [] = [[]]"
| "split_comma (c # s) =
     (if c = CHR '','' then [] # split_comma s
      else (case split_comma s of [] \<Rightarrow> [[c]] | p # ps \<Rightarrow> (c # p) # ps))"

text \<open>\<open>_overridden\<close>: the host is named in the text of \<open>HPC_SSH_CIRCUIT_OVERRIDE\<close>.\<close>

definition overridden :: "string \<Rightarrow> string \<Rightarrow> bool" where
  "overridden raw host =
     (if py_strip raw = [] then False
      else host \<in> set (map py_strip (filter (\<lambda>p. py_strip p \<noteq> []) (split_comma raw))))"

section \<open>The state document\<close>

record circuit_doc =
  chost :: string
  cstate :: string
  consecutive_failures :: pyval
  cooldown_sec :: pyval
  opened_at :: pyval
  probe_claimed_at :: pyval
  last_failure :: "(seconds \<times> string) option"
  reopen_cycles :: pyval
  incident_started_at :: pyval
  suspected_cause :: "string option"
  recent_establishments :: pyval

definition fresh_doc :: "string \<Rightarrow> circuit_doc" where
  "fresh_doc host = \<lparr>
     chost = host, cstate = ''closed'', consecutive_failures = PNum 0,
     cooldown_sec = PNum BASE_COOLDOWN_SEC, opened_at = PNull, probe_claimed_at = PNull,
     last_failure = None, reopen_cycles = PNum 0, incident_started_at = PNull,
     suspected_cause = None, recent_establishments = PSeq []\<rparr>"

definition float_or :: "pyval \<Rightarrow> rat \<Rightarrow> rat" where
  "float_or v d = (case py_float v of None \<Rightarrow> d | Some x \<Rightarrow> x)"

lemma float_or_simps [simp, py_simps]:
  "float_or PNull d = d" "float_or (PNum r) d = r" "float_or (PSeq xs) d = d"
  "float_or (PBool b) d = (if b then 1 else 0)"
  by (simp_all add: float_or_def)

section \<open>Cooldown, ring and attribution\<close>

definition cooldown_for_cycle :: "int \<Rightarrow> seconds" where
  "cooldown_for_cycle n =
     (if n \<le> 1 then CYCLE1_COOLDOWN_SEC
      else if n = 2 then CYCLE2_COOLDOWN_SEC
      else CYCLE3_PLUS_COOLDOWN_SEC)"

definition select_cooldown :: "circuit_doc \<Rightarrow> seconds" where
  "select_cooldown d =
     (if suspected_cause d = Some SELF_STORM_CAUSE then CYCLE1_COOLDOWN_SEC
      else cooldown_for_cycle (py_int (float_or (reopen_cycles d) 0)))"

definition is_ts :: "pyval \<Rightarrow> bool" where
  "is_ts v = (py_number v \<noteq> None)"

definition ts_since :: "seconds \<Rightarrow> pyval \<Rightarrow> bool" where
  "ts_since cutoff v = (case py_number v of None \<Rightarrow> False | Some t \<Rightarrow> cutoff \<le> t)"

lemma ts_since_PNum [simp]: "ts_since c (PNum t) \<longleftrightarrow> c \<le> t"
  by (simp add: ts_since_def)

definition record_establishment :: "seconds \<Rightarrow> circuit_doc \<Rightarrow> circuit_doc" where
  "record_establishment now d =
     (let ring = py_items (recent_establishments d) @ [PNum now];
          cutoff = now - STORM_WINDOW_SEC;
          ring = filter (ts_since cutoff) ring;
          ring = (if length ring > ESTABLISHMENT_RING_MAX
                  then last_n ESTABLISHMENT_RING_MAX ring else ring)
      in d\<lparr>recent_establishments := PSeq ring\<rparr>)"

definition recent_establishment_count :: "seconds \<Rightarrow> circuit_doc \<Rightarrow> nat" where
  "recent_establishment_count now d =
     length (filter (ts_since (now - STORM_WINDOW_SEC)) (py_items (recent_establishments d)))"

definition stamp_suspected_cause :: "seconds \<Rightarrow> circuit_doc \<Rightarrow> circuit_doc" where
  "stamp_suspected_cause now d =
     (if recent_establishment_count now d \<ge> STORM_ESTABLISHMENT_THRESHOLD
      then d\<lparr>suspected_cause := Some SELF_STORM_CAUSE\<rparr>
      else d\<lparr>suspected_cause := None\<rparr>)"

definition open_deadline :: "seconds \<Rightarrow> circuit_doc \<Rightarrow> seconds" where
  "open_deadline now d = float_or (opened_at d) now + float_or (cooldown_sec d) BASE_COOLDOWN_SEC"

datatype breaker_state = Closed | Open | HalfOpenEligible

definition effective_state :: "seconds \<Rightarrow> circuit_doc option \<Rightarrow> breaker_state" where
  "effective_state now doc =
     (case doc of None \<Rightarrow> Closed
      | Some d \<Rightarrow> (if cstate d \<noteq> ''open'' then Closed
                   else if now < open_deadline now d then Open else HalfOpenEligible))"

section \<open>Degradation\<close>

definition bump_cycle :: "seconds \<Rightarrow> circuit_doc \<Rightarrow> circuit_doc" where
  "bump_cycle now d =
     (let prev = py_int (float_or (reopen_cycles d) 0);
          started = incident_started_at d;
          fresh_incident = (prev \<le> 0 \<or> started = PNull
                            \<or> now - float_or started now > INCIDENT_WINDOW_SEC)
      in if fresh_incident
         then d\<lparr>reopen_cycles := PNum 1, incident_started_at := PNum now\<rparr>
         else d\<lparr>reopen_cycles := PNum (of_int (prev + 1))\<rparr>)"

definition hanging_stage :: "circuit_doc option \<Rightarrow> preamble_stage option" where
  "hanging_stage doc =
     (case doc of None \<Rightarrow> None
      | Some d \<Rightarrow>
          (let blob = py_lower (case last_failure d of None \<Rightarrow> [] | Some (_, detail) \<Rightarrow> detail)
           in map_option snd (find (\<lambda>(m, _). py_contains m blob) PREAMBLE_STAGE_MARKERS)))"

definition is_preamble_degraded :: "seconds \<Rightarrow> circuit_doc option \<Rightarrow> bool" where
  "is_preamble_degraded now doc =
     (case doc of None \<Rightarrow> False
      | Some d \<Rightarrow>
          (if py_int (float_or (reopen_cycles d) 0) < DEGRADATION_CYCLE_THRESHOLD then False
           else if incident_started_at d = PNull then False
           else now - float_or (incident_started_at d) now \<le> INCIDENT_WINDOW_SEC))"

text \<open>
  A \<open>clusters.yaml\<close> entry, with the empty text for a missing or falsy key; an entry that is
  not a mapping is \<open>None\<close>. The parsed file is an outside input: \<open>None\<close> when loading raises or
  the result is not a mapping, else its entries in file order.
\<close>

record cluster_cfg =
  cfg_host :: string
  cfg_scheduler :: string
  cfg_scratch :: string

type_synonym clusters_config = "(string \<times> cluster_cfg option) list"

definition cluster_scheduler_scratch :: "cluster_cfg \<Rightarrow> string \<times> string" where
  "cluster_scheduler_scratch cfg = (py_strip (cfg_scheduler cfg), py_strip (cfg_scratch cfg))"

definition serves_host :: "string \<Rightarrow> string \<times> cluster_cfg option \<Rightarrow> bool" where
  "serves_host host e = (case snd e of None \<Rightarrow> False | Some cfg \<Rightarrow> py_strip (cfg_host cfg) = host)"

definition sibling_clusters :: "clusters_config option \<Rightarrow> string \<Rightarrow> string list" where
  "sibling_clusters config host =
     (if host = [] then []
      else case config of None \<Rightarrow> []
      | Some clusters \<Rightarrow>
          (let targets = filter (serves_host host) clusters;
               target_keys = map fst targets;
               signatures = [cluster_scheduler_scratch cfg. (_, Some cfg) \<leftarrow> targets]
           in if signatures = [] then []
              else sort (remdups
                [name. (name, Some cfg) \<leftarrow> clusters, name \<notin> set target_keys,
                       py_strip (cfg_host cfg) \<noteq> [], py_strip (cfg_host cfg) \<noteq> host,
                       cluster_scheduler_scratch cfg \<in> set signatures])))"

datatype remedy = HostRetarget "string list" | SettleRun

definition retarget_suggestion :: "clusters_config option \<Rightarrow> string \<Rightarrow> remedy" where
  "retarget_suggestion config host =
     (let sibs = sibling_clusters config host
      in if sibs \<noteq> [] then HostRetarget sibs else SettleRun)"

text \<open>
  The advice line as a value: the named stage (\<open>None\<close> for the generic phrasing), the cycle
  count, and, when the host is reached through jumps, the chain that makes the reading ambiguous.
\<close>

datatype advice =
    NodeLocal "preamble_stage option" int remedy
  | JumpAmbiguous "preamble_stage option" int "string list" remedy

text \<open>One atom of the readiness ledger, as the hop lookup reads it.\<close>

record readiness_atom =
  atom_sensor :: string
  atom_target :: "string option"

definition consulted_hops :: "readiness_atom list option \<Rightarrow> string list" where
  "consulted_hops atoms =
     (case atoms of None \<Rightarrow> []
      | Some as \<Rightarrow>
          foldl (\<lambda>hops a. case atom_target a of
                     None \<Rightarrow> hops
                   | Some t \<Rightarrow> if atom_sensor a = ''hop'' \<and> t \<noteq> [] \<and> t \<notin> set hops
                               then hops @ [t] else hops) [] as)"

definition degradation_advice ::
  "clusters_config option \<Rightarrow> string list option \<Rightarrow> seconds \<Rightarrow> string \<Rightarrow> circuit_doc option
   \<Rightarrow> advice option" where
  "degradation_advice config hops now host doc =
     (if \<not> is_preamble_degraded now doc then None
      else
        (let cycles = (case doc of None \<Rightarrow> 0 | Some d \<Rightarrow> py_int (float_or (reopen_cycles d) 0));
             stage = hanging_stage doc;
             chain = (case hops of None \<Rightarrow> [] | Some hs \<Rightarrow> hs);
             remedy = retarget_suggestion config host
         in Some (if chain \<noteq> [] then JumpAmbiguous stage cycles chain remedy
                  else NodeLocal stage cycles remedy)))"

section \<open>Classifying a finished attempt\<close>

text \<open>A finished ssh-family process; a missing output stream is the empty text.\<close>

record completed =
  returncode :: int
  proc_stderr :: string
  proc_stdout :: string

definition classify_connection_failure :: "completed \<Rightarrow> string option" where
  "classify_connection_failure cp =
     (if returncode cp = 0 then None
      else if returncode cp \<noteq> 255 then None
      else (let blob = py_lower (proc_stderr cp @ [CHR 0x0A] @ proc_stdout cp)
            in find (\<lambda>m. py_contains m blob) CONNECTION_FAILURE_MARKERS))"

datatype connection_outcome = FAILURE | SUCCESS | INCONCLUSIVE

definition classify_connection_outcome :: "completed \<Rightarrow> connection_outcome" where
  "classify_connection_outcome cp =
     (if returncode cp = 0 then SUCCESS
      else if returncode cp \<noteq> 255 then INCONCLUSIVE
      else if classify_connection_failure cp \<noteq> None then FAILURE
      else SUCCESS)"

text \<open>How the attempt itself ended: the wrapper's timeout, another exception, or a process.\<close>

datatype attempt = TimedOut string | Raised string | Finished completed

text \<open>\<open>f"{marker}: {stderr_snip}"\<close> of the two callers that record a classified failure.\<close>

definition failure_detail :: "completed \<Rightarrow> string" where
  "failure_detail cp =
     (let marker = (case classify_connection_failure cp of None \<Rightarrow> ''connection failure'' | Some m \<Rightarrow> m);
          marker = (if marker = [] then ''connection failure'' else marker)
      in marker @ '': '' @ take 200 (py_strip (proc_stderr cp)))"

definition readiness_failure_verdict :: "string \<Rightarrow> string" where
  "readiness_failure_verdict detail =
     (let blob = py_lower detail
      in if (\<exists>m\<in>set TIMEOUT_DETAIL_MARKERS. py_contains m blob) then ''timeout'' else ''down'')"

section \<open>The locked sections, on one document\<close>

text \<open>\<open>check_circuit\<close> under the lock: what the claimant finds, and the document it writes.\<close>

datatype claim = NotOpen | Cooling | ProbeInFlight | Claimed circuit_doc

definition claim_probe :: "seconds \<Rightarrow> circuit_doc \<Rightarrow> claim" where
  "claim_probe now d =
     (if cstate d \<noteq> ''open'' then NotOpen
      else if effective_state now (Some d) = Open then Cooling
      else if probe_claimed_at d \<noteq> PNull
              \<and> now - float_or (probe_claimed_at d) 0 < PROBE_CLAIM_TTL_SEC then ProbeInFlight
      else Claimed (d\<lparr>probe_claimed_at := PNum now\<rparr>))"

datatype transition = Unmoved | Opened | Reopened

definition reopen :: "seconds \<Rightarrow> circuit_doc \<Rightarrow> circuit_doc" where
  "reopen now d =
     (let d = d\<lparr>opened_at := PNum now, probe_claimed_at := PNull,
                consecutive_failures :=
                  PNum (of_int (py_int (float_or (consecutive_failures d) 0) + 1))\<rparr>;
          d = stamp_suspected_cause now (bump_cycle now d)
      in d\<lparr>cooldown_sec := PNum (select_cooldown d)\<rparr>)"

definition open_up :: "seconds \<Rightarrow> circuit_doc \<Rightarrow> circuit_doc" where
  "open_up now d =
     (let d = d\<lparr>cstate := ''open'', opened_at := PNum now, probe_claimed_at := PNull\<rparr>;
          d = stamp_suspected_cause now (bump_cycle now d)
      in d\<lparr>cooldown_sec := PNum (select_cooldown d)\<rparr>)"

definition fail_doc :: "seconds \<Rightarrow> string \<Rightarrow> circuit_doc \<Rightarrow> transition \<times> circuit_doc" where
  "fail_doc now detail doc =
     (let d = record_establishment now doc;
          (tr, d) =
            (if cstate d = ''open'' then
               (if probe_claimed_at d \<noteq> PNull then (Reopened, reopen now d) else (Unmoved, d))
             else
               (let failures = py_int (float_or (consecutive_failures d) 0) + 1;
                    d = d\<lparr>consecutive_failures := PNum (of_int failures)\<rparr>
                in if failures \<ge> CIRCUIT_THRESHOLD then (Opened, open_up now d)
                   else (Unmoved, d)))
      in (tr, d\<lparr>last_failure := Some (now, take 300 detail)\<rparr>))"

definition ok_doc :: "string \<Rightarrow> circuit_doc \<Rightarrow> circuit_doc" where
  "ok_doc host d =
     (fresh_doc host)\<lparr>
       reopen_cycles := PNum (of_int (py_int (float_or (reopen_cycles d) 0))),
       incident_started_at := incident_started_at d,
       recent_establishments := PSeq (py_items (recent_establishments d))\<rparr>"

section \<open>The store and the operations\<close>

text \<open>One fed readiness observation, and the lines the operations print.\<close>

record observation =
  obs_host :: string
  obs_sensor :: string
  obs_verdict :: string
  obs_at :: seconds
  obs_latency :: "int option"
  obs_detail :: string

datatype notice =
    HalfOpenProbe string
  | CircuitOpened string int seconds "advice option"
  | CircuitReopened string int seconds "advice option"
  | CircuitClosed string

record circuit_world =
  circuits :: "string \<Rightarrow> circuit_doc option"
  ledger :: "observation list"
  notices :: "notice list"

text \<open>
  What an operation reads besides the store: the text of the override variable, the parsed
  \<open>clusters.yaml\<close>, the \<open>ProxyJump\<close> resolver (\<open>ssh -G\<close>, \<open>None\<close> when it raises) and the readiness
  atoms of a host (\<open>None\<close> when the consult raises).
\<close>

record circuit_env =
  override_raw :: string
  clusters :: "clusters_config option"
  proxy_jump_hops :: "string \<Rightarrow> string list option"
  consult_atoms :: "string \<Rightarrow> readiness_atom list option"

text \<open>
  The two ways the file system can fail one locked section: taking the lock (with creating the
  directory) or the atomic write raises \<open>OSError\<close>.
\<close>

record section_io =
  lock_ok :: bool
  write_ok :: bool

text \<open>The structured context of \<open>SshCircuitOpen\<close>; \<open>BareReopened\<close> is its form without a document.\<close>

record open_error =
  err_host :: string
  err_failures :: int
  err_deadline :: seconds
  err_probe_in_flight :: bool
  err_self_storm :: bool
  err_advice :: "advice option"

datatype circuit_error = CircuitOpen open_error | BareReopened string

definition open_error_of ::
  "circuit_env \<Rightarrow> seconds \<Rightarrow> string \<Rightarrow> bool \<Rightarrow> circuit_doc \<Rightarrow> circuit_error" where
  "open_error_of env now host in_flight d =
     CircuitOpen \<lparr>err_host = host,
       err_failures = py_int (float_or (consecutive_failures d) 0),
       err_deadline = open_deadline now d,
       err_probe_in_flight = in_flight,
       err_self_storm = (suspected_cause d = Some SELF_STORM_CAUSE),
       err_advice = degradation_advice (clusters env) (proxy_jump_hops env host) now host (Some d)\<rparr>"

definition put_doc :: "string \<Rightarrow> circuit_doc \<Rightarrow> 'a circuit_world_scheme \<Rightarrow> 'a circuit_world_scheme" where
  "put_doc host d w = w\<lparr>circuits := (circuits w)(safe_name host := Some d)\<rparr>"

definition get_doc :: "'a circuit_world_scheme \<Rightarrow> string \<Rightarrow> circuit_doc option" where
  "get_doc w host = circuits w (safe_name host)"

definition notify :: "notice \<Rightarrow> 'a circuit_world_scheme \<Rightarrow> 'a circuit_world_scheme" where
  "notify n w = w\<lparr>notices := notices w @ [n]\<rparr>"

definition feed_readiness ::
  "string \<Rightarrow> string \<Rightarrow> string \<Rightarrow> seconds \<Rightarrow> int option \<Rightarrow> string
   \<Rightarrow> 'a circuit_world_scheme \<Rightarrow> 'a circuit_world_scheme" where
  "feed_readiness host sensor verdict now_epoch latency detail w =
     w\<lparr>ledger := ledger w @ [\<lparr>obs_host = host, obs_sensor = sensor, obs_verdict = verdict,
        obs_at = now_epoch, obs_latency = latency, obs_detail = detail\<rparr>]\<rparr>"

text \<open>
  \<open>record_connection_failure\<close>. \<open>t0\<close> and \<open>now\<close> are its two clock readings, before and under
  the lock. \<open>stage_text\<close> renders the stage of the preamble observation.
\<close>

definition stage_text :: "preamble_stage option \<Rightarrow> string" where
  "stage_text st =
     (case st of None \<Rightarrow> ''remote command preamble''
      | Some CondaSh \<Rightarrow> ''the conda activation (`source .../conda.sh`)''
      | Some CondaActivate \<Rightarrow> ''the conda activation (`conda activate`)''
      | Some ModuleLoad \<Rightarrow> ''the module subsystem (`module load`)''
      | Some ModulePurge \<Rightarrow> ''the module subsystem (`module purge`)'')"

definition record_connection_failure ::
  "circuit_env \<Rightarrow> section_io \<Rightarrow> seconds \<Rightarrow> seconds \<Rightarrow> string \<Rightarrow> int option \<Rightarrow> string
   \<Rightarrow> 'a circuit_world_scheme \<Rightarrow> 'a circuit_world_scheme" where
  "record_connection_failure env io t0 now detail latency ssh_target w =
     (let host = host_key ssh_target in
      if host = [] then w
      else if \<not> lock_ok io then w
      else
        (let doc = (case get_doc w host of None \<Rightarrow> fresh_doc host | Some d \<Rightarrow> d);
             (tr, doc) = fail_doc now detail doc;
             failures = py_int (float_or (consecutive_failures doc) 0);
             cooldown = float_or (cooldown_sec doc) BASE_COOLDOWN_SEC;
             adv = degradation_advice (clusters env)
                     (Some (consulted_hops (consult_atoms env host))) now host (Some doc);
             degraded = is_preamble_degraded now (Some doc)
         in if \<not> write_ok io then w
            else
              (let w = put_doc host doc w;
                   w = feed_readiness host ''connect'' (readiness_failure_verdict detail)
                         t0 latency detail w;
                   w = (if degraded
                        then feed_readiness host ''preamble'' ''timeout'' t0 None
                               (stage_text (hanging_stage (get_doc w host))) w
                        else w)
               in case tr of
                    Unmoved \<Rightarrow> w
                  | Opened \<Rightarrow> notify (CircuitOpened host failures cooldown adv) w
                  | Reopened \<Rightarrow> notify (CircuitReopened host failures cooldown adv) w)))"

definition record_connection_success ::
  "section_io \<Rightarrow> seconds \<Rightarrow> int option \<Rightarrow> string
   \<Rightarrow> 'a circuit_world_scheme \<Rightarrow> 'a circuit_world_scheme" where
  "record_connection_success io t0 latency ssh_target w =
     (let host = host_key ssh_target in
      if host = [] then w
      else
        (let w = feed_readiness host ''connect'' ''ok'' t0 latency [] w
         in case get_doc w host of
              None \<Rightarrow> w
            | Some d \<Rightarrow>
                (if cstate d \<noteq> ''open'' \<and> float_or (consecutive_failures d) 0 = 0 then w
                 else if \<not> (lock_ok io \<and> write_ok io) then w
                 else (let w = put_doc host (ok_doc host d) w
                       in if cstate d = ''open'' then notify (CircuitClosed host) w else w))))"

datatype gate = Proceed | Refused circuit_error | Escaped string

definition reopened_error ::
  "circuit_env \<Rightarrow> seconds \<Rightarrow> string \<Rightarrow> 'a circuit_world_scheme \<Rightarrow> circuit_error" where
  "reopened_error env now host w =
     (case get_doc w host of
        None \<Rightarrow> BareReopened host
      | Some d \<Rightarrow> open_error_of env now host False d)"

text \<open>
  \<open>_run_demand_probe\<close>: \<open>tm i\<close> is the \<open>i\<close>-th reading of the injected clock in this call,
  \<open>wall\<close> the default wall clock that its success branch reads instead, \<open>io\<close> the fate of the
  recorder's locked section.
\<close>

definition run_demand_probe ::
  "circuit_env \<Rightarrow> section_io \<Rightarrow> (nat \<Rightarrow> seconds) \<Rightarrow> seconds \<Rightarrow> attempt \<Rightarrow> string
   \<Rightarrow> 'a circuit_world_scheme \<Rightarrow> gate \<times> 'a circuit_world_scheme" where
  "run_demand_probe env io tm wall probe ssh_target w =
     (let host = host_key ssh_target in
      case probe of
        Raised e \<Rightarrow> (Escaped e, w)
      | TimedOut msg \<Rightarrow>
          (let w = record_connection_failure env io (tm 1) (tm 2) msg None ssh_target w
           in (Refused (reopened_error env (tm 3) host w), w))
      | Finished cp \<Rightarrow>
          (case classify_connection_outcome cp of
             FAILURE \<Rightarrow>
               (let w = record_connection_failure env io (tm 1) (tm 2) (failure_detail cp)
                          None ssh_target w
                in (Refused (reopened_error env (tm 3) host w), w))
           | SUCCESS \<Rightarrow> (Proceed, record_connection_success io wall None ssh_target w)
           | INCONCLUSIVE \<Rightarrow> (Refused (reopened_error env (tm 1) host w), w)))"

text \<open>
  \<open>check_circuit\<close>: the lock-free fast path, the locked claim and, for a caller that passes a
  probe, the inline demand probe. \<open>ioc\<close> is the fate of the claim's locked section.
\<close>

definition check_circuit ::
  "circuit_env \<Rightarrow> section_io \<Rightarrow> section_io \<Rightarrow> (nat \<Rightarrow> seconds) \<Rightarrow> seconds \<Rightarrow> attempt option
   \<Rightarrow> string \<Rightarrow> 'a circuit_world_scheme \<Rightarrow> gate \<times> 'a circuit_world_scheme" where
  "check_circuit env ioc io tm wall probe_fn ssh_target w =
     (let host = host_key ssh_target; now = tm 0 in
      if host = [] \<or> overridden (override_raw env) host then (Proceed, w)
      else
        (case get_doc w host of
           None \<Rightarrow> (Proceed, w)
         | Some d \<Rightarrow>
             (if cstate d \<noteq> ''open'' then (Proceed, w)
              else if \<not> lock_ok ioc then (Proceed, w)
              else
                (case claim_probe now d of
                   NotOpen \<Rightarrow> (Proceed, w)
                 | Cooling \<Rightarrow> (Refused (open_error_of env now host False d), w)
                 | ProbeInFlight \<Rightarrow> (Refused (open_error_of env now host True d), w)
                 | Claimed d' \<Rightarrow>
                     (if \<not> write_ok ioc then (Proceed, w)
                      else
                        (let w = notify (HalfOpenProbe host) (put_doc host d' w)
                         in case probe_fn of
                              None \<Rightarrow> (Proceed, w)
                            | Some probe \<Rightarrow> run_demand_probe env io tm wall probe ssh_target w))))))"

text \<open>The read seams over the store.\<close>

definition effective_state_for_host :: "seconds \<Rightarrow> string \<Rightarrow> 'a circuit_world_scheme \<Rightarrow> breaker_state" where
  "effective_state_for_host now host w = effective_state now (get_doc w host)"

definition cooldown_remaining_sec :: "seconds \<Rightarrow> string \<Rightarrow> 'a circuit_world_scheme \<Rightarrow> seconds" where
  "cooldown_remaining_sec now host w =
     (case get_doc w host of
        None \<Rightarrow> 0
      | Some d \<Rightarrow> (if effective_state now (Some d) \<noteq> Open then 0
                   else max 0 (open_deadline now d - now)))"

definition consecutive_failures_for_host :: "string \<Rightarrow> 'a circuit_world_scheme \<Rightarrow> int" where
  "consecutive_failures_for_host host w =
     (case get_doc w host of None \<Rightarrow> 0
      | Some d \<Rightarrow> py_int (float_or (consecutive_failures d) 0))"

definition degradation_advice_for_host ::
  "circuit_env \<Rightarrow> seconds \<Rightarrow> string \<Rightarrow> 'a circuit_world_scheme \<Rightarrow> advice option" where
  "degradation_advice_for_host env now host w =
     degradation_advice (clusters env) (proxy_jump_hops env host) now host (get_doc w host)"

definition host_circuit_ok :: "seconds \<Rightarrow> string \<Rightarrow> 'a circuit_world_scheme \<Rightarrow> bool" where
  "host_circuit_ok now host w =
     (if effective_state now (get_doc w host) = Open then False
      else \<not> is_preamble_degraded now (get_doc w host))"

end
