(* ===== verification/SshPacing.thy ===== *)
theory SshPacing
  imports SshCircuit
begin

text \<open>
  The per-host establishment-rate limiter (\<open>infra/ssh_pacing.py\<close>): a token bucket in a state
  file per host, refilled at one token per 0.3 seconds up to a burst of three, whose deficit is the
  wait of the caller, capped at ten seconds. \<open>reserve_doc\<close> is the body of the read-modify-write
  under the bucket lock; \<open>pace_establishment\<close> is the whole call.
\<close>

section \<open>Model\<close>

definition PACING_MIN_SPACING_SEC :: seconds where "PACING_MIN_SPACING_SEC = 3 / 10"
definition PACING_BURST :: nat where "PACING_BURST = 3"
definition PACING_JITTER_FRAC :: rat where "PACING_JITTER_FRAC = 1 / 5"
definition PACING_MAX_WAIT_SEC :: seconds where "PACING_MAX_WAIT_SEC = 10"
definition RATE :: rat where "RATE = 1 / PACING_MIN_SPACING_SEC"
definition CAPACITY :: rat where "CAPACITY = of_nat PACING_BURST"
definition JITTER_MOD :: int where "JITTER_MOD = 997"

lemmas pacing_consts = PACING_MIN_SPACING_SEC_def PACING_BURST_def PACING_JITTER_FRAC_def
  PACING_MAX_WAIT_SEC_def RATE_def CAPACITY_def JITTER_MOD_def

definition jitter_fraction :: "int \<Rightarrow> rat" where
  "jitter_fraction pid =
     (let unit = of_int (pid mod JITTER_MOD) / of_int JITTER_MOD
      in (2 * unit - 1) * PACING_JITTER_FRAC)"

text \<open>A bucket file, with \<open>PNull\<close> for a missing key; a file that is absent or not an object is \<open>None\<close>.\<close>

record bucket_doc =
  bucket_host :: string
  tokens :: pyval
  last_refill :: pyval

definition read_bucket :: "bucket_doc option \<Rightarrow> rat \<times> seconds option" where
  "read_bucket doc =
     (case doc of None \<Rightarrow> (CAPACITY, None)
      | Some d \<Rightarrow>
          (case (py_float (tokens d), py_float (last_refill d)) of
             (Some tk, Some lst) \<Rightarrow> (tk, Some lst)
           | _ \<Rightarrow> (CAPACITY, None)))"

text \<open>The new file, the un-jittered wait and whether the reservation hit the cap.\<close>

definition reserve_doc :: "string \<Rightarrow> seconds \<Rightarrow> bucket_doc option \<Rightarrow> bucket_doc \<times> seconds \<times> bool" where
  "reserve_doc host now doc =
     (let (tk, lst) = read_bucket doc;
          elapsed = (case lst of None \<Rightarrow> 0 | Some l \<Rightarrow> max 0 (now - l));
          tk = min CAPACITY (tk + elapsed * RATE) - 1;
          (tk, wait, capped) =
            (if 0 \<le> tk then (tk, 0, False)
             else
               (let wait = - tk / RATE; capped = (wait > PACING_MAX_WAIT_SEC)
                in if capped then (- (PACING_MAX_WAIT_SEC * RATE), PACING_MAX_WAIT_SEC, True)
                   else (tk, wait, False)))
      in (\<lparr>bucket_host = host, tokens = PNum tk, last_refill = PNum now\<rparr>, wait, capped))"

text \<open>The store gains the bucket files and the lines of the limiter.\<close>

record paced_world = circuit_world +
  buckets :: "string \<Rightarrow> bucket_doc option"
  cap_exceeded :: "string list"

text \<open>
  \<open>pace_establishment\<close>: the seconds it sleeps and the new store. \<open>disabled\<close> is
  \<open>HPC_NO_SSH_PACING\<close>; \<open>ok\<close> is false when the locked update raises.
\<close>

definition pace_establishment ::
  "bool \<Rightarrow> bool \<Rightarrow> seconds \<Rightarrow> int \<Rightarrow> string \<Rightarrow> 'a paced_world_scheme
   \<Rightarrow> seconds \<times> 'a paced_world_scheme" where
  "pace_establishment disabled ok now pid ssh_target w =
     (let host = host_key ssh_target in
      if disabled then (0, w)
      else if host = [] then (0, w)
      else if \<not> ok then (0, w)
      else
        (let (doc, base_wait, capped) = reserve_doc host now (buckets w (safe_name host));
             w = w\<lparr>buckets := (buckets w)(safe_name host := Some doc)\<rparr>
         in if base_wait \<le> 0 then (0, w)
            else
              (let wait = min (base_wait * (1 + jitter_fraction pid)) PACING_MAX_WAIT_SEC
               in if wait \<le> 0 then (0, w)
                  else (wait, if capped then w\<lparr>cap_exceeded := cap_exceeded w @ [host]\<rparr> else w))))"

section \<open>One reservation\<close>

text \<open>The balance a reservation leaves, as a number.\<close>

definition balance :: "bucket_doc \<Rightarrow> rat" where
  "balance d = (case py_float (tokens d) of None \<Rightarrow> CAPACITY | Some t \<Rightarrow> t)"

definition refilled :: "seconds \<Rightarrow> bucket_doc option \<Rightarrow> rat" where
  "refilled now doc = (let (tk, lst) = read_bucket doc in
     min CAPACITY (tk + (case lst of None \<Rightarrow> 0 | Some l \<Rightarrow> max 0 (now - l)) * RATE))"

lemma refilled_le [simp]: "refilled now doc \<le> CAPACITY"
  by (simp add: refilled_def split: prod.split)

lemma reserve_doc_eq:
  "reserve_doc host now doc =
     (let tk = refilled now doc - 1 in
      if 0 \<le> tk then (\<lparr>bucket_host = host, tokens = PNum tk, last_refill = PNum now\<rparr>, 0, False)
      else if - tk / RATE > PACING_MAX_WAIT_SEC
      then (\<lparr>bucket_host = host, tokens = PNum (- (PACING_MAX_WAIT_SEC * RATE)), last_refill = PNum now\<rparr>,
            PACING_MAX_WAIT_SEC, True)
      else (\<lparr>bucket_host = host, tokens = PNum tk, last_refill = PNum now\<rparr>, - tk / RATE, False))"
  by (simp add: reserve_doc_def refilled_def Let_def split: prod.split option.split)

lemma reserve_cases [case_names free waits capped]:
  assumes "reserve_doc host now doc = (d', wait, cap)"
  obtains "wait = 0" "\<not> cap" "balance d' = refilled now doc - 1" "0 \<le> balance d'"
      "last_refill d' = PNum now" "tokens d' = PNum (balance d')"
  | "wait = - balance d' * (3 / 10)" "\<not> cap" "balance d' = refilled now doc - 1" "balance d' < 0"
      "wait \<le> 10" "last_refill d' = PNum now" "tokens d' = PNum (balance d')"
  | "wait = 10" cap "balance d' = - (100 / 3)" "refilled now doc - 1 < - (100 / 3)"
      "last_refill d' = PNum now" "tokens d' = PNum (balance d')"
proof -
  let ?tk = "refilled now doc - 1"
  have max: "PACING_MAX_WAIT_SEC = 10" "- (10 * RATE) = - (100 / 3)"
    "- ?tk / RATE = - ?tk * (3 / 10)"
    by (simp_all add: pacing_consts)
  consider "0 \<le> ?tk" | "?tk < 0" "- ?tk * (3 / 10) \<le> 10" | "?tk < 0" "10 < - ?tk * (3 / 10)"
    by linarith
  then show thesis
  proof cases
    case 1
    with assms show thesis by (intro that(1)) (auto simp: reserve_doc_eq Let_def balance_def)
  next
    case 2
    then have "\<not> 0 \<le> ?tk" "\<not> - ?tk / RATE > PACING_MAX_WAIT_SEC" unfolding max by simp_all
    with assms have "(d', wait, cap) = (\<lparr>bucket_host = host, tokens = PNum ?tk, last_refill = PNum now\<rparr>, - ?tk / RATE, False)"
      unfolding reserve_doc_eq Let_def by (simp only: if_False)
    with 2 show thesis unfolding max by (intro that(2)) (simp_all add: balance_def)
  next
    case 3
    then have "\<not> 0 \<le> ?tk" "- ?tk / RATE > PACING_MAX_WAIT_SEC" unfolding max by simp_all
    with assms have "(d', wait, cap) = (\<lparr>bucket_host = host, tokens = PNum (- (100 / 3)), last_refill = PNum now\<rparr>, 10, True)"
      unfolding reserve_doc_eq Let_def max(1,2) by (simp only: max if_False if_True)
    moreover have "?tk < - (100 / 3)" using 3(2) by simp
    ultimately show thesis by (intro that(3)) (simp_all add: balance_def)
  qed
qed

lemma reserve_wait_range:
  "reserve_doc host now doc = (d', wait, cap) \<Longrightarrow> 0 \<le> wait \<and> wait \<le> 10"
  by (erule reserve_cases) auto

lemma reserve_balance_range:
  assumes "reserve_doc host now doc = (d', wait, cap)"
  shows "- (100 / 3) \<le> balance d' \<and> balance d' \<le> 2"
  using assms
proof (cases rule: reserve_cases)
  case free
  then show ?thesis using refilled_le [of now doc] by (simp add: pacing_consts)
next
  case waits
  then show ?thesis using refilled_le [of now doc] by (simp add: pacing_consts)
qed simp

lemma jitter_range: "- (1 / 5) \<le> jitter_fraction pid" "jitter_fraction pid < 1 / 5"
proof -
  have "0 \<le> pid mod 997" "pid mod 997 < 997" by simp_all
  then have "(0::rat) \<le> of_int (pid mod 997)" "(of_int (pid mod 997) :: rat) < 997"
    by (metis of_int_0_le_iff, metis of_int_less_iff of_int_numeral)
  then show "- (1 / 5) \<le> jitter_fraction pid" "jitter_fraction pid < 1 / 5"
    by (simp_all add: jitter_fraction_def Let_def pacing_consts field_simps)
qed

text \<open>Bounded pacing. One pacing call sleeps between zero and ten seconds, never longer whatever
  the bucket file holds and whatever the process id, and it changes nothing but the bucket of its own
  host (with the disclosure line): not another host's bucket, not the breaker's documents.\<close>

lemma pacing_bounded_and_local:
  "(case pace_establishment disabled ok now pid target w of
      (slept, w') \<Rightarrow> 0 \<le> slept \<and> slept \<le> 10
        \<and> circuits w' = circuits w \<and> ledger w' = ledger w
        \<and> (\<forall>k. k \<noteq> safe_name (host_key target) \<longrightarrow> buckets w' k = buckets w k))"
  by (auto simp: pace_establishment_def Let_def PACING_MAX_WAIT_SEC_def split: prod.split)

section \<open>The rate guarantee\<close>

text \<open>A run of reservations on one bucket: for each, its time, its wait and whether it was capped.\<close>

fun reservations :: "string \<Rightarrow> bucket_doc option \<Rightarrow> seconds list \<Rightarrow> (seconds \<times> seconds \<times> bool) list" where
  "reservations h doc [] = []"
| "reservations h doc (t # ts) =
     (case reserve_doc h t doc of (d, wait, cap) \<Rightarrow> (t, wait, cap) # reservations h (Some d) ts)"

lemma refilled_after:
  assumes "tokens d = PNum b" "last_refill d = PNum t" "t \<le> now"
  shows "refilled now (Some d) = min 3 (b + (now - t) * (10 / 3))"
  using assms by (simp add: refilled_def read_bucket_def pacing_consts)

text \<open>
  With balance \<open>b\<close> left at time \<open>t\<close>, the last of \<open>n\<close> further uncapped reservations is let through
  no earlier than \<open>t + (n - b) * 0.3\<close>: the tokens it and its predecessors took must have accrued.
\<close>

lemma last_reservation_not_early:
  assumes "tokens d = PNum b" "last_refill d = PNum t" "sorted (t # ts)" "ts \<noteq> []"
    and "\<forall>r\<in>set (reservations h (Some d) ts). \<not> snd (snd r)"
    and "last (reservations h (Some d) ts) = (tn, wait, c)"
  shows "t + (of_nat (length ts) - b) * (3 / 10) \<le> tn + wait"
  using assms
proof (induction ts arbitrary: d b t)
  case (Cons s ts)
  obtain d' w' c' where r: "reserve_doc h s (Some d) = (d', w', c')" by (metis prod_cases3)
  have uncapped: "\<not> c'" using Cons.prems(5) r by simp
  have ts: "t \<le> s" using Cons.prems(3) by simp
  have ref: "refilled s (Some d) \<le> b + (s - t) * (10 / 3)"
    using refilled_after [OF Cons.prems(1,2) ts] by simp
  have f: "tokens d' = PNum (balance d')" "last_refill d' = PNum s"
    "balance d' = refilled s (Some d) - 1" "- balance d' * (3 / 10) \<le> w'"
    by (use r uncapped in \<open>cases rule: reserve_cases; simp\<close>)+
  show ?case
  proof (cases "ts = []")
    case True
    then show ?thesis using Cons.prems(6) r f ref by (simp add: field_simps)
  next
    case False
    have "reservations h (Some d') ts \<noteq> []" using False by (cases ts) (auto split: prod.split)
    then have "last (reservations h (Some d') ts) = (tn, wait, c)"
      using Cons.prems(6) r by (simp split: if_splits)
    with Cons.IH [OF f(1,2) _ False] Cons.prems(3,5) r
    have "s + (of_nat (length ts) - balance d') * (3 / 10) \<le> tn + wait" by simp
    with f(3) ref show ?thesis by (simp add: field_simps)
  qed
qed simp

text \<open>Establishment rate. Take any \<open>n\<close> consecutive uncapped reservations on one host's bucket,
  whatever the bucket held before, at non-decreasing times starting at \<open>t1\<close>: the last one is let
  through no earlier than \<open>t1 + (n - 3) * 0.3\<close> seconds. A storm passes at most three establishments at
  once and then one every 0.3 seconds, across all processes that share the file.\<close>

lemma establishment_rate_bounded:
  assumes "sorted (t1 # ts)"
    and "\<forall>r\<in>set (reservations host doc (t1 # ts)). \<not> snd (snd r)"
    and "last (reservations host doc (t1 # ts)) = (tn, wait, c)"
  shows "t1 + (of_nat (Suc (length ts)) - 3) * (3 / 10) \<le> tn + wait"
proof -
  obtain d w1 c1 where r: "reserve_doc host t1 doc = (d, w1, c1)" by (metis prod_cases3)
  have uncapped: "\<not> c1" using assms(2) r by simp
  have f: "tokens d = PNum (balance d)" "last_refill d = PNum t1" "0 \<le> w1"
    "balance d = refilled t1 doc - 1" "- balance d * (3 / 10) \<le> w1"
    by (use r uncapped in \<open>cases rule: reserve_cases; simp\<close>)+
  have b: "balance d \<le> 2" using reserve_balance_range [OF r] by simp
  show ?thesis
  proof (cases "ts = []")
    case True
    then show ?thesis using assms(3) r f(3) by simp
  next
    case False
    have "reservations host (Some d) ts \<noteq> []" using False by (cases ts) (auto split: prod.split)
    then have "last (reservations host (Some d) ts) = (tn, wait, c)"
      using assms(3) r by (simp split: if_splits)
    with last_reservation_not_early [OF f(1,2) assms(1) False, of host tn wait c] assms(2) r
    have "t1 + (of_nat (length ts) - balance d) * (3 / 10) \<le> tn + wait" by simp
    with b show ?thesis by (simp add: field_simps)
  qed
qed

lemmas pacing_eval = reserve_doc_def read_bucket_def pacing_consts Let_def

lemma establishment_rate_bounded_witness:
  "reservations ''h'' None [0, 0, 0, 0, 0] =
     [(0, 0, False), (0, 0, False), (0, 0, False), (0, 3 / 10, False), (0, 3 / 5, False)]
   \<and> (0::rat) + (of_nat (Suc 4) - 3) * (3 / 10) \<le> 0 + 3 / 5"
proof
  show r: "reservations ''h'' None [0, 0, 0, 0, 0] =
     [(0, 0, False), (0, 0, False), (0, 0, False), (0, 3 / 10, False), (0, 3 / 5, False)]"
    by (simp add: pacing_eval)
  show "(0::rat) + (of_nat (Suc 4) - 3) * (3 / 10) \<le> 0 + 3 / 5"
    using establishment_rate_bounded [of 0 "[0, 0, 0, 0]" "''h''" None 0 "3 / 5" False] r by simp
qed

text \<open>Bounded recovery. However deep a storm drove the bucket, a reservation made at least 10.3
  seconds after the previous one waits for nothing: the recorded deficit is floored at the cap.\<close>

lemma pacing_recovers:
  assumes "reserve_doc host t doc = (d, wait, cap)" and "t + 103 / 10 \<le> now"
  shows "fst (snd (reserve_doc host now (Some d))) = 0"
proof -
  have "tokens d = PNum (balance d)" "last_refill d = PNum t"
    by (use assms(1) in \<open>cases rule: reserve_cases; simp\<close>)+
  moreover have "- (100 / 3) \<le> balance d" using reserve_balance_range [OF assms(1)] by simp
  ultimately have "1 \<le> refilled now (Some d)"
    using refilled_after [of d "balance d" t now] assms(2) by (simp add: min_def field_simps)
  then show ?thesis by (simp add: reserve_doc_eq Let_def)
qed

lemma pacing_recovers_witness:
  "fst (snd (reserve_doc ''h'' 11 (Some (fst (reserve_doc ''h'' 0
      (Some \<lparr>bucket_host = ''h'', tokens = PNum (- 500), last_refill = PNum 0\<rparr>)))))) = 0"
  by (rule pacing_recovers [OF surjective_pairing [THEN trans, OF arg_cong [OF surjective_pairing, of "Pair _"]]]) simp

end
