(* ===== verification/SshSlots.thy ===== *)
theory SshSlots
  imports SshPacing
begin

text \<open>
  The per-host connection-slot limiter (\<open>infra/ssh_slots.py\<close>): slot files claimed by exclusive
  creation, reclaimed when their owner is dead, released by their owner only; the bounded wait for a
  slot; and the janitor that reaps leaked slots. A slot file is named by its host key and its index.
\<close>

section \<open>Constants\<close>

definition DEFAULT_MAX_CONNECTIONS :: int where "DEFAULT_MAX_CONNECTIONS = 2"
definition SLOT_WAIT_MAX_SEC :: seconds where "SLOT_WAIT_MAX_SEC = 120"
definition SLOT_POLL_BASE_SEC :: seconds where "SLOT_POLL_BASE_SEC = 3 / 10"
definition SLOT_JITTER_MAX_SEC :: seconds where "SLOT_JITTER_MAX_SEC = 1 / 5"
definition SLOT_DISCLOSE_FIRST_SEC :: seconds where "SLOT_DISCLOSE_FIRST_SEC = 10"
definition SLOT_DISCLOSE_INTERVAL_SEC :: seconds where "SLOT_DISCLOSE_INTERVAL_SEC = 30"

lemmas slot_consts = DEFAULT_MAX_CONNECTIONS_def SLOT_WAIT_MAX_SEC_def SLOT_POLL_BASE_SEC_def
  SLOT_JITTER_MAX_SEC_def SLOT_DISCLOSE_FIRST_SEC_def SLOT_DISCLOSE_INTERVAL_SEC_def JITTER_MOD_def

section \<open>The slot count\<close>

definition resolve_max_connections :: "string option \<Rightarrow> int" where
  "resolve_max_connections raw =
     (case raw of None \<Rightarrow> DEFAULT_MAX_CONNECTIONS
      | Some raw \<Rightarrow>
          (if py_strip raw = [] then DEFAULT_MAX_CONNECTIONS
           else (let val = (case py_int_of_text raw of None \<Rightarrow> - 1 | Some v \<Rightarrow> v)
                 in if val < 0 then DEFAULT_MAX_CONNECTIONS else val)))"

section \<open>Slot files\<close>

text \<open>
  The content of an existing slot file: text that is not JSON (an empty file just created
  included), JSON without a readable pid, or a claim with its pid and, if readable, its time.
\<close>

datatype slot_file = NotJson | NoPid | ClaimDoc int "seconds option"

type_synonym pool = "nat \<Rightarrow> slot_file option"

definition claim_is_stale :: "(int \<Rightarrow> bool) \<Rightarrow> slot_file option \<Rightarrow> bool" where
  "claim_is_stale alive f =
     (case f of None \<Rightarrow> True | Some NotJson \<Rightarrow> True | Some NoPid \<Rightarrow> True
      | Some (ClaimDoc pid _) \<Rightarrow> \<not> alive pid)"

text \<open>The two file-system steps of \<open>_create_claim\<close>: the exclusive create, then the payload.\<close>

definition open_excl :: "nat \<Rightarrow> pool \<Rightarrow> pool option" where
  "open_excl i p = (if p i = None then Some (p(i := Some NotJson)) else None)"

definition write_payload :: "int \<Rightarrow> seconds \<Rightarrow> nat \<Rightarrow> pool \<Rightarrow> pool" where
  "write_payload pid now i p = p(i := Some (ClaimDoc pid (Some now)))"

definition create_claim :: "int \<Rightarrow> seconds \<Rightarrow> nat \<Rightarrow> pool \<Rightarrow> pool option" where
  "create_claim pid now i p = map_option (write_payload pid now i) (open_excl i p)"

definition unlink :: "nat \<Rightarrow> pool \<Rightarrow> pool" where
  "unlink i p = p(i := None)"

text \<open>The first pass over the slots: the index claimed, or the list of stale ones.\<close>

fun claim_pass :: "int \<Rightarrow> seconds \<Rightarrow> (int \<Rightarrow> bool) \<Rightarrow> nat list \<Rightarrow> pool \<Rightarrow> (nat \<times> pool) + nat list" where
  "claim_pass pid now alive [] p = Inr []"
| "claim_pass pid now alive (i # is) p =
     (case create_claim pid now i p of
        Some p' \<Rightarrow> Inl (i, p')
      | None \<Rightarrow>
          (case claim_pass pid now alive is p of
             Inl r \<Rightarrow> Inl r
           | Inr stale \<Rightarrow> Inr (if claim_is_stale alive (p i) then i # stale else stale)))"

text \<open>The second pass, under the reclaim lock: re-check, unlink, create.\<close>

fun reclaim_pass :: "int \<Rightarrow> seconds \<Rightarrow> (int \<Rightarrow> bool) \<Rightarrow> nat list \<Rightarrow> pool \<Rightarrow> (nat \<times> pool) option" where
  "reclaim_pass pid now alive [] p = None"
| "reclaim_pass pid now alive (i # is) p =
     (if \<not> claim_is_stale alive (p i) then reclaim_pass pid now alive is p
      else (case create_claim pid now i (unlink i p) of
              Some p' \<Rightarrow> Some (i, p')
            | None \<Rightarrow> reclaim_pass pid now alive is (unlink i p)))"

definition try_claim :: "nat \<Rightarrow> int \<Rightarrow> seconds \<Rightarrow> (int \<Rightarrow> bool) \<Rightarrow> pool \<Rightarrow> (nat \<times> pool) option" where
  "try_claim limit pid now alive p =
     (case claim_pass pid now alive [0..<limit] p of
        Inl r \<Rightarrow> Some r
      | Inr stale \<Rightarrow> (if stale = [] then None else reclaim_pass pid now alive stale p))"

text \<open>\<open>release_slot\<close>: only a claim that still records the releaser is removed.\<close>

definition release_slot :: "int \<Rightarrow> nat option \<Rightarrow> pool \<Rightarrow> pool" where
  "release_slot pid token p =
     (case token of None \<Rightarrow> p
      | Some i \<Rightarrow> (case p i of Some (ClaimDoc owner _) \<Rightarrow> if owner \<noteq> pid then p else unlink i p
                  | _ \<Rightarrow> p))"

text \<open>
  \<open>reap_stale_slots\<close> on one host's slot files: the indices present in the directory, in the order
  the code visits them; the count and the pool left. \<open>can_unlink\<close> is false where unlinking raises.
\<close>

fun reap_pass :: "(int \<Rightarrow> bool) \<Rightarrow> (nat \<Rightarrow> bool) \<Rightarrow> nat list \<Rightarrow> pool \<Rightarrow> nat \<times> pool" where
  "reap_pass alive can_unlink [] p = (0, p)"
| "reap_pass alive can_unlink (i # is) p =
     (if \<not> claim_is_stale alive (p i) then reap_pass alive can_unlink is p
      else if \<not> can_unlink i then reap_pass alive can_unlink is p
      else (case reap_pass alive can_unlink is (unlink i p) of (n, p') \<Rightarrow> (Suc n, p')))"

section \<open>Waiting for a slot\<close>

text \<open>What the disclosure line says of one slot.\<close>

datatype slot_hold = HoldFree | HoldUnreadable | HeldBy int bool int

definition slot_hold_disclosure :: "(int \<Rightarrow> bool) \<Rightarrow> seconds \<Rightarrow> nat \<Rightarrow> pool \<Rightarrow> slot_hold list" where
  "slot_hold_disclosure alive now limit p =
     map (\<lambda>i. case p i of
            None \<Rightarrow> HoldFree
          | Some NotJson \<Rightarrow> HoldFree
          | Some NoPid \<Rightarrow> HoldUnreadable
          | Some (ClaimDoc pid None) \<Rightarrow> HoldUnreadable
          | Some (ClaimDoc pid (Some since)) \<Rightarrow> HeldBy pid (alive pid) (max 0 (py_int (now - since))))
       [0..<limit]"

datatype wait_notice = AllHeld string int | StillWaiting string int "slot_hold list"

record slot_world = paced_world +
  pools :: "string \<Rightarrow> pool"
  wait_notices :: "wait_notice list"

text \<open>
  What one call of \<open>acquire_slot\<close> meets: its configuration and pid, and for its \<open>k\<close>-th poll the
  clock readings, the liveness of processes, whether the slot directory works, the fate of the
  breaker's locked section, and what the other processes of the fleet did to the store before it.
\<close>

record slot_env =
  slot_circuit_env :: circuit_env
  max_connections_raw :: "string option"
  slot_pid :: int
  t_start :: seconds
  t_claim :: "nat \<Rightarrow> seconds"
  t_now :: "nat \<Rightarrow> seconds"
  t_check :: "nat \<Rightarrow> seconds"
  alive_at :: "nat \<Rightarrow> int \<Rightarrow> bool"
  claim_io :: "nat \<Rightarrow> bool"
  check_io :: "nat \<Rightarrow> section_io"
  interfere :: "nat \<Rightarrow> slot_world \<Rightarrow> slot_world"

datatype slot_outcome = Got nat | NoLimiter | GaveUp | CircuitRefused gate

definition poll_interval :: "int \<Rightarrow> seconds" where
  "poll_interval pid =
     SLOT_POLL_BASE_SEC + of_int (pid mod JITTER_MOD) / of_int JITTER_MOD * SLOT_JITTER_MAX_SEC"

definition slot_deadline :: "slot_env \<Rightarrow> seconds" where
  "slot_deadline e = t_start e + SLOT_WAIT_MAX_SEC"

definition poll_sleep :: "slot_env \<Rightarrow> nat \<Rightarrow> seconds" where
  "poll_sleep e k = min (poll_interval (slot_pid e)) (max 0 (slot_deadline e - t_now e k))"

definition set_pool :: "string \<Rightarrow> pool \<Rightarrow> slot_world \<Rightarrow> slot_world" where
  "set_pool host p w = w\<lparr>pools := (pools w)(safe_name host := p)\<rparr>"

definition get_pool :: "slot_world \<Rightarrow> string \<Rightarrow> pool" where
  "get_pool w host = pools w (safe_name host)"

text \<open>The announcement and the periodic disclosure of a poll; also the time of the next disclosure.\<close>

definition disclose ::
  "slot_env \<Rightarrow> string \<Rightarrow> int \<Rightarrow> nat \<Rightarrow> bool \<Rightarrow> seconds \<Rightarrow> slot_world \<Rightarrow> seconds \<times> slot_world" where
  "disclose e host limit k announced next_disclosure w =
     (let now = t_now e k;
          w = (if announced then w else w\<lparr>wait_notices := wait_notices w @ [AllHeld host limit]\<rparr>)
      in if now \<ge> next_disclosure
         then (now + SLOT_DISCLOSE_INTERVAL_SEC,
               w\<lparr>wait_notices := wait_notices w @ [StillWaiting host (py_int (now - t_start e))
                   (slot_hold_disclosure (alive_at e k) now (nat limit) (get_pool w host))]\<rparr>)
         else (next_disclosure, w))"

text \<open>
  The \<open>while True\<close> of \<open>acquire_slot\<close>, with fuel for the number of polls: the outcome, the sleeps
  taken and the store, or \<open>None\<close> when the fuel runs out first.
\<close>

fun acquire_loop ::
  "nat \<Rightarrow> slot_env \<Rightarrow> string \<Rightarrow> string \<Rightarrow> int \<Rightarrow> nat \<Rightarrow> bool \<Rightarrow> seconds \<Rightarrow> slot_world
   \<Rightarrow> (slot_outcome \<times> seconds list \<times> slot_world) option" where
  "acquire_loop 0 e target host limit k announced nd w = None"
| "acquire_loop (Suc fuel) e target host limit k announced nd w =
     (let w = interfere e k w in
      if \<not> claim_io e k then Some (NoLimiter, [], w)
      else
        (case try_claim (nat limit) (slot_pid e) (t_claim e k) (alive_at e k) (get_pool w host) of
           Some (i, p) \<Rightarrow> Some (Got i, [], set_pool host p w)
         | None \<Rightarrow>
             (if t_now e k \<ge> slot_deadline e then Some (GaveUp, [], w)
              else
                (case check_circuit (slot_circuit_env e) (check_io e k) (check_io e k)
                        (\<lambda>_. t_check e k) (t_check e k) None target w of
                   (Proceed, w) \<Rightarrow>
                     (let (nd, w) = disclose e host limit k announced nd w
                      in case acquire_loop fuel e target host limit (Suc k) True nd w of
                           None \<Rightarrow> None
                         | Some (out, sleeps, w) \<Rightarrow> Some (out, poll_sleep e k # sleeps, w))
                 | (g, w) \<Rightarrow> Some (CircuitRefused g, [], w)))))"

definition acquire_slot ::
  "nat \<Rightarrow> slot_env \<Rightarrow> string \<Rightarrow> slot_world \<Rightarrow> (slot_outcome \<times> seconds list \<times> slot_world) option" where
  "acquire_slot fuel e ssh_target w =
     (let limit = resolve_max_connections (max_connections_raw e); host = host_key ssh_target in
      if limit \<le> 0 \<or> host = [] then Some (NoLimiter, [], w)
      else acquire_loop fuel e ssh_target host limit 0 False (t_start e + SLOT_DISCLOSE_FIRST_SEC) w)"

text \<open>The release of \<open>connection_slot\<close>, on the store.\<close>

definition release_on_store :: "int \<Rightarrow> slot_outcome \<Rightarrow> string \<Rightarrow> slot_world \<Rightarrow> slot_world" where
  "release_on_store pid out ssh_target w =
     (let host = host_key ssh_target in
      case out of Got i \<Rightarrow> set_pool host (release_slot pid (Some i) (get_pool w host)) w | _ \<Rightarrow> w)"

section \<open>One pass\<close>

lemma stale_simps [simp]:
  "claim_is_stale alive None" "claim_is_stale alive (Some NotJson)" "claim_is_stale alive (Some NoPid)"
  "claim_is_stale alive (Some (ClaimDoc pid t)) \<longleftrightarrow> \<not> alive pid"
  by (simp_all add: claim_is_stale_def)

lemma create_claim_eq:
  "create_claim pid now i p = (if p i = None then Some (p(i := Some (ClaimDoc pid (Some now)))) else None)"
  by (simp add: create_claim_def open_excl_def write_payload_def)

lemma create_claim_Some:
  "create_claim pid now i p = Some p' \<longleftrightarrow> p i = None \<and> p' = p(i := Some (ClaimDoc pid (Some now)))"
  by (auto simp: create_claim_def open_excl_def write_payload_def)

lemma create_claim_None: "create_claim pid now i p = None \<longleftrightarrow> p i \<noteq> None"
  by (auto simp: create_claim_def open_excl_def)

lemma create_after_unlink [simp]:
  "create_claim pid now i (unlink i p) = Some (p(i := Some (ClaimDoc pid (Some now))))"
  by (simp add: create_claim_Some unlink_def)

lemma claim_pass_Inl:
  "claim_pass pid now alive is p = Inl (i, p') \<Longrightarrow>
     i \<in> set is \<and> p i = None \<and> p' = p(i := Some (ClaimDoc pid (Some now)))"
proof (induction "is")
  case (Cons j js)
  then show ?case by (auto simp: create_claim_Some split: option.splits sum.splits)
qed simp

lemma claim_pass_Inr:
  "claim_pass pid now alive is p = Inr stale \<longleftrightarrow>
     (\<forall>i\<in>set is. p i \<noteq> None) \<and> stale = filter (\<lambda>i. claim_is_stale alive (p i)) is"
proof (induction "is" arbitrary: stale)
  case (Cons j js)
  then show ?case
    by (cases "claim_pass pid now alive js p") (auto simp: create_claim_eq)
qed auto

lemma reclaim_pass_Some:
  "reclaim_pass pid now alive is p = Some (i, p') \<Longrightarrow>
     i \<in> set is \<and> claim_is_stale alive (p i) \<and> p' = p(i := Some (ClaimDoc pid (Some now)))"
  by (induction "is") (auto split: if_splits)

lemma reclaim_pass_None:
  "reclaim_pass pid now alive is p = None \<longleftrightarrow> (\<forall>i\<in>set is. \<not> claim_is_stale alive (p i))"
  by (induction "is") auto

lemma try_claim_Some:
  assumes "try_claim limit pid now alive p = Some (i, p')"
  shows "i < limit" "claim_is_stale alive (p i)" "p' = p(i := Some (ClaimDoc pid (Some now)))"
  using assms
  by (auto simp: try_claim_def claim_is_stale_def claim_pass_Inr
      dest!: claim_pass_Inl reclaim_pass_Some split: sum.splits if_splits)

lemma try_claim_None:
  "try_claim limit pid now alive p = None \<longleftrightarrow> (\<forall>i<limit. \<not> claim_is_stale alive (p i))"
proof
  assume "try_claim limit pid now alive p = None"
  then obtain stale where "claim_pass pid now alive [0..<limit] p = Inr stale"
    "stale = [] \<or> reclaim_pass pid now alive stale p = None"
    by (auto simp: try_claim_def split: sum.splits if_splits)
  then show "\<forall>i<limit. \<not> claim_is_stale alive (p i)"
    by (auto simp: claim_pass_Inr reclaim_pass_None filter_empty_conv)
next
  assume h: "\<forall>i<limit. \<not> claim_is_stale alive (p i)"
  show "try_claim limit pid now alive p = None"
  proof (rule ccontr)
    assume "try_claim limit pid now alive p \<noteq> None"
    then obtain i p' where "try_claim limit pid now alive p = Some (i, p')" by auto
    from try_claim_Some(1,2) [OF this] h show False by blast
  qed
qed

lemma reap_pass_pool:
  "snd (reap_pass alive cu is p) j =
     (if j \<in> set is \<and> claim_is_stale alive (p j) \<and> cu j then None else p j)"
  by (induction "is" arbitrary: p)
     (auto simp: unlink_def case_prod_unfold)

lemma not_stale_iff:
  "\<not> claim_is_stale alive f \<longleftrightarrow> (\<exists>owner since. f = Some (ClaimDoc owner since) \<and> alive owner)"
  by (auto simp: claim_is_stale_def split: option.splits slot_file.splits)

text \<open>One pass. A pass over the slots fails only when every slot is held by a live process; when
  it succeeds it takes one slot below the limit that was free, dead or unreadable, records the
  caller's claim there, and leaves every other slot file as it was.\<close>

lemma try_claim_exact:
  "case try_claim limit pid now alive p of
     None \<Rightarrow> \<forall>i<limit. \<exists>owner since. p i = Some (ClaimDoc owner since) \<and> alive owner
   | Some (i, p') \<Rightarrow> i < limit \<and> claim_is_stale alive (p i)
        \<and> p' i = Some (ClaimDoc pid (Some now)) \<and> (\<forall>j. j \<noteq> i \<longrightarrow> p' j = p j)"
proof (cases "try_claim limit pid now alive p")
  case None
  then have "\<forall>i<limit. \<exists>owner since. p i = Some (ClaimDoc owner since) \<and> alive owner"
    unfolding try_claim_None not_stale_iff .
  with None show ?thesis by simp
next
  case (Some r)
  then obtain i p' where "try_claim limit pid now alive p = Some (i, p')" by (cases r) auto
  then show ?thesis using try_claim_Some [of limit pid now alive p i p'] by simp
qed

end
