(* ===== verification/SshCircuitLaws.thy ===== *)
theory SshCircuitLaws
  imports SshCircuit
begin

text \<open>
  What the circuit breaker guarantees: the document invariant and its preservation by every
  locked section, the threshold, the graduated cooldown, the single half-open probe, the
  carried incident evidence, and the behaviour of the operations on the store.
\<close>

section \<open>The document invariant\<close>

definition failure_count :: "circuit_doc \<Rightarrow> int" where
  "failure_count d = py_int (float_or (consecutive_failures d) 0)"

definition cycle_count :: "circuit_doc \<Rightarrow> int" where
  "cycle_count d = py_int (float_or (reopen_cycles d) 0)"

definition is_open :: "circuit_doc \<Rightarrow> bool" where
  "is_open d \<longleftrightarrow> cstate d = ''open''"

definition ring_ok :: "circuit_doc \<Rightarrow> bool" where
  "ring_ok d \<longleftrightarrow> recent_establishments d = PSeq (py_items (recent_establishments d))
     \<and> length (py_items (recent_establishments d)) \<le> ESTABLISHMENT_RING_MAX
     \<and> list_all is_ts (py_items (recent_establishments d))"

definition cooldown_ok :: "circuit_doc \<Rightarrow> bool" where
  "cooldown_ok d \<longleftrightarrow> cooldown_sec d \<in>
     {PNum CYCLE1_COOLDOWN_SEC, PNum CYCLE2_COOLDOWN_SEC, PNum CYCLE3_PLUS_COOLDOWN_SEC}"

definition counters_ok :: "circuit_doc \<Rightarrow> bool" where
  "counters_ok d \<longleftrightarrow> consecutive_failures d = PNum (of_int (failure_count d))
     \<and> reopen_cycles d = PNum (of_int (cycle_count d)) \<and> 0 \<le> cycle_count d
     \<and> (0 < cycle_count d \<longrightarrow> is_ts (incident_started_at d))"

definition phase_ok :: "circuit_doc \<Rightarrow> bool" where
  "phase_ok d \<longleftrightarrow>
     (if is_open d
      then CIRCUIT_THRESHOLD \<le> failure_count d \<and> 1 \<le> cycle_count d \<and> is_ts (opened_at d)
           \<and> (probe_claimed_at d = PNull \<or> is_ts (probe_claimed_at d))
      else cstate d = ''closed'' \<and> 0 \<le> failure_count d \<and> failure_count d < CIRCUIT_THRESHOLD
           \<and> probe_claimed_at d = PNull)"

definition wf_doc :: "circuit_doc \<Rightarrow> bool" where
  "wf_doc d \<longleftrightarrow> counters_ok d \<and> phase_ok d \<and> cooldown_ok d \<and> ring_ok d"

lemmas wf_parts = wf_doc_def counters_ok_def phase_ok_def cooldown_ok_def ring_ok_def

named_theorems doc_simps \<open>how the field updates of a document move its derived counters\<close>

lemma is_ts_PNum [simp]: "is_ts (PNum r)"
  by (simp add: is_ts_def)

lemma is_ts_PNull [simp]: "\<not> is_ts PNull"
  by (simp add: is_ts_def)

lemma is_tsE: "is_ts v \<Longrightarrow> (\<And>r. v = PNum r \<Longrightarrow> P) \<Longrightarrow> P"
  by (cases v) (auto simp: is_ts_def)

lemma fresh_doc_wf: "wf_doc (fresh_doc host)"
  by (simp add: wf_parts fresh_doc_def failure_count_def cycle_count_def is_open_def circuit_consts)

lemma fresh_doc_simps [simp]:
  "cstate (fresh_doc h) = ''closed''" "failure_count (fresh_doc h) = 0"
  "cycle_count (fresh_doc h) = 0" "\<not> is_open (fresh_doc h)"
  by (simp_all add: fresh_doc_def failure_count_def cycle_count_def is_open_def)

section \<open>Helpers of the transitions\<close>

lemma record_establishment_frame [simp]:
  "cstate (record_establishment now d) = cstate d"
  "consecutive_failures (record_establishment now d) = consecutive_failures d"
  "cooldown_sec (record_establishment now d) = cooldown_sec d"
  "opened_at (record_establishment now d) = opened_at d"
  "probe_claimed_at (record_establishment now d) = probe_claimed_at d"
  "reopen_cycles (record_establishment now d) = reopen_cycles d"
  "incident_started_at (record_establishment now d) = incident_started_at d"
  "suspected_cause (record_establishment now d) = suspected_cause d"
  "failure_count (record_establishment now d) = failure_count d"
  "cycle_count (record_establishment now d) = cycle_count d"
  "is_open (record_establishment now d) = is_open d"
  by (simp_all add: record_establishment_def Let_def failure_count_def cycle_count_def is_open_def)

lemma stamp_frame [simp]:
  "cstate (stamp_suspected_cause now d) = cstate d"
  "consecutive_failures (stamp_suspected_cause now d) = consecutive_failures d"
  "opened_at (stamp_suspected_cause now d) = opened_at d"
  "probe_claimed_at (stamp_suspected_cause now d) = probe_claimed_at d"
  "reopen_cycles (stamp_suspected_cause now d) = reopen_cycles d"
  "incident_started_at (stamp_suspected_cause now d) = incident_started_at d"
  "recent_establishments (stamp_suspected_cause now d) = recent_establishments d"
  by (simp_all add: stamp_suspected_cause_def)

lemma bump_frame [simp]:
  "cstate (bump_cycle now d) = cstate d"
  "consecutive_failures (bump_cycle now d) = consecutive_failures d"
  "opened_at (bump_cycle now d) = opened_at d"
  "probe_claimed_at (bump_cycle now d) = probe_claimed_at d"
  "suspected_cause (bump_cycle now d) = suspected_cause d"
  "recent_establishments (bump_cycle now d) = recent_establishments d"
  by (simp_all add: bump_cycle_def Let_def)

lemma select_cooldown_range:
  "PNum (select_cooldown d) \<in>
     {PNum CYCLE1_COOLDOWN_SEC, PNum CYCLE2_COOLDOWN_SEC, PNum CYCLE3_PLUS_COOLDOWN_SEC}"
  by (simp add: select_cooldown_def cooldown_for_cycle_def)

lemma py_items_eta [simp]: "py_items (PSeq xs) = xs"
  by simp

lemma record_establishment_ring:
  "recent_establishments (record_establishment now d)
     = PSeq (last_n ESTABLISHMENT_RING_MAX
         (filter (ts_since (now - STORM_WINDOW_SEC)) (py_items (recent_establishments d) @ [PNum now])))"
  by (simp add: record_establishment_def Let_def)

lemma ts_since_is_ts: "ts_since c v \<Longrightarrow> is_ts v"
  by (cases v) (auto simp: ts_since_def is_ts_def)

lemma ring_ok_record: "ring_ok (record_establishment now d)"
  by (auto simp: ring_ok_def record_establishment_ring list_all_iff
      dest!: set_last_n [THEN subsetD] ts_since_is_ts)

text \<open>Opening and re-opening set the counter, the claim and the cooldown the same way.\<close>

definition next_cycle :: "seconds \<Rightarrow> circuit_doc \<Rightarrow> int" where
  "next_cycle now d =
     (if cycle_count d \<le> 0 \<or> incident_started_at d = PNull
         \<or> now - float_or (incident_started_at d) now > INCIDENT_WINDOW_SEC
      then 1 else cycle_count d + 1)"

lemma bump_cycle_count [simp]:
  "reopen_cycles (bump_cycle now d) = PNum (of_int (next_cycle now d))"
  "cycle_count (bump_cycle now d) = next_cycle now d"
  by (simp_all add: bump_cycle_def next_cycle_def cycle_count_def Let_def)

lemma next_cycle_pos [simp]: "1 \<le> next_cycle now d"
  by (simp add: next_cycle_def)

lemma bump_incident_ts:
  assumes "0 < cycle_count d \<longrightarrow> is_ts (incident_started_at d)"
  shows "is_ts (incident_started_at (bump_cycle now d))"
  using assms by (auto simp: bump_cycle_def Let_def cycle_count_def)

lemma next_cycle_cong [simp]:
  "next_cycle now (d\<lparr>cstate := a\<rparr>) = next_cycle now d"
  "next_cycle now (d\<lparr>opened_at := b\<rparr>) = next_cycle now d"
  "next_cycle now (d\<lparr>probe_claimed_at := b\<rparr>) = next_cycle now d"
  "next_cycle now (d\<lparr>consecutive_failures := b\<rparr>) = next_cycle now d"
  "next_cycle now (record_establishment t d) = next_cycle now d"
  by (simp_all add: next_cycle_def cycle_count_def)

lemma reopen_fields:
  "cstate (reopen now d) = cstate d" "opened_at (reopen now d) = PNum now"
  "probe_claimed_at (reopen now d) = PNull"
  "consecutive_failures (reopen now d) = PNum (of_int (failure_count d + 1))"
  "reopen_cycles (reopen now d) = PNum (of_int (next_cycle now d))"
  "recent_establishments (reopen now d) = recent_establishments d"
  by (simp_all add: reopen_def Let_def failure_count_def)

lemma open_up_fields:
  "cstate (open_up now d) = ''open''" "opened_at (open_up now d) = PNum now"
  "probe_claimed_at (open_up now d) = PNull"
  "consecutive_failures (open_up now d) = consecutive_failures d"
  "reopen_cycles (open_up now d) = PNum (of_int (next_cycle now d))"
  "recent_establishments (open_up now d) = recent_establishments d"
  by (simp_all add: open_up_def Let_def)

lemma reopen_counts [simp]:
  "failure_count (reopen now d) = failure_count d + 1" "cycle_count (reopen now d) = next_cycle now d"
  "is_open (reopen now d) = is_open d"
  by (simp_all add: failure_count_def cycle_count_def reopen_fields is_open_def)

lemma open_up_counts [simp]:
  "failure_count (open_up now d) = failure_count d" "cycle_count (open_up now d) = next_cycle now d"
  "is_open (open_up now d)"
  by (simp_all add: failure_count_def cycle_count_def open_up_fields is_open_def)

lemma opening_cooldown_ok: "cooldown_ok (reopen now d)" "cooldown_ok (open_up now d)"
  by (simp_all add: cooldown_ok_def reopen_def open_up_def Let_def select_cooldown_range
      del: insert_iff)

lemma opening_incident:
  assumes "0 < cycle_count d \<longrightarrow> is_ts (incident_started_at d)"
  shows "is_ts (incident_started_at (reopen now d))" "is_ts (incident_started_at (open_up now d))"
  using assms
  by (auto simp: reopen_def open_up_def Let_def cycle_count_def intro!: bump_incident_ts)

section \<open>The three locked sections, case by case\<close>

lemma fail_doc_open_claimed:
  assumes "is_open d" "probe_claimed_at d \<noteq> PNull"
  shows "fail_doc now det d =
    (Reopened, (reopen now (record_establishment now d))\<lparr>last_failure := Some (now, take 300 det)\<rparr>)"
  using assms by (simp add: fail_doc_def Let_def is_open_def)

lemma fail_doc_straggler:
  assumes "is_open d" "probe_claimed_at d = PNull"
  shows "fail_doc now det d =
    (Unmoved, (record_establishment now d)\<lparr>last_failure := Some (now, take 300 det)\<rparr>)"
  using assms by (simp add: fail_doc_def Let_def is_open_def)

lemma fail_doc_counts:
  assumes "\<not> is_open d" "failure_count d + 1 < CIRCUIT_THRESHOLD"
  shows "fail_doc now det d =
    (Unmoved, (record_establishment now d)\<lparr>consecutive_failures := PNum (of_int (failure_count d + 1)),
                 last_failure := Some (now, take 300 det)\<rparr>)"
  using assms by (simp add: fail_doc_def Let_def is_open_def failure_count_def)

lemma fail_doc_opens:
  assumes "\<not> is_open d" "CIRCUIT_THRESHOLD \<le> failure_count d + 1"
  shows "fail_doc now det d =
    (Opened, (open_up now ((record_establishment now d)
                 \<lparr>consecutive_failures := PNum (of_int (failure_count d + 1))\<rparr>))
                 \<lparr>last_failure := Some (now, take 300 det)\<rparr>)"
  using assms by (simp add: fail_doc_def Let_def is_open_def failure_count_def)

lemma fail_doc_cases [case_names reopened straggler counted opened]:
  obtains "is_open d" "probe_claimed_at d \<noteq> PNull"
  | "is_open d" "probe_claimed_at d = PNull"
  | "\<not> is_open d" "failure_count d + 1 < CIRCUIT_THRESHOLD"
  | "\<not> is_open d" "CIRCUIT_THRESHOLD \<le> failure_count d + 1"
  by linarith

lemma last_failure_frame [simp]:
  "wf_doc (d\<lparr>last_failure := x\<rparr>) = wf_doc d"
  "counters_ok (d\<lparr>last_failure := x\<rparr>) = counters_ok d"
  "cooldown_ok (d\<lparr>last_failure := x\<rparr>) = cooldown_ok d"
  "ring_ok (d\<lparr>last_failure := x\<rparr>) = ring_ok d"
  "failure_count (d\<lparr>last_failure := x\<rparr>) = failure_count d"
  "cycle_count (d\<lparr>last_failure := x\<rparr>) = cycle_count d"
  "is_open (d\<lparr>last_failure := x\<rparr>) = is_open d"
  by (simp_all add: wf_parts failure_count_def cycle_count_def is_open_def)

lemma counter_update_frame [simp]:
  "failure_count (d\<lparr>consecutive_failures := PNum r\<rparr>) = py_int r"
  "cycle_count (d\<lparr>consecutive_failures := v\<rparr>) = cycle_count d"
  "is_open (d\<lparr>consecutive_failures := v\<rparr>) = is_open d"
  "failure_count (d\<lparr>probe_claimed_at := v\<rparr>) = failure_count d"
  "cycle_count (d\<lparr>probe_claimed_at := v\<rparr>) = cycle_count d"
  "is_open (d\<lparr>probe_claimed_at := v\<rparr>) = is_open d"
  by (simp_all add: failure_count_def cycle_count_def is_open_def)

lemma ring_ok_frame [simp]:
  "ring_ok (reopen now d) = ring_ok d" "ring_ok (open_up now d) = ring_ok d"
  "ring_ok (d\<lparr>consecutive_failures := v\<rparr>) = ring_ok d"
  "ring_ok (d\<lparr>probe_claimed_at := v\<rparr>) = ring_ok d"
  by (simp_all add: ring_ok_def reopen_fields open_up_fields)

lemma counters_ok_incident: "counters_ok d \<Longrightarrow> 0 < cycle_count d \<longrightarrow> is_ts (incident_started_at d)"
  by (simp add: counters_ok_def)

lemma counters_ok_opening:
  assumes "0 < cycle_count d \<longrightarrow> is_ts (incident_started_at d)"
  shows "counters_ok (reopen now d)"
    and "consecutive_failures d = PNum (of_int (failure_count d)) \<Longrightarrow> counters_ok (open_up now d)"
  using opening_incident [OF assms] order_trans [OF zero_le_one next_cycle_pos]
  by (simp_all add: counters_ok_def reopen_fields open_up_fields)

lemma counters_ok_update [simp]:
  "counters_ok (d\<lparr>probe_claimed_at := v\<rparr>) = counters_ok d"
  "counters_ok (record_establishment now d) = counters_ok d"
  by (simp_all add: counters_ok_def)

lemma counters_ok_failures:
  "counters_ok d \<Longrightarrow> counters_ok (d\<lparr>consecutive_failures := PNum (of_int n)\<rparr>)"
  by (simp add: counters_ok_def)

lemma fail_doc_wf:
  assumes wf: "wf_doc d"
  shows "wf_doc (snd (fail_doc now det d))"
proof -
  let ?r = "record_establishment now d"
  have c: "counters_ok d" and p: "phase_ok d" and k: "cooldown_ok d"
    using wf by (simp_all add: wf_doc_def)
  note inc = counters_ok_incident [OF c]
  show ?thesis
  proof (cases rule: fail_doc_cases [of d])
    case reopened
    then show ?thesis using p inc opening_cooldown_ok(1) counters_ok_opening(1) [of ?r now] ring_ok_record
      by (simp add: fail_doc_open_claimed wf_doc_def phase_ok_def reopen_fields)
  next
    case straggler
    then show ?thesis using p c k ring_ok_record
      by (simp add: fail_doc_straggler wf_doc_def phase_ok_def cooldown_ok_def)
  next
    case counted
    then show ?thesis using p k ring_ok_record counters_ok_failures [of ?r "failure_count d + 1"] c
      by (simp add: fail_doc_counts wf_doc_def phase_ok_def cooldown_ok_def)
  next
    case opened
    let ?d = "?r\<lparr>consecutive_failures := PNum (of_int (failure_count d + 1))\<rparr>"
    have "counters_ok (open_up now ?d)"
      by (rule counters_ok_opening(2)) (use inc in simp_all)
    then show ?thesis using opened p opening_cooldown_ok(2) ring_ok_record
      by (simp add: fail_doc_opens wf_doc_def phase_ok_def open_up_fields)
  qed
qed

lemma ok_doc_fields:
  "cstate (ok_doc h d) = ''closed''" "probe_claimed_at (ok_doc h d) = PNull"
  "failure_count (ok_doc h d) = 0" "cycle_count (ok_doc h d) = cycle_count d"
  "incident_started_at (ok_doc h d) = incident_started_at d"
  "py_items (recent_establishments (ok_doc h d)) = py_items (recent_establishments d)"
  "\<not> is_open (ok_doc h d)" "suspected_cause (ok_doc h d) = None"
  by (simp_all add: ok_doc_def fresh_doc_def failure_count_def cycle_count_def is_open_def)

lemma ok_doc_wf: "wf_doc d \<Longrightarrow> wf_doc (ok_doc h d)"
  by (simp add: wf_parts ok_doc_fields ok_doc_def fresh_doc_def is_open_def circuit_consts)
     (simp add: failure_count_def cycle_count_def)

lemma claim_probe_Claimed:
  "claim_probe now d = Claimed d' \<longleftrightarrow>
     is_open d \<and> open_deadline now d \<le> now
     \<and> (probe_claimed_at d = PNull \<or> PROBE_CLAIM_TTL_SEC \<le> now - float_or (probe_claimed_at d) 0)
     \<and> d' = d\<lparr>probe_claimed_at := PNum now\<rparr>"
  by (auto simp: claim_probe_def effective_state_def is_open_def not_less)

lemma claim_probe_wf: "wf_doc d \<Longrightarrow> claim_probe now d = Claimed d' \<Longrightarrow> wf_doc d'"
  by (auto simp: claim_probe_Claimed wf_doc_def phase_ok_def cooldown_ok_def)

section \<open>Runs of locked sections\<close>

text \<open>
  The processes of a fleet share one document and serialise on its lock, so every execution,
  however the lock-free reads interleave, is a sequence of locked sections: a recorded failure
  at a time, a recorded success, or a claim at a time.
\<close>

datatype doc_event = Fail seconds string | Succeed | Claim seconds

fun doc_step :: "string \<Rightarrow> circuit_doc option \<Rightarrow> doc_event \<Rightarrow> circuit_doc option" where
  "doc_step host doc (Fail now det) =
     Some (snd (fail_doc now det (case doc of None \<Rightarrow> fresh_doc host | Some d \<Rightarrow> d)))"
| "doc_step host doc Succeed = map_option (ok_doc host) doc"
| "doc_step host doc (Claim now) =
     (case doc of None \<Rightarrow> None
      | Some d \<Rightarrow> (case claim_probe now d of Claimed d' \<Rightarrow> Some d' | _ \<Rightarrow> Some d))"

definition doc_run :: "string \<Rightarrow> doc_event list \<Rightarrow> circuit_doc option \<Rightarrow> circuit_doc option" where
  "doc_run host evs doc = foldl (doc_step host) doc evs"

lemma doc_run_simps [simp]:
  "doc_run h [] doc = doc" "doc_run h (e # es) doc = doc_run h es (doc_step h doc e)"
  by (simp_all add: doc_run_def)

definition wf_opt :: "circuit_doc option \<Rightarrow> bool" where
  "wf_opt doc = (case doc of None \<Rightarrow> True | Some d \<Rightarrow> wf_doc d)"

lemma wf_opt_simps [simp]: "wf_opt None" "wf_opt (Some d) = wf_doc d"
  by (simp_all add: wf_opt_def)

lemma doc_step_wf: "wf_opt doc \<Longrightarrow> wf_opt (doc_step h doc e)"
proof (cases e)
  case (Fail now det)
  moreover assume "wf_opt doc"
  ultimately show ?thesis by (auto simp: fail_doc_wf fresh_doc_wf split: option.split)
next
  case Succeed
  moreover assume "wf_opt doc"
  ultimately show ?thesis by (cases doc) (auto simp: ok_doc_wf)
next
  case (Claim now)
  moreover assume "wf_opt doc"
  ultimately show ?thesis by (auto split: option.split claim.split dest: claim_probe_wf)
qed

lemma doc_run_wf: "wf_opt doc \<Longrightarrow> wf_opt (doc_run h evs doc)"
  by (induction evs arbitrary: doc) (simp_all add: doc_step_wf)

text \<open>Document invariant. Whatever sequence of recorded failures, recorded successes and
  probe claims a fleet serialises on a host's file, starting from no file at all, the document is
  well formed: an open circuit has at least three counted failures, a positive re-open cycle and a
  numeric opening time; a closed one has fewer than three and no claimed probe; the cooldown is one
  of the three rungs of the schedule; and the establishment ring never exceeds 64 timestamps.\<close>

lemma circuit_document_invariant:
  assumes "doc_run host evs None = Some d"
  shows "wf_doc d"
proof -
  have "wf_opt (doc_run host evs None)" by (rule doc_run_wf) simp
  with assms show ?thesis by simp
qed

lemmas circuit_eval = fail_doc_def ok_doc_def fresh_doc_def record_establishment_def open_up_def
  reopen_def bump_cycle_def stamp_suspected_cause_def recent_establishment_count_def
  select_cooldown_def cooldown_for_cycle_def claim_probe_def effective_state_def open_deadline_def
  circuit_consts Let_def last_n_def SELF_STORM_CAUSE_def

text \<open>A first incident: three failures open the circuit, a claim waits for the cycle-1 cooldown.\<close>

definition opened_doc :: circuit_doc where
  "opened_doc = \<lparr>chost = ''h'', cstate = ''open'', consecutive_failures = PNum 3,
     cooldown_sec = PNum 15, opened_at = PNum 2, probe_claimed_at = PNull,
     last_failure = Some (2, ''z''), reopen_cycles = PNum 1, incident_started_at = PNum 2,
     suspected_cause = None, recent_establishments = PSeq [PNum 0, PNum 1, PNum 2]\<rparr>"

lemma opened_doc_run: "doc_run ''h'' [Fail 0 ''x'', Fail 1 ''y'', Fail 2 ''z''] None = Some opened_doc"
  by (simp add: circuit_eval opened_doc_def)

lemma opened_doc_wf: "wf_doc opened_doc"
  by (simp add: opened_doc_def wf_parts failure_count_def cycle_count_def is_open_def circuit_consts)

lemma circuit_document_invariant_witness: "wf_doc opened_doc \<and> is_open opened_doc"
  using circuit_document_invariant [OF opened_doc_run] by (simp add: is_open_def opened_doc_def)

section \<open>The threshold\<close>

fun all_fail :: "doc_event list \<Rightarrow> bool" where
  "all_fail [] = True"
| "all_fail (Fail t m # es) = all_fail es"
| "all_fail (e # es) = False"

lemma open_stays_open: "is_open d \<Longrightarrow> is_open (snd (fail_doc now det d))"
  by (cases rule: fail_doc_cases [of d]) (simp_all add: fail_doc_open_claimed fail_doc_straggler)

lemma open_run_open:
  "is_open d \<Longrightarrow> all_fail evs \<Longrightarrow> \<exists>d'. doc_run h evs (Some d) = Some d' \<and> is_open d'"
  by (induction evs arbitrary: d rule: all_fail.induct) (simp_all add: open_stays_open)

lemma fail_doc_closed:
  assumes "\<not> is_open d" "0 \<le> failure_count d"
  shows "is_open (snd (fail_doc now det d)) \<longleftrightarrow> CIRCUIT_THRESHOLD \<le> failure_count d + 1"
    and "\<not> is_open (snd (fail_doc now det d)) \<Longrightarrow>
           failure_count (snd (fail_doc now det d)) = failure_count d + 1"
  using assms
  by (cases rule: fail_doc_cases [of d]; simp add: fail_doc_counts fail_doc_opens)+

lemma closed_run_threshold:
  assumes "\<not> is_open d" "0 \<le> failure_count d" "all_fail evs" "evs \<noteq> []"
  shows "\<exists>d'. doc_run h evs (Some d) = Some d'
           \<and> (is_open d' \<longleftrightarrow> CIRCUIT_THRESHOLD \<le> failure_count d + int (length evs))"
  using assms
proof (induction evs arbitrary: d rule: all_fail.induct)
  case (2 t m es)
  let ?d = "snd (fail_doc t m d)"
  note step = fail_doc_closed [OF 2(2,3), of t m]
  show ?case
  proof (cases "is_open ?d")
    case True
    with step(1) open_run_open [of ?d es h] 2(4) show ?thesis by auto
  next
    case False
    then show ?thesis using step 2(1) [of ?d] 2(3,4) by (cases "es = []") (auto simp: algebra_simps)
  qed
qed simp_all

text \<open>C11: (threshold) From a closed circuit in good form with \<open>k\<close> counted failures, a run of
  \<open>n > 0\<close> consecutive recorded failures, at whatever times, leaves the circuit open exactly when
  \<open>k + n\<close> reaches the threshold of three: neither earlier nor later.\<close>

theorem circuit_opens_at_threshold:
  assumes "wf_doc d" and "\<not> is_open d" and "all_fail evs" and "evs \<noteq> []"
  shows "\<exists>d'. doc_run host evs (Some d) = Some d'
           \<and> (is_open d' \<longleftrightarrow> 3 \<le> failure_count d + int (length evs))"
proof -
  from assms(1,2) have "0 \<le> failure_count d" by (simp add: wf_doc_def phase_ok_def)
  from closed_run_threshold [OF assms(2) this assms(3,4)] show ?thesis
    by (simp add: CIRCUIT_THRESHOLD_def)
qed

theorem circuit_opens_at_threshold_witness:
  "(\<exists>d'. doc_run ''h'' [Fail 5 ''a'', Fail 9 ''b''] (Some (fresh_doc ''h'')) = Some d' \<and> \<not> is_open d')
   \<and> (\<exists>d'. doc_run ''h'' [Fail 5 ''a'', Fail 9 ''b'', Fail 9 ''c''] (Some (fresh_doc ''h'')) = Some d'
          \<and> is_open d')"
  using circuit_opens_at_threshold [OF fresh_doc_wf, of "''h''" "[Fail 5 ''a'', Fail 9 ''b'']" "''h''"]
    circuit_opens_at_threshold [OF fresh_doc_wf, of "''h''" "[Fail 5 ''a'', Fail 9 ''b'', Fail 9 ''c'']" "''h''"]
  by simp

section \<open>The half-open probe slot\<close>

text \<open>The times at which claims succeed in a run that has only claims.\<close>

fun won_claims :: "circuit_doc \<Rightarrow> seconds list \<Rightarrow> seconds list" where
  "won_claims d [] = []"
| "won_claims d (t # ts) =
     (case claim_probe t d of Claimed d' \<Rightarrow> t # won_claims d' ts | _ \<Rightarrow> won_claims d ts)"

lemma won_claims_after:
  assumes "probe_claimed_at d = PNum c" "t \<in> set (won_claims d ts)" "sorted (c # ts)"
  shows "c + PROBE_CLAIM_TTL_SEC \<le> t"
  using assms
proof (induction ts arbitrary: d c)
  case (Cons s ts)
  show ?case
  proof (cases "claim_probe s d")
    case (Claimed d')
    then have d': "d' = d\<lparr>probe_claimed_at := PNum s\<rparr>" and s: "c + PROBE_CLAIM_TTL_SEC \<le> s"
      using Cons.prems(1) by (auto simp: claim_probe_Claimed)
    have "t = s \<or> t \<in> set (won_claims d' ts)" using Cons.prems(2) Claimed by simp
    then show ?thesis
    proof
      assume "t \<in> set (won_claims d' ts)"
      then have "s + PROBE_CLAIM_TTL_SEC \<le> t"
        using Cons.IH [of d' s] Cons.prems(3) by (simp add: d')
      with s show ?thesis by (simp add: PROBE_CLAIM_TTL_SEC_def)
    qed (use s in simp)
  next
    case NotOpen then show ?thesis using Cons by simp
  next
    case Cooling then show ?thesis using Cons by simp
  next
    case ProbeInFlight then show ?thesis using Cons by simp
  qed
qed simp

text \<open>C16: (single flight) However many callers try to claim the half-open probe slot, at
  non-decreasing times and with no verdict recorded in between, two successful claims are always
  at least 120 seconds apart: within one claim's life time exactly one caller dials the host.\<close>

theorem probe_claims_single_flight:
  assumes "sorted ts"
  shows "sorted_wrt (\<lambda>s t. s + 120 \<le> t) (won_claims d ts)"
  using assms
proof (induction ts arbitrary: d)
  case (Cons s ts)
  have "s + 120 \<le> t" if "claim_probe s d = Claimed d'" "t \<in> set (won_claims d' ts)" for d' t
    using won_claims_after [of d' s t ts] that Cons.prems
    by (auto simp: claim_probe_Claimed PROBE_CLAIM_TTL_SEC_def)
  then show ?case using Cons by (auto split: claim.split)
qed simp

theorem probe_claims_single_flight_witness:
  "won_claims opened_doc [10, 18, 19, 100, 137, 138, 139] = [18, 138]
   \<and> sorted_wrt (\<lambda>s t. s + 120 \<le> t) (won_claims opened_doc [10, 18, 19, 100, 137, 138, 139])"
proof
  show "won_claims opened_doc [10, 18, 19, 100, 137, 138, 139] = [18, 138]"
    by (simp add: circuit_eval opened_doc_def)
  show "sorted_wrt (\<lambda>s t. s + 120 \<le> t) (won_claims opened_doc [10, 18, 19, 100, 137, 138, 139])"
    by (rule probe_claims_single_flight) simp
qed

lemma cooldown_bounds:
  assumes "cooldown_ok d"
  shows "15 \<le> float_or (cooldown_sec d) x" "float_or (cooldown_sec d) x \<le> 300"
  using assms by (auto simp: cooldown_ok_def circuit_consts)

text \<open>No host is fenced for ever. In every well-formed open document, a claim made 300
  seconds or more after the circuit opened, and 120 seconds or more after the last claim if there
  is one, wins the probe slot. The longest time a healthy host can stay fenced is bounded by the
  top rung of the schedule plus one claim's life time.\<close>

lemma fenced_host_gets_probed:
  assumes "wf_doc d" and "is_open d" and "opened_at d = PNum t0" and "t0 + 300 \<le> now"
    and "probe_claimed_at d = PNull \<or> (\<exists>c. probe_claimed_at d = PNum c \<and> c + 120 \<le> now)"
  shows "claim_probe now d = Claimed (d\<lparr>probe_claimed_at := PNum now\<rparr>)"
proof -
  have "open_deadline now d \<le> now"
    using cooldown_bounds(2) [of d BASE_COOLDOWN_SEC] assms(1,3,4)
    by (simp add: open_deadline_def wf_doc_def)
  then show ?thesis using assms by (auto simp: claim_probe_Claimed PROBE_CLAIM_TTL_SEC_def)
qed

lemma fenced_host_gets_probed_witness:
  "claim_probe 302 opened_doc = Claimed (opened_doc\<lparr>probe_claimed_at := PNum 302\<rparr>)"
  by (rule fenced_host_gets_probed [where ?t0.0 = 2])
     (simp_all add: opened_doc_wf, simp_all add: opened_doc_def is_open_def)

section \<open>Cycles, cooldown and attribution\<close>

lemma reopen_cooldown:
  "cooldown_sec (reopen now d) =
     PNum (if STORM_ESTABLISHMENT_THRESHOLD \<le> recent_establishment_count now d
           then CYCLE1_COOLDOWN_SEC else cooldown_for_cycle (next_cycle now d))"
  by (simp add: reopen_def Let_def stamp_suspected_cause_def select_cooldown_def
      recent_establishment_count_def SELF_STORM_CAUSE_def)

lemma open_up_cooldown:
  "cooldown_sec (open_up now d) =
     PNum (if STORM_ESTABLISHMENT_THRESHOLD \<le> recent_establishment_count now d
           then CYCLE1_COOLDOWN_SEC else cooldown_for_cycle (next_cycle now d))"
  by (simp add: open_up_def Let_def stamp_suspected_cause_def select_cooldown_def
      recent_establishment_count_def SELF_STORM_CAUSE_def)

lemma recent_count_frame [simp]:
  "recent_establishment_count now (d\<lparr>consecutive_failures := v\<rparr>) = recent_establishment_count now d"
  by (simp add: recent_establishment_count_def)

lemma deadline_of:
  "opened_at d = PNum t \<Longrightarrow> cooldown_sec d = PNum c \<Longrightarrow> open_deadline now d = t + c"
  by (simp add: open_deadline_def)

text \<open>Graduated re-open. A failure reported for a claimed half-open probe re-opens the
  circuit from the time of the failure: the claim is cleared, the failure is counted, the cycle
  moves to the next one (or back to 1 when the incident is older than the incident window), and the
  new deadline is the failure's time plus the cooldown of that cycle, or plus the short cycle-1
  cooldown while six or more establishments lie in the trailing 30 seconds.\<close>

lemma failed_probe_reopens_at_next_cycle:
  assumes "is_open d" and "probe_claimed_at d \<noteq> PNull" and "d' = snd (fail_doc now det d)"
  shows "is_open d' \<and> probe_claimed_at d' = PNull \<and> failure_count d' = failure_count d + 1
     \<and> cycle_count d' = next_cycle now d
     \<and> open_deadline later d' = now +
         (if 6 \<le> recent_establishment_count now (record_establishment now d) then 15
          else cooldown_for_cycle (next_cycle now d))"
  using assms
  by (simp add: fail_doc_open_claimed reopen_fields open_deadline_def reopen_cooldown circuit_consts)

definition claimed_doc :: circuit_doc where
  "claimed_doc = opened_doc\<lparr>probe_claimed_at := PNum 18\<rparr>"

lemma failed_probe_reopens_at_next_cycle_witness:
  "open_deadline 40 (snd (fail_doc 20 ''x'' claimed_doc)) = 80
   \<and> cycle_count (snd (fail_doc 20 ''x'' claimed_doc)) = 2"
  using failed_probe_reopens_at_next_cycle [of claimed_doc _ 20 "''x''" 40]
  by (simp add: claimed_doc_def opened_doc_def is_open_def circuit_eval next_cycle_def cycle_count_def)

text \<open>Stragglers do not escalate. A failure recorded against an open circuit with no claimed
  probe, an attempt already in flight when a peer opened the circuit, leaves the state, the
  counter, the cycle, the cooldown and the deadline as they are: it adds evidence only, its
  timestamp in the ring and the last failure.\<close>

lemma straggler_failure_only_adds_evidence:
  assumes "is_open d" and "probe_claimed_at d = PNull"
  shows "\<exists>ring. fail_doc now det d =
    (Unmoved, d\<lparr>recent_establishments := PSeq ring, last_failure := Some (now, take 300 det)\<rparr>)"
  using assms by (auto simp: fail_doc_straggler record_establishment_def Let_def)

lemma straggler_failure_only_adds_evidence_witness:
  "\<exists>ring. fail_doc 3 ''late'' opened_doc =
    (Unmoved, opened_doc\<lparr>recent_establishments := PSeq ring, last_failure := Some (3, take 300 ''late'')\<rparr>)"
  by (rule straggler_failure_only_adds_evidence) (simp_all add: opened_doc_def is_open_def)

section \<open>The contract of the breaker\<close>

text \<open>
  The promise of the circuit breaker to its clients, without counters, rings or attribution: closed
  with some failures counted, or open until a deadline with at most one claim on the probe slot.
\<close>

datatype breaker_view = VClosed int | VOpen seconds "seconds option"

inductive view_step :: "doc_event \<Rightarrow> breaker_view \<Rightarrow> breaker_view \<Rightarrow> bool" where
  count: "n + 1 < CIRCUIT_THRESHOLD \<Longrightarrow> view_step (Fail now m) (VClosed n) (VClosed (n + 1))"
| trip: "CIRCUIT_THRESHOLD \<le> n + 1 \<Longrightarrow> c \<in> {15, 60, 300} \<Longrightarrow>
    view_step (Fail now m) (VClosed n) (VOpen (now + c) None)"
| straggle: "view_step (Fail now m) (VOpen t None) (VOpen t None)"
| probe_failed: "c \<in> {15, 60, 300} \<Longrightarrow>
    view_step (Fail now m) (VOpen t (Some p)) (VOpen (now + c) None)"
| reset: "view_step Succeed v (VClosed 0)"
| claim: "t \<le> now \<Longrightarrow> p = None \<or> (\<exists>s. p = Some s \<and> s + PROBE_CLAIM_TTL_SEC \<le> now) \<Longrightarrow>
    view_step (Claim now) (VOpen t p) (VOpen t (Some now))"
| too_early: "now < t \<Longrightarrow> view_step (Claim now) (VOpen t p) (VOpen t p)"
| taken: "now < s + PROBE_CLAIM_TTL_SEC \<Longrightarrow> view_step (Claim now) (VOpen t (Some s)) (VOpen t (Some s))"
| no_need: "view_step (Claim now) (VClosed n) (VClosed n)"

inductive_cases view_claimE: "view_step (Claim now) v v'"
inductive_cases view_failE: "view_step (Fail now m) v v'"
inductive_simps view_succeed [simp]: "view_step Succeed v v'"

inductive view_run :: "doc_event list \<Rightarrow> breaker_view \<Rightarrow> breaker_view \<Rightarrow> bool" where
  run_nil: "view_run [] v v"
| run_cons: "view_step e v v' \<Longrightarrow> view_run es v' v'' \<Longrightarrow> view_run (e # es) v v''"

text \<open>The deadline moves only when a failure is recorded, and then to at least 15 seconds ahead.\<close>

lemma view_step_deadline:
  "view_step e (VOpen t p) (VOpen t' p') \<Longrightarrow>
     t' = t \<or> (\<exists>now m. e = Fail now m \<and> now + 15 \<le> t' \<and> t' \<le> now + 300)"
  by (cases e) (auto elim!: view_claimE view_failE)

text \<open>
  The interface the clients of the breaker rest on: a state type with one step per locked section
  whose view is an admissible step of the contract.
\<close>

locale breaker_contract =
  fixes exec :: "'d \<Rightarrow> doc_event \<Rightarrow> 'd"
    and view :: "'d \<Rightarrow> breaker_view"
    and good :: "'d \<Rightarrow> bool"
  assumes exec_good: "good d \<Longrightarrow> good (exec d e)"
    and exec_view: "good d \<Longrightarrow> view_step e (view d) (view (exec d e))"
begin

lemma run_good: "good d \<Longrightarrow> good (foldl exec d es)"
  by (induction es arbitrary: d) (simp_all add: exec_good)

lemma run_view: "good d \<Longrightarrow> view_run es (view d) (view (foldl exec d es))"
  by (induction es arbitrary: d) (auto intro: view_run.intros exec_view exec_good)

lemma only_success_closes:
  assumes "good d" "view d = VOpen t p" "Succeed \<notin> set es"
  shows "\<exists>t' p'. view (foldl exec d es) = VOpen t' p'"
  using assms
proof (induction es arbitrary: d t p)
  case (Cons e es)
  have "view_step e (VOpen t p) (view (exec d e))"
    using exec_view [OF Cons.prems(1), of e] Cons.prems(2) by simp
  then have "\<exists>t' p'. view (exec d e) = VOpen t' p'"
    using Cons.prems(3) by (cases e) (auto elim: view_claimE view_failE)
  then show ?case using Cons.IH exec_good [OF Cons.prems(1)] Cons.prems(3) by fastforce
qed simp

lemma claim_before_deadline_is_refused:
  assumes "good d" "view d = VOpen t p" "now < t"
  shows "view (exec d (Claim now)) = VOpen t p"
  using exec_view [OF assms(1), of "Claim now"] assms(2,3) by (auto elim: view_claimE)

end

text \<open>The model's document under the model's locked sections honours the contract.\<close>

definition doc_view :: "circuit_doc \<Rightarrow> breaker_view" where
  "doc_view d =
     (if is_open d then VOpen (open_deadline 0 d) (py_number (probe_claimed_at d))
      else VClosed (failure_count d))"

definition doc_exec :: "string \<Rightarrow> circuit_doc \<Rightarrow> doc_event \<Rightarrow> circuit_doc" where
  "doc_exec host d e = (case doc_step host (Some d) e of Some d' \<Rightarrow> d' | None \<Rightarrow> d)"

lemma doc_exec_simps [simp]:
  "doc_exec h d (Fail now m) = snd (fail_doc now m d)" "doc_exec h d Succeed = ok_doc h d"
  "doc_exec h d (Claim now) = (case claim_probe now d of Claimed d' \<Rightarrow> d' | _ \<Rightarrow> d)"
  by (simp_all add: doc_exec_def split: claim.split)

lemma doc_exec_wf: "wf_doc d \<Longrightarrow> wf_doc (doc_exec h d e)"
  using doc_step_wf [of "Some d" h e] by (cases e) (auto split: claim.splits)

lemma rung_of_schedule:
  "(if b then CYCLE1_COOLDOWN_SEC else cooldown_for_cycle n) \<in> {15, 60, 300}"
  by (simp add: cooldown_for_cycle_def circuit_consts)

lemma deadline_now: "is_ts (opened_at d) \<Longrightarrow> open_deadline now d = open_deadline 0 d"
  by (auto simp: open_deadline_def elim: is_tsE)

lemma reopened_view:
  assumes "is_open d" "probe_claimed_at d \<noteq> PNull"
  shows "\<exists>c\<in>{15, 60, 300}. doc_view (snd (fail_doc now m d)) = VOpen (now + c) None"
  using rung_of_schedule assms
  by (simp add: fail_doc_open_claimed doc_view_def reopen_fields open_deadline_def reopen_cooldown
      del: insert_iff bex_simps)

lemma opened_view:
  assumes "\<not> is_open d" "CIRCUIT_THRESHOLD \<le> failure_count d + 1"
  shows "\<exists>c\<in>{15, 60, 300}. doc_view (snd (fail_doc now m d)) = VOpen (now + c) None"
  using rung_of_schedule assms
  by (simp add: fail_doc_opens doc_view_def open_up_fields open_deadline_def open_up_cooldown
      del: insert_iff bex_simps)

lemma fail_doc_view:
  assumes wf: "wf_doc d"
  shows "view_step (Fail now m) (doc_view d) (doc_view (snd (fail_doc now m d)))"
proof (cases rule: fail_doc_cases [of d])
  case reopened
  then obtain p where "probe_claimed_at d = PNum p"
    using wf by (auto simp: wf_doc_def phase_ok_def elim: is_tsE)
  moreover from reopened_view [OF reopened] obtain c
    where "c \<in> {15, 60, 300}" "doc_view (snd (fail_doc now m d)) = VOpen (now + c) None" by blast
  ultimately show ?thesis using reopened(1) by (simp only:) (simp add: doc_view_def view_step.probe_failed)
next
  case straggler
  then show ?thesis by (simp add: fail_doc_straggler doc_view_def open_deadline_def view_step.straggle)
next
  case counted
  then show ?thesis by (simp add: fail_doc_counts doc_view_def view_step.count)
next
  case opened
  from opened_view [OF this] obtain c
    where "c \<in> {15, 60, 300}" "doc_view (snd (fail_doc now m d)) = VOpen (now + c) None" by blast
  then show ?thesis using opened by (simp only:) (simp add: doc_view_def view_step.trip)
qed

lemma claim_doc_view:
  assumes wf: "wf_doc d" and op: "is_open d"
  obtains p where "doc_view d = VOpen (open_deadline 0 d) p" "open_deadline now d = open_deadline 0 d"
    "probe_claimed_at d = (case p of None \<Rightarrow> PNull | Some s \<Rightarrow> PNum s)"
proof -
  have "is_ts (opened_at d)" "probe_claimed_at d = PNull \<or> is_ts (probe_claimed_at d)"
    using assms by (auto simp: wf_doc_def phase_ok_def)
  then have "probe_claimed_at d = (case py_number (probe_claimed_at d) of None \<Rightarrow> PNull | Some s \<Rightarrow> PNum s)"
    "open_deadline now d = open_deadline 0 d"
    by (auto elim: is_tsE intro: deadline_now)
  then show thesis using that [of "py_number (probe_claimed_at d)"] op by (simp add: doc_view_def)
qed

lemma claim_view:
  assumes wf: "wf_doc d"
  shows "view_step (Claim now) (doc_view d) (doc_view (doc_exec h d (Claim now)))"
proof (cases "is_open d")
  case True
  from claim_doc_view [OF wf True, of now] obtain p where
    p: "doc_view d = VOpen (open_deadline 0 d) p" "open_deadline now d = open_deadline 0 d"
      "probe_claimed_at d = (case p of None \<Rightarrow> PNull | Some s \<Rightarrow> PNum s)" .
  have upd: "doc_view (d\<lparr>probe_claimed_at := PNum now\<rparr>) = VOpen (open_deadline 0 d) (Some now)"
    using True by (simp add: doc_view_def open_deadline_def)
  show ?thesis
  proof (cases "claim_probe now d")
    case (Claimed d')
    then have "doc_exec h d (Claim now) = d'" by simp
    moreover from Claimed have "d' = d\<lparr>probe_claimed_at := PNum now\<rparr>"
      and "open_deadline 0 d \<le> now"
      and "p = None \<or> (\<exists>s. p = Some s \<and> s + PROBE_CLAIM_TTL_SEC \<le> now)"
      using p by (auto simp: claim_probe_Claimed split: option.splits)
    ultimately show ?thesis using p(1) upd by (simp only:) (blast intro: view_step.claim)
  next
    case ProbeInFlight
    then show ?thesis using p True
      by (cases p) (auto simp: claim_probe_def is_open_def intro!: view_step.taken split: if_splits)
  next
    case Cooling
    then show ?thesis using p True
      by (auto simp: claim_probe_def effective_state_def is_open_def intro!: view_step.too_early
          split: if_splits)
  next
    case NotOpen
    then show ?thesis using True by (simp add: claim_probe_def is_open_def split: if_splits)
  qed
next
  case False
  then show ?thesis by (simp add: claim_probe_def is_open_def doc_view_def view_step.no_need)
qed

interpretation circuit: breaker_contract "doc_exec host" doc_view wf_doc for host
proof unfold_locales
  fix d e
  assume wf: "wf_doc d"
  then show "wf_doc (doc_exec host d e)" by (rule doc_exec_wf)
  show "view_step e (doc_view d) (doc_view (doc_exec host d e))"
    using fail_doc_view [OF wf] claim_view [OF wf] by (cases e) (simp_all add: doc_view_def ok_doc_fields)
qed

text \<open>C33: (refinement) Every run of locked sections of the code on a well-formed document is, seen
  through the view, a run of the abstract breaker: count to three, open until a deadline 15, 60 or
  300 seconds after the failure, one claim per 120 seconds once the deadline has passed, and back to
  closed on a success. Counters, ring, attribution and incident bookkeeping never show through.\<close>

theorem circuit_refines_contract:
  assumes "wf_doc d"
  shows "view_run evs (doc_view d) (doc_view (foldl (doc_exec host) d evs))"
  using assms by (rule circuit.run_view)

theorem circuit_refines_contract_witness:
  "view_run [Claim 10, Claim 18, Fail 20 ''x''] (VOpen 17 None) (VOpen 80 None)"
proof -
  note wf = opened_doc_wf
  have s: "doc_view opened_doc = VOpen 17 None"
    by (simp add: doc_view_def is_open_def opened_doc_def open_deadline_def)
  have e: "doc_view (foldl (doc_exec ''h'') opened_doc [Claim 10, Claim 18, Fail 20 ''x'']) = VOpen 80 None"
    by (simp add: doc_view_def is_open_def opened_doc_def circuit_eval)
  from circuit_refines_contract [OF wf, of "[Claim 10, Claim 18, Fail 20 ''x'']" "''h''"] s e
  show ?thesis by simp
qed

section \<open>Incident evidence survives a deceptive success\<close>

lemma degraded_iff:
  assumes "is_ts (incident_started_at d)"
  shows "is_preamble_degraded now (Some d) \<longleftrightarrow>
     2 \<le> cycle_count d \<and> now - float_or (incident_started_at d) 0 \<le> INCIDENT_WINDOW_SEC"
  using assms
  by (auto simp: is_preamble_degraded_def cycle_count_def DEGRADATION_CYCLE_THRESHOLD_def elim: is_tsE)

lemma bump_incident_kept:
  assumes "1 \<le> cycle_count d" "incident_started_at d = PNum s" "now - s \<le> INCIDENT_WINDOW_SEC"
  shows "next_cycle now d = cycle_count d + 1" "incident_started_at (bump_cycle now d) = PNum s"
  using assms by (auto simp: next_cycle_def bump_cycle_def Let_def cycle_count_def)

lemma incident_frame [simp]:
  "incident_started_at (open_up now d) = incident_started_at (bump_cycle now d)"
  by (simp add: open_up_def Let_def bump_cycle_def)

lemma bump_incident_cong [simp]:
  "incident_started_at (bump_cycle now (d\<lparr>consecutive_failures := v\<rparr>)) = incident_started_at (bump_cycle now d)"
  "incident_started_at (bump_cycle now (record_establishment t d)) = incident_started_at (bump_cycle now d)"
  by (simp_all add: bump_cycle_def Let_def)

lemma three_failures_after_success:
  assumes inc: "incident_started_at d = PNum s" and cyc: "1 \<le> cycle_count d" and win: "t3 - s \<le> INCIDENT_WINDOW_SEC"
    and d1_def: "d1 = snd (fail_doc t1 m1 (ok_doc h d))" and d2_def: "d2 = snd (fail_doc t2 m2 d1)"
  shows "cycle_count (snd (fail_doc t3 m3 d2)) = cycle_count d + 1
    \<and> incident_started_at (snd (fail_doc t3 m3 d2)) = PNum s"
proof -
  have 1: "\<not> is_open d1" "failure_count d1 = 1" "cycle_count d1 = cycle_count d" "incident_started_at d1 = PNum s"
    using inc by (simp_all add: d1_def fail_doc_counts ok_doc_fields CIRCUIT_THRESHOLD_def)
  have 2: "\<not> is_open d2" "failure_count d2 = 2" "cycle_count d2 = cycle_count d" "incident_started_at d2 = PNum s"
    using 1 by (simp_all add: d2_def fail_doc_counts CIRCUIT_THRESHOLD_def)
  have "1 \<le> cycle_count d2" using cyc 2(3) by simp
  from bump_incident_kept [OF this 2(4) win] 2 show ?thesis
    by (simp add: fail_doc_opens CIRCUIT_THRESHOLD_def)
qed

text \<open>Livelock detection. A success recorded between two trips closes the circuit but carries
  the incident forward: when the circuit trips again through three more failures inside the incident
  window of the first opening, the host is classified as preamble-degraded, for as long as the window
  lasts. A cheap probe that keeps closing the circuit cannot hide the degradation.\<close>

lemma deceptive_success_keeps_incident:
  assumes "1 \<le> cycle_count d" and "incident_started_at d = PNum s" and "t3 - s \<le> 7200"
    and "doc_run host [Succeed, Fail t1 m1, Fail t2 m2, Fail t3 m3] (Some d) = Some d'"
  shows "is_preamble_degraded now (Some d') \<longleftrightarrow> now - s \<le> 7200"
proof -
  have win: "t3 - s \<le> INCIDENT_WINDOW_SEC" using assms(3) by (simp add: circuit_consts)
  have "cycle_count d' = cycle_count d + 1 \<and> incident_started_at d' = PNum s"
    using three_failures_after_success [OF assms(2,1) win refl refl] assms(4) by auto
  with assms(1) show ?thesis by (simp add: degraded_iff INCIDENT_WINDOW_SEC_def MAX_COOLDOWN_SEC_def)
qed

lemma deceptive_success_keeps_incident_witness:
  "is_preamble_degraded 60 (doc_run ''h'' [Succeed, Fail 40 ''a'', Fail 50 ''b'', Fail 60 ''c''] (Some opened_doc))"
proof -
  obtain d' where d': "doc_run ''h'' [Succeed, Fail 40 ''a'', Fail 50 ''b'', Fail 60 ''c''] (Some opened_doc) = Some d'"
    by simp
  have "1 \<le> cycle_count opened_doc" "incident_started_at opened_doc = PNum 2"
    by (simp_all add: opened_doc_def cycle_count_def)
  from deceptive_success_keeps_incident [OF this _ d'] d' show ?thesis by simp
qed

section \<open>Classification\<close>

lemma find_Some_iff_ex: "(find P xs \<noteq> None) = (\<exists>x\<in>set xs. P x)"
  by (auto simp: find_None_iff)

text \<open>Evidence standard. The verdict for a finished attempt depends on who is speaking: a zero
  exit proves the host reachable, any non-zero exit other than 255 is never transport evidence
  whatever its output says, and exit 255 counts against the host exactly when the combined output
  contains, in any letter case, one of the connection-level markers.\<close>

lemma outcome_evidence_standard:
  "classify_connection_outcome cp =
     (if returncode cp = 0 then SUCCESS
      else if returncode cp \<noteq> 255 then INCONCLUSIVE
      else if \<exists>m\<in>set CONNECTION_FAILURE_MARKERS.
                sublist m (map lower_char (proc_stderr cp @ [CHR 0x0A] @ proc_stdout cp))
           then FAILURE else SUCCESS)"
  unfolding classify_connection_outcome_def classify_connection_failure_def Let_def find_Some_iff_ex
  by (auto simp: find_None_iff py_contains_sublist py_lower_def)

section \<open>The operations on the store\<close>

text \<open>Gate. A check without an inline probe admits the caller exactly when the breaker has
  nothing to say (no host, an override, no document, a closed one, or a lock or write that fails) or
  when the cooldown has lapsed and no unexpired claim holds the slot; and all it ever writes is the
  claim of the winner: a refused caller leaves the whole store as it was.\<close>

lemma check_circuit_gate:
  fixes w :: "'a circuit_world_scheme"
  assumes "host_key target = host" and "check_circuit env ioc io tm wall None target w = (g, w')"
  shows "(g = Proceed \<longleftrightarrow>
      host = [] \<or> overridden (override_raw env) host \<or> \<not> lock_ok ioc
      \<or> (case get_doc w host of None \<Rightarrow> True
         | Some d \<Rightarrow> \<not> is_open d
             \<or> (open_deadline (tm 0) d \<le> tm 0
                \<and> (probe_claimed_at d = PNull \<or> 120 \<le> tm 0 - float_or (probe_claimed_at d) 0))))
    \<and> (w' = w \<or> (g = Proceed \<and> (\<exists>d. get_doc w host = Some d \<and> is_open d \<and>
           w' = notify (HalfOpenProbe host) (put_doc host (d\<lparr>probe_claimed_at := PNum (tm 0)\<rparr>) w))))"
proof
  show "g = Proceed \<longleftrightarrow> host = [] \<or> overridden (override_raw env) host \<or> \<not> lock_ok ioc
      \<or> (case get_doc w host of None \<Rightarrow> True
         | Some d \<Rightarrow> \<not> is_open d
             \<or> (open_deadline (tm 0) d \<le> tm 0
                \<and> (probe_claimed_at d = PNull \<or> 120 \<le> tm 0 - float_or (probe_claimed_at d) 0)))"
    using assms
    by (auto simp: check_circuit_def Let_def is_open_def claim_probe_def effective_state_def
        PROBE_CLAIM_TTL_SEC_def not_less split: option.splits if_splits)
  show "w' = w \<or> (g = Proceed \<and> (\<exists>d. get_doc w host = Some d \<and> is_open d \<and>
           w' = notify (HalfOpenProbe host) (put_doc host (d\<lparr>probe_claimed_at := PNum (tm 0)\<rparr>) w)))"
    using assms
    by (auto simp: check_circuit_def Let_def is_open_def split: option.splits if_splits claim.splits)
       (auto simp: claim_probe_Claimed)
qed

definition demo_env :: circuit_env where
  "demo_env = \<lparr>override_raw = [], clusters = None, proxy_jump_hops = (\<lambda>_. None), consult_atoms = (\<lambda>_. None)\<rparr>"

definition demo_world :: circuit_world where
  "demo_world = \<lparr>circuits = (\<lambda>k. if k = ''h'' then Some opened_doc else None), ledger = [], notices = []\<rparr>"

definition good_io :: section_io where
  "good_io = \<lparr>lock_ok = True, write_ok = True\<rparr>"

lemmas demo_defs = demo_env_def demo_world_def good_io_def

lemma demo_host: "host_key ''u@h'' = ''h''" "host_key ''h'' = ''h''" "safe_name ''h'' = ''h''"
  by (simp_all add: host_key_def after_last_at_def py_strip_def is_space_def safe_name_def safe_char_def)

lemma demo_get: "get_doc demo_world ''h'' = Some opened_doc"
  by (simp add: get_doc_def demo_host demo_world_def)

lemma check_circuit_gate_witness:
  "fst (check_circuit demo_env good_io good_io (\<lambda>_. 10) 0 None ''u@h'' demo_world) \<noteq> Proceed
   \<and> fst (check_circuit demo_env good_io good_io (\<lambda>_. 17) 0 None ''u@h'' demo_world) = Proceed"
proof -
  have "overridden (override_raw demo_env) ''h'' = False" "lock_ok good_io"
    by (simp_all add: demo_defs overridden_def py_strip_def)
  then show ?thesis
    using check_circuit_gate [OF demo_host(1) prod.collapse [symmetric], of demo_env good_io good_io "\<lambda>_. 10" 0 demo_world]
      check_circuit_gate [OF demo_host(1) prod.collapse [symmetric], of demo_env good_io good_io "\<lambda>_. 17" 0 demo_world]
    by (simp add: demo_get) (simp add: opened_doc_def is_open_def open_deadline_def)
qed

lemma store_simps [simp]:
  "get_doc (put_doc h d w) h = Some d" "get_doc (notify n w) h' = get_doc w h'"
  "get_doc (feed_readiness h s v t l m w) h' = get_doc w h'"
  by (simp_all add: get_doc_def put_doc_def notify_def feed_readiness_def)

lemma get_put_other [simp]:
  "safe_name h' \<noteq> safe_name h \<Longrightarrow> get_doc (put_doc h d w) h' = get_doc w h'"
  by (simp add: get_doc_def put_doc_def)

lemma record_failure_doc:
  "get_doc (record_connection_failure env io t0 now det lat target w) (host_key target) =
     (if host_key target = [] \<or> \<not> lock_ok io \<or> \<not> write_ok io then get_doc w (host_key target)
      else Some (snd (fail_doc now det (case get_doc w (host_key target) of
                       None \<Rightarrow> fresh_doc (host_key target) | Some d \<Rightarrow> d))))"
  by (auto simp: record_connection_failure_def Let_def split: prod.split transition.split)

lemma record_failure_other:
  "safe_name h \<noteq> safe_name (host_key target) \<Longrightarrow>
     get_doc (record_connection_failure env io t0 now det lat target w) h = get_doc w h"
  by (auto simp: record_connection_failure_def Let_def split: prod.split transition.split)

lemma record_success_doc:
  assumes "host_key target \<noteq> []" "lock_ok io" "write_ok io"
  shows "get_doc (record_connection_success io t0 lat target w) (host_key target) =
     (case get_doc w (host_key target) of None \<Rightarrow> None
      | Some d \<Rightarrow> if cstate d \<noteq> ''open'' \<and> float_or (consecutive_failures d) 0 = 0 then Some d
                 else Some (ok_doc (host_key target) d))"
  using assms by (auto simp: record_connection_success_def Let_def split: option.splits)

lemma record_success_other:
  "safe_name h \<noteq> safe_name (host_key target) \<Longrightarrow>
     get_doc (record_connection_success io t0 lat target w) h = get_doc w h"
  by (auto simp: record_connection_success_def Let_def split: option.splits)

text \<open>Success. A recorded success with a working file system leaves the host's circuit closed
  with no counted failure, keeps its cycle counter, incident start and establishment ring, touches no
  other host's file, and always feeds exactly one \<open>connect = ok\<close> observation, also on the read-only
  path of a healthy host.\<close>

lemma success_closes_and_carries:
  assumes "host_key target = host" and "host \<noteq> []" and "lock_ok io" and "write_ok io"
    and "get_doc w host = Some d" and "wf_doc d"
    and "w' = record_connection_success io t0 lat target w"
  shows "(\<exists>d'. get_doc w' host = Some d' \<and> \<not> is_open d' \<and> failure_count d' = 0
            \<and> cycle_count d' = cycle_count d \<and> incident_started_at d' = incident_started_at d
            \<and> py_items (recent_establishments d') = py_items (recent_establishments d))
     \<and> (\<forall>h. safe_name h \<noteq> safe_name host \<longrightarrow> get_doc w' h = get_doc w h)
     \<and> ledger w' = ledger w @ [\<lparr>obs_host = host, obs_sensor = ''connect'', obs_verdict = ''ok'',
          obs_at = t0, obs_latency = lat, obs_detail = []\<rparr>]"
proof -
  have L: "ledger (record_connection_success io t0 lat target w) = ledger w @ [\<lparr>obs_host = host,
      obs_sensor = ''connect'', obs_verdict = ''ok'', obs_at = t0, obs_latency = lat, obs_detail = []\<rparr>]"
    using assms(1,2)
    by (auto simp: record_connection_success_def Let_def feed_readiness_def put_doc_def notify_def
        split: option.splits)
  have z: "failure_count d = 0" if "float_or (consecutive_failures d) 0 = 0"
    using that by (simp add: failure_count_def)
  show ?thesis
    using assms(1-5,7) L record_success_doc [of target io t0 lat w] record_success_other [of _ target io t0 lat w] z
    by (auto simp: ok_doc_fields is_open_def split: if_splits)
qed

lemma success_closes_and_carries_witness:
  "\<exists>d'. get_doc (record_connection_success good_io 30 None ''u@h'' demo_world) ''h'' = Some d'
     \<and> \<not> is_open d' \<and> cycle_count d' = 1"
  using success_closes_and_carries [OF demo_host(1) _ _ _ demo_get opened_doc_wf refl, of good_io 30 None]
  by (auto simp: demo_defs) (auto simp: opened_doc_def cycle_count_def)

text \<open>Inline probe. When the caller hands over a liveness probe and wins the slot of an open
  circuit, it gets through only if the probe proved the host reachable (exit 0, or 255 without a
  connection marker), and then, with a working file system, against a circuit that is closed. A
  timeout or a marked failure re-opens the circuit with the claim cleared; an exit that proves nothing
  leaves the circuit open with the slot still claimed, and the caller is refused in both cases.\<close>

lemma inline_probe_verdict:
  assumes "host_key target = host" and "host \<noteq> []" and "lock_ok io" and "write_ok io"
    and "get_doc w host = Some d" and "wf_doc d" and "is_open d" and "probe_claimed_at d \<noteq> PNull"
    and "run_demand_probe env io tm wall probe target w = (g, w')"
  shows "(g = Proceed \<longleftrightarrow> (\<exists>cp. probe = Finished cp \<and> classify_connection_outcome cp = SUCCESS))
     \<and> (\<exists>d'. get_doc w' host = Some d'
          \<and> (is_open d' \<longleftrightarrow> g \<noteq> Proceed)
          \<and> (case probe of
               TimedOut m \<Rightarrow> probe_claimed_at d' = PNull \<and> opened_at d' = PNum (tm 2)
             | Raised e \<Rightarrow> d' = d
             | Finished cp \<Rightarrow>
                 (case classify_connection_outcome cp of
                    FAILURE \<Rightarrow> probe_claimed_at d' = PNull \<and> opened_at d' = PNum (tm 2)
                  | SUCCESS \<Rightarrow> failure_count d' = 0
                  | INCONCLUSIVE \<Rightarrow> d' = d)))"
proof -
  have f: "get_doc (record_connection_failure env io t0 t m lat target w) host
      = Some ((reopen t (record_establishment t d))\<lparr>last_failure := Some (t, take 300 m)\<rparr>)" for t0 t m lat
    using record_failure_doc [of env io t0 t m lat target w] assms(1-5,7,8)
    by (simp add: fail_doc_open_claimed)
  have s: "get_doc (record_connection_success io wall None target w) host = Some (ok_doc host d)"
    using record_success_doc [of target io wall None w] assms(1-5,7) by (simp add: is_open_def)
  show ?thesis
  proof (cases probe)
    case (TimedOut m)
    then show ?thesis using assms(1,7,9) f by (auto simp: run_demand_probe_def Let_def reopen_fields)
  next
    case (Raised e)
    then show ?thesis using assms(5,7,9) by (auto simp: run_demand_probe_def Let_def)
  next
    case (Finished cp)
    then show ?thesis using assms(1,5,7,9) f s
      by (cases "classify_connection_outcome cp")
         (auto simp: run_demand_probe_def Let_def reopen_fields ok_doc_fields)
  qed
qed

lemma inline_probe_verdict_witness:
  "fst (run_demand_probe demo_env good_io (\<lambda>_. 20) 20 (TimedOut ''t'') ''u@h''
          (put_doc ''h'' claimed_doc demo_world)) \<noteq> Proceed"
proof -
  have "wf_doc claimed_doc" "is_open claimed_doc" "probe_claimed_at claimed_doc \<noteq> PNull"
    by (simp_all add: claimed_doc_def opened_doc_def wf_parts failure_count_def cycle_count_def
        is_open_def circuit_consts)
  from inline_probe_verdict [OF demo_host(1) _ _ _ _ this prod.collapse [symmetric],
      of good_io "put_doc ''h'' claimed_doc demo_world" demo_env "\<lambda>_. 20" 20 "TimedOut ''t''"]
  show ?thesis by (simp add: good_io_def)
qed

section \<open>Siblings\<close>

definition signature_of_host :: "clusters_config \<Rightarrow> string \<Rightarrow> string \<times> string \<Rightarrow> bool" where
  "signature_of_host cs host sg \<longleftrightarrow>
     (\<exists>name cfg. (name, Some cfg) \<in> set cs \<and> py_strip (cfg_host cfg) = host
        \<and> cluster_scheduler_scratch cfg = sg)"

lemma set_candidates:
  "n \<in> set [name. (name, Some cfg) \<leftarrow> cs, name \<notin> K, A cfg \<noteq> [], A cfg \<noteq> h, B cfg \<in> S] \<longleftrightarrow>
     (\<exists>cfg. (n, Some cfg) \<in> set cs \<and> n \<notin> K \<and> A cfg \<noteq> [] \<and> A cfg \<noteq> h \<and> B cfg \<in> S)"
proof (induction cs)
  case (Cons e cs)
  then show ?case by (cases e; cases "snd e") auto
qed simp

lemma set_signatures:
  "sg \<in> set [B cfg. (_, Some cfg) \<leftarrow> filter (serves_host h) cs] \<longleftrightarrow>
     (\<exists>n cfg. (n, Some cfg) \<in> set cs \<and> py_strip (cfg_host cfg) = h \<and> B cfg = sg)"
proof (induction cs)
  case (Cons e cs)
  then show ?case by (cases e; cases "snd e") (auto simp: serves_host_def)
qed simp

lemma sibling_clusters_set:
  assumes "host \<noteq> []"
  shows "name \<in> set (sibling_clusters (Some cs) host) \<longleftrightarrow>
     (\<exists>cfg. (name, Some cfg) \<in> set cs \<and> name \<notin> set (map fst (filter (serves_host host) cs))
        \<and> py_strip (cfg_host cfg) \<noteq> [] \<and> py_strip (cfg_host cfg) \<noteq> host
        \<and> signature_of_host cs host (cluster_scheduler_scratch cfg))"
proof -
  let ?sigs = "[cluster_scheduler_scratch cfg. (_, Some cfg) \<leftarrow> filter (serves_host host) cs]"
  have sigs: "sg \<in> set ?sigs \<longleftrightarrow> signature_of_host cs host sg" for sg
    unfolding set_signatures signature_of_host_def ..
  have none: "?sigs = [] \<Longrightarrow> \<not> signature_of_host cs host sg" for sg
    by (metis sigs list.set(1) empty_iff)
  let ?cand = "[name. (name, Some cfg) \<leftarrow> cs,
      name \<notin> set (map fst (filter (serves_host host) cs)), py_strip (cfg_host cfg) \<noteq> [],
      py_strip (cfg_host cfg) \<noteq> host, cluster_scheduler_scratch cfg \<in> set ?sigs]"
  have e: "sibling_clusters (Some cs) host = (if ?sigs = [] then [] else sort (remdups ?cand))"
    unfolding sibling_clusters_def Let_def option.case if_not_P [OF assms] ..
  have "name \<in> set ?cand \<longleftrightarrow> (\<exists>cfg. (name, Some cfg) \<in> set cs
      \<and> name \<notin> set (map fst (filter (serves_host host) cs)) \<and> py_strip (cfg_host cfg) \<noteq> []
      \<and> py_strip (cfg_host cfg) \<noteq> host \<and> cluster_scheduler_scratch cfg \<in> set ?sigs)"
    by (rule set_candidates)
  note c = this [unfolded sigs]
  show ?thesis
  proof (cases "?sigs = []")
    case True
    with none show ?thesis unfolding e if_P [OF True] by simp
  next
    case False
    show ?thesis unfolding e if_not_P [OF False] set_sort set_remdups sigs by (rule c)
  qed
qed

text \<open>Fail-over candidates. The clusters named as \<open>host-retarget\<close> candidates for a host are, in
  sorted order without repetition, exactly the entries that are not themselves entries of that host,
  that have a login host of their own, and that serve the scheduler and scratch of some entry of the
  host: never a move to a different cluster, never the degraded host itself.\<close>

lemma sibling_clusters_exact:
  assumes "host \<noteq> []" and "distinct (map fst cs)"
  shows "sorted (sibling_clusters (Some cs) host) \<and> distinct (sibling_clusters (Some cs) host)
    \<and> (name \<in> set (sibling_clusters (Some cs) host) \<longleftrightarrow>
         (\<exists>cfg. (name, Some cfg) \<in> set cs \<and> py_strip (cfg_host cfg) \<noteq> []
            \<and> py_strip (cfg_host cfg) \<noteq> host
            \<and> signature_of_host cs host (cluster_scheduler_scratch cfg)))"
proof -
  have "sorted (sibling_clusters (Some cs) host) \<and> distinct (sibling_clusters (Some cs) host)"
    by (simp add: sibling_clusters_def Let_def)
  moreover have "n \<notin> set (map fst (filter (serves_host host) cs))"
    if "(n, Some cfg) \<in> set cs" "py_strip (cfg_host cfg) \<noteq> host" for n cfg
  proof
    assume "n \<in> set (map fst (filter (serves_host host) cs))"
    then obtain c where "(n, c) \<in> set cs" "serves_host host (n, c)" by auto
    with that show False using eq_key_imp_eq_value [OF assms(2) that(1)] by (fastforce simp: serves_host_def split: option.splits)
  qed
  ultimately show ?thesis unfolding sibling_clusters_set [OF assms(1)] by blast
qed

lemma sibling_clusters_exact_witness:
  "''b'' \<in> set (sibling_clusters (Some
     [(''a'', Some \<lparr>cfg_host = ''h1'', cfg_scheduler = ''sge'', cfg_scratch = ''/s''\<rparr>),
      (''b'', Some \<lparr>cfg_host = ''h2'', cfg_scheduler = ''sge'', cfg_scratch = ''/s''\<rparr>)]) ''h1'')"
proof (subst sibling_clusters_exact [THEN conjunct2, THEN conjunct2], simp, simp, rule exI, intro conjI)
  show "signature_of_host [(''a'', Some \<lparr>cfg_host = ''h1'', cfg_scheduler = ''sge'', cfg_scratch = ''/s''\<rparr>),
      (''b'', Some \<lparr>cfg_host = ''h2'', cfg_scheduler = ''sge'', cfg_scratch = ''/s''\<rparr>)] ''h1''
      (cluster_scheduler_scratch \<lparr>cfg_host = ''h2'', cfg_scheduler = ''sge'', cfg_scratch = ''/s''\<rparr>)"
    unfolding signature_of_host_def
    by (rule exI [of _ "''a''"], rule exI [of _ "\<lparr>cfg_host = ''h1'', cfg_scheduler = ''sge'', cfg_scratch = ''/s''\<rparr>"])
       (simp add: cluster_scheduler_scratch_def py_strip_def is_space_def)
qed (simp_all add: py_strip_def is_space_def)

end
