(* ===== verification/SshSlotsLaws.thy ===== *)
theory SshSlotsLaws
  imports SshSlots SshCircuitLaws
begin

text \<open>
  What the slot limiter guarantees: the lease interface its clients rest on and its interpretation
  on the slot files, mutual exclusion over every run of whole operations of a fleet with crashes and
  a janitor, the interleaving of file-system steps that breaks it, and the bounded wait.
\<close>

section \<open>The lease interface\<close>

text \<open>
  A pool of leases: \<open>owner p i\<close> is the process the lease \<open>i\<close> names, \<open>take\<close> tries to lease for a
  process given who is alive, \<open>give\<close> returns a lease, \<open>sweep\<close> is the janitor. The laws are what a
  client needs: a live owner's lease is never taken, given back by another, or swept.
\<close>

locale lease_pool =
  fixes owner :: "'p \<Rightarrow> nat \<Rightarrow> int option"
    and take :: "int \<Rightarrow> seconds \<Rightarrow> (int \<Rightarrow> bool) \<Rightarrow> 'p \<Rightarrow> (nat \<times> 'p) option"
    and give :: "int \<Rightarrow> nat \<Rightarrow> 'p \<Rightarrow> 'p"
    and sweep :: "(int \<Rightarrow> bool) \<Rightarrow> nat list \<Rightarrow> 'p \<Rightarrow> 'p"
    and limit :: nat
  assumes take_below: "take pid now alive p = Some (i, p') \<Longrightarrow> i < limit"
    and take_free: "take pid now alive p = Some (i, p') \<Longrightarrow> owner p i = Some q \<Longrightarrow> \<not> alive q"
    and take_owner: "take pid now alive p = Some (i, p') \<Longrightarrow> owner p' = (owner p)(i := Some pid)"
    and give_owner: "owner (give pid i p) = (if owner p i = Some pid then (owner p)(i := None) else owner p)"
    and sweep_owner: "owner p j = Some q \<Longrightarrow> alive q \<Longrightarrow> owner (sweep alive is p) j = Some q"
begin

text \<open>The tokens in hand: who believes to hold which lease.\<close>

definition held_ok :: "(int \<Rightarrow> bool) \<Rightarrow> (int \<times> nat) set \<Rightarrow> 'p \<Rightarrow> bool" where
  "held_ok alive held p \<longleftrightarrow> (\<forall>(pid, i)\<in>held. alive pid \<and> i < limit \<and> owner p i = Some pid)"

lemma held_okI: "(\<And>pid i. (pid, i) \<in> held \<Longrightarrow> alive pid \<and> i < limit \<and> owner p i = Some pid) \<Longrightarrow> held_ok alive held p"
  by (auto simp: held_ok_def)

lemma held_okD: "held_ok alive held p \<Longrightarrow> (pid, i) \<in> held \<Longrightarrow> alive pid \<and> i < limit \<and> owner p i = Some pid"
  by (auto simp: held_ok_def)

lemma take_held:
  assumes "held_ok alive held p" "take pid now alive p = Some (i, p')" "alive pid"
  shows "held_ok alive (insert (pid, i) held) p'"
proof (rule held_okI)
  fix q j
  assume "(q, j) \<in> insert (pid, i) held"
  then consider "q = pid" "j = i" | "(q, j) \<in> held" by auto
  then show "alive q \<and> j < limit \<and> owner p' j = Some q"
  proof cases
    case 1
    then show ?thesis using assms take_below [OF assms(2)] take_owner [OF assms(2)] by simp
  next
    case 2
    note h = held_okD [OF assms(1) 2]
    then have "j \<noteq> i" using take_free [OF assms(2)] by blast
    with h show ?thesis using take_owner [OF assms(2)] by simp
  qed
qed

lemma give_held:
  assumes "held_ok alive held p" "(pid, i) \<in> held"
  shows "held_ok alive (held - {(pid, i)}) (give pid i p)"
proof (rule held_okI)
  fix q j
  assume q: "(q, j) \<in> held - {(pid, i)}"
  have "owner p i = Some pid" using held_okD [OF assms] by simp
  moreover have h: "alive q \<and> j < limit \<and> owner p j = Some q" using held_okD [OF assms(1)] q by blast
  ultimately have "j \<noteq> i" using q by auto
  with h show "alive q \<and> j < limit \<and> owner (give pid i p) j = Some q" by (simp add: give_owner)
qed

lemma sweep_held: "held_ok alive held p \<Longrightarrow> held_ok alive held (sweep alive is p)"
  by (rule held_okI) (auto dest!: held_okD intro: sweep_owner)

lemma lease_exclusive: "held_ok alive held p \<Longrightarrow> (a, i) \<in> held \<Longrightarrow> (b, i) \<in> held \<Longrightarrow> a = b"
  by (metis held_okD option.inject)

lemma lease_count:
  assumes "held_ok alive held p"
  shows "finite held" "card held \<le> limit"
proof -
  have inj: "inj_on snd held"
    using lease_exclusive [OF assms] by (fastforce intro: inj_onI)
  have sub: "snd ` held \<subseteq> {..<limit}" using held_okD [OF assms] by auto
  then have "finite (snd ` held)" by (rule finite_subset) simp
  then show "finite held" using inj by (rule finite_imageD)
  show "card held \<le> limit"
    using card_image [OF inj] card_mono [OF _ sub] by simp
qed

end

text \<open>The slot files are such a pool.\<close>

definition slot_owner :: "pool \<Rightarrow> nat \<Rightarrow> int option" where
  "slot_owner p i = (case p i of Some (ClaimDoc pid _) \<Rightarrow> Some pid | _ \<Rightarrow> None)"

lemma slot_owner_Some: "slot_owner p i = Some pid \<longleftrightarrow> (\<exists>t. p i = Some (ClaimDoc pid t))"
  by (auto simp: slot_owner_def split: option.splits slot_file.splits)

lemma slot_owner_upd [simp]:
  "slot_owner (p(i := Some (ClaimDoc pid t))) = (slot_owner p)(i := Some pid)"
  "slot_owner (p(i := None)) = (slot_owner p)(i := None)"
  by (auto simp: slot_owner_def)

interpretation slots: lease_pool slot_owner "try_claim limit" "\<lambda>pid i. release_slot pid (Some i)"
    "\<lambda>alive is p. snd (reap_pass alive cu is p)" limit for limit cu
proof unfold_locales
  fix pid now alive p i p' q
  assume t: "try_claim limit pid now alive p = Some (i, p')"
  then show "i < limit" by (rule try_claim_Some)
  show "slot_owner p' = (slot_owner p)(i := Some pid)" using try_claim_Some(3) [OF t] by simp
  assume "slot_owner p i = Some q"
  then show "\<not> alive q" using try_claim_Some(2) [OF t] by (auto simp: slot_owner_Some)
next
  fix pid i p
  show "slot_owner (release_slot pid (Some i) p) =
      (if slot_owner p i = Some pid then (slot_owner p)(i := None) else slot_owner p)"
    by (auto simp: release_slot_def unlink_def slot_owner_def split: option.splits slot_file.splits)
next
  fix p :: pool and j q alive "is"
  assume "slot_owner p j = Some q" "alive q"
  then show "slot_owner (snd (reap_pass alive cu is p)) j = Some q"
    by (auto simp: slot_owner_Some reap_pass_pool)
qed

section \<open>A fleet of processes on one host's slots\<close>

text \<open>
  The processes of a fleet acquire, release, crash (their tokens are gone, their files stay), are
  started (possibly under the pid of a dead one), and a janitor reaps. Each whole operation is one step.
\<close>

record fleet =
  slot_files :: pool
  running :: "int set"
  in_hand :: "(int \<times> nat) set"

inductive fleet_step :: "nat \<Rightarrow> fleet \<Rightarrow> fleet \<Rightarrow> bool" where
  acquire: "pid \<in> running s \<Longrightarrow>
     try_claim limit pid now (\<lambda>q. q \<in> running s) (slot_files s) = Some (i, p') \<Longrightarrow>
     fleet_step limit s (s\<lparr>slot_files := p', in_hand := insert (pid, i) (in_hand s)\<rparr>)"
| release: "(pid, i) \<in> in_hand s \<Longrightarrow>
     fleet_step limit s (s\<lparr>slot_files := release_slot pid (Some i) (slot_files s),
                           in_hand := in_hand s - {(pid, i)}\<rparr>)"
| crash: "fleet_step limit s (s\<lparr>running := running s - {pid},
                                in_hand := {(q, i) \<in> in_hand s. q \<noteq> pid}\<rparr>)"
| start: "pid \<notin> running s \<Longrightarrow> fleet_step limit s (s\<lparr>running := insert pid (running s)\<rparr>)"
| reap: "fleet_step limit s (s\<lparr>slot_files :=
     snd (reap_pass (\<lambda>q. q \<in> running s) cu is (slot_files s))\<rparr>)"

inductive fleet_reach :: "nat \<Rightarrow> fleet \<Rightarrow> bool" where
  fleet_init: "in_hand s = {} \<Longrightarrow> fleet_reach limit s"
| fleet_next: "fleet_reach limit s \<Longrightarrow> fleet_step limit s t \<Longrightarrow> fleet_reach limit t"

abbreviation fleet_held :: "nat \<Rightarrow> fleet \<Rightarrow> bool" where
  "fleet_held limit s \<equiv>
     slots.held_ok limit (\<lambda>q. q \<in> running s) (in_hand s) (slot_files s)"

lemma fleet_step_held: "fleet_step limit s t \<Longrightarrow> fleet_held limit s \<Longrightarrow> fleet_held limit t"
proof (induction rule: fleet_step.induct)
  case (acquire pid s limit now i p')
  then show ?case using slots.take_held by simp
next
  case (release pid i s limit)
  then show ?case using slots.give_held by simp
next
  case (crash limit s pid)
  then show ?case by (auto simp: slots.held_ok_def)
next
  case (start pid s limit)
  then show ?case by (auto simp: slots.held_ok_def)
next
  case (reap limit s cu "is")
  then show ?case using slots.sweep_held by simp
qed

lemma fleet_reach_held: "fleet_reach limit s \<Longrightarrow> fleet_held limit s"
proof (induction rule: fleet_reach.induct)
  case (fleet_init s limit)
  then show ?case by (simp add: slots.held_ok_def)
next
  case (fleet_next limit s t)
  then show ?case by (blast intro: fleet_step_held)
qed

text \<open>C25: (connection cap) In every state a fleet reaches by whole operations, with crashes, restarts
  under reused pids, leaked files and a janitor at any point, no slot is in the hands of two processes,
  every holder is alive and named by its slot file, and at most \<open>limit\<close> connections are in hand.\<close>

theorem slots_never_over_admit:
  assumes "fleet_reach limit s"
  shows "finite (in_hand s) \<and> card (in_hand s) \<le> limit
    \<and> (\<forall>a b i. (a, i) \<in> in_hand s \<longrightarrow> (b, i) \<in> in_hand s \<longrightarrow> a = b)
    \<and> (\<forall>(pid, i)\<in>in_hand s. pid \<in> running s \<and> slot_owner (slot_files s) i = Some pid)"
proof -
  note h = fleet_reach_held [OF assms]
  show ?thesis
    using slots.lease_count [OF h] slots.lease_exclusive [OF h] slots.held_okD [OF h] by blast
qed

definition busy_fleet :: fleet where
  "busy_fleet = \<lparr>slot_files = (\<lambda>i. if i = 0 then Some (ClaimDoc 7 (Some 1)) else None), running = {8, 9}, in_hand = {}\<rparr>"

theorem slots_never_over_admit_witness:
  "\<exists>s. fleet_reach 1 s \<and> in_hand s = {(8, 0)} \<and> card (in_hand s) \<le> 1"
proof -
  let ?s = "busy_fleet\<lparr>slot_files := (slot_files busy_fleet)(0 := Some (ClaimDoc 8 (Some 5))), in_hand := {(8, 0)}\<rparr>"
  have "fleet_step 1 busy_fleet (busy_fleet\<lparr>slot_files := (slot_files busy_fleet)(0 := Some (ClaimDoc 8 (Some 5))),
      in_hand := insert (8, 0) (in_hand busy_fleet)\<rparr>)"
    by (rule fleet_step.acquire [where now = 5]) (simp_all add: busy_fleet_def try_claim_def create_claim_eq unlink_def)
  then have "fleet_reach 1 ?s"
    using fleet_next [OF fleet_init, of busy_fleet 1] by (simp add: busy_fleet_def)
  with slots_never_over_admit [OF this] show ?thesis by force
qed

section \<open>The same operations, one file-system step at a time\<close>

text \<open>
  Between the steps of one process the others run: the reclaim lock is not taken by the hot path, and
  a slot file exists, empty, before its payload is written. Process A stands in the reclaim pass on a
  slot whose owner has just released it: its re-check under the lock reads a missing file as stale.
\<close>

text \<open>A race of the reclaim pass. On a slot that has just been released, the re-check of the
  reclaiming process A says stale; if live process B now claims the slot on the lock-free hot path, A's
  next two steps, unlink and exclusive create, succeed as well: A removes B's live claim and takes the
  slot, so two live processes hold one slot and B's release will be a no-op. The whole-operation
  guarantee above therefore needs the re-check, the unlink and the hot-path create to exclude each other.\<close>

lemma reclaim_race_evicts_live_claim:
  assumes "p i = None" and "alive a" and "alive b" and "a \<noteq> b"
  shows "claim_is_stale alive (p i)
    \<and> (\<exists>pB. create_claim b tB i p = Some pB \<and> slot_owner pB i = Some b
        \<and> \<not> claim_is_stale alive (pB i)
        \<and> (\<exists>pA. create_claim a tA i (unlink i pB) = Some pA \<and> slot_owner pA i = Some a
             \<and> release_slot b (Some i) pA = pA))"
  using assms
  by (auto simp: create_claim_eq slot_owner_def release_slot_def unlink_def)

lemma reclaim_race_evicts_live_claim_witness:
  "\<exists>pB. create_claim 9 1 0 (\<lambda>_. None) = Some pB \<and> \<not> claim_is_stale (\<lambda>q. q \<in> {8, 9}) (pB 0)
     \<and> (\<exists>pA. create_claim 8 2 0 (unlink 0 pB) = Some pA \<and> slot_owner pA 0 = Some 8)"
  using reclaim_race_evicts_live_claim [of "\<lambda>_. None" 0 "\<lambda>q. q \<in> {8, 9}" 8 9 1 2] by auto

section \<open>The bounded wait\<close>

lemma jitter_nonneg: "0 \<le> (of_int (pid mod JITTER_MOD) / of_int JITTER_MOD :: rat)"
  "(of_int (pid mod JITTER_MOD) / of_int JITTER_MOD :: rat) < 1"
proof -
  have "0 \<le> pid mod 997" "pid mod 997 < 997" by simp_all
  then have "(0::rat) \<le> of_int (pid mod 997)" "(of_int (pid mod 997) :: rat) < 997"
    by (metis of_int_0_le_iff, metis of_int_less_iff of_int_numeral)
  then show "0 \<le> (of_int (pid mod JITTER_MOD) / of_int JITTER_MOD :: rat)"
    "(of_int (pid mod JITTER_MOD) / of_int JITTER_MOD :: rat) < 1"
    by (simp_all add: JITTER_MOD_def)
qed

lemma poll_interval_range: "3 / 10 \<le> poll_interval pid" "poll_interval pid < 1 / 2"
  using jitter_nonneg [of pid] by (simp_all add: poll_interval_def SLOT_POLL_BASE_SEC_def SLOT_JITTER_MAX_SEC_def)

text \<open>A clock that advances at least by what the caller sleeps, from the start of the call on.\<close>

definition honest_clock :: "slot_env \<Rightarrow> bool" where
  "honest_clock e \<longleftrightarrow> t_start e \<le> t_now e 0 \<and> (\<forall>k. t_now e k + poll_sleep e k \<le> t_now e (Suc k))"

lemma honest_clock_progress:
  assumes "honest_clock e"
  shows "min (t_start e + of_nat k * (3 / 10)) (slot_deadline e) \<le> t_now e k"
proof (induction k)
  case 0
  then show ?case using assms by (simp add: honest_clock_def slot_deadline_def min_le_iff_disj)
next
  case (Suc k)
  have "t_now e k + poll_sleep e k \<le> t_now e (Suc k)" using assms by (simp add: honest_clock_def)
  moreover have "min (t_now e k + 3 / 10) (slot_deadline e) \<le> t_now e k + poll_sleep e k"
    using poll_interval_range(1) [of "slot_pid e"] by (auto simp: poll_sleep_def min_def max_def)
  ultimately show ?case using Suc by (auto simp: min_def field_simps split: if_splits)
qed

lemma acquire_loop_returns:
  assumes "j < fuel" "slot_deadline e \<le> t_now e (k + j)"
  shows "\<exists>r. acquire_loop fuel e target host limit k ann nd w = Some r"
  using assms
proof (induction fuel arbitrary: j k ann nd w)
  case (Suc fuel)
  show ?case
  proof (cases "slot_deadline e \<le> t_now e k")
    case True
    then show ?thesis by (auto simp: Let_def split: option.split)
  next
    case False
    with Suc.prems have "j \<noteq> 0" by (cases j) auto
    with Suc.prems obtain i where i: "i < fuel" "slot_deadline e \<le> t_now e (Suc k + i)"
      by (cases j) auto
    have "\<exists>r. acquire_loop fuel e target host limit (Suc k) True nd' w' = Some r" for nd' w'
      using Suc.IH [OF i] by blast
    then show ?thesis using False
      by (auto simp: Let_def split: option.split prod.split gate.split)
         (metis not_None_eq option.distinct(1))+
  qed
qed simp

text \<open>The wait ends. With a clock that advances at least by the time slept, waiting for a slot
  returns after at most 401 polls, whatever the other processes do to the slots and to the circuit in
  the meantime: with a slot, without a limiter, refused by the breaker, or giving up.\<close>

lemma acquire_slot_terminates:
  assumes "honest_clock e"
  shows "\<exists>out sleeps w'. acquire_slot 401 e target w = Some (out, sleeps, w')"
proof -
  have "t_start e + of_nat 400 * (3 / 10) = slot_deadline e"
    by (simp add: slot_deadline_def SLOT_WAIT_MAX_SEC_def)
  then have "slot_deadline e \<le> t_now e (0 + 400)"
    using honest_clock_progress [OF assms, of 400] by simp
  then have "\<exists>r. acquire_loop 401 e target h l 0 a nd w = Some r" for h l a nd
    using acquire_loop_returns [of 400 401 e 0] by simp
  then show ?thesis by (auto simp: acquire_slot_def Let_def)
qed

lemma acquire_loop_sleeps:
  "acquire_loop fuel e target host limit k ann nd w = Some (out, sleeps, w') \<Longrightarrow>
     length sleeps < fuel \<and> (\<forall>i<length sleeps. sleeps ! i = poll_sleep e (k + i) \<and> t_now e (k + i) < slot_deadline e)"
proof (induction fuel arbitrary: k ann nd w out sleeps w')
  case (Suc fuel)
  show ?case
  proof (cases "sleeps = []")
    case False
    then obtain nd' w1 ss where r: "acquire_loop fuel e target host limit (Suc k) True nd' w1 = Some (out, ss, w')"
      "sleeps = poll_sleep e k # ss" "t_now e k < slot_deadline e"
      using Suc.prems
      by (auto simp: Let_def split: if_splits option.splits prod.splits gate.splits)
    with Suc.IH [OF r(1)] show ?thesis by (auto simp: nth_Cons split: nat.split)
  qed simp
qed simp

text \<open>A caller that finds the one slot held by live process 7, which releases it before the second poll.\<close>

definition demo_slot_env :: slot_env where
  "demo_slot_env = \<lparr>slot_circuit_env = demo_env, max_connections_raw = Some ''1'', slot_pid = 997,
     t_start = 0, t_claim = of_nat, t_now = of_nat, t_check = of_nat, alive_at = (\<lambda>_ q. q = 7),
     claim_io = (\<lambda>_. True), check_io = (\<lambda>_. good_io),
     interfere = (\<lambda>k w. if k = 1 then set_pool ''h'' (\<lambda>_. None) w else w)\<rparr>"

definition demo_slot_world :: slot_world where
  "demo_slot_world = \<lparr>circuits = (\<lambda>_. None), ledger = [], notices = [], buckets = (\<lambda>_. None),
     cap_exceeded = [], pools = (\<lambda>_. (\<lambda>_. None)(0 := Some (ClaimDoc 7 (Some 0)))), wait_notices = []\<rparr>"

lemma demo_honest: "honest_clock demo_slot_env"
  by (auto simp: honest_clock_def demo_slot_env_def poll_sleep_def slot_deadline_def slot_consts
      poll_interval_def min_def max_def)

lemma demo_limit: "resolve_max_connections (Some ''1'') = 1"
  by (simp add: resolve_max_connections_def py_int_of_text_def digit_val_def py_strip_def is_space_def)

lemmas acquire_loop_numeral = acquire_loop.simps(2) [of "pred_numeral n" for n, folded numeral_eq_Suc]

lemma demo_acquire:
  "\<exists>w'. acquire_slot 401 demo_slot_env ''u@h'' demo_slot_world = Some (Got 0, [3 / 10], w')"
  by (simp add: acquire_slot_def demo_limit demo_host demo_slot_env_def demo_slot_world_def
      acquire_loop_numeral get_pool_def set_pool_def try_claim_def create_claim_eq check_circuit_def
      get_doc_def Let_def demo_env_def overridden_def py_strip_def slot_deadline_def poll_sleep_def
      poll_interval_def slot_consts disclose_def)

lemma acquire_slot_terminates_witness:
  "\<exists>out sleeps w'. acquire_slot 401 demo_slot_env ''u@h'' demo_slot_world = Some (out, sleeps, w')"
  by (rule acquire_slot_terminates [OF demo_honest])

text \<open>Wake-up lag. No sleep between two polls is negative or reaches half a second, whatever the
  process id and however long the caller has waited: a slot freed just after a poll is noticed within
  half a second, and no sleep carries the caller past its deadline.\<close>

lemma acquire_slot_sleeps_bounded:
  assumes "acquire_slot fuel e target w = Some (out, sleeps, w')" and "s \<in> set sleeps"
  shows "\<exists>k. s = poll_sleep e k \<and> 0 < s \<and> s < 1 / 2 \<and> t_now e k + s \<le> slot_deadline e"
proof -
  from assms obtain h l a nd i where
    l: "acquire_loop fuel e target h l 0 a nd w = Some (out, sleeps, w')" and i: "i < length sleeps" "s = sleeps ! i"
    by (auto simp: acquire_slot_def Let_def in_set_conv_nth split: if_splits)
  from acquire_loop_sleeps [OF l] i have "s = poll_sleep e i" "t_now e i < slot_deadline e" by auto
  then show ?thesis using poll_interval_range [of "slot_pid e"]
    by (intro exI [of _ i]) (auto simp: poll_sleep_def min_def max_def)
qed

lemma acquire_slot_sleeps_bounded_witness: "(0::rat) < 3 / 10 \<and> (3::rat) / 10 < 1 / 2
    \<and> (\<exists>w'. acquire_slot 401 demo_slot_env ''u@h'' demo_slot_world = Some (Got 0, [3 / 10], w'))"
proof -
  obtain w' where a: "acquire_slot 401 demo_slot_env ''u@h'' demo_slot_world = Some (Got 0, [3 / 10], w')"
    using demo_acquire by blast
  from acquire_slot_sleeps_bounded [OF a, of "3 / 10"] a show ?thesis by auto
qed

end
