(* ===== verification/GuardedCall.thy ===== *)
theory GuardedCall
  imports SshSlotsLaws
begin

text \<open>
  One ssh-family attempt under the three guards (\<open>guarded_call\<close> of \<open>infra/ssh_circuit.py\<close>),
  composed in the order of the code: breaker gate, pacing, connection slot, the attempt, its verdict,
  the release.
\<close>

section \<open>One attempt\<close>

text \<open>What one call meets: the parameters of each guard, the attempt and the fleet's doings during it.\<close>

record call_env =
  gate_claim_io :: section_io
  gate_io :: section_io
  gate_clock :: "nat \<Rightarrow> seconds"
  gate_wall :: seconds
  gate_probe :: "attempt option"
  pace_disabled :: bool
  pace_io :: bool
  pace_now :: seconds
  call_slot :: slot_env
  slot_fuel :: nat
  call_attempt :: attempt
  during_attempt :: "slot_world \<Rightarrow> slot_world"
  verdict_io :: section_io
  verdict_t0 :: seconds
  verdict_now :: seconds
  verdict_latency :: "int option"

text \<open>What the call did, in order, and how it ended.\<close>

datatype effect = Paced seconds | SlotSleeps "seconds list" | Dialled | Released

datatype call_result = GateRefused gate | SlotRefused slot_outcome | Attempted attempt | OutOfFuel

definition record_verdict :: "call_env \<Rightarrow> string \<Rightarrow> slot_world \<Rightarrow> slot_world" where
  "record_verdict c target w =
     (case call_attempt c of
        TimedOut msg \<Rightarrow>
          record_connection_failure (slot_circuit_env (call_slot c)) (verdict_io c) (verdict_t0 c)
            (verdict_now c) msg (verdict_latency c) target w
      | Raised e \<Rightarrow> w
      | Finished cp \<Rightarrow>
          (case classify_connection_outcome cp of
             FAILURE \<Rightarrow>
               record_connection_failure (slot_circuit_env (call_slot c)) (verdict_io c) (verdict_t0 c)
                 (verdict_now c) (failure_detail cp) (verdict_latency c) target w
           | SUCCESS \<Rightarrow> record_connection_success (verdict_io c) (verdict_t0 c) (verdict_latency c) target w
           | INCONCLUSIVE \<Rightarrow> w))"

definition slot_raises :: "slot_outcome \<Rightarrow> bool" where
  "slot_raises out = (case out of GaveUp \<Rightarrow> True | CircuitRefused _ \<Rightarrow> True | _ \<Rightarrow> False)"

definition guarded_call ::
  "call_env \<Rightarrow> string \<Rightarrow> slot_world \<Rightarrow> call_result \<times> effect list \<times> slot_world" where
  "guarded_call c target w =
     (case check_circuit (slot_circuit_env (call_slot c)) (gate_claim_io c) (gate_io c) (gate_clock c)
             (gate_wall c) (gate_probe c) target w of
        (Proceed, w) \<Rightarrow>
          (let (slept, w) = pace_establishment (pace_disabled c) (pace_io c) (pace_now c)
                              (slot_pid (call_slot c)) target w
           in case acquire_slot (slot_fuel c) (call_slot c) target w of
                None \<Rightarrow> (OutOfFuel, [Paced slept], w)
              | Some (out, sleeps, w) \<Rightarrow>
                  (if slot_raises out
                   then (SlotRefused out, [Paced slept, SlotSleeps sleeps], w)
                   else
                     (let w = record_verdict c target (during_attempt c w);
                          w = release_on_store (slot_pid (call_slot c)) out target w
                      in (Attempted (call_attempt c),
                          [Paced slept, SlotSleeps sleeps, Dialled, Released], w))))
      | (g, w) \<Rightarrow> (GateRefused g, [], w))"

section \<open>Frames\<close>

named_theorems frames \<open>which parts of the store an operation leaves alone\<close>

lemma put_frames [frames, simp]:
  "buckets (put_doc h d w) = buckets w" "buckets (notify n w) = buckets w"
  "buckets (feed_readiness a b s t l m w) = buckets w"
  "pools (put_doc h d v) = pools v" "pools (notify n v) = pools v"
  "pools (feed_readiness a b s t l m v) = pools v"
  by (simp_all add: put_doc_def notify_def feed_readiness_def)

lemma recorder_frames [frames]:
  "buckets (record_connection_failure env io t0 t m l tg w) = buckets w"
  "pools (record_connection_failure env io t0 t m l tg v) = pools v"
  "buckets (record_connection_success io t0 l tg w) = buckets w"
  "pools (record_connection_success io t0 l tg v) = pools v"
  by (auto simp: record_connection_failure_def record_connection_success_def Let_def
      split: prod.split transition.split option.split)

lemma probe_frames [frames]:
  "buckets (snd (run_demand_probe env io tm wall p tg w)) = buckets w"
  "pools (snd (run_demand_probe env io tm wall p tg v)) = pools v"
  by (auto simp: run_demand_probe_def Let_def recorder_frames
      split: attempt.split connection_outcome.split)

lemma check_frames [frames]:
  "buckets (snd (check_circuit env ioc io tm wall p tg w)) = buckets w"
  "pools (snd (check_circuit env ioc io tm wall p tg v)) = pools v"
  by (auto simp: check_circuit_def Let_def probe_frames split: option.split claim.split)

lemma get_doc_cong: "circuits w = circuits v \<Longrightarrow> get_doc w h = get_doc v h"
  by (simp add: get_doc_def)

lemma pool_update_frames [frames, simp]:
  "get_doc (set_pool h p w) h' = get_doc w h'" "get_pool (set_pool h p w) h = p"
  "get_doc (release_on_store pid out tg w) h' = get_doc w h'"
  by (auto simp: set_pool_def get_pool_def get_doc_def release_on_store_def Let_def split: slot_outcome.split)

lemma record_verdict_pools [frames]: "pools (record_verdict c tg w) = pools w"
  by (simp add: record_verdict_def recorder_frames split: attempt.split connection_outcome.split)

section \<open>What the composition guarantees\<close>

lemma guarded_call_refused:
  assumes "guarded_call c target w = (GateRefused g, effs, w')"
  shows "effs = [] \<and> buckets w' = buckets w \<and> pools w' = pools w"
proof -
  obtain g1 w1 where "check_circuit (slot_circuit_env (call_slot c)) (gate_claim_io c) (gate_io c)
      (gate_clock c) (gate_wall c) (gate_probe c) target w = (g1, w1)" by (metis surj_pair)
  then show ?thesis
    using assms check_frames [of "slot_circuit_env (call_slot c)" "gate_claim_io c" "gate_io c"
        "gate_clock c" "gate_wall c" "gate_probe c" target w]
    by (cases g1) (auto simp: guarded_call_def Let_def split: prod.splits option.splits if_splits)
qed

text \<open>Order of the guards. Whenever the breaker refuses a call, the call ends there: nothing is
  dialled, no pacing token is spent, no slot file is touched. In every call the effects come in the
  fixed order pacing, slot wait, dial, release, cut short at the first guard that fails; and the host is
  dialled exactly when the call reports an attempt, always followed by the release.\<close>

lemma guarded_call_order:
  assumes "guarded_call c target w = (r, effs, w')"
  shows "case r of
      GateRefused g \<Rightarrow> effs = [] \<and> buckets w' = buckets w \<and> pools w' = pools w
    | OutOfFuel \<Rightarrow> \<exists>s. effs = [Paced s]
    | SlotRefused out \<Rightarrow> slot_raises out \<and> (\<exists>s ss. effs = [Paced s, SlotSleeps ss])
    | Attempted a \<Rightarrow> a = call_attempt c \<and> (\<exists>s ss. effs = [Paced s, SlotSleeps ss, Dialled, Released])"
proof (cases r)
  case (GateRefused g)
  with assms guarded_call_refused [of c target w g effs w'] show ?thesis by simp
qed (use assms in \<open>auto simp: guarded_call_def Let_def split: prod.splits option.splits if_splits gate.splits\<close>)

text \<open>A call that meets a healthy host and a free slot.\<close>

definition demo_call :: "attempt \<Rightarrow> call_env" where
  "demo_call a = \<lparr>gate_claim_io = good_io, gate_io = good_io, gate_clock = (\<lambda>_. 100), gate_wall = 100,
     gate_probe = None, pace_disabled = False, pace_io = True, pace_now = 100,
     call_slot = demo_slot_env\<lparr>interfere := (\<lambda>_ w. w)\<rparr>, slot_fuel = 1, call_attempt = a,
     during_attempt = (\<lambda>w. w), verdict_io = good_io, verdict_t0 = 101, verdict_now = 101,
     verdict_latency = None\<rparr>"

definition free_world :: slot_world where
  "free_world = demo_slot_world\<lparr>pools := (\<lambda>_ _. None)\<rparr>"

lemma demo_call_runs:
  "\<exists>w'. guarded_call (demo_call a) ''u@h'' free_world = (Attempted a, [Paced 0, SlotSleeps [], Dialled, Released], w')"
  by (simp add: guarded_call_def demo_call_def free_world_def demo_slot_world_def demo_slot_env_def
      check_circuit_def demo_host demo_env_def overridden_def py_strip_def get_doc_def
      pace_establishment_def pacing_eval acquire_slot_def demo_limit get_pool_def set_pool_def
      try_claim_def create_claim_eq slot_raises_def)

lemma guarded_call_order_witness:
  "\<exists>w'. guarded_call (demo_call (TimedOut ''t'')) ''u@h'' free_world
     = (Attempted (TimedOut ''t''), [Paced 0, SlotSleeps [], Dialled, Released], w')
   \<and> call_attempt (demo_call (TimedOut ''t'')) = TimedOut ''t''"
proof -
  obtain w' where w: "guarded_call (demo_call (TimedOut ''t'')) ''u@h'' free_world
      = (Attempted (TimedOut ''t''), [Paced 0, SlotSleeps [], Dialled, Released], w')"
    using demo_call_runs by blast
  from guarded_call_order [OF w] w show ?thesis by simp
qed

text \<open>The event the breaker sees of an attempt, if any.\<close>

definition verdict_event :: "call_env \<Rightarrow> doc_event option" where
  "verdict_event c =
     (case call_attempt c of
        TimedOut msg \<Rightarrow> Some (Fail (verdict_now c) msg)
      | Raised e \<Rightarrow> None
      | Finished cp \<Rightarrow>
          (case classify_connection_outcome cp of
             FAILURE \<Rightarrow> Some (Fail (verdict_now c) (failure_detail cp))
           | SUCCESS \<Rightarrow> Some Succeed
           | INCONCLUSIVE \<Rightarrow> None))"

lemma record_verdict_doc:
  assumes "host_key target \<noteq> []" "lock_ok (verdict_io c)" "write_ok (verdict_io c)"
    and "get_doc w (host_key target) = Some d" and "is_open d \<or> failure_count d \<noteq> 0" "wf_doc d"
  shows "get_doc (record_verdict c target w) (host_key target) =
     Some (case verdict_event c of None \<Rightarrow> d | Some e \<Rightarrow> doc_exec (host_key target) d e)"
proof -
  have "\<not> (cstate d \<noteq> ''open'' \<and> float_or (consecutive_failures d) 0 = 0)"
    using assms(5) by (auto simp: is_open_def failure_count_def)
  then show ?thesis using assms(1-4)
    by (auto simp: record_verdict_def verdict_event_def record_failure_doc record_success_doc
        split: attempt.split connection_outcome.split)
qed

text \<open>Tri-state verdict. On a host whose circuit is open or has counted failures, an attempt moves
  the breaker by exactly its verdict: a timeout or a connection-marked exit is one recorded failure, an
  exit that proves the host reachable is one recorded success, and any other end, an inconclusive exit
  or another exception, leaves the document as it is. Seen through the contract, it is one admissible
  step of the abstract breaker, or none.\<close>

lemma attempt_moves_breaker_by_verdict:
  assumes "host_key target = host" and "host \<noteq> []" and "lock_ok (verdict_io c)" and "write_ok (verdict_io c)"
    and "get_doc w host = Some d" and "wf_doc d" and "is_open d \<or> failure_count d \<noteq> 0"
  shows "\<exists>d'. get_doc (record_verdict c target w) host = Some d' \<and> wf_doc d'
     \<and> (case verdict_event c of None \<Rightarrow> d' = d | Some e \<Rightarrow> view_step e (doc_view d) (doc_view d'))"
  using record_verdict_doc [of target c w d] assms circuit.exec_view [OF assms(6)] circuit.exec_good [OF assms(6)]
  by (auto split: option.split)

lemma attempt_moves_breaker_by_verdict_witness:
  "\<exists>d'. get_doc (record_verdict (demo_call (TimedOut ''t'')) ''u@h''
        (free_world\<lparr>circuits := (\<lambda>_. Some claimed_doc)\<rparr>)) ''h'' = Some d'
     \<and> view_step (Fail 101 ''t'') (VOpen 17 (Some 18)) (doc_view d')"
proof -
  let ?w = "free_world\<lparr>circuits := (\<lambda>_. Some claimed_doc)\<rparr>" and ?c = "demo_call (TimedOut ''t'')"
  have wf: "wf_doc claimed_doc" "is_open claimed_doc" "doc_view claimed_doc = VOpen 17 (Some 18)"
    by (simp_all add: claimed_doc_def opened_doc_def wf_parts failure_count_def cycle_count_def
        is_open_def circuit_consts doc_view_def open_deadline_def)
  have "get_doc ?w ''h'' = Some claimed_doc" by (simp add: get_doc_def)
  from attempt_moves_breaker_by_verdict [OF demo_host(1) _ _ _ this wf(1), of ?c] wf
  show ?thesis by (auto simp: demo_call_def good_io_def verdict_event_def)
qed

text \<open>The slot comes back. After an attempt the slot it was made under is free again whatever the
  attempt's end, timeout and foreign exception included, unless the slot file no longer names the
  caller: then it is somebody else's and stays as it is. No other slot of the host is touched.\<close>

lemma attempt_releases_its_slot:
  assumes "w' = release_on_store pid (Got i) target (record_verdict c target w)"
  shows "get_pool w' (host_key target) i =
      (case get_pool w (host_key target) i of
         Some (ClaimDoc owner t) \<Rightarrow> if owner = pid then None else Some (ClaimDoc owner t)
       | f \<Rightarrow> f)
    \<and> (\<forall>j. j \<noteq> i \<longrightarrow> get_pool w' (host_key target) j = get_pool w (host_key target) j)"
  using assms record_verdict_pools [of c target w]
  by (auto simp: release_on_store_def Let_def get_pool_def set_pool_def release_slot_def unlink_def
      split: option.split slot_file.split)

lemma attempt_releases_its_slot_witness:
  "get_pool (release_on_store 7 (Got 0) ''u@h'' (record_verdict (demo_call (Raised ''x'')) ''u@h'' demo_slot_world)) ''h'' 0 = None"
  using attempt_releases_its_slot [OF refl, of 7 0 "''u@h''" "demo_call (Raised ''x'')" demo_slot_world]
  by (simp add: demo_host demo_slot_world_def get_pool_def)

section \<open>A waiter that meets its own claim\<close>

lemma own_claim_in_flight:
  assumes "is_open d" "open_deadline now d \<le> now" "t \<le> now" "now < t + 120" "d' = d\<lparr>probe_claimed_at := PNum t\<rparr>"
  shows "claim_probe now d' = ProbeInFlight"
  using assms
  by (auto simp: claim_probe_def effective_state_def is_open_def open_deadline_def PROBE_CLAIM_TTL_SEC_def)

lemma deadline_later: "opened_at d = PNum t0 \<Longrightarrow> open_deadline a d = open_deadline b d"
  by (simp add: open_deadline_def)

text \<open>The caller refuses itself. A caller without an inline probe that wins the half-open slot and
  then finds every connection slot held by live processes does not wait for one: its first poll consults
  the breaker again, meets the claim it has just made itself, and fails as if another probe were in
  flight. Nothing is dialled, and the claim keeps the host fenced until it expires.\<close>

lemma slot_wait_refuses_own_probe:
  assumes "host_key target = host" and "host \<noteq> []" and "\<not> overridden (override_raw (slot_circuit_env e)) host"
    and "get_doc w host = Some d" and "is_open d" and "opened_at d = PNum t0" and "open_deadline t d \<le> t"
    and "0 < resolve_max_connections (max_connections_raw e)"
    and "probe_claimed_at d = PNull" and "w1 = notify n (put_doc host (d\<lparr>probe_claimed_at := PNum t\<rparr>) w)"
    and "t \<le> t_check e 0" and "t_check e 0 < t + 120" and "t_now e 0 < slot_deadline e"
    and "interfere e 0 w1 = w1" and "claim_io e 0" and "lock_ok (check_io e 0)"
    and "\<forall>i<nat (resolve_max_connections (max_connections_raw e)). \<exists>q s.
           get_pool w1 host i = Some (ClaimDoc q s) \<and> alive_at e 0 q"
  shows "check_circuit (slot_circuit_env e) good_io good_io (\<lambda>_. t) t None target w
           = (Proceed, notify (HalfOpenProbe host) (put_doc host (d\<lparr>probe_claimed_at := PNum t\<rparr>) w))
    \<and> (\<exists>err. acquire_slot (Suc fuel) e target w1 = Some (CircuitRefused (Refused (CircuitOpen err)), [], w1)
         \<and> err_probe_in_flight err)"
proof
  show "check_circuit (slot_circuit_env e) good_io good_io (\<lambda>_. t) t None target w
      = (Proceed, notify (HalfOpenProbe host) (put_doc host (d\<lparr>probe_claimed_at := PNum t\<rparr>) w))"
    using assms(1-5,7,9)
    by (auto simp: check_circuit_def Let_def is_open_def claim_probe_def effective_state_def good_io_def)
  let ?d = "d\<lparr>probe_claimed_at := PNum t\<rparr>"
  have g: "get_doc w1 host = Some ?d" using assms(10) by simp
  have "claim_probe (t_check e 0) ?d = ProbeInFlight"
  proof (rule own_claim_in_flight)
    show "open_deadline (t_check e 0) d \<le> t_check e 0"
      using assms(7,11) deadline_later [OF assms(6), of "t_check e 0" t] by simp
  qed (use assms(5,11,12) in simp_all)
  then have c: "check_circuit (slot_circuit_env e) (check_io e 0) (check_io e 0) (\<lambda>_. t_check e 0) (t_check e 0)
      None target w1 = (Refused (open_error_of (slot_circuit_env e) (t_check e 0) host True ?d), w1)"
    using assms(1-3,5,16) g by (simp add: check_circuit_def Let_def is_open_def)
  have "try_claim (nat (resolve_max_connections (max_connections_raw e))) (slot_pid e) (t_claim e 0)
      (alive_at e 0) (get_pool w1 host) = None"
    using assms(17) unfolding try_claim_None not_stale_iff .
  with c show "\<exists>err. acquire_slot (Suc fuel) e target w1 = Some (CircuitRefused (Refused (CircuitOpen err)), [], w1)
         \<and> err_probe_in_flight err"
    using assms(1,2,8,13-15) by (simp add: acquire_slot_def Let_def open_error_of_def)
qed

definition busy_env :: slot_env where
  "busy_env = demo_slot_env\<lparr>t_start := 20, t_now := (\<lambda>_. 20), t_check := (\<lambda>_. 20)\<rparr>"

definition busy_world :: slot_world where
  "busy_world = notify (HalfOpenProbe ''h'') (put_doc ''h'' (opened_doc\<lparr>probe_claimed_at := PNum 19\<rparr>)
     (demo_slot_world\<lparr>circuits := (\<lambda>_. Some opened_doc)\<rparr>))"

lemma slot_wait_refuses_own_probe_witness:
  "\<exists>err. acquire_slot 1 busy_env ''u@h'' busy_world = Some (CircuitRefused (Refused (CircuitOpen err)), [], busy_world)
     \<and> err_probe_in_flight err"
proof -
  have o: "is_open opened_doc" "opened_at opened_doc = PNum 2" "open_deadline 19 opened_doc \<le> 19"
    "probe_claimed_at opened_doc = PNull"
    by (simp_all add: opened_doc_def is_open_def open_deadline_def circuit_consts)
  have e: "\<not> overridden (override_raw (slot_circuit_env busy_env)) ''h''" "claim_io busy_env 0"
    "lock_ok (check_io busy_env 0)" "interfere busy_env 0 = id" "t_now busy_env 0 < slot_deadline busy_env"
    "t_check busy_env 0 = 20" "resolve_max_connections (max_connections_raw busy_env) = 1"
    "alive_at busy_env 0 = (\<lambda>q. q = 7)"
    by (simp_all add: busy_env_def demo_slot_env_def demo_env_def good_io_def overridden_def py_strip_def
        slot_deadline_def slot_consts demo_limit fun_eq_iff)
  have p: "get_pool busy_world ''h'' i = ((\<lambda>_. None)(0 := Some (ClaimDoc 7 (Some 0)))) i" for i
    by (simp add: busy_world_def demo_slot_world_def get_pool_def put_doc_def notify_def)
  have g: "get_doc (demo_slot_world\<lparr>circuits := (\<lambda>_. Some opened_doc)\<rparr>) ''h'' = Some opened_doc"
    by (simp add: get_doc_def)
  have "\<exists>err. acquire_slot (Suc 0) busy_env ''u@h'' busy_world
        = Some (CircuitRefused (Refused (CircuitOpen err)), [], busy_world) \<and> err_probe_in_flight err"
    by (rule conjunct2, rule slot_wait_refuses_own_probe
        [OF demo_host(1) _ e(1) g o(1-3) _ o(4) busy_world_def _ _ e(5) _ e(2,3)]) (simp_all add: e p)
  then show ?thesis by simp
qed

end
