(* ===== verification/RetryPolicy.thy ===== *)
theory RetryPolicy
  imports SshCircuit
begin

text \<open>
  Retry as data: the policy value and the runner of \<open>infra/retry.py\<close>. An exception is the list of
  its class names, the class first and its bases after it, with its text and, for the throttle signal of
  \<open>infra/remote.py\<close>, the finished process it carries; \<open>isinstance\<close> is membership.
  The thunk is a state transformer that returns, raises, or does not come back. The injected sleeper
  and the \<open>on_retry\<close> callback are the events of the run: both return and leave the state alone.
\<close>

section \<open>Policies\<close>

record exn =
  exn_mro :: "string list"
  exn_text :: string
  exn_cp :: "completed option"

definition is_instance :: "exn \<Rightarrow> string list \<Rightarrow> bool" where
  "is_instance e classes \<longleftrightarrow> (\<exists>c\<in>set classes. c \<in> set (exn_mro e))"

record retry_policy =
  max_attempts :: int
  base_delay_sec :: seconds
  backoff_factor :: rat
  max_delay_sec :: "seconds option"
  retry_on :: "string list"

text \<open>\<open>__post_init__\<close>: the error a construction raises, if any.\<close>

datatype policy_error = BadMaxAttempts int | BadBaseDelay seconds | BadBackoffFactor rat

definition post_init :: "retry_policy \<Rightarrow> policy_error + retry_policy" where
  "post_init p =
     (if max_attempts p < 1 then Inl (BadMaxAttempts (max_attempts p))
      else if base_delay_sec p < 0 then Inl (BadBaseDelay (base_delay_sec p))
      else if backoff_factor p < 1 then Inl (BadBackoffFactor (backoff_factor p))
      else Inr p)"

definition delay_for :: "retry_policy \<Rightarrow> int \<Rightarrow> seconds" where
  "delay_for p attempt =
     (let delay = base_delay_sec p * backoff_factor p powi (attempt - 1)
      in case max_delay_sec p of None \<Rightarrow> delay | Some m \<Rightarrow> min delay m)"

section \<open>The runner\<close>

datatype 'a outcome = Returned 'a | Raises exn | Hangs

datatype retry_event = OnRetry int exn seconds | Slept seconds

text \<open>The final \<open>assert last_exc is not None; raise last_exc\<close> after the loop.\<close>

definition after_loop :: "exn option \<Rightarrow> 'a outcome" where
  "after_loop last_exc =
     (case last_exc of None \<Rightarrow> Raises \<lparr>exn_mro = [''AssertionError'', ''Exception'', ''BaseException''], exn_text = [],
       exn_cp = None\<rparr>
      | Some e \<Rightarrow> Raises e)"

text \<open>The body of the \<open>for\<close> loop, over the attempt numbers that are left.\<close>

fun retry_loop ::
  "retry_policy \<Rightarrow> bool \<Rightarrow> ('s \<Rightarrow> 'a outcome \<times> 's) \<Rightarrow> int list \<Rightarrow> exn option \<Rightarrow> 's
   \<Rightarrow> 'a outcome \<times> retry_event list \<times> 's" where
  "retry_loop p has_cb fn [] last_exc s = (after_loop last_exc, [], s)"
| "retry_loop p has_cb fn (attempt # rest) last_exc s =
     (let (r, s) = fn s in
      case r of
        Returned a \<Rightarrow> (Returned a, [], s)
      | Hangs \<Rightarrow> (Hangs, [], s)
      | Raises e \<Rightarrow>
          (if \<not> is_instance e [''Exception''] then (Raises e, [], s)
           else if retry_on p \<noteq> [] \<and> \<not> is_instance e (retry_on p) then (Raises e, [], s)
           else if attempt = max_attempts p then (Raises e, [], s)
           else
             (let delay = delay_for p attempt;
                  (out, evs, s) = retry_loop p has_cb fn rest (Some e) s
              in (out, (if has_cb then [OnRetry attempt e delay] else []) @ Slept delay # evs, s))))"

definition run_with_retry ::
  "retry_policy \<Rightarrow> bool \<Rightarrow> ('s \<Rightarrow> 'a outcome \<times> 's) \<Rightarrow> 's \<Rightarrow> 'a outcome \<times> retry_event list \<times> 's" where
  "run_with_retry p has_cb fn s = retry_loop p has_cb fn [1..max_attempts p] None s"

section \<open>What a run is\<close>

definition retryable :: "retry_policy \<Rightarrow> exn \<Rightarrow> bool" where
  "retryable p e \<longleftrightarrow> is_instance e [''Exception''] \<and> (retry_on p = [] \<or> is_instance e (retry_on p))"

text \<open>The state before call \<open>k\<close> of the thunk, and how that call ends, when it is called over and over.\<close>

primrec calls :: "('s \<Rightarrow> 'a outcome \<times> 's) \<Rightarrow> 's \<Rightarrow> nat \<Rightarrow> 's" where
  "calls fn s 0 = s"
| "calls fn s (Suc k) = snd (fn (calls fn s k))"

definition verdict :: "('s \<Rightarrow> 'a outcome \<times> 's) \<Rightarrow> 's \<Rightarrow> nat \<Rightarrow> 'a outcome" where
  "verdict fn s k = fst (fn (calls fn s k))"

definition fails :: "retry_policy \<Rightarrow> 'a outcome \<Rightarrow> bool" where
  "fails p r = (case r of Raises e \<Rightarrow> retryable p e | _ \<Rightarrow> False)"

fun sleeps_of :: "retry_event list \<Rightarrow> seconds list" where
  "sleeps_of [] = []"
| "sleeps_of (Slept d # evs) = d # sleeps_of evs"
| "sleeps_of (OnRetry _ _ _ # evs) = sleeps_of evs"

lemma calls_Suc_shift: "calls fn s (Suc k) = calls fn (snd (fn s)) k"
  by (induction k) simp_all

lemma verdict_shift [simp]: "verdict fn (snd (fn s)) k = verdict fn s (Suc k)"
  by (simp add: verdict_def calls_Suc_shift [symmetric])

lemma verdict_0: "verdict fn s 0 = fst (fn s)"
  by (simp add: verdict_def)

lemma sleeps_of_append [simp]: "sleeps_of (xs @ ys) = sleeps_of xs @ sleeps_of ys"
  by (induction xs rule: sleeps_of.induct) simp_all

lemma retry_loop_step:
  "retry_loop p nt fn (a # rest) last_exc_exc s =
     (if fails p (fst (fn s)) \<and> a \<noteq> max_attempts p
      then (let e = (THE e. fst (fn s) = Raises e); (out, evs, s') = retry_loop p nt fn rest (Some e) (snd (fn s))
            in (out, (if nt then [OnRetry a e (delay_for p a)] else []) @ Slept (delay_for p a) # evs, s'))
      else (fst (fn s), [], snd (fn s)))"
  by (auto simp: fails_def retryable_def Let_def case_prod_unfold split: outcome.splits)

lemma retry_loop_run:
  assumes "xs = [m..max_attempts p]" "m \<le> max_attempts p"
    "retry_loop p nt fn xs last_exc s = (out, evs, s')"
  shows "\<exists>n. 1 \<le> n \<and> int n \<le> max_attempts p - m + 1 \<and> s' = calls fn s n \<and> out = verdict fn s (n - 1)
     \<and> (\<forall>k<n - 1. fails p (verdict fn s k))
     \<and> (int n < max_attempts p - m + 1 \<longrightarrow> \<not> fails p out)
     \<and> sleeps_of evs = map (\<lambda>k. delay_for p (m + int k)) [0..<n - 1]"
  using assms
proof (induction xs arbitrary: m last_exc s out evs s')
  case Nil
  then show ?case by (simp add: upto.simps)
next
  case (Cons a rest)
  then have a: "a = m" "rest = [m + 1..max_attempts p]" by (simp_all add: upto.simps)
  show ?case
  proof (cases "fails p (fst (fn s)) \<and> a \<noteq> max_attempts p")
    case False
    then have "out = fst (fn s)" "evs = []" "s' = snd (fn s)"
      using Cons.prems(3) unfolding retry_loop_step by auto
    then show ?thesis using False a(1) Cons.prems(2)
      by (intro exI [of _ 1]) (auto simp: verdict_0)
  next
    case True
    then obtain e out' evs' where r: "retry_loop p nt fn rest (Some e) (snd (fn s)) = (out, evs', s')"
      "sleeps_of evs = delay_for p a # sleeps_of evs'"
      using Cons.prems(3)
      unfolding retry_loop_step by (auto simp: Let_def case_prod_unfold prod_eq_iff)
    have "m + 1 \<le> max_attempts p" using True a Cons.prems(2) by simp
    from Cons.IH [OF a(2) this r(1)] obtain n where n: "1 \<le> n" "int n \<le> max_attempts p - (m + 1) + 1"
      "s' = calls fn (snd (fn s)) n" "out = verdict fn s (Suc (n - 1))"
      "\<forall>k<n - 1. fails p (verdict fn s (Suc k))"
      "int n < max_attempts p - (m + 1) + 1 \<longrightarrow> \<not> fails p out"
      "sleeps_of evs' = map (\<lambda>k. delay_for p (m + 1 + int k)) [0..<n - 1]"
      by auto
    have eq: "Suc (n - 1) = n" using n(1) by simp
    have f: "\<forall>k<n. fails p (verdict fn s k)"
      using n(5) True eq by (metis less_Suc_eq_0_disj verdict_0 Suc_less_SucD)
    have sl: "sleeps_of evs = map (\<lambda>k. delay_for p (m + int k)) [0..<n]"
      unfolding r(2) n(7) a(1) using map_upt_Suc [of "\<lambda>k. delay_for p (m + int k)" "n - 1"] eq
      by (simp add: algebra_simps)
    show ?thesis using n f sl eq
      by (intro exI [of _ "Suc n"]) (auto simp: calls_Suc_shift [symmetric] simp del: calls.simps)
  qed
qed

lemma post_init_ok:
  "post_init p = Inr p' \<longleftrightarrow> p' = p \<and> 1 \<le> max_attempts p \<and> 0 \<le> base_delay_sec p \<and> 1 \<le> backoff_factor p"
  by (auto simp: post_init_def)

text \<open>Retry runner. With a policy that passes its own validation, a run calls the thunk some number
  \<open>n\<close> of times between one and the policy's maximum, one after the other, and ends as call \<open>n\<close> ended;
  all earlier calls raised something the policy retries, and the run stops before the maximum only on
  a result or on something that is not retried. Between call \<open>k\<close> and the next one it sleeps exactly
  the policy's delay for attempt \<open>k\<close>; after the last call it does not sleep.\<close>

lemma retry_runs_to_first_final_outcome:
  assumes "post_init p = Inr p" and "run_with_retry p nt fn s = (out, evs, s')"
  shows "\<exists>n. 1 \<le> n \<and> int n \<le> max_attempts p \<and> s' = calls fn s n \<and> out = verdict fn s (n - 1)
     \<and> (\<forall>k<n - 1. fails p (verdict fn s k)) \<and> (int n < max_attempts p \<longrightarrow> \<not> fails p out)
     \<and> sleeps_of evs = map (\<lambda>k. delay_for p (1 + int k)) [0..<n - 1]"
  using assms retry_loop_run [OF refl, of 1 p nt fn None s out evs s']
  by (simp add: post_init_ok run_with_retry_def)

text \<open>A thunk that times out until its counter reaches three.\<close>

definition demo_timeout :: exn where
  "demo_timeout = \<lparr>exn_mro = [''TimeoutError'', ''OSError'', ''Exception'', ''BaseException''], exn_text = ''t'',
     exn_cp = None\<rparr>"

definition demo_policy :: retry_policy where
  "demo_policy = \<lparr>max_attempts = 5, base_delay_sec = 2, backoff_factor = 2, max_delay_sec = None,
     retry_on = [''TimeoutError'']\<rparr>"

definition demo_thunk :: "nat \<Rightarrow> string outcome \<times> nat" where
  "demo_thunk n = (if n < 2 then Raises demo_timeout else Returned ''ok'', Suc n)"

lemma demo_run:
  "run_with_retry demo_policy False demo_thunk 0 = (Returned ''ok'', [Slept 2, Slept 4], 3)"
  by (simp add: run_with_retry_def demo_policy_def upto.simps demo_thunk_def demo_timeout_def
      is_instance_def delay_for_def power_int_def)

lemma retry_runs_to_first_final_outcome_witness:
  "\<exists>n. int n \<le> 5 \<and> 3 = calls demo_thunk 0 n \<and> Returned ''ok'' = verdict demo_thunk 0 (n - 1)
     \<and> [2, 4] = map (\<lambda>k. delay_for demo_policy (1 + int k)) [0..<n - 1]"
proof -
  have "post_init demo_policy = Inr demo_policy" by (simp add: post_init_def demo_policy_def)
  from retry_runs_to_first_final_outcome [OF this demo_run] show ?thesis
    by (auto simp: demo_policy_def)
qed

text \<open>Backoff schedule. The delays of a validated policy never shrink from one attempt to the next,
  start at the base delay, and are never above the cap when there is one; none is negative unless the
  cap is, which the validation does not rule out.\<close>

lemma backoff_monotone_and_capped:
  assumes "post_init p = Inr p" and "1 \<le> a" and "a \<le> b"
  shows "delay_for p a \<le> delay_for p b
     \<and> (case max_delay_sec p of None \<Rightarrow> delay_for p 1 = base_delay_sec p \<and> 0 \<le> delay_for p a
        | Some m \<Rightarrow> delay_for p 1 = min (base_delay_sec p) m \<and> delay_for p a \<le> m \<and> (0 \<le> m \<longrightarrow> 0 \<le> delay_for p a))"
proof -
  have p: "0 \<le> base_delay_sec p" "1 \<le> backoff_factor p" using assms(1) by (auto simp: post_init_ok)
  have "backoff_factor p powi (a - 1) \<le> backoff_factor p powi (b - 1)"
    using assms p by (intro power_int_increasing) auto
  then have "base_delay_sec p * backoff_factor p powi (a - 1) \<le> base_delay_sec p * backoff_factor p powi (b - 1)"
    using p(1) by (rule mult_left_mono)
  moreover have "0 \<le> base_delay_sec p * backoff_factor p powi (a - 1)"
    using p by (intro mult_nonneg_nonneg zero_le_power_int) auto
  ultimately show ?thesis by (auto simp: delay_for_def min_def Let_def split: option.split)
qed

lemma backoff_monotone_and_capped_witness: "delay_for demo_policy 1 \<le> delay_for demo_policy 4"
  using backoff_monotone_and_capped [of demo_policy 1 4] by (simp add: post_init_def demo_policy_def)

end
