(* ===== verification/SshBackoff.thy ===== *)
theory SshBackoff
  imports GuardedCall RetryPolicy
begin

text \<open>
  The ssh backoff ladder of \<open>infra/remote.py\<close> (\<open>_with_ssh_backoff\<close>): the retry runner over the guarded
  call. Its two retry triggers are a timeout, unless the caller is a submit leg, and an exit of the ssh
  client itself with a throttle marker; the latter is carried through the runner as a signal and handed
  back as a result at the end.
\<close>

section \<open>The ladder\<close>

definition SSH_THROTTLE_MARKERS :: "string list" where
  "SSH_THROTTLE_MARKERS =
     [''ssh_exchange_identification: connection closed'', ''kex_exchange_identification: connection closed'',
      ''kex_exchange_identification: read: connection reset'', ''connection reset by peer'',
      ''connection refused'', ''rsync error: error in rsync protocol data stream'']"

definition BACKOFF_DELAYS_SEC :: "seconds list" where
  "BACKOFF_DELAYS_SEC = [2, 4, 8, 16]"

definition is_throttle_failure :: "completed \<Rightarrow> bool" where
  "is_throttle_failure cp =
     (if returncode cp = 0 then False
      else if returncode cp \<noteq> 255 then False
      else (let blob = py_lower (proc_stderr cp @ [CHR 0x0A] @ proc_stdout cp)
            in \<exists>m\<in>set SSH_THROTTLE_MARKERS. py_contains m blob))"

definition ThrottleRetry :: "completed \<Rightarrow> exn" where
  "ThrottleRetry cp = \<lparr>exn_mro = [''_ThrottleRetry'', ''Exception'', ''BaseException''], exn_text = [],
     exn_cp = Some cp\<rparr>"

definition ssh_backoff_policy :: "bool \<Rightarrow> retry_policy" where
  "ssh_backoff_policy retry_on_timeout =
     \<lparr>max_attempts = 1 + int (length BACKOFF_DELAYS_SEC),
       base_delay_sec = (case BACKOFF_DELAYS_SEC of [] \<Rightarrow> 0 | d # _ \<Rightarrow> d), backoff_factor = 2,
       max_delay_sec = None,
       retry_on = (if retry_on_timeout then [''TimeoutError'', ''_ThrottleRetry''] else [''_ThrottleRetry''])\<rparr>"

definition backoff_attempt ::
  "('s \<Rightarrow> completed outcome \<times> 's) \<Rightarrow> 's \<Rightarrow> completed outcome \<times> 's" where
  "backoff_attempt guarded s =
     (let (r, s) = guarded s in
      case r of
        Returned cp \<Rightarrow> if is_throttle_failure cp then (Raises (ThrottleRetry cp), s) else (Returned cp, s)
      | r \<Rightarrow> (r, s))"

definition with_ssh_backoff ::
  "bool \<Rightarrow> bool \<Rightarrow> ('s \<Rightarrow> completed outcome \<times> 's) \<Rightarrow> 's
   \<Rightarrow> completed outcome \<times> retry_event list \<times> 's" where
  "with_ssh_backoff no_backoff retry_on_timeout guarded s =
     (if no_backoff then (let (r, s) = guarded s in (r, [], s))
      else
        (let (r, evs, s) = run_with_retry (ssh_backoff_policy retry_on_timeout) True (backoff_attempt guarded) s
         in case r of
              Raises e \<Rightarrow>
                (if is_instance e [''_ThrottleRetry'']
                 then (case exn_cp e of Some cp \<Rightarrow> (Returned cp, evs, s) | None \<Rightarrow> (r, evs, s))
                 else (r, evs, s))
            | _ \<Rightarrow> (r, evs, s)))"

section \<open>One rung: the guarded call\<close>

definition TimeoutError :: "string \<Rightarrow> exn" where
  "TimeoutError t = \<lparr>exn_mro = [''TimeoutError'', ''OSError'', ''Exception'', ''BaseException''],
     exn_text = t, exn_cp = None\<rparr>"

definition HpcError :: "string \<Rightarrow> exn" where
  "HpcError c = \<lparr>exn_mro = [c, ''HpcError'', ''Exception'', ''BaseException''], exn_text = [], exn_cp = None\<rparr>"

text \<open>An exception of the attempt or of the probe that is not a timeout.\<close>

definition OtherError :: "string \<Rightarrow> exn" where
  "OtherError t = \<lparr>exn_mro = [''Exception'', ''BaseException''], exn_text = t, exn_cp = None\<rparr>"

definition gate_exn :: "gate \<Rightarrow> exn" where
  "gate_exn g = (case g of Escaped e \<Rightarrow> OtherError e | _ \<Rightarrow> HpcError ''SshCircuitOpen'')"

definition call_outcome :: "call_result \<Rightarrow> completed outcome" where
  "call_outcome r =
     (case r of
        GateRefused g \<Rightarrow> Raises (gate_exn g)
      | SlotRefused (CircuitRefused g) \<Rightarrow> Raises (gate_exn g)
      | SlotRefused _ \<Rightarrow> Raises (HpcError ''SshSlotWaitTimeout'')
      | Attempted (TimedOut m) \<Rightarrow> Raises (TimeoutError m)
      | Attempted (Raised e) \<Rightarrow> Raises (OtherError e)
      | Attempted (Finished cp) \<Rightarrow> Returned cp
      | OutOfFuel \<Rightarrow> Hangs)"

text \<open>The store, the number of the next rung and the effects so far; \<open>envs k\<close> is what rung \<open>k\<close> meets.\<close>

type_synonym ladder = "slot_world \<times> nat \<times> effect list"

definition guarded_rung :: "(nat \<Rightarrow> call_env) \<Rightarrow> string \<Rightarrow> ladder \<Rightarrow> completed outcome \<times> ladder" where
  "guarded_rung envs target st =
     (let (w, k, effs) = st; (r, new, w) = guarded_call (envs k) target w
      in (call_outcome r, (w, Suc k, effs @ new)))"

section \<open>The schedule\<close>

definition ladder_retries :: "bool \<Rightarrow> completed outcome \<Rightarrow> bool" where
  "ladder_retries retry_on_timeout r =
     (case r of Returned cp \<Rightarrow> is_throttle_failure cp
      | Raises e \<Rightarrow> retry_on_timeout \<and> is_instance e [''TimeoutError'']
      | Hangs \<Rightarrow> False)"

lemmas exn_defs = TimeoutError_def HpcError_def OtherError_def ThrottleRetry_def gate_exn_def is_instance_def

lemma calls_backoff [simp]: "calls (backoff_attempt g) s k = calls g s k"
  by (induction k) (auto simp: backoff_attempt_def Let_def case_prod_unfold split: outcome.split)

lemma verdict_backoff:
  "verdict (backoff_attempt g) s k =
     (case verdict g s k of
        Returned cp \<Rightarrow> if is_throttle_failure cp then Raises (ThrottleRetry cp) else Returned cp
      | r \<Rightarrow> r)"
  by (auto simp: verdict_def backoff_attempt_def Let_def case_prod_unfold split: outcome.split)

lemma policy_delay: "k < 4 \<Longrightarrow> delay_for (ssh_backoff_policy rot) (1 + int k) = BACKOFF_DELAYS_SEC ! k"
  by (auto simp: ssh_backoff_policy_def delay_for_def BACKOFF_DELAYS_SEC_def power_int_def
      less_Suc_eq numeral_eq_Suc)

lemma policy_facts:
  "post_init (ssh_backoff_policy rot) = Inr (ssh_backoff_policy rot)"
  "max_attempts (ssh_backoff_policy rot) = 5"
  "max_delay_sec (ssh_backoff_policy rot) = None"
  "retry_on (ssh_backoff_policy rot) = (if rot then [''TimeoutError'', ''_ThrottleRetry''] else [''_ThrottleRetry''])"
  by (simp_all add: post_init_def ssh_backoff_policy_def BACKOFF_DELAYS_SEC_def)

lemma rung_exn: "fst (guarded_rung envs target st) = Raises e \<Longrightarrow>
     \<not> is_instance e [''_ThrottleRetry''] \<and> is_instance e [''Exception'']"
  by (auto simp: guarded_rung_def call_outcome_def exn_defs Let_def case_prod_unfold
      split: call_result.splits slot_outcome.splits attempt.splits gate.splits)

lemma fails_rung:
  "fails (ssh_backoff_policy rot) (verdict (backoff_attempt (guarded_rung envs target)) st k)
     = ladder_retries rot (verdict (guarded_rung envs target) st k)"
proof (cases "verdict (guarded_rung envs target) st k")
  case (Raises e)
  then have "\<not> is_instance e [''_ThrottleRetry'']" "is_instance e [''Exception'']"
    using rung_exn by (auto simp: verdict_def)
  then show ?thesis using Raises
    by (auto simp: verdict_backoff fails_def retryable_def ladder_retries_def policy_facts is_instance_def)
qed (auto simp: verdict_backoff fails_def retryable_def ladder_retries_def policy_facts exn_defs)

lemma ladder_run:
  assumes "with_ssh_backoff False rot (guarded_rung envs target) st = (out, evs, st')"
  obtains n where "n < 5" "st' = calls (guarded_rung envs target) st (Suc n)"
    "out = verdict (guarded_rung envs target) st n"
    "\<forall>k<n. ladder_retries rot (verdict (guarded_rung envs target) st k)"
    "n < 4 \<longrightarrow> \<not> ladder_retries rot out" "sleeps_of evs = take n BACKOFF_DELAYS_SEC"
proof -
  let ?G = "guarded_rung envs target" and ?p = "ssh_backoff_policy rot"
  obtain r evs' st'' where run: "run_with_retry ?p True (backoff_attempt ?G) st = (r, evs', st'')"
    by (metis prod_cases3)
  from retry_loop_run [OF refl, of 1 ?p True "backoff_attempt ?G" None st r evs' st''] run obtain m
    where m: "1 \<le> m" "m \<le> 5" "st'' = calls ?G st m" "r = verdict (backoff_attempt ?G) st (m - 1)"
      "\<forall>k<m - 1. ladder_retries rot (verdict ?G st k)"
      "m < 5 \<longrightarrow> \<not> fails ?p r" "sleeps_of evs' = map (\<lambda>k. delay_for ?p (1 + int k)) [0..<m - 1]"
    by (auto simp: run_with_retry_def policy_facts fails_rung)
  obtain n where n: "m = Suc n" using m(1) by (cases m) auto
  have "sleeps_of evs' = take n BACKOFF_DELAYS_SEC"
    using m(2,7) n policy_delay [of _ rot]
    by (auto simp: BACKOFF_DELAYS_SEC_def take_map intro!: nth_equalityI)
  moreover have "out = verdict ?G st n \<and> evs = evs' \<and> st' = st''"
  proof (cases "verdict ?G st n")
    case (Raises e)
    then have "\<not> is_instance e [''_ThrottleRetry'']" using rung_exn by (auto simp: verdict_def)
    then show ?thesis using assms run m(4) n Raises by (auto simp: with_ssh_backoff_def verdict_backoff)
  qed (use assms run m(4) n in \<open>auto simp: with_ssh_backoff_def verdict_backoff exn_defs split: if_splits\<close>)
  ultimately show ?thesis using that [of n] m n fails_rung [of rot envs target st n] by auto
qed

text \<open>The ladder. A ladder over the guarded call makes at most five attempts. It sleeps between
  them along the documented schedule of 2, 4, 8 and 16 seconds, thirty seconds at the most, and never
  after the last one; it ends as its last attempt ended, a throttled exit being returned and not
  raised; every earlier attempt ended in a retry trigger, and it stops early only without one.\<close>

lemma ssh_ladder_schedule:
  assumes "with_ssh_backoff False rot (guarded_rung envs target) st = (out, evs, st')"
  shows "\<exists>n<5. st' = calls (guarded_rung envs target) st (Suc n)
     \<and> out = verdict (guarded_rung envs target) st n
     \<and> (\<forall>k<n. ladder_retries rot (verdict (guarded_rung envs target) st k))
     \<and> (n < 4 \<longrightarrow> \<not> ladder_retries rot out)
     \<and> sleeps_of evs = take n [2, 4, 8, 16] \<and> sum_list (sleeps_of evs) \<le> 30"
proof -
  obtain n where n: "n < 5" "st' = calls (guarded_rung envs target) st (Suc n)"
    "out = verdict (guarded_rung envs target) st n"
    "\<forall>k<n. ladder_retries rot (verdict (guarded_rung envs target) st k)"
    "n < 4 \<longrightarrow> \<not> ladder_retries rot out" "sleeps_of evs = take n BACKOFF_DELAYS_SEC"
    by (rule ladder_run [OF assms])
  have "sum_list (take n BACKOFF_DELAYS_SEC) \<le> 30"
    using n(1) by (auto simp: BACKOFF_DELAYS_SEC_def less_Suc_eq numeral_eq_Suc)
  then show ?thesis using n by (auto simp: BACKOFF_DELAYS_SEC_def)
qed

lemma ssh_ladder_schedule_witness:
  "\<exists>out evs st'. with_ssh_backoff False True (guarded_rung (\<lambda>_. demo_call (TimedOut ''t'')) ''u@h'') (free_world, 0, [])
       = (out, evs, st') \<and> sum_list (sleeps_of evs) \<le> 30"
proof -
  obtain out evs st' where r: "with_ssh_backoff False True
      (guarded_rung (\<lambda>_. demo_call (TimedOut ''t'')) ''u@h'') (free_world, 0, []) = (out, evs, st')"
    by (metis prod_cases3)
  from ssh_ladder_schedule [OF r] r show ?thesis by blast
qed

text \<open>A submit leg never runs twice. With \<open>retry_on_timeout=False\<close> every attempt of the ladder that
  is followed by another one was a finished process with the ssh client's own exit status 255 and a
  throttle marker: an attempt that timed out, that was refused, or whose remote command ran and
  returned its own status is the last one.\<close>

lemma submit_leg_retries_only_throttle:
  assumes "with_ssh_backoff False False (guarded_rung envs target) st = (out, evs, st')"
  shows "\<exists>n. st' = calls (guarded_rung envs target) st (Suc n)
     \<and> (\<forall>k<n. \<exists>cp. verdict (guarded_rung envs target) st k = Returned cp \<and> returncode cp = 255
          \<and> is_throttle_failure cp)"
proof -
  obtain n where n: "st' = calls (guarded_rung envs target) st (Suc n)"
    "\<forall>k<n. ladder_retries False (verdict (guarded_rung envs target) st k)"
    by (rule ladder_run [OF assms])
  have "\<exists>cp. r = Returned cp \<and> returncode cp = 255 \<and> is_throttle_failure cp" if "ladder_retries False r" for r
    using that by (auto simp: ladder_retries_def is_throttle_failure_def split: outcome.splits if_splits)
  then show ?thesis using n by blast
qed

definition demo_throttled :: completed where
  "demo_throttled = \<lparr>returncode = 255, proc_stderr = ''Connection refused'', proc_stdout = []\<rparr>"

lemma submit_leg_retries_only_throttle_witness:
  "\<exists>n st'. st' = calls (guarded_rung (\<lambda>_. demo_call (Finished demo_throttled)) ''u@h'') (free_world, 0, []) (Suc n)
     \<and> (\<forall>k<n. \<exists>cp. verdict (guarded_rung (\<lambda>_. demo_call (Finished demo_throttled)) ''u@h'') (free_world, 0, []) k
          = Returned cp \<and> returncode cp = 255)"
proof -
  obtain out evs st' where r: "with_ssh_backoff False False
      (guarded_rung (\<lambda>_. demo_call (Finished demo_throttled)) ''u@h'') (free_world, 0, []) = (out, evs, st')"
    by (metis prod_cases3)
  from submit_leg_retries_only_throttle [OF r] show ?thesis by blast
qed

section \<open>The breaker ends the ladder\<close>

definition circuit_closed :: "string \<Rightarrow> slot_world \<Rightarrow> bool" where
  "circuit_closed h w = (case get_doc w h of None \<Rightarrow> True | Some d \<Rightarrow> \<not> is_open d)"

definition counted :: "string \<Rightarrow> slot_world \<Rightarrow> int" where
  "counted h w = (case get_doc w h of None \<Rightarrow> 0 | Some d \<Rightarrow> failure_count d)"

text \<open>
  A call whose attempt times out, whose verdict can be written, and during which no other process
  changes the host's circuit file.
\<close>

definition lonely_timeout :: "string \<Rightarrow> call_env \<Rightarrow> bool" where
  "lonely_timeout h c \<longleftrightarrow> (\<exists>m. call_attempt c = TimedOut m)
     \<and> lock_ok (verdict_io c) \<and> write_ok (verdict_io c) \<and> lock_ok (gate_claim_io c)
     \<and> \<not> overridden (override_raw (slot_circuit_env (call_slot c))) h
     \<and> (\<forall>w. get_doc (during_attempt c w) h = get_doc w h)
     \<and> (\<forall>k w. get_doc (interfere (call_slot c) k w) h = get_doc w h)"

lemma check_closed: "host_key target = h \<Longrightarrow> circuit_closed h w \<Longrightarrow>
    check_circuit env ioc io tm wall p target w = (Proceed, w)"
  by (auto simp: check_circuit_def circuit_closed_def is_open_def Let_def split: option.splits)

lemma paced_doc [simp]: "get_doc (snd (pace_establishment dis ok now pid target w)) h = get_doc w h"
  by (auto simp: pace_establishment_def Let_def get_doc_def split: prod.split)

lemma disclose_doc [simp]: "get_doc (snd (disclose e host l k a nd w)) h = get_doc w h"
  by (auto simp: disclose_def Let_def get_doc_def)

lemma acquire_loop_doc:
  assumes "host_key target = h" and q: "\<forall>k w. get_doc (interfere e k w) h = get_doc w h"
  shows "circuit_closed h w \<Longrightarrow> acquire_loop fuel e target host limit k a nd w = Some (out, sl, w')
     \<Longrightarrow> get_doc w' h = get_doc w h"
proof (induction fuel arbitrary: k a nd w out sl w')
  case (Suc fuel)
  let ?w = "interfere e k w"
  have c: "circuit_closed h ?w" using Suc.prems(1) q by (simp add: circuit_closed_def)
  obtain nd' w1 where d: "disclose e host limit k a nd ?w = (nd', w1)" by (metis surj_pair)
  have w1: "get_doc w1 h = get_doc ?w h" using disclose_doc [of e host limit k a nd ?w h] d by simp
  then have c1: "circuit_closed h w1" using c by (simp add: circuit_closed_def)
  note rec = Suc.IH [OF c1, of "Suc k" True nd']
  have pool: "get_doc (set_pool host p v) h = get_doc v h" for p v by (simp add: set_pool_def get_doc_def)
  consider (off) "\<not> claim_io e k"
    | (got) i p where "claim_io e k" "try_claim (nat limit) (slot_pid e) (t_claim e k) (alive_at e k) (get_pool ?w host) = Some (i, p)"
    | (late) "claim_io e k" "try_claim (nat limit) (slot_pid e) (t_claim e k) (alive_at e k) (get_pool ?w host) = None"
        "slot_deadline e \<le> t_now e k"
    | (poll) "claim_io e k" "try_claim (nat limit) (slot_pid e) (t_claim e k) (alive_at e k) (get_pool ?w host) = None"
        "\<not> slot_deadline e \<le> t_now e k"
    by (metis option.exhaust surj_pair)
  then show ?case
  proof cases
    case poll
    then obtain sl' where "acquire_loop fuel e target host limit (Suc k) True nd' w1 = Some (out, sl', w')"
      using Suc.prems(2) d check_closed [OF assms(1) c, of "slot_circuit_env e" "check_io e k" "check_io e k" "\<lambda>_. t_check e k" "t_check e k" None]
      by (simp add: Let_def split: option.splits prod.splits)
    then show ?thesis using rec q w1 by simp
  qed (use Suc.prems(2) q in \<open>auto simp: Let_def pool\<close>)
qed simp

lemma guarded_call_timeout:
  assumes h: "host_key target = h" "h \<noteq> []" and l: "lonely_timeout h c" and cl: "circuit_closed h w"
    and r: "guarded_call c target w = (Attempted a, effs, w')"
  shows "\<exists>d. get_doc w' h = Some (snd (fail_doc (verdict_now c) (case a of TimedOut m \<Rightarrow> m) d))
     \<and> \<not> is_open d \<and> failure_count d = counted h w"
proof -
  obtain m where m: "call_attempt c = TimedOut m" using l by (auto simp: lonely_timeout_def)
  obtain slept w1 where p: "pace_establishment (pace_disabled c) (pace_io c) (pace_now c)
      (slot_pid (call_slot c)) target w = (slept, w1)" by (metis surj_pair)
  have w1: "get_doc w1 h = get_doc w h"
    using paced_doc [of "pace_disabled c" "pace_io c" "pace_now c" "slot_pid (call_slot c)" target w h] p by simp
  then have c1: "circuit_closed h w1" using cl by (simp add: circuit_closed_def)
  have "guarded_call c target w = (case acquire_slot (slot_fuel c) (call_slot c) target w1 of
      None \<Rightarrow> (OutOfFuel, [Paced slept], w1)
    | Some (out, sleeps, w) \<Rightarrow>
        (if slot_raises out then (SlotRefused out, [Paced slept, SlotSleeps sleeps], w)
         else (Attempted (TimedOut m), [Paced slept, SlotSleeps sleeps, Dialled, Released],
               release_on_store (slot_pid (call_slot c)) out target (record_verdict c target (during_attempt c w)))))"
    by (simp add: guarded_call_def check_closed [OF h(1) cl] p m Let_def split: option.split prod.split)
  note call = this [unfolded r]
  obtain out sl w2 where s1: "acquire_slot (slot_fuel c) (call_slot c) target w1 = Some (out, sl, w2)"
  proof -
    have "acquire_slot (slot_fuel c) (call_slot c) target w1 \<noteq> None"
    proof
      assume "acquire_slot (slot_fuel c) (call_slot c) target w1 = None"
      from call [unfolded this] show False by simp
    qed
    then obtain p where "acquire_slot (slot_fuel c) (call_slot c) target w1 = Some p" by blast
    then show thesis using that by (cases p) blast
  qed
  have s: "acquire_slot (slot_fuel c) (call_slot c) target w1 = Some (out, sl, w2)" "a = TimedOut m"
    "w' = release_on_store (slot_pid (call_slot c)) out target (record_verdict c target (during_attempt c w2))"
    using call [unfolded s1] by (simp_all add: s1 split: if_splits)
  have q: "\<forall>k v. get_doc (interfere (call_slot c) k v) h = get_doc v h" using l by (simp add: lonely_timeout_def)
  have "get_doc w2 h = get_doc w1 h"
  proof (cases "resolve_max_connections (max_connections_raw (call_slot c)) \<le> 0")
    case True
    then show ?thesis using s1 by (simp add: acquire_slot_def Let_def)
  next
    case False
    then obtain nd where "acquire_loop (slot_fuel c) (call_slot c) target h
        (resolve_max_connections (max_connections_raw (call_slot c))) 0 False nd w1 = Some (out, sl, w2)"
      using s1 h by (auto simp: acquire_slot_def Let_def)
    then show ?thesis by (rule acquire_loop_doc [OF h(1) q c1])
  qed
  then have "get_doc (during_attempt c w2) h = get_doc w h" using w1 l by (simp add: lonely_timeout_def)
  then have "get_doc w' h = Some (snd (fail_doc (verdict_now c) m
      (case get_doc w h of None \<Rightarrow> fresh_doc h | Some d \<Rightarrow> d)))"
    using s(3) m h l by (simp add: record_verdict_def record_failure_doc [of _ _ _ _ _ _ target, unfolded h(1)] lonely_timeout_def)
  then show ?thesis using cl s(2)
    by (intro exI [of _ "case get_doc w h of None \<Rightarrow> fresh_doc h | Some d \<Rightarrow> d"])
       (auto simp: circuit_closed_def counted_def failure_count_def is_open_def fresh_doc_def py_simps split: option.splits)
qed

lemma opening_fail_deadline:
  assumes "\<not> is_open d" "is_open (snd (fail_doc now m d))" "t < now + 15"
  shows "claim_probe t (snd (fail_doc now m d)) = Cooling"
proof (cases rule: fail_doc_cases [of d])
  case opened
  let ?d = "(record_establishment now d)\<lparr>consecutive_failures := PNum (of_int (failure_count d + 1))\<rparr>"
  have "15 \<le> float_or (cooldown_sec (open_up now ?d)) BASE_COOLDOWN_SEC"
    by (rule cooldown_bounds(1) [OF opening_cooldown_ok(2)])
  then show ?thesis using assms(3)
    by (simp add: fail_doc_opens [OF opened] claim_probe_def effective_state_def open_deadline_def open_up_fields)
qed (use assms in \<open>simp_all add: fail_doc_counts is_open_def record_establishment_def Let_def\<close>)

lemma rung_refused:
  assumes "host_key target = h" "h \<noteq> []" "lonely_timeout h c" "get_doc w h = Some d" "is_open d"
    "claim_probe (gate_clock c 0) d = Cooling"
  shows "\<exists>g. guarded_call c target w = (GateRefused (Refused g), [], w)"
  using assms by (simp add: guarded_call_def check_circuit_def Let_def lonely_timeout_def is_open_def)

lemma open_rung:
  assumes "host_key target = h" "h \<noteq> []" "lonely_timeout h (envs k)" "get_doc w h = Some d" "is_open d"
    "claim_probe (gate_clock (envs k) 0) d = Cooling"
  shows "guarded_rung envs target (w, k, effs) = (Raises (HpcError ''SshCircuitOpen''), (w, Suc k, effs))"
  using rung_refused [OF assms(1-6)] by (auto simp: guarded_rung_def call_outcome_def gate_exn_def)

text \<open>After \<open>k\<close> dialled timeouts the circuit has counted them all, or it has just been opened.\<close>

definition rung_inv :: "(nat \<Rightarrow> call_env) \<Rightarrow> string \<Rightarrow> nat \<Rightarrow> ladder \<Rightarrow> bool" where
  "rung_inv envs h k st = (case st of (w, j, effs) \<Rightarrow> j = k \<and> length (filter ((=) Dialled) effs) = k
     \<and> (if circuit_closed h w then int k \<le> counted h w \<and> (0 < k \<longrightarrow> counted h w < CIRCUIT_THRESHOLD)
        else 0 < k \<and> k \<le> 3 \<and> (\<exists>d. get_doc w h = Some d \<and> is_open d
               \<and> (\<forall>t<verdict_now (envs (k - 1)) + 15. claim_probe t d = Cooling))))"


lemma rung_other:
  assumes "guarded_call c target w = (r, effs, w')" and "\<nexists>a. r = Attempted a"
  shows "filter ((=) Dialled) effs = []"
  using assms by (auto simp: guarded_call_def Let_def split: prod.splits option.splits if_splits gate.splits)

lemma rung_attempted:
  assumes "guarded_call c target w = (Attempted a, effs, w')"
  shows "filter ((=) Dialled) effs = [Dialled]" "a = call_attempt c"
  using assms by (auto simp: guarded_call_def Let_def split: prod.splits option.splits if_splits gate.splits)

lemma not_timeout_exn: "\<nexists>a. r = Attempted a \<Longrightarrow> \<not> ladder_retries rot (call_outcome r)"
  by (auto simp: ladder_retries_def call_outcome_def exn_defs
      split: call_result.splits slot_outcome.splits gate.splits)

lemma rung_inv_step:
  assumes h: "host_key target = h" "h \<noteq> []" and l: "lonely_timeout h (envs k)"
    and t: "0 < k \<longrightarrow> gate_clock (envs k) 0 < verdict_now (envs (k - 1)) + 15"
    and i: "rung_inv envs h k st" and r: "guarded_rung envs target st = (out, st')"
  shows "k \<le> 3 \<and> (if ladder_retries True out then rung_inv envs h (Suc k) st'
     else length (filter ((=) Dialled) (snd (snd st'))) \<le> 3)"
proof -
  obtain w effs where st: "st = (w, k, effs)" "length (filter ((=) Dialled) effs) = k"
    using i by (cases st) (auto simp: rung_inv_def)
  show ?thesis
  proof (cases "circuit_closed h w")
    case False
    then obtain d where d: "get_doc w h = Some d" "is_open d" "0 < k" "k \<le> 3"
      "claim_probe (gate_clock (envs k) 0) d = Cooling"
      using i t st by (auto simp: rung_inv_def)
    have "out = Raises (HpcError ''SshCircuitOpen'')" "st' = (w, Suc k, effs)"
      using open_rung [of target h envs k w d effs, OF h l d(1,2,5)] r st by simp_all
    then show ?thesis using d st by (simp add: ladder_retries_def exn_defs)
  next
    case True
    then have c: "int k \<le> counted h w" "0 < k \<longrightarrow> counted h w < 3"
      using i st by (simp_all add: rung_inv_def CIRCUIT_THRESHOLD_def)
    then have k: "k \<le> 2" by linarith
    obtain cr new w' where g: "guarded_call (envs k) target w = (cr, new, w')" by (metis prod_cases3)
    have o: "out = call_outcome cr" "st' = (w', Suc k, effs @ new)"
      using r g st by (simp_all add: guarded_rung_def)
    show ?thesis
    proof (cases "\<exists>a. cr = Attempted a")
      case False
      then show ?thesis using k st o not_timeout_exn [of cr] rung_other [OF g] by simp
    next
      case att: True
      then obtain a where a: "cr = Attempted a" by blast
      obtain m where m: "a = TimedOut m"
        using rung_attempted(2) [OF g [unfolded a]] l by (auto simp: lonely_timeout_def)
      have "ladder_retries True out" using o a m by (simp add: ladder_retries_def call_outcome_def exn_defs)
      moreover have "length (filter ((=) Dialled) (effs @ new)) = Suc k"
        using st rung_attempted(1) [OF g [unfolded a]] by simp
      moreover obtain d where d: "get_doc w' h = Some (snd (fail_doc (verdict_now (envs k)) m d))"
        "\<not> is_open d" "failure_count d = counted h w"
        using guarded_call_timeout [OF h l True g [unfolded a]] m by auto
      have f: "0 \<le> failure_count d" using c d(3) by linarith
      have "rung_inv envs h (Suc k) st'"
      proof (cases "is_open (snd (fail_doc (verdict_now (envs k)) m d))")
        case op: True
        then show ?thesis using k o d opening_fail_deadline [OF d(2) op] calculation(2)
          by (simp add: rung_inv_def circuit_closed_def)
      next
        case False
        then show ?thesis using fail_doc_closed [OF d(2) f, of "verdict_now (envs k)" m] c d o calculation(2)
          by (simp add: rung_inv_def circuit_closed_def counted_def)
      qed
      ultimately show ?thesis using k by simp
    qed
  qed
qed

text \<open>The ladder stops hammering. Suppose every attempt to a host whose circuit is closed with at
  most two counted failures times out, the circuit file can be written, no other process touches it, and
  each rung's gate is consulted less than 15 seconds after the previous rung's verdict, as it is with
  the ladder's own pauses up to its third. Then the host is dialled at most three times: the breaker
  opens under the ladder and the next rung ends it, although the schedule has room for five attempts.\<close>

lemma ladder_dials_at_most_three:
  assumes "host_key target = h" and "h \<noteq> []" and "\<forall>k. lonely_timeout h (envs k)"
    and "\<forall>k. gate_clock (envs (Suc k)) 0 < verdict_now (envs k) + 15"
    and "circuit_closed h w" and "0 \<le> counted h w"
    and "with_ssh_backoff False True (guarded_rung envs target) (w, 0, []) = (out, evs, (w', k', effs))"
  shows "length (filter ((=) Dialled) effs) \<le> 3 \<and> length (sleeps_of evs) \<le> 3"
proof -
  let ?G = "guarded_rung envs target" and ?st = "(w, 0, [])"
  obtain n where n: "n < 5" "(w', k', effs) = calls ?G ?st (Suc n)" "out = verdict ?G ?st n"
    "\<forall>k<n. ladder_retries True (verdict ?G ?st k)" "n < 4 \<longrightarrow> \<not> ladder_retries True out"
    "sleeps_of evs = take n BACKOFF_DELAYS_SEC"
    by (rule ladder_run [OF assms(7)])
  note step = rung_inv_step [of target h envs, OF assms(1,2)]
  have inv: "k \<le> n \<Longrightarrow> rung_inv envs h k (calls ?G ?st k)" for k
  proof (induction k)
    case 0
    then show ?case using assms(5,6) by (simp add: rung_inv_def)
  next
    case (Suc k)
    obtain r s where r: "?G (calls ?G ?st k) = (r, s)" by (metis surj_pair)
    then have "r = verdict ?G ?st k" by (simp add: verdict_def)
    then have "ladder_retries True r" using n(4) Suc.prems by simp
    moreover have "0 < k \<longrightarrow> gate_clock (envs k) 0 < verdict_now (envs (k - 1)) + 15"
      using assms(4) by (cases k) auto
    ultimately show ?case using step [OF _ _ Suc.IH r] Suc.prems assms(3) r by simp
  qed
  obtain r s where r: "?G (calls ?G ?st n) = (r, s)" by (metis surj_pair)
  have "0 < n \<longrightarrow> gate_clock (envs n) 0 < verdict_now (envs (n - 1)) + 15"
    using assms(4) by (cases n) auto
  from step [OF _ this inv r] assms(3) have st: "n \<le> 3"
    "if ladder_retries True r then rung_inv envs h (Suc n) s else length (filter ((=) Dialled) (snd (snd s))) \<le> 3"
    by auto
  have "r = out" "s = (w', k', effs)" using n(2,3) r by (simp_all add: verdict_def)
  then show ?thesis using st n(5,6) by simp
qed

definition tick_env :: "nat \<Rightarrow> call_env" where
  "tick_env k = (demo_call (TimedOut ''t''))\<lparr>gate_clock := (\<lambda>_. of_nat k * 10), verdict_now := of_nat k * 10 + 2\<rparr>"

lemma ladder_dials_at_most_three_witness:
  "\<exists>out evs w' k' effs. with_ssh_backoff False True (guarded_rung tick_env ''u@h'') (free_world, 0, [])
       = (out, evs, (w', k', effs)) \<and> length (filter ((=) Dialled) effs) \<le> 3"
proof -
  obtain out evs w' k' effs where r: "with_ssh_backoff False True (guarded_rung tick_env ''u@h'') (free_world, 0, [])
       = (out, evs, (w', k', effs))" by (metis prod_cases5)
  have "lonely_timeout ''h'' (tick_env k)" for k
    by (simp add: lonely_timeout_def tick_env_def demo_call_def good_io_def demo_slot_env_def demo_env_def
        overridden_def py_strip_def)
  moreover have "circuit_closed ''h'' free_world" "counted ''h'' free_world = 0"
    by (simp_all add: circuit_closed_def counted_def free_world_def demo_slot_world_def get_doc_def)
  moreover have "gate_clock (tick_env (Suc k)) 0 < verdict_now (tick_env k) + 15" for k
    by (simp add: tick_env_def)
  ultimately show ?thesis using ladder_dials_at_most_three [OF demo_host(1) _ _ _ _ _ r] r by auto
qed

end
