(* ===== verification/JsonValues.thy ===== *)
theory JsonValues
  imports Prelude "HOL-Library.AList"
begin

text \<open>
  Parsed JSON documents with integers and floats kept apart, as \<open>isinstance(value, int)\<close> tells them
  apart, and the Python operations the campaign layer uses on them. A dictionary is an association list
  in insertion order with each key once.
\<close>

section \<open>Values\<close>

datatype jval =
    JNull
  | JBool bool
  | JInt int
  | JFloat rat
  | JText string
  | JList "jval list"
  | JDict "(string \<times> jval) list"

type_synonym dict = "(string \<times> jval) list"

named_theorems json_simps \<open>evaluation rules of the operations on JSON values\<close>

text \<open>The truth value of a Python object.\<close>

fun truthy :: "jval \<Rightarrow> bool" where
  "truthy JNull = False"
| "truthy (JBool b) = b"
| "truthy (JInt n) = (n \<noteq> 0)"
| "truthy (JFloat r) = (r \<noteq> 0)"
| "truthy (JText s) = (s \<noteq> [])"
| "truthy (JList xs) = (xs \<noteq> [])"
| "truthy (JDict d) = (d \<noteq> [])"

text \<open>\<open>d.get(key)\<close> of a dictionary, \<open>JNull\<close> for a missing key.\<close>

definition jget :: "(string \<times> jval) list \<Rightarrow> string \<Rightarrow> jval" where
  "jget d key = (case map_of d key of None \<Rightarrow> JNull | Some v \<Rightarrow> v)"

lemma jget_simps [simp, json_simps]:
  "jget [] k = JNull" "jget ((k', v) # d) k = (if k = k' then v else jget d k)"
  by (simp_all add: jget_def)

text \<open>The text under a key, when it is a text that is not empty.\<close>

definition nonempty_str :: "dict \<Rightarrow> string \<Rightarrow> string option" where
  "nonempty_str d key = (case jget d key of JText s \<Rightarrow> if s = [] then None else Some s | _ \<Rightarrow> None)"

lemma nonempty_str_Some: "nonempty_str d k = Some s \<longleftrightarrow> jget d k = JText s \<and> s \<noteq> []"
  by (auto simp: nonempty_str_def split: jval.splits)

lemma jget_update: "jget (AList.update k v d) k' = (if k' = k then v else jget d k')"
  by (simp add: jget_def update_conv')

text \<open>\<open>x or {}\<close> for a value that is a dictionary or falsy.\<close>

definition dict_or_empty :: "jval \<Rightarrow> (string \<times> jval) list" where
  "dict_or_empty v = (case v of JDict d \<Rightarrow> d | _ \<Rightarrow> [])"

text \<open>\<open>v or 0\<close>: a falsy value is replaced by zero.\<close>

definition or_zero :: "jval \<Rightarrow> jval" where
  "or_zero v = (if truthy v then v else JInt 0)"

text \<open>\<open>int(v)\<close> and \<open>float(v)\<close>; \<open>None\<close> stands for the \<open>TypeError\<close> or \<open>ValueError\<close> they raise.\<close>

fun jint :: "jval \<Rightarrow> int option" where
  "jint (JBool b) = Some (if b then 1 else 0)"
| "jint (JInt n) = Some n"
| "jint (JFloat r) = Some (py_int r)"
| "jint (JText s) = py_int_of_text s"
| "jint _ = None"

fun jnumber :: "jval \<Rightarrow> rat option" where
  "jnumber (JBool b) = Some (if b then 1 else 0)"
| "jnumber (JInt n) = Some (of_int n)"
| "jnumber (JFloat r) = Some r"
| "jnumber _ = None"

text \<open>\<open>v if isinstance(v, int) else None\<close>, which lets a boolean through, and the variant that does not.\<close>

fun if_int :: "jval \<Rightarrow> int option" where
  "if_int (JBool b) = Some (if b then 1 else 0)"
| "if_int (JInt n) = Some n"
| "if_int _ = None"

fun if_proper_int :: "jval \<Rightarrow> int option" where
  "if_proper_int (JInt n) = Some n"
| "if_proper_int _ = None"

definition jtext_eq :: "jval \<Rightarrow> string \<Rightarrow> bool" where
  "jtext_eq v s \<longleftrightarrow> v = JText s"

section \<open>Counters in a dictionary\<close>

text \<open>\<open>d[k] = d.get(k, 0) + n\<close>: a new key goes to the end.\<close>

definition bump :: "string \<Rightarrow> int \<Rightarrow> (string \<times> int) list \<Rightarrow> (string \<times> int) list" where
  "bump k n d = AList.update k (case map_of d k of None \<Rightarrow> n | Some m \<Rightarrow> m + n) d"

definition count_of :: "(string \<times> int) list \<Rightarrow> string \<Rightarrow> int" where
  "count_of d k = (case map_of d k of None \<Rightarrow> 0 | Some n \<Rightarrow> n)"

lemma count_bump [simp]: "count_of (bump k n d) k' = count_of d k' + (if k' = k then n else 0)"
  by (auto simp: bump_def count_of_def update_conv' split: option.split)

lemma keys_bump: "fst ` set (bump k n d) = insert k (fst ` set d)"
  by (simp add: bump_def dom_update)

lemma distinct_bump: "distinct (map fst d) \<Longrightarrow> distinct (map fst (bump k n d))"
  by (simp add: bump_def distinct_update)

text \<open>\<open>max(d, key=...)\<close>: the first key, in iteration order, that has the greatest value.\<close>

fun first_max :: "('k \<times> int) list \<Rightarrow> ('k \<times> int) option" where
  "first_max [] = None"
| "first_max ((k, n) # d) =
     (case first_max d of None \<Rightarrow> Some (k, n) | Some (k', n') \<Rightarrow> if n' \<le> n then Some (k, n) else Some (k', n'))"

lemma first_max_None [simp]: "first_max d = None \<longleftrightarrow> d = []"
  by (cases d rule: first_max.cases) (auto split: option.split)

lemma first_max_Some:
  "first_max d = Some (k, n) \<Longrightarrow> (k, n) \<in> set d \<and> (\<forall>(k', n')\<in>set d. n' \<le> n)"
proof (induction d arbitrary: k n rule: first_max.induct)
  case (2 k' n' d)
  then show ?case by (cases "first_max d") (fastforce split: if_splits prod.splits)+
qed simp

section \<open>Rounding\<close>

text \<open>Python's \<open>round(x, 4)\<close> on exact numbers: to the nearest multiple, ties to the even one.\<close>

definition round_half_even :: "rat \<Rightarrow> int" where
  "round_half_even x =
     (let n = \<lfloor>x\<rfloor>; r = x - of_int n
      in if r < 1 / 2 then n else if r > 1 / 2 then n + 1 else if even n then n else n + 1)"

definition round4 :: "rat \<Rightarrow> rat" where
  "round4 x = of_int (round_half_even (x * 10000)) / 10000"

lemma round_half_even_bounds: "of_int (round_half_even x) - x \<le> 1 / 2" "x - of_int (round_half_even x) \<le> 1 / 2"
  by (auto simp: round_half_even_def Let_def) linarith+

lemma round_half_even_mono: "x \<le> y \<Longrightarrow> round_half_even x \<le> round_half_even y"
proof -
  assume xy: "x \<le> y"
  consider "\<lfloor>x\<rfloor> = \<lfloor>y\<rfloor>" | "\<lfloor>x\<rfloor> + 1 \<le> \<lfloor>y\<rfloor>" using floor_mono [OF xy] by linarith
  then show ?thesis
  proof cases
    case 1
    then show ?thesis using xy by (auto simp: round_half_even_def Let_def)
  next
    case 2
    have "round_half_even x \<le> \<lfloor>x\<rfloor> + 1" "\<lfloor>y\<rfloor> \<le> round_half_even y" by (simp_all add: round_half_even_def Let_def)
    with 2 show ?thesis by linarith
  qed
qed

lemma round4_mono: "x \<le> y \<Longrightarrow> round4 x \<le> round4 y"
  by (simp add: round4_def divide_right_mono round_half_even_mono)

lemma round4_int [simp]: "round4 (of_int n) = of_int n"
proof -
  have "round_half_even (of_int n * 10000) = n * 10000"
    by (simp add: round_half_even_def Let_def) (metis floor_of_int of_int_mult of_int_numeral cancel_comm_monoid_add_class.diff_cancel zero_less_divide_1_iff zero_less_numeral)
  then show ?thesis by (simp add: round4_def)
qed

lemma round4_0 [simp]: "round4 0 = 0"
  by (simp add: round4_def round_half_even_def)

end
