(* ===== verification/CampaignEvidence.thy ===== *)
theory CampaignEvidence
  imports JsonValues
begin

text \<open>
  The evidence the campaign loop decides on: the consecutive-failure breaker
  (\<open>meta/campaign/atoms/circuit_breaker.py\<close>), the per-task resubmit cap (\<open>resubmit_cap.py\<close>) and the
  status count (\<open>status.py\<close>), all read off the campaign's journal records, oldest first.
\<close>

section \<open>Journal records\<close>

text \<open>The fields of a \<open>RunRecord\<close> that the campaign layer reads; \<open>last_status\<close> and \<open>retries\<close> as parsed.\<close>

record run_record =
  run_id :: string
  cluster :: string
  campaign_of :: string
  run_status :: string
  superseded_by :: string
  last_status :: "(string \<times> jval) list"
  retries :: jval
  total_tasks :: int
  pending_verdict :: "(string \<times> jval) list"
  pending_decision :: "(string \<times> jval) list"
  kill_requested_at :: string

definition JOURNAL_STATUSES :: "string list" where
  "JOURNAL_STATUSES = [''submitting'', ''in_flight'', ''complete'', ''failed'', ''abandoned'']"

definition TERMINAL_STATUSES :: "string list" where
  "TERMINAL_STATUSES = [''complete'', ''failed'', ''abandoned'']"

definition NEVER_DISPATCHED_VERDICT_REASON :: string where
  "NEVER_DISPATCHED_VERDICT_REASON = ''submit_once_never_dispatched_safe_resubmit''"

definition FAILED_TERMINAL :: "string list" where
  "FAILED_TERMINAL = [''failed'', ''abandoned'']"

section \<open>The consecutive-failure breaker\<close>

definition is_never_dispatched :: "run_record \<Rightarrow> bool" where
  "is_never_dispatched r =
     (if run_status r \<noteq> ''abandoned'' then False
      else jget (last_status r) ''verdict_reason'' = JText NEVER_DISPATCHED_VERDICT_REASON)"

record breaker_report =
  br_count :: nat
  br_run_ids :: "string list"
  nd_count :: nat
  nd_run_ids :: "string list"
  br_last_status :: "string option"

text \<open>The body of the newest-first loop; the \<open>break\<close> on a terminal non-failure is the second branch.\<close>

fun breaker_loop :: "run_record list \<Rightarrow> breaker_report \<Rightarrow> breaker_report" where
  "breaker_loop [] acc = acc"
| "breaker_loop (r # rs) acc =
     (if run_status r \<notin> set TERMINAL_STATUSES then breaker_loop rs acc
      else
        (let acc = (if br_last_status acc = None then acc\<lparr>br_last_status := Some (run_status r)\<rparr> else acc)
         in if run_status r \<notin> set FAILED_TERMINAL then acc
            else if is_never_dispatched r
            then breaker_loop rs (acc\<lparr>nd_count := nd_count acc + 1, nd_run_ids := nd_run_ids acc @ [run_id r]\<rparr>)
            else breaker_loop rs (acc\<lparr>br_count := br_count acc + 1, br_run_ids := br_run_ids acc @ [run_id r]\<rparr>)))"

definition consecutive_terminal_failures :: "run_record list \<Rightarrow> breaker_report" where
  "consecutive_terminal_failures runs =
     breaker_loop (rev runs)
       \<lparr>br_count = 0, br_run_ids = [], nd_count = 0, nd_run_ids = [], br_last_status = None\<rparr>"

text \<open>What it computes: the failures after the last complete iteration, split by attribution.\<close>

definition since_complete :: "run_record list \<Rightarrow> run_record list" where
  "since_complete newest_first = takeWhile (\<lambda>r. run_status r \<noteq> ''complete'') newest_first"

definition genuine_failure :: "run_record \<Rightarrow> bool" where
  "genuine_failure r \<longleftrightarrow> run_status r \<in> {''failed'', ''abandoned''} \<and> \<not> is_never_dispatched r"

definition is_terminal :: "run_record \<Rightarrow> bool" where
  "is_terminal r \<longleftrightarrow> run_status r \<in> set TERMINAL_STATUSES"

lemmas status_defs = TERMINAL_STATUSES_def FAILED_TERMINAL_def is_terminal_def genuine_failure_def

lemma never_dispatched_abandoned: "is_never_dispatched r \<Longrightarrow> run_status r = ''abandoned''"
  by (simp add: is_never_dispatched_def split: if_splits)

lemma breaker_loop_spec:
  "breaker_loop rs acc =
     acc\<lparr>br_count := br_count acc + length (filter genuine_failure (since_complete rs)),
         br_run_ids := br_run_ids acc @ map run_id (filter genuine_failure (since_complete rs)),
         nd_count := nd_count acc + length (filter is_never_dispatched (since_complete rs)),
         nd_run_ids := nd_run_ids acc @ map run_id (filter is_never_dispatched (since_complete rs)),
         br_last_status := (case br_last_status acc of Some s \<Rightarrow> Some s
            | None \<Rightarrow> map_option run_status (find is_terminal rs))\<rparr>"
proof (induction rs arbitrary: acc)
  case Nil
  show ?case by (simp add: since_complete_def split: option.split)
next
  case (Cons r rs)
  then show ?case
    using never_dispatched_abandoned [of r]
    by (auto simp: Let_def status_defs since_complete_def split: option.splits)
qed

text \<open>The two streaks. The breaker counts exactly the terminal failures newer than the last complete
  iteration, newest first, and splits them: abandoned runs stamped as never dispatched go to one streak,
  every other failed or abandoned run to the other. Each failure is in one of them, iterations without
  a verdict are in neither, and neither streak interrupts the other.\<close>

lemma breaker_streaks_exact:
  "let b = consecutive_terminal_failures runs; recent = since_complete (rev runs) in
     br_run_ids b = map run_id (filter genuine_failure recent) \<and> br_count b = length (br_run_ids b)
   \<and> nd_run_ids b = map run_id (filter is_never_dispatched recent) \<and> nd_count b = length (nd_run_ids b)
   \<and> br_count b + nd_count b = length (filter (\<lambda>r. run_status r \<in> {''failed'', ''abandoned''}) recent)
   \<and> br_last_status b = map_option run_status (find is_terminal (rev runs))"
proof -
  have "length (filter genuine_failure rs) + length (filter is_never_dispatched rs)
      = length (filter (\<lambda>r. run_status r \<in> {''failed'', ''abandoned''}) rs)" for rs
    using never_dispatched_abandoned by (induction rs) (auto simp: genuine_failure_def)
  then show ?thesis by (simp add: consecutive_terminal_failures_def breaker_loop_spec Let_def)
qed

section \<open>The resubmit cap\<close>

definition DEFAULT_MAX_TASK_RESUBMITS :: int where
  "DEFAULT_MAX_TASK_RESUBMITS = 2"

text \<open>\<open>int(info.get("attempts", 0) or 0)\<close>; \<open>None\<close> when it raises.\<close>

definition attempts_of :: "(string \<times> jval) list \<Rightarrow> int option" where
  "attempts_of info = jint (or_zero (jget info ''attempts''))"

text \<open>The loop over the entries of one record, and over the records.\<close>

fun add_retries :: "(string \<times> jval) list \<Rightarrow> (string \<times> int) list \<Rightarrow> (string \<times> int) list option" where
  "add_retries [] per_task = Some per_task"
| "add_retries ((tid, info) # rest) per_task =
     (case info of
        JDict d \<Rightarrow>
          (case attempts_of d of
             None \<Rightarrow> None
           | Some n \<Rightarrow> add_retries rest (if n \<le> 0 then per_task else bump tid n per_task))
      | _ \<Rightarrow> add_retries rest per_task)"

fun per_task_totals :: "run_record list \<Rightarrow> (string \<times> int) list \<Rightarrow> (string \<times> int) list option" where
  "per_task_totals [] per_task = Some per_task"
| "per_task_totals (r # rs) per_task =
     (case add_retries (dict_or_empty (retries r)) per_task of
        None \<Rightarrow> None | Some d \<Rightarrow> per_task_totals rs d)"

record resubmit_report =
  rc_count :: int
  rc_task_id :: "string option"
  rc_per_task :: "(string \<times> int) list"

definition max_task_resubmits :: "run_record list \<Rightarrow> resubmit_report option" where
  "max_task_resubmits runs =
     (case per_task_totals runs [] of
        None \<Rightarrow> None
      | Some d \<Rightarrow>
          (case first_max d of
             None \<Rightarrow> Some \<lparr>rc_count = 0, rc_task_id = None, rc_per_task = d\<rparr>
           | Some (tid, n) \<Rightarrow> Some \<lparr>rc_count = n, rc_task_id = Some tid, rc_per_task = d\<rparr>))"

text \<open>The resubmits one record charges to a task slot.\<close>

definition charged :: "string \<Rightarrow> string \<times> jval \<Rightarrow> int" where
  "charged tid entry = (case entry of (t, JDict d) \<Rightarrow>
     (case attempts_of d of Some n \<Rightarrow> if t = tid then max 0 n else 0 | None \<Rightarrow> 0) | _ \<Rightarrow> 0)"

definition run_charges :: "string \<Rightarrow> run_record \<Rightarrow> int" where
  "run_charges tid r = sum_list (map (charged tid) (dict_or_empty (retries r)))"

lemma charged_nonneg: "0 \<le> charged tid e"
  by (auto simp: charged_def split: prod.split jval.split option.split)

lemma run_charges_nonneg: "0 \<le> run_charges tid r"
  unfolding run_charges_def by (rule sum_list_nonneg) (auto simp: charged_nonneg)

definition positive_counters :: "(string \<times> int) list \<Rightarrow> bool" where
  "positive_counters d \<longleftrightarrow> distinct (map fst d) \<and> (\<forall>(t, n)\<in>set d. 0 < n)"

lemma positive_bump: "positive_counters d \<Longrightarrow> 0 < n \<Longrightarrow> positive_counters (bump t n d)"
proof -
  assume a: "positive_counters d" "0 < n"
  have d: "distinct (map fst (bump t n d))" using a(1) by (simp add: positive_counters_def distinct_bump)
  have "0 < m" if "(k, m) \<in> set (bump t n d)" for k m
  proof -
    have "count_of (bump t n d) k = m" using d that by (simp add: count_of_def)
    then have m: "m = count_of d k + (if k = t then n else 0)" by simp
    show ?thesis
    proof (cases "map_of d k")
      case None
      then have "k = t" using that keys_bump [of t n d] by (force simp: map_of_eq_None_iff)
      with None m a(2) show ?thesis by (simp add: count_of_def)
    next
      case (Some v)
      then have "0 < v" using a(1) map_of_SomeD by (fastforce simp: positive_counters_def)
      with Some m a(2) show ?thesis by (auto simp: count_of_def split: if_splits)
    qed
  qed
  with d show ?thesis by (auto simp: positive_counters_def)
qed

lemma add_retries_counts:
  "add_retries es d = Some d' \<Longrightarrow> positive_counters d \<Longrightarrow>
     positive_counters d' \<and> (\<forall>t. count_of d' t = count_of d t + sum_list (map (charged t) es))"
proof (induction es arbitrary: d)
  case (Cons e rest)
  obtain tid info where e: "e = (tid, info)" by (cases e)
  show ?case
  proof (cases "\<exists>i. info = JDict i")
    case True
    then obtain i n where i: "info = JDict i" "attempts_of i = Some n"
      "add_retries rest (if n \<le> 0 then d else bump tid n d) = Some d'"
      using Cons.prems(1) e by (auto split: option.splits)
    have "positive_counters (if n \<le> 0 then d else bump tid n d)" using Cons.prems(2) positive_bump by simp
    from Cons.IH [OF i(3) this] i e show ?thesis by (auto simp: charged_def)
  next
    case False
    then have "add_retries rest d = Some d'" "\<forall>t. charged t e = 0"
      using Cons.prems(1) e by (cases info; simp add: charged_def)+
    with Cons.IH Cons.prems(2) show ?thesis by simp
  qed
qed simp

lemma per_task_totals_counts:
  "per_task_totals rs d = Some d' \<Longrightarrow> positive_counters d \<Longrightarrow>
     positive_counters d' \<and> (\<forall>t. count_of d' t = count_of d t + sum_list (map (run_charges t) rs))"
proof (induction rs arbitrary: d)
  case (Cons r rs)
  then obtain d1 where d1: "add_retries (dict_or_empty (retries r)) d = Some d1" "per_task_totals rs d1 = Some d'"
    by (auto split: option.splits)
  from add_retries_counts [OF d1(1) Cons.prems(2)] Cons.IH [OF d1(2)] show ?case
    by (simp add: run_charges_def)
qed simp

text \<open>Worst slot. When the attempt counters can be read, the report charges every task slot the sum
  of its positive attempt counts over all runs of the campaign, lists exactly the slots with a positive
  total, and names a slot with the greatest total, with that total; without any resubmit it names none
  and counts zero.\<close>

lemma resubmit_report_exact:
  assumes "max_task_resubmits runs = Some r"
  shows "(\<forall>t. count_of (rc_per_task r) t = sum_list (map (run_charges t) runs))
     \<and> fst ` set (rc_per_task r) = {t. 0 < sum_list (map (run_charges t) runs)}
     \<and> (\<forall>t. sum_list (map (run_charges t) runs) \<le> rc_count r)
     \<and> (case rc_task_id r of None \<Rightarrow> rc_count r = 0 \<and> rc_per_task r = []
        | Some t \<Rightarrow> rc_count r = sum_list (map (run_charges t) runs) \<and> 0 < rc_count r)"
proof -
  obtain d where d: "per_task_totals runs [] = Some d" "rc_per_task r = d"
    using assms by (auto simp: max_task_resubmits_def split: option.splits)
  have pc: "positive_counters d" and cnt: "count_of d t = sum_list (map (run_charges t) runs)" for t
    using per_task_totals_counts [OF d(1)] by (simp_all add: positive_counters_def count_of_def)
  have keys: "fst ` set d = {t. 0 < count_of d t}"
  proof
    show "fst ` set d \<subseteq> {t. 0 < count_of d t}" using pc by (auto simp: positive_counters_def count_of_def)
    show "{t. 0 < count_of d t} \<subseteq> fst ` set d"
      by (auto simp: count_of_def map_of_eq_None_iff split: option.splits dest!: map_of_SomeD intro!: rev_image_eqI)
  qed
  have mx: "case rc_task_id r of None \<Rightarrow> rc_count r = 0 \<and> d = []
      | Some t \<Rightarrow> (t, rc_count r) \<in> set d \<and> (\<forall>(t', n')\<in>set d. n' \<le> rc_count r)"
    using assms d(1) first_max_Some by (fastforce simp: max_task_resubmits_def split: option.splits)
  have le: "count_of d t \<le> rc_count r" for t
    using mx pc by (cases "map_of d t")
      (fastforce simp: count_of_def positive_counters_def dest!: map_of_SomeD split: option.splits)+
  have eq: "count_of d t = rc_count r \<and> 0 < rc_count r" if "rc_task_id r = Some t" for t
    using mx that pc by (auto simp: count_of_def positive_counters_def)
  show ?thesis using keys le eq mx d(2) by (auto simp: cnt split: option.splits)
qed

definition demo_run_record :: run_record where
  "demo_run_record = \<lparr>run_id = ''r1'', cluster = ''c'', campaign_of = ''x'', run_status = ''failed'', superseded_by = [],
     last_status = [], retries = JDict [(''0'', JDict [(''attempts'', JInt 1)]), (''3'', JDict [(''attempts'', JInt 2)])],
     total_tasks = 4, pending_verdict = [], pending_decision = [], kill_requested_at = []\<rparr>"

lemma demo_resubmits: "max_task_resubmits [demo_run_record, demo_run_record]
    = Some \<lparr>rc_count = 4, rc_task_id = Some ''3'', rc_per_task = [(''0'', 2), (''3'', 4)]\<rparr>"
  by (simp add: max_task_resubmits_def demo_run_record_def dict_or_empty_def attempts_of_def or_zero_def bump_def)

lemma resubmit_report_exact_witness:
  "\<exists>r. max_task_resubmits [demo_run_record, demo_run_record] = Some r \<and> rc_task_id r = Some ''3'' \<and> rc_count r = 4
     \<and> sum_list (map (run_charges ''3'') [demo_run_record, demo_run_record]) = 4"
proof -
  show ?thesis using resubmit_report_exact [OF demo_resubmits] demo_resubmits by simp
qed

section \<open>The status count\<close>

definition campaign_in_flight :: "run_record list \<Rightarrow> nat" where
  "campaign_in_flight runs = length (filter (\<lambda>r. run_status r \<notin> set TERMINAL_STATUSES) runs)"

record campaign_status =
  iterations :: nat
  in_flight :: nat

definition campaign_status_of :: "'sidecar list \<Rightarrow> run_record list \<Rightarrow> campaign_status" where
  "campaign_status_of sidecars runs = \<lparr>iterations = length sidecars, in_flight = campaign_in_flight runs\<rparr>"

end
