(* ===== verification/CampaignBudget.thy ===== *)
theory CampaignBudget
  imports CampaignEvidence
begin

text \<open>
  The budget governor: compute spend joined from the runtime samples (\<open>compute_spend.py\<close>), spend against
  caps (\<open>budget.py\<close>), and the acknowledgement that clears a halt (\<open>meta/campaign/budget_ack.py\<close>,
  \<open>acknowledge_budget.py\<close>). The sample files are read through a function from profile and cluster.
\<close>

section \<open>Spend\<close>

text \<open>A run sidecar, with the empty text for a missing key, and one runtime sample.\<close>

record sidecar =
  sc_run :: string
  sc_profile :: string
  sc_cluster :: string
  sc_tasks :: int

record sample =
  sm_run :: string
  sm_elapsed :: jval
  sm_cpu :: jval
  sm_gpu :: string

definition coerce_pos_int :: "jval \<Rightarrow> int option" where
  "coerce_pos_int x = (case jint x of None \<Rightarrow> None | Some v \<Rightarrow> if v > 0 then Some v else None)"

definition cores_used_from_sample :: "sample \<Rightarrow> int \<Rightarrow> int option" where
  "cores_used_from_sample s elapsed =
     (case coerce_pos_int (sm_cpu s) of
        None \<Rightarrow> None
      | Some cpu \<Rightarrow> if elapsed \<le> 0 then None
                   else Some (max 1 \<lceil>of_int cpu / of_int (max 1 elapsed) :: rat\<rceil>))"

definition is_gpu_type :: "string \<Rightarrow> bool" where
  "is_gpu_type g = (if g = [] then False else py_lower (py_strip g) \<notin> {''cpu'', ''none'', []})"

record spend =
  sp_walltime :: int
  sp_core_hours :: rat
  sp_gpu_hours :: rat
  sp_tasks :: nat
  sp_missing :: nat
  sp_runs :: "string list"

text \<open>The body of the loop over one file's samples.\<close>

definition elapsed_of :: "sample \<Rightarrow> int option" where
  "elapsed_of s = (case jint (or_zero (sm_elapsed s)) of None \<Rightarrow> None | Some e \<Rightarrow> if e \<le> 0 then None else Some e)"

definition charge :: "string list \<Rightarrow> spend \<Rightarrow> sample \<Rightarrow> spend" where
  "charge wanted sp s =
     (if sm_run s \<notin> set wanted then sp
      else
        (case elapsed_of s of
           None \<Rightarrow> sp
         | Some elapsed \<Rightarrow>
             (let sp = sp\<lparr>sp_runs := List.insert (sm_run s) (sp_runs sp), sp_tasks := sp_tasks sp + 1,
                          sp_walltime := sp_walltime sp + elapsed\<rparr>;
                  sp = (case cores_used_from_sample s elapsed of
                          None \<Rightarrow> sp\<lparr>sp_missing := sp_missing sp + 1\<rparr>
                        | Some cores \<Rightarrow> sp\<lparr>sp_core_hours := sp_core_hours sp + of_int (elapsed * cores) / 3600\<rparr>)
              in if is_gpu_type (sm_gpu s)
                 then sp\<lparr>sp_gpu_hours := sp_gpu_hours sp + of_int elapsed / 3600\<rparr> else sp)))"

text \<open>\<open>run_ids_by_pc.setdefault(key, set()).add(run_id)\<close>.\<close>

definition add_run ::
  "(string \<times> string) \<Rightarrow> string \<Rightarrow> ((string \<times> string) \<times> string list) list
   \<Rightarrow> ((string \<times> string) \<times> string list) list" where
  "add_run key r groups =
     AList.update key (case map_of groups key of None \<Rightarrow> [r] | Some rs \<Rightarrow> List.insert r rs) groups"

definition joinable :: "sidecar \<Rightarrow> bool" where
  "joinable sc \<longleftrightarrow> sc_profile sc \<noteq> [] \<and> sc_cluster sc \<noteq> []"

definition runs_by_pc :: "sidecar list \<Rightarrow> ((string \<times> string) \<times> string list) list" where
  "runs_by_pc sidecars =
     foldl (\<lambda>g sc. if sc_run sc = [] \<or> \<not> joinable sc then g else add_run (sc_profile sc, sc_cluster sc) (sc_run sc) g)
       [] sidecars"

definition runs_without_pc :: "sidecar list \<Rightarrow> string list" where
  "runs_without_pc sidecars = map sc_run (filter (\<lambda>sc. sc_run sc \<noteq> [] \<and> \<not> joinable sc) sidecars)"

definition all_run_ids :: "sidecar list \<Rightarrow> string list" where
  "all_run_ids sidecars = map sc_run (filter (\<lambda>sc. sc_run sc \<noteq> []) sidecars)"

definition no_spend :: spend where
  "no_spend = \<lparr>sp_walltime = 0, sp_core_hours = 0, sp_gpu_hours = 0, sp_tasks = 0, sp_missing = 0, sp_runs = []\<rparr>"

definition total_spend :: "(string \<times> string \<Rightarrow> sample list) \<Rightarrow> sidecar list \<Rightarrow> spend" where
  "total_spend read_samples sidecars =
     foldl (\<lambda>sp (pc, wanted). foldl (charge wanted) sp (read_samples pc)) no_spend (runs_by_pc sidecars)"

record consumed =
  c_walltime :: int
  c_core_hours :: rat
  c_gpu_hours :: rat
  c_tasks :: nat
  c_runs_total :: nat
  c_with_samples :: nat
  c_without_samples :: "string list"
  c_without_pc :: "string list"
  c_missing_core :: nat
  c_partial :: bool

definition consumed_compute_for_campaign ::
  "(string \<times> string \<Rightarrow> sample list) \<Rightarrow> sidecar list \<Rightarrow> consumed" where
  "consumed_compute_for_campaign read_samples sidecars =
     (let sp = total_spend read_samples sidecars; no_pc = runs_without_pc sidecars;
          without = filter (\<lambda>r. r \<notin> set (sp_runs sp) \<and> r \<notin> set no_pc) (all_run_ids sidecars)
      in \<lparr>c_walltime = sp_walltime sp, c_core_hours = round4 (sp_core_hours sp),
          c_gpu_hours = round4 (sp_gpu_hours sp), c_tasks = sp_tasks sp,
          c_runs_total = length (all_run_ids sidecars), c_with_samples = length (sp_runs sp),
          c_without_samples = without, c_without_pc = no_pc, c_missing_core = sp_missing sp,
          c_partial = (without \<noteq> [] \<or> no_pc \<noteq> [] \<or> sp_missing sp > 0)\<rparr>)"

section \<open>Spend against caps\<close>

text \<open>A cap is a JSON number, or \<open>JNull\<close> when it is not given.\<close>

record caps =
  max_jobs :: jval
  max_tasks :: jval
  max_walltime_sec :: jval
  max_core_hours :: jval

definition or_manifest :: "jval \<Rightarrow> (string \<times> jval) list \<Rightarrow> string \<Rightarrow> jval" where
  "or_manifest arg section_dict key = (if arg = JNull then jget section_dict key else arg)"

definition manifest_section :: "(string \<times> jval) list option \<Rightarrow> string \<Rightarrow> (string \<times> jval) list" where
  "manifest_section manifest name =
     (case manifest of None \<Rightarrow> [] | Some m \<Rightarrow> dict_or_empty (jget m name))"

definition resolve_caps :: "caps \<Rightarrow> (string \<times> jval) list option \<Rightarrow> caps" where
  "resolve_caps args manifest =
     (let b = manifest_section manifest ''budget''
      in \<lparr>max_jobs = or_manifest (max_jobs args) b ''max_jobs'',
          max_tasks = or_manifest (max_tasks args) b ''max_tasks'',
          max_walltime_sec = or_manifest (max_walltime_sec args) b ''max_walltime_sec'',
          max_core_hours = or_manifest (max_core_hours args) b ''max_core_hours''\<rparr>)"

record spent =
  spent_jobs :: int
  spent_tasks :: int
  spent_walltime :: int
  spent_core_hours :: rat
  spent_gpu_hours :: rat

definition spent_of :: "consumed \<Rightarrow> sidecar list \<Rightarrow> spent" where
  "spent_of c sidecars =
     \<lparr>spent_jobs = int (length sidecars), spent_tasks = sum_list (map sc_tasks sidecars),
      spent_walltime = c_walltime c, spent_core_hours = c_core_hours c, spent_gpu_hours = c_gpu_hours c\<rparr>"

text \<open>One entry of the integer ladder: the remaining amount and whether the cap is met; \<open>None\<close> on a cap
  that \<open>int\<close> cannot read.\<close>

definition int_check :: "jval \<Rightarrow> int \<Rightarrow> (int option \<times> bool) option" where
  "int_check cap spent_val =
     (if cap = JNull then Some (None, False)
      else case jint cap of
             None \<Rightarrow> None
           | Some c \<Rightarrow> Some (Some (max 0 (c - spent_val)), spent_val \<ge> c))"

definition float_check :: "jval \<Rightarrow> rat \<Rightarrow> (rat option \<times> bool) option" where
  "float_check cap spent_val =
     (if cap = JNull then Some (None, False)
      else case jnumber cap of
             None \<Rightarrow> None
           | Some c \<Rightarrow> Some (Some (round4 (max 0 (c - spent_val))), spent_val \<ge> c))"

record projection =
  pr_walltime :: int
  pr_core_hours :: rat
  pr_runs :: nat
  pr_tasks :: int
  pr_consumed_only :: bool

definition projected_spend :: "run_record list \<Rightarrow> consumed \<Rightarrow> int \<Rightarrow> rat \<Rightarrow> projection" where
  "projected_spend runs c walltime core_hours =
     (let live = filter (\<lambda>r. run_status r = ''in_flight'') runs;
          tasks = sum_list (map total_tasks live)
      in if c_tasks c = 0 \<or> tasks \<le> 0
         then \<lparr>pr_walltime = walltime, pr_core_hours = round4 core_hours, pr_runs = length live,
               pr_tasks = tasks, pr_consumed_only = True\<rparr>
         else
           (let mean_walltime = of_int walltime / of_nat (c_tasks c);
                mean_core_hours = core_hours / of_nat (c_tasks c)
            in \<lparr>pr_walltime = py_int (of_int walltime + mean_walltime * of_int tasks),
                pr_core_hours = round4 (core_hours + mean_core_hours * of_int tasks),
                pr_runs = length live, pr_tasks = tasks, pr_consumed_only = False\<rparr>))"

record budget_report =
  b_spent :: spent
  b_caps :: caps
  rem_jobs :: "int option"
  rem_tasks :: "int option"
  rem_walltime :: "int option"
  rem_core_hours :: "rat option"
  b_projected :: projection
  b_exhausted :: bool
  b_reasons :: "string list"

definition campaign_budget ::
  "caps \<Rightarrow> (string \<times> jval) list option \<Rightarrow> (string \<times> string \<Rightarrow> sample list) \<Rightarrow> sidecar list
   \<Rightarrow> run_record list \<Rightarrow> budget_report option" where
  "campaign_budget args manifest read_samples sidecars runs =
     (let cs = resolve_caps args manifest;
          c = consumed_compute_for_campaign read_samples sidecars;
          sp = spent_of c sidecars
      in case (int_check (max_jobs cs) (spent_jobs sp), int_check (max_tasks cs) (spent_tasks sp),
               int_check (max_walltime_sec cs) (spent_walltime sp),
               float_check (max_core_hours cs) (spent_core_hours sp)) of
           (Some (rj, xj), Some (rt, xt), Some (rw, xw), Some (rc, xc)) \<Rightarrow>
             Some \<lparr>b_spent = sp, b_caps = cs, rem_jobs = rj, rem_tasks = rt, rem_walltime = rw,
                   rem_core_hours = rc,
                   b_projected = projected_spend runs c (spent_walltime sp) (spent_core_hours sp),
                   b_exhausted = (xj \<or> xt \<or> xw \<or> xc),
                   b_reasons = (if xj then [''max_jobs''] else []) @ (if xt then [''max_tasks''] else [])
                     @ (if xw then [''max_walltime_sec''] else []) @ (if xc then [''max_core_hours''] else [])\<rparr>
         | _ \<Rightarrow> None)"

section \<open>The acknowledgement\<close>

definition CORE_HOURS_TOL :: rat where "CORE_HOURS_TOL = 1 / 1000000"

definition spent_doc :: "spent \<Rightarrow> (string \<times> jval) list" where
  "spent_doc s = [(''jobs'', JInt (spent_jobs s)), (''tasks'', JInt (spent_tasks s)),
     (''walltime_sec'', JInt (spent_walltime s)), (''core_hours'', JFloat (spent_core_hours s)),
     (''gpu_hours'', JFloat (spent_gpu_hours s))]"

text \<open>\<open>int(d.get(key, 0) or 0)\<close> and \<open>float(d.get(key, 0.0) or 0.0)\<close>; a raise is \<open>None\<close>.\<close>

definition metric_int :: "(string \<times> jval) list \<Rightarrow> string \<Rightarrow> int option" where
  "metric_int d key = jint (or_zero (jget d key))"

definition metric_float :: "(string \<times> jval) list \<Rightarrow> string \<Rightarrow> rat option" where
  "metric_float d key = jnumber (or_zero (jget d key))"

fun covers_ints :: "string list \<Rightarrow> (string \<times> jval) list \<Rightarrow> (string \<times> jval) list \<Rightarrow> bool option" where
  "covers_ints [] sp snap = Some True"
| "covers_ints (key # keys) sp snap =
     (case (metric_int sp key, metric_int snap key) of
        (Some current, Some acked) \<Rightarrow> if current > acked then Some False else covers_ints keys sp snap
      | _ \<Rightarrow> None)"

definition ack_covers_spend :: "(string \<times> jval) list \<Rightarrow> (string \<times> jval) list \<Rightarrow> bool option" where
  "ack_covers_spend ack sp =
     (case jget ack ''acknowledged_spend'' of
        JDict snap \<Rightarrow>
          (case covers_ints [''jobs'', ''tasks'', ''walltime_sec''] sp snap of
             Some True \<Rightarrow>
               (case (metric_float sp ''core_hours'', metric_float snap ''core_hours'') of
                  (Some current, Some acked) \<Rightarrow> Some (\<not> current > acked + CORE_HOURS_TOL)
                | _ \<Rightarrow> None)
           | r \<Rightarrow> r)
      | _ \<Rightarrow> Some False)"

definition write_budget_ack ::
  "string \<Rightarrow> string \<Rightarrow> (string \<times> jval) list \<Rightarrow> (string \<times> jval) list \<Rightarrow> string \<Rightarrow> (string \<times> jval) list" where
  "write_budget_ack now campaign_id acknowledged raised nt =
     [(''budget_ack_schema_version'', JInt 1), (''campaign_id'', JText campaign_id),
      (''acknowledged_at'', JText now), (''acknowledged_spend'', JDict acknowledged),
      (''raised_caps'', if raised = [] then JNull else JDict raised), (''note'', JText nt)]"

text \<open>\<open>_raise_manifest_caps\<close>: \<open>valid\<close> is the schema check; \<open>None\<close> when the minimal document fails it too.\<close>

definition setdefault :: "string \<Rightarrow> jval \<Rightarrow> (string \<times> jval) list \<Rightarrow> (string \<times> jval) list" where
  "setdefault k v d = (if map_of d k = None then d @ [(k, v)] else d)"

definition merge_caps :: "string \<Rightarrow> string \<Rightarrow> (string \<times> jval) list \<Rightarrow> (string \<times> jval) list option \<Rightarrow> (string \<times> jval) list" where
  "merge_caps now campaign_id raised existing =
     (let updated = (case existing of None \<Rightarrow> [] | Some d \<Rightarrow> d);
          updated = setdefault ''manifest_schema_version'' (JInt 1) updated;
          updated = setdefault ''campaign_id'' (JText campaign_id) updated;
          updated = setdefault ''created_at'' (JText now) updated;
          updated = setdefault ''goal'' (JText []) updated;
          budget = foldl (\<lambda>b (k, v). AList.update k v b) (dict_or_empty (jget updated ''budget'')) raised
      in AList.update ''budget'' (JDict budget) updated)"

definition raise_manifest_caps ::
  "((string \<times> jval) list \<Rightarrow> bool) \<Rightarrow> string \<Rightarrow> string \<Rightarrow> (string \<times> jval) list
   \<Rightarrow> (string \<times> jval) list option \<Rightarrow> (string \<times> jval) list option" where
  "raise_manifest_caps valid now campaign_id raised existing =
     (let updated = merge_caps now campaign_id raised existing;
          minimal = [(''manifest_schema_version'', JInt 1), (''campaign_id'', JText campaign_id),
                     (''created_at'', JText now), (''goal'', JText []), (''budget'', JDict raised)]
      in if valid updated then Some updated else if valid minimal then Some minimal else None)"

text \<open>The manifest as the readers see it: a missing, malformed or invalid file reads as no manifest.\<close>

definition read_manifest_safe ::
  "((string \<times> jval) list \<Rightarrow> bool) \<Rightarrow> (string \<times> jval) list option \<Rightarrow> (string \<times> jval) list option" where
  "read_manifest_safe valid stored = (case stored of None \<Rightarrow> None | Some d \<Rightarrow> if valid d then Some d else None)"

definition no_caps :: caps where
  "no_caps = \<lparr>max_jobs = JNull, max_tasks = JNull, max_walltime_sec = JNull, max_core_hours = JNull\<rparr>"

definition given_caps :: "caps \<Rightarrow> (string \<times> jval) list" where
  "given_caps c = filter (\<lambda>(k, v). v \<noteq> JNull)
     [(''max_jobs'', max_jobs c), (''max_tasks'', max_tasks c),
      (''max_walltime_sec'', max_walltime_sec c), (''max_core_hours'', max_core_hours c)]"

text \<open>The result, \<open>None\<close> on a raise, and the stored manifest after the call.\<close>

definition campaign_acknowledge_budget ::
  "((string \<times> jval) list \<Rightarrow> bool) \<Rightarrow> string \<Rightarrow> string \<Rightarrow> string \<Rightarrow> caps \<Rightarrow> (string \<times> jval) list option
   \<Rightarrow> (string \<times> string \<Rightarrow> sample list) \<Rightarrow> sidecar list \<Rightarrow> run_record list
   \<Rightarrow> (budget_report \<times> (string \<times> jval) list) option \<times> (string \<times> jval) list option" where
  "campaign_acknowledge_budget valid now campaign_id nt args stored read_samples sidecars runs =
     (let raised = given_caps args;
          written = (if raised = [] then Some stored
                     else map_option Some (raise_manifest_caps valid now campaign_id raised stored))
      in case written of
           None \<Rightarrow> (None, stored)
         | Some stored \<Rightarrow>
             (case campaign_budget no_caps (read_manifest_safe valid stored) read_samples sidecars runs of
                None \<Rightarrow> (None, stored)
              | Some b \<Rightarrow>
                  (Some (b, write_budget_ack now campaign_id (spent_doc (b_spent b)) raised nt), stored)))"

section \<open>What the spend is\<close>

text \<open>The join: the file of a profile and a cluster is searched for the runs submitted under that pair.\<close>

definition wanted_in :: "sidecar list \<Rightarrow> string \<times> string \<Rightarrow> string set" where
  "wanted_in sidecars pc =
     {sc_run sc | sc. sc \<in> set sidecars \<and> sc_run sc \<noteq> [] \<and> joinable sc \<and> (sc_profile sc, sc_cluster sc) = pc}"

lemma insert_not_Nil [simp]: "List.insert x xs \<noteq> []"
  by (auto simp: List.insert_def)

lemma add_run_lookup:
  "map_of (add_run key r g) k =
     (if k = key then Some (case map_of g key of None \<Rightarrow> [r] | Some rs \<Rightarrow> List.insert r rs) else map_of g k)"
  by (simp add: add_run_def update_conv')

lemma add_run_distinct: "distinct (map fst g) \<Longrightarrow> distinct (map fst (add_run key r g))"
  by (simp add: add_run_def distinct_update)

lemma runs_by_pc_snoc:
  "runs_by_pc (scs @ [sc]) =
     (if sc_run sc = [] \<or> \<not> joinable sc then runs_by_pc scs
      else add_run (sc_profile sc, sc_cluster sc) (sc_run sc) (runs_by_pc scs))"
  by (simp add: runs_by_pc_def)

lemma runs_by_pc_groups:
  "distinct (map fst (runs_by_pc scs))
   \<and> (\<forall>pc. case map_of (runs_by_pc scs) pc of None \<Rightarrow> wanted_in scs pc = {}
          | Some rs \<Rightarrow> set rs = wanted_in scs pc \<and> rs \<noteq> [])"
proof (induction scs rule: rev_induct)
  case Nil
  show ?case by (simp add: runs_by_pc_def wanted_in_def)
next
  case (snoc sc scs)
  have w: "wanted_in (scs @ [sc]) pc = wanted_in scs pc \<union>
      (if sc_run sc \<noteq> [] \<and> joinable sc \<and> (sc_profile sc, sc_cluster sc) = pc then {sc_run sc} else {})" for pc
    by (auto simp: wanted_in_def)
  show ?case
  proof (intro conjI allI)
    show "distinct (map fst (runs_by_pc (scs @ [sc])))"
      using snoc by (simp add: runs_by_pc_snoc add_run_distinct)
    fix pc
    show "case map_of (runs_by_pc (scs @ [sc])) pc of None \<Rightarrow> wanted_in (scs @ [sc]) pc = {}
          | Some rs \<Rightarrow> set rs = wanted_in (scs @ [sc]) pc \<and> rs \<noteq> []"
    proof (cases "sc_run sc = [] \<or> \<not> joinable sc")
      case True
      then show ?thesis using snoc [THEN conjunct2, rule_format, of pc]
        by (cases "map_of (runs_by_pc scs) pc") (auto simp: runs_by_pc_snoc w)
    next
      case False
      then show ?thesis using snoc [THEN conjunct2, rule_format, of pc]
        by (cases "map_of (runs_by_pc scs) pc") (auto simp: runs_by_pc_snoc w add_run_lookup)
    qed
  qed
qed

definition counted_samples :: "string set \<Rightarrow> sample list \<Rightarrow> sample list" where
  "counted_samples runs ss = filter (\<lambda>s. sm_run s \<in> runs \<and> elapsed_of s \<noteq> None) ss"

definition walltime_of :: "sample \<Rightarrow> int" where
  "walltime_of s = (case elapsed_of s of None \<Rightarrow> 0 | Some e \<Rightarrow> e)"

definition coreless :: "sample \<Rightarrow> bool" where
  "coreless s \<longleftrightarrow> cores_used_from_sample s (walltime_of s) = None"

lemma charge_counted:
  "sm_run s \<in> set wanted \<Longrightarrow> elapsed_of s \<noteq> None \<Longrightarrow>
     sp_walltime (charge wanted sp s) = sp_walltime sp + walltime_of s
   \<and> sp_tasks (charge wanted sp s) = sp_tasks sp + 1
   \<and> set (sp_runs (charge wanted sp s)) = insert (sm_run s) (set (sp_runs sp))
   \<and> sp_missing (charge wanted sp s) = sp_missing sp + (if coreless s then 1 else 0)"
  by (auto simp: charge_def Let_def walltime_of_def coreless_def split: option.split)

lemma charge_skipped: "\<not> (sm_run s \<in> set wanted \<and> elapsed_of s \<noteq> None) \<Longrightarrow> charge wanted sp s = sp"
  by (auto simp: charge_def)

lemma charge_file:
  "sp_walltime (foldl (charge wanted) sp ss) = sp_walltime sp + sum_list (map walltime_of (counted_samples (set wanted) ss))
   \<and> sp_tasks (foldl (charge wanted) sp ss) = sp_tasks sp + length (counted_samples (set wanted) ss)
   \<and> set (sp_runs (foldl (charge wanted) sp ss)) = set (sp_runs sp) \<union> sm_run ` set (counted_samples (set wanted) ss)
   \<and> sp_missing (foldl (charge wanted) sp ss) = sp_missing sp + length (filter coreless (counted_samples (set wanted) ss))"
proof (induction ss arbitrary: sp)
  case (Cons s ss)
  show ?case
  proof (cases "sm_run s \<in> set wanted \<and> elapsed_of s \<noteq> None")
    case True
    then have c: "counted_samples (set wanted) (s # ss) = s # counted_samples (set wanted) ss"
      by (simp add: counted_samples_def)
    show ?thesis using True Cons.IH [of "charge wanted sp s"] charge_counted [of s wanted sp]
      by (simp add: c ac_simps)
  next
    case False
    then have "counted_samples (set wanted) (s # ss) = counted_samples (set wanted) ss"
      by (auto simp: counted_samples_def)
    with False Cons.IH [of sp] charge_skipped [of s wanted sp] show ?thesis by simp
  qed
qed (simp add: counted_samples_def)

lemma charge_files:
  "sp_walltime (foldl (\<lambda>sp (pc, wanted). foldl (charge wanted) sp (f pc)) sp gs)
       = sp_walltime sp + sum_list (map (\<lambda>(pc, w). sum_list (map walltime_of (counted_samples (set w) (f pc)))) gs)
   \<and> sp_tasks (foldl (\<lambda>sp (pc, wanted). foldl (charge wanted) sp (f pc)) sp gs)
       = sp_tasks sp + sum_list (map (\<lambda>(pc, w). length (counted_samples (set w) (f pc))) gs)
   \<and> set (sp_runs (foldl (\<lambda>sp (pc, wanted). foldl (charge wanted) sp (f pc)) sp gs))
       = set (sp_runs sp) \<union> (\<Union>(pc, w)\<in>set gs. sm_run ` set (counted_samples (set w) (f pc)))
   \<and> sp_missing (foldl (\<lambda>sp (pc, wanted). foldl (charge wanted) sp (f pc)) sp gs)
       = sp_missing sp + sum_list (map (\<lambda>(pc, w). length (filter coreless (counted_samples (set w) (f pc)))) gs)"
proof (induction gs arbitrary: sp)
  case (Cons g gs)
  obtain pc w where g: "g = (pc, w)" by (cases g)
  show ?case
    using Cons.IH [of "foldl (charge w) sp (f pc)"] charge_file [of w sp "f pc"] by (auto simp: g)
qed simp

lemma sum_over_groups:
  assumes "distinct (map fst gs)" "\<forall>(pc, w)\<in>set gs. h pc w = H pc"
  shows "sum_list (map (\<lambda>(pc, w). h pc w) gs) = (\<Sum>pc\<in>fst ` set gs. H pc)"
  using assms by (induction gs) (auto intro!: sum.cong)

definition join_keys :: "sidecar list \<Rightarrow> (string \<times> string) set" where
  "join_keys scs = {pc. wanted_in scs pc \<noteq> {}}"

lemma groups_keys: "fst ` set (runs_by_pc scs) = join_keys scs"
proof -
  have "pc \<in> fst ` set (runs_by_pc scs) \<longleftrightarrow> wanted_in scs pc \<noteq> {}" for pc
    using runs_by_pc_groups [of scs, THEN conjunct2, rule_format, of pc]
    by (cases "map_of (runs_by_pc scs) pc")
       (auto simp: map_of_eq_None_iff dest!: map_of_SomeD intro: rev_image_eqI)
  then show ?thesis by (auto simp: join_keys_def)
qed

lemma group_wanted: "(pc, w) \<in> set (runs_by_pc scs) \<Longrightarrow> set w = wanted_in scs pc"
  using runs_by_pc_groups [of scs] by (metis (mono_tags, lifting) map_of_eq_Some_iff option.simps(5))

text \<open>The join. Consumed walltime is the sum, over the distinct pairs of profile and cluster that the
  sidecars name, of the elapsed times of the samples in that pair's file whose run was submitted under
  that pair: every such sample is charged once, however many sidecars repeat its run, and a sample of a
  foreign run, or without a positive elapsed time, is charged nowhere.\<close>

lemma consumed_walltime_joins_once:
  "c_walltime (consumed_compute_for_campaign read_samples scs)
     = (\<Sum>pc\<in>join_keys scs. sum_list (map walltime_of (counted_samples (wanted_in scs pc) (read_samples pc))))
   \<and> c_tasks (consumed_compute_for_campaign read_samples scs)
     = (\<Sum>pc\<in>join_keys scs. length (counted_samples (wanted_in scs pc) (read_samples pc)))"
  using charge_files [of read_samples no_spend "runs_by_pc scs"] runs_by_pc_groups [of scs] group_wanted [of _ _ scs]
  by (auto simp: consumed_compute_for_campaign_def Let_def total_spend_def no_spend_def groups_keys [symmetric]
      intro!: sum_over_groups)

text \<open>Honest coverage. If the report does not call its coverage partial, then every run of the
  campaign with an id has a profile, a cluster and at least one charged sample in the campaign's files,
  and every charged sample had a core estimate: nothing was silently counted as zero.\<close>

lemma full_coverage_counts_every_run:
  assumes "\<not> c_partial (consumed_compute_for_campaign read_samples scs)"
    and "sc \<in> set scs" and "sc_run sc \<noteq> []"
  shows "joinable sc
     \<and> (\<exists>pc\<in>join_keys scs. \<exists>s\<in>set (counted_samples (wanted_in scs pc) (read_samples pc)). sm_run s = sc_run sc)
     \<and> (\<forall>pc\<in>join_keys scs. \<forall>s\<in>set (counted_samples (wanted_in scs pc) (read_samples pc)). \<not> coreless s)"
proof -
  let ?sp = "total_spend read_samples scs"
  have p: "filter (\<lambda>r. r \<notin> set (sp_runs ?sp) \<and> r \<notin> set (runs_without_pc scs)) (all_run_ids scs) = []"
    "runs_without_pc scs = []" "sp_missing ?sp = 0"
    using assms(1) by (simp_all add: consumed_compute_for_campaign_def Let_def)
  have j: "joinable sc" using p(2) assms(2,3) by (auto simp: runs_without_pc_def filter_empty_conv)
  have "sc_run sc \<in> set (sp_runs ?sp)"
    using p(1,2) assms(2,3) by (auto simp: all_run_ids_def filter_empty_conv)
  then obtain pc w s where s: "(pc, w) \<in> set (runs_by_pc scs)" "s \<in> set (counted_samples (set w) (read_samples pc))"
    "sm_run s = sc_run sc"
    using charge_files [of read_samples no_spend "runs_by_pc scs"]
    by (auto simp: total_spend_def no_spend_def)
  have m: "sum_list (map (\<lambda>(pc, w). length (filter coreless (counted_samples (set w) (read_samples pc)))) (runs_by_pc scs)) = 0"
    using p(3) charge_files [of read_samples no_spend "runs_by_pc scs"] by (simp add: total_spend_def no_spend_def)
  have c: "\<not> coreless t" if "pc \<in> join_keys scs" "t \<in> set (counted_samples (wanted_in scs pc) (read_samples pc))" for pc t
  proof -
    have "pc \<in> fst ` set (runs_by_pc scs)" using that(1) by (simp add: groups_keys)
    then obtain w where w: "(pc, w) \<in> set (runs_by_pc scs)" by force
    then have "length (filter coreless (counted_samples (set w) (read_samples pc))) = 0" using m by auto
    then show ?thesis using that(2) group_wanted [OF w] by (auto simp: filter_empty_conv)
  qed
  have "pc \<in> join_keys scs" using s(1) by (force simp: groups_keys [symmetric])
  then show ?thesis using j s c group_wanted [OF s(1)] by (metis (no_types, lifting))
qed

definition demo_sidecar :: sidecar where
  "demo_sidecar = \<lparr>sc_run = ''r1'', sc_profile = ''p'', sc_cluster = ''c'', sc_tasks = 2\<rparr>"

definition demo_samples :: "string \<times> string \<Rightarrow> sample list" where
  "demo_samples pc = (if pc = (''p'', ''c'')
     then [\<lparr>sm_run = ''r1'', sm_elapsed = JInt 7200, sm_cpu = JInt 10000, sm_gpu = []\<rparr>] else [])"

lemma demo_consumed: "consumed_compute_for_campaign demo_samples [demo_sidecar] =
    \<lparr>c_walltime = 7200, c_core_hours = 4, c_gpu_hours = 0, c_tasks = 1, c_runs_total = 1, c_with_samples = 1,
     c_without_samples = [], c_without_pc = [], c_missing_core = 0, c_partial = False\<rparr>"
proof -
  have "\<lceil>10000 / 7200 :: rat\<rceil> = 2" by (rule ceiling_unique) simp_all
  moreover have "round4 (4 :: rat) = 4" using round4_int [of 4] by simp
  ultimately show ?thesis
    by (simp add: consumed_compute_for_campaign_def total_spend_def runs_by_pc_def add_run_def joinable_def
        demo_sidecar_def demo_samples_def charge_def elapsed_of_def or_zero_def cores_used_from_sample_def
        coerce_pos_int_def is_gpu_type_def no_spend_def all_run_ids_def runs_without_pc_def)
qed

lemma full_coverage_counts_every_run_witness:
  "joinable demo_sidecar \<and> (\<exists>pc\<in>join_keys [demo_sidecar].
     \<exists>s\<in>set (counted_samples (wanted_in [demo_sidecar] pc) (demo_samples pc)). sm_run s = sc_run demo_sidecar)"
  using full_coverage_counts_every_run [of demo_samples "[demo_sidecar]" demo_sidecar]
  by (simp add: demo_consumed) (simp add: demo_sidecar_def)

section \<open>What the governor decides\<close>

text \<open>A given cap, as the number the code compares with.\<close>

definition int_cap_met :: "jval \<Rightarrow> int \<Rightarrow> bool" where
  "int_cap_met cap spent_val \<longleftrightarrow> (\<exists>c. cap \<noteq> JNull \<and> jint cap = Some c \<and> c \<le> spent_val)"

definition float_cap_met :: "jval \<Rightarrow> rat \<Rightarrow> bool" where
  "float_cap_met cap spent_val \<longleftrightarrow> (\<exists>c. cap \<noteq> JNull \<and> jnumber cap = Some c \<and> c \<le> spent_val)"

lemma int_check_spec:
  "int_check cap v = Some (r, x) \<Longrightarrow> (x \<longleftrightarrow> int_cap_met cap v) \<and> (r = None \<longleftrightarrow> cap = JNull)
     \<and> (\<forall>n. r = Some n \<longrightarrow> 0 \<le> n \<and> (n = 0 \<longleftrightarrow> x))"
  by (auto simp: int_check_def int_cap_met_def split: if_splits option.splits)

lemma float_check_spec:
  "float_check cap v = Some (r, x) \<Longrightarrow> (x \<longleftrightarrow> float_cap_met cap v) \<and> (r = None \<longleftrightarrow> cap = JNull)
     \<and> (\<forall>n. r = Some n \<longrightarrow> 0 \<le> n \<and> (x \<longrightarrow> n = 0))"
proof -
  have "0 \<le> round4 (max 0 (c - v))" for c using round4_mono [of 0 "max 0 (c - v)"] by simp
  then show "float_check cap v = Some (r, x) \<Longrightarrow> (x \<longleftrightarrow> float_cap_met cap v) \<and> (r = None \<longleftrightarrow> cap = JNull)
     \<and> (\<forall>n. r = Some n \<longrightarrow> 0 \<le> n \<and> (x \<longrightarrow> n = 0))"
    by (cases "jnumber cap") (auto simp: float_check_def float_cap_met_def split: if_splits)
qed

text \<open>Exhaustion. The budget is exhausted exactly when one of the resolved caps is met by the realised
  spend, whatever the projection says: an untracked cap never exhausts it. An integer cap has nothing
  remaining exactly when it is met, no remaining amount is negative, and the reason is
  \<open>within_budget\<close> exactly when the budget is not exhausted.\<close>

lemma budget_exhausted_exactly_on_met_cap:
  assumes "campaign_budget args manifest read_samples scs runs = Some b"
  shows "(b_exhausted b \<longleftrightarrow> int_cap_met (max_jobs (b_caps b)) (spent_jobs (b_spent b))
        \<or> int_cap_met (max_tasks (b_caps b)) (spent_tasks (b_spent b))
        \<or> int_cap_met (max_walltime_sec (b_caps b)) (spent_walltime (b_spent b))
        \<or> float_cap_met (max_core_hours (b_caps b)) (spent_core_hours (b_spent b)))
     \<and> (b_exhausted b \<longleftrightarrow> b_reasons b \<noteq> [])
     \<and> (rem_jobs b = None \<longleftrightarrow> max_jobs (b_caps b) = JNull)
     \<and> (\<forall>n. rem_jobs b = Some n \<longrightarrow> 0 \<le> n \<and> (n = 0 \<longleftrightarrow> int_cap_met (max_jobs (b_caps b)) (spent_jobs (b_spent b))))
     \<and> (\<forall>h. rem_core_hours b = Some h \<longrightarrow> 0 \<le> h)"
proof -
  let ?cs = "resolve_caps args manifest" and ?sp = "spent_of (consumed_compute_for_campaign read_samples scs) scs"
  obtain rj xj rt xt rw xw rc xc where c: "int_check (max_jobs ?cs) (spent_jobs ?sp) = Some (rj, xj)"
    "int_check (max_tasks ?cs) (spent_tasks ?sp) = Some (rt, xt)"
    "int_check (max_walltime_sec ?cs) (spent_walltime ?sp) = Some (rw, xw)"
    "float_check (max_core_hours ?cs) (spent_core_hours ?sp) = Some (rc, xc)"
    using assms by (auto simp: campaign_budget_def Let_def split: option.splits)
  have b: "b_spent b = ?sp" "b_caps b = ?cs" "rem_jobs b = rj" "rem_core_hours b = rc"
    "b_exhausted b = (xj \<or> xt \<or> xw \<or> xc)"
    "b_reasons b = (if xj then [''max_jobs''] else []) @ (if xt then [''max_tasks''] else [])
       @ (if xw then [''max_walltime_sec''] else []) @ (if xc then [''max_core_hours''] else [])"
    using assms c by (auto simp: campaign_budget_def Let_def)
  show ?thesis unfolding b
    using int_check_spec [OF c(1)] int_check_spec [OF c(2)] int_check_spec [OF c(3)] float_check_spec [OF c(4)]
    by simp
qed

definition demo_caps :: caps where
  "demo_caps = no_caps\<lparr>max_jobs := JInt 1, max_core_hours := JFloat 5\<rparr>"

lemma demo_budget: "\<exists>b. campaign_budget demo_caps None demo_samples [demo_sidecar] [] = Some b \<and> b_exhausted b
    \<and> b_spent b = spent_of (consumed_compute_for_campaign demo_samples [demo_sidecar]) [demo_sidecar]"
  by (simp add: campaign_budget_def demo_consumed demo_caps_def no_caps_def resolve_caps_def or_manifest_def
      manifest_section_def spent_of_def int_check_def float_check_def)

lemma budget_exhausted_exactly_on_met_cap_witness:
  "\<exists>b. campaign_budget demo_caps None demo_samples [demo_sidecar] [] = Some b \<and> b_exhausted b \<and> b_reasons b \<noteq> []"
  using demo_budget budget_exhausted_exactly_on_met_cap [of demo_caps None demo_samples "[demo_sidecar]" "[]"] by blast

lemma covers_ints_metrics:
  "metric_int (spent_doc s) ''jobs'' = Some (spent_jobs s)"
  "metric_int (spent_doc s) ''tasks'' = Some (spent_tasks s)"
  "metric_int (spent_doc s) ''walltime_sec'' = Some (spent_walltime s)"
  "metric_float (spent_doc s) ''core_hours'' = Some (spent_core_hours s)"
  by (auto simp: metric_int_def metric_float_def spent_doc_def or_zero_def)

text \<open>The acknowledgement re-arms. The record that an acknowledgement writes covers a later spend
  exactly as long as no counter has grown past the snapshot, core-hours up to a tolerance of one
  millionth. In particular it covers the acknowledged spend itself, and one more job, task or second of
  walltime ends its cover.\<close>

lemma acknowledgement_covers_until_growth:
  "ack_covers_spend (write_budget_ack now cid (spent_doc s) raised nt) (spent_doc s')
     = Some (spent_jobs s' \<le> spent_jobs s \<and> spent_tasks s' \<le> spent_tasks s
         \<and> spent_walltime s' \<le> spent_walltime s \<and> spent_core_hours s' \<le> spent_core_hours s + 1 / 1000000)
   \<and> ack_covers_spend (write_budget_ack now cid (spent_doc s) raised nt) (spent_doc s) = Some True"
  by (auto simp: ack_covers_spend_def write_budget_ack_def covers_ints_metrics CORE_HOURS_TOL_def)

lemma map_of_setdefault: "map_of (setdefault k v d) k' =
    (if k' = k \<and> map_of d k = None then Some v else map_of d k')"
  by (auto simp: setdefault_def map_add_def split: option.split)

lemma map_of_raise:
  "distinct (map fst raised) \<Longrightarrow>
     map_of (foldl (\<lambda>b (k, v). AList.update k v b) b raised) k =
       (case map_of raised k of Some v \<Rightarrow> Some v | None \<Rightarrow> map_of b k)"
proof (induction raised arbitrary: b)
  case (Cons kv raised)
  obtain k' v where kv: "kv = (k', v)" by (cases kv)
  have "map_of raised k' = None" using Cons.prems by (simp add: kv map_of_eq_None_iff)
  then show ?case using Cons by (simp add: kv update_conv' split: option.split)
qed simp

lemma given_caps_distinct: "distinct (map fst (given_caps c))"
  by (simp add: given_caps_def)

text \<open>Raising caps. When the merged manifest passes the schema, raising caps writes exactly the given
  caps into the budget section and keeps every other cap there; every section other than the budget
  that the manifest had is kept as it was, and only the four identifying fields are filled in when
  they are missing.\<close>

lemma raising_caps_keeps_the_rest:
  assumes "valid (merge_caps now cid (given_caps c) (Some d))" and "dict_or_empty (jget d ''budget'') = b"
  shows "\<exists>d'. raise_manifest_caps valid now cid (given_caps c) (Some d) = Some d'
     \<and> (\<forall>k. jget (dict_or_empty (jget d' ''budget'')) k
            = (case map_of (given_caps c) k of Some v \<Rightarrow> v | None \<Rightarrow> jget b k))
     \<and> (\<forall>k. k \<noteq> ''budget'' \<and> map_of d k \<noteq> None \<longrightarrow> map_of d' k = map_of d k)
     \<and> (\<forall>k. k \<notin> {''budget'', ''manifest_schema_version'', ''campaign_id'', ''created_at'', ''goal''}
            \<longrightarrow> map_of d' k = map_of d k)"
  using assms
  by (auto simp: raise_manifest_caps_def Let_def merge_caps_def jget_def update_conv' map_of_setdefault
      dict_or_empty_def map_of_raise [OF given_caps_distinct] split: option.split)

lemma raising_caps_keeps_the_rest_witness:
  "\<exists>d'. raise_manifest_caps (\<lambda>_. True) ''t'' ''c'' (given_caps demo_caps)
        (Some [(''goal'', JText ''g''), (''budget'', JDict [(''max_tasks'', JInt 9)])]) = Some d'
     \<and> jget (dict_or_empty (jget d' ''budget'')) ''max_tasks'' = JInt 9
     \<and> jget (dict_or_empty (jget d' ''budget'')) ''max_jobs'' = JInt 1"
proof -
  obtain d' where d: "raise_manifest_caps (\<lambda>_. True) ''t'' ''c'' (given_caps demo_caps)
        (Some [(''goal'', JText ''g''), (''budget'', JDict [(''max_tasks'', JInt 9)])]) = Some d'"
    "\<forall>k. jget (dict_or_empty (jget d' ''budget'')) k
        = (case map_of (given_caps demo_caps) k of Some v \<Rightarrow> v | None \<Rightarrow> jget [(''max_tasks'', JInt 9)] k)"
    using raising_caps_keeps_the_rest [of "\<lambda>_. True" "''t''" "''c''" demo_caps
        "[(''goal'', JText ''g''), (''budget'', JDict [(''max_tasks'', JInt 9)])]" "[(''max_tasks'', JInt 9)]"]
    by (auto simp: dict_or_empty_def)
  then show ?thesis by (simp add: given_caps_def demo_caps_def no_caps_def)
qed

lemma py_int_mono_pos: "of_int n \<le> x \<Longrightarrow> 0 \<le> n \<Longrightarrow> n \<le> py_int x"
proof -
  assume a: "of_int n \<le> x" "0 \<le> n"
  then have "0 \<le> x" by (metis of_int_0_le_iff order_trans)
  with a show ?thesis by (simp add: py_int_def le_floor_iff)
qed

lemma walltime_nonneg: "0 \<le> walltime_of s"
  by (simp add: walltime_of_def elapsed_of_def split: option.split)

lemma spent_nonneg_walltime: "0 \<le> c_walltime (consumed_compute_for_campaign f scs)"
  using charge_files [of f no_spend "runs_by_pc scs"]
  by (auto simp: consumed_compute_for_campaign_def Let_def total_spend_def no_spend_def walltime_nonneg
      intro!: sum_list_nonneg)

text \<open>Projection. The projected walltime is never below the realised one, and the projection is the
  realised figure alone when no task is in flight or no sample has been counted; the number of runs it
  rests on is that of the runs in flight.\<close>

lemma projection_at_least_realised:
  assumes "campaign_budget args manifest read_samples scs runs = Some b"
  shows "spent_walltime (b_spent b) \<le> pr_walltime (b_projected b)
     \<and> pr_runs (b_projected b) = length (filter (\<lambda>r. run_status r = ''in_flight'') runs)
     \<and> ((\<forall>r\<in>set runs. run_status r \<noteq> ''in_flight'') \<longrightarrow> pr_walltime (b_projected b) = spent_walltime (b_spent b))"
proof -
  let ?c = "consumed_compute_for_campaign read_samples scs"
  have b: "b_spent b = spent_of ?c scs"
    "b_projected b = projected_spend runs ?c (spent_walltime (b_spent b)) (spent_core_hours (b_spent b))"
    using assms by (auto simp: campaign_budget_def Let_def split: option.splits)
  have nn: "0 \<le> c_walltime ?c" by (rule spent_nonneg_walltime)
  have "c_walltime ?c \<le> pr_walltime (projected_spend runs ?c (c_walltime ?c) h)" for h
    by (auto simp: projected_spend_def Let_def nn intro!: py_int_mono_pos)
  then show ?thesis
    unfolding b(2) by (auto simp: b(1) spent_of_def) (auto simp: projected_spend_def Let_def filter_False)
qed

lemma projection_at_least_realised_witness:
  "\<exists>b. campaign_budget demo_caps None demo_samples [demo_sidecar] [] = Some b
     \<and> spent_walltime (b_spent b) \<le> pr_walltime (b_projected b)"
  using demo_budget projection_at_least_realised [of demo_caps None demo_samples "[demo_sidecar]" "[]"] by blast

end
