(* ===== verification/CampaignConverged.thy ===== *)
theory CampaignConverged
  imports CampaignBudget
begin

text \<open>
  The stop criteria of a campaign (\<open>meta/campaign/atoms/converged.py\<close>): an iteration cap, a target on the
  best metric, and two plateau tests, over the reduced metrics of the finished iterations. Metrics are
  exact numbers; the reason is the branch that returned, with the numbers its text renders.
\<close>

section \<open>The criteria\<close>

definition best_of :: "rat list \<Rightarrow> string \<Rightarrow> rat option" where
  "best_of values direction =
     (if values = [] then None
      else Some (if direction = ''minimize'' then Min (set values) else Max (set values)))"

definition extract_metric :: "(string \<times> jval) list list \<Rightarrow> string \<Rightarrow> rat list" where
  "extract_metric history metric =
     List.map_filter (\<lambda>entry. if entry = [] then None else jnumber (jget entry metric)) history"

text \<open>The arguments, with \<open>JNull\<close> or \<open>None\<close> for the ones left out.\<close>

record stop_args =
  sa_max_iters :: jval
  sa_metric :: jval
  sa_target :: jval
  sa_direction :: "string option"
  sa_plateau_window :: jval
  sa_plateau_tolerance :: "rat option"
  sa_plateau_mode :: "string option"

text \<open>\<open>d.get(key) or fallback\<close> for a text.\<close>

definition text_or :: "jval \<Rightarrow> string \<Rightarrow> string" where
  "text_or v fallback = (case v of JText s \<Rightarrow> if s = [] then fallback else s | _ \<Rightarrow> fallback)"

definition opt_or :: "'a option \<Rightarrow> 'a \<Rightarrow> 'a" where
  "opt_or a b = (case a of None \<Rightarrow> b | Some x \<Rightarrow> x)"

datatype stop_reason =
    MaxItersReached nat
  | TargetMet rat
  | PlateauDisabled int
  | Plateau int rat
  | NoCriteria
  | CriteriaNotMet

record stop_report =
  converged :: bool
  stop_reason :: stop_reason
  stop_iterations :: nat
  best_metric :: "rat option"

text \<open>\<open>values[-2*w:-w]\<close>, \<open>values[:-w]\<close> and \<open>values[-w:]\<close> on a list that is long enough.\<close>

definition prior_slice :: "string \<Rightarrow> nat \<Rightarrow> rat list \<Rightarrow> rat list" where
  "prior_slice mode w values =
     (if mode = ''prior_window''
      then (if length values \<ge> 2 * w then take w (drop (length values - 2 * w) values) else [])
      else (if length values \<ge> w + 1 then take (length values - w) values else []))"

definition recent_slice :: "nat \<Rightarrow> rat list \<Rightarrow> rat list" where
  "recent_slice w values = drop (length values - w) values"

definition min_history :: "string \<Rightarrow> nat \<Rightarrow> nat" where
  "min_history mode w = (if mode = ''prior_window'' then 2 * w else w + 1)"

definition improvement :: "string \<Rightarrow> rat \<Rightarrow> rat \<Rightarrow> rat" where
  "improvement direction prior_best recent_best =
     (if direction = ''minimize'' then prior_best - recent_best else recent_best - prior_best)"

definition plateau_check :: "string \<Rightarrow> string \<Rightarrow> nat \<Rightarrow> rat \<Rightarrow> rat list \<Rightarrow> rat option" where
  "plateau_check mode direction w tolerance values =
     (if length values < min_history mode w then None
      else
        (case (best_of (prior_slice mode w values) direction, best_of (recent_slice w values) direction) of
           (Some p, Some r) \<Rightarrow>
             (if improvement direction p r \<le> tolerance then Some (improvement direction p r) else None)
         | _ \<Rightarrow> None))"

definition crosses :: "string \<Rightarrow> rat \<Rightarrow> rat \<Rightarrow> bool" where
  "crosses direction best tgt = (if direction = ''minimize'' then best \<le> tgt else best \<ge> tgt)"

text \<open>
  The resolved criteria. The code reads each number where it first needs it; here they are read up front,
  and \<open>None\<close> is for one that cannot be read, which neither the typed arguments nor a manifest that
  passed its schema can contain.
\<close>

record criteria =
  cr_max_iters :: "int option"
  cr_metric :: jval
  cr_target :: "rat option"
  cr_direction :: string
  cr_window :: "int option"
  cr_tolerance :: rat
  cr_mode :: string

definition read_opt :: "(jval \<Rightarrow> 'a option) \<Rightarrow> jval \<Rightarrow> 'a option option" where
  "read_opt f v = (if v = JNull then Some None else map_option Some (f v))"

definition resolve_criteria :: "stop_args \<Rightarrow> (string \<times> jval) list option \<Rightarrow> criteria option" where
  "resolve_criteria args manifest =
     (let s = manifest_section manifest ''stop_criteria''
      in case (read_opt jint (or_manifest (sa_max_iters args) s ''max_iters''),
               read_opt jnumber (or_manifest (sa_target args) s ''target''),
               read_opt jint (or_manifest (sa_plateau_window args) s ''plateau_window''),
               (case sa_plateau_tolerance args of Some t \<Rightarrow> Some t
                | None \<Rightarrow> jnumber (or_zero (jget s ''plateau_tolerance'')))) of
           (Some it, Some tg, Some w, Some tol) \<Rightarrow>
             Some \<lparr>cr_max_iters = it, cr_metric = or_manifest (sa_metric args) s ''metric'', cr_target = tg,
               cr_direction = opt_or (sa_direction args) (text_or (jget s ''direction'') ''minimize''),
               cr_window = w, cr_tolerance = tol,
               cr_mode = opt_or (sa_plateau_mode args) (text_or (jget s ''plateau_mode'') ''all_time_best'')\<rparr>
         | _ \<Rightarrow> None)"

definition metric_values :: "jval \<Rightarrow> (string \<times> jval) list list \<Rightarrow> rat list" where
  "metric_values m history = (case m of JText name \<Rightarrow> if name = [] then [] else extract_metric history name | _ \<Rightarrow> [])"

definition metric_given :: "jval \<Rightarrow> bool" where
  "metric_given m \<longleftrightarrow> truthy m"

definition report :: "bool \<Rightarrow> stop_reason \<Rightarrow> nat \<Rightarrow> rat option \<Rightarrow> stop_report" where
  "report c r n b = \<lparr>converged = c, stop_reason = r, stop_iterations = n, best_metric = b\<rparr>"

definition apply_criteria :: "criteria \<Rightarrow> (string \<times> jval) list list \<Rightarrow> stop_report" where
  "apply_criteria cr history =
     (let n = length (filter (\<lambda>entry. entry \<noteq> []) history) in
      if cr_max_iters cr \<noteq> None \<and> int n \<ge> the (cr_max_iters cr) then report True (MaxItersReached n) n None
      else
        (let vals = metric_values (cr_metric cr) history;
             best = best_of vals (cr_direction cr);
             final = report False (if cr_max_iters cr = None \<and> cr_metric cr = JNull then NoCriteria else CriteriaNotMet) n best
         in if metric_given (cr_metric cr) \<and> cr_target cr \<noteq> None \<and> best \<noteq> None
               \<and> crosses (cr_direction cr) (the best) (the (cr_target cr))
            then report True (TargetMet (the best)) n best
            else
              (case (if metric_given (cr_metric cr) then cr_window cr else None) of
                 None \<Rightarrow> final
               | Some w \<Rightarrow>
                   (if w \<le> 0 then report False (PlateauDisabled w) n best
                    else
                      (case plateau_check (cr_mode cr) (cr_direction cr) (nat w) (cr_tolerance cr) vals of
                         Some improved \<Rightarrow> report True (Plateau w improved) n best
                       | None \<Rightarrow> final)))))"

definition campaign_converged ::
  "stop_args \<Rightarrow> (string \<times> jval) list option \<Rightarrow> (string \<times> jval) list list \<Rightarrow> stop_report option" where
  "campaign_converged args manifest history =
     map_option (\<lambda>cr. apply_criteria cr history) (resolve_criteria args manifest)"

section \<open>When they fire\<close>

definition finished :: "(string \<times> jval) list list \<Rightarrow> nat" where
  "finished history = length (filter (\<lambda>entry. entry \<noteq> []) history)"

definition better_or_equal :: "string \<Rightarrow> rat \<Rightarrow> rat \<Rightarrow> bool" where
  "better_or_equal dir a b = (if dir = ''minimize'' then a \<le> b else a \<ge> b)"

lemma best_of_Some:
  "best_of vs dir = Some b \<longleftrightarrow> b \<in> set vs \<and> (\<forall>v\<in>set vs. better_or_equal dir b v)"
proof (cases "vs = []")
  case False
  then have "set vs \<noteq> {}" "finite (set vs)" by simp_all
  then show ?thesis
    by (auto simp: best_of_def better_or_equal_def Min_in Max_in intro: Min_eqI Max_eqI)
qed (simp add: best_of_def)

lemma best_of_None [simp]: "best_of vs dir = None \<longleftrightarrow> vs = []"
  by (simp add: best_of_def)

lemma crosses_iff: "crosses dir b t \<longleftrightarrow> better_or_equal dir b t"
  by (simp add: crosses_def better_or_equal_def)

lemma best_reaches:
  "(\<exists>b. best_of vs dir = Some b \<and> crosses dir b t) \<longleftrightarrow> (\<exists>v\<in>set vs. better_or_equal dir v t)"
proof
  assume "\<exists>v\<in>set vs. better_or_equal dir v t"
  then obtain v where v: "v \<in> set vs" "better_or_equal dir v t" by blast
  then obtain b where "best_of vs dir = Some b" by (metis best_of_None empty_iff list.set(1) option.exhaust)
  with v show "\<exists>b. best_of vs dir = Some b \<and> crosses dir b t"
    using best_of_Some [of vs dir b] by (auto simp: crosses_iff better_or_equal_def split: if_splits)
qed (auto simp: best_of_Some crosses_iff)

text \<open>The plateau test, without the slices: no recent value beats the best prior one by more than the
  tolerance.\<close>

definition stalled :: "string \<Rightarrow> rat \<Rightarrow> rat list \<Rightarrow> rat list \<Rightarrow> bool" where
  "stalled dir tol prior recent \<longleftrightarrow>
     (\<forall>r\<in>set recent. \<exists>p\<in>set prior. better_or_equal dir p (if dir = ''minimize'' then r + tol else r - tol))"

lemma stalled_iff:
  assumes "best_of prior dir = Some p" "best_of recent dir = Some r"
  shows "improvement dir p r \<le> tol \<longleftrightarrow> stalled dir tol prior recent"
proof -
  have p: "p \<in> set prior" "\<And>v. v \<in> set prior \<Longrightarrow> better_or_equal dir p v"
    and r: "r \<in> set recent" "\<And>v. v \<in> set recent \<Longrightarrow> better_or_equal dir r v"
    using assms by (auto simp: best_of_Some)
  show ?thesis
  proof
    assume i: "improvement dir p r \<le> tol"
    show "stalled dir tol prior recent"
      unfolding stalled_def
    proof (intro ballI bexI [of _ p])
      fix v
      assume "v \<in> set recent"
      then show "better_or_equal dir p (if dir = ''minimize'' then v + tol else v - tol)"
        using r(2) [of v] i by (auto simp: improvement_def better_or_equal_def split: if_splits)
    qed (rule p(1))
  next
    assume "stalled dir tol prior recent"
    then obtain q where q: "q \<in> set prior" "better_or_equal dir q (if dir = ''minimize'' then r + tol else r - tol)"
      using r(1) by (auto simp: stalled_def)
    with p(2) [OF q(1)] show "improvement dir p r \<le> tol"
      by (auto simp: improvement_def better_or_equal_def split: if_splits)
  qed
qed

lemma plateau_check_iff:
  assumes "0 < w"
  shows "plateau_check mode dir w tol vs \<noteq> None \<longleftrightarrow>
     min_history mode w \<le> length vs \<and> stalled dir tol (prior_slice mode w vs) (recent_slice w vs)"
proof (cases "min_history mode w \<le> length vs")
  case True
  then have ne: "prior_slice mode w vs \<noteq> []" "recent_slice w vs \<noteq> []"
    using assms by (auto simp: prior_slice_def recent_slice_def min_history_def split: if_splits)
  then obtain p r where "best_of (prior_slice mode w vs) dir = Some p" "best_of (recent_slice w vs) dir = Some r"
    by (metis best_of_None option.exhaust)
  with True stalled_iff [OF this, of tol] show ?thesis by (simp add: plateau_check_def)
qed (simp add: plateau_check_def)

lemma apply_criteria_converged:
  assumes "vs = metric_values (cr_metric cr) history"
  shows "converged (apply_criteria cr history) \<longleftrightarrow>
       (\<exists>n. cr_max_iters cr = Some n \<and> n \<le> int (finished history))
     \<or> (\<exists>t. cr_target cr = Some t \<and> metric_given (cr_metric cr)
            \<and> (\<exists>v\<in>set vs. better_or_equal (cr_direction cr) v t))
     \<or> (\<exists>w. cr_window cr = Some w \<and> 0 < w \<and> metric_given (cr_metric cr)
            \<and> min_history (cr_mode cr) (nat w) \<le> length vs
            \<and> stalled (cr_direction cr) (cr_tolerance cr)
                (prior_slice (cr_mode cr) (nat w) vs) (recent_slice (nat w) vs))"
proof -
  have tgt: "(cr_target cr \<noteq> None \<and> best_of vs (cr_direction cr) \<noteq> None
        \<and> crosses (cr_direction cr) (the (best_of vs (cr_direction cr))) (the (cr_target cr)))
     \<longleftrightarrow> (\<exists>t. cr_target cr = Some t \<and> (\<exists>v\<in>set vs. better_or_equal (cr_direction cr) v t))"
    using best_reaches [of vs "cr_direction cr"] by (cases "best_of vs (cr_direction cr)") auto
  let ?it = "cr_max_iters cr \<noteq> None \<and> int (finished history) \<ge> the (cr_max_iters cr)"
  let ?met = "metric_given (cr_metric cr) \<and> cr_target cr \<noteq> None \<and> best_of vs (cr_direction cr) \<noteq> None
        \<and> crosses (cr_direction cr) (the (best_of vs (cr_direction cr))) (the (cr_target cr))"
  let ?pl = "\<lambda>w. plateau_check (cr_mode cr) (cr_direction cr) (nat w) (cr_tolerance cr) vs"
  have "converged (apply_criteria cr history) \<longleftrightarrow> ?it \<or> ?met
      \<or> (\<exists>w. cr_window cr = Some w \<and> 0 < w \<and> metric_given (cr_metric cr) \<and> ?pl w \<noteq> None)"
    unfolding apply_criteria_def Let_def assms [symmetric] finished_def
    by (simp add: report_def split: option.split del: best_of_None)
  moreover have "?it \<longleftrightarrow> (\<exists>n. cr_max_iters cr = Some n \<and> n \<le> int (finished history))"
    by (cases "cr_max_iters cr") simp_all
  moreover have "?met \<longleftrightarrow> (\<exists>t. cr_target cr = Some t \<and> metric_given (cr_metric cr)
      \<and> (\<exists>v\<in>set vs. better_or_equal (cr_direction cr) v t))"
    using tgt by blast
  moreover have "(0 < w \<and> ?pl w \<noteq> None) = (0 < w \<and> min_history (cr_mode cr) (nat w) \<le> length vs
      \<and> stalled (cr_direction cr) (cr_tolerance cr) (prior_slice (cr_mode cr) (nat w) vs) (recent_slice (nat w) vs))" for w
    using plateau_check_iff [of "nat w"] by (cases "0 < w") auto
  ultimately show ?thesis by metis
qed

text \<open>Stop criteria. With the criteria resolved, the campaign is reported converged exactly when the
  iteration cap is reached, or some finished iteration's metric meets the target, or, with a positive
  window and enough history, no value of the last window beats the best of the baseline by more than the
  tolerance; the baseline is everything before the window, or the window before it in prior-window mode.\<close>

lemma converged_exactly_when:
  assumes "campaign_converged args manifest history = Some r" and "resolve_criteria args manifest = Some cr"
    and "vs = metric_values (cr_metric cr) history"
  shows "converged r \<longleftrightarrow>
       (\<exists>n. cr_max_iters cr = Some n \<and> n \<le> int (finished history))
     \<or> (\<exists>t. cr_target cr = Some t \<and> metric_given (cr_metric cr)
            \<and> (\<exists>v\<in>set vs. better_or_equal (cr_direction cr) v t))
     \<or> (\<exists>w. cr_window cr = Some w \<and> 0 < w \<and> metric_given (cr_metric cr)
            \<and> min_history (cr_mode cr) (nat w) \<le> length vs
            \<and> stalled (cr_direction cr) (cr_tolerance cr)
                (prior_slice (cr_mode cr) (nat w) vs) (recent_slice (nat w) vs))"
  using assms(1,2) apply_criteria_converged [OF assms(3)] by (auto simp: campaign_converged_def)

definition demo_stop_args :: stop_args where
  "demo_stop_args = \<lparr>sa_max_iters = JNull, sa_metric = JText ''loss'', sa_target = JNull, sa_direction = None,
     sa_plateau_window = JInt 2, sa_plateau_tolerance = None, sa_plateau_mode = None\<rparr>"

definition demo_history :: "(string \<times> jval) list list" where
  "demo_history = [[(''loss'', JFloat 3)], [], [(''loss'', JFloat 1)], [(''loss'', JInt 2)], [(''loss'', JInt 1)]]"

definition demo_criteria :: criteria where
  "demo_criteria = \<lparr>cr_max_iters = None, cr_metric = JText ''loss'', cr_target = None, cr_direction = ''minimize'',
     cr_window = Some 2, cr_tolerance = 0, cr_mode = ''all_time_best''\<rparr>"

lemma demo_resolved: "resolve_criteria demo_stop_args None = Some demo_criteria"
  by (simp add: resolve_criteria_def demo_stop_args_def demo_criteria_def read_opt_def or_manifest_def
      manifest_section_def or_zero_def text_or_def opt_or_def)

lemma converged_exactly_when_witness:
  "\<exists>r. campaign_converged demo_stop_args None demo_history = Some r \<and> converged r"
proof -
  have vs: "metric_values (cr_metric demo_criteria) demo_history = [3, 1, 2, 1]"
    by (simp add: metric_values_def demo_criteria_def extract_metric_def demo_history_def List.map_filter_simps)
  have r: "campaign_converged demo_stop_args None demo_history = Some (apply_criteria demo_criteria demo_history)"
    by (simp add: campaign_converged_def demo_resolved)
  have "stalled ''minimize'' 0 (prior_slice ''all_time_best'' 2 [3, 1, 2, 1]) (recent_slice 2 [3, 1, 2, 1])"
    by (simp add: stalled_def prior_slice_def recent_slice_def better_or_equal_def)
  then have "converged (apply_criteria demo_criteria demo_history)"
    unfolding converged_exactly_when [OF r demo_resolved refl] vs
    by (simp add: demo_criteria_def metric_given_def min_history_def)
  with r show ?thesis by blast
qed

text \<open>A stop stays a stop. An iteration cap that is reached, and a target that is met, stay so when
  further iterations finish: appending to the history never turns such a report back.\<close>

lemma cap_and_target_stops_are_stable:
  assumes "campaign_converged args manifest history = Some r" and "converged r"
    and "\<forall>w d. stop_reason r \<noteq> Plateau w d"
  shows "\<exists>r'. campaign_converged args manifest (history @ later) = Some r' \<and> converged r'"
proof -
  obtain cr where cr: "resolve_criteria args manifest = Some cr" and r: "r = apply_criteria cr history"
    using assms(1) by (auto simp: campaign_converged_def)
  let ?vs = "metric_values (cr_metric cr) history"
  have ext: "set ?vs \<subseteq> set (metric_values (cr_metric cr) (history @ later))"
    by (auto simp: metric_values_def extract_metric_def map_filter_def split: jval.split)
  have "(\<exists>n. cr_max_iters cr = Some n \<and> n \<le> int (finished history))
     \<or> (\<exists>t. cr_target cr = Some t \<and> metric_given (cr_metric cr)
            \<and> (\<exists>v\<in>set ?vs. better_or_equal (cr_direction cr) v t))"
    using assms(2,3) best_reaches [of ?vs "cr_direction cr"]
    by (auto simp: r apply_criteria_def Let_def report_def finished_def split: if_splits option.splits)
  moreover have "int (finished history) \<le> int (finished (history @ later))" by (simp add: finished_def)
  ultimately have "converged (apply_criteria cr (history @ later))"
    unfolding apply_criteria_converged [OF refl] using ext by (meson order_trans subset_iff)
  then show ?thesis by (simp add: campaign_converged_def cr)
qed

end
