(* ===== verification/Decision.thy ===== *)
theory Decision
  imports JsonValues
begin

text \<open>
  The decision kernel (\<open>_kernel/decision/kernel.py\<close>): an ordered list of rules over an evidence value,
  resolved by the first rule that fires, with a default branch or an escalation behind them. The type
  \<open>'r\<close> of rationales stands for the texts; a caller that renders a text keeps the values it renders.
\<close>

section \<open>The kernel\<close>

record 'r candidate_action =
  action :: string
  params :: "(string \<times> jval) list"
  rationale :: 'r
  source :: "string option"

text \<open>The part of the escalation block the kernel and its callers read.\<close>

record 'r escalation =
  esc_reason :: 'r
  candidate_actions :: "'r candidate_action list"

datatype decided_by = Code | Judgement

record 'r decision =
  point :: string
  verdict_by :: decided_by
  chosen :: "'r candidate_action option"
  escalated :: "'r escalation option"
  reason :: 'r

definition resolved :: "'r decision \<Rightarrow> bool" where
  "resolved d = (verdict_by d = Code)"

datatype kernel_error = NoFallback string

text \<open>The \<open>for rule in rules\<close> loop: the first hit.\<close>

fun first_hit :: "('e \<Rightarrow> 'r candidate_action option) list \<Rightarrow> 'e \<Rightarrow> 'r candidate_action option" where
  "first_hit [] e = None"
| "first_hit (rule # rules) e = (case rule e of None \<Rightarrow> first_hit rules e | Some hit \<Rightarrow> Some hit)"

definition reason_of :: "('r candidate_action \<Rightarrow> 'r) option \<Rightarrow> 'r candidate_action \<Rightarrow> 'r" where
  "reason_of reason_for hit = (case reason_for of None \<Rightarrow> rationale hit | Some f \<Rightarrow> f hit)"

definition decide ::
  "string \<Rightarrow> 'e \<Rightarrow> ('e \<Rightarrow> 'r candidate_action option) list \<Rightarrow> ('e \<Rightarrow> 'r escalation) option
   \<Rightarrow> 'r candidate_action option \<Rightarrow> ('r candidate_action \<Rightarrow> 'r) option \<Rightarrow> kernel_error + 'r decision" where
  "decide pt evidence rules on_abstain dflt reason_for =
     (case first_hit rules evidence of
        Some hit \<Rightarrow>
          Inr \<lparr>point = pt, verdict_by = Code, chosen = Some hit, escalated = None, reason = reason_of reason_for hit\<rparr>
      | None \<Rightarrow>
          (case dflt of
             Some d \<Rightarrow>
               Inr \<lparr>point = pt, verdict_by = Code, chosen = Some d, escalated = None, reason = reason_of reason_for d\<rparr>
           | None \<Rightarrow>
               (case on_abstain of
                  Some f \<Rightarrow>
                    (let escalation = f evidence
                     in Inr \<lparr>point = pt, verdict_by = Judgement, chosen = None, escalated = Some escalation,
                              reason = esc_reason escalation\<rparr>)
                | None \<Rightarrow> Inl (NoFallback pt))))"

text \<open>\<open>tally\<close>: the counters for \<open>code\<close> and \<open>judgement\<close>, over anything that carries a verdict.\<close>

definition tally :: "decided_by list \<Rightarrow> (decided_by \<Rightarrow> nat)" where
  "tally decisions = foldl (\<lambda>counts d. counts(d := counts d + 1)) (\<lambda>_. 0) decisions"

section \<open>First match\<close>

lemma first_hit_None: "first_hit rules e = None \<longleftrightarrow> (\<forall>rule\<in>set rules. rule e = None)"
  by (induction rules) (auto split: option.split)

lemma first_hit_Some:
  "first_hit rules e = Some c \<longleftrightarrow>
     (\<exists>i<length rules. (rules ! i) e = Some c \<and> (\<forall>j<i. (rules ! j) e = None))"
proof (induction rules)
  case (Cons rule rules)
  then show ?case by (cases "rule e") (simp_all add: Ex_less_Suc2 All_less_Suc2)
qed simp

lemma first_hit_append:
  "first_hit (xs @ ys) e = (case first_hit xs e of None \<Rightarrow> first_hit ys e | Some c \<Rightarrow> Some c)"
  by (induction xs) (auto split: option.split)

lemma foldl_tally: "foldl (\<lambda>counts d. counts(d := counts d + 1)) c ds b = c b + length (filter ((=) b) ds)"
  by (induction ds arbitrary: c) auto

lemma length_by_verdict: "length (filter ((=) Code) ds) + length (filter ((=) Judgement) ds) = length ds"
  by (induction ds) (auto, metis decided_by.exhaust)

text \<open>
  What the kernel's clients rely on: a point is configured with a fallback, and each of its rules only
  ever emits its own actions. Inside, what such a ladder decides.
\<close>

locale decision_point =
  fixes rules :: "('e \<Rightarrow> 'r candidate_action option) list"
    and on_abstain :: "('e \<Rightarrow> 'r escalation) option"
    and dflt :: "'r candidate_action option"
    and acts :: "nat \<Rightarrow> string set"
  assumes fallback: "dflt \<noteq> None \<or> on_abstain \<noteq> None"
    and emits: "i < length rules \<Longrightarrow> (rules ! i) e = Some c \<Longrightarrow> action c \<in> acts i"
begin

lemma decides: "\<exists>d. decide pt e rules on_abstain dflt rf = Inr d"
  using fallback by (auto simp: decide_def Let_def split: option.split)

lemma exclusive:
  assumes "decide pt e rules on_abstain dflt rf = Inr d"
  shows "verdict_by d = Code \<longleftrightarrow> chosen d \<noteq> None" "verdict_by d = Judgement \<longleftrightarrow> escalated d \<noteq> None"
  using assms by (auto simp: decide_def Let_def split: option.splits)

lemma escalates_iff:
  assumes "decide pt e rules on_abstain dflt rf = Inr d" "dflt = None"
  shows "verdict_by d = Judgement \<longleftrightarrow> (\<forall>rule\<in>set rules. rule e = None)"
  using assms by (auto simp: decide_def Let_def first_hit_None [symmetric] split: option.splits)

lemma rule_wins:
  assumes "decide pt e rules on_abstain dflt rf = Inr d" "i < length rules" "(rules ! i) e = Some c"
    and "\<forall>j<i. (rules ! j) e = None"
  shows "chosen d = Some c" "verdict_by d = Code" "action c \<in> acts i"
proof -
  have "first_hit rules e = Some c" using assms(2-4) unfolding first_hit_Some by blast
  then show "chosen d = Some c" "verdict_by d = Code" using assms(1) by (auto simp: decide_def)
  show "action c \<in> acts i" by (rule emits [OF assms(2,3)])
qed

lemma chosen_action:
  assumes "decide pt e rules on_abstain dflt rf = Inr d" "chosen d = Some c"
  shows "(\<exists>i<length rules. action c \<in> acts i \<and> (rules ! i) e = Some c \<and> (\<forall>j<i. (rules ! j) e = None))
     \<or> (dflt = Some c \<and> (\<forall>rule\<in>set rules. rule e = None))"
proof (cases "first_hit rules e")
  case None
  then show ?thesis using assms first_hit_None [of rules e]
    by (auto simp: decide_def Let_def split: option.splits)
next
  case (Some c')
  then have "c' = c" using assms by (auto simp: decide_def)
  then show ?thesis using Some emits unfolding first_hit_Some by blast
qed

end

text \<open>Decision kernel. A decision point fails exactly when it has neither a default nor an
  escalation and every rule abstains. Otherwise the decision is by code, with a chosen action and no
  escalation, or by judgement, with an escalation and no chosen action; it is by judgement exactly when
  every rule abstains and there is no default; and when it is by code, the chosen action is that of the
  first rule that fires, or the default if none does.\<close>

lemma decide_first_match:
  "case decide pt e rules on_abstain dflt rf of
     Inl err \<Rightarrow> err = NoFallback pt \<and> dflt = None \<and> on_abstain = None \<and> (\<forall>rule\<in>set rules. rule e = None)
   | Inr d \<Rightarrow> point d = pt
       \<and> (verdict_by d = Judgement \<longleftrightarrow> dflt = None \<and> (\<forall>rule\<in>set rules. rule e = None))
       \<and> (chosen d = None \<longleftrightarrow> verdict_by d = Judgement) \<and> (escalated d = None \<longleftrightarrow> verdict_by d = Code)
       \<and> (case chosen d of None \<Rightarrow> True
          | Some c \<Rightarrow> reason d = reason_of rf c
              \<and> (if \<forall>rule\<in>set rules. rule e = None then dflt = Some c
                 else (\<exists>i<length rules. (rules ! i) e = Some c \<and> (\<forall>j<i. (rules ! j) e = None))))"
proof (cases "first_hit rules e")
  case None
  then have "\<forall>rule\<in>set rules. rule e = None" by (simp add: first_hit_None)
  with None show ?thesis by (auto simp: decide_def Let_def split: option.split)
next
  case (Some c)
  then have "\<not> (\<forall>rule\<in>set rules. rule e = None)" using first_hit_None [of rules e] by simp
  with Some show ?thesis unfolding first_hit_Some by (auto simp: decide_def first_hit_Some [symmetric] Some)
qed

definition demo_hit :: "int \<Rightarrow> string candidate_action option" where
  "demo_hit n = (if n > 5 then Some \<lparr>action = ''big'', params = [], rationale = ''r'', source = None\<rparr> else None)"

lemma decide_first_match_witness:
  "\<exists>d. decide ''p'' 7 [demo_hit] None None None = Inr d \<and> verdict_by d = Code \<and> chosen d = demo_hit 7"
proof -
  obtain d where d: "decide ''p'' 7 [demo_hit] None None None = Inr d" by (auto simp: decide_def demo_hit_def)
  have "demo_hit 7 \<noteq> None" by (simp add: demo_hit_def)
  then show ?thesis
    using decide_first_match [where pt = "''p''" and e = 7 and rules = "[demo_hit]" and on_abstain = None and dflt = None and rf = None] d
    by (cases "verdict_by d") (auto split: option.splits)
qed

text \<open>Tally. The promotion signal counts every verdict once: its two counters are the numbers of
  code and judgement verdicts, and they add up to the number of decisions.\<close>

lemma tally_counts:
  "tally ds b = length (filter ((=) b) ds) \<and> tally ds Code + tally ds Judgement = length ds"
  using length_by_verdict [of ds] foldl_tally [where ds = ds and c = "\<lambda>_. 0"] by (simp add: tally_def)

end
