(* ===== verification/CampaignAdvance.thy ===== *)
theory CampaignAdvance
  imports CampaignConverged Decision
begin

text \<open>
  The two campaign decision points over the kernel: how many iterations in flight
  (\<open>meta/campaign/atoms/decide_concurrency.py\<close>) and the next action of the loop (\<open>advance.py\<close>). A rationale
  is the branch with the values its text renders.
\<close>

section \<open>Rationales\<close>

datatype trip_kind = IterationFailure | NeverDispatched

datatype campaign_reason =
    NotAsync
  | NoHeadroom "int option" int
  | ChooseUpTo int
  | SafeDefault
  | OverBudget "string list" bool
  | StillInFlight nat
  | Tripped trip_kind nat jval "string list"
  | CapReached "string option" int int
  | CriterionFired stop_reason
  | Refilling int nat int "int option" int
  | PoolFull int nat int "int option"
  | Draining nat
  | KeepGoing nat

type_synonym campaign_action = "campaign_reason candidate_action"

definition plain_action :: "string \<Rightarrow> campaign_reason \<Rightarrow> campaign_action" where
  "plain_action act r = \<lparr>action = act, params = [], rationale = r, source = None\<rparr>"

section \<open>Concurrency\<close>

definition DEFAULT_MAX_IN_FLIGHT :: int where "DEFAULT_MAX_IN_FLIGHT = 4"

record concurrency_evidence =
  supports_async :: bool
  remaining_jobs :: "int option"
  now_in_flight :: int
  k_cap :: int

definition conc_headroom :: "concurrency_evidence \<Rightarrow> int option" where
  "conc_headroom e = map_option (max 0) (remaining_jobs e)"

definition safe_bound :: "concurrency_evidence \<Rightarrow> int" where
  "safe_bound e = (case conc_headroom e of None \<Rightarrow> k_cap e | Some h \<Rightarrow> max 1 (min (k_cap e) h))"

definition policy_action :: "string \<Rightarrow> campaign_reason \<Rightarrow> campaign_action" where
  "policy_action act r = (plain_action act r)\<lparr>source := Some ''policy''\<rparr>"

definition not_async :: "concurrency_evidence \<Rightarrow> campaign_action option" where
  "not_async e = (if \<not> supports_async e then Some (policy_action ''sequential'' NotAsync) else None)"

definition no_headroom :: "concurrency_evidence \<Rightarrow> campaign_action option" where
  "no_headroom e = (case conc_headroom e of None \<Rightarrow> None
     | Some h \<Rightarrow> if h \<le> 0 then Some (policy_action ''sequential'' (NoHeadroom (remaining_jobs e) (now_in_flight e))) else None)"

definition escalate_concurrency :: "concurrency_evidence \<Rightarrow> campaign_reason escalation" where
  "escalate_concurrency e =
     \<lparr>esc_reason = ChooseUpTo (safe_bound e),
      candidate_actions = [policy_action ''sequential'' SafeDefault,
        (policy_action ''parallel'' (ChooseUpTo (safe_bound e)))\<lparr>params := [(''max_in_flight'', JInt (safe_bound e))]\<rparr>]\<rparr>"

record concurrency_report =
  conc_by :: decided_by
  conc_decision :: "string option"
  conc_max_in_flight :: int
  conc_reason :: campaign_reason
  conc_candidates :: "string list"

definition decide_concurrency :: "concurrency_evidence \<Rightarrow> kernel_error + concurrency_report" where
  "decide_concurrency e =
     (case decide ''concurrency'' e [not_async, no_headroom] (Some escalate_concurrency) None None of
        Inl err \<Rightarrow> Inl err
      | Inr d \<Rightarrow>
          Inr \<lparr>conc_by = verdict_by d, conc_decision = map_option action (chosen d),
               conc_max_in_flight = (if verdict_by d = Code then 1 else safe_bound e),
               conc_reason = reason d,
               conc_candidates = (case escalated d of None \<Rightarrow> [] | Some x \<Rightarrow> map action (candidate_actions x))\<rparr>)"

section \<open>The next action\<close>

text \<open>What the ladder reads; the thresholds ride with their reports, the pool target is the closure's.\<close>

record evidence =
  ev_status :: campaign_status
  ev_budget :: budget_report
  ev_converged :: stop_report
  ev_breaker :: breaker_report
  ev_breaker_threshold :: jval
  ev_resubmit :: resubmit_report
  ev_resubmit_threshold :: "int option"
  ev_ack :: "(string \<times> jval) list option"
  ev_occupied :: int
  ev_max_in_flight :: "int option"

definition breaker_trip :: "breaker_report \<Rightarrow> jval \<Rightarrow> (trip_kind \<times> nat \<times> string list) option" where
  "breaker_trip b threshold =
     (case if_proper_int threshold of
        None \<Rightarrow> None
      | Some t \<Rightarrow>
          (if t \<le> 0 then None
           else if int (br_count b) \<ge> t then Some (IterationFailure, br_count b, br_run_ids b)
           else if int (nd_count b) \<ge> t then Some (NeverDispatched, nd_count b, nd_run_ids b)
           else None))"

definition ack_holds :: "evidence \<Rightarrow> bool" where
  "ack_holds e = (case ev_ack e of None \<Rightarrow> False
     | Some ack \<Rightarrow> ack_covers_spend ack (spent_doc (b_spent (ev_budget e))) = Some True)"

definition over_budget :: "evidence \<Rightarrow> campaign_action option" where
  "over_budget e =
     (if \<not> b_exhausted (ev_budget e) then None
      else if ack_holds e then None
      else Some (plain_action ''stop_over_budget'' (OverBudget (b_reasons (ev_budget e)) (ev_ack e \<noteq> None))))"

text \<open>A raise inside \<open>ack_covers_spend\<close>, which only the first rule can meet.\<close>

definition over_budget_raises :: "evidence \<Rightarrow> bool" where
  "over_budget_raises e \<longleftrightarrow> b_exhausted (ev_budget e)
     \<and> (\<exists>ack. ev_ack e = Some ack \<and> ack_covers_spend ack (spent_doc (b_spent (ev_budget e))) = None)"

definition wait_in_flight :: "evidence \<Rightarrow> campaign_action option" where
  "wait_in_flight e =
     (if in_flight (ev_status e) > 0
      then Some (plain_action ''wait_in_flight'' (StillInFlight (in_flight (ev_status e)))) else None)"

definition circuit_breaker :: "evidence \<Rightarrow> campaign_action option" where
  "circuit_breaker e =
     (case breaker_trip (ev_breaker e) (ev_breaker_threshold e) of
        None \<Rightarrow> None
      | Some (kind, n, ids) \<Rightarrow>
          Some (plain_action ''stop_circuit_breaker'' (Tripped kind n (ev_breaker_threshold e) ids)))"

definition resubmit_cap :: "evidence \<Rightarrow> campaign_action option" where
  "resubmit_cap e =
     (case ev_resubmit_threshold e of
        None \<Rightarrow> None
      | Some t \<Rightarrow>
          (if t > 0 \<and> rc_count (ev_resubmit e) \<ge> t
           then Some (plain_action ''stop_resubmit_cap'' (CapReached (rc_task_id (ev_resubmit e)) (rc_count (ev_resubmit e)) t))
           else None))"

definition converged_rule :: "evidence \<Rightarrow> campaign_action option" where
  "converged_rule e =
     (if converged (ev_converged e)
      then Some (plain_action ''stop_converged'' (CriterionFired (stop_reason (ev_converged e)))) else None)"

definition pool_target :: "evidence \<Rightarrow> int" where
  "pool_target e = (case ev_max_in_flight e of None \<Rightarrow> DEFAULT_MAX_IN_FLIGHT | Some k \<Rightarrow> k)"

definition refill_count :: "evidence \<Rightarrow> int" where
  "refill_count e =
     (let pool_room = max 0 (pool_target e - ev_occupied e)
      in case rem_jobs (ev_budget e) of None \<Rightarrow> pool_room | Some r \<Rightarrow> max 0 (min pool_room r))"

definition refill :: "evidence \<Rightarrow> campaign_action option" where
  "refill e =
     (let n = refill_count e; live = in_flight (ev_status e); left = rem_jobs (ev_budget e) in
      if n > 0
      then Some \<lparr>action = ''refill'', params = [(''refill_count'', JInt n)],
                  rationale = Refilling (ev_occupied e) live (pool_target e) left n, source = None\<rparr>
      else if ev_occupied e > 0
      then Some (plain_action ''wait_in_flight'' (PoolFull (ev_occupied e) live (pool_target e) left))
      else None)"

definition terminal_stop_pending :: "evidence \<Rightarrow> bool" where
  "terminal_stop_pending e \<longleftrightarrow> (\<exists>rule\<in>set [circuit_breaker, resubmit_cap, converged_rule]. rule e \<noteq> None)"

definition drain_before_stop :: "evidence \<Rightarrow> campaign_action option" where
  "drain_before_stop e =
     (if in_flight (ev_status e) > 0 \<and> terminal_stop_pending e
      then Some (plain_action ''wait_in_flight'' (Draining (in_flight (ev_status e)))) else None)"

definition ladder :: "bool \<Rightarrow> (evidence \<Rightarrow> campaign_action option) list" where
  "ladder async =
     (if async then [over_budget, drain_before_stop, circuit_breaker, resubmit_cap, converged_rule, refill]
      else [over_budget, wait_in_flight, circuit_breaker, resubmit_cap, converged_rule])"

definition continue_action :: "nat \<Rightarrow> campaign_action" where
  "continue_action n = plain_action ''continue'' (KeepGoing n)"

text \<open>The drafted block for a loud-fail guard, without its prose.\<close>

record anomaly_brief =
  ab_tripped :: string
  ab_kind :: trip_kind
  ab_action :: string
  ab_count :: int
  ab_threshold :: jval
  ab_subjects :: "string list"

definition anomaly_brief_of ::
  "string \<Rightarrow> evidence \<Rightarrow> string \<Rightarrow> anomaly_brief option" where
  "anomaly_brief_of decision e on_anomaly =
     (let act = (if on_anomaly = ''park'' then ''park_campaign'' else ''surface_for_decision'');
          r = ev_resubmit e; b = ev_breaker e
      in if decision = ''stop_resubmit_cap''
         then Some \<lparr>ab_tripped = ''resubmit_cap'', ab_kind = IterationFailure, ab_action = act,
                     ab_count = rc_count r,
                     ab_threshold = (case ev_resubmit_threshold e of None \<Rightarrow> JNull | Some t \<Rightarrow> JInt t),
                     ab_subjects = (case rc_task_id r of None \<Rightarrow> [] | Some t \<Rightarrow> [t])\<rparr>
         else if decision = ''stop_circuit_breaker''
         then (let (kind, n, ids) = (case breaker_trip b (ev_breaker_threshold e) of
                                       None \<Rightarrow> (IterationFailure, br_count b, br_run_ids b) | Some t \<Rightarrow> t)
               in Some \<lparr>ab_tripped = ''circuit_breaker'', ab_kind = kind, ab_action = act, ab_count = int n,
                         ab_threshold = ev_breaker_threshold e, ab_subjects = ids\<rparr>)
         else None)"

record advance_report =
  adv_decision :: string
  adv_reason :: campaign_reason
  needs_acknowledgement :: bool
  adv_refill_count :: "int option"
  adv_brief :: "anomaly_brief option"

text \<open>The ladder over its evidence; \<open>None\<close> is the raise of the first rule.\<close>

definition advance_on :: "bool \<Rightarrow> string \<Rightarrow> evidence \<Rightarrow> advance_report option" where
  "advance_on async on_anomaly e =
     (if over_budget_raises e then None
      else
        (case decide ''decide'' e (ladder async) None (Some (continue_action (iterations (ev_status e)))) None of
           Inl err \<Rightarrow> None
         | Inr d \<Rightarrow>
             (case chosen d of
                None \<Rightarrow> None
              | Some c \<Rightarrow>
                  Some \<lparr>adv_decision = action c, adv_reason = reason d,
                        needs_acknowledgement = (action c = ''stop_over_budget''),
                        adv_refill_count = (if action c = ''refill'' then jint (jget (params c) ''refill_count'') else None),
                        adv_brief = anomaly_brief_of (action c) e on_anomaly\<rparr>)))"

section \<open>Thresholds and modes\<close>

record advance_args =
  arg_breaker :: "int option"
  arg_resubmits :: "int option"
  arg_async :: bool
  arg_max_in_flight :: "int option"

definition as_positive_int :: "jval \<Rightarrow> int option" where
  "as_positive_int v = (case if_proper_int v of Some n \<Rightarrow> if n > 0 then Some n else None | None \<Rightarrow> None)"

definition first_some :: "'a option \<Rightarrow> 'a option \<Rightarrow> 'a option" where
  "first_some a b = (case a of None \<Rightarrow> b | Some x \<Rightarrow> Some x)"

type_synonym manifest = "(string \<times> jval) list option"

definition top_level :: "manifest \<Rightarrow> string \<Rightarrow> jval" where
  "top_level m key = (case m of None \<Rightarrow> JNull | Some d \<Rightarrow> jget d key)"

definition manifest_anomaly_policy :: "manifest \<Rightarrow> (string \<times> jval) list option" where
  "manifest_anomaly_policy m = (case top_level m ''anomaly_policy'' of JDict d \<Rightarrow> Some d | _ \<Rightarrow> None)"

definition policy_int :: "manifest \<Rightarrow> string \<Rightarrow> int option" where
  "policy_int m key = (case manifest_anomaly_policy m of None \<Rightarrow> None | Some p \<Rightarrow> as_positive_int (jget p key))"

text \<open>\<open>value if isinstance(value, int) else None\<close>; the value itself, since a boolean passes and is told apart later.\<close>

definition manifest_circuit_breaker_failures :: "manifest \<Rightarrow> jval option" where
  "manifest_circuit_breaker_failures m =
     (let v = jget (manifest_section m ''stop_criteria'') ''circuit_breaker_failures''
      in if if_int v = None then None else Some v)"

definition manifest_max_task_resubmits :: "manifest \<Rightarrow> int option" where
  "manifest_max_task_resubmits m = if_int (jget (manifest_section m ''stop_criteria'') ''max_task_resubmits'')"

definition manifest_async_refill :: "manifest \<Rightarrow> bool" where
  "manifest_async_refill m = (case top_level m ''async_refill'' of JBool b \<Rightarrow> b | _ \<Rightarrow> False)"

definition manifest_max_in_flight :: "manifest \<Rightarrow> int option" where
  "manifest_max_in_flight m = if_proper_int (top_level m ''max_in_flight'')"

definition on_anomaly_of :: "manifest \<Rightarrow> string" where
  "on_anomaly_of m =
     (case manifest_anomaly_policy m of
        None \<Rightarrow> ''surface''
      | Some p \<Rightarrow> (case map_of p ''on_anomaly'' of Some (JText s) \<Rightarrow> s | _ \<Rightarrow> ''surface''))"

definition breaker_threshold :: "advance_args \<Rightarrow> manifest \<Rightarrow> jval" where
  "breaker_threshold a m =
     (case first_some (first_some (map_option JInt (arg_breaker a)) (manifest_circuit_breaker_failures m))
             (map_option JInt (policy_int m ''circuit_breaker_failures'')) of
        None \<Rightarrow> JNull | Some v \<Rightarrow> v)"

definition resubmit_threshold :: "advance_args \<Rightarrow> manifest \<Rightarrow> int option" where
  "resubmit_threshold a m =
     first_some (first_some (first_some (arg_resubmits a) (manifest_max_task_resubmits m)) (policy_int m ''resubmit_cap''))
       (Some DEFAULT_MAX_TASK_RESUBMITS)"

definition async_mode :: "advance_args \<Rightarrow> manifest \<Rightarrow> bool" where
  "async_mode a m = (arg_async a \<or> manifest_async_refill m)"

text \<open>What the stores of one campaign hold, and the whole primitive over them.\<close>

record campaign_stores =
  st_manifest :: manifest
  st_sidecars :: "sidecar list"
  st_samples :: "string \<times> string \<Rightarrow> sample list"
  st_runs :: "run_record list"
  st_history :: "(string \<times> jval) list list"
  st_ack :: "(string \<times> jval) list option"
  st_occupied :: int

definition advance_evidence ::
  "advance_args \<Rightarrow> caps \<Rightarrow> stop_args \<Rightarrow> campaign_stores \<Rightarrow> evidence option" where
  "advance_evidence a cs sa s =
     (case (campaign_budget cs (st_manifest s) (st_samples s) (st_sidecars s) (st_runs s),
            campaign_converged sa (st_manifest s) (st_history s), max_task_resubmits (st_runs s)) of
        (Some b, Some c, Some r) \<Rightarrow>
          Some \<lparr>ev_status = campaign_status_of (st_sidecars s) (st_runs s), ev_budget = b, ev_converged = c,
                ev_breaker = consecutive_terminal_failures (st_runs s),
                ev_breaker_threshold = breaker_threshold a (st_manifest s),
                ev_resubmit = r, ev_resubmit_threshold = resubmit_threshold a (st_manifest s),
                ev_ack = st_ack s, ev_occupied = st_occupied s,
                ev_max_in_flight = first_some (arg_max_in_flight a) (manifest_max_in_flight (st_manifest s))\<rparr>
      | _ \<Rightarrow> None)"

definition campaign_advance ::
  "advance_args \<Rightarrow> caps \<Rightarrow> stop_args \<Rightarrow> campaign_stores \<Rightarrow> advance_report option" where
  "campaign_advance a cs sa s =
     (case advance_evidence a cs sa s of
        None \<Rightarrow> None
      | Some e \<Rightarrow> advance_on (async_mode a (st_manifest s)) (on_anomaly_of (st_manifest s)) e)"

section \<open>The ladders are decision points\<close>

definition ladder_acts :: "bool \<Rightarrow> nat \<Rightarrow> string set" where
  "ladder_acts async i =
     [{''stop_over_budget''}, {''wait_in_flight''}, {''stop_circuit_breaker''}, {''stop_resubmit_cap''},
      {''stop_converged''}, {''refill'', ''wait_in_flight''}] ! i"

lemmas rule_defs = over_budget_def wait_in_flight_def circuit_breaker_def resubmit_cap_def converged_rule_def
  refill_def drain_before_stop_def plain_action_def

lemma ladder_emits:
  assumes "i < length (ladder async)" "(ladder async ! i) e = Some c"
  shows "action c \<in> ladder_acts async i"
proof -
  have "i \<in> {0, 1, 2, 3, 4, 5}" using assms(1) by (auto simp: ladder_def split: if_splits)
  then show ?thesis using assms
    by (cases async) (auto simp: ladder_def ladder_acts_def rule_defs Let_def split: if_splits option.splits)
qed

interpretation advance: decision_point "ladder async" None "Some (continue_action n)" "ladder_acts async" for async n
  by unfold_locales (simp_all add: ladder_emits)

definition concurrency_acts :: "nat \<Rightarrow> string set" where
  "concurrency_acts i = {''sequential''}"

interpretation concurrency: decision_point "[not_async, no_headroom]" "Some escalate_concurrency" None concurrency_acts
  by unfold_locales
     (auto simp: concurrency_acts_def not_async_def no_headroom_def policy_action_def plain_action_def less_Suc_eq
        split: if_splits option.splits)

lemma advance_on_decides:
  assumes "\<not> over_budget_raises e"
  obtains d c where "decide ''decide'' e (ladder async) None (Some (continue_action (iterations (ev_status e)))) None = Inr d"
    "chosen d = Some c" "verdict_by d = Code"
    "advance_on async oa e = Some \<lparr>adv_decision = action c, adv_reason = reason d,
        needs_acknowledgement = (action c = ''stop_over_budget''),
        adv_refill_count = (if action c = ''refill'' then jint (jget (params c) ''refill_count'') else None),
        adv_brief = anomaly_brief_of (action c) e oa\<rparr>"
proof -
  obtain d where d: "decide ''decide'' e (ladder async) None (Some (continue_action (iterations (ev_status e)))) None = Inr d"
    using advance.decides by blast
  then have "verdict_by d = Code" by (auto simp: decide_def split: option.splits)
  then obtain c where "chosen d = Some c" using advance.exclusive(1) [OF d] by auto
  with that [OF d this \<open>verdict_by d = Code\<close>] d assms show thesis by (simp add: advance_on_def)
qed

text \<open>Where a decision of the ladder comes from.\<close>

lemma advance_origin:
  assumes "advance_on async oa e = Some r"
  obtains c where "adv_decision r = action c"
    "adv_refill_count r = (if action c = ''refill'' then jint (jget (params c) ''refill_count'') else None)"
    "(\<exists>i<length (ladder async). action c \<in> ladder_acts async i \<and> (ladder async ! i) e = Some c
        \<and> (\<forall>j<i. (ladder async ! j) e = None))
      \<or> (c = continue_action (iterations (ev_status e)) \<and> (\<forall>rule\<in>set (ladder async). rule e = None))"
proof -
  have "\<not> over_budget_raises e" using assms by (auto simp: advance_on_def)
  then obtain d c where d: "decide ''decide'' e (ladder async) None (Some (continue_action (iterations (ev_status e)))) None = Inr d"
    "chosen d = Some c" "verdict_by d = Code"
    "advance_on async oa e = Some \<lparr>adv_decision = action c, adv_reason = reason d,
        needs_acknowledgement = (action c = ''stop_over_budget''),
        adv_refill_count = (if action c = ''refill'' then jint (jget (params c) ''refill_count'') else None),
        adv_brief = anomaly_brief_of (action c) e oa\<rparr>"
    by (rule advance_on_decides)
  show thesis
    by (rule that [of c]) (use assms d(4) advance.chosen_action [OF d(1,2)] in auto)
qed

section \<open>What the loop is told\<close>

definition budget_halts :: "evidence \<Rightarrow> bool" where
  "budget_halts e \<longleftrightarrow> b_exhausted (ev_budget e) \<and> \<not> ack_holds e"

definition breaker_trips :: "evidence \<Rightarrow> bool" where
  "breaker_trips e \<longleftrightarrow> (\<exists>t>0. ev_breaker_threshold e = JInt t
     \<and> (t \<le> int (br_count (ev_breaker e)) \<or> t \<le> int (nd_count (ev_breaker e))))"

definition cap_trips :: "evidence \<Rightarrow> bool" where
  "cap_trips e \<longleftrightarrow> (\<exists>t>0. ev_resubmit_threshold e = Some t \<and> t \<le> rc_count (ev_resubmit e))"

lemma if_proper_int_Some [simp]: "if_proper_int v = Some t \<longleftrightarrow> v = JInt t"
  by (cases v) auto

lemma rule_fires:
  "over_budget e = None \<longleftrightarrow> \<not> budget_halts e"
  "wait_in_flight e = None \<longleftrightarrow> in_flight (ev_status e) = 0"
  "circuit_breaker e = None \<longleftrightarrow> \<not> breaker_trips e"
  "resubmit_cap e = None \<longleftrightarrow> \<not> cap_trips e"
  "converged_rule e = None \<longleftrightarrow> \<not> converged (ev_converged e)"
  "refill e = None \<longleftrightarrow> refill_count e \<le> 0 \<and> ev_occupied e \<le> 0"
  "drain_before_stop e = None \<longleftrightarrow> in_flight (ev_status e) = 0 \<or> \<not> terminal_stop_pending e"
proof -
  show "circuit_breaker e = None \<longleftrightarrow> \<not> breaker_trips e"
    by (cases "ev_breaker_threshold e") (auto simp: circuit_breaker_def breaker_trip_def breaker_trips_def)
qed (auto simp: rule_defs budget_halts_def cap_trips_def Let_def split: option.split)

lemma terminal_stop_iff: "terminal_stop_pending e \<longleftrightarrow> breaker_trips e \<or> cap_trips e \<or> converged (ev_converged e)"
  by (simp add: terminal_stop_pending_def rule_fires del: not_None_eq)

lemma action_of_rule:
  assumes "rule e = None \<longleftrightarrow> \<not> P" "\<And>c. rule e = Some c \<Longrightarrow> action c = a"
  shows "map_option action (rule e) = (if P then Some a else None)"
  using assms by (cases "rule e") auto

lemma rule_actions:
  "map_option action (over_budget e) = (if budget_halts e then Some ''stop_over_budget'' else None)"
  "map_option action (wait_in_flight e) = (if in_flight (ev_status e) > 0 then Some ''wait_in_flight'' else None)"
  "map_option action (circuit_breaker e) = (if breaker_trips e then Some ''stop_circuit_breaker'' else None)"
  "map_option action (resubmit_cap e) = (if cap_trips e then Some ''stop_resubmit_cap'' else None)"
  "map_option action (converged_rule e) = (if converged (ev_converged e) then Some ''stop_converged'' else None)"
  "map_option action (drain_before_stop e)
     = (if in_flight (ev_status e) > 0 \<and> terminal_stop_pending e then Some ''wait_in_flight'' else None)"
  "map_option action (refill e) = (if refill_count e > 0 then Some ''refill''
     else if ev_occupied e > 0 then Some ''wait_in_flight'' else None)"
proof -
  show "map_option action (circuit_breaker e) = (if breaker_trips e then Some ''stop_circuit_breaker'' else None)"
    by (rule action_of_rule) (auto simp: rule_fires, auto simp: circuit_breaker_def plain_action_def split: option.splits)
  show "map_option action (resubmit_cap e) = (if cap_trips e then Some ''stop_resubmit_cap'' else None)"
    by (rule action_of_rule) (auto simp: rule_fires, auto simp: resubmit_cap_def plain_action_def split: option.splits if_splits)
qed (auto simp: rule_defs budget_halts_def Let_def)

definition ladder_choice :: "bool \<Rightarrow> evidence \<Rightarrow> string" where
  "ladder_choice async e =
     (if budget_halts e then ''stop_over_budget''
      else if in_flight (ev_status e) > 0 \<and> (async \<longrightarrow> terminal_stop_pending e) then ''wait_in_flight''
      else if breaker_trips e then ''stop_circuit_breaker''
      else if cap_trips e then ''stop_resubmit_cap''
      else if converged (ev_converged e) then ''stop_converged''
      else if \<not> async then ''continue''
      else if refill_count e > 0 then ''refill''
      else if ev_occupied e > 0 then ''wait_in_flight'' else ''continue'')"

lemma first_hit_actions:
  "map_option action (first_hit [] e) = None"
  "map_option action (first_hit (rule # rules) e) =
     (case map_option action (rule e) of None \<Rightarrow> map_option action (first_hit rules e) | Some a \<Rightarrow> Some a)"
  by (auto split: option.split)

lemma ladder_actions:
  "(case map_option action (first_hit (ladder async) e) of None \<Rightarrow> ''continue'' | Some a \<Rightarrow> a) = ladder_choice async e"
  by (cases async)
     (simp_all add: ladder_def first_hit_actions rule_actions ladder_choice_def terminal_stop_iff del: first_hit.simps)

lemma advance_choice:
  assumes "advance_on async oa e = Some r"
  shows "adv_decision r = ladder_choice async e" "needs_acknowledgement r \<longleftrightarrow> adv_decision r = ''stop_over_budget''"
proof -
  show "adv_decision r = ladder_choice async e"
    using assms ladder_actions [of async e]
    by (cases "first_hit (ladder async) e")
       (auto simp: advance_on_def decide_def continue_action_def plain_action_def split: if_splits)
  show "needs_acknowledgement r \<longleftrightarrow> adv_decision r = ''stop_over_budget''"
    using assms by (auto simp: advance_on_def split: if_splits sum.splits option.splits)
qed

text \<open>C1: (precedence) Unless the acknowledgement record is unreadable, the loop always gets a decision,
  and it is the documented one: budget halt, then waiting (in synchronous mode for any run without a
  verdict, in refill mode only to drain before a terminal stop), then breaker, resubmit cap,
  convergence; then, in refill mode, refilling when there is room, waiting while the pool is occupied;
  and continuing otherwise. An acknowledgement is asked for exactly on the budget halt.\<close>

theorem advance_follows_precedence:
  "(advance_on async oa e = None \<longleftrightarrow> over_budget_raises e)
   \<and> (\<forall>r. advance_on async oa e = Some r \<longrightarrow>
        adv_decision r = ladder_choice async e \<and> needs_acknowledgement r = budget_halts e)"
proof (intro conjI allI impI)
  show "advance_on async oa e = None \<longleftrightarrow> over_budget_raises e"
  proof (cases "over_budget_raises e")
    case False
    then obtain r where "advance_on async oa e = Some r" by (rule advance_on_decides)
    with False show ?thesis by simp
  qed (simp add: advance_on_def)
next
  fix r
  assume r: "advance_on async oa e = Some r"
  show "adv_decision r = ladder_choice async e" by (rule advance_choice(1) [OF r])
  show "needs_acknowledgement r = budget_halts e"
    unfolding advance_choice(2) [OF r] advance_choice(1) [OF r] by (simp add: ladder_choice_def)
qed

text \<open>A small campaign: one sidecar with a sample, no manifest, no criteria, an empty pool.\<close>

definition demo_stores :: "run_record list \<Rightarrow> campaign_stores" where
  "demo_stores runs = \<lparr>st_manifest = None, st_sidecars = [demo_sidecar], st_samples = demo_samples, st_runs = runs,
     st_history = demo_history, st_ack = None, st_occupied = 0\<rparr>"

definition silent_args :: "bool \<Rightarrow> advance_args" where
  "silent_args async = \<lparr>arg_breaker = None, arg_resubmits = None, arg_async = async, arg_max_in_flight = None\<rparr>"

definition no_stop_args :: stop_args where
  "no_stop_args = demo_stop_args\<lparr>sa_metric := JNull, sa_plateau_window := JNull\<rparr>"

lemma demo_free_budget: "\<exists>b. campaign_budget no_caps None demo_samples [demo_sidecar] runs = Some b
    \<and> \<not> b_exhausted b \<and> rem_jobs b = None"
  by (simp add: campaign_budget_def demo_consumed no_caps_def resolve_caps_def or_manifest_def
      manifest_section_def int_check_def float_check_def Let_def)

lemma demo_no_stop: "campaign_converged no_stop_args None h = Some (report False NoCriteria (finished h) None)"
  by (simp add: campaign_converged_def resolve_criteria_def no_stop_args_def demo_stop_args_def read_opt_def
      or_manifest_def manifest_section_def or_zero_def apply_criteria_def metric_given_def metric_values_def
      finished_def best_of_def)

lemma demo_evidence:
  assumes "max_task_resubmits runs = Some rc"
  shows "\<exists>e. advance_evidence (silent_args async) no_caps no_stop_args (demo_stores runs) = Some e
     \<and> in_flight (ev_status e) = campaign_in_flight runs \<and> \<not> b_exhausted (ev_budget e) \<and> rem_jobs (ev_budget e) = None
     \<and> \<not> converged (ev_converged e) \<and> ev_breaker_threshold e = JNull \<and> ev_resubmit e = rc
     \<and> ev_resubmit_threshold e = Some 2 \<and> ev_ack e = None \<and> ev_occupied e = 0 \<and> ev_max_in_flight e = None"
proof -
  obtain b where "campaign_budget no_caps None demo_samples [demo_sidecar] runs = Some b" "\<not> b_exhausted b" "rem_jobs b = None"
    using demo_free_budget by blast
  then show ?thesis
    by (simp add: advance_evidence_def demo_stores_def silent_args_def demo_no_stop assms breaker_threshold_def
        resubmit_threshold_def first_some_def manifest_circuit_breaker_failures_def manifest_max_task_resubmits_def
        manifest_section_def policy_int_def manifest_anomaly_policy_def top_level_def manifest_max_in_flight_def
        DEFAULT_MAX_TASK_RESUBMITS_def report_def campaign_status_of_def)
qed

lemma demo_failed_runs: "campaign_in_flight [demo_run_record, demo_run_record] = 0"
  by (simp add: campaign_in_flight_def demo_run_record_def TERMINAL_STATUSES_def)

lemma demo_capped:
  obtains e r where "advance_evidence (silent_args async) no_caps no_stop_args (demo_stores [demo_run_record, demo_run_record]) = Some e"
    "advance_on async' ''surface'' e = Some r" "adv_decision r = ''stop_resubmit_cap''"
    "rc_count (ev_resubmit e) = 4" "in_flight (ev_status e) = 0"
proof -
  obtain e where e: "advance_evidence (silent_args async) no_caps no_stop_args (demo_stores [demo_run_record, demo_run_record]) = Some e"
    "in_flight (ev_status e) = 0" "\<not> b_exhausted (ev_budget e)" "ev_breaker_threshold e = JNull"
    "rc_count (ev_resubmit e) = 4" "ev_resubmit_threshold e = Some 2"
    using demo_evidence [OF demo_resubmits, of async] demo_failed_runs
    by (metis resubmit_report.select_convs(1))
  obtain r where r: "advance_on async' ''surface'' e = Some r"
    using e(3) by (meson advance_on_decides over_budget_raises_def)
  have "adv_decision r = ''stop_resubmit_cap''"
    unfolding advance_choice(1) [OF r] using e
    by (simp add: ladder_choice_def budget_halts_def breaker_trips_def cap_trips_def)
  with that e r show thesis by blast
qed

theorem advance_follows_precedence_witness:
  "\<exists>e r. advance_on True ''surface'' e = Some r \<and> adv_decision r = ladder_choice True e \<and> \<not> needs_acknowledgement r"
proof -
  obtain e :: evidence where e: "\<not> b_exhausted (ev_budget e)" using demo_evidence [OF demo_resubmits] by blast
  then have n: "\<not> over_budget_raises e" "\<not> budget_halts e" by (simp_all add: over_budget_raises_def budget_halts_def)
  obtain r where "advance_on True ''surface'' e = Some r" using n(1) by (meson advance_on_decides)
  with advance_follows_precedence [of True "''surface''" e] n(2) show ?thesis by auto
qed

text \<open>No orphaned jobs. A terminal stop, by the breaker, the resubmit cap or convergence, is only ever
  decided when no run of the campaign is without a verdict, in both modes.\<close>

lemma terminal_stop_only_when_drained:
  assumes "advance_on async oa e = Some r"
    and "adv_decision r \<in> {''stop_circuit_breaker'', ''stop_resubmit_cap'', ''stop_converged''}"
  shows "in_flight (ev_status e) = 0"
proof (rule advance_origin [OF assms(1)])
  fix c
  assume c: "adv_decision r = action c"
    and o: "(\<exists>i<length (ladder async). action c \<in> ladder_acts async i \<and> (ladder async ! i) e = Some c
        \<and> (\<forall>j<i. (ladder async ! j) e = None))
      \<or> (c = continue_action (iterations (ev_status e)) \<and> (\<forall>rule\<in>set (ladder async). rule e = None))"
  have "c \<noteq> continue_action (iterations (ev_status e))"
    using assms(2) c by (auto simp: continue_action_def plain_action_def)
  with o obtain i where i: "i < length (ladder async)" "action c \<in> ladder_acts async i" "(ladder async ! i) e = Some c"
    "\<forall>j<i. (ladder async ! j) e = None" by blast
  have "i \<in> {2, 3, 4}"
    using i(1,2) assms(2) c by (cases async) (auto simp: ladder_def ladder_acts_def less_Suc_eq numeral_eq_Suc)
  then have w: "(ladder async ! 1) e = None" and t: "terminal_stop_pending e"
    using i(3) i(4) [rule_format, of 1] by (auto simp: ladder_def terminal_stop_pending_def split: if_splits)
  then show ?thesis by (cases async) (auto simp: ladder_def rule_fires)
qed

lemma terminal_stop_only_when_drained_witness:
  "\<exists>e r. advance_on True ''surface'' e = Some r \<and> adv_decision r = ''stop_resubmit_cap'' \<and> in_flight (ev_status e) = 0"
proof -
  obtain e r where "advance_on True ''surface'' e = Some r" "adv_decision r = ''stop_resubmit_cap''"
    by (rule demo_capped)
  with terminal_stop_only_when_drained [OF this(1)] show ?thesis by auto
qed

lemma refill_decision:
  assumes "advance_on async oa e = Some r" and "adv_decision r = ''refill''"
  shows "async" "\<not> budget_halts e" "\<not> terminal_stop_pending e" "0 < refill_count e"
    "adv_refill_count r = Some (refill_count e)"
proof -
  obtain c where c: "adv_decision r = action c" "adv_refill_count r
      = (if action c = ''refill'' then jint (jget (params c) ''refill_count'') else None)"
    and o: "(\<exists>i<length (ladder async). action c \<in> ladder_acts async i \<and> (ladder async ! i) e = Some c
        \<and> (\<forall>j<i. (ladder async ! j) e = None))
      \<or> (c = continue_action (iterations (ev_status e)) \<and> (\<forall>rule\<in>set (ladder async). rule e = None))"
    by (rule advance_origin [OF assms(1)])
  have ch: "ladder_choice async e = ''refill''" using advance_choice(1) [OF assms(1)] assms(2) by simp
  then show h: "async" "\<not> budget_halts e" "\<not> terminal_stop_pending e" "0 < refill_count e"
    by (auto simp: ladder_choice_def terminal_stop_iff split: if_splits)
  have "c \<noteq> continue_action (iterations (ev_status e))"
    using assms(2) c by (auto simp: continue_action_def plain_action_def)
  with o obtain i where i: "i < length (ladder async)" "action c \<in> ladder_acts async i" "(ladder async ! i) e = Some c"
    by blast
  have "i = 5" using i(1,2) assms(2) c h(1) by (auto simp: ladder_def ladder_acts_def less_Suc_eq numeral_eq_Suc)
  then have "refill e = Some c" using i(3) h(1) by (simp add: ladder_def)
  then have "params c = [(''refill_count'', JInt (refill_count e))]"
    using h(4) by (auto simp: refill_def Let_def split: if_splits)
  then show "adv_refill_count r = Some (refill_count e)" using c assms(2) by simp
qed

lemma refill_count_bound:
  "0 < refill_count e \<Longrightarrow> ev_occupied e + refill_count e \<le> max (ev_occupied e) (pool_target e)
     \<and> (case rem_jobs (ev_budget e) of None \<Rightarrow> True | Some left \<Rightarrow> refill_count e \<le> left)"
  by (auto simp: refill_count_def Let_def split: option.splits)

lemma demo_refill:
  obtains e r where "advance_on True ''surface'' e = Some r" "adv_decision r = ''refill''" "ev_occupied e = 0" "refill_count e = 4"
proof -
  have rc: "max_task_resubmits [] = Some \<lparr>rc_count = 0, rc_task_id = None, rc_per_task = []\<rparr>"
    by (simp add: max_task_resubmits_def)
  obtain e :: evidence where e: "\<not> b_exhausted (ev_budget e)" "rem_jobs (ev_budget e) = None" "\<not> converged (ev_converged e)"
    "ev_breaker_threshold e = JNull" "rc_count (ev_resubmit e) = 0" "ev_resubmit_threshold e = Some 2"
    "ev_occupied e = 0" "ev_max_in_flight e = None" "in_flight (ev_status e) = 0"
    using demo_evidence [OF rc, of True] by (auto simp: campaign_in_flight_def)
  obtain r where r: "advance_on True ''surface'' e = Some r"
    using e(1) by (meson advance_on_decides over_budget_raises_def)
  have "adv_decision r = ''refill''"
    unfolding advance_choice(1) [OF r] using e
    by (simp add: ladder_choice_def budget_halts_def breaker_trips_def cap_trips_def terminal_stop_iff
        refill_count_def pool_target_def DEFAULT_MAX_IN_FLIGHT_def)
  moreover have "refill_count e = 4" using e by (simp add: refill_count_def pool_target_def DEFAULT_MAX_IN_FLIGHT_def)
  ultimately show thesis using that r e(7) by blast
qed

text \<open>Refill bounds. A refill is only decided in refill mode, with the budget not halting and no
  terminal stop pending. It carries a positive count; submitting that many iterations keeps the occupied
  slots within the pool target, and does not exceed the jobs the budget has left.\<close>

lemma refill_within_pool_and_budget:
  assumes "advance_on async oa e = Some r" and "adv_decision r = ''refill''"
  shows "async \<and> \<not> budget_halts e \<and> \<not> terminal_stop_pending e
     \<and> (\<exists>n. adv_refill_count r = Some n \<and> 1 \<le> n \<and> ev_occupied e + n \<le> max (ev_occupied e) (pool_target e)
          \<and> (case rem_jobs (ev_budget e) of None \<Rightarrow> True | Some left \<Rightarrow> n \<le> left))"
  using refill_decision [OF assms] refill_count_bound [of e] by auto

lemma refill_within_pool_and_budget_witness:
  "\<exists>e r. advance_on True ''surface'' e = Some r \<and> adv_decision r = ''refill'' \<and> \<not> terminal_stop_pending e"
proof -
  obtain e r where r: "advance_on True ''surface'' e = Some r" "adv_decision r = ''refill''" by (rule demo_refill)
  with refill_within_pool_and_budget [OF r] show ?thesis by blast
qed



text \<open>The loud-fail backstop. With no cap given anywhere, by argument, stop criteria or anomaly policy,
  the resubmit threshold is two; a task slot that has accrued two resubmits then ends the loop once
  nothing is in flight: the decision is the budget halt, the breaker or the resubmit cap.\<close>

lemma resubmit_backstop_is_on_by_default:
  assumes "arg_resubmits a = None" and "manifest_max_task_resubmits (st_manifest s) = None"
    and "policy_int (st_manifest s) ''resubmit_cap'' = None"
    and "advance_evidence a cs sa s = Some e" and "advance_on async oa e = Some r"
    and "2 \<le> rc_count (ev_resubmit e)" and "in_flight (ev_status e) = 0"
  shows "ev_resubmit_threshold e = Some 2
     \<and> adv_decision r \<in> {''stop_over_budget'', ''stop_circuit_breaker'', ''stop_resubmit_cap''}"
proof -
  have t: "ev_resubmit_threshold e = Some 2"
    using assms(1-4) by (auto simp: advance_evidence_def resubmit_threshold_def first_some_def
        DEFAULT_MAX_TASK_RESUBMITS_def split: option.splits)
  then have "cap_trips e" using assms(6) by (simp add: cap_trips_def)
  then show ?thesis using t assms(7) unfolding advance_choice(1) [OF assms(5)] by (auto simp: ladder_choice_def)
qed

lemma resubmit_backstop_is_on_by_default_witness:
  "\<exists>e r. advance_evidence (silent_args False) no_caps no_stop_args (demo_stores [demo_run_record, demo_run_record]) = Some e
     \<and> advance_on False ''surface'' e = Some r \<and> ev_resubmit_threshold e = Some 2"
proof -
  obtain e r where e: "advance_evidence (silent_args False) no_caps no_stop_args (demo_stores [demo_run_record, demo_run_record]) = Some e"
    "advance_on False ''surface'' e = Some r" "rc_count (ev_resubmit e) = 4" "in_flight (ev_status e) = 0"
    by (rule demo_capped)
  have s: "arg_resubmits (silent_args False) = None" "st_manifest (demo_stores rs) = None" for rs
    by (simp_all add: silent_args_def demo_stores_def)
  have "ev_resubmit_threshold e = Some 2"
    using resubmit_backstop_is_on_by_default [OF s(1) _ _ e(1,2)] e(3,4)
    by (simp add: s manifest_max_task_resubmits_def manifest_section_def policy_int_def manifest_anomaly_policy_def top_level_def)
  with e show ?thesis by blast
qed

text \<open>Concurrency. The concurrency point is decided by code, sequential with one iteration in
  flight, exactly when the strategy is not asynchronous or the tracked budget has nothing left; otherwise
  it escalates with a bound that is never above the cap or the remaining jobs, and at least one whenever
  the budget is tracked or the cap is positive.\<close>

lemma concurrency_bound:
  "\<exists>d. decide_concurrency e = Inr d
     \<and> (conc_by d = Code \<longleftrightarrow> \<not> supports_async e \<or> (\<exists>n\<le>0. remaining_jobs e = Some n))
     \<and> (conc_by d = Code \<longrightarrow> conc_decision d = Some ''sequential'' \<and> conc_max_in_flight d = 1)
     \<and> (conc_by d = Judgement \<longrightarrow> conc_decision d = None \<and> conc_candidates d = [''sequential'', ''parallel'']
          \<and> conc_max_in_flight d \<le> max 1 (k_cap e)
          \<and> (\<forall>n. remaining_jobs e = Some n \<longrightarrow> 1 \<le> conc_max_in_flight d \<and> conc_max_in_flight d \<le> n)
          \<and> (1 \<le> k_cap e \<longrightarrow> 1 \<le> conc_max_in_flight d))"
proof -
  obtain d where d: "decide ''concurrency'' e [not_async, no_headroom] (Some escalate_concurrency) None None = Inr d"
    using concurrency.decides by blast
  have j: "verdict_by d = Judgement \<longleftrightarrow> not_async e = None \<and> no_headroom e = None"
    using concurrency.escalates_iff [OF d] by simp
  have n: "not_async e = None \<and> no_headroom e = None \<longleftrightarrow> supports_async e \<and> (\<forall>n. remaining_jobs e = Some n \<longrightarrow> 0 < n)"
    by (auto simp: not_async_def no_headroom_def conc_headroom_def split: option.split)
  have code: "verdict_by d = Code \<longleftrightarrow> \<not> (not_async e = None \<and> no_headroom e = None)"
    using j by (cases "verdict_by d") auto
  have ch: "chosen d = Some c \<Longrightarrow> action c = ''sequential''" for c
    using concurrency.chosen_action [OF d] by (auto simp: concurrency_acts_def)
  show ?thesis
  proof (cases "verdict_by d")
    case Code
    then obtain c where "chosen d = Some c" using concurrency.exclusive(1) [OF d] by auto
    with Code ch code n show ?thesis by (force simp: decide_concurrency_def d)
  next
    case Judgement
    then have "supports_async e \<and> (\<forall>n. remaining_jobs e = Some n \<longrightarrow> 0 < n)" using j n by simp
    moreover have "chosen d = None" "escalated d = Some (escalate_concurrency e)"
      using Judgement d by (auto simp: decide_def Let_def split: option.splits)
    ultimately show ?thesis using Judgement
      by (auto simp: decide_concurrency_def d escalate_concurrency_def policy_action_def plain_action_def
          safe_bound_def conc_headroom_def split: option.splits)
  qed
qed

definition demo_concurrency :: concurrency_evidence where
  "demo_concurrency = \<lparr>supports_async = True, remaining_jobs = Some 3, now_in_flight = 1, k_cap = 4\<rparr>"

lemma concurrency_bound_witness:
  "\<exists>d. decide_concurrency demo_concurrency = Inr d \<and> conc_by d = Judgement \<and> conc_max_in_flight d \<le> 3"
proof -
  obtain d where d: "decide_concurrency demo_concurrency = Inr d"
    "conc_by d = Code \<longleftrightarrow> \<not> supports_async demo_concurrency \<or> (\<exists>n\<le>0. remaining_jobs demo_concurrency = Some n)"
    "conc_by d = Judgement \<longrightarrow> (\<forall>n. remaining_jobs demo_concurrency = Some n \<longrightarrow> 1 \<le> conc_max_in_flight d \<and> conc_max_in_flight d \<le> n)"
    using concurrency_bound [of demo_concurrency] by blast
  then have "conc_by d = Judgement" by (cases "conc_by d") (auto simp: demo_concurrency_def)
  with d show ?thesis by (auto simp: demo_concurrency_def)
qed

end
