(* ===== verification/QueueOccupancy.thy ===== *)
theory QueueOccupancy
  imports CampaignEvidence "HOL-Library.Char_ord" "HOL-Library.List_Lexorder"
begin

text \<open>
  The run queue's ledger fold (\<open>state/queue_intake.py\<close>) and the one occupancy predicate shared by queue and
  campaign (\<open>state/queue_occupancy.py\<close>): which pool slots of a campaign are taken, by live journal records
  and by ledger items that are not yet, or no longer, a run; and which ledger items are history that may
  be compacted away. The journal is the list of its readable records, oldest first, or \<open>None\<close> when the
  experiment has no journal namespace.
\<close>

section \<open>Folding the ledger\<close>

type_synonym item = dict

definition INTAKE_STATES :: "string list" where "INTAKE_STATES = [''queued'', ''placed'']"

definition PINNED_KEYS :: "string list" where
  "PINNED_KEYS = [''item_id'', ''request_id'', ''kind'', ''enqueued_at'']"

definition in_intake_state :: "jval \<Rightarrow> bool" where
  "in_intake_state v \<longleftrightarrow> v \<in> JText ` set INTAKE_STATES"

definition item_run_id :: "item \<Rightarrow> string option" where
  "item_run_id it = nonempty_str it ''run_id''"

text \<open>The overlay of a later record, pinned keys left alone.\<close>

definition overlay :: "item \<Rightarrow> item \<Rightarrow> item" where
  "overlay rec known =
     foldl (\<lambda>k (key, v). if key \<in> set PINNED_KEYS then k else AList.update key v k) known rec"

definition record_count_of :: "item \<Rightarrow> int" where
  "record_count_of it = (case map_of it ''record_count'' of None \<Rightarrow> 1
     | Some v \<Rightarrow> (case jint v of None \<Rightarrow> 1 | Some n \<Rightarrow> n))"

definition fold_record :: "(string \<times> item) list \<Rightarrow> jval \<Rightarrow> (string \<times> item) list" where
  "fold_record items raw =
     (case raw of
        JDict rec \<Rightarrow>
          (case nonempty_str rec ''item_id'' of
             None \<Rightarrow> items
           | Some iid \<Rightarrow>
               (if \<not> in_intake_state (jget rec ''state'') then items
                else
                  (case map_of items iid of
                     None \<Rightarrow>
                       (if jget rec ''kind'' \<noteq> JText ''enqueue'' then items
                        else items @ [(iid, AList.update ''record_count'' (JInt 1)
                                             (AList.update ''updated_at'' (jget rec ''ts'') rec))])
                   | Some known \<Rightarrow>
                       (let it = overlay rec known;
                            it = AList.update ''updated_at''
                                   (case map_of rec ''ts'' of Some t \<Rightarrow> t | None \<Rightarrow> jget it ''updated_at'') it;
                            it = AList.update ''record_count'' (JInt (record_count_of it + 1)) it
                        in AList.update iid it items))))
      | _ \<Rightarrow> items)"

definition fold_intake_records :: "jval list \<Rightarrow> item list" where
  "fold_intake_records records = map snd (foldl fold_record [] records)"

section \<open>Slots\<close>

text \<open>\<open>slot_key\<close> with the prefixes \<open>run:\<close> and \<open>item:\<close> as constructors; \<open>None\<close> for the \<open>ValueError\<close>.\<close>

datatype slot_key = RunSlot string | ItemSlot string

fun slot_text :: "slot_key \<Rightarrow> string" where
  "slot_text (RunSlot r) = ''run:'' @ r"
| "slot_text (ItemSlot i) = ''item:'' @ i"

lemma slot_text_inject [simp]: "slot_text a = slot_text b \<longleftrightarrow> a = b"
  by (cases a; cases b) auto

text \<open>The report lists the slots in the order of their texts.\<close>

instantiation slot_key :: linorder
begin

definition less_eq_slot_key :: "slot_key \<Rightarrow> slot_key \<Rightarrow> bool" where
  "less_eq_slot_key a b \<longleftrightarrow> slot_text a \<le> slot_text b"

definition less_slot_key :: "slot_key \<Rightarrow> slot_key \<Rightarrow> bool" where
  "less_slot_key a b \<longleftrightarrow> slot_text a < slot_text b"

instance
proof
  fix x y z :: slot_key
  show "x < y \<longleftrightarrow> x \<le> y \<and> \<not> y \<le> x"
    unfolding less_eq_slot_key_def less_slot_key_def by (rule less_le_not_le)
  show "x \<le> x" "x \<le> y \<Longrightarrow> y \<le> z \<Longrightarrow> x \<le> z" "x \<le> y \<or> y \<le> x"
    by (auto simp: less_eq_slot_key_def)
  show "x \<le> y \<Longrightarrow> y \<le> x \<Longrightarrow> x = y"
    by (metis antisym less_eq_slot_key_def slot_text_inject)
qed

end

definition slot_key_of :: "string option \<Rightarrow> string option \<Rightarrow> slot_key option" where
  "slot_key_of rid iid =
     (case rid of
        Some (c # cs) \<Rightarrow> Some (RunSlot (c # cs))
      | _ \<Rightarrow> (case iid of Some (c # cs) \<Rightarrow> Some (ItemSlot (c # cs)) | _ \<Rightarrow> None))"

definition OCCUPYING_JOURNAL_STATUSES :: "string list" where
  "OCCUPYING_JOURNAL_STATUSES = filter (\<lambda>s. s \<notin> set TERMINAL_STATUSES) JOURNAL_STATUSES"

definition run_occupies :: "run_record option \<Rightarrow> bool" where
  "run_occupies record =
     (case record of
        None \<Rightarrow> False
      | Some r \<Rightarrow> (if superseded_by r \<noteq> [] then False else run_status r \<in> set OCCUPYING_JOURNAL_STATUSES))"

definition compose_campaign_id :: "jval \<Rightarrow> jval \<Rightarrow> string option" where
  "compose_campaign_id base cl =
     (case base of
        JText (b # bs) \<Rightarrow> (case cl of JText (c # cs) \<Rightarrow> Some ((b # bs) @ ''_'' @ (c # cs)) | _ \<Rightarrow> None)
      | _ \<Rightarrow> None)"

definition intake_item_campaign_id :: "item \<Rightarrow> string option" where
  "intake_item_campaign_id it =
     (case nonempty_str it ''campaign_id'' of
        Some cid \<Rightarrow> Some cid
      | None \<Rightarrow>
          (let pin = (case nonempty_str it ''cluster_pin'' of Some p \<Rightarrow> JText p | None \<Rightarrow> jget it ''cluster'')
           in compose_campaign_id (jget it ''campaign_base'') pin))"

section \<open>The occupancy report\<close>

type_synonym journal = "run_record list option"

definition load_run :: "journal \<Rightarrow> string \<Rightarrow> run_record option" where
  "load_run journal rid = (case journal of None \<Rightarrow> None | Some rs \<Rightarrow> find (\<lambda>r. run_id r = rid) rs)"

definition find_runs_by_campaign :: "journal \<Rightarrow> string \<Rightarrow> run_record list" where
  "find_runs_by_campaign journal cid =
     (if cid = [] then [] else case journal of None \<Rightarrow> [] | Some rs \<Rightarrow> filter (\<lambda>r. campaign_of r = cid) rs)"

text \<open>\<open>_item_run_record\<close>: the campaign's own records first (the last one stored under an id), the journal next.\<close>

definition item_run_record :: "journal \<Rightarrow> run_record list \<Rightarrow> string option \<Rightarrow> run_record option" where
  "item_run_record journal known rid =
     (case rid of
        None \<Rightarrow> None
      | Some r \<Rightarrow>
          (case find (\<lambda>x. run_id x = r) (rev known) of Some x \<Rightarrow> Some x | None \<Rightarrow> load_run journal r))"

record occupancy =
  occ_count :: nat
  occ_slots :: "slot_key list"
  occ_runs :: "string list"
  occ_items :: "string list"
  occ_retired :: "(string \<times> string) list"
  occ_shared :: "slot_key list"

text \<open>The ledger items of the campaign: with their id and, from the join, the record they became.\<close>

definition campaign_items :: "item list \<Rightarrow> string \<Rightarrow> (string \<times> item) list" where
  "campaign_items items cid =
     List.map_filter (\<lambda>it.
       if \<not> in_intake_state (jget it ''state'') then None
       else if intake_item_campaign_id it \<noteq> Some cid then None
       else map_option (\<lambda>iid. (iid, it)) (nonempty_str it ''item_id'')) items"

definition retired_item :: "journal \<Rightarrow> run_record list \<Rightarrow> item \<Rightarrow> bool" where
  "retired_item journal known it =
     (let became = item_run_record journal known (item_run_id it)
      in became \<noteq> None \<and> \<not> run_occupies became)"

definition retired_by :: "run_record \<Rightarrow> string" where
  "retired_by r = (if superseded_by r \<noteq> [] then superseded_by r else run_status r)"

definition occupancy_detail :: "journal \<Rightarrow> item list \<Rightarrow> string \<Rightarrow> occupancy option" where
  "occupancy_detail journal items cid =
     (let known = find_runs_by_campaign journal cid;
          live = filter (\<lambda>r. run_occupies (Some r)) known;
          mine = (if cid = [] then [] else campaign_items items cid);
          held = filter (\<lambda>(iid, it). \<not> retired_item journal known it) mine;
          gone = filter (\<lambda>(iid, it). retired_item journal known it) mine;
          run_slots = map (\<lambda>r. slot_key_of (Some (run_id r)) None) live;
          item_slots = map (\<lambda>(iid, it). slot_key_of (item_run_id it) (Some iid)) held
      in if None \<in> set run_slots \<or> None \<in> set item_slots then None
         else
           (let rs = map the run_slots; iss = map the item_slots; union = sort (remdups (rs @ iss))
            in Some \<lparr>occ_count = length union, occ_slots = union, occ_runs = map run_id live,
                 occ_items = map fst held,
                 occ_retired = map (\<lambda>(iid, it). (iid, retired_by (the (item_run_record journal known (item_run_id it))))) gone,
                 occ_shared = sort (remdups (filter (\<lambda>s. s \<in> set iss) rs))\<rparr>))"

definition occupied_slots :: "journal \<Rightarrow> item list \<Rightarrow> string \<Rightarrow> nat option" where
  "occupied_slots journal items cid = map_option occ_count (occupancy_detail journal items cid)"

section \<open>What may be compacted\<close>

definition is_held :: "run_record \<Rightarrow> bool" where
  "is_held r = (pending_verdict r \<noteq> [])"

definition is_resubmittable_terminal :: "run_record \<Rightarrow> bool" where
  "is_resubmittable_terminal r =
     (if is_held r then False else run_status r \<in> set (filter (\<lambda>s. s \<noteq> ''complete'') TERMINAL_STATUSES))"

definition item_is_history :: "run_record option \<Rightarrow> bool" where
  "item_is_history record =
     (case record of
        None \<Rightarrow> False
      | Some r \<Rightarrow> (if run_occupies (Some r) then False
                   else if is_held r then False else \<not> is_resubmittable_terminal r))"

definition record_count_or_1 :: "item \<Rightarrow> int" where
  "record_count_or_1 it = (case jint (jget it ''record_count'') of Some n \<Rightarrow> if n = 0 then 1 else n | None \<Rightarrow> 1)"

definition census_entry :: "journal \<Rightarrow> item \<Rightarrow> (string \<times> int) option" where
  "census_entry journal it =
     (if jget it ''state'' \<noteq> JText ''placed'' then None
      else
        (case (nonempty_str it ''item_id'', item_run_id it) of
           (Some iid, Some rid) \<Rightarrow>
             (if item_is_history (load_run journal rid) then Some (iid, record_count_or_1 it) else None)
         | _ \<Rightarrow> None))"

definition retired_item_census :: "journal \<Rightarrow> item list \<Rightarrow> (string \<times> int) list" where
  "retired_item_census journal items =
     (if journal = None then []
      else foldl (\<lambda>c (iid, n). AList.update iid n c) [] (List.map_filter (census_entry journal) items))"

definition retired_item_ids :: "journal \<Rightarrow> item list \<Rightarrow> string set" where
  "retired_item_ids journal items = fst ` set (retired_item_census journal items)"

section \<open>The fold\<close>

lemma overlay_pinned: "key \<in> set PINNED_KEYS \<Longrightarrow> jget (overlay rec known) key = jget known key"
proof (induction rec arbitrary: known)
  case (Cons kv rec)
  obtain k v where "kv = (k, v)" by (cases kv)
  with Cons show ?case by (auto simp: overlay_def jget_update)
qed (simp add: overlay_def)

lemma overlay_other:
  "distinct (map fst rec) \<Longrightarrow> key \<notin> set PINNED_KEYS \<Longrightarrow>
     jget (overlay rec known) key = (case map_of rec key of Some v \<Rightarrow> v | None \<Rightarrow> jget known key)"
proof (induction rec arbitrary: known)
  case (Cons kv rec)
  obtain k v where kv: "kv = (k, v)" by (cases kv)
  have "map_of rec k = None" using Cons.prems by (simp add: kv map_of_eq_None_iff)
  with Cons show ?case by (auto simp: overlay_def kv jget_update split: option.split)
qed (simp add: overlay_def)

lemma pinned_keys: "''item_id'' \<in> set PINNED_KEYS" "''kind'' \<in> set PINNED_KEYS" "''request_id'' \<in> set PINNED_KEYS"
  "''enqueued_at'' \<in> set PINNED_KEYS" "''state'' \<notin> set PINNED_KEYS"
  "''updated_at'' \<notin> set PINNED_KEYS" "''record_count'' \<notin> set PINNED_KEYS"
  by (simp_all add: PINNED_KEYS_def)

text \<open>What the fold maintains of the items it has opened so far.\<close>

definition folded_ok :: "(string \<times> item) list \<Rightarrow> bool" where
  "folded_ok items \<longleftrightarrow> distinct (map fst items) \<and> (\<forall>(iid, it)\<in>set items.
     jget it ''item_id'' = JText iid \<and> iid \<noteq> [] \<and> jget it ''kind'' = JText ''enqueue''
     \<and> in_intake_state (jget it ''state''))"

definition record_ok :: "jval \<Rightarrow> bool" where
  "record_ok raw \<longleftrightarrow> (\<forall>d. raw = JDict d \<longrightarrow> distinct (map fst d))"

lemma in_state_JNull [simp]: "\<not> in_intake_state JNull"
  by (auto simp: in_intake_state_def)

text \<open>The one record of the fold, on the lookup.\<close>

lemma fold_record_cases:
  obtains "fold_record items raw = items"
  | rec iid it where "raw = JDict rec" "nonempty_str rec ''item_id'' = Some iid" "in_intake_state (jget rec ''state'')"
      "map_of items iid = None" "jget rec ''kind'' = JText ''enqueue''" "fold_record items raw = items @ [(iid, it)]"
      "\<And>k. k \<noteq> ''record_count'' \<Longrightarrow> k \<noteq> ''updated_at'' \<Longrightarrow> jget it k = jget rec k"
  | rec iid known it where "raw = JDict rec" "nonempty_str rec ''item_id'' = Some iid" "in_intake_state (jget rec ''state'')"
      "map_of items iid = Some known" "fold_record items raw = AList.update iid it items"
      "\<And>k. k \<noteq> ''record_count'' \<Longrightarrow> k \<noteq> ''updated_at'' \<Longrightarrow> jget it k = jget (overlay rec known) k"
proof (cases "\<exists>rec iid. raw = JDict rec \<and> nonempty_str rec ''item_id'' = Some iid \<and> in_intake_state (jget rec ''state'')
    \<and> (map_of items iid \<noteq> None \<or> jget rec ''kind'' = JText ''enqueue'')")
  case False
  then have "fold_record items raw = items"
    by (auto simp: fold_record_def split: jval.split option.split)
  then show thesis by (rule that(1))
next
  case True
  then obtain rec iid where r: "raw = JDict rec" "nonempty_str rec ''item_id'' = Some iid"
    "in_intake_state (jget rec ''state'')" "map_of items iid \<noteq> None \<or> jget rec ''kind'' = JText ''enqueue''" by blast
  show thesis
  proof (cases "map_of items iid")
    case None
    then show thesis using r
      by (intro that(2) [OF r(1-3) None, of "AList.update ''record_count'' (JInt 1) (AList.update ''updated_at'' (jget rec ''ts'') rec)"])
         (auto simp: fold_record_def jget_update)
  next
    case (Some known)
    let ?it = "overlay rec known"
    let ?it = "AList.update ''updated_at'' (case map_of rec ''ts'' of Some t \<Rightarrow> t | None \<Rightarrow> jget ?it ''updated_at'') ?it"
    let ?it = "AList.update ''record_count'' (JInt (record_count_of ?it + 1)) ?it"
    show thesis using r Some
      by (intro that(3) [OF r(1-3) Some, of ?it]) (auto simp: fold_record_def Let_def jget_update)
  qed
qed

lemma folded_lookup: "folded_ok items \<Longrightarrow> map_of items iid = Some it \<Longrightarrow>
    jget it ''item_id'' = JText iid \<and> iid \<noteq> [] \<and> jget it ''kind'' = JText ''enqueue'' \<and> in_intake_state (jget it ''state'')"
  by (auto simp: folded_ok_def dest!: map_of_SomeD)

lemma set_update_distinct:
  "distinct (map fst d) \<Longrightarrow> (k', v') \<in> set (AList.update k v d) \<Longrightarrow> (k' = k \<and> v' = v) \<or> (k' \<noteq> k \<and> (k', v') \<in> set d)"
  using map_of_eq_Some_iff [of "AList.update k v d" k' v'] map_of_eq_Some_iff [of d k' v']
  by (auto simp: distinct_update update_conv' split: if_splits)

lemma fold_record_ok:
  assumes "folded_ok items" "record_ok raw"
  shows "folded_ok (fold_record items raw)"
proof (cases rule: fold_record_cases [of items raw])
  case 1
  then show ?thesis using assms by simp
next
  case (2 rec iid it)
  then show ?thesis using assms(1)
    by (auto simp: folded_ok_def nonempty_str_Some map_of_eq_None_iff)
next
  case (3 rec iid known it)
  have d: "distinct (map fst items)" using assms(1) by (simp add: folded_ok_def)
  have rd: "distinct (map fst rec)" using assms(2) 3(1) by (simp add: record_ok_def)
  have k: "jget known ''item_id'' = JText iid" "iid \<noteq> []" "jget known ''kind'' = JText ''enqueue''"
    "in_intake_state (jget known ''state'')"
    using folded_lookup [OF assms(1) 3(4)] by simp_all
  have it: "jget it ''item_id'' = JText iid" "jget it ''kind'' = JText ''enqueue''" "in_intake_state (jget it ''state'')"
    using 3(3,6) k overlay_pinned [of "''item_id''" rec known] overlay_pinned [of "''kind''" rec known]
      overlay_other [OF rd, of "''state''" known] pinned_keys
    by (auto simp: jget_def split: option.splits)
  have "distinct (map fst (AList.update iid it items))" using d by (rule distinct_update)
  moreover have "jget t ''item_id'' = JText j \<and> j \<noteq> [] \<and> jget t ''kind'' = JText ''enqueue'' \<and> in_intake_state (jget t ''state'')"
    if "(j, t) \<in> set (AList.update iid it items)" for j t
    using set_update_distinct [OF d that] it k(2) assms(1) by (auto simp: folded_ok_def)
  ultimately show ?thesis unfolding 3(5) by (auto simp: folded_ok_def [of "AList.update iid it items"])
qed

lemma fold_record_grows:
  "\<exists>new. map fst (fold_record items raw) = map fst items @ new
     \<and> (\<forall>iid it. map_of items iid = Some it \<longrightarrow>
          (\<exists>it'. map_of (fold_record items raw) iid = Some it' \<and> (\<forall>key\<in>set PINNED_KEYS. jget it' key = jget it key)))"
proof (cases rule: fold_record_cases [of items raw])
  case (3 rec iid known it)
  have keys: "map fst (AList.update iid it items) = map fst items"
    using 3(4) by (simp add: update_keys) (metis domI dom_map_of_conv_image_fst list.set_map)
  have "jget it key = jget known key" if "key \<in> set PINNED_KEYS" for key
  proof -
    have "key \<noteq> ''record_count''" "key \<noteq> ''updated_at''" using that pinned_keys(6,7) by auto
    from 3(6) [OF this] overlay_pinned [OF that] show ?thesis by simp
  qed
  then show ?thesis unfolding 3(5) using keys 3(4)
    by (intro exI [of _ "[]"]) (auto simp: update_conv')
qed (force simp: map_add_def)+

lemma folds_grow:
  "\<exists>new. map fst (foldl fold_record items rs) = map fst items @ new
     \<and> (\<forall>iid it. map_of items iid = Some it \<longrightarrow>
          (\<exists>it'. map_of (foldl fold_record items rs) iid = Some it' \<and> (\<forall>key\<in>set PINNED_KEYS. jget it' key = jget it key)))"
proof (induction rs arbitrary: items)
  case (Cons raw rs)
  from Cons [of "fold_record items raw"] fold_record_grows [of items raw] show ?case
    by simp (metis append.assoc)
qed simp

lemma folds_ok: "folded_ok items \<Longrightarrow> list_all record_ok rs \<Longrightarrow> folded_ok (foldl fold_record items rs)"
  by (induction rs arbitrary: items) (simp_all add: fold_record_ok)

lemma folded_item: "folded_ok xs \<Longrightarrow> it \<in> snd ` set xs \<Longrightarrow> jget it ''kind'' = JText ''enqueue'' \<and> in_intake_state (jget it ''state'')"
  by (auto simp: folded_ok_def)

lemma folded_nth: "folded_ok xs \<Longrightarrow> i < length xs \<Longrightarrow> map_of xs (fst (xs ! i)) = Some (snd (xs ! i))"
  by (simp add: folded_ok_def)

text \<open>Arrival order and facts are permanent. However the ledger grows, the folded items keep their
  order, and each keeps its id, its request id, its kind and its enqueue time: later records only append
  items or overlay other keys. The items have distinct, non-empty ids, were all opened by an enqueue
  record, and are queued or placed.\<close>

lemma ledger_fold_is_stable:
  assumes "list_all record_ok (records @ later)"
    and "fold_intake_records records = items" and "fold_intake_records (records @ later) = items'"
  shows "\<exists>new. map (\<lambda>it. jget it ''item_id'') items' = map (\<lambda>it. jget it ''item_id'') items @ new
     \<and> distinct (map (\<lambda>it. jget it ''item_id'') items')
     \<and> (\<forall>i<length items. \<forall>key\<in>set PINNED_KEYS. jget (items' ! i) key = jget (items ! i) key)
     \<and> (\<forall>it\<in>set items'. jget it ''kind'' = JText ''enqueue'' \<and> in_intake_state (jget it ''state''))"
proof -
  let ?a = "foldl fold_record [] records" and ?b = "foldl fold_record [] (records @ later)"
  have ok: "folded_ok ?a" "folded_ok ?b"
    using assms(1) folds_ok [of "[]" records] folds_ok [of "[]" "records @ later"]
    by (simp_all add: folded_ok_def [of "[]"] del: foldl_append)
  obtain new where new: "map fst ?b = map fst ?a @ new"
    and pin: "\<forall>iid it. map_of ?a iid = Some it \<longrightarrow>
          (\<exists>it'. map_of ?b iid = Some it' \<and> (\<forall>key\<in>set PINNED_KEYS. jget it' key = jget it key))"
    using folds_grow [of ?a later] by auto
  have ids: "map (\<lambda>it. jget it ''item_id'') (map snd xs) = map JText (map fst xs)" if "folded_ok xs" for xs
    using that by (auto simp: folded_ok_def)
  have len: "length ?a \<le> length ?b" using arg_cong [OF new, of length] by simp
  have pin_i: "jget (snd (?b ! i)) key = jget (snd (?a ! i)) key" if i: "i < length ?a" and key: "key \<in> set PINNED_KEYS" for i key
  proof -
    have e: "fst (?b ! i) = fst (?a ! i)"
      using arg_cong [OF new, of "\<lambda>xs. xs ! i"] i len by (simp add: nth_append)
    have "map_of ?a (fst (?a ! i)) = Some (snd (?a ! i))"
      by (rule folded_nth [OF ok(1) i])
    moreover have "map_of ?b (fst (?b ! i)) = Some (snd (?b ! i))"
      by (rule folded_nth [OF ok(2)]) (use i len in linarith)
    ultimately show ?thesis using pin key e by fastforce
  qed
  have nth: "items ! i = snd (?a ! i)" "items' ! i = snd (?b ! i)" if "i < length ?a" for i
    using that len unfolding assms(2,3) [symmetric] fold_intake_records_def by simp_all
  have "length items = length ?a" using assms(2) by (auto simp: fold_intake_records_def)
  then have pinned: "\<forall>i<length items. \<forall>key\<in>set PINNED_KEYS. jget (items' ! i) key = jget (items ! i) key"
    by (intro allI ballI impI) (simp add: nth pin_i del: foldl_append)
  have "map (\<lambda>it. jget it ''item_id'') items' = map (\<lambda>it. jget it ''item_id'') items @ map JText new"
    unfolding assms(2,3) [symmetric] fold_intake_records_def by (simp only: ids [OF ok(1)] ids [OF ok(2)] new map_append)
  moreover have "distinct (map (\<lambda>it. jget it ''item_id'') items')"
  proof -
    have "distinct (map fst ?b)" using ok(2) by (simp add: folded_ok_def)
    then have "distinct (map JText (map fst ?b))" by (subst distinct_map) (simp add: inj_on_def)
    then show ?thesis unfolding assms(3) [symmetric] fold_intake_records_def ids [OF ok(2)] .
  qed
  moreover have "\<forall>it\<in>set items'. jget it ''kind'' = JText ''enqueue'' \<and> in_intake_state (jget it ''state'')"
    using folded_item [OF ok(2)] unfolding assms(3) [symmetric] fold_intake_records_def by simp
  ultimately show ?thesis using pinned by blast
qed

definition demo_enqueue :: jval where
  "demo_enqueue = JDict [(''item_id'', JText ''i1''), (''kind'', JText ''enqueue''), (''state'', JText ''queued''),
     (''request_id'', JText ''q1''), (''campaign_base'', JText ''b''), (''cluster'', JText ''c''), (''ts'', JText ''t1'')]"

definition demo_placement :: jval where
  "demo_placement = JDict [(''item_id'', JText ''i1''), (''kind'', JText ''placement''), (''state'', JText ''placed''),
     (''request_id'', JText ''q2''), (''campaign_id'', JText ''b_c''), (''run_id'', JText ''r1''), (''ts'', JText ''t2'')]"

lemma ledger_fold_is_stable_witness:
  "jget (fold_intake_records [demo_enqueue, demo_placement] ! 0) ''request_id'' = JText ''q1''"
proof -
  have ok: "list_all record_ok ([demo_enqueue] @ [demo_placement])"
    by (simp add: record_ok_def demo_enqueue_def demo_placement_def)
  have one: "length (fold_intake_records [demo_enqueue]) = 1" "jget (fold_intake_records [demo_enqueue] ! 0) ''request_id'' = JText ''q1''"
    by (simp_all add: fold_intake_records_def fold_record_def demo_enqueue_def nonempty_str_def in_intake_state_def INTAKE_STATES_def)
  from ledger_fold_is_stable [OF ok refl refl] one show ?thesis by (auto simp: PINNED_KEYS_def)
qed

section \<open>What occupies a slot\<close>

definition ids_ok :: "journal \<Rightarrow> bool" where
  "ids_ok journal \<longleftrightarrow> (\<forall>rs. journal = Some rs \<longrightarrow> distinct (map run_id rs) \<and> (\<forall>r\<in>set rs. run_id r \<noteq> []))"

lemma find_unique: "distinct (map f xs) \<Longrightarrow> find (\<lambda>x. f x = v) xs = Some x \<longleftrightarrow> x \<in> set xs \<and> f x = v"
proof (induction xs)
  case (Cons y ys)
  then show ?case by (auto simp: image_iff)
qed simp

lemma find_of_set: "distinct (map f xs) \<Longrightarrow> distinct (map f ys) \<Longrightarrow> set xs = set ys \<Longrightarrow>
    find (\<lambda>x. f x = v) xs = find (\<lambda>x. f x = v) ys"
  using find_unique [of f xs v] find_unique [of f ys v]
  by (cases "find (\<lambda>x. f x = v) xs"; cases "find (\<lambda>x. f x = v) ys") auto

text \<open>The campaign's records answer as the journal does: the join does not depend on the attribution.\<close>

lemma item_run_record_journal:
  assumes "ids_ok journal"
  shows "item_run_record journal (find_runs_by_campaign journal cid) rid
     = (case rid of None \<Rightarrow> None | Some r \<Rightarrow> load_run journal r)"
proof (cases "journal = None \<or> rid = None")
  case True
  then show ?thesis
    by (auto simp: item_run_record_def find_runs_by_campaign_def load_run_def split: option.split)
next
  case False
  then obtain rs r where rs: "journal = Some rs" "rid = Some r" by auto
  let ?known = "find_runs_by_campaign journal cid"
  have d: "distinct (map run_id rs)" using assms rs by (simp add: ids_ok_def)
  have k: "set ?known \<subseteq> set rs" "distinct (map run_id (rev ?known))"
    using rs d by (auto simp: find_runs_by_campaign_def distinct_map_filter rev_map [symmetric])
  show ?thesis
  proof (cases "find (\<lambda>x. run_id x = r) (rev ?known)")
    case (Some x)
    then have "x \<in> set rs" "run_id x = r" using find_unique [OF k(2), of r x] k(1) by auto
    then have "find (\<lambda>x. run_id x = r) rs = Some x" using find_unique [OF d, of r x] by simp
    with Some rs show ?thesis by (simp add: item_run_record_def load_run_def)
  qed (use rs in \<open>simp add: item_run_record_def\<close>)
qed

lemma retired_item_iff:
  assumes "ids_ok journal"
  shows "retired_item journal (find_runs_by_campaign journal cid) it \<longleftrightarrow>
     (\<exists>r rec. item_run_id it = Some r \<and> load_run journal r = Some rec \<and> \<not> run_occupies (Some rec))"
proof (cases "item_run_id it")
  case (Some r)
  then show ?thesis
    by (cases "load_run journal r") (simp_all add: retired_item_def Let_def item_run_record_journal [OF assms])
qed (simp add: retired_item_def Let_def item_run_record_journal [OF assms])

definition live_runs :: "journal \<Rightarrow> string \<Rightarrow> run_record set" where
  "live_runs journal cid = {r \<in> set (find_runs_by_campaign journal cid). run_occupies (Some r)}"

definition waiting_items :: "journal \<Rightarrow> item list \<Rightarrow> string \<Rightarrow> (string \<times> item) set" where
  "waiting_items journal items cid = {(iid, it) \<in> set (campaign_items items cid).
     cid \<noteq> [] \<and> (case item_run_id it of None \<Rightarrow> True
       | Some r \<Rightarrow> (case load_run journal r of None \<Rightarrow> True | Some rec \<Rightarrow> run_occupies (Some rec)))}"

definition slot_of_item :: "string \<times> item \<Rightarrow> slot_key" where
  "slot_of_item p = (case p of (iid, it) \<Rightarrow> (case item_run_id it of Some r \<Rightarrow> RunSlot r | None \<Rightarrow> ItemSlot iid))"

lemma slot_key_of_simps:
  "r \<noteq> [] \<Longrightarrow> slot_key_of (Some r) iid = Some (RunSlot r)"
  "i \<noteq> [] \<Longrightarrow> slot_key_of None (Some i) = Some (ItemSlot i)"
  by (simp_all add: slot_key_of_def split: list.split)

lemma campaign_items_ids:
  "(iid, it) \<in> set (campaign_items items cid) \<longleftrightarrow>
     it \<in> set items \<and> in_intake_state (jget it ''state'') \<and> intake_item_campaign_id it = Some cid
   \<and> nonempty_str it ''item_id'' = Some iid"
  by (induction items) (auto simp: campaign_items_def List.map_filter_simps split: option.split)

lemma item_slot_known:
  assumes "nonempty_str it ''item_id'' = Some iid"
  shows "slot_key_of (item_run_id it) (Some iid) = Some (slot_of_item (iid, it))"
proof -
  have "iid \<noteq> []" using assms by (simp add: nonempty_str_Some)
  moreover have "r \<noteq> []" if "item_run_id it = Some r" for r
    using that by (simp add: item_run_id_def nonempty_str_Some)
  ultimately show ?thesis by (cases "item_run_id it") (simp_all add: slot_of_item_def slot_key_of_simps)
qed

lemma occupancy_report:
  assumes "ids_ok journal"
  shows "\<exists>oc. occupancy_detail journal items cid = Some oc
     \<and> set (occ_slots oc) = (\<lambda>r. RunSlot (run_id r)) ` live_runs journal cid
                            \<union> slot_of_item ` waiting_items journal items cid
     \<and> occ_count oc = card (set (occ_slots oc)) \<and> sorted (occ_slots oc)
     \<and> set (occ_shared oc) = (\<lambda>r. RunSlot (run_id r)) ` live_runs journal cid \<inter> slot_of_item ` waiting_items journal items cid"
proof -
  let ?known = "find_runs_by_campaign journal cid"
  let ?live = "filter (\<lambda>r. run_occupies (Some r)) ?known"
  let ?mine = "if cid = [] then [] else campaign_items items cid"
  let ?held = "filter (\<lambda>(iid, it). \<not> retired_item journal ?known it) ?mine"
  let ?rs = "map (\<lambda>r. slot_key_of (Some (run_id r)) None) ?live"
  let ?is = "map (\<lambda>(iid, it). slot_key_of (item_run_id it) (Some iid)) ?held"
  have "\<forall>r\<in>set ?live. run_id r \<noteq> []"
    using assms by (auto simp: ids_ok_def find_runs_by_campaign_def split: if_splits option.splits)
  then have rs: "?rs = map (\<lambda>r. Some (RunSlot (run_id r))) ?live" by (simp add: slot_key_of_simps)
  have "\<forall>p\<in>set ?held. nonempty_str (snd p) ''item_id'' = Some (fst p)"
    by (auto simp: campaign_items_ids split: if_splits)
  then have "is": "?is = map (\<lambda>p. Some (slot_of_item p)) ?held" by (auto simp: item_slot_known)
  have live: "set ?live = live_runs journal cid" by (simp add: live_runs_def)
  have held: "set ?held = waiting_items journal items cid"
    by (auto simp: waiting_items_def retired_item_iff [OF assms] split: option.splits)
  define union where "union = sort (remdups (map (\<lambda>r. RunSlot (run_id r)) ?live @ map slot_of_item ?held))"
  have ex: "\<exists>oc. occupancy_detail journal items cid = Some oc \<and> occ_slots oc = union \<and> occ_count oc = length union
      \<and> occ_shared oc = sort (remdups (filter (\<lambda>s. s \<in> set (map slot_of_item ?held)) (map (\<lambda>r. RunSlot (run_id r)) ?live)))"
    unfolding occupancy_detail_def Let_def rs "is" by (simp add: union_def comp_def image_iff)
  have "set union = (\<lambda>r. RunSlot (run_id r)) ` live_runs journal cid \<union> slot_of_item ` waiting_items journal items cid"
    by (simp add: union_def live [symmetric] held [symmetric] image_Un)
  moreover have "length union = card (set union)" "sorted union"
    by (simp_all add: union_def distinct_card [symmetric] del: remdups_append)
  moreover obtain oc where oc: "occupancy_detail journal items cid = Some oc" "occ_slots oc = union" "occ_count oc = length union"
    "occ_shared oc = sort (remdups (filter (\<lambda>s. s \<in> set (map slot_of_item ?held)) (map (\<lambda>r. RunSlot (run_id r)) ?live)))"
    using ex by blast
  moreover have "set (occ_shared oc) = (\<lambda>r. RunSlot (run_id r)) ` set ?live \<inter> slot_of_item ` set ?held"
    unfolding oc(4) by auto
  ultimately show ?thesis unfolding live held by (intro exI [of _ oc]) simp
qed

text \<open>The occupancy number. With run ids that are non-empty and unique in the journal, a report always
  exists, and what it counts is the set of distinct slots of two kinds: one per live run of the campaign,
  and one per queued or placed ledger item of the campaign that has no run record yet or whose run is
  live; the latter item and its run are one slot. Terminal and superseded runs, and the items that
  became them, hold none.\<close>

lemma occupancy_counts_slots_once:
  assumes "ids_ok journal"
  shows "\<exists>oc. occupancy_detail journal items cid = Some oc
     \<and> set (occ_slots oc) = (\<lambda>r. RunSlot (run_id r)) ` live_runs journal cid
                            \<union> slot_of_item ` waiting_items journal items cid
     \<and> occ_count oc = card (set (occ_slots oc)) \<and> sorted (occ_slots oc)
     \<and> set (occ_shared oc) = (\<lambda>r. RunSlot (run_id r)) ` live_runs journal cid \<inter> slot_of_item ` waiting_items journal items cid"
  by (rule occupancy_report [OF assms])

definition demo_live :: run_record where
  "demo_live = demo_run_record\<lparr>run_status := ''in_flight'', campaign_of := ''b_c''\<rparr>"

lemma demo_ledger:
  "fold_intake_records [demo_enqueue] = [[(''item_id'', JText ''i1''), (''kind'', JText ''enqueue''), (''state'', JText ''queued''),
     (''request_id'', JText ''q1''), (''campaign_base'', JText ''b''), (''cluster'', JText ''c''), (''ts'', JText ''t1''),
     (''updated_at'', JText ''t1''), (''record_count'', JInt 1)]]"
  by (simp add: fold_intake_records_def fold_record_def demo_enqueue_def nonempty_str_def in_intake_state_def INTAKE_STATES_def)

lemma demo_waiting:
  "slot_of_item ` waiting_items journal (fold_intake_records [demo_enqueue]) ''b_c'' = {ItemSlot ''i1''}"
proof -
  let ?it = "fold_intake_records [demo_enqueue] ! 0"
  have it: "item_run_id ?it = None" by (simp add: demo_ledger item_run_id_def nonempty_str_def)
  have "campaign_items (fold_intake_records [demo_enqueue]) ''b_c'' = [(''i1'', ?it)]"
    by (simp add: demo_ledger campaign_items_def List.map_filter_simps in_intake_state_def
        INTAKE_STATES_def intake_item_campaign_id_def nonempty_str_def compose_campaign_id_def)
  with it show ?thesis by (auto simp: waiting_items_def slot_of_item_def image_iff)
qed

lemma occupancy_counts_slots_once_witness:
  "\<exists>oc. occupancy_detail (Some [demo_live]) (fold_intake_records [demo_enqueue]) ''b_c'' = Some oc
     \<and> set (occ_slots oc) = {RunSlot ''r1'', ItemSlot ''i1''} \<and> occ_count oc = 2"
proof -
  have ok: "ids_ok (Some [demo_live])" by (simp add: ids_ok_def demo_live_def demo_run_record_def)
  have live: "live_runs (Some [demo_live]) ''b_c'' = {demo_live}"
    by (auto simp: live_runs_def find_runs_by_campaign_def demo_live_def demo_run_record_def run_occupies_def
        OCCUPYING_JOURNAL_STATUSES_def JOURNAL_STATUSES_def TERMINAL_STATUSES_def)
  have wait: "slot_of_item ` waiting_items (Some [demo_live]) (fold_intake_records [demo_enqueue]) ''b_c'' = {ItemSlot ''i1''}"
    by (rule demo_waiting)
  obtain oc where oc: "occupancy_detail (Some [demo_live]) (fold_intake_records [demo_enqueue]) ''b_c'' = Some oc"
    "set (occ_slots oc) = (\<lambda>r. RunSlot (run_id r)) ` {demo_live} \<union> {ItemSlot ''i1''}" "occ_count oc = card (set (occ_slots oc))"
    using occupancy_counts_slots_once [OF ok, of "fold_intake_records [demo_enqueue]" "''b_c''"] unfolding live wait by blast
  have "run_id demo_live = ''r1''" by (simp add: demo_live_def demo_run_record_def)
  then have "set (occ_slots oc) = {RunSlot ''r1'', ItemSlot ''i1''}" unfolding oc(2) by auto
  with oc(1,3) show ?thesis by (intro exI [of _ oc]) simp
qed

lemma census_ids: "iid \<in> retired_item_ids journal items \<Longrightarrow>
    journal \<noteq> None \<and> (\<exists>it\<in>set items. \<exists>n. census_entry journal it = Some (iid, n))"
proof -
  have "fst ` set (foldl (\<lambda>c (iid, n). AList.update iid n c) d xs) = fst ` set d \<union> fst ` set xs"
    for xs :: "(string \<times> int) list" and d
    by (induction xs arbitrary: d) (simp_all add: dom_update case_prod_unfold)
  then show "iid \<in> retired_item_ids journal items \<Longrightarrow> ?thesis"
    by (auto simp: retired_item_ids_def retired_item_census_def map_filter_def split: if_splits) blast
qed

text \<open>Compaction spares live work. An item is only handed to compaction when it was placed and its run
  has a record that is settled for good: not held for a verdict, not failed or abandoned, and complete or
  superseded. Such an item occupies no slot of any campaign; a queued item, an item without a run id and
  an item whose run has no record yet are never handed over, and without a journal nothing is.\<close>

lemma compaction_spares_live_work:
  assumes "iid \<in> retired_item_ids journal items"
  shows "\<exists>it\<in>set items. \<exists>rid rec. nonempty_str it ''item_id'' = Some iid \<and> jget it ''state'' = JText ''placed''
     \<and> item_run_id it = Some rid \<and> load_run journal rid = Some rec \<and> pending_verdict rec = []
     \<and> run_status rec \<notin> {''failed'', ''abandoned''}
     \<and> (superseded_by rec \<noteq> [] \<or> run_status rec \<notin> {''submitting'', ''in_flight''})
     \<and> (\<forall>cid. (iid, it) \<notin> waiting_items journal items cid)"
proof -
  obtain it n where it: "it \<in> set items" "census_entry journal it = Some (iid, n)" using census_ids [OF assms] by blast
  then obtain rid rec where r: "jget it ''state'' = JText ''placed''" "nonempty_str it ''item_id'' = Some iid"
    "item_run_id it = Some rid" "load_run journal rid = Some rec" "item_is_history (Some rec)"
    by (auto simp: census_entry_def item_is_history_def split: if_splits option.splits)
  then have h: "\<not> run_occupies (Some rec)" "pending_verdict rec = []" "run_status rec \<notin> {''failed'', ''abandoned''}"
    by (auto simp: item_is_history_def is_held_def is_resubmittable_terminal_def TERMINAL_STATUSES_def split: if_splits)
  then have "superseded_by rec \<noteq> [] \<or> run_status rec \<notin> {''submitting'', ''in_flight''}"
    by (auto simp: run_occupies_def OCCUPYING_JOURNAL_STATUSES_def JOURNAL_STATUSES_def TERMINAL_STATUSES_def split: if_splits)
  moreover have "(iid, it) \<notin> waiting_items journal items cid" for cid
    using r h(1) by (auto simp: waiting_items_def)
  ultimately show ?thesis using it(1) r h by blast
qed

definition demo_done :: run_record where
  "demo_done = demo_run_record\<lparr>run_status := ''complete''\<rparr>"

lemma demo_placed_ids: "''i1'' \<in> retired_item_ids (Some [demo_done]) (fold_intake_records [demo_enqueue, demo_placement])"
  by (simp add: retired_item_ids_def retired_item_census_def fold_intake_records_def fold_record_def demo_enqueue_def
      demo_placement_def nonempty_str_def in_intake_state_def INTAKE_STATES_def overlay_def PINNED_KEYS_def Let_def
      List.map_filter_simps census_entry_def item_run_id_def load_run_def demo_done_def demo_run_record_def
      item_is_history_def run_occupies_def OCCUPYING_JOURNAL_STATUSES_def JOURNAL_STATUSES_def TERMINAL_STATUSES_def
      is_held_def is_resubmittable_terminal_def)

lemma compaction_spares_live_work_witness:
  "\<exists>it\<in>set (fold_intake_records [demo_enqueue, demo_placement]). \<exists>rid rec. item_run_id it = Some rid
     \<and> load_run (Some [demo_done]) rid = Some rec \<and> run_status rec \<notin> {''failed'', ''abandoned''}"
  using compaction_spares_live_work [OF demo_placed_ids] by blast

text \<open>No wedge. When every record of the journal has settled or is superseded and every queued or placed
  item of the campaign has become one of them, the campaign occupies no slot, however many items the
  ledger still lists.\<close>

lemma settled_campaign_frees_its_pool:
  assumes "ids_ok (Some rs)" and "\<forall>r\<in>set rs. \<not> run_occupies (Some r)"
    and "\<forall>(iid, it)\<in>set (campaign_items items cid). \<exists>r\<in>set rs. item_run_id it = Some (run_id r)"
  shows "occupied_slots (Some rs) items cid = Some 0"
proof -
  have "live_runs (Some rs) cid = {}"
    using assms(2) by (auto simp: live_runs_def find_runs_by_campaign_def)
  moreover have "load_run (Some rs) (run_id r) = Some r" if "r \<in> set rs" for r
    using find_unique [of run_id rs "run_id r" r] assms(1) that by (simp add: load_run_def ids_ok_def)
  then have "waiting_items (Some rs) items cid = {}"
    using assms(2,3) by (fastforce simp: waiting_items_def)
  ultimately show ?thesis
    using occupancy_report [OF assms(1), of items cid] by (auto simp: occupied_slots_def)
qed

lemma settled_campaign_frees_its_pool_witness:
  "occupied_slots (Some [demo_done]) (fold_intake_records [demo_enqueue, demo_placement]) ''b_c'' = Some 0"
proof (rule settled_campaign_frees_its_pool)
  show "ids_ok (Some [demo_done])" by (simp add: ids_ok_def demo_done_def demo_run_record_def)
  show "\<forall>r\<in>set [demo_done]. \<not> run_occupies (Some r)"
    by (simp add: demo_done_def demo_run_record_def run_occupies_def OCCUPYING_JOURNAL_STATUSES_def
        JOURNAL_STATUSES_def TERMINAL_STATUSES_def)
  show "\<forall>(iid, it)\<in>set (campaign_items (fold_intake_records [demo_enqueue, demo_placement]) ''b_c'').
      \<exists>r\<in>set [demo_done]. item_run_id it = Some (run_id r)"
    by (simp add: campaign_items_def fold_intake_records_def fold_record_def demo_enqueue_def demo_placement_def
        nonempty_str_def in_intake_state_def INTAKE_STATES_def overlay_def PINNED_KEYS_def Let_def List.map_filter_simps
        item_run_id_def demo_done_def demo_run_record_def intake_item_campaign_id_def)
qed

lemma waiting_append:
  "waiting_items journal (items @ new) cid = waiting_items journal items cid \<union> waiting_items journal new cid"
  by (auto simp: waiting_items_def campaign_items_ids)

lemma enqueue_occupies:
  assumes "ids_ok journal" "occupancy_detail journal items cid = Some oc"
    and "slot_of_item ` waiting_items journal new cid \<inter> set (occ_slots oc) = {}"
  shows "\<exists>oc'. occupancy_detail journal (items @ new) cid = Some oc'
     \<and> occ_count oc' = occ_count oc + card (slot_of_item ` waiting_items journal new cid)"
proof -
  obtain oc' where oc': "occupancy_detail journal (items @ new) cid = Some oc'" "occ_count oc' = card (set (occ_slots oc'))"
    "set (occ_slots oc') = (\<lambda>r. RunSlot (run_id r)) ` live_runs journal cid \<union> slot_of_item ` waiting_items journal (items @ new) cid"
    using occupancy_report [OF assms(1), of "items @ new" cid] by blast
  have oc: "set (occ_slots oc) = (\<lambda>r. RunSlot (run_id r)) ` live_runs journal cid \<union> slot_of_item ` waiting_items journal items cid"
    "occ_count oc = card (set (occ_slots oc))"
    using occupancy_report [OF assms(1), of items cid] assms(2) by auto
  have "set (occ_slots oc') = set (occ_slots oc) \<union> slot_of_item ` waiting_items journal new cid"
    unfolding oc'(3) oc(1) waiting_append by blast
  moreover have "finite (slot_of_item ` waiting_items journal new cid)"
    by (rule finite_subset [of _ "slot_of_item ` set (campaign_items new cid)"]) (auto simp: waiting_items_def)
  ultimately show ?thesis using oc' oc(2) assms(3) by (simp add: card_Un_disjoint Int_commute)
qed

end
