(* ===== verification/QueueLedger.thy ===== *)
theory QueueLedger
  imports QueueOccupancy
begin

text \<open>
  The writing side of the run queue's intake ledger (\<open>state/queue_intake.py\<close>, with the deduplicated append of
  \<open>infra/io.py\<close>): enqueue and placement records, the compaction that rewrites the file, its watermark with
  the tombstones, and the identities and budgets of declared retries. A line is what \<open>json.loads\<close> makes of
  it: an object, or other text that no reader can place. Blank lines are no lines of the model, and an
  object is written and read back as the same dictionary.
\<close>

section \<open>The store\<close>

datatype line = Object item | Other string

text \<open>
  The ledger (\<open>None\<close> before the first append), whether its bytes decode as UTF-8, and the watermark document
  as parsed (\<open>None\<close> when it is missing or unreadable).
\<close>

record intake_store =
  intake_lines :: "line list option"
  decodes :: bool
  watermark :: "jval option"

definition lines_of :: "intake_store \<Rightarrow> line list" where
  "lines_of s = (case intake_lines s of None \<Rightarrow> [] | Some ls \<Rightarrow> ls)"

fun object_of :: "line \<Rightarrow> item option" where
  "object_of (Object rec) = Some rec"
| "object_of (Other t) = None"

definition read_intake_records_counted :: "intake_store \<Rightarrow> item list \<times> nat" where
  "read_intake_records_counted s =
     (List.map_filter object_of (lines_of s), length (filter (\<lambda>l. object_of l = None) (lines_of s)))"

definition read_intake_records :: "intake_store \<Rightarrow> item list" where
  "read_intake_records s = fst (read_intake_records_counted s)"

definition read_intake_items :: "intake_store \<Rightarrow> item list" where
  "read_intake_items s = fold_intake_records (map JDict (read_intake_records s))"

definition items_in_states :: "item list \<Rightarrow> string list \<Rightarrow> item list" where
  "items_in_states items states = filter (\<lambda>it. jget it ''state'' \<in> JText ` set states) items"

definition find_intake_item :: "item list \<Rightarrow> string \<Rightarrow> item option" where
  "find_intake_item items iid = find (\<lambda>it. jget it ''item_id'' = JText iid) items"

definition item_cmd_sha :: "item \<Rightarrow> string option" where
  "item_cmd_sha it = nonempty_str it ''cmd_sha''"

section \<open>The watermark\<close>

definition TOMBSTONE_CAP :: nat where "TOMBSTONE_CAP = 2000"

definition compaction_watermark :: "intake_store \<Rightarrow> (string \<times> jval) list" where
  "compaction_watermark s = (case watermark s of Some (JDict d) \<Rightarrow> d | _ \<Rightarrow> [])"

fun text_of :: "jval \<Rightarrow> string option" where
  "text_of (JText t) = (if t = [] then None else Some t)"
| "text_of _ = None"

definition tombstone_list :: "(string \<times> jval) list \<Rightarrow> string list" where
  "tombstone_list d = (case jget d ''tombstoned_request_ids'' of JList vs \<Rightarrow> List.map_filter text_of vs | _ \<Rightarrow> [])"

definition compaction_tombstones :: "intake_store \<Rightarrow> string set" where
  "compaction_tombstones s = set (tombstone_list (compaction_watermark s))"

text \<open>\<open>_merged_tombstones\<close>: the prior list, then the new ids in order, the last \<open>TOMBSTONE_CAP\<close> of them.\<close>

fun add_new :: "string list \<Rightarrow> string list \<Rightarrow> string list" where
  "add_new ordered [] = ordered"
| "add_new ordered (r # rs) = (if r \<in> set ordered then add_new ordered rs else add_new (ordered @ [r]) rs)"

definition merged_tombstones :: "(string \<times> jval) list \<Rightarrow> string list \<Rightarrow> string list" where
  "merged_tombstones prior minted = last_n TOMBSTONE_CAP (add_new (tombstone_list prior) minted)"

section \<open>Appends\<close>

text \<open>
  \<open>append_jsonl_line\<close> with \<open>dedup_key = (field, value)\<close>: the scan reads nothing when the text does not decode,
  the first matching object is the replay, otherwise the line goes to the end.
\<close>

definition find_dedup_record :: "string \<Rightarrow> jval \<Rightarrow> intake_store \<Rightarrow> item option" where
  "find_dedup_record field value s =
     (if \<not> decodes s then None
      else find (\<lambda>rec. jget rec field = value) (List.map_filter object_of (lines_of s)))"

datatype append_result = BadToken | Written | Replayed item

definition append_jsonl_line :: "item \<Rightarrow> string \<Rightarrow> jval \<Rightarrow> intake_store \<Rightarrow> append_result \<times> intake_store" where
  "append_jsonl_line rec field value s =
     (case find_dedup_record field value s of
        Some old \<Rightarrow> (Replayed old, s)
      | None \<Rightarrow> (Written, s\<lparr>intake_lines := Some (lines_of s @ [Object rec])\<rparr>))"

text \<open>\<open>d.update(...)\<close>.\<close>

definition update_all :: "(string \<times> jval) list \<Rightarrow> item \<Rightarrow> item" where
  "update_all kvs d = foldl (\<lambda>d (k, v). AList.update k v d) d kvs"

definition blank :: "string \<Rightarrow> bool" where
  "blank s \<longleftrightarrow> py_strip s = []"

definition enqueue_record :: "string \<Rightarrow> item \<Rightarrow> string \<Rightarrow> item" where
  "enqueue_record now rec request_id =
     update_all [(''kind'', JText ''enqueue''), (''item_id'', JText request_id), (''request_id'', JText request_id),
       (''state'', JText ''queued''), (''enqueued_at'', JText now), (''ts'', JText now)] rec"

text \<open>The answer for a tombstoned request; its reason is a fixed text around the request id.\<close>

definition compacted_answer :: "string \<Rightarrow> item" where
  "compacted_answer request_id =
     [(''kind'', JText ''compacted''), (''item_id'', JText request_id), (''request_id'', JText request_id),
      (''reason'', JText request_id)]"

definition is_compaction_tombstone :: "item option \<Rightarrow> bool" where
  "is_compaction_tombstone rec = (case rec of None \<Rightarrow> False | Some d \<Rightarrow> jget d ''kind'' = JText ''compacted'')"

definition append_intake_item :: "string \<Rightarrow> item \<Rightarrow> string \<Rightarrow> intake_store \<Rightarrow> append_result \<times> intake_store" where
  "append_intake_item now rec request_id s =
     (if blank request_id then (BadToken, s)
      else if request_id \<in> compaction_tombstones s then (Replayed (compacted_answer request_id), s)
      else append_jsonl_line (enqueue_record now rec request_id) ''request_id'' (JText request_id) s)"

definition placement_request_id :: "string \<Rightarrow> string option" where
  "placement_request_id item_id = (if blank item_id then None else Some (item_id @ ''.placed''))"

definition placement_record ::
  "string \<Rightarrow> string \<Rightarrow> string \<Rightarrow> string \<Rightarrow> string \<Rightarrow> string \<Rightarrow> string option \<Rightarrow> item" where
  "placement_record now item_id request_id cl campaign_id why rid =
     [(''kind'', JText ''placement''), (''item_id'', JText item_id), (''request_id'', JText request_id),
      (''state'', JText ''placed''), (''cluster'', JText cl), (''campaign_id'', JText campaign_id),
      (''reason'', JText why), (''ts'', JText now)]
     @ (case rid of None \<Rightarrow> [] | Some r \<Rightarrow> [(''run_id'', JText r)])"

definition append_intake_placement ::
  "string \<Rightarrow> string \<Rightarrow> string \<Rightarrow> string \<Rightarrow> string \<Rightarrow> string \<Rightarrow> string option \<Rightarrow> intake_store \<Rightarrow> append_result \<times> intake_store" where
  "append_intake_placement now item_id request_id cl campaign_id why rid s =
     (if blank item_id \<or> blank request_id \<or> request_id = item_id then (BadToken, s)
      else append_jsonl_line (placement_record now item_id request_id cl campaign_id why rid)
             ''request_id'' (JText request_id) s)"

section \<open>Compaction\<close>

definition line_item_id :: "line \<Rightarrow> string option" where
  "line_item_id l = (case l of Other t \<Rightarrow> None | Object rec \<Rightarrow> nonempty_str rec ''item_id'')"

definition counted :: "line list \<Rightarrow> string \<Rightarrow> int option" where
  "counted ls iid =
     (let n = length (filter (\<lambda>l. line_item_id l = Some iid) ls) in if n = 0 then None else Some (int n))"

text \<open>The condemned items whose record count has moved since the caller's census.\<close>

definition raced_items :: "string list \<Rightarrow> (string \<times> int) list option \<Rightarrow> line list \<Rightarrow> string list" where
  "raced_items condemned witnessed ls =
     (case witnessed of None \<Rightarrow> []
      | Some w \<Rightarrow> sort (remdups (filter (\<lambda>iid. map_of w iid \<noteq> counted ls iid) condemned)))"

datatype fate = Kept | Dropped | Reaped

definition line_fate :: "string set \<Rightarrow> string set \<Rightarrow> line \<Rightarrow> fate" where
  "line_fate condemned tombstones l =
     (case l of
        Other t \<Rightarrow> Kept
      | Object rec \<Rightarrow>
          (case nonempty_str rec ''item_id'' of
             None \<Rightarrow> Kept
           | Some iid \<Rightarrow>
               (if iid \<in> condemned then Dropped
                else if jget rec ''kind'' \<noteq> JText ''enqueue'' \<and> iid \<in> tombstones then Reaped
                else Kept)))"

definition with_fate :: "fate \<Rightarrow> string set \<Rightarrow> string set \<Rightarrow> line list \<Rightarrow> line list" where
  "with_fate f condemned tombstones ls = filter (\<lambda>l. line_fate condemned tombstones l = f) ls"

record compaction_report =
  compacted :: bool
  dropped_items :: nat
  dropped_records :: nat
  kept_records :: nat
  raced :: "string list"
  reaped_orphans :: nat

definition idle_report :: compaction_report where
  "idle_report = \<lparr>compacted = False, dropped_items = 0, dropped_records = 0, kept_records = 0, raced = [], reaped_orphans = 0\<rparr>"

text \<open>\<open>int(prior.get(key) or 0)\<close>; \<open>None\<close> when it raises.\<close>

definition counter :: "(string \<times> jval) list \<Rightarrow> string \<Rightarrow> int option" where
  "counter d key = jint (or_zero (jget d key))"

definition minted_ids :: "line list \<Rightarrow> string list" where
  "minted_ids ls = List.map_filter (\<lambda>l. Option.bind (object_of l) (\<lambda>rec. nonempty_str rec ''request_id'')) ls"

definition next_watermark :: "string \<Rightarrow> (string \<times> jval) list \<Rightarrow> line list \<Rightarrow> nat \<Rightarrow> (string \<times> jval) list option" where
  "next_watermark now prior dropped n_kept =
     (case (counter prior ''compactions'', counter prior ''items_compacted'', counter prior ''records_dropped'') of
        (Some c, Some i, Some r) \<Rightarrow>
          Some [(''last_compacted_at'', JText now), (''compactions'', JInt (c + 1)),
            (''items_compacted'', JInt (i + int (length (remdups (map line_item_id dropped))))),
            (''records_dropped'', JInt (r + int (length dropped))),
            (''records_kept'', JInt (int n_kept)),
            (''tombstoned_request_ids'', JList (map JText (merged_tombstones prior (minted_ids dropped))))]
      | _ \<Rightarrow> None)"

text \<open>
  \<open>compact_intake_ledger\<close>. \<open>survives = False\<close> is a process that dies after the ledger was replaced and before
  the watermark was; an unreadable counter raises at the same place. In both cases there is no report and
  the old watermark stays.
\<close>

definition compact_writes ::
  "bool \<Rightarrow> string \<Rightarrow> string list \<Rightarrow> (string \<times> int) list option \<Rightarrow> intake_store
   \<Rightarrow> compaction_report option \<times> intake_store" where
  "compact_writes survives now drop_ids witnessed s =
     (let condemned = filter (\<lambda>i. i \<noteq> []) drop_ids; tombstones = compaction_tombstones s
      in if condemned = [] \<and> tombstones = {} then (Some idle_report, s)
         else case intake_lines s of
           None \<Rightarrow> (Some idle_report, s)
         | Some ls \<Rightarrow>
             (let raced_ids = raced_items condemned witnessed ls;
                  going = set condemned - set raced_ids;
                  kept = with_fate Kept going tombstones ls;
                  dropped = with_fate Dropped going tombstones ls;
                  reaped = with_fate Reaped going tombstones ls;
                  report = \<lparr>compacted = (dropped \<noteq> [] \<or> reaped \<noteq> []),
                            dropped_items = length (remdups (map line_item_id dropped)),
                            dropped_records = length dropped, kept_records = length kept,
                            raced = raced_ids, reaped_orphans = length reaped\<rparr>;
                  rewritten = s\<lparr>intake_lines := Some kept, decodes := True\<rparr>
              in if dropped = [] \<and> reaped = [] then (Some report, s)
                 else
                   (case next_watermark now (compaction_watermark s) dropped (length kept) of
                      None \<Rightarrow> (None, rewritten)
                    | Some d \<Rightarrow>
                        (if survives then (Some report, rewritten\<lparr>watermark := Some (JDict d)\<rparr>)
                         else (None, rewritten)))))"

definition compact_intake_ledger ::
  "string \<Rightarrow> string list \<Rightarrow> (string \<times> int) list option \<Rightarrow> intake_store \<Rightarrow> compaction_report option \<times> intake_store" where
  "compact_intake_ledger = compact_writes True"

text \<open>The ledger half of \<open>groom_queue_stores\<close>: the census without the caller's own items drives the compaction.\<close>

definition grooming_census :: "journal \<Rightarrow> string list \<Rightarrow> intake_store \<Rightarrow> (string \<times> int) list" where
  "grooming_census journal exempt s =
     filter (\<lambda>(iid, n). iid \<notin> set exempt) (retired_item_census journal (read_intake_items s))"

definition groom_ledger ::
  "string \<Rightarrow> (string \<times> int) list \<Rightarrow> intake_store \<Rightarrow> compaction_report option \<times> intake_store" where
  "groom_ledger now census s = compact_intake_ledger now (map fst census) (Some census) s"

section \<open>Declared retries\<close>

definition RETRYABLE_CAP :: int where "RETRYABLE_CAP = 10"

definition retry_request_id :: "string \<Rightarrow> int \<Rightarrow> string option" where
  "retry_request_id root_id attempt =
     (if blank root_id then None else if attempt < 1 then None else Some (root_id @ ''.retry'' @ dec (nat attempt)))"

definition item_retryable :: "item \<Rightarrow> int option" where
  "item_retryable it =
     (case if_proper_int (jget it ''retryable'') of
        None \<Rightarrow> None | Some n \<Rightarrow> if 1 \<le> n \<and> n \<le> RETRYABLE_CAP then Some n else None)"

definition item_retry_root :: "item \<Rightarrow> string option" where
  "item_retry_root it =
     (case nonempty_str it ''retry_root'' of Some r \<Rightarrow> Some r | None \<Rightarrow> nonempty_str it ''item_id'')"

definition item_retry_attempt :: "item \<Rightarrow> int" where
  "item_retry_attempt it =
     (case if_proper_int (jget it ''retry_attempt'') of None \<Rightarrow> 0 | Some n \<Rightarrow> if n \<ge> 1 then n else 0)"

text \<open>The chains in the order of their first member, members in the order of the fold.\<close>

definition retry_chains :: "item list \<Rightarrow> (string \<times> item list) list" where
  "retry_chains items =
     foldl (\<lambda>chains it. case item_retry_root it of None \<Rightarrow> chains
              | Some r \<Rightarrow> AList.update r ((case map_of chains r of None \<Rightarrow> [] | Some c \<Rightarrow> c) @ [it]) chains)
       [] items"

definition retries_used :: "item list \<Rightarrow> int" where
  "retries_used chain = Max (set (0 # map item_retry_attempt chain))"

fun retry_tip_from :: "item option \<Rightarrow> int \<Rightarrow> item list \<Rightarrow> item option" where
  "retry_tip_from tip best [] = tip"
| "retry_tip_from tip best (it # chain) =
     (if item_retry_attempt it \<ge> best then retry_tip_from (Some it) (item_retry_attempt it) chain
      else retry_tip_from tip best chain)"

definition retry_tip :: "item list \<Rightarrow> item option" where
  "retry_tip chain = retry_tip_from None (- 1) chain"

end
