(* ===== verification/QueueLedgerLaws.thy ===== *)
theory QueueLedgerLaws
  imports QueueLedger
begin

text \<open>
  What the ledger's readers may rely on: a compaction is invisible except for the items it condemns, a
  request is honoured once, and where those guarantees end.
\<close>

section \<open>The fold and a subset of the records\<close>

lemma in_map_filter: "y \<in> set (List.map_filter f xs) \<longleftrightarrow> (\<exists>x\<in>set xs. f x = Some y)"
  by (induction xs) (auto split: option.split)

definition outside :: "string set \<Rightarrow> (string \<times> item) list \<Rightarrow> (string \<times> item) list" where
  "outside K items = filter (\<lambda>(iid, it). iid \<notin> K) items"

lemma outside_simps [simp]:
  "outside K [] = []"
  "outside K ((iid, it) # items) = (if iid \<in> K then outside K items else (iid, it) # outside K items)"
  "outside K (xs @ ys) = outside K xs @ outside K ys"
  by (simp_all add: outside_def)

lemma map_of_outside: "iid \<notin> K \<Longrightarrow> map_of (outside K items) iid = map_of items iid"
  by (induction items) auto

lemma update_outside: "iid \<notin> K \<Longrightarrow> AList.update iid v (outside K items) = outside K (AList.update iid v items)"
  by (induction items) auto

lemma outside_update: "iid \<in> K \<Longrightarrow> outside K (AList.update iid v items) = outside K items"
  by (induction items) auto

definition record_id :: "item \<Rightarrow> string option" where
  "record_id rec = nonempty_str rec ''item_id''"

lemma fold_record_outside:
  "(\<And>iid. record_id rec = Some iid \<Longrightarrow> iid \<notin> K) \<Longrightarrow>
     fold_record (outside K items) (JDict rec) = outside K (fold_record items (JDict rec))"
  by (cases "record_id rec")
     (auto simp: fold_record_def record_id_def map_of_outside update_outside Let_def split: option.split)

lemma fold_record_inside: "record_id rec = Some iid \<Longrightarrow> iid \<in> K \<Longrightarrow> outside K (fold_record items (JDict rec)) = outside K items"
  by (auto simp: fold_record_def record_id_def outside_update Let_def split: option.split)

text \<open>Without the records of some ids the fold is the same, less their items.\<close>

lemma fold_outside:
  "foldl fold_record (outside K items) (map JDict (filter (\<lambda>rec. \<forall>iid. record_id rec = Some iid \<longrightarrow> iid \<notin> K) rs))
     = outside K (foldl fold_record items (map JDict rs))"
proof (induction rs arbitrary: items)
  case (Cons rec rs)
  show ?case
  proof (cases "\<forall>iid. record_id rec = Some iid \<longrightarrow> iid \<notin> K")
    case True
    then show ?thesis using Cons.IH [of "fold_record items (JDict rec)"] by (simp add: fold_record_outside)
  next
    case False
    then obtain iid where "record_id rec = Some iid" "iid \<in> K" by blast
    then show ?thesis using Cons.IH [of "fold_record items (JDict rec)"] False by (simp add: fold_record_inside)
  qed
qed simp

text \<open>Records that open no item are skipped while their item is unopened.\<close>

definition opens :: "item \<Rightarrow> bool" where
  "opens rec \<longleftrightarrow> jget rec ''kind'' = JText ''enqueue''"

lemma fold_record_unopened:
  "record_id rec = Some iid \<Longrightarrow> \<not> opens rec \<Longrightarrow> map_of items iid = None \<Longrightarrow> fold_record items (JDict rec) = items"
  by (simp add: fold_record_def record_id_def opens_def)

lemma fold_record_keys:
  "fst ` set (fold_record items (JDict rec))
     \<subseteq> fst ` set items \<union> {iid. record_id rec = Some iid \<and> opens rec}"
proof (cases rule: fold_record_cases [of items "JDict rec"])
  case 1
  then show ?thesis by simp
next
  case (2 rec' iid it)
  then have "record_id rec = Some iid" "opens rec" by (simp_all add: record_id_def opens_def)
  then show ?thesis unfolding 2(6) by simp
next
  case (3 rec' iid known it)
  have "iid \<in> fst ` set items" using 3(4) by (metis domI dom_map_of_conv_image_fst)
  then show ?thesis unfolding 3(5) by (simp add: dom_update insert_absorb le_supI1)
qed

lemma fold_keys: "fst ` set (foldl fold_record items (map JDict rs))
    \<subseteq> fst ` set items \<union> {iid. \<exists>rec\<in>set rs. record_id rec = Some iid \<and> opens rec}"
proof (induction rs arbitrary: items)
  case (Cons rec rs)
  let ?new = "\<lambda>rs. {iid. \<exists>rec\<in>set rs. record_id rec = Some iid \<and> opens rec}"
  have "?new (rec # rs) = {iid. record_id rec = Some iid \<and> opens rec} \<union> ?new rs" by auto
  then show ?case using Cons.IH [of "fold_record items (JDict rec)"] fold_record_keys [of items rec] by simp blast
qed simp

section \<open>What a compaction removes\<close>

definition going :: "string list \<Rightarrow> (string \<times> int) list option \<Rightarrow> intake_store \<Rightarrow> string set" where
  "going drop_ids witnessed s =
     set (filter (\<lambda>i. i \<noteq> []) drop_ids) - set (raced_items (filter (\<lambda>i. i \<noteq> []) drop_ids) witnessed (lines_of s))"

definition removed :: "string set \<Rightarrow> string set \<Rightarrow> item \<Rightarrow> bool" where
  "removed condemned tombstones rec \<longleftrightarrow>
     (\<exists>iid. record_id rec = Some iid \<and> (iid \<in> condemned \<or> \<not> opens rec \<and> iid \<in> tombstones))"

lemma fate_Object: "line_fate c t (Object rec) = Kept \<longleftrightarrow> \<not> removed c t rec"
  by (auto simp: line_fate_def removed_def record_id_def opens_def split: option.split)

lemma fate_Other [simp]: "line_fate c t (Other x) = Kept"
  by (simp add: line_fate_def)

lemma objects_kept:
  "List.map_filter object_of (with_fate Kept c t ls) = filter (\<lambda>rec. \<not> removed c t rec) (List.map_filter object_of ls)"
proof (induction ls)
  case (Cons l ls)
  then show ?case
    by (cases l) (simp_all add: with_fate_def fate_Object)
qed (simp add: with_fate_def)

lemma others_kept:
  "filter (\<lambda>l. object_of l = None) (with_fate Kept c t ls) = filter (\<lambda>l. object_of l = None) ls"
proof (induction ls)
  case (Cons l ls)
  then show ?case by (cases l) (simp_all add: with_fate_def)
qed (simp add: with_fate_def)

lemma all_kept: "with_fate Dropped c t ls = [] \<Longrightarrow> with_fate Reaped c t ls = [] \<Longrightarrow> with_fate Kept c t ls = ls"
  by (induction ls) (auto simp: with_fate_def split: if_splits intro: fate.exhaust)

text \<open>Every outcome leaves the kept lines, however the two writes end.\<close>

lemma compact_lines:
  "lines_of (snd (compact_writes survives now drop_ids witnessed s))
     = with_fate Kept (going drop_ids witnessed s) (compaction_tombstones s) (lines_of s)"
proof -
  have trivial: "with_fate Kept {} {} ls = ls" for ls
    by (induction ls) (auto simp: with_fate_def line_fate_def split: line.split option.split)
  show ?thesis
  proof (cases "filter (\<lambda>i. i \<noteq> []) drop_ids = [] \<and> compaction_tombstones s = {}")
    case True
    then have "going drop_ids witnessed s = {}" by (simp add: going_def del: set_filter)
    with True show ?thesis by (simp add: compact_writes_def trivial del: set_filter)
  next
    case False
    then show ?thesis
      by (cases "intake_lines s")
         (auto simp: compact_writes_def going_def Let_def lines_of_def with_fate_def [of _ _ _ "[]"] all_kept
               simp del: set_filter split: option.split)
  qed
qed

lemma compact_records:
  "read_intake_records (snd (compact_writes survives now drop_ids witnessed s))
     = filter (\<lambda>rec. \<not> removed (going drop_ids witnessed s) (compaction_tombstones s) rec) (read_intake_records s)"
  by (simp add: read_intake_records_def read_intake_records_counted_def compact_lines objects_kept)

text \<open>No enqueue on the ledger opens an item under a tombstoned id.\<close>

definition fresh_ids :: "intake_store \<Rightarrow> bool" where
  "fresh_ids s \<longleftrightarrow> (\<forall>rec\<in>set (read_intake_records s). opens rec \<longrightarrow>
     (\<forall>iid. record_id rec = Some iid \<longrightarrow> iid \<notin> compaction_tombstones s))"

definition folded :: "intake_store \<Rightarrow> (string \<times> item) list" where
  "folded s = foldl fold_record [] (map JDict (read_intake_records s))"

lemma read_intake_items_folded: "read_intake_items s = map snd (folded s)"
  by (simp add: read_intake_items_def folded_def fold_intake_records_def)

lemma compact_folded:
  assumes "fresh_ids s"
  shows "folded (snd (compact_writes survives now drop_ids witnessed s)) = outside (going drop_ids witnessed s) (folded s)"
proof -
  let ?G = "going drop_ids witnessed s" and ?T = "compaction_tombstones s" and ?rs = "read_intake_records s"
  have f: "filter (\<lambda>rec. \<not> removed ?G ?T rec) ?rs = filter (\<lambda>rec. \<forall>iid. record_id rec = Some iid \<longrightarrow> iid \<notin> ?G \<union> ?T) ?rs"
    using assms by (intro filter_cong) (auto simp: removed_def fresh_ids_def)
  have "iid \<notin> ?T" if "iid \<in> fst ` set (folded s)" for iid
    using that fold_keys [of "[]" ?rs] assms by (auto simp: folded_def fresh_ids_def)
  then have "outside (?G \<union> ?T) (folded s) = outside ?G (folded s)"
    unfolding outside_def by (intro filter_cong) force+
  then show ?thesis
    using fold_outside [of "?G \<union> ?T" "[]" ?rs] by (simp add: folded_def compact_records f)
qed

lemma fold_record_ids:
  assumes "distinct (map fst items)" "\<forall>(iid, it)\<in>set items. jget it ''item_id'' = JText iid"
  shows "distinct (map fst (fold_record items (JDict rec)))
    \<and> (\<forall>(iid, it)\<in>set (fold_record items (JDict rec)). jget it ''item_id'' = JText iid)"
proof (cases rule: fold_record_cases [of items "JDict rec"])
  case 1
  then show ?thesis using assms by simp
next
  case (2 rec' iid it)
  have "jget it ''item_id'' = JText iid" using 2(2,7) by (simp add: nonempty_str_Some)
  then show ?thesis unfolding 2(6) using assms 2(4) by (auto simp: map_of_eq_None_iff)
next
  case (3 rec' iid known it)
  have "(iid, known) \<in> set items" using 3(4) by (rule map_of_SomeD)
  then have "jget it ''item_id'' = JText iid"
    using 3(6) [of "''item_id''"] assms(2) overlay_pinned [OF pinned_keys(1), of rec' known] by auto
  then have "jget t ''item_id'' = JText j" if "(j, t) \<in> set (AList.update iid it items)" for j t
    using set_update_distinct [OF assms(1) that] assms(2) by auto
  then show ?thesis unfolding 3(5) using assms(1) by (auto simp: distinct_update)
qed

lemma folds_ids:
  "distinct (map fst items) \<Longrightarrow> \<forall>(iid, it)\<in>set items. jget it ''item_id'' = JText iid \<Longrightarrow>
    distinct (map fst (foldl fold_record items (map JDict rs)))
    \<and> (\<forall>(iid, it)\<in>set (foldl fold_record items (map JDict rs)). jget it ''item_id'' = JText iid)"
proof (induction rs arbitrary: items)
  case (Cons rec rs)
  show ?case using Cons.IH [of "fold_record items (JDict rec)"] fold_record_ids [OF Cons.prems, of rec] by simp
qed simp

lemma folded_ids: "\<forall>(iid, it)\<in>set (folded s). jget it ''item_id'' = JText iid"
  and folded_distinct: "distinct (map fst (folded s))"
  using folds_ids [of "[]" "read_intake_records s"] by (simp_all add: folded_def)

lemma outside_items:
  "map snd (outside K (folded s)) = filter (\<lambda>it. \<forall>iid\<in>K. jget it ''item_id'' \<noteq> JText iid) (read_intake_items s)"
proof -
  have "map snd (outside K xs) = filter (\<lambda>it. \<forall>iid\<in>K. jget it ''item_id'' \<noteq> JText iid) (map snd xs)"
    if "\<forall>(iid, it)\<in>set xs. jget it ''item_id'' = JText iid" for xs
    using that by (induction xs) auto
  from this [OF folded_ids] show ?thesis by (simp add: read_intake_items_folded)
qed

section \<open>Histories of the ledger\<close>

text \<open>
  The operations that touch the files, each whole under the flock, and lines that other writers leave. A
  compaction may die between its two writes.
\<close>

datatype intake_op =
    Enqueue string item string
  | Place string string string string string string "string option"
  | Compact bool string "string list" "(string \<times> int) list option"
  | Foreign string

fun intake_step :: "intake_store \<Rightarrow> intake_op \<Rightarrow> intake_store" where
  "intake_step s (Enqueue now rec req) = snd (append_intake_item now rec req s)"
| "intake_step s (Place now iid req cl cid why rid) = snd (append_intake_placement now iid req cl cid why rid s)"
| "intake_step s (Compact survives now drop_ids witnessed) = snd (compact_writes survives now drop_ids witnessed s)"
| "intake_step s (Foreign t) = s\<lparr>intake_lines := Some (lines_of s @ [Other t])\<rparr>"

definition intake_run :: "intake_op list \<Rightarrow> intake_store \<Rightarrow> intake_store" where
  "intake_run ops s = foldl intake_step s ops"

definition empty_store :: intake_store where
  "empty_store = \<lparr>intake_lines = None, decodes = True, watermark = None\<rparr>"

text \<open>Request ids are unique on the file, and an enqueue is its own item's minting request.\<close>

definition requests :: "intake_store \<Rightarrow> string list" where
  "requests s = List.map_filter (\<lambda>rec. nonempty_str rec ''request_id'') (read_intake_records s)"

definition ledger_ok :: "intake_store \<Rightarrow> bool" where
  "ledger_ok s \<longleftrightarrow> decodes s \<and> distinct (requests s) \<and> fresh_ids s
     \<and> (\<forall>rec\<in>set (read_intake_records s). opens rec \<longrightarrow> (\<exists>r. nonempty_str rec ''request_id'' = Some r \<and> record_id rec = Some r))"

lemma records_append:
  "read_intake_records (s\<lparr>intake_lines := Some (lines_of s @ [l])\<rparr>)
     = read_intake_records s @ (case object_of l of None \<Rightarrow> [] | Some rec \<Rightarrow> [rec])"
  by (simp add: read_intake_records_def read_intake_records_counted_def lines_of_def map_filter_def split: option.split)

lemma jget_update_all: "jget (update_all kvs d) k = (case map_of (rev kvs) k of None \<Rightarrow> jget d k | Some v \<Rightarrow> v)"
  unfolding update_all_def by (induction kvs rule: rev_induct) (auto simp: jget_update split: prod.split)

lemma enqueue_record_simps [simp]:
  "jget (enqueue_record now rec r) ''kind'' = JText ''enqueue''"
  "jget (enqueue_record now rec r) ''item_id'' = JText r"
  "jget (enqueue_record now rec r) ''request_id'' = JText r"
  "jget (enqueue_record now rec r) ''state'' = JText ''queued''"
  "opens (enqueue_record now rec r)"
  by (simp_all add: enqueue_record_def jget_update_all opens_def)

lemma blank_Nil [simp]: "blank []"
  by (simp add: blank_def py_strip_def)

lemma blank_iff: "blank s \<longleftrightarrow> (\<forall>c\<in>set s. is_space c)"
proof
  assume "blank s"
  then have "dropWhile is_space (rev (dropWhile is_space s)) = []" by (simp add: blank_def py_strip_def)
  then have all: "\<forall>c\<in>set (dropWhile is_space s). is_space c" by (simp only: dropWhile_eq_Nil_conv set_rev)
  have "dropWhile is_space s = []"
  proof (cases "dropWhile is_space s")
    case (Cons c cs)
    then have "\<not> is_space c" by (simp add: dropWhile_eq_Cons_conv)
    with all Cons show ?thesis by simp
  qed
  then show "\<forall>c\<in>set s. is_space c" by (simp only: dropWhile_eq_Nil_conv)
next
  assume "\<forall>c\<in>set s. is_space c"
  then have "dropWhile is_space s = []" by (simp only: dropWhile_eq_Nil_conv)
  then show "blank s" by (simp only: blank_def py_strip_def rev.simps dropWhile.simps)
qed

lemma not_blank: "\<not> blank r \<Longrightarrow> r \<noteq> []"
  by auto

lemma watermark_append [simp]: "compaction_tombstones (s\<lparr>intake_lines := x\<rparr>) = compaction_tombstones s"
  by (simp add: compaction_tombstones_def compaction_watermark_def)

lemma in_requests: "r \<in> set (requests s) \<longleftrightarrow> (\<exists>rec\<in>set (read_intake_records s). jget rec ''request_id'' = JText r \<and> r \<noteq> [])"
  by (simp add: requests_def in_map_filter nonempty_str_Some)

lemma find_dedup_None: "decodes s \<Longrightarrow> r \<noteq> [] \<Longrightarrow>
    find_dedup_record ''request_id'' (JText r) s = None \<longleftrightarrow> r \<notin> set (requests s)"
  unfolding in_requests
  by (auto simp: find_dedup_record_def find_None_iff read_intake_records_def read_intake_records_counted_def)

lemma distinct_map_filter_unique:
  "distinct (List.map_filter f xs) \<Longrightarrow> x \<in> set xs \<Longrightarrow> y \<in> set xs \<Longrightarrow> f x = Some a \<Longrightarrow> f y = Some a \<Longrightarrow> x = y"
proof (induction xs)
  case (Cons z zs)
  then show ?case
    by (cases "f z") (auto simp: in_map_filter)
qed simp

lemma distinct_requests_filter: "distinct (List.map_filter f xs) \<Longrightarrow> distinct (List.map_filter f (filter P xs))"
  by (induction xs) (auto simp: in_map_filter split: option.splits)

text \<open>The deduplicated append on a file that decodes.\<close>

lemma append_jsonl_cases:
  assumes "decodes s" "r \<noteq> []"
  shows "(r \<in> set (requests s) \<and> (\<exists>old. append_jsonl_line rec ''request_id'' (JText r) s = (Replayed old, s)))
    \<or> (r \<notin> set (requests s)
        \<and> append_jsonl_line rec ''request_id'' (JText r) s = (Written, s\<lparr>intake_lines := Some (lines_of s @ [Object rec])\<rparr>))"
  using find_dedup_None [OF assms] by (auto simp: append_jsonl_line_def split: option.split)

lemma append_item_cases:
  assumes "decodes s" "\<not> blank r"
  shows "(r \<in> compaction_tombstones s \<union> set (requests s) \<and> (\<exists>old. append_intake_item now rec r s = (Replayed old, s)))
    \<or> (r \<notin> compaction_tombstones s \<union> set (requests s)
        \<and> append_intake_item now rec r s
            = (Written, s\<lparr>intake_lines := Some (lines_of s @ [Object (enqueue_record now rec r)])\<rparr>))"
  using append_jsonl_cases [OF assms(1) not_blank [OF assms(2)], of "enqueue_record now rec r"] assms(2)
  by (auto simp: append_intake_item_def)

lemma requests_append:
  "requests (s\<lparr>intake_lines := Some (lines_of s @ [l])\<rparr>)
     = requests s @ (case Option.bind (object_of l) (\<lambda>rec. nonempty_str rec ''request_id'') of None \<Rightarrow> [] | Some r \<Rightarrow> [r])"
  by (cases "object_of l") (simp_all add: requests_def records_append map_filter_def split: option.split)

lemma requests_compact:
  "requests (snd (compact_writes survives now d w s))
     = List.map_filter (\<lambda>rec. nonempty_str rec ''request_id'')
         (filter (\<lambda>rec. \<not> removed (going d w s) (compaction_tombstones s) rec) (read_intake_records s))"
  by (simp add: requests_def compact_records)

section \<open>The tombstones of a compaction\<close>

lemma add_new_extends:
  "\<exists>extra. add_new ordered ms = ordered @ extra \<and> length extra \<le> length ms \<and> set (ordered @ extra) = set ordered \<union> set ms"
proof (induction ms arbitrary: ordered)
  case (Cons r ms)
  show ?case
  proof (cases "r \<in> set ordered")
    case True
    with Cons.IH [of ordered] show ?thesis by (auto simp: insert_absorb intro: le_SucI)
  next
    case False
    from Cons.IH [of "ordered @ [r]"] obtain extra where
      "add_new (ordered @ [r]) ms = (ordered @ [r]) @ extra" "length extra \<le> length ms"
      "set ((ordered @ [r]) @ extra) = set (ordered @ [r]) \<union> set ms" by blast
    with False show ?thesis by (intro exI [of _ "r # extra"]) auto
  qed
qed (simp add: exI [of _ "[]"])

lemma set_merged: "set (merged_tombstones prior ms) \<subseteq> set (tombstone_list prior) \<union> set ms"
  using set_last_n add_new_extends [of "tombstone_list prior" ms] unfolding merged_tombstones_def by (metis order_trans order_refl)

lemma tombstones_nonempty: "[] \<notin> set (tombstone_list d)"
proof -
  have "text_of v \<noteq> Some []" for v by (cases v rule: text_of.cases) auto
  then show ?thesis by (auto simp: tombstone_list_def in_map_filter split: jval.split)
qed

lemma minted_nonempty: "[] \<notin> set (minted_ids ls)"
  by (auto simp: minted_ids_def in_map_filter nonempty_str_Some split: Option.bind_split)

lemma text_of_map: "[] \<notin> set xs \<Longrightarrow> List.map_filter text_of (map JText xs) = xs"
  by (induction xs) auto

lemma tombstones_next:
  assumes "next_watermark now prior dropped n = Some d"
  shows "tombstone_list d = merged_tombstones prior (minted_ids dropped)"
proof -
  have "[] \<notin> set (merged_tombstones prior (minted_ids dropped))"
    using set_merged tombstones_nonempty minted_nonempty by blast
  moreover have "jget d ''tombstoned_request_ids'' = JList (map JText (merged_tombstones prior (minted_ids dropped)))"
    using assms by (auto simp: next_watermark_def split: option.splits)
  ultimately show ?thesis unfolding tombstone_list_def by (simp add: text_of_map)
qed

definition counters_ok :: "intake_store \<Rightarrow> bool" where
  "counters_ok s \<longleftrightarrow> (\<forall>key\<in>{''compactions'', ''items_compacted'', ''records_dropped''}. counter (compaction_watermark s) key \<noteq> None)"

lemma next_watermark_Some: "counters_ok s \<Longrightarrow> \<exists>d. next_watermark now (compaction_watermark s) ls n = Some d"
  by (auto simp: counters_ok_def next_watermark_def)

lemma next_counters:
  assumes "next_watermark now prior ls n = Some d" and "watermark s = Some (JDict d)"
  shows "counters_ok s"
proof -
  have "jint (or_zero (JInt k)) \<noteq> None" for k by (simp add: or_zero_def)
  then show ?thesis using assms
    by (auto simp: counters_ok_def counter_def compaction_watermark_def next_watermark_def split: option.splits)
qed

text \<open>The ids a step puts into the watermark.\<close>

fun minted_by :: "intake_store \<Rightarrow> intake_op \<Rightarrow> string list" where
  "minted_by s (Compact True now d w) =
     minted_ids (with_fate Dropped (going d w s) (compaction_tombstones s) (lines_of s))"
| "minted_by s _ = []"

lemma compact_watermark:
  fixes s :: intake_store
  assumes "s' = snd (compact_writes survives now d w s)"
  shows "watermark s' = watermark s
    \<or> (survives \<and> (\<exists>wm n. watermark s' = Some (JDict wm)
          \<and> next_watermark now (compaction_watermark s)
              (with_fate Dropped (going d w s) (compaction_tombstones s) (lines_of s)) n = Some wm))"
proof (cases "filter (\<lambda>i. i \<noteq> []) d = [] \<and> compaction_tombstones s = {}")
  case True
  then show ?thesis by (simp add: assms compact_writes_def)
next
  case False
  then show ?thesis
    by (cases "intake_lines s")
       (auto simp: assms compact_writes_def going_def Let_def lines_of_def simp del: set_filter split: option.split)
qed

section \<open>The invariant of the ledger\<close>

lemma records_keep_watermark [simp]:
  "read_intake_records (s\<lparr>watermark := x\<rparr>) = read_intake_records s" "requests (s\<lparr>watermark := x\<rparr>) = requests s"
  by (simp_all add: read_intake_records_def read_intake_records_counted_def lines_of_def requests_def)

lemma dropped_record:
  assumes "r \<in> set (minted_ids (with_fate Dropped c t (lines_of s)))"
  obtains rec where "rec \<in> set (read_intake_records s)" "removed c t rec" "nonempty_str rec ''request_id'' = Some r"
proof -
  from assms obtain l rec where l: "l \<in> set (lines_of s)" "line_fate c t l = Dropped" "object_of l = Some rec"
      and r: "nonempty_str rec ''request_id'' = Some r"
    by (auto simp: minted_ids_def with_fate_def in_map_filter split: Option.bind_splits)
  have "l = Object rec" using l(3) by (cases l) simp_all
  with l(2) have "removed c t rec" using fate_Object [of c t rec] by auto
  moreover have "rec \<in> set (read_intake_records s)"
    using l(1,3) by (auto simp: read_intake_records_def read_intake_records_counted_def in_map_filter)
  ultimately show thesis using r by (intro that)
qed

lemma compact_tombstones:
  "compaction_tombstones (snd (compact_writes survives now d w s))
     \<subseteq> compaction_tombstones s \<union> set (minted_by s (Compact survives now d w))"
proof -
  let ?s' = "snd (compact_writes survives now d w s)"
  consider "watermark ?s' = watermark s"
    | wm n where "survives" "watermark ?s' = Some (JDict wm)"
        "next_watermark now (compaction_watermark s) (with_fate Dropped (going d w s) (compaction_tombstones s) (lines_of s)) n = Some wm"
    using compact_watermark [OF refl, of survives now d w s] by blast
  then show ?thesis
  proof cases
    case 1
    then have "compaction_tombstones ?s' = compaction_tombstones s"
      by (simp add: compaction_tombstones_def compaction_watermark_def)
    then show ?thesis by simp
  next
    case 2
    then have "compaction_tombstones ?s' = set (tombstone_list wm)"
      by (simp add: compaction_tombstones_def compaction_watermark_def)
    then show ?thesis
      using tombstones_next [OF 2(3)] set_merged [of "compaction_watermark s"] 2(1)
      by (simp add: compaction_tombstones_def)
  qed
qed

definition enqueues_ok :: "intake_store \<Rightarrow> bool" where
  "enqueues_ok s \<longleftrightarrow> (\<forall>rec\<in>set (read_intake_records s). opens rec \<longrightarrow>
     (\<exists>r. nonempty_str rec ''request_id'' = Some r \<and> record_id rec = Some r))"

lemma ledger_ok_alt: "ledger_ok s \<longleftrightarrow> decodes s \<and> distinct (requests s) \<and> fresh_ids s \<and> enqueues_ok s"
  by (simp add: ledger_ok_def enqueues_ok_def)

lemma ok_append_item:
  assumes "ledger_ok s"
  shows "ledger_ok (snd (append_intake_item now rec r s))"
proof (cases "blank r \<or> r \<in> compaction_tombstones s \<union> set (requests s)")
  case True
  then show ?thesis
    using append_item_cases [of s r now rec] assms by (cases "blank r") (auto simp: append_intake_item_def ledger_ok_def)
next
  case False
  then show ?thesis
    using append_item_cases [of s r now rec] assms not_blank [of r]
    by (auto simp: ledger_ok_alt requests_append fresh_ids_def enqueues_ok_def records_append record_id_def nonempty_str_def)
qed

lemma not_opens_placement [simp]: "\<not> opens (placement_record now iid req cl cid why rid)"
  by (simp add: opens_def placement_record_def)

lemma ok_append_placement:
  assumes "ledger_ok s"
  shows "ledger_ok (snd (append_intake_placement now iid req cl cid why rid s))"
proof (cases "blank iid \<or> blank req \<or> req = iid")
  case True
  then show ?thesis using assms by (simp add: append_intake_placement_def)
next
  case False
  let ?rec = "placement_record now iid req cl cid why rid"
  have r: "nonempty_str ?rec ''request_id'' = Some req"
    using False not_blank [of req] by (simp add: placement_record_def nonempty_str_Some)
  from False show ?thesis
    using append_jsonl_cases [of s req ?rec] assms r not_blank [of req]
    by (auto simp: append_intake_placement_def ledger_ok_alt requests_append fresh_ids_def enqueues_ok_def records_append)
qed

lemma ok_compact:
  assumes "ledger_ok s"
  shows "ledger_ok (snd (compact_writes survives now d w s))"
proof -
  let ?s' = "snd (compact_writes survives now d w s)" and ?c = "going d w s" and ?t = "compaction_tombstones s"
  have "decodes ?s'" using assms by (auto simp: compact_writes_def Let_def ledger_ok_def split: option.split)
  moreover have "distinct (requests ?s')"
    unfolding requests_compact using assms by (intro distinct_requests_filter) (simp add: ledger_ok_def requests_def)
  moreover have "enqueues_ok ?s'" using assms by (auto simp: enqueues_ok_def compact_records ledger_ok_def)
  moreover have "iid \<notin> compaction_tombstones ?s'"
    if rec: "rec \<in> set (read_intake_records s)" "\<not> removed ?c ?t rec" "opens rec" "record_id rec = Some iid" for rec iid
  proof
    assume "iid \<in> compaction_tombstones ?s'"
    moreover have "iid \<notin> ?t" using rec assms by (auto simp: ledger_ok_def fresh_ids_def)
    ultimately have "iid \<in> set (minted_by s (Compact survives now d w))" using compact_tombstones by blast
    then have "iid \<in> set (minted_ids (with_fate Dropped ?c ?t (lines_of s)))" by (cases survives) simp_all
    then obtain rec' where r': "rec' \<in> set (read_intake_records s)" "removed ?c ?t rec'" "nonempty_str rec' ''request_id'' = Some iid"
      by (rule dropped_record)
    have "nonempty_str rec ''request_id'' = Some iid" using rec assms by (auto simp: ledger_ok_def)
    with r' rec(1) have "rec = rec'"
      using distinct_map_filter_unique [of "\<lambda>rec. nonempty_str rec ''request_id''" "read_intake_records s" rec rec' iid] assms
      by (simp add: ledger_ok_def requests_def)
    with rec(2) r'(2) show False by simp
  qed
  then have "fresh_ids ?s'" by (auto simp: fresh_ids_def compact_records)
  ultimately show ?thesis by (simp add: ledger_ok_alt)
qed

lemma ok_step: "ledger_ok s \<Longrightarrow> ledger_ok (intake_step s op)"
proof (cases op)
  case (Foreign t)
  assume "ledger_ok s"
  then show ?thesis unfolding Foreign intake_step.simps
    by (simp add: ledger_ok_alt requests_append fresh_ids_def enqueues_ok_def records_append)
qed (simp_all add: ok_append_item ok_append_placement ok_compact)

lemma ok_run: "ledger_ok s \<Longrightarrow> ledger_ok (intake_run ops s)"
  unfolding intake_run_def by (induction ops arbitrary: s) (simp_all add: ok_step)

lemma ok_empty [simp]: "ledger_ok empty_store"
  by (simp add: ledger_ok_alt empty_store_def fresh_ids_def enqueues_ok_def requests_def read_intake_records_def
      read_intake_records_counted_def lines_of_def)

lemma counters_step: "counters_ok s \<Longrightarrow> counters_ok (intake_step s op)"
proof (cases op)
  case (Compact survives now d w)
  assume "counters_ok s"
  then show ?thesis
    using compact_watermark [OF refl, of survives now d w s] next_counters
    by (auto simp: Compact) (auto simp: counters_ok_def compaction_watermark_def)
qed (auto simp: append_intake_item_def append_intake_placement_def append_jsonl_line_def counters_ok_def
       compaction_watermark_def split: option.splits)

lemma counters_run: "counters_ok s \<Longrightarrow> counters_ok (intake_run ops s)"
  unfolding intake_run_def by (induction ops arbitrary: s) (simp_all add: counters_step)

lemma counters_empty [simp]: "counters_ok empty_store"
  by (simp add: counters_ok_def counter_def compaction_watermark_def empty_store_def or_zero_def)

section \<open>A request is honoured once\<close>

definition honoured :: "string \<Rightarrow> nat \<Rightarrow> intake_store \<Rightarrow> bool" where
  "honoured r k s \<longleftrightarrow>
     (\<exists>rec\<in>set (read_intake_records s). opens rec \<and> record_id rec = Some r)
     \<or> (\<exists>pre post. tombstone_list (compaction_watermark s) = pre @ r # post \<and> length post < k)"

fun survives :: "intake_op \<Rightarrow> bool" where
  "survives (Compact b now d w) = b"
| "survives _ = True"

fun minted_total :: "intake_store \<Rightarrow> intake_op list \<Rightarrow> nat" where
  "minted_total s [] = 0"
| "minted_total s (op # ops) = length (minted_by s op) + minted_total (intake_step s op) ops"

lemma last_n_keeps: "length post < n \<Longrightarrow> \<exists>pre'. last_n n (pre @ r # post) = pre' @ r # post"
  by (intro exI [of _ "drop (length pre + Suc (length post) - n) pre"]) (simp add: last_n_def)

lemma compact_written:
  assumes "counters_ok s" "with_fate Dropped (going d w s) (compaction_tombstones s) (lines_of s) \<noteq> []"
  shows "tombstone_list (compaction_watermark (snd (compact_writes True now d w s)))
     = merged_tombstones (compaction_watermark s) (minted_by s (Compact True now d w))"
proof -
  let ?dr = "with_fate Dropped (going d w s) (compaction_tombstones s) (lines_of s)"
  have "\<not> (filter (\<lambda>i. i \<noteq> []) d = [] \<and> compaction_tombstones s = {})"
  proof
    assume "filter (\<lambda>i. i \<noteq> []) d = [] \<and> compaction_tombstones s = {}"
    then have "going d w s = {}" "compaction_tombstones s = {}" by (simp_all add: going_def del: set_filter)
    moreover have "with_fate Dropped {} {} ls = []" for ls
      by (induction ls) (auto simp: with_fate_def line_fate_def split: line.split option.split)
    ultimately show False using assms(2) by simp
  qed
  moreover have "intake_lines s \<noteq> None" using assms(2) by (auto simp: lines_of_def with_fate_def split: option.splits)
  moreover then obtain ls where ls: "intake_lines s = Some ls" by blast
  obtain wm where wm: "next_watermark now (compaction_watermark s) ?dr
      (length (with_fate Kept (going d w s) (compaction_tombstones s) (lines_of s))) = Some wm"
    using next_watermark_Some [OF assms(1)] by blast
  ultimately have "watermark (snd (compact_writes True now d w s)) = Some (JDict wm)"
    using assms(2) ls by (auto simp: compact_writes_def going_def Let_def lines_of_def simp del: set_filter)
  then show ?thesis using tombstones_next [OF wm] by (simp add: compaction_watermark_def)
qed

lemma honoured_compact:
  assumes "ledger_ok s" "counters_ok s" "honoured r k s"
    and "k + length (minted_by s (Compact True now d w)) \<le> TOMBSTONE_CAP"
  shows "honoured r (k + length (minted_by s (Compact True now d w))) (snd (compact_writes True now d w s))"
proof -
  let ?s' = "snd (compact_writes True now d w s)" and ?ms = "minted_by s (Compact True now d w)"
  let ?c = "going d w s" and ?t = "compaction_tombstones s" and ?old = "tombstone_list (compaction_watermark s)"
  let ?dr = "with_fate Dropped ?c ?t (lines_of s)"
  obtain extra where extra: "add_new ?old ?ms = ?old @ extra" "length extra \<le> length ?ms" "set (?old @ extra) = set ?old \<union> set ?ms"
    using add_new_extends by blast
  from assms(3) consider rec where "rec \<in> set (read_intake_records s)" "opens rec" "record_id rec = Some r"
    | pre post where "?old = pre @ r # post" "length post < k"
    unfolding honoured_def by blast
  then show ?thesis
  proof cases
    case 1
    show ?thesis
    proof (cases "removed ?c ?t rec")
      case False
      with 1 show ?thesis by (auto simp: honoured_def compact_records)
    next
      case True
      with 1 have "r \<in> ?c" by (auto simp: removed_def)
      obtain l where l: "l \<in> set (lines_of s)" "object_of l = Some rec"
        using 1(1) by (auto simp: read_intake_records_def read_intake_records_counted_def in_map_filter)
      have "l = Object rec" using l(2) by (cases l) simp_all
      then have "line_fate ?c ?t l = Dropped" using \<open>r \<in> ?c\<close> 1(3) by (simp add: line_fate_def record_id_def)
      then have dr: "l \<in> set ?dr" using l(1) by (simp add: with_fate_def)
      moreover have "nonempty_str rec ''request_id'' = Some r" using assms(1) 1 by (auto simp: ledger_ok_def)
      ultimately have r: "r \<in> set ?ms" using l(2)
        by (simp add: minted_ids_def in_map_filter bexI [of _ l])
      have "r \<notin> set ?old" using assms(1) 1 by (auto simp: ledger_ok_def fresh_ids_def compaction_tombstones_def)
      then have "r \<in> set extra" using r extra(3) by auto
      then obtain e1 e2 where e: "extra = e1 @ r # e2" by (auto dest: split_list)
      then have "length e2 < length ?ms" using extra(2) by simp
      then have "length e2 < TOMBSTONE_CAP" using assms(4) by linarith
      from last_n_keeps [OF this, of "?old @ e1" r]
      obtain pre where "merged_tombstones (compaction_watermark s) ?ms = pre @ r # e2"
        unfolding merged_tombstones_def extra(1) e by auto
      moreover have "tombstone_list (compaction_watermark ?s') = merged_tombstones (compaction_watermark s) ?ms"
        using compact_written [OF assms(2)] dr by (metis empty_iff list.set(1))
      ultimately show ?thesis using \<open>length e2 < length ?ms\<close> unfolding honoured_def by (metis trans_less_add2)
    qed
  next
    case 2
    have len: "length (post @ extra) < k + length ?ms" using 2(2) extra(2) by simp
    then have "length (post @ extra) < TOMBSTONE_CAP" using assms(4) by linarith
    from last_n_keeps [OF this, of pre r] obtain pre' where
      "last_n TOMBSTONE_CAP (pre @ r # post @ extra) = pre' @ r # post @ extra" by blast
    then have m: "merged_tombstones (compaction_watermark s) ?ms = pre' @ r # post @ extra"
      unfolding merged_tombstones_def extra(1) by (simp add: 2(1))
    show ?thesis
    proof (cases "?dr = []")
      case False
      from compact_written [OF assms(2) this] m len show ?thesis unfolding honoured_def by metis
    next
      case True
      have "watermark ?s' = watermark s \<or> tombstone_list (compaction_watermark ?s') = pre' @ r # post @ extra"
        using compact_watermark [OF refl, of True now d w s] tombstones_next m
        by (auto simp: compaction_watermark_def)
      with 2 len show ?thesis unfolding honoured_def compaction_watermark_def
        by (metis trans_less_add1)
    qed
  qed
qed

lemma honoured_step:
  assumes "ledger_ok s" "counters_ok s" "honoured r k s" "survives op"
    and "k + length (minted_by s op) \<le> TOMBSTONE_CAP"
  shows "honoured r (k + length (minted_by s op)) (intake_step s op)"
proof (cases op)
  case (Compact b now d w)
  then show ?thesis using honoured_compact [OF assms(1-3), of now d w] assms(4,5) by simp
next
  case (Enqueue now rec req)
  then show ?thesis using assms(3)
    by (auto simp: append_intake_item_def append_jsonl_line_def honoured_def records_append compaction_watermark_def split: option.split)
next
  case (Place now iid req cl cid why rid)
  then show ?thesis using assms(3)
    by (auto simp: append_intake_placement_def append_jsonl_line_def honoured_def records_append compaction_watermark_def split: option.split)
next
  case (Foreign t)
  show ?thesis unfolding Foreign intake_step.simps using assms(3)
    by (simp add: honoured_def records_append compaction_watermark_def)
qed

lemma honoured_run:
  "ledger_ok s \<Longrightarrow> counters_ok s \<Longrightarrow> honoured r k s \<Longrightarrow> list_all survives ops
    \<Longrightarrow> k + minted_total s ops \<le> TOMBSTONE_CAP \<Longrightarrow> honoured r (k + minted_total s ops) (intake_run ops s)"
proof (induction ops arbitrary: s k)
  case (Cons op ops)
  have "honoured r (k + length (minted_by s op)) (intake_step s op)"
    using Cons.prems by (intro honoured_step) auto
  from Cons.IH [OF ok_step [OF Cons.prems(1)] counters_step [OF Cons.prems(2)] this] Cons.prems(4,5)
  show ?case by (simp add: intake_run_def ac_simps)
qed (simp add: intake_run_def)

lemma honoured_replays:
  assumes "ledger_ok s" "honoured r k s" "\<not> blank r"
  shows "\<exists>old. append_intake_item now rec r s = (Replayed old, s)"
proof -
  have "r \<in> compaction_tombstones s \<union> set (requests s)"
  proof (cases "r \<in> compaction_tombstones s")
    case False
    then obtain rec where "rec \<in> set (read_intake_records s)" "opens rec" "record_id rec = Some r"
      using assms(2) by (auto simp: honoured_def compaction_tombstones_def)
    then have "nonempty_str rec ''request_id'' = Some r" using assms(1) by (auto simp: ledger_ok_def)
    with \<open>rec \<in> set (read_intake_records s)\<close> have "r \<in> set (requests s)"
      unfolding in_requests nonempty_str_Some by blast
    then show ?thesis by simp
  qed simp
  with append_item_cases [of s r now rec] assms(1,3) show ?thesis by (auto simp: ledger_ok_def)
qed

text \<open>C4: (compaction is invisible) On a ledger written by any history of enqueues, placements, compactions and
  foreign lines, a compaction, whether it completes or dies between its two writes, takes from the folded
  items exactly the condemned ones whose record count has not moved since the census, and leaves every
  other item as it was, with its place, its state and its record count; the count of unreadable lines,
  the only evidence of lost data, stays the same.\<close>

theorem compaction_is_invisible:
  "let s = intake_run ops empty_store; s' = snd (compact_writes finishes now drop_ids witnessed s)
   in read_intake_items s'
        = filter (\<lambda>it. jget it ''item_id'' \<notin> JText ` going drop_ids witnessed s) (read_intake_items s)
      \<and> snd (read_intake_records_counted s') = snd (read_intake_records_counted s)"
proof -
  let ?s = "intake_run ops empty_store"
  let ?s' = "snd (compact_writes finishes now drop_ids witnessed ?s)"
  have "ledger_ok ?s" by (rule ok_run) simp
  then have "fresh_ids ?s" by (simp add: ledger_ok_def)
  then have "read_intake_items ?s' = map snd (outside (going drop_ids witnessed ?s) (folded ?s))"
    unfolding read_intake_items_folded by (simp add: compact_folded)
  also have "\<dots> = filter (\<lambda>it. jget it ''item_id'' \<notin> JText ` going drop_ids witnessed ?s) (read_intake_items ?s)"
    unfolding outside_items by (rule filter_cong [OF refl]) auto
  finally show ?thesis by (simp add: Let_def read_intake_records_counted_def compact_lines others_kept)
qed



section \<open>Where the guarantee ends\<close>

text \<open>The two writes of a compaction. The ledger is replaced before the watermark is. If the process dies in
  between, every item the compaction condemned has lost its dedup entry without gaining a tombstone: a
  replay of its enqueue, on whatever history the ledger had, is written as a new item.\<close>

lemma crash_between_the_writes:
  assumes "s = intake_run ops empty_store"
    and "rec \<in> set (read_intake_records s)" "opens rec" "record_id rec = Some r"
    and "r \<in> going drop_ids witnessed s" "\<not> blank r"
  shows "fst (append_intake_item now' rec' r (snd (compact_writes False now drop_ids witnessed s))) = Written"
proof -
  let ?s' = "snd (compact_writes False now drop_ids witnessed s)"
  have ok: "ledger_ok s" unfolding assms(1) by (rule ok_run) simp
  have ok': "ledger_ok ?s'" by (rule ok_compact [OF ok])
  have req: "nonempty_str rec ''request_id'' = Some r" using ok assms(2-4) by (auto simp: ledger_ok_def)
  have "watermark ?s' = watermark s" using compact_watermark [OF refl, of False now drop_ids witnessed s] by simp
  then have t: "compaction_tombstones ?s' = compaction_tombstones s" by (simp add: compaction_tombstones_def compaction_watermark_def)
  have "r \<notin> compaction_tombstones s" using ok assms(2-4) by (auto simp: ledger_ok_def fresh_ids_def)
  moreover have "r \<notin> set (requests ?s')"
  proof
    assume "r \<in> set (requests ?s')"
    then obtain rec2 where r2: "rec2 \<in> set (read_intake_records s)"
        "\<not> removed (going drop_ids witnessed s) (compaction_tombstones s) rec2" "nonempty_str rec2 ''request_id'' = Some r"
      unfolding requests_compact by (auto simp: in_map_filter)
    then have "rec = rec2"
      using distinct_map_filter_unique [of "\<lambda>rec. nonempty_str rec ''request_id''" "read_intake_records s" rec rec2 r]
        ok req assms(2) by (simp add: ledger_ok_def requests_def)
    with r2(2) assms(4,5) show False by (auto simp: removed_def)
  qed
  ultimately show ?thesis
    using append_item_cases [OF _ assms(6), of ?s' now' rec'] ok' t by (auto simp: ledger_ok_def)
qed

lemmas append_eval = append_intake_item_def append_jsonl_line_def find_dedup_record_def empty_store_def lines_of_def blank_def
  text_simps compaction_tombstones_def compaction_watermark_def tombstone_list_def List.map_filter_simps

lemma one_item: "intake_run [Enqueue ''t'' [] ''a''] empty_store
    = \<lparr>intake_lines = Some [Object (enqueue_record ''t'' [] ''a'')], decodes = True, watermark = None\<rparr>"
  by (simp add: intake_run_def append_eval)

lemma crash_between_the_writes_witness:
  "fst (append_intake_item ''t3'' [] ''a'' (snd (compact_writes False ''t2'' [''a''] None
     (intake_run [Enqueue ''t'' [] ''a''] empty_store)))) = Written"
proof (rule crash_between_the_writes [OF refl])
  show "enqueue_record ''t'' [] ''a'' \<in> set (read_intake_records (intake_run [Enqueue ''t'' [] ''a''] empty_store))"
    by (simp add: one_item read_intake_records_def read_intake_records_counted_def lines_of_def List.map_filter_simps)
qed (simp_all add: record_id_def nonempty_str_def going_def raced_items_def blank_def text_simps)

text \<open>The fold of one more record.\<close>

lemma items_append: "folded (s\<lparr>intake_lines := Some (lines_of s @ [Object rec])\<rparr>) = fold_record (folded s) (JDict rec)"
  by (simp add: folded_def records_append)

lemma distinct_update_all: "distinct (map fst d) \<Longrightarrow> distinct (map fst (update_all kvs d))"
  unfolding update_all_def by (induction kvs arbitrary: d) (auto simp: distinct_update)

text \<open>One byte switches the replay guard off. The dedup scan gives up on a file that is not valid UTF-8, while
  the readers replace the bytes and go on. With such a byte anywhere on the ledger, a replayed enqueue of a
  request that is not tombstoned is always written, and an item that had been placed reads queued again, so
  that placement and dispatch see it a second time.\<close>

lemma undecodable_replay_requeues:
  assumes "\<not> decodes s" "\<not> blank r" "r \<notin> compaction_tombstones s" "distinct (map fst rec)"
    and "map_of (folded s) r = Some it"
  shows "\<exists>s' it'. append_intake_item now rec r s = (Written, s')
    \<and> map_of (folded s') r = Some it' \<and> jget it' ''state'' = JText ''queued''"
proof -
  let ?rec = "enqueue_record now rec r"
  let ?s' = "s\<lparr>intake_lines := Some (lines_of s @ [Object ?rec])\<rparr>"
  have w: "append_intake_item now rec r s = (Written, ?s')"
    using assms(1-3) by (simp add: append_intake_item_def append_jsonl_line_def find_dedup_record_def)
  have d: "distinct (map fst ?rec)" unfolding enqueue_record_def by (rule distinct_update_all [OF assms(4)])
  have id: "nonempty_str ?rec ''item_id'' = Some r" using not_blank [OF assms(2)] by (simp add: nonempty_str_Some)
  have st: "in_intake_state (jget ?rec ''state'')" by (simp add: in_intake_state_def INTAKE_STATES_def)
  obtain it' where it': "fold_record (folded s) (JDict ?rec) = AList.update r it' (folded s)"
      "jget it' ''state'' = jget (overlay ?rec it) ''state''"
  proof (cases rule: fold_record_cases [of "folded s" "JDict ?rec"])
    case 1
    have "fold_record (folded s) (JDict ?rec) = AList.update r
        (let it = overlay ?rec it;
             it = AList.update ''updated_at'' (case map_of ?rec ''ts'' of Some t \<Rightarrow> t | None \<Rightarrow> jget it ''updated_at'') it
         in AList.update ''record_count'' (JInt (record_count_of it + 1)) it) (folded s)"
      using id st assms(5) by (simp add: fold_record_def Let_def)
    then show thesis by (rule that) (simp add: Let_def jget_update)
  next
    case (2 rec' iid it')
    then show thesis using id assms(5) by simp
  next
    case (3 rec' iid known it')
    then show thesis using id assms(5) by (intro that [of it']) simp_all
  qed
  have "map_of ?rec ''state'' = Some (JText ''queued'')"
    using enqueue_record_simps(4) [of now rec r] by (simp add: jget_def split: option.splits)
  then have "jget (overlay ?rec it) ''state'' = JText ''queued''"
    using overlay_other [OF d pinned_keys(5)] by simp
  with w it' show ?thesis by (auto simp: items_append update_conv')
qed

text \<open>A namesake swallows the placement. The placement token of item \<open>a\<close> is \<open>a.placed\<close>, which is also a legal
  request id of its own. On a ledger that holds an item of that name, the placement of \<open>a\<close> is taken for a replay:
  nothing is written, and \<open>a\<close> stays as it was.\<close>

lemma placement_lost_to_namesake:
  assumes "s = intake_run ops empty_store" "placement_request_id a = Some token"
    and "rec \<in> set (read_intake_records s)" "opens rec" "record_id rec = Some token"
  shows "\<exists>old. append_intake_placement now a token cl cid why rid s = (Replayed old, s)"
proof -
  have ok: "ledger_ok s" unfolding assms(1) by (rule ok_run) simp
  have t: "token = a @ ''.placed''" "\<not> blank a" using assms(2) by (auto simp: placement_request_id_def split: if_splits)
  have "nonempty_str rec ''request_id'' = Some token" using ok assms(3-5) by (auto simp: ledger_ok_def)
  then have "token \<in> set (requests s)" unfolding in_requests using assms(3) by (auto simp: nonempty_str_Some)
  then have "\<exists>old. append_jsonl_line r ''request_id'' (JText token) s = (Replayed old, s)" for r
    using append_jsonl_cases [of s token r] ok t by (auto simp: ledger_ok_def)
  moreover have "\<not> blank token"
    unfolding t blank_iff by (simp add: is_space_def)
  ultimately show ?thesis using t by (simp add: append_intake_placement_def)
qed

lemma placement_lost_to_namesake_witness:
  "\<exists>old. append_intake_placement ''t2'' ''a'' ''a.placed'' ''c'' ''b_c'' [] None
      (intake_run [Enqueue ''t'' [] ''a'', Enqueue ''t'' [] ''a.placed''] empty_store)
    = (Replayed old, intake_run [Enqueue ''t'' [] ''a'', Enqueue ''t'' [] ''a.placed''] empty_store)"
proof (rule placement_lost_to_namesake [OF refl])
  show "enqueue_record ''t'' [] ''a.placed''
      \<in> set (read_intake_records (intake_run [Enqueue ''t'' [] ''a'', Enqueue ''t'' [] ''a.placed''] empty_store))"
    by (simp add: intake_run_def append_eval read_intake_records_def read_intake_records_counted_def)
qed (simp_all add: record_id_def nonempty_str_def placement_request_id_def blank_def text_simps)

definition torn_store :: intake_store where
  "torn_store = \<lparr>intake_lines = Some [Object (enqueue_record ''t1'' [] ''a''),
     Object (placement_record ''t2'' ''a'' ''a.placed'' ''c'' ''b_c'' [] None), Other ''x''], decodes = False, watermark = None\<rparr>"

lemma undecodable_replay_requeues_witness:
  "\<exists>s' it'. append_intake_item ''t3'' [] ''a'' torn_store = (Written, s')
    \<and> map_of (folded s') ''a'' = Some it' \<and> jget it' ''state'' = JText ''queued''"
proof (rule undecodable_replay_requeues)
  show "map_of (folded torn_store) ''a'' = Some (the (map_of (folded torn_store) ''a''))"
    by (simp add: torn_store_def folded_def read_intake_records_def read_intake_records_counted_def lines_of_def
        List.map_filter_simps fold_record_def enqueue_record_def update_all_def nonempty_str_def in_intake_state_def INTAKE_STATES_def
        placement_record_def Let_def update_conv')
qed (simp_all add: torn_store_def blank_def text_simps compaction_tombstones_def compaction_watermark_def tombstone_list_def)

section \<open>Grooming while others append\<close>

definition records_for :: "string \<Rightarrow> item list \<Rightarrow> nat" where
  "records_for iid rs = length (filter (\<lambda>rec. record_id rec = Some iid) rs)"

lemma counted_records: "counted (lines_of s) iid
    = (if records_for iid (read_intake_records s) = 0 then None else Some (int (records_for iid (read_intake_records s))))"
proof -
  have "length (filter (\<lambda>l. line_item_id l = Some iid) ls) = records_for iid (List.map_filter object_of ls)" for ls
  proof (induction ls)
    case (Cons l ls)
    then show ?case by (cases l) (auto simp: records_for_def line_item_id_def record_id_def)
  qed (simp add: records_for_def)
  then show ?thesis by (simp add: counted_def read_intake_records_def read_intake_records_counted_def)
qed

text \<open>Only an enqueue may carry a record count of its own; the one the fold keeps is overwritten there.\<close>

definition plain_transitions :: "item list \<Rightarrow> bool" where
  "plain_transitions rs \<longleftrightarrow> (\<forall>rec\<in>set rs. \<not> opens rec \<longrightarrow> map_of rec ''record_count'' = None)"

definition opened_once :: "item list \<Rightarrow> bool" where
  "opened_once rs \<longleftrightarrow> distinct (List.map_filter (\<lambda>rec. if opens rec then record_id rec else None) rs)"

lemma overlay_absent: "map_of rec key = None \<Longrightarrow> map_of (overlay rec known) key = map_of known key"
proof (induction rec arbitrary: known)
  case (Cons kv rec)
  obtain k v where "kv = (k, v)" by (cases kv)
  with Cons show ?case by (auto simp: overlay_def update_conv' split: if_splits)
qed (simp add: overlay_def)

lemma folded_count:
  assumes "plain_transitions rs" "opened_once rs"
  shows "\<forall>(iid, it)\<in>set (foldl fold_record [] (map JDict rs)).
    \<exists>n. map_of it ''record_count'' = Some (JInt n) \<and> 1 \<le> n \<and> n \<le> int (records_for iid rs)"
  using assms
proof (induction rs rule: rev_induct)
  case (snoc rec rs)
  let ?items = "foldl fold_record [] (map JDict rs)"
  have "plain_transitions rs" "opened_once rs"
    using snoc.prems by (auto simp: plain_transitions_def opened_once_def map_filter_def split: if_splits option.splits)
  note IH = snoc.IH [OF this]
  have mono: "records_for iid rs \<le> records_for iid (rs @ [rec])" for iid by (simp add: records_for_def)
  have old: "\<exists>n. map_of it ''record_count'' = Some (JInt n) \<and> 1 \<le> n \<and> n \<le> int (records_for iid (rs @ [rec]))"
    if m: "(iid, it) \<in> set ?items" for iid it
  proof -
    from bspec [OF IH m] obtain n where n: "map_of it ''record_count'' = Some (JInt n)" "1 \<le> n" "n \<le> int (records_for iid rs)"
      by auto
    with mono [of iid] have "n \<le> int (records_for iid (rs @ [rec]))" by linarith
    with n show ?thesis by blast
  qed
  show ?case
  proof (cases "\<exists>iid. record_id rec = Some iid \<and> in_intake_state (jget rec ''state'') \<and> (map_of ?items iid \<noteq> None \<or> opens rec)")
    case False
    then have "fold_record ?items (JDict rec) = ?items"
      by (auto simp: fold_record_def record_id_def opens_def split: option.split)
    with old show ?thesis by auto
  next
    case True
    then obtain iid where r: "record_id rec = Some iid" "in_intake_state (jget rec ''state'')" "map_of ?items iid \<noteq> None \<or> opens rec"
      by blast
    have more: "records_for iid (rs @ [rec]) = records_for iid rs + 1" using r(1) by (simp add: records_for_def)
    show ?thesis
    proof (cases "map_of ?items iid")
      case None
      let ?it = "AList.update ''record_count'' (JInt 1) (AList.update ''updated_at'' (jget rec ''ts'') rec)"
      have f: "fold_record ?items (JDict rec) = ?items @ [(iid, ?it)]"
        using r None by (simp add: fold_record_def record_id_def opens_def)
      have "map_of ?it ''record_count'' = Some (JInt 1)" by (simp add: update_conv')
      with f old more show ?thesis by auto
    next
      case (Some known)
      have mem: "(iid, known) \<in> set ?items" using Some by (rule map_of_SomeD)
      then obtain n where n: "map_of known ''record_count'' = Some (JInt n)" "1 \<le> n" "n \<le> int (records_for iid rs)"
        using IH by auto
      have "\<not> opens rec"
      proof
        assume o: "opens rec"
        have "iid \<in> fst ` set ?items" using mem by force
        then obtain rec2 where "rec2 \<in> set rs" "record_id rec2 = Some iid" "opens rec2" using fold_keys [of "[]" rs] by auto
        then have "iid \<in> set (List.map_filter (\<lambda>rec. if opens rec then record_id rec else None) rs)"
          by (auto simp: in_map_filter)
        with snoc.prems(2) r(1) o show False
          by (auto simp: opened_once_def map_filter_def in_map_filter)
      qed
      then have nokey: "map_of rec ''record_count'' = None" using snoc.prems(1) by (auto simp: plain_transitions_def)
      let ?it = "AList.update ''updated_at'' (case map_of rec ''ts'' of Some t \<Rightarrow> t | None \<Rightarrow> jget (overlay rec known) ''updated_at'')
                   (overlay rec known)"
      have c: "record_count_of ?it = n"
        using overlay_absent [OF nokey, of known] n(1) by (simp add: record_count_of_def update_conv')
      have f: "fold_record ?items (JDict rec) = AList.update iid (AList.update ''record_count'' (JInt (n + 1)) ?it) ?items"
        using r Some c by (simp add: fold_record_def record_id_def Let_def)
      have d: "distinct (map fst ?items)" using folds_ids [of "[]" rs] by simp
      have "\<exists>m. map_of t ''record_count'' = Some (JInt m) \<and> 1 \<le> m \<and> m \<le> int (records_for j (rs @ [rec]))"
        if "(j, t) \<in> set (fold_record ?items (JDict rec))" for j t
        using set_update_distinct [OF d that [unfolded f]]
      proof
        assume "j = iid \<and> t = AList.update ''record_count'' (JInt (n + 1)) ?it"
        then show ?thesis using n more by (simp add: update_conv')
      qed (use old in blast)
      then show ?thesis by auto
    qed
  qed
qed simp

lemma distinct_weaker:
  "distinct (List.map_filter f xs) \<Longrightarrow> (\<And>x a. x \<in> set xs \<Longrightarrow> g x = Some a \<Longrightarrow> f x = Some a) \<Longrightarrow> distinct (List.map_filter g xs)"
proof (induction xs)
  case (Cons x xs)
  have d: "distinct (List.map_filter f xs)" using Cons.prems(1) by (auto split: option.splits)
  have ih: "distinct (List.map_filter g xs)" using Cons.IH [OF d] Cons.prems(2) by auto
  show ?case
  proof (cases "g x")
    case (Some a)
    then have "f x = Some a" using Cons.prems(2) by auto
    then have "a \<notin> set (List.map_filter f xs)" using Cons.prems(1) by simp
    then have "a \<notin> set (List.map_filter g xs)" using Cons.prems(2) by (auto simp: in_map_filter)
    with ih Some show ?thesis by simp
  qed (use ih in simp)
qed simp

lemma ok_opened_once: "ledger_ok s \<Longrightarrow> opened_once (read_intake_records s)"
  unfolding opened_once_def ledger_ok_def requests_def
  by (rule distinct_weaker [where f = "\<lambda>rec. nonempty_str rec ''request_id''"]) (auto split: if_splits)

lemma plain_step: "plain_transitions (read_intake_records s) \<Longrightarrow> plain_transitions (read_intake_records (intake_step s op))"
proof (cases op)
  case (Compact finishes now d w)
  assume "plain_transitions (read_intake_records s)"
  then show ?thesis by (auto simp: Compact compact_records plain_transitions_def)
next
  case (Foreign t)
  assume "plain_transitions (read_intake_records s)"
  then show ?thesis unfolding Foreign intake_step.simps by (simp add: records_append)
qed (auto simp: append_intake_item_def append_intake_placement_def append_jsonl_line_def records_append
       plain_transitions_def placement_record_def split: option.splits)

lemma plain_run: "plain_transitions (read_intake_records s) \<Longrightarrow> plain_transitions (read_intake_records (intake_run ops s))"
  unfolding intake_run_def by (induction ops arbitrary: s) (simp_all add: plain_step)

lemma run_plain: "plain_transitions (read_intake_records (intake_run ops empty_store))"
  by (rule plain_run) (simp add: plain_transitions_def empty_store_def read_intake_records_def read_intake_records_counted_def lines_of_def)

fun appending :: "intake_op \<Rightarrow> bool" where
  "appending (Compact b now d w) = False"
| "appending _ = True"

lemma records_grow: "list_all appending later \<Longrightarrow> \<exists>new. read_intake_records (intake_run later s) = read_intake_records s @ new"
proof (induction later arbitrary: s)
  case (Cons op later)
  have "\<exists>new. read_intake_records (intake_step s op) = read_intake_records s @ new"
    using Cons.prems
    by (cases op) (simp_all add: append_intake_item_def append_intake_placement_def append_jsonl_line_def records_append split: option.split)
  moreover obtain new where "read_intake_records (intake_run later (intake_step s op)) = read_intake_records (intake_step s op) @ new"
    using Cons by auto
  ultimately show ?case by (auto simp: intake_run_def)
qed (simp add: intake_run_def)

lemma fold_untouched:
  "records_for iid rs = 0 \<Longrightarrow> map_of (foldl fold_record items (map JDict rs)) iid = map_of items iid"
proof (induction rs arbitrary: items)
  case (Cons rec rs)
  have "map_of (fold_record items (JDict rec)) iid = map_of items iid"
    using Cons.prems
    by (auto simp: fold_record_def records_for_def record_id_def Let_def update_conv' map_add_def split: option.split if_splits)
  with Cons show ?case by (simp add: records_for_def split: if_splits)
qed simp

lemma census_member:
  "iid \<in> fst ` set (foldl (\<lambda>c (i, n). AList.update i n c) d es) \<Longrightarrow>
    map_of (foldl (\<lambda>c (i, n). AList.update i n c) d es) iid = Some n \<Longrightarrow> map_of d iid = Some n \<or> (iid, n) \<in> set es"
proof (induction es arbitrary: d)
  case (Cons e es)
  obtain i m where e: "e = (i, m)" by (cases e)
  from Cons.IH [of "AList.update i m d"] Cons.prems show ?case by (auto simp: e update_conv' split: if_splits)
qed simp

lemma find_item: "find_intake_item (read_intake_items s) iid = map_of (folded s) iid"
proof -
  have "find (\<lambda>it. jget it ''item_id'' = JText iid) (map snd xs) = map_of xs iid"
    if "\<forall>(i, it)\<in>set xs. jget it ''item_id'' = JText i" for xs
    using that by (induction xs) auto
  from this [OF folded_ids] show ?thesis by (simp add: find_intake_item_def read_intake_items_folded)
qed

lemma census_entry_item:
  assumes "(iid, n) \<in> set (List.map_filter (census_entry journal) (read_intake_items s))"
  obtains it rid where "map_of (folded s) iid = Some it" "jget it ''state'' = JText ''placed''"
    "item_run_id it = Some rid" "item_is_history (load_run journal rid)" "n = record_count_or_1 it"
proof -
  from assms obtain it where it: "it \<in> set (read_intake_items s)" "census_entry journal it = Some (iid, n)"
    by (auto simp: in_map_filter)
  then obtain j where j: "(j, it) \<in> set (folded s)" by (auto simp: read_intake_items_folded)
  from it(2) have c: "jget it ''state'' = JText ''placed''" "nonempty_str it ''item_id'' = Some iid" "n = record_count_or_1 it"
    "\<exists>rid. item_run_id it = Some rid \<and> item_is_history (load_run journal rid)"
    by (auto simp: census_entry_def split: if_splits option.splits)
  have "j = iid" using folded_ids [of s] j c(2) by (auto simp: nonempty_str_Some)
  then have "map_of (folded s) iid = Some it" using j folded_distinct [of s] by simp
  with c show thesis by (auto intro: that)
qed

text \<open>Grooming spares concurrent writers. A janitor takes its census on one state of the ledger and compacts a
  later one, after any number of enqueues, placements and foreign lines of other processes. An item that
  disappears was on the ledger at the census already, exactly as it was when it was removed; it was placed,
  its run has settled for good, and it is not one of the items the caller is still reporting on. Whatever
  anybody appended for an item in between saves it.\<close>

lemma grooming_spares_concurrent_writers:
  assumes "s = intake_run ops empty_store" "list_all appending later" "s1 = intake_run later s"
    and "it \<in> set (read_intake_items s1)"
    and "it \<notin> set (read_intake_items (snd (groom_ledger now (grooming_census journal exempt s) s1)))"
  shows "it \<in> set (read_intake_items s) \<and> jget it ''state'' = JText ''placed'' \<and> jget it ''item_id'' \<notin> JText ` set exempt
    \<and> (\<exists>rid. item_run_id it = Some rid \<and> item_is_history (load_run journal rid))"
proof -
  let ?census = "grooming_census journal exempt s"
  let ?going = "going (map fst ?census) (Some ?census) s1"
  have ok: "ledger_ok s" "ledger_ok s1" unfolding assms(1,3) by (simp_all add: ok_run)
  obtain iid where iid: "(iid, it) \<in> set (folded s1)" using assms(4) by (auto simp: read_intake_items_folded)
  have "iid \<in> ?going"
  proof (rule ccontr)
    assume "iid \<notin> ?going"
    then have "(iid, it) \<in> set (outside ?going (folded s1))" using iid by (simp add: outside_def)
    then have "it \<in> snd ` set (folded (snd (compact_writes True now (map fst ?census) (Some ?census) s1)))"
      using ok(2) by (force simp: compact_folded ledger_ok_def)
    then show False using assms(5)
      by (simp add: groom_ledger_def compact_intake_ledger_def read_intake_items_folded)
  qed
  then have c: "iid \<in> fst ` set ?census" "map_of ?census iid = counted (lines_of s1) iid"
    by (auto simp: going_def raced_items_def)
  then obtain n where n: "map_of ?census iid = Some n" by (metis map_of_eq_None_iff not_Some_eq)
  have full: "(iid, n) \<in> set ?census" using n by (rule map_of_SomeD)
  then have ex: "iid \<notin> set exempt" "journal \<noteq> None" by (auto simp: grooming_census_def retired_item_census_def split: if_splits)
  have mem: "(iid, n) \<in> set (foldl (\<lambda>c (i, n). AList.update i n c) [] (List.map_filter (census_entry journal) (read_intake_items s)))"
    using full ex(2) by (auto simp: grooming_census_def retired_item_census_def)
  have "distinct (map fst (foldl (\<lambda>c (i, n). AList.update i n c) d es))" if "distinct (map fst d)" for d and es :: "(string \<times> int) list"
    using that by (induction es arbitrary: d) (auto simp: distinct_update)
  then have "map_of (foldl (\<lambda>c (i, n). AList.update i n c) [] (List.map_filter (census_entry journal) (read_intake_items s))) iid = Some n"
    using mem by (intro map_of_is_SomeI) simp_all
  with mem have "(iid, n) \<in> set (List.map_filter (census_entry journal) (read_intake_items s))"
    using census_member [of iid "[]" "List.map_filter (census_entry journal) (read_intake_items s)" n] by force
  then obtain it0 rid where it0: "map_of (folded s) iid = Some it0" "jget it0 ''state'' = JText ''placed''"
      "item_run_id it0 = Some rid" "item_is_history (load_run journal rid)" "n = record_count_or_1 it0"
    by (rule census_entry_item)
  obtain m where m: "map_of it0 ''record_count'' = Some (JInt m)" "1 \<le> m" "m \<le> int (records_for iid (read_intake_records s))"
    using folded_count [OF run_plain [of ops] ok_opened_once [OF ok(1) [unfolded assms(1)]]] map_of_SomeD [OF it0(1)]
    by (auto simp: folded_def assms(1))
  then have "n = m" using it0(5) by (simp add: record_count_or_1_def jget_def)
  obtain new where new: "read_intake_records s1 = read_intake_records s @ new"
    using records_grow [OF assms(2), of s] assms(3) by auto
  have "int (records_for iid (read_intake_records s1)) = n"
    using c(2) n counted_records [of s1 iid] by (simp split: if_splits)
  moreover have "records_for iid (read_intake_records s1) = records_for iid (read_intake_records s) + records_for iid new"
    by (simp add: new records_for_def)
  ultimately have "records_for iid new = 0" using m(3) \<open>n = m\<close> by linarith
  then have "map_of (folded s1) iid = map_of (folded s) iid"
    by (simp add: folded_def new fold_untouched)
  with it0(1) iid folded_distinct [of s1] have "it = it0" by simp
  moreover have "(iid, it0) \<in> set (folded s)" using it0(1) by (rule map_of_SomeD)
  ultimately show ?thesis
    using it0 ex folded_ids [of s] by (auto simp: read_intake_items_folded intro: image_eqI [of _ snd "(iid, it0)"])
qed

definition groomed_ops :: "intake_op list" where
  "groomed_ops = [Enqueue ''t1'' [] ''a'', Place ''t2'' ''a'' ''a.placed'' ''c'' ''b_c'' [] (Some ''r1'')]"

definition placed_item :: item where
  "placed_item = [(''kind'', JText ''enqueue''), (''item_id'', JText ''a''), (''request_id'', JText ''a''),
     (''state'', JText ''placed''), (''enqueued_at'', JText ''t1''), (''ts'', JText ''t2''), (''updated_at'', JText ''t2''),
     (''record_count'', JInt 2), (''cluster'', JText ''c''), (''campaign_id'', JText ''b_c''), (''reason'', JText []),
     (''run_id'', JText ''r1'')]"

lemmas fold_eval = read_intake_items_folded folded_def read_intake_records_def read_intake_records_counted_def lines_of_def
  List.map_filter_simps fold_record_def enqueue_record_def update_all_def nonempty_str_def in_intake_state_def INTAKE_STATES_def
  placement_record_def Let_def overlay_def PINNED_KEYS_def record_count_of_def

lemma groomed_store: "intake_run groomed_ops empty_store = \<lparr>intake_lines = Some [Object (enqueue_record ''t1'' [] ''a''),
     Object (placement_record ''t2'' ''a'' ''a.placed'' ''c'' ''b_c'' [] (Some ''r1''))], decodes = True, watermark = None\<rparr>"
  by (simp add: groomed_ops_def intake_run_def append_eval append_intake_placement_def enqueue_record_def update_all_def)

lemma groomed_items: "read_intake_items (intake_run groomed_ops empty_store) = [placed_item]"
  by (simp add: groomed_store fold_eval placed_item_def)

lemma grooming_spares_concurrent_writers_witness:
  "\<exists>rid. item_run_id placed_item = Some rid \<and> item_is_history (load_run (Some [demo_done]) rid)"
proof -
  let ?s = "intake_run groomed_ops empty_store"
  let ?census = "grooming_census (Some [demo_done]) [] ?s"
  let ?s1 = "intake_run [Foreign ''x''] ?s"
  have s1: "?s1 = ?s\<lparr>intake_lines := Some (lines_of ?s @ [Other ''x''])\<rparr>" by (simp add: intake_run_def)
  have i1: "read_intake_items ?s1 = [placed_item]" unfolding s1 read_intake_items_def records_append
    using groomed_items by (simp add: read_intake_items_def)
  have c: "?census = [(''a'', 2)]"
    by (simp add: grooming_census_def groomed_items retired_item_census_def placed_item_def census_entry_def nonempty_str_def
        item_run_id_def load_run_def demo_done_def demo_run_record_def item_is_history_def run_occupies_def is_held_def
        is_resubmittable_terminal_def OCCUPYING_JOURNAL_STATUSES_def JOURNAL_STATUSES_def TERMINAL_STATUSES_def record_count_or_1_def
        List.map_filter_simps)
  have "read_intake_items (snd (groom_ledger ''t3'' ?census ?s1)) = []"
  proof -
    have "''a'' \<in> going [''a''] (Some [(''a'', 2)]) ?s1"
      unfolding s1 unfolding groomed_store by (simp add: going_def raced_items_def counted_def lines_of_def line_item_id_def nonempty_str_def
          enqueue_record_def update_all_def placement_record_def)
    moreover have "fresh_ids ?s1" using ok_run [OF ok_run [OF ok_empty]] by (simp add: ledger_ok_def)
    moreover have "fst ` set (folded ?s1) \<subseteq> {''a''}"
      using i1 folded_ids [of ?s1] by (force simp: read_intake_items_folded placed_item_def)
    ultimately show ?thesis
      unfolding groom_ledger_def compact_intake_ledger_def c read_intake_items_folded
      by (auto simp: compact_folded outside_def filter_empty_conv)
  qed
  then have "placed_item \<notin> set (read_intake_items (snd (groom_ledger ''t3'' ?census ?s1)))" by simp
  from grooming_spares_concurrent_writers [OF refl _ refl _ this] i1 show ?thesis by simp
qed

end
