(* ===== verification/QueueRetry.thy ===== *)
theory QueueRetry
  imports QueueLedgerLaws
begin

text \<open>
  Declared retries (\<open>ops/queue/retry.py\<close>): which failed run an intake item's own declared budget may
  re-dispatch, and the tick that enqueues the owed attempts. A row of the result carries the values of its
  reason text.
\<close>

section \<open>The classifier\<close>

definition is_declared_retry_failure :: "run_record option \<Rightarrow> bool" where
  "is_declared_retry_failure rec =
     (case rec of
        None \<Rightarrow> False
      | Some r \<Rightarrow>
          (if run_status r \<noteq> ''failed'' then False
           else if superseded_by r \<noteq> [] then False
           else if pending_decision r \<noteq> [] then False
           else if kill_requested_at r \<noteq> [] then False
           else is_resubmittable_terminal r))"

section \<open>The producer\<close>

definition COPIED_KEYS :: "string list" where
  "COPIED_KEYS = [''spec'', ''spec_ref'', ''run_name'', ''run_id'', ''cmd_sha'', ''campaign_base'', ''resources'', ''retryable'']"

datatype retry_outcome = Exhausted | Enqueued | AlreadyThere

record retry_row =
  row_root :: string
  row_item :: "string option"
  row_attempt :: int
  row_budget :: int
  row_run :: string
  row_outcome :: retry_outcome

text \<open>\<open>repr\<close> of a text without quotes, backslashes or control characters.\<close>

definition quoted :: "string \<Rightarrow> string" where
  "quoted t = [CHR 0x27] @ t @ [CHR 0x27]"

definition retry_payload :: "item \<Rightarrow> string \<Rightarrow> int \<Rightarrow> int \<Rightarrow> string \<Rightarrow> item" where
  "retry_payload tip root_id attempt budget rid =
     update_all
       [(''cluster_pin'', if truthy (jget tip ''cluster'') then jget tip ''cluster'' else jget tip ''cluster_pin''),
        (''retry_root'', JText root_id), (''retry_attempt'', JInt attempt), (''retry_of'', jget tip ''item_id''),
        (''retry_reason'', JText (''declared-retry: run '' @ rid @ '' reached the mechanical failure terminal ''
           @ quoted ''failed'' @ ''; attempt '' @ dec (nat attempt) @ '' of the retryable('' @ dec (nat budget)
           @ '') budget declared at enqueue on item '' @ quoted root_id))]
       (map (\<lambda>key. (key, jget tip key)) COPIED_KEYS)"

text \<open>What one chain owes: nothing, the row of an exhausted budget, or an attempt to append.\<close>

datatype owed = Nothing | Spent retry_row | Owe string item retry_row

definition chain_owes :: "journal \<Rightarrow> string \<times> item list \<Rightarrow> owed option" where
  "chain_owes journal rc =
     (let (root_id, chain) = rc in
      case retry_tip chain of
        None \<Rightarrow> Some Nothing
      | Some tip \<Rightarrow>
          (case (item_retryable tip, item_run_id tip) of
             (Some budget, Some rid) \<Rightarrow>
               (if jget tip ''state'' \<noteq> JText ''placed'' then Some Nothing
                else if \<not> is_declared_retry_failure (load_run journal rid) then Some Nothing
                else
                  (let used = retries_used chain in
                   if used \<ge> budget
                   then Some (Spent \<lparr>row_root = root_id, row_item = None, row_attempt = used, row_budget = budget,
                                     row_run = rid, row_outcome = Exhausted\<rparr>)
                   else
                     (case retry_request_id root_id (used + 1) of
                        None \<Rightarrow> None
                      | Some retry_id \<Rightarrow>
                          Some (Owe retry_id (retry_payload tip root_id (used + 1) budget rid)
                            \<lparr>row_root = root_id, row_item = Some retry_id, row_attempt = used + 1, row_budget = budget,
                             row_run = rid, row_outcome = Enqueued\<rparr>))))
           | _ \<Rightarrow> Some Nothing))"

text \<open>The loop over the chains; \<open>None\<close> is the \<open>ValueError\<close> of a blank root or token.\<close>

fun produce_loop ::
  "string \<Rightarrow> journal \<Rightarrow> (string \<times> item list) list \<Rightarrow> retry_row list \<Rightarrow> bool \<Rightarrow> intake_store
   \<Rightarrow> (retry_row list \<times> bool \<times> intake_store) option" where
  "produce_loop now journal [] rows appended s = Some (rows, appended, s)"
| "produce_loop now journal (rc # rcs) rows appended s =
     (case chain_owes journal rc of
        None \<Rightarrow> None
      | Some Nothing \<Rightarrow> produce_loop now journal rcs rows appended s
      | Some (Spent row) \<Rightarrow> produce_loop now journal rcs (rows @ [row]) appended s
      | Some (Owe retry_id payload row) \<Rightarrow>
          (case append_intake_item now payload retry_id s of
             (BadToken, s) \<Rightarrow> None
           | (Written, s) \<Rightarrow> produce_loop now journal rcs (rows @ [row]) True s
           | (Replayed old, s) \<Rightarrow>
               produce_loop now journal rcs (rows @ [row\<lparr>row_outcome := AlreadyThere\<rparr>]) appended s))"

definition produce_declared_retries ::
  "string \<Rightarrow> journal \<Rightarrow> item list \<Rightarrow> intake_store \<Rightarrow> (retry_row list \<times> bool \<times> intake_store) option" where
  "produce_declared_retries now journal items s =
     (if (\<forall>it\<in>set items. item_retryable it = None) then Some ([], False, s)
      else if journal = None then Some ([], False, s)
      else produce_loop now journal (retry_chains items) [] False s)"

section \<open>The derived ids\<close>

lemma retry_id_shape:
  assumes "retry_request_id root_id k = Some t"
  shows "t = root_id @ ''.retry'' @ dec (nat k) \<and> k \<ge> 1 \<and> \<not> blank root_id \<and> \<not> blank t"
  using assms by (auto simp: retry_request_id_def blank_iff split: if_splits)

text \<open>Retry ids. The derived id of a declared retry determines the chain and the attempt, so two ticks that
  owe the same attempt compute the same token and two different attempts never share one. It is never
  the root's own id, never blank, and never the placement token of any item.\<close>

lemma retry_ids_unambiguous:
  assumes "retry_request_id root_id k = Some t"
  shows "(retry_request_id root' k' = Some t \<longleftrightarrow> root' = root_id \<and> k' = k)
    \<and> t \<noteq> root_id \<and> \<not> blank t \<and> placement_request_id x \<noteq> Some t"
proof -
  have t: "t = root_id @ ''.retry'' @ dec (nat k)" "k \<ge> 1" "\<not> blank root_id"
    using retry_id_shape [OF assms] by simp_all
  have y: "\<not> digit (CHR ''y'')" and d: "\<not> digit (CHR ''d'')" by (simp_all add: digit_def)
  have "root' = root_id \<and> k' = k" if "retry_request_id root' k' = Some t"
  proof -
    have t': "t = root' @ ''.retry'' @ dec (nat k')" "k' \<ge> 1"
      using retry_id_shape [OF that] by simp_all
    from t(1) t'(1) have "(root_id @ ''.retr'') @ [CHR ''y''] @ dec (nat k) = (root' @ ''.retr'') @ [CHR ''y''] @ dec (nat k')"
      by simp
    from dec_suffix_unique [OF this y y] t(2) t'(2) show ?thesis by auto
  qed
  moreover have "t \<noteq> root_id" using t(1) by auto
  moreover have "\<not> blank t" using retry_id_shape [OF assms] by blast
  moreover have "placement_request_id x \<noteq> Some t"
  proof
    assume "placement_request_id x = Some t"
    then have "x @ ''.placed'' = t" by (auto simp: placement_request_id_def split: if_splits)
    then have "last t = CHR ''d''" by (metis last_appendR last.simps list.distinct(1))
    moreover have "last t \<in> set (dec (nat k))" unfolding t(1) by simp
    ultimately show False using dec_digits d by metis
  qed
  ultimately show ?thesis using assms by auto
qed

lemma retry_ids_unambiguous_witness:
  "retry_request_id ''b'' 2 \<noteq> Some ''a.retry1'' \<and> placement_request_id ''a'' \<noteq> Some ''a.retry1''"
proof -
  have "retry_request_id ''a'' 1 = Some ''a.retry1''"
    by code_simp
  from retry_ids_unambiguous [OF this, of "''b''" 2 "''a''"] show ?thesis by simp
qed

section \<open>A tick and its replay\<close>

lemma owe_token:
  assumes "chain_owes journal rc = Some (Owe t p row)"
  obtains tip budget where "retry_tip (snd rc) = Some tip" "item_retryable tip = Some budget" "jget tip ''state'' = JText ''placed''"
    "item_run_id tip = Some (row_run row)" "is_declared_retry_failure (load_run journal (row_run row))"
    "retries_used (snd rc) < budget" "row_budget row = budget" "row_attempt row = retries_used (snd rc) + 1"
    "retry_request_id (fst rc) (row_attempt row) = Some t" "row_item row = Some t" "row_root row = fst rc" "row_outcome row = Enqueued"
    "p = retry_payload tip (fst rc) (row_attempt row) budget (row_run row)"
  using assms by (cases rc) (auto simp: chain_owes_def Let_def split: option.splits if_splits)

lemma retries_used_nonneg: "0 \<le> retries_used chain"
  unfolding retries_used_def by (rule Max_ge) auto

lemma owe_not_blank: "chain_owes journal rc = Some (Owe t p row) \<Longrightarrow> \<not> blank t"
  by (auto elim!: owe_token dest!: retry_id_shape)

text \<open>The store of a tick is that of its enqueues, and every owed id is taken afterwards.\<close>

definition taken :: "intake_store \<Rightarrow> string set" where
  "taken s = compaction_tombstones s \<union> set (requests s)"

lemma request_of_enqueue: "\<not> blank t \<Longrightarrow> nonempty_str (enqueue_record now p t) ''request_id'' = Some t"
  using not_blank [of t] by (simp add: nonempty_str_Some)

lemma append_item_ok:
  assumes "ledger_ok s" "\<not> blank t" "append_intake_item now p t s = (res, s')"
  shows "ledger_ok s' \<and> taken s' = insert t (taken s)
    \<and> set (read_intake_records s) \<subseteq> set (read_intake_records s')
    \<and> (res = Written \<longrightarrow> enqueue_record now p t \<in> set (read_intake_records s'))
    \<and> (res \<noteq> Written \<longrightarrow> s' = s \<and> (\<exists>old. res = Replayed old))"
  using append_item_cases [OF _ assms(2), of s now p] ok_append_item [OF assms(1), of now p t] assms
  by (auto simp: taken_def requests_append records_append request_of_enqueue ledger_ok_def)

text \<open>What a row reports of its chain and of the store after the tick.\<close>

definition row_true :: "string \<Rightarrow> journal \<Rightarrow> (string \<times> item list) list \<Rightarrow> intake_store \<Rightarrow> retry_row \<Rightarrow> bool" where
  "row_true now journal rcs s' row \<longleftrightarrow> (\<exists>rc\<in>set rcs.
      chain_owes journal rc = Some (Spent row)
    \<or> (\<exists>t p r. chain_owes journal rc = Some (Owe t p r)
         \<and> (row = r \<and> enqueue_record now p t \<in> set (read_intake_records s') \<or> row = r\<lparr>row_outcome := AlreadyThere\<rparr>)))"

lemma row_true_Cons: "row_true now journal rcs s' row \<Longrightarrow> row_true now journal (rc # rcs) s' row"
  by (auto simp: row_true_def)

lemma produce_loop_rows:
  "produce_loop now journal rcs rows ap s = Some (rows', ap', s') \<Longrightarrow> ledger_ok s \<Longrightarrow>
    ledger_ok s' \<and> taken s \<subseteq> taken s' \<and> set (read_intake_records s) \<subseteq> set (read_intake_records s')
    \<and> (\<forall>row\<in>set rows'. row \<in> set rows \<or> row_true now journal rcs s' row)
    \<and> (\<forall>rc\<in>set rcs. chain_owes journal rc \<noteq> None \<and> (\<forall>t p row. chain_owes journal rc = Some (Owe t p row) \<longrightarrow> t \<in> taken s'))"
proof (induction rcs arbitrary: rows ap s)
  case (Cons rc rcs)
  note prems = Cons.prems
  show ?case
  proof (cases "chain_owes journal rc")
    case None
    with prems show ?thesis by simp
  next
    case (Some ow)
    show ?thesis
    proof (cases ow)
      case Nothing
      with Some prems have l: "produce_loop now journal rcs rows ap s = Some (rows', ap', s')" by simp
      show ?thesis using Cons.IH [OF l prems(2)] Some Nothing row_true_Cons [of now journal rcs s' _ rc] by auto
    next
      case (Spent row)
      with Some prems have l: "produce_loop now journal rcs (rows @ [row]) ap s = Some (rows', ap', s')" by simp
      have "row_true now journal (rc # rcs) s' row" using Some Spent by (auto simp: row_true_def)
      then show ?thesis using Cons.IH [OF l prems(2)] Some Spent row_true_Cons [of now journal rcs s' _ rc] by auto
    next
      case (Owe t p row)
      have nb: "\<not> blank t" using owe_not_blank Some Owe by simp
      obtain res s1 where a: "append_intake_item now p t s = (res, s1)" by force
      note ok = append_item_ok [OF prems(2) nb a]
      show ?thesis
      proof (cases res)
        case BadToken
        with ok show ?thesis by auto
      next
        case Written
        with Some Owe prems a have l: "produce_loop now journal rcs (rows @ [row]) True s1 = Some (rows', ap', s')" by simp
        note ih = Cons.IH [OF l conjunct1 [OF ok]]
        have "enqueue_record now p t \<in> set (read_intake_records s')" using ih ok Written by auto
        then have "row_true now journal (rc # rcs) s' row" using Some Owe by (auto simp: row_true_def)
        moreover have "t \<in> taken s'" "taken s \<subseteq> taken s'" "set (read_intake_records s) \<subseteq> set (read_intake_records s')"
          using ih ok by auto
        ultimately show ?thesis using ih Some Owe row_true_Cons [of now journal rcs s' _ rc] by auto
      next
        case (Replayed old)
        let ?row = "row\<lparr>row_outcome := AlreadyThere\<rparr>"
        from Replayed Some Owe prems a have l: "produce_loop now journal rcs (rows @ [?row]) ap s1 = Some (rows', ap', s')" by simp
        note ih = Cons.IH [OF l conjunct1 [OF ok]]
        have "row_true now journal (rc # rcs) s' ?row" using Some Owe by (auto simp: row_true_def)
        moreover have "t \<in> taken s'" "taken s \<subseteq> taken s'" "set (read_intake_records s) \<subseteq> set (read_intake_records s')"
          using ih ok by auto
        ultimately show ?thesis using ih Some Owe row_true_Cons [of now journal rcs s' _ rc] by auto
      qed
    qed
  qed
qed simp

lemma produce_loop_blocked:
  "ledger_ok s \<Longrightarrow> \<forall>rc\<in>set rcs. chain_owes journal rc \<noteq> None \<and> (\<forall>t p row. chain_owes journal rc = Some (Owe t p row) \<longrightarrow> t \<in> taken s)
    \<Longrightarrow> \<exists>new. produce_loop now journal rcs rows ap s = Some (rows @ new, ap, s) \<and> Enqueued \<notin> row_outcome ` set new"
proof (induction rcs arbitrary: rows)
  case (Cons rc rcs)
  have tl: "\<forall>rc\<in>set rcs. chain_owes journal rc \<noteq> None \<and> (\<forall>t p row. chain_owes journal rc = Some (Owe t p row) \<longrightarrow> t \<in> taken s)"
    using Cons.prems(2) by simp
  note IH = Cons.IH [OF Cons.prems(1) tl]
  obtain ow where ow: "chain_owes journal rc = Some ow" using Cons.prems(2) by auto
  show ?case
  proof (cases ow)
    case Nothing
    with IH [of rows] ow show ?thesis by simp
  next
    case (Spent row)
    have "row_outcome row = Exhausted" using ow Spent
      by (cases rc) (auto simp: chain_owes_def Let_def split: option.splits if_splits)
    with IH [of "rows @ [row]"] ow Spent show ?thesis by auto
  next
    case (Owe t p row)
    have "t \<in> taken s" using Cons.prems(2) ow Owe by auto
    then obtain old where "append_intake_item now p t s = (Replayed old, s)"
      using append_item_cases [OF _ owe_not_blank [OF ow [unfolded Owe]], of s now p] Cons.prems(1)
      by (auto simp: taken_def ledger_ok_def)
    with IH [of "rows @ [row\<lparr>row_outcome := AlreadyThere\<rparr>]"] ow Owe show ?thesis by auto
  qed
qed simp

lemma taken_append: "appending op \<Longrightarrow> ledger_ok s \<Longrightarrow> taken s \<subseteq> taken (intake_step s op)"
  by (cases op) (auto simp: append_intake_item_def append_intake_placement_def append_jsonl_line_def taken_def requests_append
      split: option.splits)

lemma taken_grows: "list_all appending later \<Longrightarrow> ledger_ok s \<Longrightarrow> taken s \<subseteq> taken (intake_run later s)"
proof (induction later arbitrary: s)
  case (Cons op later)
  have "taken s \<subseteq> taken (intake_step s op)" using Cons.prems by (simp add: taken_append)
  also have "\<dots> \<subseteq> taken (intake_run later (intake_step s op))"
    using Cons.prems by (intro Cons.IH ok_step) simp_all
  finally show ?case by (simp add: intake_run_def)
qed (simp add: intake_run_def)

lemma produce_cases:
  assumes "produce_declared_retries now journal items s = Some (rows, ap, s')"
  shows "(rows = [] \<and> ap = False \<and> s' = s \<and> (\<forall>now s. produce_declared_retries now journal items s = Some ([], False, s)))
    \<or> (produce_loop now journal (retry_chains items) [] False s = Some (rows, ap, s')
        \<and> (\<forall>now s. produce_declared_retries now journal items s = produce_loop now journal (retry_chains items) [] False s))"
  using assms by (auto simp: produce_declared_retries_def split: if_splits)

lemma produce_rows:
  assumes "produce_declared_retries now journal items s = Some (rows, ap, s')" "ledger_ok s" "row \<in> set rows"
  shows "row_true now journal (retry_chains items) s' row"
proof -
  have "produce_loop now journal (retry_chains items) [] False s = Some (rows, ap, s')"
    using produce_cases [OF assms(1)] assms(3) by auto
  from produce_loop_rows [OF this assms(2)] assms(3) show ?thesis by auto
qed

lemma item_retryable_range: "item_retryable it = Some n \<Longrightarrow> 1 \<le> n \<and> n \<le> RETRYABLE_CAP"
  by (auto simp: item_retryable_def split: option.splits if_splits)

lemma spent_row:
  assumes "chain_owes journal rc = Some (Spent row)"
  shows "1 \<le> row_budget row \<and> row_budget row \<le> RETRYABLE_CAP \<and> is_declared_retry_failure (load_run journal (row_run row))
    \<and> row_outcome row = Exhausted \<and> row_item row = None \<and> row_budget row \<le> row_attempt row"
  using assms by (cases rc) (auto simp: chain_owes_def Let_def dest: item_retryable_range split: option.splits if_splits)

lemma owed_row:
  assumes "chain_owes journal rc = Some (Owe t p row)"
  shows "1 \<le> row_budget row \<and> row_budget row \<le> RETRYABLE_CAP \<and> is_declared_retry_failure (load_run journal (row_run row))
    \<and> row_outcome row = Enqueued \<and> row_item row = Some t \<and> 1 \<le> row_attempt row \<and> row_attempt row \<le> row_budget row
    \<and> retry_request_id (row_root row) (row_attempt row) = Some t
    \<and> jget p ''retry_root'' = JText (row_root row) \<and> jget p ''retry_attempt'' = JInt (row_attempt row)"
  using assms
proof (rule owe_token)
  fix tip budget
  assume "item_retryable tip = Some budget" "retries_used (snd rc) < budget" "row_budget row = budget"
    "row_attempt row = retries_used (snd rc) + 1" "p = retry_payload tip (fst rc) (row_attempt row) budget (row_run row)"
    "is_declared_retry_failure (load_run journal (row_run row))" "retry_request_id (fst rc) (row_attempt row) = Some t"
    "row_item row = Some t" "row_root row = fst rc" "row_outcome row = Enqueued"
  with item_retryable_range [of tip budget] retries_used_nonneg [of "snd rc"] show ?thesis
    by (simp add: retry_payload_def jget_update_all)
qed

text \<open>Declared budgets. Every row of a tick concerns a run that failed mechanically and a budget of one to
  ten. An exhausted row enqueues nothing and has at least that many attempts behind it; any other row is
  an attempt of the budget, under the id derived from the chain and the attempt. An enqueued row is true:
  its record is on the ledger after the tick, under that id and naming that chain and attempt.\<close>

lemma declared_retries_stay_in_budget:
  assumes "s = intake_run ops empty_store" and "produce_declared_retries now journal items s = Some (rows, ap, s')"
    and "row \<in> set rows"
  shows "1 \<le> row_budget row \<and> row_budget row \<le> 10 \<and> is_declared_retry_failure (load_run journal (row_run row))
    \<and> (if row_outcome row = Exhausted then row_item row = None \<and> row_budget row \<le> row_attempt row
       else 1 \<le> row_attempt row \<and> row_attempt row \<le> row_budget row \<and> row_item row \<noteq> None
         \<and> row_item row = retry_request_id (row_root row) (row_attempt row))
    \<and> (row_outcome row = Enqueued \<longrightarrow> (\<exists>rec\<in>set (read_intake_records s'). record_id rec = row_item row
         \<and> jget rec ''state'' = JText ''queued'' \<and> jget rec ''retry_root'' = JText (row_root row)
         \<and> jget rec ''retry_attempt'' = JInt (row_attempt row)))"
proof -
  have "ledger_ok s" unfolding assms(1) by (rule ok_run) simp
  then obtain rc where rc: "chain_owes journal rc = Some (Spent row)
    \<or> (\<exists>t p r. chain_owes journal rc = Some (Owe t p r)
         \<and> (row = r \<and> enqueue_record now p t \<in> set (read_intake_records s') \<or> row = r\<lparr>row_outcome := AlreadyThere\<rparr>))"
    using produce_rows [OF assms(2) _ assms(3)] unfolding row_true_def by blast
  then consider "chain_owes journal rc = Some (Spent row)"
    | t p where "chain_owes journal rc = Some (Owe t p row)" "enqueue_record now p t \<in> set (read_intake_records s')"
    | t p r where "chain_owes journal rc = Some (Owe t p r)" "row = r\<lparr>row_outcome := AlreadyThere\<rparr>"
    by blast
  then show ?thesis
  proof cases
    case 1
    from spent_row [OF this] show ?thesis by (simp add: RETRYABLE_CAP_def)
  next
    case (2 t p)
    note o = owed_row [OF 2(1)] owe_not_blank [OF 2(1)]
    have "jget (enqueue_record now p t) ''retry_root'' = JText (row_root row)"
      "jget (enqueue_record now p t) ''retry_attempt'' = JInt (row_attempt row)"
      using o(1) by (simp_all add: enqueue_record_def jget_update_all)
    moreover have "record_id (enqueue_record now p t) = row_item row"
      using o not_blank [OF o(2)] by (simp add: record_id_def nonempty_str_Some)
    ultimately show ?thesis using o(1) 2(2) by (auto simp: RETRYABLE_CAP_def)
  next
    case (3 t p r)
    from owed_row [OF 3(1)] show ?thesis by (simp add: 3(2) RETRYABLE_CAP_def)
  qed
qed

text \<open>A tick is replayed harmlessly. After a tick, and after anything other processes append meanwhile, a second
  tick over the same fold of the items, as a racing process holds it, enqueues nothing and leaves the
  ledger as it is.\<close>

lemma second_tick_enqueues_nothing:
  assumes "s = intake_run ops empty_store" and "produce_declared_retries now journal items s = Some (rows, ap, s1)"
    and "list_all appending later" and "s2 = intake_run later s1"
  shows "\<exists>rows2. produce_declared_retries now2 journal items s2 = Some (rows2, False, s2) \<and> Enqueued \<notin> row_outcome ` set rows2"
proof -
  have ok: "ledger_ok s" unfolding assms(1) by (rule ok_run) simp
  from produce_cases [OF assms(2)] show ?thesis
  proof (elim disjE conjE)
    assume l: "produce_loop now journal (retry_chains items) [] False s = Some (rows, ap, s1)"
      and all: "\<forall>now s. produce_declared_retries now journal items s = produce_loop now journal (retry_chains items) [] False s"
    note after = produce_loop_rows [OF l ok]
    have ok2: "ledger_ok s2" using after by (simp add: assms(4) ok_run)
    have "taken s1 \<subseteq> taken s2" unfolding assms(4) using after by (intro taken_grows assms(3)) simp
    with after have "\<forall>rc\<in>set (retry_chains items). chain_owes journal rc \<noteq> None
        \<and> (\<forall>t p row. chain_owes journal rc = Some (Owe t p row) \<longrightarrow> t \<in> taken s2)" by blast
    from produce_loop_blocked [OF ok2 this, of now2 "[]" False] show ?thesis using all by simp
  qed simp
qed

definition demo_retry_item :: item where
  "demo_retry_item = [(''item_id'', JText ''a''), (''state'', JText ''placed''), (''run_id'', JText ''r1''), (''cluster'', JText ''c''),
     (''retryable'', JInt 2)]"

definition demo_retry_row :: retry_row where
  "demo_retry_row = \<lparr>row_root = ''a'', row_item = Some ''a.retry1'', row_attempt = 1, row_budget = 2, row_run = ''r1'',
     row_outcome = Enqueued\<rparr>"

lemma demo_chains: "retry_chains [demo_retry_item] = [(''a'', [demo_retry_item])]"
  by (simp add: retry_chains_def item_retry_root_def demo_retry_item_def nonempty_str_def)

lemma demo_failed: "load_run (Some [demo_run_record]) ''r1'' = Some demo_run_record" "is_declared_retry_failure (Some demo_run_record)"
  by (simp_all add: load_run_def demo_run_record_def is_declared_retry_failure_def is_resubmittable_terminal_def is_held_def
      TERMINAL_STATUSES_def)

lemma demo_owes: "chain_owes (Some [demo_run_record]) (''a'', [demo_retry_item])
    = Some (Owe ''a.retry1'' (retry_payload demo_retry_item ''a'' 1 2 ''r1'') demo_retry_row)"
proof -
  have "retry_tip [demo_retry_item] = Some demo_retry_item" "retries_used [demo_retry_item] = 0"
    "item_retryable demo_retry_item = Some 2" "item_run_id demo_retry_item = Some ''r1''" "jget demo_retry_item ''state'' = JText ''placed''"
    by (simp_all add: retry_tip_def retries_used_def item_retry_attempt_def item_retryable_def item_run_id_def RETRYABLE_CAP_def
        demo_retry_item_def nonempty_str_def)
  moreover have "retry_request_id ''a'' 1 = Some ''a.retry1''" by code_simp
  ultimately show ?thesis using demo_failed by (simp add: chain_owes_def Let_def demo_retry_row_def)
qed

lemma demo_tick: "\<exists>s1. produce_declared_retries ''t'' (Some [demo_run_record]) [demo_retry_item] empty_store = Some ([demo_retry_row], True, s1)"
proof -
  have "\<not> blank ''a.retry1''" by (simp add: blank_iff text_simps)
  from append_item_cases [OF _ this, of empty_store "''t''" "retry_payload demo_retry_item ''a'' 1 2 ''r1''"]
  have "\<exists>s1. append_intake_item ''t'' (retry_payload demo_retry_item ''a'' 1 2 ''r1'') ''a.retry1'' empty_store = (Written, s1)"
    by (auto simp: empty_store_def compaction_tombstones_def compaction_watermark_def tombstone_list_def requests_def
        read_intake_records_def read_intake_records_counted_def lines_of_def List.map_filter_simps)
  moreover have "item_retryable demo_retry_item = Some 2"
    by (simp add: item_retryable_def RETRYABLE_CAP_def demo_retry_item_def)
  ultimately show ?thesis by (auto simp: produce_declared_retries_def demo_chains demo_owes)
qed

lemma declared_retries_stay_in_budget_witness:
  "is_declared_retry_failure (load_run (Some [demo_run_record]) ''r1'') \<and> row_attempt demo_retry_row \<le> row_budget demo_retry_row"
proof -
  obtain s1 where "produce_declared_retries ''t'' (Some [demo_run_record]) [demo_retry_item] empty_store = Some ([demo_retry_row], True, s1)"
    using demo_tick by blast
  from declared_retries_stay_in_budget [OF _ this, of "[]" demo_retry_row] show ?thesis
    by (simp add: intake_run_def demo_retry_row_def)
qed

lemma second_tick_enqueues_nothing_witness:
  "\<exists>s1 rows2. produce_declared_retries ''t'' (Some [demo_run_record]) [demo_retry_item] empty_store = Some ([demo_retry_row], True, s1)
    \<and> produce_declared_retries ''u'' (Some [demo_run_record]) [demo_retry_item] s1 = Some (rows2, False, s1)"
proof -
  obtain s1 where t: "produce_declared_retries ''t'' (Some [demo_run_record]) [demo_retry_item] empty_store = Some ([demo_retry_row], True, s1)"
    using demo_tick by blast
  from second_tick_enqueues_nothing [OF _ t, of "[]" "[]" s1 "''u''"] t show ?thesis by (auto simp: intake_run_def)
qed

end
