(* ===== verification/QueuePlacement.thy ===== *)
theory QueuePlacement
  imports QueueRetry "HOL-Library.Product_Lexorder"
begin

text \<open>
  The placement authority (\<open>ops/queue/advance.py\<close>): which queued item goes to which configured cluster, or
  why it stays queued. The schema validators of the wire layer and of the cluster configuration are
  arguments; a rationale text is kept as the values it renders. The pass reads one state of ledger,
  journal and configuration and writes nothing.
\<close>

section \<open>What the validators return\<close>

record resource_ask =
  ask_gpu :: bool
  ask_gpu_type :: "string option"
  ask_cores :: "int option"
  ask_walltime_sec :: "int option"
  ask_est_core_hours :: "rat option"

definition no_asks :: resource_ask where
  "no_asks = \<lparr>ask_gpu = False, ask_gpu_type = None, ask_cores = None, ask_walltime_sec = None, ask_est_core_hours = None\<rparr>"

record cluster_config =
  cfg_scheduler :: string
  cfg_ssh_target :: "string option"
  cfg_gpu_types :: "string list"
  cfg_gpu_queues :: "(string \<times> jval) list"
  cfg_gpu_constraint :: "string option"
  cfg_max_walltime_sec :: int

text \<open>A validated entry, the first line of a \<open>ValidationError\<close>, or the text of any other exception.\<close>

datatype config_reading = Config cluster_config | Refused string | Raised string

record validators =
  read_asks :: "(string \<times> jval) list \<Rightarrow> resource_ask option"
  read_config :: "(string \<times> jval) list \<Rightarrow> config_reading"
  registered_backend :: "string \<Rightarrow> bool"

section \<open>Reading configuration and items\<close>

datatype raw_config = LoadFailed string | NotAMapping string | Mapping "(jval \<times> jval) list"

datatype config_error = ConfigUnreadable string | ConfigNotMapping string | NoClusters | NoTextKeys "jval list" | NoError

definition load_clusters :: "raw_config \<Rightarrow> (string \<times> jval) list \<times> config_error" where
  "load_clusters raw =
     (case raw of
        LoadFailed why \<Rightarrow> ([], ConfigUnreadable why)
      | NotAMapping type \<Rightarrow> ([], ConfigNotMapping type)
      | Mapping m \<Rightarrow>
          (if m = [] then ([], NoClusters)
           else
             (let clusters = List.map_filter (\<lambda>(k, v). map_option (\<lambda>key. (key, v)) (text_of k)) m
              in if clusters = [] then ([], NoTextKeys (take 5 (map fst m))) else (clusters, NoError))))"

definition legal_id_char :: "char \<Rightarrow> bool" where
  "legal_id_char c \<longleftrightarrow>
     (let n = (of_char c :: nat)
      in (65 \<le> n \<and> n \<le> 90) \<or> (97 \<le> n \<and> n \<le> 122) \<or> (48 \<le> n \<and> n \<le> 57) \<or> n = 46 \<or> n = 95 \<or> n = 45)"

text \<open>The pattern shared by campaign, run and queue item ids, and the one of an ssh target.\<close>

definition legal_id :: "string \<Rightarrow> bool" where
  "legal_id s \<longleftrightarrow> s \<noteq> [] \<and> list_all legal_id_char s"

definition legal_ssh_target :: "string \<Rightarrow> bool" where
  "legal_ssh_target s \<longleftrightarrow>
     (let user = takeWhile (\<lambda>c. c \<noteq> CHR 0x40) s; at_host = dropWhile (\<lambda>c. c \<noteq> CHR 0x40) s
      in user \<noteq> [] \<and> at_host \<noteq> [] \<and> tl at_host \<noteq> [] \<and> CHR 0x40 \<notin> set (tl at_host))"

definition wire :: "(string \<Rightarrow> bool) \<Rightarrow> string option \<Rightarrow> string option" where
  "wire valid raw = (case raw of None \<Rightarrow> None | Some s \<Rightarrow> if s \<noteq> [] \<and> valid s then Some s else None)"

definition asks_of :: "validators \<Rightarrow> item \<Rightarrow> resource_ask option" where
  "asks_of vs it =
     (case jget it ''resources'' of JNull \<Rightarrow> Some no_asks | JDict d \<Rightarrow> read_asks vs d | _ \<Rightarrow> None)"

datatype unresolved = AsksUnreadable | NothingToResolve | PinUnusable string jval

definition unresolved_reason :: "item \<Rightarrow> resource_ask option \<Rightarrow> unresolved option" where
  "unresolved_reason it asks =
     (if asks = None then Some AsksUnreadable
      else if jget it ''spec'' = JNull \<and> nonempty_str it ''spec_ref'' = None then Some NothingToResolve
      else
        (case find (\<lambda>key. jget it key \<noteq> JNull \<and> nonempty_str it key = None) [''cluster_pin'', ''cluster''] of
           Some key \<Rightarrow> Some (PinUnusable key (jget it key))
         | None \<Rightarrow> None))"

definition pin_of :: "item \<Rightarrow> string option" where
  "pin_of it = (case nonempty_str it ''cluster_pin'' of Some p \<Rightarrow> Some p | None \<Rightarrow> nonempty_str it ''cluster'')"

definition compose_cid :: "string option \<Rightarrow> string \<Rightarrow> string option" where
  "compose_cid base cl =
     wire legal_id (compose_campaign_id (case base of None \<Rightarrow> JNull | Some b \<Rightarrow> JText b) (JText cl))"

section \<open>One cluster's verdict for one item\<close>

text \<open>The ceiling a walltime was compared with: its value, whether the entry declares it, and the other one.\<close>

record ceiling =
  ceil_sec :: int
  ceil_declared :: bool
  ceil_other :: "jval option"

definition walltime_clause :: "cluster_config \<Rightarrow> (string \<times> jval) list \<Rightarrow> ceiling" where
  "walltime_clause cfg entry =
     (let declared = (case jget entry ''constraints'' of JDict c \<Rightarrow> jget c ''max_walltime'' | _ \<Rightarrow> JNull)
      in \<lparr>ceil_sec = cfg_max_walltime_sec cfg, ceil_declared = (map_of entry ''max_walltime_sec'' \<noteq> None),
          ceil_other = (if truthy declared then Some declared else None)\<rparr>)"

datatype check =
    GpuDeclared
  | GpuTypeListed string "string list"
  | WalltimeWithin int ceiling
  | CostWithin rat jval
  | CostNotCompared rat
  | CoresNotCompared int

datatype cluster_reason =
    EntryNotMapping
  | EntryRefused string
  | EntryRaised string
  | NoLegalCampaignId string
  | NoGpu
  | NoGpuType string "string list"
  | WalltimeAbove int ceiling
  | CapNotNumber jval rat
  | CostAbove rat jval
  | SatisfiesAll "check list"

record cluster_verdict =
  v_cluster :: string
  v_eligible :: bool
  v_reason :: cluster_reason
  v_occupied :: nat

text \<open>\<open>parse_constraints\<close> reads its argument's items, which only a dictionary has; the cap it returns is the raw value.\<close>

definition parsed_core_hours_cap :: "jval \<Rightarrow> jval option" where
  "parsed_core_hours_cap raw =
     (if truthy raw then (case raw of JDict d \<Rightarrow> Some (jget d ''max_estimated_core_hours'') | _ \<Rightarrow> None) else Some JNull)"

definition gpu_check :: "resource_ask \<Rightarrow> cluster_config \<Rightarrow> cluster_reason + check list" where
  "gpu_check asks cfg =
     (if ask_gpu asks
      then (if cfg_gpu_types cfg \<noteq> [] \<or> cfg_gpu_queues cfg \<noteq> [] \<or> cfg_gpu_constraint cfg \<notin> {None, Some []}
            then Inr [GpuDeclared] else Inl NoGpu)
      else Inr [])"

definition gpu_type_check :: "resource_ask \<Rightarrow> cluster_config \<Rightarrow> cluster_reason + check list" where
  "gpu_type_check asks cfg =
     (case ask_gpu_type asks of
        None \<Rightarrow> Inr []
      | Some g \<Rightarrow>
          (if \<exists>h\<in>set (cfg_gpu_types cfg). py_lower h = py_lower g then Inr [GpuTypeListed g (cfg_gpu_types cfg)]
           else Inl (NoGpuType g (cfg_gpu_types cfg))))"

definition walltime_check :: "resource_ask \<Rightarrow> cluster_config \<Rightarrow> (string \<times> jval) list \<Rightarrow> cluster_reason + check list" where
  "walltime_check asks cfg entry =
     (case ask_walltime_sec asks of
        None \<Rightarrow> Inr []
      | Some w \<Rightarrow>
          (if w > cfg_max_walltime_sec cfg then Inl (WalltimeAbove w (walltime_clause cfg entry))
           else Inr [WalltimeWithin w (walltime_clause cfg entry)]))"

definition cost_check :: "resource_ask \<Rightarrow> (string \<times> jval) list \<Rightarrow> cluster_reason + check list" where
  "cost_check asks entry =
     (case ask_est_core_hours asks of
        None \<Rightarrow> Inr []
      | Some est \<Rightarrow>
          (case parsed_core_hours_cap (jget entry ''constraints'') of
             None \<Rightarrow> Inl (EntryRaised ''AttributeError'')
           | Some JNull \<Rightarrow> Inr [CostNotCompared est]
           | Some (JInt n) \<Rightarrow> if est > of_int n then Inl (CostAbove est (JInt n)) else Inr [CostWithin est (JInt n)]
           | Some (JFloat r) \<Rightarrow> if est > r then Inl (CostAbove est (JFloat r)) else Inr [CostWithin est (JFloat r)]
           | Some cap \<Rightarrow> Inl (CapNotNumber cap est)))"

definition cores_check :: "resource_ask \<Rightarrow> cluster_reason + check list" where
  "cores_check asks = Inr (case ask_cores asks of None \<Rightarrow> [] | Some n \<Rightarrow> [CoresNotCompared n])"

text \<open>The checks in their fixed order: the first failure is the verdict, otherwise the checks accumulate.\<close>

fun run_checks :: "(cluster_reason + check list) list \<Rightarrow> check list \<Rightarrow> cluster_reason + check list" where
  "run_checks [] done_checks = Inr done_checks"
| "run_checks (Inl why # rest) done_checks = Inl why"
| "run_checks (Inr cs # rest) done_checks = run_checks rest (done_checks @ cs)"

definition evaluate_entry ::
  "validators \<Rightarrow> string \<Rightarrow> jval \<Rightarrow> resource_ask \<Rightarrow> string option \<Rightarrow> cluster_reason + (check list \<times> cluster_config)" where
  "evaluate_entry vs cl entry asks base =
     (case entry of
        JDict e \<Rightarrow>
          (case read_config vs e of
             Raised why \<Rightarrow> Inl (EntryRaised why)
           | Refused why \<Rightarrow> Inl (EntryRefused why)
           | Config cfg \<Rightarrow>
               (if base \<noteq> None \<and> compose_cid base cl = None then Inl (NoLegalCampaignId cl)
                else
                  (case run_checks [gpu_check asks cfg, gpu_type_check asks cfg, walltime_check asks cfg e,
                                    cost_check asks e, cores_check asks] [] of
                     Inl why \<Rightarrow> Inl why
                   | Inr checks \<Rightarrow> Inr (checks, cfg))))
      | _ \<Rightarrow> Inl EntryNotMapping)"

definition evaluate ::
  "validators \<Rightarrow> string \<Rightarrow> jval \<Rightarrow> resource_ask \<Rightarrow> string option \<Rightarrow> nat \<Rightarrow> cluster_verdict \<times> cluster_config option" where
  "evaluate vs cl entry asks base occupied =
     (case evaluate_entry vs cl entry asks base of
        Inl why \<Rightarrow> (\<lparr>v_cluster = cl, v_eligible = False, v_reason = why, v_occupied = occupied\<rparr>, None)
      | Inr (checks, cfg) \<Rightarrow>
          (\<lparr>v_cluster = cl, v_eligible = True, v_reason = SatisfiesAll checks, v_occupied = occupied\<rparr>, Some cfg))"

section \<open>The decision\<close>

datatype rule =
    PinRule
  | SoleSurvivor nat
  | TieBreakNoBase string nat
  | TieBreakEqualLoad string int nat
  | LeastLoaded int string int nat

record placement =
  p_item :: string
  p_run_id :: "string option"
  p_cluster :: string
  p_campaign_id :: "string option"
  p_scheduler :: "string option"
  p_ssh_target :: "string option"
  p_pinned :: bool
  p_rule :: rule
  p_carried :: int
  p_considered :: "cluster_verdict list"

datatype hold_reason =
    ItemNameless
  | ItemUnresolved unresolved
  | NoClustersConfigured config_error
  | ClusterPinUnknown string
  | PinDoesNotQualify string
  | CandidatesEmpty
  | NoneQualifies
  | BatchLimitReached string

fun reason_code :: "hold_reason \<Rightarrow> string" where
  "reason_code ItemNameless = ''item_unresolved''"
| "reason_code (ItemUnresolved u) = ''item_unresolved''"
| "reason_code (NoClustersConfigured e) = ''no_clusters_configured''"
| "reason_code (ClusterPinUnknown p) = ''cluster_pin_unknown''"
| "reason_code (PinDoesNotQualify p) = ''no_cluster_matches_constraints''"
| "reason_code CandidatesEmpty = ''no_cluster_matches_constraints''"
| "reason_code NoneQualifies = ''no_cluster_matches_constraints''"
| "reason_code (BatchLimitReached c) = ''batch_limit_reached''"

record holdback =
  h_item :: string
  h_reason :: hold_reason
  h_considered :: "cluster_verdict list"

record advance_spec =
  sp_campaign_base :: "string option"
  sp_max_placements :: nat
  sp_clusters :: "string list option"

text \<open>The result models refuse an illegal item id, and the occupancy predicate may raise; both end the pass.\<close>

datatype advance_error = IllegalItemId string | OccupancyRaised string

record pass_state =
  ps_placements :: "placement list"
  ps_held :: "holdback list"
  ps_occupancy :: "(string \<times> nat) list"
  ps_provisional :: "(string \<times> int) list"

definition choose_reason ::
  "(string \<Rightarrow> int) \<Rightarrow> string option \<Rightarrow> cluster_verdict \<Rightarrow> cluster_verdict list \<Rightarrow> nat \<Rightarrow> rule" where
  "choose_reason load base chosen eligible rejected =
     (case eligible of
        _ # runner_up # _ \<Rightarrow>
          (if base = None then TieBreakNoBase (v_cluster runner_up) rejected
           else if load (v_cluster chosen) = load (v_cluster runner_up)
           then TieBreakEqualLoad (v_cluster runner_up) (load (v_cluster chosen)) rejected
           else LeastLoaded (load (v_cluster chosen)) (v_cluster runner_up) (load (v_cluster runner_up)) rejected)
      | _ \<Rightarrow> SoleSurvivor rejected)"

definition make_placement ::
  "validators \<Rightarrow> string \<Rightarrow> item \<Rightarrow> string \<Rightarrow> cluster_config option \<Rightarrow> string option \<Rightarrow> rule \<Rightarrow> int \<Rightarrow> bool \<Rightarrow> cluster_verdict list
   \<Rightarrow> advance_error + placement" where
  "make_placement vs iid it cl cfg base why carried is_pinned considered =
     (if \<not> legal_id iid then Inl (IllegalItemId iid)
      else Inr \<lparr>p_item = iid, p_run_id = wire legal_id (item_run_id it), p_cluster = cl, p_campaign_id = compose_cid base cl,
             p_scheduler = wire (registered_backend vs) (map_option cfg_scheduler cfg),
             p_ssh_target = wire legal_ssh_target (Option.bind cfg cfg_ssh_target),
             p_pinned = is_pinned, p_rule = why, p_carried = carried, p_considered = considered\<rparr>)"

definition hold :: "string \<Rightarrow> hold_reason \<Rightarrow> cluster_verdict list \<Rightarrow> pass_state \<Rightarrow> advance_error + pass_state" where
  "hold iid why considered ps =
     (if \<not> legal_id iid then Inl (IllegalItemId iid)
      else Inr (ps\<lparr>ps_held := ps_held ps @ [\<lparr>h_item = iid, h_reason = why, h_considered = considered\<rparr>]\<rparr>))"

text \<open>The occupancy of a campaign id, read once per call.\<close>

definition occupied_for ::
  "journal \<Rightarrow> item list \<Rightarrow> string option \<Rightarrow> pass_state \<Rightarrow> advance_error + (nat \<times> pass_state)" where
  "occupied_for journal items cid ps =
     (case cid of
        None \<Rightarrow> Inr (0, ps)
      | Some c \<Rightarrow>
          (if c = [] then Inr (0, ps)
           else
             (case map_of (ps_occupancy ps) c of
                Some n \<Rightarrow> Inr (n, ps)
              | None \<Rightarrow>
                  (case occupied_slots journal items c of
                     None \<Rightarrow> Inl (OccupancyRaised c)
                   | Some n \<Rightarrow> Inr (n, ps\<lparr>ps_occupancy := ps_occupancy ps @ [(c, n)]\<rparr>)))))"

text \<open>The provisional increment of a placement, unless the predicate counts the item there already.\<close>

definition take_slot :: "string option \<Rightarrow> string option \<Rightarrow> pass_state \<Rightarrow> pass_state" where
  "take_slot cid item_cid ps =
     (case cid of
        Some c \<Rightarrow> if cid \<noteq> item_cid then ps\<lparr>ps_provisional := bump c 1 (ps_provisional ps)\<rparr> else ps
      | None \<Rightarrow> ps)"

definition commit ::
  "advance_error + placement \<Rightarrow> string option \<Rightarrow> string option \<Rightarrow> pass_state \<Rightarrow> advance_error + pass_state" where
  "commit made cid item_cid ps =
     (case made of
        Inl err \<Rightarrow> Inl err
      | Inr p \<Rightarrow> Inr (take_slot cid item_cid (ps\<lparr>ps_placements := ps_placements ps @ [p]\<rparr>)))"

text \<open>The pin is evaluated against itself and nothing else.\<close>

definition decide_pinned ::
  "validators \<Rightarrow> journal \<Rightarrow> item list \<Rightarrow> (string \<times> jval) list \<Rightarrow> nat \<Rightarrow> string \<Rightarrow> item \<Rightarrow> resource_ask \<Rightarrow> string
   \<Rightarrow> pass_state \<Rightarrow> advance_error + pass_state" where
  "decide_pinned vs journal items clusters bound iid it asks pin ps =
     (let base = nonempty_str it ''campaign_base'' in
      case map_of clusters pin of
        None \<Rightarrow> hold iid (ClusterPinUnknown pin) [] ps
      | Some entry \<Rightarrow>
          (let cid = compose_cid base pin in
           case occupied_for journal items cid ps of
             Inl err \<Rightarrow> Inl err
           | Inr (occ, ps) \<Rightarrow>
               (let (v, cfg) = evaluate vs pin entry asks base occ in
                if \<not> v_eligible v then hold iid (PinDoesNotQualify pin) [v] ps
                else if length (ps_placements ps) \<ge> bound then hold iid (BatchLimitReached pin) [v] ps
                else commit (make_placement vs iid it pin cfg base PinRule 0 True [v]) cid
                       (intake_item_campaign_id it) ps)))"

text \<open>Every candidate's verdict, configuration and load.\<close>

fun survey ::
  "validators \<Rightarrow> journal \<Rightarrow> item list \<Rightarrow> (string \<times> jval) list \<Rightarrow> resource_ask \<Rightarrow> string option \<Rightarrow> string list
   \<Rightarrow> pass_state \<Rightarrow> advance_error + ((cluster_verdict \<times> cluster_config option \<times> int \<times> int) list \<times> pass_state)" where
  "survey vs journal items clusters asks base [] ps = Inr ([], ps)"
| "survey vs journal items clusters asks base (key # keys) ps =
     (let cid = compose_cid base key in
      case occupied_for journal items cid ps of
        Inl err \<Rightarrow> Inl err
      | Inr (occ, ps) \<Rightarrow>
          (let (v, cfg) = evaluate vs key (case map_of clusters key of None \<Rightarrow> JNull | Some e \<Rightarrow> e) asks base occ;
               taken_here = (case cid of None \<Rightarrow> 0 | Some c \<Rightarrow> if c = [] then 0 else count_of (ps_provisional ps) c)
           in case survey vs journal items clusters asks base keys ps of
                Inl err \<Rightarrow> Inl err
              | Inr (rows, ps) \<Rightarrow> Inr ((v, cfg, taken_here, int occ + taken_here) # rows, ps)))"

definition load_of :: "(cluster_verdict \<times> cluster_config option \<times> int \<times> int) list \<Rightarrow> string \<Rightarrow> int" where
  "load_of rows key = (case find (\<lambda>(v, _). v_cluster v = key) rows of None \<Rightarrow> 0 | Some (_, _, _, load) \<Rightarrow> load)"

definition config_in :: "(cluster_verdict \<times> cluster_config option \<times> int \<times> int) list \<Rightarrow> string \<Rightarrow> cluster_config option" where
  "config_in rows key = (case find (\<lambda>(v, _). v_cluster v = key) rows of None \<Rightarrow> None | Some (_, cfg, _) \<Rightarrow> cfg)"

definition decide_free ::
  "validators \<Rightarrow> journal \<Rightarrow> item list \<Rightarrow> (string \<times> jval) list \<Rightarrow> string list \<Rightarrow> nat \<Rightarrow> string \<Rightarrow> item \<Rightarrow> resource_ask
   \<Rightarrow> pass_state \<Rightarrow> advance_error + pass_state" where
  "decide_free vs journal items clusters candidates bound iid it asks ps =
     (if candidates = [] then hold iid CandidatesEmpty [] ps
      else
        (let base = nonempty_str it ''campaign_base'' in
         case survey vs journal items clusters asks base candidates ps of
           Inl err \<Rightarrow> Inl err
         | Inr (rows, ps) \<Rightarrow>
             (let verdicts = map fst rows;
                  eligible = sort_key (\<lambda>v. (load_of rows (v_cluster v), v_cluster v)) (filter v_eligible verdicts);
                  rejected = length verdicts - length eligible
              in case eligible of
                   [] \<Rightarrow> hold iid NoneQualifies verdicts ps
                 | chosen # _ \<Rightarrow>
                     (if length (ps_placements ps) \<ge> bound then hold iid (BatchLimitReached (v_cluster chosen)) verdicts ps
                      else commit
                             (make_placement vs iid it (v_cluster chosen) (config_in rows (v_cluster chosen)) base
                                (choose_reason (load_of rows) base chosen eligible rejected)
                                (\<Sum>(_, _, taken_here, _)\<leftarrow>rows. taken_here) False verdicts)
                             (compose_cid base (v_cluster chosen)) (intake_item_campaign_id it) ps))))"

definition decide_item ::
  "validators \<Rightarrow> journal \<Rightarrow> item list \<Rightarrow> (string \<times> jval) list \<Rightarrow> config_error \<Rightarrow> string list \<Rightarrow> nat \<Rightarrow> item
   \<Rightarrow> pass_state \<Rightarrow> advance_error + pass_state" where
  "decide_item vs journal items clusters config_err candidates bound it ps =
     (case nonempty_str it ''item_id'' of
        None \<Rightarrow> hold ''unknown'' ItemNameless [] ps
      | Some iid \<Rightarrow>
          (case (asks_of vs it, unresolved_reason it (asks_of vs it)) of
             (Some asks, None) \<Rightarrow>
               (if clusters = [] then hold iid (NoClustersConfigured config_err) [] ps
                else
                  (case pin_of it of
                     Some pin \<Rightarrow> decide_pinned vs journal items clusters bound iid it asks pin ps
                   | None \<Rightarrow> decide_free vs journal items clusters candidates bound iid it asks ps))
           | (_, Some u) \<Rightarrow> hold iid (ItemUnresolved u) [] ps
           | (None, None) \<Rightarrow> hold iid (ItemUnresolved AsksUnreadable) [] ps))"

fun decide_items ::
  "(item \<Rightarrow> pass_state \<Rightarrow> advance_error + pass_state) \<Rightarrow> item list \<Rightarrow> pass_state \<Rightarrow> advance_error + pass_state" where
  "decide_items decide [] ps = Inr ps"
| "decide_items decide (it # rest) ps =
     (case decide it ps of Inl err \<Rightarrow> Inl err | Inr ps \<Rightarrow> decide_items decide rest ps)"

record advance_result =
  ar_decision :: string
  ar_placements :: "placement list"
  ar_held :: "holdback list"
  ar_held_counts :: "(string \<times> int) list"
  ar_queued_total :: nat
  ar_considered :: "string list"
  ar_occupancy :: "(string \<times> nat) list"

definition queued_in_scope :: "advance_spec \<Rightarrow> item list \<Rightarrow> item list" where
  "queued_in_scope spec items =
     filter (\<lambda>it. jget it ''state'' = JText ''queued''
               \<and> (case sp_campaign_base spec of None \<Rightarrow> True | Some b \<Rightarrow> nonempty_str it ''campaign_base'' = Some b)) items"

definition candidates_of :: "advance_spec \<Rightarrow> (string \<times> jval) list \<Rightarrow> string list" where
  "candidates_of spec clusters =
     filter (\<lambda>key. case sp_clusters spec of None \<Rightarrow> True | Some wanted \<Rightarrow> key \<in> set wanted) (sort (map fst clusters))"

definition empty_pass :: pass_state where
  "empty_pass = \<lparr>ps_placements = [], ps_held = [], ps_occupancy = [], ps_provisional = []\<rparr>"

definition queue_advance ::
  "validators \<Rightarrow> journal \<Rightarrow> item list \<Rightarrow> raw_config \<Rightarrow> advance_spec \<Rightarrow> advance_error + advance_result" where
  "queue_advance vs journal items raw spec =
     (let queued = queued_in_scope spec items;
          (clusters, config_err) = load_clusters raw;
          candidates = candidates_of spec clusters
      in case decide_items (decide_item vs journal items clusters config_err candidates (sp_max_placements spec)) queued empty_pass of
           Inl err \<Rightarrow> Inl err
         | Inr ps \<Rightarrow>
             Inr \<lparr>ar_decision = (if ps_placements ps \<noteq> [] then ''place'' else if queued \<noteq> [] then ''hold'' else ''empty''),
                  ar_placements = ps_placements ps, ar_held = ps_held ps,
                  ar_held_counts = foldl (\<lambda>c h. bump (reason_code (h_reason h)) 1 c) [] (ps_held ps),
                  ar_queued_total = length queued, ar_considered = candidates, ar_occupancy = ps_occupancy ps\<rparr>)"

end
