(* ===== verification/QueuePlacementLaws.thy ===== *)
theory QueuePlacementLaws
  imports QueuePlacement "HOL-Library.Multiset"
begin

text \<open>
  What the placement authority promises: when the pass returns at all, that every item is decided exactly
  once, that a placement honours the item's pin, the cluster's declared limits and the load of the pool,
  and that the occupancy it publishes is the shared predicate's.
\<close>

section \<open>A cluster's verdict against the declared limits\<close>

text \<open>The hard constraints, one by one.\<close>

definition cap_admits :: "rat \<Rightarrow> jval \<Rightarrow> bool" where
  "cap_admits est cap =
     (case cap of JNull \<Rightarrow> True | JInt n \<Rightarrow> est \<le> of_int n | JFloat r \<Rightarrow> est \<le> r | _ \<Rightarrow> False)"

definition fits :: "resource_ask \<Rightarrow> cluster_config \<Rightarrow> (string \<times> jval) list \<Rightarrow> bool" where
  "fits asks cfg e \<longleftrightarrow>
     (ask_gpu asks \<longrightarrow> cfg_gpu_types cfg \<noteq> [] \<or> cfg_gpu_queues cfg \<noteq> [] \<or> cfg_gpu_constraint cfg \<notin> {None, Some []})
   \<and> (\<forall>g. ask_gpu_type asks = Some g \<longrightarrow> py_lower g \<in> py_lower ` set (cfg_gpu_types cfg))
   \<and> (\<forall>w. ask_walltime_sec asks = Some w \<longrightarrow> w \<le> cfg_max_walltime_sec cfg)
   \<and> (\<forall>est. ask_est_core_hours asks = Some est \<longrightarrow> (\<exists>cap. parsed_core_hours_cap (jget e ''constraints'') = Some cap \<and> cap_admits est cap))"

definition qualifies :: "validators \<Rightarrow> (string \<times> jval) list \<Rightarrow> item \<Rightarrow> resource_ask \<Rightarrow> string \<Rightarrow> bool" where
  "qualifies vs clusters it asks key \<longleftrightarrow>
     (\<exists>e cfg. map_of clusters key = Some (JDict e) \<and> read_config vs e = Config cfg \<and> fits asks cfg e
        \<and> (nonempty_str it ''campaign_base'' \<noteq> None \<longrightarrow> compose_cid (nonempty_str it ''campaign_base'') key \<noteq> None))"

lemma cost_check_passes:
  "(\<exists>cs. cost_check asks e = Inr cs) \<longleftrightarrow>
     (\<forall>est. ask_est_core_hours asks = Some est \<longrightarrow> (\<exists>cap. parsed_core_hours_cap (jget e ''constraints'') = Some cap \<and> cap_admits est cap))"
  by (auto simp: cost_check_def cap_admits_def not_less split: option.splits jval.splits if_splits)

lemma gpu_check_passes:
  "(\<exists>cs. gpu_check asks cfg = Inr cs) \<longleftrightarrow>
     (ask_gpu asks \<longrightarrow> cfg_gpu_types cfg \<noteq> [] \<or> cfg_gpu_queues cfg \<noteq> [] \<or> cfg_gpu_constraint cfg \<notin> {None, Some []})"
  by (simp add: gpu_check_def)

lemma gpu_type_check_passes:
  "(\<exists>cs. gpu_type_check asks cfg = Inr cs) \<longleftrightarrow>
     (\<forall>g. ask_gpu_type asks = Some g \<longrightarrow> py_lower g \<in> py_lower ` set (cfg_gpu_types cfg))"
  by (auto simp: gpu_type_check_def image_iff split: option.split) metis+

lemma walltime_check_passes:
  "(\<exists>cs. walltime_check asks cfg e = Inr cs) \<longleftrightarrow> (\<forall>w. ask_walltime_sec asks = Some w \<longrightarrow> w \<le> cfg_max_walltime_sec cfg)"
  by (simp add: walltime_check_def split: option.split)

lemma run_checks_passes: "(\<exists>cs. run_checks tests done_checks = Inr cs) \<longleftrightarrow> (\<forall>t\<in>set tests. \<exists>cs. t = Inr cs)"
  by (induction tests done_checks rule: run_checks.induct) auto

lemma checks_pass:
  "(\<exists>cs. run_checks [gpu_check asks cfg, gpu_type_check asks cfg, walltime_check asks cfg e, cost_check asks e, cores_check asks] [] = Inr cs)
     \<longleftrightarrow> fits asks cfg e"
  unfolding run_checks_passes fits_def gpu_check_passes [symmetric] gpu_type_check_passes [symmetric]
    walltime_check_passes [of asks cfg e, symmetric] cost_check_passes [symmetric]
  by (simp add: cores_check_def)

lemma evaluate_entry_passes:
  "(\<exists>r. evaluate_entry vs cl entry asks base = Inr r) \<longleftrightarrow>
     (\<exists>e cfg. entry = JDict e \<and> read_config vs e = Config cfg \<and> fits asks cfg e \<and> (base \<noteq> None \<longrightarrow> compose_cid base cl \<noteq> None))"
proof (cases entry)
  case (JDict e)
  show ?thesis
  proof (cases "read_config vs e")
    case (Config cfg)
    show ?thesis
      unfolding evaluate_entry_def JDict Config jval.case config_reading.case checks_pass [symmetric]
      by (auto simp: Config split: sum.split)
  qed (simp_all add: evaluate_entry_def JDict)
qed (simp_all add: evaluate_entry_def)

lemma evaluate_fields:
  "evaluate vs cl entry asks base occ = (v, c) \<Longrightarrow>
     v_cluster v = cl \<and> v_occupied v = occ \<and> (v_eligible v \<longleftrightarrow> (\<exists>r. evaluate_entry vs cl entry asks base = Inr r))"
  by (auto simp: evaluate_def split: sum.splits prod.splits)

lemma evaluate_qualifies:
  assumes "evaluate vs cl (case map_of clusters cl of None \<Rightarrow> JNull | Some e \<Rightarrow> e) asks (nonempty_str it ''campaign_base'') occ = (v, c)"
  shows "v_eligible v \<longleftrightarrow> qualifies vs clusters it asks cl"
proof -
  have "v_eligible v \<longleftrightarrow> (\<exists>r. evaluate_entry vs cl (case map_of clusters cl of None \<Rightarrow> JNull | Some e \<Rightarrow> e) asks
      (nonempty_str it ''campaign_base'') = Inr r)"
    using evaluate_fields [OF assms] by blast
  then show ?thesis unfolding evaluate_entry_passes qualifies_def by (cases "map_of clusters cl") auto
qed

section \<open>One item\<close>

definition memo_ok :: "journal \<Rightarrow> item list \<Rightarrow> pass_state \<Rightarrow> bool" where
  "memo_ok journal items ps \<longleftrightarrow> (\<forall>(c, n)\<in>set (ps_occupancy ps). occupied_slots journal items c = Some n)"

definition same_but_memo :: "pass_state \<Rightarrow> pass_state \<Rightarrow> bool" where
  "same_but_memo ps ps' \<longleftrightarrow> ps_placements ps' = ps_placements ps \<and> ps_held ps' = ps_held ps \<and> ps_provisional ps' = ps_provisional ps"

text \<open>The load of a cluster for an item: what the predicate counts and what this call has decided already.\<close>

definition pool_load :: "journal \<Rightarrow> item list \<Rightarrow> (string \<Rightarrow> int) \<Rightarrow> string option \<Rightarrow> string \<Rightarrow> int" where
  "pool_load journal items extra base key =
     (case compose_cid base key of None \<Rightarrow> 0
      | Some c \<Rightarrow> int (case occupied_slots journal items c of None \<Rightarrow> 0 | Some n \<Rightarrow> n) + extra c)"

lemma compose_cid_legal: "compose_cid base key = Some c \<Longrightarrow> legal_id c \<and> c \<noteq> []"
  by (auto simp: compose_cid_def wire_def split: option.splits if_splits)

lemma occupied_for_ok:
  assumes "memo_ok journal items ps" "occupied_for journal items cid ps = Inr (n, ps')"
  shows "memo_ok journal items ps' \<and> same_but_memo ps ps'
    \<and> n = (case cid of None \<Rightarrow> 0 | Some c \<Rightarrow> if c = [] then 0 else case occupied_slots journal items c of None \<Rightarrow> 0 | Some n \<Rightarrow> n)"
proof -
  have "occupied_slots journal items c = Some m" if "map_of (ps_occupancy ps) c = Some m" for c m
    using assms(1) map_of_SomeD [OF that] by (auto simp: memo_ok_def)
  with assms show ?thesis
    by (auto simp: occupied_for_def memo_ok_def same_but_memo_def split: option.splits if_splits)
qed

lemma survey_ok:
  "survey vs journal items clusters asks (nonempty_str it ''campaign_base'') keys ps = Inr (rows, ps') \<Longrightarrow> memo_ok journal items ps \<Longrightarrow>
     memo_ok journal items ps' \<and> same_but_memo ps ps' \<and> map (\<lambda>r. v_cluster (fst r)) rows = keys
   \<and> (\<forall>(v, cfg, t, l)\<in>set rows. (v_eligible v \<longleftrightarrow> qualifies vs clusters it asks (v_cluster v))
        \<and> l = pool_load journal items (count_of (ps_provisional ps)) (nonempty_str it ''campaign_base'') (v_cluster v))"
proof (induction keys arbitrary: ps rows ps')
  case (Cons key keys)
  let ?base = "nonempty_str it ''campaign_base''"
  let ?cid = "compose_cid ?base key"
  let ?extra = "case ?cid of None \<Rightarrow> 0 | Some c \<Rightarrow> if c = [] then 0 else count_of (ps_provisional ps) c"
  from Cons.prems(1) obtain occ ps1 where o: "occupied_for journal items ?cid ps = Inr (occ, ps1)"
    by (auto simp: Let_def split: sum.splits)
  note ok1 = occupied_for_ok [OF Cons.prems(2) o]
  obtain v cfg where e: "evaluate vs key (case map_of clusters key of None \<Rightarrow> JNull | Some e \<Rightarrow> e) asks ?base occ = (v, cfg)" by force
  have prov: "ps_provisional ps1 = ps_provisional ps" using ok1 by (simp add: same_but_memo_def)
  obtain rows2 ps2 where s: "survey vs journal items clusters asks ?base keys ps1 = Inr (rows2, ps2)"
    using Cons.prems(1) by (cases "survey vs journal items clusters asks ?base keys ps1") (auto simp: Let_def o e)
  have r: "rows = (v, cfg, ?extra, int occ + ?extra) # rows2" "ps' = ps2"
    unfolding prov [symmetric] using Cons.prems(1) by (auto simp: Let_def o e s)
  note ih = Cons.IH [OF s conjunct1 [OF ok1]]
  have "int occ + ?extra = pool_load journal items (count_of (ps_provisional ps)) ?base key"
    using ok1 compose_cid_legal [of ?base key] by (auto simp: pool_load_def split: option.splits)
  moreover have "v_eligible v \<longleftrightarrow> qualifies vs clusters it asks key" "v_cluster v = key"
    using evaluate_qualifies [OF e] evaluate_fields [OF e] by simp_all
  ultimately show ?case using ih ok1 by (auto simp: r same_but_memo_def)
qed (simp add: same_but_memo_def)

text \<open>What a placement of an item promises, given the slots taken so far in the call.\<close>

definition name_of :: "item \<Rightarrow> string" where
  "name_of it = (case nonempty_str it ''item_id'' of None \<Rightarrow> ''unknown'' | Some iid \<Rightarrow> iid)"

definition placed_well ::
  "validators \<Rightarrow> journal \<Rightarrow> item list \<Rightarrow> (string \<times> jval) list \<Rightarrow> string list \<Rightarrow> (string \<Rightarrow> int) \<Rightarrow> item \<Rightarrow> placement \<Rightarrow> bool" where
  "placed_well vs journal items clusters candidates extra it p \<longleftrightarrow>
     nonempty_str it ''item_id'' = Some (p_item p) \<and> p_campaign_id p = compose_cid (nonempty_str it ''campaign_base'') (p_cluster p)
   \<and> (\<exists>asks. asks_of vs it = Some asks \<and> qualifies vs clusters it asks (p_cluster p)
       \<and> (case pin_of it of
            Some pin \<Rightarrow> p_pinned p \<and> p_cluster p = pin
          | None \<Rightarrow> \<not> p_pinned p \<and> p_cluster p \<in> set candidates
             \<and> (\<forall>key\<in>set candidates. qualifies vs clusters it asks key \<longrightarrow>
                  (pool_load journal items extra (nonempty_str it ''campaign_base'') (p_cluster p), p_cluster p)
                    \<le> (pool_load journal items extra (nonempty_str it ''campaign_base'') key, key))))"

definition advanced ::
  "validators \<Rightarrow> journal \<Rightarrow> item list \<Rightarrow> (string \<times> jval) list \<Rightarrow> string list \<Rightarrow> nat \<Rightarrow> item \<Rightarrow> pass_state \<Rightarrow> pass_state \<Rightarrow> bool" where
  "advanced vs journal items clusters candidates bound it ps ps' \<longleftrightarrow>
     legal_id (name_of it) \<and> memo_ok journal items ps' \<and>
     ((\<exists>h. h_item h = name_of it \<and> ps_held ps' = ps_held ps @ [h] \<and> ps_placements ps' = ps_placements ps
           \<and> ps_provisional ps' = ps_provisional ps)
    \<or> (\<exists>p. placed_well vs journal items clusters candidates (count_of (ps_provisional ps)) it p \<and> length (ps_placements ps) < bound
           \<and> ps_placements ps' = ps_placements ps @ [p] \<and> ps_held ps' = ps_held ps
           \<and> ps_provisional ps' = ps_provisional (take_slot (p_campaign_id p) (intake_item_campaign_id it) ps)))"

lemma hold_advanced:
  assumes "hold (name_of it) why considered ps1 = Inr ps'" "memo_ok journal items ps1" "same_but_memo ps ps1"
  shows "advanced vs journal items clusters candidates bound it ps ps'"
  using assms by (auto simp: advanced_def hold_def same_but_memo_def memo_ok_def split: if_splits)

lemma commit_advanced:
  assumes "commit (make_placement vs (name_of it) it cl cfg base why carried pinned_by considered) (compose_cid base cl) (intake_item_campaign_id it) ps1 = Inr ps'"
    and "memo_ok journal items ps1" "same_but_memo ps ps1" "base = nonempty_str it ''campaign_base''" "length (ps_placements ps1) < bound"
    and "nonempty_str it ''item_id'' = Some (name_of it)" "asks_of vs it = Some asks" "qualifies vs clusters it asks cl"
    and "case pin_of it of Some pin \<Rightarrow> pinned_by \<and> cl = pin
         | None \<Rightarrow> \<not> pinned_by \<and> cl \<in> set candidates
             \<and> (\<forall>key\<in>set candidates. qualifies vs clusters it asks key \<longrightarrow>
                  (pool_load journal items (count_of (ps_provisional ps)) base cl, cl) \<le> (pool_load journal items (count_of (ps_provisional ps)) base key, key))"
  shows "advanced vs journal items clusters candidates bound it ps ps'"
proof -
  from assms(1) obtain p where p: "make_placement vs (name_of it) it cl cfg base why carried pinned_by considered = Inr p"
    and ps': "ps' = take_slot (compose_cid base cl) (intake_item_campaign_id it) (ps1\<lparr>ps_placements := ps_placements ps1 @ [p]\<rparr>)"
    by (auto simp: commit_def split: sum.splits)
  have f: "p_item p = name_of it" "p_cluster p = cl" "p_campaign_id p = compose_cid base cl" "p_pinned p = pinned_by" "legal_id (name_of it)"
    using p by (auto simp: make_placement_def split: if_splits)
  have "placed_well vs journal items clusters candidates (count_of (ps_provisional ps)) it p"
    unfolding placed_well_def f using assms(4,6-9) by blast
  then show ?thesis
    unfolding advanced_def using f assms(2,3,5) ps'
    by (auto simp: take_slot_def same_but_memo_def memo_ok_def split: option.splits)
qed


lemma decide_pinned_advanced:
  assumes "decide_pinned vs journal items clusters bound (name_of it) it asks pin ps = Inr ps'" "memo_ok journal items ps"
    and "nonempty_str it ''item_id'' = Some (name_of it)" "asks_of vs it = Some asks" "pin_of it = Some pin"
  shows "advanced vs journal items clusters candidates bound it ps ps'"
proof (cases "map_of clusters pin")
  case None
  then show ?thesis
    using assms(1,2) by (auto simp: decide_pinned_def Let_def same_but_memo_def intro: hold_advanced)
next
  case (Some entry)
  let ?base = "nonempty_str it ''campaign_base''"
  obtain occ ps1 where o: "occupied_for journal items (compose_cid ?base pin) ps = Inr (occ, ps1)"
    using assms(1) Some by (auto simp: decide_pinned_def Let_def split: sum.splits)
  note ok = occupied_for_ok [OF assms(2) o]
  obtain v cfg where e: "evaluate vs pin entry asks ?base occ = (v, cfg)" by force
  have q: "v_eligible v \<longleftrightarrow> qualifies vs clusters it asks pin" using evaluate_qualifies [of vs pin clusters asks it occ v cfg] e Some by simp
  have d: "(if \<not> v_eligible v then hold (name_of it) (PinDoesNotQualify pin) [v] ps1
      else if length (ps_placements ps1) \<ge> bound then hold (name_of it) (BatchLimitReached pin) [v] ps1
      else commit (make_placement vs (name_of it) it pin cfg ?base PinRule 0 True [v]) (compose_cid ?base pin)
             (intake_item_campaign_id it) ps1) = Inr ps'"
    using assms(1) by (simp add: decide_pinned_def Let_def Some o e)
  consider "\<not> v_eligible v" | "v_eligible v" "length (ps_placements ps1) \<ge> bound" | "v_eligible v" "length (ps_placements ps1) < bound"
    by fastforce
  then show ?thesis
  proof cases
    case 3
    with d show ?thesis using ok assms(3-5) q by (intro commit_advanced) auto
  qed (use d ok in \<open>auto intro: hold_advanced\<close>)
qed

text \<open>The head of the sorted list of eligible candidates.\<close>

lemma least_first:
  assumes "sort_key f xs = x # ys"
  shows "x \<in> set xs \<and> (\<forall>y\<in>set xs. f x \<le> f y)"
proof -
  have set_eq: "set (x # ys) = set xs" by (simp add: set_sort flip: assms)
  have "sorted (map f (x # ys))" by (simp only: sorted_sort_key flip: assms)
  then have "\<forall>y\<in>set (x # ys). f x \<le> f y" by auto
  with set_eq show ?thesis by auto
qed

lemma find_row:
  "distinct (map (\<lambda>r. v_cluster (fst r)) rows) \<Longrightarrow> (v, c, t, l) \<in> set rows \<Longrightarrow>
     find (\<lambda>(v', _). v_cluster v' = v_cluster v) rows = Some (v, c, t, l)"
proof (induction rows)
  case (Cons r rows)
  then show ?case by (cases r) (force split: prod.splits)
qed simp

lemma decide_free_advanced:
  assumes "decide_free vs journal items clusters candidates bound (name_of it) it asks ps = Inr ps'" "memo_ok journal items ps"
    and "nonempty_str it ''item_id'' = Some (name_of it)" "asks_of vs it = Some asks" "pin_of it = None" "distinct candidates"
  shows "advanced vs journal items clusters candidates bound it ps ps'"
proof (cases "candidates = []")
  case True
  then show ?thesis using assms(1,2) by (auto simp: decide_free_def same_but_memo_def intro: hold_advanced)
next
  case False
  let ?base = "nonempty_str it ''campaign_base''"
  obtain rows ps1 where s: "survey vs journal items clusters asks ?base candidates ps = Inr (rows, ps1)"
    using assms(1) False by (auto simp: decide_free_def Let_def split: sum.splits)
  note ok = survey_ok [OF s assms(2)]
  have keys: "candidates = map (\<lambda>r. v_cluster (fst r)) rows" using ok by simp
  have verdicts: "set (map fst rows) = fst ` set rows" "v_cluster ` set (map fst rows) = set candidates"
    by (auto simp: keys)
  let ?load = "load_of rows"
  let ?eligible = "sort_key (\<lambda>v. (?load (v_cluster v), v_cluster v)) (filter v_eligible (map fst rows))"
  have load: "?load key = pool_load journal items (count_of (ps_provisional ps)) ?base key"
    if "key \<in> set candidates" for key
  proof -
    from that have "key \<in> (\<lambda>r. v_cluster (fst r)) ` set rows" by (simp add: keys)
    then obtain v c t l where r: "(v, c, t, l) \<in> set rows" "v_cluster v = key" by auto
    have "find (\<lambda>(v', _). v_cluster v' = v_cluster v) rows = Some (v, c, t, l)"
      using assms(6) by (intro find_row [OF _ r(1)]) (simp add: keys)
    moreover have "l = pool_load journal items (count_of (ps_provisional ps)) ?base (v_cluster v)" using ok r(1) by blast
    ultimately show ?thesis by (simp add: load_of_def r(2))
  qed
  have d: "(case ?eligible of
        [] \<Rightarrow> hold (name_of it) NoneQualifies (map fst rows) ps1
      | chosen # _ \<Rightarrow>
          (if length (ps_placements ps1) \<ge> bound then hold (name_of it) (BatchLimitReached (v_cluster chosen)) (map fst rows) ps1
           else commit (make_placement vs (name_of it) it (v_cluster chosen) (config_in rows (v_cluster chosen)) ?base
                   (choose_reason ?load ?base chosen ?eligible (length (map fst rows) - length ?eligible))
                   (\<Sum>(_, _, taken_here, _)\<leftarrow>rows. taken_here) False (map fst rows))
                 (compose_cid ?base (v_cluster chosen)) (intake_item_campaign_id it) ps1)) = Inr ps'"
    using assms(1) False by (simp only: decide_free_def Let_def s sum.case prod.case if_False)
  show ?thesis
  proof (cases ?eligible)
    case Nil
    with d ok show ?thesis by (auto intro: hold_advanced)
  next
    case (Cons chosen rest)
    from least_first [OF Cons] have c: "chosen \<in> set (map fst rows)" "v_eligible chosen"
      and least: "\<forall>v\<in>set (map fst rows). v_eligible v \<longrightarrow>
        (?load (v_cluster chosen), v_cluster chosen) \<le> (?load (v_cluster v), v_cluster v)" by auto
    have in_c: "v_cluster v \<in> set candidates" if "v \<in> set (map fst rows)" for v
      unfolding verdicts(2) [symmetric] using that by (rule imageI)
    have q: "v_eligible v \<longleftrightarrow> qualifies vs clusters it asks (v_cluster v)" if "v \<in> set (map fst rows)" for v
    proof -
      from that obtain c t l where r: "(v, c, t, l) \<in> set rows" by auto
      show ?thesis using ok r by blast
    qed
    show ?thesis
    proof (cases "length (ps_placements ps1) \<ge> bound")
      case True
      with d Cons ok show ?thesis by (auto intro: hold_advanced)
    next
      case below: False
      have "(pool_load journal items (count_of (ps_provisional ps)) ?base (v_cluster chosen), v_cluster chosen)
          \<le> (pool_load journal items (count_of (ps_provisional ps)) ?base key, key)"
        if key: "key \<in> set candidates" "qualifies vs clusters it asks key" for key
      proof -
        from key(1) obtain v where v: "v \<in> set (map fst rows)" "v_cluster v = key"
          unfolding verdicts(2) [symmetric] by blast
        have "(?load (v_cluster chosen), v_cluster chosen) \<le> (?load (v_cluster v), v_cluster v)"
          using least q [OF v(1)] v key(2) by blast
        then show ?thesis unfolding v(2) load [OF key(1)] load [OF in_c [OF c(1)]] .
      qed
      then show ?thesis
        using d below ok assms(3-5) c q [OF c(1)] in_c [OF c(1)] unfolding Cons list.case
        by (intro commit_advanced) auto
    qed
  qed
qed

lemma decide_item_advanced:
  assumes "decide_item vs journal items clusters err candidates bound it ps = Inr ps'" "memo_ok journal items ps" "distinct candidates"
  shows "advanced vs journal items clusters candidates bound it ps ps'"
proof (cases "nonempty_str it ''item_id''")
  case None
  with assms(1,2) show ?thesis
    by (auto simp: decide_item_def same_but_memo_def name_of_def intro!: hold_advanced [of it _ _ ps])
next
  case (Some iid)
  then have n: "name_of it = iid" by (simp add: name_of_def)
  have refl_memo: "same_but_memo ps ps" by (simp add: same_but_memo_def)
  show ?thesis
  proof (cases "unresolved_reason it (asks_of vs it)")
    case u: (Some u)
    have "hold (name_of it) (ItemUnresolved u) [] ps = Inr ps'"
      using assms(1) by (simp add: decide_item_def Some u n split: option.splits)
    from hold_advanced [OF this assms(2) refl_memo] show ?thesis .
  next
    case r: None
    then obtain asks where asks: "asks_of vs it = Some asks" by (cases "asks_of vs it") (simp_all add: unresolved_reason_def)
    with r have r': "unresolved_reason it (Some asks) = None" by simp
    have d: "(if clusters = [] then hold (name_of it) (NoClustersConfigured err) [] ps
        else case pin_of it of
               Some pin \<Rightarrow> decide_pinned vs journal items clusters bound (name_of it) it asks pin ps
             | None \<Rightarrow> decide_free vs journal items clusters candidates bound (name_of it) it asks ps) = Inr ps'"
      unfolding n using assms(1) by (simp add: decide_item_def Some asks r')
    show ?thesis
    proof (cases "clusters = []")
      case True
      with d hold_advanced [OF _ assms(2) refl_memo] show ?thesis by auto
    next
      case False
      then show ?thesis
        using d decide_pinned_advanced [OF _ assms(2)] decide_free_advanced [OF _ assms(2) _ _ _ assms(3)] Some n asks
        by (cases "pin_of it") auto
    qed
  qed
qed


section \<open>The whole pass\<close>

text \<open>The slots of a campaign id that a list of placements takes beyond what the predicate counted already.\<close>

definition newly :: "item list \<Rightarrow> placement list \<Rightarrow> string \<Rightarrow> int" where
  "newly items ps c =
     int (length (filter (\<lambda>p. p_campaign_id p = Some c
       \<and> Option.bind (find_intake_item items (p_item p)) intake_item_campaign_id \<noteq> Some c) ps))"

lemma decide_items_inv:
  assumes "decide_items d its ps = Inr ps'" "P [] ps"
    and "\<And>pre it post ps ps'. its = pre @ it # post \<Longrightarrow> P pre ps \<Longrightarrow> d it ps = Inr ps' \<Longrightarrow> P (pre @ [it]) ps'"
  shows "P its ps'"
proof -
  have "decide_items d rest ps = Inr ps' \<Longrightarrow> P pre ps \<Longrightarrow> its = pre @ rest \<Longrightarrow> P its ps'" for rest pre ps
  proof (induction rest arbitrary: pre ps)
    case (Cons it rest)
    obtain ps1 where 1: "d it ps = Inr ps1" using Cons.prems(1) by (auto split: sum.splits)
    have "P (pre @ [it]) ps1" using assms(3) Cons.prems 1 by blast
    with Cons.IH [of ps1 "pre @ [it]"] Cons.prems 1 show ?case by simp
  qed simp
  from this [of its ps "[]"] assms(1,2) show ?thesis by simp
qed

definition pass_ok ::
  "validators \<Rightarrow> journal \<Rightarrow> item list \<Rightarrow> (string \<times> jval) list \<Rightarrow> string list \<Rightarrow> nat \<Rightarrow> item list \<Rightarrow> pass_state \<Rightarrow> bool" where
  "pass_ok vs journal items clusters candidates bound decided ps \<longleftrightarrow>
     memo_ok journal items ps \<and> length (ps_placements ps) \<le> bound
   \<and> (\<forall>it\<in>set decided. legal_id (name_of it))
   \<and> mset (map p_item (ps_placements ps)) + mset (map h_item (ps_held ps)) = mset (map name_of decided)
   \<and> (\<forall>c. count_of (ps_provisional ps) c = newly items (ps_placements ps) c)
   \<and> (\<forall>before p after. ps_placements ps = before @ p # after \<longrightarrow>
        (\<exists>it\<in>set decided. placed_well vs journal items clusters candidates (newly items before) it p))"

lemma placed_well_cong:
  assumes "placed_well vs journal items clusters candidates extra it p" "\<And>c. extra c = extra' c"
  shows "placed_well vs journal items clusters candidates extra' it p"
  using assms by (simp add: ext [of extra extra'])

lemma pass_step:
  assumes "pass_ok vs journal items clusters candidates bound decided ps"
    and "advanced vs journal items clusters candidates bound it ps ps'"
    and "\<And>iid. nonempty_str it ''item_id'' = Some iid \<Longrightarrow> find_intake_item items iid = Some it"
  shows "pass_ok vs journal items clusters candidates bound (decided @ [it]) ps'"
proof -
  note adv = assms(2) [unfolded advanced_def]
  note pre = assms(1) [unfolded pass_ok_def]
  from adv consider (held) h where "h_item h = name_of it" "ps_held ps' = ps_held ps @ [h]" "ps_placements ps' = ps_placements ps"
      "ps_provisional ps' = ps_provisional ps"
    | (placed) p where "placed_well vs journal items clusters candidates (count_of (ps_provisional ps)) it p" "length (ps_placements ps) < bound"
      "ps_placements ps' = ps_placements ps @ [p]" "ps_held ps' = ps_held ps"
      "ps_provisional ps' = ps_provisional (take_slot (p_campaign_id p) (intake_item_campaign_id it) ps)"
    by blast
  then show ?thesis
  proof cases
    case held
    then show ?thesis using pre adv unfolding pass_ok_def by auto
  next
    case placed
    have p: "nonempty_str it ''item_id'' = Some (p_item p)" using placed(1) by (simp add: placed_well_def)
    then have name: "name_of it = p_item p" by (simp add: name_of_def)
    have "count_of (ps_provisional ps') c = newly items (ps_placements ps') c" for c
      using pre assms(3) [OF p] placed(3,5) by (auto simp: newly_def take_slot_def split: option.split)
    moreover have "\<exists>x\<in>set (decided @ [it]). placed_well vs journal items clusters candidates (newly items before) x q"
      if "ps_placements ps' = before @ q # after" for before q after
    proof (cases after rule: rev_cases)
      case Nil
      with that placed(3) have "before = ps_placements ps" "q = p" by simp_all
      with placed(1) pre show ?thesis by (auto intro: placed_well_cong)
    next
      case (snoc ys y)
      with that placed(3) have "ps_placements ps = before @ q # ys" by simp
      with pre show ?thesis by auto
    qed
    moreover have "mset (map p_item (ps_placements ps')) + mset (map h_item (ps_held ps')) = mset (map name_of (decided @ [it]))"
      using pre placed(3,4) name by auto
    moreover have "length (ps_placements ps') \<le> bound" "\<forall>x\<in>set (decided @ [it]). legal_id (name_of x)" "memo_ok journal items ps'"
      using pre placed(2,3) adv by auto
    ultimately show ?thesis unfolding pass_ok_def by blast
  qed
qed

lemma queued_findable:
  assumes "items = read_intake_items s" "it \<in> set (queued_in_scope spec items)" "nonempty_str it ''item_id'' = Some iid"
  shows "find_intake_item items iid = Some it"
proof -
  have "it \<in> set items" using assms(2) by (simp add: queued_in_scope_def)
  then obtain j where j: "(j, it) \<in> set (folded s)" using assms(1) by (auto simp: read_intake_items_folded)
  then have "j = iid" using folded_ids [of s] assms(3) by (auto simp: nonempty_str_Some)
  then have "map_of (folded s) iid = Some it" using j folded_distinct [of s] by simp
  then show ?thesis by (simp add: assms(1) find_item)
qed

lemma clusters_distinct:
  assumes "\<And>m. raw = Mapping m \<Longrightarrow> distinct (map fst m)"
  shows "distinct (map fst (fst (load_clusters raw)))"
proof -
  have "distinct (map fst (List.map_filter (\<lambda>(k, v). map_option (\<lambda>key. (key, v)) (text_of k)) m))" if "distinct (map fst m)" for m :: "(jval \<times> jval) list"
    using that
  proof (induction m)
    case (Cons e m)
    obtain k v where e: "e = (k, v)" by (cases e)
    have "(t, w) \<notin> set (List.map_filter (\<lambda>(k, v). map_option (\<lambda>key. (key, v)) (text_of k)) m)" if "text_of k = Some t" for t w
    proof
      assume "(t, w) \<in> set (List.map_filter (\<lambda>(k, v). map_option (\<lambda>key. (key, v)) (text_of k)) m)"
      then obtain k' where "(k', w) \<in> set m" "text_of k' = Some t" by (auto simp: in_map_filter)
      moreover from that this(2) have "k' = k" by (cases k; cases k') (auto split: if_splits)
      ultimately have "k \<in> fst ` set m" by force
      with Cons.prems show False by (simp add: e)
    qed
    with Cons show ?case by (cases "text_of k") (auto simp: e)
  qed simp
  with assms show ?thesis by (cases raw) (simp_all add: load_clusters_def Let_def)
qed

lemma candidates_distinct: "distinct (map fst clusters) \<Longrightarrow> distinct (candidates_of spec clusters)"
  by (simp add: candidates_of_def)

lemma pass_reached:
  assumes "items = read_intake_items s" "\<And>m. raw = Mapping m \<Longrightarrow> distinct (map fst m)"
    and "queue_advance vs journal items raw spec = Inr res"
  obtains ps where "pass_ok vs journal items (fst (load_clusters raw)) (candidates_of spec (fst (load_clusters raw)))
        (sp_max_placements spec) (queued_in_scope spec items) ps"
    "ar_placements res = ps_placements ps" "ar_held res = ps_held ps" "ar_occupancy res = ps_occupancy ps"
    "ar_considered res = candidates_of spec (fst (load_clusters raw))"
    "ar_decision res = (if ps_placements ps \<noteq> [] then ''place'' else if queued_in_scope spec items \<noteq> [] then ''hold'' else ''empty'')"
    "ar_queued_total res = length (queued_in_scope spec items)"
    "ar_held_counts res = foldl (\<lambda>c h. bump (reason_code (h_reason h)) 1 c) [] (ps_held ps)"
proof -
  let ?clusters = "fst (load_clusters raw)"
  let ?cands = "candidates_of spec ?clusters"
  let ?d = "decide_item vs journal items ?clusters (snd (load_clusters raw)) ?cands (sp_max_placements spec)"
  obtain ps where ps: "decide_items ?d (queued_in_scope spec items) empty_pass = Inr ps"
    and res: "res = \<lparr>ar_decision = (if ps_placements ps \<noteq> [] then ''place'' else if queued_in_scope spec items \<noteq> [] then ''hold'' else ''empty''),
                  ar_placements = ps_placements ps, ar_held = ps_held ps,
                  ar_held_counts = foldl (\<lambda>c h. bump (reason_code (h_reason h)) 1 c) [] (ps_held ps),
                  ar_queued_total = length (queued_in_scope spec items), ar_considered = ?cands, ar_occupancy = ps_occupancy ps\<rparr>"
    using assms(3) by (auto simp: queue_advance_def Let_def split: sum.splits prod.splits)
  have "distinct ?cands" by (intro candidates_distinct clusters_distinct assms(2))
  have "pass_ok vs journal items ?clusters ?cands (sp_max_placements spec) (queued_in_scope spec items) ps"
  proof (rule decide_items_inv [OF ps])
    show "pass_ok vs journal items ?clusters ?cands (sp_max_placements spec) [] empty_pass"
      by (simp add: pass_ok_def empty_pass_def memo_ok_def newly_def count_of_def)
  next
    fix pre it post ps ps'
    assume "queued_in_scope spec items = pre @ it # post"
      and pre: "pass_ok vs journal items ?clusters ?cands (sp_max_placements spec) pre ps" and step: "?d it ps = Inr ps'"
    then have "it \<in> set (queued_in_scope spec items)" by simp
    then show "pass_ok vs journal items ?clusters ?cands (sp_max_placements spec) (pre @ [it]) ps'"
      using pass_step [OF pre decide_item_advanced [OF step _ \<open>distinct ?cands\<close>]] pre queued_findable [OF assms(1)]
      by (auto simp: pass_ok_def)
  qed
  then show thesis by (rule that) (simp_all add: res)
qed


lemma placement_well:
  assumes "items = read_intake_items s" "\<forall>m. raw = Mapping m \<longrightarrow> distinct (map fst m)"
    and "queue_advance vs journal items raw spec = Inr res" "ar_placements res = before @ p # after"
  obtains it where "it \<in> set (queued_in_scope spec items)"
    "placed_well vs journal items (fst (load_clusters raw)) (ar_considered res) (newly items before) it p"
proof -
  have d: "distinct (map fst m)" if "raw = Mapping m" for m using assms(2) that by blast
  from pass_reached [OF assms(1) d assms(3)] obtain ps where
    ps: "pass_ok vs journal items (fst (load_clusters raw)) (candidates_of spec (fst (load_clusters raw)))
        (sp_max_placements spec) (queued_in_scope spec items) ps"
      "ar_placements res = ps_placements ps" "ar_considered res = candidates_of spec (fst (load_clusters raw))" .
  have "\<exists>it\<in>set (queued_in_scope spec items). placed_well vs journal items (fst (load_clusters raw)) (ar_considered res) (newly items before) it p"
    using ps(1) assms(4) unfolding pass_ok_def ps(2,3) by blast
  with that show thesis by blast
qed

section \<open>When the pass returns\<close>

lemma occupied_for_total: "ids_ok journal \<Longrightarrow> \<exists>n ps'. occupied_for journal items cid ps = Inr (n, ps')"
  unfolding occupied_for_def
proof (cases cid)
  case (Some c)
  assume "ids_ok journal"
  then obtain oc where "occupancy_detail journal items c = Some oc" using occupancy_report [of journal items c] by blast
  with Some show "\<exists>n ps'. (case cid of None \<Rightarrow> Inr (0, ps) | Some c \<Rightarrow> if c = [] then Inr (0, ps)
      else case map_of (ps_occupancy ps) c of Some n \<Rightarrow> Inr (n, ps)
        | None \<Rightarrow> (case occupied_slots journal items c of None \<Rightarrow> Inl (OccupancyRaised c)
            | Some n \<Rightarrow> Inr (n, ps\<lparr>ps_occupancy := ps_occupancy ps @ [(c, n)]\<rparr>))) = Inr (n, ps')"
    by (simp add: occupied_slots_def split: option.split)
qed simp

lemma survey_total: "ids_ok journal \<Longrightarrow> \<exists>rows ps'. survey vs journal items clusters asks base keys ps = Inr (rows, ps')"
proof (induction keys arbitrary: ps)
  case (Cons key keys)
  obtain occ ps1 where o: "occupied_for journal items (compose_cid base key) ps = Inr (occ, ps1)"
    using occupied_for_total [OF Cons.prems] by blast
  obtain v cfg where e: "evaluate vs key (case map_of clusters key of None \<Rightarrow> JNull | Some e \<Rightarrow> e) asks base occ = (v, cfg)" by force
  obtain rows ps2 where s: "survey vs journal items clusters asks base keys ps1 = Inr (rows, ps2)"
    using Cons by blast
  show ?case by (simp add: Let_def o e s)
qed simp

lemma hold_total: "legal_id iid \<Longrightarrow> \<exists>ps'. hold iid why considered ps = Inr ps'"
  by (simp add: hold_def)

lemma commit_total:
  "legal_id iid \<Longrightarrow> \<exists>ps'. commit (make_placement vs iid it cl cfg base why carried pinned_by considered) cid item_cid ps = Inr ps'"
  by (simp add: commit_def make_placement_def)

lemma decide_pinned_total:
  assumes "ids_ok journal" "legal_id iid"
  shows "\<exists>ps'. decide_pinned vs journal items clusters bound iid it asks pin ps = Inr ps'"
proof (cases "map_of clusters pin")
  case None
  then show ?thesis using hold_total [OF assms(2)] by (simp add: decide_pinned_def Let_def)
next
  case (Some entry)
  let ?base = "nonempty_str it ''campaign_base''"
  obtain occ ps1 where o: "occupied_for journal items (compose_cid ?base pin) ps = Inr (occ, ps1)"
    using occupied_for_total [OF assms(1)] by blast
  obtain v cfg where e: "evaluate vs pin entry asks ?base occ = (v, cfg)" by force
  show ?thesis using hold_total [OF assms(2)] commit_total [OF assms(2)] by (simp add: decide_pinned_def Let_def Some o e)
qed

lemma decide_free_total:
  assumes "ids_ok journal" "legal_id iid"
  shows "\<exists>ps'. decide_free vs journal items clusters candidates bound iid it asks ps = Inr ps'"
proof (cases "candidates = []")
  case False
  obtain rows ps1 where s: "survey vs journal items clusters asks (nonempty_str it ''campaign_base'') candidates ps = Inr (rows, ps1)"
    using survey_total [OF assms(1)] by blast
  from False show ?thesis
    unfolding decide_free_def Let_def s sum.case prod.case
    using hold_total [OF assms(2)] commit_total [OF assms(2)] by (simp split: list.split)
qed (use hold_total [OF assms(2)] in \<open>simp add: decide_free_def\<close>)

lemma decide_item_total:
  assumes "ids_ok journal" "legal_id (name_of it)"
  shows "\<exists>ps'. decide_item vs journal items clusters err candidates bound it ps = Inr ps'"
proof (cases "nonempty_str it ''item_id''")
  case None
  with assms show ?thesis by (simp add: decide_item_def name_of_def hold_total)
next
  case (Some iid)
  then have l: "legal_id iid" using assms(2) by (simp add: name_of_def)
  show ?thesis
    using hold_total [OF l] decide_pinned_total [OF assms(1) l] decide_free_total [OF assms(1) l]
    by (simp add: decide_item_def Some split: option.split)
qed

lemma decide_items_total:
  "(\<And>it ps. it \<in> set its \<Longrightarrow> \<exists>ps'. d it ps = Inr ps') \<Longrightarrow> \<exists>ps'. decide_items d its ps = Inr ps'"
proof (induction its arbitrary: ps)
  case (Cons it its)
  obtain ps1 where 1: "d it ps = Inr ps1" using Cons.prems by fastforce
  obtain ps2 where "decide_items d its ps1 = Inr ps2" using Cons.IH Cons.prems by fastforce
  with 1 show ?case by simp
qed simp

text \<open>One illegal id stops the queue. On a journal whose records carry distinct, nonempty ids the pass
  returns a decision exactly if every queued item in scope has an id of the wire alphabet (or none at all). Nothing
  in the configuration can make it fail: a broken entry costs that entry its eligibility. One ledger line
  with an id outside the alphabet, which the ledger's own append accepts, takes the decision from every
  other item of the call.\<close>

lemma advance_returns_iff_ids_legal:
  assumes "items = read_intake_items s" "\<forall>m. raw = Mapping m \<longrightarrow> distinct (map fst m)" "ids_ok journal"
  shows "(\<exists>res. queue_advance vs journal items raw spec = Inr res)
    \<longleftrightarrow> (\<forall>it\<in>set (queued_in_scope spec items). legal_id (name_of it))"
proof
  assume "\<exists>res. queue_advance vs journal items raw spec = Inr res"
  then obtain res where res: "queue_advance vs journal items raw spec = Inr res" by blast
  have "distinct (map fst m)" if "raw = Mapping m" for m using assms(2) that by blast
  from pass_reached [OF assms(1) this res] show "\<forall>it\<in>set (queued_in_scope spec items). legal_id (name_of it)"
    by (auto simp: pass_ok_def)
next
  assume l: "\<forall>it\<in>set (queued_in_scope spec items). legal_id (name_of it)"
  let ?clusters = "fst (load_clusters raw)"
  let ?d = "decide_item vs journal items ?clusters (snd (load_clusters raw)) (candidates_of spec ?clusters) (sp_max_placements spec)"
  obtain ps where "decide_items ?d (queued_in_scope spec items) empty_pass = Inr ps"
    using decide_items_total [of "queued_in_scope spec items" ?d] decide_item_total [OF assms(3)] l by blast
  then show "\<exists>res. queue_advance vs journal items raw spec = Inr res"
    by (simp add: queue_advance_def Let_def case_prod_beta)
qed

section \<open>What a decision promises\<close>

text \<open>Pins and hard limits. Every placement belongs to a queued item in scope. It is pinned exactly if the item
  carries a pin, and then it names that very cluster; otherwise it names one of the candidates. Either
  way the cluster is configured, its entry validates, and every typed ask of the item is within what the
  entry declares: the GPU, its type, the walltime ceiling and the core-hour cap.\<close>

lemma placement_honours_pin_and_limits:
  assumes "items = read_intake_items s" "\<forall>m. raw = Mapping m \<longrightarrow> distinct (map fst m)"
    and "queue_advance vs journal items raw spec = Inr res" "p \<in> set (ar_placements res)"
  shows "\<exists>it\<in>set (queued_in_scope spec items). nonempty_str it ''item_id'' = Some (p_item p)
    \<and> pin_of it = (if p_pinned p then Some (p_cluster p) else None)
    \<and> (p_pinned p \<or> p_cluster p \<in> set (ar_considered res))
    \<and> (\<exists>asks e cfg. asks_of vs it = Some asks \<and> map_of (fst (load_clusters raw)) (p_cluster p) = Some (JDict e)
         \<and> read_config vs e = Config cfg \<and> fits asks cfg e)"
proof -
  obtain before after where split: "ar_placements res = before @ p # after" using assms(4) by (metis split_list)
  from placement_well [OF assms(1-3) split] obtain it where it: "it \<in> set (queued_in_scope spec items)"
    "placed_well vs journal items (fst (load_clusters raw)) (ar_considered res) (newly items before) it p" .
  then show ?thesis by (intro bexI [OF _ it(1)]) (auto simp: placed_well_def qualifies_def split: option.splits)
qed

text \<open>Least loaded, then alphabetical. A placement without a pin goes, among the candidates that satisfy the
  item's hard constraints, to the one with the least load, and among equals to the first key. The load is the
  shared predicate's count of the item's campaign there, plus the slots that the earlier placements of the
  same call newly take in it.\<close>

lemma unpinned_placement_is_least_loaded:
  assumes "items = read_intake_items s" "\<forall>m. raw = Mapping m \<longrightarrow> distinct (map fst m)"
    and "queue_advance vs journal items raw spec = Inr res"
    and "ar_placements res = before @ p # after" "\<not> p_pinned p"
  shows "\<exists>it\<in>set (queued_in_scope spec items). nonempty_str it ''item_id'' = Some (p_item p)
    \<and> (\<exists>asks. asks_of vs it = Some asks
       \<and> (\<forall>key\<in>set (ar_considered res). qualifies vs (fst (load_clusters raw)) it asks key \<longrightarrow>
           (let load = pool_load journal items (newly items before) (nonempty_str it ''campaign_base'')
            in load (p_cluster p) < load key \<or> load (p_cluster p) = load key \<and> p_cluster p \<le> key)))"
proof -
  from placement_well [OF assms(1-4)] obtain it where it: "it \<in> set (queued_in_scope spec items)"
    "placed_well vs journal items (fst (load_clusters raw)) (ar_considered res) (newly items before) it p" .
  from it(2) assms(5) obtain asks where asks: "asks_of vs it = Some asks" and least: "\<forall>key\<in>set (ar_considered res).
      qualifies vs (fst (load_clusters raw)) it asks key \<longrightarrow>
        (pool_load journal items (newly items before) (nonempty_str it ''campaign_base'') (p_cluster p), p_cluster p)
          \<le> (pool_load journal items (newly items before) (nonempty_str it ''campaign_base'') key, key)"
    by (cases "pin_of it") (auto simp: placed_well_def simp del: less_eq_prod_simp)
  have lex: "(a, b) \<le> (c, d) \<Longrightarrow> a < c \<or> a = c \<and> b \<le> d" for a c :: int and b d :: string by auto
  have "nonempty_str it ''item_id'' = Some (p_item p)" using it(2) by (simp add: placed_well_def)
  moreover have "\<forall>key\<in>set (ar_considered res). qualifies vs (fst (load_clusters raw)) it asks key \<longrightarrow>
      (let load = pool_load journal items (newly items before) (nonempty_str it ''campaign_base'')
       in load (p_cluster p) < load key \<or> load (p_cluster p) = load key \<and> p_cluster p \<le> key)"
    unfolding Let_def using least by (blast dest: lex)
  ultimately show ?thesis using it(1) asks by blast
qed

lemma count_held: "count_of (foldl (\<lambda>c h. bump (f h) 1 c) d hs) code = count_of d code + int (length (filter (\<lambda>h. f h = code) hs))"
  by (induction hs arbitrary: d) auto

text \<open>C27: (every item decided once) Every queued item in scope is either placed or held, and only once, with no
  other item in either list; there are at most as many placements as the call allows; the counts by cause
  are those of the held list; the decision says place, hold or empty accordingly; and every published
  occupancy number is the shared predicate's.\<close>

theorem every_item_decided_once:
  assumes "items = read_intake_items s" "\<forall>m. raw = Mapping m \<longrightarrow> distinct (map fst m)"
    and "queue_advance vs journal items raw spec = Inr res"
  shows "mset (map p_item (ar_placements res)) + mset (map h_item (ar_held res)) = mset (map name_of (queued_in_scope spec items))
    \<and> length (ar_placements res) \<le> sp_max_placements spec
    \<and> ar_queued_total res = length (ar_placements res) + length (ar_held res)
    \<and> (\<forall>code. count_of (ar_held_counts res) code = int (length (filter (\<lambda>h. reason_code (h_reason h) = code) (ar_held res))))
    \<and> ar_decision res = (if ar_placements res \<noteq> [] then ''place'' else if ar_held res \<noteq> [] then ''hold'' else ''empty'')
    \<and> (\<forall>(cid, n)\<in>set (ar_occupancy res). occupied_slots journal items cid = Some n)"
proof -
  have d: "distinct (map fst m)" if "raw = Mapping m" for m using assms(2) that by blast
  from pass_reached [OF assms(1) d assms(3)] obtain ps where
    ps: "pass_ok vs journal items (fst (load_clusters raw)) (candidates_of spec (fst (load_clusters raw)))
        (sp_max_placements spec) (queued_in_scope spec items) ps"
    and r: "ar_placements res = ps_placements ps" "ar_held res = ps_held ps" "ar_occupancy res = ps_occupancy ps"
    "ar_decision res = (if ps_placements ps \<noteq> [] then ''place'' else if queued_in_scope spec items \<noteq> [] then ''hold'' else ''empty'')"
    "ar_queued_total res = length (queued_in_scope spec items)"
    "ar_held_counts res = foldl (\<lambda>c h. bump (reason_code (h_reason h)) 1 c) [] (ps_held ps)" .
  have m: "mset (map p_item (ps_placements ps)) + mset (map h_item (ps_held ps)) = mset (map name_of (queued_in_scope spec items))"
    using ps by (simp add: pass_ok_def)
  then have len: "length (queued_in_scope spec items) = length (ps_placements ps) + length (ps_held ps)"
    by (metis length_map size_mset size_union)
  then have "queued_in_scope spec items = [] \<longleftrightarrow> ps_placements ps = [] \<and> ps_held ps = []" by (metis add_is_0 length_0_conv)
  then show ?thesis
    using ps m len unfolding r by (auto simp: pass_ok_def memo_ok_def count_held count_of_def [of "[]"])
qed


section \<open>What the result models accept\<close>

text \<open>The constrained fields of the wire models of a placement.\<close>

definition fits_wire :: "validators \<Rightarrow> placement \<Rightarrow> bool" where
  "fits_wire vs p \<longleftrightarrow>
     legal_id (p_item p) \<and> pred_option legal_id (p_run_id p) \<and> pred_option legal_id (p_campaign_id p)
   \<and> pred_option (registered_backend vs) (p_scheduler p) \<and> pred_option legal_ssh_target (p_ssh_target p)"

definition typed :: "validators \<Rightarrow> pass_state \<Rightarrow> bool" where
  "typed vs ps \<longleftrightarrow> (\<forall>p\<in>set (ps_placements ps). fits_wire vs p) \<and> (\<forall>h\<in>set (ps_held ps). legal_id (h_item h))"

lemma wire_valid: "pred_option valid (wire valid raw)"
  by (simp add: wire_def split: option.split)

lemma hold_typed: "hold iid why considered ps = Inr ps' \<Longrightarrow> typed vs ps \<Longrightarrow> typed vs ps'"
  by (auto simp: hold_def typed_def split: if_splits)

lemma commit_typed:
  "commit (make_placement vs iid it cl cfg base why carried pinned_by considered) cid item_cid ps = Inr ps' \<Longrightarrow> typed vs ps \<Longrightarrow> typed vs ps'"
  by (auto simp: commit_def make_placement_def typed_def fits_wire_def wire_valid compose_cid_def take_slot_def split: if_splits option.splits)

lemma occupied_for_typed: "occupied_for journal items cid ps = Inr (n, ps') \<Longrightarrow> typed vs ps \<Longrightarrow> typed vs ps'"
  by (auto simp: occupied_for_def typed_def split: option.splits if_splits)

lemma survey_typed: "survey vs journal items clusters asks base keys ps = Inr (rows, ps') \<Longrightarrow> typed vs ps \<Longrightarrow> typed vs ps'"
proof (induction keys arbitrary: ps rows ps')
  case (Cons key keys)
  from Cons.prems(1) obtain occ ps1 where o: "occupied_for journal items (compose_cid base key) ps = Inr (occ, ps1)"
    by (auto simp: Let_def split: sum.splits)
  then obtain rows2 where "survey vs journal items clusters asks base keys ps1 = Inr (rows2, ps')"
    using Cons.prems(1) by (auto simp: Let_def split: sum.splits prod.splits)
  then show ?case using Cons.IH occupied_for_typed [OF o Cons.prems(2)] by blast
qed simp

lemma decide_pinned_typed:
  assumes "decide_pinned vs journal items clusters bound iid it asks pin ps = Inr ps'" "typed vs ps"
  shows "typed vs ps'"
proof (cases "map_of clusters pin")
  case (Some entry)
  let ?base = "nonempty_str it ''campaign_base''"
  from assms(1) Some obtain occ ps1 where o: "occupied_for journal items (compose_cid ?base pin) ps = Inr (occ, ps1)"
    by (auto simp: decide_pinned_def Let_def split: sum.splits)
  obtain v cfg where e: "evaluate vs pin entry asks ?base occ = (v, cfg)" by force
  show ?thesis
    using assms(1) occupied_for_typed [OF o assms(2)] hold_typed commit_typed
    by (auto simp: decide_pinned_def Let_def Some o e split: if_splits)
qed (use assms hold_typed in \<open>auto simp: decide_pinned_def Let_def\<close>)

lemma decide_free_typed:
  assumes "decide_free vs journal items clusters candidates bound iid it asks ps = Inr ps'" "typed vs ps"
  shows "typed vs ps'"
proof (cases "candidates = []")
  case False
  from assms(1) False obtain rows ps1 where s: "survey vs journal items clusters asks (nonempty_str it ''campaign_base'') candidates ps = Inr (rows, ps1)"
    by (auto simp: decide_free_def Let_def split: sum.splits)
  note t = survey_typed [OF s assms(2)]
  from assms(1) False show ?thesis
    unfolding decide_free_def Let_def s sum.case prod.case
    using hold_typed [OF _ t] commit_typed [OF _ t] by (auto split: list.splits if_splits)
qed (use assms hold_typed in \<open>auto simp: decide_free_def\<close>)

lemma decide_item_typed:
  "decide_item vs journal items clusters err candidates bound it ps = Inr ps' \<Longrightarrow> typed vs ps \<Longrightarrow> typed vs ps'"
  using hold_typed decide_pinned_typed decide_free_typed
  by (auto simp: decide_item_def split: option.splits if_splits prod.splits)

lemma decide_items_typed:
  "(\<And>it ps ps'. d it ps = Inr ps' \<Longrightarrow> typed vs ps \<Longrightarrow> typed vs ps') \<Longrightarrow> decide_items d its ps = Inr ps' \<Longrightarrow> typed vs ps \<Longrightarrow> typed vs ps'"
proof (induction its arbitrary: ps)
  case (Cons it its)
  from Cons.prems(2) obtain ps1 where d: "d it ps = Inr ps1" "decide_items d its ps1 = Inr ps'" by (auto split: sum.splits)
  from Cons.IH [OF Cons.prems(1) d(2) Cons.prems(1) [OF d(1) Cons.prems(3)]] show ?case .
qed simp

text \<open>A decision fits its result models. Whatever the ledger, the journal, the configuration and the request
  are: in a decision that is returned, every item id, run id and campaign id is of the wire alphabet, every
  scheduler is a registered backend and every ssh target is a user at a host. An item's own illegal run id or a cluster's
  illegal target is reported as absent, never passed on.\<close>

lemma decision_fits_the_wire:
  assumes "queue_advance vs journal items raw spec = Inr res"
  shows "(\<forall>p\<in>set (ar_placements res). legal_id (p_item p) \<and> pred_option legal_id (p_run_id p) \<and> pred_option legal_id (p_campaign_id p)
       \<and> pred_option (registered_backend vs) (p_scheduler p) \<and> pred_option legal_ssh_target (p_ssh_target p))
    \<and> (\<forall>h\<in>set (ar_held res). legal_id (h_item h))"
proof -
  let ?clusters = "fst (load_clusters raw)"
  let ?d = "decide_item vs journal items ?clusters (snd (load_clusters raw)) (candidates_of spec ?clusters) (sp_max_placements spec)"
  obtain ps where ps: "decide_items ?d (queued_in_scope spec items) empty_pass = Inr ps"
    and res: "ar_placements res = ps_placements ps" "ar_held res = ps_held ps"
    using assms by (auto simp: queue_advance_def Let_def split: sum.splits prod.splits)
  have "typed vs ps" by (rule decide_items_typed [OF decide_item_typed ps]) (simp_all add: typed_def empty_pass_def)
  then show ?thesis by (simp add: res typed_def fits_wire_def)
qed

section \<open>A pass at work\<close>

text \<open>Two items of one campaign, and one pinned to a cluster that is not configured.\<close>

definition demo_validators :: validators where
  "demo_validators = \<lparr>read_asks = (\<lambda>d. Some no_asks),
     read_config = (\<lambda>e. Config \<lparr>cfg_scheduler = ''slurm'', cfg_ssh_target = Some ''u@h'', cfg_gpu_types = [], cfg_gpu_queues = [],
                                cfg_gpu_constraint = None, cfg_max_walltime_sec = 86400\<rparr>),
     registered_backend = (\<lambda>s. True)\<rparr>"

definition demo_items_ops :: "intake_op list" where
  "demo_items_ops =
     [Enqueue ''t'' [(''spec_ref'', JText ''s''), (''campaign_base'', JText ''b'')] ''i1'',
      Enqueue ''t'' [(''spec_ref'', JText ''s''), (''campaign_base'', JText ''b'')] ''i2'',
      Enqueue ''t'' [(''spec_ref'', JText ''s''), (''cluster_pin'', JText ''z'')] ''i3'']"

definition demo_raw :: raw_config where
  "demo_raw = Mapping [(JText ''y'', JDict []), (JInt 1, JNull), (JText ''x'', JDict [])]"

definition demo_advance :: "advance_error + advance_result" where
  "demo_advance = queue_advance demo_validators (Some []) (read_intake_items (intake_run demo_items_ops empty_store)) demo_raw
     \<lparr>sp_campaign_base = None, sp_max_placements = 5, sp_clusters = None\<rparr>"

abbreviation demo_spec :: advance_spec where
  "demo_spec \<equiv> \<lparr>sp_campaign_base = None, sp_max_placements = 5, sp_clusters = None\<rparr>"

lemma demo_runs:
  obtains res p q h where "demo_advance = Inr res" "ar_placements res = [p] @ q # []" "ar_held res = [h]"
    "p_item p = ''i1''" "p_cluster p = ''x''" "\<not> p_pinned p" "p_item q = ''i2''" "p_cluster q = ''y''" "\<not> p_pinned q" "h_item h = ''i3''"
proof -
  have "case demo_advance of Inl err \<Rightarrow> False
      | Inr res \<Rightarrow> map (\<lambda>p. (p_item p, p_cluster p, p_pinned p)) (ar_placements res) = [(''i1'', ''x'', False), (''i2'', ''y'', False)]
         \<and> map h_item (ar_held res) = [''i3'']"
    by code_simp
  then obtain res where "demo_advance = Inr res"
    "map (\<lambda>p. (p_item p, p_cluster p, p_pinned p)) (ar_placements res) = [(''i1'', ''x'', False), (''i2'', ''y'', False)]"
    "map h_item (ar_held res) = [''i3'']" by (auto split: sum.splits)
  then show thesis by (auto simp: map_eq_Cons_conv intro: that)
qed

lemma demo_distinct: "\<forall>m. demo_raw = Mapping m \<longrightarrow> distinct (map fst m)"
  by (simp add: demo_raw_def)

lemma queued_subset: "set (queued_in_scope spec items) \<subseteq> set items"
  by (auto simp: queued_in_scope_def)

lemma advance_returns_iff_ids_legal_witness:
  "list_all (\<lambda>it. legal_id (name_of it)) (queued_in_scope demo_spec (read_intake_items (intake_run demo_items_ops empty_store)))"
proof -
  have "ids_ok (Some [])" by (simp add: ids_ok_def)
  note iff = advance_returns_iff_ids_legal [OF refl demo_distinct this, of demo_validators "intake_run demo_items_ops empty_store" demo_spec]
  have "\<exists>res. demo_advance = Inr res" by (rule demo_runs) blast
  then show ?thesis unfolding demo_advance_def iff list_all_iff .
qed

lemma placement_honours_pin_and_limits_witness:
  "\<exists>it\<in>set (read_intake_items (intake_run demo_items_ops empty_store)). nonempty_str it ''item_id'' = Some ''i1'' \<and> pin_of it = None"
proof (rule demo_runs)
  fix res p q
  assume r: "demo_advance = Inr res" "ar_placements res = [p] @ q # []" "p_item p = ''i1''" "\<not> p_pinned p"
  then have "p \<in> set (ar_placements res)" by simp
  from placement_honours_pin_and_limits [OF refl demo_distinct r(1) [unfolded demo_advance_def] this]
  obtain it where "it \<in> set (queued_in_scope demo_spec (read_intake_items (intake_run demo_items_ops empty_store)))"
    "nonempty_str it ''item_id'' = Some (p_item p)" "pin_of it = (if p_pinned p then Some (p_cluster p) else None)" by blast
  with queued_subset show ?thesis unfolding r(3) if_not_P [OF r(4)] by blast
qed

lemma unpinned_placement_is_least_loaded_witness:
  "\<exists>it\<in>set (read_intake_items (intake_run demo_items_ops empty_store)). nonempty_str it ''item_id'' = Some ''i2'' \<and> asks_of demo_validators it \<noteq> None"
proof (rule demo_runs)
  fix res p q
  assume r: "demo_advance = Inr res" "ar_placements res = [p] @ q # []" "p_item q = ''i2''" "\<not> p_pinned q"
  from unpinned_placement_is_least_loaded [OF refl demo_distinct r(1) [unfolded demo_advance_def] r(2,4)]
  obtain it asks where "it \<in> set (queued_in_scope demo_spec (read_intake_items (intake_run demo_items_ops empty_store)))"
    "nonempty_str it ''item_id'' = Some (p_item q)" "asks_of demo_validators it = Some asks" by blast
  with queued_subset show ?thesis unfolding r(3) by blast
qed

theorem every_item_decided_once_witness:
  "\<exists>res. demo_advance = Inr res \<and> ar_queued_total res = 3 \<and> length (ar_placements res) \<le> 5"
proof (rule demo_runs)
  fix res p q h
  assume r: "demo_advance = Inr res" "ar_placements res = [p] @ q # []" "ar_held res = [h]"
  from every_item_decided_once [OF refl demo_distinct r(1) [unfolded demo_advance_def]] have "ar_queued_total res = 3"
    using r(2,3) by simp
  with r(1,2) show ?thesis by auto
qed

lemma decision_fits_the_wire_witness:
  "\<exists>res. demo_advance = Inr res \<and> list_all (\<lambda>p. legal_id (p_item p)) (ar_placements res)"
proof (rule demo_runs)
  fix res p q
  assume r: "demo_advance = Inr res" "ar_placements res = [p] @ q # []"
  from decision_fits_the_wire [OF r(1) [unfolded demo_advance_def]] have "\<forall>p\<in>set (ar_placements res). legal_id (p_item p)" by blast
  with r(1) show ?thesis by (auto simp: list_all_iff)
qed

end
