(* ===== verification/ArrayPlan.thy ===== *)
theory ArrayPlan
  imports JsonValues "HOL-Library.Char_ord" "HOL-Library.List_Lexorder"
begin

text \<open>
  How a sweep becomes scheduler arrays: the walltime strings (\<open>infra/resource_format.py\<close>,
  \<open>infra/parsing.py\<close>), the wave packer (\<open>infra/throughput.py\<close>), the two task coordinates
  (\<open>_kernel/contract/task_id.py\<close>), the array expressions (\<open>ops/recover/batching.py\<close> and their readers in
  \<open>infra/backends/query.py\<close> and \<open>ops/monitor/kill.py\<close>) and the resubmission plan. Quotients of integers are
  exact, where the code divides floats (the two agree below \<open>2 ^ 53\<close>); texts are ASCII.
\<close>

section \<open>Walltimes\<close>

text \<open>\<open>f"{n:02d}"\<close>\<close>

definition pad2 :: "nat \<Rightarrow> string" where
  "pad2 n = (if n < 10 then CHR ''0'' # dec n else dec n)"

definition walltime_hms :: "int \<Rightarrow> string" where
  "walltime_hms seconds =
     (let total = nat (max 0 seconds)
      in pad2 (total div 3600) @ '':'' @ pad2 (total mod 3600 div 60) @ '':'' @ pad2 (total mod 3600 mod 60))"

text \<open>The clamp and the round-up of one resource value.\<close>

definition coerce :: "rat option \<Rightarrow> rat option \<Rightarrow> rat option \<Rightarrow> bool \<Rightarrow> rat option" where
  "coerce val minimum maximum ceil =
     map_option (\<lambda>v.
       (let out = (if ceil then of_int \<lceil>v\<rceil> else v);
            out = (case maximum of None \<Rightarrow> out | Some m \<Rightarrow> min out m)
        in case minimum of None \<Rightarrow> out | Some m \<Rightarrow> max out m)) val"

text \<open>Two digits after a colon, and the rest of the text.\<close>

fun colon_two_digits :: "string \<Rightarrow> (nat \<times> string) option" where
  "colon_two_digits (c # a # b # rest) =
     (if c = CHR '':'' \<and> digit a \<and> digit b then Some (undec [a, b], rest) else None)"
| "colon_two_digits _ = None"

definition fraction_or_end :: "string \<Rightarrow> bool" where
  "fraction_or_end rest \<longleftrightarrow>
     (case rest of [] \<Rightarrow> True | c # ds \<Rightarrow> c = CHR ''.'' \<and> ds \<noteq> [] \<and> list_all digit ds)"

text \<open>Hours of at most three digits, minutes, seconds and an optional fraction.\<close>

definition parse_hms :: "string \<Rightarrow> nat option" where
  "parse_hms t =
     (let h = takeWhile digit t
      in if h = [] \<or> length h > 3 then None
         else
           (case colon_two_digits (dropWhile digit t) of
              None \<Rightarrow> None
            | Some (m, rest) \<Rightarrow>
                (case colon_two_digits rest of
                   None \<Rightarrow> None
                 | Some (s, rest) \<Rightarrow> if fraction_or_end rest then Some (undec h * 3600 + m * 60 + s) else None)))"

definition parse_days_hms :: "string \<Rightarrow> nat option" where
  "parse_days_hms t =
     (let d = takeWhile digit t
      in case dropWhile digit t of
           c # rest \<Rightarrow>
             if d \<noteq> [] \<and> c = CHR ''-'' then map_option (\<lambda>n. undec d * 86400 + n) (parse_hms rest) else parse_hms t
         | [] \<Rightarrow> parse_hms t)"

definition parse_mm_ss :: "string \<Rightarrow> nat option" where
  "parse_mm_ss t =
     (let m = takeWhile digit t
      in if m = [] then None
         else (case colon_two_digits (dropWhile digit t) of Some (s, []) \<Rightarrow> Some (undec m * 60 + s) | _ \<Rightarrow> None))"

definition parse_walltime_to_sec :: "string \<Rightarrow> nat" where
  "parse_walltime_to_sec text =
     (let t = py_strip text
      in if t = [] then 0
         else
           (case parse_days_hms t of
              Some n \<Rightarrow> n
            | None \<Rightarrow>
                (case parse_mm_ss t of
                   Some n \<Rightarrow> n
                 | None \<Rightarrow> if list_all digit t then undec t else 0)))"

section \<open>The wave packer\<close>

record cluster_constraints =
  max_array_size :: int
  max_walltime :: string
  max_concurrent_jobs :: int
  est_spin_up :: string
  max_concurrent_tasks :: "int option"

definition default_constraints :: cluster_constraints where
  "default_constraints = \<lparr>max_array_size = 1000, max_walltime = ''24:00:00'', max_concurrent_jobs = 10,
     est_spin_up = ''5m'', max_concurrent_tasks = None\<rparr>"

datatype plan_error =
    NoTasks int
  | BadConcurrentJobs int
  | BadArraySize int
  | BadConcurrentTasks int
  | BadSpinUp string
  | TaskTooLong int int
  | EmptyResubmission
  | NegativeTaskCount int
  | TasksOutOfRange "int list"

definition unit_seconds :: "string \<Rightarrow> int option" where
  "unit_seconds u = map_of [([], 1), (''s'', 1), (''m'', 60), (''h'', 3600)] u"

definition spin_up_seconds :: "string \<Rightarrow> plan_error + int" where
  "spin_up_seconds text =
     (let t = py_lower (py_strip text); n = takeWhile digit t
      in if n = [] then Inl (BadSpinUp text)
         else
           (case unit_seconds (dropWhile is_space (dropWhile digit t)) of
              None \<Rightarrow> Inl (BadSpinUp text)
            | Some f \<Rightarrow> Inr (int (undec n) * f)))"

record job_batch =
  batch_index :: int
  task_start :: int
  task_end :: int
  array_size :: int
  est_wall_s :: "int option"
  wave :: int

datatype concurrency_mode = SingleArray | NativeCap | ConcurrentArrays | AfteranyWaves

record submission_plan =
  plan_batches :: "job_batch list"
  total_tasks :: int
  total_batches :: int
  max_concurrent :: int
  est_total_wall_s :: "int option"
  plan_mode :: concurrency_mode
  plan_cap :: "int option"

definition ceil_quotient :: "int \<Rightarrow> int \<Rightarrow> int" where
  "ceil_quotient a b = \<lceil>(of_int a :: rat) / of_int b\<rceil>"

text \<open>The loop over the batches, \<open>k\<close> of them left.\<close>

fun pack_batches :: "int \<Rightarrow> int \<Rightarrow> int \<Rightarrow> int option \<Rightarrow> int \<Rightarrow> nat \<Rightarrow> int \<Rightarrow> job_batch list" where
  "pack_batches n_tasks per_batch concurrent effective i 0 assigned = []"
| "pack_batches n_tasks per_batch concurrent effective i (Suc k) assigned =
     (let size = min per_batch (n_tasks - assigned)
      in \<lparr>batch_index = i, task_start = assigned + 1, task_end = assigned + 1 + size - 1, array_size = size,
          est_wall_s = effective, wave = i div concurrent\<rparr>
         # pack_batches n_tasks per_batch concurrent effective (i + 1) k (assigned + size))"

definition compute_submission_plan :: "cluster_constraints \<Rightarrow> int \<Rightarrow> int option \<Rightarrow> plan_error + submission_plan" where
  "compute_submission_plan cc n_tasks est_duration =
     (if n_tasks \<le> 0 then Inl (NoTasks n_tasks)
      else if max_concurrent_jobs cc \<le> 0 then Inl (BadConcurrentJobs (max_concurrent_jobs cc))
      else if max_array_size cc \<le> 0 then Inl (BadArraySize (max_array_size cc))
      else if (case max_concurrent_tasks cc of None \<Rightarrow> False | Some cap \<Rightarrow> cap \<le> 0)
      then Inl (BadConcurrentTasks (the (max_concurrent_tasks cc)))
      else
        (let n_batches = ceil_quotient n_tasks (max_array_size cc) in
         case spin_up_seconds (est_spin_up cc) of
           Inl err \<Rightarrow> Inl err
         | Inr spin_up \<Rightarrow>
             (let walltime_limit = int (parse_walltime_to_sec (max_walltime cc));
                  effective = map_option (\<lambda>d. spin_up + d) est_duration
              in if (case effective of None \<Rightarrow> False | Some e \<Rightarrow> walltime_limit > 0 \<and> e > walltime_limit)
                 then Inl (TaskTooLong (the effective) walltime_limit)
                 else
                   (let per_batch = py_int (the (coerce (Some (of_int n_tasks / of_int n_batches)) None
                                                   (Some (of_int (max_array_size cc))) True));
                        batches = pack_batches n_tasks per_batch (max_concurrent_jobs cc) effective 0 (nat n_batches) 0;
                        n_waves = ceil_quotient n_batches (max_concurrent_jobs cc);
                        (mode, cap) =
                          (if n_batches = 1
                           then (case max_concurrent_tasks cc of
                                   None \<Rightarrow> (SingleArray, None)
                                 | Some c \<Rightarrow> if c < n_tasks then (NativeCap, Some c) else (SingleArray, None))
                           else (if n_waves > 1 then AfteranyWaves else ConcurrentArrays, max_concurrent_tasks cc))
                    in Inr \<lparr>plan_batches = batches, total_tasks = n_tasks, total_batches = n_batches,
                            max_concurrent = max_concurrent_jobs cc,
                            est_total_wall_s = map_option (\<lambda>e. n_waves * e) effective,
                            plan_mode = mode, plan_cap = cap\<rparr>))))"

text \<open>The 0-based tasks of each wave.\<close>

definition build_wave_map :: "submission_plan \<Rightarrow> (int \<times> int list) list" where
  "build_wave_map plan =
     foldl (\<lambda>m b. AList.update (wave b)
              ((case map_of m (wave b) of None \<Rightarrow> [] | Some ids \<Rightarrow> ids) @ [task_start b - 1..task_end b - 1]) m)
       [] (plan_batches plan)"

section \<open>Array expressions\<close>

definition to_array_index :: "int \<Rightarrow> int option" where
  "to_array_index task_id = (if task_id < 0 then None else Some (task_id + 1))"

definition to_task_id :: "int \<Rightarrow> int option" where
  "to_task_id index = (if index < 1 then None else Some (index - 1))"

text \<open>\<open>sep.join(parts)\<close> and \<open>text.split(sep)\<close> of a single character.\<close>

fun join_with :: "char \<Rightarrow> string list \<Rightarrow> string" where
  "join_with c [] = []"
| "join_with c [p] = p"
| "join_with c (p # ps) = p @ c # join_with c ps"

fun split_on :: "char \<Rightarrow> string \<Rightarrow> string list" where
  "split_on c [] = [[]]"
| "split_on c (x # xs) =
     (if x = c then [] # split_on c xs
      else (case split_on c xs of [] \<Rightarrow> [[x]] | p # ps \<Rightarrow> (x # p) # ps))"

fun runs_from :: "nat \<Rightarrow> nat \<Rightarrow> nat list \<Rightarrow> (nat \<times> nat) list" where
  "runs_from lo hi [] = [(lo, hi)]"
| "runs_from lo hi (t # ts) = (if t = hi + 1 then runs_from lo t ts else (lo, hi) # runs_from t t ts)"

definition show_run :: "nat \<times> nat \<Rightarrow> string" where
  "show_run r = (if fst r = snd r then dec (fst r) else dec (fst r) @ ''-'' @ dec (snd r))"

definition compact_task_ids :: "nat list \<Rightarrow> string option" where
  "compact_task_ids ids =
     (case sort ids of [] \<Rightarrow> None | t # ts \<Rightarrow> Some (join_with (CHR '','') (map show_run (runs_from t t ts))))"

text \<open>\<open>range(start, end + 1, step)\<close>\<close>

definition step_range :: "nat \<Rightarrow> nat \<Rightarrow> nat \<Rightarrow> nat list" where
  "step_range start stop step = filter (\<lambda>k. (k - start) mod step = 0) [start..<stop + 1]"

text \<open>A separator followed by a number, if there is one.\<close>

definition number_after :: "char \<Rightarrow> string \<Rightarrow> (nat \<times> string) option" where
  "number_after c t =
     (case t of
        x # r \<Rightarrow> if x = c \<and> takeWhile digit r \<noteq> [] then Some (undec (takeWhile digit r), dropWhile digit r) else None
      | [] \<Rightarrow> None)"

definition expand_task_range :: "string \<Rightarrow> nat list" where
  "expand_task_range spec =
     (let t = py_strip spec
      in if t = [] \<or> t = ''undefined'' \<or> takeWhile digit t = [] then []
         else
           (let start = undec (takeWhile digit t)
            in case number_after (CHR ''-'') (dropWhile digit t) of
                 None \<Rightarrow> step_range start start 1
               | Some (stop, rest) \<Rightarrow>
                   (case number_after (CHR '':'') rest of
                      None \<Rightarrow> step_range start stop 1
                    | Some (step, _) \<Rightarrow> step_range start stop (if step = 0 then 1 else step))))"

text \<open>The indices of an expression, or the token that names none.\<close>

fun expand_tokens :: "string list \<Rightarrow> string + nat list" where
  "expand_tokens [] = Inr []"
| "expand_tokens (token # tokens) =
     (let token = py_strip token
      in if token = [] then expand_tokens tokens
         else if expand_task_range token = [] then Inl token
         else (case expand_tokens tokens of Inl bad \<Rightarrow> Inl bad | Inr ids \<Rightarrow> Inr (expand_task_range token @ ids)))"

definition range_indices :: "string \<Rightarrow> string + nat list" where
  "range_indices task_range = expand_tokens (split_on (CHR '','') task_range)"

section \<open>Resubmission plans\<close>

record resubmit_batch =
  rb_index :: int
  rb_task_ids :: "int list"
  rb_wave :: int

record resubmission =
  rs_batches :: "resubmit_batch list"
  rs_total_tasks :: int
  rs_total_batches :: int
  rs_max_concurrent :: int
  rs_overrides :: "(string \<times> jval) list"

definition rb_task_range :: "resubmit_batch \<Rightarrow> string option" where
  "rb_task_range b =
     (if \<exists>t\<in>set (rb_task_ids b). to_array_index t = None then None
      else compact_task_ids (map (\<lambda>t. nat (the (to_array_index t))) (rb_task_ids b)))"

definition resubmit_plan ::
  "int \<Rightarrow> int list \<Rightarrow> (string \<times> jval) list \<Rightarrow> cluster_constraints option \<Rightarrow> plan_error + resubmission" where
  "resubmit_plan task_count failed overrides constraints =
     (if failed = [] then Inl EmptyResubmission
      else if task_count < 0 then Inl (NegativeTaskCount task_count)
      else
        (let unknown = filter (\<lambda>t. \<not> (0 \<le> t \<and> t < task_count)) failed
         in if unknown \<noteq> [] then Inl (TasksOutOfRange unknown)
            else
              (let ids = sort (remdups failed);
                   cc = (case constraints of None \<Rightarrow> default_constraints | Some c \<Rightarrow> c)
               in case compute_submission_plan cc (int (length ids)) None of
                    Inl err \<Rightarrow> Inl err
                  | Inr inner \<Rightarrow>
                      Inr \<lparr>rs_batches =
                             map (\<lambda>b. \<lparr>rb_index = batch_index b,
                                       rb_task_ids = drop (nat (task_start b - 1)) (take (nat (task_end b)) ids),
                                       rb_wave = wave b\<rparr>) (plan_batches inner),
                           rs_total_tasks = int (length ids), rs_total_batches = total_batches inner,
                           rs_max_concurrent = max_concurrent inner, rs_overrides = overrides\<rparr>)))"

end
