(* ===== verification/ArrayPlanLaws.thy ===== *)
theory ArrayPlanLaws
  imports ArrayPlan
begin

text \<open>
  What the packer and the array expressions promise: every task in exactly one array within the ceiling,
  every wave within the concurrency bound, and the expression that is submitted or cancelled reads back as
  the very indices it was made of.
\<close>

section \<open>Walltime strings\<close>

lemma digit_not_space: "digit c \<Longrightarrow> \<not> is_space c"
  by (auto simp: digit_def is_space_def Let_def)

lemma strip_ends: "t \<noteq> [] \<Longrightarrow> \<not> is_space (hd t) \<Longrightarrow> \<not> is_space (last t) \<Longrightarrow> py_strip t = t"
proof -
  assume t: "t \<noteq> []" "\<not> is_space (hd t)" "\<not> is_space (last t)"
  then have d: "dropWhile is_space t = t" by (cases t) simp_all
  moreover have "dropWhile is_space (rev t) = rev t" using t by (cases "rev t") (auto simp: hd_rev [symmetric])
  ultimately show ?thesis by (simp add: py_strip_def)
qed

lemma span_digits:
  "\<forall>c\<in>set a. digit c \<Longrightarrow> takeWhile digit (a @ b) = a @ takeWhile digit b"
  "\<forall>c\<in>set a. digit c \<Longrightarrow> dropWhile digit (a @ b) = dropWhile digit b"
  by (simp_all add: takeWhile_append2 dropWhile_append2)

lemma not_digits [simp]: "\<not> digit (CHR '':'')" "\<not> digit (CHR ''-'')" "\<not> digit (CHR '','')" "\<not> digit (CHR ''.'')"
  by (simp_all add: digit_def)

lemma digit_0 [simp]: "digit (CHR ''0'')"
  by (simp add: digit_def)

lemma length_dec: "length (dec n) = (if n < 10 then 1 else Suc (length (dec (n div 10))))"
  by (subst dec.simps) simp

lemma length_dec_le_3: "length (dec n) \<le> 3 \<longleftrightarrow> n < 1000"
proof -
  have "length (dec n) \<ge> 1" for n by (subst length_dec) simp
  then have "length (dec n) \<le> 1 \<longleftrightarrow> n < 10" for n by (subst length_dec) (simp add: not_le)
  then have "length (dec n) \<le> 2 \<longleftrightarrow> n < 100" for n by (subst length_dec) (auto simp: div_less_iff_less_mult)
  then show ?thesis by (subst length_dec) (auto simp: div_less_iff_less_mult)
qed

lemma undec_zero: "undec (CHR ''0'' # t) = undec t"
  by (simp add: undec_def)

lemma undec_pad2 [simp]: "undec (pad2 n) = n"
  by (simp add: pad2_def undec_zero)

lemma pad2_digits: "\<forall>c\<in>set (pad2 n). digit c"
  using dec_digits [of _ n] by (auto simp: pad2_def)

lemma pad2_nonempty [simp]: "pad2 n \<noteq> []"
  by (simp add: pad2_def)

lemma pad2_short: "length (pad2 n) \<le> 3 \<longleftrightarrow> n < 1000"
  using length_dec_le_3 [of n] by (auto simp: pad2_def length_dec [of n])

lemma pad2_two: "n < 100 \<Longrightarrow> \<exists>a b. pad2 n = [a, b]"
proof -
  assume "n < 100"
  then have "length (pad2 n) = 2" by (simp add: pad2_def length_dec [of n] length_dec [of "n div 10"] div_less_iff_less_mult)
  then show ?thesis by (auto simp: numeral_2_eq_2 length_Suc_conv)
qed

lemma colon_pad2: "n < 100 \<Longrightarrow> colon_two_digits (CHR '':'' # pad2 n @ rest) = Some (n, rest)"
proof -
  assume "n < 100"
  then obtain a b where ab: "pad2 n = [a, b]" using pad2_two by blast
  then have "digit a" "digit b" "undec [a, b] = n" using pad2_digits [of n] undec_pad2 [of n] by simp_all
  then show ?thesis by (simp add: ab)
qed

text \<open>Walltime strings read back. The canonical formatter and the walltime parser are inverse on every
  duration below a thousand hours. A negative duration is written, and read, as zero; from a thousand hours
  on the parser, which takes at most three digits of hours, reads the formatter's own output as zero, which
  the packer takes for an unset ceiling.\<close>

lemma walltime_reads_back:
  "parse_walltime_to_sec (walltime_hms n) = (if 0 \<le> n \<and> n < 3600000 then nat n else 0)"
proof -
  define N where "N = nat (max 0 n)"
  let ?h = "N div 3600" and ?m = "N mod 3600 div 60" and ?s = "N mod 3600 mod 60"
  let ?tail = "CHR '':'' # pad2 ?m @ CHR '':'' # pad2 ?s @ []"
  have t: "walltime_hms n = pad2 ?h @ ?tail" by (simp add: walltime_hms_def Let_def N_def)
  have ms: "?m < 100" "?s < 100" by (simp_all add: div_less_iff_less_mult)
  have "hd (walltime_hms n) \<in> set (pad2 ?h)" "last (walltime_hms n) \<in> set (pad2 ?s)"
    unfolding t by (simp_all add: hd_append)
  then have "\<not> is_space (hd (walltime_hms n))" "\<not> is_space (last (walltime_hms n))"
    using pad2_digits digit_not_space by blast+
  then have strip: "py_strip (walltime_hms n) = walltime_hms n" by (intro strip_ends) (simp_all add: t)
  have span: "takeWhile digit (pad2 ?h @ ?tail) = pad2 ?h" "dropWhile digit (pad2 ?h @ ?tail) = ?tail"
    using span_digits [OF pad2_digits [of ?h], of ?tail] by simp_all
  have hms: "parse_hms (pad2 ?h @ ?tail) = (if ?h < 1000 then Some (?h * 3600 + ?m * 60 + ?s) else None)"
    unfolding parse_hms_def Let_def span using colon_pad2 [OF ms(1), of "CHR '':'' # pad2 ?s @ []"] colon_pad2 [OF ms(2), of "[]"] pad2_short [of ?h]
    by (simp add: fraction_or_end_def not_le [symmetric])
  have days: "parse_days_hms (pad2 ?h @ ?tail) = parse_hms (pad2 ?h @ ?tail)"
    unfolding parse_days_hms_def Let_def span by simp
  have mm: "parse_mm_ss (pad2 ?h @ ?tail) = None"
    unfolding parse_mm_ss_def Let_def span using colon_pad2 [OF ms(1), of "CHR '':'' # pad2 ?s @ []"] by simp
  have "\<not> list_all digit (pad2 ?h @ ?tail)" by simp
  then have "parse_walltime_to_sec (walltime_hms n) = (if ?h < 1000 then ?h * 3600 + ?m * 60 + ?s else 0)"
    unfolding t parse_walltime_to_sec_def Let_def strip [unfolded t] days hms mm by simp
  moreover have "?h * 3600 + ?m * 60 + ?s = N" by (metis div_mult_mod_eq mult.commute add.assoc)
  moreover have "?h < 1000 \<longleftrightarrow> n < 3600000" by (auto simp: div_less_iff_less_mult max_def N_def split: if_splits)
  ultimately show ?thesis by (auto simp: max_def N_def)
qed

section \<open>Array expressions\<close>

lemma split_join:
  "ps \<noteq> [] \<Longrightarrow> \<forall>p\<in>set ps. c \<notin> set p \<Longrightarrow> split_on c (join_with c ps) = ps"
proof (induction c ps rule: join_with.induct)
  case (2 c p)
  then show ?case by (induction p) auto
next
  case (3 c p q qs)
  have ih: "split_on c (join_with c (q # qs)) = q # qs" using 3 by simp
  have "split_on c (p @ c # join_with c (q # qs)) = p # q # qs"
    using 3(3) ih by (induction p) auto
  then show ?case by simp
qed simp

lemma dec_no_space: "py_strip (dec n) = dec n"
  using dec_digits [of _ n] digit_not_space by (intro strip_ends) auto

lemma show_run_strip: "py_strip (show_run r) = show_run r"
proof -
  have "hd (show_run r) \<in> set (dec (fst r))" "last (show_run r) \<in> set (dec (snd r))"
    by (auto simp: show_run_def)
  then show ?thesis
    using dec_digits digit_not_space by (intro strip_ends) (auto simp: show_run_def)
qed

lemma show_run_nonempty: "show_run r \<noteq> []" "CHR '','' \<notin> set (show_run r)"
  using dec_digits [of "CHR '',''"] by (auto simp: show_run_def)

lemma step_range_1: "step_range a b 1 = [a..<b + 1]" "step_range a b (Suc 0) = [a..<b + 1]"
  by (simp_all add: step_range_def)

lemma digits_span_dec:
  "takeWhile digit (dec n) = dec n" "dropWhile digit (dec n) = []"
  "\<not> digit c \<Longrightarrow> takeWhile digit (dec n @ c # t) = dec n" "\<not> digit c \<Longrightarrow> dropWhile digit (dec n @ c # t) = c # t"
proof -
  have d: "\<forall>c\<in>set (dec n). digit c" using dec_digits by blast
  show "takeWhile digit (dec n) = dec n" "dropWhile digit (dec n) = []" using span_digits [OF d, of "[]"] by simp_all
  assume "\<not> digit c"
  then show "takeWhile digit (dec n @ c # t) = dec n" "dropWhile digit (dec n @ c # t) = c # t"
    using span_digits [OF d, of "c # t"] by simp_all
qed

lemma starts_with_digit: "hd (dec a @ t) = hd (dec a)" "dec a @ t \<noteq> ''undefined''" "digit (hd (dec a))"
proof -
  show h: "hd (dec a @ t) = hd (dec a)" by simp
  show d: "digit (hd (dec a))" by (rule dec_digits [of _ a]) simp
  show "dec a @ t \<noteq> ''undefined''"
  proof
    assume "dec a @ t = ''undefined''"
    with h d have "digit (CHR ''u'')" by (metis list.sel(1))
    then show False by (simp add: digit_def)
  qed
qed

lemma strip_pair: "py_strip (dec a @ t @ dec b) = dec a @ t @ dec b"
proof (rule strip_ends)
  have "last (dec b) \<in> set (dec b)" by simp
  then have "digit (last (dec b))" by (rule dec_digits)
  then show "\<not> is_space (last (dec a @ t @ dec b))" using digit_not_space by simp
  show "\<not> is_space (hd (dec a @ t @ dec b))" using starts_with_digit digit_not_space by metis
qed simp

lemma expand_pair: "expand_task_range (dec a @ CHR ''-'' # dec b) = [a..<b + 1]"
  unfolding expand_task_range_def Let_def strip_pair [of a "''-''" b, simplified] using starts_with_digit(2) [of a "CHR ''-'' # dec b"]
  by (simp add: digits_span_dec number_after_def step_range_1)

lemma expand_single: "expand_task_range (dec a) = [a]"
  unfolding expand_task_range_def Let_def dec_no_space using starts_with_digit(2) [of a "[]"]
  by (simp add: digits_span_dec number_after_def step_range_1)

lemma expand_show_run: "a \<le> b \<Longrightarrow> expand_task_range (show_run (a, b)) = [a..<b + 1]"
  by (simp add: show_run_def expand_single expand_pair)

lemma runs_cover:
  "lo \<le> hi \<Longrightarrow> concat (map (\<lambda>r. [fst r..<snd r + 1]) (runs_from lo hi ts)) = [lo..<hi + 1] @ ts
     \<and> (\<forall>r\<in>set (runs_from lo hi ts). fst r \<le> snd r)"
proof (induction lo hi ts rule: runs_from.induct)
  case (2 lo hi t ts)
  then show ?case by (cases "t = hi + 1") auto
qed simp

lemma runs_nonempty [simp]: "runs_from lo hi ts \<noteq> []"
  by (induction lo hi ts rule: runs_from.induct) auto

lemma expand_runs:
  "\<forall>r\<in>set rs. fst r \<le> snd r \<Longrightarrow> expand_tokens (map show_run rs) = Inr (concat (map (\<lambda>r. [fst r..<snd r + 1]) rs))"
proof (induction rs)
  case (Cons r rs)
  then have "expand_task_range (show_run r) = [fst r..<snd r + 1]" using expand_show_run [of "fst r" "snd r"] by simp
  with Cons show ?case by (auto simp: show_run_strip show_run_nonempty Let_def)
qed simp

lemma compact_reads_back:
  assumes "ids \<noteq> []"
  shows "\<exists>s. compact_task_ids ids = Some s \<and> range_indices s = Inr (sort ids)"
proof -
  obtain t ts where s: "sort ids = t # ts" using assms by (cases "sort ids") (auto dest: arg_cong [where f = length])
  have "range_indices (join_with (CHR '','') (map show_run (runs_from t t ts))) = expand_tokens (map show_run (runs_from t t ts))"
    unfolding range_indices_def using show_run_nonempty(2) by (subst split_join) auto
  also have "\<dots> = Inr (t # ts)"
    using runs_cover [of t t ts] by (simp add: expand_runs)
  finally show ?thesis using s by (simp add: compact_task_ids_def)
qed

text \<open>Array expressions read back. The expression submitted for a set of array indices, read by the cancel
  path's own parser, names exactly those indices, in order and with their multiplicity; only the empty set
  has no expression.\<close>

lemma array_expression_reads_back:
  "(case compact_task_ids ids of None \<Rightarrow> ids = [] | Some s \<Rightarrow> range_indices s = Inr (sort ids))"
proof (cases "ids = []")
  case False
  then obtain s where "compact_task_ids ids = Some s" "range_indices s = Inr (sort ids)" using compact_reads_back by blast
  then show ?thesis by simp
qed (simp add: compact_task_ids_def)


section \<open>The packed waves\<close>

lemma ceil_quotient_alt: "ceil_quotient a b = - (- a div b)"
  by (simp add: ceil_quotient_def ceiling_divide_eq_div)

lemma ceil_quotient_bounds:
  assumes "0 < b"
  shows "a \<le> ceil_quotient a b * b \<and> (ceil_quotient a b - 1) * b < a"
proof -
  let ?q = "- a div b"
  have "?q * b + - a mod b = - a" "0 \<le> - a mod b" "- a mod b < b" using assms div_mult_mod_eq [of "- a" b] by simp_all
  moreover have "- ?q * b = - (?q * b)" "(- ?q - 1) * b = - (?q * b) - b" by (simp_all add: left_diff_distrib)
  ultimately show ?thesis unfolding ceil_quotient_alt by linarith
qed

lemma ceil_quotient_le:
  assumes "0 < b" "a \<le> c * b"
  shows "ceil_quotient a b \<le> c"
proof -
  have "(ceil_quotient a b - 1) * b < c * b" using ceil_quotient_bounds [OF assms(1), of a] assms(2) by linarith
  then show ?thesis using assms(1) by (simp add: mult_less_cancel_right)
qed

lemma ceil_quotient_pos: "0 < b \<Longrightarrow> 0 < a \<Longrightarrow> 0 < ceil_quotient a b"
  using ceil_quotient_bounds [of b a] by (smt (verit) mult_nonpos_nonneg)

text \<open>The batches in closed form.\<close>

definition batch_at :: "int \<Rightarrow> int \<Rightarrow> int \<Rightarrow> int option \<Rightarrow> int \<Rightarrow> job_batch" where
  "batch_at n_tasks per concurrent effective j =
     \<lparr>batch_index = j, task_start = j * per + 1, task_end = min ((j + 1) * per) n_tasks,
      array_size = min per (n_tasks - j * per), est_wall_s = effective, wave = j div concurrent\<rparr>"

lemma pack_batches_at:
  assumes "0 < per" "(i + int k - 1) * per < n_tasks"
  shows "pack_batches n_tasks per concurrent effective i k (i * per) = map (batch_at n_tasks per concurrent effective) [i..i + int k - 1]"
  using assms(2)
proof (induction k arbitrary: i)
  case (Suc k)
  have up: "[i..i + int (Suc k) - 1] = i # [i + 1..i + 1 + int k - 1]" by (simp add: upto_rec1)
  have head: "\<lparr>batch_index = i, task_start = i * per + 1, task_end = i * per + 1 + min per (n_tasks - i * per) - 1,
      array_size = min per (n_tasks - i * per), est_wall_s = effective, wave = i div concurrent\<rparr> = batch_at n_tasks per concurrent effective i"
    by (simp add: batch_at_def min_def algebra_simps)
  show ?case
  proof (cases k)
    case 0
    then show ?thesis unfolding up using head by (simp add: Let_def)
  next
    case (Suc k')
    have "(i + 1) * per \<le> (i + int (Suc k) - 1) * per" using assms(1) Suc by (intro mult_right_mono) simp_all
    then have "per \<le> n_tasks - i * per" using Suc.prems by (simp add: algebra_simps)
    then have "i * per + min per (n_tasks - i * per) = (i + 1) * per" by (simp add: min_def algebra_simps)
    moreover have "(i + 1 + int k - 1) * per < n_tasks" using Suc.prems by (simp add: algebra_simps)
    ultimately show ?thesis unfolding up using head Suc.IH [of "i + 1"] by (simp add: Let_def)
  qed
qed simp

text \<open>What a plan consists of.\<close>

lemma plan_shape:
  assumes "compute_submission_plan cc n_tasks est = Inr plan"
  obtains per spin eff where "spin_up_seconds (est_spin_up cc) = Inr spin" "eff = map_option (\<lambda>d. spin + d) est"
     "0 < n_tasks" "0 < max_array_size cc" "0 < max_concurrent_jobs cc" "0 < per" "per \<le> max_array_size cc"
    "total_batches plan = ceil_quotient n_tasks (max_array_size cc)" "0 < total_batches plan"
    "(total_batches plan - 1) * per < n_tasks" "n_tasks \<le> total_batches plan * per"
    "plan_batches plan = map (batch_at n_tasks per (max_concurrent_jobs cc) eff) [0..total_batches plan - 1]"
    "total_tasks plan = n_tasks" "max_concurrent plan = max_concurrent_jobs cc"
    "est_total_wall_s plan = map_option (\<lambda>e. ceil_quotient (total_batches plan) (max_concurrent_jobs cc) * e) eff"
proof -
  let ?n = "ceil_quotient n_tasks (max_array_size cc)"
  have pos: "0 < n_tasks" "0 < max_array_size cc" "0 < max_concurrent_jobs cc"
    using assms by (auto simp: compute_submission_plan_def split: if_splits)
  note b = ceil_quotient_bounds [OF pos(2), of n_tasks]
  have n: "0 < ?n" using ceil_quotient_pos pos by blast
  let ?per = "min (ceil_quotient n_tasks ?n) (max_array_size cc)"
  have "py_int (the (coerce (Some (of_int n_tasks / of_int ?n)) None (Some (of_int (max_array_size cc))) True)) = ?per"
    by (simp add: coerce_def ceil_quotient_def Let_def min_def)
  then obtain spin eff where p: "plan_batches plan = pack_batches n_tasks ?per (max_concurrent_jobs cc) eff 0 (nat ?n) 0"
    "total_batches plan = ?n" "total_tasks plan = n_tasks" "max_concurrent plan = max_concurrent_jobs cc"
    "est_total_wall_s plan = map_option (\<lambda>e. ceil_quotient ?n (max_concurrent_jobs cc) * e) eff"
    "spin_up_seconds (est_spin_up cc) = Inr spin" "eff = map_option (\<lambda>d. spin + d) est"
    using assms by (auto simp: compute_submission_plan_def Let_def split: if_splits sum.splits option.splits)
  have "ceil_quotient n_tasks ?n \<le> max_array_size cc"
    using b by (intro ceil_quotient_le n) (simp add: mult.commute)
  then have per: "?per = ceil_quotient n_tasks ?n" by simp
  have per_pos: "0 < ?per" unfolding per using ceil_quotient_pos [OF n pos(1)] .
  have le: "?per \<le> max_array_size cc" by simp
  then have below: "(?n - 1) * ?per < n_tasks"
    using b n mult_left_mono [of ?per "max_array_size cc" "?n - 1"] by linarith
  have above: "n_tasks \<le> ?n * ?per" unfolding per using ceil_quotient_bounds [OF n, of n_tasks] by (simp add: mult.commute)
  have "plan_batches plan = map (batch_at n_tasks ?per (max_concurrent_jobs cc) eff) [0..?n - 1]"
    unfolding p(1) using pack_batches_at [OF per_pos, of 0 "nat ?n" n_tasks "max_concurrent_jobs cc" eff] below n by simp
  then show thesis
    using pos per_pos le n below above p by (intro that [of spin eff ?per]) (simp_all only: p(2))
qed

lemma tasks_of_batches:
  assumes "0 < per" "0 \<le> k" "(k - 1) * per < n_tasks"
  shows "concat (map (\<lambda>b. [task_start b..task_end b]) (map (batch_at n_tasks per c eff) [0..k - 1])) = [1..min (k * per) n_tasks]"
proof -
  have "concat (map (\<lambda>b. [task_start b..task_end b]) (map (batch_at n_tasks per c eff) [0..int m - 1])) = [1..min (int m * per) n_tasks]"
    if "(int m - 1) * per < n_tasks" for m
    using that
  proof (induction m)
    case 0
    then show ?case by simp
  next
    case (Suc m)
    have "(int m - 1) * per < n_tasks" using Suc.prems assms(1) by (simp add: algebra_simps)
    note ih = Suc.IH [OF this]
    have m: "int m * per < n_tasks" using Suc.prems by simp
    have up: "[0..int (Suc m) - 1] = [0..int m - 1] @ [int m]" by (simp add: upto_rec2)
    have "1 \<le> int m * per + 1" "int m * per + 1 \<le> min ((int m + 1) * per) n_tasks"
      using m assms(1) by (simp_all add: algebra_simps)
    from upto_split1 [OF this]
    have "[1..min ((int m + 1) * per) n_tasks] = [1..int m * per] @ [int m * per + 1..min ((int m + 1) * per) n_tasks]"
      by simp
    moreover have "min (int m * per) n_tasks = int m * per" using m by simp
    ultimately show ?case unfolding up using ih by (simp add: batch_at_def algebra_simps)
  qed
  from this [of "nat k"] assms(2,3) show ?thesis by simp
qed

lemma wave_bound:
  assumes "0 < c"
  shows "length (filter (\<lambda>b. wave b = w) (map (batch_at n_tasks per c eff) [0..k - 1])) \<le> nat c"
proof -
  have "length (filter (\<lambda>b. wave b = w) (map (batch_at n_tasks per c eff) [0..k - 1])) = card {j \<in> {0..k - 1}. j div c = w}"
    by (simp add: filter_map comp_def batch_at_def distinct_card [symmetric])
  also have "\<dots> \<le> card {w * c..<w * c + c}"
  proof (rule card_mono)
    show "{j \<in> {0..k - 1}. j div c = w} \<subseteq> {w * c..<w * c + c}"
    proof
      fix j assume "j \<in> {j \<in> {0..k - 1}. j div c = w}"
      then have w: "j div c = w" by simp
      have "j = w * c + j mod c" "0 \<le> j mod c" "j mod c < c" using assms w div_mult_mod_eq [of j c] by simp_all
      then show "j \<in> {w * c..<w * c + c}" by auto
    qed
  qed simp
  finally show ?thesis by simp
qed

lemma batch_range:
  assumes "compute_submission_plan cc n_tasks est = Inr plan" "b \<in> set (plan_batches plan)"
  shows "1 \<le> task_start b \<and> task_start b \<le> task_end b \<and> task_end b \<le> n_tasks \<and> task_end b - task_start b + 1 \<le> max_array_size cc
    \<and> array_size b = task_end b - task_start b + 1"
  using assms(1)
proof (rule plan_shape)
  fix per spin eff
  assume p: "0 < per" "per \<le> max_array_size cc" "(total_batches plan - 1) * per < n_tasks"
    "plan_batches plan = map (batch_at n_tasks per (max_concurrent_jobs cc) eff) [0..total_batches plan - 1]"
  from assms(2) p(4) obtain j where j: "0 \<le> j" "j \<le> total_batches plan - 1" "b = batch_at n_tasks per (max_concurrent_jobs cc) eff j" by auto
  have "j * per \<le> (total_batches plan - 1) * per" "0 \<le> j * per" using j(1,2) p(1) by (simp_all add: mult_right_mono)
  with p(1-3) show ?thesis by (simp add: j(3) batch_at_def min_def algebra_simps)
qed

lemma batches_tile:
  assumes "compute_submission_plan cc n_tasks est = Inr plan"
  shows "concat (map (\<lambda>b. [task_start b..task_end b]) (plan_batches plan)) = [1..n_tasks]"
  using assms
proof (rule plan_shape)
  fix per spin eff
  assume "0 < per" "0 < total_batches plan" "(total_batches plan - 1) * per < n_tasks" "n_tasks \<le> total_batches plan * per"
    "plan_batches plan = map (batch_at n_tasks per (max_concurrent_jobs cc) eff) [0..total_batches plan - 1]"
  then show ?thesis using tasks_of_batches [of per "total_batches plan" n_tasks "max_concurrent_jobs cc" eff] by (simp add: min_absorb2)
qed

text \<open>Every task in one array. Whenever the packer returns a plan, its batches, in order, cover the tasks from
  one to the total, each exactly once; no array is empty or above the cluster's ceiling, and no plan of
  fewer arrays could hold the tasks; at most as many arrays share a wave as may run at once, and the
  time estimate charges one duration per wave.\<close>

lemma plan_covers_tasks:
  assumes "compute_submission_plan cc n_tasks est = Inr plan"
  shows "concat (map (\<lambda>b. [task_start b..task_end b]) (plan_batches plan)) = [1..n_tasks]
    \<and> (\<forall>b\<in>set (plan_batches plan). 1 \<le> array_size b \<and> array_size b \<le> max_array_size cc
         \<and> array_size b = task_end b - task_start b + 1)
    \<and> int (length (plan_batches plan)) = total_batches plan
    \<and> (\<forall>m. n_tasks \<le> m * max_array_size cc \<longrightarrow> total_batches plan \<le> m)
    \<and> (\<forall>w. int (length (filter (\<lambda>b. wave b = w) (plan_batches plan))) \<le> max_concurrent_jobs cc)"
  using assms
proof (rule plan_shape)
  fix per spin eff
  assume p: "0 < n_tasks" "0 < max_array_size cc" "0 < max_concurrent_jobs cc" "0 < per" "per \<le> max_array_size cc"
    "total_batches plan = ceil_quotient n_tasks (max_array_size cc)" "0 < total_batches plan"
    "(total_batches plan - 1) * per < n_tasks" "n_tasks \<le> total_batches plan * per"
    "plan_batches plan = map (batch_at n_tasks per (max_concurrent_jobs cc) eff) [0..total_batches plan - 1]"
  note c1 = batches_tile [OF assms]
  have c2: "\<forall>b\<in>set (plan_batches plan). 1 \<le> array_size b \<and> array_size b \<le> max_array_size cc
      \<and> array_size b = task_end b - task_start b + 1"
    using batch_range [OF assms] by fastforce
  have c3: "int (length (plan_batches plan)) = total_batches plan" using p(7,10) by simp
  have c4: "\<forall>m. n_tasks \<le> m * max_array_size cc \<longrightarrow> total_batches plan \<le> m"
    unfolding p(6) by (intro allI impI ceil_quotient_le [OF p(2)])
  have c5: "\<forall>w. int (length (filter (\<lambda>b. wave b = w) (plan_batches plan))) \<le> max_concurrent_jobs cc"
  proof
    fix w show "int (length (filter (\<lambda>b. wave b = w) (plan_batches plan))) \<le> max_concurrent_jobs cc"
    unfolding p(10) using wave_bound [OF p(3), of w n_tasks per eff "total_batches plan"] p(3)
      by (simp only: nat_le_iff [symmetric] nat_int)
  qed
  show ?thesis by (intro conjI c1 c2 c3 c4 c5)
qed


section \<open>The wave map\<close>

lemma update_fresh: "k \<notin> fst ` set m \<Longrightarrow> AList.update k v m = m @ [(k, v)]"
  by (induction m) auto

lemma update_last: "k \<notin> fst ` set m \<Longrightarrow> AList.update k v (m @ [(k, u)]) = m @ [(k, v)]"
  by (induction m) auto

lemma pred_div:
  fixes k c :: int
  assumes "0 < c"
  shows "(if c dvd k then k div c = (k - 1) div c + 1 else k div c = (k - 1) div c)"
proof -
  have k: "k = c * (k div c) + k mod c" "0 \<le> k mod c" "k mod c < c" using assms by simp_all
  show ?thesis
  proof (cases "k mod c = 0")
    case True
    then have "k - 1 = c * (k div c - 1) + (c - 1)" using k(1) by (simp add: right_diff_distrib)
    from int_div_pos_eq [OF this] have "(k - 1) div c = k div c - 1" using assms by simp
    with True show ?thesis by (simp add: dvd_eq_mod_eq_0)
  next
    case False
    have "k - 1 = c * (k div c) + (k mod c - 1)" using k(1) by simp
    from int_div_pos_eq [OF this] have "(k - 1) div c = k div c" using k(2,3) False by simp
    with False show ?thesis by (simp add: dvd_eq_mod_eq_0)
  qed
qed

definition wave_step :: "(int \<times> int list) list \<Rightarrow> job_batch \<Rightarrow> (int \<times> int list) list" where
  "wave_step m b = AList.update (wave b)
     ((case map_of m (wave b) of None \<Rightarrow> [] | Some ids \<Rightarrow> ids) @ [task_start b - 1..task_end b - 1]) m"

lemma wave_map_steps:
  assumes "0 < c"
  shows "let m = foldl wave_step [] (map (batch_at n_tasks per c eff) [0..int k - 1])
         in map fst m = [0..(int k - 1) div c]
          \<and> concat (map snd m) = concat (map (\<lambda>b. [task_start b - 1..task_end b - 1]) (map (batch_at n_tasks per c eff) [0..int k - 1]))"
proof (induction k)
  case 0
  have "(- 1) div c = - 1" using assms by (simp add: div_eq_minus1)
  then show ?case by simp
next
  case (Suc k)
  let ?m = "foldl wave_step [] (map (batch_at n_tasks per c eff) [0..int k - 1])"
  let ?b = "batch_at n_tasks per c eff (int k)"
  have up: "[0..int (Suc k) - 1] = [0..int k - 1] @ [int k]" by (simp add: upto_rec2)
  have w: "wave ?b = int k div c" by (simp add: batch_at_def)
  from Suc have ih: "map fst ?m = [0..(int k - 1) div c]"
    "concat (map snd ?m) = concat (map (\<lambda>b. [task_start b - 1..task_end b - 1]) (map (batch_at n_tasks per c eff) [0..int k - 1]))"
    by (simp_all add: Let_def)
  have keys: "fst ` set ?m = {0..(int k - 1) div c}" using ih(1) by (metis list.set_map set_upto)
  have "map fst (wave_step ?m ?b) = [0..int k div c]
      \<and> concat (map snd (wave_step ?m ?b)) = concat (map snd ?m) @ [task_start ?b - 1..task_end ?b - 1]"
  proof (cases "c dvd int k")
    case True
    then have q: "int k div c = (int k - 1) div c + 1" using pred_div [OF assms, of "int k"] by simp
    then have fresh: "int k div c \<notin> fst ` set ?m" unfolding keys by simp
    have "0 \<le> int k div c" using assms by (simp add: pos_imp_zdiv_nonneg_iff)
    then have "[0..int k div c] = [0..(int k - 1) div c] @ [int k div c]" using q by (simp add: upto_rec2)
    moreover have "wave_step ?m ?b = ?m @ [(int k div c, [task_start ?b - 1..task_end ?b - 1])]"
      using fresh by (simp add: wave_step_def w update_fresh map_of_eq_None_iff [THEN iffD2])
    ultimately show ?thesis using ih(1) by simp
  next
    case False
    then have q: "int k div c = (int k - 1) div c" using pred_div [OF assms, of "int k"] by simp
    have pos: "0 \<le> int k div c" using assms by (simp add: pos_imp_zdiv_nonneg_iff)
    then have "?m \<noteq> []" using ih(1) q by auto
    then obtain m' e where m: "?m = m' @ [e]" by (metis rev_exhaust)
    have "[0..(int k - 1) div c] = [0..int k div c - 1] @ [int k div c]" using pos q by (simp add: upto_rec2)
    then have e: "map fst m' = [0..int k div c - 1]" "fst e = int k div c" using ih(1) m by simp_all
    then have fresh: "int k div c \<notin> fst ` set m'" by (metis atLeastAtMost_iff list.set_map set_upto zle_diff1_eq less_irrefl)
    obtain u where u: "e = (int k div c, u)" using e(2) by (cases e) auto
    have "map_of ?m (int k div c) = Some u" unfolding m u using fresh by (simp add: map_add_def map_of_eq_None_iff [THEN iffD2])
    then have "wave_step ?m ?b = m' @ [(int k div c, u @ [task_start ?b - 1..task_end ?b - 1])]"
      unfolding wave_step_def w m u using update_last [OF fresh] by simp
    then show ?thesis using ih(1) m u e q by simp
  qed
  then show ?case unfolding up using ih(2) by (simp add: Let_def)
qed

lemma shift_upto: "map (\<lambda>t. t + k) [a..b] = [a + k..b + k]" for a b k :: int
proof (induction "nat (b - a + 1)" arbitrary: b)
  case (Suc m)
  then have "a \<le> b" "m = nat (b - 1 - a + 1)" by simp_all
  then show ?case using Suc(1) [of "b - 1"] by (simp add: upto_rec2 algebra_simps)
qed simp

lemma shift_tasks: "concat (map (\<lambda>b. [task_start b - 1..task_end b - 1]) bs) = map (\<lambda>t. t - 1) (concat (map (\<lambda>b. [task_start b..task_end b]) bs))"
  using shift_upto [of "-1"] by (induction bs) simp_all

text \<open>The combiner's wave map. The wave map written for a plan lists the waves in order from zero, without a gap,
  and hands the combiner every task of the sweep exactly once, in ascending order; and the time estimate is
  one task duration for each wave of the map.\<close>

lemma wave_map_partitions_tasks:
  assumes "compute_submission_plan cc n_tasks est = Inr plan"
  shows "concat (map snd (build_wave_map plan)) = [0..n_tasks - 1]
    \<and> map fst (build_wave_map plan) = [0..int (length (build_wave_map plan)) - 1]
    \<and> (est_total_wall_s plan = None \<longleftrightarrow> est = None)
    \<and> (\<forall>d. est = Some d \<longrightarrow> (\<exists>spin_up. spin_up_seconds (est_spin_up cc) = Inr spin_up
         \<and> est_total_wall_s plan = Some (int (length (build_wave_map plan)) * (spin_up + d))))"
  using assms
proof (rule plan_shape)
  fix per spin eff
  assume e: "spin_up_seconds (est_spin_up cc) = Inr spin" "eff = map_option (\<lambda>d. spin + d) est"
  assume p: "0 < n_tasks" "0 < max_concurrent_jobs cc" "0 < per" "0 < total_batches plan"
    "(total_batches plan - 1) * per < n_tasks" "n_tasks \<le> total_batches plan * per"
    "plan_batches plan = map (batch_at n_tasks per (max_concurrent_jobs cc) eff) [0..total_batches plan - 1]"
    "est_total_wall_s plan = map_option (\<lambda>e. ceil_quotient (total_batches plan) (max_concurrent_jobs cc) * e) eff"
  obtain k where k: "total_batches plan = int k" using p(4) by (metis less_imp_le nonneg_int_cases)
  have m: "build_wave_map plan = foldl wave_step [] (map (batch_at n_tasks per (max_concurrent_jobs cc) eff) [0..int k - 1])"
    by (simp add: build_wave_map_def wave_step_def [abs_def] p(7) k)
  note steps = wave_map_steps [OF p(2), of n_tasks per eff k, folded m, unfolded Let_def]
  have "concat (map (\<lambda>b. [task_start b..task_end b]) (map (batch_at n_tasks per (max_concurrent_jobs cc) eff) [0..int k - 1])) = [1..n_tasks]"
    using tasks_of_batches [OF p(3), of "total_batches plan" n_tasks "max_concurrent_jobs cc" eff] p(4-6) by (simp add: min_absorb2 k)
  then have "concat (map snd (build_wave_map plan)) = map (\<lambda>t. t - 1) [1..n_tasks]" using steps shift_tasks by metis
  moreover have "map (\<lambda>t. t - 1) [1..n_tasks] = [0..n_tasks - 1]"
    using shift_tasks [of "[\<lparr>batch_index = 0, task_start = 1, task_end = n_tasks, array_size = 0, est_wall_s = None, wave = 0\<rparr>]"] by simp
  ultimately have c1: "concat (map snd (build_wave_map plan)) = [0..n_tasks - 1]" by simp
  let ?q = "(total_batches plan - 1) div max_concurrent_jobs cc"
  have keys: "map fst (build_wave_map plan) = [0..?q]" using steps k by simp
  have "0 \<le> ?q" using p(2,4) by (simp add: pos_imp_zdiv_nonneg_iff)
  moreover have "length (build_wave_map plan) = length [0..?q]" using keys by (metis length_map)
  ultimately have len: "int (length (build_wave_map plan)) = ?q + 1" by simp
  have "ceil_quotient (total_batches plan) (max_concurrent_jobs cc) = ?q + 1"
    using pred_div [OF p(2), of "total_batches plan"] p(2)
    by (simp add: ceil_quotient_alt zdiv_zminus1_eq_if dvd_eq_mod_eq_0 split: if_splits)
  then have est: "est_total_wall_s plan = map_option (\<lambda>e. int (length (build_wave_map plan)) * e) eff" using p(8) len by simp
  show ?thesis using c1 keys len est e by auto
qed


section \<open>Resubmissions\<close>

lemma slice_nth:
  assumes "1 \<le> a" "b \<le> int (length ids)"
  shows "drop (nat (a - 1)) (take (nat b) ids) = map (\<lambda>t. ids ! nat (t - 1)) [a..b]"
proof (rule nth_equalityI)
  show "length (drop (nat (a - 1)) (take (nat b) ids)) = length (map (\<lambda>t. ids ! nat (t - 1)) [a..b])"
    using assms by (simp add: min_def) linarith
  fix i assume "i < length (drop (nat (a - 1)) (take (nat b) ids))"
  then have i: "i < nat b - nat (a - 1)" by simp
  then have le: "a + int i \<le> b" using assms(1) by linarith
  have "nat (a - 1) + i = nat (a + int i - 1)" using assms(1) by simp
  moreover have "i < length [a..b]" "nat (a + int i - 1) < nat b" using le assms(1) by simp_all
  ultimately show "drop (nat (a - 1)) (take (nat b) ids) ! i = map (\<lambda>t. ids ! nat (t - 1)) [a..b] ! i"
    using assms le by (simp add: nth_upto)
qed

lemma concat_slices:
  assumes "\<forall>b\<in>set bs. 1 \<le> task_start b \<and> task_end b \<le> int (length ids)"
  shows "concat (map (\<lambda>b. drop (nat (task_start b - 1)) (take (nat (task_end b)) ids)) bs)
    = map (\<lambda>t. ids ! nat (t - 1)) (concat (map (\<lambda>b. [task_start b..task_end b]) bs))"
  using assms by (induction bs) (simp_all add: slice_nth)

lemma nth_all: "map (\<lambda>t. ids ! nat (t - 1)) [1..int (length ids)] = ids"
  using slice_nth [of 1 "int (length ids)" ids] by simp

lemma replay_facts:
  assumes "resubmit_plan task_count failed overrides constraints = Inr p"
  shows "set failed \<subseteq> {0..<task_count}
    \<and> concat (map rb_task_ids (rs_batches p)) = sort (remdups failed)
    \<and> (\<forall>b\<in>set (rs_batches p). rb_task_ids b \<noteq> []
         \<and> int (length (rb_task_ids b)) \<le> max_array_size (case constraints of None \<Rightarrow> default_constraints | Some c \<Rightarrow> c)
         \<and> (\<exists>s. rb_task_range b = Some s \<and> range_indices s = Inr (map (\<lambda>t. nat (t + 1)) (rb_task_ids b))))"
proof -
  let ?ids = "sort (remdups failed)" and ?cc = "case constraints of None \<Rightarrow> default_constraints | Some c \<Rightarrow> c"
  obtain inner where known: "filter (\<lambda>t. \<not> (0 \<le> t \<and> t < task_count)) failed = []"
    and inner: "compute_submission_plan ?cc (int (length ?ids)) None = Inr inner"
    and rs: "rs_batches p = map (\<lambda>b. \<lparr>rb_index = batch_index b,
               rb_task_ids = drop (nat (task_start b - 1)) (take (nat (task_end b)) ?ids), rb_wave = wave b\<rparr>) (plan_batches inner)"
    using assms by (auto simp: resubmit_plan_def Let_def split: if_splits sum.splits)
  from known have sub: "set failed \<subseteq> {0..<task_count}" by (auto simp: filter_empty_conv)
  note range = batch_range [OF inner]
  have "concat (map rb_task_ids (rs_batches p)) = concat (map (\<lambda>b. drop (nat (task_start b - 1)) (take (nat (task_end b)) ?ids)) (plan_batches inner))"
    by (simp add: rs comp_def)
  also have "\<dots> = map (\<lambda>t. ?ids ! nat (t - 1)) [1..int (length ?ids)]"
    using range by (subst concat_slices) (simp_all only: batches_tile [OF inner], blast)
  also have "\<dots> = ?ids" by (rule nth_all)
  finally have all: "concat (map rb_task_ids (rs_batches p)) = ?ids" .
  have "rb_task_ids b \<noteq> [] \<and> int (length (rb_task_ids b)) \<le> max_array_size ?cc
      \<and> (\<exists>s. rb_task_range b = Some s \<and> range_indices s = Inr (map (\<lambda>t. nat (t + 1)) (rb_task_ids b)))"
    if b: "b \<in> set (rs_batches p)" for b
  proof -
    from b obtain jb where jb: "jb \<in> set (plan_batches inner)"
      "rb_task_ids b = drop (nat (task_start jb - 1)) (take (nat (task_end jb)) ?ids)" by (auto simp: rs)
    note r = range [OF jb(1)]
    have len: "int (length (rb_task_ids b)) = task_end jb - task_start jb + 1"
    proof -
      have "nat (task_end jb) \<le> length ?ids" "nat (task_start jb - 1) \<le> nat (task_end jb)" using r by linarith+
      then have "length (rb_task_ids b) = nat (task_end jb) - nat (task_start jb - 1)" by (simp add: jb(2))
      then show ?thesis using r by linarith
    qed
    have nonneg: "\<forall>t\<in>set (rb_task_ids b). 0 \<le> t"
      using sub jb(2) by (auto dest!: in_set_dropD in_set_takeD)
    have "sorted (rb_task_ids b)" using jb(2) by (simp add: sorted_wrt_drop sorted_wrt_take)
    then have "sorted (map (\<lambda>t. nat (t + 1)) (rb_task_ids b))" by (simp add: sorted_map sorted_wrt_mono_rel [of _ "(\<le>)"] nat_mono)
    moreover have ne: "rb_task_ids b \<noteq> []" using len r by auto
    moreover have "rb_task_range b = compact_task_ids (map (\<lambda>t. nat (t + 1)) (rb_task_ids b))"
      using nonneg by (auto simp: rb_task_range_def to_array_index_def intro!: arg_cong [where f = compact_task_ids])
    ultimately show ?thesis
      using compact_reads_back [of "map (\<lambda>t. nat (t + 1)) (rb_task_ids b)"] len r by (auto simp: sorted_sort_id)
  qed
  with sub all show ?thesis by blast
qed

text \<open>Resubmission replays exactly the failures. A resubmission plan exists only for tasks of the run, and its
  batches, in order, hold exactly the failed tasks, each once however often it was named; no batch is
  empty or above the array ceiling, and the expression each batch submits reads back as its own tasks in
  the scheduler's one-based coordinate.\<close>

lemma resubmission_replays_failures:
  assumes "resubmit_plan task_count failed overrides constraints = Inr p"
  shows "set failed \<subseteq> {0..<task_count}
    \<and> concat (map rb_task_ids (rs_batches p)) = sort (remdups failed)
    \<and> (\<forall>b\<in>set (rs_batches p). rb_task_ids b \<noteq> []
         \<and> int (length (rb_task_ids b)) \<le> max_array_size (case constraints of None \<Rightarrow> default_constraints | Some c \<Rightarrow> c)
         \<and> (\<exists>s. rb_task_range b = Some s \<and> range_indices s = Inr (map (\<lambda>t. nat (t + 1)) (rb_task_ids b))))"
  using replay_facts [OF assms] .

section \<open>Concrete plans\<close>

definition small_cluster :: cluster_constraints where
  "small_cluster = \<lparr>max_array_size = 4, max_walltime = ''01:00:00'', max_concurrent_jobs = 2, est_spin_up = ''30s'',
     max_concurrent_tasks = None\<rparr>"

lemma small_plan:
  "\<exists>plan. compute_submission_plan small_cluster 10 (Some 60) = Inr plan \<and> map task_end (plan_batches plan) = [4, 8, 10]
     \<and> plan_mode plan = AfteranyWaves \<and> length (build_wave_map plan) = 2"
proof -
  have "case compute_submission_plan small_cluster 10 (Some 60) of Inl err \<Rightarrow> False
      | Inr plan \<Rightarrow> map task_end (plan_batches plan) = [4, 8, 10] \<and> plan_mode plan = AfteranyWaves \<and> length (build_wave_map plan) = 2"
    by code_simp
  then show ?thesis by (auto split: sum.splits)
qed

lemma plan_covers_tasks_witness:
  "\<exists>plan. compute_submission_plan small_cluster 10 (Some 60) = Inr plan
     \<and> concat (map (\<lambda>b. [task_start b..task_end b]) (plan_batches plan)) = [1..10]"
  using small_plan plan_covers_tasks by blast

lemma wave_map_partitions_tasks_witness:
  "\<exists>plan. compute_submission_plan small_cluster 10 (Some 60) = Inr plan \<and> est_total_wall_s plan = Some 180"
proof -
  obtain plan where plan: "compute_submission_plan small_cluster 10 (Some 60) = Inr plan" "length (build_wave_map plan) = 2"
    using small_plan by blast
  have "spin_up_seconds (est_spin_up small_cluster) = Inr 30" by code_simp
  with wave_map_partitions_tasks [OF plan(1)] plan show ?thesis by auto
qed

lemma resubmission_replays_failures_witness:
  "\<exists>p. resubmit_plan 20 [7, 3, 12, 3, 13, 14] [] (Some small_cluster) = Inr p
     \<and> concat (map rb_task_ids (rs_batches p)) = [3, 7, 12, 13, 14]"
proof -
  have "case resubmit_plan 20 [7, 3, 12, 3, 13, 14] [] (Some small_cluster) of Inl err \<Rightarrow> False | Inr p \<Rightarrow> True" by code_simp
  then obtain p where "resubmit_plan 20 [7, 3, 12, 3, 13, 14] [] (Some small_cluster) = Inr p" by (auto split: sum.splits)
  with resubmission_replays_failures [OF this] show ?thesis by (auto simp: insort_key.simps)
qed

end
