(* ===== verification/ArrayJobs.thy ===== *)
theory ArrayJobs
  imports ArrayPlanLaws CampaignEvidence
begin

text \<open>
  A plan on the cluster: the wave submitter (\<open>infra/backends/__init__.py\<close>), the task a job script computes
  from its array index (\<open>infra/backends/_scripts.py\<close>), the windows stamped on the sidecar
  (\<open>ops/submit_flow.py\<close>) and the cancel of a run or of some of its tasks (\<open>ops/monitor/kill.py\<close>). The
  scheduler is a function of the number of arrays submitted so far and of the dispatch; \<open>None\<close> is a failed
  submission.
\<close>

section \<open>Submitting a plan\<close>

text \<open>What one array is submitted with: its expression, its \<open>TASK_OFFSET\<close> if any, and the ids it waits for.\<close>

record dispatch =
  d_range :: string
  d_offset :: "int option"
  d_afterok :: "string list"
  d_afterany :: "string list"

record landed =
  l_wave :: int
  l_range :: string
  l_job :: string
  l_dispatch :: dispatch

type_synonym scheduler = "nat \<Rightarrow> dispatch \<Rightarrow> string option"

definition batch_task_range :: "job_batch \<Rightarrow> string" where
  "batch_task_range b = dec (nat (task_start b)) @ ''-'' @ dec (nat (task_end b))"

definition dispatch_of :: "bool \<Rightarrow> string list \<Rightarrow> string list \<Rightarrow> job_batch \<Rightarrow> dispatch" where
  "dispatch_of global gate_ids afterany_ids b =
     (if global
      then \<lparr>d_range = batch_task_range b, d_offset = None, d_afterok = gate_ids, d_afterany = afterany_ids\<rparr>
      else
        (let offset = task_start b - 1
         in \<lparr>d_range = ''1-'' @ dec (nat (array_size b)), d_offset = (if offset > 0 then Some offset else None),
             d_afterok = gate_ids, d_afterany = afterany_ids\<rparr>))"

text \<open>One wave: the submissions so far and the wave's own ids, or the submissions that landed before the failure.\<close>

fun submit_wave ::
  "scheduler \<Rightarrow> bool \<Rightarrow> string list \<Rightarrow> string list \<Rightarrow> job_batch list \<Rightarrow> landed list \<Rightarrow> string list
   \<Rightarrow> landed list + (landed list \<times> string list)" where
  "submit_wave sched global gate_ids afterany_ids [] submissions current = Inr (submissions, current)"
| "submit_wave sched global gate_ids afterany_ids (b # bs) submissions current =
     (let d = dispatch_of global gate_ids afterany_ids b in
      case sched (length submissions) d of
        None \<Rightarrow> Inl submissions
      | Some jid \<Rightarrow>
          submit_wave sched global gate_ids afterany_ids bs
            (submissions @ [\<lparr>l_wave = wave b, l_range = batch_task_range b, l_job = jid, l_dispatch = d\<rparr>]) (current @ [jid]))"

fun submit_waves ::
  "scheduler \<Rightarrow> bool \<Rightarrow> string list \<Rightarrow> job_batch list \<Rightarrow> int list \<Rightarrow> string list \<Rightarrow> landed list
   \<Rightarrow> (int \<times> landed list) + landed list" where
  "submit_waves sched global gate_ids bs [] prev submissions = Inr submissions"
| "submit_waves sched global gate_ids bs (w # ws) prev submissions =
     (case submit_wave sched global gate_ids (if w > 0 then prev else []) (filter (\<lambda>b. wave b = w) bs) submissions [] of
        Inl partial \<Rightarrow> Inl (w, partial)
      | Inr (submissions, current) \<Rightarrow> submit_waves sched global gate_ids bs ws current submissions)"

definition submit_plan ::
  "scheduler \<Rightarrow> bool \<Rightarrow> string list \<Rightarrow> submission_plan \<Rightarrow> (int \<times> landed list) + landed list" where
  "submit_plan sched global gate_ids plan =
     submit_waves sched global gate_ids (plan_batches plan) (sort (remdups (map wave (plan_batches plan)))) [] []"

text \<open>The 0-based task that array index \<open>i\<close> of a dispatch runs: \<open>i - 1 + ${TASK_OFFSET:-0}\<close>.\<close>

definition task_of_index :: "dispatch \<Rightarrow> int \<Rightarrow> int" where
  "task_of_index d i = i - 1 + (case d_offset d of None \<Rightarrow> 0 | Some k \<Rightarrow> k)"

text \<open>The windows recorded for the jobs; an unreadable one is skipped.\<close>

definition parse_window :: "string \<Rightarrow> (int \<times> int) option" where
  "parse_window r =
     (let a = takeWhile (\<lambda>c. c \<noteq> CHR ''-'') r; b = dropWhile (\<lambda>c. c \<noteq> CHR ''-'') r
      in if b = [] then None
         else
           (case (py_int_of_text a, py_int_of_text (tl b)) of
              (Some x, Some y) \<Rightarrow> Some (x - 1, y - 1)
            | _ \<Rightarrow> None))"

definition job_task_spans :: "bool \<Rightarrow> landed list \<Rightarrow> (string \<times> int \<times> int) list option" where
  "job_task_spans global submissions =
     (if global then None
      else
        (let spans = foldl (\<lambda>m l. case parse_window (l_range l) of None \<Rightarrow> m | Some w \<Rightarrow> AList.update (l_job l) w m) [] submissions
         in if spans = [] then None else Some spans))"

section \<open>Cancelling some tasks of a waved run\<close>

text \<open>The jobs, with the index to use there, that a 1-based task index of the run is offered to.\<close>

definition route_index :: "string list \<Rightarrow> (string \<times> int \<times> int) list \<Rightarrow> nat \<Rightarrow> (string \<times> int) list" where
  "route_index job_ids spans g1 =
     (let g0 = int g1 - 1 in
      case find (\<lambda>j. case map_of spans j of None \<Rightarrow> False | Some (lo, hi) \<Rightarrow> lo \<le> g0 \<and> g0 \<le> hi) job_ids of
        Some j \<Rightarrow> [(j, g0 - fst (the (map_of spans j)) + 1)]
      | None \<Rightarrow> map (\<lambda>j. (j, int g1)) (filter (\<lambda>j. map_of spans j = None) job_ids))"

definition push :: "string \<times> int \<Rightarrow> (string \<times> int list) list \<Rightarrow> (string \<times> int list) list" where
  "push e m = AList.update (fst e) ((case map_of m (fst e) of None \<Rightarrow> [] | Some xs \<Rightarrow> xs) @ [snd e]) m"

definition cancels_of :: "string list \<Rightarrow> (string \<times> int list) list \<Rightarrow> (string \<times> string) list" where
  "cancels_of job_ids per_job =
     List.map_filter (\<lambda>j. case map_of per_job j of
                        None \<Rightarrow> None
                      | Some xs \<Rightarrow> map_option (\<lambda>e. (j, e)) (compact_task_ids (sort (remdups (map nat xs))))) job_ids"

definition range_cancels ::
  "string list \<Rightarrow> string \<Rightarrow> (string \<times> int \<times> int) list \<Rightarrow> string + (string \<times> string) list" where
  "range_cancels job_ids task_range spans =
     (case range_indices task_range of
        Inl bad \<Rightarrow> Inl bad
      | Inr idx \<Rightarrow> Inr (cancels_of job_ids (foldl (\<lambda>m e. push e m) [] (concat (map (route_index job_ids spans) idx)))))"

type_synonym cancel_builder = "string list \<Rightarrow> string option \<Rightarrow> string"

fun join_text :: "string \<Rightarrow> string list \<Rightarrow> string" where
  "join_text sep [] = []"
| "join_text sep [p] = p"
| "join_text sep (p # ps) = p @ sep @ join_text sep ps"

definition range_cancel_cmd ::
  "cancel_builder \<Rightarrow> string list \<Rightarrow> string \<Rightarrow> (string \<times> int \<times> int) list \<Rightarrow> string + string option" where
  "range_cancel_cmd builder job_ids task_range spans =
     (case range_cancels job_ids task_range spans of
        Inl bad \<Rightarrow> Inl bad
      | Inr [] \<Rightarrow> Inr None
      | Inr cancels \<Rightarrow> Inr (Some (join_text '' ; '' (map (\<lambda>(j, e). builder [j] (Some e)) cancels))))"

section \<open>The kill\<close>

record cancel_attempt =
  ca_attempted :: bool
  ca_available :: bool
  ca_command :: "string option"

definition attempt_backend_cancel ::
  "cancel_builder option \<Rightarrow> string list \<Rightarrow> string option \<Rightarrow> (string \<times> int \<times> int) list option \<Rightarrow> string + cancel_attempt" where
  "attempt_backend_cancel builder job_ids task_range spans =
     (if job_ids = [] then Inr \<lparr>ca_attempted = False, ca_available = False, ca_command = None\<rparr>
      else
        (case builder of
           None \<Rightarrow> Inr \<lparr>ca_attempted = False, ca_available = False, ca_command = None\<rparr>
         | Some build \<Rightarrow>
             (case (task_range, spans) of
                (Some r, Some (s # ss)) \<Rightarrow>
                  (case range_cancel_cmd build job_ids r (s # ss) of
                     Inl bad \<Rightarrow> Inl bad
                   | Inr None \<Rightarrow> Inr \<lparr>ca_attempted = False, ca_available = True, ca_command = None\<rparr>
                   | Inr (Some cmd) \<Rightarrow> Inr \<lparr>ca_attempted = True, ca_available = True, ca_command = Some cmd\<rparr>)
              | _ \<Rightarrow> Inr \<lparr>ca_attempted = True, ca_available = True, ca_command = Some (build job_ids task_range)\<rparr>)))"

datatype kill_error = NoJournalRecord | BadRangeToken string | IndexOutside nat int

text \<open>What a kill does to the world, in order.\<close>

datatype kill_event = Intent "string list" | Cancel string | ConfirmedGone "string list" | Reconcile

record kill_result =
  kr_requested :: "string list"
  kr_confirmed_gone :: "string list"
  kr_still_alive :: "string list"
  kr_attempted :: bool
  kr_available :: bool
  kr_settled :: bool

text \<open>
  \<open>run\<close> is the journal record's job ids and task count, \<open>alive\<close> the scheduler's answer or \<open>None\<close> when it
  cannot be asked, \<open>reconciled\<close> the status of the record that reconcile returns, if it returns one.
\<close>

definition kill ::
  "(string list \<times> int) option \<Rightarrow> cancel_builder option \<Rightarrow> (string \<times> int \<times> int) list option \<Rightarrow> string set option
   \<Rightarrow> string option \<Rightarrow> string option \<Rightarrow> kill_error + (kill_result \<times> kill_event list)" where
  "kill run builder spans alive reconciled task_range =
     (case run of
        None \<Rightarrow> Inl NoJournalRecord
      | Some (job_ids, n_tasks) \<Rightarrow>
          (case (case task_range of None \<Rightarrow> Inr [] | Some r \<Rightarrow> range_indices r) of
             Inl bad \<Rightarrow> Inl (BadRangeToken bad)
           | Inr idx \<Rightarrow>
               (case filter (\<lambda>i. int i < 1 \<or> int i > n_tasks) idx of
                  i # _ \<Rightarrow> Inl (IndexOutside i n_tasks)
                | [] \<Rightarrow>
                    (case attempt_backend_cancel builder job_ids task_range (if task_range = None then None else spans) of
                       Inl bad \<Rightarrow> Inl (BadRangeToken bad)
                     | Inr attempt \<Rightarrow>
                         (let is_alive = (\<lambda>j. case alive of None \<Rightarrow> True | Some a \<Rightarrow> j \<in> a);
                              gone = filter (\<lambda>j. \<not> is_alive j) job_ids;
                              still = filter is_alive job_ids;
                              full = (task_range = None \<and> gone \<noteq> [] \<and> still = [])
                          in Inr (\<lparr>kr_requested = job_ids, kr_confirmed_gone = gone, kr_still_alive = still,
                                   kr_attempted = ca_attempted attempt, kr_available = ca_available attempt,
                                   kr_settled = (full \<and> (\<exists>st\<in>set_option reconciled. st \<in> set TERMINAL_STATUSES))\<rparr>,
                                  Intent job_ids # (case ca_command attempt of None \<Rightarrow> [] | Some c \<Rightarrow> [Cancel c])
                                    @ [ConfirmedGone gone] @ (if full then [Reconcile] else [])))))))"

end
