(* ===== verification/ArrayJobsLaws.thy ===== *)
theory ArrayJobsLaws
  imports ArrayJobs
begin

text \<open>
  A plan submitted as local arrays runs every task exactly once and in chained waves; a cancel of some
  tasks reaches exactly those, as long as no task has been resubmitted; a kill reports only what the
  scheduler confirmed.
\<close>

section \<open>Waves in order\<close>

lemma split_minimal:
  fixes f :: "'a \<Rightarrow> 'k::linorder"
  shows "sorted (map f bs) \<Longrightarrow> \<forall>b\<in>set bs. w \<le> f b \<Longrightarrow> bs = filter (\<lambda>b. f b = w) bs @ filter (\<lambda>b. f b \<noteq> w) bs"
proof (induction bs)
  case (Cons b bs)
  show ?case
  proof (cases "f b = w")
    case False
    then have "\<forall>x\<in>set (b # bs). f x \<noteq> w" using Cons.prems by fastforce
    then have "filter (\<lambda>b. f b = w) (b # bs) = []" "filter (\<lambda>b. f b \<noteq> w) (b # bs) = b # bs"
      by (simp_all add: filter_empty_conv filter_id_conv)
    then show ?thesis by (simp only: append_Nil)
  next
    case True
    have "bs = filter (\<lambda>b. f b = w) bs @ filter (\<lambda>b. f b \<noteq> w) bs" by (rule Cons.IH) (use Cons.prems in simp_all)
    then show ?thesis using True by simp
  qed
qed simp

lemma group_sorted:
  fixes f :: "'a \<Rightarrow> 'k::linorder"
  shows "sorted (map f bs) \<Longrightarrow> sorted ws \<Longrightarrow> distinct ws \<Longrightarrow> f ` set bs \<subseteq> set ws \<Longrightarrow>
    concat (map (\<lambda>w. filter (\<lambda>b. f b = w) bs) ws) = bs"
proof (induction ws arbitrary: bs)
  case (Cons w ws)
  have "\<forall>b\<in>set bs. w \<le> f b" using Cons.prems by auto
  note split = split_minimal [OF Cons.prems(1) this]
  let ?rest = "filter (\<lambda>b. f b \<noteq> w) bs"
  have "concat (map (\<lambda>v. filter (\<lambda>b. f b = v) ?rest) ws) = ?rest"
    using Cons.prems by (intro Cons.IH) (auto simp: sorted_filter)
  moreover have "map (\<lambda>v. filter (\<lambda>b. f b = v) ?rest) ws = map (\<lambda>v. filter (\<lambda>b. f b = v) bs) ws"
    using Cons.prems(3) by (intro map_cong refl) (auto intro!: filter_cong)
  ultimately have "concat (map (\<lambda>v. filter (\<lambda>b. f b = v) bs) ws) = ?rest" by (simp only:)
  then show ?case using split by simp
qed simp

text \<open>What a landed array has to do with its batch.\<close>

definition landed_as :: "bool \<Rightarrow> string list \<Rightarrow> landed \<Rightarrow> job_batch \<Rightarrow> bool" where
  "landed_as global gate_ids l b \<longleftrightarrow>
     l_wave l = wave b \<and> l_range l = batch_task_range b
   \<and> l_dispatch l = dispatch_of global gate_ids (d_afterany (l_dispatch l)) b"

lemma submit_wave_landed:
  "submit_wave sched global gate_ids after bs subs cur = Inr (subs', cur') \<Longrightarrow>
     \<exists>new. subs' = subs @ new \<and> cur' = cur @ map l_job new \<and> list_all2 (landed_as global gate_ids) new bs
         \<and> (\<forall>l\<in>set new. d_afterany (l_dispatch l) = after)"
proof (induction bs arbitrary: subs cur)
  case (Cons b bs)
  let ?d = "dispatch_of global gate_ids after b"
  from Cons.prems obtain jid where j: "sched (length subs) ?d = Some jid" by (auto simp: Let_def split: option.splits)
  let ?l = "\<lparr>l_wave = wave b, l_range = batch_task_range b, l_job = jid, l_dispatch = ?d\<rparr>"
  have "submit_wave sched global gate_ids after bs (subs @ [?l]) (cur @ [jid]) = Inr (subs', cur')"
    using Cons.prems j by (simp add: Let_def)
  from Cons.IH [OF this] obtain new where new: "subs' = (subs @ [?l]) @ new" "cur' = (cur @ [jid]) @ map l_job new"
    "list_all2 (landed_as global gate_ids) new bs" "\<forall>l\<in>set new. d_afterany (l_dispatch l) = after" by blast
  have "d_afterany ?d = after" by (simp add: dispatch_of_def Let_def)
  then have "landed_as global gate_ids ?l b" "d_afterany (l_dispatch ?l) = after" by (simp_all add: landed_as_def)
  then show ?case using new by (intro exI [of _ "?l # new"]) simp
qed simp

text \<open>Consecutive waves: each waits for the ids of the one before.\<close>

definition chained :: "landed list \<Rightarrow> bool" where
  "chained subs \<longleftrightarrow> (\<forall>l\<in>set subs. d_afterany (l_dispatch l) = map l_job (filter (\<lambda>k. l_wave k = l_wave l - 1) subs))"

lemma list_all2_in_set1: "list_all2 P xs ys \<Longrightarrow> x \<in> set xs \<Longrightarrow> \<exists>y\<in>set ys. P x y"
  by (induction rule: list_all2_induct) auto

lemma landed_waves:
  "list_all2 (landed_as global gate_ids) new (filter (\<lambda>b. wave b = w) bs) \<Longrightarrow> \<forall>l\<in>set new. l_wave l = w"
  by (auto dest!: list_all2_in_set1 simp: landed_as_def)

lemma submit_waves_landed:
  "submit_waves sched global gate_ids bs [w..q] prev subs = Inr subs' \<Longrightarrow> chained subs \<Longrightarrow> 0 \<le> w \<Longrightarrow>
     \<forall>l\<in>set subs. 0 \<le> l_wave l \<and> l_wave l < w \<Longrightarrow> (w > 0 \<Longrightarrow> prev = map l_job (filter (\<lambda>k. l_wave k = w - 1) subs)) \<Longrightarrow>
     chained subs' \<and> (\<exists>new. subs' = subs @ new
       \<and> list_all2 (landed_as global gate_ids) new (concat (map (\<lambda>w. filter (\<lambda>b. wave b = w) bs) [w..q])))"
proof (induction "nat (q + 1 - w)" arbitrary: w prev subs)
  case 0
  then show ?case by simp
next
  case (Suc n)
  then have le: "w \<le> q" by simp
  then have up: "[w..q] = w # [w + 1..q]" by (simp add: upto_rec1)
  let ?after = "if w > 0 then prev else []" and ?bs = "filter (\<lambda>b. wave b = w) bs"
  from Suc.prems(1) obtain subs1 cur where s: "submit_wave sched global gate_ids ?after ?bs subs [] = Inr (subs1, cur)"
    and r: "submit_waves sched global gate_ids bs [w + 1..q] cur subs1 = Inr subs'"
    unfolding up by (auto split: sum.splits)
  from submit_wave_landed [OF s] obtain new where new: "subs1 = subs @ new" "cur = map l_job new"
    "list_all2 (landed_as global gate_ids) new ?bs" "\<forall>l\<in>set new. d_afterany (l_dispatch l) = ?after" by auto
  note w = landed_waves [OF new(3)]
  have old: "filter (\<lambda>k. l_wave k = v) subs1 = filter (\<lambda>k. l_wave k = v) subs" if "v < w" for v
    using that w by (auto simp: new(1) filter_empty_conv)
  have newest: "filter (\<lambda>k. l_wave k = w) subs1 = new"
    using w Suc.prems(4) by (auto simp: new(1) filter_empty_conv filter_id_conv)
  have "map l_job (filter (\<lambda>k. l_wave k = w - 1) subs) = ?after"
  proof (cases "w > 0")
    case False
    then have "filter (\<lambda>k. l_wave k = w - 1) subs = []" using Suc.prems(3,4) by (auto simp: filter_empty_conv)
    with False show ?thesis by simp
  qed (use Suc.prems(5) in simp)
  moreover have "filter (\<lambda>k. l_wave k = l_wave l - 1) subs1 = filter (\<lambda>k. l_wave k = l_wave l - 1) subs" if "l \<in> set subs1" for l
    using that w Suc.prems(4) by (intro old) (auto simp: new(1))
  ultimately have ch: "chained subs1"
    using Suc.prems(2) new(1,4) w by (auto simp: chained_def)
  have n: "n = nat (q + 1 - (w + 1))" using Suc.hyps(2) by simp
  have "chained subs' \<and> (\<exists>new'. subs' = subs1 @ new'
      \<and> list_all2 (landed_as global gate_ids) new' (concat (map (\<lambda>w. filter (\<lambda>b. wave b = w) bs) [w + 1..q])))"
  proof (rule Suc.hyps(1) [OF n r ch])
    show "0 \<le> w + 1" using Suc.prems(3) by simp
    show "\<forall>l\<in>set subs1. 0 \<le> l_wave l \<and> l_wave l < w + 1" using Suc.prems(3,4) w by (auto simp: new(1))
    show "cur = map l_job (filter (\<lambda>k. l_wave k = w + 1 - 1) subs1)" using newest new(2) by simp
  qed
  then obtain new' where c: "chained subs'" "subs' = subs1 @ new'"
    "list_all2 (landed_as global gate_ids) new' (concat (map (\<lambda>w. filter (\<lambda>b. wave b = w) bs) [w + 1..q]))" by blast
  have "list_all2 (landed_as global gate_ids) (new @ new') (concat (map (\<lambda>w. filter (\<lambda>b. wave b = w) bs) [w..q]))"
    unfolding up using list_all2_appendI [OF new(3) c(3)] by simp
  then show ?case using c(1,2) new(1) by (intro conjI exI [of _ "new @ new'"]) simp_all
qed

lemma batch_at_wave: "wave (batch_at n_tasks per c eff j) = j div c"
  by (simp add: batch_at_def)

lemma quotients_cover:
  fixes c m :: int
  assumes "0 < c" "0 \<le> m"
  shows "(\<lambda>j. j div c) ` {0..m} = {0..m div c}"
proof (intro subset_antisym subsetI)
  fix v assume "v \<in> (\<lambda>j. j div c) ` {0..m}"
  then obtain j where "v = j div c" "0 \<le> j" "j \<le> m" by auto
  then show "v \<in> {0..m div c}" using assms(1) by (simp add: pos_imp_zdiv_nonneg_iff zdiv_mono1)
next
  fix v assume "v \<in> {0..m div c}"
  then have v: "0 \<le> v" "v \<le> m div c" by simp_all
  have "v * c \<le> m div c * c" using v(2) assms(1) by (intro mult_right_mono) simp_all
  also have "\<dots> \<le> m" using div_mult_mod_eq [of m c] pos_mod_sign [OF assms(1), of m] by linarith
  finally have "v * c \<in> {0..m}" using v(1) assms(1) by simp
  moreover have "v = v * c div c" using assms(1) by simp
  ultimately show "v \<in> (\<lambda>j. j div c) ` {0..m}" by blast
qed

lemma sorted_quotients: "0 < c \<Longrightarrow> sorted (map (\<lambda>j::int. j div c) [a..b])"
  by (auto simp: sorted_map intro: sorted_wrt_mono_rel [of _ "(\<le>)"] zdiv_mono1)

lemma plan_waves:
  assumes "compute_submission_plan cc n_tasks est = Inr plan"
  shows "\<exists>q\<ge>0. sort (remdups (map wave (plan_batches plan))) = [0..q] \<and> sorted (map wave (plan_batches plan))"
  using assms
proof (rule plan_shape)
  fix per spin eff
  assume p: "0 < max_concurrent_jobs cc" "0 < total_batches plan"
    "plan_batches plan = map (batch_at n_tasks per (max_concurrent_jobs cc) eff) [0..total_batches plan - 1]"
  let ?c = "max_concurrent_jobs cc" and ?q = "(total_batches plan - 1) div max_concurrent_jobs cc"
  have waves: "map wave (plan_batches plan) = map (\<lambda>j. j div ?c) [0..total_batches plan - 1]"
    by (simp add: p(3) batch_at_wave comp_def)
  have q: "0 \<le> ?q" using p(1,2) by (simp add: pos_imp_zdiv_nonneg_iff)
  have set: "set (map wave (plan_batches plan)) = {0..?q}"
    using quotients_cover [OF p(1), of "total_batches plan - 1"] p(2) unfolding waves by simp
  have "sort (remdups (map wave (plan_batches plan))) = [0..?q]"
    by (rule sorted_distinct_set_unique) (simp_all only: set set_sort set_remdups sorted_sort distinct_sort distinct_remdups set_upto distinct_upto sorted_upto)
  moreover have "sorted (map wave (plan_batches plan))" unfolding waves using p(1) by (rule sorted_quotients)
  ultimately show ?thesis using q by blast
qed

section \<open>Every task in one array, wave after wave\<close>

text \<open>The 0-based tasks an array of the scheduler runs.\<close>

definition tasks_of :: "dispatch \<Rightarrow> int list" where
  "tasks_of d = map (\<lambda>i. task_of_index d (int i)) (expand_task_range (d_range d))"

lemma upt_upto: "map int [a..<b + 1] = [int a..int b]"
  by (intro nth_equalityI) (auto simp: nth_upto simp del: upt_Suc)

lemma tasks_of_pair: "d_range d = dec a @ ''-'' @ dec b \<Longrightarrow>
    tasks_of d = map (\<lambda>t. t + (case d_offset d of None \<Rightarrow> 0 | Some k \<Rightarrow> k)) [int a - 1..int b - 1]"
proof -
  assume r: "d_range d = dec a @ ''-'' @ dec b"
  have "tasks_of d = map (task_of_index d) (map int [a..<b + 1])"
    unfolding tasks_of_def r using expand_pair [of a b] by (simp del: upt_Suc)
  also have "\<dots> = map (\<lambda>t. t + (case d_offset d of None \<Rightarrow> 0 | Some k \<Rightarrow> k)) (map (\<lambda>t. t + - 1) [int a..int b])"
    unfolding upt_upto by (simp add: task_of_index_def [abs_def])
  finally show ?thesis unfolding shift_upto by simp
qed

lemma landed_dispatch: "landed_as global gate_ids l b \<Longrightarrow> \<exists>after. l_dispatch l = dispatch_of global gate_ids after b"
  unfolding landed_as_def by blast

lemma dec_1: "''1-'' = dec 1 @ ''-''"
  by code_simp

lemma landed_tasks:
  assumes "landed_as global gate_ids l b" "1 \<le> task_start b" "array_size b = task_end b - task_start b + 1" "task_start b \<le> task_end b"
  shows "tasks_of (l_dispatch l) = [task_start b - 1..task_end b - 1]"
proof -
  obtain after where d: "l_dispatch l = dispatch_of global gate_ids after b" using landed_dispatch [OF assms(1)] by blast
  show ?thesis
  proof (cases global)
    case True
    then have "d_range (l_dispatch l) = dec (nat (task_start b)) @ ''-'' @ dec (nat (task_end b))" "d_offset (l_dispatch l) = None"
      by (simp_all add: d dispatch_of_def batch_task_range_def)
    then show ?thesis using assms(2,4) by (simp add: tasks_of_pair)
  next
    case False
    then have "d_range (l_dispatch l) = dec 1 @ ''-'' @ dec (nat (array_size b))"
      "(case d_offset (l_dispatch l) of None \<Rightarrow> 0 | Some k \<Rightarrow> k) = task_start b - 1"
      using assms(2) dec_1 by (simp_all add: d dispatch_of_def Let_def)
    then show ?thesis using assms(2,3,4) by (simp add: tasks_of_pair shift_upto)
  qed
qed

lemma plan_landed:
  assumes "compute_submission_plan cc n_tasks est = Inr plan" "submit_plan sched global gate_ids plan = Inr subs"
  shows "list_all2 (landed_as global gate_ids) subs (plan_batches plan) \<and> chained subs"
proof -
  obtain q where q: "sort (remdups (map wave (plan_batches plan))) = [0..q]" "sorted (map wave (plan_batches plan))"
    using plan_waves [OF assms(1)] by blast
  have "submit_waves sched global gate_ids (plan_batches plan) [0..q] [] [] = Inr subs"
    using assms(2) by (simp add: submit_plan_def q(1))
  from submit_waves_landed [OF this]
  have "chained subs" "list_all2 (landed_as global gate_ids) subs (concat (map (\<lambda>w. filter (\<lambda>b. wave b = w) (plan_batches plan)) [0..q]))"
    by (auto simp: chained_def)
  moreover have "concat (map (\<lambda>w. filter (\<lambda>b. wave b = w) (plan_batches plan)) [0..q]) = plan_batches plan"
  proof (rule group_sorted [OF q(2)])
    have "set (map wave (plan_batches plan)) = set [0..q]" by (metis q(1) set_remdups set_sort)
    then show "wave ` set (plan_batches plan) \<subseteq> set [0..q]" by simp
  qed simp_all
  ultimately show ?thesis by simp
qed

lemma concat_list_all2:
  "list_all2 P xs ys \<Longrightarrow> (\<And>x y. P x y \<Longrightarrow> y \<in> set ys \<Longrightarrow> f x = g y) \<Longrightarrow> concat (map f xs) = concat (map g ys)"
  by (induction rule: list_all2_induct) auto

text \<open>C29: (a plan on the scheduler runs every task once, in chained waves) When every array of a plan is accepted,
  the arrays, each with its own index range and offset, run exactly the run's tasks, in order and each
  once, on families with global and with local array indices alike; every array waits for the gate, and
  for exactly the arrays of the wave before its own.\<close>

theorem waves_chain_and_cover:
  assumes "compute_submission_plan cc n_tasks est = Inr plan" "submit_plan sched global gate_ids plan = Inr subs"
  shows "concat (map (\<lambda>l. map (\<lambda>i. task_of_index (l_dispatch l) (int i)) (expand_task_range (d_range (l_dispatch l)))) subs)
           = [0..n_tasks - 1]
    \<and> (\<forall>l\<in>set subs. d_afterok (l_dispatch l) = gate_ids
         \<and> d_afterany (l_dispatch l) = map l_job (filter (\<lambda>k. l_wave k = l_wave l - 1) subs))"
proof -
  note pl = plan_landed [OF assms]
  have "concat (map (\<lambda>l. tasks_of (l_dispatch l)) subs) = concat (map (\<lambda>b. [task_start b - 1..task_end b - 1]) (plan_batches plan))"
    by (rule concat_list_all2 [OF conjunct1 [OF pl]]) (use batch_range [OF assms(1)] in \<open>auto intro!: landed_tasks\<close>)
  also have "\<dots> = [0..n_tasks - 1]"
    unfolding shift_tasks batches_tile [OF assms(1)] using shift_upto [of "-1" 1 n_tasks] by simp
  finally have cover: "concat (map (\<lambda>l. tasks_of (l_dispatch l)) subs) = [0..n_tasks - 1]" .
  have gate: "d_afterok (l_dispatch l) = gate_ids" if "l \<in> set subs" for l
    using list_all2_in_set1 [OF conjunct1 [OF pl] that] landed_dispatch by (fastforce simp: dispatch_of_def Let_def)
  show ?thesis using cover gate conjunct2 [OF pl] by (simp add: tasks_of_def chained_def)
qed

section \<open>Cancelling some tasks\<close>

lemma parse_digits_all:
  "\<forall>c\<in>set t. digit c \<Longrightarrow> after \<or> t \<noteq> [] \<Longrightarrow>
     parse_digits (int a) after t = Some (int (foldl (\<lambda>a c. 10 * a + (of_char c - 48)) a t))"
proof (induction t arbitrary: a after)
  case (Cons c t)
  then have "digit_val c = Some (int (of_char c - 48 :: nat))" by (simp add: digit_val_def digit_def Let_def)
  then show ?case using Cons.IH [of True "10 * a + (of_char c - 48)"] Cons.prems by simp
qed simp

lemma int_of_dec [simp]: "py_int_of_text (dec n) = Some (int n)"
proof -
  have d: "\<forall>c\<in>set (dec n). digit c" using dec_digits by blast
  obtain c t where ct: "dec n = c # t" by (cases "dec n") auto
  then have "c \<noteq> CHR ''-''" "c \<noteq> CHR ''+''" using d by (auto simp: digit_def)
  moreover have "parse_digits 0 False (c # t) = Some (int (undec (c # t)))"
    using parse_digits_all [of "c # t" False 0] d unfolding ct undec_def by simp
  moreover have "py_strip (c # t) = c # t" using dec_no_space [of n] ct by simp
  ultimately show ?thesis unfolding py_int_of_text_def ct using undec_dec [of n] ct by (simp del: parse_digits.simps)
qed

lemma window_of_batch:
  assumes "1 \<le> task_start b" "task_start b \<le> task_end b"
  shows "parse_window (batch_task_range b) = Some (task_start b - 1, task_end b - 1)"
proof -
  have d: "\<forall>c\<in>set (dec (nat (task_start b))). c \<noteq> CHR ''-''" using dec_digits not_digits(2) by metis
  have "takeWhile (\<lambda>c. c \<noteq> CHR ''-'') (batch_task_range b) = dec (nat (task_start b))"
    "dropWhile (\<lambda>c. c \<noteq> CHR ''-'') (batch_task_range b) = CHR ''-'' # dec (nat (task_end b))"
    using d by (simp_all add: batch_task_range_def)
  then show ?thesis using assms by (simp add: parse_window_def Let_def)
qed

lemma spans_of_landed:
  "distinct (map l_job subs) \<Longrightarrow> \<forall>l\<in>set subs. parse_window (l_range l) = Some (w l) \<Longrightarrow>
     foldl (\<lambda>m l. case parse_window (l_range l) of None \<Rightarrow> m | Some w \<Rightarrow> AList.update (l_job l) w m) [] subs
       = map (\<lambda>l. (l_job l, w l)) subs"
proof (induction subs rule: rev_induct)
  case (snoc l subs)
  then have "l_job l \<notin> fst ` set (map (\<lambda>l. (l_job l, w l)) subs)" by force
  with snoc show ?case by (simp add: update_fresh)
qed simp

text \<open>The windows of a waved run: where they lie, and what an array does with an index.\<close>

definition windows :: "landed list \<Rightarrow> (landed \<Rightarrow> int) \<Rightarrow> (landed \<Rightarrow> int) \<Rightarrow> int \<Rightarrow> bool" where
  "windows subs lo hi n_tasks \<longleftrightarrow>
     distinct (map l_job subs)
   \<and> (\<forall>l\<in>set subs. 0 \<le> lo l \<and> (\<forall>i. task_of_index (l_dispatch l) i = i - 1 + lo l)
        \<and> expand_task_range (d_range (l_dispatch l)) = [1..<nat (hi l - lo l + 1) + 1])
   \<and> (\<forall>t. 0 \<le> t \<and> t < n_tasks \<longrightarrow> (\<exists>l\<in>set subs. lo l \<le> t \<and> t \<le> hi l))"

lemma window_array:
  assumes "landed_as False gate_ids l b" "1 \<le> task_start b" "task_start b \<le> task_end b" "array_size b = task_end b - task_start b + 1"
  shows "parse_window (l_range l) = Some (task_start b - 1, task_end b - 1)
    \<and> (\<forall>i. task_of_index (l_dispatch l) i = i - 1 + (task_start b - 1))
    \<and> expand_task_range (d_range (l_dispatch l)) = [1..<nat (task_end b - 1 - (task_start b - 1) + 1) + 1]"
proof -
  obtain after where d: "l_dispatch l = dispatch_of False gate_ids after b" using landed_dispatch [OF assms(1)] by blast
  have "l_range l = batch_task_range b" using assms(1) by (simp add: landed_as_def)
  moreover have "task_of_index (l_dispatch l) i = i - 1 + (task_start b - 1)" for i
    using assms(2) by (simp add: d dispatch_of_def Let_def task_of_index_def)
  moreover have "expand_task_range (d_range (l_dispatch l)) = [1..<nat (array_size b) + 1]"
    using expand_pair [of 1 "nat (array_size b)"] by (simp add: d dispatch_of_def Let_def dec_1)
  ultimately show ?thesis using window_of_batch [OF assms(2,3)] assms(4) by simp
qed

lemma plan_windows:
  assumes "compute_submission_plan cc n_tasks est = Inr plan" "submit_plan sched False gate_ids plan = Inr subs"
    "distinct (map l_job subs)" "job_task_spans False subs = Some spans"
  shows "\<exists>lo hi. windows subs lo hi n_tasks \<and> spans = map (\<lambda>l. (l_job l, lo l, hi l)) subs"
proof -
  let ?lo = "\<lambda>l. fst (the (parse_window (l_range l)))" and ?hi = "\<lambda>l. snd (the (parse_window (l_range l)))"
  have pl: "list_all2 (landed_as False gate_ids) subs (plan_batches plan)" using plan_landed [OF assms(1,2)] by simp
  have win: "\<exists>b. b \<in> set (plan_batches plan) \<and> parse_window (l_range l) = Some (task_start b - 1, task_end b - 1) \<and> 1 \<le> task_start b
      \<and> (\<forall>i. task_of_index (l_dispatch l) i = i - 1 + (task_start b - 1))
      \<and> expand_task_range (d_range (l_dispatch l)) = [1..<nat (task_end b - 1 - (task_start b - 1) + 1) + 1]" if l: "l \<in> set subs" for l
  proof -
    obtain b where b: "b \<in> set (plan_batches plan)" "landed_as False gate_ids l b" using list_all2_in_set1 [OF pl l] by blast
    with window_array [OF b(2)] batch_range [OF assms(1) b(1)] show ?thesis by blast
  qed
  have "\<exists>l\<in>set subs. ?lo l \<le> t \<and> t \<le> ?hi l" if "0 \<le> t" "t < n_tasks" for t
  proof -
    have "t + 1 \<in> set (concat (map (\<lambda>b. [task_start b..task_end b]) (plan_batches plan)))"
      unfolding batches_tile [OF assms(1)] using that by simp
    then obtain b where b: "b \<in> set (plan_batches plan)" "task_start b \<le> t + 1" "t + 1 \<le> task_end b" by auto
    then obtain k where k: "k < length (plan_batches plan)" "plan_batches plan ! k = b" by (auto simp: in_set_conv_nth)
    then have l: "landed_as False gate_ids (subs ! k) b" "subs ! k \<in> set subs"
      using pl by (auto simp: list_all2_conv_all_nth)
    have "parse_window (l_range (subs ! k)) = Some (task_start b - 1, task_end b - 1)"
      using window_array [OF l(1)] batch_range [OF assms(1) b(1)] by blast
    with l(2) b(2,3) show ?thesis by (intro bexI [OF _ l(2)]) simp
  qed
  moreover have "0 \<le> ?lo l \<and> (\<forall>i. task_of_index (l_dispatch l) i = i - 1 + ?lo l)
      \<and> expand_task_range (d_range (l_dispatch l)) = [1..<nat (?hi l - ?lo l + 1) + 1]" if "l \<in> set subs" for l
    using win [OF that] by auto
  ultimately have "windows subs ?lo ?hi n_tasks" using assms(3) by (auto simp: windows_def)
  moreover have "spans = map (\<lambda>l. (l_job l, the (parse_window (l_range l)))) subs"
  proof -
    have "\<forall>l\<in>set subs. parse_window (l_range l) = Some (the (parse_window (l_range l)))" using win by force
    from spans_of_landed [OF assms(3) this] show ?thesis
      using assms(4) by (simp add: job_task_spans_def Let_def split: if_splits)
  qed
  ultimately show ?thesis by (intro exI [of _ ?lo] exI [of _ ?hi]) simp
qed

lemma map_of_push:
  "map_of (push e m) j =
     (if j = fst e then Some ((case map_of m j of None \<Rightarrow> [] | Some xs \<Rightarrow> xs) @ [snd e]) else map_of m j)"
  by (simp add: push_def update_conv')

lemma map_of_pushes:
  "map_of (foldl (\<lambda>m e. push e m) [] es) j =
     (let xs = map snd (filter (\<lambda>e. fst e = j) es) in if xs = [] then None else Some xs)"
proof (induction es rule: rev_induct)
  case (snoc e es)
  show ?case
  proof (cases "j = fst e")
    case True
    then show ?thesis using snoc unfolding foldl_append foldl.simps map_of_push Let_def by (simp split: if_splits)
  next
    case False
    then show ?thesis using snoc unfolding foldl_append foldl.simps map_of_push Let_def by simp
  qed
qed (simp add: Let_def)

lemma cancels_reads:
  "(j, e) \<in> set (cancels_of job_ids (foldl (\<lambda>m e. push e m) [] es)) \<longleftrightarrow>
     j \<in> set job_ids \<and> (\<exists>x. (j, x) \<in> set es) \<and>
     compact_task_ids (sort (remdups (map nat (map snd (filter (\<lambda>e. fst e = j) es))))) = Some e"
  by (force simp: cancels_of_def map_filter_def map_of_pushes Let_def filter_empty_conv split: if_splits)

lemma cancelled_indices:
  assumes "(j, x) \<in> set es"
  shows "\<exists>e is. compact_task_ids (sort (remdups (map nat (map snd (filter (\<lambda>e. fst e = j) es))))) = Some e
     \<and> range_indices e = Inr is \<and> set is = {nat x | x. (j, x) \<in> set es}"
proof -
  define ids where "ids = sort (remdups (map nat (map snd (filter (\<lambda>e. fst e = j) es))))"
  have set: "set ids = {nat x | x. (j, x) \<in> set es}" unfolding ids_def by force
  have "nat x \<in> set ids" unfolding set using assms by blast
  then have "ids \<noteq> []" by auto
  then obtain e where "compact_task_ids ids = Some e" "range_indices e = Inr (sort ids)" using compact_reads_back by blast
  with set show ?thesis unfolding ids_def [symmetric] by (intro exI [of _ e] exI [of _ "sort ids"]) simp
qed

lemma find_append: "find P xs = Some x \<Longrightarrow> find P (xs @ ys) = Some x"
  by (induction xs) auto

lemma find_mapped: "find P (map f xs) = Some y \<Longrightarrow> \<exists>x\<in>set xs. y = f x \<and> P y"
  by (induction xs) (auto split: if_splits)

lemma route_window:
  assumes "windows subs lo hi n_tasks" "1 \<le> int g" "int g \<le> n_tasks"
  shows "\<exists>l\<in>set subs. lo l \<le> int g - 1 \<and> int g - 1 \<le> hi l
     \<and> route_index (map l_job subs) (map (\<lambda>l. (l_job l, lo l, hi l)) subs) g = [(l_job l, int g - lo l)]
     \<and> route_index (map l_job subs @ extra) (map (\<lambda>l. (l_job l, lo l, hi l)) subs) g = [(l_job l, int g - lo l)]"
proof -
  define spans where "spans = map (\<lambda>l. (l_job l, lo l, hi l)) subs"
  have span: "map_of spans (l_job l) = Some (lo l, hi l)" if "l \<in> set subs" for l
    using assms(1) that by (intro map_of_is_SomeI) (auto simp: windows_def comp_def spans_def)
  define P where "P j = (case map_of spans j of None \<Rightarrow> False | Some (lo, hi) \<Rightarrow> lo \<le> int g - 1 \<and> int g - 1 \<le> hi)" for j
  obtain l where l: "l \<in> set subs" "lo l \<le> int g - 1" "int g - 1 \<le> hi l"
    using assms by (auto simp: windows_def dest!: spec [of _ "int g - 1"])
  then have "P (l_job l)" by (simp add: P_def span)
  then have "find P (map l_job subs) \<noteq> None" using l(1) by (auto simp: find_None_iff)
  then obtain j where j: "find P (map l_job subs) = Some j" by blast
  obtain k where k: "k \<in> set subs" "j = l_job k" "P j" using find_mapped [OF j] by blast
  have "lo k \<le> int g - 1 \<and> int g - 1 \<le> hi k" using k span [OF k(1)] by (simp add: P_def)
  moreover have "route_index (map l_job subs) spans g = [(l_job k, int g - lo k)]"
    using j k(2) span [OF k(1)] by (simp add: route_index_def Let_def P_def [abs_def])
  moreover have "route_index (map l_job subs @ extra) spans g = [(l_job k, int g - lo k)]"
    using find_append [OF j] k(2) span [OF k(1)] by (simp add: route_index_def Let_def P_def [abs_def])
  ultimately show ?thesis using k(1) unfolding spans_def by blast
qed

text \<open>A ranged cancel reaches exactly the tasks named. For a run laid out as waves of local arrays with windows
  recorded for them, cancelling some task indices issues, per array, an expression of indices inside that
  array, and the tasks those indices run are exactly the tasks named.\<close>

lemma ranged_cancel_is_exact:
  assumes "compute_submission_plan cc n_tasks est = Inr plan" "submit_plan sched False gate_ids plan = Inr subs"
    "distinct (map l_job subs)" "job_task_spans False subs = Some spans"
    "range_indices r = Inr idx" "\<forall>g\<in>set idx. 1 \<le> int g \<and> int g \<le> n_tasks"
  shows "\<exists>cancels. range_cancels (map l_job subs) r spans = Inr cancels
    \<and> {task_of_index (l_dispatch l) (int i) | l e is i.
         l \<in> set subs \<and> (l_job l, e) \<in> set cancels \<and> range_indices e = Inr is \<and> i \<in> set is} = {int g - 1 | g. g \<in> set idx}
    \<and> (\<forall>l\<in>set subs. \<forall>e is. (l_job l, e) \<in> set cancels \<and> range_indices e = Inr is
         \<longrightarrow> set is \<subseteq> set (expand_task_range (d_range (l_dispatch l))))"
proof -
  obtain lo hi where w: "windows subs lo hi n_tasks" and spans: "spans = map (\<lambda>l. (l_job l, lo l, hi l)) subs"
    using plan_windows [OF assms(1-4)] by blast
  define es where "es = concat (map (route_index (map l_job subs) spans) idx)"
  have route: "\<exists>l\<in>set subs. lo l \<le> int g - 1 \<and> int g - 1 \<le> hi l \<and> route_index (map l_job subs) spans g = [(l_job l, int g - lo l)]"
    if "g \<in> set idx" for g
    using route_window [OF w, of g "[]"] assms(6) that by (auto simp: spans)
  have es: "(l_job l, x) \<in> set es \<longleftrightarrow> (\<exists>g\<in>set idx. lo l \<le> int g - 1 \<and> int g - 1 \<le> hi l \<and> x = int g - lo l
      \<and> route_index (map l_job subs) spans g = [(l_job l, x)])" (is "_ = ?R") if l: "l \<in> set subs" for l x
  proof
    assume "(l_job l, x) \<in> set es"
    then obtain g where g: "g \<in> set idx" "(l_job l, x) \<in> set (route_index (map l_job subs) spans g)" by (auto simp: es_def)
    with route [OF g(1)] obtain k where k: "k \<in> set subs" "lo k \<le> int g - 1" "int g - 1 \<le> hi k"
      "route_index (map l_job subs) spans g = [(l_job k, int g - lo k)]" by blast
    with g(2) have "l_job l = l_job k" by simp
    then have "l = k" using l k(1) w by (auto simp: windows_def distinct_map dest: inj_onD)
    with g k show ?R by auto
  next
    assume ?R
    then obtain g where "g \<in> set idx" "route_index (map l_job subs) spans g = [(l_job l, x)]" by blast
    then show "(l_job l, x) \<in> set es" unfolding es_def by force
  qed
  define cancels where "cancels = cancels_of (map l_job subs) (foldl (\<lambda>m e. push e m) [] es)"
  have rc: "range_cancels (map l_job subs) r spans = Inr cancels"
    by (simp add: range_cancels_def assms(5) cancels_def es_def)
  have idxs: "set is = {nat x | x. (j, x) \<in> set es}" if "(j, e) \<in> set cancels" "range_indices e = Inr is" for j e "is"
    using that cancelled_indices [of j _ es] unfolding cancels_def cancels_reads by force
  have into: "t \<in> {int g - 1 | g. g \<in> set idx}" if u: "l \<in> set subs" "(l_job l, e) \<in> set cancels" "range_indices e = Inr is" "i \<in> set is"
    "t = task_of_index (l_dispatch l) (int i)" for t l e "is" i
  proof -
    obtain x where x: "i = nat x" "(l_job l, x) \<in> set es" using idxs [OF u(2,3)] u(4) by blast
    then obtain g where g: "g \<in> set idx" "lo l \<le> int g - 1" "x = int g - lo l" using es [OF u(1)] by blast
    then have "t = int g - 1" using u(1,5) x(1) w by (simp add: windows_def)
    with g(1) show ?thesis by blast
  qed
  have onto: "\<exists>l e is i. t = task_of_index (l_dispatch l) (int i) \<and> l \<in> set subs \<and> (l_job l, e) \<in> set cancels
      \<and> range_indices e = Inr is \<and> i \<in> set is" if v: "t = int g - 1" "g \<in> set idx" for t g
  proof -
    obtain l where l: "l \<in> set subs" "lo l \<le> int g - 1" "route_index (map l_job subs) spans g = [(l_job l, int g - lo l)]"
      using route [OF v(2)] by blast
    then have e: "(l_job l, int g - lo l) \<in> set es" using v(2) unfolding es_def by force
    obtain e "is" where c: "(l_job l, e) \<in> set cancels" "range_indices e = Inr is" "set is = {nat x | x. (l_job l, x) \<in> set es}"
      using cancelled_indices [OF e] e l(1) unfolding cancels_def cancels_reads by force
    have "t = task_of_index (l_dispatch l) (int (nat (int g - lo l)))" using w l(1,2) v(1) by (simp add: windows_def)
    moreover have "nat (int g - lo l) \<in> set is" using c(3) e by blast
    ultimately show ?thesis using l(1) c(1,2) by blast
  qed
  have inside: "set is \<subseteq> set (expand_task_range (d_range (l_dispatch l)))"
    if l: "l \<in> set subs" "(l_job l, e) \<in> set cancels" "range_indices e = Inr is" for l e "is"
  proof
    fix i assume "i \<in> set is"
    then obtain x where x: "i = nat x" "(l_job l, x) \<in> set es" using idxs [OF l(2,3)] by blast
    then obtain g where "lo l \<le> int g - 1" "int g - 1 \<le> hi l" "x = int g - lo l" using es [OF l(1)] by blast
    moreover have "expand_task_range (d_range (l_dispatch l)) = [1..<nat (hi l - lo l + 1) + 1]" using w l(1) by (simp add: windows_def)
    ultimately show "i \<in> set (expand_task_range (d_range (l_dispatch l)))" using x(1) by (simp add: nat_less_iff) linarith
  qed
  have "{task_of_index (l_dispatch l) (int i) | l e is i.
         l \<in> set subs \<and> (l_job l, e) \<in> set cancels \<and> range_indices e = Inr is \<and> i \<in> set is} = {int g - 1 | g. g \<in> set idx}"
    (is "?L = ?R")
  proof
    show "?L \<subseteq> ?R" using into by blast
    show "?R \<subseteq> ?L"
    proof
      fix t assume "t \<in> ?R"
      then obtain g where "t = int g - 1" "g \<in> set idx" by blast
      from onto [OF this] show "t \<in> ?L" by (rule mem_Collect_eq [THEN iffD2])
    qed
  qed
  moreover have "\<forall>l\<in>set subs. \<forall>e is. (l_job l, e) \<in> set cancels \<and> range_indices e = Inr is
      \<longrightarrow> set is \<subseteq> set (expand_task_range (d_range (l_dispatch l)))"
    by (intro ballI allI impI) (elim conjE, rule inside)
  ultimately show ?thesis using rc by (intro exI [of _ cancels] conjI)
qed

text \<open>A resubmitted task escapes a ranged cancel. Once a resubmission has added arrays to the run that no
  recorded window covers, a ranged cancel of any tasks issues exactly the commands it issued before:
  the live resubmitted arrays receive none, since every index still falls into the window of the wave
  array that ran the task first.\<close>

lemma resubmitted_task_escapes_range_kill:
  assumes "compute_submission_plan cc n_tasks est = Inr plan" "submit_plan sched False gate_ids plan = Inr subs"
    "distinct (map l_job subs)" "job_task_spans False subs = Some spans"
    "range_indices r = Inr idx" "\<forall>g\<in>set idx. 1 \<le> int g \<and> int g \<le> n_tasks" "set extra \<inter> set (map l_job subs) = {}"
  shows "range_cancels (map l_job subs @ extra) r spans = range_cancels (map l_job subs) r spans"
proof -
  obtain lo hi where w: "windows subs lo hi n_tasks" and spans: "spans = map (\<lambda>l. (l_job l, lo l, hi l)) subs"
    using plan_windows [OF assms(1-4)] by blast
  have same: "map (route_index (map l_job subs @ extra) spans) idx = map (route_index (map l_job subs) spans) idx"
    using route_window [OF w, of _ extra] assms(6) by (intro map_cong refl) (force simp: spans)
  define es where "es = concat (map (route_index (map l_job subs) spans) idx)"
  have "fst e \<in> set (map l_job subs)" if "e \<in> set es" for e
    using route_window [OF w] assms(6) that by (fastforce simp: es_def spans)
  then have "filter (\<lambda>e. fst e = j) es = []" if "j \<in> set extra" for j
    using that assms(7) by (auto simp: filter_empty_conv)
  then have "cancels_of extra (foldl (\<lambda>m e. push e m) [] es) = []"
    by (auto simp: cancels_of_def map_filter_def map_of_pushes filter_empty_conv Let_def)
  then have "cancels_of (map l_job subs @ extra) (foldl (\<lambda>m e. push e m) [] es) = cancels_of (map l_job subs) (foldl (\<lambda>m e. push e m) [] es)"
    by (simp add: cancels_of_def map_filter_def)
  then show ?thesis unfolding range_cancels_def assms(5) sum.case same es_def [symmetric] by simp
qed

section \<open>Checked instances\<close>

definition numbering :: scheduler where
  "numbering k d = Some (''job'' @ dec k)"

lemma small_run:
  "\<exists>plan subs spans. compute_submission_plan small_cluster 10 (Some 60) = Inr plan
     \<and> submit_plan numbering False [''gate''] plan = Inr subs
     \<and> distinct (map l_job subs) \<and> job_task_spans False subs = Some spans \<and> map l_job subs = [''job0'', ''job1'', ''job2'']"
proof -
  have "case compute_submission_plan small_cluster 10 (Some 60) of Inl err \<Rightarrow> False
      | Inr plan \<Rightarrow> (case submit_plan numbering False [''gate''] plan of Inl err \<Rightarrow> False
          | Inr subs \<Rightarrow> map l_job subs = [''job0'', ''job1'', ''job2''] \<and> job_task_spans False subs \<noteq> None)"
    by code_simp
  then obtain plan subs where p: "compute_submission_plan small_cluster 10 (Some 60) = Inr plan"
    "submit_plan numbering False [''gate''] plan = Inr subs" "map l_job subs = [''job0'', ''job1'', ''job2'']"
    "job_task_spans False subs \<noteq> None"
    by (auto split: sum.splits simp del: map_eq_Cons_conv)
  obtain spans where spans: "job_task_spans False subs = Some spans" using p(4) by blast
  have distinct: "distinct (map l_job subs)" unfolding p(3) by simp
  show ?thesis by (intro exI conjI) (rule p(1), rule p(2), rule distinct, rule spans, rule p(3))
qed

lemma three_tasks: "range_indices ''3,6-7'' = Inr [3, 6, 7]"
  by code_simp

theorem waves_chain_and_cover_witness:
  "\<exists>plan subs. compute_submission_plan small_cluster 10 (Some 60) = Inr plan \<and> submit_plan numbering False [''gate''] plan = Inr subs
     \<and> concat (map (\<lambda>l. map (\<lambda>i. task_of_index (l_dispatch l) (int i)) (expand_task_range (d_range (l_dispatch l)))) subs) = [0..9]"
proof -
  obtain plan subs where p: "compute_submission_plan small_cluster 10 (Some 60) = Inr plan" "submit_plan numbering False [''gate''] plan = Inr subs"
    using small_run by (elim exE conjE)
  from waves_chain_and_cover [OF p] have
    "concat (map (\<lambda>l. map (\<lambda>i. task_of_index (l_dispatch l) (int i)) (expand_task_range (d_range (l_dispatch l)))) subs) = [0..9]"
    by simp
  with p show ?thesis by blast
qed

lemma ranged_cancel_is_exact_witness:
  "\<exists>plan subs spans. compute_submission_plan small_cluster 10 (Some 60) = Inr plan
     \<and> submit_plan numbering False [''gate''] plan = Inr subs \<and> job_task_spans False subs = Some spans
     \<and> (\<exists>cancels. range_cancels (map l_job subs) ''3,6-7'' spans = Inr cancels
        \<and> {task_of_index (l_dispatch l) (int i) | l e is i.
             l \<in> set subs \<and> (l_job l, e) \<in> set cancels \<and> range_indices e = Inr is \<and> i \<in> set is} = {2, 5, 6})"
proof -
  obtain plan subs spans where p: "compute_submission_plan small_cluster 10 (Some 60) = Inr plan"
    "submit_plan numbering False [''gate''] plan = Inr subs" "distinct (map l_job subs)" "job_task_spans False subs = Some spans"
    using small_run by (elim exE conjE)
  have r: "\<forall>g\<in>set [3, 6, 7::nat]. 1 \<le> int g \<and> int g \<le> 10" by simp
  have t: "{int g - 1 | g. g \<in> set [3, 6, 7::nat]} = {2, 5, 6}" by auto
  obtain cancels where c: "range_cancels (map l_job subs) ''3,6-7'' spans = Inr cancels"
    "{task_of_index (l_dispatch l) (int i) | l e is i.
       l \<in> set subs \<and> (l_job l, e) \<in> set cancels \<and> range_indices e = Inr is \<and> i \<in> set is} = {2, 5, 6}"
    using ranged_cancel_is_exact [OF p three_tasks r, unfolded t] by (elim exE conjE)
  show ?thesis by (intro exI conjI) (rule p(1), rule p(2), rule p(4), rule c(1), rule c(2))
qed

lemma resubmitted_task_escapes_range_kill_witness:
  "\<exists>plan subs spans. compute_submission_plan small_cluster 10 (Some 60) = Inr plan
     \<and> submit_plan numbering False [''gate''] plan = Inr subs \<and> job_task_spans False subs = Some spans
     \<and> range_cancels (map l_job subs @ [''again'']) ''3,6-7'' spans = range_cancels (map l_job subs) ''3,6-7'' spans"
proof -
  obtain plan subs spans where p: "compute_submission_plan small_cluster 10 (Some 60) = Inr plan"
    "submit_plan numbering False [''gate''] plan = Inr subs" "distinct (map l_job subs)" "job_task_spans False subs = Some spans"
    and j: "map l_job subs = [''job0'', ''job1'', ''job2'']"
    using small_run by (elim exE conjE)
  have "\<forall>g\<in>set [3, 6, 7::nat]. 1 \<le> int g \<and> int g \<le> 10" "set [''again''] \<inter> set (map l_job subs) = {}" by (simp_all add: j)
  from resubmitted_task_escapes_range_kill [OF p three_tasks this] p show ?thesis by blast
qed

end
