(* ===== verification/Resubmission.thy ===== *)
theory Resubmission
  imports ArrayPlanLaws
begin

text \<open>
  Putting failed tasks back on the cluster (\<open>ops/recover_flow.py\<close>, \<open>ops/recover/runner.py\<close>): the resource
  flags, the batches and how each scheduler family takes them (\<open>infra/backends/_engine.py\<close>), the resume
  marker and the journal bookkeeping. The scheduler answers by the number of submissions attempted so far;
  the digest of a request is a parameter.
\<close>

section \<open>Scheduler families and resource flags\<close>

datatype family = Slurm | Torque | Sge | PbsPro

definition FAMILY_DIALECTS :: "(family \<times> bool) list" where
  "FAMILY_DIALECTS = [(Slurm, True), (Torque, True), (Sge, False), (PbsPro, False)]"

definition supports_comma_array_ranges :: "family \<Rightarrow> bool" where
  "supports_comma_array_ranges f = (case map_of FAMILY_DIALECTS f of None \<Rightarrow> False | Some b \<Rightarrow> b)"

text \<open>The per-slot memory of a task, with the site's headroom factor.\<close>

definition sge_h_data_mb :: "rat \<Rightarrow> int \<Rightarrow> int option \<Rightarrow> int" where
  "sge_h_data_mb vmem_factor mem_mb slots =
     (let n = (case slots of None \<Rightarrow> 1 | Some s \<Rightarrow> if s = 0 then 1 else max 1 s)
      in max 1 \<lceil>of_int mem_mb * vmem_factor / of_int n\<rceil>)"

text \<open>\<open>isinstance(v, int) and v > 0\<close>: the value and how an f-string shows it.\<close>

definition positive :: "jval \<Rightarrow> int option" where
  "positive v = (case if_int v of Some n \<Rightarrow> if n > 0 then Some n else None | None \<Rightarrow> None)"

definition shown :: "jval \<Rightarrow> string" where
  "shown v = (case v of JBool b \<Rightarrow> (if b then ''True'' else ''False'') | JInt n \<Rightarrow> dec (nat n) | _ \<Rightarrow> [])"

definition when_positive :: "jval \<Rightarrow> (string \<Rightarrow> string list) \<Rightarrow> string list" where
  "when_positive v f = (case positive v of None \<Rightarrow> [] | Some _ \<Rightarrow> f (shown v))"

definition walltime_text :: "jval \<Rightarrow> string" where
  "walltime_text v = walltime_hms (case positive v of None \<Rightarrow> 0 | Some n \<Rightarrow> n)"

datatype resubmit_error =
    EmptyFailedTaskIds
  | BadCategory string
  | AllPreempted nat
  | NoRunRecord
  | UnknownScheduler string
  | PlanRefused plan_error
  | BeyondArrayCap "int list" int
  | SubmissionFailed "string option"

definition render_overrides_to_extra_flags ::
  "rat \<Rightarrow> string \<Rightarrow> (string \<times> jval) list \<Rightarrow> resubmit_error + string list" where
  "render_overrides_to_extra_flags vmem_factor scheduler overrides =
     (if overrides = [] then Inr []
      else
        (let s = py_lower scheduler;
             mem_mb = jget overrides ''mem_mb''; walltime_sec = jget overrides ''walltime_sec'';
             gpus = jget overrides ''gpus''; cpus = jget overrides ''cpus'' in
         if s = ''slurm'' then
           Inr (when_positive mem_mb (\<lambda>t. [''--mem='' @ t @ ''M''])
                @ when_positive walltime_sec (\<lambda>_. [''--time='' @ walltime_text walltime_sec])
                @ when_positive gpus (\<lambda>t. [''--gpus='' @ t])
                @ when_positive cpus (\<lambda>t. [''--cpus-per-task='' @ t]))
         else if s = ''sge'' then
           Inr ((case positive mem_mb of
                   None \<Rightarrow> []
                 | Some m \<Rightarrow>
                     [''-l'', ''h_data='' @ dec (nat (sge_h_data_mb vmem_factor m (Some (case positive cpus of None \<Rightarrow> 1 | Some n \<Rightarrow> n)))) @ ''M''])
                @ when_positive walltime_sec (\<lambda>_. [''-l'', ''h_rt='' @ walltime_text walltime_sec])
                @ when_positive gpus (\<lambda>t. [''-l'', ''gpu='' @ t])
                @ when_positive cpus (\<lambda>t. [''-pe'', ''shared'', t]))
         else if s = ''pbspro'' then
           (let parts = when_positive cpus (\<lambda>t. [''ncpus='' @ t]) @ when_positive mem_mb (\<lambda>t. [''mem='' @ t @ ''mb''])
                          @ when_positive gpus (\<lambda>t. [''ngpus='' @ t])
            in Inr ((if parts \<noteq> [] then [''-l'', join_with (CHR '':'') (''select=1'' # parts)] else [])
                    @ when_positive walltime_sec (\<lambda>_. [''-l'', ''walltime='' @ walltime_text walltime_sec])))
         else if s = ''torque'' then
           (let nodes = when_positive cpus (\<lambda>t. [''ppn='' @ t]) @ when_positive gpus (\<lambda>t. [''gpus='' @ t]);
                parts = (if nodes \<noteq> [] then [join_with (CHR '':'') (''nodes=1'' # nodes)] else [])
                          @ when_positive mem_mb (\<lambda>t. [''mem='' @ t @ ''mb''])
                          @ when_positive walltime_sec (\<lambda>_. [''walltime='' @ walltime_text walltime_sec])
            in Inr (if parts \<noteq> [] then [''-l'', join_with (CHR '','') parts] else []))
         else Inl (UnknownScheduler scheduler)))"

section \<open>Submitting the batches\<close>

text \<open>The cluster: submissions attempted, arrays that landed, tasks with a terminal failure marker.\<close>

record landed_array =
  ar_range :: "string option"
  ar_flags :: "string list"
  ar_job :: string

record cluster_side =
  cl_attempts :: nat
  cl_arrays :: "landed_array list"
  cl_failed_markers :: "int list"

type_synonym submitter = "nat \<Rightarrow> string option \<Rightarrow> string option"

definition submit_one :: "submitter \<Rightarrow> string list \<Rightarrow> string option \<Rightarrow> cluster_side \<Rightarrow> string option \<times> cluster_side" where
  "submit_one qsub flags r cl =
     (case qsub (cl_attempts cl) r of
        None \<Rightarrow> (None, cl\<lparr>cl_attempts := cl_attempts cl + 1\<rparr>)
      | Some j \<Rightarrow>
          (Some j, cl\<lparr>cl_attempts := cl_attempts cl + 1,
                      cl_arrays := cl_arrays cl @ [\<lparr>ar_range = r, ar_flags = flags, ar_job = j\<rparr>]\<rparr>))"

fun submit_runs ::
  "submitter \<Rightarrow> string list \<Rightarrow> string list \<Rightarrow> string list \<Rightarrow> cluster_side \<Rightarrow> string list option \<times> cluster_side" where
  "submit_runs qsub flags [] job_ids cl = (Some job_ids, cl)"
| "submit_runs qsub flags (r # rs) job_ids cl =
     (case submit_one qsub flags (Some r) cl of
        (None, cl) \<Rightarrow> (None, cl)
      | (Some j, cl) \<Rightarrow> submit_runs qsub flags rs (job_ids @ [j]) cl)"

definition submit_non_contiguous ::
  "family \<Rightarrow> submitter \<Rightarrow> string list \<Rightarrow> string option \<Rightarrow> cluster_side \<Rightarrow> string list option \<times> cluster_side" where
  "submit_non_contiguous fam qsub flags task_range cl =
     (case task_range of
        Some r \<Rightarrow>
          if CHR '','' \<in> set r \<and> \<not> supports_comma_array_ranges fam
          then submit_runs qsub flags (filter (\<lambda>s. s \<noteq> []) (map py_strip (split_on (CHR '','') r))) [] cl
          else (case submit_one qsub flags task_range cl of (None, cl) \<Rightarrow> (None, cl) | (Some j, cl) \<Rightarrow> (Some [j], cl))
      | None \<Rightarrow> (case submit_one qsub flags None cl of (None, cl) \<Rightarrow> (None, cl) | (Some j, cl) \<Rightarrow> (Some [j], cl)))"

text \<open>The loop over the batches; on a failure the ids gathered before it are still reported.\<close>

fun submit_batches ::
  "family \<Rightarrow> submitter \<Rightarrow> string list \<Rightarrow> resubmit_batch list \<Rightarrow> string list \<Rightarrow> cluster_side
   \<Rightarrow> resubmit_error option \<times> string list \<times> cluster_side" where
  "submit_batches fam qsub flags [] submitted cl = (None, submitted, cl)"
| "submit_batches fam qsub flags (b # bs) submitted cl =
     (case submit_non_contiguous fam qsub flags (rb_task_range b) cl of
        (None, cl) \<Rightarrow> (Some (SubmissionFailed (rb_task_range b)), submitted, cl)
      | (Some ids, cl) \<Rightarrow> submit_batches fam qsub flags bs (submitted @ ids) cl)"

record target =
  tg_backend :: string
  tg_family :: family
  tg_global_index :: bool
  tg_vmem_factor :: rat
  tg_constraints :: "cluster_constraints option"
  tg_clears_markers :: bool

definition submit_resubmit_batches ::
  "target \<Rightarrow> submitter \<Rightarrow> int \<Rightarrow> int list \<Rightarrow> (string \<times> jval) list \<Rightarrow> nat \<Rightarrow> string list \<Rightarrow> cluster_side
   \<Rightarrow> resubmit_error option \<times> string list \<times> cluster_side" where
  "submit_resubmit_batches tg qsub n_tasks failed overrides start_batch submitted cl =
     (case resubmit_plan n_tasks failed overrides (tg_constraints tg) of
        Inl e \<Rightarrow> (Some (PlanRefused e), submitted, cl)
      | Inr plan \<Rightarrow>
          (case render_overrides_to_extra_flags (tg_vmem_factor tg) (tg_backend tg) overrides of
             Inl e \<Rightarrow> (Some e, submitted, cl)
           | Inr flags \<Rightarrow>
               (let cap = max_array_size (case tg_constraints tg of None \<Rightarrow> default_constraints | Some c \<Rightarrow> c);
                    over = sort (filter (\<lambda>t. case to_array_index t of None \<Rightarrow> False | Some i \<Rightarrow> i > cap) failed)
                in if \<not> tg_global_index tg \<and> over \<noteq> [] then (Some (BeyondArrayCap over cap), submitted, cl)
                   else submit_batches (tg_family tg) qsub flags (drop start_batch (rs_batches plan)) submitted cl)))"

section \<open>The journal's side\<close>

record retry_entry =
  rt_attempts :: int
  rt_category :: string
  rt_overrides :: "(string \<times> jval) list"

record resume_marker =
  mk_request_id :: string
  mk_failed :: "int list"
  mk_overrides :: "(string \<times> jval) list"
  mk_job_ids :: "string list"

text \<open>The fields of the run record the resubmission reads and writes.\<close>

record run_journal =
  rj_job_ids :: "string list"
  rj_total_tasks :: int
  rj_retries :: "(string \<times> retry_entry) list"
  rj_last_request :: string
  rj_recent_requests :: "string list"
  rj_pending :: "resume_marker option"
  rj_combined_waves :: "int list"
  rj_failed_waves :: "int list"

record resubmit_spec =
  sp_failed_task_ids :: "int list"
  sp_category :: string
  sp_overrides :: "(string \<times> jval) list"
  sp_new_job_ids :: "string list option"
  sp_request_id :: string

type_synonym digest = "int list \<Rightarrow> string \<Rightarrow> (string \<times> jval) list \<Rightarrow> string"

definition derive_resubmit_request_id :: "digest \<Rightarrow> int list \<Rightarrow> string \<Rightarrow> (string \<times> jval) list \<Rightarrow> string" where
  "derive_resubmit_request_id sha256 failed category overrides = ''rs_'' @ take 12 (sha256 (sort failed) category overrides)"

text \<open>\<open>dict.fromkeys\<close> of the old ids, then of the new ones: first occurrences, in order.\<close>

fun merge_ids :: "string list \<Rightarrow> string list \<Rightarrow> string list" where
  "merge_ids merged [] = merged"
| "merge_ids merged (j # js) = merge_ids (if j \<in> set merged then merged else merged @ [j]) js"

definition merged_ids :: "string list \<Rightarrow> string list \<Rightarrow> string list" where
  "merged_ids old new = merge_ids (merge_ids [] old) new"

definition count_retry ::
  "string \<Rightarrow> (string \<times> jval) list \<Rightarrow> int \<Rightarrow> (string \<times> retry_entry) list \<Rightarrow> (string \<times> retry_entry) list" where
  "count_retry category overrides tid retries =
     AList.update (int_text tid)
       \<lparr>rt_attempts = (case map_of retries (int_text tid) of None \<Rightarrow> 0 | Some e \<Rightarrow> rt_attempts e) + 1,
        rt_category = category, rt_overrides = overrides\<rparr> retries"

definition MAX_RECENT :: nat where
  "MAX_RECENT = 64"

definition request_of :: "digest \<Rightarrow> resubmit_spec \<Rightarrow> string" where
  "request_of sha256 sp =
     (if sp_request_id sp \<noteq> [] then sp_request_id sp
      else derive_resubmit_request_id sha256 (sp_failed_task_ids sp) (sp_category sp) (sp_overrides sp))"

definition resubmit_failed :: "digest \<Rightarrow> resubmit_spec \<Rightarrow> run_journal \<Rightarrow> run_journal \<times> bool \<times> string" where
  "resubmit_failed sha256 sp rj =
     (let rid = request_of sha256 sp in
      if rid \<in> set (rj_recent_requests rj) \<or> (rj_last_request rj \<noteq> [] \<and> rj_last_request rj = rid)
      then (rj, True, rid)
      else
        (rj\<lparr>rj_retries := foldl (\<lambda>m tid. count_retry (sp_category sp) (sp_overrides sp) tid m) (rj_retries rj) (sp_failed_task_ids sp),
            rj_last_request := rid,
            rj_recent_requests := last_n MAX_RECENT (rj_recent_requests rj @ [rid]),
            rj_job_ids := (case sp_new_job_ids sp of None \<Rightarrow> rj_job_ids rj | Some ids \<Rightarrow> merged_ids (rj_job_ids rj) ids)\<rparr>,
         False, rid))"

text \<open>The waves that own a resubmitted task leave the combined ones.\<close>

definition invalidate_combined_waves_for_tasks :: "int list \<Rightarrow> (int \<times> int list) list \<Rightarrow> run_journal \<Rightarrow> run_journal" where
  "invalidate_combined_waves_for_tasks task_ids wave_map rj =
     (let affected = [w. (w, tids) \<leftarrow> wave_map, \<exists>t\<in>set tids. t \<in> set task_ids];
          touched = filter (\<lambda>w. w \<in> set affected) (rj_combined_waves rj)
      in if touched = [] then rj
         else rj\<lparr>rj_combined_waves := filter (\<lambda>w. w \<notin> set touched) (rj_combined_waves rj),
                 rj_failed_waves := sort (remdups (rj_failed_waves rj @ touched))\<rparr>)"

section \<open>The flow\<close>

definition VALID_CATEGORIES :: "string list" where
  "VALID_CATEGORIES =
     [''gpu_oom'', ''system_oom'', ''segv'', ''walltime'', ''node_failure'', ''queue_stall'', ''code_bug'', ''unknown'',
      ''import_error'', ''file_not_found'', ''permission_denied'', ''disk_full'', ''python_traceback'', ''preempted'',
      ''uv_not_on_path'', ''conda_command_not_found'', ''output_file_required'', ''module_not_found_hpc_agent'',
      ''undefined_var_expansion'', ''mpi_launcher_missing'', ''mpi_pe_invalid'', ''mpi_init_failed'', ''cluster_env_init'']"

text \<open>What the sidecar says, when it can be read: the tasks with a preemption mark, and the wave map.\<close>

record run_sidecar =
  sc_preempted :: "int list"
  sc_wave_map :: "(int \<times> int list) list"

record flow_result =
  fr_request_id :: string
  fr_deduped :: bool
  fr_cluster_submitted :: bool
  fr_new_job_ids :: "string list"

definition save_marker :: "string \<Rightarrow> int list \<Rightarrow> (string \<times> jval) list \<Rightarrow> string list \<Rightarrow> string list \<Rightarrow> run_journal \<Rightarrow> run_journal" where
  "save_marker rid failed overrides existing_ids ids rj =
     rj\<lparr>rj_job_ids := merged_ids existing_ids ids,
        rj_pending := Some \<lparr>mk_request_id = rid, mk_failed = failed, mk_overrides = overrides, mk_job_ids = ids\<rparr>\<rparr>"

definition resuming :: "string \<Rightarrow> run_journal \<Rightarrow> bool" where
  "resuming rid rj \<longleftrightarrow> (case rj_pending rj of None \<Rightarrow> False | Some m \<Rightarrow> mk_request_id m = rid)"

definition already_done :: "string \<Rightarrow> run_journal \<Rightarrow> bool" where
  "already_done rid rj \<longleftrightarrow> \<not> resuming rid rj \<and> (rj_last_request rj = rid \<or> rid \<in> set (rj_recent_requests rj))"

text \<open>The tasks, the overrides and the ids already landed: the marker's when a request is resumed.\<close>

definition resume_point :: "string \<Rightarrow> resubmit_spec \<Rightarrow> run_journal \<Rightarrow> int list \<times> (string \<times> jval) list \<times> string list" where
  "resume_point rid sp rj =
     (case rj_pending rj of
        Some m \<Rightarrow> if mk_request_id m = rid then (mk_failed m, mk_overrides m, mk_job_ids m)
                  else (sp_failed_task_ids sp, sp_overrides sp, [])
      | None \<Rightarrow> (sp_failed_task_ids sp, sp_overrides sp, []))"

definition clear_terminal_failure_markers :: "target \<Rightarrow> int list \<Rightarrow> cluster_side \<Rightarrow> cluster_side" where
  "clear_terminal_failure_markers tg task_ids cl =
     (if tg_clears_markers tg then cl\<lparr>cl_failed_markers := filter (\<lambda>t. t \<notin> set task_ids) (cl_failed_markers cl)\<rparr> else cl)"

text \<open>The journal stamp, the marker's removal and the stale waves.\<close>

definition finish_resubmit ::
  "digest \<Rightarrow> run_sidecar option \<Rightarrow> resubmit_spec \<Rightarrow> bool \<Rightarrow> string list \<Rightarrow> bool \<Rightarrow> run_journal \<Rightarrow> flow_result \<times> run_journal" where
  "finish_resubmit sha256 sc sp submitted ids clear_marker_after rj =
     (let (rj, deduped, rid) = resubmit_failed sha256 (if submitted then sp\<lparr>sp_new_job_ids := Some ids\<rparr> else sp) rj;
          rj = (if clear_marker_after then rj\<lparr>rj_pending := None\<rparr> else rj);
          rj = (if deduped then rj
                else invalidate_combined_waves_for_tasks (sp_failed_task_ids sp)
                       (case sc of None \<Rightarrow> [] | Some s \<Rightarrow> sc_wave_map s) rj)
      in (\<lparr>fr_request_id = rid, fr_deduped = deduped, fr_cluster_submitted = submitted, fr_new_job_ids = ids\<rparr>, rj))"

definition resubmit_flow ::
  "digest \<Rightarrow> target option \<Rightarrow> submitter \<Rightarrow> run_sidecar option \<Rightarrow> bool \<Rightarrow> resubmit_spec \<Rightarrow> run_journal option \<Rightarrow> cluster_side
   \<Rightarrow> (resubmit_error + flow_result) \<times> run_journal option \<times> cluster_side" where
  "resubmit_flow sha256 tgt qsub sc bypass sp journal cl =
     (if sp_failed_task_ids sp = [] then (Inl EmptyFailedTaskIds, journal, cl)
      else if sp_category sp \<notin> set VALID_CATEGORIES then (Inl (BadCategory (sp_category sp)), journal, cl)
      else if sp_category sp = ''preempted'' \<and> \<not> bypass
              \<and> (\<exists>s\<in>set_option sc. set (sp_failed_task_ids sp) \<subseteq> set (sc_preempted s))
           then (Inl (AllPreempted (length (sp_failed_task_ids sp))), journal, cl)
      else
        (case journal of
           None \<Rightarrow> (Inl NoRunRecord, journal, cl)
         | Some rj \<Rightarrow>
             (case tgt of
                None \<Rightarrow> (let (res, rj) = finish_resubmit sha256 sc sp False [] False rj in (Inr res, Some rj, cl))
              | Some tg \<Rightarrow>
                  (let rid = request_of sha256 sp in
                   if already_done rid rj
                   then (let (res, rj) = finish_resubmit sha256 sc sp True (rj_job_ids rj) False rj in (Inr res, Some rj, cl))
                   else
                     (let (failed, overrides, prior) = resume_point rid sp rj;
                          cl = clear_terminal_failure_markers tg failed cl
                      in case submit_resubmit_batches tg qsub (rj_total_tasks rj) failed overrides (length prior) prior cl of
                           (Some e, ids, cl) \<Rightarrow>
                             (Inl e, Some (if length ids > length prior
                                           then save_marker rid failed overrides (rj_job_ids rj) ids rj else rj), cl)
                         | (None, ids, cl) \<Rightarrow>
                             (let (res, rj) = finish_resubmit sha256 sc sp True ids True
                                                (save_marker rid failed overrides (rj_job_ids rj) ids rj)
                              in (Inr res, Some rj, cl)))))))"

end
