(* ===== verification/ResubmissionLaws.thy ===== *)
theory ResubmissionLaws
  imports Resubmission
begin

text \<open>
  A request retried until it succeeds puts every failed task on the cluster exactly once on the families that
  take index lists; on the families that take one range at a time a failure inside a batch is forgotten, and
  the retry submits again what had landed.
\<close>

section \<open>Job ids in the journal\<close>

lemma merge_ids_append: "merge_ids m (a @ b) = merge_ids (merge_ids m a) b"
  by (induction a arbitrary: m) auto

lemma merge_ids_known: "set js \<subseteq> set m \<Longrightarrow> merge_ids m js = m"
  by (induction js arbitrary: m) auto

lemma set_merge_ids [simp]: "set (merge_ids m js) = set m \<union> set js"
  by (induction js arbitrary: m) auto

lemma distinct_merge_ids: "distinct m \<Longrightarrow> distinct (merge_ids m js)"
  by (induction js arbitrary: m) auto

lemma merge_ids_fresh: "distinct (m @ js) \<Longrightarrow> merge_ids m js = m @ js"
  by (induction js arbitrary: m) auto

lemma merged_again: "merged_ids (merged_ids old a) (a @ b) = merged_ids old (a @ b)"
proof -
  let ?m = "merge_ids (merge_ids [] old) a"
  have "merge_ids [] ?m = ?m" using merge_ids_fresh [of "[]" ?m] by (simp add: distinct_merge_ids)
  then show ?thesis by (simp add: merged_ids_def merge_ids_append merge_ids_known)
qed

section \<open>What a submission leaves behind\<close>

lemma submit_one_result:
  "submit_one qsub flags r cl = (out, cl') \<Longrightarrow>
     cl_attempts cl' = cl_attempts cl + 1 \<and> out = qsub (cl_attempts cl) r
   \<and> cl_arrays cl' = cl_arrays cl @ (case out of None \<Rightarrow> [] | Some j \<Rightarrow> [\<lparr>ar_range = r, ar_flags = flags, ar_job = j\<rparr>])"
  by (auto simp: submit_one_def split: option.splits)

lemma submit_runs_result:
  "submit_runs qsub flags rs ids cl = (out, cl') \<Longrightarrow>
     \<exists>new. cl_arrays cl' = cl_arrays cl @ new \<and> map ar_range new = map Some (take (length new) rs)
       \<and> (case out of None \<Rightarrow> length new < length rs | Some out \<Rightarrow> out = ids @ map ar_job new \<and> length new = length rs)"
proof (induction rs arbitrary: ids cl)
  case (Cons r rs)
  obtain o1 cl1 where s: "submit_one qsub flags (Some r) cl = (o1, cl1)" by (cases "submit_one qsub flags (Some r) cl")
  note res = submit_one_result [OF s]
  show ?case
  proof (cases o1)
    case None
    then have "out = None" "cl' = cl1" using Cons.prems s by auto
    then show ?thesis using res None by (intro exI [of _ "[]"]) auto
  next
    case (Some j)
    then have "submit_runs qsub flags rs (ids @ [j]) cl1 = (out, cl')" using Cons.prems s by simp
    from Cons.IH [OF this] obtain new where new: "cl_arrays cl' = cl_arrays cl1 @ new"
      "map ar_range new = map Some (take (length new) rs)"
      "case out of None \<Rightarrow> length new < length rs | Some out \<Rightarrow> out = (ids @ [j]) @ map ar_job new \<and> length new = length rs" by blast
    have "cl_arrays cl1 = cl_arrays cl @ [\<lparr>ar_range = Some r, ar_flags = flags, ar_job = j\<rparr>]" using res Some by simp
    then show ?thesis using new
      by (intro exI [of _ "\<lparr>ar_range = Some r, ar_flags = flags, ar_job = j\<rparr> # new"]) (simp split: option.splits)
  qed
qed auto

lemma submit_comma_result:
  assumes "supports_comma_array_ranges fam" "submit_non_contiguous fam qsub flags r cl = (out, cl')"
  shows "cl_attempts cl' = cl_attempts cl + 1 \<and>
     (case out of
        None \<Rightarrow> cl_arrays cl' = cl_arrays cl \<and> qsub (cl_attempts cl) r = None
      | Some ids \<Rightarrow> \<exists>j. ids = [j] \<and> cl_arrays cl' = cl_arrays cl @ [\<lparr>ar_range = r, ar_flags = flags, ar_job = j\<rparr>])"
proof -
  obtain o1 cl1 where s: "submit_one qsub flags r cl = (o1, cl1)" by (cases "submit_one qsub flags r cl")
  have "submit_non_contiguous fam qsub flags r cl = (map_option (\<lambda>j. [j]) o1, cl1)"
    using assms(1) s by (auto simp: submit_non_contiguous_def split: option.splits)
  then show ?thesis using assms(2) submit_one_result [OF s] by (auto split: option.splits)
qed

lemma submit_batches_result:
  assumes "supports_comma_array_ranges fam"
  shows "submit_batches fam qsub flags bs ids cl = (err, ids', cl') \<Longrightarrow>
     \<exists>new. cl_arrays cl' = cl_arrays cl @ new \<and> ids' = ids @ map ar_job new
       \<and> map ar_range new = map rb_task_range (take (length new) bs) \<and> length new \<le> length bs
       \<and> (case err of
            None \<Rightarrow> length new = length bs \<and> cl_attempts cl' = cl_attempts cl + length new
          | Some e \<Rightarrow> (\<exists>r. e = SubmissionFailed r \<and> qsub (cl_attempts cl + length new) r = None)
              \<and> cl_attempts cl' = cl_attempts cl + length new + 1)"
proof (induction bs arbitrary: ids cl)
  case (Cons b bs)
  obtain o1 cl1 where s: "submit_non_contiguous fam qsub flags (rb_task_range b) cl = (o1, cl1)"
    by (cases "submit_non_contiguous fam qsub flags (rb_task_range b) cl")
  note res = submit_comma_result [OF assms s]
  show ?case
  proof (cases o1)
    case None
    then show ?thesis using Cons.prems s res by (intro exI [of _ "[]"]) auto
  next
    case (Some o2)
    then obtain j where j: "o1 = Some [j]"
      "cl_arrays cl1 = cl_arrays cl @ [\<lparr>ar_range = rb_task_range b, ar_flags = flags, ar_job = j\<rparr>]" using res by auto
    then have "submit_batches fam qsub flags bs (ids @ [j]) cl1 = (err, ids', cl')" using Cons.prems s by simp
    from Cons.IH [OF this] obtain new where new: "cl_arrays cl' = cl_arrays cl1 @ new" "ids' = (ids @ [j]) @ map ar_job new"
      "map ar_range new = map rb_task_range (take (length new) bs)" "length new \<le> length bs"
      "case err of
            None \<Rightarrow> length new = length bs \<and> cl_attempts cl' = cl_attempts cl1 + length new
          | Some e \<Rightarrow> (\<exists>r. e = SubmissionFailed r \<and> qsub (cl_attempts cl1 + length new) r = None)
              \<and> cl_attempts cl' = cl_attempts cl1 + length new + 1" by blast
    show ?thesis
      by (intro exI [of _ "\<lparr>ar_range = rb_task_range b, ar_flags = flags, ar_job = j\<rparr> # new"])
        (use new res j in \<open>auto split: option.splits\<close>)
  qed
qed auto

section \<open>One call of the flow\<close>

text \<open>A request that passes every check before the first submission, and a journal that has not seen it.\<close>

definition admissible ::
  "target \<Rightarrow> run_sidecar option \<Rightarrow> bool \<Rightarrow> resubmit_spec \<Rightarrow> run_journal \<Rightarrow> resubmission \<Rightarrow> string list \<Rightarrow> bool" where
  "admissible tg sc bypass sp rj plan flags \<longleftrightarrow>
     sp_failed_task_ids sp \<noteq> [] \<and> sp_category sp \<in> set VALID_CATEGORIES
   \<and> \<not> (sp_category sp = ''preempted'' \<and> \<not> bypass \<and> (\<exists>s\<in>set_option sc. set (sp_failed_task_ids sp) \<subseteq> set (sc_preempted s)))
   \<and> resubmit_plan (rj_total_tasks rj) (sp_failed_task_ids sp) (sp_overrides sp) (tg_constraints tg) = Inr plan
   \<and> render_overrides_to_extra_flags (tg_vmem_factor tg) (tg_backend tg) (sp_overrides sp) = Inr flags
   \<and> (tg_global_index tg
      \<or> (\<forall>t\<in>set (sp_failed_task_ids sp). t + 1 \<le> max_array_size (case tg_constraints tg of None \<Rightarrow> default_constraints | Some c \<Rightarrow> c)))"

definition unseen :: "string \<Rightarrow> run_journal \<Rightarrow> bool" where
  "unseen rid rj \<longleftrightarrow>
     rj_last_request rj \<noteq> rid \<and> rid \<notin> set (rj_recent_requests rj) \<and> (\<forall>m. rj_pending rj = Some m \<longrightarrow> mk_request_id m \<noteq> rid)"

text \<open>The journal after arrays \<open>new\<close> of the request have landed.\<close>

definition progressed :: "string \<Rightarrow> resubmit_spec \<Rightarrow> run_journal \<Rightarrow> string list \<Rightarrow> run_journal" where
  "progressed rid sp rj ids =
     (if ids = [] then rj else save_marker rid (sp_failed_task_ids sp) (sp_overrides sp) (rj_job_ids rj) ids rj)"

lemma save_again:
  "save_marker rid f ov (rj_job_ids (progressed rid sp rj a)) (a @ b) (progressed rid sp rj a) = save_marker rid f ov (rj_job_ids rj) (a @ b) rj"
  by (simp add: progressed_def save_marker_def merged_again)

lemma over_cap:
  "filter (\<lambda>t. case to_array_index t of None \<Rightarrow> False | Some i \<Rightarrow> i > cap) ts = [] \<longleftrightarrow> (\<forall>t\<in>set ts. 0 \<le> t \<longrightarrow> t + 1 \<le> cap)"
  by (auto simp: filter_empty_conv to_array_index_def)

lemma batches_of_admissible:
  assumes "admissible tg sc bypass sp rj plan flags"
  shows "submit_resubmit_batches tg qsub (rj_total_tasks rj) (sp_failed_task_ids sp) (sp_overrides sp) k ids cl
    = submit_batches (tg_family tg) qsub flags (drop k (rs_batches plan)) ids cl"
proof -
  let ?cap = "max_array_size (case tg_constraints tg of None \<Rightarrow> default_constraints | Some c \<Rightarrow> c)"
  have "tg_global_index tg \<or> filter (\<lambda>t. case to_array_index t of None \<Rightarrow> False | Some i \<Rightarrow> i > ?cap) (sp_failed_task_ids sp) = []"
    unfolding over_cap using assms by (auto simp: admissible_def)
  then have none: "\<not> (\<not> tg_global_index tg
      \<and> sort (filter (\<lambda>t. case to_array_index t of None \<Rightarrow> False | Some i \<Rightarrow> i > ?cap) (sp_failed_task_ids sp)) \<noteq> [])" by auto
  have "resubmit_plan (rj_total_tasks rj) (sp_failed_task_ids sp) (sp_overrides sp) (tg_constraints tg) = Inr plan"
    "render_overrides_to_extra_flags (tg_vmem_factor tg) (tg_backend tg) (sp_overrides sp) = Inr flags"
    using assms by (simp_all add: admissible_def)
  then show ?thesis unfolding submit_resubmit_batches_def by (simp only: sum.case Let_def if_not_P [OF none])
qed

text \<open>The journal once the whole plan has landed.\<close>

definition concluded :: "digest \<Rightarrow> run_sidecar option \<Rightarrow> resubmit_spec \<Rightarrow> string list \<Rightarrow> run_journal \<Rightarrow> run_journal" where
  "concluded sha256 sc sp ids rj = snd (finish_resubmit sha256 sc sp True ids True rj)"

lemma request_same [simp]: "request_of sha256 (sp\<lparr>sp_new_job_ids := ids\<rparr>) = request_of sha256 sp"
  by (simp add: request_of_def)

lemma finish_new:
  assumes "rj_last_request rj \<noteq> request_of sha256 sp" "request_of sha256 sp \<notin> set (rj_recent_requests rj)"
  shows "finish_resubmit sha256 sc sp True ids True rj
    = (\<lparr>fr_request_id = request_of sha256 sp, fr_deduped = False, fr_cluster_submitted = True, fr_new_job_ids = ids\<rparr>,
       concluded sha256 sc sp ids rj)"
  using assms by (simp add: concluded_def finish_resubmit_def resubmit_failed_def Let_def)

lemma flow_on:
  assumes adm: "admissible tg sc bypass sp rj plan flags" and new: "unseen rid rj" and rid: "rid = request_of sha256 sp"
  shows "resubmit_flow sha256 (Some tg) qsub sc bypass sp (Some (progressed rid sp rj ids)) cl =
    (case submit_batches (tg_family tg) qsub flags (drop (length ids) (rs_batches plan)) ids
            (clear_terminal_failure_markers tg (sp_failed_task_ids sp) cl) of
       (Some e, ids', cl') \<Rightarrow>
         (Inl e, Some (if length ids' > length ids
                       then save_marker rid (sp_failed_task_ids sp) (sp_overrides sp) (rj_job_ids (progressed rid sp rj ids)) ids'
                              (progressed rid sp rj ids)
                       else progressed rid sp rj ids), cl')
     | (None, ids', cl') \<Rightarrow>
         (Inr \<lparr>fr_request_id = rid, fr_deduped = False, fr_cluster_submitted = True, fr_new_job_ids = ids'\<rparr>,
          Some (concluded sha256 sc sp ids'
                  (save_marker rid (sp_failed_task_ids sp) (sp_overrides sp) (rj_job_ids (progressed rid sp rj ids)) ids'
                     (progressed rid sp rj ids))), cl'))"
proof -
  let ?p = "progressed rid sp rj ids"
  have seen: "rj_last_request ?p \<noteq> rid" "rid \<notin> set (rj_recent_requests ?p)" "rj_total_tasks ?p = rj_total_tasks rj"
    using new by (auto simp: progressed_def save_marker_def unseen_def)
  have finish: "finish_resubmit sha256 sc sp True ids' True (save_marker rid f ov J ids' ?p)
      = (\<lparr>fr_request_id = rid, fr_deduped = False, fr_cluster_submitted = True, fr_new_job_ids = ids'\<rparr>,
         concluded sha256 sc sp ids' (save_marker rid f ov J ids' ?p))" for ids' f ov J
    unfolding rid using seen(1,2) unfolding rid by (intro finish_new) (simp_all add: save_marker_def)
  have point: "resume_point rid sp ?p = (sp_failed_task_ids sp, sp_overrides sp, ids)"
    using new by (auto simp: resume_point_def progressed_def save_marker_def unseen_def split: option.splits)
  have undone: "\<not> already_done rid ?p" using seen(1,2) by (simp add: already_done_def)
  have pass: "\<not> sp_failed_task_ids sp = []" "\<not> sp_category sp \<notin> set VALID_CATEGORIES"
    "\<not> (sp_category sp = ''preempted'' \<and> \<not> bypass \<and> (\<exists>s\<in>set_option sc. set (sp_failed_task_ids sp) \<subseteq> set (sc_preempted s)))"
    using adm by (simp_all add: admissible_def)
  show ?thesis
    unfolding resubmit_flow_def if_not_P [OF pass(1)] if_not_P [OF pass(2)] if_not_P [OF pass(3)] option.case Let_def
      rid [symmetric] if_not_P [OF undone] point case_prod_conv seen(3) batches_of_admissible [OF adm] finish ..
qed

section \<open>Retrying a request\<close>

text \<open>The same request again and again, until it succeeds, is refused for another reason or the patience is gone.\<close>

fun keep_resubmitting ::
  "nat \<Rightarrow> digest \<Rightarrow> target \<Rightarrow> submitter \<Rightarrow> run_sidecar option \<Rightarrow> bool \<Rightarrow> resubmit_spec \<Rightarrow> run_journal option \<Rightarrow> cluster_side
   \<Rightarrow> (resubmit_error + flow_result) \<times> run_journal option \<times> cluster_side" where
  "keep_resubmitting 0 sha256 tg qsub sc bypass sp journal cl = resubmit_flow sha256 (Some tg) qsub sc bypass sp journal cl"
| "keep_resubmitting (Suc k) sha256 tg qsub sc bypass sp journal cl =
     (case resubmit_flow sha256 (Some tg) qsub sc bypass sp journal cl of
        (Inl (SubmissionFailed r), journal, cl) \<Rightarrow> keep_resubmitting k sha256 tg qsub sc bypass sp journal cl
      | out \<Rightarrow> out)"

lemma clear_keeps [simp]:
  "cl_arrays (clear_terminal_failure_markers tg ts cl) = cl_arrays cl"
  "cl_attempts (clear_terminal_failure_markers tg ts cl) = cl_attempts cl"
  by (simp_all add: clear_terminal_failure_markers_def)

text \<open>From any point of a request, one more call: the arrays it lands and the point it leaves.\<close>

lemma flow_advances:
  assumes "admissible tg sc bypass sp rj plan flags" "unseen rid rj" "rid = request_of sha256 sp"
    and comma: "supports_comma_array_ranges (tg_family tg)"
    and out: "resubmit_flow sha256 (Some tg) qsub sc bypass sp (Some (progressed rid sp rj ids)) cl = (res, journal, cl')"
  shows "\<exists>new. cl_arrays cl' = cl_arrays cl @ new
     \<and> map ar_range new = map rb_task_range (take (length new) (drop (length ids) (rs_batches plan)))
     \<and> (case res of
          Inr r \<Rightarrow> length new = length (rs_batches plan) - length ids \<and> fr_new_job_ids r = ids @ map ar_job new \<and> \<not> fr_deduped r
            \<and> journal = Some (concluded sha256 sc sp (ids @ map ar_job new)
                         (save_marker rid (sp_failed_task_ids sp) (sp_overrides sp) (rj_job_ids rj) (ids @ map ar_job new) rj))
        | Inl e \<Rightarrow> length new \<le> length (rs_batches plan) - length ids \<and> journal = Some (progressed rid sp rj (ids @ map ar_job new))
            \<and> (\<exists>r. e = SubmissionFailed r \<and> qsub (cl_attempts cl + length new) r = None)
            \<and> cl_attempts cl' = cl_attempts cl + length new + 1)"
proof -
  let ?cl = "clear_terminal_failure_markers tg (sp_failed_task_ids sp) cl"
  obtain err ids' cl2 where b: "submit_batches (tg_family tg) qsub flags (drop (length ids) (rs_batches plan)) ids ?cl = (err, ids', cl2)"
    by (cases "submit_batches (tg_family tg) qsub flags (drop (length ids) (rs_batches plan)) ids ?cl")
  from submit_batches_result [OF comma b] obtain new where new: "cl_arrays cl2 = cl_arrays cl @ new" "ids' = ids @ map ar_job new"
    "map ar_range new = map rb_task_range (take (length new) (drop (length ids) (rs_batches plan)))"
    "length new \<le> length (rs_batches plan) - length ids"
    "case err of
            None \<Rightarrow> length new = length (rs_batches plan) - length ids \<and> cl_attempts cl2 = cl_attempts cl + length new
          | Some e \<Rightarrow> (\<exists>r. e = SubmissionFailed r \<and> qsub (cl_attempts cl + length new) r = None)
              \<and> cl_attempts cl2 = cl_attempts cl + length new + 1"
    by (auto split: option.splits)
  note flow = out [unfolded flow_on [OF assms(1-3)] b prod.case]
  show ?thesis
  proof (cases err)
    case None
    then show ?thesis using flow new unfolding new(2) save_again by (intro exI [of _ new]) auto
  next
    case (Some e)
    have "(if length ids' > length ids
           then save_marker rid (sp_failed_task_ids sp) (sp_overrides sp) (rj_job_ids (progressed rid sp rj ids)) ids' (progressed rid sp rj ids)
           else progressed rid sp rj ids) = progressed rid sp rj (ids @ map ar_job new)"
      unfolding new(2) save_again by (cases new) (simp_all add: progressed_def)
    then show ?thesis using flow new(1,3-5) Some by (intro exI [of _ new]) auto
  qed
qed

lemma keep_resubmitting_lands:
  assumes "admissible tg sc bypass sp rj plan flags" "unseen rid rj" "rid = request_of sha256 sp"
    "supports_comma_array_ranges (tg_family tg)"
  shows "keep_resubmitting k sha256 tg qsub sc bypass sp (Some (progressed rid sp rj ids)) cl = (Inr r, journal, cl') \<Longrightarrow>
    length ids \<le> length (rs_batches plan) \<Longrightarrow>
    \<exists>new. cl_arrays cl' = cl_arrays cl @ new \<and> map ar_range new = map rb_task_range (drop (length ids) (rs_batches plan))
      \<and> fr_new_job_ids r = ids @ map ar_job new \<and> \<not> fr_deduped r
      \<and> journal = Some (concluded sha256 sc sp (ids @ map ar_job new)
                   (save_marker rid (sp_failed_task_ids sp) (sp_overrides sp) (rj_job_ids rj) (ids @ map ar_job new) rj))"
proof (induction k arbitrary: ids cl)
  case 0
  then show ?case using flow_advances [OF assms, of qsub ids cl] by (fastforce simp: progressed_def)
next
  case (Suc k)
  obtain res j1 cl1 where f: "resubmit_flow sha256 (Some tg) qsub sc bypass sp (Some (progressed rid sp rj ids)) cl = (res, j1, cl1)"
    by (cases "resubmit_flow sha256 (Some tg) qsub sc bypass sp (Some (progressed rid sp rj ids)) cl")
  from flow_advances [OF assms f] obtain new where new: "cl_arrays cl1 = cl_arrays cl @ new"
    "map ar_range new = map rb_task_range (take (length new) (drop (length ids) (rs_batches plan)))"
    "case res of
          Inr r \<Rightarrow> length new = length (rs_batches plan) - length ids \<and> fr_new_job_ids r = ids @ map ar_job new \<and> \<not> fr_deduped r
            \<and> j1 = Some (concluded sha256 sc sp (ids @ map ar_job new)
                         (save_marker rid (sp_failed_task_ids sp) (sp_overrides sp) (rj_job_ids rj) (ids @ map ar_job new) rj))
        | Inl e \<Rightarrow> length new \<le> length (rs_batches plan) - length ids \<and> j1 = Some (progressed rid sp rj (ids @ map ar_job new))
            \<and> (\<exists>r. e = SubmissionFailed r \<and> qsub (cl_attempts cl + length new) r = None)
            \<and> cl_attempts cl1 = cl_attempts cl + length new + 1" by blast
  show ?case
  proof (cases res)
    case (Inr r')
    then show ?thesis using Suc.prems f new by (intro exI [of _ new]) auto
  next
    case (Inl e)
    then have "keep_resubmitting k sha256 tg qsub sc bypass sp (Some (progressed rid sp rj (ids @ map ar_job new))) cl1 = (Inr r, journal, cl')"
      using Suc.prems(1) f new(3) by auto
    moreover have "length (ids @ map ar_job new) \<le> length (rs_batches plan)" using new(3) Inl Suc.prems(2) by auto
    ultimately obtain more where more: "cl_arrays cl' = cl_arrays cl1 @ more"
      "map ar_range more = map rb_task_range (drop (length ids + length new) (rs_batches plan))"
      "fr_new_job_ids r = ids @ map ar_job (new @ more)" "\<not> fr_deduped r"
      "journal = Some (concluded sha256 sc sp (ids @ map ar_job (new @ more))
                   (save_marker rid (sp_failed_task_ids sp) (sp_overrides sp) (rj_job_ids rj) (ids @ map ar_job (new @ more)) rj))"
      using Suc.IH [of "ids @ map ar_job new" cl1] by (simp only: length_append length_map map_append append_assoc) blast
    have "map ar_range (new @ more) = map rb_task_range (drop (length ids) (rs_batches plan))"
    proof -
      let ?rest = "drop (length ids) (rs_batches plan)"
      have "drop (length ids + length new) (rs_batches plan) = drop (length new) ?rest" by (simp add: add.commute)
      then have "map ar_range (new @ more) = map rb_task_range (take (length new) ?rest @ drop (length new) ?rest)"
        using new(2) more(2) by (simp only: map_append)
      then show ?thesis by (simp only: append_take_drop_id)
    qed
    then show ?thesis using more new(1) by (intro exI [of _ "new @ more"]) simp
  qed
qed

lemma progressed_start: "progressed rid sp rj [] = rj"
  by (simp add: progressed_def)

lemma concluded_facts:
  "set (rj_job_ids (concluded sha256 sc sp ids (save_marker rid f ov J ids rj))) = set J \<union> set ids"
  "rj_pending (concluded sha256 sc sp ids rj) = None"
  by (auto simp: concluded_def finish_resubmit_def resubmit_failed_def Let_def invalidate_combined_waves_for_tasks_def save_marker_def
      merged_ids_def)

lemma concluded_request:
  assumes "unseen (request_of sha256 sp) rj"
  shows "rj_last_request (concluded sha256 sc sp ids (save_marker rid f ov J ids rj)) = request_of sha256 sp"
  using assms by (auto simp: unseen_def concluded_def finish_resubmit_def resubmit_failed_def Let_def
      invalidate_combined_waves_for_tasks_def save_marker_def)

lemma ranges_of_batches:
  assumes "map ar_range new = map rb_task_range bs"
    "\<forall>b\<in>set bs. \<exists>s. rb_task_range b = Some s \<and> range_indices s = Inr (map (\<lambda>t. nat (t + 1)) (rb_task_ids b))"
  shows "concat (map (\<lambda>a. case range_indices (the (ar_range a)) of Inl _ \<Rightarrow> [] | Inr is \<Rightarrow> is) new)
    = map (\<lambda>t. nat (t + 1)) (concat (map rb_task_ids bs))"
  using assms
proof (induction bs arbitrary: new)
  case (Cons b bs)
  then obtain a new' where a: "new = a # new'" "ar_range a = rb_task_range b" "map ar_range new' = map rb_task_range bs" by auto
  obtain s where "rb_task_range b = Some s" "range_indices s = Inr (map (\<lambda>t. nat (t + 1)) (rb_task_ids b))" using Cons.prems(2) by auto
  with Cons.IH [OF a(3)] Cons.prems(2) a show ?case by simp
qed simp


lemma keep_resubmitting_succeeds:
  assumes "admissible tg sc bypass sp rj plan flags" "unseen rid rj" "rid = request_of sha256 sp"
    "supports_comma_array_ranges (tg_family tg)" "\<forall>n\<ge>N. \<forall>r. qsub n r \<noteq> None"
  shows "N \<le> cl_attempts cl + k \<Longrightarrow>
    \<exists>r journal cl'. keep_resubmitting k sha256 tg qsub sc bypass sp (Some (progressed rid sp rj ids)) cl = (Inr r, journal, cl')"
proof (induction k arbitrary: ids cl)
  case 0
  obtain res j1 cl1 where f: "resubmit_flow sha256 (Some tg) qsub sc bypass sp (Some (progressed rid sp rj ids)) cl = (res, j1, cl1)"
    by (cases "resubmit_flow sha256 (Some tg) qsub sc bypass sp (Some (progressed rid sp rj ids)) cl")
  from flow_advances [OF assms(1-4) f] 0 assms(5) have "\<exists>r. res = Inr r" by (cases res) (auto dest: spec [of _ "cl_attempts cl + _"])
  with f show ?case by auto
next
  case (Suc k)
  obtain res j1 cl1 where f: "resubmit_flow sha256 (Some tg) qsub sc bypass sp (Some (progressed rid sp rj ids)) cl = (res, j1, cl1)"
    by (cases "resubmit_flow sha256 (Some tg) qsub sc bypass sp (Some (progressed rid sp rj ids)) cl")
  show ?case
  proof (cases res)
    case (Inl e)
    from flow_advances [OF assms(1-4) f, unfolded Inl sum.case] obtain new :: "landed_array list" where "j1 = Some (progressed rid sp rj (ids @ map ar_job new))"
      "cl_attempts cl1 = cl_attempts cl + length new + 1" "\<exists>r. e = SubmissionFailed r"
      by blast
    moreover from this Suc.prems have "N \<le> cl_attempts cl1 + k" by simp
    ultimately show ?thesis using Suc.IH [of cl1 "ids @ map ar_job new"] f Inl by auto
  qed (use f in auto)
qed

text \<open>Retrying ends. If the scheduler refuses only among its first \<open>N\<close> submissions, a request retried at most
  \<open>N\<close> times succeeds.\<close>

lemma retrying_ends:
  assumes "supports_comma_array_ranges (tg_family tg)" "admissible tg sc bypass sp rj plan flags"
    "unseen (request_of sha256 sp) rj" "\<forall>n\<ge>N. \<forall>r. qsub n r \<noteq> None"
  shows "\<exists>r journal cl'. keep_resubmitting N sha256 tg qsub sc bypass sp (Some rj) cl = (Inr r, journal, cl')"
  using keep_resubmitting_succeeds [OF assms(2,3) refl assms(1,4), of cl N "[]"] by (simp add: progressed_start)

section \<open>Families that take one range at a time\<close>

lemma one_batch:
  assumes "admissible tg sc bypass sp rj plan flags" "\<not> tg_global_index tg"
  shows "\<exists>b. rs_batches plan = [b]"
proof -
  let ?cc = "case tg_constraints tg of None \<Rightarrow> default_constraints | Some c \<Rightarrow> c" and ?ids = "sort (remdups (sp_failed_task_ids sp))"
  have plan: "resubmit_plan (rj_total_tasks rj) (sp_failed_task_ids sp) (sp_overrides sp) (tg_constraints tg) = Inr plan"
    using assms(1) by (simp add: admissible_def)
  then obtain inner where inner: "compute_submission_plan ?cc (int (length ?ids)) None = Inr inner"
    and rs: "length (rs_batches plan) = length (plan_batches inner)"
    by (auto simp: resubmit_plan_def Let_def split: if_splits sum.splits)
  have "set ?ids \<subseteq> {0..<max_array_size ?cc}"
    using replay_facts [OF plan] assms unfolding admissible_def by (force simp del: One_nat_def)
  then have "card (set ?ids) \<le> card {0..<max_array_size ?cc}" by (intro card_mono) simp_all
  then have len: "int (length ?ids) \<le> max 0 (max_array_size ?cc)" by (simp add: distinct_card [symmetric] length_remdups_card_conv)
  from inner have "length (plan_batches inner) = 1"
  proof (rule plan_shape)
    fix per spin eff
    assume p: "0 < int (length ?ids)" "0 < max_array_size ?cc" "total_batches inner = ceil_quotient (int (length ?ids)) (max_array_size ?cc)"
      "0 < total_batches inner" "plan_batches inner = map (batch_at (int (length ?ids)) per (max_concurrent_jobs ?cc) eff) [0..total_batches inner - 1]"
    have "ceil_quotient (int (length ?ids)) (max_array_size ?cc) \<le> 1" using len p(2) by (intro ceil_quotient_le) simp_all
    then have "total_batches inner = 1" using p(3,4) by linarith
    then show ?thesis using p(5) by simp
  qed
  then show ?thesis using rs by (metis length_0_conv length_Suc_conv One_nat_def)
qed

lemma submit_ranges_result:
  assumes "\<not> supports_comma_array_ranges fam" "submit_non_contiguous fam qsub flags r cl = (out, cl')"
  shows "\<exists>new runs. cl_arrays cl' = cl_arrays cl @ new \<and> map ar_range new = take (length new) runs
     \<and> runs = (case r of Some t \<Rightarrow> if CHR '','' \<in> set t then map Some (filter (\<lambda>s. s \<noteq> []) (map py_strip (split_on (CHR '','') t))) else [r]
               | None \<Rightarrow> [r])
     \<and> (case out of None \<Rightarrow> length new < length runs | Some ids \<Rightarrow> ids = map ar_job new \<and> length new = length runs)"
proof (cases "\<exists>t. r = Some t \<and> CHR '','' \<in> set t")
  case True
  then obtain t where t: "r = Some t" "CHR '','' \<in> set t" by blast
  then have "submit_runs qsub flags (filter (\<lambda>s. s \<noteq> []) (map py_strip (split_on (CHR '','') t))) [] cl = (out, cl')"
    using assms by (simp add: submit_non_contiguous_def)
  from submit_runs_result [OF this] t show ?thesis by (simp add: take_map split: option.splits) blast
next
  case False
  obtain o1 cl1 where s: "submit_one qsub flags r cl = (o1, cl1)" by (cases "submit_one qsub flags r cl")
  have "submit_non_contiguous fam qsub flags r cl = (map_option (\<lambda>j. [j]) o1, cl1)"
    using False s by (auto simp: submit_non_contiguous_def split: option.splits)
  then have o: "out = map_option (\<lambda>j. [j]) o1" "cl' = cl1" using assms(2) by simp_all
  have runs: "(case r of Some t \<Rightarrow> if CHR '','' \<in> set t then map Some (filter (\<lambda>s. s \<noteq> []) (map py_strip (split_on (CHR '','') t))) else [r]
               | None \<Rightarrow> [r]) = [r]" using False by (auto split: option.splits)
  show ?thesis
  proof (cases o1)
    case None
    then show ?thesis unfolding runs using o submit_one_result [OF s] by (intro exI [of _ "[]"] exI [of _ "[r]"]) simp
  next
    case (Some j)
    then show ?thesis unfolding runs using o submit_one_result [OF s]
      by (intro exI [of _ "[\<lparr>ar_range = r, ar_flags = flags, ar_job = j\<rparr>]"] exI [of _ "[r]"]) simp
  qed
qed

text \<open>A failure inside a batch is forgotten. On the families that take one range at a time, and whose array
  indices are bounded, a request that fails after some of its arrays landed leaves the journal as it was;
  the retry that succeeds submits the landed ranges again, and only its own jobs are reported: the first
  arrays run the same tasks a second time, and no record knows them.\<close>

lemma single_range_retry_duplicates:
  assumes "\<not> supports_comma_array_ranges (tg_family tg)" "\<not> tg_global_index tg"
    "admissible tg sc bypass sp rj plan flags" "unseen (request_of sha256 sp) rj"
    "resubmit_flow sha256 (Some tg) qsub sc bypass sp (Some rj) cl = (Inl e, journal, cl1)"
    "resubmit_flow sha256 (Some tg) qsub sc bypass sp journal cl1 = (Inr r, journal', cl2)"
  shows "journal = Some rj
    \<and> (\<exists>lost new. cl_arrays cl1 = cl_arrays cl @ lost \<and> cl_arrays cl2 = cl_arrays cl1 @ new
         \<and> length lost < length new \<and> map ar_range lost = take (length lost) (map ar_range new)
         \<and> fr_new_job_ids r = map ar_job new
         \<and> (\<forall>rj'. journal' = Some rj' \<longrightarrow> set (rj_job_ids rj') = set (rj_job_ids rj) \<union> set (map ar_job new)))"
proof -
  define rid where "rid = request_of sha256 sp"
  have un: "unseen rid rj" using assms(4) by (simp add: rid_def)
  obtain b where b: "rs_batches plan = [b]" using one_batch [OF assms(3,2)] by blast
  note flow = flow_on [OF assms(3) un rid_def, of qsub "[]", unfolded progressed_start, simplified b, simplified]
  let ?runs = "case rb_task_range b of Some t \<Rightarrow> if CHR '','' \<in> set t then map Some (filter (\<lambda>s. s \<noteq> []) (map py_strip (split_on (CHR '','') t)))
      else [rb_task_range b] | None \<Rightarrow> [rb_task_range b]"
  let ?cl = "\<lambda>cl. clear_terminal_failure_markers tg (sp_failed_task_ids sp) cl"
  obtain o1 d1 where s1: "submit_non_contiguous (tg_family tg) qsub flags (rb_task_range b) (?cl cl) = (o1, d1)"
    by (cases "submit_non_contiguous (tg_family tg) qsub flags (rb_task_range b) (?cl cl)")
  have first: "o1 = None" "cl1 = d1" "journal = Some rj"
    using assms(5) flow [of cl] s1 by (auto split: option.splits)
  obtain o2 d2 where s2: "submit_non_contiguous (tg_family tg) qsub flags (rb_task_range b) (?cl cl1) = (o2, d2)"
    by (cases "submit_non_contiguous (tg_family tg) qsub flags (rb_task_range b) (?cl cl1)")
  obtain ids where second: "o2 = Some ids" "cl2 = d2" "fr_new_job_ids r = ids"
    "journal' = Some (concluded sha256 sc sp ids
       (save_marker rid (sp_failed_task_ids sp) (sp_overrides sp) (rj_job_ids rj) ids rj))"
    using assms(6) flow [of cl1] s2 unfolding first(3) by (auto split: option.splits)
  from submit_ranges_result [OF assms(1) s1] first(1,2) obtain lost where lost: "cl_arrays cl1 = cl_arrays cl @ lost"
    "map ar_range lost = take (length lost) ?runs" "length lost < length ?runs" by auto
  from submit_ranges_result [OF assms(1) s2] second(1,2) obtain new where new: "cl_arrays cl2 = cl_arrays cl1 @ new"
    "map ar_range new = ?runs" "ids = map ar_job new" by auto
  have "length ?runs = length new" using new(2) by (metis length_map)
  then show ?thesis
    using first(3) second new lost concluded_facts(1) by (intro conjI exI [of _ lost] exI [of _ new]) auto
qed

section \<open>Checked instances\<close>

definition demo_journal :: run_journal where
  "demo_journal = \<lparr>rj_job_ids = [''100''], rj_total_tasks = 20, rj_retries = [], rj_last_request = [], rj_recent_requests = [],
     rj_pending = None, rj_combined_waves = [0, 1], rj_failed_waves = []\<rparr>"

definition demo_cluster :: cluster_side where
  "demo_cluster = \<lparr>cl_attempts = 0, cl_arrays = [], cl_failed_markers = [3, 7, 9]\<rparr>"

definition demo_request :: resubmit_spec where
  "demo_request = \<lparr>sp_failed_task_ids = [7, 3, 12, 3, 14], sp_category = ''walltime'', sp_overrides = [],
     sp_new_job_ids = None, sp_request_id = []\<rparr>"

definition demo_target :: "family \<Rightarrow> string \<Rightarrow> bool \<Rightarrow> cluster_constraints option \<Rightarrow> target" where
  "demo_target fam name global cc = \<lparr>tg_backend = name, tg_family = fam, tg_global_index = global, tg_vmem_factor = 2,
     tg_constraints = cc, tg_clears_markers = True\<rparr>"

definition two_per_array :: cluster_constraints where
  "two_per_array = small_cluster\<lparr>max_array_size := 2\<rparr>"

definition one_array :: cluster_constraints where
  "one_array = small_cluster\<lparr>max_array_size := 20\<rparr>"

text \<open>The second submission is refused.\<close>

definition flaky :: submitter where
  "flaky n r = (if n = 1 then None else Some (''job'' @ dec n))"

definition stub_digest :: digest where
  "stub_digest ids category overrides = ''0123456789abcdef''"

lemma demo_admissible:
  "\<exists>plan flags. admissible (demo_target Slurm ''slurm'' True (Some two_per_array)) None False demo_request demo_journal plan flags"
  "\<exists>plan flags. admissible (demo_target Sge ''sge'' False (Some one_array)) None False demo_request demo_journal plan flags"
proof -
  have "case resubmit_plan 20 [7, 3, 12, 3, 14] [] (Some two_per_array) of Inl _ \<Rightarrow> False | Inr _ \<Rightarrow> True"
    "case resubmit_plan 20 [7, 3, 12, 3, 14] [] (Some one_array) of Inl _ \<Rightarrow> False | Inr _ \<Rightarrow> True"
    by code_simp+
  moreover have "render_overrides_to_extra_flags 2 n [] = Inr []" for n by (simp add: render_overrides_to_extra_flags_def)
  moreover have "''walltime'' \<in> set VALID_CATEGORIES" by code_simp
  ultimately show "\<exists>plan flags. admissible (demo_target Slurm ''slurm'' True (Some two_per_array)) None False demo_request demo_journal plan flags"
    "\<exists>plan flags. admissible (demo_target Sge ''sge'' False (Some one_array)) None False demo_request demo_journal plan flags"
    by (auto simp: admissible_def demo_target_def demo_request_def demo_journal_def one_array_def small_cluster_def split: sum.splits)
qed

lemma demo_unseen: "unseen (request_of stub_digest demo_request) demo_journal"
  by (simp add: unseen_def demo_journal_def demo_request_def request_of_def derive_resubmit_request_id_def)


lemma retrying_ends_witness:
  "\<exists>r journal cl'. keep_resubmitting 2 stub_digest (demo_target Slurm ''slurm'' True (Some two_per_array)) flaky None False demo_request
       (Some demo_journal) demo_cluster = (Inr r, journal, cl')"
proof -
  obtain plan flags where adm: "admissible (demo_target Slurm ''slurm'' True (Some two_per_array)) None False demo_request demo_journal plan flags"
    using demo_admissible(1) by blast
  have comma: "supports_comma_array_ranges (tg_family (demo_target Slurm ''slurm'' True (Some two_per_array)))"
    by (simp add: demo_target_def supports_comma_array_ranges_def FAMILY_DIALECTS_def)
  have "\<forall>n\<ge>2. \<forall>r. flaky n r \<noteq> None" by (simp add: flaky_def)
  from retrying_ends [OF comma adm demo_unseen this] show ?thesis by blast
qed

lemma single_range_retry_duplicates_witness:
  "\<exists>e journal cl1 r journal' cl2.
     resubmit_flow stub_digest (Some (demo_target Sge ''sge'' False (Some one_array))) flaky None False demo_request (Some demo_journal) demo_cluster
       = (Inl e, journal, cl1)
   \<and> resubmit_flow stub_digest (Some (demo_target Sge ''sge'' False (Some one_array))) flaky None False demo_request journal cl1 = (Inr r, journal', cl2)
   \<and> journal = Some demo_journal \<and> map ar_range (cl_arrays cl2) = map Some [''4'', ''4'', ''8'', ''13'', ''15'']
   \<and> map ar_job (cl_arrays cl2) = ''job0'' # fr_new_job_ids r"
proof -
  let ?f = "\<lambda>j c. resubmit_flow stub_digest (Some (demo_target Sge ''sge'' False (Some one_array))) flaky None False demo_request j c"
  have "case ?f (Some demo_journal) demo_cluster of (Inr _, _) \<Rightarrow> False
      | (Inl _, journal, cl1) \<Rightarrow> (case ?f journal cl1 of (Inl _, _) \<Rightarrow> False
          | (Inr r, _, cl2) \<Rightarrow> map ar_range (cl_arrays cl2) = map Some [''4'', ''4'', ''8'', ''13'', ''15'']
              \<and> map ar_job (cl_arrays cl2) = ''job0'' # fr_new_job_ids r)"
    by code_simp
  then obtain e journal cl1 r journal' cl2 where o: "?f (Some demo_journal) demo_cluster = (Inl e, journal, cl1)"
    "?f journal cl1 = (Inr r, journal', cl2)" "map ar_range (cl_arrays cl2) = map Some [''4'', ''4'', ''8'', ''13'', ''15'']"
    "map ar_job (cl_arrays cl2) = ''job0'' # fr_new_job_ids r"
    by (auto split: prod.splits sum.splits)
  obtain plan flags where adm: "admissible (demo_target Sge ''sge'' False (Some one_array)) None False demo_request demo_journal plan flags"
    using demo_admissible(2) by blast
  have fam: "\<not> supports_comma_array_ranges (tg_family (demo_target Sge ''sge'' False (Some one_array)))" "\<not> tg_global_index (demo_target Sge ''sge'' False (Some one_array))"
    by (simp_all add: demo_target_def supports_comma_array_ranges_def FAMILY_DIALECTS_def)
  from single_range_retry_duplicates [OF fam adm demo_unseen o(1,2)] have j: "journal = Some demo_journal" by blast
  show ?thesis by (intro exI conjI) (rule o(1), rule o(2), rule j, rule o(3), rule o(4))
qed

end
