(* ===== verification/BlockChain.thy ===== *)
theory BlockChain
  imports JsonValues
begin

text \<open>
  The chaining table of the block driver (\<open>infra/block_chain.py\<close>): which block follows which, at which stage,
  who answers a park, which blocks need a greenlight, how long the driver waits for one, and how the
  input of a successor is composed from what its predecessor produced. The last section is the ownership
  map of the fields of a block's input (\<open>ops/field_ownership.py\<close>) and the route it selects.
\<close>

section \<open>The families\<close>

definition ORDER :: "(string \<times> string list) list" where
  "ORDER =
     [(''submit'', [''submit-s1'', ''submit-s2'', ''submit-s3'', ''submit-s4'']),
      (''status'', [''status-snapshot'', ''status-watch'']),
      (''aggregate'', [''aggregate-check'', ''aggregate-run'']),
      (''campaign'', [''campaign-greenlight'', ''campaign-watch'', ''campaign-complete'']),
      (''campaign-refill'', [''campaign-refill'']),
      (''audit'', [''audit-preflight'', ''notebook-lint'', ''notebook-auto-clear'', ''notebook-audit-view'', ''notebook-status'']),
      (''onboard'', [''audit-handoff'', ''wrap-entry-point-auto'', ''interview''])]"

definition WORKFLOW_OF :: "(string \<times> string) list" where
  "WORKFLOW_OF = concat (map (\<lambda>(workflow, verbs). map (\<lambda>v. (v, workflow)) verbs) ORDER)"

definition AGENT_PARKS :: "(string \<times> string) list" where
  "AGENT_PARKS = [(''audit-preflight'', ''awaiting_draft''), (''wrap-entry-point-auto'', ''needs_wrapper_argv'')]"

datatype actor = Agent | Human

text \<open>A stage that is no text renders to a word that no table holds.\<close>

definition park_actor :: "string \<Rightarrow> jval \<Rightarrow> actor" where
  "park_actor verb stage = (case stage of JText s \<Rightarrow> if (verb, s) \<in> set AGENT_PARKS then Agent else Human | _ \<Rightarrow> Human)"

definition GATED_BLOCKS :: "string list" where
  "GATED_BLOCKS = [''submit-s2'', ''submit-s3'', ''submit-s4'', ''aggregate-run'']"

definition is_gated :: "string \<Rightarrow> bool" where
  "is_gated verb \<longleftrightarrow> verb \<in> set GATED_BLOCKS"

section \<open>Deadlines\<close>

definition QUICK_VERB_DEADLINE_SEC :: rat where "QUICK_VERB_DEADLINE_SEC = 600"
definition HEAVY_VERB_DEADLINE_SEC :: rat where "HEAVY_VERB_DEADLINE_SEC = 3600"
definition WATCH_DEFAULT_BUDGET_SEC :: rat where "WATCH_DEFAULT_BUDGET_SEC = 86400"
definition WATCH_BUDGET_SLACK_SEC :: rat where "WATCH_BUDGET_SLACK_SEC = 900"

definition WATCH_VERBS :: "string list" where
  "WATCH_VERBS = [''submit-s3'', ''status-watch'', ''campaign-watch'']"

definition DEADLINE_SECONDS :: "(string \<times> rat) list" where
  "DEADLINE_SECONDS =
     [(''submit-s1'', QUICK_VERB_DEADLINE_SEC), (''submit-s2'', HEAVY_VERB_DEADLINE_SEC),
      (''submit-s4'', HEAVY_VERB_DEADLINE_SEC), (''status-snapshot'', QUICK_VERB_DEADLINE_SEC),
      (''aggregate-check'', QUICK_VERB_DEADLINE_SEC), (''aggregate-run'', HEAVY_VERB_DEADLINE_SEC),
      (''campaign-greenlight'', QUICK_VERB_DEADLINE_SEC), (''campaign-complete'', QUICK_VERB_DEADLINE_SEC),
      (''audit-preflight'', QUICK_VERB_DEADLINE_SEC), (''notebook-lint'', QUICK_VERB_DEADLINE_SEC),
      (''notebook-auto-clear'', QUICK_VERB_DEADLINE_SEC), (''notebook-audit-view'', QUICK_VERB_DEADLINE_SEC),
      (''notebook-status'', QUICK_VERB_DEADLINE_SEC), (''audit-handoff'', QUICK_VERB_DEADLINE_SEC),
      (''wrap-entry-point-auto'', QUICK_VERB_DEADLINE_SEC), (''interview'', QUICK_VERB_DEADLINE_SEC)]"

definition budget_of :: "jval \<Rightarrow> rat option" where
  "budget_of candidate =
     (case candidate of
        JDict d \<Rightarrow>
          (case jget d ''wall_clock_budget_seconds'' of
             JInt n \<Rightarrow> if n \<ge> 0 then Some (of_int n) else None
           | JFloat r \<Rightarrow> if r \<ge> 0 then Some r else None
           | _ \<Rightarrow> None)
      | _ \<Rightarrow> None)"

definition spec_wall_clock_budget :: "jval \<Rightarrow> rat option" where
  "spec_wall_clock_budget spec =
     (case spec of
        JDict d \<Rightarrow> (case budget_of (jget d ''monitor'') of Some b \<Rightarrow> Some b | None \<Rightarrow> budget_of spec)
      | _ \<Rightarrow> None)"

definition verb_deadline_seconds :: "string \<Rightarrow> jval \<Rightarrow> rat" where
  "verb_deadline_seconds verb spec =
     (case (if verb \<in> set WATCH_VERBS then None else map_of DEADLINE_SECONDS verb) of
        Some t \<Rightarrow> t
      | None \<Rightarrow>
          (case spec_wall_clock_budget spec of None \<Rightarrow> WATCH_DEFAULT_BUDGET_SEC | Some b \<Rightarrow> b) + WATCH_BUDGET_SLACK_SEC)"

section \<open>The successor table\<close>

definition SUCCESSORS :: "((string \<times> string) \<times> string option) list" where
  "SUCCESSORS =
     [((''submit-s1'', ''needs_resolution''), None),
      ((''submit-s1'', ''resolved''), Some ''submit-s2''),
      ((''submit-s1'', ''prior_run_found''), None),
      ((''submit-s1'', ''needs_scaffold_interview''), None),
      ((''submit-s2'', ''canary_verified''), Some ''submit-s3''),
      ((''submit-s2'', ''canary_failed''), None),
      ((''submit-s2'', ''deduped''), None),
      ((''submit-s2'', ''detached''), None),
      ((''submit-s3'', ''watching_terminal''), Some ''submit-s4''),
      ((''submit-s3'', ''watching_timeout''), Some ''status-watch''),
      ((''submit-s3'', ''watching_anomaly''), None),
      ((''submit-s3'', ''detached''), None),
      ((''submit-s4'', ''harvested''), None),
      ((''submit-s4'', ''harvest_partial''), None),
      ((''submit-s4'', ''detached''), None),
      ((''status-snapshot'', ''snapshot_clean''), Some ''status-watch''),
      ((''status-snapshot'', ''snapshot_anomaly''), None),
      ((''status-watch'', ''watch_terminal''), Some ''submit-s4''),
      ((''status-watch'', ''watch_timeout''), Some ''status-watch''),
      ((''status-watch'', ''watch_anomaly''), None),
      ((''status-watch'', ''detached''), None),
      ((''aggregate-check'', ''ready''), Some ''aggregate-run''),
      ((''aggregate-check'', ''not_ready''), None),
      ((''aggregate-check'', ''integrity_review''), None),
      ((''aggregate-run'', ''harvested''), None),
      ((''aggregate-run'', ''harvest_partial''), None),
      ((''aggregate-run'', ''detached''), None),
      ((''campaign-greenlight'', ''greenlit''), Some ''campaign-watch''),
      ((''campaign-greenlight'', ''already_greenlit''), Some ''campaign-watch''),
      ((''campaign-greenlight'', ''needs_greenlight''), None),
      ((''campaign-watch'', ''watching_complete''), Some ''campaign-complete''),
      ((''campaign-watch'', ''watching_healthy''), None),
      ((''campaign-watch'', ''watching_refill''), Some ''campaign-refill''),
      ((''campaign-watch'', ''watching_anomaly''), None),
      ((''campaign-complete'', ''complete''), None),
      ((''campaign-refill'', ''refilled''), None),
      ((''campaign-refill'', ''no_refill_needed''), None),
      ((''campaign-refill'', ''refill_blocked''), None),
      ((''audit-preflight'', ''preflight_go''), Some ''notebook-lint''),
      ((''audit-preflight'', ''awaiting_draft''), None),
      ((''audit-preflight'', ''preflight_blocked''), None),
      ((''notebook-lint'', ''linted''), Some ''notebook-auto-clear''),
      ((''notebook-auto-clear'', ''cleared''), Some ''notebook-audit-view''),
      ((''notebook-audit-view'', ''viewed''), Some ''notebook-status''),
      ((''notebook-status'', ''sections_pending''), None),
      ((''notebook-status'', ''audit_passed''), Some ''audit-handoff''),
      ((''audit-handoff'', ''placeholders_resolvable''), Some ''wrap-entry-point-auto''),
      ((''audit-handoff'', ''needs_intent''), None),
      ((''wrap-entry-point-auto'', ''onboarded''), Some ''interview''),
      ((''wrap-entry-point-auto'', ''needs_wrapper_argv''), None),
      ((''wrap-entry-point-auto'', ''needs_wrapper_argv_unsupported''), None),
      ((''wrap-entry-point-auto'', ''needs_pick''), None),
      ((''wrap-entry-point-auto'', ''needs_intent''), None),
      ((''interview'', ''interviewed''), Some ''submit-s1'')]"

definition successor_verb :: "string \<Rightarrow> string \<Rightarrow> string option" where
  "successor_verb current_verb stage_reached =
     (case map_of SUCCESSORS (current_verb, stage_reached) of None \<Rightarrow> None | Some v \<Rightarrow> v)"

text \<open>\<open>xs.index(x)\<close>; \<open>None\<close> is its \<open>ValueError\<close>.\<close>

fun position :: "'a \<Rightarrow> 'a list \<Rightarrow> nat option" where
  "position x [] = None"
| "position x (y # ys) = (if y = x then Some 0 else map_option Suc (position x ys))"

definition chain_successor :: "string \<Rightarrow> string option" where
  "chain_successor verb =
     (case map_of WORKFLOW_OF verb of
        None \<Rightarrow> None
      | Some family \<Rightarrow>
          (let order = (case map_of ORDER family of None \<Rightarrow> [] | Some vs \<Rightarrow> vs)
           in case position verb order of
                None \<Rightarrow> None
              | Some i \<Rightarrow> if i + 1 < length order then Some (order ! (i + 1)) else None))"

text \<open>\<open>None\<close> is the \<open>KeyError\<close> of an unknown verb.\<close>

definition workflow_of :: "string \<Rightarrow> string option" where
  "workflow_of verb = map_of WORKFLOW_OF verb"

definition block_index :: "string \<Rightarrow> nat option" where
  "block_index verb =
     (case workflow_of verb of
        None \<Rightarrow> None
      | Some w \<Rightarrow> (case map_of ORDER w of None \<Rightarrow> None | Some vs \<Rightarrow> position verb vs))"

section \<open>Composed successor specs\<close>

text \<open>\<open>SuccessorSpecIncomplete\<close>: the successor and the field the composer would have to make up.\<close>

record spec_incomplete =
  si_successor :: string
  si_missing :: string

type_synonym composer = "dict \<Rightarrow> dict \<Rightarrow> dict \<Rightarrow> spec_incomplete + dict"

definition incomplete :: "string \<Rightarrow> string \<Rightarrow> spec_incomplete + 'a" where
  "incomplete successor missing = Inl \<lparr>si_successor = successor, si_missing = missing\<rparr>"

definition wrap_run_id_under :: "string \<Rightarrow> dict \<Rightarrow> dict" where
  "wrap_run_id_under nested_key spec_hint =
     (if jget spec_hint ''run_id'' = JNull \<or> map_of spec_hint nested_key \<noteq> None then spec_hint
      else AList.update nested_key (JDict [(''run_id'', jget spec_hint ''run_id'')])
             (filter (\<lambda>(k, v). k \<noteq> ''run_id'') spec_hint))"

definition SUCCESSOR_SPEC_SHAPERS :: "(string \<times> (dict \<Rightarrow> dict)) list" where
  "SUCCESSOR_SPEC_SHAPERS = [(''status-watch'', wrap_run_id_under ''monitor'')]"

definition compose_submit_s2_spec :: composer where
  "compose_submit_s2_spec spec_hint predecessor_spec result_brief =
     (case jget result_brief ''resolve'' of
        JDict resolve \<Rightarrow>
          (case jget resolve ''submit_spec'' of
             JDict flow \<Rightarrow> Inr [(''submit'', JDict [(''submit'', JDict flow)])]
           | _ \<Rightarrow> incomplete ''submit-s2'' ''submit'')
      | _ \<Rightarrow> incomplete ''submit-s2'' ''submit'')"

text \<open>The keys of a list of names that the source carries with a value other than \<open>None\<close>.\<close>

definition carried :: "string list \<Rightarrow> dict \<Rightarrow> dict" where
  "carried keys d = map (\<lambda>k. (k, jget d k)) (filter (\<lambda>k. jget d k \<noteq> JNull) keys)"

definition compose_submit_s3_spec :: composer where
  "compose_submit_s3_spec spec_hint predecessor_spec result_brief =
     (case jget predecessor_spec ''submit'' of
        JDict submit \<Rightarrow>
          (case nonempty_str spec_hint ''run_id'' of
             None \<Rightarrow> incomplete ''submit-s3'' ''run_id''
           | Some run_id \<Rightarrow>
               Inr ([(''submit'', JDict submit), (''monitor'', JDict [(''run_id'', JText run_id)])]
                    @ carried [''canary_run_id'', ''canary_job_ids''] spec_hint))
      | _ \<Rightarrow> incomplete ''submit-s3'' ''submit'')"

definition compose_submit_s4_spec :: composer where
  "compose_submit_s4_spec spec_hint predecessor_spec result_brief =
     (case nonempty_str spec_hint ''run_id'' of
        None \<Rightarrow> incomplete ''submit-s4'' ''run_id''
      | Some run_id \<Rightarrow> Inr [(''aggregate'', JDict [(''run_id'', JText run_id)])])"

definition compose_aggregate_run_spec :: composer where
  "compose_aggregate_run_spec spec_hint predecessor_spec result_brief =
     (case (case jget spec_hint ''aggregate'' of
              JDict agg \<Rightarrow> if truthy (jget agg ''run_id'') then Some agg else None
            | _ \<Rightarrow> None) of
        Some agg \<Rightarrow> Inr [(''aggregate'', JDict agg)]
      | None \<Rightarrow>
          (case nonempty_str spec_hint ''run_id'' of
             Some run_id \<Rightarrow> Inr [(''aggregate'', JDict [(''run_id'', JText run_id)])]
           | None \<Rightarrow> incomplete ''aggregate-run'' ''aggregate.run_id''))"

definition GATED_SPEC_COMPOSERS :: "(string \<times> composer) list" where
  "GATED_SPEC_COMPOSERS =
     [(''submit-s2'', compose_submit_s2_spec), (''submit-s3'', compose_submit_s3_spec),
      (''submit-s4'', compose_submit_s4_spec), (''aggregate-run'', compose_aggregate_run_spec)]"

subsection \<open>The audit family\<close>

fun audit_seat_from :: "string list \<Rightarrow> string \<Rightarrow> dict \<Rightarrow> spec_incomplete + dict" where
  "audit_seat_from [] successor spec_hint = Inr []"
| "audit_seat_from (field # rest) successor spec_hint =
     (case nonempty_str spec_hint field of
        None \<Rightarrow> incomplete successor field
      | Some v \<Rightarrow>
          (case audit_seat_from rest successor spec_hint of
             Inl e \<Rightarrow> Inl e
           | Inr seat \<Rightarrow> Inr ((field, JText v) # seat)))"

definition audit_seat :: "string \<Rightarrow> dict \<Rightarrow> spec_incomplete + dict" where
  "audit_seat = audit_seat_from [''audit_id'', ''source'', ''template'']"

definition lists_at :: "string list \<Rightarrow> dict \<Rightarrow> dict" where
  "lists_at keys d =
     List.map_filter (\<lambda>k. case jget d k of JList xs \<Rightarrow> Some (k, JList xs) | _ \<Rightarrow> None) keys"

definition compose_notebook_lint_spec :: composer where
  "compose_notebook_lint_spec spec_hint predecessor_spec result_brief =
     (case audit_seat ''notebook-lint'' spec_hint of
        Inl e \<Rightarrow> Inl e
      | Inr seat \<Rightarrow> Inr (seat @ lists_at [''input_roots'', ''source_roots'', ''output_roots''] spec_hint))"

definition compose_audit_seat_only_spec :: "string \<Rightarrow> string list \<Rightarrow> composer" where
  "compose_audit_seat_only_spec successor carry spec_hint predecessor_spec result_brief =
     (case audit_seat successor spec_hint of
        Inl e \<Rightarrow> Inl e
      | Inr seat \<Rightarrow> Inr (seat @ carried carry spec_hint))"

definition AUDIT_SPEC_COMPOSERS :: "(string \<times> composer) list" where
  "AUDIT_SPEC_COMPOSERS =
     [(''notebook-lint'', compose_notebook_lint_spec),
      (''notebook-auto-clear'', compose_audit_seat_only_spec ''notebook-auto-clear'' []),
      (''notebook-audit-view'', compose_audit_seat_only_spec ''notebook-audit-view'' []),
      (''notebook-status'', compose_audit_seat_only_spec ''notebook-status'' [''review'']),
      (''audit-handoff'', compose_audit_seat_only_spec ''audit-handoff'' [])]"

subsection \<open>The onboard family\<close>

definition text_at :: "dict \<Rightarrow> string \<Rightarrow> bool" where
  "text_at d k \<longleftrightarrow> (case jget d k of JText s \<Rightarrow> True | _ \<Rightarrow> False)"

text \<open>The audit's provenance block, when it is a dictionary with an entry.\<close>

definition audited_source_of :: "dict \<Rightarrow> dict" where
  "audited_source_of d =
     (case jget d ''audited_source'' of
        JDict a \<Rightarrow> if a = [] then [] else [(''audited_source'', JDict a)]
      | _ \<Rightarrow> [])"

definition compose_wrap_entry_point_auto_spec :: composer where
  "compose_wrap_entry_point_auto_spec spec_hint predecessor_spec result_brief =
     (if text_at spec_hint ''entry_point_path'' \<and> map_of spec_hint ''source'' = None then Inr spec_hint
      else
        (case (nonempty_str spec_hint ''goal'', nonempty_str spec_hint ''source'') of
           (None, _) \<Rightarrow> incomplete ''wrap-entry-point-auto'' ''goal''
         | (Some goal, None) \<Rightarrow> incomplete ''wrap-entry-point-auto'' ''source''
         | (Some goal, Some source) \<Rightarrow>
             Inr ([(''goal'', JText goal), (''entry_point_path'', JText source)]
                  @ (case nonempty_str spec_hint ''run_name'' of None \<Rightarrow> [] | Some n \<Rightarrow> [(''run_name'', JText n)])
                  @ audited_source_of spec_hint)))"

definition compose_interview_spec :: composer where
  "compose_interview_spec spec_hint predecessor_spec result_brief =
     (case (case jget spec_hint ''interview_spec'' of JDict f \<Rightarrow> if f = [] then None else Some f | _ \<Rightarrow> None) of
        Some fragment \<Rightarrow>
          Inr (if map_of fragment ''audited_source'' = None then fragment @ audited_source_of spec_hint else fragment)
      | None \<Rightarrow>
          (if text_at spec_hint ''goal'' \<and> jget spec_hint ''task_count'' \<noteq> JNull then Inr spec_hint
           else incomplete ''interview'' ''interview_spec''))"

definition compose_submit_s1_spec :: composer where
  "compose_submit_s1_spec spec_hint predecessor_spec result_brief =
     (case jget spec_hint ''walk'' of
        JDict walk \<Rightarrow>
          Inr ((''walk'', JDict walk)
               # (case jget spec_hint ''run_preflight'' of JBool b \<Rightarrow> [(''run_preflight'', JBool b)] | _ \<Rightarrow> []))
      | _ \<Rightarrow> incomplete ''submit-s1'' ''walk'')"

definition ONBOARD_SPEC_COMPOSERS :: "(string \<times> composer) list" where
  "ONBOARD_SPEC_COMPOSERS =
     [(''wrap-entry-point-auto'', compose_wrap_entry_point_auto_spec), (''interview'', compose_interview_spec),
      (''submit-s1'', compose_submit_s1_spec)]"

definition UNGATED_SPEC_COMPOSERS :: "(string \<times> composer) list" where
  "UNGATED_SPEC_COMPOSERS = AUDIT_SPEC_COMPOSERS @ ONBOARD_SPEC_COMPOSERS"

definition SPEC_COMPOSERS :: "(string \<times> composer) list" where
  "SPEC_COMPOSERS = GATED_SPEC_COMPOSERS @ UNGATED_SPEC_COMPOSERS"

definition compose_successor_spec :: "string \<Rightarrow> dict \<Rightarrow> dict \<Rightarrow> dict \<Rightarrow> spec_incomplete + dict" where
  "compose_successor_spec successor spec_hint predecessor_spec result_brief =
     (case map_of SPEC_COMPOSERS successor of
        None \<Rightarrow> Inr spec_hint
      | Some composer \<Rightarrow> composer spec_hint predecessor_spec result_brief)"

definition complete_spec_hint :: "string \<Rightarrow> dict \<Rightarrow> spec_incomplete + dict" where
  "complete_spec_hint successor spec_hint =
     (case map_of UNGATED_SPEC_COMPOSERS successor of
        Some composer \<Rightarrow> composer spec_hint [] []
      | None \<Rightarrow>
          (case map_of SUCCESSOR_SPEC_SHAPERS successor of
             Some shaper \<Rightarrow> Inr (shaper spec_hint)
           | None \<Rightarrow> Inr spec_hint))"

text \<open>The hint a block's terminator emits; \<open>Inr None\<close> at a human branch or the end of a chain.\<close>

definition next_block_hint :: "string \<Rightarrow> string \<Rightarrow> string \<Rightarrow> dict \<Rightarrow> spec_incomplete + dict option" where
  "next_block_hint current_verb stage_reached why spec_hint =
     (case successor_verb current_verb stage_reached of
        None \<Rightarrow> Inr None
      | Some verb \<Rightarrow>
          (case complete_spec_hint verb spec_hint of
             Inl e \<Rightarrow> Inl e
           | Inr hint \<Rightarrow> Inr (Some [(''verb'', JText verb), (''why'', JText why), (''spec_hint'', JDict hint)])))"

section \<open>Recovery arms\<close>

definition ANOMALY_TERMINATORS :: "(string \<times> string) list" where
  "ANOMALY_TERMINATORS = [(''submit-s2'', ''canary_failed''), (''submit-s3'', ''watching_anomaly'')]"

definition RECOVERY_ARM_BY_FIELD :: "(string \<times> string) list" where
  "RECOVERY_ARM_BY_FIELD = [(''cluster'', ''retarget-run'')]"

definition recovery_arm_verb :: "string \<Rightarrow> string \<Rightarrow> string list \<Rightarrow> string option" where
  "recovery_arm_verb current_verb stage_reached delta_fields =
     (if (current_verb, stage_reached) \<notin> set ANOMALY_TERMINATORS then None
      else
        (case List.map_filter (map_of RECOVERY_ARM_BY_FIELD) delta_fields of
           [] \<Rightarrow> None
         | arm # _ \<Rightarrow> Some arm))"

section \<open>Who owns a field\<close>

definition OWNERSHIP :: "(string \<times> (string \<times> string) list) list" where
  "OWNERSHIP =
     [(''submit'',
        [(''goal'', ''submit-s1''), (''task_generator'', ''submit-s1''), (''cluster'', ''submit-s1''),
         (''gpu_type'', ''submit-s1''), (''partition'', ''submit-s1''), (''mpi_pe'', ''submit-s1''),
         (''data_axis'', ''submit-s1''), (''homogeneous_axes'', ''submit-s1''), (''frozen_configs'', ''submit-s1''),
         (''entry_point'', ''submit-s1''), (''uncovered_param'', ''submit-s1''), (''scopes'', ''submit-s1''),
         (''walltime_sec'', ''submit-s2'')]),
      (''status'',
        [(''run_id'', ''status-snapshot''), (''reconcile'', ''status-snapshot''), (''scheduler'', ''status-snapshot''),
         (''now_iso'', ''status-snapshot''), (''mark_seen'', ''status-snapshot''), (''monitor'', ''status-watch''),
         (''invocation_argv'', ''status-watch''), (''user_invoked_via_loop'', ''status-watch'')]),
      (''aggregate'',
        [(''run_id'', ''aggregate-check''), (''run_preflight'', ''aggregate-check''),
         (''reconcile_scheduler'', ''aggregate-check''), (''allow_partial'', ''aggregate-check''),
         (''aggregate'', ''aggregate-run'')]),
      (''campaign'',
        [(''campaign_id'', ''campaign-greenlight''), (''confirm'', ''campaign-greenlight''),
         (''response'', ''campaign-greenlight''), (''proposal'', ''campaign-greenlight''),
         (''journal'', ''campaign-greenlight'')]),
      (''audit'',
        [(''audit_id'', ''audit-preflight''), (''source'', ''audit-preflight''), (''template'', ''audit-preflight''),
         (''source_roots'', ''audit-preflight''), (''input_roots'', ''audit-preflight''),
         (''output_roots'', ''audit-preflight'')]),
      (''audit-handoff'',
        [(''audit_id'', ''audit-handoff''), (''source'', ''audit-handoff''), (''template'', ''audit-handoff'')])]"

definition field_owner :: "string \<Rightarrow> string \<Rightarrow> string option" where
  "field_owner workflow field = (case map_of OWNERSHIP workflow of None \<Rightarrow> None | Some m \<Rightarrow> map_of m field)"

datatype route = Advance | Rerun | AdvanceCarrying

text \<open>\<open>None\<close> is the \<open>KeyError\<close> of a block that is in no family. An owner is always in one.\<close>

definition owned_downstream :: "string \<Rightarrow> nat \<Rightarrow> string \<Rightarrow> bool" where
  "owned_downstream workflow current field =
     (case field_owner workflow field of
        None \<Rightarrow> False
      | Some owner \<Rightarrow> (case block_index owner of None \<Rightarrow> False | Some i \<Rightarrow> current < i))"

definition route_of :: "string \<Rightarrow> string \<Rightarrow> string list \<Rightarrow> route option" where
  "route_of workflow current_verb changed_fields =
     (if changed_fields = [] then Some Advance
      else
        (case block_index current_verb of
           None \<Rightarrow> None
         | Some i \<Rightarrow> Some (if list_all (owned_downstream workflow i) changed_fields then AdvanceCarrying else Rerun)))"

section \<open>Facts of the tables\<close>

named_theorems chain_tables \<open>the tables of the block chain\<close>

lemmas [chain_tables] = ORDER_def WORKFLOW_OF_def GATED_BLOCKS_def SUCCESSORS_def AGENT_PARKS_def

lemma position_nth: "position x xs = Some i \<Longrightarrow> i < length xs \<and> xs ! i = x"
  by (induction xs arbitrary: i) (auto split: if_splits simp: less_Suc_eq_0_disj)

lemma successor_verb_entry: "successor_verb v s = Some t \<Longrightarrow> ((v, s), Some t) \<in> set SUCCESSORS"
  by (auto simp: successor_verb_def split: option.splits dest: map_of_SomeD)

text \<open>Every entry of the table leads from a block of a family to a block of a family.\<close>

lemma successors_known:
  "list_all (\<lambda>((v, s), t). workflow_of v \<noteq> None \<and> (case t of None \<Rightarrow> True | Some t \<Rightarrow> workflow_of t \<noteq> None)) SUCCESSORS"
  by code_simp

lemma owners_known: "list_all (\<lambda>(w, m). list_all (\<lambda>(f, v). block_index v \<noteq> None) m) OWNERSHIP"
  by code_simp

end
