(* ===== verification/StandingConsent.thy ===== *)
theory StandingConsent
  imports BlockChain "HOL-Library.Char_ord" "HOL-Library.List_Lexorder"
begin

text \<open>
  What lets a gated block run: a greenlight in the decision journal (\<open>ops/block_gate.py\<close>), or a standing
  consent that a person typed for the night (\<open>ops/overnight.py\<close>), bound to a spec identity, a placement
  (\<open>state/placement_drift.py\<close>), an expiry and caps, and consumed into a ledger of its own. The journal and
  the ledger of a scope are lists of their readable records, oldest first. \<open>parse\<close> reads an ISO time
  (\<open>datetime.fromisoformat\<close>) as seconds; the current time is an argument.
\<close>

type_synonym iso_parser = "string \<Rightarrow> rat option"

definition parse_iso_utc_or_none :: "iso_parser \<Rightarrow> jval \<Rightarrow> rat option" where
  "parse_iso_utc_or_none parse v = (case v of JText s \<Rightarrow> if s = [] then None else parse s | _ \<Rightarrow> None)"

text \<open>
  \<open>str(v or "")\<close>. The rendering of a float, a list or a dictionary has a point or a bracket, which no
  identifier it is compared with has, and is \<open>None\<close> here.
\<close>

definition str_or_blank :: "jval \<Rightarrow> string option" where
  "str_or_blank v =
     (case v of
        JText s \<Rightarrow> Some s
      | JInt n \<Rightarrow> Some (if n = 0 then [] else int_text n)
      | JBool b \<Rightarrow> Some (if b then ''True'' else [])
      | _ \<Rightarrow> if truthy v then None else Some [])"

section \<open>Greenlights\<close>

definition journaled_target :: "jval \<Rightarrow> string option" where
  "journaled_target resolved =
     (case resolved of
        JDict r \<Rightarrow>
          (case (case jget r ''next_block'' of JDict hint \<Rightarrow> jget hint ''verb'' | t \<Rightarrow> t) of
             JText t \<Rightarrow> Some t
           | _ \<Rightarrow> None)
      | _ \<Rightarrow> None)"

definition is_greenlight :: "dict \<Rightarrow> bool" where
  "is_greenlight rec \<longleftrightarrow> jget rec ''response'' = JText ''y''"

definition greenlight_naming :: "dict list \<Rightarrow> string \<Rightarrow> dict option" where
  "greenlight_naming records verb =
     find (\<lambda>rec. is_greenlight rec \<and> journaled_target (jget rec ''resolved'') = Some verb) (rev records)"

datatype gate_refusal = NoGreenlight | LatestIsNudge jval | LatestNames "string option"

text \<open>\<open>None\<close> lets the block run.\<close>

definition assert_greenlit_target :: "dict list \<Rightarrow> string \<Rightarrow> gate_refusal option" where
  "assert_greenlit_target records verb =
     (if greenlight_naming records verb \<noteq> None then None
      else if records = [] then Some NoGreenlight
      else
        (let latest = last records in
         if \<not> is_greenlight latest then Some (LatestIsNudge (jget latest ''response''))
         else Some (LatestNames (journaled_target (jget latest ''resolved'')))))"

section \<open>Placement\<close>

definition all_named :: "jval list \<Rightarrow> string list option" where
  "all_named xs =
     (if list_all (\<lambda>v. case v of JText s \<Rightarrow> s \<noteq> [] | _ \<Rightarrow> False) xs
      then Some (List.map_filter (\<lambda>v. case v of JText s \<Rightarrow> Some s | _ \<Rightarrow> None) xs) else None)"

definition normalize_recorded_placement :: "jval \<Rightarrow> string list option" where
  "normalize_recorded_placement recorded =
     (case recorded of
        JText s \<Rightarrow> if s = [] then None else Some [s]
      | JList xs \<Rightarrow>
          (if xs = [] then None
           else (case all_named xs of None \<Rightarrow> None | Some names \<Rightarrow> Some (sort (remdups names))))
      | JDict d \<Rightarrow>
          (if d = [] \<or> \<not> list_all (\<lambda>(k, v). k \<noteq> [] \<and> (case v of JDict _ \<Rightarrow> True | _ \<Rightarrow> False)) d then None
           else Some (sort (map fst d)))
      | _ \<Rightarrow> None)"

definition PLACEMENT_CAP_FIELDS :: "string list" where "PLACEMENT_CAP_FIELDS = [''budget_cap'', ''walltime_cap'']"

text \<open>A positive finite number, booleans excluded.\<close>

definition positive_number :: "jval \<Rightarrow> rat option" where
  "positive_number v =
     (case v of
        JInt n \<Rightarrow> if n > 0 then Some (of_int n) else None
      | JFloat r \<Rightarrow> if r > 0 then Some r else None
      | _ \<Rightarrow> None)"

definition caps_of :: "jval \<Rightarrow> (string \<times> rat) list" where
  "caps_of v =
     List.map_filter (\<lambda>field. map_option (Pair field) (positive_number (jget (dict_or_empty v) field))) PLACEMENT_CAP_FIELDS"

definition placement_cluster_caps :: "jval \<Rightarrow> (string \<times> (string \<times> rat) list) list" where
  "placement_cluster_caps recorded =
     (case (normalize_recorded_placement recorded, recorded) of
        (Some _, JDict d) \<Rightarrow> map (\<lambda>(cluster, v). (cluster, caps_of v)) d
      | _ \<Rightarrow> [])"

record placement_drift =
  pd_changed :: bool
  pd_recorded :: "string list option"
  pd_current :: "string option"

definition detect_placement_drift :: "jval \<Rightarrow> string option \<Rightarrow> placement_drift" where
  "detect_placement_drift recorded current =
     (let recorded_set = normalize_recorded_placement recorded;
          current = (case current of Some c \<Rightarrow> if c = [] then None else Some c | None \<Rightarrow> None)
      in \<lparr>pd_changed = (case (recorded_set, current) of (Some names, Some c) \<Rightarrow> c \<notin> set names | _ \<Rightarrow> False),
          pd_recorded = recorded_set, pd_current = current\<rparr>)"

section \<open>Recording a consent\<close>

definition OVERNIGHT_CONSENT_BLOCK :: string where "OVERNIGHT_CONSENT_BLOCK = ''overnight-consent''"
definition OVERNIGHT_CONSUMED_BLOCK :: string where "OVERNIGHT_CONSUMED_BLOCK = ''overnight-consumed''"
definition WAKE_KIND :: string where "WAKE_KIND = ''status-watch''"
definition DEFAULT_MORNING_HOUR :: int where "DEFAULT_MORNING_HOUR = 8"

datatype consent_refusal =
    NoWake | WakeNotArmed
  | NoExpiry | AlreadyExpired
  | PlacementUnusable | UnknownCapFields string "string list" | CapNotPositive string string | UnknownClusters "string list"
  | NoCeiling | NoIdentity | IdentityDiffers

text \<open>\<open>armed\<close>: a live \<open>status-watch\<close> worker holds the lease of the run.\<close>

definition assert_wake_armed :: "string \<Rightarrow> bool \<Rightarrow> dict \<Rightarrow> consent_refusal option" where
  "assert_wake_armed scope_kind armed resolved =
     (if jget (dict_or_empty (jget resolved ''wake'')) ''kind'' \<noteq> JText WAKE_KIND then Some NoWake
      else if scope_kind = ''run'' \<and> \<not> armed then Some WakeNotArmed
      else None)"

definition bad_caps :: "string \<times> jval \<Rightarrow> consent_refusal option" where
  "bad_caps cv =
     (let (cluster, v) = cv; caps = dict_or_empty v;
          unknown = sort (filter (\<lambda>k. k \<notin> set PLACEMENT_CAP_FIELDS) (map fst caps))
      in if unknown \<noteq> [] then Some (UnknownCapFields cluster unknown)
         else
           (case find (\<lambda>f. map_of caps f \<noteq> None \<and> positive_number (jget caps f) = None) PLACEMENT_CAP_FIELDS of
              Some f \<Rightarrow> Some (CapNotPositive cluster f)
            | None \<Rightarrow> None))"

text \<open>\<open>known\<close>: the cluster keys of the configuration, none when it cannot be read.\<close>

definition assert_placement_wellformed :: "string list \<Rightarrow> jval \<Rightarrow> consent_refusal option" where
  "assert_placement_wellformed known placement_raw =
     (if placement_raw = JNull then None
      else
        (case normalize_recorded_placement placement_raw of
           None \<Rightarrow> Some PlacementUnusable
         | Some names \<Rightarrow>
             (case (case placement_raw of JDict d \<Rightarrow> List.map_filter bad_caps d | _ \<Rightarrow> []) of
                bad # _ \<Rightarrow> Some bad
              | [] \<Rightarrow>
                  (let unknown = filter (\<lambda>c. c \<notin> set known) names
                   in if known = [] \<or> unknown = [] then None else Some (UnknownClusters unknown)))))"

definition every_cluster_capped :: "jval \<Rightarrow> bool" where
  "every_cluster_capped placement_raw =
     (let caps = placement_cluster_caps placement_raw in caps \<noteq> [] \<and> list_all (\<lambda>(_, cs). cs \<noteq> []) caps)"

definition assert_consent_hard_caps :: "iso_parser \<Rightarrow> rat \<Rightarrow> string list \<Rightarrow> dict \<Rightarrow> consent_refusal option" where
  "assert_consent_hard_caps parse now known resolved =
     (case parse_iso_utc_or_none parse (jget resolved ''expires_at'') of
        None \<Rightarrow> Some NoExpiry
      | Some expires \<Rightarrow>
          (if expires \<le> now then Some AlreadyExpired
           else
             (case assert_placement_wellformed known (jget resolved ''placement'') of
                Some bad \<Rightarrow> Some bad
              | None \<Rightarrow>
                  (if positive_number (jget resolved ''budget_cap'') = None
                      \<and> positive_number (jget resolved ''walltime_cap'') = None
                      \<and> \<not> every_cluster_capped (jget resolved ''placement'')
                   then Some NoCeiling
                   else if nonempty_str resolved ''cmd_sha'' = None then Some NoIdentity
                   else None))))"

definition mark_composed :: "string \<Rightarrow> dict \<Rightarrow> dict" where
  "mark_composed field resolved =
     (let merged = (case jget resolved ''composed_defaults'' of JList xs \<Rightarrow> xs | _ \<Rightarrow> [])
      in AList.update ''composed_defaults'' (JList (if JText field \<in> set merged then merged else merged @ [JText field])) resolved)"

text \<open>
  \<open>compose_consent_defaults\<close>: the morning boundary after \<open>now\<close> (a matter of the local time zone) and its
  rendering are arguments. A list of composed fields holds texts.
\<close>

definition compose_consent_defaults ::
  "iso_parser \<Rightarrow> (rat \<Rightarrow> string) \<Rightarrow> (rat \<Rightarrow> rat) \<Rightarrow> rat \<Rightarrow> dict \<Rightarrow> dict" where
  "compose_consent_defaults parse render next_morning now resolved =
     (let out = (if parse_iso_utc_or_none parse (jget resolved ''expires_at'') = None
                 then mark_composed ''expires_at'' (AList.update ''expires_at'' (JText (render (next_morning now))) resolved)
                 else resolved)
      in if positive_number (jget out ''budget_cap'') = None \<and> positive_number (jget out ''walltime_cap'') = None
         then
           (let window = (case parse_iso_utc_or_none parse (jget out ''expires_at'') of
                            Some expires \<Rightarrow> py_int (expires - now)
                          | None \<Rightarrow> 0)
            in mark_composed ''walltime_cap''
                 (AList.update ''walltime_cap'' (JInt (if window > 0 then window else DEFAULT_MORNING_HOUR * 3600)) out))
         else out)"

text \<open>\<open>identity\<close>: what consumption compares for the scope, when it can be read.\<close>

definition assert_consent_identity_binds :: "string option \<Rightarrow> dict \<Rightarrow> consent_refusal option" where
  "assert_consent_identity_binds identity resolved =
     (case (nonempty_str resolved ''cmd_sha'', identity) of
        (Some bound, Some i) \<Rightarrow> if i \<noteq> [] \<and> bound \<noteq> i then Some IdentityDiffers else None
      | _ \<Rightarrow> None)"

section \<open>The ledger of consumptions\<close>

definition HEAL_ATTEMPT_KIND :: string where "HEAL_ATTEMPT_KIND = ''heal-attempt''"
definition HEAL_FAILED_KIND :: string where "HEAL_FAILED_KIND = ''heal-failed''"

definition consumption_line ::
  "string \<Rightarrow> string \<Rightarrow> string \<Rightarrow> string \<Rightarrow> string \<Rightarrow> string \<Rightarrow> dict \<Rightarrow> dict \<Rightarrow> dict" where
  "consumption_line scope_kind scope_id consumed_block event_kind failed_at recorded_at detail notification =
     [(''block'', JText OVERNIGHT_CONSUMED_BLOCK), (''scope_kind'', JText scope_kind), (''scope_id'', JText scope_id),
      (''consumed_block'', JText consumed_block), (''event_kind'', JText event_kind), (''failed_at'', JText failed_at),
      (''recorded_at'', JText recorded_at), (''detail'', JDict detail), (''notification'', JDict notification)]"

definition detail_of :: "dict \<Rightarrow> dict" where
  "detail_of row = dict_or_empty (jget row ''detail'')"

definition event_of :: "dict \<Rightarrow> string option" where
  "event_of row = str_or_blank (jget row ''event_kind'')"

definition spends :: "string option \<Rightarrow> dict \<Rightarrow> bool" where
  "spends cluster row \<longleftrightarrow> event_of row \<noteq> Some HEAL_FAILED_KIND
     \<and> (case cluster of None \<Rightarrow> True | Some c \<Rightarrow> str_or_blank (jget (detail_of row) ''cluster'') = Some c)"

definition spent_at :: "string \<Rightarrow> string option \<Rightarrow> dict list \<Rightarrow> rat" where
  "spent_at key cluster ledger =
     (\<Sum>row\<leftarrow>filter (spends cluster) ledger. case positive_number (jget (detail_of row) key) of None \<Rightarrow> 0 | Some r \<Rightarrow> r)"

definition consumed_spend :: "string option \<Rightarrow> dict list \<Rightarrow> rat \<times> rat" where
  "consumed_spend cluster ledger = (spent_at ''spent_budget'' cluster ledger, spent_at ''spent_walltime'' cluster ledger)"

definition consent_marked_dead :: "dict list \<Rightarrow> bool" where
  "consent_marked_dead ledger \<longleftrightarrow> list_ex (\<lambda>row. event_of row = Some HEAL_FAILED_KIND) ledger"

section \<open>Consulting a consent\<close>

record consent_decision =
  cd_live :: bool
  cd_reason :: string
  cd_consent :: "dict option"

definition latest_standing_consent :: "dict list \<Rightarrow> dict option" where
  "latest_standing_consent decisions =
     find (\<lambda>rec. str_or_blank (jget rec ''block'') = Some OVERNIGHT_CONSENT_BLOCK) (rev decisions)"

definition refused :: "string \<Rightarrow> dict option \<Rightarrow> consent_decision" where
  "refused reason consent = \<lparr>cd_live = False, cd_reason = reason, cd_consent = consent\<rparr>"

text \<open>\<open>v > float(cap)\<close> for a cap that is a positive number; any other cap does not bind.\<close>

definition over_cap :: "rat \<Rightarrow> jval \<Rightarrow> bool" where
  "over_cap spent cap = (case positive_number cap of None \<Rightarrow> False | Some c \<Rightarrow> spent > c)"

definition over_cluster_cap :: "rat \<Rightarrow> string \<Rightarrow> (string \<times> rat) list \<Rightarrow> bool" where
  "over_cluster_cap spent field caps = (case map_of caps field of None \<Rightarrow> False | Some c \<Rightarrow> spent > c)"

definition standing_consent_status ::
  "iso_parser \<Rightarrow> string \<Rightarrow> dict list \<Rightarrow> dict list \<Rightarrow> string \<Rightarrow> string option \<Rightarrow> rat \<Rightarrow> rat \<Rightarrow> rat \<Rightarrow> consent_decision" where
  "standing_consent_status parse scope_kind decisions ledger current_cmd_sha current_placement now spent_budget spent_walltime =
     (case latest_standing_consent decisions of
        None \<Rightarrow> refused ''no-consent'' None
      | Some consent \<Rightarrow>
          (let resolved = dict_or_empty (jget consent ''resolved'');
               caps = (case map_of (placement_cluster_caps (jget resolved ''placement''))
                              (case current_placement of None \<Rightarrow> [] | Some c \<Rightarrow> c) of
                         None \<Rightarrow> [] | Some cs \<Rightarrow> cs);
               (cluster_budget, cluster_walltime) = consumed_spend current_placement ledger
           in if scope_kind = ''campaign'' \<and> consent_marked_dead ledger then refused ''heal-exhausted'' (Some consent)
              else if (case parse_iso_utc_or_none parse (jget resolved ''expires_at'') of
                         None \<Rightarrow> True | Some expires \<Rightarrow> now \<ge> expires)
              then refused ''expired'' (Some consent)
              else if nonempty_str resolved ''cmd_sha'' \<noteq> Some current_cmd_sha then refused ''spec-changed'' (Some consent)
              else if pd_changed (detect_placement_drift (jget resolved ''placement'') current_placement)
              then refused ''placement-changed'' (Some consent)
              else if over_cap spent_budget (jget resolved ''budget_cap'') then refused ''over-budget-cap'' (Some consent)
              else if over_cap spent_walltime (jget resolved ''walltime_cap'') then refused ''over-walltime-cap'' (Some consent)
              else if over_cluster_cap cluster_budget ''budget_cap'' caps
              then refused ''over-cluster-budget-cap'' (Some consent)
              else if over_cluster_cap cluster_walltime ''walltime_cap'' caps
              then refused ''over-cluster-walltime-cap'' (Some consent)
              else \<lparr>cd_live = True, cd_reason = ''live'', cd_consent = Some consent\<rparr>))"

definition assert_standing_consent ::
  "iso_parser \<Rightarrow> string \<Rightarrow> dict list \<Rightarrow> dict list \<Rightarrow> string \<Rightarrow> string option \<Rightarrow> rat \<Rightarrow> rat \<Rightarrow> rat \<Rightarrow> string + dict" where
  "assert_standing_consent parse scope_kind decisions ledger current_cmd_sha current_placement now spent_budget spent_walltime =
     (let d = standing_consent_status parse scope_kind decisions ledger current_cmd_sha current_placement now spent_budget
                spent_walltime
      in if \<not> cd_live d then Inl (cd_reason d) else Inr (case cd_consent d of None \<Rightarrow> [] | Some c \<Rightarrow> c))"

section \<open>Consuming a boundary\<close>

definition OVERNIGHT_CONSUMABLE_BLOCKS :: "(string \<times> string list) list" where
  "OVERNIGHT_CONSUMABLE_BLOCKS = [(''run'', [''submit-s3'']), (''campaign'', [''campaign-watch''])]"

definition OVERNIGHT_CLEAN_TERMINAL_CONSUMABLE :: "(string \<times> string list) list" where
  "OVERNIGHT_CLEAN_TERMINAL_CONSUMABLE = [(''run'', [''submit-s4'', ''aggregate-run''])]"

definition listed :: "(string \<times> string list) list \<Rightarrow> string \<Rightarrow> string \<Rightarrow> bool" where
  "listed table scope_kind block = (case map_of table scope_kind of None \<Rightarrow> False | Some bs \<Rightarrow> block \<in> set bs)"

definition is_consumable_boundary :: "string \<Rightarrow> string \<Rightarrow> bool \<Rightarrow> bool" where
  "is_consumable_boundary scope_kind boundary_block clean_predecessor \<longleftrightarrow>
     listed OVERNIGHT_CONSUMABLE_BLOCKS scope_kind boundary_block
     \<or> clean_predecessor \<and> listed OVERNIGHT_CLEAN_TERMINAL_CONSUMABLE scope_kind boundary_block"

text \<open>\<open>terminal\<close>: the predecessor's recorded terminal, when it can be read.\<close>

definition predecessor_terminal_clean :: "jval \<Rightarrow> string \<Rightarrow> bool" where
  "predecessor_terminal_clean terminal current_cmd_sha =
     (case terminal of
        JDict rec \<Rightarrow>
          (case jget rec ''result'' of
             JDict res \<Rightarrow>
               \<not> truthy (jget res ''needs_decision'')
               \<and> (str_or_blank (jget rec ''cmd_sha'') = Some [] \<or> current_cmd_sha = []
                  \<or> str_or_blank (jget rec ''cmd_sha'') = Some current_cmd_sha)
           | _ \<Rightarrow> False)
      | _ \<Rightarrow> False)"

definition already_consumed :: "dict list \<Rightarrow> string \<Rightarrow> string \<Rightarrow> string option \<Rightarrow> bool" where
  "already_consumed ledger boundary_block bound_cmd_sha event_key \<longleftrightarrow>
     list_ex (\<lambda>row. str_or_blank (jget row ''consumed_block'') = Some boundary_block
                 \<and> str_or_blank (jget (detail_of row) ''cmd_sha'') = Some bound_cmd_sha
                 \<and> str_or_blank (jget (detail_of row) ''anomaly'') = Some (case event_key of None \<Rightarrow> [] | Some k \<Rightarrow> k))
       ledger"

definition boundary_already_ledgered :: "dict list \<Rightarrow> string \<Rightarrow> string \<Rightarrow> bool" where
  "boundary_already_ledgered ledger boundary_block cmd_sha = already_consumed ledger boundary_block cmd_sha None"

record consumption_outcome =
  co_consumed :: bool
  co_decision :: consent_decision
  co_line :: "dict option"

text \<open>The constants of one consultation: the scope, who is asked about, and what the machine answers.\<close>

record consultation =
  cn_scope_kind :: string
  cn_scope_id :: string
  cn_event_kind :: string
  cn_detail :: dict
  cn_now :: rat
  cn_now_text :: string
  cn_notification :: dict

definition stamped_detail :: "string \<Rightarrow> string option \<Rightarrow> dict \<Rightarrow> dict" where
  "stamped_detail current_cmd_sha current_placement detail =
     (let d = foldl (\<lambda>d (k, v). AList.update k v d) [(''cmd_sha'', JText current_cmd_sha)] detail
      in case current_placement of
           None \<Rightarrow> d
         | Some c \<Rightarrow> if c = [] \<or> map_of d ''cluster'' \<noteq> None then d else d @ [(''cluster'', JText c)])"

text \<open>\<open>str((detail or {}).get("anomaly") or "") or None\<close>\<close>

definition event_key_of :: "dict \<Rightarrow> string option" where
  "event_key_of detail =
     (case str_or_blank (jget detail ''anomaly'') of None \<Rightarrow> None | Some s \<Rightarrow> if s = [] then None else Some s)"

definition consume_boundary_under_consent ::
  "iso_parser \<Rightarrow> consultation \<Rightarrow> string \<Rightarrow> string \<Rightarrow> string option \<Rightarrow> rat option \<Rightarrow> rat option \<Rightarrow> bool
   \<Rightarrow> dict list \<Rightarrow> dict list \<Rightarrow> consumption_outcome \<times> dict list" where
  "consume_boundary_under_consent parse c boundary_block current_cmd_sha current_placement spent_budget spent_walltime
       clean_predecessor decisions ledger =
     (if \<not> is_consumable_boundary (cn_scope_kind c) boundary_block clean_predecessor
      then (\<lparr>co_consumed = False,
             co_decision = refused (if listed OVERNIGHT_CLEAN_TERMINAL_CONSUMABLE (cn_scope_kind c) boundary_block
                                    then ''predecessor-not-clean'' else ''boundary-not-consumable'') None,
             co_line = None\<rparr>, ledger)
      else
        (let (metered_budget, metered_walltime) = consumed_spend None ledger;
             decision = standing_consent_status parse (cn_scope_kind c) decisions ledger current_cmd_sha current_placement
                          (cn_now c) (case spent_budget of None \<Rightarrow> metered_budget | Some b \<Rightarrow> b)
                          (case spent_walltime of None \<Rightarrow> metered_walltime | Some w \<Rightarrow> w)
         in if \<not> cd_live decision then (\<lparr>co_consumed = False, co_decision = decision, co_line = None\<rparr>, ledger)
            else if already_consumed ledger boundary_block current_cmd_sha (event_key_of (cn_detail c))
            then (\<lparr>co_consumed = True, co_decision = decision, co_line = None\<rparr>, ledger)
            else
              (let row = consumption_line (cn_scope_kind c) (cn_scope_id c) boundary_block (cn_event_kind c) (cn_now_text c)
                            (cn_now_text c) (stamped_detail current_cmd_sha current_placement (cn_detail c)) (cn_notification c)
               in (\<lparr>co_consumed = True, co_decision = decision, co_line = Some row\<rparr>, ledger @ [row]))))"

section \<open>The gate of a block\<close>

text \<open>\<open>assert_greenlit_or_consented\<close>: \<open>Inl\<close> raises, \<open>Inr None\<close> is a greenlight, \<open>Inr (Some o)\<close> a consumed consent.\<close>

definition assert_greenlit_or_consented ::
  "iso_parser \<Rightarrow> consultation \<Rightarrow> string \<Rightarrow> string \<Rightarrow> string option \<Rightarrow> bool \<Rightarrow> dict list \<Rightarrow> dict list \<Rightarrow> dict list
   \<Rightarrow> ((gate_refusal \<times> string) + consumption_outcome option) \<times> dict list" where
  "assert_greenlit_or_consented parse c verb current_cmd_sha current_placement clean_predecessor run_decisions
       scope_decisions ledger =
     (case assert_greenlit_target run_decisions verb of
        None \<Rightarrow> (Inr None, ledger)
      | Some bad \<Rightarrow>
          (let (out, ledger) = consume_boundary_under_consent parse c verb current_cmd_sha current_placement None None
                                 clean_predecessor scope_decisions ledger
           in if co_consumed out then (Inr (Some out), ledger)
              else (Inl (bad, cd_reason (co_decision out)), ledger)))"

record authorization_probe =
  ap_authorized :: bool
  ap_basis :: string
  ap_reason :: string

text \<open>The read-only answer to the same question, without the predecessor's evidence.\<close>

definition probe_authorization ::
  "iso_parser \<Rightarrow> string \<Rightarrow> string \<Rightarrow> string \<Rightarrow> string option \<Rightarrow> rat \<Rightarrow> dict list \<Rightarrow> dict list \<Rightarrow> dict list \<Rightarrow> authorization_probe" where
  "probe_authorization parse scope_kind verb cmd_sha placement now run_decisions scope_decisions ledger =
     (if greenlight_naming run_decisions verb \<noteq> None
      then \<lparr>ap_authorized = True, ap_basis = ''greenlight'', ap_reason = ''journaled''\<rparr>
      else if \<not> is_consumable_boundary scope_kind verb (boundary_already_ledgered ledger verb cmd_sha)
      then \<lparr>ap_authorized = False, ap_basis = ''none'',
            ap_reason = (if listed OVERNIGHT_CLEAN_TERMINAL_CONSUMABLE scope_kind verb
                         then ''predecessor-evidence-not-visible-to-probe'' else ''boundary-not-consumable'')\<rparr>
      else
        (let (b, w) = consumed_spend None ledger;
             d = standing_consent_status parse scope_kind scope_decisions ledger cmd_sha placement now b w
         in \<lparr>ap_authorized = cd_live d, ap_basis = (if cd_live d then ''standing-consent'' else ''none''),
             ap_reason = cd_reason d\<rparr>))"

end
