(* ===== verification/SelfHeal.thy ===== *)
theory SelfHeal
  imports StandingConsent
begin

text \<open>
  The overnight self-heal of a campaign (\<open>self_heal_campaign\<close> of \<open>ops/overnight.py\<close>): under a live consent a dead
  reconcile chain gets a bounded number of new watchers, then the consent is declared dead. The machine's answers
  (a live worker, the campaign's cursor, the iteration in flight, the launch) are the fields of \<open>heal_env\<close>. The
  sentence of the alert is left out of the line that ends a consent, and its reason keeps only its first words.
\<close>

definition DEFAULT_CHAIN_TICK_SECONDS :: rat where "DEFAULT_CHAIN_TICK_SECONDS = 900"
definition DEFAULT_DEAD_CHAIN_MULTIPLE :: int where "DEFAULT_DEAD_CHAIN_MULTIPLE = 3"
definition DEFAULT_HEAL_ATTEMPTS_CAP :: int where "DEFAULT_HEAL_ATTEMPTS_CAP = 3"

datatype launch = Launched int | LeaseHeld | LaunchFailed string

record heal_env =
  he_parse :: iso_parser
  he_now :: rat
  he_now_text :: string
  he_live_worker :: bool
  he_cursor_updated :: jval
  he_inflight :: "string option"
  he_identity :: string
  he_placement :: "string option"
  he_notification :: dict
  he_delivery :: jval
  he_launch :: launch

section \<open>Is the chain alive\<close>

fun latest_tick :: "iso_parser \<Rightarrow> jval list \<Rightarrow> (rat \<times> string) option \<Rightarrow> (rat \<times> string) option" where
  "latest_tick parse [] best = best"
| "latest_tick parse (raw # rest) best =
     (case (raw, parse_iso_utc_or_none parse raw) of
        (JText s, Some t) \<Rightarrow>
          latest_tick parse rest (case best of None \<Rightarrow> Some (t, s) | Some (b, s') \<Rightarrow> if t > b then Some (t, s) else best)
      | _ \<Rightarrow> latest_tick parse rest best)"

definition campaign_chain_last_tick :: "heal_env \<Rightarrow> dict list \<Rightarrow> (rat \<times> string) option" where
  "campaign_chain_last_tick env ledger =
     latest_tick (he_parse env)
       (he_cursor_updated env
        # map (\<lambda>row. jget row ''recorded_at'')
            (filter (\<lambda>row. event_of row \<notin> {Some HEAL_ATTEMPT_KIND, Some HEAL_FAILED_KIND}) ledger)) None"

record chain_status =
  cs_live :: bool
  cs_reason :: string
  cs_age :: "rat option"
  cs_threshold :: rat

definition dead_threshold :: "jval \<Rightarrow> jval \<Rightarrow> rat" where
  "dead_threshold tick mult =
     (case jnumber tick of Some t \<Rightarrow> if t > 0 then t else DEFAULT_CHAIN_TICK_SECONDS | None \<Rightarrow> DEFAULT_CHAIN_TICK_SECONDS)
     * of_int (case if_proper_int mult of Some m \<Rightarrow> if m > 0 then m else DEFAULT_DEAD_CHAIN_MULTIPLE
                                         | None \<Rightarrow> DEFAULT_DEAD_CHAIN_MULTIPLE)"

definition campaign_chain_status :: "heal_env \<Rightarrow> jval \<Rightarrow> jval \<Rightarrow> dict list \<Rightarrow> chain_status" where
  "campaign_chain_status env tick mult ledger =
     (let threshold = dead_threshold tick mult in
      if he_live_worker env
      then \<lparr>cs_live = True, cs_reason = ''live-worker'', cs_age = Some 0, cs_threshold = threshold\<rparr>
      else
        (case campaign_chain_last_tick env ledger of
           None \<Rightarrow> \<lparr>cs_live = False, cs_reason = ''no-tick-record'', cs_age = None, cs_threshold = threshold\<rparr>
         | Some (tick_at, _) \<Rightarrow>
             (let age = he_now env - tick_at
              in if age > threshold
                 then \<lparr>cs_live = False, cs_reason = ''dead-chain'', cs_age = Some age, cs_threshold = threshold\<rparr>
                 else \<lparr>cs_live = True, cs_reason = ''recent-tick'', cs_age = Some age, cs_threshold = threshold\<rparr>)))"

section \<open>Healing\<close>

definition is_counted_attempt :: "dict \<Rightarrow> bool" where
  "is_counted_attempt row \<longleftrightarrow> event_of row = Some HEAL_ATTEMPT_KIND
     \<and> str_or_blank (jget (detail_of row) ''outcome'') \<in> {Some ''respawned'', Some ''spawn-failed''}"

definition heal_respawn_count :: "dict list \<Rightarrow> int" where
  "heal_respawn_count ledger = int (length (filter is_counted_attempt ledger))"

definition heal_line :: "heal_env \<Rightarrow> string \<Rightarrow> string \<Rightarrow> dict \<Rightarrow> dict \<Rightarrow> dict" where
  "heal_line env campaign_id event_kind detail notification =
     consumption_line ''campaign'' campaign_id ''campaign-watch'' event_kind (he_now_text env) (he_now_text env) detail notification"

definition record_heal_attempt :: "heal_env \<Rightarrow> string \<Rightarrow> string \<Rightarrow> dict \<Rightarrow> dict list \<Rightarrow> dict list" where
  "record_heal_attempt env campaign_id outcome detail ledger =
     ledger @ [heal_line env campaign_id HEAL_ATTEMPT_KIND ((''outcome'', JText outcome) # detail) (he_notification env)]"

definition mark_consent_dead :: "heal_env \<Rightarrow> string \<Rightarrow> string \<Rightarrow> int \<Rightarrow> dict list \<Rightarrow> dict list" where
  "mark_consent_dead env campaign_id reason attempts ledger =
     ledger @ [heal_line env campaign_id HEAL_FAILED_KIND [(''reason'', JText reason), (''attempts'', JInt attempts)]
                 (AList.update ''delivery'' (he_delivery env) (he_notification env))]"

datatype heal_status =
    NoConsent | AlreadyDead | ConsentNotLive string | ChainLive | HealExhausted | HealImpossible | SpawnFailed | Respawned

definition heal_cap :: "dict \<Rightarrow> int" where
  "heal_cap resolved =
     (case if_proper_int (jget resolved ''heal_attempts_cap'') of
        Some n \<Rightarrow> if n > 0 then n else DEFAULT_HEAL_ATTEMPTS_CAP
      | None \<Rightarrow> DEFAULT_HEAL_ATTEMPTS_CAP)"

definition self_heal_campaign :: "heal_env \<Rightarrow> string \<Rightarrow> dict list \<Rightarrow> dict list \<Rightarrow> heal_status \<times> dict list" where
  "self_heal_campaign env campaign_id decisions ledger =
     (case latest_standing_consent decisions of
        None \<Rightarrow> (NoConsent, ledger)
      | Some consent \<Rightarrow>
          (let resolved = dict_or_empty (jget consent ''resolved'');
               (budget, walltime) = consumed_spend None ledger;
               decision = standing_consent_status (he_parse env) ''campaign'' decisions ledger (he_identity env)
                            (he_placement env) (he_now env) budget walltime;
               attempts = heal_respawn_count ledger
           in if consent_marked_dead ledger then (AlreadyDead, ledger)
              else if \<not> cd_live decision then (ConsentNotLive (cd_reason decision), ledger)
              else if cs_live (campaign_chain_status env (jget resolved ''chain_tick_seconds'')
                                 (jget resolved ''dead_chain_multiple'') ledger)
              then (ChainLive, ledger)
              else if attempts \<ge> heal_cap resolved
              then (HealExhausted, mark_consent_dead env campaign_id ''heal cap reached'' attempts ledger)
              else
                (case he_inflight env of
                   None \<Rightarrow>
                     (HealImpossible,
                      mark_consent_dead env campaign_id ''no in-flight iteration run to watch'' attempts
                        (record_heal_attempt env campaign_id ''structurally-impossible''
                           [(''reason'', JText ''no in-flight iteration run to re-arm a watcher on'')] ledger))
                 | Some run_id \<Rightarrow>
                     (case he_launch env of
                        LeaseHeld \<Rightarrow>
                          (ChainLive, record_heal_attempt env campaign_id ''noop-lease-held'' [(''run_id'', JText run_id)] ledger)
                      | LaunchFailed why \<Rightarrow>
                          (SpawnFailed, record_heal_attempt env campaign_id ''spawn-failed''
                             [(''run_id'', JText run_id), (''error'', JText why)] ledger)
                      | Launched pid \<Rightarrow>
                          (Respawned, record_heal_attempt env campaign_id ''respawned''
                             [(''run_id'', JText run_id), (''watcher'', JText ''status-watch''), (''pid'', JInt pid),
                              (''heal_class'', JText ''A'')] ledger)))))"

section \<open>What the consent lets heal\<close>

definition consent_heal_classes :: "dict option \<Rightarrow> string set" where
  "consent_heal_classes consent =
     (case consent of
        None \<Rightarrow> {}
      | Some c \<Rightarrow>
          (case jget (dict_or_empty (jget c ''resolved'')) ''heal_classes'' of
             JList xs \<Rightarrow> set (List.map_filter (\<lambda>v. case v of JText s \<Rightarrow> Some s | _ \<Rightarrow> None) xs)
           | _ \<Rightarrow> {}))"

definition consent_authorizes_class :: "dict option \<Rightarrow> string \<Rightarrow> bool" where
  "consent_authorizes_class consent heal_class \<longleftrightarrow>
     heal_class \<notin> {''C1'', ''C2''} \<and> heal_class \<in> consent_heal_classes consent"

definition sever_recurrence_count :: "string \<Rightarrow> dict list \<Rightarrow> nat" where
  "sever_recurrence_count heal_class ledger =
     length (filter (\<lambda>row. event_of row = Some HEAL_ATTEMPT_KIND
                         \<and> str_or_blank (jget (detail_of row) ''outcome'') = Some ''respawned''
                         \<and> (case str_or_blank (jget (detail_of row) ''heal_class'') of
                              None \<Rightarrow> False | Some c \<Rightarrow> (if c = [] then ''A'' else c) = heal_class)) ledger)"

section \<open>The cap\<close>

lemma event_heal_line [simp]: "k \<noteq> [] \<Longrightarrow> event_of (heal_line env cid k d nt) = Some k"
  by (simp add: heal_line_def consumption_line_def event_of_def str_or_blank_def)

lemma detail_heal_line [simp]: "detail_of (heal_line env cid k d nt) = d"
  by (simp add: heal_line_def consumption_line_def detail_of_def dict_or_empty_def)

lemma kinds_nonempty [simp]: "HEAL_ATTEMPT_KIND \<noteq> []" "HEAL_FAILED_KIND \<noteq> []" "HEAL_ATTEMPT_KIND \<noteq> HEAL_FAILED_KIND"
  by (simp_all add: HEAL_ATTEMPT_KIND_def HEAL_FAILED_KIND_def)

lemma marked_dead_append [simp]: "consent_marked_dead (a @ b) \<longleftrightarrow> consent_marked_dead a \<or> consent_marked_dead b"
  by (simp add: consent_marked_dead_def)

lemma respawn_append [simp]: "heal_respawn_count (a @ b) = heal_respawn_count a + heal_respawn_count b"
  by (simp add: heal_respawn_count_def)

lemma respawn_simps [simp]:
  "heal_respawn_count [] = 0"
  "heal_respawn_count (row # rows) = (if is_counted_attempt row then 1 else 0) + heal_respawn_count rows"
  by (simp_all add: heal_respawn_count_def)

lemma counted_heal_line:
  "is_counted_attempt (heal_line env cid k d nt) \<longleftrightarrow>
     k = HEAL_ATTEMPT_KIND \<and> str_or_blank (jget d ''outcome'') \<in> {Some ''respawned'', Some ''spawn-failed''}"
  if "k \<noteq> []" using that by (auto simp: is_counted_attempt_def)

text \<open>A tick of the healer either leaves the ledger, adds an attempt below the cap, or ends the consent.\<close>

lemma heal_cases:
  assumes "self_heal_campaign env cid decisions ledger = (st, ledger')"
  shows "ledger' = ledger
    \<or> \<not> consent_marked_dead ledger
      \<and> (\<exists>consent. latest_standing_consent decisions = Some consent
          \<and> (heal_respawn_count ledger' = heal_respawn_count ledger + 1
               \<and> heal_respawn_count ledger < heal_cap (dict_or_empty (jget consent ''resolved''))
             \<or> heal_respawn_count ledger' = heal_respawn_count ledger))
      \<and> (\<exists>rows. ledger' = ledger @ rows \<and> rows \<noteq> [])"
proof (cases "latest_standing_consent decisions")
  case None
  with assms show ?thesis by (simp add: self_heal_campaign_def)
next
  case (Some consent)
  show ?thesis
    using assms Some
    by (auto simp: self_heal_campaign_def Let_def record_heal_attempt_def mark_consent_dead_def counted_heal_line
        str_or_blank_def split: if_splits option.splits launch.splits prod.splits)
qed

text \<open>One night: each entry is a tick of the healer with what it found, or a line another process added.\<close>

datatype night_event = HealTick heal_env "dict list" | OtherLine dict

fun night_step :: "string \<Rightarrow> dict list \<Rightarrow> night_event \<Rightarrow> dict list" where
  "night_step cid ledger (HealTick env decisions) = snd (self_heal_campaign env cid decisions ledger)"
| "night_step cid ledger (OtherLine row) = ledger @ [row]"

definition night :: "string \<Rightarrow> night_event list \<Rightarrow> dict list \<Rightarrow> dict list" where
  "night cid es ledger = foldl (night_step cid) ledger es"

fun caps_below :: "int \<Rightarrow> night_event \<Rightarrow> bool" where
  "caps_below cap (HealTick env decisions) \<longleftrightarrow>
     (case latest_standing_consent decisions of None \<Rightarrow> True | Some c \<Rightarrow> heal_cap (dict_or_empty (jget c ''resolved'')) \<le> cap)"
| "caps_below cap (OtherLine row) \<longleftrightarrow> \<not> is_counted_attempt row"

lemma night_append: "night cid (es @ [e]) ledger = night_step cid (night cid es ledger) e"
  by (simp add: night_def)

lemma night_keeps: "\<exists>rows. night cid es ledger = ledger @ rows"
proof (induction es rule: rev_induct)
  case Nil
  then show ?case by (simp add: night_def)
next
  case (snoc e es)
  then obtain rows where rows: "night cid es ledger = ledger @ rows" ..
  show ?case
  proof (cases e)
    case (HealTick env decisions)
    with heal_cases [of env cid decisions "night cid es ledger"] rows show ?thesis
      by (cases "self_heal_campaign env cid decisions (night cid es ledger)") (auto simp: night_append)
  next
    case (OtherLine row)
    with rows show ?thesis by (simp add: night_append)
  qed
qed

text \<open>Heals are bounded. However many times the healer ticks in a campaign's life, whatever it finds each time
  and whatever consents come and go, the watchers it spawned or failed to spawn never exceed the largest cap
  a consent named (3 when it named none).\<close>

lemma heals_never_exceed_cap:
  assumes "list_all (caps_below cap) es" and "0 \<le> cap"
  shows "heal_respawn_count (night cid es []) \<le> cap"
  using assms(1)
proof (induction es rule: rev_induct)
  case Nil
  then show ?case using assms(2) by (simp add: night_def heal_respawn_count_def)
next
  case (snoc e es)
  then have ih: "heal_respawn_count (night cid es []) \<le> cap" by simp
  show ?case
  proof (cases e)
    case (HealTick env decisions)
    obtain st l where l: "self_heal_campaign env cid decisions (night cid es []) = (st, l)" by force
    from heal_cases [OF l] show ?thesis
      using ih snoc.prems HealTick by (auto simp: night_append l)
  next
    case (OtherLine row)
    with ih snoc.prems show ?thesis by (simp add: night_append)
  qed
qed

text \<open>C39: (the dead stay dead) Once a campaign's heal has failed, no consent typed later for that campaign, with
  whatever caps, expiry and identity, ever lets a boundary through again: the failure is read from the
  ledger of the campaign, which no grant resets.\<close>

theorem heal_failure_outlives_every_consent:
  assumes "consent_marked_dead ledger" and "latest_standing_consent decisions \<noteq> None"
    and "is_consumable_boundary ''campaign'' block clean" and "cn_scope_kind c = ''campaign''"
  shows "consume_boundary_under_consent parse c block sha placement b wt clean decisions (night cid es ledger)
    = (\<lparr>co_consumed = False, co_decision = refused ''heal-exhausted'' (latest_standing_consent decisions), co_line = None\<rparr>,
       night cid es ledger)"
proof -
  obtain rows where "night cid es ledger = ledger @ rows" using night_keeps by blast
  then have "consent_marked_dead (night cid es ledger)" using assms(1) by simp
  then show ?thesis
    using assms(2-4) by (auto simp: consume_boundary_under_consent_def standing_consent_status_def refused_def consumed_spend_def Let_def)
qed

section \<open>A night\<close>

definition demo_consent :: dict where
  "demo_consent =
     [(''block'', JText ''overnight-consent''), (''response'', JText ''y''),
      (''resolved'', JDict [(''cmd_sha'', JText ''s''), (''expires_at'', JText ''12345678''), (''heal_attempts_cap'', JInt 1),
         (''budget_cap'', JInt 5)])]"

definition demo_heal :: heal_env where
  "demo_heal =
     \<lparr>he_parse = (\<lambda>s. Some (of_nat (length s))), he_now = 4, he_now_text = ''1234'', he_live_worker = False,
      he_cursor_updated = JNull, he_inflight = Some ''r1'', he_identity = ''s'', he_placement = None, he_notification = [],
      he_delivery = JNull, he_launch = Launched 7\<rparr>"

lemma demo_latest [simp]: "latest_standing_consent [demo_consent] = Some demo_consent"
  by (simp add: latest_standing_consent_def demo_consent_def OVERNIGHT_CONSENT_BLOCK_def str_or_blank_def)

lemma demo_cap: "heal_cap (dict_or_empty (jget demo_consent ''resolved'')) = 1"
  by (simp add: demo_consent_def heal_cap_def dict_or_empty_def)

lemma heals_never_exceed_cap_witness:
  "heal_respawn_count (night ''c'' [HealTick demo_heal [demo_consent], HealTick demo_heal [demo_consent]] []) \<le> 1"
  by (rule heals_never_exceed_cap) (simp_all add: demo_cap)

theorem heal_failure_outlives_every_consent_witness:
  "consume_boundary_under_consent (he_parse demo_heal)
     \<lparr>cn_scope_kind = ''campaign'', cn_scope_id = ''c'', cn_event_kind = ''anomaly'', cn_detail = [], cn_now = 5, cn_now_text = ''12345'',
      cn_notification = []\<rparr> ''campaign-watch'' ''s'' None None None False [demo_consent]
     (night ''c'' [HealTick demo_heal [demo_consent]] (mark_consent_dead demo_heal ''c'' ''heal cap reached'' 1 []))
   = (\<lparr>co_consumed = False, co_decision = refused ''heal-exhausted'' (latest_standing_consent [demo_consent]), co_line = None\<rparr>,
      night ''c'' [HealTick demo_heal [demo_consent]] (mark_consent_dead demo_heal ''c'' ''heal cap reached'' 1 []))"
proof (rule heal_failure_outlives_every_consent)
  show "consent_marked_dead (mark_consent_dead demo_heal ''c'' ''heal cap reached'' 1 [])"
    by (simp add: mark_consent_dead_def consent_marked_dead_def)
  show "is_consumable_boundary ''campaign'' ''campaign-watch'' False"
    by (simp add: is_consumable_boundary_def listed_def OVERNIGHT_CONSUMABLE_BLOCKS_def)
qed simp_all

end
