(* ===== verification/BlockDrive.thy ===== *)
theory BlockDrive
  imports StandingConsent
begin

text \<open>
  One tick of the block driver (\<open>_kernel/lifecycle/block_drive.py\<close>) over the run's journal record
  (\<open>state/journal.py\<close>, the pending decision): plan from the parked marker and the committed decision, consume
  the marker by compare-and-swap, run the spans, and park, detach or end. The blocks themselves, the specs'
  models and the hash are arguments; so is what other processes do between the read of the marker and the swap.
\<close>

section \<open>The durable state of one run\<close>

datatype spec_file = NoFile | TornFile | SpecFile jval

text \<open>
  \<open>dw_pending\<close> is the \<open>pending_decision\<close> of the journal record, \<open>None\<close> when the run has no record;
  \<open>dw_sidecar\<close> is \<open>None\<close> when its reader raises.
\<close>

record drive_world =
  dw_pending :: "dict option"
  dw_tick :: "(string \<times> string) option"
  dw_run_decisions :: "dict list"
  dw_campaign_decisions :: "dict list"
  dw_ledger :: "dict list"
  dw_sidecar :: "dict option"
  dw_specs :: "string \<Rightarrow> spec_file"

record drive_env =
  de_parse :: iso_parser
  de_sha :: "dict \<Rightarrow> string"
  de_fields :: "string \<Rightarrow> string list option"
  de_valid :: "string \<Rightarrow> dict \<Rightarrow> bool"
  de_writable :: "string \<Rightarrow> bool"
  de_path :: "string \<Rightarrow> string"
  de_block :: "nat \<Rightarrow> string \<Rightarrow> dict \<Rightarrow> drive_world \<Rightarrow> (dict \<times> int) \<times> drive_world"
  de_now :: "nat \<Rightarrow> rat"
  de_now_text :: "nat \<Rightarrow> string"
  de_due_text :: "nat \<Rightarrow> string"
  de_notification :: dict
  de_meanwhile :: "drive_world \<Rightarrow> drive_world"

definition META_KEYS :: "string list" where "META_KEYS = [''next_block'']"

definition content :: "dict \<Rightarrow> dict" where
  "content d = filter (\<lambda>(k, v). k \<notin> set META_KEYS) d"

definition spec_sha :: "drive_env \<Rightarrow> dict \<Rightarrow> string" where
  "spec_sha env spec = de_sha env (content spec)"

definition text_of_jval :: "jval \<Rightarrow> string option" where
  "text_of_jval v = (case v of JText s \<Rightarrow> Some s | _ \<Rightarrow> None)"

definition jtext_option :: "string option \<Rightarrow> jval" where
  "jtext_option t = (case t of None \<Rightarrow> JNull | Some s \<Rightarrow> JText s)"

section \<open>The pending marker\<close>

definition read_pending_decision :: "drive_world \<Rightarrow> dict" where
  "read_pending_decision w = (case dw_pending w of None \<Rightarrow> [] | Some m \<Rightarrow> m)"

definition pending_boundary_identity :: "dict \<Rightarrow> (string option \<times> string option) option" where
  "pending_boundary_identity marker =
     (if marker = [] then None
      else Some (str_or_blank (jget marker ''block''), str_or_blank (jget marker ''awaiting_since'')))"

text \<open>\<open>None\<close> is the \<open>FileNotFoundError\<close> of a run without a record.\<close>

definition swap_pending_decision ::
  "(string option \<times> string option) option \<Rightarrow> dict \<Rightarrow> drive_world \<Rightarrow> (bool \<times> drive_world) option" where
  "swap_pending_decision expected payload w =
     (case dw_pending w of
        None \<Rightarrow> None
      | Some m \<Rightarrow>
          (if pending_boundary_identity m \<noteq> expected then Some (False, w)
           else Some (True, w\<lparr>dw_pending := Some payload\<rparr>)))"

definition compare_and_clear_pending_decision :: "dict \<Rightarrow> drive_world \<Rightarrow> (bool \<times> drive_world) option" where
  "compare_and_clear_pending_decision pending =
     swap_pending_decision (Some (str_or_blank (jget pending ''block''), str_or_blank (jget pending ''awaiting_since''))) []"

definition actor_text :: "actor \<Rightarrow> string" where
  "actor_text a = (case a of Agent \<Rightarrow> ''agent'' | Human \<Rightarrow> ''human'')"

definition decision_payload :: "string \<Rightarrow> string \<Rightarrow> dict \<Rightarrow> dict \<Rightarrow> string \<Rightarrow> jval \<Rightarrow> string \<Rightarrow> dict" where
  "decision_payload block workflow brief resume_cursor awaiting_since cmd_sha actor =
     [(''block'', JText block), (''workflow'', JText workflow), (''brief'', JDict brief),
      (''resume_cursor'', JDict resume_cursor), (''awaiting_since'', JText awaiting_since), (''cmd_sha'', cmd_sha)]
     @ (if actor = ''human'' then [] else [(''actor'', JText actor)])"

definition mark_pending_decision :: "dict \<Rightarrow> drive_world \<Rightarrow> drive_world option" where
  "mark_pending_decision payload w =
     (case dw_pending w of None \<Rightarrow> None | Some _ \<Rightarrow> Some (w\<lparr>dw_pending := Some payload\<rparr>))"

definition pending_park_actor :: "dict \<Rightarrow> string" where
  "pending_park_actor pending = (case nonempty_str pending ''actor'' of None \<Rightarrow> ''human'' | Some a \<Rightarrow> a)"

definition text_or_blank :: "dict \<Rightarrow> string \<Rightarrow> string" where
  "text_or_blank d k = (case nonempty_str d k of None \<Rightarrow> [] | Some s \<Rightarrow> s)"

definition repark_marker :: "dict \<Rightarrow> drive_world \<Rightarrow> drive_world" where
  "repark_marker marker w =
     (case swap_pending_decision None
             (decision_payload (text_or_blank marker ''block'') (text_or_blank marker ''workflow'')
                (dict_or_empty (jget marker ''brief'')) (dict_or_empty (jget marker ''resume_cursor''))
                (text_or_blank marker ''awaiting_since'') (jget marker ''cmd_sha'') (pending_park_actor marker)) w of
        None \<Rightarrow> w
      | Some (_, w') \<Rightarrow> w')"

definition cursor_of :: "dict \<Rightarrow> dict" where
  "cursor_of pending = dict_or_empty (jget pending ''resume_cursor'')"

section \<open>Which decision answers a boundary\<close>

definition recorded_at :: "iso_parser \<Rightarrow> dict \<Rightarrow> rat option" where
  "recorded_at parse rec = parse_iso_utc_or_none parse (jget rec ''ts'')"

definition greenlight_targets_boundary :: "iso_parser \<Rightarrow> dict \<Rightarrow> string option \<Rightarrow> jval \<Rightarrow> bool" where
  "greenlight_targets_boundary parse rec next_verb awaiting_since \<longleftrightarrow>
     is_greenlight rec \<and> journaled_target (jget rec ''resolved'') = next_verb
     \<and> \<not> (case (parse_iso_utc_or_none parse awaiting_since, recorded_at parse rec) of
            (Some parked, Some noted) \<Rightarrow> noted < parked | _ \<Rightarrow> False)"

definition same_boundary_nudge :: "iso_parser \<Rightarrow> dict \<Rightarrow> string option \<Rightarrow> jval \<Rightarrow> bool" where
  "same_boundary_nudge parse rec block awaiting_since \<longleftrightarrow>
     \<not> is_greenlight rec
     \<and> (case block of None \<Rightarrow> False | Some b \<Rightarrow> b \<noteq> [] \<and> str_or_blank (jget rec ''block'') = Some b)
     \<and> (case (parse_iso_utc_or_none parse awaiting_since, recorded_at parse rec) of
          (Some parked, Some noted) \<Rightarrow> parked \<le> noted | _ \<Rightarrow> False)"

definition boundary_targets :: "string option \<Rightarrow> string option \<Rightarrow> string option list" where
  "boundary_targets block next_verb =
     next_verb # (case (next_verb, block) of
                    (None, Some b) \<Rightarrow> if b = [] then [] else (case chain_successor b of None \<Rightarrow> [] | Some v \<Rightarrow> [Some v])
                  | _ \<Rightarrow> [])"

fun first_concerning :: "(dict \<Rightarrow> bool) \<Rightarrow> (dict \<Rightarrow> bool) \<Rightarrow> dict list \<Rightarrow> dict option" where
  "first_concerning greenlight nudge [] = None"
| "first_concerning greenlight nudge (rec # rest) =
     (if greenlight rec then Some (dict_or_empty (jget rec ''resolved''))
      else if nudge rec then None
      else first_concerning greenlight nudge rest)"

definition committed_greenlight_for_boundary ::
  "iso_parser \<Rightarrow> dict list \<Rightarrow> string option \<Rightarrow> string option \<Rightarrow> jval \<Rightarrow> dict option" where
  "committed_greenlight_for_boundary parse records block next_verb awaiting_since =
     first_concerning
       (\<lambda>rec. list_ex (\<lambda>t. greenlight_targets_boundary parse rec t awaiting_since) (boundary_targets block next_verb))
       (\<lambda>rec. same_boundary_nudge parse rec block awaiting_since) (rev records)"

definition latest_committed_resolved :: "dict list \<Rightarrow> dict option" where
  "latest_committed_resolved records =
     map_option (\<lambda>rec. dict_or_empty (jget rec ''resolved'')) (find is_greenlight (rev records))"

definition boundary_has_post_park_nudge :: "iso_parser \<Rightarrow> dict list \<Rightarrow> string option \<Rightarrow> jval \<Rightarrow> bool" where
  "boundary_has_post_park_nudge parse records block awaiting_since \<longleftrightarrow>
     list_ex (\<lambda>rec. same_boundary_nudge parse rec block awaiting_since) records"

section \<open>The planner\<close>

text \<open>
  Python's equality of JSON values: \<open>1 == 1.0 == True\<close>, and dictionaries without regard to order. \<open>None\<close> equals
  an absent key because the code compares \<open>get\<close>s.
\<close>

fun canonical :: "jval \<Rightarrow> jval" where
  "canonical (JBool b) = JInt (if b then 1 else 0)"
| "canonical (JFloat r) = (if of_int \<lfloor>r\<rfloor> = r then JInt \<lfloor>r\<rfloor> else JFloat r)"
| "canonical (JList xs) = JList (map canonical xs)"
| "canonical (JDict d) = JDict (sort_key fst (map (\<lambda>(k, v). (k, canonical v)) d))"
| "canonical v = v"

definition changed_fields :: "dict \<Rightarrow> dict \<Rightarrow> jval \<Rightarrow> jval \<Rightarrow> string list" where
  "changed_fields last_run_inputs approved last_cmd_sha approved_cmd_sha =
     (if truthy last_cmd_sha \<and> truthy approved_cmd_sha \<and> canonical last_cmd_sha = canonical approved_cmd_sha then []
      else
        (let old = content last_run_inputs; new = content approved
         in sort (remdups (filter (\<lambda>k. canonical (jget old k) \<noteq> canonical (jget new k)) (map fst old @ map fst new)))))"

definition carry :: "dict \<Rightarrow> string list \<Rightarrow> dict" where
  "carry approved changed = filter (\<lambda>(k, v). k \<in> set changed) (content approved)"

datatype plan_action = PFresh | PAdvance | PRerun | PAdvanceCarrying | PAwaiting | PTerminal | PSkip

record drive_plan =
  pl_action :: plan_action
  pl_verb :: "string option"
  pl_workflow :: "string option"
  pl_current :: "string option"
  pl_next :: "string option"
  pl_carry :: dict
  pl_changed :: "string list"

definition plan :: "plan_action \<Rightarrow> string option \<Rightarrow> string option \<Rightarrow> string option \<Rightarrow> string option \<Rightarrow> drive_plan" where
  "plan act v w cur nxt =
     \<lparr>pl_action = act, pl_verb = v, pl_workflow = w, pl_current = cur, pl_next = nxt, pl_carry = [], pl_changed = []\<rparr>"

definition first_some :: "'a option list \<Rightarrow> 'a option" where
  "first_some xs = (case List.map_filter id xs of [] \<Rightarrow> None | x # _ \<Rightarrow> Some x)"

definition plan_fresh :: "string option \<Rightarrow> dict option \<Rightarrow> drive_plan" where
  "plan_fresh workflow committed =
     (let next_block = text_of_jval (jget (case committed of None \<Rightarrow> [] | Some r \<Rightarrow> r) ''next_block'');
          family = Option.bind next_block workflow_of
      in if family \<noteq> None \<and> (workflow = None \<or> workflow = family)
         then plan PAdvance next_block family None next_block
         else
           (case Option.bind workflow (\<lambda>w. map_of ORDER w) of
              None \<Rightarrow> plan PSkip None None None None
            | Some order \<Rightarrow> plan PFresh (Some (hd order)) workflow None (Some (hd order))))"

text \<open>\<open>None\<close> is the \<open>KeyError\<close> of a cursor at a block of no family.\<close>

definition plan_resume :: "string option \<Rightarrow> dict \<Rightarrow> dict \<Rightarrow> dict \<Rightarrow> drive_plan option" where
  "plan_resume workflow pending committed last_run_inputs =
     (let cursor = cursor_of pending;
          current = text_of_jval (jget cursor ''current_verb'');
          fam = first_some [nonempty_str cursor ''workflow'', nonempty_str pending ''workflow'', workflow];
          nxt = text_of_jval (jget cursor ''next_verb'');
          changed = changed_fields last_run_inputs committed (jget pending ''cmd_sha'') (jget committed ''cmd_sha'')
      in case (fam, current) of
           (Some w, Some cur) \<Rightarrow>
             (if nxt = None \<and> content committed = [] \<and> chain_successor cur \<noteq> None
              then Some (plan PAdvance (chain_successor cur) fam current (chain_successor cur))
              else
                (case route_of w cur changed of
                   None \<Rightarrow> None
                 | Some r \<Rightarrow>
                     Some (if r = Rerun
                           then (plan PRerun current fam current nxt)\<lparr>pl_carry := content committed, pl_changed := changed\<rparr>
                           else if nxt = None then plan PTerminal None fam current None
                           else if r = AdvanceCarrying
                           then (plan PAdvanceCarrying nxt fam current nxt)
                                  \<lparr>pl_carry := carry committed changed, pl_changed := changed\<rparr>
                           else (plan PAdvance nxt fam current nxt)\<lparr>pl_changed := changed\<rparr>)))
         | _ \<Rightarrow> Some (plan PSkip None None None None))"

definition plan_block_action :: "string option \<Rightarrow> dict \<Rightarrow> dict option \<Rightarrow> dict \<Rightarrow> drive_plan option" where
  "plan_block_action workflow pending committed last_run_inputs =
     (if pending = [] then Some (plan_fresh workflow committed)
      else
        (case committed of
           None \<Rightarrow>
             (let cursor = cursor_of pending
              in Some (plan PAwaiting None
                   (first_some [nonempty_str cursor ''workflow'', nonempty_str pending ''workflow'', workflow])
                   (text_of_jval (jget cursor ''current_verb'')) (text_of_jval (jget cursor ''next_verb''))))
         | Some c \<Rightarrow> plan_resume workflow pending c last_run_inputs))"

section \<open>What a block returned\<close>

definition is_detached :: "dict \<Rightarrow> bool" where
  "is_detached result \<longleftrightarrow>
     truthy (jget result ''started'') \<or> truthy (jget result ''detached_pid'') \<or> truthy (jget result ''watch'')
     \<or> jget result ''stage_reached'' = JText ''detached''"

definition next_verb_of :: "dict \<Rightarrow> string option" where
  "next_verb_of result =
     (case jget result ''next_block'' of JDict nb \<Rightarrow> text_of_jval (jget nb ''verb'') | _ \<Rightarrow> None)"

definition next_spec_hint :: "dict \<Rightarrow> dict" where
  "next_spec_hint result =
     (case jget result ''next_block'' of JDict nb \<Rightarrow> dict_or_empty (jget nb ''spec_hint'') | _ \<Rightarrow> [])"

definition brief_dict :: "jval \<Rightarrow> dict option" where
  "brief_dict v =
     (case v of JDict d \<Rightarrow> Some d | JText s \<Rightarrow> if s = [] then None else Some [(''text'', JText s)] | _ \<Rightarrow> None)"

definition normalize_result_brief :: "dict \<Rightarrow> dict" where
  "normalize_result_brief result =
     (case brief_dict (jget result ''brief'') of None \<Rightarrow> result | Some b \<Rightarrow> AList.update ''brief'' (JDict b) result)"

definition brief_of :: "dict \<Rightarrow> dict option" where
  "brief_of result = (case jget result ''brief'' of JDict b \<Rightarrow> Some b | _ \<Rightarrow> None)"

section \<open>The spec of the successor\<close>

definition compose_successor :: "string \<Rightarrow> dict \<Rightarrow> dict \<Rightarrow> spec_incomplete + dict" where
  "compose_successor successor predecessor_spec result =
     compose_successor_spec successor (next_spec_hint result) predecessor_spec
       (case brief_of result of None \<Rightarrow> [] | Some b \<Rightarrow> b)"

record materialized =
  mz_spec :: "dict option"
  mz_path :: "string option"
  mz_sha :: "string option"
  mz_refused :: "string option"

definition nothing_materialized :: materialized where
  "nothing_materialized = \<lparr>mz_spec = None, mz_path = None, mz_sha = None, mz_refused = None\<rparr>"

definition materialize_successor_spec ::
  "drive_env \<Rightarrow> string \<Rightarrow> string option \<Rightarrow> dict \<Rightarrow> dict \<Rightarrow> drive_world \<Rightarrow> materialized \<times> drive_world" where
  "materialize_successor_spec env run_id successor predecessor_spec result w =
     (case (if run_id = [] then None else successor) of
        None \<Rightarrow> (nothing_materialized, w)
      | Some s \<Rightarrow>
          (if s = [] then (nothing_materialized, w)
           else
             (case compose_successor s predecessor_spec result of
                Inl e \<Rightarrow> (nothing_materialized\<lparr>mz_refused := Some (si_missing e)\<rparr>, w)
              | Inr composed \<Rightarrow>
                  (if \<not> de_valid env s composed
                   then (nothing_materialized\<lparr>mz_refused := Some ''validation''\<rparr>, w)
                   else if de_writable env s
                   then (\<lparr>mz_spec = Some composed, mz_path = Some (de_path env s), mz_sha = Some (de_sha env composed),
                          mz_refused = None\<rparr>,
                         w\<lparr>dw_specs := (dw_specs w)(s := SpecFile (JDict composed))\<rparr>)
                   else (\<lparr>mz_spec = Some composed, mz_path = None, mz_sha = Some (de_sha env composed), mz_refused = None\<rparr>,
                         w)))))"

text \<open>The materialised spec of an approved advance, nothing, or a refusal.\<close>

datatype pinned_spec = NoPin | Pinned dict | PinRefused

definition r3_materialized_advance_spec :: "drive_env \<Rightarrow> string \<Rightarrow> dict \<Rightarrow> string option \<Rightarrow> drive_world \<Rightarrow> pinned_spec" where
  "r3_materialized_advance_spec env run_id pending successor w =
     (case (if run_id = [] then None else successor, nonempty_str (cursor_of pending) ''next_spec_sha'') of
        (Some s, Some stamped) \<Rightarrow>
          (if s = [] then NoPin
           else
             (case dw_specs w s of
                NoFile \<Rightarrow> NoPin
              | TornFile \<Rightarrow> PinRefused
              | SpecFile v \<Rightarrow>
                  (case v of
                     JDict spec \<Rightarrow> if de_sha env spec = stamped then Pinned spec else PinRefused
                   | _ \<Rightarrow> PinRefused)))
      | _ \<Rightarrow> NoPin)"

section \<open>Standing consent at a gated boundary\<close>

definition run_requested_walltime :: "dict \<Rightarrow> rat option" where
  "run_requested_walltime sidecar =
     (case positive_number (jget (dict_or_empty (jget sidecar ''resources'')) ''walltime_sec'') of
        None \<Rightarrow> None
      | Some t \<Rightarrow>
          (let tasks = (case jint (or_zero (jget sidecar ''task_count'')) of None \<Rightarrow> 0 | Some n \<Rightarrow> n)
           in Some (t * of_int (max tasks 1))))"

definition drive_consultation :: "drive_env \<Rightarrow> nat \<Rightarrow> string \<Rightarrow> consultation" where
  "drive_consultation env n run_id =
     \<lparr>cn_scope_kind = ''run'', cn_scope_id = run_id, cn_event_kind = ''auto-advance'', cn_detail = [],
      cn_now = de_now env n, cn_now_text = de_now_text env n, cn_notification = de_notification env\<rparr>"

definition consume_overnight ::
  "drive_env \<Rightarrow> nat \<Rightarrow> string \<Rightarrow> string \<Rightarrow> bool \<Rightarrow> drive_world \<Rightarrow> consumption_outcome option \<times> drive_world" where
  "consume_overnight env n run_id successor clean_predecessor w =
     (if run_id = [] then (None, w)
      else
        (let sidecar = (case dw_sidecar w of None \<Rightarrow> [] | Some s \<Rightarrow> s);
             sha = (case str_or_blank (jget sidecar ''cmd_sha'') of None \<Rightarrow> [] | Some s \<Rightarrow> s);
             (out, ledger) = consume_boundary_under_consent (de_parse env) (drive_consultation env n run_id) successor sha
                               (nonempty_str sidecar ''cluster'') None (run_requested_walltime sidecar) clean_predecessor
                               (dw_run_decisions w) (dw_ledger w)
         in (Some out, w\<lparr>dw_ledger := ledger\<rparr>)))"

section \<open>Parking\<close>

text \<open>The target that a bare \<open>y\<close> at a park advances to.\<close>

definition greenlight_target :: "string \<Rightarrow> string option \<Rightarrow> jval \<Rightarrow> string option" where
  "greenlight_target verb successor stage =
     (if park_actor verb stage = Agent then None
      else
        (case successor of
           Some s \<Rightarrow> if s = [] then chain_successor verb else Some s
         | None \<Rightarrow> chain_successor verb))"

definition park_cursor :: "string \<Rightarrow> string option \<Rightarrow> string \<Rightarrow> string option \<Rightarrow> dict \<Rightarrow> dict \<Rightarrow> materialized \<Rightarrow> dict" where
  "park_cursor run_id fam verb successor spec result mz =
     [(''workflow'', jtext_option fam), (''run_id'', JText run_id), (''next_verb'', jtext_option successor),
      (''current_verb'', JText verb), (''input_spec'', JDict spec),
      (''next_spec_hint'', JDict (case mz_spec mz of Some s \<Rightarrow> s | None \<Rightarrow> next_spec_hint result)),
      (''parked_needs_decision'', JBool (truthy (jget result ''needs_decision'')))]
     @ (case mz_sha mz of None \<Rightarrow> [] | Some h \<Rightarrow> [(''next_spec_sha'', JText h)])"

text \<open>What the brief says of the materialised spec; the sentences beside it are left out.\<close>

definition park_brief :: "string option \<Rightarrow> dict \<Rightarrow> materialized \<Rightarrow> dict" where
  "park_brief successor result mz =
     (case brief_of (normalize_result_brief result) of
        None \<Rightarrow> []
      | Some b \<Rightarrow>
          (case (mz_spec mz, mz_refused mz) of
             (Some s, _) \<Rightarrow>
               AList.update ''materialized_successor_spec''
                 (JDict ([(''verb'', jtext_option successor), (''spec'', JDict s), (''sha256'', jtext_option (mz_sha mz))]
                         @ (case mz_path mz of None \<Rightarrow> [] | Some p \<Rightarrow> [(''path'', JText p)]))) b
           | (None, Some why) \<Rightarrow>
               AList.update ''materialized_successor_spec''
                 (JDict [(''verb'', jtext_option successor), (''refused'', JText why)]) b
           | (None, None) \<Rightarrow> b))"

definition park ::
  "drive_env \<Rightarrow> nat \<Rightarrow> string \<Rightarrow> string option \<Rightarrow> string \<Rightarrow> string option \<Rightarrow> dict \<Rightarrow> dict \<Rightarrow> drive_world \<Rightarrow> drive_world" where
  "park env n run_id workflow verb successor spec result w =
     (if run_id = [] then w
      else
        (let fam = first_some [case workflow of Some w \<Rightarrow> if w = [] then None else Some w | None \<Rightarrow> None, workflow_of verb];
             (mz, w) = materialize_successor_spec env run_id successor spec result w;
             payload = decision_payload verb (case fam of None \<Rightarrow> [] | Some x \<Rightarrow> x) (park_brief successor result mz)
                         (park_cursor run_id fam verb successor spec result mz) (de_now_text env n)
                         (JText (spec_sha env spec)) (actor_text (park_actor verb (jget result ''stage_reached'')))
         in case mark_pending_decision payload w of None \<Rightarrow> w | Some w' \<Rightarrow> w'))"

section \<open>The chain\<close>

datatype drive_action = Skip | AwaitingDecision | TerminalEnd | DetachedChild | Advanced | Reran | Chained

record drive_result =
  dr_action :: drive_action
  dr_workflow :: "string option"
  dr_current :: "string option"
  dr_next :: "string option"
  dr_queue_chain :: bool

definition result_of :: "drive_action \<Rightarrow> string option \<Rightarrow> string option \<Rightarrow> string option \<Rightarrow> drive_result" where
  "result_of act fam cur nxt = \<lparr>dr_action = act, dr_workflow = fam, dr_current = cur, dr_next = nxt, dr_queue_chain = False\<rparr>"

text \<open>A span that was run: the block, its input and the world it started in.\<close>

record span =
  sp_verb :: string
  sp_spec :: dict
  sp_world :: drive_world

datatype tick_outcome = Raised | OutOfSpans | Ticked drive_result int

definition stamp_tick :: "drive_env \<Rightarrow> nat \<Rightarrow> drive_world \<Rightarrow> drive_world" where
  "stamp_tick env n w =
     (if dw_pending w = None then w else w\<lparr>dw_tick := Some (de_now_text env n, de_due_text env n)\<rparr>)"

text \<open>
  The loop, for at most \<open>fuel\<close> spans. \<open>repark\<close> is the marker to restore when the first span fails; \<open>n\<close> counts
  the spans of the tick.
\<close>

fun chain ::
  "nat \<Rightarrow> drive_env \<Rightarrow> string \<Rightarrow> string option \<Rightarrow> nat \<Rightarrow> dict option \<Rightarrow> string \<Rightarrow> dict \<Rightarrow> drive_world
   \<Rightarrow> span list \<times> tick_outcome \<times> drive_world" where
  "chain 0 env run_id fam n repark verb spec w = ([], OutOfSpans, w)"
| "chain (Suc fuel) env run_id fam n repark verb spec w =
     (let started = \<lparr>sp_verb = verb, sp_spec = spec, sp_world = w\<rparr>;
          ((result, code), w1) = de_block env n verb spec w;
          w2 = (if run_id = [] then w1 else stamp_tick env n w1)
      in if result = []
         then ([started], Ticked (result_of Skip fam (Some verb) None) (if code = 0 then 1 else code),
               (case repark of None \<Rightarrow> w2 | Some m \<Rightarrow> repark_marker m w2))
         else
           (let result = normalize_result_brief result; successor = next_verb_of result
            in if is_detached result
               then ([started], Ticked (result_of DetachedChild fam (Some verb) successor) 0, w2)
               else if truthy (jget result ''needs_decision'')
               then ([started], Ticked (result_of AwaitingDecision fam (Some verb) successor) 0,
                     park env n run_id fam verb successor spec result w2)
               else
                 (case successor of
                    None \<Rightarrow>
                      ([started], Ticked ((result_of TerminalEnd fam (Some verb) None)\<lparr>dr_queue_chain := True\<rparr>) 0, w2)
                  | Some s \<Rightarrow>
                      (if is_gated s
                       then
                         (let (out, w3) = consume_overnight env n run_id s True w2
                          in if (case out of None \<Rightarrow> False | Some o1 \<Rightarrow> co_consumed o1)
                             then
                               (let next_spec = (case compose_successor s spec result of
                                                   Inr c \<Rightarrow> c | Inl e \<Rightarrow> next_spec_hint result);
                                    (spans, rest) = chain fuel env run_id fam (n + 1) None s next_spec w3
                                in (started # spans, rest))
                             else ([started], Ticked (result_of AwaitingDecision fam (Some verb) successor) 0,
                                   park env n run_id fam verb successor spec result w3))
                       else
                         (let (spans, rest) = chain fuel env run_id fam (n + 1) None s (next_spec_hint result) w2
                          in (started # spans, rest))))))"

section \<open>The tick\<close>

definition FRESH_ENTRY_RUN_ID_BLOCKS :: "string list" where
  "FRESH_ENTRY_RUN_ID_BLOCKS = [''status-snapshot'', ''aggregate-check'']"
definition FRESH_ENTRY_OPTIONAL_RUN_ID_BLOCKS :: "string list" where
  "FRESH_ENTRY_OPTIONAL_RUN_ID_BLOCKS = [''status-snapshot'']"
definition FRESH_ENTRY_AUDIT_BLOCKS :: "string list" where
  "FRESH_ENTRY_AUDIT_BLOCKS = [''audit-preflight'']"

definition fresh_entry_spec :: "string \<Rightarrow> string \<Rightarrow> dict \<Rightarrow> dict option" where
  "fresh_entry_spec verb run_id audit =
     (if verb \<in> set FRESH_ENTRY_AUDIT_BLOCKS
      then (let entry = filter (\<lambda>(k, v). v \<noteq> JNull) audit in if entry = [] then None else Some entry)
      else if verb \<in> set FRESH_ENTRY_RUN_ID_BLOCKS
      then (if run_id \<noteq> [] then Some [(''run_id'', JText run_id)]
            else if verb \<in> set FRESH_ENTRY_OPTIONAL_RUN_ID_BLOCKS then Some [] else None)
      else None)"

text \<open>The loser of the swap reports and touches nothing.\<close>

definition lost_the_consume_race ::
  "string option \<Rightarrow> string option \<Rightarrow> string option \<Rightarrow> drive_world \<Rightarrow> span list \<times> tick_outcome \<times> drive_world" where
  "lost_the_consume_race fam cur nxt w = ([], Ticked (result_of Advanced fam cur nxt) 0, w)"

text \<open>Consume the marker that was read, then go on; \<open>de_meanwhile\<close> is what the others did since the read.\<close>

definition consume_marker ::
  "drive_env \<Rightarrow> dict \<Rightarrow> drive_world \<Rightarrow> (drive_world \<Rightarrow> span list \<times> tick_outcome \<times> drive_world)
   \<Rightarrow> (drive_world \<Rightarrow> span list \<times> tick_outcome \<times> drive_world) \<Rightarrow> span list \<times> tick_outcome \<times> drive_world" where
  "consume_marker env pending w won lost =
     (let w = de_meanwhile env w in
      case compare_and_clear_pending_decision pending w of
        None \<Rightarrow> ([], Raised, w)
      | Some (True, w') \<Rightarrow> won w'
      | Some (False, w') \<Rightarrow> lost w')"

definition resume_agent_park ::
  "nat \<Rightarrow> drive_env \<Rightarrow> string \<Rightarrow> dict \<Rightarrow> string option \<Rightarrow> drive_world \<Rightarrow> span list \<times> tick_outcome \<times> drive_world" where
  "resume_agent_park fuel env run_id pending workflow w =
     (let cursor = cursor_of pending;
          fam = first_some [nonempty_str cursor ''workflow'', workflow];
          verb = text_of_jval (jget cursor ''current_verb'')
      in consume_marker env pending w
           (\<lambda>w. case (nonempty_str cursor ''current_verb'', jget cursor ''input_spec'') of
                  (Some v, JDict spec) \<Rightarrow> chain fuel env run_id fam 0 (Some pending) v spec w
                | _ \<Rightarrow> ([], Ticked (result_of Skip fam None None) 0, w))
           (lost_the_consume_race fam verb (text_of_jval (jget cursor ''next_verb''))))"

definition scope_decisions :: "string option \<Rightarrow> drive_world \<Rightarrow> dict list" where
  "scope_decisions scope_wf w = (if scope_wf = Some ''campaign'' then dw_campaign_decisions w else dw_run_decisions w)"

text \<open>The standing-consent leg of a parked gated boundary; \<open>None\<close> leaves it parked.\<close>

definition consume_parked_boundary_under_consent ::
  "nat \<Rightarrow> drive_env \<Rightarrow> string \<Rightarrow> dict \<Rightarrow> string option \<Rightarrow> drive_world
   \<Rightarrow> (span list \<times> tick_outcome \<times> drive_world) option \<times> drive_world" where
  "consume_parked_boundary_under_consent fuel env run_id pending workflow w =
     (let cursor = cursor_of pending;
          fam = first_some [nonempty_str pending ''workflow'', workflow];
          parked = text_of_jval (jget cursor ''current_verb'')
      in case nonempty_str cursor ''next_verb'' of
           None \<Rightarrow> (None, w)
         | Some gated \<Rightarrow>
             (if \<not> is_gated gated then (None, w)
              else if boundary_has_post_park_nudge (de_parse env) (scope_decisions fam w) parked (jget pending ''awaiting_since'')
              then (None, w)
              else
                (let (out, w1) = consume_overnight env 0 run_id gated
                                   (jget cursor ''parked_needs_decision'' = JBool False) w
                 in if (case out of None \<Rightarrow> True | Some o1 \<Rightarrow> \<not> co_consumed o1) then (None, w1)
                    else
                      (Some (consume_marker env pending w1
                         (\<lambda>w. chain fuel env run_id fam 0 (Some pending) gated (dict_or_empty (jget cursor ''next_spec_hint'')) w)
                         (lost_the_consume_race fam parked (Some gated))), w1))))"

definition committed_for :: "drive_env \<Rightarrow> string \<Rightarrow> dict \<Rightarrow> string option \<Rightarrow> drive_world \<Rightarrow> dict option" where
  "committed_for env run_id pending workflow w =
     (if run_id = [] then None
      else
        (let records = scope_decisions (first_some [nonempty_str pending ''workflow'', workflow]) w
         in if pending = [] then latest_committed_resolved records
            else committed_greenlight_for_boundary (de_parse env) records (text_of_jval (jget (cursor_of pending) ''current_verb''))
                   (text_of_jval (jget (cursor_of pending) ''next_verb'')) (jget pending ''awaiting_since'')))"

text \<open>The spec a resumed block runs under when nothing was materialised: the approved one, less what its model refuses.\<close>

definition resolved_spec :: "drive_env \<Rightarrow> string \<Rightarrow> dict option \<Rightarrow> dict" where
  "resolved_spec env verb committed =
     filter (\<lambda>(k, v). case de_fields env verb of None \<Rightarrow> True | Some accepted \<Rightarrow> k \<in> set accepted)
       (content (case committed of None \<Rightarrow> [] | Some c \<Rightarrow> c))"

text \<open>A plan that runs a block: the pin of an advance, the swap, then the chain.\<close>

definition run_plan ::
  "nat \<Rightarrow> drive_env \<Rightarrow> string \<Rightarrow> dict \<Rightarrow> dict option \<Rightarrow> dict \<Rightarrow> string option \<Rightarrow> drive_plan \<Rightarrow> string \<Rightarrow> drive_world
   \<Rightarrow> span list \<times> tick_outcome \<times> drive_world" where
  "run_plan fuel env run_id pending committed audit workflow pl verb w =
     (let fam = first_some [pl_workflow pl, workflow];
          pin = (if pending \<noteq> [] \<and> pl_action pl = PAdvance then r3_materialized_advance_spec env run_id pending (Some verb) w
                 else NoPin);
          spec = (case pin of Pinned s \<Rightarrow> s | _ \<Rightarrow> resolved_spec env verb committed)
      in if pl_action pl = PFresh
         then (case fresh_entry_spec verb run_id audit of
                 None \<Rightarrow> ([], Ticked (result_of Skip fam None (Some verb)) 0, w)
               | Some fresh \<Rightarrow> chain fuel env run_id fam 0 None verb fresh w)
         else if pin = PinRefused then ([], Ticked (result_of Skip fam (pl_current pl) (Some verb)) 1, w)
         else if pending \<noteq> [] \<and> pl_action pl = PAdvance \<and> pin = NoPin
                 \<and> jget (cursor_of pending) ''next_verb'' = JNull
                 \<and> content (case committed of None \<Rightarrow> [] | Some c \<Rightarrow> c) = []
         then ([], Ticked (result_of AwaitingDecision fam (pl_current pl) (Some verb)) 0, w)
         else if pending \<noteq> []
         then consume_marker env pending w (\<lambda>w. chain fuel env run_id fam 0 (Some pending) verb spec w)
                (lost_the_consume_race fam (pl_current pl)
                   (case pl_next pl of None \<Rightarrow> Some verb | Some nx \<Rightarrow> if nx = [] then Some verb else Some nx))
         else chain fuel env run_id fam 0 None verb spec w)"

text \<open>The fused append to the journal, \<open>Some None\<close> when it is refused; a dry run does not make it.\<close>

definition commit_fused_approval :: "bool \<Rightarrow> (drive_world \<Rightarrow> drive_world option) option \<Rightarrow> drive_world \<Rightarrow> drive_world option" where
  "commit_fused_approval dry_run approve w =
     (if dry_run then Some w else (case approve of None \<Rightarrow> Some w | Some f \<Rightarrow> f w))"

text \<open>A missing run id is the empty one.\<close>

definition run_tick ::
  "nat \<Rightarrow> drive_env \<Rightarrow> string \<Rightarrow> string option \<Rightarrow> bool \<Rightarrow> (drive_world \<Rightarrow> drive_world option) option \<Rightarrow> dict \<Rightarrow> drive_world
   \<Rightarrow> span list \<times> tick_outcome \<times> drive_world" where
  "run_tick fuel env run_id workflow dry_run approve audit w =
     (case commit_fused_approval dry_run approve w of
        None \<Rightarrow> ([], Raised, w)
      | Some w \<Rightarrow>
          (let pending = (if run_id = [] then [] else read_pending_decision w)
           in if pending \<noteq> [] \<and> \<not> dry_run \<and> pending_park_actor pending = ''agent''
              then resume_agent_park fuel env run_id pending workflow w
              else
                (let committed = committed_for env run_id pending workflow w
                 in case plan_block_action workflow pending committed (dict_or_empty (jget (cursor_of pending) ''input_spec'')) of
                      None \<Rightarrow> ([], Raised, w)
                    | Some pl \<Rightarrow>
                        (let fam = first_some [pl_workflow pl, workflow];
                             (leg, w1) = (if pl_action pl = PAwaiting \<and> \<not> dry_run \<and> run_id \<noteq> []
                                          then consume_parked_boundary_under_consent fuel env run_id pending workflow w
                                          else (None, w))
                         in case leg of
                              Some res \<Rightarrow> res
                            | None \<Rightarrow>
                                (case (pl_action pl, pl_verb pl) of
                                   (PSkip, _) \<Rightarrow> ([], Ticked (result_of Skip fam (pl_current pl) (pl_next pl)) 0, w1)
                                 | (PAwaiting, _) \<Rightarrow> ([], Ticked (result_of AwaitingDecision fam (pl_current pl) (pl_next pl)) 0, w1)
                                 | (PTerminal, _) \<Rightarrow> ([], Ticked (result_of TerminalEnd fam (pl_current pl) (pl_next pl)) 0, w1)
                                 | (_, None) \<Rightarrow> ([], Ticked (result_of Skip fam (pl_current pl) (pl_next pl)) 0, w1)
                                 | (_, Some verb) \<Rightarrow>
                                     (if dry_run then ([], Ticked (result_of Skip fam (pl_current pl) (Some verb)) 0, w1)
                                      else run_plan fuel env run_id pending committed audit workflow pl verb w1))))))"

end
