(* ===== verification/BlockChainLaws.thy ===== *)
theory BlockChainLaws
  imports BlockChain
begin

text \<open>
  What the tables and composers of the block chain guarantee: a hint is already the whole input of an ungated
  successor, the table has one cycle, a gated block is entered from a block that hands it an identity, and
  the route of an edit depends on where the earliest owner of a changed field stands.
\<close>

section \<open>Composed specs\<close>

lemma jget_append: "jget (d @ e) k = (if map_of d k = None then jget e k else jget d k)"
  by (auto simp: jget_def map_add_def split: option.splits)

lemma map_of_carried: "map_of (carried keys d) k = (if k \<in> set keys \<and> jget d k \<noteq> JNull then Some (jget d k) else None)"
  by (induction keys) (auto simp: carried_def)

lemma map_of_lists_at:
  "map_of (lists_at keys d) k = (if k \<in> set keys then (case jget d k of JList xs \<Rightarrow> Some (JList xs) | _ \<Rightarrow> None) else None)"
  by (induction keys) (auto simp: lists_at_def List.map_filter_simps split: jval.splits option.splits)

lemma jget_carried: "jget (carried keys d) k = (if k \<in> set keys then jget d k else JNull)"
  by (simp add: jget_def [of "carried keys d"] map_of_carried)

lemma jget_lists_at: "jget (lists_at keys d) k = (if k \<in> set keys then (case jget d k of JList xs \<Rightarrow> JList xs | _ \<Rightarrow> JNull) else JNull)"
  by (simp add: jget_def [of "lists_at keys d"] map_of_lists_at split: jval.splits)

lemma carried_cong: "(\<And>k. k \<in> set keys \<Longrightarrow> jget d k = jget e k) \<Longrightarrow> carried keys d = carried keys e"
  by (auto simp: carried_def intro!: map_cong filter_cong)

lemma lists_at_cong:
  assumes "\<And>k. k \<in> set keys \<Longrightarrow> (case jget d k of JList xs \<Rightarrow> Some (k, JList xs) | _ \<Rightarrow> None)
      = (case jget e k of JList xs \<Rightarrow> Some (k, JList xs) | _ \<Rightarrow> None)"
  shows "lists_at keys d = lists_at keys e"
  using assms by (induction keys) (simp_all add: lists_at_def List.map_filter_simps cong: option.case_cong)

lemma audit_seat_eq:
  "audit_seat successor d =
     (case nonempty_str d ''audit_id'' of
        None \<Rightarrow> incomplete successor ''audit_id''
      | Some a \<Rightarrow>
          (case nonempty_str d ''source'' of
             None \<Rightarrow> incomplete successor ''source''
           | Some s \<Rightarrow>
               (case nonempty_str d ''template'' of
                  None \<Rightarrow> incomplete successor ''template''
                | Some t \<Rightarrow> Inr [(''audit_id'', JText a), (''source'', JText s), (''template'', JText t)])))"
  by (simp add: audit_seat_def incomplete_def split: option.split)

lemma audit_seat_Inr:
  "audit_seat successor d = Inr seat \<longleftrightarrow>
     (\<exists>a s t. nonempty_str d ''audit_id'' = Some a \<and> nonempty_str d ''source'' = Some s \<and> nonempty_str d ''template'' = Some t
        \<and> seat = [(''audit_id'', JText a), (''source'', JText s), (''template'', JText t)])"
  by (auto simp: audit_seat_eq incomplete_def split: option.splits)

lemma audit_seat_again:
  assumes "audit_seat successor d = Inr seat"
  shows "audit_seat successor (seat @ e) = Inr seat"
  using assms by (elim audit_seat_Inr [THEN iffD1, elim_format] exE conjE) (simp add: audit_seat_Inr nonempty_str_Some)

lemma jget_seat: "audit_seat successor d = Inr seat \<Longrightarrow> k \<notin> {''audit_id'', ''source'', ''template''} \<Longrightarrow> jget (seat @ e) k = jget e k"
  by (auto simp: audit_seat_Inr)

lemma lint_again:
  assumes "compose_notebook_lint_spec h p b = Inr s"
  shows "compose_notebook_lint_spec s p' b' = Inr s"
proof -
  from assms obtain seat where seat: "audit_seat ''notebook-lint'' h = Inr seat"
    and s: "s = seat @ lists_at [''input_roots'', ''source_roots'', ''output_roots''] h"
    by (auto simp: compose_notebook_lint_spec_def split: sum.splits)
  have "lists_at [''input_roots'', ''source_roots'', ''output_roots''] s
      = lists_at [''input_roots'', ''source_roots'', ''output_roots''] h"
    unfolding s by (rule lists_at_cong) (auto simp: jget_seat [OF seat] jget_lists_at split: jval.splits)
  then show ?thesis
    using audit_seat_again [OF seat] by (simp add: compose_notebook_lint_spec_def s)
qed

lemma seat_only_again:
  assumes "compose_audit_seat_only_spec successor keys h p b = Inr s"
    and "\<And>k. k \<in> set keys \<Longrightarrow> k \<notin> {''audit_id'', ''source'', ''template''}"
  shows "compose_audit_seat_only_spec successor keys s p' b' = Inr s"
proof -
  from assms(1) obtain seat where seat: "audit_seat successor h = Inr seat" and s: "s = seat @ carried keys h"
    by (auto simp: compose_audit_seat_only_spec_def split: sum.splits)
  have "jget s k = jget h k" if "k \<in> set keys" for k
    using assms(2) [OF that] that jget_seat [OF seat, of k "carried keys h"] by (simp add: s jget_carried)
  then have "carried keys s = carried keys h" by (rule carried_cong)
  then show ?thesis using audit_seat_again [OF seat] by (simp add: compose_audit_seat_only_spec_def s)
qed

lemma wrap_again:
  assumes "compose_wrap_entry_point_auto_spec h p b = Inr s"
  shows "compose_wrap_entry_point_auto_spec s p' b' = Inr s"
proof (cases "text_at h ''entry_point_path'' \<and> map_of h ''source'' = None")
  case True
  with assms show ?thesis by (simp add: compose_wrap_entry_point_auto_spec_def)
next
  case False
  with assms obtain g src where "s = [(''goal'', JText g), (''entry_point_path'', JText src)]
      @ (case nonempty_str h ''run_name'' of None \<Rightarrow> [] | Some n \<Rightarrow> [(''run_name'', JText n)]) @ audited_source_of h"
    by (auto simp: compose_wrap_entry_point_auto_spec_def incomplete_def split: option.splits)
  then have "text_at s ''entry_point_path''" and "map_of s ''source'' = None"
    by (auto simp: text_at_def audited_source_of_def jget_def split: option.splits jval.splits)
  then show ?thesis by (simp add: compose_wrap_entry_point_auto_spec_def)
qed

lemma submit_s1_again:
  assumes "compose_submit_s1_spec h p b = Inr s"
  shows "compose_submit_s1_spec s p' b' = Inr s"
  using assms by (auto simp: compose_submit_s1_spec_def incomplete_def split: jval.splits)

text \<open>A spec of the interview: the fields its model requires, and no fragment of another one inside.\<close>

definition interview_spec_shaped :: "dict \<Rightarrow> bool" where
  "interview_spec_shaped d \<longleftrightarrow> text_at d ''goal'' \<and> jget d ''task_count'' \<noteq> JNull \<and> jget d ''interview_spec'' = JNull"

lemma interview_again:
  assumes "compose_interview_spec h p b = Inr s" and "interview_spec_shaped s"
  shows "compose_interview_spec s p' b' = Inr s"
  using assms(2) by (simp add: compose_interview_spec_def interview_spec_shaped_def)

lemma ungated_composers:
  assumes "map_of UNGATED_SPEC_COMPOSERS v = Some c" "c h [] [] = Inr s" "v = ''interview'' \<Longrightarrow> interview_spec_shaped s"
  shows "c s p b = Inr s"
  using assms
  by (auto simp: UNGATED_SPEC_COMPOSERS_def AUDIT_SPEC_COMPOSERS_def ONBOARD_SPEC_COMPOSERS_def
      intro: lint_again seat_only_again wrap_again submit_s1_again interview_again split: if_splits)

text \<open>A hint is the whole spec. What a terminator hands to an ungated successor is already that successor's
  complete input: composing it again, at a park or on a later tick, with whatever predecessor and brief,
  gives the same spec back. For the interview this rests on the fragment having the fields its model
  requires.\<close>

lemma hint_is_the_whole_spec:
  assumes "next_block_hint v stage why h = Inr (Some hint)"
    and "jget hint ''verb'' = JText s" and "jget hint ''spec_hint'' = JDict d" and "\<not> is_gated s"
    and "s = ''interview'' \<longrightarrow> interview_spec_shaped d"
  shows "compose_successor_spec s d p b = Inr d"
proof -
  from assms(1-3) have c: "complete_spec_hint s h = Inr d"
    by (auto simp: next_block_hint_def split: option.splits sum.splits)
  have g: "map_of GATED_SPEC_COMPOSERS s = None"
    using assms(4) by (auto simp: GATED_SPEC_COMPOSERS_def is_gated_def GATED_BLOCKS_def)
  then have sc: "map_of SPEC_COMPOSERS s = map_of UNGATED_SPEC_COMPOSERS s"
    by (simp add: SPEC_COMPOSERS_def map_add_def split: option.split)
  show ?thesis
  proof (cases "map_of UNGATED_SPEC_COMPOSERS s")
    case None
    then show ?thesis by (simp add: compose_successor_spec_def sc)
  next
    case (Some comp)
    with c have "comp h [] [] = Inr d" by (simp add: complete_spec_hint_def)
    from ungated_composers [OF Some this] assms(5) Some show ?thesis by (simp add: compose_successor_spec_def sc)
  qed
qed

lemma hint_is_the_whole_spec_witness:
  "compose_successor_spec ''notebook-lint''
     [(''audit_id'', JText ''a''), (''source'', JText ''s.py''), (''template'', JText ''t.py''), (''input_roots'', JList [])]
     [(''x'', JNull)] [] =
   Inr [(''audit_id'', JText ''a''), (''source'', JText ''s.py''), (''template'', JText ''t.py''), (''input_roots'', JList [])]"
proof (rule hint_is_the_whole_spec [where v = "''audit-preflight''" and stage = "''preflight_go''" and why = "''go''"
    and h = "[(''audit_id'', JText ''a''), (''source'', JText ''s.py''), (''template'', JText ''t.py''), (''input_roots'', JList []), (''note'', JNull)]"
    and hint = "[(''verb'', JText ''notebook-lint''), (''why'', JText ''go''), (''spec_hint'',
      JDict [(''audit_id'', JText ''a''), (''source'', JText ''s.py''), (''template'', JText ''t.py''), (''input_roots'', JList [])])]"])
  show "\<not> is_gated ''notebook-lint''" by (simp add: is_gated_def GATED_BLOCKS_def)
  show "next_block_hint ''audit-preflight'' ''preflight_go'' ''go''
      [(''audit_id'', JText ''a''), (''source'', JText ''s.py''), (''template'', JText ''t.py''), (''input_roots'', JList []), (''note'', JNull)]
    = Inr (Some [(''verb'', JText ''notebook-lint''), (''why'', JText ''go''), (''spec_hint'',
      JDict [(''audit_id'', JText ''a''), (''source'', JText ''s.py''), (''template'', JText ''t.py''), (''input_roots'', JList [])])])"
    by code_simp
qed simp_all

section \<open>The one cycle of the table\<close>

text \<open>How many blocks can still follow, watching again left aside.\<close>

definition rank :: "string \<Rightarrow> nat" where
  "rank v = (case map_of
     [(''audit-preflight'', 13), (''notebook-lint'', 12), (''notebook-auto-clear'', 11), (''notebook-audit-view'', 10),
      (''notebook-status'', 9), (''audit-handoff'', 8), (''wrap-entry-point-auto'', 7), (''interview'', 6),
      (''submit-s1'', 5), (''submit-s2'', 4), (''submit-s3'', 3), (''status-snapshot'', 3), (''status-watch'', 2),
      (''submit-s4'', 1), (''aggregate-check'', 2), (''aggregate-run'', 1), (''campaign-greenlight'', 3),
      (''campaign-watch'', 2), (''campaign-complete'', 1), (''campaign-refill'', 1)] v of None \<Rightarrow> 0 | Some n \<Rightarrow> n)"

lemma rank_le: "rank v \<le> 13"
  by (simp add: rank_def split: option.split)

lemma rank_pos: "workflow_of v \<noteq> None \<Longrightarrow> 0 < rank v"
proof -
  have "list_all (\<lambda>(v, w). 0 < rank v) WORKFLOW_OF" by code_simp
  then show "workflow_of v \<noteq> None \<Longrightarrow> 0 < rank v" by (auto simp: workflow_of_def list_all_iff dest: map_of_SomeD)
qed

lemma successor_known:
  assumes "successor_verb v s = Some t"
  shows "workflow_of t \<noteq> None"
  using bspec [OF successors_known [unfolded list_all_iff] successor_verb_entry [OF assms]] by simp

lemma only_cycle:
  assumes "successor_verb v s = Some t"
  shows "rank t < rank v \<or> v = ''status-watch'' \<and> s = ''watch_timeout'' \<and> t = v"
proof -
  have "list_all (\<lambda>((v, s), t). case t of None \<Rightarrow> True
      | Some t \<Rightarrow> rank t < rank v \<or> v = ''status-watch'' \<and> s = ''watch_timeout'' \<and> t = v) SUCCESSORS" by code_simp
  with successor_verb_entry [OF assms] show ?thesis by (auto simp: list_all_iff)
qed

section \<open>Parks of the agent\<close>

lemma agent_park_has_no_successor:
  assumes "park_actor v (JText s) = Agent"
  shows "successor_verb v s = None \<and> \<not> is_gated v"
proof -
  have "list_all (\<lambda>(v, s). successor_verb v s = None \<and> \<not> is_gated v) AGENT_PARKS" by code_simp
  moreover have "(v, s) \<in> set AGENT_PARKS" using assms by (auto simp: park_actor_def split: if_splits)
  ultimately show ?thesis by (auto simp: list_all_iff)
qed

text \<open>Deadlines. The driver waits for a block a positive and bounded time, whatever its input: never more than
  its own wall clock budget, or a day, and a quarter of an hour; and a watch is never cut short of its budget.\<close>

lemma deadlines_are_finite:
  shows "0 < verb_deadline_seconds v spec"
    and "verb_deadline_seconds v spec \<le> (case spec_wall_clock_budget spec of None \<Rightarrow> 86400 | Some b \<Rightarrow> max b 3600) + 900"
    and "v \<in> set WATCH_VERBS \<Longrightarrow> spec_wall_clock_budget spec = Some b \<Longrightarrow> b < verb_deadline_seconds v spec"
proof -
  have b: "0 \<le> b" if "spec_wall_clock_budget spec = Some b" for b
    using that by (auto simp: spec_wall_clock_budget_def budget_of_def split: jval.splits option.splits if_splits)
  have d: "t \<in> {600, 3600}" if "map_of DEADLINE_SECONDS v = Some t" for t
    using map_of_SomeD [OF that] by (auto simp: DEADLINE_SECONDS_def QUICK_VERB_DEADLINE_SEC_def HEAVY_VERB_DEADLINE_SEC_def)
  show "0 < verb_deadline_seconds v spec"
    by (auto simp: verb_deadline_seconds_def WATCH_DEFAULT_BUDGET_SEC_def WATCH_BUDGET_SLACK_SEC_def dest!: b d split: option.split)
  show "verb_deadline_seconds v spec \<le> (case spec_wall_clock_budget spec of None \<Rightarrow> 86400 | Some b \<Rightarrow> max b 3600) + 900"
    by (auto simp: verb_deadline_seconds_def WATCH_DEFAULT_BUDGET_SEC_def WATCH_BUDGET_SLACK_SEC_def dest!: b d split: option.split)
  show "b < verb_deadline_seconds v spec" if "v \<in> set WATCH_VERBS" "spec_wall_clock_budget spec = Some b"
    using that by (simp add: verb_deadline_seconds_def WATCH_BUDGET_SLACK_SEC_def)
qed

end
