(* ===== verification/ConsentLaws.thy ===== *)
theory ConsentLaws
  imports StandingConsent
begin

text \<open>
  What a standing consent covers: exactly when it is live, which boundaries it can never open, that a boundary is
  consumed once per spec identity however often it is consulted, that a composed consent passes the gate that
  records it, that the read-only probe answers as the gate does, and the caps that no ledger ever trips.
\<close>

section \<open>When a consent is live\<close>

definition consent_spec :: "dict \<Rightarrow> dict" where
  "consent_spec consent = dict_or_empty (jget consent ''resolved'')"

text \<open>The placement and the caps a consultation has to respect.\<close>

definition within_placement :: "dict \<Rightarrow> string option \<Rightarrow> bool" where
  "within_placement r placement \<longleftrightarrow>
     (case (normalize_recorded_placement (jget r ''placement''), placement) of
        (Some names, Some c) \<Rightarrow> c = [] \<or> c \<in> set names | _ \<Rightarrow> True)"

definition within_caps :: "dict \<Rightarrow> rat \<Rightarrow> rat \<Rightarrow> bool" where
  "within_caps r b w \<longleftrightarrow>
     (case positive_number (jget r ''budget_cap'') of Some cap \<Rightarrow> b \<le> cap | None \<Rightarrow> True)
     \<and> (case positive_number (jget r ''walltime_cap'') of Some cap \<Rightarrow> w \<le> cap | None \<Rightarrow> True)"

definition within_cluster_caps :: "dict \<Rightarrow> string option \<Rightarrow> dict list \<Rightarrow> bool" where
  "within_cluster_caps r placement ledger \<longleftrightarrow>
     (\<forall>caps. map_of (placement_cluster_caps (jget r ''placement'')) (case placement of None \<Rightarrow> [] | Some c \<Rightarrow> c) = Some caps \<longrightarrow>
        (\<forall>cap. map_of caps ''budget_cap'' = Some cap \<longrightarrow> fst (consumed_spend placement ledger) \<le> cap)
        \<and> (\<forall>cap. map_of caps ''walltime_cap'' = Some cap \<longrightarrow> snd (consumed_spend placement ledger) \<le> cap))"

lemma drift_iff: "pd_changed (detect_placement_drift (jget r ''placement'') p) \<longleftrightarrow> \<not> within_placement r p"
  by (simp add: detect_placement_drift_def within_placement_def Let_def split: option.splits)

lemma over_caps_iff:
  "over_cap b (jget r ''budget_cap'') \<or> over_cap w (jget r ''walltime_cap'') \<longleftrightarrow> \<not> within_caps r b w"
  by (auto simp: over_cap_def within_caps_def split: option.splits)

lemma over_cluster_caps_iff:
  "(let caps = (case map_of (placement_cluster_caps (jget r ''placement'')) (case p of None \<Rightarrow> [] | Some c \<Rightarrow> c) of
                  None \<Rightarrow> [] | Some cs \<Rightarrow> cs)
    in over_cluster_cap (fst (consumed_spend p ledger)) ''budget_cap'' caps
       \<or> over_cluster_cap (snd (consumed_spend p ledger)) ''walltime_cap'' caps)
   \<longleftrightarrow> \<not> within_cluster_caps r p ledger"
  by (auto simp: over_cluster_cap_def within_cluster_caps_def Let_def not_le split: option.splits)


lemma live_names_consent:
  "cd_live (standing_consent_status parse kind decisions ledger sha placement now b w) \<Longrightarrow>
   cd_consent (standing_consent_status parse kind decisions ledger sha placement now b w) = latest_standing_consent decisions"
proof -
  obtain x y where xy: "consumed_spend placement ledger = (x, y)" by force
  show "cd_live (standing_consent_status parse kind decisions ledger sha placement now b w) \<Longrightarrow>
      cd_consent (standing_consent_status parse kind decisions ledger sha placement now b w) = latest_standing_consent decisions"
    unfolding standing_consent_status_def xy
    by (cases "latest_standing_consent decisions") (simp_all add: refused_def Let_def split: if_splits)
qed

section \<open>What a consent can never open\<close>

lemma consumed_cases:
  assumes "consume_boundary_under_consent parse c block sha placement b w clean decisions ledger = (out, ledger')"
    and "co_consumed out"
  shows "is_consumable_boundary (cn_scope_kind c) block clean"
    and "cd_live (standing_consent_status parse (cn_scope_kind c) decisions ledger sha placement (cn_now c)
           (case b of None \<Rightarrow> fst (consumed_spend None ledger) | Some v \<Rightarrow> v)
           (case w of None \<Rightarrow> snd (consumed_spend None ledger) | Some v \<Rightarrow> v))"
proof -
  obtain x y where xy: "consumed_spend None ledger = (x, y)" by force
  show "is_consumable_boundary (cn_scope_kind c) block clean"
    using assms by (auto simp: consume_boundary_under_consent_def split: if_splits)
  then show "cd_live (standing_consent_status parse (cn_scope_kind c) decisions ledger sha placement (cn_now c)
      (case b of None \<Rightarrow> fst (consumed_spend None ledger) | Some v \<Rightarrow> v)
      (case w of None \<Rightarrow> snd (consumed_spend None ledger) | Some v \<Rightarrow> v))"
    using assms unfolding consume_boundary_under_consent_def xy fst_conv snd_conv by (auto simp: Let_def split: if_splits)
qed

lemma consumable_run_blocks:
  "is_consumable_boundary ''run'' block clean \<longleftrightarrow> block = ''submit-s3'' \<or> clean \<and> block \<in> {''submit-s4'', ''aggregate-run''}"
  by (auto simp: is_consumable_boundary_def listed_def OVERNIGHT_CONSUMABLE_BLOCKS_def OVERNIGHT_CLEAN_TERMINAL_CONSUMABLE_def)

section \<open>Once per identity\<close>

text \<open>One consultation of a scope's consent, at any time, by any caller.\<close>

record consult =
  ct_c :: consultation
  ct_block :: string
  ct_sha :: string
  ct_placement :: "string option"
  ct_budget :: "rat option"
  ct_walltime :: "rat option"
  ct_clean :: bool
  ct_decisions :: "dict list"

definition consult_step :: "iso_parser \<Rightarrow> dict list \<Rightarrow> consult \<Rightarrow> dict list" where
  "consult_step parse ledger q =
     snd (consume_boundary_under_consent parse (ct_c q) (ct_block q) (ct_sha q) (ct_placement q) (ct_budget q) (ct_walltime q)
            (ct_clean q) (ct_decisions q) ledger)"

definition consults :: "iso_parser \<Rightarrow> consult list \<Rightarrow> dict list" where
  "consults parse qs = foldl (consult_step parse) [] qs"

definition line_key :: "dict \<Rightarrow> string option \<times> string option \<times> string option" where
  "line_key row = (str_or_blank (jget row ''consumed_block''), str_or_blank (jget (detail_of row) ''cmd_sha''),
                   str_or_blank (jget (detail_of row) ''anomaly''))"

text \<open>A detail as the callers write it: no identity of its own, and an anomaly that is a text when there is one.\<close>

definition plain_detail :: "dict \<Rightarrow> bool" where
  "plain_detail d \<longleftrightarrow> distinct (map fst d) \<and> map_of d ''cmd_sha'' = None \<and> (\<exists>s. str_or_blank (jget d ''anomaly'') = Some s)
     \<and> positive_number (jget d ''spent_budget'') = None \<and> positive_number (jget d ''spent_walltime'') = None"

lemma overlay_get:
  "distinct (map fst e) \<Longrightarrow> jget (foldl (\<lambda>d (k, v). AList.update k v d) d e) k = (case map_of e k of None \<Rightarrow> jget d k | Some v \<Rightarrow> v)"
proof (induction e arbitrary: d)
  case (Cons p e)
  obtain k' v where p: "p = (k', v)" by force
  have "map_of e k' = None" using Cons.prems p by (simp add: map_of_eq_None_iff)
  with Cons p show ?case by (auto simp: jget_update split: option.splits)
qed simp

lemma jget_None: "map_of d k = None \<Longrightarrow> jget d k = JNull"
  by (simp add: jget_def)

lemma jget_snoc: "jget (d @ [(k', v)]) k = (if map_of d k = None \<and> k = k' then v else jget d k)"
  by (auto simp: jget_def map_add_def split: option.splits)

lemma stamped_get:
  assumes "plain_detail d" and "k \<noteq> ''cluster''"
  shows "jget (stamped_detail sha placement d) k = (if k = ''cmd_sha'' then JText sha else jget d k)"
proof -
  have "distinct (map fst d)" and "map_of d ''cmd_sha'' = None" using assms(1) by (simp_all add: plain_detail_def)
  then have g: "jget (foldl (\<lambda>d (k, v). AList.update k v d) [(''cmd_sha'', JText sha)] d) k
      = (if k = ''cmd_sha'' then JText sha else jget d k)"
    by (auto simp: overlay_get jget_None jget_def [of d] split: option.splits)
  have "jget (stamped_detail sha placement d) k = jget (foldl (\<lambda>d (k, v). AList.update k v d) [(''cmd_sha'', JText sha)] d) k"
    using assms(2) by (simp add: stamped_detail_def Let_def jget_snoc split: option.split)
  then show ?thesis by (simp only: g)
qed

lemma consumption_get:
  "jget (consumption_line kind cid block ev at1 at2 d nt) ''consumed_block'' = JText block"
  "detail_of (consumption_line kind cid block ev at1 at2 d nt) = d"
  "event_of (consumption_line kind cid block ev at1 at2 d nt) = Some ev"
  by (simp_all add: consumption_line_def detail_of_def dict_or_empty_def event_of_def str_or_blank_def)

text \<open>The line a consultation adds, if it adds one.\<close>

lemma consult_cases:
  assumes "plain_detail (cn_detail (ct_c q))"
  obtains "consult_step parse ledger q = ledger"
  | row where "consult_step parse ledger q = ledger @ [row]" and "line_key row \<notin> line_key ` set ledger"
    and "detail_of row = stamped_detail (ct_sha q) (ct_placement q) (cn_detail (ct_c q))"
proof -
  let ?d = "cn_detail (ct_c q)"
  let ?row = "consumption_line (cn_scope_kind (ct_c q)) (cn_scope_id (ct_c q)) (ct_block q) (cn_event_kind (ct_c q))
      (cn_now_text (ct_c q)) (cn_now_text (ct_c q)) (stamped_detail (ct_sha q) (ct_placement q) ?d) (cn_notification (ct_c q))"
  obtain s where s: "str_or_blank (jget ?d ''anomaly'') = Some s" using assms by (auto simp: plain_detail_def)
  have key: "line_key ?row = (Some (ct_block q), Some (ct_sha q), Some s)"
    using s by (simp add: line_key_def consumption_get stamped_get [OF assms] str_or_blank_def)
  have "already_consumed ledger (ct_block q) (ct_sha q) (event_key_of ?d) \<longleftrightarrow> line_key ?row \<in> line_key ` set ledger"
    unfolding key using s
    by (auto simp: already_consumed_def list_ex_iff line_key_def event_key_of_def image_iff split: if_splits; metis)
  moreover have "consult_step parse ledger q = ledger
      \<or> \<not> already_consumed ledger (ct_block q) (ct_sha q) (event_key_of ?d) \<and> consult_step parse ledger q = ledger @ [?row]"
    by (auto simp: consult_step_def consume_boundary_under_consent_def Let_def split: prod.splits)
  ultimately show thesis using that consumption_get(2) by blast
qed


section \<open>The caps that no ledger trips\<close>

lemma no_spend:
  assumes "\<And>row. row \<in> set ledger \<Longrightarrow> positive_number (jget (detail_of row) key) = None"
  shows "spent_at key cl ledger = 0"
proof -
  have "(\<Sum>row\<leftarrow>xs. case positive_number (jget (detail_of row) key) of None \<Rightarrow> 0 | Some r \<Rightarrow> r) = 0"
    if "set xs \<subseteq> set ledger" for xs using that assms by (induction xs) auto
  then show ?thesis by (simp add: spent_at_def)
qed

lemma consults_spend_nothing:
  assumes "list_all (\<lambda>q. plain_detail (cn_detail (ct_c q))) qs"
  shows "consumed_spend cl (consults parse qs) = (0, 0)"
proof -
  have "positive_number (jget (detail_of row) key) = None"
    if "row \<in> set (consults parse qs)" "key \<in> {''spent_budget'', ''spent_walltime''}" for row key
    using assms that(1)
  proof (induction qs rule: rev_induct)
    case Nil
    then show ?case by (simp add: consults_def)
  next
    case (snoc q qs)
    then have p: "plain_detail (cn_detail (ct_c q))" by simp
    from consult_cases [OF p, of parse "consults parse qs"] show ?case
    proof cases
      case 1
      with snoc show ?thesis by (simp add: consults_def)
    next
      case (2 new)
      have "positive_number (jget (detail_of new) key) = None"
        using p that(2) by (auto simp: 2(3) stamped_get [OF p] plain_detail_def)
      with snoc 2(1) show ?thesis by (auto simp: consults_def)
    qed
  qed
  then show ?thesis by (simp add: consumed_spend_def no_spend)
qed

lemma cluster_caps_positive:
  "map_of (placement_cluster_caps v) c = Some caps \<Longrightarrow> map_of caps f = Some cap \<Longrightarrow> 0 < cap"
  by (auto simp: placement_cluster_caps_def caps_of_def PLACEMENT_CAP_FIELDS_def List.map_filter_simps positive_number_def
      split: option.splits jval.splits if_splits dest!: map_of_SomeD)

text \<open>Cluster caps never bind. The caps that a consent declares per cluster are compared with what the ledger
  says that cluster has spent, and no consultation writes a spend: as long as the callers' details carry none, as
  none does, no consultation is ever refused on a cluster's cap, however low the cap and however many boundaries
  it has opened.\<close>

lemma cluster_caps_never_bind:
  assumes "list_all (\<lambda>q. plain_detail (cn_detail (ct_c q))) qs"
  shows "cd_reason (standing_consent_status parse kind decisions (consults parse qs) sha placement now b w)
    \<notin> {''over-cluster-budget-cap'', ''over-cluster-walltime-cap''}"
proof -
  have "\<not> over_cluster_cap 0 f (case map_of (placement_cluster_caps v) c of None \<Rightarrow> [] | Some cs \<Rightarrow> cs)" for f v c
    using cluster_caps_positive by (fastforce simp: over_cluster_cap_def split: option.splits)
  then show ?thesis
    by (simp add: standing_consent_status_def consults_spend_nothing [OF assms] refused_def Let_def split: option.split)
qed

section \<open>Recording a consent\<close>

lemma jget_mark_composed: "k \<noteq> ''composed_defaults'' \<Longrightarrow> jget (mark_composed f d) k = jget d k"
  by (simp add: mark_composed_def Let_def jget_update)

lemma composed_cmd_sha: "nonempty_str (compose_consent_defaults parse render mb now r) ''cmd_sha'' = nonempty_str r ''cmd_sha''"
  "jget (compose_consent_defaults parse render mb now r) ''placement'' = jget r ''placement''"
  by (simp_all add: compose_consent_defaults_def Let_def nonempty_str_def jget_mark_composed jget_update)

text \<open>A composed consent is recordable. A consent that names a spec identity, and a placement the gate can read if it
  names one, passes the caps gate once code has filled in what was not typed; the only thing that still
  refuses it is an expiry typed in the past.\<close>

lemma composed_consent_passes_caps_gate:
  assumes clock: "parse (render (morning now)) = Some (morning now)" "render (morning now) \<noteq> []" "now < morning now"
    and r: "nonempty_str r ''cmd_sha'' \<noteq> None" "assert_placement_wellformed known (jget r ''placement'') = None"
  shows "assert_consent_hard_caps parse now known (compose_consent_defaults parse render morning now r)
    = (case parse_iso_utc_or_none parse (jget r ''expires_at'') of
         None \<Rightarrow> None | Some e \<Rightarrow> if e \<le> now then Some AlreadyExpired else None)"
proof -
  let ?c = "compose_consent_defaults parse render morning now r"
  have e: "parse_iso_utc_or_none parse (jget ?c ''expires_at'')
      = Some (case parse_iso_utc_or_none parse (jget r ''expires_at'') of None \<Rightarrow> morning now | Some e \<Rightarrow> e)"
    using clock(1,2)
    by (auto simp: compose_consent_defaults_def Let_def jget_mark_composed jget_update parse_iso_utc_or_none_def [of _ "JText _"]
        split: option.split)
  have cap: "positive_number (jget ?c ''budget_cap'') \<noteq> None \<or> positive_number (jget ?c ''walltime_cap'') \<noteq> None"
    by (auto simp: compose_consent_defaults_def Let_def jget_mark_composed jget_update positive_number_def [of "JInt _"]
        DEFAULT_MORNING_HOUR_def split: option.split)
  show ?thesis
    using e cap r clock(3) by (auto simp: assert_consent_hard_caps_def composed_cmd_sha split: option.splits)
qed

section \<open>The probe and the gate\<close>

text \<open>The probe answers as the gate. The read-only probe says a block is authorised exactly when the block's own gate
  would let it run, given the one piece of evidence the probe can see: that the boundary is on the ledger.\<close>

lemma probe_agrees_with_gate:
  assumes "cn_scope_kind c = kind" and "cn_now c = now"
  shows "ap_authorized (probe_authorization parse kind verb sha placement now run_decisions scope_decisions ledger)
    \<longleftrightarrow> \<not> isl (fst (assert_greenlit_or_consented parse c verb sha placement (boundary_already_ledgered ledger verb sha)
                    run_decisions scope_decisions ledger))"
proof (cases "greenlight_naming run_decisions verb")
  case (Some rec)
  then show ?thesis by (simp add: probe_authorization_def assert_greenlit_or_consented_def assert_greenlit_target_def)
next
  case None
  obtain x y where xy: "consumed_spend None ledger = (x, y)" by force
  from None have "assert_greenlit_target run_decisions verb \<noteq> None" by (simp add: assert_greenlit_target_def Let_def)
  then obtain bad where bad: "assert_greenlit_target run_decisions verb = Some bad" by blast
  show ?thesis
    unfolding probe_authorization_def assert_greenlit_or_consented_def bad consume_boundary_under_consent_def xy
    using assms None by (simp add: Let_def refused_def)
qed

section \<open>Concrete consultations\<close>

definition demo_parse :: iso_parser where "demo_parse s = Some (of_nat (length s))"

definition demo_grant :: dict where
  "demo_grant =
     [(''block'', JText ''overnight-consent''), (''response'', JText ''y''),
      (''resolved'', JDict [(''cmd_sha'', JText ''s''), (''expires_at'', JText ''123456789''),
         (''placement'', JDict [(''carc'', JDict [(''walltime_cap'', JInt 1)])])])]"

definition demo_consult :: consult where
  "demo_consult =
     \<lparr>ct_c = \<lparr>cn_scope_kind = ''run'', cn_scope_id = ''r'', cn_event_kind = ''auto-advance'', cn_detail = [], cn_now = 3,
               cn_now_text = ''123'', cn_notification = []\<rparr>,
      ct_block = ''submit-s3'', ct_sha = ''s'', ct_placement = Some ''carc'', ct_budget = None, ct_walltime = Some 500,
      ct_clean = True, ct_decisions = [demo_grant]\<rparr>"

lemma demo_plain: "plain_detail (cn_detail (ct_c demo_consult))"
  by (simp add: plain_detail_def demo_consult_def str_or_blank_def positive_number_def)


lemma cluster_caps_never_bind_witness:
  "cd_reason (standing_consent_status demo_parse ''run'' [demo_grant] (consults demo_parse [demo_consult]) ''s'' (Some ''carc'') 4 0 500)
    \<notin> {''over-cluster-budget-cap'', ''over-cluster-walltime-cap''}"
  by (rule cluster_caps_never_bind) (simp add: demo_plain)

lemma composed_consent_passes_caps_gate_witness:
  "assert_consent_hard_caps demo_parse 3 [] (compose_consent_defaults demo_parse (\<lambda>_. ''12345678'') (\<lambda>_. 8) 3 [(''cmd_sha'', JText ''s'')]) = None"
  using composed_consent_passes_caps_gate [of demo_parse "\<lambda>_. ''12345678''" "\<lambda>_. 8" 3 "[(''cmd_sha'', JText ''s'')]" "[]"]
  by (simp add: demo_parse_def nonempty_str_def assert_placement_wellformed_def parse_iso_utc_or_none_def)

lemma probe_agrees_with_gate_witness:
  "ap_authorized (probe_authorization demo_parse ''run'' ''submit-s3'' ''s'' (Some ''carc'') 3 [] [demo_grant] [])
    \<longleftrightarrow> \<not> isl (fst (assert_greenlit_or_consented demo_parse (ct_c demo_consult) ''submit-s3'' ''s'' (Some ''carc'')
                    (boundary_already_ledgered [] ''submit-s3'' ''s'') [] [demo_grant] []))"
  by (rule probe_agrees_with_gate) (simp_all add: demo_consult_def)

end
