(* ===== verification/BlockDriveLaws.thy ===== *)
theory BlockDriveLaws
  imports BlockDrive BlockChainLaws ConsentLaws
begin

text \<open>
  What one tick of the block driver guarantees, whatever the blocks do and return: no gated block starts without a
  greenlight or a live consent; a tick that lost its marker runs nothing; a failed first span puts the marker back;
  an approved advance runs the spec that was shown; and a tick ends.
\<close>

section \<open>The spans of a chain\<close>

definition consented :: "drive_env \<Rightarrow> string \<Rightarrow> string \<Rightarrow> nat \<Rightarrow> bool \<Rightarrow> drive_world \<Rightarrow> bool" where
  "consented env run_id verb n clean w \<longleftrightarrow>
     (case fst (consume_overnight env n run_id verb clean w) of None \<Rightarrow> False | Some out \<Rightarrow> co_consumed out)"

text \<open>The result of a span as the chain reads it.\<close>

definition span_result :: "drive_env \<Rightarrow> nat \<Rightarrow> string \<Rightarrow> dict \<Rightarrow> drive_world \<Rightarrow> dict" where
  "span_result env n verb spec w = fst (fst (de_block env n verb spec w))"

lemma next_verb_normalized [simp]: "next_verb_of (normalize_result_brief r) = next_verb_of r"
  by (simp add: next_verb_of_def normalize_result_brief_def jget_update split: option.split)

lemma decision_normalized [simp]:
  "k \<noteq> ''brief'' \<Longrightarrow> jget (normalize_result_brief r) k = jget r k"
  by (simp add: normalize_result_brief_def jget_update split: option.split)

lemma chain_step:
  assumes "chain (Suc fuel) env run_id fam n repark verb spec w = (spans, out, w')"
  obtains (ends) "spans = [\<lparr>sp_verb = verb, sp_spec = spec, sp_world = w\<rparr>]" "out \<noteq> OutOfSpans"
  | (goes) s spec' w1 spans' where "spans = \<lparr>sp_verb = verb, sp_spec = spec, sp_world = w\<rparr> # spans'"
      "chain fuel env run_id fam (n + 1) None s spec' w1 = (spans', out, w')"
      "next_verb_of (span_result env n verb spec w) = Some s" "\<not> truthy (jget (span_result env n verb spec w) ''needs_decision'')"
      "is_gated s \<Longrightarrow> \<exists>w2. consented env run_id s n True w2 \<and> w1 = snd (consume_overnight env n run_id s True w2)"
proof -
  obtain r code wb where b: "de_block env n verb spec w = ((r, code), wb)" by (metis prod.collapse)
  have r: "span_result env n verb spec w = r" by (simp add: span_result_def b)
  define w2 where "w2 = (if run_id = [] then wb else stamp_tick env n wb)"
  let ?r = "normalize_result_brief r"
  show thesis
  proof (cases "r = [] \<or> is_detached ?r \<or> truthy (jget ?r ''needs_decision'') \<or> next_verb_of r = None")
    case True
    then show thesis using assms ends by (auto simp: b Let_def split: if_splits option.splits)
  next
    case False
    then obtain s where s: "next_verb_of r = Some s" and no: "r \<noteq> []" "\<not> is_detached ?r" "\<not> truthy (jget ?r ''needs_decision'')"
      by auto
    show thesis
    proof (cases "is_gated s")
      case False
      obtain spans' rest where c: "chain fuel env run_id fam (n + 1) None s (next_spec_hint ?r) w2 = (spans', rest)" by (metis surj_pair)
      show thesis
        by (rule goes [of spans' s "next_spec_hint ?r" w2])
          (use assms s no False c in \<open>auto simp: b r w2_def Let_def\<close>)
    next
      case True
      obtain o1 w3 where o1: "consume_overnight env n run_id s True w2 = (o1, w3)" by (metis surj_pair)
      show thesis
      proof (cases "case o1 of None \<Rightarrow> False | Some o1 \<Rightarrow> co_consumed o1")
        case False
        then show thesis using assms s no True o1 ends by (auto simp: b w2_def Let_def)
      next
        case yes: True
        let ?spec = "case compose_successor s spec ?r of Inr c \<Rightarrow> c | Inl e \<Rightarrow> next_spec_hint ?r"
        obtain spans' rest where c: "chain fuel env run_id fam (n + 1) None s ?spec w3 = (spans', rest)" by (metis surj_pair)
        have "chain (Suc fuel) env run_id fam n repark verb spec w = (\<lparr>sp_verb = verb, sp_spec = spec, sp_world = w\<rparr> # spans', rest)"
          using s no True o1 yes c by (simp add: b w2_def [symmetric])
        moreover have "consented env run_id s n True w2" using yes by (simp add: consented_def o1)
        moreover have "w3 = snd (consume_overnight env n run_id s True w2)" by (simp add: o1)
        ultimately show thesis
          using goes [of spans' s ?spec w3] assms s c no(3) by (auto simp: r)
      qed
    qed
  qed
qed

declare chain.simps(2) [simp del]

lemma chain_first:
  assumes "chain fuel env run_id fam n repark verb spec w = (spans, out, w')" and "spans \<noteq> []"
  shows "spans ! 0 = \<lparr>sp_verb = verb, sp_spec = spec, sp_world = w\<rparr>"
proof (cases fuel)
  case 0
  with assms show ?thesis by simp
next
  case (Suc f)
  from assms(1)[unfolded Suc] show ?thesis by (cases rule: chain_step) simp_all
qed

lemma chain_gated:
  assumes "chain fuel env run_id fam n repark verb spec w = (spans, out, w')"
    and "Suc i < length spans" and "is_gated (sp_verb (spans ! Suc i))"
  shows "\<exists>w2. consented env run_id (sp_verb (spans ! Suc i)) (n + i) True w2
    \<and> sp_world (spans ! Suc i) = snd (consume_overnight env (n + i) run_id (sp_verb (spans ! Suc i)) True w2)"
  using assms
proof (induction fuel arbitrary: n repark verb spec w spans i)
  case (Suc fuel)
  from Suc.prems(1) show ?case
  proof (cases rule: chain_step)
    case ends
    with Suc.prems(2) show ?thesis by simp
  next
    case (goes s spec' w1 spans')
    show ?thesis
    proof (cases i)
      case 0
      from chain_first [OF goes(2)] Suc.prems(2) goes(1) have "spans' ! 0 = \<lparr>sp_verb = s, sp_spec = spec', sp_world = w1\<rparr>"
        by (cases spans') auto
      with goes(5) Suc.prems(3) show ?thesis by (simp add: goes(1) 0)
    next
      case (Suc j)
      from Suc.IH [OF goes(2), of j] Suc.prems(2,3) show ?thesis by (simp add: goes(1) Suc)
    qed
  qed
qed simp

section \<open>What lets the first span start\<close>

text \<open>
  A marker as \<open>park\<close> writes it: an agent's park stands at an ungated block, and a park without a successor
  carries no stamped spec.
\<close>

definition marker_ok :: "dict \<Rightarrow> bool" where
  "marker_ok pending \<longleftrightarrow>
     (pending_park_actor pending = ''agent'' \<longrightarrow>
        (case nonempty_str (cursor_of pending) ''current_verb'' of None \<Rightarrow> True | Some v \<Rightarrow> \<not> is_gated v))
     \<and> (case jget (cursor_of pending) ''next_verb'' of
          JText v \<Rightarrow> True
        | JNull \<Rightarrow> nonempty_str (cursor_of pending) ''next_spec_sha'' = None
        | _ \<Rightarrow> False)"

definition parked_at :: "dict \<Rightarrow> string \<Rightarrow> string option" where
  "parked_at pending key = text_of_jval (jget (cursor_of pending) key)"

definition records_for :: "dict \<Rightarrow> string option \<Rightarrow> drive_world \<Rightarrow> dict list" where
  "records_for pending workflow w = scope_decisions (first_some [nonempty_str pending ''workflow'', workflow]) w"

text \<open>
  What may start a gated block in a tick that reads \<open>w\<close>: a greenlight of the journal that names it, recorded since the
  park when there is one; the re-run of the parked block under a committed answer to its park; or a consent
  consumed for the parked successor, with no nudge since the park.
\<close>

definition may_start :: "drive_env \<Rightarrow> string \<Rightarrow> string option \<Rightarrow> drive_world \<Rightarrow> string \<Rightarrow> bool" where
  "may_start env run_id workflow w verb \<longleftrightarrow>
     (let pending = read_pending_decision w; records = records_for pending workflow w
      in if pending = []
         then \<exists>rec\<in>set records. is_greenlight rec \<and> journaled_target (jget rec ''resolved'') = Some verb
         else (\<exists>rec\<in>set records. greenlight_targets_boundary (de_parse env) rec (Some verb) (jget pending ''awaiting_since''))
           \<or> parked_at pending ''current_verb'' = Some verb
             \<and> committed_greenlight_for_boundary (de_parse env) records (parked_at pending ''current_verb'')
                 (parked_at pending ''next_verb'') (jget pending ''awaiting_since'') \<noteq> None
           \<or> parked_at pending ''next_verb'' = Some verb
             \<and> consented env run_id verb 0 (jget (cursor_of pending) ''parked_needs_decision'' = JBool False) w
             \<and> \<not> boundary_has_post_park_nudge (de_parse env) records (parked_at pending ''current_verb'')
                  (jget pending ''awaiting_since''))"

lemma first_concerning_Some:
  "first_concerning g nd xs = Some c \<Longrightarrow> \<exists>rec\<in>set xs. g rec \<and> c = dict_or_empty (jget rec ''resolved'')"
  by (induction xs) (auto split: if_splits)

lemma committed_record:
  assumes "committed_greenlight_for_boundary parse records block (Some v) since = Some c"
  shows "\<exists>rec\<in>set records. greenlight_targets_boundary parse rec (Some v) since"
  using first_concerning_Some [OF assms [unfolded committed_greenlight_for_boundary_def]] by (auto simp: boundary_targets_def)

lemma find_Some_in: "find P xs = Some x \<Longrightarrow> P x \<and> x \<in> set xs"
  by (induction xs) (auto split: if_splits)

lemma latest_record:
  assumes "latest_committed_resolved records = Some c"
  shows "\<exists>rec\<in>set records. is_greenlight rec \<and> c = dict_or_empty (jget rec ''resolved'')"
  using assms by (auto simp: latest_committed_resolved_def dest!: find_Some_in)

lemma dict_target:
  assumes "jget (dict_or_empty resolved) ''next_block'' = JText v"
  shows "journaled_target resolved = Some v"
  using assms by (cases resolved) (simp_all add: dict_or_empty_def journaled_target_def)

lemma first_blocks_ungated:
  assumes "map_of ORDER w = Some order" shows "\<not> is_gated (hd order)"
proof -
  have "list_all (\<lambda>(w, order). \<not> is_gated (hd order)) ORDER" by code_simp
  with map_of_SomeD [OF assms] show ?thesis by (auto simp: list_all_iff)
qed

lemma plan_fields [simp]:
  "pl_action (plan a v fam cur nxt) = a" "pl_verb (plan a v fam cur nxt) = v" "pl_next (plan a v fam cur nxt) = nxt"
  by (simp_all add: plan_def)

text \<open>The plan at a parked marker.\<close>

lemma plan_resumed:
  assumes "plan_block_action workflow pending committed last_inputs = Some pl" and "pending \<noteq> []" and "pl_verb pl = Some verb"
  obtains (awaiting) "pl_action pl = PAwaiting" | c where "committed = Some c"
    "pl_action pl = PRerun \<and> parked_at pending ''current_verb'' = Some verb
     \<or> pl_action pl \<in> {PAdvance, PAdvanceCarrying} \<and> parked_at pending ''next_verb'' = Some verb
     \<or> pl_action pl = PAdvance \<and> parked_at pending ''next_verb'' = None \<and> content c = []"
proof (cases committed)
  case None
  with assms awaiting show thesis by (auto simp: plan_block_action_def Let_def)
next
  case (Some c)
  with assms have r: "plan_resume workflow pending c last_inputs = Some pl" by (simp add: plan_block_action_def)
  have "pl_action pl = PRerun \<and> parked_at pending ''current_verb'' = Some verb
     \<or> pl_action pl \<in> {PAdvance, PAdvanceCarrying} \<and> parked_at pending ''next_verb'' = Some verb
     \<or> pl_action pl = PAdvance \<and> parked_at pending ''next_verb'' = None \<and> content c = []"
    using r assms(3) unfolding plan_resume_def
    by (auto simp: parked_at_def Let_def split: option.splits if_splits)
  with Some that(2) show thesis by blast
qed

lemma plan_unparked:
  assumes "plan_block_action workflow [] committed last_inputs = Some pl" and "pl_verb pl = Some verb"
  shows "pl_action pl = PFresh \<and> \<not> is_gated verb
    \<or> (\<exists>c. committed = Some c \<and> jget c ''next_block'' = JText verb \<and> pl_action pl = PAdvance)"
proof -
  from assms(1) have pl: "pl = plan_fresh workflow committed" by (simp add: plan_block_action_def)
  let ?nb = "text_of_jval (jget (case committed of None \<Rightarrow> [] | Some r \<Rightarrow> r) ''next_block'')"
  show ?thesis
  proof (cases "Option.bind ?nb workflow_of \<noteq> None \<and> (workflow = None \<or> workflow = Option.bind ?nb workflow_of)")
    case True
    with pl assms(2) have "?nb = Some verb" "pl_action pl = PAdvance" by (auto simp: plan_fresh_def Let_def split: if_splits)
    then show ?thesis by (auto simp: text_of_jval_def split: option.splits jval.splits)
  next
    case False
    with pl assms(2) show ?thesis
      by (auto simp: plan_fresh_def Let_def bind_eq_Some_conv dest: first_blocks_ungated split: option.splits if_splits)
  qed
qed

lemma consume_marker_won:
  assumes "consume_marker env pending w won (lost_the_consume_race fam cur nxt) = (spans, rest)" and "spans \<noteq> []"
  shows "\<exists>w1. won w1 = (spans, rest)"
  using assms by (auto simp: consume_marker_def lost_the_consume_race_def Let_def split: option.splits bool.splits)

text \<open>Every tick that runs a span runs a chain, and its first block, when gated, may start.\<close>

lemma run_plan_chain:
  assumes "run_plan fuel env run_id pending committed audit workflow pl verb w = (spans, out, w')" and "spans \<noteq> []"
  shows "\<exists>fam repark spec w1. chain fuel env run_id fam 0 repark verb spec w1 = (spans, out, w')"
  using assms unfolding run_plan_def Let_def
  by (auto split: if_splits option.splits dest!: consume_marker_won)

lemma override_waits:
  assumes "marker_ok pending" "pending \<noteq> []" "pl_action pl = PAdvance" "parked_at pending ''next_verb'' = None" "content c = []"
  shows "fst (run_plan fuel env run_id pending (Some c) audit workflow pl verb w) = []"
proof -
  from assms(1,4) have n: "jget (cursor_of pending) ''next_verb'' = JNull" "nonempty_str (cursor_of pending) ''next_spec_sha'' = None"
    by (auto simp: marker_ok_def parked_at_def text_of_jval_def split: jval.splits)
  then have "r3_materialized_advance_spec env run_id pending (Some verb) w = NoPin"
    by (simp add: r3_materialized_advance_spec_def)
  with assms n show ?thesis by (simp add: run_plan_def Let_def)
qed

lemma agent_park_chain:
  assumes "resume_agent_park fuel env run_id pending workflow w = (spans, out, w')" and "spans \<noteq> []"
    and "marker_ok pending" "pending_park_actor pending = ''agent''"
  shows "\<exists>fam repark verb spec w1. chain fuel env run_id fam 0 repark verb spec w1 = (spans, out, w') \<and> \<not> is_gated verb"
proof -
  let ?c = "cursor_of pending"
  from assms(1,2) obtain w1 where "(case (nonempty_str ?c ''current_verb'', jget ?c ''input_spec'') of
      (Some v, JDict spec) \<Rightarrow> chain fuel env run_id (first_some [nonempty_str ?c ''workflow'', workflow]) 0 (Some pending) v spec w1
    | _ \<Rightarrow> ([], Ticked (result_of Skip (first_some [nonempty_str ?c ''workflow'', workflow]) None None) 0, w1)) = (spans, out, w')"
    unfolding resume_agent_park_def Let_def by (elim consume_marker_won [elim_format] exE) auto
  with assms(2) obtain v spec where v: "nonempty_str ?c ''current_verb'' = Some v"
    and "chain fuel env run_id (first_some [nonempty_str ?c ''workflow'', workflow]) 0 (Some pending) v spec w1 = (spans, out, w')"
    by (auto split: option.splits jval.splits)
  moreover have "\<not> is_gated v" using assms(3,4) v by (simp add: marker_ok_def)
  ultimately show ?thesis by blast
qed

lemma parked_leg:
  assumes "consume_parked_boundary_under_consent fuel env run_id pending workflow w = (Some (spans, out, w'), w1)"
    and "spans \<noteq> []"
  shows "\<exists>fam repark verb spec wx. chain fuel env run_id fam 0 repark verb spec wx = (spans, out, w')
    \<and> parked_at pending ''next_verb'' = Some verb
    \<and> consented env run_id verb 0 (jget (cursor_of pending) ''parked_needs_decision'' = JBool False) w
    \<and> \<not> boundary_has_post_park_nudge (de_parse env) (records_for pending workflow w) (parked_at pending ''current_verb'')
         (jget pending ''awaiting_since'')"
proof -
  let ?c = "cursor_of pending" and ?f = "first_some [nonempty_str pending ''workflow'', workflow]"
  obtain g where g: "nonempty_str ?c ''next_verb'' = Some g"
    using assms(1) by (auto simp: consume_parked_boundary_under_consent_def Let_def split: option.splits)
  obtain o1 wc where o1: "consume_overnight env 0 run_id g (jget ?c ''parked_needs_decision'' = JBool False) w = (o1, wc)"
    by (metis surj_pair)
  have cm: "consume_marker env pending wc
        (\<lambda>w. chain fuel env run_id ?f 0 (Some pending) g (dict_or_empty (jget ?c ''next_spec_hint'')) w)
        (lost_the_consume_race ?f (text_of_jval (jget ?c ''current_verb'')) (Some g)) = (spans, out, w')"
    and ok: "\<not> (case o1 of None \<Rightarrow> True | Some o1 \<Rightarrow> \<not> co_consumed o1)"
    and nudge: "\<not> boundary_has_post_park_nudge (de_parse env) (scope_decisions ?f w) (text_of_jval (jget ?c ''current_verb''))
        (jget pending ''awaiting_since'')"
    using assms(1) unfolding consume_parked_boundary_under_consent_def Let_def g option.case o1 prod.case
    by (auto split: if_splits)
  from consume_marker_won [OF cm assms(2)] obtain wx where
    "chain fuel env run_id ?f 0 (Some pending) g (dict_or_empty (jget ?c ''next_spec_hint'')) wx = (spans, out, w')" by blast
  moreover have "parked_at pending ''next_verb'' = Some g"
    using g by (simp add: parked_at_def nonempty_str_Some text_of_jval_def)
  moreover have "consented env run_id g 0 (jget ?c ''parked_needs_decision'' = JBool False) w"
    using ok by (simp add: consented_def o1 split: option.splits)
  ultimately show ?thesis using nudge by (auto simp: parked_at_def records_for_def)
qed

lemma awaiting_is_parked:
  assumes "plan_block_action workflow pending committed li = Some pl" and "pl_action pl = PAwaiting"
  shows "pending \<noteq> []"
  using assms by (auto simp: plan_block_action_def plan_fresh_def Let_def split: if_splits option.splits)

text \<open>The ways through a tick.\<close>

lemma tick_cases:
  assumes "run_tick fuel env run_id workflow dry_run approve audit w = res"
    and "commit_fused_approval dry_run approve w = Some w0"
  defines "pending \<equiv> if run_id = [] then [] else read_pending_decision w0"
  obtains (agent) "pending \<noteq> []" "pending_park_actor pending = ''agent''"
      "resume_agent_park fuel env run_id pending workflow w0 = res"
  | (consent) w1 where "pending \<noteq> []" "consume_parked_boundary_under_consent fuel env run_id pending workflow w0 = (Some res, w1)"
  | (planned) pl verb where
      "plan_block_action workflow pending (committed_for env run_id pending workflow w0)
         (dict_or_empty (jget (cursor_of pending) ''input_spec'')) = Some pl"
      "pl_verb pl = Some verb" "pl_action pl \<notin> {PSkip, PAwaiting, PTerminal}"
      "run_plan fuel env run_id pending (committed_for env run_id pending workflow w0) audit workflow pl verb w0 = res"
  | (declined) out w1 where "pending \<noteq> []" "res = ([], out, w1)" "out \<noteq> OutOfSpans"
      "consume_parked_boundary_under_consent fuel env run_id pending workflow w0 = (None, w1)"
  | (idle) out where "res = ([], out, w0)" "out \<noteq> OutOfSpans"
proof -
  note tick = assms(1) [unfolded run_tick_def assms(2) option.case Let_def, folded pending_def]
  let ?c = "committed_for env run_id pending workflow w0"
  show thesis
  proof (cases "pending \<noteq> [] \<and> \<not> dry_run \<and> pending_park_actor pending = ''agent''")
    case True
    with tick agent show thesis by simp
  next
    case False
    note tick = tick [unfolded if_not_P [OF False]]
    show thesis
    proof (cases "plan_block_action workflow pending ?c (dict_or_empty (jget (cursor_of pending) ''input_spec''))")
      case None
      show thesis by (rule idle [of Raised]) (use tick None in simp_all)
    next
      case (Some pl)
      note tick = tick [unfolded Some option.case]
      show thesis
      proof (cases "pl_action pl = PAwaiting \<and> \<not> dry_run \<and> run_id \<noteq> []")
        case True
        obtain leg w1 where leg: "consume_parked_boundary_under_consent fuel env run_id pending workflow w0 = (leg, w1)"
          by (metis surj_pair)
        from awaiting_is_parked [OF Some] True have "pending \<noteq> []" by blast
        with tick [unfolded if_P [OF True] leg prod.case] True leg consent declined show thesis by (cases leg) auto
      next
        case False
        note tick = tick [unfolded if_not_P [OF False] prod.case option.case]
        show thesis
          using tick Some idle planned [of pl] by (cases "pl_action pl"; cases "pl_verb pl") (auto split: if_splits)
      qed
    qed
  qed
qed

lemma planned_chain:
  assumes "plan_block_action workflow pending committed li = Some pl" and "pl_verb pl = Some verb"
    and "pl_action pl \<notin> {PSkip, PAwaiting, PTerminal}" and "committed = committed_for env run_id pending workflow w"
    and "pending = (if run_id = [] then [] else read_pending_decision w)" and "marker_ok (read_pending_decision w)"
    and "fst (run_plan fuel env run_id pending committed audit workflow pl verb w) \<noteq> []"
  shows "is_gated verb \<longrightarrow> may_start env run_id workflow w verb"
proof (cases "pending = []")
  case True
  from plan_unparked [OF assms(1) [unfolded True] assms(2)] show ?thesis
  proof (elim disjE exE conjE)
    fix c assume c: "committed = Some c" "jget c ''next_block'' = JText verb"
    then have r: "run_id \<noteq> []" using assms(4) by (auto simp: committed_for_def split: if_splits)
    with c(1) True assms(4) have "latest_committed_resolved (records_for pending workflow w) = Some c"
      by (simp add: committed_for_def records_for_def Let_def)
    from latest_record [OF this] c(2) r True assms(5) show ?thesis
      by (auto simp: may_start_def Let_def intro: dict_target)
  qed simp
next
  case p: False
  then have rid: "run_id \<noteq> []" and pd: "pending = read_pending_decision w" using assms(5) by (auto split: if_splits)
  from assms(1) p assms(2) show ?thesis
  proof (cases rule: plan_resumed)
    case awaiting
    with assms(3) show ?thesis by simp
  next
    case (2 c)
    from 2(1) p rid assms(4) have cg: "committed_greenlight_for_boundary (de_parse env) (records_for pending workflow w)
        (parked_at pending ''current_verb'') (parked_at pending ''next_verb'') (jget pending ''awaiting_since'') = Some c"
      by (simp add: committed_for_def records_for_def parked_at_def Let_def)
    have "\<not> (pl_action pl = PAdvance \<and> parked_at pending ''next_verb'' = None \<and> content c = [])"
      using override_waits [of pending pl c fuel env run_id audit workflow verb w] p pd assms(6,7) 2(1) by auto
    with 2(2) consider "parked_at pending ''current_verb'' = Some verb" | "parked_at pending ''next_verb'' = Some verb" by blast
    then show ?thesis
    proof cases
      case 1
      with cg p pd show ?thesis by (auto simp: may_start_def Let_def)
    next
      case 2
      from committed_record [OF cg [unfolded 2]] p pd show ?thesis by (auto simp: may_start_def Let_def)
    qed
  qed
qed

lemma tick_chain:
  assumes "run_tick fuel env run_id workflow dry_run approve audit w = (spans, out, w')" and "spans \<noteq> []"
    and "commit_fused_approval dry_run approve w = Some w0" and "marker_ok (read_pending_decision w0)"
  shows "\<exists>fam repark verb spec w1. chain fuel env run_id fam 0 repark verb spec w1 = (spans, out, w')
    \<and> (is_gated verb \<longrightarrow> may_start env run_id workflow w0 verb)"
  using assms(1,3)
proof (cases rule: tick_cases)
  case agent
  then have "marker_ok (if run_id = [] then [] else read_pending_decision w0)" using assms(4) by (auto split: if_splits)
  from agent_park_chain [OF agent(3) assms(2) this agent(2)] show ?thesis by blast
next
  case (consent w1)
  have rid: "run_id \<noteq> []" using consent(1) by (simp split: if_splits)
  from parked_leg [OF consent(2) assms(2)] consent(1) show ?thesis
    by (simp add: may_start_def Let_def rid) blast
next
  case (planned pl verb)
  from planned_chain [OF planned(1-3) refl refl assms(4), of fuel audit] planned(4) assms(2)
  have "is_gated verb \<longrightarrow> may_start env run_id workflow w0 verb" by simp
  with run_plan_chain [OF planned(4) assms(2)] show ?thesis by blast
qed (use assms(2) in simp_all)


lemma consented_blocks:
  assumes "consented env run_id verb n clean w"
  shows "verb = ''submit-s3'' \<or> clean \<and> verb \<in> {''submit-s4'', ''aggregate-run''}"
proof -
  let ?sc = "case dw_sidecar w of None \<Rightarrow> [] | Some s \<Rightarrow> s"
  obtain out l where c: "consume_boundary_under_consent (de_parse env) (drive_consultation env n run_id) verb
      (case str_or_blank (jget ?sc ''cmd_sha'') of None \<Rightarrow> [] | Some s \<Rightarrow> s) (nonempty_str ?sc ''cluster'') None
      (run_requested_walltime ?sc) clean (dw_run_decisions w) (dw_ledger w) = (out, l)" by (metis surj_pair)
  with assms have "co_consumed out" by (auto simp: consented_def consume_overnight_def Let_def split: if_splits)
  from consumed_cases(1) [OF c this] show ?thesis by (simp add: drive_consultation_def consumable_run_blocks)
qed


section \<open>A marker lost, a marker put back\<close>

text \<open>A lost marker runs nothing. When another process has consumed or moved the boundary between this tick's read of the
  marker and its swap, the tick runs no span, whatever was approved.\<close>

lemma lost_marker_runs_nothing:
  assumes "commit_fused_approval dry_run approve w = Some w0" and "read_pending_decision w0 \<noteq> []" and "run_id \<noteq> []"
    and "\<forall>v. pending_boundary_identity (read_pending_decision (de_meanwhile env v))
           \<noteq> pending_boundary_identity (read_pending_decision w0)"
  shows "fst (run_tick fuel env run_id workflow dry_run approve audit w) = []"
proof -
  obtain spans out w' where r: "run_tick fuel env run_id workflow dry_run approve audit w = (spans, out, w')" by (metis surj_pair)
  have lost: "fst (consume_marker env (read_pending_decision w0) v won (lost_the_consume_race fam cur nxt)) = []"
    for v won fam cur nxt
    using assms(2) assms(4) [rule_format, of v]
    by (auto simp: consume_marker_def compare_and_clear_pending_decision_def swap_pending_decision_def Let_def
        lost_the_consume_race_def read_pending_decision_def pending_boundary_identity_def split: option.splits if_splits)
  from r assms(1) have "spans = []"
  proof (cases rule: tick_cases)
    case agent
    from arg_cong [OF agent(3), of fst] show ?thesis by (simp add: assms(3) resume_agent_park_def Let_def lost)
  next
    case (consent w1)
    have "fst x = []" if "consume_parked_boundary_under_consent fuel env run_id (read_pending_decision w0) workflow w0 = (Some x, w1)" for x
      using that by (auto simp: consume_parked_boundary_under_consent_def Let_def lost split: option.splits if_splits prod.splits)
    with consent(2) show ?thesis by (simp add: assms(3))
  next
    case (planned pl verb)
    with plan_resumed [OF planned(1) _ planned(2)] assms(2,3) have "pl_action pl \<noteq> PFresh" by fastforce
    with arg_cong [OF planned(4), of fst] show ?thesis by (simp add: assms(2,3) run_plan_def Let_def lost split: if_splits)
  qed simp_all
  then show ?thesis by (simp add: r)
qed

text \<open>A marker as \<open>park\<close> writes it.\<close>

definition written_marker :: "dict \<Rightarrow> bool" where
  "written_marker m \<longleftrightarrow>
     (\<exists>verb fam brief run_id fam' successor spec result mz since sha actor. verb \<noteq> [] \<and>
        m = decision_payload verb fam brief (park_cursor run_id fam' verb successor spec result mz) since sha (actor_text actor))"

lemma written_fields:
  assumes "written_marker m"
  shows "m \<noteq> []" and "(\<exists>v. nonempty_str (cursor_of m) ''current_verb'' = Some v) \<and> (\<exists>d. jget (cursor_of m) ''input_spec'' = JDict d)"
  using assms
  by (auto simp: written_marker_def decision_payload_def cursor_of_def dict_or_empty_def park_cursor_def nonempty_str_def)

lemma repark_restores:
  assumes "written_marker m" and "dw_pending w = Some []"
  shows "dw_pending (repark_marker m w) = Some m"
proof -
  from assms(1) obtain verb fam brief cur since sha actor where
    m: "m = decision_payload verb fam brief cur since sha (actor_text actor)" by (auto simp: written_marker_def)
  have "decision_payload (text_or_blank m ''block'') (text_or_blank m ''workflow'')
                (dict_or_empty (jget m ''brief'')) (dict_or_empty (jget m ''resume_cursor''))
                (text_or_blank m ''awaiting_since'') (jget m ''cmd_sha'') (pending_park_actor m) = m"
    unfolding m
    by (cases actor) (simp_all add: decision_payload_def text_or_blank_def nonempty_str_def dict_or_empty_def pending_park_actor_def
        actor_text_def)
  with assms(2) show ?thesis by (simp add: repark_marker_def swap_pending_decision_def pending_boundary_identity_def)
qed

text \<open>Blocks that fail and leave the record alone.\<close>

definition blocks_fail :: "drive_env \<Rightarrow> bool" where
  "blocks_fail env \<longleftrightarrow> (\<forall>n verb spec w. fst (fst (de_block env n verb spec w)) = [] \<and> dw_pending (snd (de_block env n verb spec w)) = dw_pending w)"

lemma stamp_keeps [simp]: "dw_pending (stamp_tick env n w) = dw_pending w"
  by (simp add: stamp_tick_def)

lemma failing_chain:
  assumes "blocks_fail env" and "chain (Suc fuel) env run_id fam n repark verb spec w = (spans, out, w')"
  shows "dw_pending w' = (case repark of None \<Rightarrow> dw_pending w | Some m \<Rightarrow>
      dw_pending (repark_marker m (if run_id = [] then snd (de_block env n verb spec w) else stamp_tick env n (snd (de_block env n verb spec w)))))"
proof -
  obtain r code wb where b: "de_block env n verb spec w = ((r, code), wb)" by (metis prod.collapse)
  with assms(1) have "r = []" "dw_pending wb = dw_pending w" unfolding blocks_fail_def by (metis fst_conv, metis snd_conv)
  with assms(2) show ?thesis by (auto simp: chain.simps(2) b Let_def split: option.splits)
qed

lemma failing_chain_reparks:
  assumes "blocks_fail env" and "written_marker m" and "dw_pending w = Some []"
    and "chain (Suc fuel) env run_id fam n (Some m) verb spec w = (spans, out, w')"
  shows "dw_pending w' = Some m"
proof -
  have "dw_pending (snd (de_block env n verb spec w)) = Some []" using assms(1,3) by (simp add: blocks_fail_def)
  then show ?thesis using failing_chain [OF assms(1,4)] repark_restores [OF assms(2)] by (simp split: if_splits)
qed

lemma failing_swap:
  assumes "blocks_fail env" "written_marker m" "dw_pending w = Some m" "de_meanwhile env w = w"
    and "\<And>v. dw_pending v = Some [] \<Longrightarrow> dw_pending (snd (snd (won v))) = Some m"
  shows "dw_pending (snd (snd (consume_marker env m w won (lost_the_consume_race fam cur nxt)))) = Some m"
  using assms written_fields(1) [OF assms(2)]
  by (simp add: consume_marker_def compare_and_clear_pending_decision_def swap_pending_decision_def pending_boundary_identity_def)

lemma failing_chain_plain:
  assumes "blocks_fail env"
  shows "dw_pending (snd (snd (chain (Suc fuel) env run_id fam n None verb spec w))) = dw_pending w"
  using failing_chain [OF assms, of fuel run_id fam n None verb spec w] by (metis prod.collapse option.case(1))

lemma failing_chain_marker:
  assumes "blocks_fail env" and "written_marker m" and "dw_pending w = Some []"
  shows "dw_pending (snd (snd (chain (Suc fuel) env run_id fam n (Some m) verb spec w))) = Some m"
  using failing_chain_reparks [OF assms, of fuel run_id fam n verb spec] by (metis prod.collapse)

lemma consuming_keeps [simp]: "dw_pending (snd (consume_overnight env n run_id s clean w)) = dw_pending w"
  by (simp add: consume_overnight_def Let_def split: prod.split)

lemma failing_run_plan:
  assumes "blocks_fail env" and "\<forall>v. de_meanwhile env v = v"
    and "pending = [] \<or> written_marker pending \<and> dw_pending w = Some pending"
  shows "dw_pending (snd (snd (run_plan (Suc fuel) env run_id pending committed audit workflow pl verb w))) = dw_pending w"
proof (cases "pending = []")
  case True
  then show ?thesis
    by (simp add: run_plan_def Let_def failing_chain_plain [OF assms(1)] split: option.split)
next
  case False
  with assms(3) have m: "written_marker pending" "dw_pending w = Some pending" by simp_all
  note sw = failing_swap [OF assms(1) m assms(2) [rule_format] failing_chain_marker [OF assms(1) m(1)]]
  show ?thesis
    using False m(2) by (simp add: run_plan_def Let_def failing_chain_plain [OF assms(1)] sw split: option.split)
qed

lemma failing_resume:
  assumes "blocks_fail env" and "\<forall>v. de_meanwhile env v = v" and "written_marker m" and "dw_pending w = Some m"
  shows "dw_pending (snd (snd (resume_agent_park (Suc fuel) env run_id m workflow w))) = Some m"
proof -
  obtain v d where "nonempty_str (cursor_of m) ''current_verb'' = Some v" "jget (cursor_of m) ''input_spec'' = JDict d"
    using written_fields(2) [OF assms(3)] by blast
  then show ?thesis unfolding resume_agent_park_def Let_def
    by (intro failing_swap [OF assms(1,3,4) assms(2) [rule_format]]) (simp add: failing_chain_marker [OF assms(1,3)])
qed

lemma failing_leg:
  assumes "blocks_fail env" and "\<forall>v. de_meanwhile env v = v" and "written_marker m" and "dw_pending w = Some m"
    and "consume_parked_boundary_under_consent (Suc fuel) env run_id m workflow w = (leg, w1)"
  shows "dw_pending w1 = Some m \<and> (\<forall>x. leg = Some x \<longrightarrow> dw_pending (snd (snd x)) = Some m)"
proof -
  note sw = failing_swap [OF assms(1,3) _ assms(2) [rule_format] failing_chain_marker [OF assms(1,3)]]
  have k: "dw_pending wb = Some m" if "consume_overnight env 0 run_id g c w = (oc, wb)" for g c oc wb
    using consuming_keeps [of env 0 run_id g c w] that assms(4) by simp
  have sw': "dw_pending b = Some m"
    if "consume_marker env m wb (chain (Suc fuel) env run_id fam 0 (Some m) g spec) (lost_the_consume_race fam cur nxt) = (a, aa, b)"
      "dw_pending wb = Some m" for a aa b fam cur nxt g spec wb
    using arg_cong [OF that(1), of "\<lambda>x. dw_pending (snd (snd x))"] by (simp add: sw [OF that(2)])
  show ?thesis
    using assms(4,5) unfolding consume_parked_boundary_under_consent_def Let_def
    by (auto simp: k intro: sw' split: option.splits if_splits prod.splits)
qed

text \<open>C17: (a failed tick keeps the marker) When the block of the first span fails without touching the record, the tick leaves the parked marker as
  it found it, byte for byte: the swap that consumed it and the repark cancel out on every path of the tick (a
  committed answer, a consent, an agent's park), and a tick that runs nothing does not write it.\<close>

theorem failed_tick_keeps_the_marker:
  assumes "blocks_fail env" and "\<forall>v. de_meanwhile env v = v"
    and "dw_pending w \<in> {None, Some []} \<or> written_marker (read_pending_decision w)"
    and "run_tick (Suc fuel) env run_id workflow dry_run None audit w = (spans, out, w')"
  shows "dw_pending w' = dw_pending w"
proof -
  define pending where "pending = (if run_id = [] then [] else read_pending_decision w)"
  have m: "pending = [] \<or> written_marker pending \<and> dw_pending w = Some pending"
    using assms(3) by (auto simp: pending_def read_pending_decision_def split: option.splits)
  have "commit_fused_approval dry_run None w = Some w" by (simp add: commit_fused_approval_def)
  with assms(4) show ?thesis
  proof (cases rule: tick_cases)
    case agent
    with m have "written_marker pending" "dw_pending w = Some pending" by (simp_all flip: pending_def)
    with failing_resume [OF assms(1,2) this, of fuel run_id workflow] agent(3) show ?thesis by (simp flip: pending_def)
  next
    case (consent w1)
    from failing_leg [OF assms(1,2) _ _ consent(2)] m consent(1) show ?thesis by (auto simp flip: pending_def)
  next
    case (planned pl verb)
    from failing_run_plan [OF assms(1,2) m, of fuel run_id _ audit workflow pl verb] show ?thesis
      using arg_cong [OF planned(4), of "\<lambda>x. dw_pending (snd (snd x))"] by (simp flip: pending_def)
  next
    case (declined out w1)
    from failing_leg [OF assms(1,2) _ _ declined(4)] m declined(1,2) show ?thesis by (auto simp flip: pending_def)
  qed simp
qed

section \<open>What was shown is what runs\<close>

lemma consume_marker_first:
  assumes "consume_marker env pending w (chain fuel env run_id fam 0 repark verb spec) (lost_the_consume_race fam' cur nxt) = (spans, rest)"
    and "spans \<noteq> []"
  shows "sp_verb (spans ! 0) = verb \<and> sp_spec (spans ! 0) = spec"
proof -
  from consume_marker_won [OF assms] obtain w1 where "chain fuel env run_id fam 0 repark verb spec w1 = (spans, rest)" by blast
  then show ?thesis using chain_first [of fuel env run_id fam 0 repark verb spec w1 spans] assms(2) by (cases rest) simp
qed

lemma pinned_advance:
  assumes "run_plan fuel env run_id pending committed audit workflow pl verb w = (spans, rest)" and "spans \<noteq> []"
    and "pending \<noteq> []" and "pl_action pl = PAdvance" and "r3_materialized_advance_spec env run_id pending (Some verb) w \<noteq> NoPin"
  shows "sp_verb (spans ! 0) = verb \<and> r3_materialized_advance_spec env run_id pending (Some verb) w = Pinned (sp_spec (spans ! 0))"
proof (cases "r3_materialized_advance_spec env run_id pending (Some verb) w")
  case (Pinned sp)
  with assms show ?thesis by (auto simp: run_plan_def Let_def dest: consume_marker_first)
qed (use assms in \<open>simp_all add: run_plan_def\<close>)

lemma consented_advance:
  assumes "consume_parked_boundary_under_consent fuel env run_id pending workflow w = (Some (spans, rest), w1)" and "spans \<noteq> []"
    and "jget (cursor_of pending) ''next_verb'' = JText s" and "s \<noteq> []"
  shows "sp_verb (spans ! 0) = s \<and> sp_spec (spans ! 0) = dict_or_empty (jget (cursor_of pending) ''next_spec_hint'')"
  using assms unfolding consume_parked_boundary_under_consent_def Let_def
  by (auto simp: nonempty_str_def split: option.splits if_splits prod.splits dest!: consume_marker_first)

text \<open>The marker of a park whose successor's spec was composed and is valid.\<close>

lemma parked_spec:
  assumes "run_id \<noteq> []" and "s \<noteq> []" and "dw_pending w \<noteq> None" and "compose_successor s spec result = Inr shown"
    and "de_valid env s shown"
  shows "jget (cursor_of (read_pending_decision (park env n run_id fam verb (Some s) spec result w))) ''next_verb'' = JText s"
    and "dict_or_empty (jget (cursor_of (read_pending_decision (park env n run_id fam verb (Some s) spec result w))) ''next_spec_hint'') = shown"
    and "jget (cursor_of (read_pending_decision (park env n run_id fam verb (Some s) spec result w))) ''next_spec_sha'' = JText (de_sha env shown)"
    and "read_pending_decision (park env n run_id fam verb (Some s) spec result w) \<noteq> []"
  using assms
  by (auto simp: park_def Let_def materialize_successor_spec_def mark_pending_decision_def read_pending_decision_def decision_payload_def
      cursor_of_def dict_or_empty_def park_cursor_def jtext_option_def jget_append split: option.splits prod.splits)


section \<open>A tick ends\<close>

text \<open>The blocks take the hints that let the chain go on from the table of successors.\<close>

definition hints_follow_tables :: "drive_env \<Rightarrow> bool" where
  "hints_follow_tables env \<longleftrightarrow>
     (\<forall>n verb spec w t. next_verb_of (span_result env n verb spec w) = Some t
        \<and> \<not> truthy (jget (span_result env n verb spec w) ''needs_decision'') \<longrightarrow>
        (\<exists>stage. jget (span_result env n verb spec w) ''stage_reached'' = JText stage \<and> successor_verb verb stage = Some t))"

definition no_timeout_from :: "nat \<Rightarrow> drive_env \<Rightarrow> bool" where
  "no_timeout_from k env \<longleftrightarrow>
     (\<forall>n\<ge>k. \<forall>verb spec w. jget (span_result env n verb spec w) ''stage_reached'' \<noteq> JText ''watch_timeout'')"

definition spans_left :: "nat \<Rightarrow> nat \<Rightarrow> string \<Rightarrow> nat" where
  "spans_left k n verb = (if k \<le> n then max 1 (rank verb) else k - n + 13)"

lemma spans_left_pos: "0 < spans_left k n verb"
  by (auto simp: spans_left_def)

lemma spans_left_step:
  assumes "successor_verb verb stage = Some t" and "k \<le> n \<Longrightarrow> stage \<noteq> ''watch_timeout''"
  shows "spans_left k (n + 1) t < spans_left k n verb"
proof -
  have "0 < rank t" by (rule rank_pos [OF successor_known [OF assms(1)]])
  with only_cycle [OF assms(1)] assms(2) rank_le [of t] show ?thesis by (auto simp: spans_left_def)
qed

lemma chain_ends:
  assumes "hints_follow_tables env" and "no_timeout_from k env" and "spans_left k n verb \<le> fuel"
  shows "fst (snd (chain fuel env run_id fam n repark verb spec w)) \<noteq> OutOfSpans"
  using assms(3)
proof (induction fuel arbitrary: n repark verb spec w)
  case 0
  then show ?case using spans_left_pos [of k n verb] by simp
next
  case (Suc fuel)
  obtain spans out w' where c: "chain (Suc fuel) env run_id fam n repark verb spec w = (spans, out, w')" by (metis surj_pair)
  then show ?case
  proof (cases rule: chain_step)
    case ends
    with c show ?thesis by simp
  next
    case (goes s spec' w1 spans')
    then obtain stage where st: "jget (span_result env n verb spec w) ''stage_reached'' = JText stage" "successor_verb verb stage = Some s"
      using assms(1) unfolding hints_follow_tables_def by blast
    have "spans_left k (n + 1) s < spans_left k n verb"
      by (rule spans_left_step [OF st(2)]) (use assms(2) st(1) in \<open>auto simp: no_timeout_from_def\<close>)
    with Suc.IH [of "n + 1" s None spec' w1] Suc.prems goes(2) c show ?thesis by simp
  qed
qed

text \<open>C26: (a tick ends) When the blocks take their hints from the table of successors and no watch runs into its budget after the first
  \<open>k\<close> spans, a tick runs at most \<open>k + 13\<close> spans, whatever its marker, its journal and its blocks' results: the only
  cycle of the table is the watch that timed out.\<close>

theorem tick_ends:
  assumes "hints_follow_tables env" and "no_timeout_from k env" and "k + 13 \<le> fuel"
  shows "fst (snd (run_tick fuel env run_id workflow dry_run approve audit w)) \<noteq> OutOfSpans"
proof (cases "commit_fused_approval dry_run approve w")
  case None
  then show ?thesis by (simp add: run_tick_def)
next
  case (Some w0)
  have c: "fst (snd (chain fuel env run_id fam 0 repark verb spec v)) \<noteq> OutOfSpans" for fam repark verb spec v
    using rank_le [of verb] assms(3) by (intro chain_ends [OF assms(1,2)]) (auto simp: spans_left_def)
  have m: "fst (snd (consume_marker env pending v won (lost_the_consume_race fam cur nxt))) \<noteq> OutOfSpans"
    if "\<And>v. fst (snd (won v)) \<noteq> OutOfSpans" for pending v won fam cur nxt
    using that by (auto simp: consume_marker_def lost_the_consume_race_def Let_def split: option.split bool.split)
  obtain spans out w' where r: "run_tick fuel env run_id workflow dry_run approve audit w = (spans, out, w')" by (metis surj_pair)
  from r Some show ?thesis
  proof (cases rule: tick_cases)
    case agent
    have "fst (snd (resume_agent_park fuel env run_id p workflow w0)) \<noteq> OutOfSpans" for p
      unfolding resume_agent_park_def Let_def by (rule m) (auto simp: c split: option.split jval.split)
    with agent(3) r show ?thesis by (metis fst_conv snd_conv)
  next
    case (consent w1)
    have "fst (snd x) \<noteq> OutOfSpans" if "consume_parked_boundary_under_consent fuel env run_id p workflow w0 = (Some x, w1)" for p x
      using that unfolding consume_parked_boundary_under_consent_def Let_def
      by (auto simp: m [OF c] split: option.splits if_splits prod.splits)
    from this [OF consent(2)] r show ?thesis by simp
  next
    case (planned pl verb)
    have "fst (snd (run_plan fuel env run_id p cm audit workflow pl verb w0)) \<noteq> OutOfSpans" for p cm
      by (simp add: run_plan_def Let_def c m [OF c] split: option.split)
    with planned(4) r show ?thesis by (metis fst_conv snd_conv)
  qed (use r in simp_all)
qed

text \<open>A run parked after \<open>submit-s1\<close> and approved, on blocks that return nothing.\<close>

definition demo_drive_env :: drive_env where
  "demo_drive_env = \<lparr>de_parse = (\<lambda>s. Some (of_nat (length s))), de_sha = (\<lambda>d. ''sha''), de_fields = (\<lambda>v. None), de_valid = (\<lambda>v d. True),
     de_writable = (\<lambda>v. True), de_path = (\<lambda>v. v), de_block = (\<lambda>n v d w. (([], 0), w)), de_now = (\<lambda>n. 9), de_now_text = (\<lambda>n. ''now''),
     de_due_text = (\<lambda>n. ''due''), de_notification = [], de_meanwhile = (\<lambda>w. w)\<rparr>"

definition demo_marker :: dict where
  "demo_marker = decision_payload ''submit-s1'' ''submit'' []
     (park_cursor ''r'' (Some ''submit'') ''submit-s1'' (Some ''submit-s2'') [(''a'', JInt 1)] [] nothing_materialized)
     ''t'' (JText ''sha'') ''human''"

definition demo_drive_world :: drive_world where
  "demo_drive_world = \<lparr>dw_pending = Some demo_marker, dw_tick = None,
     dw_run_decisions = [[(''response'', JText ''y''), (''ts'', JText ''tt''),
       (''resolved'', JDict [(''next_block'', JText ''submit-s2''), (''a'', JInt 1)])]],
     dw_campaign_decisions = [], dw_ledger = [], dw_sidecar = None, dw_specs = (\<lambda>v. NoFile)\<rparr>"

lemma demo_drive_tick: "sp_verb (hd (fst (run_tick 1 demo_drive_env ''r'' None False None [] demo_drive_world))) = ''submit-s2''
    \<and> length (fst (run_tick 1 demo_drive_env ''r'' None False None [] demo_drive_world)) = 1"
  by code_simp

lemma demo_commit: "commit_fused_approval False None demo_drive_world = Some demo_drive_world"
  by (simp add: commit_fused_approval_def)

lemma demo_marker_ok: "marker_ok (read_pending_decision demo_drive_world)"
  by code_simp

lemma demo_span:
  obtains spans out w' where "run_tick 1 demo_drive_env ''r'' None False None [] demo_drive_world = (spans, out, w')"
    "0 < length spans" "sp_verb (spans ! 0) = ''submit-s2''" "is_gated (sp_verb (spans ! 0))"
proof -
  obtain spans out w' where r: "run_tick 1 demo_drive_env ''r'' None False None [] demo_drive_world = (spans, out, w')"
    by (metis surj_pair)
  with demo_drive_tick have "length spans = 1" "sp_verb (hd spans) = ''submit-s2''" by simp_all
  then have "0 < length spans" "sp_verb (spans ! 0) = ''submit-s2''" by (cases spans; simp)+
  with r that show thesis by (simp add: is_gated_def GATED_BLOCKS_def)
qed



lemma lost_marker_runs_nothing_witness:
  "fst (run_tick 1 (demo_drive_env\<lparr>de_meanwhile := \<lambda>w. w\<lparr>dw_pending := Some []\<rparr>\<rparr>) ''r'' None False None [] demo_drive_world) = []"
  by (rule lost_marker_runs_nothing [OF demo_commit])
    (simp_all add: read_pending_decision_def pending_boundary_identity_def demo_drive_world_def demo_marker_def decision_payload_def)

theorem failed_tick_keeps_the_marker_witness:
  "dw_pending (snd (snd (run_tick (Suc 0) demo_drive_env ''r'' None False None [] demo_drive_world))) = Some demo_marker"
proof -
  obtain spans out w' where r: "run_tick (Suc 0) demo_drive_env ''r'' None False None [] demo_drive_world = (spans, out, w')"
    by (metis surj_pair)
  have "blocks_fail demo_drive_env" "\<forall>v. de_meanwhile demo_drive_env v = v" by (simp_all add: blocks_fail_def demo_drive_env_def)
  moreover have "written_marker (read_pending_decision demo_drive_world)"
    unfolding written_marker_def read_pending_decision_def demo_drive_world_def demo_marker_def
    by (rule exI [of _ "''submit-s1''"], intro exI conjI) (simp, simp, rule arg_cong [of _ _ "decision_payload _ _ _ _ _ _"], simp add: actor_text_def, rule actor.case(2) [symmetric])
  ultimately have "dw_pending w' = dw_pending demo_drive_world" using failed_tick_keeps_the_marker [OF _ _ _ r] by blast
  then show ?thesis by (simp add: r) (simp add: demo_drive_world_def)
qed

text \<open>A snapshot whose clean result hands over to the watch.\<close>

definition demo_handover :: dict where
  "demo_handover = [(''stage_reached'', JText ''snapshot_clean''),
     (''next_block'', JDict [(''verb'', JText ''status-watch''), (''spec_hint'', JDict [(''run_id'', JText ''r'')])])]"

definition demo_snapshot_env :: drive_env where
  "demo_snapshot_env = demo_drive_env\<lparr>de_block := (\<lambda>n verb d w. ((if verb = ''status-snapshot'' then demo_handover else [], 0), w)),
     de_sha := (\<lambda>d. if d = [(''run_id'', JText ''r'')] then ''shown'' else ''other'')\<rparr>"

theorem tick_ends_witness:
  "fst (snd (run_tick 13 demo_snapshot_env ''r'' (Some ''status'') False None [] (demo_drive_world\<lparr>dw_pending := None\<rparr>))) \<noteq> OutOfSpans"
proof (rule tick_ends [where k = 0])
  have "successor_verb ''status-snapshot'' ''snapshot_clean'' = Some ''status-watch''" by code_simp
  then show "hints_follow_tables demo_snapshot_env"
    by (auto simp: hints_follow_tables_def span_result_def demo_snapshot_env_def demo_handover_def next_verb_of_def text_of_jval_def)
  show "no_timeout_from 0 demo_snapshot_env"
    by (auto simp: no_timeout_from_def span_result_def demo_snapshot_env_def demo_handover_def)
qed simp

definition demo_parked :: drive_world where
  "demo_parked = (park demo_snapshot_env 0 ''r'' (Some ''status'') ''status-snapshot'' (Some ''status-watch'') [] demo_handover
     (demo_drive_world\<lparr>dw_pending := Some []\<rparr>))
     \<lparr>dw_run_decisions := [[(''response'', JText ''y''), (''ts'', JText ''tttt''),
        (''resolved'', JDict [(''next_block'', JText ''status-watch'')])]]\<rparr>"

definition demo_parked_plan :: "drive_plan option" where
  "demo_parked_plan = plan_block_action None (read_pending_decision demo_parked)
     (committed_for demo_snapshot_env ''r'' (read_pending_decision demo_parked) None demo_parked)
     (dict_or_empty (jget (cursor_of (read_pending_decision demo_parked)) ''input_spec''))"

lemma demo_parked_plan: "map_option pl_action demo_parked_plan = Some PAdvance"
  by code_simp

lemma demo_parked_tick:
  "length (fst (run_tick 9 demo_snapshot_env ''r'' None False None [] demo_parked)) = 1"
  by code_simp

lemma demo_parked_actor: "pending_park_actor (read_pending_decision demo_parked) = ''human''"
  by code_simp

lemma demo_parked_file: "dw_specs demo_parked ''status-watch'' = SpecFile (JDict [(''run_id'', JText ''r'')])"
  by code_simp

lemma demo_composed: "compose_successor ''status-watch'' [] demo_handover = Inr [(''run_id'', JText ''r'')]"
  by code_simp


end
