(* ===== verification/DriveRace.thy ===== *)
theory DriveRace
  imports BlockDriveLaws
begin

text \<open>
  Several drivers over one run: the marker as a slot that is consumed by compare-and-swap, restored after a failed
  span and overwritten by the next park, and what the journal alone lets a late reader do. The steps are the
  operations of \<open>state/journal.py\<close> as \<open>_kernel/lifecycle/block_drive.py\<close> calls them; any interleaving is allowed.
\<close>

section \<open>Which answer a boundary takes\<close>

definition answers_boundary :: "iso_parser \<Rightarrow> string option \<Rightarrow> string option \<Rightarrow> jval \<Rightarrow> dict \<Rightarrow> bool" where
  "answers_boundary parse block next_verb since rec \<longleftrightarrow>
     list_ex (\<lambda>t. greenlight_targets_boundary parse rec t since) (boundary_targets block next_verb)"

definition concerns_boundary :: "iso_parser \<Rightarrow> string option \<Rightarrow> string option \<Rightarrow> jval \<Rightarrow> dict \<Rightarrow> bool" where
  "concerns_boundary parse block next_verb since rec \<longleftrightarrow>
     answers_boundary parse block next_verb since rec \<or> same_boundary_nudge parse rec block since"

lemma first_concerning_filter:
  "first_concerning g nd xs = (case filter (\<lambda>r. g r \<or> nd r) xs of [] \<Rightarrow> None
     | r # _ \<Rightarrow> if g r then Some (dict_or_empty (jget r ''resolved'')) else None)"
  by (induction xs) auto

lemma hd_rev_case: "(case rev xs of [] \<Rightarrow> a | x # _ \<Rightarrow> f x) = (if xs = [] then a else f (List.last xs))"
  by (cases xs rule: rev_cases) simp_all

text \<open>The latest word decides. The decision a parked boundary takes from the journal is that of the latest record that concerns it: a greenlight of its
  successor made since the park answers it, a nudge at the parked block since the park takes the answer
  back, and records about other blocks or from before the park never count, wherever they stand.\<close>

lemma latest_word_decides:
  "committed_greenlight_for_boundary parse records block next_verb since =
     (let said = filter (concerns_boundary parse block next_verb since) records
      in if said = [] then None
         else if answers_boundary parse block next_verb since (List.last said)
         then Some (dict_or_empty (jget (List.last said) ''resolved'')) else None)"
proof -
  have "(\<lambda>r. answers_boundary parse block next_verb since r \<or> same_boundary_nudge parse r block since)
      = concerns_boundary parse block next_verb since" by (simp add: concerns_boundary_def fun_eq_iff)
  then show ?thesis
    by (simp add: committed_greenlight_for_boundary_def first_concerning_filter rev_filter [symmetric] hd_rev_case Let_def
        flip: answers_boundary_def)
qed

section \<open>Drivers over one marker\<close>

text \<open>
  \<open>fl_read\<close> is the marker a driver has read and not yet swapped, \<open>fl_runs\<close> the one it consumed, whose span runs;
  \<open>fl_issued\<close> remembers the identities of all parks.
\<close>

record drivers =
  fl_world :: drive_world
  fl_read :: "nat \<Rightarrow> dict option"
  fl_runs :: "nat \<Rightarrow> dict option"
  fl_issued :: "(string option \<times> string option) option set"

definition text_marker :: "dict \<Rightarrow> bool" where
  "text_marker m \<longleftrightarrow> (\<exists>b a. jget m ''block'' = JText b \<and> jget m ''awaiting_since'' = JText a)"

inductive drive_step :: "drivers \<Rightarrow> drivers \<Rightarrow> bool" where
  look: "read_pending_decision (fl_world s) \<noteq> [] \<Longrightarrow> fl_runs s d = None \<Longrightarrow>
     drive_step s (s\<lparr>fl_read := (fl_read s)(d := Some (read_pending_decision (fl_world s)))\<rparr>)"
| win: "fl_read s d = Some m \<Longrightarrow> compare_and_clear_pending_decision m (fl_world s) = Some (True, w) \<Longrightarrow>
     drive_step s (s\<lparr>fl_world := w, fl_read := (fl_read s)(d := None), fl_runs := (fl_runs s)(d := Some m)\<rparr>)"
| lose: "fl_read s d = Some m \<Longrightarrow> compare_and_clear_pending_decision m (fl_world s) = Some (False, w) \<Longrightarrow>
     drive_step s (s\<lparr>fl_world := w, fl_read := (fl_read s)(d := None)\<rparr>)"
| fail: "fl_runs s d = Some m \<Longrightarrow>
     drive_step s (s\<lparr>fl_world := repark_marker m (fl_world s), fl_runs := (fl_runs s)(d := None)\<rparr>)"
| park: "mark_pending_decision p (fl_world s) = Some w \<Longrightarrow> text_marker p \<Longrightarrow> pending_boundary_identity p \<notin> fl_issued s \<Longrightarrow>
     drive_step s (s\<lparr>fl_world := w, fl_runs := (fl_runs s)(d := None),
                     fl_issued := insert (pending_boundary_identity p) (fl_issued s)\<rparr>)"
| leave: "drive_step s (s\<lparr>fl_read := (fl_read s)(d := None), fl_runs := (fl_runs s)(d := None)\<rparr>)"
| work: "dw_pending w = dw_pending (fl_world s) \<Longrightarrow> drive_step s (s\<lparr>fl_world := w\<rparr>)"

inductive drive_reach :: "drivers \<Rightarrow> bool" where
  start: "fl_read s = (\<lambda>d. None) \<Longrightarrow> fl_runs s = (\<lambda>d. None) \<Longrightarrow>
     read_pending_decision (fl_world s) = [] \<or> text_marker (read_pending_decision (fl_world s)) \<Longrightarrow>
     fl_issued s = {pending_boundary_identity (read_pending_decision (fl_world s))} \<Longrightarrow> drive_reach s"
| step: "drive_reach s \<Longrightarrow> drive_step s t \<Longrightarrow> drive_reach t"

text \<open>
  The slot shows a park that was issued; what a driver runs was issued, is no longer in the slot, and is run by
  nobody else.
\<close>

definition drivers_ok :: "drivers \<Rightarrow> bool" where
  "drivers_ok s \<longleftrightarrow>
     (let slot = read_pending_decision (fl_world s); ident = pending_boundary_identity
      in (slot = [] \<or> text_marker slot \<and> ident slot \<in> fl_issued s)
         \<and> (\<forall>d m. fl_read s d = Some m \<longrightarrow> text_marker m)
         \<and> (\<forall>d m. fl_runs s d = Some m \<longrightarrow> text_marker m \<and> ident m \<in> fl_issued s \<and> ident slot \<noteq> ident m)
         \<and> (\<forall>d e m m'. fl_runs s d = Some m \<longrightarrow> fl_runs s e = Some m' \<longrightarrow> ident m = ident m' \<longrightarrow> d = e))"

lemma text_marker_nonempty: "text_marker m \<Longrightarrow> m \<noteq> []"
  by (auto simp: text_marker_def)

lemma identity_none: "pending_boundary_identity m = None \<longleftrightarrow> m = []"
  by (simp add: pending_boundary_identity_def)

lemma clear_wins:
  assumes "compare_and_clear_pending_decision m w = Some (True, w')" and "text_marker m"
  shows "read_pending_decision w' = [] \<and> pending_boundary_identity (read_pending_decision w) = pending_boundary_identity m"
  using assms text_marker_nonempty [OF assms(2)]
  by (auto simp: compare_and_clear_pending_decision_def swap_pending_decision_def read_pending_decision_def pending_boundary_identity_def
      split: option.splits if_splits)

lemma clear_loses:
  "compare_and_clear_pending_decision m w = Some (False, w') \<Longrightarrow> w' = w"
  by (auto simp: compare_and_clear_pending_decision_def swap_pending_decision_def split: option.splits if_splits)

lemma repark_slot:
  assumes "text_marker m"
  shows "read_pending_decision (repark_marker m w) = read_pending_decision w
    \<or> text_marker (read_pending_decision (repark_marker m w))
      \<and> pending_boundary_identity (read_pending_decision (repark_marker m w)) = pending_boundary_identity m"
proof -
  obtain b a where m: "jget m ''block'' = JText b" "jget m ''awaiting_since'' = JText a" using assms by (auto simp: text_marker_def)
  then have "text_or_blank m ''block'' = b" "text_or_blank m ''awaiting_since'' = a"
    by (auto simp: text_or_blank_def nonempty_str_def split: option.splits)
  with m text_marker_nonempty [OF assms] show ?thesis
    by (auto simp: repark_marker_def swap_pending_decision_def read_pending_decision_def pending_boundary_identity_def
        decision_payload_def text_marker_def split: option.splits)
qed

lemma drive_step_ok: "drive_step s t \<Longrightarrow> drivers_ok s \<Longrightarrow> drivers_ok t"
proof (induction rule: drive_step.induct)
  case (look s d)
  then show ?case by (auto simp: drivers_ok_def Let_def)
next
  case (win s d m w)
  note ok = win(3) [unfolded drivers_ok_def Let_def]
  have m: "text_marker m" using ok win(1) by blast
  note cw = clear_wins [OF win(2) m]
  have none: "pending_boundary_identity [] \<noteq> pending_boundary_identity x" if "text_marker x" for x
    using text_marker_nonempty [OF that] by (simp add: pending_boundary_identity_def)
  have i: "pending_boundary_identity m \<in> fl_issued s" using ok cw none [OF m] by metis
  have free: "pending_boundary_identity m \<noteq> pending_boundary_identity x" if "fl_runs s e = Some x" for e x
    using ok cw that by metis
  let ?t = "s\<lparr>fl_world := w, fl_read := (fl_read s)(d := None), fl_runs := (fl_runs s)(d \<mapsto> m)\<rparr>"
  have runs: "text_marker x \<and> pending_boundary_identity x \<in> fl_issued ?t
      \<and> pending_boundary_identity (read_pending_decision (fl_world ?t)) \<noteq> pending_boundary_identity x" if "fl_runs ?t e = Some x" for e x
    using that ok m i none cw by (auto split: if_splits)
  have uniq: "e = e'" if "fl_runs ?t e = Some x" "fl_runs ?t e' = Some x'" "pending_boundary_identity x = pending_boundary_identity x'"
    for e e' x x'
    using that ok by (auto split: if_splits dest: free)
  have reads: "text_marker x" if "fl_read ?t e = Some x" for e x using that ok by (auto split: if_splits)
  have slot: "read_pending_decision (fl_world ?t) = []" using cw by simp
  show ?case unfolding drivers_ok_def Let_def using runs uniq reads slot by blast
next
  case (lose s d m w)
  with clear_loses [OF lose(2)] show ?case by (auto simp: drivers_ok_def Let_def)
next
  case (fail s d m)
  then have "text_marker m" by (auto simp: drivers_ok_def Let_def)
  from repark_slot [OF this, of "fl_world s"] fail show ?case by (auto simp: drivers_ok_def Let_def)
next
  case (park p s w d)
  then have "read_pending_decision w = p"
    by (auto simp: mark_pending_decision_def read_pending_decision_def split: option.splits)
  with park show ?case by (auto simp: drivers_ok_def Let_def)
next
  case (leave s d)
  then show ?case by (auto simp: drivers_ok_def Let_def)
next
  case (work w s)
  then have "read_pending_decision w = read_pending_decision (fl_world s)" by (simp add: read_pending_decision_def)
  with work show ?case by (simp add: drivers_ok_def Let_def)
qed

lemma drive_reach_ok: "drive_reach s \<Longrightarrow> drivers_ok s"
proof (induction rule: drive_reach.induct)
  case (start s)
  then show ?case by (auto simp: drivers_ok_def Let_def)
next
  case (step s t)
  then show ?case by (blast intro: drive_step_ok)
qed


definition demo_drivers :: drivers where
  "demo_drivers = \<lparr>fl_world = demo_drive_world, fl_read = (\<lambda>d. None), fl_runs = (\<lambda>d. None),
     fl_issued = {pending_boundary_identity demo_marker}\<rparr>"

lemma demo_marker_text: "text_marker demo_marker"
  by (simp add: text_marker_def demo_marker_def decision_payload_def)

lemma demo_read: "read_pending_decision demo_drive_world = demo_marker"
  by (simp add: read_pending_decision_def demo_drive_world_def)

lemma demo_clear:
  "compare_and_clear_pending_decision demo_marker demo_drive_world = Some (True, demo_drive_world\<lparr>dw_pending := Some []\<rparr>)"
  by (simp add: compare_and_clear_pending_decision_def swap_pending_decision_def demo_drive_world_def pending_boundary_identity_def
      text_marker_nonempty [OF demo_marker_text])


section \<open>A reader that comes while the span runs\<close>

lemma consume_marker_world:
  assumes "consume_marker env pending w won (lost_the_consume_race fam cur nxt) = (spans, rest)" and "spans \<noteq> []"
    and "\<forall>v. de_meanwhile env v = v"
  shows "won (w\<lparr>dw_pending := Some []\<rparr>) = (spans, rest)"
  using assms
  by (auto simp: consume_marker_def lost_the_consume_race_def Let_def compare_and_clear_pending_decision_def swap_pending_decision_def
      split: option.splits if_splits)

text \<open>The world in which the block of a consumed boundary starts.\<close>

definition swapped_from :: "drive_world \<Rightarrow> drive_world \<Rightarrow> bool" where
  "swapped_from w u \<longleftrightarrow> dw_pending u = Some [] \<and> dw_run_decisions u = dw_run_decisions w"

lemma consumed_chain_world:
  assumes "consume_marker env pending v (chain fuel env run_id fam 0 repark verb spec) (lost_the_consume_race fam' cur nxt) = (spans, rest)"
    and "spans \<noteq> []" and "\<forall>v. de_meanwhile env v = v" and "dw_run_decisions v = dw_run_decisions w"
  shows "swapped_from w (sp_world (spans ! 0))"
proof -
  obtain out w' where r: "rest = (out, w')" by (metis surj_pair)
  from chain_first [OF consume_marker_world [OF assms(1-3), unfolded r] assms(2)] assms(4) show ?thesis
    by (simp add: swapped_from_def)
qed

lemma consuming_keeps_decisions [simp]: "dw_run_decisions (snd (consume_overnight env n run_id s clean w)) = dw_run_decisions w"
  by (simp add: consume_overnight_def Let_def split: prod.split)

lemma marked_tick_world:
  assumes "run_tick fuel env run_id workflow False None audit w = (spans, out, w')" and "spans \<noteq> []"
    and "run_id \<noteq> []" and "read_pending_decision w \<noteq> []" and "\<forall>v. de_meanwhile env v = v"
  shows "swapped_from w (sp_world (spans ! 0))"
proof -
  note cw = consumed_chain_world [OF _ assms(2,5)]
  have "commit_fused_approval False None w = Some w" by (simp add: commit_fused_approval_def)
  with assms(1) show ?thesis
  proof (cases rule: tick_cases)
    case agent
    let ?c = "cursor_of (read_pending_decision w)"
    from agent(3) assms(3) have "resume_agent_park fuel env run_id (read_pending_decision w) workflow w = (spans, out, w')" by simp
    from consume_marker_world [OF this [unfolded resume_agent_park_def Let_def] assms(2,5)]
    show ?thesis using assms(2)
      by (auto simp: swapped_from_def split: option.splits jval.splits dest: chain_first)
  next
    case (consent w1)
    have k: "dw_run_decisions wb = dw_run_decisions w" if "consume_overnight env 0 run_id g c w = (oc, wb)" for g c oc wb
      using consuming_keeps_decisions [of env 0 run_id g c w] that by simp
    from consent(2) assms(3) show ?thesis unfolding consume_parked_boundary_under_consent_def Let_def
      by (auto intro: cw k split: option.splits if_splits prod.splits)
  next
    case (planned pl verb)
    with plan_resumed [OF planned(1) _ planned(2)] assms(3,4) have "pl_action pl \<noteq> PFresh" by fastforce
    with planned(4) assms(2,3,4) show ?thesis unfolding run_plan_def Let_def by (auto intro: cw split: if_splits)
  qed (use assms(2) in simp_all)
qed

lemma chain_runs:
  "fst (chain (Suc fuel) env run_id fam n repark verb spec w) \<noteq> []
   \<and> sp_verb (fst (chain (Suc fuel) env run_id fam n repark verb spec w) ! 0) = verb"
proof -
  obtain spans out w' where c: "chain (Suc fuel) env run_id fam n repark verb spec w = (spans, out, w')" by (metis surj_pair)
  then have "spans \<noteq> []" by (cases rule: chain_step) simp_all
  with chain_first [OF c] c show ?thesis by simp
qed

lemma unmarked_tick_follows_journal:
  assumes "run_id \<noteq> []" and "dw_pending u = Some []" and "workflow \<noteq> Some ''campaign''"
    and "latest_committed_resolved (dw_run_decisions u) = Some c" and "jget c ''next_block'' = JText verb"
    and "workflow_of verb = Some fam" and "workflow \<in> {None, Some fam}"
  shows "fst (run_tick (Suc fuel) env run_id workflow False None audit u) \<noteq> []
    \<and> sp_verb (fst (run_tick (Suc fuel) env run_id workflow False None audit u) ! 0) = verb"
proof -
  have none: "read_pending_decision u = []" by (simp add: read_pending_decision_def assms(2))
  have c: "committed_for env run_id [] workflow u = Some c"
    using assms(1,3,4) by (cases workflow) (auto simp: committed_for_def scope_decisions_def first_some_def nonempty_str_def Let_def map_filter_simps)
  have pl: "plan_block_action workflow [] (Some c) li = Some (plan PAdvance (Some verb) (Some fam) None (Some verb))" for li
    using assms(5,6,7) by (auto simp: plan_block_action_def plan_fresh_def text_of_jval_def Let_def)
  have "run_tick (Suc fuel) env run_id workflow False None audit u
      = run_plan (Suc fuel) env run_id [] (Some c) audit workflow (plan PAdvance (Some verb) (Some fam) None (Some verb)) verb u"
    by (simp add: run_tick_def commit_fused_approval_def assms(1) none c pl Let_def)
  also have "\<dots> = chain (Suc fuel) env run_id (Some fam) 0 None verb (resolved_spec env verb (Some c)) u"
    by (simp add: run_plan_def Let_def plan_def first_some_def map_filter_simps)
  finally show ?thesis using chain_runs by simp
qed

text \<open>C37: (a late reader runs the span again) The swap excludes drivers that read the marker before it was consumed. A driver that reads the record after the swap, while
  the consumed block still runs, finds no marker, falls back to the latest greenlight of the journal, which is the one just consumed,
  and without any swap runs the same block as its first span: two drivers then run one approved block at the
  same time.\<close>

theorem late_reader_runs_it_again:
  assumes "run_tick fuel env run_id workflow False None audit w = (spans, out, w')" and "spans \<noteq> []"
    and "run_id \<noteq> []" and "read_pending_decision w \<noteq> []" and "\<forall>v. de_meanwhile env v = v"
    and "workflow \<noteq> Some ''campaign''" and "latest_committed_resolved (dw_run_decisions w) = Some c"
    and "jget c ''next_block'' = JText (sp_verb (spans ! 0))"
    and "workflow_of (sp_verb (spans ! 0)) = Some fam" and "workflow \<in> {None, Some fam}"
  shows "fst (run_tick (Suc fuel') env run_id workflow False None audit (sp_world (spans ! 0))) \<noteq> []
    \<and> sp_verb (fst (run_tick (Suc fuel') env run_id workflow False None audit (sp_world (spans ! 0))) ! 0) = sp_verb (spans ! 0)"
  by (rule unmarked_tick_follows_journal [OF assms(3) _ assms(6) _ assms(8-10)])
    (use marked_tick_world [OF assms(1-5)] assms(7) in \<open>simp_all add: swapped_from_def\<close>)

theorem late_reader_runs_it_again_witness:
  "sp_verb (fst (run_tick (Suc 0) demo_drive_env ''r'' None False None []
     (sp_world (fst (run_tick 1 demo_drive_env ''r'' None False None [] demo_drive_world) ! 0))) ! 0) = ''submit-s2''"
proof (rule demo_span)
  fix spans out w' assume r: "run_tick 1 demo_drive_env ''r'' None False None [] demo_drive_world = (spans, out, w')"
    and "0 < length spans" and v: "sp_verb (spans ! 0) = ''submit-s2''"
  then have "spans \<noteq> []" by auto
  have c: "latest_committed_resolved (dw_run_decisions demo_drive_world) = Some [(''next_block'', JText ''submit-s2''), (''a'', JInt 1)]"
    by code_simp
  have m: "read_pending_decision demo_drive_world \<noteq> []" by (simp add: demo_read text_marker_nonempty [OF demo_marker_text])
  have f: "workflow_of (sp_verb (spans ! 0)) = Some ''submit''" unfolding v by code_simp
  have i: "\<forall>v. de_meanwhile demo_drive_env v = v" by (simp add: demo_drive_env_def)
  from late_reader_runs_it_again [OF r \<open>spans \<noteq> []\<close> _ m i _ c _ f, of 0]
  have "sp_verb (fst (run_tick (Suc 0) demo_drive_env ''r'' None False None [] (sp_world (spans ! 0))) ! 0) = ''submit-s2''"
    by (simp add: v)
  then show ?thesis unfolding r fst_conv .
qed

end
