(* ===== verification/QueueDispatch.thy ===== *)
theory QueueDispatch
  imports QueuePlacementLaws QueueRetry
begin

text \<open>
  The actor of the queue (\<open>ops/queue/dispatch.py\<close>) with the lock of a campaign (\<open>state/queue_locks.py\<close>), the
  grooming that follows (\<open>ops/queue/maintenance.py\<close>, \<open>prune_terminal_runs\<close> of \<open>state/index.py\<close>), the wake edge
  (\<open>ops/queue/chain.py\<close>) and the enqueueing verb (\<open>ops/queue/run.py\<close>). The lifecycle that is started, the
  computed run id and the sentence of a placement are arguments; reasons of rows are kept as their codes.
\<close>

section \<open>What a tick reads and writes\<close>

record dispatch_world =
  qw_store :: intake_store
  qw_journal :: journal

record start_result =
  sr_stage :: string
  sr_needs_decision :: bool
  sr_pid :: "int option"

datatype start_outcome = StartLeaseHeld | StartHpcError string | StartRaised | StartReturned start_result

text \<open>
  \<open>qe_compute\<close> is the \<open>run_id\<close> of \<open>compute_run_id\<close> under an exported campaign id, \<open>None\<close> when it raises;
  \<open>qe_lock_free\<close> says whether the campaign's lock is taken within the timeout; \<open>qe_mtime\<close> is a record's age on disk.
\<close>

record dispatch_env =
  qe_validators :: validators
  qe_clusters :: raw_config
  qe_compute :: "string option \<Rightarrow> string \<Rightarrow> jval option"
  qe_reason :: "placement \<Rightarrow> string"
  qe_lifecycle_ok :: "string option \<Rightarrow> string \<Rightarrow> dict \<Rightarrow> bool"
  qe_lock_free :: "string \<Rightarrow> bool"
  qe_start :: "string option \<Rightarrow> string \<Rightarrow> dict \<Rightarrow> dispatch_world \<Rightarrow> start_outcome \<times> dispatch_world"
  qe_mtime :: "run_record \<Rightarrow> rat"

definition ADVANCE_MAX_PLACEMENTS :: nat where "ADVANCE_MAX_PLACEMENTS = 50"
definition ADOPTABLE_STATUSES :: "string list" where
  "ADOPTABLE_STATUSES = [''submitting'', ''in_flight'', ''complete'']"
definition GATE_REFUSED_STAGE :: string where "GATE_REFUSED_STAGE = ''submit_failed''"

section \<open>Reading an item\<close>

definition stripped :: "jval \<Rightarrow> string option" where
  "stripped v = (case v of JText s \<Rightarrow> if py_strip s = [] then None else Some (py_strip s) | _ \<Rightarrow> None)"

definition wire_run_id :: "jval \<Rightarrow> string option" where
  "wire_run_id v = (case stripped v of None \<Rightarrow> None | Some t \<Rightarrow> if legal_id t then Some t else None)"

definition item_campaign_id :: "item option \<Rightarrow> string option" where
  "item_campaign_id it =
     (case it of
        None \<Rightarrow> None
      | Some i \<Rightarrow> (case jget i ''spec'' of JDict spec \<Rightarrow> wire_run_id (jget spec ''campaign_id'') | _ \<Rightarrow> None))"

definition is_hex_char :: "char \<Rightarrow> bool" where
  "is_hex_char c \<longleftrightarrow> c \<in> set ''0123456789abcdef''"

definition wire_cmd_sha :: "string option \<Rightarrow> string option" where
  "wire_cmd_sha v =
     (case v of
        None \<Rightarrow> None
      | Some s \<Rightarrow>
          (let t = py_strip s in if 8 \<le> length t \<and> length t \<le> 64 \<and> list_all is_hex_char t then Some t else None))"

datatype target_source = FromAdvance | FromLedger

record dispatch_target =
  tg_item :: string
  tg_cluster :: string
  tg_campaign :: "string option"
  tg_reason :: string
  tg_source :: target_source

text \<open>The run id of an item, computed and never minted; \<open>None\<close> when nothing names it.\<close>

definition derive_run_id :: "dispatch_env \<Rightarrow> item \<Rightarrow> dispatch_target \<Rightarrow> string option" where
  "derive_run_id env it target =
     (case (case item_run_id it of None \<Rightarrow> None | Some r \<Rightarrow> wire_run_id (JText r)) of
        Some rid \<Rightarrow> Some rid
      | None \<Rightarrow>
          (case (case jget it ''spec'' of JDict spec \<Rightarrow> wire_run_id (jget spec ''run_id'') | _ \<Rightarrow> None) of
             Some rid \<Rightarrow> Some rid
           | None \<Rightarrow>
               (case stripped (jget it ''run_name'') of
                  None \<Rightarrow> None
                | Some name \<Rightarrow>
                    (case qe_compute env (case tg_campaign target of Some c \<Rightarrow> if c = [] then None else Some c | None \<Rightarrow> None) name of
                       None \<Rightarrow> None
                     | Some v \<Rightarrow> wire_run_id v))))"

definition adopted_status :: "journal \<Rightarrow> string \<Rightarrow> string option" where
  "adopted_status journal rid =
     (case load_run journal rid of
        None \<Rightarrow> None
      | Some r \<Rightarrow>
          (case stripped (JText (run_status r)) of
             None \<Rightarrow> None | Some st \<Rightarrow> if st \<in> set ADOPTABLE_STATUSES then Some st else None))"

text \<open>Whether the placed cluster still has an address.\<close>

definition cluster_transport_ok :: "dispatch_env \<Rightarrow> string \<Rightarrow> bool" where
  "cluster_transport_ok env cl \<longleftrightarrow>
     (case qe_clusters env of
        Mapping entries \<Rightarrow>
          (case map_of entries (JText cl) of
             Some (JDict entry) \<Rightarrow>
               (case read_config (qe_validators env) entry of
                  Config cfg \<Rightarrow> (case cfg_ssh_target cfg of None \<Rightarrow> False | Some t \<Rightarrow> stripped (JText t) \<noteq> None)
                | _ \<Rightarrow> False)
           | _ \<Rightarrow> False)
      | _ \<Rightarrow> False)"

section \<open>The rows of a result\<close>

datatype refusal_code =
  ClaimHeld | RefItemUnresolved | ResolveBlocked | ClusterUnresolvable | GateRefused | LifecycleFailed

definition refusal_text :: "refusal_code \<Rightarrow> string" where
  "refusal_text c =
     (case c of ClaimHeld \<Rightarrow> ''claim_held'' | RefItemUnresolved \<Rightarrow> ''item_unresolved'' | ResolveBlocked \<Rightarrow> ''resolve_blocked''
      | ClusterUnresolvable \<Rightarrow> ''cluster_unresolvable'' | GateRefused \<Rightarrow> ''gate_refused'' | LifecycleFailed \<Rightarrow> ''lifecycle_failed'')"

definition NEEDS_DECISION_REFUSALS :: "refusal_code list" where
  "NEEDS_DECISION_REFUSALS = [ResolveBlocked, GateRefused]"

record dispatch_refusal =
  rf_item :: string
  rf_run :: "string option"
  rf_cluster :: "string option"
  rf_campaign :: "string option"
  rf_code :: refusal_code
  rf_placed :: bool

record dispatched_item =
  di_item :: string
  di_run :: string
  di_cmd_sha :: "string option"
  di_cluster :: string
  di_campaign :: "string option"
  di_started :: bool
  di_adopted_status :: "string option"
  di_placed :: bool
  di_pid :: "int option"
  di_stage :: "string option"

datatype dispatch_outcome = ItemRaised | Dispatched dispatched_item | Refusal dispatch_refusal

text \<open>The row models accept wire identifiers only and raise otherwise.\<close>

definition row_legal :: "dispatch_target \<Rightarrow> bool" where
  "row_legal target \<longleftrightarrow>
     legal_id (tg_item target) \<and> (case tg_campaign target of None \<Rightarrow> True | Some c \<Rightarrow> legal_id c)"

definition refusal :: "dispatch_target \<Rightarrow> refusal_code \<Rightarrow> string option \<Rightarrow> bool \<Rightarrow> dispatch_outcome" where
  "refusal target code rid placed =
     (if row_legal target
      then Refusal \<lparr>rf_item = tg_item target, rf_run = rid,
                    rf_cluster = (if tg_cluster target = [] then None else Some (tg_cluster target)),
                    rf_campaign = tg_campaign target, rf_code = code, rf_placed = placed\<rparr>
      else ItemRaised)"

definition bare_refusal :: "string \<Rightarrow> refusal_code \<Rightarrow> dispatch_refusal" where
  "bare_refusal iid code =
     \<lparr>rf_item = iid, rf_run = None, rf_cluster = None, rf_campaign = None, rf_code = code, rf_placed = False\<rparr>"

definition dispatched_row ::
  "dispatch_target \<Rightarrow> string \<Rightarrow> item \<Rightarrow> bool \<Rightarrow> string option \<Rightarrow> bool \<Rightarrow> int option \<Rightarrow> string option \<Rightarrow> dispatch_outcome" where
  "dispatched_row target rid it is_start status placed pid stage =
     (if row_legal target
      then Dispatched \<lparr>di_item = tg_item target, di_run = rid, di_cmd_sha = wire_cmd_sha (item_cmd_sha it),
                       di_cluster = tg_cluster target, di_campaign = tg_campaign target, di_started = is_start,
                       di_adopted_status = status, di_placed = placed, di_pid = pid, di_stage = stage\<rparr>
      else ItemRaised)"

section \<open>One item\<close>

definition lock_name_ok :: "string \<Rightarrow> bool" where
  "lock_name_ok cid \<longleftrightarrow>
     (let c = py_strip cid
      in c \<noteq> [] \<and> c \<notin> {''.'', ''..''} \<and> CHR ''/'' \<notin> set c \<and> CHR 0x5C \<notin> set c \<and> CHR 0x00 \<notin> set c)"

datatype lock_answer = LockTaken | LockHeld | LockRaised

definition campaign_dispatch_lock :: "dispatch_env \<Rightarrow> string option \<Rightarrow> lock_answer" where
  "campaign_dispatch_lock env campaign =
     (case campaign of
        None \<Rightarrow> LockTaken
      | Some c \<Rightarrow>
          (if c = [] then LockTaken
           else if \<not> lock_name_ok c then LockRaised
           else if qe_lock_free env c then LockTaken else LockHeld))"

text \<open>The placement of a target on the ledger: \<open>None\<close> when its token is refused, otherwise whether this call wrote it.\<close>

definition record_placement ::
  "string \<Rightarrow> dispatch_target \<Rightarrow> string \<Rightarrow> string \<Rightarrow> dispatch_world \<Rightarrow> (bool \<times> dispatch_world) option" where
  "record_placement now target why rid w =
     (case placement_request_id (tg_item target) of
        None \<Rightarrow> None
      | Some token \<Rightarrow>
          (case append_intake_placement now (tg_item target) token (tg_cluster target)
                  (case tg_campaign target of None \<Rightarrow> [] | Some c \<Rightarrow> c) why (Some rid) (qw_store w) of
             (BadToken, s) \<Rightarrow> None
           | (Written, s) \<Rightarrow> Some (True, w\<lparr>qw_store := s\<rparr>)
           | (Replayed old, s) \<Rightarrow> Some (False, w\<lparr>qw_store := s\<rparr>)))"

definition start_item ::
  "dispatch_env \<Rightarrow> string \<Rightarrow> dispatch_target \<Rightarrow> item \<Rightarrow> string \<Rightarrow> dict \<Rightarrow> dispatch_world \<Rightarrow> dispatch_outcome \<times> dispatch_world" where
  "start_item env now target it rid spec w =
     (case campaign_dispatch_lock env (tg_campaign target) of
        LockRaised \<Rightarrow> (ItemRaised, w)
      | LockHeld \<Rightarrow> (refusal target ClaimHeld (Some rid) False, w)
      | LockTaken \<Rightarrow>
          (case record_placement now target (tg_reason target) rid w of
             None \<Rightarrow> (ItemRaised, w)
           | Some (placed, w) \<Rightarrow>
               (case qe_start env (tg_campaign target) rid spec w of
                  (StartLeaseHeld, w) \<Rightarrow> (refusal target ClaimHeld (Some rid) placed, w)
                | (StartHpcError code, w) \<Rightarrow> (refusal target LifecycleFailed (Some rid) placed, w)
                | (StartRaised, w) \<Rightarrow> (ItemRaised, w)
                | (StartReturned r, w) \<Rightarrow>
                    (if sr_stage r = GATE_REFUSED_STAGE then refusal target GateRefused (Some rid) placed
                     else if sr_needs_decision r then refusal target LifecycleFailed (Some rid) placed
                     else if sr_stage r \<noteq> ''detached''
                     then dispatched_row target rid it False None placed None (Some (sr_stage r))
                     else dispatched_row target rid it True None placed (sr_pid r) (Some (sr_stage r)), w))))"

definition dispatch_one ::
  "dispatch_env \<Rightarrow> string \<Rightarrow> item list \<Rightarrow> dispatch_target \<Rightarrow> dispatch_world \<Rightarrow> dispatch_outcome \<times> dispatch_world" where
  "dispatch_one env now items target w =
     (case find_intake_item items (tg_item target) of
        None \<Rightarrow> (refusal target RefItemUnresolved None False, w)
      | Some it \<Rightarrow>
          (case derive_run_id env it target of
             None \<Rightarrow> (refusal target RefItemUnresolved None False, w)
           | Some rid \<Rightarrow>
               (case adopted_status (qw_journal w) rid of
                  Some status \<Rightarrow>
                    (case record_placement now target (''adopted run '' @ rid @ '', already dispatched: '' @ tg_reason target) rid w of
                       None \<Rightarrow> (ItemRaised, w)
                     | Some (placed, w) \<Rightarrow> (dispatched_row target rid it False (Some status) placed None None, w))
                | None \<Rightarrow>
                    (if \<not> cluster_transport_ok env (tg_cluster target)
                     then (refusal target ClusterUnresolvable (Some rid) False, w)
                     else
                       (case jget it ''spec'' of
                          JDict spec \<Rightarrow>
                            (if spec = [] then (refusal target RefItemUnresolved (Some rid) False, w)
                             else if wire_run_id (jget spec ''run_id'') \<notin> {None, Some rid}
                             then (refusal target RefItemUnresolved (Some rid) False, w)
                             else if stripped (jget spec ''cluster'') \<notin> {None, Some (tg_cluster target)}
                             then (refusal target ClusterUnresolvable (Some rid) False, w)
                             else if \<not> qe_lifecycle_ok env (tg_campaign target) rid spec
                             then (refusal target RefItemUnresolved (Some rid) False, w)
                             else start_item env now target it rid spec w)
                        | _ \<Rightarrow> (refusal target RefItemUnresolved (Some rid) False, w))))))"

text \<open>The loop over the targets; \<open>None\<close> when an item raises, with what was done so far.\<close>

fun dispatch_all ::
  "dispatch_env \<Rightarrow> string \<Rightarrow> item list \<Rightarrow> dispatch_target list \<Rightarrow> dispatch_world
   \<Rightarrow> (dispatched_item list \<times> dispatch_refusal list) option \<times> dispatch_world" where
  "dispatch_all env now items [] w = (Some ([], []), w)"
| "dispatch_all env now items (t # ts) w =
     (case dispatch_one env now items t w of
        (ItemRaised, w) \<Rightarrow> (None, w)
      | (Dispatched d, w) \<Rightarrow>
          (case dispatch_all env now items ts w of
             (None, w) \<Rightarrow> (None, w) | (Some (ds, rs), w) \<Rightarrow> (Some (d # ds, rs), w))
      | (Refusal r, w) \<Rightarrow>
          (case dispatch_all env now items ts w of
             (None, w) \<Rightarrow> (None, w) | (Some (ds, rs), w) \<Rightarrow> (Some (ds, r # rs), w)))"

section \<open>Grooming\<close>

definition KEEP_TERMINAL_RUNS :: nat where "KEEP_TERMINAL_RUNS = 100"

text \<open>The newest \<open>keep\<close> unprotected settled records stay; files are removed without errors.\<close>

definition prune_terminal_runs :: "(run_record \<Rightarrow> rat) \<Rightarrow> nat \<Rightarrow> string list \<Rightarrow> journal \<Rightarrow> nat \<times> journal" where
  "prune_terminal_runs mtime keep protect journal =
     (case journal of
        None \<Rightarrow> (0, None)
      | Some rs \<Rightarrow>
          (let settled = filter (\<lambda>r. run_status r \<in> set TERMINAL_STATUSES \<and> run_id r \<notin> set protect) rs;
               going = map run_id (drop keep (sort_key (\<lambda>r. - mtime r) settled))
           in (length going, Some (filter (\<lambda>r. run_id r \<notin> set going) rs))))"

record groom_report =
  gr_compaction :: "compaction_report option"
  gr_pruned :: nat
  gr_protected :: nat

definition protected_runs :: "intake_store \<Rightarrow> string list" where
  "protected_runs s = remdups (List.map_filter item_run_id (read_intake_items s))"

definition groom_queue_stores :: "dispatch_env \<Rightarrow> string \<Rightarrow> string list \<Rightarrow> dispatch_world \<Rightarrow> groom_report \<times> dispatch_world" where
  "groom_queue_stores env now exempt w =
     (case groom_ledger now (grooming_census (qw_journal w) exempt (qw_store w)) (qw_store w) of
        (None, s) \<Rightarrow> (\<lparr>gr_compaction = None, gr_pruned = 0, gr_protected = 0\<rparr>, w\<lparr>qw_store := s\<rparr>)
      | (Some rep, s) \<Rightarrow>
          (let protect = protected_runs s;
               (n, journal) = prune_terminal_runs (qe_mtime env) KEEP_TERMINAL_RUNS protect (qw_journal w)
           in (\<lparr>gr_compaction = Some rep, gr_pruned = n, gr_protected = length protect\<rparr>,
               w\<lparr>qw_store := s, qw_journal := journal\<rparr>)))"

section \<open>The tick\<close>

record dispatch_spec =
  ds_base :: "string option"
  ds_items :: "string list option"
  ds_max :: nat
  ds_unattended :: bool
  ds_clusters :: "string list option"

text \<open>What the model of the spec accepts.\<close>

definition dispatch_spec_ok :: "dispatch_spec \<Rightarrow> bool" where
  "dispatch_spec_ok spec \<longleftrightarrow>
     1 \<le> ds_max spec \<and> ds_max spec \<le> 50
     \<and> (ds_max spec > 1 \<longrightarrow> ds_unattended spec \<or> ds_items spec \<noteq> None)
     \<and> (case ds_items spec of None \<Rightarrow> True | Some iids \<Rightarrow> list_all legal_id iids)"

definition ledger_target :: "item \<Rightarrow> dispatch_target option" where
  "ledger_target it =
     (case stripped (jget it ''cluster'') of
        None \<Rightarrow> None
      | Some cl \<Rightarrow>
          Some \<lparr>tg_item = (case jget it ''item_id'' of JText i \<Rightarrow> i | _ \<Rightarrow> []), tg_cluster = cl,
                tg_campaign = (case stripped (jget it ''campaign_id'') of Some c \<Rightarrow> Some c | None \<Rightarrow> item_campaign_id (Some it)),
                tg_reason = (case stripped (jget it ''placement_reason'') of
                               Some t \<Rightarrow> t
                             | None \<Rightarrow> (case stripped (jget it ''reason'') of
                                          Some t \<Rightarrow> t
                                        | None \<Rightarrow> ''the placement already recorded on the intake ledger'')),
                tg_source = FromLedger\<rparr>)"

definition advance_target :: "dispatch_env \<Rightarrow> item list \<Rightarrow> placement \<Rightarrow> dispatch_target" where
  "advance_target env items p =
     \<lparr>tg_item = p_item p, tg_cluster = p_cluster p,
      tg_campaign = (case p_campaign_id p of
                       Some c \<Rightarrow> if c = [] then item_campaign_id (find_intake_item items (p_item p)) else Some c
                     | None \<Rightarrow> item_campaign_id (find_intake_item items (p_item p))),
      tg_reason = qe_reason env p, tg_source = FromAdvance\<rparr>"

text \<open>The named items that the authority neither placed nor held.\<close>

fun recover_named :: "item list \<Rightarrow> string set \<Rightarrow> string list \<Rightarrow> dispatch_refusal list \<times> dispatch_target list" where
  "recover_named items seen [] = ([], [])"
| "recover_named items seen (iid # iids) =
     (let (rs, ts) = recover_named items seen iids
      in if iid \<in> seen then (rs, ts)
         else
           (case find_intake_item items iid of
              None \<Rightarrow> (bare_refusal iid RefItemUnresolved # rs, ts)
            | Some it \<Rightarrow>
                (if jget it ''state'' \<noteq> JText ''placed'' then (bare_refusal iid RefItemUnresolved # rs, ts)
                 else
                   (case ledger_target it of
                      None \<Rightarrow> (bare_refusal iid ClusterUnresolvable # rs, ts)
                    | Some t \<Rightarrow> (rs, t # ts)))))"

record dispatch_report =
  qr_stage :: string
  qr_needs_decision :: bool
  qr_dispatched :: "dispatched_item list"
  qr_refused :: "dispatch_refusal list"
  qr_retries :: "retry_row list"
  qr_held :: "holdback list"
  qr_refused_counts :: "(string \<times> int) list"
  qr_held_counts :: "(string \<times> int) list"
  qr_batch_allowed_by :: "string option"
  qr_considered :: nat
  qr_occupancy :: "(string \<times> nat) list"
  qr_maintenance :: "groom_report option"

datatype dispatch_failure = RetriesRaised | AdvanceRaised advance_error | TargetRaised

text \<open>The request to the placement authority; a call that names items asks for every placement.\<close>

definition advance_request :: "dispatch_spec \<Rightarrow> advance_spec" where
  "advance_request spec =
     \<lparr>sp_campaign_base = ds_base spec,
      sp_max_placements = (if ds_items spec \<noteq> None then ADVANCE_MAX_PLACEMENTS else ds_max spec),
      sp_clusters = ds_clusters spec\<rparr>"

definition named_items :: "dispatch_spec \<Rightarrow> string list" where
  "named_items spec = (case ds_items spec of None \<Rightarrow> [] | Some iids \<Rightarrow> iids)"

definition wanted :: "dispatch_spec \<Rightarrow> string \<Rightarrow> bool" where
  "wanted spec i \<longleftrightarrow> (case ds_items spec of None \<Rightarrow> True | Some iids \<Rightarrow> i \<in> set iids)"

definition placements_in_scope :: "dispatch_spec \<Rightarrow> advance_result \<Rightarrow> placement list" where
  "placements_in_scope spec adv = filter (\<lambda>p. wanted spec (p_item p)) (ar_placements adv)"

definition held_in_scope :: "dispatch_spec \<Rightarrow> advance_result \<Rightarrow> holdback list" where
  "held_in_scope spec adv = filter (\<lambda>h. wanted spec (h_item h)) (ar_held adv)"

definition dispatch_result ::
  "dispatch_spec \<Rightarrow> retry_row list \<Rightarrow> advance_result \<Rightarrow> dispatched_item list \<Rightarrow> dispatch_refusal list \<Rightarrow> groom_report option
   \<Rightarrow> dispatch_report" where
  "dispatch_result spec retried adv ds refused maintenance =
     \<lparr>qr_stage = (if ds \<noteq> [] then ''dispatched'' else if refused \<noteq> [] then ''dispatch_refused'' else ''nothing_to_dispatch''),
      qr_needs_decision = list_ex (\<lambda>r. rf_code r \<in> set NEEDS_DECISION_REFUSALS) refused,
      qr_dispatched = ds, qr_refused = refused, qr_retries = retried, qr_held = held_in_scope spec adv,
      qr_refused_counts = foldl (\<lambda>c r. bump (refusal_text (rf_code r)) 1 c) [] refused,
      qr_held_counts = foldl (\<lambda>c h. bump (reason_code (h_reason h)) 1 c) [] (held_in_scope spec adv),
      qr_batch_allowed_by =
        (if ds_max spec > 1 then Some (if ds_unattended spec then ''unattended_tier'' else ''item_ids'') else None),
      qr_considered = length (ar_placements adv), qr_occupancy = ar_occupancy adv, qr_maintenance = maintenance\<rparr>"

text \<open>Acting on the decisions: the targets in order, at most \<open>ds_max\<close> of them, then the janitor.\<close>

definition act_on ::
  "dispatch_env \<Rightarrow> string \<Rightarrow> dispatch_spec \<Rightarrow> retry_row list \<Rightarrow> item list \<Rightarrow> advance_result \<Rightarrow> dispatch_world
   \<Rightarrow> (dispatch_failure + dispatch_report) \<times> dispatch_world" where
  "act_on env now spec retried items adv w =
     (let targets = map (advance_target env items) (placements_in_scope spec adv);
          (named_refused, named_targets) =
            recover_named items (tg_item ` set targets \<union> h_item ` set (held_in_scope spec adv)) (named_items spec)
      in case dispatch_all env now items (take (ds_max spec) (targets @ named_targets)) w of
           (None, w) \<Rightarrow> (Inl TargetRaised, w)
         | (Some (ds, rs), w) \<Rightarrow>
             (if ds = [] then (Inr (dispatch_result spec retried adv ds (named_refused @ rs) None), w)
              else
                (let (g, w) = groom_queue_stores env now (map di_item ds @ map rf_item (named_refused @ rs)) w
                 in (Inr (dispatch_result spec retried adv ds (named_refused @ rs) (Some g)), w))))"

definition queue_dispatch ::
  "dispatch_env \<Rightarrow> string \<Rightarrow> dispatch_spec \<Rightarrow> dispatch_world \<Rightarrow> (dispatch_failure + dispatch_report) \<times> dispatch_world" where
  "queue_dispatch env now spec w =
     (case produce_declared_retries now (qw_journal w) (read_intake_items (qw_store w)) (qw_store w) of
        None \<Rightarrow> (Inl RetriesRaised, w)
      | Some (retried, _, s) \<Rightarrow>
          (case queue_advance (qe_validators env) (qw_journal w) (read_intake_items s) (qe_clusters env) (advance_request spec) of
             Inl e \<Rightarrow> (Inl (AdvanceRaised e), w\<lparr>qw_store := s\<rparr>)
           | Inr adv \<Rightarrow> act_on env now spec retried (read_intake_items s) adv (w\<lparr>qw_store := s\<rparr>)))"

section \<open>The wake edge\<close>

definition WAKE_MAX_DISPATCHES :: nat where "WAKE_MAX_DISPATCHES = 5"

definition wake_spec :: dispatch_spec where
  "wake_spec = \<lparr>ds_base = None, ds_items = None, ds_max = WAKE_MAX_DISPATCHES, ds_unattended = True, ds_clusters = None\<rparr>"

datatype wake_skip = NoRun | NoJournal | NoRecord | StillOccupies

datatype wake_answer = NoQueue | WakeSkipped wake_skip | Woken "dispatch_failure + dispatch_report"

text \<open>A failed tick is a row as well: nothing is raised.\<close>

definition chain_dispatch_on_retire ::
  "dispatch_env \<Rightarrow> string \<Rightarrow> string option \<Rightarrow> dispatch_world \<Rightarrow> wake_answer \<times> dispatch_world" where
  "chain_dispatch_on_retire env now rid w =
     (if intake_lines (qw_store w) = None then (NoQueue, w)
      else
        (case (case rid of None \<Rightarrow> None | Some r \<Rightarrow> if py_strip r = [] then None else Some (py_strip r)) of
           None \<Rightarrow> (WakeSkipped NoRun, w)
         | Some r \<Rightarrow>
             (if qw_journal w = None then (WakeSkipped NoJournal, w)
              else
                (case load_run (qw_journal w) r of
                   None \<Rightarrow> (WakeSkipped NoRecord, w)
                 | Some rec \<Rightarrow>
                     (if run_occupies (Some rec) then (WakeSkipped StillOccupies, w)
                      else (let (res, w) = queue_dispatch env now wake_spec w in (Woken res, w)))))))"

section \<open>Enqueueing\<close>

datatype run_error = BlankPin | ConfigBad | PinUnknown | LedgerLost | BlankRequest

definition validated_cluster_pin :: "raw_config \<Rightarrow> string option \<Rightarrow> run_error + string option" where
  "validated_cluster_pin raw pin =
     (case pin of
        None \<Rightarrow> Inr None
      | Some p \<Rightarrow>
          (let key = py_strip p
           in if key = [] then Inl BlankPin
              else
                (case raw of
                   Mapping entries \<Rightarrow> (if map_of entries (JText key) \<noteq> None then Inr (Some key) else Inl PinUnknown)
                 | _ \<Rightarrow> Inl ConfigBad)))"

record run_result =
  rr_item :: string
  rr_state :: string
  rr_replayed :: bool
  rr_compacted :: bool
  rr_run :: "string option"
  rr_queued :: nat

definition run_payload :: "dict \<Rightarrow> string option \<Rightarrow> item" where
  "run_payload request pin =
     [(''spec'', jget request ''spec''), (''spec_ref'', jget request ''spec_ref''), (''run_name'', jget request ''run_name''),
      (''run_id'', jget request ''run_id''), (''cmd_sha'', jget request ''cmd_sha''),
      (''cluster_pin'', case pin of None \<Rightarrow> JNull | Some p \<Rightarrow> JText p),
      (''campaign_base'', jget request ''campaign_base''), (''resources'', jget request ''resources''),
      (''retryable'', jget request ''retryable'')]"

definition queue_run ::
  "raw_config \<Rightarrow> string \<Rightarrow> dict \<Rightarrow> string option \<Rightarrow> string \<Rightarrow> intake_store \<Rightarrow> (run_error + run_result) \<times> intake_store" where
  "queue_run raw now request pin request_id s =
     (case validated_cluster_pin raw pin of
        Inl e \<Rightarrow> (Inl e, s)
      | Inr key \<Rightarrow>
          (case append_intake_item now (run_payload request key) request_id s of
             (BadToken, s) \<Rightarrow> (Inl BlankRequest, s)
           | (answer, s) \<Rightarrow>
               (let replayed = (case answer of Replayed old \<Rightarrow> Some old | _ \<Rightarrow> None);
                    items = read_intake_items s;
                    queued = length (items_in_states items [''queued''])
                in if is_compaction_tombstone replayed
                   then (Inr \<lparr>rr_item = request_id, rr_state = ''placed'', rr_replayed = True, rr_compacted = True, rr_run = None,
                              rr_queued = queued\<rparr>, s)
                   else
                     (case find_intake_item items request_id of
                        None \<Rightarrow> (Inl LedgerLost, s)
                      | Some it \<Rightarrow>
                          (Inr \<lparr>rr_item = request_id,
                                rr_state = (case nonempty_str it ''state'' of None \<Rightarrow> ''queued'' | Some st \<Rightarrow> st),
                                rr_replayed = replayed \<noteq> None, rr_compacted = False, rr_run = item_run_id it,
                                rr_queued = queued\<rparr>, s)))))"

end
