(* ===== verification/QueueDispatchLaws.thy ===== *)
theory QueueDispatchLaws
  imports QueueDispatch
begin

text \<open>
  What a dispatching tick promises: every item comes back exactly once, unless the call names more items than it may
  start; no run is started twice; grooming spares the runs the ledger names; the wake edge and the enqueueing verb.
\<close>

section \<open>Every item comes back\<close>

lemma refusal_names: "refusal t code rid placed = Refusal r \<Longrightarrow> rf_item r = tg_item t"
  by (auto simp: refusal_def split: if_splits)

lemma row_names: "dispatched_row t rid it st status placed pid stage = Dispatched d \<Longrightarrow> di_item d = tg_item t"
  by (auto simp: dispatched_row_def split: if_splits)

lemma not_both [simp]: "refusal t code maybe placed \<noteq> Dispatched d" "dispatched_row t rid it st status placed pid stage \<noteq> Refusal r"
  by (simp_all add: refusal_def dispatched_row_def)

lemma start_names:
  "start_item env now t it rid spec w = (Refusal r, w') \<Longrightarrow> rf_item r = tg_item t"
  "start_item env now t it rid spec w = (Dispatched d, w') \<Longrightarrow> di_item d = tg_item t"
  unfolding start_item_def
  by (auto split: lock_answer.splits option.splits prod.splits start_outcome.splits if_splits dest: refusal_names row_names)

lemma one_names:
  "dispatch_one env now items t w = (Refusal r, w') \<Longrightarrow> rf_item r = tg_item t"
  "dispatch_one env now items t w = (Dispatched d, w') \<Longrightarrow> di_item d = tg_item t"
  unfolding dispatch_one_def
  by (auto split: option.splits prod.splits jval.splits if_splits dest: refusal_names row_names start_names)

lemma all_names:
  "dispatch_all env now items ts w = (Some (ds, rs), w') \<Longrightarrow> mset (map di_item ds) + mset (map rf_item rs) = mset (map tg_item ts)"
proof (induction ts arbitrary: w ds rs w')
  case (Cons t ts)
  obtain out w1 where o: "dispatch_one env now items t w = (out, w1)" by (metis surj_pair)
  obtain more w2 where m: "dispatch_all env now items ts w1 = (more, w2)" by (metis surj_pair)
  show ?case
  proof (cases out)
    case ItemRaised
    with Cons.prems show ?thesis by (simp add: o)
  next
    case (Dispatched d)
    with Cons.prems Cons.IH [of w1] one_names(2) [of env now items t w d w1] show ?thesis
      by (auto simp: o m split: option.splits prod.splits)
  next
    case (Refusal r)
    with Cons.prems Cons.IH [of w1] one_names(1) [of env now items t w r w1] show ?thesis
      by (auto simp: o m split: option.splits prod.splits)
  qed
qed simp

lemma acted_parts:
  assumes "act_on env now spec retried items adv w = (Inr rep, w')"
  obtains nr nt ds rs w1 where
    "recover_named items (p_item ` set (placements_in_scope spec adv) \<union> h_item ` set (held_in_scope spec adv)) (named_items spec) = (nr, nt)"
    "dispatch_all env now items (take (ds_max spec) (map (advance_target env items) (placements_in_scope spec adv) @ nt)) w
       = (Some (ds, rs), w1)"
    "qr_dispatched rep = ds" "qr_refused rep = nr @ rs" "qr_held rep = held_in_scope spec adv"
    "w' = (if ds = [] then w1 else snd (groom_queue_stores env now (map di_item ds @ map rf_item (nr @ rs)) w1))"
proof -
  let ?ts = "map (advance_target env items) (placements_in_scope spec adv)"
  have names: "tg_item ` set ?ts = p_item ` set (placements_in_scope spec adv)" by (auto simp: advance_target_def image_image)
  obtain nr nt where n: "recover_named items (p_item ` set (placements_in_scope spec adv) \<union> h_item ` set (held_in_scope spec adv))
      (named_items spec) = (nr, nt)" by (metis surj_pair)
  obtain out w1 where d: "dispatch_all env now items (take (ds_max spec) (?ts @ nt)) w = (out, w1)" by (metis surj_pair)
  note eq = assms [unfolded act_on_def Let_def names n prod.case d]
  from eq obtain ds rs where o: "out = Some (ds, rs)" by (auto split: option.splits)
  note eq = eq [unfolded o option.case prod.case]
  obtain g w2 where g: "groom_queue_stores env now (map di_item ds @ map rf_item (nr @ rs)) w1 = (g, w2)" by (metis surj_pair)
  have r: "ds = [] \<and> rep = dispatch_result spec retried adv ds (nr @ rs) None \<and> w' = w1
      \<or> ds \<noteq> [] \<and> rep = dispatch_result spec retried adv ds (nr @ rs) (Some g) \<and> w' = w2"
    using eq [unfolded g prod.case] by (auto split: if_splits)
  have w: "w' = (if ds = [] then w1 else snd (groom_queue_stores env now (map di_item ds @ map rf_item (nr @ rs)) w1))"
    unfolding g snd_conv using r by auto
  from r have "qr_dispatched rep = ds" "qr_refused rep = nr @ rs" "qr_held rep = held_in_scope spec adv"
    by (auto simp: dispatch_result_def)
  with that [OF n d [unfolded o]] w show thesis by blast
qed

lemma tick_parts:
  assumes "queue_dispatch env now spec w = (Inr rep, w')"
  obtains retried b s adv where
    "produce_declared_retries now (qw_journal w) (read_intake_items (qw_store w)) (qw_store w) = Some (retried, b, s)"
    "queue_advance (qe_validators env) (qw_journal w) (read_intake_items s) (qe_clusters env) (advance_request spec) = Inr adv"
    "act_on env now spec retried (read_intake_items s) adv (w\<lparr>qw_store := s\<rparr>) = (Inr rep, w')"
  using assms by (auto simp: queue_dispatch_def split: option.splits prod.splits sum.splits)

lemma unnamed_scope:
  assumes "ds_items spec = None"
  shows "placements_in_scope spec adv = ar_placements adv" "held_in_scope spec adv = ar_held adv" "named_items spec = []"
    "sp_max_placements (advance_request spec) = ds_max spec"
  using assms by (simp_all add: placements_in_scope_def held_in_scope_def wanted_def named_items_def advance_request_def)

lemma target_names: "tg_item \<circ> advance_target env items = p_item"
  by (simp add: advance_target_def fun_eq_iff)

text \<open>C23: (no item is dropped) A tick over the whole queue returns every queued item in scope, the retries it has just enqueued included, exactly once:
  dispatched, refused with a cause, or held with the authority's own reason; and it acts on at most as many as its
  bound.\<close>

theorem no_item_is_dropped:
  assumes "queue_dispatch env now spec w = (Inr rep, w')" and "ds_items spec = None"
    and "\<forall>m. qe_clusters env = Mapping m \<longrightarrow> distinct (map fst m)"
    and "produce_declared_retries now (qw_journal w) (read_intake_items (qw_store w)) (qw_store w) = Some (retried, b, s)"
  shows "mset (map di_item (qr_dispatched rep)) + mset (map rf_item (qr_refused rep)) + mset (map h_item (qr_held rep))
      = mset (map name_of (queued_in_scope (advance_request spec) (read_intake_items s)))
    \<and> length (qr_dispatched rep) + length (qr_refused rep) \<le> ds_max spec"
proof -
  from tick_parts [OF assms(1)] assms(4) obtain adv where
    a: "queue_advance (qe_validators env) (qw_journal w) (read_intake_items s) (qe_clusters env) (advance_request spec) = Inr adv"
    and act: "act_on env now spec retried (read_intake_items s) adv (w\<lparr>qw_store := s\<rparr>) = (Inr rep, w')" by auto
  note sc = unnamed_scope [OF assms(2)]
  from pass_reached [OF refl _ a] assms(3) have m: "mset (map p_item (ar_placements adv)) + mset (map h_item (ar_held adv))
      = mset (map name_of (queued_in_scope (advance_request spec) (read_intake_items s)))"
    and bd: "length (ar_placements adv) \<le> ds_max spec" by (metis pass_ok_def sc(4))+
  from acted_parts [OF act] obtain nr nt ds rs w1 where
    n: "recover_named (read_intake_items s) (p_item ` set (placements_in_scope spec adv) \<union> h_item ` set (held_in_scope spec adv))
          (named_items spec) = (nr, nt)"
    and d: "dispatch_all env now (read_intake_items s)
      (take (ds_max spec) (map (advance_target env (read_intake_items s)) (placements_in_scope spec adv) @ nt)) (w\<lparr>qw_store := s\<rparr>)
      = (Some (ds, rs), w1)"
    and r: "qr_dispatched rep = ds" "qr_refused rep = nr @ rs" "qr_held rep = held_in_scope spec adv" .
  from n have nn: "nr = []" "nt = []" by (simp_all add: sc)
  from all_names [OF d] bd have e: "mset (map di_item ds) + mset (map rf_item rs) = mset (map p_item (ar_placements adv))"
    by (simp add: nn sc target_names)
  from arg_cong [OF e, of size] have "length ds + length rs = length (ar_placements adv)" by simp
  with e m bd show ?thesis by (simp add: r nn sc add.assoc)
qed

text \<open>C40: (a call that names more than it may start loses items) A call may name several items and leave the bound at its default of one. The items
  beyond the bound that the authority did place are then in no list of the result: not dispatched, not refused, not
  held, although the result promises that none is dropped.\<close>

theorem named_call_loses_items:
  assumes "queue_dispatch env now spec w = (Inr rep, w')" and "ds_items spec = Some iids" and "distinct iids"
    and "ds_max spec < length iids" and "dispatch_spec_ok spec"
    and "produce_declared_retries now (qw_journal w) (read_intake_items (qw_store w)) (qw_store w) = Some (retried, b, s)"
    and "queue_advance (qe_validators env) (qw_journal w) (read_intake_items s) (qe_clusters env) (advance_request spec) = Inr adv"
    and "set iids \<subseteq> p_item ` set (ar_placements adv)" and "h_item ` set (ar_held adv) \<inter> set iids = {}"
  shows "\<exists>i\<in>set iids. i \<notin> di_item ` set (qr_dispatched rep) \<and> i \<notin> rf_item ` set (qr_refused rep) \<and> i \<notin> h_item ` set (qr_held rep)"
proof -
  from tick_parts [OF assms(1)] assms(6,7) have
    act: "act_on env now spec retried (read_intake_items s) adv (w\<lparr>qw_store := s\<rparr>) = (Inr rep, w')" by auto
  from acted_parts [OF act] obtain nr nt ds rs w1 where
    n: "recover_named (read_intake_items s) (p_item ` set (placements_in_scope spec adv) \<union> h_item ` set (held_in_scope spec adv))
          (named_items spec) = (nr, nt)"
    and d: "dispatch_all env now (read_intake_items s)
      (take (ds_max spec) (map (advance_target env (read_intake_items s)) (placements_in_scope spec adv) @ nt)) (w\<lparr>qw_store := s\<rparr>)
      = (Some (ds, rs), w1)"
    and r: "qr_dispatched rep = ds" "qr_refused rep = nr @ rs" "qr_held rep = held_in_scope spec adv" .
  have sc: "set iids \<subseteq> p_item ` set (placements_in_scope spec adv)"
    using assms(2,8) by (auto simp: placements_in_scope_def wanted_def)
  have "recover_named items seen is = ([], [])" if "set is \<subseteq> seen" for items seen "is"
    using that by (induction "is") auto
  with n sc have nn: "nr = []" by (auto simp: named_items_def assms(2)) (metis Pair_inject le_supI1)
  have h: "i \<notin> h_item ` set (held_in_scope spec adv)" if "i \<in> set iids" for i
    using assms(9) that by (auto simp: held_in_scope_def)
  have "length (map di_item ds) + length (map rf_item rs) \<le> ds_max spec"
    using arg_cong [OF all_names [OF d], of size] by simp
  then have "card (di_item ` set ds \<union> rf_item ` set rs) \<le> ds_max spec"
    by (metis (no_types, opaque_lifting) card_length image_set le_trans length_append set_append)
  then have "\<not> set iids \<subseteq> di_item ` set ds \<union> rf_item ` set rs"
    using assms(3,4) card_mono [of "di_item ` set ds \<union> rf_item ` set rs" "set iids"] distinct_card [OF assms(3)] by auto
  then show ?thesis using h by (auto simp: r nn)
qed

section \<open>No run is started twice\<close>

text \<open>A run that a new dispatch does not start: its record is live or complete, or a live worker holds its lease.\<close>

definition claimed :: "dispatch_env \<Rightarrow> string \<Rightarrow> dispatch_world \<Rightarrow> bool" where
  "claimed env rid w \<longleftrightarrow>
     adopted_status (qw_journal w) rid \<noteq> None \<or> (\<forall>s c spec. fst (qe_start env c rid spec (w\<lparr>qw_store := s\<rparr>)) = StartLeaseHeld)"

text \<open>
  What the dispatcher relies on: a detached start leaves its run claimed, and no start takes a claim away.
\<close>

definition lifecycle_claims :: "dispatch_env \<Rightarrow> bool" where
  "lifecycle_claims env \<longleftrightarrow>
     (\<forall>c rid spec w r w'. qe_start env c rid spec w = (StartReturned r, w') \<and> sr_stage r = ''detached'' \<longrightarrow> claimed env rid w')
     \<and> (\<forall>c rid spec w rid'. claimed env rid' w \<longrightarrow> claimed env rid' (snd (qe_start env c rid spec w)))"

lemma claimed_store [simp]: "claimed env rid (w\<lparr>qw_store := s\<rparr>) = claimed env rid w"
  by (simp add: claimed_def)

lemma placement_keeps_claim:
  assumes "record_placement now t why rid w = Some (p, w')" shows "claimed env r w' = claimed env r w"
    and "qw_journal w' = qw_journal w"
  using assms by (auto simp: record_placement_def split: option.splits prod.splits append_result.splits)

lemma row_started: "dispatched_row t rid it st status placed pid stage = Dispatched d \<Longrightarrow> di_started d = st \<and> di_run d = rid"
  by (auto simp: dispatched_row_def split: if_splits)

text \<open>An item that is reported started was not claimed before and is claimed now, and no claim is lost.\<close>

lemma start_claims:
  assumes "lifecycle_claims env" and "start_item env now t it rid spec w = (out, w')"
  shows "(claimed env r w \<longrightarrow> claimed env r w')
    \<and> (\<forall>d. out = Dispatched d \<and> di_started d \<longrightarrow>
         di_run d = rid \<and> (\<exists>s c sp. fst (qe_start env c rid sp (w\<lparr>qw_store := s\<rparr>)) \<noteq> StartLeaseHeld) \<and> claimed env rid w')"
proof (cases "campaign_dispatch_lock env (tg_campaign t)")
  case LockTaken
  show ?thesis
  proof (cases "record_placement now t (tg_reason t) rid w")
    case None
    with assms(2) LockTaken show ?thesis by (auto simp: start_item_def)
  next
    case (Some pw)
    obtain p w1 where p: "record_placement now t (tg_reason t) rid w = Some (p, w1)" using Some by (cases pw) simp
    obtain sto w2 where st: "qe_start env (tg_campaign t) rid spec w1 = (sto, w2)" by (metis surj_pair)
    have w1: "w1 = w\<lparr>qw_store := qw_store w1\<rparr>"
      using p by (auto simp: record_placement_def split: option.splits prod.splits append_result.splits)
    have k: "claimed env r w \<longrightarrow> claimed env r w2" for r
      using assms(1) placement_keeps_claim(1) [OF p] st unfolding lifecycle_claims_def by (metis snd_conv)
    have w': "w' = w2" using assms(2) by (auto simp: start_item_def LockTaken p st split: start_outcome.splits)
    have new: "di_run d = rid \<and> sto \<noteq> StartLeaseHeld \<and> claimed env rid w2" if h: "out = Dispatched d" "di_started d" for d
    proof -
      obtain res where res: "sto = StartReturned res" "sr_stage res = ''detached''" "di_run d = rid"
        using assms(2) h
        by (auto simp: start_item_def LockTaken p st split: start_outcome.splits if_splits dest: row_started)
      with assms(1) st have "claimed env rid w2" unfolding lifecycle_claims_def by blast
      with res show ?thesis by simp
    qed
    have "fst (qe_start env (tg_campaign t) rid spec (w\<lparr>qw_store := qw_store w1\<rparr>)) = sto" using st w1 by (metis fst_conv)
    with k new w' show ?thesis by metis
  qed
qed (use assms(2) in \<open>auto simp: start_item_def refusal_def split: if_splits\<close>)

lemma one_claims:
  assumes "lifecycle_claims env" and "dispatch_one env now items t w = (out, w')"
  shows "(claimed env r w \<longrightarrow> claimed env r w')
    \<and> (\<forall>d. out = Dispatched d \<and> di_started d \<longrightarrow> \<not> claimed env (di_run d) w \<and> claimed env (di_run d) w')"
proof (cases "\<exists>it rid spec. start_item env now t it rid spec w = (out, w') \<and> adopted_status (qw_journal w) rid = None")
  case True
  then obtain it rid spec where s: "start_item env now t it rid spec w = (out, w')" "adopted_status (qw_journal w) rid = None" by blast
  from start_claims [OF assms(1) s(1)] s(2) show ?thesis by (auto simp: claimed_def)
next
  case False
  then have no: "start_item env now t it rid spec w = (out, w') \<Longrightarrow> adopted_status (qw_journal w) rid = None \<Longrightarrow> P"
    for it rid spec P by blast
  have keep: "claimed env r w \<longrightarrow> claimed env r w'"
    using assms(2) unfolding dispatch_one_def
    by (auto simp: placement_keeps_claim elim: no split: option.splits prod.splits jval.splits if_splits)
  have "\<not> di_started d" if h: "out = Dispatched d" for d
    using assms(2) unfolding dispatch_one_def h
    by (auto simp: refusal_def dest: row_started elim: no [unfolded h] split: option.splits prod.splits jval.splits if_splits)
  with keep show ?thesis by blast
qed

lemma all_claims:
  assumes "lifecycle_claims env"
  shows "dispatch_all env now items ts w = (Some (ds, rs), w') \<Longrightarrow>
    (\<forall>r. claimed env r w \<longrightarrow> claimed env r w') \<and> distinct (map di_run (filter di_started ds))
    \<and> (\<forall>d\<in>set ds. di_started d \<longrightarrow> \<not> claimed env (di_run d) w \<and> claimed env (di_run d) w')"
proof (induction ts arbitrary: w ds rs)
  case (Cons t ts)
  obtain out w1 where o: "dispatch_one env now items t w = (out, w1)" by (metis surj_pair)
  obtain rest w2 where m: "dispatch_all env now items ts w1 = (rest, w2)" by (metis surj_pair)
  note one = one_claims [OF assms o]
  from Cons.prems obtain ds1 rs1 where s: "rest = Some (ds1, rs1)" "w2 = w'"
    by (auto simp: o m split: dispatch_outcome.splits option.splits)
  note rest = Cons.IH [OF m [unfolded s]]
  show ?case
  proof (cases out)
    case (Dispatched d)
    with Cons.prems have "ds = d # ds1" by (simp add: o m s)
    with one rest Dispatched show ?thesis by auto
  next
    case (Refusal r)
    with Cons.prems have "ds = ds1" by (auto simp: o m s)
    with one rest show ?thesis by blast
  qed (use Cons.prems in \<open>simp add: o\<close>)
qed simp

text \<open>C21: (no run is started twice) As long as a detached start leaves its run claimed, by a live or complete record or by a held lease, a tick starts
  each run at most once and starts no run that is already claimed, however many items name the run.\<close>

theorem started_once:
  assumes "lifecycle_claims env" and "queue_dispatch env now spec w = (Inr rep, w')"
  shows "distinct (map di_run (filter di_started (qr_dispatched rep)))
    \<and> (\<forall>d\<in>set (qr_dispatched rep). di_started d \<longrightarrow> \<not> claimed env (di_run d) w)"
proof -
  from tick_parts [OF assms(2)] obtain retried s adv where
    "act_on env now spec retried (read_intake_items s) adv (w\<lparr>qw_store := s\<rparr>) = (Inr rep, w')" .
  from acted_parts [OF this] obtain nt ds rs w1 where
    d: "dispatch_all env now (read_intake_items s)
      (take (ds_max spec) (map (advance_target env (read_intake_items s)) (placements_in_scope spec adv) @ nt)) (w\<lparr>qw_store := s\<rparr>)
      = (Some (ds, rs), w1)"
    and "qr_dispatched rep = ds" .
  with all_claims [OF assms(1) d] show ?thesis by simp
qed

section \<open>What grooming spares\<close>

lemma pruned_record:
  assumes "prune_terminal_runs mtime keep protect journal = (n, journal')"
  shows "journal = None \<and> journal' = None \<and> n = 0
    \<or> (\<exists>rs gone. journal = Some rs \<and> journal' = Some (filter (\<lambda>r. run_id r \<notin> run_id ` gone) rs) \<and> n = length (filter (\<lambda>r. run_status r \<in> set TERMINAL_STATUSES \<and> run_id r \<notin> set protect) rs) - keep
         \<and> gone \<subseteq> {r \<in> set rs. run_status r \<in> set TERMINAL_STATUSES \<and> run_id r \<notin> set protect})"
proof (cases journal)
  case (Some rs)
  let ?settled = "filter (\<lambda>r. run_status r \<in> set TERMINAL_STATUSES \<and> run_id r \<notin> set protect) rs"
  let ?gone = "set (drop keep (sort_key (\<lambda>r. - mtime r) ?settled))"
  have "?gone \<subseteq> set ?settled" using set_drop_subset [of keep "sort_key (\<lambda>r. - mtime r) ?settled"] by simp
  then show ?thesis using assms Some
    by (intro disjI2 exI [of _ rs] exI [of _ ?gone]) (auto simp: prune_terminal_runs_def Let_def)
qed (use assms in \<open>simp add: prune_terminal_runs_def\<close>)

lemma pruned_find:
  assumes "prune_terminal_runs mtime keep protect journal = (n, journal')" and "rid \<in> set protect"
  shows "load_run journal' rid = load_run journal rid"
proof -
  have "find (\<lambda>r. run_id r = rid) (filter (\<lambda>r. run_id r \<notin> run_id ` gone) rs) = find (\<lambda>r. run_id r = rid) rs"
    if "rid \<notin> run_id ` gone" for gone and rs :: "run_record list"
    using that by (induction rs) auto
  then show ?thesis using pruned_record [OF assms(1)] assms(2) by (auto simp: load_run_def) blast
qed

lemma pruned_live:
  assumes "prune_terminal_runs mtime keep protect journal = (n, journal')" and "load_run journal rid = Some r"
    and "run_status r \<notin> set TERMINAL_STATUSES" and "\<forall>rs. journal = Some rs \<longrightarrow> distinct (map run_id rs)"
  shows "load_run journal' rid = Some r"
proof -
  from assms(2) obtain rs where rs: "journal = Some rs" "find (\<lambda>r. run_id r = rid) rs = Some r"
    by (auto simp: load_run_def split: option.splits)
  then have r: "r \<in> set rs" "run_id r = rid" by (auto simp: find_Some_iff)
  from pruned_record [OF assms(1)] rs(1) obtain gone where
    g: "journal' = Some (filter (\<lambda>r. run_id r \<notin> run_id ` gone) rs)" "gone \<subseteq> {r \<in> set rs. run_status r \<in> set TERMINAL_STATUSES}" by auto
  have "rid \<notin> run_id ` gone"
    using g(2) assms(3,4) rs(1) r by (auto dest: inj_onD simp: distinct_map)
  moreover have "find (\<lambda>r. run_id r = rid) (filter (\<lambda>r. run_id r \<notin> run_id ` gone) rs) = find (\<lambda>r. run_id r = rid) rs"
    if "rid \<notin> run_id ` gone" for rs :: "run_record list" using that by (induction rs) auto
  ultimately show ?thesis using g(1) rs(2) by (simp add: load_run_def)
qed

lemma groomed_parts:
  assumes "groom_queue_stores env now exempt w = (g, w')"
  obtains "qw_journal w' = qw_journal w" "gr_pruned g = 0"
  | n where "prune_terminal_runs (qe_mtime env) KEEP_TERMINAL_RUNS (protected_runs (qw_store w')) (qw_journal w) = (n, qw_journal w')"
      "gr_pruned g = n"
proof -
  obtain rep s where l: "groom_ledger now (grooming_census (qw_journal w) exempt (qw_store w)) (qw_store w) = (rep, s)" by (metis surj_pair)
  show thesis
  proof (cases rep)
    case None
    with assms l show thesis by (intro that(1)) (auto simp: groom_queue_stores_def)
  next
    case (Some r)
    obtain n j where p: "prune_terminal_runs (qe_mtime env) KEEP_TERMINAL_RUNS (protected_runs s) (qw_journal w) = (n, j)" by (metis surj_pair)
    with assms l Some have "w' = w\<lparr>qw_store := s, qw_journal := j\<rparr>" "gr_pruned g = n"
      by (auto simp: groom_queue_stores_def Let_def)
    with p show thesis by (intro that(2)) auto
  qed
qed

text \<open>Grooming spares what is needed. The janitor after a tick removes run records of settled runs only: the record of a run that is named by an item
  still on the ledger stays, and so does the record of every run that has not settled.\<close>

lemma grooming_spares_needed_runs:
  assumes "groom_queue_stores env now exempt w = (g, w')" and "\<forall>rs. qw_journal w = Some rs \<longrightarrow> distinct (map run_id rs)"
    and "load_run (qw_journal w) rid = Some r"
    and "run_status r \<notin> set TERMINAL_STATUSES \<or> (\<exists>it\<in>set (read_intake_items (qw_store w')). item_run_id it = Some rid)"
  shows "load_run (qw_journal w') rid = Some r"
  using assms(1)
proof (cases rule: groomed_parts)
  case (2 n)
  show ?thesis
  proof (cases "run_status r \<in> set TERMINAL_STATUSES")
    case True
    with assms(4) have "rid \<in> set (protected_runs (qw_store w'))" by (auto simp: protected_runs_def in_map_filter)
    from pruned_find [OF 2(1) this] assms(3) show ?thesis by simp
  qed (rule pruned_live [OF 2(1) assms(3) _ assms(2)])
qed (use assms(3) in simp)

section \<open>The wake edge\<close>

text \<open>A wake follows a retirement. A finished run wakes the queue only when there is a ledger and the run's record no longer occupies a slot; then the
  tick acts on at most five items. In every other case nothing is written.\<close>

lemma wake_follows_retirement:
  "case chain_dispatch_on_retire env now rid w of
     (Woken res, w') \<Rightarrow> intake_lines (qw_store w) \<noteq> None
       \<and> (\<exists>r rec. rid = Some r \<and> load_run (qw_journal w) (py_strip r) = Some rec \<and> \<not> run_occupies (Some rec))
       \<and> (\<forall>rep. res = Inr rep \<longrightarrow> length (qr_dispatched rep) + length (qr_refused rep) \<le> 5)
   | (answer, w') \<Rightarrow> w' = w"
proof -
  have few: "length (qr_dispatched rep) + length (qr_refused rep) \<le> 5" if q: "queue_dispatch env now wake_spec w = (Inr rep, w')" for rep w'
  proof -
    from tick_parts [OF q] obtain retried s adv where
      "act_on env now wake_spec retried (read_intake_items s) adv (w\<lparr>qw_store := s\<rparr>) = (Inr rep, w')" .
    from acted_parts [OF this] obtain nr nt ds rs w1 where
      n: "recover_named (read_intake_items s) (p_item ` set (placements_in_scope wake_spec adv) \<union> h_item ` set (held_in_scope wake_spec adv))
            (named_items wake_spec) = (nr, nt)"
      and d: "dispatch_all env now (read_intake_items s)
        (take (ds_max wake_spec) (map (advance_target env (read_intake_items s)) (placements_in_scope wake_spec adv) @ nt))
        (w\<lparr>qw_store := s\<rparr>) = (Some (ds, rs), w1)"
      and r: "qr_dispatched rep = ds" "qr_refused rep = nr @ rs" .
    from n have "nr = []" by (simp add: wake_spec_def named_items_def)
    moreover have "size (mset (map di_item ds) + mset (map rf_item rs)) \<le> ds_max wake_spec"
      unfolding all_names [OF d] by simp
    ultimately show ?thesis by (simp add: r wake_spec_def WAKE_MAX_DISPATCHES_def)
  qed
  show ?thesis
    unfolding chain_dispatch_on_retire_def using few
    by (auto split: option.splits prod.splits wake_answer.splits if_splits)
qed

section \<open>Enqueueing again\<close>

lemma enqueue_record_kind: "jget (enqueue_record now rec rid) ''kind'' = JText ''enqueue''"
  by (simp add: enqueue_record_def jget_update_all)

lemma find_past: "find P xs = None \<Longrightarrow> find P (xs @ ys) = find P ys"
  by (induction xs) (auto split: if_splits)

lemma map_filter_append: "List.map_filter f (xs @ ys) = List.map_filter f xs @ List.map_filter f ys"
  by (simp add: map_filter_def)

lemma append_item_again:
  assumes "decodes s" and "append_intake_item now rec rid s = (answer, s1)" and "answer \<noteq> BadToken"
  shows "\<exists>old. append_intake_item now' rec' rid s1 = (Replayed old, s1)
    \<and> (is_compaction_tombstone (Some old) \<longleftrightarrow> (\<exists>old. answer = Replayed old \<and> is_compaction_tombstone (Some old)))"
proof -
  from assms(2,3) have nb: "\<not> blank rid" by (auto simp: append_intake_item_def)
  show ?thesis
  proof (cases "rid \<in> compaction_tombstones s")
    case True
    with assms nb show ?thesis by (auto simp: append_intake_item_def)
  next
    case False
    note a = assms(2) [unfolded append_intake_item_def if_not_P [OF nb] if_not_P [OF False] append_jsonl_line_def]
    show ?thesis
    proof (cases "find_dedup_record ''request_id'' (JText rid) s")
      case (Some old)
      with a False nb show ?thesis by (auto simp: append_intake_item_def append_jsonl_line_def)
    next
      case None
      with a have s1: "answer = Written" "s1 = s\<lparr>intake_lines := Some (lines_of s @ [Object (enqueue_record now rec rid)])\<rparr>" by auto
      have "find_dedup_record ''request_id'' (JText rid) s1 = Some (enqueue_record now rec rid)"
        using None assms(1)
        by (simp add: find_dedup_record_def s1(2) lines_of_def [of "s\<lparr>intake_lines := x\<rparr>" for x] map_filter_simps map_filter_append find_past)
      then show ?thesis using False nb
        by (simp add: append_intake_item_def append_jsonl_line_def s1 is_compaction_tombstone_def enqueue_record_kind)
    qed
  qed
qed

text \<open>Enqueueing is idempotent. A repeated request, at a later time and even with another payload, gets the first answer again, marked as a replay,
  and writes nothing, when the ledger is readable.\<close>

lemma enqueueing_is_idempotent:
  assumes "decodes s" and "queue_run raw now request pin rid s = (Inr r, s1)" and "validated_cluster_pin raw' pin' = Inr key'"
  shows "queue_run raw' now' request' pin' rid s1 = (Inr (r\<lparr>rr_replayed := True\<rparr>), s1)"
proof -
  from assms(2) obtain key where k: "validated_cluster_pin raw pin = Inr key" by (auto simp: queue_run_def split: sum.splits)
  obtain answer s2 where a: "append_intake_item now (run_payload request key) rid s = (answer, s2)" by (metis surj_pair)
  from assms(2) have ok: "answer \<noteq> BadToken" and s2: "s2 = s1"
    by (auto simp: queue_run_def k a Let_def split: append_result.splits if_splits option.splits)
  from append_item_again [OF assms(1) a ok] s2 obtain old where
    o: "append_intake_item now' (run_payload request' key') rid s1 = (Replayed old, s1)"
    and t: "is_compaction_tombstone (Some old) \<longleftrightarrow> (\<exists>old. answer = Replayed old \<and> is_compaction_tombstone (Some old))" by metis
  show ?thesis
  proof (cases answer)
    case BadToken
    with ok show ?thesis by simp
  next
    case Written
    with assms(2) t show ?thesis
      by (simp add: queue_run_def k a o s2 assms(3) is_compaction_tombstone_def [of None] Let_def split: option.splits) auto
  next
    case (Replayed first)
    with assms(2) t show ?thesis
      by (simp add: queue_run_def k a o s2 assms(3) Let_def split: option.splits if_splits) auto
  qed
qed

section \<open>A concrete queue\<close>

text \<open>Two items name one run, a third is pinned to a cluster that is not configured; starting a run writes its record.\<close>

definition demo_start :: "string option \<Rightarrow> string \<Rightarrow> dict \<Rightarrow> dispatch_world \<Rightarrow> start_outcome \<times> dispatch_world" where
  "demo_start c rid spec w =
     (if adopted_status (qw_journal w) rid \<noteq> None then (StartLeaseHeld, w)
      else (StartReturned \<lparr>sr_stage = ''detached'', sr_needs_decision = False, sr_pid = Some 7\<rparr>,
            w\<lparr>qw_journal := Some (demo_live\<lparr>run_id := rid, campaign_of := []\<rparr> # (case qw_journal w of None \<Rightarrow> [] | Some rs \<Rightarrow> rs))\<rparr>))"

definition demo_env :: dispatch_env where
  "demo_env = \<lparr>qe_validators = demo_validators, qe_clusters = demo_raw, qe_compute = (\<lambda>c name. None), qe_reason = (\<lambda>p. ''fits''),
     qe_lifecycle_ok = (\<lambda>c rid spec. True), qe_lock_free = (\<lambda>c. True), qe_start = demo_start, qe_mtime = (\<lambda>r. 0)\<rparr>"

definition demo_payload :: item where
  "demo_payload = [(''spec'', JDict [(''seed'', JInt 1)]), (''run_id'', JText ''r1''), (''campaign_base'', JText ''b'')]"

definition demo_world :: dispatch_world where
  "demo_world = \<lparr>qw_store = intake_run [Enqueue ''t'' demo_payload ''i1'', Enqueue ''t'' demo_payload ''i2'',
       Enqueue ''t'' [(''spec'', JDict [(''seed'', JInt 1)]), (''cluster_pin'', JText ''z'')] ''i3''] empty_store,
     qw_journal = Some []\<rparr>"

definition demo_dispatch :: dispatch_spec where
  "demo_dispatch = \<lparr>ds_base = None, ds_items = None, ds_max = 5, ds_unattended = True, ds_clusters = None\<rparr>"

lemma demo_claims: "claimed demo_env rid w \<longleftrightarrow> adopted_status (qw_journal w) rid \<noteq> None"
  by (auto simp: claimed_def demo_env_def demo_start_def)

lemma demo_adopted:
  "adopted_status (Some (demo_live\<lparr>run_id := rid, campaign_of := c\<rparr> # rs)) r
     = (if r = rid then Some ''in_flight'' else adopted_status (Some rs) r)"
proof -
  have "stripped (JText ''in_flight'') = Some ''in_flight''" by code_simp
  then show ?thesis by (simp add: adopted_status_def load_run_def demo_live_def ADOPTABLE_STATUSES_def)
qed

lemma demo_starts:
  assumes "adopted_status (qw_journal w) r \<noteq> None \<or> r = rid"
  shows "adopted_status (qw_journal (snd (demo_start c rid spec w))) r \<noteq> None"
proof (cases "adopted_status (qw_journal w) rid = None")
  case True
  define rs where "rs = (case qw_journal w of None \<Rightarrow> [] | Some rs \<Rightarrow> rs)"
  have same: "adopted_status (qw_journal w) r = adopted_status (Some rs) r"
    by (simp add: rs_def adopted_status_def load_run_def split: option.splits)
  have "qw_journal (snd (demo_start c rid spec w)) = Some (demo_live\<lparr>run_id := rid, campaign_of := []\<rparr> # rs)"
    by (simp add: demo_start_def True rs_def)
  with assms same show ?thesis by (simp only: demo_adopted) auto
qed (use assms in \<open>auto simp: demo_start_def\<close>)

lemma demo_lifecycle: "lifecycle_claims demo_env"
proof -
  have start: "qe_start demo_env = demo_start" by (simp add: demo_env_def)
  show ?thesis
    unfolding lifecycle_claims_def demo_claims start
  proof (intro conjI allI impI; (elim conjE)?)
    fix c rid spec w r w'
    assume "demo_start c rid spec w = (StartReturned r, w')"
    with demo_starts [of w rid rid c spec] show "adopted_status (qw_journal w') rid \<noteq> None" by simp
  next
    fix c rid spec rid' and w :: dispatch_world
    assume "adopted_status (qw_journal w) rid' \<noteq> None"
    then show "adopted_status (qw_journal (snd (demo_start c rid spec w))) rid' \<noteq> None" by (intro demo_starts) simp
  qed
qed

lemma demo_ticked:
  obtains rep w' where "queue_dispatch demo_env ''t1'' demo_dispatch demo_world = (Inr rep, w')"
    "map (\<lambda>d. (di_item d, di_run d, di_started d)) (qr_dispatched rep) = [(''i1'', ''r1'', True), (''i2'', ''r1'', False)]"
    "qr_refused rep = []" "map h_item (qr_held rep) = [''i3'']"
proof -
  have "case queue_dispatch demo_env ''t1'' demo_dispatch demo_world of
      (Inr rep, w') \<Rightarrow> map (\<lambda>d. (di_item d, di_run d, di_started d)) (qr_dispatched rep) = [(''i1'', ''r1'', True), (''i2'', ''r1'', False)]
        \<and> map rf_item (qr_refused rep) = [] \<and> map h_item (qr_held rep) = [''i3'']
    | (Inl err, w') \<Rightarrow> False" by code_simp
  then show thesis by (auto intro: that split: prod.splits sum.splits)
qed

lemma demo_env_distinct: "\<forall>m. qe_clusters demo_env = Mapping m \<longrightarrow> distinct (map fst m)"
  using demo_distinct by (simp add: demo_env_def)

lemma demo_no_retries:
  "produce_declared_retries ''t1'' (qw_journal demo_world) (read_intake_items (qw_store demo_world)) (qw_store demo_world)
     = Some ([], False, qw_store demo_world)" by code_simp

theorem started_once_witness:
  "\<exists>rep w'. queue_dispatch demo_env ''t1'' demo_dispatch demo_world = (Inr rep, w')
     \<and> length (qr_dispatched rep) = 2 \<and> distinct (map di_run (filter di_started (qr_dispatched rep)))"
proof (rule demo_ticked)
  fix rep w'
  assume q: "queue_dispatch demo_env ''t1'' demo_dispatch demo_world = (Inr rep, w')"
    and "map (\<lambda>d. (di_item d, di_run d, di_started d)) (qr_dispatched rep) = [(''i1'', ''r1'', True), (''i2'', ''r1'', False)]"
  with started_once [OF demo_lifecycle q] show ?thesis by (auto simp: map_eq_Cons_conv)
qed

theorem no_item_is_dropped_witness:
  "\<exists>rep w'. queue_dispatch demo_env ''t1'' demo_dispatch demo_world = (Inr rep, w')
     \<and> mset (map di_item (qr_dispatched rep)) + mset (map h_item (qr_held rep)) = {#''i1'', ''i2'', ''i3''#}"
proof (rule demo_ticked)
  fix rep w'
  assume q: "queue_dispatch demo_env ''t1'' demo_dispatch demo_world = (Inr rep, w')" and r: "qr_refused rep = []"
  have u: "ds_items demo_dispatch = None" by (simp add: demo_dispatch_def)
  have n: "map name_of (queued_in_scope (advance_request demo_dispatch) (read_intake_items (qw_store demo_world))) = [''i1'', ''i2'', ''i3'']"
    by code_simp
  from no_item_is_dropped [OF q u demo_env_distinct demo_no_retries] q show ?thesis unfolding n by (auto simp: r)
qed

abbreviation demo_named :: dispatch_spec where
  "demo_named \<equiv> \<lparr>ds_base = None, ds_items = Some [''i1'', ''i2''], ds_max = 1, ds_unattended = False, ds_clusters = None\<rparr>"

theorem named_call_loses_items_witness:
  "\<exists>rep w'. queue_dispatch demo_env ''t1'' demo_named demo_world = (Inr rep, w')
     \<and> list_ex (\<lambda>i. i \<notin> di_item ` set (qr_dispatched rep) \<and> i \<notin> rf_item ` set (qr_refused rep) \<and> i \<notin> h_item ` set (qr_held rep)) [''i1'', ''i2'']"
proof -
  have "case queue_dispatch demo_env ''t1'' demo_named demo_world of (Inr rep, w') \<Rightarrow> True | (Inl err, w') \<Rightarrow> False" by code_simp
  then obtain rep w' where q: "queue_dispatch demo_env ''t1'' demo_named demo_world = (Inr rep, w')"
    by (auto split: prod.splits sum.splits)
  have "case queue_advance (qe_validators demo_env) (qw_journal demo_world) (read_intake_items (qw_store demo_world)) (qe_clusters demo_env)
        (advance_request demo_named) of Inl err \<Rightarrow> False
      | Inr adv \<Rightarrow> map p_item (ar_placements adv) = [''i1'', ''i2''] \<and> map h_item (ar_held adv) = [''i3'']" by code_simp
  then obtain adv where a: "queue_advance (qe_validators demo_env) (qw_journal demo_world) (read_intake_items (qw_store demo_world))
        (qe_clusters demo_env) (advance_request demo_named) = Inr adv"
    "map p_item (ar_placements adv) = [''i1'', ''i2'']" "map h_item (ar_held adv) = [''i3'']" by (auto split: sum.splits)
  have "set [''i1'', ''i2''] \<subseteq> p_item ` set (ar_placements adv)" "h_item ` set (ar_held adv) \<inter> set [''i1'', ''i2''] = {}"
    using arg_cong [OF a(2), of set] arg_cong [OF a(3), of set] by auto
  moreover have "dispatch_spec_ok demo_named" by code_simp
  ultimately have "\<exists>i\<in>set [''i1'', ''i2'']. i \<notin> di_item ` set (qr_dispatched rep) \<and> i \<notin> rf_item ` set (qr_refused rep) \<and> i \<notin> h_item ` set (qr_held rep)"
    by (intro named_call_loses_items [OF q _ _ _ _ demo_no_retries a(1)]) simp_all
  with q show ?thesis by (auto simp: list_ex_iff)
qed

lemma grooming_spares_needed_runs_witness:
  "load_run (qw_journal (snd (groom_queue_stores demo_env ''t1'' [] (demo_world\<lparr>qw_journal := Some [demo_live]\<rparr>)))) ''r1'' = Some demo_live"
proof -
  let ?w = "demo_world\<lparr>qw_journal := Some [demo_live]\<rparr>"
  obtain g w' where g: "groom_queue_stores demo_env ''t1'' [] ?w = (g, w')" by (metis surj_pair)
  have "run_status demo_live \<notin> set TERMINAL_STATUSES" "load_run (qw_journal ?w) ''r1'' = Some demo_live"
    by (simp_all add: demo_live_def demo_run_record_def TERMINAL_STATUSES_def load_run_def)
  with grooming_spares_needed_runs [OF g, of "''r1''" demo_live] show ?thesis by (simp add: g)
qed

lemma enqueueing_is_idempotent_witness:
  "\<exists>r s1. queue_run demo_raw ''t1'' [(''spec_ref'', JText ''s'')] None ''i1'' empty_store = (Inr r, s1)
     \<and> queue_run demo_raw ''t2'' [(''spec_ref'', JText ''other'')] (Some ''x'') ''i1'' s1 = (Inr (r\<lparr>rr_replayed := True\<rparr>), s1)"
proof -
  have "case queue_run demo_raw ''t1'' [(''spec_ref'', JText ''s'')] None ''i1'' empty_store of (Inr r, s1) \<Rightarrow> True | (Inl err, s1) \<Rightarrow> False"
    by code_simp
  then obtain r s1 where q: "queue_run demo_raw ''t1'' [(''spec_ref'', JText ''s'')] None ''i1'' empty_store = (Inr r, s1)"
    by (auto split: prod.splits sum.splits)
  have "validated_cluster_pin demo_raw (Some ''x'') = Inr (Some ''x'')" by code_simp
  from enqueueing_is_idempotent [OF _ q this] q show ?thesis by (auto simp: empty_store_def)
qed

end
