(* ===== verification/ClusterText.thy ===== *)
theory ClusterText
  imports Resubmission
begin

text \<open>
  What remote commands print and how the code reads it: the jobmap marker (\<open>infra/jobmap.py\<close>), the announcement
  census (\<open>ops/monitor/announce.py\<close>), the combined waves (\<open>ops/monitor/reconcile.py\<close>) and the scheduler queries
  (\<open>infra/backends/_engine.py\<close>, \<open>split_ack\<close> of \<open>infra/ssh_validation.py\<close>). The rule of all of them: a sentinel
  line proves that the command ran, and without it nothing is taken for absent.
\<close>

section \<open>Lines and words\<close>

definition line_break :: "char \<Rightarrow> bool" where
  "line_break c \<longleftrightarrow> c \<in> {CHR 0x0A, CHR 0x0B, CHR 0x0C, CHR 0x0D, CHR 0x1C, CHR 0x1D, CHR 0x1E}"

text \<open>\<open>s.splitlines()\<close>; the flag says that the last character was a carriage return.\<close>

fun splitlines_from :: "string \<Rightarrow> bool \<Rightarrow> string \<Rightarrow> string list" where
  "splitlines_from acc cr [] = (if acc = [] then [] else [rev acc])"
| "splitlines_from acc cr (c # s) =
     (if cr \<and> c = CHR 0x0A then splitlines_from [] False s
      else if line_break c then rev acc # splitlines_from [] (c = CHR 0x0D) s
      else splitlines_from (c # acc) False s)"

definition splitlines :: "string \<Rightarrow> string list" where
  "splitlines s = splitlines_from [] False s"

text \<open>What a command prints, line by line.\<close>

definition newline :: string where "newline = [CHR 0x0A]"

definition printed :: "string list \<Rightarrow> string" where
  "printed ls = concat (map (\<lambda>l. l @ newline) ls)"

text \<open>\<open>s.split()\<close>.\<close>

fun split_words_from :: "string \<Rightarrow> string \<Rightarrow> string list" where
  "split_words_from acc [] = (if acc = [] then [] else [rev acc])"
| "split_words_from acc (c # s) =
     (if is_space c then (if acc = [] then split_words_from [] s else rev acc # split_words_from [] s)
      else split_words_from (c # acc) s)"

definition split_words :: "string \<Rightarrow> string list" where
  "split_words s = split_words_from [] s"

text \<open>\<open>sep.join(parts)\<close> for a blank, \<open>s.split(c)[0]\<close> and \<open>s.split(c, 1)[1]\<close> (of a text that has a \<open>c\<close>).\<close>

fun join_blank :: "string list \<Rightarrow> string" where
  "join_blank [] = []"
| "join_blank [w] = w"
| "join_blank (w # ws) = w @ CHR '' '' # join_blank ws"

definition before :: "char \<Rightarrow> string \<Rightarrow> string" where
  "before c s = takeWhile (\<lambda>d. d \<noteq> c) s"

definition past :: "char \<Rightarrow> string \<Rightarrow> string" where
  "past c s = tl (dropWhile (\<lambda>d. d \<noteq> c) s)"

section \<open>The answer of a remote command\<close>

text \<open>\<open>ssh_run\<close> raises, or returns a return code and the standard output.\<close>

datatype ssh_answer = Severed | Answered int string

text \<open>The sentinel of a query with its exit code; the rest as lines.\<close>

definition SCHED_ACK_PREFIX :: string where "SCHED_ACK_PREFIX = ''__HPC_SCHED_ACK__=''"

definition ack_code :: "string \<Rightarrow> int" where
  "ack_code l = (case py_int_of_text (py_strip (drop (length SCHED_ACK_PREFIX) l)) of None \<Rightarrow> - 1 | Some n \<Rightarrow> n)"

definition split_ack :: "string \<Rightarrow> string list \<times> int option" where
  "split_ack out =
     (let ls = splitlines out; acks = filter (prefix SCHED_ACK_PREFIX) ls
      in (filter (\<lambda>l. \<not> prefix SCHED_ACK_PREFIX l) ls, if acks = [] then None else Some (ack_code (last acks))))"

section \<open>Scheduler queries\<close>

definition explicit_id_liveness_query :: "family \<Rightarrow> bool" where
  "explicit_id_liveness_query f \<longleftrightarrow> f \<noteq> Sge"

definition scheduler_query_ran :: "family \<Rightarrow> string \<Rightarrow> string list \<times> bool" where
  "scheduler_query_ran f out =
     (case split_ack out of
        (clean, None) \<Rightarrow> (clean, False)
      | (clean, Some rc) \<Rightarrow> (clean, if explicit_id_liveness_query f then rc \<notin> {126, 127} else rc = 0))"

definition PBS_TERMINAL_STATES :: "string list" where "PBS_TERMINAL_STATES = [''C'', ''F'', ''X'']"

definition bare_id :: "string \<Rightarrow> string" where
  "bare_id j = before (CHR ''['') (before (CHR ''.'') j)"

definition slurm_base :: "string \<Rightarrow> string" where
  "slurm_base t = before (CHR ''_'') (before (CHR ''.'') t)"

text \<open>\<open>setdefault\<close>: the first requested id of a bare number keeps it.\<close>

definition wanted_by_base :: "string list \<Rightarrow> string \<Rightarrow> string option" where
  "wanted_by_base ids base = find (\<lambda>j. bare_id j = base) ids"

definition row_alive :: "family \<Rightarrow> string list \<Rightarrow> string \<Rightarrow> string option" where
  "row_alive f ids l =
     (if f = Slurm
      then (let t = py_strip l
            in if t = [] then None else if slurm_base t \<in> set ids then Some (slurm_base t) else None)
      else
        (case split_words l of
           [] \<Rightarrow> None
         | jid # cols \<Rightarrow>
             (if digit_val (hd jid) = None then None
              else if f \<in> {PbsPro, Torque} \<and> length (jid # cols) \<ge> 5 \<and> (jid # cols) ! 4 \<in> set PBS_TERMINAL_STATES then None
              else wanted_by_base ids (bare_id jid))))"

definition parse_alive_output :: "family \<Rightarrow> string list \<Rightarrow> string list \<Rightarrow> string set" where
  "parse_alive_output f ls ids = set (List.map_filter (row_alive f ids) ls)"

text \<open>\<open>_ssh_alive_job_ids\<close>; \<open>None\<close> when it raises.\<close>

definition alive_job_ids :: "family \<Rightarrow> string list \<Rightarrow> ssh_answer \<Rightarrow> string set option" where
  "alive_job_ids f ids answer =
     (if ids = [] then Some {}
      else
        (case answer of
           Severed \<Rightarrow> None
         | Answered rc out \<Rightarrow>
             (if rc \<noteq> 0 then None
              else (let (clean, ran) = scheduler_query_ran f out
                    in if \<not> ran then None else Some (parse_alive_output f clean ids)))))"

text \<open>The correlation token of a row, and the scan of \<open>qstat -j\<close> blocks with the current job number.\<close>

definition CORRELATION_KEY_ENV :: string where "CORRELATION_KEY_ENV = ''HPC_TOKEN''"

definition set_default :: "string \<Rightarrow> string \<Rightarrow> (string \<times> string) list \<Rightarrow> (string \<times> string) list" where
  "set_default k v m = (if map_of m k = None then m @ [(k, v)] else m)"

definition slurm_token_row :: "(string \<times> string) list \<Rightarrow> string \<Rightarrow> (string \<times> string) list" where
  "slurm_token_row m raw =
     (let l = py_strip raw
      in if CHR ''|'' \<notin> set l then m
         else (let token = py_strip (past (CHR ''|'') l); base = slurm_base (py_strip (before (CHR ''|'') l))
               in if token \<noteq> [] \<and> base \<noteq> [] then set_default token base m else m))"

definition context_token :: "string \<Rightarrow> string option" where
  "context_token kv =
     (if py_strip (before (CHR ''='') kv) = CORRELATION_KEY_ENV \<and> py_strip (past (CHR ''='') kv) \<noteq> []
      then Some (py_strip (past (CHR ''='') kv)) else None)"

definition sge_token_row ::
  "string option \<times> (string \<times> string) list \<Rightarrow> string \<Rightarrow> string option \<times> (string \<times> string) list" where
  "sge_token_row st raw =
     (let (current, m) = st; l = py_strip raw
      in if prefix ''job_number:'' l then (Some (py_strip (past (CHR '':'') l)), m)
         else if prefix ''context:'' l then
           (case current of
              None \<Rightarrow> (current, m)
            | Some jid \<Rightarrow>
                (if jid = [] then (current, m)
                 else (current, foldl (\<lambda>m t. set_default t jid m) m
                         (List.map_filter context_token (split_on (CHR '','') (py_strip (past (CHR '':'') l)))))))
         else (current, m))"

definition parse_token_query :: "family \<Rightarrow> string list \<Rightarrow> (string \<times> string) list" where
  "parse_token_query f ls =
     (if f = Slurm then foldl slurm_token_row [] ls
      else if f = Sge then snd (foldl sge_token_row (None, []) ls)
      else [])"

section \<open>The jobmap marker\<close>

definition JOBMAP_ACK :: string where "JOBMAP_ACK = ''__HPC_JOBMAP_ACK__''"
definition WAVE_ID_LINE :: string where "WAVE_ID_LINE = ''__HPC_JOBMAP_WAVE__''"

definition wave_key :: "nat \<Rightarrow> string" where
  "wave_key n = ''wave-'' @ dec n"

definition jobmap_token :: "string \<Rightarrow> int \<Rightarrow> string" where
  "jobmap_token rid attempt = rid @ CHR ''#'' # int_text attempt"

record jobmap_read =
  jm_present :: bool
  jm_token :: "string option"
  jm_attempt :: "int option"
  jm_state :: "string option"
  jm_waves :: "(string \<times> string \<times> int) list"

definition no_jobmap :: jobmap_read where
  "no_jobmap = \<lparr>jm_present = False, jm_token = None, jm_attempt = None, jm_state = None, jm_waves = []\<rparr>"

definition read_wave_line :: "string \<Rightarrow> (string \<times> string \<times> int) option" where
  "read_wave_line l =
     (case split_words l of
        _ # wkey # rc # blob \<Rightarrow> map_option (\<lambda>n. (wkey, join_blank blob, n)) (py_int_of_text rc)
      | _ \<Rightarrow> None)"

text \<open>\<open>json.loads\<close> of the marker line is an argument; booleans are integers.\<close>

definition read_marker_line :: "(string \<Rightarrow> jval option) \<Rightarrow> string \<Rightarrow> jobmap_read \<Rightarrow> jobmap_read" where
  "read_marker_line loads l r =
     (case loads l of
        Some (JDict d) \<Rightarrow>
          r\<lparr>jm_token := (case jget d ''token'' of JText t \<Rightarrow> Some t | _ \<Rightarrow> jm_token r),
            jm_state := (case jget d ''state'' of JText t \<Rightarrow> Some t | _ \<Rightarrow> jm_state r),
            jm_attempt := (case if_int (jget d ''attempt'') of Some n \<Rightarrow> Some n | None \<Rightarrow> jm_attempt r)\<rparr>
      | _ \<Rightarrow> r)"

definition read_jobmap_line :: "(string \<Rightarrow> jval option) \<Rightarrow> jobmap_read \<Rightarrow> string \<Rightarrow> jobmap_read" where
  "read_jobmap_line loads r l =
     (if l = JOBMAP_ACK then r
      else if prefix WAVE_ID_LINE l then
        (case read_wave_line l of None \<Rightarrow> r | Some (k, v) \<Rightarrow> r\<lparr>jm_waves := AList.update k v (jm_waves r)\<rparr>)
      else if prefix ''{'' l then read_marker_line loads l r
      else r)"

definition parse_jobmap_read :: "(string \<Rightarrow> jval option) \<Rightarrow> string \<Rightarrow> jobmap_read" where
  "parse_jobmap_read loads out =
     (let ls = map py_strip (splitlines out)
      in if JOBMAP_ACK \<notin> set ls then no_jobmap
         else foldl (read_jobmap_line loads) (no_jobmap\<lparr>jm_present := True\<rparr>) ls)"

text \<open>\<open>_adoptable_wave_ids\<close>: the waves whose dispatch returned zero and whose output names a job.\<close>

definition adoptable_wave_ids :: "(string \<Rightarrow> string option) \<Rightarrow> jobmap_read \<Rightarrow> (string \<times> string) list" where
  "adoptable_wave_ids job_id parsed =
     List.map_filter (\<lambda>(wkey, blob, rc). if rc \<noteq> 0 then None else map_option (\<lambda>j. (wkey, j)) (job_id blob)) (jm_waves parsed)"

section \<open>Announcements and waves\<close>

definition ANNOUNCE_ACK :: string where "ANNOUNCE_ACK = ''__HPC_ANNOUNCE_ACK__''"
definition WAVE_ACK :: string where "WAVE_ACK = ''__HPC_WAVE_ACK__''"

record census =
  an_present :: bool
  an_announced :: int
  an_complete :: int
  an_failed :: int
  an_missing :: int

fun parse_count :: "string \<Rightarrow> string list \<Rightarrow> int" where
  "parse_count p [] = 0"
| "parse_count p (l # ls) =
     (if prefix p l then (case py_int_of_text (drop (length p) l) of None \<Rightarrow> 0 | Some n \<Rightarrow> n) else parse_count p ls)"

definition read_announcements :: "int \<Rightarrow> ssh_answer \<Rightarrow> census option" where
  "read_announcements task_count answer =
     (case answer of
        Severed \<Rightarrow> None
      | Answered rc out \<Rightarrow>
          (if rc \<noteq> 0 then None
           else
             (let ls = map py_strip (splitlines out)
              in if ANNOUNCE_ACK \<notin> set ls
                 then Some \<lparr>an_present = False, an_announced = 0, an_complete = 0, an_failed = 0, an_missing = max 0 task_count\<rparr>
                 else (let c = parse_count ''complete='' ls; f = parse_count ''failed='' ls
                       in Some \<lparr>an_present = True, an_announced = c + f, an_complete = c, an_failed = f,
                                an_missing = max 0 (task_count - (c + f))\<rparr>))))"

definition path_name :: "string \<Rightarrow> string" where
  "path_name s = (case filter (\<lambda>p. p \<notin> {[], ''.''}) (split_on (CHR ''/'') s) of [] \<Rightarrow> [] | parts \<Rightarrow> last parts)"

definition wave_of_line :: "string \<Rightarrow> int option" where
  "wave_of_line l =
     (let n = path_name (py_strip l)
      in if prefix ''wave_'' n \<and> suffix ''.json'' n
         then (let t = drop 5 n in py_int_of_text (take (length t - 5) t)) else None)"

definition list_combined_waves :: "ssh_answer \<Rightarrow> int list option" where
  "list_combined_waves answer =
     (case answer of
        Severed \<Rightarrow> None
      | Answered rc out \<Rightarrow>
          (if rc \<noteq> 0 then None
           else if WAVE_ACK \<notin> set (map py_strip (splitlines out)) then None
           else Some (sort (remdups (List.map_filter wave_of_line (splitlines out))))))"

end
