(* ===== verification/RunVerdict.thy ===== *)
theory RunVerdict
  imports JsonValues
begin

text \<open>
  The verdict on a run from its task counts (\<open>ops/monitor/classify.py\<close>): while it is polled, and once the
  scheduler has let go of it. A summary is a parsed dictionary; \<open>None\<close> is a count that \<open>int\<close> refuses.
\<close>

definition SETTLE_REASON_COMPLETE :: string where "SETTLE_REASON_COMPLETE = ''all_tasks_complete''"
definition SETTLE_REASON_FAILED :: string where "SETTLE_REASON_FAILED = ''positive_failure_evidence''"
definition SETTLE_REASON_ABANDONED :: string where "SETTLE_REASON_ABANDONED = ''no_on_disk_evidence''"
definition POLLING_REASON_UNKNOWN_EXHAUSTED :: string where
  "POLLING_REASON_UNKNOWN_EXHAUSTED = ''unknown_status_exhausted''"
definition UNKNOWN_TICKS_BEFORE_ESCALATION :: int where "UNKNOWN_TICKS_BEFORE_ESCALATION = 3"
definition NON_COMPLETE_KEYS :: "string list" where
  "NON_COMPLETE_KEYS = [''running'', ''pending'', ''failed'', ''unknown'']"

text \<open>\<open>int(summary.get(key, 0) or 0)\<close> and \<open>int(summary.get(key, 0))\<close>.\<close>

definition task_count :: "dict \<Rightarrow> string \<Rightarrow> int option" where
  "task_count summary key = jint (or_zero (jget summary key))"

definition strict_count :: "dict \<Rightarrow> string \<Rightarrow> int option" where
  "strict_count summary key = (case map_of summary key of None \<Rightarrow> Some 0 | Some v \<Rightarrow> jint v)"

text \<open>The lazy \<open>all(... == 0 ...)\<close>.\<close>

fun all_zero :: "dict \<Rightarrow> string list \<Rightarrow> bool option" where
  "all_zero summary [] = Some True"
| "all_zero summary (k # ks) =
     (case task_count summary k of None \<Rightarrow> None | Some n \<Rightarrow> if n = 0 then all_zero summary ks else Some False)"

definition all_tasks_complete :: "dict \<Rightarrow> int \<Rightarrow> bool option" where
  "all_tasks_complete summary tot =
     (if tot \<le> 0 then Some False
      else
        (case if_int (jget summary ''complete'') of
           None \<Rightarrow> Some False
         | Some n \<Rightarrow> if n \<noteq> tot then Some False else all_zero summary NON_COMPLETE_KEYS))"

definition run_failed :: "dict \<Rightarrow> bool option" where
  "run_failed summary = map_option (\<lambda>n. n > 0) (task_count summary ''failed'')"

definition unresolved_unknown :: "dict \<Rightarrow> int \<Rightarrow> bool option" where
  "unresolved_unknown summary tot =
     (if tot \<le> 0 then Some False
      else
        (case (task_count summary ''complete'', task_count summary ''running'', task_count summary ''pending'',
               task_count summary ''failed'', task_count summary ''unknown'') of
           (Some c, Some r, Some p, Some f, Some u) \<Rightarrow> Some (c < tot \<and> r = 0 \<and> p = 0 \<and> f = 0 \<and> u > 0)
         | _ \<Rightarrow> None))"

section \<open>While the run is polled\<close>

datatype polling_reason = PartialOk | FailedTasks | UnknownExhausted int

definition classify_polling :: "dict \<Rightarrow> int \<Rightarrow> bool \<Rightarrow> int \<Rightarrow> (string option \<times> polling_reason option) option" where
  "classify_polling summary tot partial_ok streak =
     (case (strict_count summary ''complete'', strict_count summary ''running'', strict_count summary ''pending'',
            strict_count summary ''failed'') of
        (Some c, Some r, Some p, Some f) \<Rightarrow>
          (if c \<ge> tot then Some (Some ''complete'', None)
           else if r = 0 \<and> p = 0 \<and> f > 0 then
             (if partial_ok \<and> c > 0 then Some (Some ''complete'', Some PartialOk) else Some (Some ''failed'', Some FailedTasks))
           else if streak \<ge> UNKNOWN_TICKS_BEFORE_ESCALATION then
             map_option (\<lambda>u. if u then (Some ''abandoned'', Some (UnknownExhausted streak)) else (None, None))
               (unresolved_unknown summary tot)
           else Some (None, None))
      | _ \<Rightarrow> None)"

section \<open>Once it has left the scheduler\<close>

record settle_decision =
  sd_verdict :: string
  sd_reason :: string
  sd_evidence :: "(string \<times> int) list"

fun counts_of :: "dict \<Rightarrow> string list \<Rightarrow> (string \<times> int) list option" where
  "counts_of summary [] = Some []"
| "counts_of summary (k # ks) =
     (case (task_count summary k, counts_of summary ks) of (Some n, Some r) \<Rightarrow> Some ((k, n) # r) | _ \<Rightarrow> None)"

definition evidence_of :: "dict \<Rightarrow> int \<Rightarrow> (string \<times> int) list option" where
  "evidence_of summary tot =
     map_option (\<lambda>cs. cs @ [(''total_tasks'', tot)]) (counts_of summary (''complete'' # NON_COMPLETE_KEYS))"

definition settle :: "dict \<Rightarrow> int \<Rightarrow> settle_decision option" where
  "settle summary tot =
     (case evidence_of summary tot of
        None \<Rightarrow> None
      | Some ev \<Rightarrow>
          (case all_tasks_complete summary tot of
             None \<Rightarrow> None
           | Some True \<Rightarrow> Some \<lparr>sd_verdict = ''complete'', sd_reason = SETTLE_REASON_COMPLETE, sd_evidence = ev\<rparr>
           | Some False \<Rightarrow>
               map_option (\<lambda>failed. if failed
                   then \<lparr>sd_verdict = ''failed'', sd_reason = SETTLE_REASON_FAILED, sd_evidence = ev\<rparr>
                   else \<lparr>sd_verdict = ''abandoned'', sd_reason = SETTLE_REASON_ABANDONED, sd_evidence = ev\<rparr>)
                 (run_failed summary)))"

section \<open>Laws\<close>

text \<open>The counts of a summary, when they can be read.\<close>

definition readable :: "dict \<Rightarrow> bool" where
  "readable summary \<longleftrightarrow> list_all (\<lambda>k. task_count summary k \<noteq> None) (''complete'' # NON_COMPLETE_KEYS)"

definition tasks_in :: "dict \<Rightarrow> string \<Rightarrow> int" where
  "tasks_in summary k = (case task_count summary k of None \<Rightarrow> 0 | Some n \<Rightarrow> n)"

lemma count_readable: "readable summary \<Longrightarrow> k \<in> set (''complete'' # NON_COMPLETE_KEYS) \<Longrightarrow> task_count summary k = Some (tasks_in summary k)"
  by (auto simp: readable_def list_all_iff tasks_in_def split: option.splits)

lemma evidence_readable: "evidence_of summary tot \<noteq> None \<longleftrightarrow> readable summary"
proof -
  have "counts_of summary ks \<noteq> None \<longleftrightarrow> list_all (\<lambda>k. task_count summary k \<noteq> None) ks" for ks
    by (induction ks) (auto split: option.splits)
  then show ?thesis unfolding evidence_of_def readable_def option.map_disc_iff .
qed

lemma all_zero_readable:
  "list_all (\<lambda>k. task_count summary k \<noteq> None) ks \<Longrightarrow> all_zero summary ks = Some (list_all (\<lambda>k. tasks_in summary k = 0) ks)"
  by (induction ks) (auto simp: tasks_in_def)

lemma jint_int: "if_int v = Some n \<Longrightarrow> jint (or_zero v) = Some n"
  by (cases v) (auto simp: or_zero_def)

lemma complete_readable:
  assumes "readable summary"
  shows "all_tasks_complete summary tot = Some (tot > 0 \<and> if_int (jget summary ''complete'') = Some tot
    \<and> list_all (\<lambda>k. tasks_in summary k = 0) NON_COMPLETE_KEYS)"
proof -
  have "all_zero summary NON_COMPLETE_KEYS = Some (list_all (\<lambda>k. tasks_in summary k = 0) NON_COMPLETE_KEYS)"
    using assms by (intro all_zero_readable) (simp add: readable_def)
  then show ?thesis by (auto simp: all_tasks_complete_def split: option.splits)
qed

text \<open>The settled verdict: total on readable counts, and \<open>complete\<close> only with every task counted and nothing else.\<close>

lemma settle_readable:
  assumes "readable summary"
  shows "\<exists>d. settle summary tot = Some d
    \<and> sd_verdict d = (if tot > 0 \<and> if_int (jget summary ''complete'') = Some tot
            \<and> list_all (\<lambda>k. tasks_in summary k = 0) NON_COMPLETE_KEYS then ''complete''
        else if tasks_in summary ''failed'' > 0 then ''failed'' else ''abandoned'')"
proof -
  obtain ev where ev: "evidence_of summary tot = Some ev" using evidence_readable [of summary tot] assms by auto
  have f: "run_failed summary = Some (tasks_in summary ''failed'' > 0)"
    using count_readable [OF assms, of "''failed''"] by (simp add: run_failed_def NON_COMPLETE_KEYS_def)
  show ?thesis unfolding settle_def ev complete_readable [OF assms] f by (auto split: bool.splits)
qed

lemma settle_unreadable: "\<not> readable summary \<Longrightarrow> settle summary tot = None"
  using evidence_readable [of summary tot] by (simp add: settle_def)

lemma settle_verdicts: "settle summary tot = Some d \<Longrightarrow> sd_verdict d \<in> {''complete'', ''failed'', ''abandoned''}"
  by (auto simp: settle_def split: option.splits bool.splits if_splits)

lemma settle_reason: "settle summary tot = Some d \<Longrightarrow> sd_verdict d = ''abandoned'' \<Longrightarrow> sd_reason d = SETTLE_REASON_ABANDONED"
  by (auto simp: settle_def split: option.splits bool.splits if_splits)

end
