(* ===== verification/RunJournal.thy ===== *)
theory RunJournal
  imports QueueOccupancy
begin

text \<open>
  The run journal's records and setters (\<open>state/journal.py\<close>) and the decision of what an existing record means for a
  new submission (\<open>ops/submit/runner.py\<close>, \<open>state/code_drift.py\<close>): the pre-dispatch record is minted by one locked
  compare-and-mint, and promoted once a job id is in hand. A store maps run ids to readable records.
\<close>

section \<open>Records\<close>

record live_run = run_record +
  lr_job_ids :: "string list"
  lr_attempt :: int
  lr_evidence :: dict
  lr_combined :: "int list"
  lr_failed_waves :: "int list"
  lr_kill_requested_ids :: "string list"
  lr_kill_confirmed_at :: string
  lr_kill_confirmed_ids :: "string list"
  lr_executor :: string
  lr_tasks_sha :: string
  lr_accepted_at :: "string option"
  lr_stage :: string
  lr_drive_attempts :: int
  lr_verdict_history :: "dict list"
  lr_last_tick :: "string option"
  lr_next_due :: "string option"
  lr_seen_at :: "string option"
  lr_auto_resume :: bool
  lr_resume_count :: int
  lr_max_resumes :: int
  lr_auto_recover :: bool
  lr_recover_count :: int
  lr_max_recovers :: int

type_synonym run_store = "string \<Rightarrow> live_run option"

datatype journal_error = NoRecord | BadStatus | EmptyEscalation

section \<open>Setters\<close>

definition update_run_record ::
  "string \<Rightarrow> (live_run \<Rightarrow> live_run) \<Rightarrow> run_store \<Rightarrow> journal_error + live_run \<times> run_store" where
  "update_run_record rid f runs =
     (case runs rid of None \<Rightarrow> Inl NoRecord | Some r \<Rightarrow> Inr (f r, runs(rid := Some (f r))))"

text \<open>\<open>update_run_status\<close> overwrites listed fields under the same lock.\<close>

definition update_run_status ::
  "string \<Rightarrow> (live_run \<Rightarrow> live_run) \<Rightarrow> run_store \<Rightarrow> journal_error + live_run \<times> run_store" where
  "update_run_status rid f runs =
     (case runs rid of None \<Rightarrow> Inl NoRecord | Some r \<Rightarrow> (let r' = f r in Inr (r', runs(rid := Some r'))))"

definition mark_run :: "string \<Rightarrow> string \<Rightarrow> string option \<Rightarrow> run_store \<Rightarrow> journal_error + live_run \<times> run_store" where
  "mark_run rid status stage runs =
     (if status \<notin> set JOURNAL_STATUSES then Inl BadStatus
      else
        (case runs rid of
           None \<Rightarrow> Inl NoRecord
         | Some r \<Rightarrow>
             (let r' = r\<lparr>run_status := status, lr_stage := (case stage of None \<Rightarrow> lr_stage r | Some s \<Rightarrow> s)\<rparr>
              in Inr (r', runs(rid := Some r')))))"

definition upsert_run :: "live_run \<Rightarrow> run_store \<Rightarrow> run_store" where
  "upsert_run r runs = runs(run_id r := Some r)"

definition stamp_run_tick :: "string \<Rightarrow> string \<Rightarrow> string \<Rightarrow> run_store \<Rightarrow> journal_error + live_run \<times> run_store" where
  "stamp_run_tick rid last_at due = update_run_record rid (\<lambda>r. r\<lparr>lr_last_tick := Some last_at, lr_next_due := Some due\<rparr>)"

definition stamp_drive_attempt :: "string \<Rightarrow> bool \<Rightarrow> run_store \<Rightarrow> journal_error + int \<times> run_store" where
  "stamp_drive_attempt rid progressed runs =
     (case update_run_record rid (\<lambda>r. r\<lparr>lr_drive_attempts := (if progressed then 0 else lr_drive_attempts r + 1)\<rparr>) runs of
        Inl e \<Rightarrow> Inl e | Inr (r, runs) \<Rightarrow> Inr (lr_drive_attempts r, runs))"

definition mark_seen_by_human :: "string \<Rightarrow> string \<Rightarrow> run_store \<Rightarrow> journal_error + live_run \<times> run_store" where
  "mark_seen_by_human rid now = update_run_record rid (\<lambda>r. r\<lparr>lr_seen_at := Some now\<rparr>)"

text \<open>Stamps of the poller's health never raise.\<close>

definition stamp_poll_health :: "string \<Rightarrow> string \<Rightarrow> int \<Rightarrow> jval \<Rightarrow> string \<Rightarrow> run_store \<Rightarrow> run_store" where
  "stamp_poll_health rid error_class consecutive returncode now runs =
     (case update_run_record rid (\<lambda>r. r\<lparr>last_status := AList.update ''poll_health''
             (JDict [(''error_class'', JText error_class), (''consecutive'', JInt consecutive), (''returncode'', returncode),
                     (''at'', JText now)]) (last_status r)\<rparr>) runs of
        Inl e \<Rightarrow> runs | Inr (r, runs') \<Rightarrow> runs')"

definition clear_poll_health :: "string \<Rightarrow> run_store \<Rightarrow> run_store" where
  "clear_poll_health rid runs =
     (case update_run_record rid (\<lambda>r. r\<lparr>last_status := AList.delete ''poll_health'' (last_status r)\<rparr>) runs of
        Inl e \<Rightarrow> runs | Inr (r, runs') \<Rightarrow> runs')"

definition record_kill_request :: "string \<Rightarrow> string \<Rightarrow> string list \<Rightarrow> run_store \<Rightarrow> journal_error + live_run \<times> run_store" where
  "record_kill_request rid now ids = update_run_record rid (\<lambda>r. r\<lparr>kill_requested_at := now, lr_kill_requested_ids := ids\<rparr>)"

definition record_kill_confirmed :: "string \<Rightarrow> string \<Rightarrow> string list \<Rightarrow> run_store \<Rightarrow> journal_error + live_run \<times> run_store" where
  "record_kill_confirmed rid now ids = update_run_record rid (\<lambda>r. r\<lparr>lr_kill_confirmed_at := now, lr_kill_confirmed_ids := ids\<rparr>)"

definition mark_pending_verdict :: "string \<Rightarrow> dict \<Rightarrow> run_store \<Rightarrow> journal_error + live_run \<times> run_store" where
  "mark_pending_verdict rid escalation runs =
     (if escalation = [] then Inl EmptyEscalation else update_run_status rid (\<lambda>r. r\<lparr>pending_verdict := escalation\<rparr>) runs)"

definition clear_pending_verdict :: "string \<Rightarrow> dict option \<Rightarrow> string \<Rightarrow> run_store \<Rightarrow> journal_error + live_run \<times> run_store" where
  "clear_pending_verdict rid verdict now =
     update_run_record rid (\<lambda>r. r\<lparr>pending_verdict := [],
       lr_verdict_history :=
         (case verdict of
            None \<Rightarrow> lr_verdict_history r
          | Some v \<Rightarrow> if v = [] then lr_verdict_history r
                      else lr_verdict_history r @
                        [if map_of v ''applied_at'' = None then v @ [(''applied_at'', JText now)] else v])\<rparr>)"

definition is_kill_confirmed :: "live_run \<Rightarrow> bool" where
  "is_kill_confirmed r \<longleftrightarrow>
     lr_kill_confirmed_at r \<noteq> [] \<and> lr_job_ids r \<noteq> [] \<and> set (lr_job_ids r) \<subseteq> set (lr_kill_confirmed_ids r)"

section \<open>The evidence of a dispatch\<close>

definition pending_evidence :: "string \<Rightarrow> dict" where
  "pending_evidence now = [(''state'', JText ''pending''), (''at'', JText now)]"

definition stamp_dispatch_actuated :: "string \<Rightarrow> string \<Rightarrow> run_store \<Rightarrow> journal_error + live_run \<times> run_store" where
  "stamp_dispatch_actuated rid now =
     update_run_record rid (\<lambda>r. r\<lparr>lr_evidence := [(''state'', JText ''actuated''), (''at'', JText now)]\<rparr>)"

definition dispatch_never_actuated :: "live_run \<Rightarrow> bool" where
  "dispatch_never_actuated r \<longleftrightarrow> jget (lr_evidence r) ''state'' = JText ''pending''"

section \<open>What an existing record means\<close>

record code_drift =
  executor_changed :: bool
  code_changed :: bool
  drifted_executor :: "string option"
  drifted_tasks_sha :: "string option"

definition differs :: "string option \<Rightarrow> string option \<Rightarrow> bool" where
  "differs recorded current =
     (case (recorded, current) of (Some a, Some b) \<Rightarrow> a \<noteq> [] \<and> b \<noteq> [] \<and> a \<noteq> b | _ \<Rightarrow> False)"

definition detect_code_drift ::
  "string option \<Rightarrow> string option \<Rightarrow> string option \<Rightarrow> string option \<Rightarrow> code_drift" where
  "detect_code_drift recorded_executor recorded_sha current_executor current_sha =
     \<lparr>executor_changed = differs recorded_executor current_executor, code_changed = differs recorded_sha current_sha,
      drifted_executor = (if differs recorded_executor current_executor then recorded_executor else None),
      drifted_tasks_sha = (if differs recorded_sha current_sha then recorded_sha else None)\<rparr>"

definition drifted :: "code_drift \<Rightarrow> bool" where
  "drifted d \<longleftrightarrow> executor_changed d \<or> code_changed d"

datatype layer1_action = Dedup | Proceed | Refuse | RouteToReconcile

record layer1_decision =
  l1_action :: layer1_action
  l1_reason :: string
  l1_warn :: bool
  l1_executor :: "string option"
  l1_sha :: "string option"

definition decided :: "layer1_action \<Rightarrow> string \<Rightarrow> layer1_decision" where
  "decided act why = \<lparr>l1_action = act, l1_reason = why, l1_warn = False, l1_executor = None, l1_sha = None\<rparr>"

definition resolve_layer1 ::
  "live_run \<Rightarrow> bool \<Rightarrow> string option \<Rightarrow> string option \<Rightarrow> string \<Rightarrow> layer1_decision" where
  "resolve_layer1 existing invalidate current_executor current_sha current_cluster =
     (if is_resubmittable_terminal (run_record.truncate existing) then decided Proceed ''terminal_failure_resubmittable''
      else if run_status existing = ''submitting'' then decided RouteToReconcile ''submitting_route_to_reconcile''
      else if run_status existing \<noteq> ''complete'' then
        (if cluster existing \<noteq> [] \<and> current_cluster \<noteq> [] \<and> cluster existing \<noteq> current_cluster
         then decided Refuse ''in_flight_cluster_mismatch''
         else decided Dedup ''in_flight_blocks_duplicate'')
      else
        (let d = detect_code_drift (Some (lr_executor existing)) (Some (lr_tasks_sha existing)) current_executor current_sha
         in if \<not> drifted d then decided Dedup ''complete_idempotent_replay''
            else if invalidate then decided Proceed ''complete_code_drift_invalidated''
            else \<lparr>l1_action = Dedup, l1_reason = ''complete_code_drift_warned'', l1_warn = True,
                  l1_executor = drifted_executor d, l1_sha = drifted_tasks_sha d\<rparr>))"

section \<open>Minting\<close>

definition allocate_attempt :: "live_run option \<Rightarrow> int \<Rightarrow> int" where
  "allocate_attempt existing jobmap_attempt =
     (case existing of None \<Rightarrow> 0 | Some r \<Rightarrow> max (lr_attempt r) jobmap_attempt + 1)"

record mint_request =
  mr_run :: string
  mr_cluster :: string
  mr_total :: int
  mr_campaign :: string
  mr_auto_resume :: bool
  mr_max_resumes :: int
  mr_auto_recover :: bool
  mr_max_recovers :: int

definition submitting_record :: "mint_request \<Rightarrow> int \<Rightarrow> string \<Rightarrow> live_run" where
  "submitting_record q attempt now =
     \<lparr>run_id = mr_run q, cluster = mr_cluster q, campaign_of = mr_campaign q, run_status = ''submitting'', superseded_by = [],
      last_status = [], retries = JDict [], total_tasks = mr_total q, pending_verdict = [], pending_decision = [],
      kill_requested_at = [], lr_job_ids = [], lr_attempt = attempt, lr_evidence = pending_evidence now, lr_combined = [],
      lr_failed_waves = [], lr_kill_requested_ids = [], lr_kill_confirmed_at = [], lr_kill_confirmed_ids = [],
      lr_executor = [], lr_tasks_sha = [], lr_accepted_at = None, lr_stage = ''monitor'', lr_drive_attempts = 0,
      lr_verdict_history = [], lr_last_tick = None, lr_next_due = None, lr_seen_at = None,
      lr_auto_resume = mr_auto_resume q, lr_resume_count = 0, lr_max_resumes = mr_max_resumes q, lr_auto_recover = mr_auto_recover q,
      lr_recover_count = 0, lr_max_recovers = mr_max_recovers q\<rparr>"

text \<open>The read, the decision and the write happen under one lock; \<open>decide\<close> may raise.\<close>

datatype 'e mint_answer = MintRaised 'e | NothingToMint | Standing live_run | Minted live_run

definition upsert_run_compare_and_mint ::
  "string \<Rightarrow> (live_run option \<Rightarrow> 'e + live_run option) \<Rightarrow> run_store \<Rightarrow> 'e mint_answer \<times> run_store" where
  "upsert_run_compare_and_mint rid decide runs =
     (case decide (runs rid) of
        Inl e \<Rightarrow> (MintRaised e, runs)
      | Inr None \<Rightarrow> (case runs rid of None \<Rightarrow> (NothingToMint, runs) | Some r \<Rightarrow> (Standing r, runs))
      | Inr (Some r) \<Rightarrow> (Minted r, runs(rid := Some r)))"

definition mint_decide :: "mint_request \<Rightarrow> string \<Rightarrow> live_run option \<Rightarrow> layer1_action + live_run option" where
  "mint_decide q now existing =
     (case existing of
        None \<Rightarrow> Inr (Some (submitting_record q (allocate_attempt None 0) now))
      | Some r \<Rightarrow>
          (case l1_action (resolve_layer1 r False None None (mr_cluster q)) of
             RouteToReconcile \<Rightarrow> Inl RouteToReconcile
           | Refuse \<Rightarrow> Inl Refuse
           | Dedup \<Rightarrow> Inr None
           | Proceed \<Rightarrow> Inr (Some (submitting_record q (allocate_attempt (Some r) 0) now))))"

text \<open>The mint and the first watchdog stamp, which never fails it.\<close>

definition mint_submitting_record ::
  "mint_request \<Rightarrow> string \<Rightarrow> string \<Rightarrow> run_store \<Rightarrow> layer1_action mint_answer \<times> run_store" where
  "mint_submitting_record q now due runs =
     (case upsert_run_compare_and_mint (mr_run q) (mint_decide q now) runs of
        (Minted r, runs) \<Rightarrow>
          (Minted r, case stamp_run_tick (mr_run q) now due runs of Inl e \<Rightarrow> runs | Inr (r', runs') \<Rightarrow> runs')
      | (answer, runs) \<Rightarrow> (answer, runs))"

definition promote_submitting_record ::
  "string \<Rightarrow> string list \<Rightarrow> string \<Rightarrow> run_store \<Rightarrow> journal_error + live_run \<times> run_store" where
  "promote_submitting_record rid ids now runs =
     (case update_run_status rid (\<lambda>r. r\<lparr>lr_job_ids := ids, lr_accepted_at := Some now\<rparr>) runs of
        Inl e \<Rightarrow> Inl e | Inr (r, runs) \<Rightarrow> mark_run rid ''in_flight'' None runs)"

end
