(* ===== verification/Reconcile.thy ===== *)
theory Reconcile
  imports ClusterText RunVerdict RunJournal
begin

text \<open>
  Reconciling a run with the cluster (\<open>ops/monitor/reconcile.py\<close>): the recovery ladder of a record caught between its
  mint and its job id, the verdict on a run from announcements, reporter and scheduler, the harvest that is owed at
  a terminal verdict (\<open>harvest_receipt_exists\<close> of \<open>ops/monitor/harvest_guard.py\<close>), and the cascade to the canary.
  What remote commands answer is an argument, and so are the reporter, the failure features and the harvest itself.
\<close>

section \<open>The environment\<close>

datatype remote_call = JobmapRead string | TokenQuery | AnnounceRead string | WaveList string | AliveCheck "string list"

datatype api_tasks = NoTaskStatuses | TasksRaised | TasksRead dict

record 'c recon_env =
  re_family :: family
  re_needs_ssh :: bool
  re_call :: "remote_call \<Rightarrow> 'c \<Rightarrow> ssh_answer"
  re_clear :: "string \<Rightarrow> 'c \<Rightarrow> 'c"
  re_loads :: "string \<Rightarrow> jval option"
  re_report :: "live_run \<Rightarrow> 'c \<Rightarrow> dict option"
  re_features :: "live_run \<Rightarrow> int list \<Rightarrow> 'c \<Rightarrow> dict"
  re_api_alive :: "live_run \<Rightarrow> 'c \<Rightarrow> string set option"
  re_api_tasks :: "live_run \<Rightarrow> 'c \<Rightarrow> api_tasks"
  re_sidecar :: "string \<Rightarrow> dict option"
  re_harvest :: "string \<Rightarrow> live_run \<Rightarrow> 'c \<Rightarrow> dict option"
  re_now :: string

text \<open>\<open>rw_harvests\<close> holds the lines of a run's harvest ledger, \<open>None\<close> for one that does not parse.\<close>

record 'c recon_world =
  rw_runs :: run_store
  rw_cluster :: 'c
  rw_harvests :: "string \<Rightarrow> jval option list"

datatype recon_error = NoRunRecord | JournalRaised journal_error | CountsRaised

definition then_do ::
  "('w \<Rightarrow> (recon_error + 'a) \<times> 'w) \<Rightarrow> ('a \<Rightarrow> 'w \<Rightarrow> (recon_error + 'b) \<times> 'w) \<Rightarrow> 'w \<Rightarrow> (recon_error + 'b) \<times> 'w" where
  "then_do m f w = (case m w of (Inl e, w) \<Rightarrow> (Inl e, w) | (Inr a, w) \<Rightarrow> f a w)"

definition on_journal ::
  "(run_store \<Rightarrow> journal_error + live_run \<times> run_store) \<Rightarrow> 'c recon_world \<Rightarrow> (recon_error + live_run) \<times> 'c recon_world" where
  "on_journal op w =
     (case op (rw_runs w) of Inl e \<Rightarrow> (Inl (JournalRaised e), w) | Inr (r, runs) \<Rightarrow> (Inr r, w\<lparr>rw_runs := runs\<rparr>))"

definition set_status :: "string \<Rightarrow> dict \<Rightarrow> 'c recon_world \<Rightarrow> (recon_error + live_run) \<times> 'c recon_world" where
  "set_status rid d = on_journal (update_run_status rid (\<lambda>r. r\<lparr>last_status := d\<rparr>))"

definition set_mark :: "string \<Rightarrow> string \<Rightarrow> 'c recon_world \<Rightarrow> (recon_error + live_run) \<times> 'c recon_world" where
  "set_mark rid status = on_journal (mark_run rid status None)"

text \<open>\<open>{**d, ...}\<close>.\<close>

definition merged :: "dict \<Rightarrow> dict \<Rightarrow> dict" where
  "merged d kvs = foldl (\<lambda>d (k, v). AList.update k v d) d kvs"

section \<open>The job id in what the scheduler printed\<close>

text \<open>
  The search for a fixed text, white space and digits, at the first position that matches; for PBS the whole text
  of a single line.
\<close>

definition digits_of :: "string \<Rightarrow> string" where
  "digits_of s = takeWhile digit s"

definition id_after :: "string \<Rightarrow> string \<Rightarrow> string option" where
  "id_after p s =
     (if prefix p s
      then (let t = drop (length p) s; u = dropWhile is_space t
            in if length u = length t \<or> digits_of u = [] then None else Some (digits_of u))
      else None)"

fun first_id :: "string list \<Rightarrow> string \<Rightarrow> string option" where
  "first_id ps [] = None"
| "first_id ps (c # s) =
     (case List.map_filter (\<lambda>p. id_after p (c # s)) ps of j # _ \<Rightarrow> Some j | [] \<Rightarrow> first_id ps s)"

definition server_char :: "char \<Rightarrow> bool" where
  "server_char c \<longleftrightarrow>
     (let n = (of_char c :: nat)
      in (65 \<le> n \<and> n \<le> 90) \<or> (97 \<le> n \<and> n \<le> 122) \<or> (48 \<le> n \<and> n \<le> 57) \<or> c \<in> {CHR ''_'', CHR ''.'', CHR ''-''})"

definition pbs_id :: "string \<Rightarrow> string option" where
  "pbs_id s =
     (let seq = digits_of s; rest = drop (length seq) s;
          inner = digits_of (tl rest);
          after = drop (length inner) (tl rest);
          (jid, tail) = (if prefix ''['' rest \<and> prefix '']'' after then (seq @ ''['' @ inner @ '']'', tl after) else (seq, rest));
          server = takeWhile server_char (tl tail)
      in if seq = [] \<or> \<not> prefix ''.'' tail \<or> server = [] then None
         else if list_all is_space (drop (length server) (tl tail)) then Some jid else None)"

definition job_id_of :: "family \<Rightarrow> string \<Rightarrow> string option" where
  "job_id_of f blob =
     (case f of
        Slurm \<Rightarrow> first_id [''Submitted batch job''] blob
      | Sge \<Rightarrow> first_id [''Your job-array'', ''Your job''] blob
      | _ \<Rightarrow> pbs_id blob)"

section \<open>The harvest\<close>

definition harvest_receipt_exists :: "jval option list \<Rightarrow> bool" where
  "harvest_receipt_exists ls =
     list_ex (\<lambda>l. case l of Some (JDict d) \<Rightarrow> jget d ''harvest_skipped_reason'' \<noteq> JText ''run_not_terminal'' | _ \<Rightarrow> False) ls"

definition harvest_on_terminal :: "'c recon_env \<Rightarrow> string \<Rightarrow> string \<Rightarrow> live_run \<Rightarrow> 'c recon_world \<Rightarrow> 'c recon_world" where
  "harvest_on_terminal env rid cause rec w =
     (case re_harvest env cause rec (rw_cluster w) of
        None \<Rightarrow> w
      | Some marker \<Rightarrow> w\<lparr>rw_harvests := (rw_harvests w)(rid := rw_harvests w rid @ [Some (JDict marker)])\<rparr>)"

definition harvest_if_owed ::
  "'c recon_env \<Rightarrow> string \<Rightarrow> string \<Rightarrow> live_run \<Rightarrow> string \<Rightarrow> 'c recon_world \<Rightarrow> 'c recon_world" where
  "harvest_if_owed env rid cause rec before_status w =
     (if cause \<noteq> before_status \<or> \<not> harvest_receipt_exists (rw_harvests w rid) then harvest_on_terminal env rid cause rec w
      else w)"

section \<open>A record caught before its job id\<close>

definition never_dispatched_status :: "string \<Rightarrow> dict \<Rightarrow> dict" where
  "never_dispatched_status note more_keys =
     [(''verdict'', JText ''abandoned''), (''verdict_reason'', JText NEVER_DISPATCHED_VERDICT_REASON),
      (''recovery_note'', JText note)] @ more_keys"

definition NEVER_ACTUATED_RECOVERY_NOTE :: string where
  "NEVER_ACTUATED_RECOVERY_NOTE =
     ''dispatch evidence reads 'pending': the remote dispatch exec was never issued for this attempt, so no acceptance evidence can exist anywhere''"

definition never_actuated_abandon :: "string \<Rightarrow> live_run \<Rightarrow> 'c recon_world \<Rightarrow> (recon_error + live_run) \<times> 'c recon_world" where
  "never_actuated_abandon rid rec =
     then_do (set_status rid (never_dispatched_status NEVER_ACTUATED_RECOVERY_NOTE
                [(''acceptance_evidence'', JText ''never_actuated''), (''dispatch_evidence'', JDict (lr_evidence rec))]))
       (\<lambda>r. set_mark rid ''abandoned'')"

definition stay_submitting :: "string \<Rightarrow> string \<Rightarrow> 'c recon_world \<Rightarrow> (recon_error + live_run) \<times> 'c recon_world" where
  "stay_submitting rid note =
     set_status rid [(''verdict'', JText ''submitting''), (''verdict_reason'', JText ''recovery_unknown_recensus''),
                     (''recovery_note'', JText note)]"

definition safe_resubmit ::
  "'c recon_env \<Rightarrow> string \<Rightarrow> string \<Rightarrow> 'c recon_world \<Rightarrow> (recon_error + live_run) \<times> 'c recon_world" where
  "safe_resubmit env rid note w =
     then_do (set_status rid (never_dispatched_status note [])) (\<lambda>r. set_mark rid ''abandoned'')
       (w\<lparr>rw_cluster := re_clear env rid (rw_cluster w)\<rparr>)"

definition census_note :: "census option \<Rightarrow> string" where
  "census_note a = (case a of None \<Rightarrow> ''unavailable'' | Some c \<Rightarrow> if an_present c then ''confirmed'' else ''dir-absent'')"

definition adopt_and_promote ::
  "'c recon_env \<Rightarrow> string \<Rightarrow> string list \<Rightarrow> live_run \<Rightarrow> 'c recon_world \<Rightarrow> (recon_error + live_run) \<times> 'c recon_world" where
  "adopt_and_promote env rid ids rec =
     then_do (on_journal (update_run_status rid (\<lambda>r. r\<lparr>lr_job_ids := ids\<rparr>)))
       (\<lambda>r. then_do (set_mark rid ''in_flight'')
          (\<lambda>promoted w. set_status rid (merged (last_status promoted)
              [(''verdict_reason'', JText ''submit_once_adopted_from_marker''), (''adopted_job_ids'', JList (map JText ids)),
               (''announce_crosscheck'', JText (census_note
                  (read_announcements (total_tasks rec) (re_call env (AnnounceRead rid) (rw_cluster w)))))]) w))"

definition disambiguate_by_token ::
  "'c recon_env \<Rightarrow> string \<Rightarrow> live_run \<Rightarrow> string \<Rightarrow> 'c recon_world \<Rightarrow> (recon_error + live_run) \<times> 'c recon_world" where
  "disambiguate_by_token env rid rec token w =
     (case re_call env TokenQuery (rw_cluster w) of
        Severed \<Rightarrow> stay_submitting rid ''token query severed: '' w
      | Answered rc out \<Rightarrow>
          (if rc \<noteq> 0 then stay_submitting rid (''token query transport rc '' @ int_text rc) w
           else
             (let (clean, ran) = scheduler_query_ran (re_family env) out
              in if \<not> ran then stay_submitting rid ''token query no positive-evidence ack'' w
                 else
                   (case map_of (parse_token_query (re_family env) clean) token of
                      Some hit \<Rightarrow>
                        (if hit = [] then safe_resubmit env rid ''token query clean-miss: array never entered the scheduler queue'' w
                         else adopt_and_promote env rid [hit] rec w)
                    | None \<Rightarrow> safe_resubmit env rid ''token query clean-miss: array never entered the scheduler queue'' w))))"

definition rung2_never_dispatched ::
  "'c recon_env \<Rightarrow> string \<Rightarrow> live_run \<Rightarrow> 'c recon_world \<Rightarrow> (recon_error + live_run) \<times> 'c recon_world" where
  "rung2_never_dispatched env rid rec w =
     (case read_announcements (total_tasks rec) (re_call env (AnnounceRead rid) (rw_cluster w)) of
        None \<Rightarrow> stay_submitting rid ''announce cross-check severed: '' w
      | Some a \<Rightarrow>
          (if an_present a \<or> an_announced a > 0
           then stay_submitting rid ''jobmap absent but announce census present'' w
           else safe_resubmit env rid ''jobmap dir absent and announce census absent: submit never dispatched'' w))"

definition recover_submitting ::
  "'c recon_env \<Rightarrow> string \<Rightarrow> live_run \<Rightarrow> 'c recon_world \<Rightarrow> (recon_error + live_run) \<times> 'c recon_world" where
  "recover_submitting env rid rec w =
     (if dispatch_never_actuated rec then never_actuated_abandon rid rec w
      else
        (case re_call env (JobmapRead rid) (rw_cluster w) of
           Severed \<Rightarrow> stay_submitting rid ''jobmap read severed: '' w
         | Answered rc out \<Rightarrow>
             (if rc \<noteq> 0 then stay_submitting rid (''jobmap read transport rc '' @ int_text rc) w
              else
                (let parsed = parse_jobmap_read (re_loads env) out;
                     marker_attempt = (case jm_attempt parsed of None \<Rightarrow> lr_attempt rec | Some a \<Rightarrow> a);
                     ids = sort (remdups (map snd (adoptable_wave_ids (job_id_of (re_family env)) parsed)))
                 in if \<not> jm_present parsed then rung2_never_dispatched env rid rec w
                    else if ids \<noteq> [] then adopt_and_promote env rid ids rec w
                    else disambiguate_by_token env rid rec (jobmap_token rid marker_attempt) w))))"

section \<open>A run with job ids\<close>

record probes =
  pr_summary :: dict
  pr_report :: dict
  pr_alive :: "string set"
  pr_alive_failed :: bool
  pr_reporter_failed :: bool
  pr_combined :: "int list"

definition failed_task_ids :: "dict \<Rightarrow> int list" where
  "failed_task_ids report =
     (case jget report ''tasks'' of
        JDict tasks \<Rightarrow>
          (let failed = List.map_filter
                 (\<lambda>(tid, info). case info of
                    JDict d \<Rightarrow> if jget d ''status'' = JText ''failed'' then py_int_of_text tid else None | _ \<Rightarrow> None) tasks
           in if failed = [] then [0] else [Min (set failed)])
      | _ \<Rightarrow> [0])"

definition census_progress_summary :: "census \<Rightarrow> dict" where
  "census_progress_summary a =
     [(''complete'', JInt (an_complete a)), (''failed'', JInt (an_failed a)), (''running'', JInt 0), (''pending'', JInt (an_missing a)),
      (''unknown'', JInt 0), (''verdict_source'', JText ''task_announcements''), (''status_source'', JText ''task_announcements'')]"

definition settle_with ::
  "'c recon_env \<Rightarrow> string \<Rightarrow> live_run \<Rightarrow> dict \<Rightarrow> settle_decision \<Rightarrow> int list \<Rightarrow> string \<Rightarrow> 'c recon_world
   \<Rightarrow> (recon_error + live_run) \<times> 'c recon_world" where
  "settle_with env rid rec recorded decision tids before_status w =
     then_do
       (then_do
          (set_status rid (if sd_verdict decision = ''failed''
             then merged recorded [(''failure_features'', JDict (re_features env rec tids (rw_cluster w)))] else recorded))
          (\<lambda>r. set_mark rid (sd_verdict decision)))
       (\<lambda>updated w. (Inr updated, harvest_if_owed env rid (sd_verdict decision) updated before_status w)) w"

definition announced_summary :: "'c recon_env \<Rightarrow> census \<Rightarrow> dict" where
  "announced_summary env a =
     [(''complete'', JInt (an_complete a)), (''failed'', JInt (an_failed a)), (''running'', JInt 0), (''pending'', JInt 0),
      (''unknown'', JInt 0), (''checked_at'', JText (re_now env)), (''verdict_source'', JText ''task_announcements'')]"

text \<open>The announcement fast path: \<open>None\<close> when the census is not full.\<close>

definition settle_from_announcements ::
  "'c recon_env \<Rightarrow> string \<Rightarrow> live_run \<Rightarrow> census \<Rightarrow> 'c recon_world \<Rightarrow> ((recon_error + live_run) \<times> 'c recon_world) option" where
  "settle_from_announcements env rid rec a w =
     (if total_tasks rec \<le> 0 \<or> an_announced a \<noteq> total_tasks rec then None
      else
        (let summary = announced_summary env a
         in Some
           (case settle summary (total_tasks rec) of
              None \<Rightarrow> (Inl CountsRaised, w)
            | Some d \<Rightarrow>
                settle_with env rid rec (merged summary [(''verdict_reason'', JText (sd_reason d))]) d [0] (run_status rec) w)))"

definition is_adopted_run :: "dict \<Rightarrow> bool" where
  "is_adopted_run sidecar =
     (case jget sidecar ''extra'' of
        JDict extra \<Rightarrow> truthy (jget extra ''adopted'') \<or> truthy (jget extra ''adopted_by'')
          \<or> jget extra ''provenance'' \<in> {JText ''adopted'', JText ''adopt-run''}
      | _ \<Rightarrow> False)"

definition ADOPTED_UNVERIFIABLE_CAUSE :: string where
  "ADOPTED_UNVERIFIABLE_CAUSE = ''adopted_run_control_plane_absent''"

text \<open>The summary inside a report; \<open>None\<close> when \<open>dict(...)\<close> refuses it.\<close>

definition report_summary :: "dict \<Rightarrow> dict option" where
  "report_summary report = (case map_of report ''summary'' of None \<Rightarrow> Some [] | Some (JDict d) \<Rightarrow> Some d | _ \<Rightarrow> None)"

definition walk :: "'c recon_env \<Rightarrow> live_run \<Rightarrow> 'c \<Rightarrow> dict \<times> dict option" where
  "walk env rec c =
     (case re_report env rec c of None \<Rightarrow> ([], None) | Some report \<Rightarrow> (report, report_summary report))"

definition failed_walk :: dict where "failed_walk = [(''error'', JText [])]"

definition annotate :: "census option \<Rightarrow> bool \<Rightarrow> jval list \<Rightarrow> dict \<Rightarrow> dict" where
  "annotate progress announce_failed warnings summary =
     merged summary
       ((case progress of None \<Rightarrow> []
         | Some a \<Rightarrow> [(''task_announcements'', JDict [(''announced'', JInt (an_announced a)), (''complete'', JInt (an_complete a)),
                        (''failed'', JInt (an_failed a)), (''missing'', JInt (an_missing a))])])
        @ (if announce_failed then [(''announce_probe'', JText ''failed'')] else [])
        @ (if warnings = [] then [] else [(''warnings'', JList warnings)]))"

definition api_probes :: "'c recon_env \<Rightarrow> live_run \<Rightarrow> 'c \<Rightarrow> probes" where
  "api_probes env rec c =
     (let alive = re_api_alive env rec c;
          alive_warn = (case alive of None \<Rightarrow> [JText ''alive check: ''] | Some _ \<Rightarrow> []);
          checked = [(''checked_at'', JText (re_now env))];
          (summary, failed) = (case re_api_tasks env rec c of
             NoTaskStatuses \<Rightarrow> (checked, False) | TasksRaised \<Rightarrow> (checked, True) | TasksRead d \<Rightarrow> (d, False));
          task_warn = (if failed then [JText ''task statuses: ''] else [])
      in \<lparr>pr_summary = annotate None False (alive_warn @ task_warn) summary, pr_report = [],
          pr_alive = (case alive of None \<Rightarrow> set (lr_job_ids rec) | Some a \<Rightarrow> a), pr_alive_failed = (alive = None),
          pr_reporter_failed = failed, pr_combined = lr_combined rec\<rparr>)"

definition ssh_probes :: "'c recon_env \<Rightarrow> string \<Rightarrow> live_run \<Rightarrow> census option \<Rightarrow> bool \<Rightarrow> 'c \<Rightarrow> probes" where
  "ssh_probes env rid rec progress announce_failed c =
     (let combined = list_combined_waves (re_call env (WaveList rid) c);
          alive = alive_job_ids (re_family env) (lr_job_ids rec) (re_call env (AliveCheck (lr_job_ids rec)) c);
          live = (case alive of None \<Rightarrow> set (lr_job_ids rec) | Some a \<Rightarrow> a);
          walked = (progress = None \<or> live = {});
          (report, outcome) =
            (if walked then walk env rec c
             else ([], Some (case progress of None \<Rightarrow> [] | Some a \<Rightarrow> census_progress_summary a)));
          summary = (case outcome of None \<Rightarrow> failed_walk | Some d \<Rightarrow> d);
          summary = merged summary [(''checked_at'', JText (re_now env))];
          summary = (case jget report ''waves'' of
             JDict ws \<Rightarrow> if ws = [] then summary else merged summary [(''waves'', JDict ws)] | _ \<Rightarrow> summary);
          warnings = (if announce_failed then [JText ''announce read: ''] else [])
            @ (if combined = None then [JText ''wave list: ''] else []) @ (if alive = None then [JText ''alive check: ''] else [])
            @ (if outcome = None then [JText ''status reporter: ''] else [])
      in \<lparr>pr_summary = annotate progress announce_failed warnings summary, pr_report = report, pr_alive = live,
          pr_alive_failed = (alive = None), pr_reporter_failed = (outcome = None),
          pr_combined = (case combined of None \<Rightarrow> lr_combined rec | Some ws \<Rightarrow> ws)\<rparr>)"

definition put_waves :: "probes \<Rightarrow> live_run \<Rightarrow> live_run" where
  "put_waves p rec = rec\<lparr>lr_combined := pr_combined p,
     lr_failed_waves := filter (\<lambda>x. x \<notin> set (pr_combined p)) (lr_failed_waves rec)\<rparr>"

definition unverified :: "'c recon_env \<Rightarrow> string \<Rightarrow> probes \<Rightarrow> dict" where
  "unverified env rid p =
     (if pr_alive_failed p \<or> pr_reporter_failed p
      then merged (pr_summary p)
        ((''verify_state'', JText ''unable_to_verify'')
         # (if pr_reporter_failed p \<and> \<not> pr_alive_failed p
                 \<and> is_adopted_run (case re_sidecar env rid of None \<Rightarrow> [] | Some sc \<Rightarrow> sc)
            then [(''unable_to_verify_cause'', JText ADOPTED_UNVERIFIABLE_CAUSE), (''unable_to_verify_note'', JText [])] else []))
      else pr_summary p)"

text \<open>The settlement, once both probes answered and the scheduler holds no job or every task is counted complete.\<close>

definition settle_verified ::
  "'c recon_env \<Rightarrow> string \<Rightarrow> live_run \<Rightarrow> probes \<Rightarrow> live_run \<Rightarrow> 'c recon_world \<Rightarrow> (recon_error + live_run) \<times> 'c recon_world" where
  "settle_verified env rid rec p updated w =
     (let summary = unverified env rid p
      in case all_tasks_complete summary (total_tasks rec) of
           None \<Rightarrow> (Inl CountsRaised, w)
         | Some strict \<Rightarrow>
             (if lr_job_ids rec \<noteq> [] \<and> \<not> pr_alive_failed p \<and> \<not> pr_reporter_failed p \<and> (pr_alive p = {} \<or> strict)
              then
                (case settle summary (total_tasks rec) of
                   None \<Rightarrow> (Inl CountsRaised, w)
                 | Some d \<Rightarrow>
                     settle_with env rid rec
                       (merged summary ((''verdict_reason'', JText (sd_reason d))
                          # (if pr_alive p = {} then [] else [(''scheduler_alive_at_settle'', JBool True)])))
                       d (failed_task_ids (pr_report p)) (run_status rec) w)
              else (Inr updated, w)))"

text \<open>The verdict from the probes: a confirmed kill first, then what could not be verified, then the settlement.\<close>

definition conclude ::
  "'c recon_env \<Rightarrow> string \<Rightarrow> live_run \<Rightarrow> probes \<Rightarrow> 'c recon_world \<Rightarrow> (recon_error + live_run) \<times> 'c recon_world" where
  "conclude env rid rec p w =
     (if is_kill_confirmed rec \<and> pr_alive p = {} then
        then_do (on_journal (update_run_status rid (\<lambda>r. (put_waves p r)
              \<lparr>last_status := merged (pr_summary p) [(''verdict_reason'', JText ''killed_confirmed_reporter_independent'')],
               lr_failed_waves := lr_failed_waves (put_waves p rec)\<rparr>)))
          (\<lambda>r. then_do (set_mark rid ''abandoned'')
             (\<lambda>updated w. (Inr updated, harvest_if_owed env rid ''abandoned'' updated (run_status rec) w))) w
      else
        then_do (on_journal (update_run_status rid (\<lambda>r. (put_waves p r)
            \<lparr>last_status := unverified env rid p, lr_failed_waves := lr_failed_waves (put_waves p rec)\<rparr>)))
          (settle_verified env rid rec p) w)"

definition probe_by_ssh ::
  "'c recon_env \<Rightarrow> string \<Rightarrow> live_run \<Rightarrow> 'c recon_world \<Rightarrow> (recon_error + live_run) \<times> 'c recon_world" where
  "probe_by_ssh env rid rec w =
     (let c = rw_cluster w
      in if is_kill_confirmed rec then conclude env rid rec (ssh_probes env rid rec None False c) w
         else
           (case read_announcements (total_tasks rec) (re_call env (AnnounceRead rid) c) of
              None \<Rightarrow> conclude env rid rec (ssh_probes env rid rec None True c) w
            | Some a \<Rightarrow>
                (if an_announced a > 0 then
                   (case settle_from_announcements env rid rec a w of
                      Some done \<Rightarrow> done
                    | None \<Rightarrow> conclude env rid rec (ssh_probes env rid rec (Some a) False c) w)
                 else conclude env rid rec (ssh_probes env rid rec None False c) w)))"

datatype recon_outcome = Orphaned string | Reconciled live_run

definition reconcile_one ::
  "'c recon_env \<Rightarrow> string \<Rightarrow> 'c recon_world \<Rightarrow> (recon_error + recon_outcome) \<times> 'c recon_world" where
  "reconcile_one env rid w =
     (case rw_runs w rid of
        None \<Rightarrow>
          (case re_sidecar env rid of
             None \<Rightarrow> (Inl NoRunRecord, w)
           | Some sidecar \<Rightarrow> (if truthy (jget sidecar ''job_ids'') then Inl NoRunRecord else Inr (Orphaned rid), w))
      | Some rec \<Rightarrow>
          then_do (if run_status rec = ''submitting'' then recover_submitting env rid rec
                   else if re_needs_ssh env then probe_by_ssh env rid rec
                   else (\<lambda>w. conclude env rid rec (api_probes env rec (rw_cluster w)) w))
            (\<lambda>r w. (Inr (Reconciled r), w)) w)"

section \<open>The cascade to the canary\<close>

definition CANARY_SUFFIXES :: "string list" where "CANARY_SUFFIXES = [''-canary'', ''-canary2'']"

definition canary_parent_of :: "string \<Rightarrow> string option" where
  "canary_parent_of rid =
     map_option (\<lambda>s. take (length rid - length s) rid) (find (\<lambda>s. suffix s rid) [''-canary2'', ''-canary''])"

definition canary_family :: "string \<Rightarrow> string list" where
  "canary_family parent = map (\<lambda>s. parent @ s) CANARY_SUFFIXES"

definition sibling_run_ids :: "string \<Rightarrow> string list" where
  "sibling_run_ids rid =
     (case canary_parent_of rid of
        Some parent \<Rightarrow> parent # filter (\<lambda>c. c \<noteq> rid) (canary_family parent)
      | None \<Rightarrow> canary_family rid)"

definition sibling_row :: "string \<Rightarrow> string \<Rightarrow> bool \<Rightarrow> jval" where
  "sibling_row rid state reconciled =
     JDict [(''run_id'', JText rid), (''lifecycle_state'', JText state), (''reconciled'', JBool reconciled)]"

fun reconcile_siblings :: "'c recon_env \<Rightarrow> string list \<Rightarrow> 'c recon_world \<Rightarrow> (recon_error + jval list) \<times> 'c recon_world" where
  "reconcile_siblings env [] w = (Inr [], w)"
| "reconcile_siblings env (sib # sibs) w =
     (case rw_runs w sib of
        None \<Rightarrow> reconcile_siblings env sibs w
      | Some r \<Rightarrow>
          (if run_status r \<in> set TERMINAL_STATUSES
           then then_do (reconcile_siblings env sibs) (\<lambda>rows w. (Inr (sibling_row sib (run_status r) False # rows), w)) w
           else then_do (reconcile_one env sib)
                  (\<lambda>out. then_do (reconcile_siblings env sibs)
                     (\<lambda>rows w. (Inr (sibling_row sib (case out of Orphaned x \<Rightarrow> ''no_run_record'' | Reconciled x \<Rightarrow> run_status x) True # rows), w)))
                  w))"

definition reconcile ::
  "'c recon_env \<Rightarrow> string \<Rightarrow> 'c recon_world \<Rightarrow> (recon_error + recon_outcome) \<times> 'c recon_world" where
  "reconcile env rid =
     then_do (reconcile_one env rid)
       (\<lambda>out. case out of
          Orphaned x \<Rightarrow> (\<lambda>w. (Inr out, w))
        | Reconciled primary \<Rightarrow>
            then_do (reconcile_siblings env (sibling_run_ids rid))
              (\<lambda>rows w.
                 if rows = [] then (Inr out, w)
                 else then_do (set_status rid (merged (last_status primary) [(''reconciled_siblings'', JList rows)]))
                        (\<lambda>r w. (Inr (Reconciled r), w)) w))"

text \<open>The state an envelope reports.\<close>

definition reported_state :: "recon_outcome \<Rightarrow> string" where
  "reported_state out =
     (case out of
        Orphaned rid \<Rightarrow> ''no_run_record''
      | Reconciled r \<Rightarrow>
          (if jget (last_status r) ''verify_state'' = JText ''unable_to_verify'' then ''unable_to_verify'' else run_status r))"

end
