(* ===== verification/SubmitOnce.thy ===== *)
theory SubmitOnce
  imports Reconcile
begin

text \<open>
  The submission leg of a run (the main array of \<open>ops/submit_flow.py\<close>) and what each of its steps leaves behind: the
  marker and the id files that the dispatch writes on the cluster (\<open>_dispatch_core\<close>, \<open>infra/jobmap.py\<close>), the queued
  jobs with the token they carry, and the record. The submitter may die between any two steps. The answers of the
  remote reads are rendered from that state.
\<close>

section \<open>The cluster\<close>

record queued_job =
  qj_id :: string
  qj_run :: string
  qj_token :: "string option"

text \<open>\<open>sc_marker\<close>: the text of \<open><run>.jobmap\<close>; \<open>sc_ids\<close>: return code and output in \<open><run>.jobmap.<wave>.id\<close>.\<close>

record submit_cluster =
  sc_dir :: bool
  sc_marker :: "string \<Rightarrow> string option"
  sc_ids :: "string \<Rightarrow> (string \<times> int \<times> string) list"
  sc_jobs :: "queued_job list"
  sc_announced :: "string \<Rightarrow> bool"

definition live_jobs :: "string \<Rightarrow> submit_cluster \<Rightarrow> string list" where
  "live_jobs rid c = map qj_id (filter (\<lambda>j. qj_run j = rid) (sc_jobs c))"

section \<open>What a dispatch does there\<close>

definition marker_text :: "string \<Rightarrow> int \<Rightarrow> int \<Rightarrow> string" where
  "marker_text rid attempt epoch =
     ''{\"token\":\"'' @ jobmap_token rid attempt @ ''\",\"state\":\"pending\",\"attempt\":'' @ int_text attempt @ '',\"at\":''
     @ int_text epoch @ '',\"waves\":{}}''"

definition marker_doc :: "string \<Rightarrow> int \<Rightarrow> int \<Rightarrow> dict" where
  "marker_doc rid attempt epoch =
     [(''token'', JText (jobmap_token rid attempt)), (''state'', JText ''pending''), (''attempt'', JInt attempt),
      (''at'', JInt epoch), (''waves'', JDict [])]"

definition pre_dispatch :: "string \<Rightarrow> int \<Rightarrow> int \<Rightarrow> submit_cluster \<Rightarrow> submit_cluster" where
  "pre_dispatch rid attempt epoch c =
     c\<lparr>sc_dir := True, sc_marker := (sc_marker c)(rid := Some (marker_text rid attempt epoch))\<rparr>"

text \<open>The families whose submission carries the token.\<close>

definition correlation_token :: "family \<Rightarrow> string \<Rightarrow> int \<Rightarrow> string option" where
  "correlation_token f rid attempt = (if f = Slurm \<or> f = Sge then Some (jobmap_token rid attempt) else None)"

definition queue_job :: "family \<Rightarrow> string \<Rightarrow> int \<Rightarrow> string \<Rightarrow> submit_cluster \<Rightarrow> submit_cluster" where
  "queue_job f rid attempt j c =
     c\<lparr>sc_jobs := sc_jobs c @ [\<lparr>qj_id = j, qj_run = rid, qj_token = correlation_token f rid attempt\<rparr>]\<rparr>"

definition post_dispatch :: "string \<Rightarrow> string \<Rightarrow> int \<Rightarrow> string \<Rightarrow> submit_cluster \<Rightarrow> submit_cluster" where
  "post_dispatch rid wkey rc out c = c\<lparr>sc_ids := (sc_ids c)(rid := AList.update wkey (rc, out) (sc_ids c rid))\<rparr>"

definition clear_jobmap :: "string \<Rightarrow> submit_cluster \<Rightarrow> submit_cluster" where
  "clear_jobmap rid c = c\<lparr>sc_marker := (sc_marker c)(rid := None), sc_ids := (sc_ids c)(rid := [])\<rparr>"

section \<open>The leg\<close>

text \<open>A wave is queued, or the scheduler refuses it with a return code and the leg ends.\<close>

datatype wave_answer = Accepts string string | Rejects int string

datatype submit_action =
  StampActuated | PreDispatch | Queue string | PostDispatch nat int string | SetIds "string list" | MarkInFlight

fun wave_actions :: "nat \<Rightarrow> string list \<Rightarrow> wave_answer list \<Rightarrow> submit_action list" where
  "wave_actions i ids [] = [SetIds ids, MarkInFlight]"
| "wave_actions i ids (Accepts j out # ws) =
     PreDispatch # Queue j # PostDispatch i 0 out # wave_actions (Suc i) (ids @ [j]) ws"
| "wave_actions i ids (Rejects rc out # ws) = [PreDispatch, PostDispatch i rc out]"

definition submit_actions :: "wave_answer list \<Rightarrow> submit_action list" where
  "submit_actions ws = StampActuated # wave_actions 0 [] ws"

type_synonym submit_world = "submit_cluster recon_world"

record leg =
  lg_family :: family
  lg_run :: string
  lg_attempt :: int
  lg_now :: string
  lg_epoch :: int

definition on_cluster :: "(submit_cluster \<Rightarrow> submit_cluster) \<Rightarrow> submit_world \<Rightarrow> submit_world" where
  "on_cluster f w = w\<lparr>rw_cluster := f (rw_cluster w)\<rparr>"

definition on_record :: "(run_store \<Rightarrow> journal_error + live_run \<times> run_store) \<Rightarrow> submit_world \<Rightarrow> submit_world option" where
  "on_record op w = (case op (rw_runs w) of Inl e \<Rightarrow> None | Inr (r, runs) \<Rightarrow> Some (w\<lparr>rw_runs := runs\<rparr>))"

text \<open>One step; \<open>None\<close> is a raise, which ends the leg.\<close>

fun run_action :: "leg \<Rightarrow> submit_action \<Rightarrow> submit_world \<Rightarrow> submit_world option" where
  "run_action l StampActuated w = on_record (stamp_dispatch_actuated (lg_run l) (lg_now l)) w"
| "run_action l PreDispatch w = Some (on_cluster (pre_dispatch (lg_run l) (lg_attempt l) (lg_epoch l)) w)"
| "run_action l (Queue j) w = Some (on_cluster (queue_job (lg_family l) (lg_run l) (lg_attempt l) j) w)"
| "run_action l (PostDispatch i rc out) w = Some (on_cluster (post_dispatch (lg_run l) (wave_key i) rc out) w)"
| "run_action l (SetIds ids) w =
     on_record (update_run_status (lg_run l) (\<lambda>r. r\<lparr>lr_job_ids := ids, lr_accepted_at := Some (lg_now l)\<rparr>)) w"
| "run_action l MarkInFlight w = on_record (mark_run (lg_run l) ''in_flight'' None) w"

fun perform :: "leg \<Rightarrow> submit_action list \<Rightarrow> submit_world \<Rightarrow> submit_world" where
  "perform l [] w = w"
| "perform l (a # as) w = (case run_action l a w of None \<Rightarrow> w | Some w' \<Rightarrow> perform l as w')"

text \<open>The leg of a submitter that mints, and then dies after \<open>k\<close> of its steps.\<close>

definition submit_main ::
  "family \<Rightarrow> mint_request \<Rightarrow> string \<Rightarrow> string \<Rightarrow> int \<Rightarrow> wave_answer list \<Rightarrow> nat \<Rightarrow> submit_world
   \<Rightarrow> layer1_action mint_answer \<times> submit_world" where
  "submit_main f q now due epoch ws k w =
     (case mint_submitting_record q now due (rw_runs w) of
        (Minted r, runs) \<Rightarrow>
          (Minted r, perform \<lparr>lg_family = f, lg_run = mr_run q, lg_attempt = lr_attempt r, lg_now = now, lg_epoch = epoch\<rparr>
                       (take k (submit_actions ws)) (w\<lparr>rw_runs := runs\<rparr>))
      | (answer, runs) \<Rightarrow> (answer, w\<lparr>rw_runs := runs\<rparr>))"

section \<open>What the reads print\<close>

text \<open>\<open>build_read_shell\<close>: acknowledgement, marker, one line for every id file, in which a newline is a blank.\<close>

definition wave_line :: "string \<times> int \<times> string \<Rightarrow> string" where
  "wave_line e = (case e of (wkey, rc, out) \<Rightarrow>
     WAVE_ID_LINE @ '' '' @ wkey @ '' '' @ int_text rc @ '' '' @ map (\<lambda>c. if c = CHR 0x0A then CHR '' '' else c) out @ '' '')"

definition jobmap_lines :: "string \<Rightarrow> submit_cluster \<Rightarrow> string list" where
  "jobmap_lines rid c =
     (if sc_dir c
      then JOBMAP_ACK # (case sc_marker c rid of None \<Rightarrow> [] | Some t \<Rightarrow> [t]) @ map wave_line (sc_ids c rid)
      else [])"

text \<open>The rows of the token query of a family, over the jobs in its queue.\<close>

definition token_rows :: "family \<Rightarrow> queued_job \<Rightarrow> string list" where
  "token_rows f j =
     (if f = Slurm then [qj_id j @ ''|'' @ (case qj_token j of None \<Rightarrow> ''(null)'' | Some t \<Rightarrow> t)]
      else if f = Sge then
        (''job_number:                 '' @ qj_id j)
        # (case qj_token j of None \<Rightarrow> [] | Some t \<Rightarrow> [''context:                    HPC_TOKEN='' @ t])
      else [])"

definition token_lines :: "family \<Rightarrow> submit_cluster \<Rightarrow> string list" where
  "token_lines f c = concat (map (token_rows f) (sc_jobs c)) @ [SCHED_ACK_PREFIX @ ''0'']"

definition announce_lines :: "string \<Rightarrow> submit_cluster \<Rightarrow> string list" where
  "announce_lines rid c = (if sc_announced c rid then [ANNOUNCE_ACK, ''complete=0'', ''failed=0''] else [])"

text \<open>A call is answered when the link is up; what the ladder does not ask is answered by \<open>rest\<close>.\<close>

definition ask ::
  "family \<Rightarrow> (remote_call \<Rightarrow> bool) \<Rightarrow> (remote_call \<Rightarrow> submit_cluster \<Rightarrow> ssh_answer) \<Rightarrow> remote_call \<Rightarrow> submit_cluster
   \<Rightarrow> ssh_answer" where
  "ask f up rest call c =
     (if \<not> up call then Severed
      else
        (case call of
           JobmapRead rid \<Rightarrow> Answered 0 (printed (jobmap_lines rid c))
         | TokenQuery \<Rightarrow> Answered 0 (printed (token_lines f c))
         | AnnounceRead rid \<Rightarrow> Answered 0 (printed (announce_lines rid c))
         | _ \<Rightarrow> rest call c))"

end
