(* ===== verification/ClusterTextLaws.thy ===== *)
theory ClusterTextLaws
  imports ClusterText ArrayJobsLaws
begin

text \<open>
  Reading back what a command printed: lines, words, the sentinel and the rows of a query. The rows that the reads
  of the recovery rely on are inverse to the texts they come from.
\<close>

section \<open>Lines and words\<close>

definition one_line :: "string \<Rightarrow> bool" where
  "one_line l \<longleftrightarrow> list_all (\<lambda>c. \<not> line_break c) l"

definition one_word :: "string \<Rightarrow> bool" where
  "one_word w \<longleftrightarrow> w \<noteq> [] \<and> list_all (\<lambda>c. \<not> is_space c) w"

lemma break_is_space: "line_break c \<Longrightarrow> is_space c"
  by (auto simp: line_break_def is_space_def)

lemma one_word_one_line: "one_word w \<Longrightarrow> one_line w"
  using break_is_space by (auto simp: one_word_def one_line_def list_all_iff)

lemma one_line_append [simp]: "one_line (a @ b) \<longleftrightarrow> one_line a \<and> one_line b"
  by (simp add: one_line_def)

lemma one_line_Cons [simp]: "one_line (c # l) \<longleftrightarrow> \<not> line_break c \<and> one_line l" "one_line []" "\<not> line_break (CHR '' '')"
  by (simp_all add: one_line_def line_break_def)

lemma splitlines_line: "one_line l \<Longrightarrow> splitlines_from acc cr (l @ newline @ s) = (rev acc @ l) # splitlines_from [] False s \<or> (cr \<and> l = [])"
proof (induction l arbitrary: acc cr)
  case Nil
  then show ?case by (simp add: newline_def line_break_def)
next
  case (Cons c l)
  then have c: "\<not> line_break c" "one_line l" by (simp_all add: one_line_def)
  then have "c \<noteq> CHR 0x0A" by (auto simp: line_break_def)
  then show ?case using c Cons.IH [OF c(2), of "c # acc" False] by simp
qed

lemma splitlines_printed: "list_all one_line ls \<Longrightarrow> splitlines (printed ls) = ls"
  unfolding splitlines_def
proof (induction ls)
  case (Cons l ls)
  have "splitlines_from [] False (l @ newline @ printed ls) = l # splitlines_from [] False (printed ls)"
    using splitlines_line [of l "[]" False "printed ls"] Cons.prems by simp
  then show ?case using Cons by (simp add: printed_def)
qed (simp add: printed_def)

lemma words_word: "list_all (\<lambda>c. \<not> is_space c) w \<Longrightarrow> split_words_from acc (w @ s) = split_words_from (rev w @ acc) s"
  by (induction w arbitrary: acc) simp_all

lemma words_then: "one_word w \<Longrightarrow> is_space b \<Longrightarrow> split_words (w @ b # s) = w # split_words s"
  unfolding split_words_def using words_word [of w "[]" "b # s"] by (simp add: one_word_def)

lemma words_one: "one_word w \<Longrightarrow> split_words w = [w]"
  unfolding split_words_def using words_word [of w "[]" "[]"] by (simp add: one_word_def)

lemma words_blank [simp]: "is_space b \<Longrightarrow> split_words (b # s) = split_words s"
  by (simp add: split_words_def)

lemma words_drop: "split_words (dropWhile is_space s) = split_words s"
  by (induction s) simp_all

lemma words_spaces: "list_all is_space t \<Longrightarrow> split_words_from acc t = (if acc = [] then [] else [rev acc])"
  by (induction t arbitrary: acc) simp_all

lemma words_tail: "list_all is_space t \<Longrightarrow> split_words_from acc (s @ t) = split_words_from acc s"
  by (induction s arbitrary: acc) (simp_all add: words_spaces)

lemma words_strip [simp]: "split_words (py_strip s) = split_words s"
proof -
  let ?s = "dropWhile is_space s"
  have "?s = rev (dropWhile is_space (rev ?s)) @ rev (takeWhile is_space (rev ?s))"
    by (metis rev_append rev_rev_ident takeWhile_dropWhile_id)
  then have "?s = py_strip s @ rev (takeWhile is_space (rev ?s))" by (simp add: py_strip_def)
  moreover have "list_all is_space (rev (takeWhile is_space (rev ?s)))"
    by (auto simp: list_all_iff dest: set_takeWhileD)
  ultimately show ?thesis using words_tail [of _ "[]" "py_strip s"] words_drop [of s] by (metis split_words_def)
qed

lemma words_map: "(\<And>c. is_space (g c) = is_space c) \<Longrightarrow> (\<And>c. \<not> is_space c \<Longrightarrow> g c = c) \<Longrightarrow>
  split_words_from acc (map g s) = split_words_from acc s"
  by (induction s arbitrary: acc) simp_all

lemma strip_word: "one_word w \<Longrightarrow> py_strip w = w"
  by (intro strip_ends) (auto simp: one_word_def list_all_iff)

lemma strip_prefix: "one_word w \<Longrightarrow> prefix w (py_strip (w @ s))"
proof -
  assume w: "one_word w"
  then have d: "dropWhile is_space (w @ s) = w @ s" by (cases w) (auto simp: one_word_def)
  have "rev w = dropWhile is_space (rev w)" using w by (cases "rev w") (auto simp: one_word_def list_all_iff rev_eq_Cons_iff)
  then have "\<exists>t. dropWhile is_space (rev s @ rev w) = t @ rev w"
    by (metis append_Nil dropWhile_append1 dropWhile_append2 dropWhile_append3 dropWhile_append)
  then show ?thesis by (auto simp: py_strip_def d prefix_def)
qed

lemma strip_skips: "is_space b \<Longrightarrow> py_strip (b # s) = py_strip s"
  by (simp add: py_strip_def)

section \<open>Numbers and the sentinel\<close>

lemma digits_one_word: "list_all digit w \<Longrightarrow> w \<noteq> [] \<Longrightarrow> one_word w"
  using digit_not_space by (auto simp: one_word_def list_all_iff)

lemma dec_one_word: "one_word (dec n)"
  using dec_digits by (intro digits_one_word) (auto simp: list_all_iff)

lemma int_text_one_word: "one_word (int_text n)"
  using dec_one_word by (auto simp: int_text_def one_word_def is_space_def)

lemma int_of_int_text [simp]: "py_int_of_text (int_text n) = Some n"
proof (cases "n < 0")
  case True
  obtain c t where ct: "dec (nat (- n)) = c # t" using dec_nonempty [of "nat (- n)"] by (cases "dec (nat (- n))") auto
  have d: "\<forall>x\<in>set (c # t). digit x" using dec_digits [of _ "nat (- n)"] ct by simp
  then have "parse_digits 0 False (c # t) = Some (- n)"
    using parse_digits_all [of "c # t" False 0] undec_dec [of "nat (- n)"] True by (simp add: ct undec_def del: parse_digits.simps)
  moreover have "py_strip (CHR ''-'' # c # t) = CHR ''-'' # c # t"
    using int_text_one_word [of n] True by (intro strip_word) (simp add: int_text_def ct)
  ultimately show ?thesis using True by (simp add: py_int_of_text_def int_text_def ct del: parse_digits.simps)
qed (simp add: int_text_def)

lemma ack_last:
  assumes "list_all (\<lambda>l. one_line l \<and> \<not> prefix SCHED_ACK_PREFIX l) rows"
  shows "split_ack (printed (rows @ [SCHED_ACK_PREFIX @ int_text rc])) = (rows, Some rc)"
proof -
  let ?a = "SCHED_ACK_PREFIX @ int_text rc"
  have "one_line SCHED_ACK_PREFIX" by code_simp
  then have "list_all one_line (rows @ [?a])"
    using assms one_word_one_line [OF int_text_one_word] by (auto simp: list_all_iff)
  then have "splitlines (printed (rows @ [?a])) = rows @ [?a]" by (rule splitlines_printed)
  moreover have "filter (prefix SCHED_ACK_PREFIX) rows = []" "filter (\<lambda>l. \<not> prefix SCHED_ACK_PREFIX l) rows = rows"
    using assms by (auto simp: list_all_iff filter_empty_conv filter_id_conv)
  ultimately show ?thesis
    using strip_word [OF int_text_one_word] by (simp add: split_ack_def ack_code_def)
qed

section \<open>Rows of the token query\<close>

lemma before_at: "c \<notin> set a \<Longrightarrow> before c (a @ c # b) = a" "c \<notin> set a \<Longrightarrow> past c (a @ c # b) = b" "c \<notin> set a \<Longrightarrow> before c a = a"
  unfolding before_def past_def by (induction a) auto

definition job_number :: "string \<Rightarrow> bool" where
  "job_number j \<longleftrightarrow> j \<noteq> [] \<and> list_all digit j"

lemma job_number_word: "job_number j \<Longrightarrow> one_word j"
  by (simp add: job_number_def digits_one_word)

lemma job_number_free: "job_number j \<Longrightarrow> \<not> digit c \<Longrightarrow> c \<notin> set j"
  by (auto simp: job_number_def list_all_iff)

lemma slurm_row:
  assumes "job_number j" "one_word t"
  shows "slurm_token_row m (j @ CHR ''|'' # t) = set_default t j m"
proof -
  have n: "CHR ''|'' \<notin> set j" "CHR ''.'' \<notin> set j" "CHR ''_'' \<notin> set j"
    using job_number_free [OF assms(1)] by (simp_all add: digit_def)
  have "one_word (j @ CHR ''|'' # t)" using job_number_word [OF assms(1)] assms(2) by (simp add: one_word_def is_space_def)
  then have s: "py_strip (j @ CHR ''|'' # t) = j @ CHR ''|'' # t" by (rule strip_word)
  have t: "py_strip t = t" "py_strip j = j" using strip_word assms(2) job_number_word [OF assms(1)] by blast+
  have b: "slurm_base j = j" using n by (simp add: slurm_base_def before_at)
  have e: "t \<noteq> []" "j \<noteq> []" using assms by (auto simp: one_word_def job_number_def)
  show ?thesis unfolding slurm_token_row_def Let_def s before_at [OF n(1)] t b using e by simp
qed

lemma sge_number_row:
  assumes "job_number j"
  shows "sge_token_row (cur, m) (''job_number:                 '' @ j) = (Some j, m)"
proof -
  have l: "last j \<in> set j" using assms by (simp add: job_number_def)
  then have "\<not> is_space (last j)" using job_number_word [OF assms] by (auto simp: one_word_def list_all_iff)
  then have "py_strip (''job_number:                 '' @ j) = ''job_number:                 '' @ j"
    using l assms by (intro strip_ends) (auto simp: is_space_def job_number_def)
  moreover have "py_strip ('' '' @ '' '' @ '' '' @ '' '' @ '' '' @ '' '' @ '' '' @ '' '' @ '' '' @ '' '' @ '' '' @ '' '' @ '' '' @ '' '' @ '' '' @ '' '' @ '' '' @ j) = j"
    using strip_word [OF job_number_word [OF assms]] by (simp add: strip_skips is_space_def)
  ultimately show ?thesis by (simp add: sge_token_row_def past_def)
qed

lemma split_on_none: "c \<notin> set p \<Longrightarrow> split_on c p = [p]"
  by (induction p) auto

lemma sge_context_row:
  assumes "one_word t" "CHR '','' \<notin> set t" "j \<noteq> []"
  shows "sge_token_row (Some j, m) (''context:                    HPC_TOKEN='' @ t) = (Some j, set_default t j m)"
proof -
  let ?l = "''context:                    HPC_TOKEN='' @ t"
  have l: "last t \<in> set t" using assms(1) by (simp add: one_word_def)
  then have "\<not> is_space (last t)" using assms(1) by (auto simp: one_word_def list_all_iff)
  then have s: "py_strip ?l = ?l" using assms(1) by (intro strip_ends) (auto simp: is_space_def one_word_def)
  have w: "one_word (''HPC_TOKEN='' @ t)" using assms(1) by (auto simp: one_word_def is_space_def)
  have "split_on (CHR '','') (''HPC_TOKEN='' @ t) = [''HPC_TOKEN='' @ t]"
    using assms(2) by (intro split_on_none) auto
  moreover have "context_token (''HPC_TOKEN='' @ t) = Some t"
  proof -
    have "before (CHR ''='') (''HPC_TOKEN'' @ CHR ''='' # t) = ''HPC_TOKEN''" "past (CHR ''='') (''HPC_TOKEN'' @ CHR ''='' # t) = t"
      by (intro before_at; simp)+
    then have b: "before (CHR ''='') (''HPC_TOKEN='' @ t) = ''HPC_TOKEN''" "past (CHR ''='') (''HPC_TOKEN='' @ t) = t" by simp_all
    have "py_strip ''HPC_TOKEN'' = CORRELATION_KEY_ENV" by code_simp
    then show ?thesis unfolding context_token_def b using strip_word [OF assms(1)] assms(1) by (simp add: one_word_def)
  qed
  ultimately show ?thesis
    unfolding sge_token_row_def Let_def s using strip_word [OF w] assms(3)
    by (simp add: past_def strip_skips is_space_def map_filter_def)
qed

end
