(* ===== verification/SubmitOnceLaws.thy ===== *)
theory SubmitOnceLaws
  imports SubmitOnce ClusterTextLaws
begin

text \<open>
  The recovery of a submission refines a short specification over the state of the cluster, through every text it
  reads. From it: what a record says after its submitter died at any point of the leg, that the next submission does
  not queue a second array, and the situations in which it does.
\<close>

section \<open>Reading the jobmap back\<close>

definition legible_entry :: "string \<times> int \<times> string \<Rightarrow> bool" where
  "legible_entry e \<longleftrightarrow> (case e of (k, rc, out) \<Rightarrow> one_word k \<and> list_all (\<lambda>c. line_break c \<longrightarrow> c = CHR 0x0A) out)"

definition legible_marker :: "string option \<Rightarrow> bool" where
  "legible_marker m \<longleftrightarrow> (case m of None \<Rightarrow> True | Some t \<Rightarrow> one_line t \<and> prefix ''{'' t \<and> py_strip t = t)"

definition blob :: "string \<Rightarrow> string" where
  "blob out = join_blank (split_words out)"

lemma sentinel_words: "one_word WAVE_ID_LINE" "one_word JOBMAP_ACK" "one_line ANNOUNCE_ACK" "one_line SCHED_ACK_PREFIX"
  by code_simp+

lemma wave_line_words:
  assumes "legible_entry (k, rc, out)"
  shows "split_words (wave_line (k, rc, out)) = WAVE_ID_LINE # k # int_text rc # split_words out"
proof -
  let ?out = "map (\<lambda>c. if c = CHR 0x0A then CHR '' '' else c) out"
  have "split_words (?out @ '' '') = split_words ?out"
    unfolding split_words_def by (rule words_tail) (simp add: is_space_def)
  also have "\<dots> = split_words out"
    unfolding split_words_def by (rule words_map) (auto simp: is_space_def)
  finally have o: "split_words (?out @ '' '') = split_words out" .
  have k: "one_word k" using assms by (simp add: legible_entry_def)
  show ?thesis
    using words_then [OF sentinel_words(1)] words_then [OF k] words_then [OF int_text_one_word [of rc]] o
    by (simp add: wave_line_def is_space_def)
qed

lemma wave_line_line: "legible_entry e \<Longrightarrow> one_line (wave_line e)"
proof -
  assume e: "legible_entry e"
  obtain k rc out where [simp]: "e = (k, rc, out)" by (metis surj_pair)
  have "one_line (map (\<lambda>c. if c = CHR 0x0A then CHR '' '' else c) out)"
    using e by (auto simp: legible_entry_def one_line_def list_all_iff line_break_def)
  moreover have "one_line k" using e one_word_one_line by (simp add: legible_entry_def)
  moreover have "one_line '' ''" by code_simp
  ultimately show ?thesis
    using sentinel_words(1) one_word_one_line int_text_one_word [of rc] by (simp add: wave_line_def)
qed

lemma read_wave_entry:
  assumes "legible_entry (k, rc, out)"
  shows "read_jobmap_line loads r (py_strip (wave_line (k, rc, out))) = r\<lparr>jm_waves := AList.update k (blob out, rc) (jm_waves r)\<rparr>"
proof -
  have p: "prefix WAVE_ID_LINE (py_strip (wave_line (k, rc, out)))"
    unfolding wave_line_def by (simp add: strip_prefix [OF sentinel_words(1)])
  have "\<not> prefix WAVE_ID_LINE JOBMAP_ACK" by code_simp
  then have "py_strip (wave_line (k, rc, out)) \<noteq> JOBMAP_ACK" using p by metis
  moreover have "read_wave_line (py_strip (wave_line (k, rc, out))) = Some (k, blob out, rc)"
    by (simp add: read_wave_line_def wave_line_words [OF assms] blob_def)
  ultimately show ?thesis using p by (simp add: read_jobmap_line_def)
qed

lemma update_new_key: "k \<notin> set (map fst m) \<Longrightarrow> AList.update k v m = m @ [(k, v)]"
  by (induction m) auto

lemma read_wave_entries:
  assumes "list_all legible_entry es" "distinct (map fst (jm_waves r) @ map fst es)"
  shows "foldl (read_jobmap_line loads) r (map (\<lambda>e. py_strip (wave_line e)) es)
    = r\<lparr>jm_waves := jm_waves r @ map (\<lambda>(k, rc, out). (k, blob out, rc)) es\<rparr>"
  using assms
proof (induction es arbitrary: r)
  case (Cons e es)
  obtain k rc out where [simp]: "e = (k, rc, out)" by (metis surj_pair)
  have "AList.update k (blob out, rc) (jm_waves r) = jm_waves r @ [(k, blob out, rc)]"
    using Cons.prems(2) by (intro update_new_key) auto
  then have "read_jobmap_line loads r (py_strip (wave_line (k, rc, out))) = r\<lparr>jm_waves := jm_waves r @ [(k, blob out, rc)]\<rparr>"
    using Cons.prems(1) by (simp add: read_wave_entry)
  then show ?case using Cons.IH [of "r\<lparr>jm_waves := jm_waves r @ [(k, blob out, rc)]\<rparr>"] Cons.prems by auto
qed simp

definition marker_of :: "(string \<Rightarrow> jval option) \<Rightarrow> string option \<Rightarrow> jobmap_read \<Rightarrow> jobmap_read" where
  "marker_of loads m r = (case m of None \<Rightarrow> r | Some t \<Rightarrow> read_marker_line loads t r)"

lemma marker_waves [simp]: "jm_waves (marker_of loads m r) = jm_waves r" "jm_present (marker_of loads m r) = jm_present r"
  by (auto simp: marker_of_def read_marker_line_def split: option.splits jval.splits)

text \<open>What the read prints of the marker and of the id files, parsed, is the marker and every
  wave with its return code and its output up to white space; without the directory it is a read that found nothing.\<close>

lemma jobmap_reads:
  assumes "legible_marker (sc_marker c rid)" "list_all legible_entry (sc_ids c rid)" "distinct (map fst (sc_ids c rid))"
  shows "parse_jobmap_read loads (printed (jobmap_lines rid c)) =
    (if sc_dir c
     then (marker_of loads (sc_marker c rid) (no_jobmap\<lparr>jm_present := True\<rparr>))
       \<lparr>jm_waves := map (\<lambda>(k, rc, out). (k, blob out, rc)) (sc_ids c rid)\<rparr>
     else no_jobmap)"
proof (cases "sc_dir c")
  case True
  let ?m = "case sc_marker c rid of None \<Rightarrow> [] | Some t \<Rightarrow> [t]"
  have "list_all one_line (jobmap_lines rid c)"
    using assms wave_line_line True sentinel_words one_word_one_line
    by (auto simp: jobmap_lines_def legible_marker_def list_all_iff split: option.splits)
  then have s: "splitlines (printed (jobmap_lines rid c)) = jobmap_lines rid c" by (rule splitlines_printed)
  have m: "map py_strip ?m = ?m" using assms(1) by (auto simp: legible_marker_def split: option.splits)
  have ls: "map py_strip (jobmap_lines rid c) = JOBMAP_ACK # ?m @ map (\<lambda>e. py_strip (wave_line e)) (sc_ids c rid)"
    using True m strip_word [OF sentinel_words(2)] by (simp add: jobmap_lines_def)
  let ?r = "no_jobmap\<lparr>jm_present := True\<rparr>"
  have a: "read_jobmap_line loads ?r JOBMAP_ACK = ?r" by (simp add: read_jobmap_line_def)
  have b: "foldl (read_jobmap_line loads) ?r ?m = marker_of loads (sc_marker c rid) ?r"
  proof (cases "sc_marker c rid")
    case (Some t)
    then have p: "prefix ''{'' t" using assms(1) by (simp add: legible_marker_def)
    moreover have "\<not> prefix ''{'' JOBMAP_ACK" by code_simp
    ultimately have "t \<noteq> JOBMAP_ACK" by metis
    moreover have "\<not> prefix WAVE_ID_LINE t" using p by (auto simp: prefix_def WAVE_ID_LINE_def)
    ultimately show ?thesis using Some p by (simp add: marker_of_def read_jobmap_line_def)
  qed (simp add: marker_of_def)
  have w: "foldl (read_jobmap_line loads) (marker_of loads (sc_marker c rid) ?r) (map (\<lambda>e. py_strip (wave_line e)) (sc_ids c rid))
    = (marker_of loads (sc_marker c rid) ?r)\<lparr>jm_waves := map (\<lambda>(k, rc, out). (k, blob out, rc)) (sc_ids c rid)\<rparr>"
    using read_wave_entries [of "sc_ids c rid" "marker_of loads (sc_marker c rid) ?r" loads] assms by (simp add: no_jobmap_def)
  show ?thesis unfolding parse_jobmap_read_def Let_def s ls using True a b w by simp
next
  case False
  then show ?thesis by (simp add: jobmap_lines_def printed_def parse_jobmap_read_def splitlines_def)
qed

section \<open>Reading the queue back\<close>

definition legible_job :: "queued_job \<Rightarrow> bool" where
  "legible_job j \<longleftrightarrow> job_number (qj_id j)
     \<and> (case qj_token j of None \<Rightarrow> True | Some t \<Rightarrow> one_word t \<and> CHR '','' \<notin> set t \<and> \<not> prefix ''(null)'' t)"

definition token_holder :: "string \<Rightarrow> queued_job list \<Rightarrow> string option" where
  "token_holder t js = map_option qj_id (find (\<lambda>j. qj_token j = Some t) js)"

lemma int_text_0: "int_text 0 = ''0''"
  by code_simp

lemma set_default_lookup: "map_of (set_default k v m) t = (case map_of m t of None \<Rightarrow> if t = k then Some v else None | Some x \<Rightarrow> Some x)"
  by (auto simp: set_default_def map_add_def split: option.splits)

lemma slurm_scan:
  assumes "list_all legible_job js" "\<not> prefix ''(null)'' t"
  shows "map_of (foldl slurm_token_row m (concat (map (token_rows Slurm) js))) t =
    (case map_of m t of None \<Rightarrow> token_holder t js | Some x \<Rightarrow> Some x)"
  using assms(1)
proof (induction js arbitrary: m)
  case (Cons j js)
  let ?t = "case qj_token j of None \<Rightarrow> ''(null)'' | Some t \<Rightarrow> t"
  have n: "one_word ''(null)''" by code_simp
  have "slurm_token_row m (qj_id j @ CHR ''|'' # ?t) = set_default ?t (qj_id j) m"
    using Cons.prems n by (intro slurm_row) (auto simp: legible_job_def split: option.splits)
  then show ?case
    using Cons assms(2) by (auto simp: token_rows_def set_default_lookup token_holder_def split: option.splits)
qed (simp add: token_holder_def split: option.splits)

lemma sge_scan:
  assumes "list_all legible_job js"
  shows "map_of (snd (foldl sge_token_row (cur, m) (concat (map (token_rows Sge) js)))) t =
    (case map_of m t of None \<Rightarrow> token_holder t js | Some x \<Rightarrow> Some x)"
  using assms
proof (induction js arbitrary: cur m)
  case (Cons j js)
  have j: "job_number (qj_id j)" "qj_id j \<noteq> []" using Cons.prems by (auto simp: legible_job_def job_number_def)
  show ?case
  proof (cases "qj_token j")
    case None
    then show ?thesis
      using Cons.IH [of "Some (qj_id j)" m] Cons.prems sge_number_row [OF j(1), of cur m]
      by (simp add: token_rows_def token_holder_def split: option.splits)
  next
    case (Some u)
    then have u: "one_word u" "CHR '','' \<notin> set u" using Cons.prems by (auto simp: legible_job_def)
    show ?thesis
      using Cons.IH [of "Some (qj_id j)" "set_default u (qj_id j) m"] Cons.prems Some
        sge_number_row [OF j(1), of cur m] sge_context_row [OF u j(2), of m]
      by (auto simp: token_rows_def token_holder_def set_default_lookup split: option.splits)
  qed
qed (simp add: token_holder_def split: option.splits)

lemma token_rows_plain:
  assumes "legible_job j" "l \<in> set (token_rows f j)"
  shows "one_line l \<and> \<not> prefix SCHED_ACK_PREFIX l"
proof -
  have n: "one_line ''(null)''" "one_line ''job_number:                 ''" "one_line ''context:                    HPC_TOKEN=''"
    "\<not> line_break (CHR ''|'')" by code_simp+
  have j: "one_line (qj_id j)" using assms(1) job_number_word one_word_one_line by (simp add: legible_job_def)
  have t: "one_line t" if "qj_token j = Some t" for t using assms(1) that one_word_one_line by (simp add: legible_job_def)
  obtain c s where cs: "qj_id j = c # s" "digit c" using assms(1) by (cases "qj_id j") (auto simp: legible_job_def job_number_def)
  then have "c \<noteq> CHR ''_''" by (auto simp: digit_def)
  then have i: "\<not> prefix SCHED_ACK_PREFIX (qj_id j @ r)" for r by (auto simp: cs SCHED_ACK_PREFIX_def)
  have s: "\<not> prefix SCHED_ACK_PREFIX (''job_number:                 '' @ r)" "\<not> prefix SCHED_ACK_PREFIX (''context:                    HPC_TOKEN='' @ r)" for r
    by (simp_all add: SCHED_ACK_PREFIX_def)
  have o: "one_line (''job_number:                 '' @ qj_id j)" using n j by (simp only: one_line_append)
  have o': "one_line (''context:                    HPC_TOKEN='' @ t)" if "qj_token j = Some t" for t
    using n t [OF that] by (simp only: one_line_append)
  have o'': "one_line (qj_id j @ ''|'' @ (case qj_token j of None \<Rightarrow> ''(null)'' | Some t \<Rightarrow> t))"
    using n j t by (simp split: option.splits)
  consider "l = qj_id j @ ''|'' @ (case qj_token j of None \<Rightarrow> ''(null)'' | Some t \<Rightarrow> t)" | "l = ''job_number:                 '' @ qj_id j"
    | t where "qj_token j = Some t" "l = ''context:                    HPC_TOKEN='' @ t"
    using assms(2) unfolding token_rows_def by (cases "qj_token j") (auto split: if_splits)
  then show ?thesis using i s o o' o'' by cases metis+
qed

text \<open>On the families that carry the token, the query over the queue as the scheduler
  prints it ran, and finds for a token the first queued job that carries it.\<close>

lemma token_query_reads:
  assumes "list_all legible_job (sc_jobs c)" "f = Slurm \<or> f = Sge" "\<not> prefix ''(null)'' t"
  shows "\<exists>rows. scheduler_query_ran f (printed (token_lines f c)) = (rows, True)
    \<and> map_of (parse_token_query f rows) t = token_holder t (sc_jobs c)"
proof -
  let ?rows = "concat (map (token_rows f) (sc_jobs c))"
  have "list_all (\<lambda>l. one_line l \<and> \<not> prefix SCHED_ACK_PREFIX l) ?rows"
    using token_rows_plain assms(1) by (fastforce simp: list_all_iff)
  then have "split_ack (printed (token_lines f c)) = (?rows, Some 0)"
    using ack_last [of ?rows 0] by (simp add: token_lines_def int_text_0)
  then have "scheduler_query_ran f (printed (token_lines f c)) = (?rows, True)" by (simp add: scheduler_query_ran_def)
  moreover have "map_of (parse_token_query f ?rows) t = token_holder t (sc_jobs c)"
    using assms slurm_scan [of "sc_jobs c" t "[]"] sge_scan [of "sc_jobs c" None "[]" t] by (auto simp: parse_token_query_def)
  ultimately show ?thesis by blast
qed

section \<open>The recovery over the state of the cluster\<close>

datatype recovery = StaysSubmitting | NeverDispatched | Adopts "string list"

definition landed :: "family \<Rightarrow> string \<Rightarrow> submit_cluster \<Rightarrow> string list" where
  "landed f rid c = sort (remdups (List.map_filter (\<lambda>(k, rc, out). if rc \<noteq> 0 then None else job_id_of f (blob out)) (sc_ids c rid)))"

definition carries_token :: "family \<Rightarrow> bool" where
  "carries_token f \<longleftrightarrow> f = Slurm \<or> f = Sge"

definition marker_attempt :: "(string \<Rightarrow> jval option) \<Rightarrow> live_run \<Rightarrow> string option \<Rightarrow> int" where
  "marker_attempt loads r m = (case jm_attempt (marker_of loads m no_jobmap) of None \<Rightarrow> lr_attempt r | Some a \<Rightarrow> a)"

definition recovery_of ::
  "family \<Rightarrow> (remote_call \<Rightarrow> bool) \<Rightarrow> string \<Rightarrow> int \<Rightarrow> submit_cluster \<Rightarrow> recovery" where
  "recovery_of f up rid attempt c =
     (if \<not> up (JobmapRead rid) then StaysSubmitting
      else if \<not> sc_dir c then (if up (AnnounceRead rid) \<and> \<not> sc_announced c rid then NeverDispatched else StaysSubmitting)
      else if landed f rid c \<noteq> [] then Adopts (landed f rid c)
      else if \<not> up TokenQuery then StaysSubmitting
      else
        (case (if carries_token f then token_holder (jobmap_token rid attempt) (sc_jobs c) else None) of
           Some j \<Rightarrow> Adopts [j] | None \<Rightarrow> NeverDispatched))"

definition legible :: "string \<Rightarrow> submit_cluster \<Rightarrow> bool" where
  "legible rid c \<longleftrightarrow> legible_marker (sc_marker c rid) \<and> list_all legible_entry (sc_ids c rid) \<and> distinct (map fst (sc_ids c rid))
     \<and> list_all legible_job (sc_jobs c)"

text \<open>The environment asks the rendered cluster, and clears the jobmap of a run that was not dispatched.\<close>

definition asks :: "submit_cluster recon_env \<Rightarrow> (remote_call \<Rightarrow> bool) \<Rightarrow> (remote_call \<Rightarrow> submit_cluster \<Rightarrow> ssh_answer) \<Rightarrow> bool" where
  "asks env up rest \<longleftrightarrow> re_call env = ask (re_family env) up rest \<and> re_clear env = clear_jobmap"

text \<open>The outcome as a record and a cluster.\<close>

definition recovered_as :: "recovery \<Rightarrow> string \<Rightarrow> live_run \<Rightarrow> submit_cluster \<Rightarrow> live_run \<Rightarrow> submit_cluster \<Rightarrow> bool" where
  "recovered_as v rid r0 c0 r c \<longleftrightarrow>
     lr_attempt r = lr_attempt r0 \<and> lr_evidence r = lr_evidence r0
     \<and> (case v of
          StaysSubmitting \<Rightarrow> run_status r = run_status r0 \<and> lr_job_ids r = lr_job_ids r0 \<and> c = c0
        | NeverDispatched \<Rightarrow> run_status r = ''abandoned'' \<and> lr_job_ids r = lr_job_ids r0 \<and> c = clear_jobmap rid c0
        | Adopts ids \<Rightarrow> run_status r = ''in_flight'' \<and> lr_job_ids r = ids \<and> c = c0)"

lemma token_not_null: "\<not> prefix ''(null)'' (jobmap_token rid a)" if "CHR ''('' \<notin> set rid"
  using that by (cases rid) (auto simp: jobmap_token_def)

lemma stay_outcome:
  assumes "rw_runs w rid = Some r0"
  shows "\<exists>r w'. stay_submitting rid note w = (Inr r, w') \<and> rw_runs w' = (rw_runs w)(rid := Some r)
    \<and> rw_harvests w' = rw_harvests w \<and> recovered_as StaysSubmitting rid r0 (rw_cluster w) r (rw_cluster w')"
  using assms by (simp add: stay_submitting_def set_status_def on_journal_def update_run_status_def Let_def recovered_as_def)

lemma statuses: "''in_flight'' \<in> set JOURNAL_STATUSES" "''abandoned'' \<in> set JOURNAL_STATUSES"
  by code_simp+

lemma resubmit_outcome:
  assumes "rw_runs w rid = Some r0" "re_clear env = clear_jobmap"
  shows "\<exists>r w'. safe_resubmit env rid note w = (Inr r, w') \<and> rw_runs w' = (rw_runs w)(rid := Some r)
    \<and> rw_harvests w' = rw_harvests w \<and> recovered_as NeverDispatched rid r0 (rw_cluster w) r (rw_cluster w')"
  using assms statuses
  by (simp add: safe_resubmit_def then_do_def set_status_def set_mark_def on_journal_def update_run_status_def mark_run_def Let_def recovered_as_def)

lemma adopt_outcome:
  assumes "rw_runs w rid = Some r0"
  shows "\<exists>r w'. adopt_and_promote env rid ids r0 w = (Inr r, w') \<and> rw_runs w' = (rw_runs w)(rid := Some r)
    \<and> rw_harvests w' = rw_harvests w \<and> recovered_as (Adopts ids) rid r0 (rw_cluster w) r (rw_cluster w')"
  using assms statuses
  by (simp add: adopt_and_promote_def then_do_def set_status_def set_mark_def on_journal_def update_run_status_def mark_run_def Let_def recovered_as_def)

lemma announce_reads_back:
  "read_announcements n (ask f up rest (AnnounceRead rid) c) =
    (if \<not> up (AnnounceRead rid) then None
     else if sc_announced c rid then Some \<lparr>an_present = True, an_announced = 0, an_complete = 0, an_failed = 0, an_missing = max 0 n\<rparr>
     else Some \<lparr>an_present = False, an_announced = 0, an_complete = 0, an_failed = 0, an_missing = max 0 n\<rparr>)"
proof -
  have s: "map py_strip (splitlines (printed [ANNOUNCE_ACK, ''complete=0'', ''failed=0''])) = [ANNOUNCE_ACK, ''complete=0'', ''failed=0'']"
    "splitlines (printed []) = []" by code_simp+
  have p: "parse_count ''complete='' [ANNOUNCE_ACK, ''complete=0'', ''failed=0''] = 0"
    "parse_count ''failed='' [ANNOUNCE_ACK, ''complete=0'', ''failed=0''] = 0" by code_simp+
  show ?thesis
  proof (cases "up (AnnounceRead rid)")
    case False then show ?thesis by (simp add: ask_def read_announcements_def)
  next
    case True
    show ?thesis
    proof (cases "sc_announced c rid")
      case a: True
      have l: "announce_lines rid c = [ANNOUNCE_ACK, ''complete=0'', ''failed=0'']" using a by (simp add: announce_lines_def)
      have e: "ask f up rest (AnnounceRead rid) c = Answered 0 (printed [ANNOUNCE_ACK, ''complete=0'', ''failed=0''])"
        using True by (simp add: ask_def l)
      show ?thesis unfolding e read_announcements_def ssh_answer.case Let_def s p using True a by simp
    next
      case a: False
      then show ?thesis using True by (simp add: ask_def read_announcements_def announce_lines_def Let_def s)
    qed
  qed
qed

lemma landed_read:
  assumes "jm_waves parsed = map (\<lambda>(k, rc, out). (k, blob out, rc)) (sc_ids c rid)"
  shows "sort (remdups (map snd (adoptable_wave_ids (job_id_of f) parsed))) = landed f rid c"
proof -
  have "map snd (List.map_filter (\<lambda>(wkey, b, rc). if rc \<noteq> 0 then None else map_option (Pair wkey) (job_id_of f b)) (map (\<lambda>(k, rc, out). (k, blob out, rc)) es))
    = List.map_filter (\<lambda>(k, rc, out). if rc \<noteq> 0 then None else job_id_of f (blob out)) es" for es :: "(string \<times> int \<times> string) list"
    by (induction es) (auto simp: map_filter_simps split: option.splits if_splits)
  then show ?thesis unfolding adoptable_wave_ids_def assms landed_def by metis
qed

lemma query_pbs:
  assumes "list_all legible_job js" "\<not> carries_token f"
  shows "scheduler_query_ran f (printed (token_lines f c)) = ([], True)"
proof -
  have "token_rows f = (\<lambda>j. [])" using assms(2) by (auto simp: token_rows_def carries_token_def)
  then have t: "token_lines f c = [] @ [SCHED_ACK_PREFIX @ int_text 0]"
    using int_text_0 by (simp add: token_lines_def)
  show ?thesis unfolding t scheduler_query_ran_def using ack_last [of "[]" 0] by simp
qed

lemma refined_recovery:
  assumes env: "asks env up rest" and leg: "legible rid (rw_cluster w)" and r0: "rw_runs w rid = Some r0"
    and act: "\<not> dispatch_never_actuated r0" and rid: "CHR ''('' \<notin> set rid"
  shows "\<exists>r w'. recover_submitting env rid r0 w = (Inr r, w') \<and> rw_runs w' = (rw_runs w)(rid := Some r)
    \<and> rw_harvests w' = rw_harvests w
    \<and> recovered_as (recovery_of (re_family env) up rid (marker_attempt (re_loads env) r0 (sc_marker (rw_cluster w) rid)) (rw_cluster w))
        rid r0 (rw_cluster w) r (rw_cluster w')"
proof -
  let ?c = "rw_cluster w" and ?f = "re_family env"
  let ?a = "marker_attempt (re_loads env) r0 (sc_marker ?c rid)"
  have call: "re_call env = ask ?f up rest" and clr: "re_clear env = clear_jobmap" using env by (auto simp: asks_def)
  note stay = stay_outcome [OF r0] and again = resubmit_outcome [where env = env, OF r0 clr] and adopt = adopt_outcome [where env = env, OF r0]
  have read: "parse_jobmap_read (re_loads env) (printed (jobmap_lines rid ?c)) =
    (if sc_dir ?c then (marker_of (re_loads env) (sc_marker ?c rid) (no_jobmap\<lparr>jm_present := True\<rparr>))
       \<lparr>jm_waves := map (\<lambda>(k, rc, out). (k, blob out, rc)) (sc_ids ?c rid)\<rparr> else no_jobmap)"
    using leg jobmap_reads [of ?c rid] by (simp add: legible_def)
  show ?thesis
  proof (cases "up (JobmapRead rid)")
    case False
    then show ?thesis using act stay by (simp add: recover_submitting_def call ask_def recovery_of_def)
  next
    case up: True
    then have j: "re_call env (JobmapRead rid) ?c = Answered 0 (printed (jobmap_lines rid ?c))" by (simp add: call ask_def)
    show ?thesis
    proof (cases "sc_dir ?c")
      case False
      have "recover_submitting env rid r0 w = rung2_never_dispatched env rid r0 w"
        using act by (simp add: recover_submitting_def j read False Let_def no_jobmap_def)
      then show ?thesis
        using stay again up False by (auto simp: rung2_never_dispatched_def call announce_reads_back recovery_of_def)
    next
      case dir: True
      let ?p = "parse_jobmap_read (re_loads env) (printed (jobmap_lines rid ?c))"
      have p: "jm_present ?p" "jm_waves ?p = map (\<lambda>(k, rc, out). (k, blob out, rc)) (sc_ids ?c rid)"
        by (simp_all add: read dir no_jobmap_def)
      have a: "(case jm_attempt ?p of None \<Rightarrow> lr_attempt r0 | Some a \<Rightarrow> a) = ?a"
        by (simp add: read dir marker_attempt_def marker_of_def read_marker_line_def no_jobmap_def split: option.splits jval.splits)
      have l: "recover_submitting env rid r0 w =
        (if landed ?f rid ?c \<noteq> [] then adopt_and_promote env rid (landed ?f rid ?c) r0 w
         else disambiguate_by_token env rid r0 (jobmap_token rid ?a) w)"
        using act p(1) a landed_read [OF p(2), of ?f] by (simp add: recover_submitting_def j Let_def)
      show ?thesis
      proof (cases "landed ?f rid ?c = []")
        case False
        then show ?thesis using l up dir adopt by (simp add: recovery_of_def)
      next
        case none: True
        show ?thesis
        proof (cases "up TokenQuery")
          case False
          then show ?thesis using l none up dir stay by (simp add: disambiguate_by_token_def call ask_def recovery_of_def)
        next
          case q: True
          obtain rows where rows: "scheduler_query_ran ?f (printed (token_lines ?f ?c)) = (rows, True)"
            "map_of (parse_token_query ?f rows) (jobmap_token rid ?a)
              = (if carries_token ?f then token_holder (jobmap_token rid ?a) (sc_jobs ?c) else None)"
          proof (cases "carries_token ?f")
            case True
            then show thesis
              using token_query_reads [of ?c ?f "jobmap_token rid ?a"] token_not_null [OF rid, of ?a] leg that
              by (auto simp: carries_token_def legible_def)
          next
            case False
            then show thesis using query_pbs [OF _ False] leg that [of "[]"]
              by (auto simp: carries_token_def legible_def parse_token_query_def)
          qed
          have h: "hit \<noteq> []" if "token_holder t (sc_jobs ?c) = Some hit" for t hit
            using that leg by (auto simp: token_holder_def legible_def legible_job_def job_number_def list_all_iff find_Some_iff)
          have "disambiguate_by_token env rid r0 (jobmap_token rid ?a) w =
            (case (if carries_token ?f then token_holder (jobmap_token rid ?a) (sc_jobs ?c) else None) of
               Some hit \<Rightarrow> adopt_and_promote env rid [hit] r0 w
             | None \<Rightarrow> safe_resubmit env rid ''token query clean-miss: array never entered the scheduler queue'' w)"
            using q rows h by (auto simp: disambiguate_by_token_def call ask_def split: option.splits)
          then show ?thesis using l none up dir q again adopt by (simp add: recovery_of_def split: option.splits)
        qed
      qed
    qed
  qed
qed

text \<open>C5: (recovery refines its specification) For a record in \<open>submitting\<close> whose dispatch may have been sent, reconciling
  computes \<open>recovery_of\<close> of the state of the cluster: through the texts of the jobmap, of the announcements and of the
  token query, on all four families, with any of the reads severed. It returns a record, replaces that record only,
  and leaves the harvests alone.\<close>

theorem recovery_refines:
  assumes "asks env up rest" "legible rid (rw_cluster w)" "rw_runs w rid = Some r0" "run_status r0 = ''submitting''"
    "\<not> dispatch_never_actuated r0" "CHR ''('' \<notin> set rid"
  shows "\<exists>r w'. reconcile_one env rid w = (Inr (Reconciled r), w') \<and> rw_runs w' = (rw_runs w)(rid := Some r)
    \<and> rw_harvests w' = rw_harvests w
    \<and> recovered_as (recovery_of (re_family env) up rid (marker_attempt (re_loads env) r0 (sc_marker (rw_cluster w) rid)) (rw_cluster w))
        rid r0 (rw_cluster w) r (rw_cluster w')"
  using refined_recovery [OF assms(1,2,3,5,6)] assms(3,4) by (auto simp: reconcile_one_def then_do_def)

section \<open>A submitter that dies\<close>

definition plain_run_id :: "string \<Rightarrow> bool" where
  "plain_run_id rid \<longleftrightarrow> list_all (\<lambda>c. \<not> is_space c \<and> c \<noteq> CHR '','' \<and> c \<noteq> CHR ''('') rid"

text \<open>What the scheduler prints for an accepted array names its job.\<close>

definition names_job :: "family \<Rightarrow> string \<Rightarrow> string \<Rightarrow> bool" where
  "names_job f out j \<longleftrightarrow> job_number j \<and> list_all (\<lambda>c. line_break c \<longrightarrow> c = CHR 0x0A) out \<and> job_id_of f (blob out) = Some j"

text \<open>Nothing of the run is on the cluster, and no job in the queue carries a token of the run.\<close>

definition clean_for :: "string \<Rightarrow> submit_cluster \<Rightarrow> bool" where
  "clean_for rid c \<longleftrightarrow> live_jobs rid c = [] \<and> sc_ids c rid = [] \<and> sc_marker c rid = None
     \<and> list_all (\<lambda>j. legible_job j \<and> (case qj_token j of None \<Rightarrow> True | Some t \<Rightarrow> \<not> prefix (rid @ ''#'') t)) (sc_jobs c)"

definition at_mint :: "live_run \<Rightarrow> bool" where
  "at_mint r \<longleftrightarrow> run_status r = ''submitting'' \<and> dispatch_never_actuated r \<and> lr_job_ids r = []"

lemma minted_state:
  assumes "mint_submitting_record q now due runs = (Minted r0, runs')"
  shows "\<exists>r. runs' = runs(mr_run q := Some r) \<and> at_mint r \<and> lr_attempt r = lr_attempt r0
    \<and> lr_attempt r0 = allocate_attempt (runs (mr_run q)) 0"
proof -
  have "mint_decide q now (runs (mr_run q)) = Inr (Some (submitting_record q (allocate_attempt (runs (mr_run q)) 0) now)) \<and> r0 = submitting_record q (allocate_attempt (runs (mr_run q)) 0) now
    \<and> runs' = runs(mr_run q := Some (r0\<lparr>lr_last_tick := Some now, lr_next_due := Some due\<rparr>))"
    using assms by (auto simp: mint_submitting_record_def upsert_run_compare_and_mint_def mint_decide_def stamp_run_tick_def
        update_run_record_def split: sum.splits option.splits mint_answer.splits layer1_action.splits)
  then show ?thesis
    by (auto simp: at_mint_def submitting_record_def dispatch_never_actuated_def pending_evidence_def jget_def)
qed

lemma minted_where: "mint_submitting_record q now due runs = (Minted r0, runs') \<Longrightarrow> runs' (mr_run q) \<noteq> None"
  using minted_state by fastforce

text \<open>The record and the cluster after \<open>k\<close> steps of a leg with one wave.\<close>

definition record_after :: "leg \<Rightarrow> string \<Rightarrow> nat \<Rightarrow> live_run \<Rightarrow> live_run" where
  "record_after l j k r =
     (let r = (if k \<ge> 1 then r\<lparr>lr_evidence := [(''state'', JText ''actuated''), (''at'', JText (lg_now l))]\<rparr> else r);
          r = (if k \<ge> 5 then r\<lparr>lr_job_ids := [j], lr_accepted_at := Some (lg_now l)\<rparr> else r)
      in if k \<ge> 6 then r\<lparr>run_status := ''in_flight''\<rparr> else r)"

definition cluster_after :: "leg \<Rightarrow> string \<Rightarrow> string \<Rightarrow> nat \<Rightarrow> submit_cluster \<Rightarrow> submit_cluster" where
  "cluster_after l j out k c =
     (let c = (if k \<ge> 2 then pre_dispatch (lg_run l) (lg_attempt l) (lg_epoch l) c else c);
          c = (if k \<ge> 3 then queue_job (lg_family l) (lg_run l) (lg_attempt l) j c else c)
      in if k \<ge> 4 then post_dispatch (lg_run l) (wave_key 0) 0 out c else c)"

lemma up_to_six: "k \<le> 6 \<Longrightarrow> k \<in> {0, 1, 2, 3, 4, 5, 6 :: nat}"
  by auto

lemma leg_after:
  assumes "k \<le> 6" "rw_runs w (lg_run l) = Some r"
  shows "perform l (take k (submit_actions [Accepts j out])) w =
    w\<lparr>rw_runs := (rw_runs w)(lg_run l := Some (record_after l j k r)), rw_cluster := cluster_after l j out k (rw_cluster w)\<rparr>"
proof -
  have id: "w = w\<lparr>rw_runs := (rw_runs w)(lg_run l := Some r), rw_cluster := rw_cluster w\<rparr>"
    using assms(2) by (cases w) (simp add: fun_upd_idem)
  show ?thesis
    using up_to_six [OF assms(1)] assms(2) id statuses
    by (auto simp: submit_actions_def record_after_def cluster_after_def Let_def on_record_def on_cluster_def stamp_dispatch_actuated_def
        update_run_record_def update_run_status_def mark_run_def numeral_eq_Suc)
qed

lemma plain_token: "plain_run_id rid \<Longrightarrow> one_word (jobmap_token rid a)" "plain_run_id rid \<Longrightarrow> CHR '','' \<notin> set (jobmap_token rid a)"
  "plain_run_id rid \<Longrightarrow> CHR ''('' \<notin> set rid"
proof -
  assume rid: "plain_run_id rid"
  then show "one_word (jobmap_token rid a)" "CHR ''('' \<notin> set rid"
    using int_text_one_word [of a] by (auto simp: plain_run_id_def jobmap_token_def one_word_def list_all_iff is_space_def)
  have "CHR '','' \<notin> set (int_text a)" using dec_digits [of "CHR '',''"] by (auto simp: int_text_def)
  then show "CHR '','' \<notin> set (jobmap_token rid a)" using rid by (auto simp: plain_run_id_def jobmap_token_def list_all_iff)
qed

lemma marker_legible: "plain_run_id rid \<Longrightarrow> legible_marker (Some (marker_text rid a e))"
proof -
  assume rid: "plain_run_id rid"
  have o: "one_line (jobmap_token rid a)" "one_line (int_text a)" "one_line (int_text e)"
    using plain_token(1) [OF rid] int_text_one_word one_word_one_line by blast+
  have "one_line ''{\"token\":\"''" "one_line ''\",\"state\":\"pending\",\"attempt\":''" "one_line '',\"at\":''" "one_line '',\"waves\":{}}''"
    by code_simp+
  then have "one_line (marker_text rid a e)" unfolding marker_text_def using o by (simp only: one_line_append)
  moreover have "py_strip (marker_text rid a e) = marker_text rid a e"
    by (intro strip_ends) (simp_all add: marker_text_def is_space_def)
  ultimately show ?thesis by (simp add: legible_marker_def marker_text_def)
qed

lemma wave_key_word: "one_word (wave_key n)"
  using dec_one_word [of n] by (simp add: one_word_def wave_key_def is_space_def)

lemma clean_legible: "clean_for rid c \<Longrightarrow> legible rid c"
  by (auto simp: clean_for_def legible_def legible_marker_def list_all_iff)

lemma legible_after:
  assumes "clean_for (lg_run l) c" "plain_run_id (lg_run l)" "names_job (lg_family l) out j"
  shows "legible (lg_run l) (cluster_after l j out k c)"
proof -
  have n: "legible_job \<lparr>qj_id = j, qj_run = lg_run l, qj_token = correlation_token (lg_family l) (lg_run l) (lg_attempt l)\<rparr>"
    using assms(3) plain_token [OF assms(2)] token_not_null by (auto simp: legible_job_def names_job_def correlation_token_def)
  have w: "legible_entry (wave_key 0, 0, out)" using assms(3) wave_key_word by (simp add: legible_entry_def names_job_def)
  have "list_all legible_job (sc_jobs c)" using assms(1) by (auto simp: clean_for_def list_all_iff)
  with n w show ?thesis
    using assms(1) marker_legible [OF assms(2)]
    by (auto simp: legible_def cluster_after_def Let_def pre_dispatch_def queue_job_def post_dispatch_def clean_for_def legible_marker_def)
qed

lemma no_holder: "clean_for rid c \<Longrightarrow> token_holder (jobmap_token rid a) (sc_jobs c) = None"
  by (fastforce simp: clean_for_def token_holder_def list_all_iff find_None_iff jobmap_token_def)

lemma holder_after: "token_holder t js = None \<Longrightarrow>
  token_holder t (js @ [\<lparr>qj_id = j, qj_run = r, qj_token = Some u\<rparr>]) = (if u = t then Some j else None)"
  by (induction js) (auto simp: token_holder_def split: if_splits)

text \<open>The specification after \<open>k\<close> steps: a reading that was severed, or the truth.\<close>

lemma recovery_after:
  assumes c: "clean_for (lg_run l) c" and j: "names_job (lg_family l) out j" and f: "carries_token (lg_family l)"
    and k: "1 \<le> k" "k \<le> 5"
  shows "recovery_of (lg_family l) up (lg_run l) (lg_attempt l) (cluster_after l j out k c)
      = (let verdict = (if k < 3 then NeverDispatched else Adopts [j])
         in if \<not> up (JobmapRead (lg_run l)) then StaysSubmitting
            else if k = 1 \<and> \<not> sc_dir c then (if up (AnnounceRead (lg_run l)) \<and> \<not> sc_announced c (lg_run l) then verdict else StaysSubmitting)
            else if k < 4 \<and> \<not> up TokenQuery then StaysSubmitting else verdict)"
proof -
  have k: "k \<in> {1, 2, 3, 4, 5}" using k by auto
  have ids: "sc_ids c (lg_run l) = []" using c by (simp add: clean_for_def)
  have "job_id_of (lg_family l) (blob out) = Some j" using j by (simp add: names_job_def)
  then have e: "landed (lg_family l) (lg_run l) (cluster_after l j out k c) = (if k \<ge> 4 then [j] else [])"
    using k ids by (auto simp: landed_def cluster_after_def Let_def pre_dispatch_def queue_job_def post_dispatch_def map_filter_simps)
  have t: "correlation_token (lg_family l) (lg_run l) (lg_attempt l) = Some (jobmap_token (lg_run l) (lg_attempt l))"
    using f by (simp add: correlation_token_def carries_token_def)
  have "token_holder (jobmap_token (lg_run l) (lg_attempt l)) (sc_jobs (cluster_after l j out k c)) = (if k \<ge> 3 then Some j else None)"
    using k no_holder [OF c] holder_after [OF no_holder [OF c]]
    by (auto simp: cluster_after_def Let_def pre_dispatch_def queue_job_def post_dispatch_def t)
  moreover have "sc_dir (cluster_after l j out k c) = (sc_dir c \<or> k \<ge> 2)" "sc_announced (cluster_after l j out k c) = sc_announced c"
    by (auto simp: cluster_after_def Let_def pre_dispatch_def queue_job_def post_dispatch_def)
  ultimately show ?thesis using k e f by (auto simp: recovery_of_def Let_def)
qed

lemma live_after:
  assumes "clean_for (lg_run l) c"
  shows "live_jobs (lg_run l) (cluster_after l j out k c) = (if k \<ge> 3 then [j] else [])"
  using assms by (auto simp: clean_for_def live_jobs_def cluster_after_def Let_def pre_dispatch_def queue_job_def post_dispatch_def)

text \<open>\<open>json.loads\<close> reads the attempt out of every marker of the run.\<close>

definition reads_markers :: "(string \<Rightarrow> jval option) \<Rightarrow> string \<Rightarrow> bool" where
  "reads_markers loads rid \<longleftrightarrow>
     (\<forall>a e. \<exists>d. loads (marker_text rid a e) = Some (JDict d) \<and> jget d ''attempt'' = JInt a)"

lemma marker_after:
  assumes "clean_for (lg_run l) c" "lr_attempt r = lg_attempt l" "reads_markers loads (lg_run l)"
  shows "marker_attempt loads r (sc_marker (cluster_after l j out k c) (lg_run l)) = lg_attempt l"
proof -
  obtain d where "loads (marker_text (lg_run l) (lg_attempt l) (lg_epoch l)) = Some (JDict d)" "jget d ''attempt'' = JInt (lg_attempt l)"
    using assms(3) by (auto simp: reads_markers_def)
  then show ?thesis
    using assms(1,2)
    by (auto simp: marker_attempt_def marker_of_def cluster_after_def Let_def pre_dispatch_def queue_job_def post_dispatch_def clean_for_def
        read_marker_line_def no_jobmap_def)
qed

lemma never_actuated_outcome:
  assumes "rw_runs w rid = Some r0" "run_status r0 = ''submitting''" "dispatch_never_actuated r0"
  shows "\<exists>r w'. reconcile_one env rid w = (Inr (Reconciled r), w') \<and> rw_runs w' = (rw_runs w)(rid := Some r)
    \<and> rw_harvests w' = rw_harvests w \<and> rw_cluster w' = rw_cluster w \<and> lr_attempt r = lr_attempt r0 \<and> run_status r = ''abandoned''"
  using assms statuses
  by (simp add: reconcile_one_def recover_submitting_def never_actuated_abandon_def then_do_def set_status_def set_mark_def on_journal_def
      update_run_status_def mark_run_def Let_def)

text \<open>A leg that was left after \<open>k\<close> steps.\<close>

definition left_after :: "nat \<Rightarrow> leg \<Rightarrow> string \<Rightarrow> string \<Rightarrow> submit_cluster \<Rightarrow> live_run \<Rightarrow> submit_world \<Rightarrow> bool" where
  "left_after k l j out c r w \<longleftrightarrow>
     k \<le> 5 \<and> names_job (lg_family l) out j \<and> clean_for (lg_run l) c \<and> rw_cluster w = cluster_after l j out k c
     \<and> rw_runs w (lg_run l) = Some r \<and> run_status r = ''submitting'' \<and> lr_attempt r = lg_attempt l
     \<and> (dispatch_never_actuated r \<longleftrightarrow> k = 0)"

lemma clean_cleared: "clean_for rid c \<Longrightarrow> k < 3 \<Longrightarrow> lg_run l = rid \<Longrightarrow> clean_for rid (clear_jobmap rid (cluster_after l j out k c))"
  by (auto simp: clean_for_def clear_jobmap_def cluster_after_def Let_def pre_dispatch_def live_jobs_def)

lemma reconcile_left:
  assumes l: "left_after k l j out c r0 w" and env: "asks env up rest" "re_family env = lg_family l" "carries_token (lg_family l)"
    and rid: "plain_run_id (lg_run l)" and loads: "reads_markers (re_loads env) (lg_run l)"
  shows "\<exists>r w'. reconcile_one env (lg_run l) w = (Inr (Reconciled r), w') \<and> rw_runs w' = (rw_runs w)(lg_run l := Some r)
    \<and> (run_status r = ''submitting'' \<and> left_after k l j out c r w' \<and> \<not> (\<forall>call. up call)
       \<or> run_status r = ''submitting'' \<and> left_after k l j out c r w' \<and> sc_announced c (lg_run l)
       \<or> run_status r = ''abandoned'' \<and> k < 3 \<and> clean_for (lg_run l) (rw_cluster w')
       \<or> run_status r = ''in_flight'' \<and> 3 \<le> k \<and> lr_job_ids r = [j] \<and> rw_cluster w' = rw_cluster w)"
proof (cases "k = 0")
  case True
  then have "rw_cluster w = c" "clean_for (lg_run l) c" using l by (simp_all add: left_after_def cluster_after_def)
  then show ?thesis using never_actuated_outcome [of w "lg_run l" r0 env] l True by (auto simp: left_after_def)
next
  case False
  let ?c = "cluster_after l j out k c"
  have k: "1 \<le> k" "k \<le> 5" and c: "clean_for (lg_run l) c" and j: "names_job (lg_family l) out j" and w: "rw_cluster w = ?c"
    and r0: "rw_runs w (lg_run l) = Some r0" "run_status r0 = ''submitting''" "\<not> dispatch_never_actuated r0" "lr_attempt r0 = lg_attempt l"
    using l False by (simp_all add: left_after_def)
  have leg: "legible (lg_run l) (rw_cluster w)" unfolding w by (rule legible_after [OF c rid j])
  have a: "marker_attempt (re_loads env) r0 (sc_marker (rw_cluster w) (lg_run l)) = lg_attempt l"
    unfolding w by (rule marker_after [OF c r0(4) loads])
  obtain r w' where out: "recover_submitting env (lg_run l) r0 w = (Inr r, w')" "rw_runs w' = (rw_runs w)(lg_run l := Some r)"
    and v: "recovered_as (recovery_of (lg_family l) up (lg_run l) (lg_attempt l) ?c) (lg_run l) r0 ?c r (rw_cluster w')"
    using refined_recovery [OF env(1) leg r0(1,3) plain_token(3) [OF rid]] a env(2) w by auto
  have one: "reconcile_one env (lg_run l) w = (Inr (Reconciled r), w')" using out r0 by (simp add: reconcile_one_def then_do_def)
  have e: "lr_evidence r = lr_evidence r0" "lr_attempt r = lr_attempt r0" using v by (simp_all add: recovered_as_def)
  have spec: "recovery_of (lg_family l) up (lg_run l) (lg_attempt l) ?c = StaysSubmitting \<and> (\<not> (\<forall>call. up call) \<or> sc_announced c (lg_run l))
    \<or> recovery_of (lg_family l) up (lg_run l) (lg_attempt l) ?c = (if k < 3 then NeverDispatched else Adopts [j])"
    unfolding recovery_after [OF c j env(3) k] by (auto simp: Let_def)
  have stay: "left_after k l j out c r w'" if "recovery_of (lg_family l) up (lg_run l) (lg_attempt l) ?c = StaysSubmitting"
    using that v e l out(2) r0 w by (simp add: recovered_as_def left_after_def dispatch_never_actuated_def)
  have st: "run_status r = ''submitting''" if "recovery_of (lg_family l) up (lg_run l) (lg_attempt l) ?c = StaysSubmitting"
    using that v r0 by (simp add: recovered_as_def)
  have fin: "run_status r = ''abandoned'' \<and> k < 3 \<and> clean_for (lg_run l) (rw_cluster w') \<or> run_status r = ''in_flight'' \<and> 3 \<le> k \<and> lr_job_ids r = [j] \<and> rw_cluster w' = rw_cluster w"
    if "recovery_of (lg_family l) up (lg_run l) (lg_attempt l) ?c = (if k < 3 then NeverDispatched else Adopts [j])"
    using that v clean_cleared [OF c, of k l j out] w by (auto simp: recovered_as_def split: if_splits)
  show ?thesis using one out(2) spec stay st fin by blast
qed

lemma submit_leaves:
  assumes m: "submit_main f q now due epoch [Accepts j out] k w = (Minted r0, w1)" and k: "k \<le> 5"
    and c: "clean_for (mr_run q) (rw_cluster w)" and j: "names_job f out j"
  shows "\<exists>r l. lg_run l = mr_run q \<and> lg_family l = f \<and> left_after k l j out (rw_cluster w) r w1"
proof -
  obtain runs where mint: "mint_submitting_record q now due (rw_runs w) = (Minted r0, runs)"
    using m by (auto simp: submit_main_def split: prod.splits mint_answer.splits)
  obtain r where r: "runs = (rw_runs w)(mr_run q := Some r)" "at_mint r" "lr_attempt r = lr_attempt r0"
    using minted_state [OF mint] by blast
  let ?l = "\<lparr>lg_family = f, lg_run = mr_run q, lg_attempt = lr_attempt r0, lg_now = now, lg_epoch = epoch\<rparr>"
  have w1: "w1 = w\<lparr>rw_runs := runs(mr_run q := Some (record_after ?l j k r)), rw_cluster := cluster_after ?l j out k (rw_cluster w)\<rparr>"
    using m mint leg_after [of k "w\<lparr>rw_runs := runs\<rparr>" ?l r j out] r(1) k by (simp add: submit_main_def)
  have "left_after k ?l j out (rw_cluster w) (record_after ?l j k r) w1"
    using k c j r by (auto simp: left_after_def w1 record_after_def Let_def at_mint_def dispatch_never_actuated_def jget_def)
  then show ?thesis by (metis leg.select_convs(1,2))
qed


section \<open>Attempt after attempt\<close>

text \<open>
  One submitter at a time: the run is submitted, its submitter dies or finishes, a record that is left in
  \<open>submitting\<close> is reconciled as often as one likes, with other reads severed each time, and the run is submitted again.
\<close>

inductive attempts :: "family \<Rightarrow> string \<Rightarrow> submit_world \<Rightarrow> bool" for f rid where
  fresh: "rw_runs w rid = None \<Longrightarrow> clean_for rid (rw_cluster w) \<Longrightarrow> attempts f rid w"
| submitted: "attempts f rid w \<Longrightarrow> mr_run q = rid \<Longrightarrow> names_job f out j
    \<Longrightarrow> submit_main f q now due epoch [Accepts j out] k w = (answer, w') \<Longrightarrow> attempts f rid w'"
| reconciled: "attempts f rid w \<Longrightarrow> rw_runs w rid = Some r \<Longrightarrow> run_status r = ''submitting'' \<Longrightarrow> asks env up rest
    \<Longrightarrow> re_family env = f \<Longrightarrow> reads_markers (re_loads env) rid \<Longrightarrow> reconcile_one env rid w = (res, w') \<Longrightarrow> attempts f rid w'"

definition settled_attempts :: "family \<Rightarrow> string \<Rightarrow> submit_world \<Rightarrow> bool" where
  "settled_attempts f rid w \<longleftrightarrow>
     (case rw_runs w rid of None \<Rightarrow> True | Some r \<Rightarrow> run_status r = ''abandoned'') \<and> clean_for rid (rw_cluster w)
     \<or> (\<exists>k l j out c r. left_after k l j out c r w \<and> lg_run l = rid \<and> lg_family l = f)
     \<or> (\<exists>r j. rw_runs w rid = Some r \<and> run_status r = ''in_flight'' \<and> lr_job_ids r = [j] \<and> live_jobs rid (rw_cluster w) = [j])"

lemma status_truncate [simp]: "run_status (run_record.truncate r) = run_status r"
  by (simp add: run_record.truncate_def)

lemma minted_over:
  assumes "mint_submitting_record q now due runs = (Minted r0, runs')" "runs (mr_run q) = Some r"
  shows "run_status r \<notin> {''submitting'', ''in_flight''}"
  using assms
  by (auto simp: mint_submitting_record_def upsert_run_compare_and_mint_def mint_decide_def resolve_layer1_def decided_def
      is_resubmittable_terminal_def TERMINAL_STATUSES_def split: if_splits sum.splits option.splits mint_answer.splits layer1_action.splits)

lemma not_minted:
  assumes "mint_submitting_record q now due runs = (answer, runs')" "\<And>r. answer \<noteq> Minted r"
  shows "runs' = runs"
  using assms
  by (auto simp: mint_submitting_record_def upsert_run_compare_and_mint_def split: sum.splits option.splits mint_answer.splits)

lemma finished_leg:
  assumes "submit_main f q now due epoch [Accepts j out] k w = (Minted r0, w1)" "6 \<le> k" "clean_for (mr_run q) (rw_cluster w)"
  shows "\<exists>r. rw_runs w1 (mr_run q) = Some r \<and> run_status r = ''in_flight'' \<and> lr_job_ids r = [j] \<and> live_jobs (mr_run q) (rw_cluster w1) = [j]"
proof -
  obtain runs where mint: "mint_submitting_record q now due (rw_runs w) = (Minted r0, runs)"
    using assms(1) by (auto simp: submit_main_def split: prod.splits mint_answer.splits)
  obtain r where r: "runs = (rw_runs w)(mr_run q := Some r)" using minted_state [OF mint] by blast
  let ?l = "\<lparr>lg_family = f, lg_run = mr_run q, lg_attempt = lr_attempt r0, lg_now = now, lg_epoch = epoch\<rparr>"
  have "take k (submit_actions [Accepts j out]) = take 6 (submit_actions [Accepts j out])"
    using assms(2) by (simp add: submit_actions_def)
  then have "w1 = w\<lparr>rw_runs := runs(mr_run q := Some (record_after ?l j 6 r)), rw_cluster := cluster_after ?l j out 6 (rw_cluster w)\<rparr>"
    using assms(1) mint leg_after [of 6 "w\<lparr>rw_runs := runs\<rparr>" ?l r j out] r by (simp add: submit_main_def)
  then show ?thesis using live_after [of ?l "rw_cluster w" j out 6] assms(3) by (simp add: record_after_def)
qed

lemma settled_start: "rw_runs w rid = None \<Longrightarrow> clean_for rid (rw_cluster w) \<Longrightarrow> settled_attempts f rid w"
  by (simp add: settled_attempts_def)

lemma settled_submit:
  assumes inv: "settled_attempts f rid w" and q: "mr_run q = rid" and j: "names_job f out j"
    and m: "submit_main f q now due epoch [Accepts j out] k w = (answer, w')"
  shows "settled_attempts f rid w'"
proof (cases "\<exists>r0. answer = Minted r0")
  case True
  then obtain r0 where a: "answer = Minted r0" by blast
  obtain runs where mint: "mint_submitting_record q now due (rw_runs w) = (Minted r0, runs)"
    using m a by (auto simp: submit_main_def split: prod.splits mint_answer.splits)
  have c: "clean_for (mr_run q) (rw_cluster w)"
    using inv minted_over [OF mint] q by (auto simp: settled_attempts_def left_after_def)
  show ?thesis
  proof (cases "k \<le> 5")
    case True
    show ?thesis using submit_leaves [OF m [unfolded a] True c j] q unfolding settled_attempts_def by metis
  next
    case False
    then show ?thesis using finished_leg [OF m [unfolded a] _ c] q unfolding settled_attempts_def by auto
  qed
next
  case False
  obtain ans runs where mint: "mint_submitting_record q now due (rw_runs w) = (ans, runs)" by (metis surj_pair)
  then have "ans \<noteq> Minted r" for r using m False by (auto simp: submit_main_def split: mint_answer.splits)
  then have "w' = w" using m mint not_minted [OF mint] by (auto simp: submit_main_def split: mint_answer.splits)
  then show ?thesis using inv by simp
qed

lemma settled_reconcile:
  assumes inv: "settled_attempts f rid w" and r: "rw_runs w rid = Some r" "run_status r = ''submitting''"
    and env: "asks env up rest" "re_family env = f" "reads_markers (re_loads env) rid" and rid: "plain_run_id rid" "carries_token f"
    and m: "reconcile_one env rid w = (res, w')"
  shows "settled_attempts f rid w'"
proof -
  obtain k l j out c r0 where l: "left_after k l j out c r0 w" "lg_run l = rid" "lg_family l = f"
    using inv r by (auto simp: settled_attempts_def)
  obtain r' where o: "rw_runs w' = (rw_runs w)(rid := Some r')"
    and d: "run_status r' = ''submitting'' \<and> left_after k l j out c r' w'
       \<or> run_status r' = ''abandoned'' \<and> clean_for rid (rw_cluster w')
       \<or> run_status r' = ''in_flight'' \<and> 3 \<le> k \<and> lr_job_ids r' = [j] \<and> rw_cluster w' = rw_cluster w"
    using reconcile_left [OF l(1) env(1)] env rid l(2,3) m by auto
  have "live_jobs rid (rw_cluster w) = (if 3 \<le> k then [j] else [])"
    using l live_after [of l c j out k] by (auto simp: left_after_def)
  then have v: "live_jobs rid (rw_cluster w') = [j]" if "3 \<le> k" "rw_cluster w' = rw_cluster w" using that by simp
  have r': "rw_runs w' rid = Some r'" using o by simp
  from d show ?thesis
  proof (elim disjE conjE)
    assume "left_after k l j out c r' w'"
    then show ?thesis unfolding settled_attempts_def using l(2,3) by blast
  qed (use r' v in \<open>simp_all add: settled_attempts_def\<close>)
qed

lemma settled_reachable: "attempts f rid w \<Longrightarrow> plain_run_id rid \<Longrightarrow> carries_token f \<Longrightarrow> settled_attempts f rid w"
proof (induction rule: attempts.induct)
  case (fresh w) then show ?case by (intro settled_start)
next
  case (submitted w q out j now due epoch k answer w') then show ?case using settled_submit by blast
next
  case (reconciled w r env up rest res w') then show ?case using settled_reconcile by blast
qed

lemma settled_one: "settled_attempts f rid w \<Longrightarrow> length (live_jobs rid (rw_cluster w)) \<le> 1"
  using live_after by (auto simp: settled_attempts_def clean_for_def left_after_def)


section \<open>A concrete run\<close>

definition sample_cluster :: submit_cluster where
  "sample_cluster = \<lparr>sc_dir = False, sc_marker = (\<lambda>r. None), sc_ids = (\<lambda>r. []), sc_jobs = [], sc_announced = (\<lambda>r. False)\<rparr>"

definition sample_world :: submit_world where
  "sample_world = \<lparr>rw_runs = (\<lambda>r. None), rw_cluster = sample_cluster, rw_harvests = (\<lambda>r. [])\<rparr>"

definition sample_request :: mint_request where
  "sample_request = \<lparr>mr_run = ''r'', mr_cluster = ''c'', mr_total = 4, mr_campaign = [], mr_auto_resume = False, mr_max_resumes = 2,
     mr_auto_recover = False, mr_max_recovers = 2\<rparr>"

text \<open>Reads the attempt behind the number sign of the token.\<close>

definition sample_loads :: "string \<Rightarrow> jval option" where
  "sample_loads t = map_option (\<lambda>n. JDict [(''attempt'', JInt n)]) (py_int_of_text (before (CHR 0x22) (past (CHR ''#'') t)))"

definition sample_recon :: "family \<Rightarrow> (remote_call \<Rightarrow> bool) \<Rightarrow> submit_cluster recon_env" where
  "sample_recon f up =
     \<lparr>re_family = f, re_needs_ssh = True, re_call = ask f up (\<lambda>call c. Severed), re_clear = clear_jobmap, re_loads = sample_loads,
      re_report = (\<lambda>r c. None), re_features = (\<lambda>r ids c. []), re_api_alive = (\<lambda>r c. None), re_api_tasks = (\<lambda>r c. NoTaskStatuses),
      re_sidecar = (\<lambda>r. None), re_harvest = (\<lambda>cause r c. None), re_now = []\<rparr>"

lemma sample_asks: "asks (sample_recon f up) up (\<lambda>call c. Severed)" "re_family (sample_recon f up) = f" "re_loads (sample_recon f up) = sample_loads"
  by (simp_all add: asks_def sample_recon_def)

lemma sample_reads: "reads_markers sample_loads ''r''"
  unfolding reads_markers_def
proof (intro allI)
  fix a e
  have q: "CHR 0x22 \<notin> set (int_text a)" using dec_digits [of "CHR 0x22"] by (auto simp: int_text_def digit_def)
  have "marker_text ''r'' a e = ''{\"token\":\"r'' @ CHR ''#'' # int_text a @ CHR 0x22 # '',\"state\":\"pending\",\"attempt\":'' @ int_text a @ '',\"at\":'' @ int_text e @ '',\"waves\":{}}''"
    by (simp add: marker_text_def jobmap_token_def)
  then have "past (CHR ''#'') (marker_text ''r'' a e) = int_text a @ CHR 0x22 # '',\"state\":\"pending\",\"attempt\":'' @ int_text a @ '',\"at\":'' @ int_text e @ '',\"waves\":{}}''"
    by (simp add: past_def)
  then have "sample_loads (marker_text ''r'' a e) = Some (JDict [(''attempt'', JInt a)])"
    using before_at(1) [OF q] by (simp add: sample_loads_def)
  then show "\<exists>d. sample_loads (marker_text ''r'' a e) = Some (JDict d) \<and> jget d ''attempt'' = JInt a" by (simp add: jget_def)
qed

lemma sample_names: "names_job Slurm ''Submitted batch job 41'' ''41''"
  by code_simp

lemma sample_plain: "plain_run_id (mr_run sample_request)" "mr_run sample_request = ''r''"
  by code_simp+

lemma sample_clean: "clean_for rid (rw_cluster sample_world)"
  by (simp add: clean_for_def sample_world_def sample_cluster_def live_jobs_def)

lemma fresh_submit: "rw_runs w (mr_run q) = None \<Longrightarrow> \<exists>r0 w1. submit_main f q now due epoch ws k w = (Minted r0, w1)"
  by (simp add: submit_main_def mint_submitting_record_def upsert_run_compare_and_mint_def mint_decide_def)

lemma sample_submit: "\<exists>r0 w1. submit_main f sample_request now due epoch ws k sample_world = (Minted r0, w1)"
  by (rule fresh_submit) (simp add: sample_world_def)


lemma recovery_refines_witness:
  "\<exists>r w'. reconcile_one (sample_recon PbsPro (\<lambda>call. True)) ''r''
     (sample_world\<lparr>rw_runs := [''r'' \<mapsto> (submitting_record sample_request 0 ''n'')\<lparr>lr_evidence := []\<rparr>]\<rparr>) = (Inr (Reconciled r), w')
   \<and> run_status r = ''abandoned''"
proof -
  let ?r = "(submitting_record sample_request 0 ''n'')\<lparr>lr_evidence := []\<rparr>"
  let ?w = "sample_world\<lparr>rw_runs := [''r'' \<mapsto> ?r]\<rparr>"
  have a: "legible ''r'' (rw_cluster ?w)" using clean_legible [OF sample_clean] by simp
  have b: "run_status ?r = ''submitting''" "\<not> dispatch_never_actuated ?r"
    by (simp_all add: submitting_record_def dispatch_never_actuated_def jget_def)
  have "recovery_of PbsPro (\<lambda>call. True) ''r'' n (rw_cluster ?w) = NeverDispatched" for n
    by (simp add: recovery_of_def sample_world_def sample_cluster_def)
  then show ?thesis
    using recovery_refines [OF sample_asks(1) [of PbsPro "\<lambda>call. True"] a, of ?r] b sample_asks by (auto simp: recovered_as_def)
qed


end
