(* ===== verification/SubmitOnceLimits.thy ===== *)
theory SubmitOnceLimits
  imports SubmitOnceLaws
begin

text \<open>
  Where the recovery of a submission loses an array or lets a second one be queued: leftovers of an earlier attempt,
  a submitter that is slow rather than dead, families without a token, a leg with several waves, and a token query
  that the scheduler could not answer.
\<close>

text \<open>The start of a leg after its mint.\<close>

lemma leg_from_mint:
  assumes "submit_main f q now due epoch ws k w = (Minted r0, w1)"
  obtains r where "at_mint r" "lr_attempt r = lr_attempt r0" "lr_attempt r0 = allocate_attempt (rw_runs w (mr_run q)) 0"
    "w1 = perform \<lparr>lg_family = f, lg_run = mr_run q, lg_attempt = lr_attempt r0, lg_now = now, lg_epoch = epoch\<rparr>
            (take k (submit_actions ws)) (w\<lparr>rw_runs := (rw_runs w)(mr_run q := Some r)\<rparr>)"
proof -
  obtain runs where mint: "mint_submitting_record q now due (rw_runs w) = (Minted r0, runs)"
    using assms by (auto simp: submit_main_def split: prod.splits mint_answer.splits)
  then show ?thesis using minted_state [OF mint] assms that by (auto simp: submit_main_def)
qed

lemma actuated: "\<not> dispatch_never_actuated (r\<lparr>lr_evidence := [(''state'', JText ''actuated''), x]\<rparr>)"
  by (simp add: dispatch_never_actuated_def jget_def)

text \<open>The recovery with every read answered, once a dispatch may have been sent.\<close>

lemma answered_recovery:
  assumes "asks env (\<lambda>call. True) rest" "legible rid (rw_cluster w)" "rw_runs w rid = Some r0" "run_status r0 = ''submitting''"
    "\<not> dispatch_never_actuated r0" "CHR ''('' \<notin> set rid" "sc_dir (rw_cluster w)"
  shows "\<exists>r w'. reconcile_one env rid w = (Inr (Reconciled r), w') \<and> rw_runs w' = (rw_runs w)(rid := Some r)
    \<and> (landed (re_family env) rid (rw_cluster w) \<noteq> [] \<longrightarrow>
         run_status r = ''in_flight'' \<and> lr_job_ids r = landed (re_family env) rid (rw_cluster w) \<and> rw_cluster w' = rw_cluster w)
    \<and> (landed (re_family env) rid (rw_cluster w) = [] \<and> \<not> carries_token (re_family env) \<longrightarrow>
         run_status r = ''abandoned'' \<and> rw_cluster w' = clear_jobmap rid (rw_cluster w))"
proof -
  obtain r w' where o: "recover_submitting env rid r0 w = (Inr r, w')" "rw_runs w' = (rw_runs w)(rid := Some r)"
    and v: "recovered_as (recovery_of (re_family env) (\<lambda>call. True) rid
        (marker_attempt (re_loads env) r0 (sc_marker (rw_cluster w) rid)) (rw_cluster w)) rid r0 (rw_cluster w) r (rw_cluster w')"
    using refined_recovery [OF assms(1,2,3,5,6)] by blast
  have "reconcile_one env rid w = (Inr (Reconciled r), w')" using o assms(3,4) by (simp add: reconcile_one_def then_do_def)
  then show ?thesis using o(2) v assms(7) by (auto simp: recovery_of_def recovered_as_def)
qed

text \<open>C19: (a stale id file is adopted) An id file that an earlier attempt of the run left behind names an array that is long
  gone. The submitter of the next attempt dies once its own array is queued, before the id file is replaced. The
  reconcile, with every read answered, adopts the dead array: the attempt in the marker is never compared. The array
  that is queued is in no record.\<close>

theorem stale_id_file_is_adopted:
  assumes "submit_main f q now due epoch [Accepts j out] 3 w = (Minted r0, w1)"
    "live_jobs (mr_run q) (rw_cluster w) = []" "sc_ids (rw_cluster w) (mr_run q) = [(wave_key 0, 0, old)]"
    "names_job f old j0" "names_job f out j" "plain_run_id (mr_run q)" "list_all legible_job (sc_jobs (rw_cluster w))"
    "asks env (\<lambda>call. True) rest" "re_family env = f"
  shows "\<exists>r w2. reconcile_one env (mr_run q) w1 = (Inr (Reconciled r), w2) \<and> run_status r = ''in_flight''
    \<and> lr_job_ids r = [j0] \<and> live_jobs (mr_run q) (rw_cluster w2) = [j]"
proof -
  let ?rid = "mr_run q" and ?l = "\<lparr>lg_family = f, lg_run = mr_run q, lg_attempt = lr_attempt r0, lg_now = now, lg_epoch = epoch\<rparr>"
  obtain r where r: "at_mint r" "w1 = perform ?l (take 3 (submit_actions [Accepts j out])) (w\<lparr>rw_runs := (rw_runs w)(?rid := Some r)\<rparr>)"
    using leg_from_mint [OF assms(1)] by metis
  have w1: "w1 = w\<lparr>rw_runs := (rw_runs w)(?rid := Some (record_after ?l j 3 r)), rw_cluster := cluster_after ?l j out 3 (rw_cluster w)\<rparr>"
    using leg_after [of 3 "w\<lparr>rw_runs := (rw_runs w)(?rid := Some r)\<rparr>" ?l r j out] r(2) by simp
  have c: "sc_ids (rw_cluster w1) ?rid = [(wave_key 0, 0, old)]" "sc_dir (rw_cluster w1)" "live_jobs ?rid (rw_cluster w1) = [j]"
    "sc_marker (rw_cluster w1) ?rid = Some (marker_text ?rid (lr_attempt r0) epoch)"
    "sc_jobs (rw_cluster w1) = sc_jobs (rw_cluster w) @ [\<lparr>qj_id = j, qj_run = ?rid, qj_token = correlation_token f ?rid (lr_attempt r0)\<rparr>]"
    using assms(2,3) by (simp_all add: w1 cluster_after_def Let_def pre_dispatch_def queue_job_def live_jobs_def)
  have "legible_job \<lparr>qj_id = j, qj_run = ?rid, qj_token = correlation_token f ?rid (lr_attempt r0)\<rparr>"
    using assms(5) plain_token [OF assms(6)] token_not_null by (auto simp: legible_job_def names_job_def correlation_token_def)
  then have leg: "legible ?rid (rw_cluster w1)"
    using c assms(4,7) marker_legible [OF assms(6)] wave_key_word by (simp add: legible_def legible_entry_def names_job_def)
  have land: "landed (re_family env) ?rid (rw_cluster w1) = [j0]"
    using c assms(4,9) by (simp add: landed_def map_filter_simps names_job_def)
  have rec: "rw_runs w1 ?rid = Some (record_after ?l j 3 r)" "run_status (record_after ?l j 3 r) = ''submitting''"
    "\<not> dispatch_never_actuated (record_after ?l j 3 r)"
    using r(1) actuated by (simp_all add: w1 record_after_def at_mint_def)
  show ?thesis
    using answered_recovery [OF assms(8) leg rec plain_token(3) [OF assms(6)] c(2)] land c(3) by auto
qed

text \<open>Without a token a queued array is abandoned. On PBS no token rides the submission. A submitter that dies once its
  array is queued and before the id file is written leaves a marker without an id, the token query finds nothing
  because there is nothing to find, and the reconcile abandons the record as never dispatched although every read was
  answered: the array is queued, and the jobmap that named its attempt is cleared.\<close>

lemma array_without_token_is_abandoned:
  assumes "submit_main f q now due epoch [Accepts j out] 3 w = (Minted r0, w1)" "clean_for (mr_run q) (rw_cluster w)"
    "names_job f out j" "\<not> carries_token f" "plain_run_id (mr_run q)" "asks env (\<lambda>call. True) rest" "re_family env = f"
  shows "\<exists>r w2. reconcile_one env (mr_run q) w1 = (Inr (Reconciled r), w2) \<and> run_status r = ''abandoned''
    \<and> live_jobs (mr_run q) (rw_cluster w2) = [j]"
proof -
  let ?rid = "mr_run q"
  obtain r l where l: "lg_run l = ?rid" "lg_family l = f" "left_after 3 l j out (rw_cluster w) r w1"
    using submit_leaves [OF assms(1) _ assms(2,3)] by auto
  have w1: "rw_cluster w1 = cluster_after l j out 3 (rw_cluster w)" and rec: "rw_runs w1 ?rid = Some r" "run_status r = ''submitting''"
    "\<not> dispatch_never_actuated r" using l by (auto simp: left_after_def)
  have leg: "legible ?rid (rw_cluster w1)"
    using legible_after [of l "rw_cluster w" out j 3] assms(2,3,5) l(1,2) by (simp add: w1)
  have c: "sc_dir (rw_cluster w1)" "landed (re_family env) ?rid (rw_cluster w1) = []"
    using assms(2) l(1) by (simp_all add: w1 cluster_after_def Let_def pre_dispatch_def queue_job_def landed_def clean_for_def map_filter_simps)
  have live: "live_jobs ?rid (clear_jobmap ?rid (rw_cluster w1)) = [j]"
    using live_after [of l "rw_cluster w" j out 3] assms(2) l(1) by (simp add: w1 clear_jobmap_def live_jobs_def)
  show ?thesis
    using answered_recovery [OF assms(6) leg rec plain_token(3) [OF assms(5)] c(1)] c(2) assms(4,7) live by auto
qed

text \<open>The second wave is lost. A leg with two waves whose submitter dies once the second array is queued. The id
  file of the first wave is enough to adopt: the reconcile puts the run in flight with the first array alone, without
  asking the queue, and the second one, queued under the same token, is in no record.\<close>

lemma second_wave_is_lost:
  assumes "submit_main f q now due epoch [Accepts j0 out0, Accepts j1 out1] 6 w = (Minted r0, w1)" "clean_for (mr_run q) (rw_cluster w)"
    "names_job f out0 j0" "names_job f out1 j1" "plain_run_id (mr_run q)" "asks env (\<lambda>call. True) rest" "re_family env = f"
  shows "\<exists>r w2. reconcile_one env (mr_run q) w1 = (Inr (Reconciled r), w2) \<and> run_status r = ''in_flight''
    \<and> lr_job_ids r = [j0] \<and> live_jobs (mr_run q) (rw_cluster w2) = [j0, j1]"
proof -
  let ?rid = "mr_run q" and ?l = "\<lparr>lg_family = f, lg_run = mr_run q, lg_attempt = lr_attempt r0, lg_now = now, lg_epoch = epoch\<rparr>"
  let ?job = "\<lambda>j. \<lparr>qj_id = j, qj_run = ?rid, qj_token = correlation_token f ?rid (lr_attempt r0)\<rparr>"
  obtain r where r: "at_mint r" "w1 = perform ?l (take 6 (submit_actions [Accepts j0 out0, Accepts j1 out1])) (w\<lparr>rw_runs := (rw_runs w)(?rid := Some r)\<rparr>)"
    using leg_from_mint [OF assms(1)] by metis
  have j: "legible_job (?job j0)" "legible_job (?job j1)" "legible_entry (wave_key 0, 0, out0)"
    using assms(3,4) plain_token [OF assms(5)] token_not_null wave_key_word
    by (auto simp: legible_job_def names_job_def correlation_token_def legible_entry_def)
  have rec: "rw_runs w1 ?rid = Some (record_after ?l j0 1 r)" "run_status (record_after ?l j0 1 r) = ''submitting''"
    "\<not> dispatch_never_actuated (record_after ?l j0 1 r)"
    using r(1) actuated
    by (simp_all add: r(2) record_after_def at_mint_def submit_actions_def on_record_def on_cluster_def stamp_dispatch_actuated_def update_run_record_def)
  have c: "sc_ids (rw_cluster w1) ?rid = [(wave_key 0, 0, out0)]" "sc_dir (rw_cluster w1)"
    "sc_marker (rw_cluster w1) ?rid = Some (marker_text ?rid (lr_attempt r0) epoch)"
    "sc_jobs (rw_cluster w1) = sc_jobs (rw_cluster w) @ [?job j0, ?job j1]"
    using assms(2)
    by (simp_all add: r(2) submit_actions_def on_record_def on_cluster_def stamp_dispatch_actuated_def update_run_record_def
        pre_dispatch_def queue_job_def post_dispatch_def clean_for_def)
  have leg: "legible ?rid (rw_cluster w1)"
    using c j assms(2) marker_legible [OF assms(5)] by (auto simp: legible_def clean_for_def list_all_iff)
  have land: "landed (re_family env) ?rid (rw_cluster w1) = [j0]"
    using c assms(3,7) by (simp add: landed_def map_filter_simps names_job_def)
  have live: "live_jobs ?rid (rw_cluster w1) = [j0, j1]" using assms(2) by (simp add: live_jobs_def c clean_for_def)
  show ?thesis using answered_recovery [OF assms(6) leg rec plain_token(3) [OF assms(5)] c(2)] land live by auto
qed

text \<open>C38: (a slow submitter is taken for a dead one) A submitter has minted its record and is about to stamp that the dispatch
  begins. A reconcile in between finds the dispatch never sent and abandons the record, without asking anyone; a second
  submitter mints the next attempt and queues its array; the first one goes on and queues its own. Two arrays of one run
  are queued, and the record names the older attempt.\<close>

theorem slow_submitter_is_abandoned:
  assumes "rw_runs w (mr_run q) = None" "live_jobs (mr_run q) (rw_cluster w) = []"
  shows "let first = \<lparr>lg_family = f, lg_run = mr_run q, lg_attempt = 0, lg_now = now, lg_epoch = epoch\<rparr>;
             w1 = snd (submit_main f q now due epoch [Accepts j1 out1] 0 w);
             w2 = snd (reconcile_one env (mr_run q) w1);
             w3 = snd (submit_main f q now2 due2 epoch2 [Accepts j2 out2] 6 w2);
             w4 = perform first (submit_actions [Accepts j1 out1]) w3
         in live_jobs (mr_run q) (rw_cluster w4) = [j2, j1]
            \<and> map_option (\<lambda>r. (run_status r, lr_job_ids r, lr_attempt r)) (rw_runs w4 (mr_run q)) = Some (''in_flight'', [j1], 1)"
proof -
  let ?rid = "mr_run q"
  define m where "m = (submitting_record q 0 now)\<lparr>lr_last_tick := Some now, lr_next_due := Some due\<rparr>"
  have w1: "snd (submit_main f q now due epoch [Accepts j1 out1] 0 w) = w\<lparr>rw_runs := (rw_runs w)(?rid := Some m)\<rparr>"
    using assms(1)
    by (simp add: submit_main_def mint_submitting_record_def upsert_run_compare_and_mint_def mint_decide_def allocate_attempt_def
        stamp_run_tick_def update_run_record_def m_def)
  have m: "run_status m = ''submitting''" "dispatch_never_actuated m" "pending_verdict m = []" "lr_attempt m = 0"
    by (simp_all add: m_def submitting_record_def dispatch_never_actuated_def pending_evidence_def jget_def)
  let ?w1 = "w\<lparr>rw_runs := (rw_runs w)(?rid := Some m)\<rparr>"
  define a where "a = m\<lparr>last_status := never_dispatched_status NEVER_ACTUATED_RECOVERY_NOTE
    [(''acceptance_evidence'', JText ''never_actuated''), (''dispatch_evidence'', JDict (lr_evidence m))], run_status := ''abandoned''\<rparr>"
  have w2: "snd (reconcile_one env ?rid ?w1) = w\<lparr>rw_runs := (rw_runs w)(?rid := Some a)\<rparr>"
    using m statuses
    by (simp add: reconcile_one_def recover_submitting_def never_actuated_abandon_def then_do_def set_status_def set_mark_def on_journal_def
        update_run_status_def mark_run_def Let_def a_def)
  let ?w2 = "w\<lparr>rw_runs := (rw_runs w)(?rid := Some a)\<rparr>"
  have a: "run_status a = ''abandoned''" "pending_verdict a = []" "lr_attempt a = 0" using m by (simp_all add: a_def)
  then have "is_resubmittable_terminal (run_record.truncate a)"
    by (simp add: is_resubmittable_terminal_def is_held_def TERMINAL_STATUSES_def run_record.truncate_def)
  then have d: "mint_decide q now2 (Some a) = Inr (Some (submitting_record q 1 now2))"
    by (simp add: mint_decide_def resolve_layer1_def decided_def allocate_attempt_def a)
  define n where "n = (submitting_record q 1 now2)\<lparr>lr_last_tick := Some now2, lr_next_due := Some due2\<rparr>"
  let ?l2 = "\<lparr>lg_family = f, lg_run = ?rid, lg_attempt = 1, lg_now = now2, lg_epoch = epoch2\<rparr>"
  have w3: "snd (submit_main f q now2 due2 epoch2 [Accepts j2 out2] 6 ?w2)
    = w\<lparr>rw_runs := (rw_runs w)(?rid := Some (record_after ?l2 j2 6 n)), rw_cluster := cluster_after ?l2 j2 out2 6 (rw_cluster w)\<rparr>"
    using leg_after [of 6 "w\<lparr>rw_runs := (rw_runs w)(?rid := Some n)\<rparr>" ?l2 n j2 out2] d
    by (simp add: submit_main_def mint_submitting_record_def upsert_run_compare_and_mint_def stamp_run_tick_def update_run_record_def n_def
        submitting_record_def)
  let ?l1 = "\<lparr>lg_family = f, lg_run = ?rid, lg_attempt = 0, lg_now = now, lg_epoch = epoch\<rparr>"
  let ?w3 = "w\<lparr>rw_runs := (rw_runs w)(?rid := Some (record_after ?l2 j2 6 n)), rw_cluster := cluster_after ?l2 j2 out2 6 (rw_cluster w)\<rparr>"
  have w4: "perform ?l1 (submit_actions [Accepts j1 out1]) ?w3
    = ?w3\<lparr>rw_runs := (rw_runs w)(?rid := Some (record_after ?l1 j1 6 (record_after ?l2 j2 6 n))),
          rw_cluster := cluster_after ?l1 j1 out1 6 (cluster_after ?l2 j2 out2 6 (rw_cluster w))\<rparr>"
    using leg_after [of 6 ?w3 ?l1 "record_after ?l2 j2 6 n" j1 out1] by (simp add: submit_actions_def)
  have "live_jobs ?rid (cluster_after ?l1 j1 out1 6 (cluster_after ?l2 j2 out2 6 (rw_cluster w))) = [j2, j1]"
    using assms(2) by (simp add: cluster_after_def Let_def pre_dispatch_def queue_job_def post_dispatch_def live_jobs_def)
  moreover have "lr_attempt n = 1" by (simp add: n_def submitting_record_def)
  ultimately show ?thesis unfolding Let_def w1 w2 w3 w4 by (simp add: record_after_def Let_def)
qed

text \<open>A failed query reads as absence. On Slurm the token query counts as answered unless its exit code is 126 or 127.
  When \<open>squeue\<close> cannot reach its controller it prints nothing and exits with 1: the recovery then abandons the record
  as never queued, whatever is in the queue.\<close>

lemma failed_query_reads_as_absence:
  assumes "re_family env = Slurm" "re_call env TokenQuery (rw_cluster w) = Answered 0 (printed [SCHED_ACK_PREFIX @ ''1''])"
    "re_clear env = clear_jobmap" "rw_runs w rid = Some r0"
  shows "\<exists>r w'. disambiguate_by_token env rid r0 token w = (Inr r, w') \<and> run_status r = ''abandoned''
    \<and> sc_jobs (rw_cluster w') = sc_jobs (rw_cluster w)"
proof -
  have q: "scheduler_query_ran Slurm (printed [SCHED_ACK_PREFIX @ ''1'']) = ([], True)" by code_simp
  have "parse_token_query Slurm [] = []" by (simp add: parse_token_query_def)
  then have "disambiguate_by_token env rid r0 token w
    = safe_resubmit env rid ''token query clean-miss: array never entered the scheduler queue'' w"
    using assms(1,2) q by (simp add: disambiguate_by_token_def)
  then show ?thesis
    using resubmit_outcome [OF assms(4,3), of "''token query clean-miss: array never entered the scheduler queue''"]
    by (auto simp: recovered_as_def clear_jobmap_def)
qed

section \<open>Concrete runs\<close>

lemma sample_names_2: "names_job Slurm ''Submitted batch job 42'' ''42''" "names_job PbsPro ''41.srv'' ''41''"
  by code_simp+

text \<open>The cluster that a finished attempt left.\<close>

definition sample_leftover :: submit_world where
  "sample_leftover = sample_world\<lparr>rw_cluster := sample_cluster\<lparr>sc_dir := True, sc_ids := (\<lambda>r. [(wave_key 0, 0, ''Submitted batch job 41'')])\<rparr>\<rparr>"

lemma stale_id_file_is_adopted_witness:
  "\<exists>r0 w1 r w2. submit_main Slurm sample_request ''n'' ''d'' 7 [Accepts ''42'' ''Submitted batch job 42''] 3 sample_leftover = (Minted r0, w1)
    \<and> reconcile_one (sample_recon Slurm (\<lambda>call. True)) ''r'' w1 = (Inr (Reconciled r), w2) \<and> lr_job_ids r = [''41'']
    \<and> live_jobs ''r'' (rw_cluster w2) = [''42'']"
proof -
  obtain r0 w1 where m: "submit_main Slurm sample_request ''n'' ''d'' 7 [Accepts ''42'' ''Submitted batch job 42''] 3 sample_leftover = (Minted r0, w1)"
    using fresh_submit [of sample_leftover sample_request Slurm "''n''" "''d''" 7 "[Accepts ''42'' ''Submitted batch job 42'']" 3]
    by (force simp: sample_leftover_def sample_world_def)
  have "live_jobs (mr_run sample_request) (rw_cluster sample_leftover) = []"
    "sc_ids (rw_cluster sample_leftover) (mr_run sample_request) = [(wave_key 0, 0, ''Submitted batch job 41'')]"
    "list_all legible_job (sc_jobs (rw_cluster sample_leftover))"
    by (simp_all add: sample_leftover_def sample_cluster_def live_jobs_def)
  then show ?thesis
    using m stale_id_file_is_adopted [OF m _ _ sample_names sample_names_2(1) sample_plain(1) _ sample_asks(1) [of Slurm "\<lambda>call. True"] sample_asks(2)]
      sample_plain(2) by auto
qed

lemma array_without_token_is_abandoned_witness:
  "\<exists>r0 w1 r w2. submit_main PbsPro sample_request ''n'' ''d'' 7 [Accepts ''41'' ''41.srv''] 3 sample_world = (Minted r0, w1)
    \<and> reconcile_one (sample_recon PbsPro (\<lambda>call. True)) ''r'' w1 = (Inr (Reconciled r), w2) \<and> run_status r = ''abandoned''
    \<and> live_jobs ''r'' (rw_cluster w2) = [''41'']"
proof -
  obtain r0 w1 where m: "submit_main PbsPro sample_request ''n'' ''d'' 7 [Accepts ''41'' ''41.srv''] 3 sample_world = (Minted r0, w1)"
    using sample_submit by blast
  then show ?thesis
    using array_without_token_is_abandoned [OF m sample_clean sample_names_2(2) _ sample_plain(1) sample_asks(1) [of PbsPro "\<lambda>call. True"] sample_asks(2)]
      sample_plain(2) by (auto simp: carries_token_def)
qed

lemma second_wave_is_lost_witness:
  "\<exists>r0 w1 r w2. submit_main Slurm sample_request ''n'' ''d'' 7 [Accepts ''41'' ''Submitted batch job 41'', Accepts ''42'' ''Submitted batch job 42''] 6 sample_world
      = (Minted r0, w1)
    \<and> reconcile_one (sample_recon Slurm (\<lambda>call. True)) ''r'' w1 = (Inr (Reconciled r), w2) \<and> lr_job_ids r = [''41'']
    \<and> live_jobs ''r'' (rw_cluster w2) = [''41'', ''42'']"
proof -
  obtain r0 w1 where m: "submit_main Slurm sample_request ''n'' ''d'' 7 [Accepts ''41'' ''Submitted batch job 41'', Accepts ''42'' ''Submitted batch job 42''] 6 sample_world
      = (Minted r0, w1)" using sample_submit by blast
  then show ?thesis
    using second_wave_is_lost [OF m sample_clean sample_names sample_names_2(1) sample_plain(1) sample_asks(1) [of Slurm "\<lambda>call. True"] sample_asks(2)]
      sample_plain(2) by auto
qed

lemma slow_submitter_is_abandoned_witness:
  "let first = \<lparr>lg_family = Slurm, lg_run = ''r'', lg_attempt = 0, lg_now = ''n'', lg_epoch = 7\<rparr>;
       w1 = snd (submit_main Slurm sample_request ''n'' ''d'' 7 [Accepts ''41'' ''Submitted batch job 41''] 0 sample_world);
       w2 = snd (reconcile_one (sample_recon Slurm (\<lambda>call. False)) ''r'' w1);
       w3 = snd (submit_main Slurm sample_request ''m'' ''e'' 9 [Accepts ''42'' ''Submitted batch job 42''] 6 w2);
       w4 = perform first (submit_actions [Accepts ''41'' ''Submitted batch job 41'']) w3
   in live_jobs ''r'' (rw_cluster w4) = [''42'', ''41'']"
  using slow_submitter_is_abandoned [of sample_world sample_request Slurm "''n''" 7 "''d''" "''41''" "''Submitted batch job 41''"
      "sample_recon Slurm (\<lambda>call. False)" "''m''" "''e''" 9 "''42''" "''Submitted batch job 42''"] sample_plain(2)
  by (simp add: sample_world_def sample_cluster_def live_jobs_def Let_def)

lemma failed_query_reads_as_absence_witness:
  "\<exists>r w'. disambiguate_by_token ((sample_recon Slurm (\<lambda>call. True))\<lparr>re_call := (\<lambda>call c. Answered 0 (printed [SCHED_ACK_PREFIX @ ''1'']))\<rparr>) ''r''
      (submitting_record sample_request 0 ''n'') ''r#0''
      (sample_world\<lparr>rw_runs := [''r'' \<mapsto> submitting_record sample_request 0 ''n''],
         rw_cluster := sample_cluster\<lparr>sc_jobs := [\<lparr>qj_id = ''41'', qj_run = ''r'', qj_token = Some ''r#0''\<rparr>]\<rparr>\<rparr>) = (Inr r, w')
    \<and> run_status r = ''abandoned'' \<and> live_jobs ''r'' (rw_cluster w') = [''41'']"
  using failed_query_reads_as_absence [of "(sample_recon Slurm (\<lambda>call. True))\<lparr>re_call := (\<lambda>call c. Answered 0 (printed [SCHED_ACK_PREFIX @ ''1'']))\<rparr>"
      "sample_world\<lparr>rw_runs := [''r'' \<mapsto> submitting_record sample_request 0 ''n''],
         rw_cluster := sample_cluster\<lparr>sc_jobs := [\<lparr>qj_id = ''41'', qj_run = ''r'', qj_token = Some ''r#0''\<rparr>]\<rparr>\<rparr>" "''r''"
      "submitting_record sample_request 0 ''n''" "''r#0''"]
  by (auto simp: sample_recon_def live_jobs_def)

end
