(* ===== verification/ReconcileLaws.thy ===== *)
theory ReconcileLaws
  imports Reconcile
begin

text \<open>
  What a reconcile promises on a run that has job ids: it writes the records of the family of the run only, it changes
  a status only on evidence, what it settles follows from the counts, and a harvest that is owed is fired once.
\<close>

section \<open>Frames\<close>

text \<open>An operation that writes no record but those of \<open>A\<close>, and removes none.\<close>

definition writes_only :: "string set \<Rightarrow> ('c recon_world \<Rightarrow> 'a \<times> 'c recon_world) \<Rightarrow> bool" where
  "writes_only A m \<longleftrightarrow> (\<forall>w rid. (rid \<notin> A \<longrightarrow> rw_runs (snd (m w)) rid = rw_runs w rid)
     \<and> (rw_runs w rid \<noteq> None \<longrightarrow> rw_runs (snd (m w)) rid \<noteq> None))"

named_theorems frames

lemma writes_then [frames]:
  assumes "writes_only A m" "\<And>a. writes_only A (f a)"
  shows "writes_only A (then_do m f)"
  unfolding writes_only_def
proof (intro allI)
  fix w rid
  show "(rid \<notin> A \<longrightarrow> rw_runs (snd (then_do m f w)) rid = rw_runs w rid)
     \<and> (rw_runs w rid \<noteq> None \<longrightarrow> rw_runs (snd (then_do m f w)) rid \<noteq> None)"
  proof (cases "m w")
    case (Pair x w')
    have m: "rid \<notin> A \<Longrightarrow> rw_runs w' rid = rw_runs w rid" "rw_runs w rid \<noteq> None \<Longrightarrow> rw_runs w' rid \<noteq> None"
      using assms(1) Pair by (auto simp: writes_only_def dest: spec [of _ w])
    show ?thesis
    proof (cases x)
      case (Inl e) then show ?thesis using m Pair by (auto simp: then_do_def)
    next
      case (Inr a)
      have "(rid \<notin> A \<longrightarrow> rw_runs (snd (f a w')) rid = rw_runs w' rid) \<and> (rw_runs w' rid \<noteq> None \<longrightarrow> rw_runs (snd (f a w')) rid \<noteq> None)"
        using assms(2) [of a] by (simp add: writes_only_def)
      then show ?thesis using m Pair Inr by (simp add: then_do_def)
    qed
  qed
qed

lemma writes_nothing [frames]: "writes_only A (\<lambda>w. (x, w))"
  by (simp add: writes_only_def)

lemma writes_harvest [frames]: "writes_only A (\<lambda>w. (x, harvest_if_owed env rid cause rec b w))"
  by (simp add: writes_only_def harvest_if_owed_def harvest_on_terminal_def split: option.splits)

lemma writes_status [frames]:
  assumes "rid \<in> A"
  shows "writes_only A (on_journal (update_run_status rid f))" "writes_only A (set_status rid d)" "writes_only A (set_mark rid s)"
  using assms
  by (auto simp: writes_only_def on_journal_def set_status_def set_mark_def update_run_status_def mark_run_def Let_def split: option.splits)

lemma writes_at: "(\<And>w. \<exists>m. writes_only A m \<and> n w = m w) \<Longrightarrow> writes_only A n"
  unfolding writes_only_def by metis

lemma writes_cluster: "writes_only A m \<Longrightarrow> writes_only A (\<lambda>w. m (w\<lparr>rw_cluster := g w\<rparr>))"
  unfolding writes_only_def
proof (intro allI)
  fix w rid
  assume "\<forall>w rid. (rid \<notin> A \<longrightarrow> rw_runs (snd (m w)) rid = rw_runs w rid) \<and> (rw_runs w rid \<noteq> None \<longrightarrow> rw_runs (snd (m w)) rid \<noteq> None)"
  from this [rule_format, of rid "w\<lparr>rw_cluster := g w\<rparr>"] this [rule_format, of rid "w\<lparr>rw_cluster := g w\<rparr>"]
  show "(rid \<notin> A \<longrightarrow> rw_runs (snd (m (w\<lparr>rw_cluster := g w\<rparr>))) rid = rw_runs w rid)
    \<and> (rw_runs w rid \<noteq> None \<longrightarrow> rw_runs (snd (m (w\<lparr>rw_cluster := g w\<rparr>))) rid \<noteq> None)" by simp
qed

lemma writes_stay [frames]: "rid \<in> A \<Longrightarrow> writes_only A (stay_submitting rid note)"
  unfolding stay_submitting_def by (rule writes_status)

lemma writes_resubmit [frames]: "rid \<in> A \<Longrightarrow> writes_only A (safe_resubmit env rid note)"
proof -
  assume a: "rid \<in> A"
  have "writes_only A (then_do (set_status rid (never_dispatched_status note [])) (\<lambda>r. set_mark rid ''abandoned''))"
    by (intro frames a)
  then show ?thesis unfolding safe_resubmit_def by (rule writes_cluster)
qed

lemma writes_adopt [frames]: "rid \<in> A \<Longrightarrow> writes_only A (adopt_and_promote env rid ids rec)"
proof -
  assume a: "rid \<in> A"
  show ?thesis unfolding adopt_and_promote_def
  proof (intro frames a)
    fix r promoted
    show "writes_only A (\<lambda>w. set_status rid (merged (last_status promoted) (x w)) w)" for x :: "'a recon_world \<Rightarrow> dict"
      using a by (intro writes_at) (blast intro: writes_status)
  qed
qed

lemma writes_token [frames]: "rid \<in> A \<Longrightarrow> writes_only A (disambiguate_by_token env rid rec token)"
  by (rule writes_at) (auto simp: disambiguate_by_token_def Let_def split: ssh_answer.splits option.splits prod.splits if_splits
      intro: writes_stay writes_resubmit writes_adopt)

lemma writes_rung2 [frames]: "rid \<in> A \<Longrightarrow> writes_only A (rung2_never_dispatched env rid rec)"
  by (rule writes_at) (auto simp: rung2_never_dispatched_def split: option.splits intro: writes_stay writes_resubmit)

lemma writes_never [frames]: "rid \<in> A \<Longrightarrow> writes_only A (never_actuated_abandon rid rec)"
  unfolding never_actuated_abandon_def by (intro frames)

lemma writes_recover [frames]: "rid \<in> A \<Longrightarrow> writes_only A (recover_submitting env rid rec)"
  by (rule writes_at) (auto simp: recover_submitting_def Let_def split: ssh_answer.splits if_splits
      intro: writes_never writes_stay writes_rung2 writes_adopt writes_token)

lemma writes_settle [frames]: "rid \<in> A \<Longrightarrow> writes_only A (settle_with env rid rec recorded d tids b)"
proof -
  assume a: "rid \<in> A"
  have "writes_only A (\<lambda>w. set_status rid (x w) w)" for x :: "'a recon_world \<Rightarrow> dict"
    using a by (intro writes_at) (blast intro: writes_status)
  then have s: "writes_only A (then_do (\<lambda>w. set_status rid (x w) w) (\<lambda>r. set_mark rid (sd_verdict d)))" for x :: "'a recon_world \<Rightarrow> dict"
    by (intro frames a)
  show ?thesis
  proof (rule writes_at)
    fix w :: "'a recon_world"
    let ?d = "if sd_verdict d = ''failed'' then merged recorded [(''failure_features'', JDict (re_features env rec tids (rw_cluster w)))] else recorded"
    let ?m = "then_do (then_do (set_status rid ?d) (\<lambda>r. set_mark rid (sd_verdict d)))
      (\<lambda>updated w. (Inr updated, harvest_if_owed env rid (sd_verdict d) updated b w))"
    have "writes_only A ?m" by (intro frames a)
    then show "\<exists>m. writes_only A m \<and> settle_with env rid rec recorded d tids b w = m w" unfolding settle_with_def by blast
  qed
qed

lemma writes_announced [frames]: "rid \<in> A \<Longrightarrow> writes_only A (\<lambda>w. case settle_from_announcements env rid rec a w of Some out \<Rightarrow> out | None \<Rightarrow> m w)"
  if "writes_only A m"
  using that
  by (intro writes_at) (auto simp: settle_from_announcements_def Let_def split: option.splits intro: writes_settle writes_nothing)

lemma writes_as: "writes_only A m \<Longrightarrow> n w = m w \<Longrightarrow> \<exists>m. writes_only A m \<and> n w = m w"
  by blast

lemma writes_value: "\<exists>m. writes_only A m \<and> (x, w) = m w"
  by (rule exI [of _ "\<lambda>w. (x, w)"]) (simp add: writes_nothing)

lemma writes_verified [frames]:
  assumes a: "rid \<in> A"
  shows "writes_only A (settle_verified env rid rec p updated)"
proof (rule writes_at)
  fix w :: "'a recon_world"
  note s = writes_settle [OF a, where env = env and rec = rec]
  show "\<exists>m. writes_only A m \<and> settle_verified env rid rec p updated w = m w"
  proof (cases "\<exists>strict d. all_tasks_complete (unverified env rid p) (total_tasks rec) = Some strict \<and> settle (unverified env rid p) (total_tasks rec) = Some d
      \<and> lr_job_ids rec \<noteq> [] \<and> \<not> pr_alive_failed p \<and> \<not> pr_reporter_failed p \<and> (pr_alive p = {} \<or> strict)")
    case True
    then obtain strict d where "all_tasks_complete (unverified env rid p) (total_tasks rec) = Some strict"
      "settle (unverified env rid p) (total_tasks rec) = Some d"
      "lr_job_ids rec \<noteq> [] \<and> \<not> pr_alive_failed p \<and> \<not> pr_reporter_failed p \<and> (pr_alive p = {} \<or> strict)" by blast
    then have "\<exists>recorded d tids b. settle_verified env rid rec p updated w = settle_with env rid rec recorded d tids b w"
      unfolding settle_verified_def Let_def by simp blast
    then show ?thesis using s by metis
  next
    case False
    then have "\<exists>x. settle_verified env rid rec p updated w = (x, w)"
      unfolding settle_verified_def Let_def by (auto split: option.splits)
    then show ?thesis using writes_value [of A _ w] by metis
  qed
qed

lemma writes_conclude [frames]:
  assumes a: "rid \<in> A"
  shows "writes_only A (conclude env rid rec p)"
proof (rule writes_at)
  fix w :: "'a recon_world"
  have k: "writes_only A (then_do (on_journal (update_run_status rid f)) (\<lambda>r. then_do (set_mark rid ''abandoned'')
      (\<lambda>updated w. (Inr updated, harvest_if_owed env rid ''abandoned'' updated b w))))" for f b
    by (intro frames a)
  have v: "writes_only A (then_do (on_journal (update_run_status rid f)) (settle_verified env rid rec p))" for f
    by (intro frames a)
  show "\<exists>m. writes_only A m \<and> conclude env rid rec p w = m w"
  proof (cases "is_kill_confirmed rec \<and> pr_alive p = {}")
    case True
    show ?thesis unfolding conclude_def if_P [OF True] by (rule writes_as [OF k refl])
  next
    case False
    show ?thesis unfolding conclude_def if_not_P [OF False] by (rule writes_as [OF v refl])
  qed
qed

lemma writes_probe [frames]: "rid \<in> A \<Longrightarrow> writes_only A (probe_by_ssh env rid rec)"
proof (rule writes_at)
  fix w :: "'a recon_world"
  assume a: "rid \<in> A"
  have c: "writes_only A (conclude env rid rec p)" for p by (intro frames a)
  show "\<exists>m. writes_only A m \<and> probe_by_ssh env rid rec w = m w"
  proof (cases "\<not> is_kill_confirmed rec")
    case True
    show ?thesis
    proof (cases "read_announcements (total_tasks rec) (re_call env (AnnounceRead rid) (rw_cluster w))")
      case None
      show ?thesis by (rule writes_as [OF c]) (use True None in \<open>simp add: probe_by_ssh_def\<close>)
    next
      case (Some x)
      have "probe_by_ssh env rid rec w =
        (if an_announced x > 0 then
           (\<lambda>w'. case settle_from_announcements env rid rec x w' of Some out \<Rightarrow> out
                 | None \<Rightarrow> conclude env rid rec (ssh_probes env rid rec (Some x) False (rw_cluster w)) w') w
         else conclude env rid rec (ssh_probes env rid rec None False (rw_cluster w)) w)"
        using True Some by (simp add: probe_by_ssh_def split: option.splits)
      then show ?thesis
        using writes_as [OF writes_announced [OF c a], of _ w] writes_as [OF c, of _ w] by (cases "an_announced x > 0") simp_all
    qed
  next
    case False
    show ?thesis by (rule writes_as [OF c]) (use False in \<open>simp add: probe_by_ssh_def\<close>)
  qed
qed

lemma writes_one: "writes_only {rid} (reconcile_one env rid)"
proof (rule writes_at)
  fix w :: "'a recon_world"
  have a: "rid \<in> {rid}" by simp
  note n = writes_value [of "{rid}" _ w]
  have s: "writes_only {rid} (then_do m (\<lambda>r w. (Inr (Reconciled r), w)) :: 'a recon_world \<Rightarrow> (recon_error + recon_outcome) \<times> 'a recon_world)"
    if "writes_only {rid} m" for m by (intro frames that)
  have c: "writes_only {rid} (\<lambda>w. conclude env rid rec (api_probes env rec (rw_cluster w)) w)" for rec
    by (rule writes_at) (blast intro: writes_conclude [OF a])
  show "\<exists>m. writes_only {rid} m \<and> reconcile_one env rid w = m w"
  proof (cases "rw_runs w rid")
    case None
    then show ?thesis using n by (auto simp: reconcile_one_def split: option.splits)
  next
    case (Some rec)
    then have "reconcile_one env rid w =
      then_do (if run_status rec = ''submitting'' then recover_submitting env rid rec
               else if re_needs_ssh env then probe_by_ssh env rid rec
               else (\<lambda>w. conclude env rid rec (api_probes env rec (rw_cluster w)) w)) (\<lambda>r w. (Inr (Reconciled r), w)) w"
      by (simp add: reconcile_one_def)
    moreover have "writes_only {rid} (if run_status rec = ''submitting'' then recover_submitting env rid rec
               else if re_needs_ssh env then probe_by_ssh env rid rec
               else (\<lambda>w. conclude env rid rec (api_probes env rec (rw_cluster w)) w))"
      using c by (auto intro: writes_recover writes_probe)
    ultimately show ?thesis using s by blast
  qed
qed

lemma writes_mono: "writes_only A m \<Longrightarrow> A \<subseteq> B \<Longrightarrow> writes_only B m"
  by (auto simp: writes_only_def)

lemma writes_siblings: "set sibs \<subseteq> A \<Longrightarrow> writes_only A (reconcile_siblings env sibs)"
proof (induction sibs)
  case Nil
  then show ?case using writes_nothing by (simp add: writes_only_def)
next
  case (Cons sib sibs)
  then have ih: "writes_only A (reconcile_siblings env sibs)" by simp
  have one: "writes_only A (reconcile_one env sib)" using Cons.prems writes_mono [OF writes_one] by auto
  have t: "writes_only A (then_do (reconcile_siblings env sibs) (\<lambda>rows w. (Inr (g rows), w)))" for g :: "jval list \<Rightarrow> jval list"
    by (intro frames ih)
  have u: "writes_only A (then_do (reconcile_one env sib) (\<lambda>out. then_do (reconcile_siblings env sibs) (\<lambda>rows w. (Inr (g out rows), w))))"
    for g :: "recon_outcome \<Rightarrow> jval list \<Rightarrow> jval list" by (intro frames ih one)
  show ?case
  proof (rule writes_at)
    fix w
    show "\<exists>m. writes_only A m \<and> reconcile_siblings env (sib # sibs) w = m w"
    proof (cases "rw_runs w sib")
      case None
      show ?thesis by (rule writes_as [OF ih]) (simp add: None)
    next
      case (Some r)
      show ?thesis
      proof (cases "run_status r \<in> set TERMINAL_STATUSES")
        case True
        show ?thesis by (rule writes_as [OF t]) (simp only: reconcile_siblings.simps Some True option.case if_True)
      next
        case False
        show ?thesis by (rule writes_as [OF u]) (simp only: reconcile_siblings.simps Some False option.case if_False)
      qed
    qed
  qed
qed

text \<open>C22: (only the family of the run) Reconciling a run, with the cascade to its canaries or to its parent, writes no record
  outside that family, and removes none, whatever the cluster answers and whether it raises or not.\<close>

theorem reconcile_stays_in_the_family:
  "(\<forall>x. x = rid \<or> x \<in> set (sibling_run_ids rid) \<or> rw_runs (snd (reconcile env rid w)) x = rw_runs w x)
   \<and> dom (rw_runs w) \<subseteq> dom (rw_runs (snd (reconcile env rid w)))"
proof -
  let ?A = "insert rid (set (sibling_run_ids rid))"
  have one: "writes_only ?A (reconcile_one env rid)" using writes_mono [OF writes_one] by blast
  have sibs: "writes_only ?A (reconcile_siblings env (sibling_run_ids rid))" by (intro writes_siblings) auto
  have last: "writes_only ?A (\<lambda>w. if rows = [] then (Inr out, w)
      else then_do (set_status rid (merged (last_status primary) [(''reconciled_siblings'', JList rows)])) (\<lambda>r w. (Inr (Reconciled r), w)) w)"
    for rows out primary by (cases "rows = []") (auto intro!: frames)
  have "writes_only ?A (reconcile env rid)"
    unfolding reconcile_def
  proof (intro frames one)
    fix out
    show "writes_only ?A (case out of Orphaned x \<Rightarrow> (\<lambda>w. (Inr out, w))
        | Reconciled primary \<Rightarrow> then_do (reconcile_siblings env (sibling_run_ids rid)) (\<lambda>rows w. if rows = [] then (Inr out, w)
            else then_do (set_status rid (merged (last_status primary) [(''reconciled_siblings'', JList rows)])) (\<lambda>r w. (Inr (Reconciled r), w)) w))"
      using last sibs by (cases out) (auto intro!: writes_then writes_nothing)
  qed
  then show ?thesis unfolding writes_only_def by blast
qed

section \<open>Evidence\<close>

definition full_census :: "'c recon_env \<Rightarrow> string \<Rightarrow> live_run \<Rightarrow> 'c \<Rightarrow> bool" where
  "full_census env rid rec c \<longleftrightarrow>
     (case read_announcements (total_tasks rec) (re_call env (AnnounceRead rid) c) of
        None \<Rightarrow> False | Some a \<Rightarrow> 0 < total_tasks rec \<and> an_announced a = total_tasks rec)"

definition live_ids :: "'c recon_env \<Rightarrow> live_run \<Rightarrow> 'c \<Rightarrow> string set option" where
  "live_ids env rec c = alive_job_ids (re_family env) (lr_job_ids rec) (re_call env (AliveCheck (lr_job_ids rec)) c)"

text \<open>A verdict from the probes that does not change the status.\<close>

definition keeps_status :: "string \<Rightarrow> live_run \<Rightarrow> 'c recon_world \<Rightarrow> 'c recon_world \<Rightarrow> bool" where
  "keeps_status rid rec w w' \<longleftrightarrow> rw_harvests w' = rw_harvests w \<and> rw_cluster w' = rw_cluster w
     \<and> (\<exists>r. rw_runs w' rid = Some r \<and> run_status r = run_status rec \<and> lr_job_ids r = lr_job_ids rec)"

lemma conclude_keeps:
  assumes "rw_runs w rid = Some rec" "\<not> (is_kill_confirmed rec \<and> pr_alive p = {})"
    "pr_alive_failed p \<or> pr_reporter_failed p \<or> (pr_alive p \<noteq> {} \<and> all_tasks_complete (unverified env rid p) (total_tasks rec) \<noteq> Some True)"
  shows "keeps_status rid rec w (snd (conclude env rid rec p w))"
proof -
  have "conclude env rid rec p w = then_do (on_journal (update_run_status rid (\<lambda>r. (put_waves p r)
            \<lparr>last_status := unverified env rid p, lr_failed_waves := lr_failed_waves (put_waves p rec)\<rparr>)))
          (settle_verified env rid rec p) w"
    unfolding conclude_def using assms(2) by (simp only: if_False)
  moreover have "snd (settle_verified env rid rec p u v) = v" for u v
    using assms(3) by (auto simp: settle_verified_def Let_def split: option.splits)
  ultimately show ?thesis
    using assms(1) by (simp add: keeps_status_def then_do_def on_journal_def update_run_status_def Let_def put_waves_def)
qed

lemma merged_other: "k \<notin> set (map fst kvs) \<Longrightarrow> map_of (merged d kvs) k = map_of d k"
proof (induction kvs arbitrary: d)
  case (Cons kv kvs)
  obtain a b where [simp]: "kv = (a, b)" by (cases kv)
  have "merged d (kv # kvs) = merged (AList.update a b d) kvs" by (simp add: merged_def)
  then show ?case using Cons by (simp add: update_conv')
qed (simp add: merged_def)

lemma merged_jget: "k \<notin> set (map fst kvs) \<Longrightarrow> jget (merged d kvs) k = jget d k"
  using merged_other by (simp add: jget_def)

definition ANNOTATIONS :: "string list" where
  "ANNOTATIONS = [''task_announcements'', ''announce_probe'', ''warnings'', ''verify_state'', ''unable_to_verify_cause'', ''unable_to_verify_note'',
     ''checked_at'', ''waves'']"

lemma annotate_jget: "k \<notin> set ANNOTATIONS \<Longrightarrow> jget (annotate progress failed ws d) k = jget d k"
  unfolding annotate_def by (rule merged_jget) (auto simp: ANNOTATIONS_def split: option.splits)

lemma unverified_jget: "k \<notin> set ANNOTATIONS \<Longrightarrow> jget (unverified env rid p) k = jget (pr_summary p) k"
  unfolding unverified_def by (auto simp: ANNOTATIONS_def intro!: merged_jget)

lemma census_sum: "read_announcements n answer = Some a \<Longrightarrow> an_announced a = an_complete a + an_failed a"
  by (auto simp: read_announcements_def Let_def split: ssh_answer.splits if_splits)

lemma complete_counts:
  assumes "all_tasks_complete s n = Some True"
  shows "0 < n" "if_int (jget s ''complete'') = Some n" "task_count s ''failed'' = Some 0"
  using assms by (auto simp: all_tasks_complete_def NON_COMPLETE_KEYS_def split: if_splits option.splits)

text \<open>While tasks are still running and the census is not full, its summary does not count every task complete.\<close>

lemma partial_census:
  assumes a: "read_announcements n answer = Some a" "an_announced a \<noteq> n"
    and s: "\<And>k. k \<in> {''complete'', ''failed''} \<Longrightarrow> jget s k = jget (census_progress_summary a) k"
  shows "all_tasks_complete s n \<noteq> Some True"
proof
  assume t: "all_tasks_complete s n = Some True"
  have "jget s ''complete'' = JInt (an_complete a)" "jget s ''failed'' = JInt (an_failed a)"
    using s by (simp_all add: census_progress_summary_def jget_def)
  then have "an_complete a = n" "an_failed a = 0"
    using complete_counts [OF t] by (simp_all add: task_count_def or_zero_def split: if_splits)
  then show False using census_sum [OF a(1)] a(2) by simp
qed

lemma probes_alive [simp]: "pr_alive_failed (ssh_probes env rid rec progress fl c) \<longleftrightarrow> live_ids env rec c = None"
  "pr_alive (ssh_probes env rid rec progress fl c) = (case live_ids env rec c of None \<Rightarrow> set (lr_job_ids rec) | Some a \<Rightarrow> a)"
  by (simp_all add: ssh_probes_def Let_def live_ids_def split: prod.splits)

lemma probes_reporter:
  "pr_reporter_failed (ssh_probes env rid rec progress fl c) \<longleftrightarrow>
    (progress = None \<or> pr_alive (ssh_probes env rid rec progress fl c) = {}) \<and> snd (walk env rec c) = None"
  by (auto simp: ssh_probes_def Let_def live_ids_def split: prod.splits)

lemma probes_partial:
  assumes "pr_alive (ssh_probes env rid rec (Some a) fl c) \<noteq> {}" "k \<notin> set ANNOTATIONS"
  shows "jget (pr_summary (ssh_probes env rid rec (Some a) fl c)) k = jget (census_progress_summary a) k"
proof -
  have live: "(case live_ids env rec c of None \<Rightarrow> set (lr_job_ids rec) | Some a \<Rightarrow> a) \<noteq> {}" using assms(1) by simp
  have "jget (merged (census_progress_summary a) [(''checked_at'', JText (re_now env))]) k = jget (census_progress_summary a) k"
    using assms(2) by (intro merged_jget) (auto simp: ANNOTATIONS_def)
  moreover have "jget [] ''waves'' = JNull" by (simp add: jget_def)
  ultimately show ?thesis
    using live assms(2) by (simp add: ssh_probes_def Let_def live_ids_def [symmetric] annotate_jget)
qed

text \<open>C7: (no evidence, no verdict) A run that is in flight, or settled before, is reconciled over ssh while its announcement
  census is not full. If the scheduler did not answer for its jobs, or the status reporter failed and no kill was
  confirmed, then its status stays what it was, its job ids too, and nothing is harvested.\<close>

theorem no_verdict_without_evidence:
  assumes "rw_runs w rid = Some rec" "run_status rec \<noteq> ''submitting''" "re_needs_ssh env"
    "\<not> full_census env rid rec (rw_cluster w)"
    "live_ids env rec (rw_cluster w) = None \<or> snd (walk env rec (rw_cluster w)) = None \<and> \<not> is_kill_confirmed rec"
  shows "keeps_status rid rec w (snd (reconcile_one env rid w))"
proof -
  let ?c = "rw_cluster w"
  have kill: "\<not> (is_kill_confirmed rec \<and> pr_alive (ssh_probes env rid rec progress fl ?c) = {})" for progress fl
    using assms(5) by (auto simp: is_kill_confirmed_def)
  have none: "keeps_status rid rec w (snd (conclude env rid rec (ssh_probes env rid rec None fl ?c) w))" for fl
    using assms(5) by (intro conclude_keeps [OF assms(1) kill]) (auto simp: probes_reporter)
  have some: "keeps_status rid rec w (snd (conclude env rid rec (ssh_probes env rid rec (Some a) fl ?c) w))"
    if a: "read_announcements (total_tasks rec) (re_call env (AnnounceRead rid) ?c) = Some a" "an_announced a > 0" for a fl
  proof (rule conclude_keeps [OF assms(1) kill])
    let ?p = "ssh_probes env rid rec (Some a) fl ?c"
    have "all_tasks_complete (unverified env rid ?p) (total_tasks rec) \<noteq> Some True" if alive: "pr_alive ?p \<noteq> {}"
    proof (cases "an_announced a = total_tasks rec")
      case True
      then show ?thesis using assms(4) a by (simp add: full_census_def)
    next
      case False
      show ?thesis
      proof (rule partial_census [OF a(1) False])
        fix k :: string assume "k \<in> {''complete'', ''failed''}"
        then have "k \<notin> set ANNOTATIONS" by (auto simp: ANNOTATIONS_def)
        then show "jget (unverified env rid ?p) k = jget (census_progress_summary a) k"
          using unverified_jget probes_partial [OF alive] by metis
      qed
    qed
    then show "pr_alive_failed ?p \<or> pr_reporter_failed ?p
        \<or> (pr_alive ?p \<noteq> {} \<and> all_tasks_complete (unverified env rid ?p) (total_tasks rec) \<noteq> Some True)"
      using assms(5) by (auto simp: probes_reporter)
  qed
  have probe: "keeps_status rid rec w (snd (probe_by_ssh env rid rec w))"
  proof (cases "is_kill_confirmed rec")
    case True
    then show ?thesis using none by (simp add: probe_by_ssh_def)
  next
    case False
    show ?thesis
    proof (cases "read_announcements (total_tasks rec) (re_call env (AnnounceRead rid) ?c)")
      case None
      then show ?thesis using none False by (simp add: probe_by_ssh_def)
    next
      case (Some a)
      then have "settle_from_announcements env rid rec a w = None"
        using assms(4) by (auto simp: settle_from_announcements_def full_census_def)
      then show ?thesis using none some [OF Some] False Some by (simp add: probe_by_ssh_def Let_def)
    qed
  qed
  have "snd (reconcile_one env rid w) = snd (probe_by_ssh env rid rec w)"
    using assms(1-3) by (simp add: reconcile_one_def then_do_def split: prod.splits sum.splits)
  then show ?thesis using probe by simp
qed

section \<open>The settlement\<close>

definition verdict_of :: "dict \<Rightarrow> int \<Rightarrow> string" where
  "verdict_of summary n =
     (if n > 0 \<and> if_int (jget summary ''complete'') = Some n \<and> list_all (\<lambda>k. tasks_in summary k = 0) NON_COMPLETE_KEYS
      then ''complete'' else if tasks_in summary ''failed'' > 0 then ''failed'' else ''abandoned'')"

definition harvested :: "'c recon_env \<Rightarrow> string \<Rightarrow> string \<Rightarrow> live_run \<Rightarrow> string \<Rightarrow> 'c recon_world \<Rightarrow> string \<Rightarrow> jval option list" where
  "harvested env rid v r before_status w =
     (if v \<noteq> before_status \<or> \<not> harvest_receipt_exists (rw_harvests w rid)
      then (case re_harvest env v r (rw_cluster w) of
              None \<Rightarrow> rw_harvests w | Some m \<Rightarrow> (rw_harvests w)(rid := rw_harvests w rid @ [Some (JDict m)]))
      else rw_harvests w)"

lemma same_counts:
  assumes "\<And>k. k \<in> set (''complete'' # NON_COMPLETE_KEYS) \<Longrightarrow> jget s k = jget t k"
  shows "readable s = readable t" "verdict_of s n = verdict_of t n"
proof -
  have c: "task_count s k = task_count t k" "tasks_in s k = tasks_in t k" if "k \<in> set (''complete'' # NON_COMPLETE_KEYS)" for k
    using assms [OF that] by (simp_all add: task_count_def tasks_in_def)
  have j: "jget s ''complete'' = jget t ''complete''" using assms [of "''complete''"] by simp
  have f: "tasks_in s ''failed'' = tasks_in t ''failed''" using c(2) [of "''failed''"] by (simp add: NON_COMPLETE_KEYS_def)
  have n: "list_all (\<lambda>k. tasks_in s k = 0) NON_COMPLETE_KEYS = list_all (\<lambda>k. tasks_in t k = 0) NON_COMPLETE_KEYS"
    using c(2) by (auto simp: list_all_iff)
  show "readable s = readable t" using c(1) by (auto simp: readable_def list_all_iff)
  show "verdict_of s n = verdict_of t n" unfolding verdict_of_def j f n by (rule refl)
qed

lemma settle_verdict_of: "readable s \<Longrightarrow> \<exists>d. settle s n = Some d \<and> sd_verdict d = verdict_of s n"
  using settle_readable [of s n] by (simp add: verdict_of_def)

lemma verdict_status: "verdict_of s n \<in> set JOURNAL_STATUSES"
  by (simp add: verdict_of_def JOURNAL_STATUSES_def TERMINAL_STATUSES_def)

lemma probes_walked:
  assumes "live_ids env rec c = Some {}" "walk env rec c = (report, Some summary)" "k \<notin> set ANNOTATIONS"
  shows "jget (pr_summary (ssh_probes env rid rec progress fl c)) k = jget summary k"
proof -
  have "jget (merged summary [(''checked_at'', JText (re_now env))]) k = jget summary k"
    "jget (merged (merged summary [(''checked_at'', JText (re_now env))]) [(''waves'', ws)]) k = jget summary k" for ws
    using assms(3) by (subst merged_jget; auto simp: ANNOTATIONS_def merged_jget)+
  then show ?thesis
    using assms by (simp add: ssh_probes_def Let_def live_ids_def [symmetric] annotate_jget split: jval.splits)
qed

lemma settle_with_outcome:
  assumes "rw_runs w rid = Some r0" "sd_verdict d \<in> set JOURNAL_STATUSES"
  shows "\<exists>r w'. settle_with env rid rec recorded d tids b w = (Inr r, w') \<and> rw_runs w' = (rw_runs w)(rid := Some r)
    \<and> run_status r = sd_verdict d \<and> rw_harvests w' = harvested env rid (sd_verdict d) r b w \<and> rw_cluster w' = rw_cluster w"
  using assms
  by (auto simp: settle_with_def then_do_def set_status_def set_mark_def on_journal_def update_run_status_def mark_run_def Let_def
      harvest_if_owed_def harvest_on_terminal_def harvested_def split: option.splits)

text \<open>C9: (a verified run settles by its counts) The scheduler answers that it holds no job of the run, the reporter answers
  with readable counts, nothing was announced and no kill was confirmed. The run settles as complete exactly when every
  task is counted complete and none otherwise, else as failed exactly when a task is counted failed, else as abandoned;
  and the harvest is fired exactly when the verdict is new or the run has no harvest receipt.\<close>

theorem verified_run_settles:
  assumes "rw_runs w rid = Some rec" "run_status rec \<noteq> ''submitting''" "re_needs_ssh env" "\<not> is_kill_confirmed rec"
    "lr_job_ids rec \<noteq> []" "live_ids env rec (rw_cluster w) = Some {}" "walk env rec (rw_cluster w) = (report, Some summary)" "readable summary"
    "read_announcements (total_tasks rec) (re_call env (AnnounceRead rid) (rw_cluster w)) = Some a" "an_announced a \<le> 0"
  shows "\<exists>r w'. reconcile_one env rid w = (Inr (Reconciled r), w') \<and> rw_runs w' = (rw_runs w)(rid := Some r)
    \<and> run_status r = verdict_of summary (total_tasks rec)
    \<and> rw_harvests w' = harvested env rid (verdict_of summary (total_tasks rec)) r (run_status rec) w"
proof -
  let ?p = "ssh_probes env rid rec None False (rw_cluster w)"
  have p: "\<not> pr_alive_failed ?p" "pr_alive ?p = {}" "\<not> pr_reporter_failed ?p"
    using assms(6,7) by (simp_all add: probes_reporter)
  have u: "unverified env rid ?p = pr_summary ?p" using p assms(6) by (simp add: unverified_def)
  have eq: "jget (pr_summary ?p) k = jget summary k" if "k \<in> set (''complete'' # NON_COMPLETE_KEYS)" for k
    using that by (intro probes_walked [OF assms(6,7)]) (auto simp: ANNOTATIONS_def NON_COMPLETE_KEYS_def)
  have r: "readable (pr_summary ?p)" using same_counts(1) [OF eq] assms(8) by simp
  obtain d where d: "settle (pr_summary ?p) (total_tasks rec) = Some d" "sd_verdict d = verdict_of summary (total_tasks rec)"
    using settle_verdict_of [OF r] same_counts(2) [OF eq] by metis
  obtain strict where strict: "all_tasks_complete (pr_summary ?p) (total_tasks rec) = Some strict"
    using complete_readable [OF r] by blast
  define w1 where "w1 = w\<lparr>rw_runs := (rw_runs w)(rid := Some ((put_waves ?p rec)
            \<lparr>last_status := pr_summary ?p, lr_failed_waves := lr_failed_waves (put_waves ?p rec)\<rparr>))\<rparr>"
  define recorded where "recorded = merged (pr_summary ?p) ((''verdict_reason'', JText (sd_reason d))
                          # (if pr_alive ?p = {} then [] else [(''scheduler_alive_at_settle'', JBool True)]))"
  have s: "settle_verified env rid rec ?p upd v = settle_with env rid rec recorded d (failed_task_ids (pr_report ?p)) (run_status rec) v" for upd v
    unfolding settle_verified_def Let_def u strict option.case d(1) recorded_def using p assms(5) by (simp only: if_True simp_thms)
  have "conclude env rid rec ?p w = then_do (on_journal (update_run_status rid (\<lambda>r. (put_waves ?p r)
            \<lparr>last_status := pr_summary ?p, lr_failed_waves := lr_failed_waves (put_waves ?p rec)\<rparr>))) (settle_verified env rid rec ?p) w"
    unfolding conclude_def u using assms(4) by (simp only: simp_thms if_False)
  also have "\<dots> = settle_with env rid rec recorded d (failed_task_ids (pr_report ?p)) (run_status rec) w1"
    using assms(1) by (simp add: then_do_def on_journal_def update_run_status_def Let_def s w1_def)
  finally have c: "conclude env rid rec ?p w = settle_with env rid rec recorded d (failed_task_ids (pr_report ?p)) (run_status rec) w1" .
  have "rw_runs w1 rid = Some ((put_waves ?p rec)\<lparr>last_status := pr_summary ?p, lr_failed_waves := lr_failed_waves (put_waves ?p rec)\<rparr>)"
    by (simp add: w1_def)
  from settle_with_outcome [OF this, of d env rec recorded "failed_task_ids (pr_report ?p)" "run_status rec"]
  obtain r w' where o: "conclude env rid rec ?p w = (Inr r, w')" "rw_runs w' = (rw_runs w1)(rid := Some r)"
    "run_status r = sd_verdict d" "rw_harvests w' = harvested env rid (sd_verdict d) r (run_status rec) w1"
    using d(2) verdict_status c by metis
  have "probe_by_ssh env rid rec w = conclude env rid rec ?p w"
    using assms(4,9,10) by (simp add: probe_by_ssh_def Let_def)
  then have "reconcile_one env rid w = (Inr (Reconciled r), w')"
    using assms(1-3) o(1) by (simp add: reconcile_one_def then_do_def)
  moreover have "rw_harvests w1 = rw_harvests w" "rw_cluster w1 = rw_cluster w" by (simp_all add: w1_def)
  then have "harvested env rid v r b w1 = harvested env rid v r b w" for v b by (simp only: harvested_def)
  ultimately show ?thesis using o d(2) by (auto simp: w1_def)
qed

text \<open>The reason of a run that never ran is lost. The breaker of a campaign excuses an abandoned run whose status says that
  it was never dispatched. Such a run has no job ids. Reconciling it once more overwrites the status, reason included,
  and leaves it abandoned, so that it counts as a failure from then on, whether the reporter answers or not.\<close>

lemma never_dispatched_reason_is_lost:
  assumes "rw_runs w rid = Some rec" "is_never_dispatched (run_record.truncate rec)" "re_needs_ssh env" "lr_job_ids rec = []"
    "read_announcements (total_tasks rec) (re_call env (AnnounceRead rid) (rw_cluster w)) = None"
    "case snd (walk env rec (rw_cluster w)) of None \<Rightarrow> True | Some s \<Rightarrow> jget s ''verdict_reason'' = JNull"
  shows "\<exists>r. rw_runs (snd (reconcile_one env rid w)) rid = Some r \<and> run_status r = ''abandoned''
    \<and> \<not> is_never_dispatched (run_record.truncate r)"
proof -
  let ?p = "ssh_probes env rid rec None True (rw_cluster w)"
  have s: "run_status rec = ''abandoned''" using assms(2) by (simp add: is_never_dispatched_def run_record.truncate_def split: if_splits)
  have k: "\<not> is_kill_confirmed rec" using assms(4) by (simp add: is_kill_confirmed_def)
  have live: "live_ids env rec (rw_cluster w) = Some {}" using assms(4) by (simp add: live_ids_def alive_job_ids_def)
  obtain report outcome where wk: "walk env rec (rw_cluster w) = (report, outcome)" by (metis surj_pair)
  have a: "''verdict_reason'' \<notin> set ANNOTATIONS" by (simp add: ANNOTATIONS_def)
  have "jget (pr_summary ?p) ''verdict_reason'' = JNull"
  proof (cases outcome)
    case (Some summary)
    then show ?thesis using probes_walked [OF live _ a] wk assms(6) by simp
  next
    case None
    have "jget (merged failed_walk [(''checked_at'', x)]) ''verdict_reason'' = JNull"
      "jget (merged (merged failed_walk [(''checked_at'', x)]) [(''waves'', ws)]) ''verdict_reason'' = JNull" for x ws
      by (simp_all add: merged_jget failed_walk_def)
    then show ?thesis
      using wk live None a by (simp add: ssh_probes_def Let_def live_ids_def [symmetric] annotate_jget split: jval.splits)
  qed
  then have u: "jget (unverified env rid ?p) ''verdict_reason'' = JNull" using unverified_jget [OF a, of env rid ?p] by argo
  define r where "r = (put_waves ?p rec)\<lparr>last_status := unverified env rid ?p, lr_failed_waves := lr_failed_waves (put_waves ?p rec)\<rparr>"
  have v: "snd (settle_verified env rid rec ?p u v) = v" for u v
    using assms(4) by (auto simp: settle_verified_def Let_def split: option.splits)
  have "probe_by_ssh env rid rec w = conclude env rid rec ?p w" using k assms(5) by (simp add: probe_by_ssh_def Let_def)
  also have "\<dots> = then_do (on_journal (update_run_status rid (\<lambda>r. (put_waves ?p r)
            \<lparr>last_status := unverified env rid ?p, lr_failed_waves := lr_failed_waves (put_waves ?p rec)\<rparr>))) (settle_verified env rid rec ?p) w"
    unfolding conclude_def using k by (simp only: simp_thms if_False)
  finally have "rw_runs (snd (probe_by_ssh env rid rec w)) rid = Some r"
    using assms(1) v by (simp add: then_do_def on_journal_def update_run_status_def Let_def r_def)
  moreover have "snd (reconcile_one env rid w) = snd (probe_by_ssh env rid rec w)"
    using assms(1,3) s by (simp add: reconcile_one_def then_do_def split: prod.splits sum.splits)
  moreover have "run_status r = ''abandoned''" "jget (last_status r) ''verdict_reason'' = JNull"
    using s u by (simp_all add: r_def put_waves_def)
  ultimately show ?thesis by (simp add: is_never_dispatched_def run_record.truncate_def)
qed

section \<open>Concrete runs\<close>

definition done_run :: live_run where
  "done_run = (submitting_record \<lparr>mr_run = ''r'', mr_cluster = ''c'', mr_total = 2, mr_campaign = [], mr_auto_resume = False, mr_max_resumes = 2,
     mr_auto_recover = False, mr_max_recovers = 2\<rparr> 0 ''n'')
     \<lparr>run_status := ''in_flight'', lr_job_ids := [''41'']\<rparr>"

definition done_world :: "unit recon_world" where
  "done_world = \<lparr>rw_runs = [''r'' \<mapsto> done_run], rw_cluster = (), rw_harvests = (\<lambda>r. [])\<rparr>"

text \<open>The scheduler holds nothing, the reporter counts as given, a harvest writes an empty marker.\<close>

definition done_env :: "ssh_answer \<Rightarrow> dict option \<Rightarrow> unit recon_env" where
  "done_env alive report =
     \<lparr>re_family = Slurm, re_needs_ssh = True,
      re_call = (\<lambda>call c. case call of AliveCheck ids \<Rightarrow> alive | AnnounceRead r \<Rightarrow> Answered 0 [] | _ \<Rightarrow> Severed),
      re_clear = (\<lambda>r c. c), re_loads = (\<lambda>t. None), re_report = (\<lambda>r c. report), re_features = (\<lambda>r ids c. []),
      re_api_alive = (\<lambda>r c. None), re_api_tasks = (\<lambda>r c. NoTaskStatuses), re_sidecar = (\<lambda>r. None),
      re_harvest = (\<lambda>cause r c. Some []), re_now = []\<rparr>"

definition done_summary :: dict where
  "done_summary = [(''complete'', JInt 2), (''failed'', JInt 0)]"

lemma done_census: "read_announcements n (Answered 0 []) =
    Some \<lparr>an_present = False, an_announced = 0, an_complete = 0, an_failed = 0, an_missing = max 0 n\<rparr>"
  by (simp add: read_announcements_def splitlines_def Let_def)

lemma verified_run_settles_witness:
  "\<exists>r w'. reconcile_one (done_env (Answered 0 (printed [SCHED_ACK_PREFIX @ ''0''])) (Some [(''summary'', JDict done_summary)])) ''r'' done_world
     = (Inr (Reconciled r), w') \<and> run_status r = ''complete'' \<and> rw_harvests w' ''r'' = [Some (JDict [])]"
proof -
  let ?env = "done_env (Answered 0 (printed [SCHED_ACK_PREFIX @ ''0''])) (Some [(''summary'', JDict done_summary)])"
  have rec: "rw_runs done_world ''r'' = Some done_run" "run_status done_run = ''in_flight''" "lr_job_ids done_run = [''41'']"
    "\<not> is_kill_confirmed done_run" "total_tasks done_run = 2"
    by (simp_all add: done_world_def done_run_def submitting_record_def is_kill_confirmed_def)
  have "alive_job_ids Slurm [''41''] (Answered 0 (printed [SCHED_ACK_PREFIX @ ''0''])) = Some {}" by code_simp
  then have live: "live_ids ?env done_run (rw_cluster done_world) = Some {}" using rec by (simp add: live_ids_def done_env_def)
  have walk: "walk ?env done_run (rw_cluster done_world) = ([(''summary'', JDict done_summary)], Some done_summary)"
    by (simp add: walk_def done_env_def report_summary_def)
  have counts: "readable done_summary" "verdict_of done_summary 2 = ''complete''" by code_simp+
  have an: "read_announcements (total_tasks done_run) (re_call ?env (AnnounceRead ''r'') (rw_cluster done_world)) =
    Some \<lparr>an_present = False, an_announced = 0, an_complete = 0, an_failed = 0, an_missing = max 0 2\<rparr>"
    using done_census rec by (simp add: done_env_def)
  have ssh: "re_needs_ssh ?env" by (simp add: done_env_def)
  obtain r w' where o: "reconcile_one ?env ''r'' done_world = (Inr (Reconciled r), w')" "run_status r = ''complete''"
    "rw_harvests w' = harvested ?env ''r'' ''complete'' r ''in_flight'' done_world"
    using verified_run_settles [OF rec(1) _ ssh rec(4) _ live walk counts(1) an] rec(2,3,5) counts(2) by auto
  have "harvested ?env ''r'' ''complete'' r ''in_flight'' done_world ''r'' = [Some (JDict [])]"
    by (simp add: harvested_def done_env_def done_world_def)
  then show ?thesis using o by auto
qed

lemma no_verdict_without_evidence_witness:
  "keeps_status ''r'' done_run done_world (snd (reconcile_one (done_env Severed (Some [(''summary'', JDict done_summary)])) ''r'' done_world))"
proof -
  let ?env = "done_env Severed (Some [(''summary'', JDict done_summary)])"
  have "rw_runs done_world ''r'' = Some done_run" "run_status done_run \<noteq> ''submitting''" "lr_job_ids done_run = [''41'']" "total_tasks done_run = 2"
    by (simp_all add: done_world_def done_run_def submitting_record_def)
  then show ?thesis
    by (intro no_verdict_without_evidence)
      (simp_all add: done_env_def full_census_def done_census live_ids_def alive_job_ids_def)
qed

definition orphan_run :: live_run where
  "orphan_run = done_run\<lparr>run_status := ''abandoned'', lr_job_ids := [],
     last_status := [(''verdict_reason'', JText NEVER_DISPATCHED_VERDICT_REASON)]\<rparr>"

lemma never_dispatched_reason_is_lost_witness:
  "is_never_dispatched (run_record.truncate orphan_run)
   \<and> (\<exists>r. rw_runs (snd (reconcile_one ((done_env Severed None)\<lparr>re_call := (\<lambda>call c. Severed)\<rparr>) ''r''
      (done_world\<lparr>rw_runs := [''r'' \<mapsto> orphan_run]\<rparr>))) ''r'' = Some r
    \<and> \<not> is_never_dispatched (run_record.truncate r))"
proof -
  let ?env = "(done_env Severed None)\<lparr>re_call := (\<lambda>call c. Severed)\<rparr>" and ?w = "done_world\<lparr>rw_runs := [''r'' \<mapsto> orphan_run]\<rparr>"
  have a: "is_never_dispatched (run_record.truncate orphan_run)"
    by (simp add: orphan_run_def is_never_dispatched_def run_record.truncate_def)
  have b: "rw_runs ?w ''r'' = Some orphan_run" "re_needs_ssh ?env" "lr_job_ids orphan_run = []"
    by (simp_all add: done_env_def orphan_run_def)
  have c: "read_announcements (total_tasks orphan_run) (re_call ?env (AnnounceRead ''r'') (rw_cluster ?w)) = None"
    by (simp add: read_announcements_def)
  have d: "snd (walk ?env orphan_run (rw_cluster ?w)) = None" by (simp add: walk_def done_env_def)
  show ?thesis using never_dispatched_reason_is_lost [OF b(1) a b(2,3) c] a d by auto
qed

end
