(* ===== verification/WaveCombine.thy ===== *)
theory WaveCombine
  imports Reconcile
begin

text \<open>
  The combines of the waves of a run: what a fused run of the combiner prints and how it is read
  (\<open>infra/transport/_combiner.py\<close>, \<open>combiner_absent_in\<close> of \<open>execution/mapreduce/deployed_artifact.py\<close>), the combine
  of one wave and of a burst of them with their records in the journal (\<open>ops/aggregate/combine.py\<close>), and the waves
  that are newly complete (\<open>ops/monitor/waves.py\<close>). The remote combiner is an argument.
\<close>

section \<open>What the combiner prints\<close>

definition WAVE_BEGIN_SENTINEL :: string where "WAVE_BEGIN_SENTINEL = ''__HPC_WAVE_BEGIN__''"
definition WAVE_END_SENTINEL :: string where "WAVE_END_SENTINEL = ''__HPC_WAVE_END__''"
definition BATCH_END_SENTINEL :: string where "BATCH_END_SENTINEL = ''__HPC_BATCH_END__''"
definition COMBINER_ABSENT_SENTINEL :: string where "COMBINER_ABSENT_SENTINEL = ''__HPC_COMBINER_ABSENT__''"

definition combiner_absent_in :: "string \<Rightarrow> string \<Rightarrow> bool" where
  "combiner_absent_in out err = py_contains COMBINER_ABSENT_SENTINEL (out @ err)"

text \<open>The two patterns of a stripped line: \<open>... (\d+)\<close> and \<open>... (\d+) rc=(-?\d+)\<close>.\<close>

definition all_digits :: "string \<Rightarrow> bool" where
  "all_digits s \<longleftrightarrow> s \<noteq> [] \<and> list_all digit s"

definition begin_wave :: "string \<Rightarrow> int option" where
  "begin_wave l =
     (let p = WAVE_BEGIN_SENTINEL @ '' ''; s = drop (length p) l
      in if prefix p l \<and> all_digits s then Some (int (undec s)) else None)"

definition signed_digits :: "string \<Rightarrow> int option" where
  "signed_digits s =
     (case s of
        [] \<Rightarrow> None
      | c # t \<Rightarrow> if c = CHR ''-'' then (if all_digits t then Some (- int (undec t)) else None)
                else if all_digits s then Some (int (undec s)) else None)"

definition end_wave :: "string \<Rightarrow> (int \<times> int) option" where
  "end_wave l =
     (let p = WAVE_END_SENTINEL @ '' ''; s = drop (length p) l; d = digits_of s; r = drop (length d) s
      in if prefix p l \<and> d \<noteq> [] \<and> prefix '' rc='' r
         then map_option (\<lambda>rc. (int (undec d), rc)) (signed_digits (drop 4 r)) else None)"

fun join_lines :: "string list \<Rightarrow> string" where
  "join_lines [] = []"
| "join_lines [l] = l"
| "join_lines (l # ls) = l @ newline @ join_lines ls"

text \<open>The open wave, its lines so far and the results.\<close>

fun parse_batch_lines ::
  "int option \<Rightarrow> string list \<Rightarrow> (int \<times> int \<times> string) list \<Rightarrow> string list \<Rightarrow> (int \<times> int \<times> string) list" where
  "parse_batch_lines cur buf results [] = results"
| "parse_batch_lines cur buf results (l # ls) =
     (case begin_wave (py_strip l) of
        Some n \<Rightarrow> parse_batch_lines (Some n) [] results ls
      | None \<Rightarrow>
          (case (end_wave (py_strip l), cur) of
             (Some (n, rc), Some c) \<Rightarrow>
               if n = c then parse_batch_lines None [] (AList.update c (rc, join_lines buf) results) ls
               else parse_batch_lines cur (buf @ [l]) results ls
           | (_, Some c) \<Rightarrow> parse_batch_lines cur (buf @ [l]) results ls
           | (_, None) \<Rightarrow> parse_batch_lines cur buf results ls))"

definition parse_batch_output :: "string \<Rightarrow> bool \<times> (int \<times> int \<times> string) list" where
  "parse_batch_output out =
     (let ls = splitlines out in (list_ex (\<lambda>l. py_strip l = BATCH_END_SENTINEL) ls, parse_batch_lines None [] [] ls))"

section \<open>The remote combiner\<close>

text \<open>The return code and the two streams, \<open>None\<close> when the command raised.\<close>

record 'c combine_env =
  ce_single :: "string \<Rightarrow> int \<Rightarrow> bool \<Rightarrow> 'c \<Rightarrow> (int \<times> string \<times> string) option \<times> 'c"
  ce_batch :: "string \<Rightarrow> (int \<times> bool) list \<Rightarrow> 'c \<Rightarrow> (int \<times> string \<times> string) option \<times> 'c"

datatype combine_error = CombinerMissing | CombineRaised

type_synonym wave_outcome = "bool \<times> string \<times> string"

definition run_combiner_checked ::
  "'c combine_env \<Rightarrow> string \<Rightarrow> int \<Rightarrow> bool \<Rightarrow> 'c \<Rightarrow> (combine_error + wave_outcome) \<times> 'c" where
  "run_combiner_checked env rid wv force c =
     (case ce_single env rid wv force c of
        (None, c) \<Rightarrow> (Inl CombineRaised, c)
      | (Some (rc, out, err), c) \<Rightarrow> (if combiner_absent_in out err then Inl CombinerMissing else Inr (rc = 0, out, err), c))"

definition run_combiner_batch_checked ::
  "'c combine_env \<Rightarrow> string \<Rightarrow> (int \<times> bool) list \<Rightarrow> 'c \<Rightarrow> (combine_error + (int \<times> wave_outcome) list option) \<times> 'c" where
  "run_combiner_batch_checked env rid wave_forces c =
     (case ce_batch env rid wave_forces c of
        (None, c) \<Rightarrow> (Inl CombineRaised, c)
      | (Some (rc, out, err), c) \<Rightarrow>
          (if combiner_absent_in out err then Inl CombinerMissing
           else (let (complete, parsed) = parse_batch_output out
                 in Inr (if complete then Some (map (\<lambda>(wv, rc, body). (wv, rc = 0, body, body)) parsed) else None)), c))"

section \<open>The outcome of a wave\<close>

text \<open>The searches for \<open>already exists: \S+ \(use --force\<close> and for \<open>\[run_id=([^\]]+)\]\<close>.\<close>

definition refusal_here :: "string \<Rightarrow> bool" where
  "refusal_here s \<longleftrightarrow>
     (let p = ''already exists: ''; t = drop (length p) s; w = takeWhile (\<lambda>c. \<not> is_space c) t
      in prefix p s \<and> w \<noteq> [] \<and> prefix '' (use --force'' (drop (length w) t))"

fun already_combined :: "string \<Rightarrow> bool" where
  "already_combined [] = False"
| "already_combined (c # s) = (refusal_here (c # s) \<or> already_combined s)"

definition run_id_here :: "string \<Rightarrow> string option" where
  "run_id_here s =
     (let p = ''[run_id=''; t = drop (length p) s; w = takeWhile (\<lambda>c. c \<noteq> CHR '']'') t
      in if prefix p s \<and> w \<noteq> [] \<and> length w < length t then Some w else None)"

fun refusal_run_id :: "string \<Rightarrow> string option" where
  "refusal_run_id [] = None"
| "refusal_run_id (c # s) = (case run_id_here (c # s) of Some r \<Rightarrow> Some r | None \<Rightarrow> refusal_run_id s)"

definition refusal_names_foreign_run :: "string \<Rightarrow> string \<Rightarrow> bool" where
  "refusal_names_foreign_run err rid = (case refusal_run_id err of None \<Rightarrow> False | Some r \<Rightarrow> py_strip r \<noteq> rid)"

definition reconcile_combiner_result :: "string \<Rightarrow> int \<Rightarrow> bool \<Rightarrow> live_run option \<Rightarrow> wave_outcome \<Rightarrow> bool \<times> string" where
  "reconcile_combiner_result rid wv force rec outcome =
     (let (ok, out, err) = outcome
      in if \<not> ok \<and> \<not> force \<and> already_combined err \<and> \<not> refusal_names_foreign_run err rid
            \<and> \<not> (case rec of None \<Rightarrow> False | Some r \<Rightarrow> wv \<in> set (lr_failed_waves r))
         then (True, ''wave '' @ int_text wv @ '' already combined on cluster; pass --force to re-run'' @ newline @ out)
         else (ok, out))"

definition with_wave :: "int \<Rightarrow> int list \<Rightarrow> int list" where
  "with_wave wv ws = sorted_list_of_set (insert wv (set ws))"

definition apply_wave_outcome :: "int \<Rightarrow> bool \<Rightarrow> live_run \<Rightarrow> live_run" where
  "apply_wave_outcome wv ok r =
     (if ok
      then r\<lparr>lr_combined := (if wv \<in> set (lr_combined r) then lr_combined r else with_wave wv (lr_combined r)),
             lr_failed_waves := filter (\<lambda>w. w \<noteq> wv) (lr_failed_waves r)\<rparr>
      else if wv \<notin> set (lr_failed_waves r) then r\<lparr>lr_failed_waves := with_wave wv (lr_failed_waves r)\<rparr> else r)"

definition journalled :: "int \<Rightarrow> wave_outcome" where
  "journalled wv = (True, ''wave '' @ int_text wv @ '' already combined (journal); pass --force to re-run the combiner'', [])"

definition in_journal :: "string \<Rightarrow> bool \<Rightarrow> int \<Rightarrow> run_store \<Rightarrow> bool" where
  "in_journal rid force wv runs \<longleftrightarrow>
     \<not> force \<and> (case runs rid of None \<Rightarrow> False | Some r \<Rightarrow> wv \<in> set (lr_combined r))"

section \<open>Combining\<close>

definition combine_wave ::
  "'c combine_env \<Rightarrow> string \<Rightarrow> int \<Rightarrow> bool \<Rightarrow> 'c recon_world \<Rightarrow> (combine_error + wave_outcome) \<times> 'c recon_world" where
  "combine_wave env rid wv force w =
     (if in_journal rid force wv (rw_runs w) then (Inr (journalled wv), w)
      else
        (case run_combiner_checked env rid wv force (rw_cluster w) of
           (Inl e, c) \<Rightarrow> (Inl e, w\<lparr>rw_cluster := c\<rparr>)
         | (Inr (ok, out, err), c) \<Rightarrow>
             (let (ok, out) = reconcile_combiner_result rid wv force (rw_runs w rid) (ok, out, err)
              in case update_run_record rid (apply_wave_outcome wv ok) (rw_runs w) of
                   Inl e \<Rightarrow> (Inl CombineRaised, w\<lparr>rw_cluster := c\<rparr>)
                 | Inr (r, runs) \<Rightarrow> (Inr (ok, out, err), w\<lparr>rw_cluster := c, rw_runs := runs\<rparr>))))"

text \<open>The waves that the fused run did not answer are combined one at a time, in their order.\<close>

fun collect_waves ::
  "'c combine_env \<Rightarrow> string \<Rightarrow> live_run option \<Rightarrow> (int \<times> wave_outcome) list option \<Rightarrow> (int \<times> bool) list \<Rightarrow> 'c recon_world
   \<Rightarrow> (combine_error + (int \<times> wave_outcome) list) \<times> 'c recon_world" where
  "collect_waves env rid rec batch [] w = (Inr [], w)"
| "collect_waves env rid rec batch ((wv, force) # wfs) w =
     (case (case batch of None \<Rightarrow> None | Some b \<Rightarrow> map_of b wv) of
        Some (ok, out, err) \<Rightarrow>
          (let (ok, out) = reconcile_combiner_result rid wv force rec (ok, out, err)
           in case collect_waves env rid rec batch wfs w of
                (Inl e, w) \<Rightarrow> (Inl e, w) | (Inr rs, w) \<Rightarrow> (Inr ((wv, ok, out, err) # rs), w))
      | None \<Rightarrow>
          (case combine_wave env rid wv force w of
             (Inl e, w) \<Rightarrow> (Inl e, w)
           | (Inr outcome, w) \<Rightarrow>
               (case collect_waves env rid rec batch wfs w of
                  (Inl e, w) \<Rightarrow> (Inl e, w) | (Inr rs, w) \<Rightarrow> (Inr ((wv, outcome) # rs), w))))"

text \<open>The record of a fused run: one write for all its waves.\<close>

definition apply_fused :: "int list \<Rightarrow> (int \<times> wave_outcome) list \<Rightarrow> live_run \<Rightarrow> live_run" where
  "apply_fused waves results r =
     foldl (\<lambda>r wv. apply_wave_outcome wv (case map_of results wv of None \<Rightarrow> False | Some (ok, _) \<Rightarrow> ok) r) r waves"

definition combine_waves ::
  "'c combine_env \<Rightarrow> string \<Rightarrow> int list \<Rightarrow> (int \<times> bool) list \<Rightarrow> 'c recon_world
   \<Rightarrow> (combine_error + (int \<times> wave_outcome) list) \<times> 'c recon_world" where
  "combine_waves env rid waves forces w =
     (let ordered = sorted_list_of_set (set waves);
          forced = (\<lambda>wv. map_of forces wv = Some True);
          held = filter (\<lambda>wv. in_journal rid (forced wv) wv (rw_runs w)) ordered;
          results = map (\<lambda>wv. (wv, journalled wv)) held;
          wave_forces = map (\<lambda>wv. (wv, forced wv)) (filter (\<lambda>wv. \<not> in_journal rid (forced wv) wv (rw_runs w)) ordered);
          rec = rw_runs w rid
      in if wave_forces = [] then (Inr results, w)
         else
           (case run_combiner_batch_checked env rid wave_forces (rw_cluster w) of
              (Inl e, c) \<Rightarrow> (Inl e, w\<lparr>rw_cluster := c\<rparr>)
            | (Inr batch, c) \<Rightarrow>
                (case collect_waves env rid rec batch wave_forces (w\<lparr>rw_cluster := c\<rparr>) of
                   (Inl e, w) \<Rightarrow> (Inl e, w)
                 | (Inr rs, w) \<Rightarrow>
                     (let fused = filter (\<lambda>wv. (case batch of None \<Rightarrow> False | Some b \<Rightarrow> map_of b wv \<noteq> None)) (map fst wave_forces)
                      in if fused = [] then (Inr (results @ rs), w)
                         else
                           (case update_run_record rid (apply_fused fused rs) (rw_runs w) of
                              Inl e \<Rightarrow> (Inl CombineRaised, w)
                            | Inr (r, runs) \<Rightarrow> (Inr (results @ rs), w\<lparr>rw_runs := runs\<rparr>))))))"

section \<open>Newly complete waves\<close>

definition wave_number :: "string \<Rightarrow> int option" where
  "wave_number k = py_int_of_text k"

text \<open>The count of a wave as \<open>int(counts.get(key) or 0)\<close>.\<close>

definition complete_wave :: "jval \<Rightarrow> bool" where
  "complete_wave v =
     (case v of
        JDict d \<Rightarrow> (case (task_count d ''total'', task_count d ''complete'') of (Some t, Some c) \<Rightarrow> t > 0 \<and> c = t | _ \<Rightarrow> False)
      | _ \<Rightarrow> False)"

definition declared_waves :: "(string \<times> 'a) list \<Rightarrow> int list" where
  "declared_waves wmap = List.map_filter (\<lambda>(k, v). wave_number k) wmap"

definition newly_complete_waves :: "dict \<Rightarrow> (string \<times> 'a) list option \<Rightarrow> int set \<Rightarrow> int list" where
  "newly_complete_waves summary wmap already =
     (case jget summary ''waves'' of
        JDict block \<Rightarrow>
          sort (List.map_filter (\<lambda>(k, v).
            case wave_number k of
              None \<Rightarrow> None
            | Some n \<Rightarrow>
                (if n \<notin> already \<and> (case wmap of None \<Rightarrow> True | Some m \<Rightarrow> n \<in> set (declared_waves m)) \<and> complete_wave v
                 then Some n else None)) block)
      | _ \<Rightarrow> [])"

text \<open>The block of counts that the announcements give; a wave whose ids \<open>int\<close> refuses is left out.\<close>

fun int_list :: "jval list \<Rightarrow> int list option" where
  "int_list [] = Some []"
| "int_list (v # vs) = (case (jint v, int_list vs) of (Some n, Some ns) \<Rightarrow> Some (n # ns) | _ \<Rightarrow> None)"

definition census_waves_block :: "(string \<times> jval list) list \<Rightarrow> int set \<Rightarrow> dict" where
  "census_waves_block wmap complete_ids =
     List.map_filter (\<lambda>(k, vs).
       map_option (\<lambda>ids. (k, JDict [(''total'', JInt (int (length ids))),
                                   (''complete'', JInt (int (length (filter (\<lambda>t. t \<in> complete_ids) ids))))])) (int_list vs)) wmap"

section \<open>Laws\<close>

lemma set_with_wave [simp]: "set (with_wave wv ws) = insert wv (set ws)"
  by (simp add: with_wave_def del: sorted_list_of_set_insert_remove)

lemma with_wave_tidy: "sorted (with_wave wv ws)" "distinct (with_wave wv ws)"
  by (simp_all add: with_wave_def del: sorted_list_of_set_insert_remove)

lemma apply_wave_fields:
  "set (lr_combined (apply_wave_outcome wv ok r)) = (if ok then insert wv (set (lr_combined r)) else set (lr_combined r))"
  "set (lr_failed_waves (apply_wave_outcome wv ok r)) = (if ok then set (lr_failed_waves r) - {wv} else insert wv (set (lr_failed_waves r)))"
  by (auto simp: apply_wave_outcome_def)

lemma apply_wave_frame:
  "run_id (apply_wave_outcome wv ok r) = run_id r" "run_status (apply_wave_outcome wv ok r) = run_status r"
  "lr_job_ids (apply_wave_outcome wv ok r) = lr_job_ids r" "last_status (apply_wave_outcome wv ok r) = last_status r"
  "total_tasks (apply_wave_outcome wv ok r) = total_tasks r"
  "lr_resume_count (apply_wave_outcome wv ok r) = lr_resume_count r" "lr_recover_count (apply_wave_outcome wv ok r) = lr_recover_count r"
  by (simp_all add: apply_wave_outcome_def)

text \<open>A fused run records, for each of its waves, the outcome of that wave and no other.\<close>

definition wave_ok :: "(int \<times> wave_outcome) list \<Rightarrow> int \<Rightarrow> bool" where
  "wave_ok results wv = (case map_of results wv of None \<Rightarrow> False | Some (ok, _) \<Rightarrow> ok)"

lemma apply_fused_fields:
  assumes "distinct waves"
  shows "set (lr_combined (apply_fused waves results r)) = set (lr_combined r) \<union> {x \<in> set waves. wave_ok results x}"
    "set (lr_failed_waves (apply_fused waves results r))
       = (set (lr_failed_waves r) - {x \<in> set waves. wave_ok results x}) \<union> {x \<in> set waves. \<not> wave_ok results x}"
proof -
  define step where "step = (\<lambda>r wv. apply_wave_outcome wv (wave_ok results wv) r)"
  have eq: "apply_fused waves results r = foldl step r waves"
    unfolding apply_fused_def step_def wave_ok_def ..
  have "distinct waves \<Longrightarrow>
      set (lr_combined (foldl step r waves)) = set (lr_combined r) \<union> {x \<in> set waves. wave_ok results x}
    \<and> set (lr_failed_waves (foldl step r waves))
        = (set (lr_failed_waves r) - {x \<in> set waves. wave_ok results x}) \<union> {x \<in> set waves. \<not> wave_ok results x}" for r
  proof (induction waves arbitrary: r)
    case Nil
    then show ?case by simp
  next
    case (Cons a waves)
    have IH: "set (lr_combined (foldl step (step r a) waves)) = set (lr_combined (step r a)) \<union> {x \<in> set waves. wave_ok results x}"
      "set (lr_failed_waves (foldl step (step r a) waves))
        = (set (lr_failed_waves (step r a)) - {x \<in> set waves. wave_ok results x}) \<union> {x \<in> set waves. \<not> wave_ok results x}"
      using Cons.IH [of "step r a"] Cons.prems by simp_all
    have a: "set (lr_combined (step r a)) = (if wave_ok results a then insert a (set (lr_combined r)) else set (lr_combined r))"
      "set (lr_failed_waves (step r a)) = (if wave_ok results a then set (lr_failed_waves r) - {a} else insert a (set (lr_failed_waves r)))"
      by (simp_all add: step_def apply_wave_fields)
    show ?case unfolding foldl.simps IH a using Cons.prems by auto
  qed
  with assms show "set (lr_combined (apply_fused waves results r)) = set (lr_combined r) \<union> {x \<in> set waves. wave_ok results x}"
    "set (lr_failed_waves (apply_fused waves results r))
       = (set (lr_failed_waves r) - {x \<in> set waves. wave_ok results x}) \<union> {x \<in> set waves. \<not> wave_ok results x}"
    unfolding eq by blast+
qed

end
