(* ===== verification/WaveCombineLaws.thy ===== *)
theory WaveCombineLaws
  imports WaveCombine ClusterTextLaws
begin

text \<open>
  What the combines of waves guarantee: what a fused run prints is read back wave by wave, every requested wave is
  answered and recorded as it came out, and a wave that the journal holds is not run again.
\<close>

section \<open>The frames of a fused run\<close>

definition wave_text :: "int \<Rightarrow> string" where "wave_text n = dec (nat n)"

definition wave_frame :: "int \<times> int \<times> string list \<Rightarrow> string list" where
  "wave_frame f =
     (let (n, rc, body) = f
      in [WAVE_BEGIN_SENTINEL @ '' '' @ wave_text n] @ body @ [WAVE_END_SENTINEL @ '' '' @ wave_text n @ '' rc='' @ int_text rc])"

definition batch_lines :: "(int \<times> int \<times> string list) list \<Rightarrow> string list" where
  "batch_lines fs = concat (map wave_frame fs) @ [BATCH_END_SENTINEL]"

text \<open>A line of a combiner that is none of the three sentinels.\<close>

definition body_line :: "string \<Rightarrow> bool" where
  "body_line l \<longleftrightarrow> one_line l \<and> begin_wave (py_strip l) = None \<and> end_wave (py_strip l) = None"

lemma digits_dec: "list_all digit (dec n)"
  using dec_digits by (auto simp: list_all_iff)

lemma undec_wave: "0 \<le> n \<Longrightarrow> int (undec (wave_text n)) = n"
  by (simp add: wave_text_def)

lemma all_digits_wave: "all_digits (wave_text n)"
  using digits_dec by (simp add: all_digits_def wave_text_def)

lemma signed_digits_int: "signed_digits (int_text rc) = Some rc"
proof (cases "rc < 0")
  case True
  then show ?thesis using digits_dec by (simp add: int_text_def signed_digits_def all_digits_def)
next
  case False
  obtain c s where cs: "dec (nat rc) = c # s" by (cases "dec (nat rc)") auto
  have "digit c" using dec_digits [of c "nat rc"] cs by simp
  then have "c \<noteq> CHR ''-''" by (auto simp: digit_def)
  with False cs show ?thesis using digits_dec [of "nat rc"] undec_dec [of "nat rc"]
    by (simp add: int_text_def signed_digits_def all_digits_def)
qed

lemma digits_of_dec: "\<not> digit c \<Longrightarrow> digits_of (dec n @ c # s) = dec n"
  using digits_dec [of n] by (simp add: digits_of_def takeWhile_append takeWhile_tail list_all_iff)

lemma begin_wave_begin: "0 \<le> n \<Longrightarrow> begin_wave (WAVE_BEGIN_SENTINEL @ '' '' @ wave_text n) = Some n"
  using all_digits_wave undec_wave by (simp add: begin_wave_def Let_def)

lemma begin_wave_end: "begin_wave (WAVE_END_SENTINEL @ s) = None"
  by (simp add: begin_wave_def WAVE_BEGIN_SENTINEL_def WAVE_END_SENTINEL_def)

lemma end_wave_end: "0 \<le> n \<Longrightarrow> end_wave (WAVE_END_SENTINEL @ '' '' @ wave_text n @ '' rc='' @ int_text rc) = Some (n, rc)"
  using undec_wave [of n] digits_of_dec [of "CHR '' ''" "nat n"] signed_digits_int [of rc]
  by (simp add: end_wave_def Let_def wave_text_def digit_def)

text \<open>A line that starts and ends without a blank is its own strip.\<close>

lemma py_strip_id: "l \<noteq> [] \<Longrightarrow> \<not> is_space (hd l) \<Longrightarrow> \<not> is_space (last l) \<Longrightarrow> py_strip l = l"
proof -
  assume a: "l \<noteq> []" "\<not> is_space (hd l)" "\<not> is_space (last l)"
  then have d: "dropWhile is_space l = l" by (cases l) auto
  have "dropWhile is_space (rev l) = rev l" using a by (cases l rule: rev_cases) auto
  then show ?thesis by (simp add: py_strip_def d)
qed

lemma digit_no_space: "digit c \<Longrightarrow> \<not> is_space c"
  by (auto simp: digit_def is_space_def)

lemma last_dec: "digit (last (dec n))"
  using dec_digits [of "last (dec n)" n] by simp

lemma last_int_text: "digit (last (int_text rc))"
  using last_dec by (simp add: int_text_def)

lemma int_text_nonempty [simp]: "int_text rc \<noteq> []"
  by (simp add: int_text_def)

lemma strip_begin: "py_strip (WAVE_BEGIN_SENTINEL @ '' '' @ wave_text n) = WAVE_BEGIN_SENTINEL @ '' '' @ wave_text n"
  using digit_no_space [OF last_dec [of "nat n"]]
  by (intro py_strip_id) (auto simp: WAVE_BEGIN_SENTINEL_def wave_text_def is_space_def)

lemma strip_end: "py_strip (WAVE_END_SENTINEL @ '' '' @ wave_text n @ '' rc='' @ int_text rc)
    = WAVE_END_SENTINEL @ '' '' @ wave_text n @ '' rc='' @ int_text rc"
  using digit_no_space [OF last_int_text [of rc]]
  by (intro py_strip_id) (auto simp: WAVE_END_SENTINEL_def is_space_def)

lemma parse_body:
  "list_all body_line body \<Longrightarrow> parse_batch_lines (Some n) buf results (body @ ls) = parse_batch_lines (Some n) (buf @ body) results ls"
  by (induction body arbitrary: buf) (auto simp: body_line_def)

lemma parse_frame:
  assumes "0 \<le> n" "list_all body_line body"
  shows "parse_batch_lines None [] results (wave_frame (n, rc, body) @ ls)
    = parse_batch_lines None [] (AList.update n (rc, join_lines body) results) ls"
proof -
  define b where "b = WAVE_BEGIN_SENTINEL @ '' '' @ wave_text n"
  define e where "e = WAVE_END_SENTINEL @ '' '' @ wave_text n @ '' rc='' @ int_text rc"
  have frame: "wave_frame (n, rc, body) = b # body @ [e]" by (simp add: wave_frame_def b_def e_def)
  have b: "begin_wave (py_strip b) = Some n" unfolding b_def strip_begin by (rule begin_wave_begin [OF assms(1)])
  have e: "begin_wave (py_strip e) = None" "end_wave (py_strip e) = Some (n, rc)"
    unfolding e_def strip_end by (rule begin_wave_end, rule end_wave_end [OF assms(1)])
  show ?thesis unfolding frame by (simp add: b e parse_body [OF assms(2)])
qed

text \<open>The results of the frames, one entry per wave; \<open>batch_ok\<close> is the range of the round trip.\<close>

definition batch_ok :: "(int \<times> int \<times> string list) list \<Rightarrow> bool" where
  "batch_ok fs \<longleftrightarrow> distinct (map fst fs) \<and> list_all (\<lambda>(n, rc, body). 0 \<le> n \<and> list_all body_line body) fs"

lemma batch_update_fresh: "k \<notin> fst ` set xs \<Longrightarrow> AList.update k v xs = xs @ [(k, v)]"
  by (induction xs) auto

lemma parse_frames:
  "batch_ok fs \<Longrightarrow> fst ` set results \<inter> fst ` set fs = {}
   \<Longrightarrow> parse_batch_lines None [] results (concat (map wave_frame fs) @ ls)
     = parse_batch_lines None [] (results @ map (\<lambda>(n, rc, body). (n, rc, join_lines body)) fs) ls"
proof (induction fs arbitrary: results)
  case Nil
  then show ?case by simp
next
  case (Cons f fs)
  obtain n rc body where f: "f = (n, rc, body)" by (cases f)
  have n: "0 \<le> n" "list_all body_line body" "batch_ok fs" "n \<notin> fst ` set fs" "n \<notin> fst ` set results"
    using Cons.prems by (auto simp: batch_ok_def f)
  have "parse_batch_lines None [] results (concat (map wave_frame (f # fs)) @ ls)
      = parse_batch_lines None [] (results @ [(n, rc, join_lines body)]) (concat (map wave_frame fs) @ ls)"
    using parse_frame [OF n(1,2), of results rc] batch_update_fresh [OF n(5)] by (simp add: f)
  also have "\<dots> = parse_batch_lines None [] ((results @ [(n, rc, join_lines body)]) @ map (\<lambda>(n, rc, body). (n, rc, join_lines body)) fs) ls"
    using Cons.IH [OF n(3), of "results @ [(n, rc, join_lines body)]"] Cons.prems n by (auto simp: f)
  finally show ?case by (simp add: f)
qed

lemma strip_batch_end: "py_strip BATCH_END_SENTINEL = BATCH_END_SENTINEL"
  by code_simp

lemma batch_end_plain: "begin_wave BATCH_END_SENTINEL = None" "end_wave BATCH_END_SENTINEL = None"
  by code_simp+

lemma one_line_dec: "one_line (dec n)"
proof -
  have "\<not> line_break c" if "digit c" for c using that by (auto simp: digit_def line_break_def)
  then show ?thesis using dec_digits by (auto simp: one_line_def list_all_iff)
qed

lemma one_line_frame: "list_all body_line body \<Longrightarrow> list_all one_line (wave_frame (n, rc, body))"
proof -
  assume "list_all body_line body"
  then have "list_all one_line body" by (auto simp: list_all_iff body_line_def)
  moreover have "one_line (int_text rc)" "one_line (wave_text n)"
    using one_line_dec by (auto simp: int_text_def wave_text_def line_break_def)
  moreover have "one_line WAVE_BEGIN_SENTINEL" "one_line WAVE_END_SENTINEL" "one_line '' rc=''" "one_line '' ''" by code_simp+
  ultimately show ?thesis unfolding wave_frame_def by (simp only: split Let_def list_all_append list.pred_inject one_line_append simp_thms)
qed



section \<open>The record of a burst\<close>

text \<open>The waves that came out good are combined and no longer failed, and the bad ones are failed.\<close>

definition recorded :: "int set \<Rightarrow> int set \<Rightarrow> live_run \<Rightarrow> live_run \<Rightarrow> bool" where
  "recorded good bad r r' \<longleftrightarrow>
     set (lr_combined r') = set (lr_combined r) \<union> good \<and> set (lr_failed_waves r') = (set (lr_failed_waves r) - good) \<union> bad"

lemma recorded_none [simp]: "recorded {} {} r r"
  by (simp add: recorded_def)

lemma recorded_trans:
  "recorded g b r r' \<Longrightarrow> recorded g' b' r' r'' \<Longrightarrow> b \<inter> g' = {} \<Longrightarrow> recorded (g \<union> g') (b \<union> b') r r''"
  unfolding recorded_def by blast

lemma combine_wave_records:
  assumes "combine_wave env rid wv force w = (Inr outcome, w')" "\<not> in_journal rid force wv (rw_runs w)" "rw_runs w rid = Some r"
  shows "\<exists>r'. rw_runs w' rid = Some r' \<and> recorded {x. x = wv \<and> fst outcome} {x. x = wv \<and> \<not> fst outcome} r r'"
proof -
  obtain ok out err c where run: "run_combiner_checked env rid wv force (rw_cluster w) = (Inr (ok, out, err), c)"
    using assms by (auto simp: combine_wave_def split: prod.splits sum.splits)
  obtain ok' out' where rc: "reconcile_combiner_result rid wv force (rw_runs w rid) (ok, out, err) = (ok', out')" by fastforce
  have "outcome = (ok', out', err) \<and> rw_runs w' = (rw_runs w)(rid := Some (apply_wave_outcome wv ok' r))"
    using assms run rc by (auto simp: combine_wave_def update_run_record_def)
  then show ?thesis by (auto simp: recorded_def apply_wave_fields)
qed

lemma in_journal_other:
  "rw_runs w rid = Some r \<Longrightarrow> rw_runs w' rid = Some r' \<Longrightarrow> recorded g b r r' \<Longrightarrow> x \<notin> g
   \<Longrightarrow> in_journal rid force x (rw_runs w') = in_journal rid force x (rw_runs w)"
  by (auto simp: in_journal_def recorded_def)

abbreviation answered_alone :: "(int \<times> wave_outcome) list option \<Rightarrow> int \<Rightarrow> bool" where
  "answered_alone batch x \<equiv> (case batch of None \<Rightarrow> True | Some b \<Rightarrow> map_of b x = None)"

lemma collect_waves_records:
  assumes "collect_waves env rid rec batch wfs w = (Inr rs, w')" "rw_runs w rid = Some r" "distinct (map fst wfs)"
    "\<And>x force. (x, force) \<in> set wfs \<Longrightarrow> \<not> in_journal rid force x (rw_runs w)"
  shows "map fst rs = map fst wfs \<and> (\<exists>r'. rw_runs w' rid = Some r' \<and>
    recorded {x \<in> fst ` set wfs. answered_alone batch x \<and> wave_ok rs x} {x \<in> fst ` set wfs. answered_alone batch x \<and> \<not> wave_ok rs x} r r')"
  using assms
proof (induction wfs arbitrary: w r rs)
  case Nil
  then show ?case by simp
next
  case (Cons wf wfs)
  obtain wv force where wf: "wf = (wv, force)" by (cases wf)
  have d: "distinct (map fst wfs)" "wv \<notin> fst ` set wfs" using Cons.prems(3) by (simp_all add: wf)
  have tail: "{x \<in> fst ` set (wf # wfs). P x \<and> wave_ok ((wv, out) # rs') x} = {x. x = wv \<and> P wv \<and> fst out} \<union> {x \<in> fst ` set wfs. P x \<and> wave_ok rs' x}"
    "{x \<in> fst ` set (wf # wfs). P x \<and> \<not> wave_ok ((wv, out) # rs') x} = {x. x = wv \<and> P wv \<and> \<not> fst out} \<union> {x \<in> fst ` set wfs. P x \<and> \<not> wave_ok rs' x}"
    for P :: "int \<Rightarrow> bool" and out :: wave_outcome and rs'
    using d(2) by (auto simp: wf wave_ok_def split: prod.splits)
  show ?case
  proof (cases "answered_alone batch wv")
    case True
    obtain out w1 rs' where c: "combine_wave env rid wv force w = (Inr out, w1)" "collect_waves env rid rec batch wfs w1 = (Inr rs', w')"
      "rs = (wv, out) # rs'"
      using Cons.prems(1) True by (auto simp: wf split: option.splits prod.splits sum.splits)
    have nj: "\<not> in_journal rid force wv (rw_runs w)" using Cons.prems(4) by (simp add: wf)
    obtain r1 where r1: "rw_runs w1 rid = Some r1" "recorded {x. x = wv \<and> fst out} {x. x = wv \<and> \<not> fst out} r r1"
      using combine_wave_records [OF c(1) nj Cons.prems(2)] by blast
    have nj': "\<not> in_journal rid f x (rw_runs w1)" if "(x, f) \<in> set wfs" for x f
    proof -
      have "x \<noteq> wv" using that d(2) by force
      then show ?thesis using in_journal_other [OF Cons.prems(2) r1] Cons.prems(4) [of x f] that by simp
    qed
    obtain r' where r': "map fst rs' = map fst wfs" "rw_runs w' rid = Some r'"
      "recorded {x \<in> fst ` set wfs. answered_alone batch x \<and> wave_ok rs' x} {x \<in> fst ` set wfs. answered_alone batch x \<and> \<not> wave_ok rs' x} r1 r'"
      using Cons.IH [OF c(2) r1(1) d(1) nj'] by blast
    have "recorded ({x. x = wv \<and> fst out} \<union> {x \<in> fst ` set wfs. answered_alone batch x \<and> wave_ok rs' x})
        ({x. x = wv \<and> \<not> fst out} \<union> {x \<in> fst ` set wfs. answered_alone batch x \<and> \<not> wave_ok rs' x}) r r'"
      using recorded_trans [OF r1(2) r'(3)] d(2) by blast
    then show ?thesis using r' c(3) True unfolding c(3) tail by (simp add: wf)
  next
    case False
    then obtain b o1 o2 o3 where b: "batch = Some b" "map_of b wv = Some (o1, o2, o3)" by (cases batch) auto
    obtain out rs' where c: "collect_waves env rid rec batch wfs w = (Inr rs', w')" "rs = (wv, out) # rs'"
      using Cons.prems(1) b by (auto simp: wf split: prod.splits sum.splits)
    obtain r' where r': "map fst rs' = map fst wfs" "rw_runs w' rid = Some r'"
      "recorded {x \<in> fst ` set wfs. answered_alone batch x \<and> wave_ok rs' x} {x \<in> fst ` set wfs. answered_alone batch x \<and> \<not> wave_ok rs' x} r r'"
      using Cons.IH [OF c(1) Cons.prems(2) d(1)] Cons.prems(4) by auto
    then show ?thesis unfolding c(2) tail using False by (simp add: wf)
  qed
qed

text \<open>Every wave of a burst is answered and recorded as it came out. When a burst of combines returns, each requested wave has an
  answer, and in the journal the waves that were run and came out good are combined and no longer failed, those that came
  out bad are failed, and nothing else has changed in the two lists: a wave the journal already held is not run.\<close>

lemma burst_is_recorded:
  assumes "combine_waves env rid waves forces w = (Inr rs, w')" "rw_runs w rid = Some r"
  shows "fst ` set rs = set waves \<and> (\<exists>r'. rw_runs w' rid = Some r' \<and>
    (let ran = {x \<in> set waves. \<not> in_journal rid (map_of forces x = Some True) x (rw_runs w)}
     in set (lr_combined r') = set (lr_combined r) \<union> {x \<in> ran. wave_ok rs x}
      \<and> set (lr_failed_waves r') = (set (lr_failed_waves r) - {x \<in> ran. wave_ok rs x}) \<union> {x \<in> ran. \<not> wave_ok rs x}))"
proof -
  define forced where "forced = (\<lambda>x. map_of forces x = Some True)"
  define J where "J = (\<lambda>x. in_journal rid (forced x) x (rw_runs w))"
  define ordered where "ordered = sorted_list_of_set (set waves)"
  define held where "held = map (\<lambda>x. (x, journalled x)) (filter J ordered)"
  define wfs where "wfs = map (\<lambda>x. (x, forced x)) (filter (\<lambda>x. \<not> J x) ordered)"
  have set_ordered: "set ordered = set waves" "distinct ordered" by (simp_all add: ordered_def)
  have keys: "map fst wfs = filter (\<lambda>x. \<not> J x) ordered" by (simp add: wfs_def o_def)
  have ran: "{x \<in> set waves. \<not> in_journal rid (map_of forces x = Some True) x (rw_runs w)} = fst ` set wfs"
    using arg_cong [OF keys, of set] by (auto simp: set_ordered J_def forced_def)
  have unfolded: "combine_waves env rid waves forces w =
     (if wfs = [] then (Inr held, w)
      else case run_combiner_batch_checked env rid wfs (rw_cluster w) of
              (Inl e, c) \<Rightarrow> (Inl e, w\<lparr>rw_cluster := c\<rparr>)
            | (Inr batch, c) \<Rightarrow>
                (case collect_waves env rid (rw_runs w rid) batch wfs (w\<lparr>rw_cluster := c\<rparr>) of
                   (Inl e, w) \<Rightarrow> (Inl e, w)
                 | (Inr rs, w) \<Rightarrow>
                     (let fused = filter (\<lambda>x. (case batch of None \<Rightarrow> False | Some b \<Rightarrow> map_of b x \<noteq> None)) (map fst wfs)
                      in if fused = [] then (Inr (held @ rs), w)
                         else
                           (case update_run_record rid (apply_fused fused rs) (rw_runs w) of
                              Inl e \<Rightarrow> (Inl CombineRaised, w)
                            | Inr (r, runs) \<Rightarrow> (Inr (held @ rs), w\<lparr>rw_runs := runs\<rparr>)))))"
    unfolding combine_waves_def Let_def wfs_def held_def J_def forced_def ordered_def ..
  show ?thesis
  proof (cases "wfs = []")
    case True
    then have "filter (\<lambda>x. \<not> J x) ordered = []" using keys by simp
    then have "filter J ordered = ordered" by (simp add: filter_id_conv filter_empty_conv)
    then have "rs = map (\<lambda>x. (x, journalled x)) ordered" "w' = w" using assms(1) unfolded True by (simp_all add: held_def)
    then show ?thesis using assms(2) set_ordered True by (auto simp: ran image_image Let_def)
  next
    case False
    obtain batch c where bc: "run_combiner_batch_checked env rid wfs (rw_cluster w) = (Inr batch, c)"
      using assms(1) unfolded False by (auto split: prod.splits sum.splits)
    obtain rs1 w1 where cw: "collect_waves env rid (rw_runs w rid) batch wfs (w\<lparr>rw_cluster := c\<rparr>) = (Inr rs1, w1)"
      using assms(1) unfolded False bc by (auto split: prod.splits sum.splits)
    have "distinct (map fst wfs)" using keys set_ordered by simp
    moreover have "\<And>x force. (x, force) \<in> set wfs \<Longrightarrow> \<not> in_journal rid force x (rw_runs (w\<lparr>rw_cluster := c\<rparr>))"
      by (auto simp: wfs_def J_def)
    ultimately obtain r1 where r1: "map fst rs1 = map fst wfs" "rw_runs w1 rid = Some r1"
      "recorded {x \<in> fst ` set wfs. answered_alone batch x \<and> wave_ok rs1 x} {x \<in> fst ` set wfs. answered_alone batch x \<and> \<not> wave_ok rs1 x} r r1"
      using collect_waves_records [OF cw, of r] assms(2) by auto
    define fused where "fused = filter (\<lambda>x. (case batch of None \<Rightarrow> False | Some b \<Rightarrow> map_of b x \<noteq> None)) (map fst wfs)"
    have "distinct (map fst wfs)" using keys set_ordered by simp
    then have fs: "set fused = {x \<in> fst ` set wfs. \<not> answered_alone batch x}" "distinct fused"
      unfolding fused_def by (auto split: option.splits)
    have rec: "recorded {x \<in> fst ` set wfs. \<not> answered_alone batch x \<and> wave_ok rs1 x} {x \<in> fst ` set wfs. \<not> answered_alone batch x \<and> \<not> wave_ok rs1 x}
        r1 (apply_fused fused rs1 r1)"
      using apply_fused_fields [OF fs(2), of rs1 r1] unfolding recorded_def fs(1) by auto
    have all: "recorded {x \<in> fst ` set wfs. wave_ok rs1 x} {x \<in> fst ` set wfs. \<not> wave_ok rs1 x} r (apply_fused fused rs1 r1)"
    proof -
      have "recorded ({x \<in> fst ` set wfs. answered_alone batch x \<and> wave_ok rs1 x} \<union> {x \<in> fst ` set wfs. \<not> answered_alone batch x \<and> wave_ok rs1 x})
        ({x \<in> fst ` set wfs. answered_alone batch x \<and> \<not> wave_ok rs1 x} \<union> {x \<in> fst ` set wfs. \<not> answered_alone batch x \<and> \<not> wave_ok rs1 x})
        r (apply_fused fused rs1 r1)"
        by (rule recorded_trans [OF r1(3) rec]) blast
      moreover have "{x \<in> A. P x \<and> Q x} \<union> {x \<in> A. \<not> P x \<and> Q x} = {x \<in> A. Q x}" for A :: "int set" and P Q by blast
      ultimately show ?thesis by simp
    qed
    have "fused = [] \<Longrightarrow> apply_fused fused rs1 r1 = r1" by (simp add: apply_fused_def)
    then have out: "rs = held @ rs1 \<and> rw_runs w' rid = Some (apply_fused fused rs1 r1)"
      using assms(1) unfolded False bc cw r1(2)
      by (auto simp: update_run_record_def fused_def [symmetric] split: if_splits)
    have same: "wave_ok rs x = wave_ok rs1 x" if "x \<in> fst ` set wfs" for x
    proof -
      have "x \<notin> fst ` set held" using that arg_cong [OF keys, of set] by (auto simp: held_def)
      then have "map_of held x = None" by (simp add: map_of_eq_None_iff)
      then show ?thesis using out by (simp add: wave_ok_def map_add_def)
    qed
    have "fst ` set rs = set ordered"
      using out arg_cong [OF r1(1), of set] arg_cong [OF keys, of set] by (auto simp: held_def image_Un image_image)
    moreover have "{x \<in> fst ` set wfs. wave_ok rs x} = {x \<in> fst ` set wfs. wave_ok rs1 x}"
      "{x \<in> fst ` set wfs. \<not> wave_ok rs x} = {x \<in> fst ` set wfs. \<not> wave_ok rs1 x}" using same by auto
    moreover have "fst ` set wfs \<noteq> {}" using False by simp
    ultimately show ?thesis using all out set_ordered unfolding recorded_def ran Let_def by auto
  qed
qed

text \<open>A concrete cluster; some waves are not answered by the fused run and raise on their own.\<close>

definition combiner_says :: "int \<Rightarrow> int \<times> string list" where
  "combiner_says wv = (if wv = 1 then (1, [''KeyError'']) else (0, [''wrote wave'']))"

definition demo_combiner :: "int list \<Rightarrow> unit combine_env" where
  "demo_combiner unreachable =
     \<lparr>ce_single = (\<lambda>rid wv force c. (if wv \<in> set unreachable then None
         else Some (fst (combiner_says wv), printed (snd (combiner_says wv)), []), c)),
      ce_batch = (\<lambda>rid wfs c. (Some (0, printed (batch_lines (map (\<lambda>(wv, f). (wv, combiner_says wv))
         (filter (\<lambda>(wv, f). wv \<notin> set unreachable) wfs))), []), c))\<rparr>"

definition demo_record :: "string \<Rightarrow> int list \<Rightarrow> int list \<Rightarrow> live_run" where
  "demo_record rid combined failed =
     (submitting_record \<lparr>mr_run = rid, mr_cluster = ''c'', mr_total = 4, mr_campaign = [], mr_auto_resume = False, mr_max_resumes = 0,
        mr_auto_recover = False, mr_max_recovers = 0\<rparr> 0 ''t'')\<lparr>run_status := ''in_flight'', lr_job_ids := [''7''], lr_combined := combined,
        lr_failed_waves := failed\<rparr>"

definition combine_world :: "int list \<Rightarrow> int list \<Rightarrow> unit recon_world" where
  "combine_world combined failed =
     \<lparr>rw_runs = [''r'' \<mapsto> demo_record ''r'' combined failed], rw_cluster = (), rw_harvests = (\<lambda>x. [])\<rparr>"

lemma reconcile_plain:
  "reconcile_combiner_result rid wv force rec (True, out, err) = (True, out)"
  "\<not> already_combined err \<Longrightarrow> reconcile_combiner_result rid wv force rec (False, out, err) = (False, out)"
  by (simp_all add: reconcile_combiner_result_def)

lemma demo_batch:
  "parse_batch_output (printed (batch_lines [(1, 1, [''KeyError'']), (2, 0, [''wrote wave'']), (3, 0, [''wrote wave''])]))
     = (True, [(1, 1, ''KeyError''), (2, 0, ''wrote wave''), (3, 0, ''wrote wave'')])"
  "combiner_absent_in (printed (batch_lines [(1, 1, [''KeyError'']), (2, 0, [''wrote wave'']), (3, 0, [''wrote wave''])])) [] = False"
  "\<not> already_combined ''KeyError''"
  by code_simp+

lemma demo_burst:
  "fst (combine_waves (demo_combiner []) ''r'' [3, 0, 1, 2] [] (combine_world [0] [3]))
     = Inr [(0, journalled 0), (1, False, ''KeyError'', ''KeyError''), (2, True, ''wrote wave'', ''wrote wave''),
            (3, True, ''wrote wave'', ''wrote wave'')]"
proof -
  have s: "sorted_list_of_set (set [3, 0, 1, 2 :: int]) = [0, 1, 2, 3]" by code_simp
  show ?thesis unfolding combine_waves_def s
    by (simp add: in_journal_def combine_world_def demo_record_def run_combiner_batch_checked_def demo_combiner_def combiner_says_def
        demo_batch reconcile_plain update_run_record_def del: already_combined.simps)
qed

lemma burst_is_recorded_witness:
  "\<exists>w' r'. combine_waves (demo_combiner []) ''r'' [3, 0, 1, 2] [] (combine_world [0] [3])
       = (Inr [(0, journalled 0), (1, False, ''KeyError'', ''KeyError''), (2, True, ''wrote wave'', ''wrote wave''),
               (3, True, ''wrote wave'', ''wrote wave'')], w')
     \<and> rw_runs w' ''r'' = Some r' \<and> set (lr_combined r') = {0, 2, 3} \<and> set (lr_failed_waves r') = {1}"
proof -
  define w' where "w' = snd (combine_waves (demo_combiner []) ''r'' [3, 0, 1, 2] [] (combine_world [0] [3]))"
  define rs :: "(int \<times> wave_outcome) list" where
    "rs = [(0, journalled 0), (1, False, ''KeyError'', ''KeyError''), (2, True, ''wrote wave'', ''wrote wave''),
           (3, True, ''wrote wave'', ''wrote wave'')]"
  have run: "combine_waves (demo_combiner []) ''r'' [3, 0, 1, 2] [] (combine_world [0] [3]) = (Inr rs, w')"
    using demo_burst by (simp add: w'_def rs_def prod_eq_iff)
  have r: "rw_runs (combine_world [0] [3]) ''r'' = Some (demo_record ''r'' [0] [3])" by (simp add: combine_world_def)
  have ran: "{x \<in> set [3, 0, 1, 2 :: int]. \<not> in_journal ''r'' (map_of [] x = Some True) x (rw_runs (combine_world [0] [3]))} = {1, 2, 3}"
    by (auto simp: in_journal_def combine_world_def demo_record_def)
  have ok: "{x \<in> {1, 2, 3}. wave_ok rs x} = {2, 3}" "{x \<in> {1, 2, 3}. \<not> wave_ok rs x} = {1}"
    by (auto simp: wave_ok_def rs_def)
  obtain r' where "rw_runs w' ''r'' = Some r'" "set (lr_combined r') = set (lr_combined (demo_record ''r'' [0] [3])) \<union> {2, 3}"
    "set (lr_failed_waves r') = (set (lr_failed_waves (demo_record ''r'' [0] [3])) - {2, 3}) \<union> {1}"
    using burst_is_recorded [OF run r] unfolding ran Let_def ok by blast
  with run show ?thesis unfolding rs_def by (auto simp: demo_record_def)
qed

text \<open>
  The fused run of waves 0 and 3 answers only wave 0, as combined, and the retry of wave 3 raises: nothing of the burst is journalled,
  although the cluster has combined wave 0. (\<open>combine_waves\<close> writes the fused outcomes after the retries, so its per-wave accounting
  is lost with the first retry that raises; the next combine of wave 0 is refused on the cluster and then taken as done.)
\<close>

lemma cut_batch:
  "parse_batch_output (printed (batch_lines [(0, 0, [''wrote wave''])])) = (True, [(0, 0, ''wrote wave'')])"
  "combiner_absent_in (printed (batch_lines [(0, 0, [''wrote wave''])])) [] = False"
  by code_simp+

lemma fused_outcomes_are_lost:
  "combine_waves (demo_combiner [3]) ''r'' [0, 3] [] (combine_world [] []) = (Inl CombineRaised, combine_world [] [])"
  "run_combiner_batch_checked (demo_combiner [3]) ''r'' [(0, False), (3, False)] ()
     = (Inr (Some [(0, True, ''wrote wave'', ''wrote wave'')]), ())"
proof -
  have s: "sorted_list_of_set (set [0, 3 :: int]) = [0, 3]" by code_simp
  show b: "run_combiner_batch_checked (demo_combiner [3]) ''r'' [(0, False), (3, False)] ()
     = (Inr (Some [(0, True, ''wrote wave'', ''wrote wave'')]), ())"
    by (simp add: run_combiner_batch_checked_def demo_combiner_def combiner_says_def cut_batch)
  show "combine_waves (demo_combiner [3]) ''r'' [0, 3] [] (combine_world [] []) = (Inl CombineRaised, combine_world [] [])"
    unfolding combine_waves_def s using b
    by (simp add: in_journal_def combine_world_def demo_record_def combine_wave_def run_combiner_checked_def reconcile_plain)
      (simp add: demo_combiner_def)
qed

end
