(* ===== verification/HarvestGuard.thy ===== *)
theory HarvestGuard
  imports Reconcile
begin

text \<open>
  The harvest that every end of a watch owes (\<open>ops/monitor/harvest_guard.py\<close>): aggregate the run, once more after
  the cooldown of an open breaker, sweep the partial results for errors, and leave one marker in the run's harvest
  ledger. The aggregation, the sweep and the removal of the local watchdog are arguments.
\<close>

section \<open>The environment\<close>

definition CIRCUIT_WAIT_CAP_SEC :: rat where "CIRCUIT_WAIT_CAP_SEC = 330"
definition CIRCUIT_WAIT_SLACK_SEC :: rat where "CIRCUIT_WAIT_SLACK_SEC = 5"

definition TERMINAL_CAUSES :: "string list" where
  "TERMINAL_CAUSES = [''complete'', ''failed'', ''timeout'', ''cap-overrun'', ''abandoned'', ''partial-kill'', ''abnormal-exit'']"

text \<open>What an aggregation raises or returns: the keys of its metrics, its escalation and its local directory.\<close>

datatype aggregate_answer =
  AggregateCircuitOpen "rat option"
| AggregateLocked
| AggregateRaised string
| Aggregated "string list" "string option" "string option"

record 'c harvest_env =
  hv_aggregate :: "string \<Rightarrow> 'c recon_world \<Rightarrow> aggregate_answer \<times> 'c recon_world"
  hv_sweep :: "string \<Rightarrow> string \<Rightarrow> 'c recon_world \<Rightarrow> string + (string \<times> string list) list"
  hv_clock :: "'c recon_world \<Rightarrow> rat"
  hv_sleep :: "rat \<Rightarrow> 'c recon_world \<Rightarrow> 'c recon_world"
  hv_append_fails :: "'c recon_world \<Rightarrow> bool"
  hv_remove_watchdog :: "'c \<Rightarrow> 'c"
  hv_combiner_dir :: "string \<Rightarrow> string"
  hv_utcnow :: "'c recon_world \<Rightarrow> string"

section \<open>The marker\<close>

record harvest_marker =
  hm_at :: string
  hm_run :: string
  hm_cause :: string
  hm_harvested :: bool
  hm_metrics_error :: "string option"
  hm_skipped :: "string option"
  hm_waited :: "rat option"
  hm_keys :: "string list"
  hm_escalation :: "string option"
  hm_sweep_ran :: bool
  hm_sweep_error :: "string option"
  hm_wave_errors :: "(string \<times> string list) list"
  hm_ok :: bool

definition new_marker :: "string \<Rightarrow> string \<Rightarrow> string \<Rightarrow> harvest_marker" where
  "new_marker now rid cause =
     \<lparr>hm_at = now, hm_run = rid, hm_cause = cause, hm_harvested = False, hm_metrics_error = None, hm_skipped = None,
      hm_waited = None, hm_keys = [], hm_escalation = None, hm_sweep_ran = False, hm_sweep_error = None, hm_wave_errors = [],
      hm_ok = False\<rparr>"

definition jopt :: "string option \<Rightarrow> jval" where
  "jopt s = (case s of None \<Rightarrow> JNull | Some t \<Rightarrow> JText t)"

definition marker_line :: "harvest_marker \<Rightarrow> dict" where
  "marker_line m =
     [(''harvested_at'', JText (hm_at m)), (''run_id'', JText (hm_run m)), (''terminal_cause'', JText (hm_cause m)),
      (''metrics_harvested'', JBool (hm_harvested m)), (''metrics_error'', jopt (hm_metrics_error m)),
      (''harvest_skipped_reason'', jopt (hm_skipped m)),
      (''circuit_waited_sec'', case hm_waited m of None \<Rightarrow> JNull | Some s \<Rightarrow> JFloat s),
      (''aggregated_metric_keys'', JList (map JText (hm_keys m))), (''escalation_reason'', jopt (hm_escalation m)),
      (''error_sweep_ran'', JBool (hm_sweep_ran m)), (''error_sweep_error'', jopt (hm_sweep_error m)),
      (''waves_with_errors'', JDict (map (\<lambda>(k, es). (k, JList (map JText es))) (hm_wave_errors m))), (''harvest_ok'', JBool (hm_ok m))]"

text \<open>The write is best effort.\<close>

definition write_marker :: "'c harvest_env \<Rightarrow> string \<Rightarrow> harvest_marker \<Rightarrow> 'c recon_world \<Rightarrow> 'c recon_world" where
  "write_marker env rid m w =
     (if hv_append_fails env w then w
      else w\<lparr>rw_harvests := (rw_harvests w)(rid := rw_harvests w rid @ [Some (JDict (marker_line m))])\<rparr>)"

section \<open>The harvest\<close>

definition circuit_wait_sec :: "rat option \<Rightarrow> rat \<Rightarrow> rat option" where
  "circuit_wait_sec deadline now =
     (case deadline of
        None \<Rightarrow> None
      | Some d \<Rightarrow> (let remaining = max 0 (d - now)
                   in if remaining > CIRCUIT_WAIT_CAP_SEC then None else Some (remaining + CIRCUIT_WAIT_SLACK_SEC)))"

definition round1 :: "rat \<Rightarrow> rat" where
  "round1 x = of_int (round_half_even (x * 10)) / 10"

text \<open>One aggregation, and a second one after the wait for an open breaker.\<close>

definition aggregate_patiently ::
  "'c harvest_env \<Rightarrow> string \<Rightarrow> 'c recon_world \<Rightarrow> aggregate_answer \<times> rat option \<times> 'c recon_world" where
  "aggregate_patiently env rid w =
     (case hv_aggregate env rid w of
        (AggregateCircuitOpen deadline, w) \<Rightarrow>
          (case circuit_wait_sec deadline (hv_clock env w) of
             None \<Rightarrow> (AggregateCircuitOpen deadline, None, w)
           | Some s \<Rightarrow> (case hv_aggregate env rid (hv_sleep env s w) of (a, w) \<Rightarrow> (a, Some (round1 s), w)))
      | (a, w) \<Rightarrow> (a, None, w))"

definition with_aggregate :: "aggregate_answer \<Rightarrow> rat option \<Rightarrow> harvest_marker \<Rightarrow> harvest_marker" where
  "with_aggregate a waited m =
     (let m = m\<lparr>hm_waited := waited\<rparr>
      in case a of
           Aggregated ks esc cdir \<Rightarrow> m\<lparr>hm_harvested := True, hm_keys := ks, hm_escalation := esc\<rparr>
         | AggregateLocked \<Rightarrow> m\<lparr>hm_skipped := Some ''scope_locked''\<rparr>
         | AggregateCircuitOpen deadline \<Rightarrow> m\<lparr>hm_metrics_error := Some ''SshCircuitOpen: ''\<rparr>
         | AggregateRaised e \<Rightarrow> m\<lparr>hm_metrics_error := Some e\<rparr>)"

definition with_sweep :: "'c harvest_env \<Rightarrow> string \<Rightarrow> aggregate_answer \<Rightarrow> 'c recon_world \<Rightarrow> harvest_marker \<Rightarrow> harvest_marker" where
  "with_sweep env rid a w m =
     (if a = AggregateLocked then m
      else
        (let d = (case a of Aggregated ks esc (Some cdir) \<Rightarrow> if cdir = [] then hv_combiner_dir env rid else cdir
                            | _ \<Rightarrow> hv_combiner_dir env rid)
         in case hv_sweep env d rid w of
              Inl e \<Rightarrow> m\<lparr>hm_sweep_error := Some e\<rparr>
            | Inr errs \<Rightarrow> m\<lparr>hm_sweep_ran := True, hm_wave_errors := errs\<rparr>))"

definition status_at_exit :: "string \<Rightarrow> live_run \<Rightarrow> 'c recon_world \<Rightarrow> string" where
  "status_at_exit rid rec w = (case rw_runs w rid of Some fresh \<Rightarrow> run_status fresh | None \<Rightarrow> run_status rec)"

definition terminal_harvest ::
  "'c harvest_env \<Rightarrow> string \<Rightarrow> string \<Rightarrow> live_run \<Rightarrow> 'c recon_world \<Rightarrow> harvest_marker \<times> 'c recon_world" where
  "terminal_harvest env rid cause rec w =
     (let m = new_marker (hv_utcnow env w) rid cause
      in if cause = ''abnormal-exit'' \<and> status_at_exit rid rec w \<notin> set TERMINAL_STATUSES
         then (let m = m\<lparr>hm_skipped := Some ''run_not_terminal''\<rparr> in (m, write_marker env rid m w))
         else
           (let (a, waited, w) = aggregate_patiently env rid w;
                m = with_sweep env rid a w (with_aggregate a waited m);
                m = m\<lparr>hm_ok := hm_metrics_error m = None \<and> hm_sweep_error m = None\<rparr>;
                w = write_marker env rid m w
            in (m, w\<lparr>rw_cluster := hv_remove_watchdog env (rw_cluster w)\<rparr>)))"

section \<open>Laws\<close>

lemma circuit_wait_bounds:
  "circuit_wait_sec deadline now = Some s \<Longrightarrow> CIRCUIT_WAIT_SLACK_SEC \<le> s \<and> s \<le> CIRCUIT_WAIT_CAP_SEC + CIRCUIT_WAIT_SLACK_SEC"
  by (auto simp: circuit_wait_sec_def Let_def split: option.splits if_splits)

lemma with_sweep_keeps [simp]:
  "hm_cause (with_sweep env rid a w m) = hm_cause m" "hm_run (with_sweep env rid a w m) = hm_run m"
  "hm_skipped (with_sweep env rid a w m) = hm_skipped m" "hm_harvested (with_sweep env rid a w m) = hm_harvested m"
  "hm_metrics_error (with_sweep env rid a w m) = hm_metrics_error m" "hm_waited (with_sweep env rid a w m) = hm_waited m"
  by (auto simp: with_sweep_def Let_def split: sum.splits)

lemma with_aggregate_keeps [simp]:
  "hm_cause (with_aggregate a waited m) = hm_cause m" "hm_run (with_aggregate a waited m) = hm_run m"
  "hm_waited (with_aggregate a waited m) = waited"
  by (auto simp: with_aggregate_def Let_def split: aggregate_answer.splits)

lemma line_skipped: "jget (marker_line m) ''harvest_skipped_reason'' = jopt (hm_skipped m)"
  by (simp add: marker_line_def)

lemma line_cause: "jget (marker_line m) ''terminal_cause'' = JText (hm_cause m)"
  by (simp add: marker_line_def)

lemma harvest_cause [simp]: "hm_cause (fst (terminal_harvest env rid cause rec w)) = cause"
  by (auto simp: terminal_harvest_def Let_def new_marker_def split: prod.splits)

lemma waited_bounds:
  assumes "aggregate_patiently env rid w = (a, waited, w')"
  shows "waited = None \<or> (\<exists>s. waited = Some (round1 s) \<and> 5 \<le> s \<and> s \<le> 335)"
  using assms circuit_wait_bounds
  by (fastforce simp: aggregate_patiently_def CIRCUIT_WAIT_CAP_SEC_def CIRCUIT_WAIT_SLACK_SEC_def
      split: prod.splits aggregate_answer.splits option.splits)

text \<open>What the environment has to keep: an aggregation and a pause do not write the ledger of harvests.\<close>

definition ledger_kept :: "'c harvest_env \<Rightarrow> string \<Rightarrow> bool" where
  "ledger_kept env rid \<longleftrightarrow>
     (\<forall>w. rw_harvests (snd (hv_aggregate env rid w)) rid = rw_harvests w rid)
     \<and> (\<forall>s w. rw_harvests (hv_sleep env s w) rid = rw_harvests w rid)"

lemma patiently_keeps_ledger:
  assumes "ledger_kept env rid" "aggregate_patiently env rid w = (a, waited, w')"
  shows "rw_harvests w' rid = rw_harvests w rid"
proof -
  have k: "rw_harvests w2 rid = rw_harvests w1 rid" if "hv_aggregate env rid w1 = (b, w2)" for b w1 w2
    using assms(1) that unfolding ledger_kept_def by (metis snd_conv)
  have s: "rw_harvests (hv_sleep env n w1) rid = rw_harvests w1 rid" for n w1 using assms(1) by (simp add: ledger_kept_def)
  show ?thesis using assms(2) k s
    by (fastforce simp: aggregate_patiently_def split: prod.splits aggregate_answer.splits option.splits)
qed

definition not_terminal_exit :: "string \<Rightarrow> string \<Rightarrow> live_run \<Rightarrow> 'c recon_world \<Rightarrow> bool" where
  "not_terminal_exit cause rid rec w \<longleftrightarrow> cause = ''abnormal-exit'' \<and> status_at_exit rid rec w \<notin> set TERMINAL_STATUSES"

lemma aggregate_skip: "hm_skipped m = None \<Longrightarrow> hm_skipped (with_aggregate a waited m) \<noteq> Some ''run_not_terminal''"
  by (auto simp: with_aggregate_def Let_def split: aggregate_answer.splits)

lemma harvest_skipped:
  "hm_skipped (fst (terminal_harvest env rid cause rec w)) = Some ''run_not_terminal'' \<longleftrightarrow> not_terminal_exit cause rid rec w"
  using aggregate_skip [of "new_marker (hv_utcnow env w) rid cause"]
  by (auto simp: terminal_harvest_def not_terminal_exit_def Let_def new_marker_def split: prod.splits)

lemma harvest_skip_world:
  "not_terminal_exit cause rid rec w \<Longrightarrow> rw_runs (snd (terminal_harvest env rid cause rec w)) = rw_runs w
    \<and> rw_cluster (snd (terminal_harvest env rid cause rec w)) = rw_cluster w"
  by (simp add: terminal_harvest_def not_terminal_exit_def Let_def write_marker_def)

lemma harvest_ledger:
  assumes "ledger_kept env rid" "\<And>w. \<not> hv_append_fails env w"
  shows "rw_harvests (snd (terminal_harvest env rid cause rec w)) rid
    = rw_harvests w rid @ [Some (JDict (marker_line (fst (terminal_harvest env rid cause rec w))))]"
proof (cases "not_terminal_exit cause rid rec w")
  case True
  then show ?thesis using assms(2) by (simp add: terminal_harvest_def not_terminal_exit_def Let_def write_marker_def)
next
  case False
  obtain a waited w1 where p: "aggregate_patiently env rid w = (a, waited, w1)" by (cases "aggregate_patiently env rid w") auto
  show ?thesis using False assms(2) patiently_keeps_ledger [OF assms(1) p]
    by (simp add: terminal_harvest_def not_terminal_exit_def Let_def p write_marker_def)
qed

lemma receipt_snoc: "harvest_receipt_exists (ls @ [Some (JDict d)]) \<longleftrightarrow>
    harvest_receipt_exists ls \<or> jget d ''harvest_skipped_reason'' \<noteq> JText ''run_not_terminal''"
  by (auto simp: harvest_receipt_exists_def)


text \<open>An aggregation that finds the breaker open until second 300, and then the scope locked.\<close>

definition demo_harvest :: "nat harvest_env" where
  "demo_harvest =
     \<lparr>hv_aggregate = (\<lambda>rid w. (if rw_cluster w < 300 then AggregateCircuitOpen (Some 300) else AggregateLocked, w)),
      hv_sweep = (\<lambda>d rid w. Inr []), hv_clock = (\<lambda>w. of_nat (rw_cluster w)),
      hv_sleep = (\<lambda>s w. w\<lparr>rw_cluster := rw_cluster w + nat \<lceil>s\<rceil>\<rparr>), hv_append_fails = (\<lambda>w. False), hv_remove_watchdog = (\<lambda>c. c),
      hv_combiner_dir = (\<lambda>rid. ''_combiner''), hv_utcnow = (\<lambda>w. ''t'')\<rparr>"

definition harvest_world :: "live_run \<Rightarrow> nat \<Rightarrow> nat recon_world" where
  "harvest_world rec c = \<lparr>rw_runs = [''r'' \<mapsto> rec], rw_cluster = c, rw_harvests = (\<lambda>x. [])\<rparr>"

definition harvest_record :: "string \<Rightarrow> live_run" where
  "harvest_record status = (submitting_record \<lparr>mr_run = ''r'', mr_cluster = ''c'', mr_total = 4, mr_campaign = [], mr_auto_resume = False,
     mr_max_resumes = 0, mr_auto_recover = False, mr_max_recovers = 0\<rparr> 0 ''t'')\<lparr>run_status := status\<rparr>"


end
