(* ===== verification/StreamHarvest.thy ===== *)
theory StreamHarvest
  imports Reconcile
begin

text \<open>
  The incremental harvest of a watch: when finished results are streamed home (\<open>ops/monitor/stream_harvest.py\<close>) and
  one tick's attempt (\<open>_stream_finished_results\<close> of \<open>ops/monitor_flow.py\<close>). The pull itself and the state of the
  host's breaker are arguments. \<open>None\<close> for the time since the last attempt stands for infinity.
\<close>

section \<open>The gate\<close>

definition STREAM_BATCH_TASKS :: int where "STREAM_BATCH_TASKS = 25"
definition STREAM_MIN_INTERVAL_SEC :: rat where "STREAM_MIN_INTERVAL_SEC = 300"
definition STREAM_SPACING_FLOOR_SEC :: rat where "STREAM_SPACING_FLOOR_SEC = 60"

definition incremental_harvest_enabled :: "bool option \<Rightarrow> bool \<Rightarrow> string option \<Rightarrow> bool" where
  "incremental_harvest_enabled spec_flag needs_ssh env_flag =
     (if \<not> needs_ssh then False else (case spec_flag of Some b \<Rightarrow> b | None \<Rightarrow> env_flag \<noteq> Some ''0''))"

definition since_at_least :: "rat option \<Rightarrow> rat \<Rightarrow> bool" where
  "since_at_least since bound = (case since of None \<Rightarrow> True | Some s \<Rightarrow> s \<ge> bound)"

definition should_stream :: "int \<Rightarrow> int \<Rightarrow> rat option \<Rightarrow> int \<Rightarrow> rat \<Rightarrow> rat \<Rightarrow> bool" where
  "should_stream finished last_streamed since batch min_interval spacing_floor =
     (let fresh = finished - max 0 last_streamed
      in if finished \<le> 0 then False
         else if fresh \<le> 0 then False
         else if \<not> since_at_least since spacing_floor then False
         else if fresh \<ge> batch then True
         else since_at_least since min_interval)"

definition stream_blocked_by :: "string option \<Rightarrow> (string \<Rightarrow> string) \<Rightarrow> string option" where
  "stream_blocked_by target state_of =
     (case target of
        None \<Rightarrow> Some ''no_ssh_target''
      | Some t \<Rightarrow>
          (if t = [] then Some ''no_ssh_target''
           else if state_of t = ''closed'' then None else Some (''ssh_circuit_'' @ state_of t)))"

section \<open>A tick's attempt\<close>

record stream_state =
  st_enabled :: bool
  st_complete_at :: int
  st_last_attempt :: "rat option"
  st_pulls :: int
  st_files :: int
  st_bytes :: int
  st_mirrored :: int
  st_paused :: "string option"
  st_error :: "string option"

definition new_stream :: "bool \<Rightarrow> int \<Rightarrow> stream_state" where
  "new_stream enabled mirrored =
     \<lparr>st_enabled = enabled, st_complete_at = - 1, st_last_attempt = None, st_pulls = 0, st_files = 0, st_bytes = 0,
      st_mirrored = mirrored, st_paused = None, st_error = None\<rparr>"

record 'c stream_env =
  sv_target :: "live_run \<Rightarrow> string option"
  sv_breaker :: "'c recon_world \<Rightarrow> string \<Rightarrow> string"
  sv_pull :: "string \<Rightarrow> live_run \<Rightarrow> 'c recon_world \<Rightarrow> dict option \<times> 'c recon_world"
  sv_batch :: int
  sv_interval :: rat
  sv_floor :: rat

datatype stream_action = StreamPaused string int | StreamFailed int string | Streamed int int int int

text \<open>\<open>str(pulled.get("error") or "")[:200]\<close> of a text.\<close>

definition error_tail :: "dict \<Rightarrow> string" where
  "error_tail pulled = (case jget pulled ''error'' of JText s \<Rightarrow> take 200 s | _ \<Rightarrow> [])"

definition stream_finished_results ::
  "'c stream_env \<Rightarrow> string \<Rightarrow> live_run \<Rightarrow> rat \<Rightarrow> dict \<Rightarrow> stream_state \<Rightarrow> 'c recon_world
   \<Rightarrow> stream_action option \<times> stream_state \<times> 'c recon_world" where
  "stream_finished_results env rid rec now summary st w =
     (let finished = tasks_in summary ''complete'';
          since = map_option (\<lambda>t. now - t) (st_last_attempt st)
      in if \<not> st_enabled st then (None, st, w)
         else if \<not> should_stream finished (st_complete_at st) since (sv_batch env) (sv_interval env) (sv_floor env) then (None, st, w)
         else
           (case stream_blocked_by (sv_target env rec) (sv_breaker env w) of
              Some blocked \<Rightarrow>
                (Some (StreamPaused blocked finished), st\<lparr>st_paused := Some blocked, st_last_attempt := Some now\<rparr>, w)
            | None \<Rightarrow>
                (let st = st\<lparr>st_last_attempt := Some now\<rparr>
                 in case sv_pull env rid rec w of
                      (None, w) \<Rightarrow>
                        (Some (StreamPaused ''opted_out'' finished), st\<lparr>st_enabled := False, st_paused := Some ''opted_out''\<rparr>, w)
                    | (Some pulled, w) \<Rightarrow>
                        (if \<not> truthy (jget pulled ''ok'')
                         then (Some (StreamFailed finished (error_tail pulled)), st\<lparr>st_error := Some (error_tail pulled)\<rparr>, w)
                         else
                           (let files = tasks_in pulled ''files_pulled''; bytes = tasks_in pulled ''bytes_pulled'';
                                mirrored = tasks_in pulled ''tasks_mirrored''
                            in (Some (Streamed finished files bytes mirrored),
                                st\<lparr>st_paused := None, st_error := None, st_complete_at := finished, st_pulls := st_pulls st + 1,
                                   st_files := st_files st + files, st_bytes := st_bytes st + bytes, st_mirrored := mirrored\<rparr>, w))))))"

definition stream_disclosure :: "stream_state \<Rightarrow> dict" where
  "stream_disclosure st =
     [(''enabled'', JBool (st_enabled st)), (''pulls'', JInt (st_pulls st)), (''files_pulled'', JInt (st_files st)),
      (''bytes_pulled'', JInt (st_bytes st)), (''tasks_mirrored'', JInt (st_mirrored st)),
      (''paused_reason'', case st_paused st of None \<Rightarrow> JNull | Some s \<Rightarrow> JText s),
      (''last_error'', case st_error st of None \<Rightarrow> JNull | Some s \<Rightarrow> JText s)]"

section \<open>Laws\<close>

lemma should_stream_spaced: "should_stream finished lst (Some s) batch interval spacing \<Longrightarrow> spacing \<le> s \<and> max 0 lst < finished"
  by (auto simp: should_stream_def since_at_least_def Let_def split: if_splits)

text \<open>The attempts of a sequence of ticks, given by their times, the statuses seen and the worlds between them.\<close>

fun stream_attempts ::
  "'c stream_env \<Rightarrow> string \<Rightarrow> live_run \<Rightarrow> (rat \<times> dict \<times> 'c recon_world) list \<Rightarrow> stream_state \<Rightarrow> rat list" where
  "stream_attempts env rid rec [] st = []"
| "stream_attempts env rid rec ((now, summary, w) # ticks) st =
     (case stream_finished_results env rid rec now summary st w of
        (None, st', w') \<Rightarrow> stream_attempts env rid rec ticks st'
      | (Some a, st', w') \<Rightarrow> now # stream_attempts env rid rec ticks st')"

lemma attempt_stamped:
  "stream_finished_results env rid rec now summary st w = (Some a, st', w') \<Longrightarrow>
     st_last_attempt st' = Some now \<and> (\<forall>t. st_last_attempt st = Some t \<longrightarrow> sv_floor env \<le> now - t)"
  using should_stream_spaced
  by (fastforce simp: stream_finished_results_def Let_def split: if_splits option.splits prod.splits)

lemma no_attempt:
  "stream_finished_results env rid rec now summary st w = (None, st', w') \<Longrightarrow> st' = st \<and> w' = w"
  by (auto simp: stream_finished_results_def Let_def split: if_splits option.splits prod.splits)

lemma attempts_after:
  "st_last_attempt st = Some t \<Longrightarrow> 
   (\<forall>x\<in>set (stream_attempts env rid rec ticks st). t + sv_floor env \<le> x \<or> sv_floor env < 0)
   \<and> sorted_wrt (\<lambda>a b. a + sv_floor env \<le> b \<or> sv_floor env < 0) (stream_attempts env rid rec ticks st)"
proof (induction ticks arbitrary: st t)
  case Nil
  then show ?case by simp
next
  case (Cons tick ticks)
  obtain now summary w where tick: "tick = (now, summary, w)" by (metis prod_cases3)
  obtain a st' w' where s: "stream_finished_results env rid rec now summary st w = (a, st', w')" by (metis prod_cases3)
  show ?case
  proof (cases a)
    case None
    then show ?thesis using Cons no_attempt [OF s [unfolded None]] by (simp add: tick s)
  next
    case (Some x)
    note st' = attempt_stamped [OF s [unfolded Some]]
    have IH: "(\<forall>x\<in>set (stream_attempts env rid rec ticks st'). now + sv_floor env \<le> x \<or> sv_floor env < 0)
        \<and> sorted_wrt (\<lambda>a b. a + sv_floor env \<le> b \<or> sv_floor env < 0) (stream_attempts env rid rec ticks st')"
      using Cons.IH st' by blast
    have "t + sv_floor env \<le> now" using st' Cons.prems by (auto simp: algebra_simps)
    then show ?thesis using IH by (fastforce simp: tick s Some)
  qed
qed

lemma streams_are_spaced:
  assumes "0 \<le> sv_floor env"
  shows "sorted_wrt (\<lambda>a b. a + sv_floor env \<le> b) (stream_attempts env rid rec ticks st)"
proof (induction ticks arbitrary: st)
  case Nil
  then show ?case by simp
next
  case (Cons tick ticks)
  obtain now summary w where tick: "tick = (now, summary, w)" by (metis prod_cases3)
  obtain a st' w' where s: "stream_finished_results env rid rec now summary st w = (a, st', w')" by (metis prod_cases3)
  show ?case
  proof (cases a)
    case None
    then show ?thesis using Cons.IH [of st'] by (simp add: tick s)
  next
    case (Some x)
    have "\<forall>x\<in>set (stream_attempts env rid rec ticks st'). now + sv_floor env \<le> x"
      using attempts_after [of st' now env rid rec ticks] attempt_stamped [OF s [unfolded Some]] assms by auto
    then show ?thesis using Cons.IH [of st'] by (simp add: tick s Some)
  qed
qed

end
