(* ===== verification/AutoRecover.thy ===== *)
theory AutoRecover
  imports Reconcile Decision
begin

text \<open>
  What a watch does about a failed run: the resolver of a failure class (\<open>ops/recover/resolve.py\<close>, over the decision
  kernel), its evidence (\<open>ops/recover/features_glue.py\<close>), the gate and the composite that resume preempted tasks
  (\<open>recovery/auto_resume.py\<close>, \<open>ops/auto_resume_flow.py\<close>) and the one that recovers clusters of failures
  (\<open>ops/resolve_and_recover_flow.py\<close>). The resubmission itself and the fetch of the failures are arguments.
\<close>

section \<open>Resolving a failure\<close>

record failure_features =
  ft_class :: "string option"
  ft_resources :: "dict option"
  ft_attempts :: "(int \<times> string list) option"
  ft_first :: bool

definition DETERMINISTIC :: "string list" where
  "DETERMINISTIC = [''gpu_oom'', ''system_oom'', ''walltime'', ''node_failure'']"

definition ALWAYS_JUDGEMENT :: "string list" where
  "ALWAYS_JUDGEMENT = [''segv'', ''queue_stall'', ''code_bug'', ''unknown'']"

definition PARALLELISM_KEYS :: "string list" where
  "PARALLELISM_KEYS = [''tp_size'', ''tensor_parallel'', ''tensor_parallel_size'', ''pp_size'', ''pipeline_parallel'', ''model_parallel'',
     ''world_size'']"

definition WIDTH_KEYS :: "string list" where
  "WIDTH_KEYS = [''batch_size'', ''micro_batch'', ''batch'', ''n'', ''num_samples'', ''width'']"

definition degree_value :: "jval \<Rightarrow> int option" where
  "degree_value v =
     (case v of
        JInt n \<Rightarrow> Some n
      | JText s \<Rightarrow> if s \<noteq> [] \<and> list_all digit s then Some (int (undec s)) else None
      | _ \<Rightarrow> None)"

definition degree :: "dict option \<Rightarrow> string list \<Rightarrow> int option" where
  "degree spec keys =
     (case spec of
        None \<Rightarrow> None
      | Some d \<Rightarrow>
          foldl (\<lambda>best k. case degree_value (jget d k) of
              None \<Rightarrow> best
            | Some v \<Rightarrow> (case best of None \<Rightarrow> Some v | Some b \<Rightarrow> Some (max b v))) None keys)"

definition strategy_exhausted :: "failure_features \<Rightarrow> string \<Rightarrow> int \<Rightarrow> bool" where
  "strategy_exhausted f strategy cap =
     (case ft_attempts f of None \<Rightarrow> False | Some (n, strategies) \<Rightarrow> if n \<ge> cap then True else strategy \<in> set strategies)"

definition half_more :: dict where "half_more = [(''factor'', JFloat (3 / 2))]"

definition gpu_oom_action :: "dict option \<Rightarrow> bool \<Rightarrow> string \<times> dict" where
  "gpu_oom_action spec first =
     (if (case degree spec PARALLELISM_KEYS of None \<Rightarrow> False | Some p \<Rightarrow> p > 1)
      then (''increase-parallelism'', [(''knob'', JText ''tp_size''), (''factor'', JInt 2)])
      else if (case degree spec WIDTH_KEYS of None \<Rightarrow> False | Some n \<Rightarrow> n > 1) \<and> first
      then (''reduce-width'', [(''factor'', JFloat (1 / 2))])
      else (''increase-mem-per-gpu'', half_more))"

definition error_class_of :: "failure_features \<Rightarrow> string" where
  "error_class_of f = (case ft_class f of None \<Rightarrow> ''unknown'' | Some c \<Rightarrow> c)"

text \<open>The strategy and its parameters.\<close>

definition deterministic_fix :: "string \<Rightarrow> dict option \<Rightarrow> bool \<Rightarrow> string \<times> dict" where
  "deterministic_fix cls spec first =
     (if cls = ''gpu_oom'' then gpu_oom_action spec first
      else if cls = ''system_oom'' then (''increase-mem'', half_more)
      else if cls = ''walltime'' then (''increase-walltime'', if first then [(''factor'', JFloat 2)] else half_more)
      else (''retry-on-different-node'', []))"

text \<open>A reason is the values that its text renders.\<close>

datatype recover_reason = ClassAndStrategy string string | Ambiguous string | NoRule string | Exhausted string string | Remark string

definition candidate :: "string \<Rightarrow> dict \<Rightarrow> string \<Rightarrow> recover_reason \<Rightarrow> recover_reason candidate_action" where
  "candidate act ps src why = \<lparr>action = act, params = ps, rationale = why, source = Some src\<rparr>"

definition code_rule :: "int \<Rightarrow> failure_features \<Rightarrow> recover_reason candidate_action option" where
  "code_rule cap f =
     (let cls = error_class_of f
      in if cls \<in> set ALWAYS_JUDGEMENT \<or> cls \<notin> set DETERMINISTIC then None
         else
           (let (strategy, ps) = deterministic_fix cls (ft_resources f) (ft_first f)
            in if strategy_exhausted f strategy cap then None
               else Some (candidate strategy ps ''policy'' (ClassAndStrategy cls strategy))))"

definition user_debug :: "recover_reason \<Rightarrow> recover_reason candidate_action" where
  "user_debug why = candidate ''user-debug'' [] ''catalog'' why"

definition judgement_candidates :: "string \<Rightarrow> recover_reason candidate_action list" where
  "judgement_candidates cls =
     (if cls = ''code_bug''
      then [candidate ''retry'' [] ''policy'' (Remark ''if transient''), user_debug (Remark ''if a real bug'')]
      else if cls = ''segv''
      then [candidate ''retry-on-different-node'' [] ''policy'' (Remark ''if node-degraded''), user_debug (Remark ''if a real bug'')]
      else if cls = ''queue_stall'' then [candidate ''wait'' [] ''policy'' (Remark ''scheduler backlog'')]
      else [user_debug (Remark [])])"

definition abstain :: "failure_features \<Rightarrow> recover_reason escalation" where
  "abstain f =
     (let cls = error_class_of f
      in if cls \<in> set ALWAYS_JUDGEMENT then \<lparr>esc_reason = Ambiguous cls, candidate_actions = judgement_candidates cls\<rparr>
         else if cls \<notin> set DETERMINISTIC then \<lparr>esc_reason = NoRule cls, candidate_actions = [user_debug (Remark [])]\<rparr>
         else
           (let strategy = fst (deterministic_fix cls (ft_resources f) (ft_first f))
            in \<lparr>esc_reason = Exhausted cls strategy, candidate_actions = [candidate strategy [] ''policy'' (Remark ''already tried'')]\<rparr>))"

definition resolve_failure :: "failure_features \<Rightarrow> int \<Rightarrow> kernel_error + recover_reason decision" where
  "resolve_failure f cap = decide ''recover'' f [code_rule cap] (Some abstain) None None"

section \<open>The evidence\<close>

text \<open>\<open>str(tid)\<close> of a task id.\<close>

definition task_key :: "jval \<Rightarrow> string" where
  "task_key v = (case v of JInt n \<Rightarrow> int_text n | JText s \<Rightarrow> s | _ \<Rightarrow> [])"

definition resource_spec_from_sidecar :: "dict option \<Rightarrow> dict" where
  "resource_spec_from_sidecar sidecar =
     (case sidecar of
        None \<Rightarrow> []
      | Some sc \<Rightarrow> merged (dict_or_empty (jget sc ''resources'')) (dict_or_empty (jget (dict_or_empty (jget sc ''extra'')) ''spec_kwargs'')))"

definition add_strategy :: "string list \<Rightarrow> jval \<Rightarrow> string list" where
  "add_strategy ss v = (case v of JText s \<Rightarrow> if s \<noteq> [] \<and> s \<notin> set ss then ss @ [s] else ss | _ \<Rightarrow> ss)"

definition retry_facts :: "jval \<Rightarrow> jval list \<Rightarrow> int \<times> string list" where
  "retry_facts recorded tids =
     foldl (\<lambda>(best, ss) tid.
        case jget (dict_or_empty recorded) (task_key tid) of
          JDict prior \<Rightarrow>
            (max best (case task_count prior ''attempts'' of None \<Rightarrow> 0 | Some n \<Rightarrow> n),
             let ss = add_strategy ss (jget prior ''category'')
             in (case jget prior ''overrides'' of JDict o' \<Rightarrow> add_strategy ss (jget o' ''action'') | _ \<Rightarrow> ss))
        | _ \<Rightarrow> (best, ss)) (0, []) tids"

definition list_or_empty :: "jval \<Rightarrow> jval list" where
  "list_or_empty v = (case v of JList xs \<Rightarrow> xs | _ \<Rightarrow> [])"

text \<open>The phase of the temporal context is written as \<open>unknown\<close>.\<close>

definition build_failure_features :: "dict \<Rightarrow> live_run \<Rightarrow> dict option \<Rightarrow> failure_features" where
  "build_failure_features cluster_dict rec sidecar =
     (let spec = resource_spec_from_sidecar sidecar
      in \<lparr>ft_class = (case jget cluster_dict ''error_class'' of JText c \<Rightarrow> Some c | _ \<Rightarrow> None),
          ft_resources = (if spec = [] then None else Some spec),
          ft_attempts = Some (retry_facts (retries rec) (list_or_empty (jget cluster_dict ''task_ids''))),
          ft_first = False\<rparr>)"

section \<open>The environment of a rescue\<close>

record resubmit_request =
  rq_tasks :: "int list"
  rq_category :: jval
  rq_overrides :: dict
  rq_id :: string
  rq_bypass_throttle :: bool

text \<open>The resubmission raises an error of the package or of the system, or says whether it was a replay.\<close>

datatype resubmit_outcome = ResubmitRaised | ResubmitDone bool "string list"

record 'c rescue_env =
  rv_failures :: "string \<Rightarrow> 'c recon_world \<Rightarrow> jval option"
  rv_resubmit :: "string \<Rightarrow> resubmit_request \<Rightarrow> 'c recon_world \<Rightarrow> resubmit_outcome \<times> 'c recon_world"
  rv_write_fails :: "'c recon_world \<Rightarrow> bool"
  rv_sidecar :: "string \<Rightarrow> dict option"
  rv_valid :: "dict \<Rightarrow> bool"
  rv_dump :: "recover_reason escalation \<Rightarrow> dict"

text \<open>The bump of a counter; a write that fails leaves the stored counter as it is, but counts.\<close>

definition bump_counter ::
  "'c rescue_env \<Rightarrow> string \<Rightarrow> (live_run \<Rightarrow> live_run) \<Rightarrow> (live_run \<Rightarrow> int) \<Rightarrow> int \<Rightarrow> 'c recon_world \<Rightarrow> int \<times> 'c recon_world" where
  "bump_counter env rid put get n w =
     (if rv_write_fails env w then (n, w)
      else (case update_run_status rid put (rw_runs w) of
              Inl e \<Rightarrow> (n, w) | Inr (r, runs) \<Rightarrow> (get r, w\<lparr>rw_runs := runs\<rparr>)))"

section \<open>Resuming preempted tasks\<close>

datatype resume_reason =
  PolicyOff | NothingResumable | CapReached int int | UnderCap | KillRequested string | FailuresUnread | ResumeRaised

definition decide_auto_resume_from_ids :: "int list \<Rightarrow> bool \<Rightarrow> int \<Rightarrow> int \<Rightarrow> bool \<times> int list \<times> resume_reason" where
  "decide_auto_resume_from_ids ids policy n cap =
     (if \<not> policy then (False, sort ids, PolicyOff)
      else if ids = [] then (False, [], NothingResumable)
      else if n \<ge> cap then (False, sort ids, CapReached n cap)
      else (True, sort ids, UnderCap))"

record auto_outcome =
  ao_resume :: bool
  ao_reason :: resume_reason
  ao_tasks :: "int list"
  ao_resubmitted :: bool
  ao_count :: int

definition escalate_resume :: "resume_reason \<Rightarrow> auto_outcome" where
  "escalate_resume why = \<lparr>ao_resume = False, ao_reason = why, ao_tasks = [], ao_resubmitted = False, ao_count = 0\<rparr>"

definition authoritative_preempted_ids :: "'c rescue_env \<Rightarrow> string \<Rightarrow> 'c recon_world \<Rightarrow> int list option" where
  "authoritative_preempted_ids env rid w =
     (case rv_failures env rid w of
        None \<Rightarrow> None
      | Some (JDict d) \<Rightarrow> Some (List.map_filter jint (list_or_empty (jget d ''preempted_task_ids'')))
      | Some _ \<Rightarrow> Some [])"

definition resume_request :: "string \<Rightarrow> int \<Rightarrow> int list \<Rightarrow> resubmit_request" where
  "resume_request rid n ids =
     \<lparr>rq_tasks = ids, rq_category = JText ''preempted'', rq_overrides = [],
      rq_id = ''auto_resume_'' @ rid @ ''_'' @ int_text n, rq_bypass_throttle = True\<rparr>"

text \<open>\<open>None\<close> is an error that the resubmission raised.\<close>

definition maybe_auto_resume ::
  "'c rescue_env \<Rightarrow> string \<Rightarrow> live_run \<Rightarrow> int list \<Rightarrow> 'c recon_world \<Rightarrow> auto_outcome option \<times> 'c recon_world" where
  "maybe_auto_resume env rid rec preempted w =
     (if kill_requested_at rec \<noteq> [] then (Some (escalate_resume (KillRequested (kill_requested_at rec))), w)
      else if \<not> lr_auto_resume rec then (Some (escalate_resume PolicyOff), w)
      else
        (case (if preempted \<noteq> [] then Some preempted else authoritative_preempted_ids env rid w) of
           None \<Rightarrow> (Some (escalate_resume FailuresUnread), w)
         | Some ids \<Rightarrow>
             (case decide_auto_resume_from_ids ids (lr_auto_resume rec) (lr_resume_count rec) (lr_max_resumes rec) of
                (False, tids, why) \<Rightarrow>
                  (Some \<lparr>ao_resume = False, ao_reason = why, ao_tasks = tids, ao_resubmitted = False, ao_count = lr_resume_count rec\<rparr>, w)
              | (True, tids, why) \<Rightarrow>
                  (case rv_resubmit env rid (resume_request rid (lr_resume_count rec) tids) w of
                     (ResubmitRaised, w) \<Rightarrow> (None, w)
                   | (ResubmitDone deduped ids', w) \<Rightarrow>
                       (let (n, w) = (if deduped then (lr_resume_count rec, w)
                              else bump_counter env rid (\<lambda>r. r\<lparr>lr_resume_count := lr_resume_count rec + 1\<rparr>) lr_resume_count
                                     (lr_resume_count rec + 1) w)
                        in (Some \<lparr>ao_resume = True, ao_reason = why, ao_tasks = tids, ao_resubmitted = \<not> deduped, ao_count = n\<rparr>, w))))))"

section \<open>Recovering clusters of failures\<close>

datatype disposition = Skipped | VerdictOnly | Held | Resubmitted

record cluster_outcome =
  cl_class :: jval
  cl_tasks :: "jval list"
  cl_disposition :: disposition
  cl_by :: "decided_by option"
  cl_overrides :: "dict option"

definition outcome_of :: "dict \<Rightarrow> disposition \<Rightarrow> decided_by option \<Rightarrow> dict option \<Rightarrow> cluster_outcome" where
  "outcome_of cd disp by' over =
     \<lparr>cl_class = jget cd ''error_class'', cl_tasks = list_or_empty (jget cd ''task_ids''), cl_disposition = disp, cl_by = by', cl_overrides = over\<rparr>"

fun coerce_task_ids :: "jval list \<Rightarrow> int list option" where
  "coerce_task_ids [] = Some []"
| "coerce_task_ids (v # vs) =
     (case v of
        JBool b \<Rightarrow> None
      | _ \<Rightarrow> (case (jint v, coerce_task_ids vs) of (Some n, Some ns) \<Rightarrow> Some (n # ns) | _ \<Rightarrow> None))"

definition positive_int :: "jval \<Rightarrow> int option" where
  "positive_int v = (case v of JInt n \<Rightarrow> if n > 0 then Some n else None | _ \<Rightarrow> None)"

definition positive_factor :: "jval \<Rightarrow> rat option" where
  "positive_factor v =
     (case v of JInt n \<Rightarrow> if n > 0 then Some (of_int n) else None | JFloat r \<Rightarrow> if r > 0 then Some r else None | _ \<Rightarrow> None)"

definition scaled :: "dict \<Rightarrow> string \<Rightarrow> rat \<Rightarrow> dict option" where
  "scaled res key factor = map_option (\<lambda>cur. [(key, JInt \<lceil>of_int cur * factor\<rceil>)]) (positive_int (jget res key))"

definition concrete_overrides :: "string \<Rightarrow> dict \<Rightarrow> dict option \<Rightarrow> dict option" where
  "concrete_overrides verb ps resources =
     (if verb = ''retry-on-different-node'' then Some []
      else
        (case positive_factor (jget ps ''factor'') of
           None \<Rightarrow> None
         | Some factor \<Rightarrow>
             (let res = (case resources of None \<Rightarrow> [] | Some d \<Rightarrow> d)
              in if verb \<in> {''increase-mem'', ''increase-mem-per-gpu''} then scaled res ''mem_mb'' factor
                 else if verb = ''increase-walltime'' then scaled res ''walltime_sec'' factor
                 else None)))"

definition code_escalation :: "string \<Rightarrow> dict \<Rightarrow> recover_reason \<Rightarrow> recover_reason escalation" where
  "code_escalation verb ps why =
     \<lparr>esc_reason = why, candidate_actions = [candidate verb ps ''policy'' (Remark ''deterministic fix; not auto-applicable via resubmit_flow'')]\<rparr>"

text \<open>Parking a verdict; \<open>None\<close> when the journal raises.\<close>

definition park_outcome ::
  "'c rescue_env \<Rightarrow> string \<Rightarrow> dict \<Rightarrow> recover_reason escalation \<Rightarrow> bool \<Rightarrow> decided_by \<Rightarrow> 'c recon_world
   \<Rightarrow> cluster_outcome option \<times> 'c recon_world" where
  "park_outcome env rid cd esc opt_in by' w =
     (if \<not> opt_in then (Some (outcome_of cd VerdictOnly (Some by') None), w)
      else (case mark_pending_verdict rid (rv_dump env esc) (rw_runs w) of
              Inl e \<Rightarrow> (None, w)
            | Inr (r, runs) \<Rightarrow> (Some (outcome_of cd Held (Some by') None), w\<lparr>rw_runs := runs\<rparr>)))"

definition recover_request :: "string \<Rightarrow> int \<Rightarrow> jval \<Rightarrow> int list \<Rightarrow> dict \<Rightarrow> resubmit_request" where
  "recover_request rid n cls ids over =
     \<lparr>rq_tasks = ids, rq_category = cls, rq_overrides = over, rq_id = ''auto_recover_'' @ rid @ ''_'' @ int_text n,
      rq_bypass_throttle = False\<rparr>"

definition act_on_code ::
  "'c rescue_env \<Rightarrow> string \<Rightarrow> live_run \<Rightarrow> dict \<Rightarrow> string \<Rightarrow> dict \<Rightarrow> dict option \<Rightarrow> int \<Rightarrow> 'c recon_world
   \<Rightarrow> (cluster_outcome \<times> int) option \<times> 'c recon_world" where
  "act_on_code env rid rec cd verb ps resources n w =
     (let tids = coerce_task_ids (list_or_empty (jget cd ''task_ids''));
          over = (case tids of None \<Rightarrow> None | Some _ \<Rightarrow> concrete_overrides verb ps resources)
      in case (tids, over) of
           (Some ids, Some over) \<Rightarrow>
             (if \<not> lr_auto_recover rec then (Some (outcome_of cd VerdictOnly (Some Code) (Some over), n), w)
              else if n \<ge> lr_max_recovers rec then (Some (outcome_of cd Held (Some Code) (Some over), n), w)
              else
                (case rv_resubmit env rid (recover_request rid n (jget cd ''error_class'') ids over) w of
                   (ResubmitRaised, w) \<Rightarrow> (Some (outcome_of cd Held (Some Code) (Some over), n), w)
                 | (ResubmitDone deduped ids', w) \<Rightarrow>
                     (let (n', w) = (if deduped then (n, w)
                            else bump_counter env rid (\<lambda>r. r\<lparr>lr_recover_count := n + 1\<rparr>) lr_recover_count (n + 1) w)
                      in (Some (outcome_of cd Resubmitted (Some Code) (Some over), n'), w))))
         | _ \<Rightarrow>
             (case park_outcome env rid cd (code_escalation verb ps (Remark verb)) (lr_auto_recover rec) Code w of
                (None, w) \<Rightarrow> (None, w) | (Some out, w) \<Rightarrow> (Some (out, n), w)))"

definition recover_cluster ::
  "'c rescue_env \<Rightarrow> string \<Rightarrow> live_run \<Rightarrow> dict option \<Rightarrow> int \<Rightarrow> dict \<Rightarrow> int \<Rightarrow> 'c recon_world
   \<Rightarrow> (cluster_outcome \<times> int) option \<times> 'c recon_world" where
  "recover_cluster env rid rec sidecar max_code cd n w =
     (if jget cd ''error_class'' = JText ''preempted'' \<or> \<not> rv_valid env cd then (Some (outcome_of cd Skipped None None, n), w)
      else
        (case resolve_failure (build_failure_features cd rec sidecar) max_code of
           Inl e \<Rightarrow> (None, w)
         | Inr d \<Rightarrow>
             (case chosen d of
                Some fix' \<Rightarrow>
                  act_on_code env rid rec cd (action fix') (params fix')
                    (case sidecar of None \<Rightarrow> None | Some sc \<Rightarrow> (case jget sc ''resources'' of JDict r \<Rightarrow> Some r | _ \<Rightarrow> None)) n w
              | None \<Rightarrow>
                  (case escalated d of
                     None \<Rightarrow> (Some (outcome_of cd (if lr_auto_recover rec then Held else VerdictOnly) (Some Judgement) None, n), w)
                   | Some esc \<Rightarrow>
                       (case park_outcome env rid cd esc (lr_auto_recover rec) Judgement w of
                          (None, w) \<Rightarrow> (None, w) | (Some out, w) \<Rightarrow> (Some (out, n), w))))))"

fun recover_clusters ::
  "'c rescue_env \<Rightarrow> string \<Rightarrow> live_run \<Rightarrow> dict option \<Rightarrow> int \<Rightarrow> dict list \<Rightarrow> int \<Rightarrow> 'c recon_world
   \<Rightarrow> (cluster_outcome list \<times> int) option \<times> 'c recon_world" where
  "recover_clusters env rid rec sidecar max_code [] n w = (Some ([], n), w)"
| "recover_clusters env rid rec sidecar max_code (cd # cds) n w =
     (case recover_cluster env rid rec sidecar max_code cd n w of
        (None, w) \<Rightarrow> (None, w)
      | (Some (out, n), w) \<Rightarrow>
          (case recover_clusters env rid rec sidecar max_code cds n w of
             (None, w) \<Rightarrow> (None, w) | (Some (outs, n), w) \<Rightarrow> (Some (out # outs, n), w)))"

text \<open>The clusters of a report; \<open>None\<close> when they could not be fetched.\<close>

definition fetch_clusters :: "'c rescue_env \<Rightarrow> string \<Rightarrow> 'c recon_world \<Rightarrow> dict list option" where
  "fetch_clusters env rid w =
     (case rv_failures env rid w of
        None \<Rightarrow> None
      | Some (JDict d) \<Rightarrow> Some (map dict_or_empty (list_or_empty (jget d ''clusters'')))
      | Some _ \<Rightarrow> Some [])"

definition maybe_resolve_and_recover ::
  "'c rescue_env \<Rightarrow> string \<Rightarrow> live_run \<Rightarrow> int \<Rightarrow> 'c recon_world \<Rightarrow> (cluster_outcome list \<times> int) option \<times> 'c recon_world" where
  "maybe_resolve_and_recover env rid rec max_code w =
     (case fetch_clusters env rid w of
        None \<Rightarrow> (Some ([], lr_recover_count rec), w)
      | Some cds \<Rightarrow>
          recover_clusters env rid rec (if cds = [] then None else rv_sidecar env rid) max_code cds (lr_recover_count rec) w)"

end
