(* ===== verification/MonitorLoop.thy ===== *)
theory MonitorLoop
  imports WaveCombine HarvestGuard StreamHarvest AutoRecover
begin

text \<open>
  The watch of a run to its end (\<open>ops/monitor_flow.py\<close>, with \<open>record_status\<close> of \<open>ops/monitor/status.py\<close> and
  \<open>_status_fingerprint\<close> of \<open>ops/monitor/tick_log.py\<close>): a tick reads the run by announcements, by a query of the
  scheduler or by the reporter, combines the finished waves, streams results, settles a terminal verdict with its
  automatic rescue, ends at the budget, or sets the next interval and sleeps. Between any two steps the rest of the
  world may act: each operation of the environment takes the world and gives it back.
\<close>

section \<open>Constants\<close>

definition COMBINER_GIVE_UP_SENTINEL :: int where "COMBINER_GIVE_UP_SENTINEL = 10 ^ 9"
definition UNCHANGED_POLLS_BEFORE_BACKOFF :: int where "UNCHANGED_POLLS_BEFORE_BACKOFF = 2"
definition BACKOFF_CEILING_DIVISOR :: rat where "BACKOFF_CEILING_DIVISOR = 4"
definition DETERMINISTIC_ENV_POLLS_TO_FAIL :: int where "DETERMINISTIC_ENV_POLLS_TO_FAIL = 3"
definition CENSUS_STATIC_POLLS_BEFORE_PROBE :: int where "CENSUS_STATIC_POLLS_BEFORE_PROBE = 2"

section \<open>The specification and the environment\<close>

record monitor_spec =
  ms_run :: string
  ms_poll :: rat
  ms_budget :: rat
  ms_combine :: bool
  ms_retries :: int
  ms_stream :: "bool option"

text \<open>What the reporter's walk answers: a report, the errors the loop tells apart, or any other one.\<close>

datatype walk_answer =
  WalkReport dict
| WalkCommandFailed "int option"
| WalkOsError
| WalkCircuitOpen "rat option"
| WalkUnreachable
| WalkRaised

datatype api_answer = ApiStatuses "(int \<times> string) list" | ApiAlive "string list" | ApiFault walk_answer

datatype pull_answer = PullDone | PullOsError | PullRaised

record 'c watch_env =
  we_now :: "'c recon_world \<Rightarrow> rat"
  we_wall :: "'c recon_world \<Rightarrow> rat"
  we_text_now :: "'c recon_world \<Rightarrow> string"
  we_due_text :: "rat \<Rightarrow> 'c recon_world \<Rightarrow> string"
  we_sleep :: "rat \<Rightarrow> 'c recon_world \<Rightarrow> 'c recon_world"
  we_wait_enabled :: bool
  we_wait :: "rat \<Rightarrow> 'c recon_world \<Rightarrow> 'c recon_world"
  we_needs_ssh :: "live_run \<Rightarrow> bool"
  we_family :: "live_run \<Rightarrow> family"
  we_remote :: "remote_call \<Rightarrow> 'c recon_world \<Rightarrow> ssh_answer \<times> 'c recon_world"
  we_list_complete :: "string \<Rightarrow> 'c recon_world \<Rightarrow> ssh_answer \<times> 'c recon_world"
  we_report :: "live_run \<Rightarrow> 'c recon_world \<Rightarrow> walk_answer \<times> 'c recon_world"
  we_api :: "live_run \<Rightarrow> 'c recon_world \<Rightarrow> api_answer \<times> 'c recon_world"
  we_failover :: "string \<Rightarrow> 'c recon_world \<Rightarrow> string option \<times> 'c recon_world"
  we_pull_runtime :: "live_run \<Rightarrow> 'c recon_world \<Rightarrow> pull_answer \<times> 'c recon_world"
  we_prefetch :: "string \<Rightarrow> live_run \<Rightarrow> 'c recon_world \<Rightarrow> bool \<times> 'c recon_world"
  we_partial_ok :: "string \<Rightarrow> 'c recon_world \<Rightarrow> bool"
  we_sidecar :: "string \<Rightarrow> dict option"
  we_mirrored :: "string \<Rightarrow> int"
  we_stream_flag :: "string option"
  we_remediation :: string
  we_combiner :: "'c combine_env"
  we_stream :: "'c stream_env"
  we_rescue :: "'c rescue_env"
  we_max_code :: int
  we_harvest :: "'c harvest_env"
  we_min_poll :: rat
  we_max_poll :: rat
  we_heartbeat :: rat

section \<open>The state of the loop\<close>

datatype watch_action =
  PollError
| PollFailover string
| CombineWave int int
| CombineWaveFailed int int
| CombinerAbsent "int list"
| PrefetchPartials "int list"
| StreamAction stream_action
| AutoResume "int list" bool int
| ResolveAndRecover "cluster_outcome list" int
| BackoffCeiling rat rat

record tick_row =
  tk_summary :: dict
  tk_newly_complete :: "int list"
  tk_newly_failed :: "int list"
  tk_newly_combined :: "int list"
  tk_actions :: "watch_action list"
  tk_state :: string
  tk_next :: "rat option"

record watch_state =
  wa_ticks :: int
  wa_summary :: dict
  wa_combined :: "int list"
  wa_failed :: "int list"
  wa_attempts :: "int \<Rightarrow> int"
  wa_unknown :: int
  wa_missing :: "string option"
  wa_stream :: stream_state
  wa_interval :: rat
  wa_unchanged :: int
  wa_fingerprint :: "dict option"
  wa_running :: "rat option"
  wa_ceiling :: bool
  wa_env_polls :: int
  wa_last_walk :: rat
  wa_sig :: "(int \<times> int \<times> int) option"
  wa_static :: int
  wa_record :: live_run
  wa_log :: "tick_row list"

datatype watch_note =
  ReporterUnreachable int
| CombinerMissingNote string
| CombineFailedWaves "int list"
| PollNote polling_reason
| ResumeNote resume_reason
| RecoverRaised
| RecoverHeld "jval list"

record monitor_result =
  mo_state :: string
  mo_status :: dict
  mo_combined :: "int list"
  mo_failed :: "int list"
  mo_ticks :: int
  mo_elapsed :: rat
  mo_notes :: "watch_note list"
  mo_stream :: dict

text \<open>How a tick ends: the loop goes on, the flow returns (with the cause of its harvest), or an error leaves it.\<close>

datatype 'c step =
  Go watch_state "'c recon_world"
| Stop string monitor_result watch_state "'c recon_world"
| Crash watch_state "'c recon_world"

section \<open>Reading the run\<close>

definition floor_poll_interval :: "'c watch_env \<Rightarrow> rat \<Rightarrow> rat" where
  "floor_poll_interval env requested = max requested (min (we_min_poll env) (we_max_poll env))"

definition sidecar_walltime_sec :: "dict option \<Rightarrow> rat option" where
  "sidecar_walltime_sec sidecar =
     (case sidecar of
        None \<Rightarrow> None
      | Some sc \<Rightarrow>
          (case jget sc ''resources'' of
             JDict res \<Rightarrow> (case jget res ''walltime_sec'' of
                 JInt n \<Rightarrow> if n > 0 then Some (of_int n) else None
               | JFloat r \<Rightarrow> if r > 0 then Some r else None
               | _ \<Rightarrow> None)
           | _ \<Rightarrow> None))"

definition shows_execution :: "dict \<Rightarrow> bool" where
  "shows_execution summary =
     (case strict_count summary ''running'' of
        None \<Rightarrow> False
      | Some r \<Rightarrow> r > 0 \<or> (case strict_count summary ''complete'' of None \<Rightarrow> False | Some c \<Rightarrow> c > 0))"

definition liveness_in_flight_status :: "int \<Rightarrow> string \<Rightarrow> dict" where
  "liveness_in_flight_status tot now =
     [(''complete'', JInt 0), (''failed'', JInt 0), (''running'', JInt 0), (''pending'', JInt tot), (''unknown'', JInt 0),
      (''checked_at'', JText now), (''status_source'', JText ''scheduler_liveness''), (''verdict_source'', JText ''scheduler_liveness'')]"

definition census_liveness_probe :: "'c watch_env \<Rightarrow> live_run \<Rightarrow> 'c recon_world \<Rightarrow> string set option \<times> 'c recon_world" where
  "census_liveness_probe env rec w =
     (if lr_job_ids rec = [] then (None, w)
      else (case we_remote env (AliveCheck (lr_job_ids rec)) w of
              (answer, w) \<Rightarrow> (alive_job_ids (we_family env rec) (lr_job_ids rec) answer, w)))"

text \<open>The ids in the names \<open>task_<id>.complete\<close>; \<open>None\<close> when the listing is not proven to have run.\<close>

definition census_task_id :: "string \<Rightarrow> int option" where
  "census_task_id line =
     (let name = py_strip line
      in if prefix ''task_'' name \<and> suffix ''.complete'' name
         then py_int_of_text (take (length name - 14) (drop 5 name)) else None)"

definition CENSUS_ACK :: string where "CENSUS_ACK = ''__HPC_CENSUS_ACK__=''"

definition census_complete_task_ids :: "ssh_answer \<Rightarrow> int set option" where
  "census_complete_task_ids answer =
     (case answer of
        Severed \<Rightarrow> None
      | Answered rc out \<Rightarrow>
          (let ls = splitlines out
           in if list_ex (prefix CENSUS_ACK) ls then Some (set (List.map_filter census_task_id (filter (\<lambda>l. \<not> prefix CENSUS_ACK l) ls)))
              else None))"

definition announced_status :: "census \<Rightarrow> string \<Rightarrow> dict" where
  "announced_status a now =
     [(''complete'', JInt (an_complete a)), (''failed'', JInt (an_failed a)), (''running'', JInt 0), (''pending'', JInt (an_missing a)),
      (''unknown'', JInt 0), (''checked_at'', JText now), (''verdict_source'', JText ''task_announcements''),
      (''status_source'', JText ''task_announcements''),
      (''task_announcements'', JDict [(''announced'', JInt (an_announced a)), (''complete'', JInt (an_complete a)),
         (''failed'', JInt (an_failed a)), (''missing'', JInt (an_missing a))])]"

text \<open>\<open>None\<close> when the journal raises; inside, the record with the census, or nothing when there is no census to use.\<close>

definition announce_status :: "'c watch_env \<Rightarrow> string \<Rightarrow> live_run \<Rightarrow> 'c recon_world \<Rightarrow> live_run option option \<times> 'c recon_world" where
  "announce_status env rid rec w =
     (case we_remote env (AnnounceRead rid) w of
        (answer, w) \<Rightarrow>
          (case read_announcements (total_tasks rec) answer of
             None \<Rightarrow> (Some None, w)
           | Some a \<Rightarrow>
               (if \<not> an_present a then (Some None, w)
                else
                  (case update_run_status rid (\<lambda>r. r\<lparr>last_status := announced_status a (we_text_now env w)\<rparr>) (rw_runs w) of
                     Inl e \<Rightarrow> (None, w)
                   | Inr (r, runs) \<Rightarrow> (Some (Some r), w\<lparr>rw_runs := runs\<rparr>)))))"

definition TASK_STATUSES :: "string list" where
  "TASK_STATUSES = [''complete'', ''running'', ''pending'', ''failed'', ''unknown'']"

definition api_key :: "string \<Rightarrow> string" where
  "api_key status = (if status \<in> set TASK_STATUSES then status else ''unknown'')"

definition pure_api_status_summary :: "(int \<times> string) list \<Rightarrow> string \<Rightarrow> dict" where
  "pure_api_status_summary per_task now =
     map (\<lambda>k. (k, JInt (int (length (filter (\<lambda>(tid, s). api_key s = k) per_task))))) TASK_STATUSES
     @ [(''tasks'', JDict (map (\<lambda>(tid, s). (int_text tid, JDict [(''status'', JText s)])) (sort_key fst per_task))),
        (''checked_at'', JText now)]"

definition walk_summary :: "dict \<Rightarrow> string \<Rightarrow> dict option" where
  "walk_summary report now =
     map_option (\<lambda>d. merged d
       ((''checked_at'', JText now)
        # (if truthy (jget report ''watcher_alarm'') then [(''watcher_alarm'', jget report ''watcher_alarm'')] else [])
        @ (case jget report ''waves'' of JDict ws \<Rightarrow> if ws = [] then [] else [(''waves'', JDict ws)] | _ \<Rightarrow> [])
        @ (case jget report ''preempted_task_ids'' of JList xs \<Rightarrow> if xs = [] then [] else [(''preempted_task_ids'', JList xs)] | _ \<Rightarrow> [])))
       (report_summary report)"

definition record_summary :: "string \<Rightarrow> dict \<Rightarrow> 'c recon_world \<Rightarrow> (walk_answer + live_run) \<times> 'c recon_world" where
  "record_summary rid summary w =
     (case update_run_status rid (\<lambda>r. r\<lparr>last_status := summary\<rparr>) (rw_runs w) of
        Inl e \<Rightarrow> (Inl WalkRaised, w) | Inr (r, runs) \<Rightarrow> (Inr r, w\<lparr>rw_runs := runs\<rparr>))"

text \<open>The record of the journal decides whether its backend is reached by ssh; without one, ssh is taken.\<close>

definition record_status :: "'c watch_env \<Rightarrow> string \<Rightarrow> live_run \<Rightarrow> 'c recon_world \<Rightarrow> (walk_answer + live_run) \<times> 'c recon_world" where
  "record_status env rid rec w =
     (if (case rw_runs w rid of None \<Rightarrow> True | Some r \<Rightarrow> we_needs_ssh env r) then
        (case we_report env rec w of
           (WalkReport report, w) \<Rightarrow>
             (case walk_summary report (we_text_now env w) of None \<Rightarrow> (Inl WalkRaised, w) | Some s \<Rightarrow> record_summary rid s w)
         | (fault, w) \<Rightarrow> (Inl fault, w))
      else
        (case we_api env rec w of
           (ApiStatuses per_task, w) \<Rightarrow> record_summary rid (pure_api_status_summary per_task (we_text_now env w)) w
         | (ApiAlive alive, w) \<Rightarrow>
             record_summary rid [(''checked_at'', JText (we_text_now env w)), (''alive_job_ids'', JList (map JText (sort (remdups alive)))),
               (''in_flight'', JBool (alive \<noteq> []))] w
         | (ApiFault fault, w) \<Rightarrow> (Inl fault, w)))"

section \<open>The census of a tick\<close>

definition without_pending :: "dict \<Rightarrow> int \<Rightarrow> dict" where
  "without_pending summary missing =
     merged summary [(''pending'', JInt 0), (''unknown'', JInt missing), (''status_source'', JText ''task_announcements+scheduler_liveness'')]"

text \<open>The status of the tick and whether a failed verdict of it would be stale.\<close>

definition census_check ::
  "'c watch_env \<Rightarrow> dict \<Rightarrow> watch_state \<Rightarrow> 'c recon_world \<Rightarrow> (dict \<times> bool) \<times> watch_state \<times> 'c recon_world" where
  "census_check env summary st w =
     (let rec = wa_record st;
          c = tasks_in summary ''complete''; f = tasks_in summary ''failed''; m = tasks_in summary ''pending'';
          put = (\<lambda>n. st\<lparr>wa_static := n, wa_sig := Some (c, f, m)\<rparr>)
      in if m > 0 then
           (let static = (if wa_sig st = Some (c, f, m) then wa_static st + 1 else 0)
            in if static \<ge> CENSUS_STATIC_POLLS_BEFORE_PROBE then
                 (case census_liveness_probe env rec w of
                    (alive, w) \<Rightarrow> ((if alive = Some {} then without_pending summary m else summary, False), put static, w))
               else ((summary, False), put static, w))
         else if f > 0 \<and> c < total_tasks rec then
           (case census_liveness_probe env rec w of
              (alive, w) \<Rightarrow> ((summary, case alive of None \<Rightarrow> False | Some a \<Rightarrow> a \<noteq> {}), put 0, w))
         else ((summary, False), put 0, w))"

definition census_waves ::
  "'c watch_env \<Rightarrow> string \<Rightarrow> bool \<Rightarrow> (string \<times> jval list) list \<Rightarrow> dict \<Rightarrow> 'c recon_world \<Rightarrow> dict \<times> 'c recon_world" where
  "census_waves env rid combine wmap summary w =
     (if combine \<and> wmap \<noteq> []
      then (case we_list_complete env rid w of
              (answer, w) \<Rightarrow>
                (case census_complete_task_ids answer of
                   None \<Rightarrow> (summary, w) | Some ids \<Rightarrow> (merged summary [(''waves'', JDict (census_waves_block wmap ids))], w)))
      else (summary, w))"

text \<open>What a tick has read, or the fault of the walk.\<close>

datatype seen =
  SeenCensus dict bool
| SeenStatus dict
| SeenFault walk_answer
| SeenRaised

definition walk_tick :: "'c watch_env \<Rightarrow> string \<Rightarrow> rat \<Rightarrow> watch_state \<Rightarrow> 'c recon_world \<Rightarrow> seen \<times> watch_state \<times> 'c recon_world" where
  "walk_tick env rid now st w =
     (case record_status env rid (wa_record st) w of
        (Inl fault, w) \<Rightarrow> (if fault = WalkRaised then SeenRaised else SeenFault fault, st, w)
      | (Inr rec, w) \<Rightarrow>
          (let s = last_status rec;
               s = (if we_needs_ssh env rec \<and> map_of s ''status_source'' = None
                    then merged s [(''status_source'', JText ''status_reporter_walk'')] else s)
           in (SeenStatus s, st\<lparr>wa_record := rec, wa_last_walk := now, wa_env_polls := 0\<rparr>, w)))"

definition pull_tick :: "'c watch_env \<Rightarrow> string \<Rightarrow> rat \<Rightarrow> watch_state \<Rightarrow> 'c recon_world \<Rightarrow> seen \<times> watch_state \<times> 'c recon_world" where
  "pull_tick env rid now st w =
     (let rec = wa_record st
      in if we_needs_ssh env rec \<and> total_tasks rec > 0 \<and> now - wa_last_walk st < we_heartbeat env then
           (case census_liveness_probe env rec w of
              (alive, w) \<Rightarrow>
                (if (case alive of None \<Rightarrow> False | Some a \<Rightarrow> a \<noteq> {})
                 then (SeenStatus (liveness_in_flight_status (total_tasks rec) (we_text_now env w)), st\<lparr>wa_env_polls := 0\<rparr>, w)
                 else walk_tick env rid now st w))
         else walk_tick env rid now st w)"

definition observe ::
  "'c watch_env \<Rightarrow> monitor_spec \<Rightarrow> (string \<times> jval list) list \<Rightarrow> rat \<Rightarrow> watch_state \<Rightarrow> 'c recon_world
   \<Rightarrow> seen \<times> watch_state \<times> 'c recon_world" where
  "observe env spec wmap now st w =
     (let rid = ms_run spec; rec = wa_record st
      in case (if we_needs_ssh env rec \<and> \<not> is_kill_confirmed rec then announce_status env rid rec w else (Some None, w)) of
           (None, w) \<Rightarrow> (SeenRaised, st, w)
         | (Some None, w) \<Rightarrow> pull_tick env rid now st w
         | (Some (Some rec), w) \<Rightarrow>
             (case census_check env (last_status rec) (st\<lparr>wa_record := rec, wa_env_polls := 0\<rparr>) w of
                ((summary, stale), st, w) \<Rightarrow>
                  (case census_waves env rid (ms_combine spec) wmap summary w of (summary, w) \<Rightarrow> (SeenCensus summary stale, st, w))))"

section \<open>The steps that every branch shares\<close>

definition log_tick :: "tick_row \<Rightarrow> watch_state \<Rightarrow> watch_state" where
  "log_tick row st = st\<lparr>wa_log := wa_log st @ [row]\<rparr>"

definition error_row :: "watch_state \<Rightarrow> watch_action list \<Rightarrow> string \<Rightarrow> rat option \<Rightarrow> tick_row" where
  "error_row st acts state nxt =
     \<lparr>tk_summary = last_status (wa_record st), tk_newly_complete = [], tk_newly_failed = [], tk_newly_combined = [], tk_actions = acts,
      tk_state = state, tk_next = nxt\<rparr>"

text \<open>The watchdog's stamp never raises.\<close>

definition stamp_watchdog :: "'c watch_env \<Rightarrow> string \<Rightarrow> rat \<Rightarrow> 'c recon_world \<Rightarrow> 'c recon_world" where
  "stamp_watchdog env rid next_tick w =
     (case stamp_run_tick rid (we_text_now env w) (we_due_text env next_tick w) (rw_runs w) of
        Inl e \<Rightarrow> w | Inr (r, runs) \<Rightarrow> w\<lparr>rw_runs := runs\<rparr>)"

definition stamp_and_sleep :: "'c watch_env \<Rightarrow> string \<Rightarrow> rat \<Rightarrow> 'c recon_world \<Rightarrow> 'c recon_world" where
  "stamp_and_sleep env rid next_tick w = we_sleep env next_tick (stamp_watchdog env rid next_tick w)"

text \<open>\<open>_ingest_runtime_at_terminal\<close> lets every error through that is not an \<open>OSError\<close>.\<close>

definition ingest_runtime :: "'c watch_env \<Rightarrow> live_run \<Rightarrow> 'c recon_world \<Rightarrow> bool \<times> 'c recon_world" where
  "ingest_runtime env rec w = (case we_pull_runtime env rec w of (answer, w) \<Rightarrow> (answer \<noteq> PullRaised, w))"

definition watch_result :: "string \<Rightarrow> dict \<Rightarrow> rat \<Rightarrow> watch_note list \<Rightarrow> watch_state \<Rightarrow> monitor_result" where
  "watch_result state summary elapsed notes st =
     \<lparr>mo_state = state, mo_status = summary, mo_combined = wa_combined st, mo_failed = wa_failed st, mo_ticks = wa_ticks st,
      mo_elapsed = elapsed, mo_notes = notes, mo_stream = stream_disclosure (wa_stream st)\<rparr>"

section \<open>A tick whose poll failed\<close>

definition reset_pace :: "rat \<Rightarrow> watch_state \<Rightarrow> watch_state" where
  "reset_pace poll st = st\<lparr>wa_unchanged := 0, wa_fingerprint := None, wa_interval := poll\<rparr>"

text \<open>The end of a watch that could not read the run.\<close>

definition time_out ::
  "'c watch_env \<Rightarrow> rat \<Rightarrow> string \<Rightarrow> watch_note list \<Rightarrow> watch_state \<Rightarrow> 'c recon_world \<Rightarrow> 'c step" where
  "time_out env started cause notes st w =
     (case ingest_runtime env (wa_record st) w of
        (False, w) \<Rightarrow> Crash st w
      | (True, w) \<Rightarrow> Stop cause (watch_result ''timeout'' (last_status (wa_record st)) (we_now env w - started) notes st) st w)"

definition command_fault ::
  "'c watch_env \<Rightarrow> monitor_spec \<Rightarrow> rat \<Rightarrow> bool \<Rightarrow> watch_state \<Rightarrow> 'c recon_world \<Rightarrow> 'c step" where
  "command_fault env spec started deterministic st w =
     (let st = st\<lparr>wa_env_polls := (if deterministic then wa_env_polls st + 1 else 0)\<rparr>;
          broken = wa_env_polls st \<ge> DETERMINISTIC_ENV_POLLS_TO_FAIL;
          over_budget = we_now env w - started \<ge> ms_budget spec;
          terminate = over_budget \<or> broken;
          st = log_tick (error_row st [PollError] (if terminate then ''timeout'' else ''in_flight'')
                 (if terminate then None else Some (wa_interval st))) st;
          poll = floor_poll_interval env (ms_poll spec)
      in if terminate
         then time_out env started (if broken then ''reporter-unreachable'' else ''cap-overrun'')
                (if broken then [ReporterUnreachable (wa_env_polls st)] else []) st w
         else Go (reset_pace poll st) (stamp_and_sleep env (ms_run spec) poll w))"

definition failed_over :: "'c watch_env \<Rightarrow> string \<Rightarrow> bool \<Rightarrow> 'c recon_world \<Rightarrow> string \<times> 'c recon_world" where
  "failed_over env rid circuit_open w =
     (if circuit_open then (case we_failover env rid w of (to', w) \<Rightarrow> (case to' of None \<Rightarrow> [] | Some t \<Rightarrow> t, w)) else ([], w))"

definition refreshed :: "string \<Rightarrow> watch_state \<Rightarrow> 'c recon_world \<Rightarrow> watch_state" where
  "refreshed rid st w = (case rw_runs w rid of None \<Rightarrow> st | Some r \<Rightarrow> st\<lparr>wa_record := r\<rparr>)"

definition ssh_fault ::
  "'c watch_env \<Rightarrow> monitor_spec \<Rightarrow> rat \<Rightarrow> walk_answer \<Rightarrow> watch_state \<Rightarrow> 'c recon_world \<Rightarrow> 'c step" where
  "ssh_fault env spec started fault st w =
     (let rid = ms_run spec; poll = floor_poll_interval env (ms_poll spec);
          st = reset_pace poll (st\<lparr>wa_env_polls := 0\<rparr>);
          over_budget = we_now env w - started \<ge> ms_budget spec;
          circuit_open = (case fault of WalkCircuitOpen d \<Rightarrow> True | _ \<Rightarrow> False);
          (moved_to, w) = failed_over env rid circuit_open w;
          st = (if moved_to \<noteq> [] then refreshed rid st w else st);
          st = log_tick (error_row st (PollError # (if moved_to \<noteq> [] then [PollFailover moved_to] else []))
                 (if over_budget then ''timeout'' else ''in_flight'') (if over_budget then None else Some (wa_interval st))) st
      in if over_budget then time_out env started ''cap-overrun'' [] st w
         else
           (let wait = (case fault of WalkCircuitOpen d \<Rightarrow> if moved_to \<noteq> [] then None else circuit_wait_sec d (we_wall env w) | _ \<Rightarrow> None);
                sleep_for = (case wait of None \<Rightarrow> wa_interval st | Some s \<Rightarrow> max (wa_interval st) s)
            in Go st (stamp_and_sleep env rid sleep_for w)))"

definition fault_tick ::
  "'c watch_env \<Rightarrow> monitor_spec \<Rightarrow> rat \<Rightarrow> walk_answer \<Rightarrow> watch_state \<Rightarrow> 'c recon_world \<Rightarrow> 'c step" where
  "fault_tick env spec started fault st w =
     (case fault of
        WalkCommandFailed rc \<Rightarrow> command_fault env spec started (rc = Some 126 \<or> rc = Some 127) st w
      | WalkOsError \<Rightarrow> command_fault env spec started False st w
      | _ \<Rightarrow> ssh_fault env spec started fault st w)"

section \<open>Combining the finished waves\<close>

text \<open>The waves that are tried, with their numbers of attempts; a wave that was given up is skipped.\<close>

fun choose_waves :: "int list \<Rightarrow> (int \<Rightarrow> int) \<Rightarrow> int list \<times> (int \<times> bool) list \<times> (int \<Rightarrow> int)" where
  "choose_waves [] attempts = ([], [], attempts)"
| "choose_waves (wv # ws) attempts =
     (if attempts wv \<ge> COMBINER_GIVE_UP_SENTINEL then choose_waves ws attempts
      else
        (let n = attempts wv + 1;
             (batch, forces, attempts) = choose_waves ws (attempts(wv := n))
         in (wv # batch, (if map_of forces wv = None then [(wv, n > 1)] else []) @ forces, attempts)))"

definition note_wave :: "int \<Rightarrow> (int \<times> wave_outcome) list \<Rightarrow> int \<Rightarrow> watch_state \<times> watch_action list \<times> int list \<Rightarrow> watch_state \<times> watch_action list \<times> int list" where
  "note_wave max_retries combined wv acc =
     (let (st, acts, newly) = acc; n = wa_attempts st wv
      in if wave_ok combined wv
         then (st\<lparr>wa_combined := with_wave wv (wa_combined st), wa_failed := sorted_list_of_set (set (wa_failed st) - {wv})\<rparr>,
               acts @ [CombineWave wv n], newly @ [wv])
         else (st\<lparr>wa_failed := with_wave wv (wa_failed st),
                  wa_attempts := (if n > max_retries then (wa_attempts st)(wv := COMBINER_GIVE_UP_SENTINEL) else wa_attempts st)\<rparr>,
               acts @ [CombineWaveFailed wv n], newly))"

definition give_up :: "int list \<Rightarrow> (int \<Rightarrow> int) \<Rightarrow> int \<Rightarrow> int" where
  "give_up ws attempts = (\<lambda>x. if x \<in> set ws then COMBINER_GIVE_UP_SENTINEL else attempts x)"

text \<open>\<open>None\<close> when a combine raises anything but the missing combiner.\<close>

definition combine_phase ::
  "'c watch_env \<Rightarrow> monitor_spec \<Rightarrow> (string \<times> jval list) list \<Rightarrow> dict \<Rightarrow> watch_state \<Rightarrow> 'c recon_world
   \<Rightarrow> (watch_action list \<times> int list) option \<times> watch_state \<times> 'c recon_world" where
  "combine_phase env spec wmap summary st w =
     (if \<not> ms_combine spec \<or> wmap = [] then (Some ([], []), st, w)
      else
        (let rid = ms_run spec;
             newly_done = newly_complete_waves summary (Some wmap) (set (wa_combined st));
             (batch, forces, attempts) = choose_waves newly_done (wa_attempts st);
             st = st\<lparr>wa_attempts := attempts\<rparr>
         in if batch = [] then (Some ([], []), st, w)
            else
              (case combine_waves (we_combiner env) rid batch forces w of
                 (Inl CombineRaised, w) \<Rightarrow> (None, st, w)
               | (Inl CombinerMissing, w) \<Rightarrow>
                   (Some ([CombinerAbsent batch], []),
                    st\<lparr>wa_missing := Some (we_remediation env), wa_attempts := give_up batch (wa_attempts st)\<rparr>, w)
               | (Inr combined, w) \<Rightarrow>
                   (let (st, acts, newly) = fold (note_wave (ms_retries spec) combined) batch (st, [], [])
                    in if newly = [] then (Some (acts, newly), st, w)
                       else (case we_prefetch env rid (wa_record st) w of
                               (pulled, w) \<Rightarrow> (Some (acts @ (if pulled then [PrefetchPartials newly] else []), newly), st, w))))))"

section \<open>The pace\<close>

definition completion_aware_cap :: "rat \<Rightarrow> rat \<Rightarrow> rat option \<Rightarrow> rat option \<Rightarrow> int \<Rightarrow> rat \<Rightarrow> rat \<times> rat option" where
  "completion_aware_cap max_poll now running walltime wave_bound poll_floor =
     (case (running, walltime) of
        (Some since, Some wall) \<Rightarrow>
          (let remaining = since + wall * of_int (max 1 wave_bound) - now
           in (min (max (remaining / BACKOFF_CEILING_DIVISOR) poll_floor) max_poll, Some remaining))
      | _ \<Rightarrow> (max_poll, None))"

text \<open>The digest of the status without its time stamp, as the sorted text it is taken of.\<close>

function sorted_value :: "jval \<Rightarrow> jval" where
  "sorted_value (JList xs) = JList (map sorted_value xs)"
| "sorted_value (JDict d) = JDict (sort_key fst (map (\<lambda>kv. (fst kv, sorted_value (snd kv))) d))"
| "sorted_value JNull = JNull"
| "sorted_value (JBool b) = JBool b"
| "sorted_value (JInt n) = JInt n"
| "sorted_value (JFloat r) = JFloat r"
| "sorted_value (JText s) = JText s"
  by pat_completeness auto
termination
proof (relation "measure size")
  show "wf (measure (size :: jval \<Rightarrow> nat))" by simp
next
  fix xs :: "jval list" and x
  assume "x \<in> set xs"
  then show "(x, JList xs) \<in> measure size" by (induction xs) auto
next
  fix d :: "(string \<times> jval) list" and kv
  assume "kv \<in> set d"
  then show "(snd kv, JDict d) \<in> measure size" by (induction d) auto
qed

definition status_fingerprint :: "dict \<Rightarrow> dict" where
  "status_fingerprint summary =
     sort_key fst (map (\<lambda>kv. (fst kv, sorted_value (snd kv))) (filter (\<lambda>kv. fst kv \<noteq> ''checked_at'') summary))"

definition pace ::
  "'c watch_env \<Rightarrow> monitor_spec \<Rightarrow> rat option \<Rightarrow> int \<Rightarrow> dict \<Rightarrow> rat \<Rightarrow> watch_state \<Rightarrow> watch_state \<times> watch_action list" where
  "pace env spec walltime wave_bound summary now st =
     (let poll = floor_poll_interval env (ms_poll spec);
          st = (if wa_running st = None \<and> shows_execution summary then st\<lparr>wa_running := Some now\<rparr> else st);
          fp = status_fingerprint summary
      in if wa_fingerprint st = Some fp then
           (let st = st\<lparr>wa_unchanged := wa_unchanged st + 1\<rparr>
            in if wa_unchanged st \<ge> UNCHANGED_POLLS_BEFORE_BACKOFF then
                 (let (cap, remaining) = completion_aware_cap (we_max_poll env) now (wa_running st) walltime wave_bound poll;
                      doubled = wa_interval st * 2;
                      st = st\<lparr>wa_interval := min doubled cap, wa_fingerprint := Some fp\<rparr>
                  in case remaining of
                       None \<Rightarrow> (st, [])
                     | Some r \<Rightarrow>
                         (if \<not> wa_ceiling st \<and> cap < min doubled (we_max_poll env)
                          then (st\<lparr>wa_ceiling := True\<rparr>, [BackoffCeiling (round1 (max r 0)) (round1 cap)]) else (st, [])))
               else (st\<lparr>wa_fingerprint := Some fp\<rparr>, []))
         else (st\<lparr>wa_unchanged := 0, wa_interval := poll, wa_fingerprint := Some fp\<rparr>, []))"

section \<open>A terminal verdict\<close>

definition finish ::
  "'c watch_env \<Rightarrow> monitor_spec \<Rightarrow> string \<Rightarrow> rat \<Rightarrow> watch_note list \<Rightarrow> tick_row \<Rightarrow> watch_state \<Rightarrow> 'c recon_world \<Rightarrow> 'c step" where
  "finish env spec status elapsed notes row st w =
     (case mark_run (ms_run spec) status None (rw_runs w) of
        Inl e \<Rightarrow> Crash st w
      | Inr (r, runs) \<Rightarrow>
          (let st = log_tick (row\<lparr>tk_state := status, tk_next := None\<rparr>) st
           in case ingest_runtime env (wa_record st) (w\<lparr>rw_runs := runs\<rparr>) of
                (False, w) \<Rightarrow> Crash st w
              | (True, w) \<Rightarrow> Stop status (watch_result status (tk_summary row) elapsed notes st) st w))"

definition complete_notes :: "watch_state \<Rightarrow> watch_note list" where
  "complete_notes st =
     (case wa_missing st of
        Some m \<Rightarrow> if m \<noteq> [] then [CombinerMissingNote m] else if wa_failed st \<noteq> [] then [CombineFailedWaves (wa_failed st)] else []
      | None \<Rightarrow> if wa_failed st \<noteq> [] then [CombineFailedWaves (wa_failed st)] else [])"

text \<open>After a resubmission the watch goes on, whatever the budget.\<close>

definition keep_watching ::
  "'c watch_env \<Rightarrow> monitor_spec \<Rightarrow> tick_row \<Rightarrow> watch_action list \<Rightarrow> watch_state \<Rightarrow> 'c recon_world \<Rightarrow> 'c step" where
  "keep_watching env spec row acts st w =
     (let rid = ms_run spec; poll = floor_poll_interval env (ms_poll spec);
          st = (reset_pace poll st)\<lparr>wa_running := None\<rparr>;
          st = log_tick (row\<lparr>tk_actions := acts, tk_state := ''in_flight'', tk_next := Some poll\<rparr>) st;
          w = stamp_watchdog env rid poll w
      in Go (refreshed rid st w) (we_sleep env poll w))"

definition held_classes :: "cluster_outcome list \<Rightarrow> jval list" where
  "held_classes outs = map cl_class (filter (\<lambda>c. cl_disposition c = Held) outs)"

definition is_resubmitted :: "cluster_outcome list \<Rightarrow> bool" where
  "is_resubmitted outs \<longleftrightarrow> list_ex (\<lambda>c. cl_disposition c = Resubmitted) outs"

definition recover_tick ::
  "'c watch_env \<Rightarrow> monitor_spec \<Rightarrow> rat \<Rightarrow> watch_note list \<Rightarrow> tick_row \<Rightarrow> watch_state \<Rightarrow> 'c recon_world \<Rightarrow> 'c step" where
  "recover_tick env spec elapsed notes row st w =
     (case maybe_resolve_and_recover (we_rescue env) (ms_run spec) (wa_record st) (we_max_code env) w of
        (None, w) \<Rightarrow> finish env spec ''failed'' elapsed (notes @ [RecoverRaised]) row st w
      | (Some (outs, n), w) \<Rightarrow>
          (let acts = tk_actions row @ (if outs = [] then [] else [ResolveAndRecover outs n])
           in if is_resubmitted outs then keep_watching env spec row acts st w
              else finish env spec ''failed'' elapsed
                     (notes @ (if held_classes outs = [] then [] else [RecoverHeld (held_classes outs)])) (row\<lparr>tk_actions := acts\<rparr>) st w))"

text \<open>The preempted ids of the status, \<open>None\<close> when \<open>int\<close> refuses one.\<close>

definition preempted_of :: "dict \<Rightarrow> int list option" where
  "preempted_of summary = (case jget summary ''preempted_task_ids'' of JList xs \<Rightarrow> int_list xs | _ \<Rightarrow> Some [])"

definition failed_tick ::
  "'c watch_env \<Rightarrow> monitor_spec \<Rightarrow> rat \<Rightarrow> watch_note list \<Rightarrow> tick_row \<Rightarrow> watch_state \<Rightarrow> 'c recon_world \<Rightarrow> 'c step" where
  "failed_tick env spec elapsed notes row st w =
     (let rec = wa_record st
      in if \<not> lr_auto_resume rec then recover_tick env spec elapsed notes row st w
         else
           (case (preempted_of (tk_summary row), kill_requested_at rec) of
              (None, []) \<Rightarrow> Crash st w
            | (ids, _) \<Rightarrow>
                (case maybe_auto_resume (we_rescue env) (ms_run spec) rec (case ids of None \<Rightarrow> [] | Some xs \<Rightarrow> xs) w of
                   (None, w) \<Rightarrow> recover_tick env spec elapsed [ResumeNote ResumeRaised] row st w
                 | (Some out, w) \<Rightarrow>
                     (if ao_resume out
                      then keep_watching env spec row (tk_actions row @ [AutoResume (ao_tasks out) (ao_resubmitted out) (ao_count out)]) st w
                      else recover_tick env spec elapsed [ResumeNote (ao_reason out)] row st w))))"

section \<open>The tick\<close>

definition count_diff :: "watch_state \<Rightarrow> dict \<Rightarrow> string \<Rightarrow> int list option" where
  "count_diff st summary key =
     (if wa_ticks st \<le> 1 then Some []
      else
        (case (strict_count summary key, strict_count (wa_summary st) key) of
           (Some cur, Some prv) \<Rightarrow> Some (if cur > prv then [cur - prv] else []) | _ \<Rightarrow> None))"

text \<open>The verdict of the tick; a failed one is dropped when the scheduler still holds jobs.\<close>

definition tick_verdict ::
  "'c watch_env \<Rightarrow> string \<Rightarrow> dict \<Rightarrow> bool \<Rightarrow> watch_state \<Rightarrow> 'c recon_world
   \<Rightarrow> (string option \<times> polling_reason option) option \<times> watch_state" where
  "tick_verdict env rid summary stale st w =
     (case unresolved_unknown summary (total_tasks (wa_record st)) of
        None \<Rightarrow> (None, st)
      | Some u \<Rightarrow>
          (let st = st\<lparr>wa_unknown := (if u then wa_unknown st + 1 else 0)\<rparr>
           in (map_option (\<lambda>(v, r). if stale \<and> v = Some ''failed'' then (None, None) else (v, r))
                 (classify_polling summary (total_tasks (wa_record st)) (we_partial_ok env rid w) (wa_unknown st)), st)))"

definition notes_of :: "polling_reason option \<Rightarrow> watch_note list" where
  "notes_of r = (case r of None \<Rightarrow> [] | Some p \<Rightarrow> [PollNote p])"

text \<open>The static facts of a watch: the wave map, the walltime and the bound from it, and its start.\<close>

record watch_facts =
  wf_map :: "(string \<times> jval list) list"
  wf_walltime :: "rat option"
  wf_bound :: int
  wf_started :: rat

definition in_flight_tick ::
  "'c watch_env \<Rightarrow> monitor_spec \<Rightarrow> watch_facts \<Rightarrow> rat \<Rightarrow> bool \<Rightarrow> tick_row \<Rightarrow> watch_state \<Rightarrow> 'c recon_world \<Rightarrow> 'c step" where
  "in_flight_tick env spec facts now announced row st w =
     (let elapsed = now - wf_started facts
      in if elapsed \<ge> ms_budget spec then
           (let st = log_tick (row\<lparr>tk_state := ''timeout'', tk_next := None\<rparr>) st
            in case ingest_runtime env (wa_record st) w of
                 (False, w) \<Rightarrow> Crash st w
               | (True, w) \<Rightarrow> Stop ''cap-overrun'' (watch_result ''timeout'' (tk_summary row) elapsed [] st) st w)
         else
           (let (st, acts) = pace env spec (wf_walltime facts) (wf_bound facts) (tk_summary row) now st;
                st = log_tick (row\<lparr>tk_actions := tk_actions row @ acts, tk_state := ''in_flight'', tk_next := Some (wa_interval st)\<rparr>) st;
                w = stamp_watchdog env (ms_run spec) (wa_interval st) w
            in Go st (if we_wait_enabled env \<and> announced then we_wait env (wa_interval st) w else we_sleep env (wa_interval st) w)))"

definition settle_tick ::
  "'c watch_env \<Rightarrow> monitor_spec \<Rightarrow> watch_facts \<Rightarrow> rat \<Rightarrow> bool \<Rightarrow> bool \<Rightarrow> tick_row \<Rightarrow> watch_state \<Rightarrow> 'c recon_world \<Rightarrow> 'c step" where
  "settle_tick env spec facts now announced stale row st w =
     (case tick_verdict env (ms_run spec) (tk_summary row) stale st w of
        (None, st) \<Rightarrow> Crash st w
      | (Some (verdict, why), st) \<Rightarrow>
          (case verdict of
             None \<Rightarrow> in_flight_tick env spec facts now announced row st w
           | Some v \<Rightarrow>
               (if v = ''complete'' then finish env spec v (now - wf_started facts) (complete_notes st) row st w
                else if v = ''failed'' then failed_tick env spec (now - wf_started facts) (notes_of why) row st w
                else finish env spec v (now - wf_started facts) (notes_of why) row st w)))"

definition status_tick ::
  "'c watch_env \<Rightarrow> monitor_spec \<Rightarrow> watch_facts \<Rightarrow> rat \<Rightarrow> bool \<Rightarrow> dict \<Rightarrow> bool \<Rightarrow> watch_state \<Rightarrow> 'c recon_world \<Rightarrow> 'c step" where
  "status_tick env spec facts now announced summary stale st w =
     (case (count_diff st summary ''complete'', count_diff st summary ''failed'') of
        (Some nc, Some nf) \<Rightarrow>
          (case combine_phase env spec (wf_map facts) summary (st\<lparr>wa_summary := summary\<rparr>) w of
             (None, st, w) \<Rightarrow> Crash st w
           | (Some (acts, newly), st, w) \<Rightarrow>
               (case stream_finished_results (we_stream env) (ms_run spec) (wa_record st) now summary (wa_stream st) w of
                  (sact, stream, w) \<Rightarrow>
                    settle_tick env spec facts now announced stale
                      \<lparr>tk_summary = summary, tk_newly_complete = nc, tk_newly_failed = nf, tk_newly_combined = newly,
                       tk_actions = acts @ (case sact of None \<Rightarrow> [] | Some a \<Rightarrow> [StreamAction a]), tk_state = ''in_flight'', tk_next = None\<rparr>
                      (st\<lparr>wa_stream := stream\<rparr>) w))
      | _ \<Rightarrow> Crash st w)"

definition watch_tick :: "'c watch_env \<Rightarrow> monitor_spec \<Rightarrow> watch_facts \<Rightarrow> watch_state \<Rightarrow> 'c recon_world \<Rightarrow> 'c step" where
  "watch_tick env spec facts st w =
     (let now = we_now env w
      in case observe env spec (wf_map facts) now (st\<lparr>wa_ticks := wa_ticks st + 1\<rparr>) w of
           (SeenCensus summary stale, st, w) \<Rightarrow> status_tick env spec facts now True summary stale st w
         | (SeenStatus summary, st, w) \<Rightarrow> status_tick env spec facts now False summary False st w
         | (SeenFault fault, st, w) \<Rightarrow> fault_tick env spec (wf_started facts) fault st w
         | (SeenRaised, st, w) \<Rightarrow> Crash st w)"

section \<open>The watch\<close>

datatype 'c watched =
  Watching watch_state "'c recon_world"
| Ended string monitor_result watch_state "'c recon_world"
| Crashed watch_state "'c recon_world"

fun watch :: "'c watch_env \<Rightarrow> monitor_spec \<Rightarrow> watch_facts \<Rightarrow> nat \<Rightarrow> watch_state \<Rightarrow> 'c recon_world \<Rightarrow> 'c watched" where
  "watch env spec facts 0 st w = Watching st w"
| "watch env spec facts (Suc n) st w =
     (case watch_tick env spec facts st w of
        Go st w \<Rightarrow> watch env spec facts n st w | Stop cause out st w \<Rightarrow> Ended cause out st w | Crash st w \<Rightarrow> Crashed st w)"

definition wave_map_of :: "dict option \<Rightarrow> (string \<times> jval list) list" where
  "wave_map_of sidecar =
     (case sidecar of
        None \<Rightarrow> []
      | Some sc \<Rightarrow> (case jget sc ''wave_map'' of JDict wm \<Rightarrow> map (\<lambda>(k, v). (k, list_or_empty v)) wm | _ \<Rightarrow> []))"

definition facts_of :: "'c watch_env \<Rightarrow> monitor_spec \<Rightarrow> 'c recon_world \<Rightarrow> watch_facts" where
  "facts_of env spec w =
     (let sidecar = we_sidecar env (ms_run spec); wmap = wave_map_of sidecar
      in \<lparr>wf_map = wmap, wf_walltime = sidecar_walltime_sec sidecar, wf_bound = max 1 (int (length wmap)), wf_started = we_now env w\<rparr>)"

definition first_state :: "'c watch_env \<Rightarrow> monitor_spec \<Rightarrow> live_run \<Rightarrow> 'c recon_world \<Rightarrow> watch_state" where
  "first_state env spec rec w =
     (let streaming = incremental_harvest_enabled (ms_stream spec) (we_needs_ssh env rec) (we_stream_flag env)
      in \<lparr>wa_ticks = 0, wa_summary = [], wa_combined = lr_combined rec, wa_failed = lr_failed_waves rec, wa_attempts = (\<lambda>x. 0),
          wa_unknown = 0, wa_missing = None,
          wa_stream = new_stream streaming (if streaming then we_mirrored env (ms_run spec) else 0),
          wa_interval = floor_poll_interval env (ms_poll spec), wa_unchanged = 0, wa_fingerprint = None, wa_running = None,
          wa_ceiling = False, wa_env_polls = 0, wa_last_walk = we_now env w, wa_sig = None, wa_static = 0, wa_record = rec, wa_log = []\<rparr>)"

datatype flow_answer =
  NoJournalRecord
| NothingToMonitor
| StillWatching
| Returned monitor_result
| FlowRaised

text \<open>The flow, followed for \<open>n\<close> ticks, and the harvest at every end of it.\<close>

definition monitor_flow ::
  "'c watch_env \<Rightarrow> monitor_spec \<Rightarrow> nat \<Rightarrow> 'c recon_world \<Rightarrow> flow_answer \<times> tick_row list \<times> 'c recon_world" where
  "monitor_flow env spec n w =
     (let rid = ms_run spec
      in case rw_runs w rid of
           None \<Rightarrow> (NoJournalRecord, [], w)
         | Some rec \<Rightarrow>
             (if lr_job_ids rec = [] then (NothingToMonitor, [], w)
              else
                (case watch env spec (facts_of env spec w) n (first_state env spec rec w) w of
                   Watching st w \<Rightarrow> (StillWatching, wa_log st, w)
                 | Ended cause out st w \<Rightarrow> (Returned out, wa_log st, snd (terminal_harvest (we_harvest env) rid cause (wa_record st) w))
                 | Crashed st w \<Rightarrow>
                     (FlowRaised, wa_log st, snd (terminal_harvest (we_harvest env) rid ''abnormal-exit'' (wa_record st) w)))))"

end
