(* ===== verification/AutoRecoverLaws.thy ===== *)
theory AutoRecoverLaws
  imports AutoRecover
begin

text \<open>
  What the automatic resumption and recovery guarantee: nothing is resubmitted without the opt-in, after a kill
  request or at the cap, a run that did not opt in is left as it is, and what a stale counter leads to.
\<close>

section \<open>The resolver\<close>

text \<open>The strategies that the resolver can choose.\<close>

definition STRATEGIES :: "string list" where
  "STRATEGIES = [''increase-parallelism'', ''reduce-width'', ''increase-mem-per-gpu'', ''increase-mem'', ''increase-walltime'',
     ''retry-on-different-node'']"

lemma deterministic_strategies: "fst (deterministic_fix cls spec first) \<in> set STRATEGIES"
  by (simp add: deterministic_fix_def gpu_oom_action_def STRATEGIES_def)

lemma resolve_total: "\<exists>d. resolve_failure f cap = Inr d"
  by (simp add: resolve_failure_def decide_def Let_def split: option.split)

lemma resolve_code:
  assumes "resolve_failure f cap = Inr d" "chosen d = Some fix'"
  shows "error_class_of f \<in> set DETERMINISTIC \<and> action fix' \<in> set STRATEGIES \<and> verdict_by d = Code
    \<and> (\<forall>n ss. ft_attempts f = Some (n, ss) \<longrightarrow> n < cap \<and> action fix' \<notin> set ss)"
proof -
  have hit: "code_rule cap f = Some fix'" "verdict_by d = Code"
    using assms by (auto simp: resolve_failure_def decide_def Let_def split: option.splits)
  then show ?thesis using deterministic_strategies [of "error_class_of f" "ft_resources f" "ft_first f"]
    by (auto simp: code_rule_def candidate_def strategy_exhausted_def Let_def split: if_splits prod.splits option.splits)
qed

lemma always_judgement_no_fix: "error_class_of f \<in> set ALWAYS_JUDGEMENT \<Longrightarrow> code_rule cap f = None"
  by (simp add: code_rule_def)

text \<open>In the watch the first-occurrence flag is never set, so the fixes that ask for it are never chosen.\<close>

lemma features_not_first: "\<not> ft_first (build_failure_features cd rec sidecar)"
  by (simp add: build_failure_features_def Let_def)

lemma watch_never_narrows:
  assumes "code_rule cap (build_failure_features cd rec sidecar) = Some fix'"
  shows "action fix' \<noteq> ''reduce-width'' \<and> (action fix' = ''increase-walltime'' \<longrightarrow> params fix' = half_more)"
  using assms features_not_first [of cd rec sidecar]
  by (auto simp: code_rule_def candidate_def deterministic_fix_def gpu_oom_action_def Let_def split: if_splits prod.splits)

section \<open>The resumption\<close>

definition may_resume :: "live_run \<Rightarrow> bool" where
  "may_resume rec \<longleftrightarrow> kill_requested_at rec = [] \<and> lr_auto_resume rec \<and> lr_resume_count rec < lr_max_resumes rec"

lemma decide_resume:
  "decide_auto_resume_from_ids ids policy n cap = (True, tids, why) \<Longrightarrow> policy \<and> n < cap \<and> ids \<noteq> [] \<and> tids = sort ids"
  by (auto simp: decide_auto_resume_from_ids_def split: if_splits)

text \<open>The branch that resubmits.\<close>

lemma resume_branches:
  assumes "maybe_auto_resume env rid rec preempted w = (out, w')"
  obtains (escalated) o' where "w' = w" "out = Some o'" "\<not> ao_resume o'" "\<not> ao_resubmitted o'"
    | (raised) ids where "may_resume rec" "ids \<noteq> []" "out = None"
        "rv_resubmit env rid (resume_request rid (lr_resume_count rec) (sort ids)) w = (ResubmitRaised, w')"
    | (resumed) ids dd jids w1 o' where "may_resume rec" "ids \<noteq> []"
        "rv_resubmit env rid (resume_request rid (lr_resume_count rec) (sort ids)) w = (ResubmitDone dd jids, w1)"
        "out = Some o'" "ao_resume o'" "ao_resubmitted o' = (\<not> dd)" "ao_tasks o' = sort ids"
        "(ao_count o', w') = (if dd then (lr_resume_count rec, w1)
           else bump_counter env rid (\<lambda>r. r\<lparr>lr_resume_count := lr_resume_count rec + 1\<rparr>) lr_resume_count (lr_resume_count rec + 1) w1)"
proof (cases "kill_requested_at rec = [] \<and> lr_auto_resume rec")
  case False
  with assms have "w' = w \<and> (\<exists>o'. out = Some o' \<and> \<not> ao_resume o' \<and> \<not> ao_resubmitted o')"
    by (auto simp: maybe_auto_resume_def escalate_resume_def split: if_splits)
  then show ?thesis using escalated by blast
next
  case gate: True
  show ?thesis
  proof (cases "if preempted \<noteq> [] then Some preempted else authoritative_preempted_ids env rid w")
    case None
    with assms gate have "w' = w \<and> (\<exists>o'. out = Some o' \<and> \<not> ao_resume o' \<and> \<not> ao_resubmitted o')"
      by (auto simp: maybe_auto_resume_def escalate_resume_def)
    then show ?thesis using escalated by blast
  next
    case (Some ids)
    obtain go tids why where dec: "decide_auto_resume_from_ids ids (lr_auto_resume rec) (lr_resume_count rec) (lr_max_resumes rec) = (go, tids, why)"
      by (metis prod_cases3)
    show ?thesis
    proof (cases go)
      case False
      with assms gate Some dec have "w' = w \<and> (\<exists>o'. out = Some o' \<and> \<not> ao_resume o' \<and> \<not> ao_resubmitted o')"
        by (auto simp: maybe_auto_resume_def)
      then show ?thesis using escalated by blast
    next
      case True
      have d: "lr_auto_resume rec" "lr_resume_count rec < lr_max_resumes rec" "ids \<noteq> []" "tids = sort ids"
        using decide_resume [of ids "lr_auto_resume rec" "lr_resume_count rec" "lr_max_resumes rec" tids why] dec True by simp_all
      then have m: "may_resume rec" using gate by (simp add: may_resume_def)
      obtain answer w1 where r: "rv_resubmit env rid (resume_request rid (lr_resume_count rec) (sort ids)) w = (answer, w1)" by fastforce
      show ?thesis
      proof (cases answer)
        case ResubmitRaised
        then have "out = None" "w' = w1" using assms gate Some dec True d r by (auto simp: maybe_auto_resume_def)
        then show ?thesis using raised [OF m] d r ResubmitRaised by auto
      next
        case (ResubmitDone dd jids)
        obtain n w2 where b: "(if dd then (lr_resume_count rec, w1)
           else bump_counter env rid (\<lambda>r. r\<lparr>lr_resume_count := lr_resume_count rec + 1\<rparr>) lr_resume_count (lr_resume_count rec + 1) w1) = (n, w2)"
          by fastforce
        have "out = Some \<lparr>ao_resume = True, ao_reason = why, ao_tasks = sort ids, ao_resubmitted = \<not> dd, ao_count = n\<rparr> \<and> w' = w2"
          using assms gate Some dec True d r ResubmitDone b by (auto simp: maybe_auto_resume_def Let_def)
        then show ?thesis using resumed [OF m _ r [unfolded ResubmitDone], of "\<lparr>ao_resume = True, ao_reason = why, ao_tasks = sort ids, ao_resubmitted = \<not> dd, ao_count = n\<rparr>"] d b
          by simp
      qed
    qed
  qed
qed

lemma bump_counter_stored:
  "\<not> rv_write_fails env w \<Longrightarrow> rw_runs w rid = Some r
   \<Longrightarrow> bump_counter env rid put get n w = (get (put r), w\<lparr>rw_runs := (rw_runs w)(rid := Some (put r))\<rparr>)"
  by (simp add: bump_counter_def update_run_status_def Let_def)

lemma bump_counter_lost: "rv_write_fails env w \<Longrightarrow> bump_counter env rid put get n w = (n, w)"
  by (simp add: bump_counter_def)


text \<open>A cluster that answers every request once, and remembers which ones it has seen.\<close>

definition remembers :: "string list rescue_env" where
  "remembers =
     \<lparr>rv_failures = (\<lambda>rid w. Some (JDict [(''preempted_task_ids'', JList [JInt 3, JInt 1])])),
      rv_resubmit = (\<lambda>rid q w. if rq_id q \<in> set (rw_cluster w) then (ResubmitDone True [], w)
        else (ResubmitDone False [''9''], w\<lparr>rw_cluster := rq_id q # rw_cluster w\<rparr>)),
      rv_write_fails = (\<lambda>w. False), rv_sidecar = (\<lambda>rid. None), rv_valid = (\<lambda>d. True), rv_dump = (\<lambda>e. [(''escalation'', JBool True)])\<rparr>"

definition rescue_record :: "int \<Rightarrow> live_run" where
  "rescue_record n = (submitting_record \<lparr>mr_run = ''r'', mr_cluster = ''c'', mr_total = 4, mr_campaign = [], mr_auto_resume = True,
     mr_max_resumes = 2, mr_auto_recover = True, mr_max_recovers = 2\<rparr> 0 ''t'')\<lparr>run_status := ''in_flight'', lr_job_ids := [''7''],
     lr_resume_count := n, lr_recover_count := n\<rparr>"

definition rescue_world :: "int \<Rightarrow> string list \<Rightarrow> string list recon_world" where
  "rescue_world n seen = \<lparr>rw_runs = [''r'' \<mapsto> rescue_record n], rw_cluster = seen, rw_harvests = (\<lambda>x. [])\<rparr>"

lemma demo_resume:
  "maybe_auto_resume remembers ''r'' (rescue_record 1) [] (rescue_world 1 [])
     = (Some \<lparr>ao_resume = True, ao_reason = UnderCap, ao_tasks = [1, 3], ao_resubmitted = True, ao_count = 2\<rparr>,
        (rescue_world 2 [''auto_resume_r_1''])\<lparr>rw_runs := [''r'' \<mapsto> (rescue_record 1)\<lparr>lr_resume_count := 2\<rparr>]\<rparr>)"
proof -
  have t: "int_text 1 = ''1''" by code_simp
  show ?thesis
    by (simp add: maybe_auto_resume_def remembers_def rescue_record_def rescue_world_def submitting_record_def authoritative_preempted_ids_def
        list_or_empty_def map_filter_simps decide_auto_resume_from_ids_def resume_request_def t bump_counter_def update_run_status_def Let_def)
qed


text \<open>
  A counter whose bump was lost: the request id of that counter is a replay, so the resumption keeps reporting that it
  resumes, submits nothing and changes nothing.
\<close>

lemma stale_counter_replays:
  assumes "may_resume rec" "preempted \<noteq> []"
    "rv_resubmit env rid (resume_request rid (lr_resume_count rec) (sort preempted)) w = (ResubmitDone True [], w)"
  shows "\<exists>o'. maybe_auto_resume env rid rec preempted w = (Some o', w) \<and> ao_resume o' \<and> \<not> ao_resubmitted o'"
  using assms by (simp add: maybe_auto_resume_def may_resume_def decide_auto_resume_from_ids_def)

section \<open>The recovery\<close>

text \<open>An outcome of a cluster of failures, and what it did: no world is touched without the opt-in, and the counter moves only below the cap.\<close>

lemma park_opt_out: "park_outcome env rid cd esc False by' w = (Some (outcome_of cd VerdictOnly (Some by') None), w)"
  by (simp add: park_outcome_def)

lemma park_disposition:
  "park_outcome env rid cd esc opt by' w = (Some out, w') \<Longrightarrow> cl_disposition out \<noteq> Resubmitted"
  by (auto simp: park_outcome_def outcome_of_def split: if_splits sum.splits prod.splits)

lemma bump_fst: "fst (bump_counter env rid (\<lambda>r. r\<lparr>lr_recover_count := m\<rparr>) lr_recover_count m w) = m"
  by (auto simp: bump_counter_def update_run_status_def Let_def split: option.splits)

lemma act_on_code_cases:
  assumes "act_on_code env rid rec cd verb ps resources n w = (Some (out, n'), w')"
  shows "(\<not> lr_auto_recover rec \<longrightarrow> w' = w \<and> cl_disposition out = VerdictOnly \<and> n' = n)
    \<and> (cl_disposition out = Resubmitted \<longrightarrow> lr_auto_recover rec \<and> n < lr_max_recovers rec)
    \<and> (n' = n \<or> n' = n + 1 \<and> cl_disposition out = Resubmitted)"
proof (cases "\<exists>ids over. coerce_task_ids (list_or_empty (jget cd ''task_ids'')) = Some ids \<and> concrete_overrides verb ps resources = Some over")
  case False
  then obtain by' where p: "park_outcome env rid cd (code_escalation verb ps (Remark verb)) (lr_auto_recover rec) Code w = (Some out, w')" "n' = n"
    using assms by (auto simp: act_on_code_def Let_def split: option.splits prod.splits)
  then show ?thesis using park_disposition [OF p(1)] by (auto simp: park_outcome_def outcome_of_def split: if_splits)
next
  case True
  then obtain ids over where c: "coerce_task_ids (list_or_empty (jget cd ''task_ids'')) = Some ids" "concrete_overrides verb ps resources = Some over"
    by blast
  obtain answer w1 where r: "rv_resubmit env rid (recover_request rid n (jget cd ''error_class'') ids over) w = (answer, w1)" by fastforce
  obtain w2 where b: "bump_counter env rid (\<lambda>r. r\<lparr>lr_recover_count := n + 1\<rparr>) lr_recover_count (n + 1) w1 = (n + 1, w2)"
    using bump_fst [of env rid "n + 1" w1] by (metis prod.collapse)
  show ?thesis
    using assms unfolding act_on_code_def Let_def c r option.case prod.case b
    by (cases answer) (auto simp: outcome_of_def split: if_splits)
qed

lemma recover_cluster_cases:
  assumes "recover_cluster env rid rec sidecar mc cd n w = (Some (out, n'), w')"
  shows "(\<not> lr_auto_recover rec \<longrightarrow> w' = w \<and> cl_disposition out \<in> {VerdictOnly, Skipped} \<and> n' = n)
    \<and> (cl_disposition out = Resubmitted \<longrightarrow> lr_auto_recover rec \<and> n < lr_max_recovers rec)
    \<and> (n' = n \<or> n' = n + 1 \<and> cl_disposition out = Resubmitted)"
proof (cases "jget cd ''error_class'' = JText ''preempted'' \<or> \<not> rv_valid env cd")
  case True
  then show ?thesis using assms by (auto simp: recover_cluster_def outcome_of_def)
next
  case False
  obtain d where d: "resolve_failure (build_failure_features cd rec sidecar) mc = Inr d" using resolve_total by blast
  show ?thesis
  proof (cases "chosen d")
    case (Some fix')
    then have "act_on_code env rid rec cd (action fix') (params fix')
        (case sidecar of None \<Rightarrow> None | Some sc \<Rightarrow> (case jget sc ''resources'' of JDict r \<Rightarrow> Some r | _ \<Rightarrow> None)) n w = (Some (out, n'), w')"
      using assms False d by (simp add: recover_cluster_def)
    from act_on_code_cases [OF this] show ?thesis by blast
  next
    case None
    show ?thesis
    proof (cases "escalated d")
      case None' : None
      then show ?thesis using assms False d None by (auto simp: recover_cluster_def outcome_of_def split: if_splits)
    next
      case (Some esc)
      then have p: "park_outcome env rid cd esc (lr_auto_recover rec) Judgement w = (Some out, w')" "n' = n"
        using assms False d None by (auto simp: recover_cluster_def split: option.splits prod.splits)
      then show ?thesis using park_disposition [OF p(1)] by (auto simp: park_outcome_def outcome_of_def split: if_splits)
    qed
  qed
qed

definition resubmitted :: "cluster_outcome list \<Rightarrow> bool" where
  "resubmitted outs \<longleftrightarrow> list_ex (\<lambda>c. cl_disposition c = Resubmitted) outs"

lemma recover_clusters_cases:
  "recover_clusters env rid rec sidecar mc cds n w = (Some (outs, n'), w') \<Longrightarrow>
     length outs = length cds
     \<and> (\<not> lr_auto_recover rec \<longrightarrow> w' = w \<and> \<not> resubmitted outs \<and> n' = n)
     \<and> (resubmitted outs \<longrightarrow> lr_auto_recover rec \<and> n < lr_max_recovers rec)
     \<and> n \<le> n' \<and> n' \<le> max n (lr_max_recovers rec)"
proof (induction cds arbitrary: n w outs)
  case Nil
  then show ?case by (simp add: resubmitted_def)
next
  case (Cons cd cds)
  obtain out n1 w1 where o: "recover_cluster env rid rec sidecar mc cd n w = (Some (out, n1), w1)"
    using Cons.prems by (auto split: prod.splits option.splits)
  obtain outs' where t: "recover_clusters env rid rec sidecar mc cds n1 w1 = (Some (outs', n'), w')" "outs = out # outs'"
    using Cons.prems o by (auto split: prod.splits option.splits)
  show ?case using Cons.IH [OF t(1)] recover_cluster_cases [OF o] unfolding t(2) resubmitted_def by auto
qed


definition failing :: "jval list \<Rightarrow> string list rescue_env" where
  "failing clusters = remembers\<lparr>rv_failures := (\<lambda>rid w. Some (JDict [(''clusters'', JList clusters)]))\<rparr>"

definition oom_cluster :: "int \<Rightarrow> jval" where
  "oom_cluster t = JDict [(''error_class'', JText ''node_failure''), (''task_ids'', JList [JInt t])]"

lemma demo_recover:
  "\<exists>outs w'. maybe_resolve_and_recover (failing [oom_cluster 1, oom_cluster 2, oom_cluster 3]) ''r'' (rescue_record 0) 3 (rescue_world 0 [])
     = (Some (outs, 2), w') \<and> map cl_disposition outs = [Resubmitted, Resubmitted, Held]
       \<and> rw_cluster w' = [''auto_recover_r_1'', ''auto_recover_r_0'']"
proof -
  have t: "int_text 1 = ''1''" "int_text 0 = ''0''" by code_simp+
  show ?thesis
    by (simp add: maybe_resolve_and_recover_def failing_def remembers_def fetch_clusters_def list_or_empty_def oom_cluster_def dict_or_empty_def
        recover_cluster_def resolve_failure_def decide_def code_rule_def build_failure_features_def error_class_of_def ALWAYS_JUDGEMENT_def
        DETERMINISTIC_def deterministic_fix_def resource_spec_from_sidecar_def strategy_exhausted_def retry_facts_def rescue_record_def
        submitting_record_def rescue_world_def candidate_def act_on_code_def concrete_overrides_def recover_request_def t bump_counter_def
        update_run_status_def outcome_of_def Let_def reason_of_def)
qed


text \<open>
  With the counter's request id already seen, each cluster is reported as resubmitted although no task was: the replay
  leaves the counter alone, so the next cluster asks under the same id.
\<close>

lemma replayed_recovery:
  "\<exists>outs. maybe_resolve_and_recover (failing [oom_cluster 1, oom_cluster 2, oom_cluster 3]) ''r'' (rescue_record 0) 3 (rescue_world 0 [''auto_recover_r_0''])
     = (Some (outs, 0), rescue_world 0 [''auto_recover_r_0'']) \<and> map cl_disposition outs = [Resubmitted, Resubmitted, Resubmitted]"
proof -
  have t: "int_text 0 = ''0''" by code_simp
  show ?thesis
    by (simp add: maybe_resolve_and_recover_def failing_def remembers_def fetch_clusters_def list_or_empty_def oom_cluster_def dict_or_empty_def
        recover_cluster_def resolve_failure_def decide_def code_rule_def build_failure_features_def error_class_of_def ALWAYS_JUDGEMENT_def
        DETERMINISTIC_def deterministic_fix_def resource_spec_from_sidecar_def strategy_exhausted_def retry_facts_def rescue_record_def
        submitting_record_def rescue_world_def candidate_def act_on_code_def concrete_overrides_def recover_request_def t outcome_of_def Let_def
        reason_of_def)
qed

end
