(* ===== verification/MonitorLaws.thy ===== *)
theory MonitorLaws
  imports MonitorLoop AutoRecoverLaws
begin

text \<open>
  What a watch guarantees whatever the cluster answers: every tick that goes on adds one row to the log, the clock and
  the ledger of harvests are kept by each of its steps, the intervals stay in bounds, and past the budget only a
  resubmission keeps it going.
\<close>

section \<open>Relations that the environment keeps\<close>

text \<open>A reflexive and transitive relation of worlds that a write of the journal and each operation of the environment keep.\<close>

definition env_keeps :: "'c watch_env \<Rightarrow> ('c recon_world \<Rightarrow> 'c recon_world \<Rightarrow> bool) \<Rightarrow> bool" where
  "env_keeps env R \<longleftrightarrow>
     (\<forall>w. R w w) \<and> (\<forall>a b c. R a b \<longrightarrow> R b c \<longrightarrow> R a c) \<and> (\<forall>w runs. R w (w\<lparr>rw_runs := runs\<rparr>))
     \<and> (\<forall>d w. R w (we_sleep env d w)) \<and> (\<forall>d w. R w (we_wait env d w))
     \<and> (\<forall>c w. R w (snd (we_remote env c w))) \<and> (\<forall>rid w. R w (snd (we_list_complete env rid w)))
     \<and> (\<forall>rec w. R w (snd (we_report env rec w))) \<and> (\<forall>rec w. R w (snd (we_api env rec w)))
     \<and> (\<forall>rid w. R w (snd (we_failover env rid w))) \<and> (\<forall>rec w. R w (snd (we_pull_runtime env rec w)))
     \<and> (\<forall>rid rec w. R w (snd (we_prefetch env rid rec w)))
     \<and> (\<forall>rid wv f w. R w (w\<lparr>rw_cluster := snd (ce_single (we_combiner env) rid wv f (rw_cluster w))\<rparr>))
     \<and> (\<forall>rid wfs w. R w (w\<lparr>rw_cluster := snd (ce_batch (we_combiner env) rid wfs (rw_cluster w))\<rparr>))
     \<and> (\<forall>rid rec w. R w (snd (sv_pull (we_stream env) rid rec w)))
     \<and> (\<forall>rid q w. R w (snd (rv_resubmit (we_rescue env) rid q w)))"

lemma respects_refl: "env_keeps env R \<Longrightarrow> R w w"
  by (simp add: env_keeps_def)

lemma respects_trans:
  assumes "env_keeps env R"
  shows "R a b \<Longrightarrow> R b c \<Longrightarrow> R a c"
proof -
  have "\<forall>a b c. R a b \<longrightarrow> R b c \<longrightarrow> R a c" using assms unfolding env_keeps_def by (elim conjE)
  then show "R a b \<Longrightarrow> R b c \<Longrightarrow> R a c" by blast
qed

lemma respects_runs: "env_keeps env R \<Longrightarrow> R w (w\<lparr>rw_runs := runs\<rparr>)"
  by (simp add: env_keeps_def)

lemma respects_runs': "env_keeps env R \<Longrightarrow> R a w \<Longrightarrow> R a (w\<lparr>rw_runs := runs\<rparr>)"
  using respects_runs respects_trans by metis

lemma respects_sleep: "env_keeps env R \<Longrightarrow> R w (we_sleep env d w)" "env_keeps env R \<Longrightarrow> R w (we_wait env d w)"
  by (simp_all add: env_keeps_def)

lemma respects_call:
  assumes "env_keeps env R"
  shows "we_remote env call w = (a1, w') \<Longrightarrow> R w w'"
    "we_list_complete env rid w = (a1, w') \<Longrightarrow> R w w'"
    "we_report env rec w = (a2, w') \<Longrightarrow> R w w'"
    "we_api env rec w = (a3, w') \<Longrightarrow> R w w'"
    "we_failover env rid w = (a4, w') \<Longrightarrow> R w w'"
    "we_pull_runtime env rec w = (a5, w') \<Longrightarrow> R w w'"
    "we_prefetch env rid rec w = (a6, w') \<Longrightarrow> R w w'"
    "sv_pull (we_stream env) rid rec w = (a7, w') \<Longrightarrow> R w w'"
    "rv_resubmit (we_rescue env) rid q w = (a8, w') \<Longrightarrow> R w w'"
    "ce_single (we_combiner env) rid wv f (rw_cluster w) = (a9, c) \<Longrightarrow> R w (w\<lparr>rw_cluster := c\<rparr>)"
    "ce_batch (we_combiner env) rid wfs (rw_cluster w) = (a9, c) \<Longrightarrow> R w (w\<lparr>rw_cluster := c\<rparr>)"
  using assms unfolding env_keeps_def by (metis snd_conv)+

section \<open>Reading the run keeps them\<close>

lemma probe_respects: "env_keeps env R \<Longrightarrow> census_liveness_probe env rec w = (a, w') \<Longrightarrow> R w w'"
  using respects_call(1) respects_refl by (fastforce simp: census_liveness_probe_def split: if_splits prod.splits)

lemma announce_respects: "env_keeps env R \<Longrightarrow> announce_status env rid rec w = (a, w') \<Longrightarrow> R w w'"
proof -
  assume r: "env_keeps env R" and a: "announce_status env rid rec w = (a, w')"
  obtain answer w1 where c: "we_remote env (AnnounceRead rid) w = (answer, w1)" by fastforce
  have "w' = w1 \<or> (\<exists>runs. w' = w1\<lparr>rw_runs := runs\<rparr>)"
    using a by (auto simp: announce_status_def c split: option.splits sum.splits if_splits prod.splits)
  then show ?thesis using respects_call(1) [OF r c] respects_runs' [OF r] by blast
qed

lemma record_summary_runs: "record_summary rid s w = (a, w') \<Longrightarrow> w' = w \<or> (\<exists>runs. w' = w\<lparr>rw_runs := runs\<rparr>)"
  by (auto simp: record_summary_def split: sum.splits prod.splits)

lemma record_status_respects: "env_keeps env R \<Longrightarrow> record_status env rid rec w = (a, w') \<Longrightarrow> R w w'"
proof -
  assume r: "env_keeps env R" and a: "record_status env rid rec w = (a, w')"
  obtain x w1 where c: "we_report env rec w = (x, w1)" by fastforce
  obtain y w2 where d: "we_api env rec w = (y, w2)" by fastforce
  have "\<exists>v \<in> {w1, w2}. w' = v \<or> (\<exists>runs. w' = v\<lparr>rw_runs := runs\<rparr>)"
    using a record_summary_runs
    by (fastforce simp: record_status_def c d split: if_splits walk_answer.splits api_answer.splits option.splits)
  then show ?thesis using respects_call(3) [OF r c] respects_call(4) [OF r d] respects_runs' [OF r] by blast
qed

lemma walk_respects: "env_keeps env R \<Longrightarrow> walk_tick env rid now st w = (a, st', w') \<Longrightarrow> R w w'"
  using record_status_respects by (fastforce simp: walk_tick_def Let_def split: prod.splits sum.splits)

lemma pull_respects: "env_keeps env R \<Longrightarrow> pull_tick env rid now st w = (a, st', w') \<Longrightarrow> R w w'"
proof -
  assume r: "env_keeps env R" and p: "pull_tick env rid now st w = (a, st', w')"
  obtain alive w1 where c: "census_liveness_probe env (wa_record st) w = (alive, w1)" by fastforce
  note w1 = probe_respects [OF r c]
  have "w' = w1 \<or> walk_tick env rid now st w1 = (a, st', w') \<or> walk_tick env rid now st w = (a, st', w')"
    using p by (auto simp: pull_tick_def c Let_def split: if_splits)
  then show ?thesis using w1 walk_respects [OF r] respects_trans [OF r w1] by metis
qed

lemma census_check_respects: "env_keeps env R \<Longrightarrow> census_check env s st w = (a, st', w') \<Longrightarrow> R w w'"
  using probe_respects respects_refl by (fastforce simp: census_check_def Let_def split: if_splits prod.splits)

lemma census_waves_respects: "env_keeps env R \<Longrightarrow> census_waves env rid b wmap s w = (a, w') \<Longrightarrow> R w w'"
  using respects_call(2) respects_refl by (fastforce simp: census_waves_def split: if_splits prod.splits option.splits)

lemma observe_cases:
  assumes "observe env spec wmap now st w = (a, st', w')"
  obtains (raised) w1 where "announce_status env (ms_run spec) (wa_record st) w = (None, w1)" "a = SeenRaised" "st' = st" "w' = w1"
    | (pulled) w1 where "w1 = w \<or> announce_status env (ms_run spec) (wa_record st) w = (Some None, w1)"
        "pull_tick env (ms_run spec) now st w1 = (a, st', w')"
    | (census) rec w1 s stale w2 s' where "announce_status env (ms_run spec) (wa_record st) w = (Some (Some rec), w1)"
        "census_check env (last_status rec) (st\<lparr>wa_record := rec, wa_env_polls := 0\<rparr>) w1 = ((s, stale), st', w2)"
        "census_waves env (ms_run spec) (ms_combine spec) wmap s w2 = (s', w')" "a = SeenCensus s' stale"
proof -
  obtain x w1 where x: "(if we_needs_ssh env (wa_record st) \<and> \<not> is_kill_confirmed (wa_record st)
      then announce_status env (ms_run spec) (wa_record st) w else (Some None, w)) = (x, w1)" by fastforce
  note o' = assms [unfolded observe_def Let_def x prod.case]
  show ?thesis
  proof (cases x)
    case None
    then have "announce_status env (ms_run spec) (wa_record st) w = (None, w1)" using x by (simp split: if_splits)
    moreover have "a = SeenRaised" "st' = st" "w' = w1" using o' None by simp_all
    ultimately show ?thesis by (rule raised)
  next
    case (Some y)
    show ?thesis
    proof (cases y)
      case None
      then have "w1 = w \<or> announce_status env (ms_run spec) (wa_record st) w = (Some None, w1)" using x Some by (simp split: if_splits)
      moreover have "pull_tick env (ms_run spec) now st w1 = (a, st', w')" using o' Some None by simp
      ultimately show ?thesis by (rule pulled)
    next
      case (Some rec)
      then have an: "announce_status env (ms_run spec) (wa_record st) w = (Some (Some rec), w1)"
        using x \<open>x = Some y\<close> by (simp split: if_splits)
      obtain s stale st2 w2 where cc: "census_check env (last_status rec) (st\<lparr>wa_record := rec, wa_env_polls := 0\<rparr>) w1 = ((s, stale), st2, w2)"
        by (metis prod_cases3 surj_pair)
      obtain s' w3 where cw: "census_waves env (ms_run spec) (ms_combine spec) wmap s w2 = (s', w3)" by fastforce
      have "a = SeenCensus s' stale" "st' = st2" "w' = w3" using o' \<open>x = Some y\<close> Some cc cw by simp_all
      then show ?thesis using census [OF an] cc cw by blast
    qed
  qed
qed

lemma observe_respects: "env_keeps env R \<Longrightarrow> observe env spec wmap now st w = (a, st', w') \<Longrightarrow> R w w'"
proof -
  assume r: "env_keeps env R" and o: "observe env spec wmap now st w = (a, st', w')"
  note t = respects_trans [OF r]
  from o show ?thesis
  proof (cases rule: observe_cases)
    case (raised w1)
    then show ?thesis using announce_respects [OF r] by blast
  next
    case (pulled w1)
    then show ?thesis using announce_respects [OF r] pull_respects [OF r pulled(2)] t by blast
  next
    case (census rec w1 s stale w2 s')
    then show ?thesis using announce_respects [OF r census(1)] census_check_respects [OF r census(2)]
        census_waves_respects [OF r census(3)] t by blast
  qed
qed

section \<open>Combining, streaming and rescuing keep them\<close>

lemma combine_wave_respects: "env_keeps env R \<Longrightarrow> combine_wave (we_combiner env) rid wv f w = (a, w') \<Longrightarrow> R w w'"
proof -
  assume r: "env_keeps env R" and a: "combine_wave (we_combiner env) rid wv f w = (a, w')"
  obtain x c where c: "ce_single (we_combiner env) rid wv f (rw_cluster w) = (x, c)" by fastforce
  have "w' = w \<or> w' = w\<lparr>rw_cluster := c\<rparr> \<or> (\<exists>runs. w' = (w\<lparr>rw_cluster := c\<rparr>)\<lparr>rw_runs := runs\<rparr>)"
    using a by (auto simp: combine_wave_def run_combiner_checked_def c Let_def split: if_splits option.splits prod.splits sum.splits)
  then show ?thesis using respects_refl [OF r] respects_call(10) [OF r c] respects_runs' [OF r] by metis
qed

lemma collect_respects: "env_keeps env R \<Longrightarrow> collect_waves (we_combiner env) rid rec batch wfs w = (a, w') \<Longrightarrow> R w w'"
proof (induction wfs arbitrary: w a w')
  case Nil
  then show ?case by (simp add: respects_refl)
next
  case (Cons wf wfs)
  obtain wv f where wf: "wf = (wv, f)" by (cases wf)
  note t = respects_trans [OF Cons.prems(1)]
  show ?case
  proof (cases "case batch of None \<Rightarrow> None | Some b \<Rightarrow> map_of b wv")
    case (Some o')
    obtain x w1 where c: "collect_waves (we_combiner env) rid rec batch wfs w = (x, w1)" by fastforce
    have "w' = w1" using Cons.prems(2) Some c by (auto simp: wf Let_def split: prod.splits sum.splits)
    then show ?thesis using Cons.IH [OF Cons.prems(1) c] by simp
  next
    case None
    obtain x w1 where c: "combine_wave (we_combiner env) rid wv f w = (x, w1)" by fastforce
    note w1 = combine_wave_respects [OF Cons.prems(1) c]
    obtain y w2 where d: "collect_waves (we_combiner env) rid rec batch wfs w1 = (y, w2)" by fastforce
    have "w' = w1 \<or> w' = w2" using Cons.prems(2) None c d by (auto simp: wf split: prod.splits sum.splits)
    then show ?thesis using w1 Cons.IH [OF Cons.prems(1) d] t by blast
  qed
qed

lemma combine_waves_respects: "env_keeps env R \<Longrightarrow> combine_waves (we_combiner env) rid waves forces w = (a, w') \<Longrightarrow> R w w'"
proof -
  assume r: "env_keeps env R" and a: "combine_waves (we_combiner env) rid waves forces w = (a, w')"
  define wfs where "wfs = map (\<lambda>wv. (wv, map_of forces wv = Some True)) (filter (\<lambda>wv. \<not> in_journal rid (map_of forces wv = Some True) wv (rw_runs w))
    (sorted_list_of_set (set waves)))"
  obtain x c where c: "ce_batch (we_combiner env) rid wfs (rw_cluster w) = (x, c)" by fastforce
  have c': "run_combiner_batch_checked (we_combiner env) rid wfs (rw_cluster w) = (y, d) \<Longrightarrow> d = c" for y d
    by (auto simp: run_combiner_batch_checked_def c split: option.splits prod.splits if_splits)
  define w1 where "w1 = w\<lparr>rw_cluster := c\<rparr>"
  have w1: "R w w1" unfolding w1_def by (rule respects_call(11) [OF r c])
  obtain y d where b: "run_combiner_batch_checked (we_combiner env) rid wfs (rw_cluster w) = (y, d)" by fastforce
  have d: "w\<lparr>rw_cluster := d\<rparr> = w1" using c' [OF b] by (simp add: w1_def)
  have "w' = w \<or> w' = w1 \<or> (\<exists>batch v z. collect_waves (we_combiner env) rid (rw_runs w rid) batch wfs w1 = (z, v)
      \<and> (w' = v \<or> (\<exists>runs. w' = v\<lparr>rw_runs := runs\<rparr>)))"
  proof (cases y)
    case (Inl e)
    then show ?thesis using a b d unfolding combine_waves_def Let_def wfs_def by (auto split: if_splits)
  next
    case (Inr batch)
    obtain z v where z: "collect_waves (we_combiner env) rid (rw_runs w rid) batch wfs w1 = (z, v)" by fastforce
    have "w' = w \<or> w' = v \<or> (\<exists>runs. w' = v\<lparr>rw_runs := runs\<rparr>)"
      using a b [unfolded wfs_def] z [unfolded wfs_def] Inr d unfolding combine_waves_def Let_def
      by (auto split: if_splits sum.splits prod.splits)
    then show ?thesis using z by blast
  qed
  then show ?thesis using respects_refl [OF r] w1 collect_respects [OF r] respects_trans [OF r w1] respects_runs' [OF r] by metis
qed

lemma combine_phase_respects: "env_keeps env R \<Longrightarrow> combine_phase env spec wmap s st w = (a, st', w') \<Longrightarrow> R w w'"
proof -
  assume r: "env_keeps env R" and a: "combine_phase env spec wmap s st w = (a, st', w')"
  obtain batch forces attempts where ch: "choose_waves (newly_complete_waves s (Some wmap) (set (wa_combined st))) (wa_attempts st) = (batch, forces, attempts)"
    by (metis prod_cases3)
  obtain x w1 where c: "combine_waves (we_combiner env) (ms_run spec) batch forces w = (x, w1)" by fastforce
  note w1 = combine_waves_respects [OF r c]
  have "w' = w \<or> w' = w1 \<or> (\<exists>rec p. we_prefetch env (ms_run spec) rec w1 = (p, w'))"
    using a by (auto simp: combine_phase_def Let_def ch c split: if_splits prod.splits sum.splits combine_error.splits)
  then show ?thesis using respects_refl [OF r] w1 respects_call(7) [OF r] respects_trans [OF r w1] by metis
qed

lemma stream_respects: "env_keeps env R \<Longrightarrow> stream_finished_results (we_stream env) rid rec now s st w = (a, st', w') \<Longrightarrow> R w w'"
proof -
  assume r: "env_keeps env R" and a: "stream_finished_results (we_stream env) rid rec now s st w = (a, st', w')"
  have "w' = w \<or> w' = snd (sv_pull (we_stream env) rid rec w)"
    using a by (auto simp: stream_finished_results_def Let_def split: if_splits option.splits prod.splits)
  then show ?thesis using respects_refl [OF r] respects_call(8) [OF r] by (metis prod.collapse)
qed

lemma bump_world:
  "bump_counter env rid put get n w = (m, w') \<Longrightarrow> w' = w \<or> (\<exists>runs. w' = w\<lparr>rw_runs := runs\<rparr>)"
  by (auto simp: bump_counter_def split: if_splits sum.splits prod.splits)

lemma park_world:
  "park_outcome env rid cd esc opt by' w = (a, w') \<Longrightarrow> w' = w \<or> (\<exists>runs. w' = w\<lparr>rw_runs := runs\<rparr>)"
  by (auto simp: park_outcome_def split: if_splits sum.splits prod.splits)

lemma resume_respects: "env_keeps env R \<Longrightarrow> maybe_auto_resume (we_rescue env) rid rec pre w = (a, w') \<Longrightarrow> R w w'"
proof -
  assume r: "env_keeps env R" and a: "maybe_auto_resume (we_rescue env) rid rec pre w = (a, w')"
  from a show ?thesis
  proof (cases rule: resume_branches)
    case (escalated o')
    then show ?thesis using respects_refl [OF r] by simp
  next
    case (raised ids)
    then show ?thesis using respects_call(9) [OF r] by blast
  next
    case (resumed ids dd jids w1 o')
    have "w' = w1 \<or> (\<exists>runs. w' = w1\<lparr>rw_runs := runs\<rparr>)"
      using resumed(8) bump_world [of "we_rescue env" rid _ lr_resume_count "lr_resume_count rec + 1" w1 "ao_count o'" w'] by (auto split: if_splits)
    then show ?thesis using respects_call(9) [OF r resumed(3)] respects_runs' [OF r] by blast
  qed
qed

lemma act_respects:
  "env_keeps env R \<Longrightarrow> act_on_code (we_rescue env) rid rec cd verb ps resources n w = (a, w') \<Longrightarrow> R w w'"
proof -
  assume r: "env_keeps env R" and a: "act_on_code (we_rescue env) rid rec cd verb ps resources n w = (a, w')"
  note rr = respects_runs [OF r] and r0 = respects_refl [OF r]
  show ?thesis
  proof (cases "\<exists>ids over. coerce_task_ids (list_or_empty (jget cd ''task_ids'')) = Some ids \<and> concrete_overrides verb ps resources = Some over")
    case False
    then have "\<exists>b. park_outcome (we_rescue env) rid cd (code_escalation verb ps (Remark verb)) (lr_auto_recover rec) Code w = (b, w')"
      using a by (auto simp: act_on_code_def Let_def split: option.splits prod.splits)
    then show ?thesis using park_world rr r0 by metis
  next
    case True
    then obtain ids over where c: "coerce_task_ids (list_or_empty (jget cd ''task_ids'')) = Some ids" "concrete_overrides verb ps resources = Some over"
      by blast
    obtain answer w1 where q: "rv_resubmit (we_rescue env) rid (recover_request rid n (jget cd ''error_class'') ids over) w = (answer, w1)" by fastforce
    obtain m w2 where b: "bump_counter (we_rescue env) rid (\<lambda>r. r\<lparr>lr_recover_count := n + 1\<rparr>) lr_recover_count (n + 1) w1 = (m, w2)"
      by fastforce
    have "w' = w \<or> w' = w1 \<or> w' = w2"
      using a unfolding act_on_code_def Let_def c q option.case prod.case b by (cases answer) (auto split: if_splits)
    then show ?thesis using r0 respects_call(9) [OF r q] bump_world [OF b] respects_runs' [OF r] by metis
  qed
qed

lemma recover_cluster_respects:
  "env_keeps env R \<Longrightarrow> recover_cluster (we_rescue env) rid rec sidecar mc cd n w = (a, w') \<Longrightarrow> R w w'"
proof -
  assume r: "env_keeps env R" and a: "recover_cluster (we_rescue env) rid rec sidecar mc cd n w = (a, w')"
  note rr = respects_runs [OF r] and r0 = respects_refl [OF r]
  obtain d where d: "resolve_failure (build_failure_features cd rec sidecar) mc = Inr d" using resolve_total by blast
  have "w' = w \<or> (\<exists>b cd esc opt by'. park_outcome (we_rescue env) rid cd esc opt by' w = (b, w'))
      \<or> (\<exists>b verb ps res. act_on_code (we_rescue env) rid rec cd verb ps res n w = (b, w'))"
    using a by (auto simp: recover_cluster_def d split: if_splits option.splits prod.splits)
  then show ?thesis using r0 rr park_world act_respects [OF r] by metis
qed

lemma recover_clusters_respects:
  "env_keeps env R \<Longrightarrow> recover_clusters (we_rescue env) rid rec sidecar mc cds n w = (a, w') \<Longrightarrow> R w w'"
proof (induction cds arbitrary: n w a w')
  case Nil
  then show ?case by (simp add: respects_refl)
next
  case (Cons cd cds)
  obtain x w1 where c: "recover_cluster (we_rescue env) rid rec sidecar mc cd n w = (x, w1)" by fastforce
  note w1 = recover_cluster_respects [OF Cons.prems(1) c]
  show ?case
  proof (cases x)
    case None
    then show ?thesis using Cons.prems(2) c w1 by simp
  next
    case (Some on)
    obtain out m where on: "on = (out, m)" by (cases on)
    obtain y w2 where d: "recover_clusters (we_rescue env) rid rec sidecar mc cds m w1 = (y, w2)" by fastforce
    have "w' = w2" using Cons.prems(2) c Some on d by (auto split: option.splits prod.splits)
    then show ?thesis using respects_trans [OF Cons.prems(1) w1 Cons.IH [OF Cons.prems(1) d]] by simp
  qed
qed

lemma recover_respects:
  "env_keeps env R \<Longrightarrow> maybe_resolve_and_recover (we_rescue env) rid rec mc w = (a, w') \<Longrightarrow> R w w'"
  using recover_clusters_respects respects_refl by (fastforce simp: maybe_resolve_and_recover_def split: option.splits)

section \<open>A tick keeps them and logs one row\<close>

fun step_world :: "'c step \<Rightarrow> 'c recon_world" where
  "step_world (Go st w) = w" | "step_world (Stop cause out st w) = w" | "step_world (Crash st w) = w"

fun step_state :: "'c step \<Rightarrow> watch_state" where
  "step_state (Go st w) = st" | "step_state (Stop cause out st w) = st" | "step_state (Crash st w) = st"

lemma stamp_world: "stamp_watchdog env rid d w = w \<or> (\<exists>runs. stamp_watchdog env rid d w = w\<lparr>rw_runs := runs\<rparr>)"
  by (auto simp: stamp_watchdog_def split: sum.splits prod.splits)

lemma stamp_respects: "env_keeps env R \<Longrightarrow> R w (stamp_watchdog env rid d w)"
  using stamp_world [of env rid d w] respects_runs [of env R w] respects_refl [of env R w] by metis

lemma stamp_and_sleep_respects: "env_keeps env R \<Longrightarrow> R w (stamp_and_sleep env rid d w)"
  unfolding stamp_and_sleep_def by (rule respects_trans [OF _ stamp_respects respects_sleep(1)])

lemma ingest_respects: "env_keeps env R \<Longrightarrow> ingest_runtime env rec w = (a, w') \<Longrightarrow> R w w'"
  using respects_call(6) by (fastforce simp: ingest_runtime_def split: prod.splits)

lemma time_out_respects: "env_keeps env R \<Longrightarrow> R w (step_world (time_out env started cause notes st w))"
  using ingest_respects by (fastforce simp: time_out_def split: prod.splits bool.splits)

lemma command_fault_respects: "env_keeps env R \<Longrightarrow> R w (step_world (command_fault env spec started det st w))"
  using time_out_respects stamp_and_sleep_respects by (auto simp: command_fault_def Let_def)

lemma ssh_fault_respects: "env_keeps env R \<Longrightarrow> R w (step_world (ssh_fault env spec started fault st w))"
proof -
  assume r: "env_keeps env R"
  define co where "co = (case fault of WalkCircuitOpen d \<Rightarrow> True | _ \<Rightarrow> False)"
  obtain t w1 where f: "failed_over env (ms_run spec) co w = (t, w1)" by fastforce
  have w1: "R w w1" using f respects_call(5) [OF r] respects_refl [OF r] by (auto simp: failed_over_def split: if_splits prod.splits option.splits)
  have "R w1 (step_world (ssh_fault env spec started fault st w))"
    unfolding ssh_fault_def Let_def co_def [symmetric] f prod.case
    using time_out_respects [OF r] stamp_and_sleep_respects [OF r] by auto
  then show ?thesis by (rule respects_trans [OF r w1])
qed

lemma fault_respects: "env_keeps env R \<Longrightarrow> R w (step_world (fault_tick env spec started fault st w))"
  unfolding fault_tick_def using command_fault_respects [of env R] ssh_fault_respects [of env R] by (cases fault) auto

lemma finish_respects: "env_keeps env R \<Longrightarrow> R w (step_world (finish env spec v el notes row st w))"
proof (cases "mark_run (ms_run spec) v None (rw_runs w)")
  case (Inl e)
  assume "env_keeps env R"
  then show ?thesis by (simp add: finish_def Inl respects_refl)
next
  case (Inr x)
  obtain r runs where x: "x = (r, runs)" by (cases x)
  assume e: "env_keeps env R"
  obtain b w1 where i: "ingest_runtime env (wa_record st) (w\<lparr>rw_runs := runs\<rparr>) = (b, w1)" by fastforce
  have "step_world (finish env spec v el notes row st w) = w1"
    using i by (cases b) (simp_all add: finish_def Inr x Let_def log_tick_def)
  then show ?thesis using respects_trans [OF e respects_runs [OF e] ingest_respects [OF e i]] by simp
qed

lemma keep_respects: "env_keeps env R \<Longrightarrow> R w (step_world (keep_watching env spec row acts st w))"
  unfolding keep_watching_def Let_def by (simp, rule respects_trans [OF _ stamp_respects respects_sleep(1)])

lemma recover_tick_respects: "env_keeps env R \<Longrightarrow> R w (step_world (recover_tick env spec el notes row st w))"
proof -
  assume r: "env_keeps env R"
  obtain a w1 where m: "maybe_resolve_and_recover (we_rescue env) (ms_run spec) (wa_record st) (we_max_code env) w = (a, w1)" by fastforce
  have "R w1 (step_world (recover_tick env spec el notes row st w))"
    unfolding recover_tick_def m using finish_respects [OF r] keep_respects [OF r] by (auto simp: Let_def split: option.splits prod.splits)
  then show ?thesis by (rule respects_trans [OF r recover_respects [OF r m]])
qed

lemma failed_respects: "env_keeps env R \<Longrightarrow> R w (step_world (failed_tick env spec el notes row st w))"
proof -
  assume r: "env_keeps env R"
  have resumed: "R w (step_world (case maybe_auto_resume (we_rescue env) (ms_run spec) (wa_record st) ids w of
      (None, w) \<Rightarrow> recover_tick env spec el [ResumeNote ResumeRaised] row st w
    | (Some out, w) \<Rightarrow>
        (if ao_resume out
         then keep_watching env spec row (tk_actions row @ [AutoResume (ao_tasks out) (ao_resubmitted out) (ao_count out)]) st w
         else recover_tick env spec el [ResumeNote (ao_reason out)] row st w)))" for ids
  proof -
    obtain a w1 where m: "maybe_auto_resume (we_rescue env) (ms_run spec) (wa_record st) ids w = (a, w1)" by fastforce
    show ?thesis unfolding m
      by (rule respects_trans [OF r resume_respects [OF r m]])
        (use recover_tick_respects [OF r] keep_respects [OF r] in \<open>auto split: option.splits\<close>)
  qed
  show ?thesis unfolding failed_tick_def Let_def
    using resumed recover_tick_respects [OF r] respects_refl [OF r] by (auto split: option.splits list.splits)
qed

lemma in_flight_respects: "env_keeps env R \<Longrightarrow> R w (step_world (in_flight_tick env spec facts now ann row st w))"
proof -
  assume r: "env_keeps env R"
  show ?thesis
  proof (cases "now - wf_started facts \<ge> ms_budget spec")
    case True
    then show ?thesis using ingest_respects [OF r] by (fastforce simp: in_flight_tick_def Let_def log_tick_def split: prod.splits bool.splits)
  next
    case False
    then show ?thesis using respects_trans [OF r stamp_respects [OF r] respects_sleep(1) [OF r]]
        respects_trans [OF r stamp_respects [OF r] respects_sleep(2) [OF r]]
      by (auto simp: in_flight_tick_def Let_def split: prod.splits)
  qed
qed

lemma settle_respects: "env_keeps env R \<Longrightarrow> R w (step_world (settle_tick env spec facts now ann stale row st w))"
  using in_flight_respects finish_respects failed_respects respects_refl
  by (fastforce simp: settle_tick_def split: prod.splits option.splits)

lemma status_tick_cases:
  assumes "status_tick env spec facts now ann summary stale st w = out"
  obtains (unread) "out = Crash st w"
    | (combine_raised) st1 w1 where "combine_phase env spec (wf_map facts) summary (st\<lparr>wa_summary := summary\<rparr>) w = (None, st1, w1)" "out = Crash st1 w1"
    | (settled) acts newly st1 w1 sact stream w2 nc nf where
        "combine_phase env spec (wf_map facts) summary (st\<lparr>wa_summary := summary\<rparr>) w = (Some (acts, newly), st1, w1)"
        "stream_finished_results (we_stream env) (ms_run spec) (wa_record st1) now summary (wa_stream st1) w1 = (sact, stream, w2)"
        "out = settle_tick env spec facts now ann stale
                 \<lparr>tk_summary = summary, tk_newly_complete = nc, tk_newly_failed = nf, tk_newly_combined = newly,
                  tk_actions = acts @ (case sact of None \<Rightarrow> [] | Some a \<Rightarrow> [StreamAction a]), tk_state = ''in_flight'', tk_next = None\<rparr>
                 (st1\<lparr>wa_stream := stream\<rparr>) w2"
proof -
  obtain a st1 w1 where c: "combine_phase env spec (wf_map facts) summary (st\<lparr>wa_summary := summary\<rparr>) w = (a, st1, w1)"
    by (metis prod_cases3)
  show ?thesis
  proof (cases "\<exists>nc nf. count_diff st summary ''complete'' = Some nc \<and> count_diff st summary ''failed'' = Some nf")
    case False
    then show ?thesis using assms unread by (auto simp: status_tick_def split: option.splits)
  next
    case True
    then obtain nc nf where d: "count_diff st summary ''complete'' = Some nc" "count_diff st summary ''failed'' = Some nf" by blast
    show ?thesis
    proof (cases a)
      case None
      then show ?thesis using assms c d combine_raised [of st1 w1] by (simp add: status_tick_def)
    next
      case (Some x)
      obtain acts newly where x: "x = (acts, newly)" by (cases x)
      obtain sact stream w2 where s: "stream_finished_results (we_stream env) (ms_run spec) (wa_record st1) now summary (wa_stream st1) w1 = (sact, stream, w2)"
        by (metis prod_cases3)
      show ?thesis
        using settled [of acts newly st1 w1 sact stream w2 nc nf] assms c d s Some x by (simp add: status_tick_def)
    qed
  qed
qed

lemma status_respects: "env_keeps env R \<Longrightarrow> R w (step_world (status_tick env spec facts now ann summary stale st w))"
proof -
  assume r: "env_keeps env R"
  note t = respects_trans [OF r]
  define out where "out = status_tick env spec facts now ann summary stale st w"
  have e: "status_tick env spec facts now ann summary stale st w = out" by (simp add: out_def)
  from e have "R w (step_world out)"
  proof (cases rule: status_tick_cases)
    case unread
    show ?thesis unfolding unread by (simp add: respects_refl [OF r])
  next
    case (combine_raised st1 w1)
    show ?thesis unfolding combine_raised(2) using combine_phase_respects [OF r combine_raised(1)] by simp
  next
    case (settled acts newly st1 w1 sact stream w2 nc nf)
    show ?thesis unfolding settled(3)
      by (rule t [OF combine_phase_respects [OF r settled(1)] t [OF stream_respects [OF r settled(2)] settle_respects [OF r]]])
  qed
  then show ?thesis by (simp add: out_def)
qed

lemma tick_respects: "env_keeps env R \<Longrightarrow> R w (step_world (watch_tick env spec facts st w))"
proof -
  assume r: "env_keeps env R"
  obtain a st1 w1 where o: "observe env spec (wf_map facts) (we_now env w) (st\<lparr>wa_ticks := wa_ticks st + 1\<rparr>) w = (a, st1, w1)"
    by (metis prod_cases3)
  have "R w1 (step_world (watch_tick env spec facts st w))"
    unfolding watch_tick_def Let_def o prod.case
    using status_respects [OF r] fault_respects [OF r] respects_refl [OF r] by (cases a) auto
  then show ?thesis by (rule respects_trans [OF r observe_respects [OF r o]])
qed

end
