(* ===== verification/MonitorBounds.thy ===== *)
theory MonitorBounds
  imports MonitorLaws
begin

text \<open>
  The bounds of a watch: the intervals between its ticks, the end near its budget, and the tries of a wave.
\<close>

section \<open>The state between the steps\<close>

text \<open>The log, the interval and the books of the waves, which reading the run leaves alone.\<close>

definition books :: "watch_state \<Rightarrow> tick_row list \<times> rat \<times> (int \<Rightarrow> int) \<times> int list \<times> int list" where
  "books st = (wa_log st, wa_interval st, wa_attempts st, wa_combined st, wa_failed st)"

lemma walk_books: "walk_tick env rid now st w = (a, st', w') \<Longrightarrow> books st' = books st"
  by (auto simp: walk_tick_def Let_def books_def split: prod.splits sum.splits if_splits)

lemma pull_books: "pull_tick env rid now st w = (a, st', w') \<Longrightarrow> books st' = books st"
  using walk_books by (fastforce simp: pull_tick_def Let_def books_def split: prod.splits if_splits)

lemma census_books: "census_check env s st w = (a, st', w') \<Longrightarrow> books st' = books st"
  by (auto simp: census_check_def Let_def books_def split: prod.splits if_splits)

lemma observe_books:
  assumes "observe env spec wmap now st w = (a, st', w')"
  shows "books st' = books st"
  using assms
proof (cases rule: observe_cases)
  case (raised w1)
  then show ?thesis by simp
next
  case (pulled w1)
  then show ?thesis using pull_books by blast
next
  case (census rec w1 s stale w2 s')
  then show ?thesis using census_books [OF census(2)] by (simp add: books_def)
qed

lemma note_wave_pace:
  "note_wave n combined wv (st, acts, newly) = (st', acts', newly') \<Longrightarrow> wa_log st' = wa_log st \<and> wa_interval st' = wa_interval st"
  by (auto simp: note_wave_def Let_def split: if_splits)

lemma note_waves_pace:
  "fold (note_wave n combined) ws (st, acts, newly) = (st', acts', newly') \<Longrightarrow> wa_log st' = wa_log st \<and> wa_interval st' = wa_interval st"
proof (induction ws arbitrary: st acts newly)
  case Nil
  then show ?case by simp
next
  case (Cons wv ws)
  obtain st1 acts1 newly1 where s: "note_wave n combined wv (st, acts, newly) = (st1, acts1, newly1)" by (metis prod_cases3)
  show ?case using Cons.IH [of st1 acts1 newly1] Cons.prems note_wave_pace [OF s] by (simp add: s)
qed

lemma combine_cases:
  assumes "combine_phase env spec wmap s st w = (a, st', w')"
    "choose_waves (newly_complete_waves s (Some wmap) (set (wa_combined st))) (wa_attempts st) = (batch, forces, attempts)"
  obtains (idle) "a = Some ([], [])" "st' = st \<or> st' = st\<lparr>wa_attempts := attempts\<rparr> \<and> batch = []"
    | (raised) "a = None" "st' = st\<lparr>wa_attempts := attempts\<rparr>"
    | (missing) "a = Some ([CombinerAbsent batch], [])"
        "st' = st\<lparr>wa_attempts := give_up batch attempts, wa_missing := Some (we_remediation env)\<rparr>"
    | (combined) results acts newly more where
        "fold (note_wave (ms_retries spec) results) batch (st\<lparr>wa_attempts := attempts\<rparr>, [], []) = (st', acts, newly)"
        "a = Some (acts @ more, newly)" "more = [] \<or> more = [PrefetchPartials newly]"
proof (cases "\<not> ms_combine spec \<or> wmap = []")
  case True
  then show ?thesis using assms(1) idle by (auto simp: combine_phase_def)
next
  case False
  obtain x w1 where c: "combine_waves (we_combiner env) (ms_run spec) batch forces w = (x, w1)" by fastforce
  show ?thesis
  proof (cases "batch = []")
    case True
    then show ?thesis using False assms idle by (auto simp: combine_phase_def Let_def)
  next
    case b: False
    show ?thesis
    proof (cases x)
      case (Inl e)
      then show ?thesis using False b assms c raised missing by (cases e) (auto simp: combine_phase_def Let_def)
    next
      case (Inr results)
      obtain st2 acts newly where f: "fold (note_wave (ms_retries spec) results) batch (st\<lparr>wa_attempts := attempts\<rparr>, [], []) = (st2, acts, newly)"
        by (metis prod_cases3)
      have "\<exists>more. st' = st2 \<and> a = Some (acts @ more, newly) \<and> (more = [] \<or> more = [PrefetchPartials newly])"
        using False b assms c f Inr by (auto simp: combine_phase_def Let_def split: if_splits prod.splits)
      then show ?thesis using combined f by blast
    qed
  qed
qed

lemma combine_pace:
  assumes "combine_phase env spec wmap s st w = (a, st', w')"
  shows "wa_log st' = wa_log st \<and> wa_interval st' = wa_interval st"
proof -
  obtain batch forces attempts where ch: "choose_waves (newly_complete_waves s (Some wmap) (set (wa_combined st))) (wa_attempts st) = (batch, forces, attempts)"
    by (metis prod_cases3)
  from assms ch show ?thesis
  proof (cases rule: combine_cases)
    case (combined results acts newly more)
    then show ?thesis using note_waves_pace [OF combined(1)] by simp
  qed auto
qed

lemma verdict_pace:
  "tick_verdict env rid s stale st w = (a, st') \<Longrightarrow> books st' = books st"
  by (auto simp: tick_verdict_def Let_def books_def split: option.splits)

section \<open>The pace\<close>

definition poll_of :: "'c watch_env \<Rightarrow> monitor_spec \<Rightarrow> rat" where
  "poll_of env spec = floor_poll_interval env (ms_poll spec)"

definition in_pace :: "'c watch_env \<Rightarrow> monitor_spec \<Rightarrow> rat \<Rightarrow> bool" where
  "in_pace env spec d \<longleftrightarrow> min (poll_of env spec) (we_max_poll env) \<le> d \<and> d \<le> max (poll_of env spec) (we_max_poll env)"

definition sane :: "'c watch_env \<Rightarrow> monitor_spec \<Rightarrow> bool" where
  "sane env spec \<longleftrightarrow> 0 < ms_poll spec \<and> 0 < we_max_poll env"

lemma poll_in_pace: "in_pace env spec (poll_of env spec)"
  by (simp add: in_pace_def)

lemma sane_positive: "sane env spec \<Longrightarrow> 0 < min (poll_of env spec) (we_max_poll env)"
  by (auto simp: sane_def poll_of_def floor_poll_interval_def)

lemma cap_bounds:
  "completion_aware_cap m now running walltime bound p = (cap, remaining) \<Longrightarrow> min p m \<le> cap \<and> cap \<le> m"
  by (auto simp: completion_aware_cap_def Let_def split: option.splits)

lemma pace_keeps:
  assumes "pace env spec walltime bound s now st = (st', acts)" "in_pace env spec (wa_interval st)" "sane env spec"
  shows "in_pace env spec (wa_interval st') \<and> wa_log st' = wa_log st"
proof -
  define st0 where "st0 = (if wa_running st = None \<and> shows_execution s then st\<lparr>wa_running := Some now\<rparr> else st)"
  have st0: "wa_interval st0 = wa_interval st" "wa_log st0 = wa_log st" "wa_running (st0\<lparr>wa_unchanged := n\<rparr>) = wa_running st0" for n
    by (simp_all add: st0_def)
  obtain cap remaining where c: "completion_aware_cap (we_max_poll env) now (wa_running st0) walltime bound (poll_of env spec) = (cap, remaining)"
    by fastforce
  have cap: "min (poll_of env spec) (we_max_poll env) \<le> cap" "cap \<le> we_max_poll env" using cap_bounds [OF c] by auto
  have d: "in_pace env spec (min (wa_interval st * 2) cap)"
  proof -
    have "min (poll_of env spec) (we_max_poll env) \<le> wa_interval st" "0 < min (poll_of env spec) (we_max_poll env)"
      using assms(2) sane_positive [OF assms(3)] by (simp_all add: in_pace_def)
    then have "min (poll_of env spec) (we_max_poll env) \<le> wa_interval st * 2" by linarith
    then show ?thesis using cap by (auto simp: in_pace_def)
  qed
  have "(wa_interval st' = wa_interval st \<or> wa_interval st' = poll_of env spec \<or> wa_interval st' = min (wa_interval st * 2) cap) \<and> wa_log st' = wa_log st"
    using assms(1) unfolding pace_def Let_def st0_def [symmetric] poll_of_def [symmetric] st0 c
    by (auto simp: st0 c split: if_splits option.splits)
  then show ?thesis using assms(2) d poll_in_pace by auto
qed

section \<open>What a tick that goes on did\<close>

text \<open>A tick that reports a resubmission, be it a replay.\<close>

definition resubmits :: "tick_row \<Rightarrow> bool" where
  "resubmits row \<longleftrightarrow>
     list_ex (\<lambda>a. case a of AutoResume ids fresh n \<Rightarrow> True | ResolveAndRecover outs n \<Rightarrow> is_resubmitted outs | _ \<Rightarrow> False) (tk_actions row)"

definition steady :: "'c watch_env \<Rightarrow> bool" where
  "steady env \<longleftrightarrow> env_keeps env (\<lambda>a b. we_now env a \<le> we_now env b) \<and> (\<forall>d w. we_now env w + d \<le> we_now env (we_sleep env d w))
     \<and> \<not> we_wait_enabled env"

lemma steady_keeps: "steady env \<Longrightarrow> env_keeps env (\<lambda>a b. we_now env a \<le> we_now env b)"
  by (simp add: steady_def)

lemma steady_sleep: "steady env \<Longrightarrow> we_now env w + d \<le> we_now env (we_sleep env d w)"
  by (simp add: steady_def)

lemma steady_stamp_sleep: "steady env \<Longrightarrow> we_now env w + d \<le> we_now env (stamp_and_sleep env rid d w)"
proof -
  assume s: "steady env"
  have "we_now env w \<le> we_now env (stamp_watchdog env rid d w)" by (rule stamp_respects [OF steady_keeps [OF s]])
  then show ?thesis using steady_sleep [OF s, of "stamp_watchdog env rid d w" d] by (simp add: stamp_and_sleep_def)
qed

text \<open>
  \<open>over\<close> says that the budget was spent when the tick began: the row that is logged, the pause and the clock after it.
\<close>

definition goes_on :: "'c watch_env \<Rightarrow> monitor_spec \<Rightarrow> bool \<Rightarrow> watch_state \<Rightarrow> 'c recon_world \<Rightarrow> 'c step \<Rightarrow> bool" where
  "goes_on env spec over st w step \<longleftrightarrow>
     (\<forall>st' w'. step = Go st' w' \<longrightarrow>
        (\<exists>row d. wa_log st' = wa_log st @ [row] \<and> tk_next row = Some d \<and> in_pace env spec d \<and> in_pace env spec (wa_interval st')
           \<and> we_now env w + min (poll_of env spec) (we_max_poll env) \<le> we_now env w' \<and> (over \<longrightarrow> resubmits row)))"

lemma goes_on_later: "goes_on env spec over st w1 step \<Longrightarrow> we_now env w \<le> we_now env w1 \<Longrightarrow> goes_on env spec over st w step"
  by (fastforce simp: goes_on_def)

lemma goes_on_log: "goes_on env spec over st1 w step \<Longrightarrow> wa_log st1 = wa_log st \<Longrightarrow> goes_on env spec over st w step"
  by (simp add: goes_on_def)

lemma goes_on_end [simp]: "goes_on env spec over st w (Stop cause out st' w')" "goes_on env spec over st w (Crash st' w')"
  by (simp_all add: goes_on_def)

lemma goes_on_Go:
  "wa_log st' = wa_log st @ [row] \<Longrightarrow> tk_next row = Some d \<Longrightarrow> in_pace env spec d \<Longrightarrow> in_pace env spec (wa_interval st')
   \<Longrightarrow> we_now env w + min (poll_of env spec) (we_max_poll env) \<le> we_now env w' \<Longrightarrow> (over \<Longrightarrow> resubmits row)
   \<Longrightarrow> goes_on env spec over st w (Go st' w')"
  by (auto simp: goes_on_def)

lemma time_out_ends [simp]: "goes_on env spec over st w (time_out env started cause notes st' w')"
  by (auto simp: time_out_def split: prod.splits bool.splits)

lemma finish_ends [simp]: "goes_on env spec over st w (finish env spec' v el notes row st' w')"
  by (auto simp: finish_def Let_def split: sum.splits prod.splits bool.splits)

lemma min_slept: "in_pace env spec d \<Longrightarrow> t + d \<le> u \<Longrightarrow> t + min (poll_of env spec) (we_max_poll env) \<le> u"
  by (simp add: in_pace_def)

lemma poll_pace: "in_pace env spec (floor_poll_interval env (ms_poll spec))"
  using poll_in_pace by (simp add: poll_of_def)

text \<open>A state that logs a row and sleeps.\<close>

lemma goes_on_sleep:
  assumes "steady env" "in_pace env spec d" "wa_log st' = wa_log st @ [row]" "tk_next row = Some d'" "in_pace env spec d'"
    "in_pace env spec (wa_interval st')" "over \<Longrightarrow> resubmits row"
  shows "goes_on env spec over st w (Go st' (stamp_and_sleep env rid d w))"
  by (rule goes_on_Go [OF assms(3,4,5,6) min_slept [OF assms(2) steady_stamp_sleep [OF assms(1)]] assms(7)])

lemma command_fault_goes_on:
  assumes "steady env" "in_pace env spec (wa_interval st)" "over \<Longrightarrow> ms_budget spec \<le> we_now env w - started"
  shows "goes_on env spec over st w (command_fault env spec started det st w)"
proof (cases "ms_budget spec \<le> we_now env w - started")
  case True
  then show ?thesis by (simp add: command_fault_def Let_def)
next
  case False
  have "\<not> over" using False assms(3) by blast
  then show ?thesis using False assms(2)
    by (auto simp: command_fault_def Let_def reset_pace_def log_tick_def error_row_def poll_pace intro!: goes_on_sleep [OF assms(1) poll_pace])
qed

lemma goes_on_longer:
  "in_pace env spec d \<Longrightarrow> d \<le> d' \<Longrightarrow> steady env \<Longrightarrow>
     we_now env w + min (poll_of env spec) (we_max_poll env) \<le> we_now env (stamp_and_sleep env rid d' w)"
  using min_slept [of env spec d "we_now env w"] steady_stamp_sleep [of env w d' rid] by (simp add: in_pace_def)

lemma ssh_fault_goes_on:
  assumes "steady env" "over \<Longrightarrow> ms_budget spec \<le> we_now env w - started"
  shows "goes_on env spec over st w (ssh_fault env spec started fault st w)"
proof -
  define co where "co = (case fault of WalkCircuitOpen d \<Rightarrow> True | _ \<Rightarrow> False)"
  obtain t w1 where f: "failed_over env (ms_run spec) co w = (t, w1)" by fastforce
  note e = steady_keeps [OF assms(1)]
  have w1: "we_now env w \<le> we_now env w1" using f respects_call(5) [OF e] by (auto simp: failed_over_def split: if_splits prod.splits option.splits)
  show ?thesis
  proof (cases "ms_budget spec \<le> we_now env w - started")
    case True
    then show ?thesis unfolding ssh_fault_def Let_def co_def [symmetric] f prod.case by simp
  next
    case False
    then have "\<not> over" using assms(2) by blast
    moreover have r: "wa_log (refreshed rid s w) = wa_log s" "wa_interval (refreshed rid s w) = wa_interval s" for rid s and w :: "'a recon_world"
      by (simp_all add: refreshed_def split: option.split)
    moreover define wait where
      "wait = (case fault of WalkCircuitOpen d \<Rightarrow> if t \<noteq> [] then None else circuit_wait_sec d (we_wall env w1) | _ \<Rightarrow> None)"
    ultimately have "goes_on env spec over st w1 (ssh_fault env spec started fault st w)"
      using False unfolding ssh_fault_def Let_def co_def [symmetric] f prod.case wait_def [symmetric]
      by (auto simp: reset_pace_def log_tick_def error_row_def poll_pace
          intro!: goes_on_Go [where d = "floor_poll_interval env (ms_poll spec)"] goes_on_longer [OF poll_pace _ assms(1)]
          split: option.split)
    then show ?thesis using goes_on_later w1 by blast
  qed
qed

lemma fault_goes_on:
  assumes "steady env" "in_pace env spec (wa_interval st)" "over \<Longrightarrow> ms_budget spec \<le> we_now env w - started"
  shows "goes_on env spec over st w (fault_tick env spec started fault st w)"
  unfolding fault_tick_def using command_fault_goes_on [OF assms] ssh_fault_goes_on [OF assms(1,3)] by (cases fault) auto

lemma keep_goes_on:
  assumes "steady env" "resubmits (row\<lparr>tk_actions := acts\<rparr>)"
  shows "goes_on env spec over st w (keep_watching env spec row acts st w)"
proof -
  let ?p = "floor_poll_interval env (ms_poll spec)"
  define v where "v = we_sleep env ?p (stamp_watchdog env (ms_run spec) ?p w)"
  have c: "we_now env w + min (poll_of env spec) (we_max_poll env) \<le> we_now env v"
    using goes_on_longer [OF poll_pace order_refl assms(1), where w = w and rid = "ms_run spec" and spec = spec] by (simp add: stamp_and_sleep_def v_def)
  have r: "wa_log (refreshed rid s w) = wa_log s" "wa_interval (refreshed rid s w) = wa_interval s" for rid s and w :: "'a recon_world"
    by (simp_all add: refreshed_def split: option.split)
  have "resubmits (row\<lparr>tk_actions := acts, tk_state := ''in_flight'', tk_next := Some ?p\<rparr>)" using assms(2) by (simp add: resubmits_def)
  then show ?thesis unfolding keep_watching_def Let_def v_def [symmetric]
    by (intro goes_on_Go [OF _ _ poll_pace _ c]) (auto simp: r reset_pace_def log_tick_def poll_pace)
qed

lemma recover_tick_goes_on:
  assumes "steady env"
  shows "goes_on env spec over st w (recover_tick env spec el notes row st w)"
proof -
  obtain a w1 where m: "maybe_resolve_and_recover (we_rescue env) (ms_run spec) (wa_record st) (we_max_code env) w = (a, w1)" by fastforce
  have w1: "we_now env w \<le> we_now env w1" by (rule recover_respects [OF steady_keeps [OF assms] m])
  have "goes_on env spec over st w1 (recover_tick env spec el notes row st w)"
  proof (cases a)
    case None
    then show ?thesis by (simp add: recover_tick_def m)
  next
    case (Some x)
    obtain outs n where x: "x = (outs, n)" by (cases x)
    have "is_resubmitted outs \<Longrightarrow> resubmits (row\<lparr>tk_actions := tk_actions row @ (if outs = [] then [] else [ResolveAndRecover outs n])\<rparr>)"
      by (auto simp: resubmits_def is_resubmitted_def)
    then show ?thesis using keep_goes_on [OF assms] by (auto simp: recover_tick_def m Some x Let_def)
  qed
  then show ?thesis using goes_on_later w1 by blast
qed

lemma failed_goes_on:
  assumes "steady env"
  shows "goes_on env spec over st w (failed_tick env spec el notes row st w)"
proof -
  have resumed: "goes_on env spec over st w (case maybe_auto_resume (we_rescue env) (ms_run spec) (wa_record st) ids w of
      (None, w) \<Rightarrow> recover_tick env spec el [ResumeNote ResumeRaised] row st w
    | (Some out, w) \<Rightarrow>
        (if ao_resume out
         then keep_watching env spec row (tk_actions row @ [AutoResume (ao_tasks out) (ao_resubmitted out) (ao_count out)]) st w
         else recover_tick env spec el [ResumeNote (ao_reason out)] row st w))" for ids
  proof -
    obtain a w1 where m: "maybe_auto_resume (we_rescue env) (ms_run spec) (wa_record st) ids w = (a, w1)" by fastforce
    have w1: "we_now env w \<le> we_now env w1" by (rule resume_respects [OF steady_keeps [OF assms] m])
    have k: "goes_on env spec over st w1 (keep_watching env spec row (tk_actions row @ [AutoResume i f n]) st w1)" for i f n
      by (rule keep_goes_on [OF assms]) (simp add: resubmits_def)
    show ?thesis unfolding m
      by (rule goes_on_later [OF _ w1]) (use recover_tick_goes_on [OF assms] k in \<open>auto split: option.splits\<close>)
  qed
  show ?thesis unfolding failed_tick_def Let_def
    using resumed recover_tick_goes_on [OF assms] by (auto split: option.splits list.splits)
qed

lemma in_flight_goes_on:
  assumes "steady env" "sane env spec" "in_pace env spec (wa_interval st)" "over \<Longrightarrow> ms_budget spec \<le> now - wf_started facts"
  shows "goes_on env spec over st w (in_flight_tick env spec facts now ann row st w)"
proof (cases "ms_budget spec \<le> now - wf_started facts")
  case True
  then show ?thesis by (auto simp: in_flight_tick_def Let_def split: prod.splits bool.splits)
next
  case False
  have over: "\<not> over" using False assms(4) by blast
  obtain st1 acts where p: "pace env spec (wf_walltime facts) (wf_bound facts) (tk_summary row) now st = (st1, acts)" by fastforce
  note k = pace_keeps [OF p assms(3,2)]
  have "in_flight_tick env spec facts now ann row st w
      = Go (log_tick (row\<lparr>tk_actions := tk_actions row @ acts, tk_state := ''in_flight'', tk_next := Some (wa_interval st1)\<rparr>) st1)
          (stamp_and_sleep env (ms_run spec) (wa_interval st1) w)"
    using False assms(1) by (simp add: in_flight_tick_def Let_def p steady_def stamp_and_sleep_def log_tick_def)
  also have "goes_on env spec over st w \<dots>"
    using k over by (intro goes_on_sleep [OF assms(1)]) (auto simp: log_tick_def)
  finally show ?thesis .
qed

lemma settle_goes_on:
  assumes "steady env" "sane env spec" "in_pace env spec (wa_interval st)" "over \<Longrightarrow> ms_budget spec \<le> now - wf_started facts"
  shows "goes_on env spec over st w (settle_tick env spec facts now ann stale row st w)"
proof -
  obtain a st1 where v: "tick_verdict env (ms_run spec) (tk_summary row) stale st w = (a, st1)" by fastforce
  have b: "wa_log st1 = wa_log st" "wa_interval st1 = wa_interval st" using verdict_pace [OF v] by (simp_all add: books_def)
  have p: "in_pace env spec (wa_interval st1)" using assms(3) b by simp
  have "goes_on env spec over st1 w (settle_tick env spec facts now ann stale row st w)"
    using in_flight_goes_on [OF assms(1,2) p assms(4)] failed_goes_on [OF assms(1)]
    by (auto simp: settle_tick_def v split: option.splits)
  then show ?thesis by (rule goes_on_log [OF _ b(1)])
qed

lemma status_goes_on:
  assumes "steady env" "sane env spec" "in_pace env spec (wa_interval st)" "over \<Longrightarrow> ms_budget spec \<le> now - wf_started facts"
  shows "goes_on env spec over st w (status_tick env spec facts now ann summary stale st w)"
proof -
  define out where "out = status_tick env spec facts now ann summary stale st w"
  have e: "status_tick env spec facts now ann summary stale st w = out" by (simp add: out_def)
  note k = steady_keeps [OF assms(1)]
  from e have "goes_on env spec over st w out"
  proof (cases rule: status_tick_cases)
    case unread
    then show ?thesis by simp
  next
    case (combine_raised st1 w1)
    then show ?thesis by simp
  next
    case (settled acts newly st1 w1 sact stream w2 nc nf)
    have b: "wa_log st1 = wa_log st" "wa_interval st1 = wa_interval st" using combine_pace [OF settled(1)] by simp_all
    have w: "we_now env w \<le> we_now env w2"
      using combine_phase_respects [OF k settled(1)] stream_respects [OF k settled(2)] by simp
    show ?thesis unfolding settled(3)
      by (rule goes_on_later [OF goes_on_log [OF settle_goes_on [OF assms(1,2) _ assms(4)]] w]) (use assms(3) b in simp_all)
  qed
  then show ?thesis by (simp add: out_def)
qed

lemma tick_goes_on:
  assumes "steady env" "sane env spec" "in_pace env spec (wa_interval st)"
  shows "goes_on env spec (ms_budget spec \<le> we_now env w - wf_started facts) st w (watch_tick env spec facts st w)"
proof -
  obtain a st1 w1 where o: "observe env spec (wf_map facts) (we_now env w) (st\<lparr>wa_ticks := wa_ticks st + 1\<rparr>) w = (a, st1, w1)"
    by (metis prod_cases3)
  have b: "wa_log st1 = wa_log st" "wa_interval st1 = wa_interval st" using observe_books [OF o] by (simp_all add: books_def)
  have w1: "we_now env w \<le> we_now env w1" by (rule observe_respects [OF steady_keeps [OF assms(1)] o])
  let ?over = "ms_budget spec \<le> we_now env w - wf_started facts"
  have p: "in_pace env spec (wa_interval st1)" using assms(3) b by simp
  have f: "goes_on env spec ?over st1 w1 (fault_tick env spec (wf_started facts) fault st1 w1)" for fault
    by (rule fault_goes_on [OF assms(1) p]) (use w1 in linarith)
  have s: "goes_on env spec ?over st1 w1 (status_tick env spec facts (we_now env w) ann summary stale st1 w1)" for ann summary stale
    by (rule status_goes_on [OF assms(1,2) p])
  have "goes_on env spec ?over st1 w1 (watch_tick env spec facts st w)"
    unfolding watch_tick_def Let_def o prod.case using f s by (cases a) auto
  then have "goes_on env spec ?over st w1 (watch_tick env spec facts st w)" by (rule goes_on_log [OF _ b(1)])
  then show ?thesis by (rule goes_on_later [OF _ w1])
qed

end
