(* ===== verification/MonitorLimits.thy ===== *)
theory MonitorLimits
  imports MonitorBounds
begin

text \<open>
  The end of a watch: within its budget unless resubmissions are reported, the harvest it owes, and the cases in which
  the code does not keep what its comments promise.
\<close>

section \<open>The end near the budget\<close>

lemma watch_paced:
  assumes "steady env" "sane env spec"
  shows "in_pace env spec (wa_interval st) \<Longrightarrow> watch env spec facts n st w = Watching st' w' \<Longrightarrow>
     in_pace env spec (wa_interval st') \<and> we_now env w + of_nat n * min (poll_of env spec) (we_max_poll env) \<le> we_now env w'
     \<and> (\<exists>rows. wa_log st' = wa_log st @ rows \<and> length rows = n \<and> (\<forall>row\<in>set rows. \<exists>d. tk_next row = Some d \<and> in_pace env spec d)
          \<and> (ms_budget spec \<le> we_now env w - wf_started facts \<longrightarrow> list_all resubmits rows))"
proof (induction n arbitrary: st w)
  case 0
  then show ?case by simp
next
  case (Suc n)
  let ?lo = "min (poll_of env spec) (we_max_poll env)"
  obtain st1 w1 where t: "watch_tick env spec facts st w = Go st1 w1" "watch env spec facts n st1 w1 = Watching st' w'"
    using Suc.prems(2) by (auto split: step.splits)
  obtain row d where r: "wa_log st1 = wa_log st @ [row]" "tk_next row = Some d" "in_pace env spec d" "in_pace env spec (wa_interval st1)"
    "we_now env w + ?lo \<le> we_now env w1" "ms_budget spec \<le> we_now env w - wf_started facts \<Longrightarrow> resubmits row"
    using tick_goes_on [OF assms Suc.prems(1), of w facts] t(1) unfolding goes_on_def by blast
  obtain rows where IH: "in_pace env spec (wa_interval st')" "we_now env w1 + of_nat n * ?lo \<le> we_now env w'"
    "wa_log st' = wa_log st1 @ rows" "length rows = n" "\<forall>row\<in>set rows. \<exists>d. tk_next row = Some d \<and> in_pace env spec d"
    "ms_budget spec \<le> we_now env w1 - wf_started facts \<Longrightarrow> list_all resubmits rows"
    using Suc.IH [OF r(4) t(2)] by blast
  have "0 < ?lo" by (rule sane_positive [OF assms(2)])
  then have over: "ms_budget spec \<le> we_now env w - wf_started facts \<Longrightarrow> ms_budget spec \<le> we_now env w1 - wf_started facts"
    using r(5) by linarith
  have "wa_log st' = wa_log st @ row # rows" using IH(3) r(1) by simp
  moreover have "we_now env w + of_nat (Suc n) * ?lo \<le> we_now env w'" using IH(2) r(5) by (simp add: algebra_simps)
  moreover have "\<forall>row'\<in>set (row # rows). \<exists>d. tk_next row' = Some d \<and> in_pace env spec d" using r(2,3) IH(5) by auto
  moreover have "ms_budget spec \<le> we_now env w - wf_started facts \<longrightarrow> list_all resubmits (row # rows)" using r(6) IH(6) over by auto
  ultimately show ?case using IH(1,4) by (intro conjI exI [of _ "row # rows"]) simp_all
qed

lemma watch_split:
  "watch env spec facts (m + k) st w = Watching st' w' \<Longrightarrow>
     \<exists>st1 w1. watch env spec facts m st w = Watching st1 w1 \<and> watch env spec facts k st1 w1 = Watching st' w'"
  by (induction m arbitrary: st w) (auto split: step.splits)

lemma watch_more:
  "watch env spec facts n s v = Watching st w \<Longrightarrow> watch env spec facts (n + k) s v = watch env spec facts k st w"
proof (induction n arbitrary: s v)
  case (Suc n)
  then obtain s1 v1 where "watch_tick env spec facts s v = Go s1 v1" "watch env spec facts n s1 v1 = Watching st w"
    by (auto split: step.splits)
  with Suc.IH show ?case by simp
qed simp

lemma still_watching:
  assumes "monitor_flow env spec n w = (StillWatching, logged, w')"
  obtains rec st' where "rw_runs w (ms_run spec) = Some rec" "lr_job_ids rec \<noteq> []" "wa_log st' = logged"
    "watch env spec (facts_of env spec w) n (first_state env spec rec w) w = Watching st' w'"
  using assms by (auto simp: monitor_flow_def Let_def split: option.splits if_splits watched.splits)

lemma first_state_fields [simp]:
  "wa_log (first_state env spec rec w) = []" "wa_interval (first_state env spec rec w) = poll_of env spec"
  "wa_record (first_state env spec rec w) = rec" "wa_ticks (first_state env spec rec w) = 0"
  "wa_attempts (first_state env spec rec w) = (\<lambda>x. 0)" "wa_combined (first_state env spec rec w) = lr_combined rec"
  by (simp_all add: first_state_def poll_of_def Let_def)

lemma facts_started [simp]: "wf_started (facts_of env spec w) = we_now env w"
  by (simp add: facts_of_def Let_def)


section \<open>A counter that was not bumped\<close>

text \<open>
  The tasks of a run have announced that they failed, the scheduler holds nothing, and the request of the recorded
  counter has already been served: the bump after it was lost.
\<close>

definition spin_env :: "rat watch_env" where
  "spin_env =
     \<lparr>we_now = rw_cluster, we_wall = rw_cluster, we_text_now = (\<lambda>w. ''t''), we_due_text = (\<lambda>d w. ''t''),
      we_sleep = (\<lambda>d w. w\<lparr>rw_cluster := rw_cluster w + max d 0\<rparr>), we_wait_enabled = False, we_wait = (\<lambda>d w. w),
      we_needs_ssh = (\<lambda>r. True), we_family = (\<lambda>r. Slurm),
      we_remote = (\<lambda>call w. (case call of
          AnnounceRead rid \<Rightarrow> Answered 0 (printed [ANNOUNCE_ACK, ''complete=3'', ''failed=1''])
        | _ \<Rightarrow> Answered 0 (printed [SCHED_ACK_PREFIX @ ''0'']), w)),
      we_list_complete = (\<lambda>rid w. (Severed, w)), we_report = (\<lambda>r w. (WalkOsError, w)), we_api = (\<lambda>r w. (ApiFault WalkOsError, w)),
      we_failover = (\<lambda>rid w. (None, w)), we_pull_runtime = (\<lambda>r w. (PullDone, w)), we_prefetch = (\<lambda>rid r w. (False, w)),
      we_partial_ok = (\<lambda>rid w. False), we_sidecar = (\<lambda>rid. None), we_mirrored = (\<lambda>rid. 0), we_stream_flag = None, we_remediation = ''redeploy'',
      we_combiner = \<lparr>ce_single = (\<lambda>rid wv f c. (None, c)), ce_batch = (\<lambda>rid wfs c. (None, c))\<rparr>,
      we_stream = \<lparr>sv_target = (\<lambda>r. None), sv_breaker = (\<lambda>w t. ''closed''), sv_pull = (\<lambda>rid r w. (None, w)), sv_batch = 25, sv_interval = 300,
        sv_floor = 60\<rparr>,
      we_rescue = \<lparr>rv_failures = (\<lambda>rid w. Some (JDict [(''preempted_task_ids'', JList [JInt 1])])),
        rv_resubmit = (\<lambda>rid q w. (if rq_id q = ''auto_resume_r_0'' then (ResubmitDone True [], w) else (ResubmitDone False [''9''], w))),
        rv_write_fails = (\<lambda>w. False), rv_sidecar = (\<lambda>rid. None), rv_valid = (\<lambda>d. True), rv_dump = (\<lambda>e. [])\<rparr>,
      we_max_code = 1,
      we_harvest = \<lparr>hv_aggregate = (\<lambda>rid w. (AggregateLocked, w)), hv_sweep = (\<lambda>d rid w. Inr []), hv_clock = rw_cluster,
        hv_sleep = (\<lambda>s w. w), hv_append_fails = (\<lambda>w. False), hv_remove_watchdog = (\<lambda>c. c), hv_combiner_dir = (\<lambda>rid. []), hv_utcnow = (\<lambda>w. ''t'')\<rparr>,
      we_min_poll = 10, we_max_poll = 300, we_heartbeat = 600\<rparr>"

definition spin_spec :: monitor_spec where
  "spin_spec = \<lparr>ms_run = ''r'', ms_poll = 60, ms_budget = 3600, ms_combine = False, ms_retries = 1, ms_stream = Some False\<rparr>"

definition spin_world :: "rat recon_world" where
  "spin_world = \<lparr>rw_runs = [''r'' \<mapsto> rescue_record 0], rw_cluster = 0, rw_harvests = (\<lambda>x. [])\<rparr>"

definition spin_status :: dict where
  "spin_status = announced_status \<lparr>an_present = True, an_announced = 4, an_complete = 3, an_failed = 1, an_missing = 0\<rparr> ''t''"

definition spinning :: "live_run \<Rightarrow> bool" where
  "spinning r \<longleftrightarrow> total_tasks r = 4 \<and> kill_requested_at r = [] \<and> lr_auto_resume r \<and> lr_resume_count r = 0 \<and> lr_max_resumes r = 2
     \<and> lr_job_ids r = [''7''] \<and> lr_kill_confirmed_at r = []"

lemma spin_read: "read_announcements 4 (Answered 0 (printed [ANNOUNCE_ACK, ''complete=3'', ''failed=1'']))
    = Some \<lparr>an_present = True, an_announced = 4, an_complete = 3, an_failed = 1, an_missing = 0\<rparr>"
  by code_simp

lemma spin_alive: "alive_job_ids Slurm [''7''] (Answered 0 (printed [SCHED_ACK_PREFIX @ ''0''])) = Some {}"
  by code_simp

lemma spin_counts:
  "tasks_in spin_status ''complete'' = 3" "tasks_in spin_status ''failed'' = 1" "tasks_in spin_status ''pending'' = 0"
  "strict_count spin_status ''complete'' = Some 3" "strict_count spin_status ''failed'' = Some 1"
  "unresolved_unknown spin_status 4 = Some False" "classify_polling spin_status 4 False 0 = Some (Some ''failed'', Some FailedTasks)"
  "preempted_of spin_status = Some []"
  by code_simp+

lemma spin_observe:
  assumes "rw_runs w ''r'' = Some r" "spinning r" "spinning (wa_record st)"
  shows "\<exists>st' w'. observe spin_env spin_spec [] now st w = (SeenCensus spin_status False, st', w') \<and> rw_cluster w' = rw_cluster w
    \<and> wa_record st' = r\<lparr>last_status := spin_status\<rparr> \<and> rw_runs w' ''r'' = Some (r\<lparr>last_status := spin_status\<rparr>)
    \<and> wa_ticks st' = wa_ticks st \<and> wa_summary st' = wa_summary st \<and> wa_stream st' = wa_stream st"
proof -
  have env: "we_needs_ssh spin_env r'" "we_remote spin_env (AnnounceRead rid) v = (Answered 0 (printed [ANNOUNCE_ACK, ''complete=3'', ''failed=1'']), v)"
    "we_remote spin_env (AliveCheck ids) v = (Answered 0 (printed [SCHED_ACK_PREFIX @ ''0'']), v)" "we_family spin_env r' = Slurm"
    "we_text_now spin_env v = ''t''" for r' rid ids v
    by (simp_all add: spin_env_def)
  have kc: "\<not> is_kill_confirmed (wa_record st)" using assms(3) by (simp add: is_kill_confirmed_def spinning_def)
  define w1 where "w1 = w\<lparr>rw_runs := (rw_runs w)(''r'' \<mapsto> r\<lparr>last_status := spin_status\<rparr>)\<rparr>"
  have an: "announce_status spin_env ''r'' (wa_record st) w = (Some (Some (r\<lparr>last_status := spin_status\<rparr>)), w1)"
    using assms unfolding announce_status_def env prod.case
    by (simp add: spinning_def spin_read update_run_status_def Let_def spin_status_def env w1_def del: fun_upd_apply)
  have ck: "census_check spin_env spin_status st' w1 = ((spin_status, False), st'\<lparr>wa_static := 0, wa_sig := Some (3, 1, 0)\<rparr>, w1)"
    if "wa_record st' = r\<lparr>last_status := spin_status\<rparr>" for st'
    using assms(2) that by (simp add: census_check_def spin_counts census_liveness_probe_def env spinning_def spin_alive)
  show ?thesis
    using kc by (simp add: observe_def spin_spec_def env an ck census_waves_def) (simp add: w1_def)
qed

lemma spin_resume:
  assumes "spinning r"
  shows "maybe_auto_resume (we_rescue spin_env) ''r'' r [] w
    = (Some \<lparr>ao_resume = True, ao_reason = UnderCap, ao_tasks = [1], ao_resubmitted = False, ao_count = 0\<rparr>, w)"
proof -
  have t: "int_text 0 = ''0''" by code_simp
  show ?thesis using assms
    by (simp add: maybe_auto_resume_def spinning_def spin_env_def authoritative_preempted_ids_def list_or_empty_def map_filter_simps
        decide_auto_resume_from_ids_def resume_request_def t)
qed

lemma spin_failed:
  assumes "spinning (wa_record st)" "preempted_of (tk_summary row) = Some []"
  shows "failed_tick spin_env spin_spec el notes row st w
    = keep_watching spin_env spin_spec row (tk_actions row @ [AutoResume [1] False 0]) st w"
proof -
  have "lr_auto_resume (wa_record st)" "kill_requested_at (wa_record st) = []" "ms_run spin_spec = ''r''"
    using assms(1) by (simp_all add: spinning_def spin_spec_def)
  then show ?thesis by (simp add: failed_tick_def assms(2) spin_resume [OF assms(1)])
qed

definition spins :: "watch_state \<Rightarrow> rat recon_world \<Rightarrow> bool" where
  "spins st w \<longleftrightarrow> (\<exists>r. rw_runs w ''r'' = Some r \<and> spinning r) \<and> spinning (wa_record st) \<and> \<not> st_enabled (wa_stream st)
     \<and> (wa_ticks st \<le> 0 \<or> wa_summary st = spin_status)"

lemma spin_tick:
  assumes "spins st w" "wf_map facts = []"
  shows "\<exists>st' w'. watch_tick spin_env spin_spec facts st w = Go st' w' \<and> spins st' w' \<and> rw_cluster w' = rw_cluster w + 60"
proof -
  obtain r where r: "rw_runs w ''r'' = Some r" "spinning r" using assms(1) by (auto simp: spins_def)
  define st0 where "st0 = st\<lparr>wa_ticks := wa_ticks st + 1\<rparr>"
  have s0: "spinning (wa_record st0)" using assms(1) by (simp add: spins_def st0_def)
  obtain st1 w1 where o: "observe spin_env spin_spec [] (we_now spin_env w) st0 w = (SeenCensus spin_status False, st1, w1)"
    "rw_cluster w1 = rw_cluster w" "wa_record st1 = r\<lparr>last_status := spin_status\<rparr>" "rw_runs w1 ''r'' = Some (r\<lparr>last_status := spin_status\<rparr>)"
    "wa_ticks st1 = wa_ticks st0" "wa_summary st1 = wa_summary st0" "wa_stream st1 = wa_stream st0"
    using spin_observe [OF r s0] by metis
  have sr: "spinning (r\<lparr>last_status := spin_status\<rparr>)" using r(2) by (simp add: spinning_def)
  have d: "count_diff st1 spin_status ''complete'' = Some []" "count_diff st1 spin_status ''failed'' = Some []"
    using assms(1) o(5,6) by (auto simp: count_diff_def spin_counts spins_def st0_def)
  have c: "combine_phase spin_env spin_spec [] spin_status (st1\<lparr>wa_summary := spin_status\<rparr>) w1 = (Some ([], []), st1\<lparr>wa_summary := spin_status\<rparr>, w1)"
    by (simp add: combine_phase_def)
  define stream where "stream = wa_stream st1"
  have e: "\<not> st_enabled stream" using assms(1) o(7) by (simp add: stream_def spins_def st0_def)
  have f: "stream_finished_results (we_stream spin_env) ''r'' rec now s stream v = (None, stream, v)" for rec now s v
    using e by (simp add: stream_finished_results_def)
  define st2 where "st2 = st1\<lparr>wa_summary := spin_status, wa_stream := stream, wa_unknown := 0\<rparr>"
  have pk: "we_partial_ok spin_env rid v = False" for rid v by (simp add: spin_env_def)
  have v: "tick_verdict spin_env ''r'' spin_status False (st1\<lparr>wa_summary := spin_status, wa_stream := stream\<rparr>) w1
      = (Some (Some ''failed'', Some FailedTasks), st2)"
    using r(2) by (simp add: tick_verdict_def o(3) spinning_def spin_counts pk st2_def)
  define row where "row = \<lparr>tk_summary = spin_status, tk_newly_complete = [], tk_newly_failed = [], tk_newly_combined = [], tk_actions = [],
    tk_state = ''in_flight'', tk_next = None\<rparr>"
  define acts where "acts = [AutoResume [1] False 0]"
  have rec2: "wa_record st2 = r\<lparr>last_status := spin_status\<rparr>" by (simp add: st2_def o(3))
  have run: "ms_run spin_spec = ''r''" by (simp add: spin_spec_def)
  have settle: "settle_tick spin_env spin_spec facts now True False row (st1\<lparr>wa_summary := spin_status, wa_stream := stream\<rparr>) w1
      = keep_watching spin_env spin_spec row acts st2 w1" for now
    using spin_failed [of st2 row _ _ w1] sr by (simp add: settle_tick_def run row_def v rec2 spin_counts acts_def)
  have same: "st1\<lparr>wa_summary := spin_status, wa_stream := stream\<rparr> = st1\<lparr>wa_summary := spin_status\<rparr>" by (simp add: stream_def)
  have tick: "watch_tick spin_env spin_spec facts st w = keep_watching spin_env spin_spec row acts st2 w1"
    unfolding watch_tick_def Let_def st0_def [symmetric] assms(2) o(1) prod.case seen.case
    by (simp add: status_tick_def d assms(2) c f [unfolded stream_def] run row_def [symmetric] settle [unfolded same] same [unfolded stream_def])
  define v where "v = stamp_watchdog spin_env ''r'' 60 w1"
  obtain r2 where r2: "rw_runs v ''r'' = Some r2" "spinning r2" "rw_cluster v = rw_cluster w"
    using sr o(2,4) by (auto simp: v_def stamp_watchdog_def stamp_run_tick_def update_run_record_def spinning_def)
  have poll: "floor_poll_interval spin_env (ms_poll spin_spec) = 60" by (simp add: floor_poll_interval_def spin_env_def spin_spec_def)
  define st3 where "st3 = log_tick (row\<lparr>tk_actions := acts, tk_state := ''in_flight'', tk_next := Some 60\<rparr>) ((reset_pace 60 st2)\<lparr>wa_running := None\<rparr>)"
  have "watch_tick spin_env spin_spec facts st w = Go (refreshed ''r'' st3 v) (we_sleep spin_env 60 v)"
    unfolding tick keep_watching_def Let_def poll run by (simp add: st3_def v_def)
  moreover have "spins (refreshed ''r'' st3 v) (we_sleep spin_env 60 v)"
    using r2 e by (simp add: spins_def refreshed_def st3_def log_tick_def reset_pace_def st2_def spin_env_def)
  moreover have "rw_cluster (we_sleep spin_env 60 v) = rw_cluster w + 60" using r2(3) by (simp add: spin_env_def)
  ultimately show ?thesis by blast
qed

lemma spin_watch:
  "spins st w \<Longrightarrow> wf_map facts = [] \<Longrightarrow>
     \<exists>st' w'. watch spin_env spin_spec facts n st w = Watching st' w' \<and> rw_cluster w' = rw_cluster w + 60 * of_nat n"
proof (induction n arbitrary: st w)
  case 0
  then show ?case by simp
next
  case (Suc n)
  obtain st1 w1 where t: "watch_tick spin_env spin_spec facts st w = Go st1 w1" "spins st1 w1" "rw_cluster w1 = rw_cluster w + 60"
    using spin_tick [OF Suc.prems] by blast
  then show ?case using Suc.IH [OF t(2) Suc.prems(2)] by (auto simp: algebra_simps)
qed

lemma spin_flow:
  "\<exists>logged w'. monitor_flow spin_env spin_spec n spin_world = (StillWatching, logged, w') \<and> rw_cluster w' = 60 * of_nat n"
proof -
  have r: "rw_runs spin_world ''r'' = Some (rescue_record 0)" "spinning (rescue_record 0)"
    by (simp_all add: spin_world_def spinning_def rescue_record_def submitting_record_def)
  have f: "wf_map (facts_of spin_env spin_spec spin_world) = []"
    by (simp add: facts_of_def spin_env_def wave_map_of_def Let_def)
  have s: "spins (first_state spin_env spin_spec (rescue_record 0) spin_world) spin_world"
    using r by (simp add: spins_def first_state_def Let_def incremental_harvest_enabled_def spin_spec_def new_stream_def)
  obtain st' w' where "watch spin_env spin_spec (facts_of spin_env spin_spec spin_world) n (first_state spin_env spin_spec (rescue_record 0) spin_world) spin_world
      = Watching st' w'" "rw_cluster w' = 60 * of_nat n"
    using spin_watch [OF s f, of n] by (auto simp: spin_world_def)
  moreover have "lr_job_ids (rescue_record 0) \<noteq> []" using r(2) by (simp add: spinning_def)
  ultimately show ?thesis using r(1) by (simp add: monitor_flow_def Let_def) (simp add: spin_spec_def)
qed

text \<open>C36: (A counter that was not bumped keeps the watch for ever) The bump of the resume counter was lost after its request had been served,
  and the resumed tasks have failed again: every tick replays the served request, submits nothing, reports that it resumes and
  skips the check of the budget, so the watch of a run whose budget is an hour is still going after any number of ticks.\<close>

theorem stale_counter_watches_forever:
  "\<exists>logged w'. monitor_flow spin_env spin_spec n spin_world = (StillWatching, logged, w') \<and> rw_cluster w' = 60 * of_nat n"
  by (rule spin_flow)

lemma spin_steady: "steady spin_env"
  by (simp add: steady_def env_keeps_def spin_env_def max_def)


section \<open>A breaker that is open at the end of the budget\<close>

lemma skip_marker:
  assumes "status_at_exit rid rec w \<notin> set TERMINAL_STATUSES"
  shows "terminal_harvest env rid ''abnormal-exit'' rec w
    = (let m = (new_marker (hv_utcnow env w) rid ''abnormal-exit'')\<lparr>hm_skipped := Some ''run_not_terminal''\<rparr> in (m, write_marker env rid m w))"
  using assms by (simp add: terminal_harvest_def Let_def)

text \<open>C35: (A watch that ends on an open breaker raises and harvests nothing) The budget is spent and the poll finds the breaker open, so the
  flow is to end with a timeout and its harvest; but the pull of the run times before the return meets the same open breaker, its
  error is not caught, and the flow ends in an error whose harvest is a skip: the journal and the cluster are left as they are.\<close>

theorem open_breaker_ends_in_error:
  assumes "rw_runs w0 (ms_run spec) = Some rec0" "lr_job_ids rec0 \<noteq> []"
    "watch env spec (facts_of env spec w0) n (first_state env spec rec0 w0) w0 = Watching st w"
    "observe env spec (wf_map (facts_of env spec w0)) (we_now env w) (st\<lparr>wa_ticks := wa_ticks st + 1\<rparr>) w = (SeenFault (WalkCircuitOpen deadline), st1, w1)"
    "ms_budget spec \<le> we_now env w1 - we_now env w0"
    "we_failover env (ms_run spec) w1 = (None, w2)" "we_pull_runtime env (wa_record st1) w2 = (PullRaised, w3)"
    "rw_runs w3 (ms_run spec) = Some r" "run_status r \<notin> set TERMINAL_STATUSES"
  shows "\<exists>logged w'. monitor_flow env spec (Suc n) w0 = (FlowRaised, logged, w') \<and> tk_state (last logged) = ''timeout''
    \<and> rw_runs w' = rw_runs w3 \<and> rw_cluster w' = rw_cluster w3
    \<and> (\<exists>m. hm_skipped m = Some ''run_not_terminal'' \<and> w' = write_marker (we_harvest env) (ms_run spec) m w3)"
proof -
  define st2 where "st2 = log_tick (error_row (reset_pace (floor_poll_interval env (ms_poll spec)) (st1\<lparr>wa_env_polls := 0\<rparr>)) [PollError] ''timeout'' None)
    (reset_pace (floor_poll_interval env (ms_poll spec)) (st1\<lparr>wa_env_polls := 0\<rparr>))"
  have rec: "wa_record st2 = wa_record st1" by (simp add: st2_def log_tick_def reset_pace_def)
  have fault: "fault_tick env spec (we_now env w0) (WalkCircuitOpen deadline) st1 w1 = Crash st2 w3"
    using assms(5-7) by (simp add: fault_tick_def ssh_fault_def Let_def failed_over_def time_out_def ingest_runtime_def rec [unfolded st2_def] st2_def)
  have tick: "watch_tick env spec (facts_of env spec w0) st w = Crash st2 w3"
    using fault by (simp add: watch_tick_def Let_def assms(4))
  have w: "watch env spec (facts_of env spec w0) (Suc n) (first_state env spec rec0 w0) w0 = Crashed st2 w3"
    using watch_more [OF assms(3), of 1] by (simp add: tick)
  define m where "m = (new_marker (hv_utcnow (we_harvest env) w3) (ms_run spec) ''abnormal-exit'')\<lparr>hm_skipped := Some ''run_not_terminal''\<rparr>"
  have "status_at_exit (ms_run spec) (wa_record st2) w3 \<notin> set TERMINAL_STATUSES" using assms(8,9) by (simp add: status_at_exit_def)
  then have h: "snd (terminal_harvest (we_harvest env) (ms_run spec) ''abnormal-exit'' (wa_record st2) w3) = write_marker (we_harvest env) (ms_run spec) m w3"
    by (simp add: skip_marker m_def Let_def)
  have "monitor_flow env spec (Suc n) w0 = (FlowRaised, wa_log st2, write_marker (we_harvest env) (ms_run spec) m w3)"
    using assms(1,2) w h by (simp add: monitor_flow_def Let_def del: watch.simps)
  moreover have "tk_state (last (wa_log st2)) = ''timeout''" by (simp add: st2_def log_tick_def error_row_def)
  moreover have "hm_skipped m = Some ''run_not_terminal''" by (simp add: m_def)
  ultimately show ?thesis by (auto simp: write_marker_def)
qed

text \<open>No announcement, no job in the queue, and every connection refused by the breaker.\<close>

definition blocked_env :: "rat watch_env" where
  "blocked_env = spin_env\<lparr>we_remote := (\<lambda>call w. (Severed, w)), we_report := (\<lambda>r w. (WalkCircuitOpen (Some 900), w)),
     we_pull_runtime := (\<lambda>r w. (PullRaised, w))\<rparr>"

definition blocked_spec :: monitor_spec where "blocked_spec = spin_spec\<lparr>ms_budget := 0\<rparr>"

theorem open_breaker_ends_in_error_witness:
  "\<exists>logged w'. monitor_flow blocked_env blocked_spec 1 spin_world = (FlowRaised, logged, w') \<and> tk_state (last logged) = ''timeout''
     \<and> rw_runs w' = rw_runs spin_world"
proof -
  have run: "ms_run blocked_spec = ''r''" by (simp add: blocked_spec_def spin_spec_def)
  have r: "rw_runs spin_world (ms_run blocked_spec) = Some (rescue_record 0)" "lr_job_ids (rescue_record 0) = [''7'']"
    by (simp_all add: spin_world_def rescue_record_def run)
  have obs: "observe blocked_env blocked_spec wmap now st spin_world = (SeenFault (WalkCircuitOpen (Some 900)), st, spin_world)"
    if "wa_record st = rescue_record 0" for wmap now st
  proof -
    have a: "census_liveness_probe blocked_env rec w = (None, w)" for rec w
      by (simp add: census_liveness_probe_def blocked_env_def alive_job_ids_def)
    have b: "announce_status blocked_env rid rec w = (Some None, w)" for rid rec w
      by (simp add: announce_status_def blocked_env_def read_announcements_def)
    have c: "walk_tick blocked_env ''r'' now st spin_world = (SeenFault (WalkCircuitOpen (Some 900)), st, spin_world)"
      by (simp add: walk_tick_def record_status_def blocked_env_def spin_env_def spin_world_def)
    show ?thesis by (simp add: observe_def Let_def pull_tick_def a b c run)
  qed
  have rec0: "wa_record ((first_state blocked_env blocked_spec (rescue_record 0) spin_world)\<lparr>wa_ticks := n\<rparr>) = rescue_record 0" for n by simp
  have st: "run_status (rescue_record 0) \<notin> set TERMINAL_STATUSES" by (simp add: rescue_record_def TERMINAL_STATUSES_def)
  have fo: "we_failover blocked_env (ms_run blocked_spec) spin_world = (None, spin_world)"
    "we_pull_runtime blocked_env rec spin_world = (PullRaised, spin_world)" for rec by (simp_all add: blocked_env_def spin_env_def)
  have b: "ms_budget blocked_spec \<le> we_now blocked_env spin_world - we_now blocked_env spin_world" by (simp add: blocked_spec_def)
  have jobs: "lr_job_ids (rescue_record 0) \<noteq> []" using r(2) by simp
  have w0: "watch blocked_env blocked_spec (facts_of blocked_env blocked_spec spin_world) 0
      (first_state blocked_env blocked_spec (rescue_record 0) spin_world) spin_world
    = Watching (first_state blocked_env blocked_spec (rescue_record 0) spin_world) spin_world" by simp
  from open_breaker_ends_in_error [OF r(1) jobs w0 obs [OF rec0] b fo r(1) st] show ?thesis by auto
qed

end
