(* ===== verification/Spec2Isabelle.thy ===== *)
theory Spec2Isabelle
  imports SshBackoff CampaignAdvance QueueLedgerLaws QueuePlacementLaws ArrayJobsLaws ResubmissionLaws SelfHeal DriveRace QueueDispatchLaws SubmitOnceLimits ReconcileLaws WaveCombineLaws MonitorLimits
begin

text \<open>
  hpc-copilot drives sweeps of experiments on shared clusters over ssh. This library models the parts of
  \<open>src/src/hpc_agent\<close> that decide: when a host may be dialled, what a campaign does next, where a queued
  item goes, how a sweep becomes scheduler arrays, how failed tasks go back, how a run is watched to its end, and
  which block of a run's workflow runs next on whose authority. Each theory names the
  files it translates; a definition keeps the name of the function it models.

  \<^bold>\<open>Parts and how they interact.\<close>

  \<^item> \<open>SshCircuit\<close>, \<open>SshPacing\<close>, \<open>SshSlots\<close> (\<open>infra/ssh_circuit.py\<close>, \<open>ssh_pacing.py\<close>, \<open>ssh_slots.py\<close>): the
    per-host breaker document, the token bucket and the connection slots, each a small file shared by all
    processes. \<open>GuardedCall\<close> composes them the way \<open>guarded_call\<close> does: gate, pace, slot, call, verdict.
    \<open>RetryPolicy\<close> (\<open>infra/retry.py\<close>) and \<open>SshBackoff\<close> (the ladder of \<open>infra/remote.py\<close>) retry it.
  \<^item> \<open>Decision\<close> (\<open>_kernel/decision/kernel.py\<close>), \<open>CampaignEvidence\<close>, \<open>CampaignBudget\<close>, \<open>CampaignConverged\<close>,
    \<open>CampaignAdvance\<close> (\<open>meta/campaign\<close>): the evidence of a campaign and the ladder of rules that emits its
    next action, with the budget acknowledgement and the refill.
  \<^item> \<open>QueueOccupancy\<close>, \<open>QueueLedger\<close>, \<open>QueueRetry\<close>, \<open>QueuePlacement\<close>, \<open>QueueDispatch\<close> (\<open>state/queue_intake.py\<close>,
    \<open>state/queue_occupancy.py\<close>, \<open>ops/queue\<close>): the append-only ledger of work items, its fold, its
    compaction, declared retries, the occupancy of a campaign's pool, the placement pass, and the tick that
    acts on it, with its janitor and the wake edge. The refill of
    a campaign reads the occupancy that the queue's own items make; the root theory states what holds of both.
  \<^item> \<open>ArrayPlan\<close>, \<open>ArrayJobs\<close>, \<open>Resubmission\<close> (\<open>infra/throughput.py\<close>, \<open>infra/backends\<close>,
    \<open>ops/recover\<close>, \<open>ops/recover_flow.py\<close>, \<open>ops/monitor/kill.py\<close>): tasks packed into arrays and waves, what
    the scheduler gets and which task each index runs, cancels of some tasks, and the resubmission of failed ones.
  \<^item> \<open>BlockChain\<close> (\<open>infra/block_chain.py\<close>, \<open>ops/field_ownership.py\<close>), \<open>StandingConsent\<close>, \<open>SelfHeal\<close>
    (\<open>ops/overnight.py\<close>, \<open>ops/block_gate.py\<close>, \<open>state/placement_drift.py\<close>), \<open>BlockDrive\<close>
    (\<open>_kernel/lifecycle/block_drive.py\<close>, the pending marker of \<open>state/journal.py\<close>): the tables of the workflow
    blocks and the composers of their specs, a person's greenlights and standing consents, and one tick of the
    driver, which plans from the marker and the journal, consumes the marker by compare-and-swap, runs blocks
    and parks. \<open>DriveRace\<close> puts several drivers over one marker.
  \<^item> \<open>ClusterText\<close>, \<open>RunVerdict\<close>, \<open>RunJournal\<close>, \<open>Reconcile\<close>, \<open>SubmitOnce\<close> (\<open>infra/jobmap.py\<close>, parsers of
    \<open>infra/backends/_engine.py\<close>, \<open>ops/monitor/classify.py\<close>, \<open>state/journal.py\<close>, \<open>ops/submit/runner.py\<close>,
    \<open>ops/monitor/reconcile.py\<close>, the main leg of \<open>ops/submit_flow.py\<close>): a submission mints a record, dispatches
    with a marker, an id file and a token on the cluster, and promotes the record; a reconcile reads the cluster and
    recovers a record whose submitter died, or settles a run whose jobs are gone. The store of run records is shared
    with the queue, whose occupancy reads the same statuses.
  \<^item> \<open>MonitorLoop\<close> (\<open>ops/monitor_flow.py\<close>, \<open>ops/monitor/status.py\<close>, \<open>tick_log.py\<close>): the watch of a run, over
    \<open>WaveCombine\<close> (\<open>ops/aggregate/combine.py\<close>, \<open>infra/transport/_combiner.py\<close>, \<open>ops/monitor/waves.py\<close>),
    \<open>StreamHarvest\<close> and \<open>HarvestGuard\<close> (\<open>ops/monitor\<close>) and \<open>AutoRecover\<close> (\<open>ops/auto_resume_flow.py\<close>,
    \<open>ops/resolve_and_recover_flow.py\<close>, \<open>ops/recover/resolve.py\<close>). A tick reads the run with the parsers of
    \<open>ClusterText\<close>, combines the finished waves, streams results, takes the verdict of \<open>RunVerdict\<close>, rescues or
    settles the run in \<open>RunJournal\<close>, and sleeps; every end owes a harvest, whose ledger is the one a reconcile reads.

  \<^bold>\<open>How the state corresponds.\<close> A file under a lock is a field of a world or store that an operation returns
  updated; what other processes do between two operations is an argument (a function of the poll, a list of
  appended records, a history of operations). JSON values are \<open>jval\<close> of \<open>JsonValues\<close>, dictionaries are
  association lists in insertion order, raised errors are the left half of a sum or \<open>None\<close>. Interfaces are
  locales (a decision point, the breaker's contract, a pool of leases), each interpreted on the model in the
  theory that provides it.

  \<^bold>\<open>What the lemmas show.\<close> Each \<open>Laws\<close> theory, or the second half of a theory without one, first describes one
  operation on all its branches, then sequences of operations by induction: the breaker's document invariant,
  its contract and its single-flight probe; slots that are never over-admitted, and the race that evicts a live
  claim; the order of a guarded call; the precedence of the campaign rules and their liveness under a budget;
  the ledger's fold under any history of appends and compactions; the placement of every item exactly
  once, within declared limits, on the least loaded cluster; a dispatch that returns every item and starts no
  run twice; arrays that cover the tasks and read back
  from their expressions; resubmissions that run each failed task once, or twice on one kind of family;
  when a consent is live, and that it lets a boundary pass once; that no block of a driver's tick that
  spends starts without a greenlight or a live consent, that the spec a person saw is the one that runs, that a
  failed span restores its marker, and that no two drivers run one boundary, except by the journal; that the
  recovery of a submission refines a specification over the cluster, by which at most one array of a run is ever
  queued (\<open>SubmitOnceLaws\<close>), and where that ends (\<open>SubmitOnceLimits\<close>); that no run is settled without evidence;
  that each step of a watch keeps any relation its environment keeps (\<open>MonitorLaws\<close>), by which it ends near its budget
  unless it reports resubmissions (\<open>MonitorBounds\<close>, \<open>MonitorLimits\<close>, the latter with two watches that end otherwise);
  that a rescue stays within its opt-in and cap, and every end leaves one truthful marker; that a fused combine reads back.

  \<^bold>\<open>Bounds and fuel.\<close> The slot wait polls at most \<open>SLOT_WAIT_MAX_SEC\<close> over its smallest interval, rounded up, plus one:
  401 iterations are enough, and the theorem on \<open>acquire_slot\<close> shows the fuel is never exhausted. Retries recurse
  on the attempts left, the packer on the batches left. The chain of a tick runs on fuel: 13 spans are enough, plus
  those a watch that times out may repeat (\<open>tick_ends\<close>). The watch of a run runs on a number of ticks, because the code may
  loop for ever; \<open>watch_ends_near_budget\<close> bounds the ticks without a resubmission. Every other function is structural.

  \<^bold>\<open>Simplifications.\<close> Floats are exact rationals and integer quotients are exact; the two agree with the code
  below the precision of a double. Text is ASCII. A rationale sentence is kept as the values it renders. Times
  are arguments, and so are the reader of time stamps, the hash of a spec and, for the driver, the blocks themselves:
  any function on the state of the run. What a watch asks of the cluster, the clock and the file system is a record of
  functions that take the world and return it, so other processes may act in each of them; warnings that are logged
  once, and the local cache of a status, are left out. In the ledger a blank line is no line, an undecodable file is the flag \<open>decodes\<close>, and a
  \<open>record_count\<close> that \<open>int\<close> cannot read counts as one.

  \<^bold>\<open>Not modelled.\<close> Pydantic and JSON schemas (arguments where a decision depends on them), the command line, the
  registry, hooks and detached workers, command construction and subprocesses of the backends and the
  transport, the code that runs on the cluster, rendering of notebooks, packs and briefs, and the source
  rewriting of the experiment kit: reflection, process and file I/O, or text for people.
\<close>

section \<open>A refill tick against the queue\<close>

text \<open>C32: (a refill tick never overfills the pool) Let the loop decide a refill on the queue's own occupancy
  number, and let the caller enqueue new ledger items for the campaign that take at most the decided
  number of slots, none of them taken before. Then a new report on the longer ledger exists, it counts
  exactly the new slots on top, and it does not exceed the pool target.\<close>

theorem refill_tick_respects_pool:
  assumes "ids_ok journal" and "occupancy_detail journal items cid = Some oc"
    and "ev_occupied e = int (occ_count oc)" and "advance_on async oa e = Some r"
    and "adv_decision r = ''refill''" and "adv_refill_count r = Some n"
    and "int (card (slot_of_item ` waiting_items journal new cid)) \<le> n"
    and "slot_of_item ` waiting_items journal new cid \<inter> set (occ_slots oc) = {}"
  shows "\<exists>oc'. occupancy_detail journal (items @ new) cid = Some oc'
     \<and> occ_count oc' = occ_count oc + card (slot_of_item ` waiting_items journal new cid)
     \<and> int (occ_count oc') \<le> max (int (occ_count oc)) (pool_target e)"
proof -
  obtain oc' where oc': "occupancy_detail journal (items @ new) cid = Some oc'"
    "occ_count oc' = occ_count oc + card (slot_of_item ` waiting_items journal new cid)"
    using enqueue_occupies [OF assms(1,2,8)] by blast
  have "n = refill_count e" "0 < refill_count e"
    using refill_decision [OF assms(4,5)] assms(6) by simp_all
  with refill_count_bound [of e] show ?thesis using oc' assms(3,7) by auto
qed

theorem refill_tick_respects_pool_witness:
  "\<exists>oc'. occupancy_detail (Some []) ([] @ fold_intake_records [demo_enqueue]) ''b_c'' = Some oc' \<and> occ_count oc' = 1"
proof -
  obtain e r where r: "advance_on True ''surface'' e = Some r" "adv_decision r = ''refill''" "ev_occupied e = 0"
    "refill_count e = 4" by (rule demo_refill)
  have n: "adv_refill_count r = Some 4" using refill_decision(5) [OF r(1,2)] r(4) by simp
  have ok: "ids_ok (Some [])" by (simp add: ids_ok_def)
  obtain oc where oc: "occupancy_detail (Some []) [] ''b_c'' = Some oc" "occ_count oc = 0" "occ_slots oc = []"
    by (simp add: occupancy_detail_def find_runs_by_campaign_def campaign_items_def List.map_filter_simps Let_def)
  have w: "slot_of_item ` waiting_items (Some []) (fold_intake_records [demo_enqueue]) ''b_c'' = {ItemSlot ''i1''}"
    by (rule demo_waiting)
  show ?thesis
    using refill_tick_respects_pool [OF ok oc(1) _ r(1,2) n, of "fold_intake_records [demo_enqueue]"] r(3) oc(2,3)
    by (auto simp: w)
qed

end
